(* ===== verification/Prelude.thy ===== *)
theory Prelude
  imports Main
begin

section \<open>Shared vocabulary: actions that can raise, list and option lemmas\<close>

text \<open>
  Python code that mutates an object and may raise is an \<^emph>\<open>action\<close>: a function of the
  state that returns an error or a value together with the state it leaves behind.
  A raise keeps the state reached so far, as an exception in Python does not undo the
  assignments made before it.  Pure validators that only raise are plain sums
  \<open>error + value\<close>.  The lemmas at the end are the facts about lists that several
  components need.
\<close>

named_theorems action_simps "unfolding rules of the action combinators"
named_theorems result_simps "inversion rules of the pure result combinators"

subsection \<open>Pure results\<close>

definition rbind :: "'e + 'a \<Rightarrow> ('a \<Rightarrow> 'e + 'b) \<Rightarrow> 'e + 'b" where
  "rbind r f = (case r of Inl e \<Rightarrow> Inl e | Inr x \<Rightarrow> f x)"

definition require :: "bool \<Rightarrow> 'e \<Rightarrow> 'e + unit" where
  "require b e = (if b then Inr () else Inl e)"

lemma rbind_simps [simp]:
  "rbind (Inl e) f = Inl e"
  "rbind (Inr x) f = f x"
  by (simp_all add: rbind_def)

lemma rbind_Inr_iff [result_simps]:
  "rbind r f = Inr y \<longleftrightarrow> (\<exists>x. r = Inr x \<and> f x = Inr y)"
  by (cases r) auto

lemma rbind_Inl_iff [result_simps]:
  "rbind r f = Inl e \<longleftrightarrow> r = Inl e \<or> (\<exists>x. r = Inr x \<and> f x = Inl e)"
  by (cases r) auto

lemma require_Inr_iff [result_simps]: "require b e = Inr u \<longleftrightarrow> b"
  by (cases u) (simp add: require_def)

lemma require_Inl_iff [result_simps]: "require b e = Inl e' \<longleftrightarrow> \<not> b \<and> e' = e"
  by (auto simp: require_def)

lemma if_Inl_Inr_iff [result_simps]: "(if b then Inl e else r) = Inr x \<longleftrightarrow> \<not> b \<and> r = Inr x"
  by simp

lemma require_True [simp]: "require True e = Inr ()"
  and require_False [simp]: "require False e = Inl e"
  by (simp_all add: require_def)

text \<open>\<open>errs_only P r\<close>: if \<open>r\<close> is an error then the error satisfies \<open>P\<close>.\<close>

definition errs_only :: "('e \<Rightarrow> bool) \<Rightarrow> 'e + 'a \<Rightarrow> bool" where
  "errs_only P r \<longleftrightarrow> (\<forall>e. r = Inl e \<longrightarrow> P e)"

lemma errs_only_intros [intro]:
  "errs_only P (Inr x)"
  "P e \<Longrightarrow> errs_only P (Inl e)"
  "errs_only P a \<Longrightarrow> (\<And>x. errs_only P (f x)) \<Longrightarrow> errs_only P (rbind a f)"
  "errs_only P a \<Longrightarrow> errs_only P b \<Longrightarrow> errs_only P (if c then a else b)"
  by (auto simp: errs_only_def rbind_Inl_iff)

text \<open>A validating loop: the first element whose check fails decides the error.\<close>

fun check_all :: "('a \<Rightarrow> 'e + unit) \<Rightarrow> 'a list \<Rightarrow> 'e + unit" where
  "check_all f [] = Inr ()"
| "check_all f (x # xs) = rbind (f x) (\<lambda>_. check_all f xs)"

lemma check_all_Inr_iff [result_simps]:
  "check_all f xs = Inr u \<longleftrightarrow> (\<forall>x \<in> set xs. f x = Inr ())"
  by (induction xs) (auto simp: rbind_Inr_iff)

text \<open>A loop that converts every element and stops at the first error.\<close>

fun map_result :: "('a \<Rightarrow> 'e + 'b) \<Rightarrow> 'a list \<Rightarrow> 'e + 'b list" where
  "map_result f [] = Inr []"
| "map_result f (x # xs) =
     rbind (f x) (\<lambda>y. rbind (map_result f xs) (\<lambda>ys. Inr (y # ys)))"

lemma map_result_length: "map_result f xs = Inr ys \<Longrightarrow> length ys = length xs"
  by (induction xs arbitrary: ys) (auto simp: result_simps)

lemma map_result_nth:
  "map_result f xs = Inr ys \<Longrightarrow> i < length xs \<Longrightarrow> f (xs ! i) = Inr (ys ! i)"
  by (induction xs arbitrary: ys i) (auto simp: result_simps nth_Cons split: nat.splits)

subsection \<open>Actions\<close>

type_synonym ('s, 'e, 'a) action = "'s \<Rightarrow> ('e + 'a) \<times> 's"

definition ret :: "'a \<Rightarrow> ('s, 'e, 'a) action" where
  "ret x s = (Inr x, s)"

definition raise :: "'e \<Rightarrow> ('s, 'e, 'a) action" where
  "raise e s = (Inl e, s)"

definition sbind ::
  "('s, 'e, 'a) action \<Rightarrow> ('a \<Rightarrow> ('s, 'e, 'b) action) \<Rightarrow> ('s, 'e, 'b) action" where
  "sbind m f s = (case m s of (Inl e, s') \<Rightarrow> (Inl e, s') | (Inr x, s') \<Rightarrow> f x s')"

definition lift_result :: "'e + 'a \<Rightarrow> ('s, 'e, 'a) action" where
  "lift_result r s = (r, s)"

definition assert_that :: "bool \<Rightarrow> 'e \<Rightarrow> ('s, 'e, unit) action" where
  "assert_that b e s = ((if b then Inr () else Inl e), s)"

definition modify :: "('s \<Rightarrow> 's) \<Rightarrow> ('s, 'e, unit) action" where
  "modify f s = (Inr (), f s)"

definition gets :: "('s \<Rightarrow> 'a) \<Rightarrow> ('s, 'e, 'a) action" where
  "gets f s = (Inr (f s), s)"

text \<open>\<open>try: m except error: handler\<close>, with the state \<open>m\<close> reached.\<close>

definition try_except ::
  "('s, 'e, 'a) action \<Rightarrow> ('e \<Rightarrow> ('s, 'e, 'a) action) \<Rightarrow> ('s, 'e, 'a) action" where
  "try_except m h s = (case m s of (Inl e, s') \<Rightarrow> h e s' | (Inr x, s') \<Rightarrow> (Inr x, s'))"

text \<open>Observing the outcome of a call without propagating its exception.\<close>

definition attempt :: "('s, 'e, 'a) action \<Rightarrow> ('s, 'e, 'e + 'a) action" where
  "attempt m s = (case m s of (r, s') \<Rightarrow> (Inr r, s'))"

lemma ret_apply [simp, action_simps]: "ret x s = (Inr x, s)"
  and raise_apply [simp, action_simps]: "raise e s = (Inl e, s)"
  and modify_apply [simp, action_simps]: "modify f s = (Inr (), f s)"
  and gets_apply [simp, action_simps]: "gets g s = (Inr (g s), s)"
  and lift_result_apply [simp, action_simps]: "lift_result r s = (r, s)"
  by (simp_all add: ret_def raise_def modify_def gets_def lift_result_def)

lemma sbind_Inr_iff [action_simps]:
  "sbind m f s = (Inr y, s'') \<longleftrightarrow> (\<exists>x s'. m s = (Inr x, s') \<and> f x s' = (Inr y, s''))"
  by (auto simp: sbind_def split: prod.splits sum.splits)

lemma sbind_Inl_iff [action_simps]:
  "sbind m f s = (Inl e, s'') \<longleftrightarrow>
     m s = (Inl e, s'') \<or> (\<exists>x s'. m s = (Inr x, s') \<and> f x s' = (Inl e, s''))"
  by (auto simp: sbind_def split: prod.splits sum.splits)

lemma assert_that_Inr_iff [action_simps]: "assert_that b e s = (Inr u, s') \<longleftrightarrow> b \<and> s' = s"
  by (cases u) (auto simp: assert_that_def)

lemma assert_that_Inl_iff [action_simps]:
  "assert_that b e s = (Inl e', s') \<longleftrightarrow> \<not> b \<and> e' = e \<and> s' = s"
  by (auto simp: assert_that_def)

lemma try_except_Inr_iff [action_simps]:
  "try_except m h s = (Inr y, s'') \<longleftrightarrow>
     m s = (Inr y, s'') \<or> (\<exists>e s'. m s = (Inl e, s') \<and> h e s' = (Inr y, s''))"
  by (auto simp: try_except_def split: prod.splits sum.splits)

lemma try_except_Inl_iff [action_simps]:
  "try_except m h s = (Inl e', s'') \<longleftrightarrow>
     (\<exists>e s'. m s = (Inl e, s') \<and> h e s' = (Inl e', s''))"
  by (auto simp: try_except_def split: prod.splits sum.splits)

lemma attempt_iff [action_simps]:
  "attempt m s = (Inr r, s') \<longleftrightarrow> m s = (r, s')"
  by (auto simp: attempt_def split: prod.splits)

lemma attempt_not_Inl [simp]: "attempt m s \<noteq> (Inl e, s')"
  by (auto simp: attempt_def split: prod.splits)

text \<open>
  Evaluation of a bind whose first action is known, for closed witnesses.
\<close>

lemma sbind_step: "m s = (Inr x, s') \<Longrightarrow> sbind m f s = f x s'"
  by (simp add: sbind_def)

lemma sbind_stop: "m s = (Inl e, s') \<Longrightarrow> sbind m f s = (Inl e, s')"
  by (simp add: sbind_def)

subsection \<open>Relations between the states before and after an action\<close>

text \<open>
  \<open>keeps R m\<close>: whatever its outcome, \<open>m\<close> leaves a state that is \<open>R\<close>-related to the one
  it started in.  For a reflexive and transitive \<open>R\<close> (an order on histories: what is
  never undone) the combinators preserve the property, so that it is established
  for the primitive operations only.
\<close>

definition keeps :: "('s \<Rightarrow> 's \<Rightarrow> bool) \<Rightarrow> ('s, 'e, 'a) action \<Rightarrow> bool" where
  "keeps R m \<longleftrightarrow> (\<forall>s. R s (snd (m s)))"

lemma keepsD: "keeps R m \<Longrightarrow> m s = (r, s') \<Longrightarrow> R s s'"
  unfolding keeps_def by (metis snd_conv)

definition fails_keeping :: "('s \<Rightarrow> 's \<Rightarrow> bool) \<Rightarrow> ('s, 'e, 'a) action \<Rightarrow> bool" where
  "fails_keeping R m \<longleftrightarrow> (\<forall>s e s'. m s = (Inl e, s') \<longrightarrow> R s s')"

lemma fails_keepingD: "fails_keeping R m \<Longrightarrow> m s = (Inl e, s') \<Longrightarrow> R s s'"
  by (auto simp: fails_keeping_def)

lemma keeps_fails: "keeps R m \<Longrightarrow> fails_keeping R m"
  by (auto simp: fails_keeping_def dest: keepsD)

lemma fails_cases:
  "fails_keeping R m \<Longrightarrow> fails_keeping R n \<Longrightarrow> fails_keeping R (if c then m else n)"
  "(\<And>a b. fails_keeping R (f a b)) \<Longrightarrow> fails_keeping R (case p of (a, b) \<Rightarrow> f a b)"
  "fails_keeping R m \<Longrightarrow> (\<And>x. fails_keeping R (g x)) \<Longrightarrow>
     fails_keeping R (case v of None \<Rightarrow> m | Some x \<Rightarrow> g x)"
  by (auto split: prod.splits option.splits)

lemma keeps_mono: "keeps R m \<Longrightarrow> (\<And>a b. R a b \<Longrightarrow> Q a b) \<Longrightarrow> keeps Q m"
  by (auto simp: keeps_def)

locale history =
  fixes R :: "'s \<Rightarrow> 's \<Rightarrow> bool"
  assumes refl [simp, intro]: "R s s"
    and trans [trans]: "R a b \<Longrightarrow> R b c \<Longrightarrow> R a c"
begin

lemma keeps_pure [intro]:
  "keeps R (ret x)" "keeps R (raise e)" "keeps R (lift_result r)" "keeps R (gets f)"
  "keeps R (assert_that b e)"
  by (simp_all add: keeps_def assert_that_def)

lemma keeps_modify: "(\<And>s. R s (f s)) \<Longrightarrow> keeps R (modify f)"
  by (simp add: keeps_def)

lemma keeps_sbind [intro]:
  assumes "keeps R m" and "\<And>x. keeps R (f x)"
  shows "keeps R (sbind m f)"
  unfolding keeps_def
proof
  fix s
  show "R s (snd (sbind m f s))"
    using assms trans [of s "snd (m s)"]
    by (auto simp: keeps_def sbind_def split: prod.splits sum.splits)
qed

lemma fails_sbind:
  assumes "keeps R m" and "\<And>x. fails_keeping R (f x)"
  shows "fails_keeping R (sbind m f)"
  unfolding fails_keeping_def
proof (intro allI impI)
  fix s e s'
  assume "sbind m f s = (Inl e, s')"
  then consider "m s = (Inl e, s')" | x t where "m s = (Inr x, t)" "f x t = (Inl e, s')"
    by (auto simp: sbind_Inl_iff)
  then show "R s s'"
  proof cases
    case 1
    then show ?thesis by (rule keepsD [OF assms(1)])
  next
    case 2
    then show ?thesis
      using keepsD [OF assms(1)] fails_keepingD [OF assms(2)] trans by blast
  qed
qed

lemma keeps_try_except [intro]:
  assumes "keeps R m" and "\<And>e. keeps R (h e)"
  shows "keeps R (try_except m h)"
  unfolding keeps_def
proof
  fix s
  show "R s (snd (try_except m h s))"
    using assms trans [of s "snd (m s)"]
    by (auto simp: keeps_def try_except_def split: prod.splits sum.splits)
qed

lemma keeps_attempt [intro]: "keeps R m \<Longrightarrow> keeps R (attempt m)"
  by (auto simp: keeps_def attempt_def split: prod.splits) (metis snd_conv)

lemma keeps_if [intro]: "keeps R m \<Longrightarrow> keeps R n \<Longrightarrow> keeps R (if b then m else n)"
  by simp

lemma keeps_case_prod [intro]: "(\<And>a b. keeps R (f a b)) \<Longrightarrow> keeps R (case p of (a, b) \<Rightarrow> f a b)"
  by (cases p) simp

lemma keeps_case_option [intro]:
  "keeps R m \<Longrightarrow> (\<And>x. keeps R (f x)) \<Longrightarrow> keeps R (case v of None \<Rightarrow> m | Some x \<Rightarrow> f x)"
  by (cases v) simp_all

end

text \<open>\<open>raises_only P m\<close>: every exception \<open>m\<close> can raise satisfies \<open>P\<close>.\<close>

definition raises_only :: "('e \<Rightarrow> bool) \<Rightarrow> ('s, 'e, 'a) action \<Rightarrow> bool" where
  "raises_only P m \<longleftrightarrow> (\<forall>s e s'. m s = (Inl e, s') \<longrightarrow> P e)"

lemma raises_onlyD: "raises_only P m \<Longrightarrow> m s = (Inl e, s') \<Longrightarrow> P e"
  by (auto simp: raises_only_def)

lemma raises_only_pure [intro]:
  "raises_only P (ret x)" "raises_only P (modify f)" "raises_only P (gets g)"
  "P e \<Longrightarrow> raises_only P (raise e)" "P e \<Longrightarrow> raises_only P (assert_that b e)"
  by (auto simp: raises_only_def assert_that_def)

lemma raises_only_lift: "(\<And>e. r = Inl e \<Longrightarrow> P e) \<Longrightarrow> raises_only P (lift_result r)"
  by (simp add: raises_only_def)

lemma raises_only_sbind [intro]:
  "raises_only P m \<Longrightarrow> (\<And>x. raises_only P (f x)) \<Longrightarrow> raises_only P (sbind m f)"
  unfolding raises_only_def sbind_Inl_iff by blast

lemma raises_only_try [intro]: "(\<And>e. raises_only P (h e)) \<Longrightarrow> raises_only P (try_except m h)"
  unfolding raises_only_def try_except_Inl_iff by blast

lemma raises_only_cases [intro]:
  "raises_only P m \<Longrightarrow> raises_only P n \<Longrightarrow> raises_only P (if b then m else n)"
  "(\<And>a b. raises_only P (f a b)) \<Longrightarrow> raises_only P (case p of (a, b) \<Rightarrow> f a b)"
  "raises_only P m \<Longrightarrow> (\<And>x. raises_only P (g x)) \<Longrightarrow>
     raises_only P (case v of None \<Rightarrow> m | Some x \<Rightarrow> g x)"
  by (auto split: prod.splits option.splits)

subsection \<open>Lists\<close>

text \<open>Python's \<open>set(xs).issubset(ys)\<close> and duplicate tests are list predicates.\<close>

lemma take_append_prefix: "take (length xs) ys = xs \<Longrightarrow> \<exists>zs. ys = xs @ zs"
  by (metis append_take_drop_id)

lemma find_SomeD: "find f xs = Some x \<Longrightarrow> x \<in> set xs \<and> f x
    \<and> (\<exists>ys zs. xs = ys @ x # zs \<and> (\<forall>y \<in> set ys. \<not> f y))"
proof (induction xs)
  case (Cons a xs)
  show ?case
  proof (cases "f a")
    case True
    then show ?thesis using Cons.prems by (auto intro: exI [of _ "[]"])
  next
    case False
    then obtain ys zs where "x \<in> set xs" "f x" "xs = ys @ x # zs" "\<forall>y \<in> set ys. \<not> f y"
      using Cons by auto
    moreover have "a # xs = (a # ys) @ x # zs \<and> (\<forall>y \<in> set (a # ys). \<not> f y)"
      using calculation False by simp
    ultimately show ?thesis by (metis list.set_intros(2))
  qed
qed simp

lemma nth_map_upt: "i < n \<Longrightarrow> map f [0..<n] ! i = f i"
  by simp

lemma last_nth: "xs \<noteq> [] \<Longrightarrow> last xs = xs ! (length xs - 1)"
  by (rule last_conv_nth)

text \<open>Python's floor division by a positive number.\<close>

lemma int_div_less_iff:
  fixes a b q :: int
  assumes "0 < b"
  shows "a div b < q \<longleftrightarrow> a < q * b"
proof
  have a: "a = a div b * b + a mod b" "0 \<le> a mod b" "a mod b < b" using assms by simp_all
  {
    assume "a div b < q"
    then have "(a div b + 1) * b \<le> q * b" using assms by (simp add: mult_right_mono)
    moreover have "(a div b + 1) * b = a div b * b + b" by (simp add: algebra_simps)
    ultimately show "a < q * b" using a by linarith
  next
    assume less: "a < q * b"
    show "a div b < q"
    proof (rule ccontr)
      assume "\<not> a div b < q"
      then have "q * b \<le> a div b * b" using assms by (simp add: mult_right_mono)
      then show False using a less by linarith
    qed
  }
qed

lemma int_le_div_iff: "0 < b \<Longrightarrow> q \<le> a div b \<longleftrightarrow> q * b \<le> (a :: int)"
  using int_div_less_iff [of b a q] by linarith

text \<open>Division that rounds up.\<close>

lemma int_ceiling_le_iff: "0 < b \<Longrightarrow> (a + b - 1) div b \<le> q \<longleftrightarrow> a \<le> q * (b :: int)"
  using int_div_less_iff [of b "a + b - 1" "q + 1"] by (auto simp: algebra_simps)

end
