(* ===== verification/Snapshot_Geometry.thy ===== *)
theory Snapshot_Geometry
  imports Prelude
begin

section \<open>Fixed-slot checkpoint geometry\<close>

text \<open>
  Model of \<open>src/qwen_r9700_lab/snapshot_geometry.py\<close>: the token boundaries
  \<open>P\<close> (prompt), \<open>H\<close> (last whole hash unit) and \<open>R\<close> (replay boundary) of a durable
  checkpoint, the policy gates on the two checkpoint roots, and the lattice of
  milestones a long prompt is checkpointed at.  Python integers are \<open>int\<close>; the
  \<open>type(x) is int\<close> guards are discharged by the types.
\<close>

definition TOKENS_PER_HASH :: int where "TOKENS_PER_HASH = 8"
definition PAGE_TOKENS :: int where "PAGE_TOKENS = 1648"
definition MAX_PROMPT_TOKENS :: int where "MAX_PROMPT_TOKENS = 253792"
definition CURRENT_ROOT_PROMPT_TOKENS :: int where "CURRENT_ROOT_PROMPT_TOKENS = 60298"
definition SHORT_ROOT_PROMPT_TOKENS :: int where "SHORT_ROOT_PROMPT_TOKENS = 8258"
definition SLIDING_WINDOW_RETAINED_PAGES :: int where "SLIDING_WINDOW_RETAINED_PAGES = 5"
definition MIN_CHECKPOINT_PAGE_ORDINALS :: int where
  "MIN_CHECKPOINT_PAGE_ORDINALS = SLIDING_WINDOW_RETAINED_PAGES + 1"
definition CHECKPOINT_STRIDE_TOKENS :: int where "CHECKPOINT_STRIDE_TOKENS = PAGE_TOKENS"

lemmas geometry_constants =
  TOKENS_PER_HASH_def PAGE_TOKENS_def MAX_PROMPT_TOKENS_def CURRENT_ROOT_PROMPT_TOKENS_def
  SHORT_ROOT_PROMPT_TOKENS_def SLIDING_WINDOW_RETAINED_PAGES_def
  MIN_CHECKPOINT_PAGE_ORDINALS_def CHECKPOINT_STRIDE_TOKENS_def

datatype geometry_error =
    PromptOutsideAbiRange
  | NegativeReplayBoundary
  | PrecedesCheckpointRoot
  | LacksRetainedPages
  | InvalidOrdinal
  | InvalidCompletedLength

record fixed_slot_checkpoint_geometry =
  prompt_tokens :: int
  hash_aligned_tokens :: int
  replay_boundary_tokens :: int
  tokens_per_hash :: int
  page_tokens :: int

definition full_attention_pages :: "fixed_slot_checkpoint_geometry \<Rightarrow> int" where
  "full_attention_pages g =
     (replay_boundary_tokens g + page_tokens g - 1) div page_tokens g"

definition requires_partial_snapshot :: "fixed_slot_checkpoint_geometry \<Rightarrow> bool" where
  "requires_partial_snapshot g \<longleftrightarrow> replay_boundary_tokens g mod page_tokens g \<noteq> 0"

definition replay_hash_units :: "fixed_slot_checkpoint_geometry \<Rightarrow> int" where
  "replay_hash_units g =
     (hash_aligned_tokens g - replay_boundary_tokens g) div tokens_per_hash g"

definition boundary_geometry :: "int \<Rightarrow> geometry_error + fixed_slot_checkpoint_geometry" where
  "boundary_geometry p =
     (if p < TOKENS_PER_HASH \<or> p > MAX_PROMPT_TOKENS then Inl PromptOutsideAbiRange
      else
        let hash_aligned = p div TOKENS_PER_HASH * TOKENS_PER_HASH;
            units = (if hash_aligned mod PAGE_TOKENS \<in> {0, TOKENS_PER_HASH} then 2 else 1);
            replay_boundary = hash_aligned - units * TOKENS_PER_HASH
        in if replay_boundary < 0 then Inl NegativeReplayBoundary
           else Inr \<lparr>prompt_tokens = p, hash_aligned_tokens = hash_aligned,
                     replay_boundary_tokens = replay_boundary,
                     tokens_per_hash = TOKENS_PER_HASH, page_tokens = PAGE_TOKENS\<rparr>)"

definition checkpoint_root :: "bool \<Rightarrow> int" where
  "checkpoint_root allow_short_root =
     (if allow_short_root then SHORT_ROOT_PROMPT_TOKENS else CURRENT_ROOT_PROMPT_TOKENS)"

definition checkpoint_geometry ::
  "int \<Rightarrow> bool \<Rightarrow> geometry_error + fixed_slot_checkpoint_geometry" where
  "checkpoint_geometry p allow_short_root =
     rbind (boundary_geometry p) (\<lambda>g.
       if prompt_tokens g < checkpoint_root allow_short_root then Inl PrecedesCheckpointRoot
       else if full_attention_pages g < MIN_CHECKPOINT_PAGE_ORDINALS
       then Inl LacksRetainedPages
       else Inr g)"

definition checkpoint_prompt_tokens :: "int \<Rightarrow> bool \<Rightarrow> geometry_error + int" where
  "checkpoint_prompt_tokens ordinal allow_short_root =
     (if ordinal < 0 then Inl InvalidOrdinal
      else rbind (checkpoint_geometry
                    (checkpoint_root allow_short_root + ordinal * CHECKPOINT_STRIDE_TOKENS)
                    allow_short_root)
                 (\<lambda>g. Inr (prompt_tokens g)))"

definition next_checkpoint_prompt_tokens :: "int \<Rightarrow> bool \<Rightarrow> geometry_error + int" where
  "next_checkpoint_prompt_tokens completed allow_short_root =
     (if completed < 0 then Inl InvalidCompletedLength
      else
        let root = checkpoint_root allow_short_root
        in if completed < root then Inr root
           else checkpoint_prompt_tokens
                  ((completed - root) div CHECKPOINT_STRIDE_TOKENS + 1) allow_short_root)"

subsection \<open>The boundary arithmetic\<close>

lemma hash_aligned_bounds:
  "p div TOKENS_PER_HASH * TOKENS_PER_HASH \<le> p \<and>
   p < p div TOKENS_PER_HASH * TOKENS_PER_HASH + TOKENS_PER_HASH"
  by (simp add: geometry_constants) presburger

lemma replay_boundary_off_page_edge:
  fixes h :: int
  shows "(h - (if h mod 1648 \<in> {0, 8} then 2 else 1) * 8) mod 1648 \<noteq> 0"
proof
  let ?c = "(if h mod 1648 \<in> {0, 8} then 2 else 1) * 8 :: int"
  assume "(h - ?c) mod 1648 = 0"
  then have "h mod 1648 = ?c mod 1648"
    by (simp only: mod_eq_dvd_iff dvd_eq_mod_eq_0)
  then show False by (simp split: if_splits)
qed

text \<open>
  The supported prompts: the range guard admits 8 to 15 tokens, but there the boundary
  falls below zero, so the arithmetic succeeds exactly from 16 tokens on.
\<close>

lemma boundary_geometry_short:
  "8 \<le> p \<Longrightarrow> p < 16 \<Longrightarrow> boundary_geometry p = Inl NegativeReplayBoundary"
proof -
  assume "8 \<le> p" and "p < 16"
  then have "p div 8 = 1" by simp
  with \<open>8 \<le> p\<close> \<open>p < 16\<close> show ?thesis
    by (simp add: boundary_geometry_def geometry_constants Let_def)
qed

lemma boundary_geometry_ok:
  assumes "16 \<le> p" and "p \<le> MAX_PROMPT_TOKENS"
  shows "\<exists>g. boundary_geometry p = Inr g"
proof -
  have "2 \<le> p div 8" using assms(1) by simp
  with assms show ?thesis
    by (auto simp: boundary_geometry_def geometry_constants Let_def)
qed

lemma boundary_geometry_fields:
  assumes "boundary_geometry p = Inr g"
  shows "prompt_tokens g = p" "tokens_per_hash g = 8" "page_tokens g = 1648"
    "hash_aligned_tokens g = p div 8 * 8"
    "replay_boundary_tokens g =
       p div 8 * 8 - (if p div 8 * 8 mod 1648 \<in> {0, 8} then 2 else 1) * 8"
    "0 \<le> replay_boundary_tokens g" "8 \<le> p" "p \<le> 253792"
  using assms
  by (auto simp: boundary_geometry_def geometry_constants Let_def split: if_splits)

subsection \<open>The milestone lattice\<close>

lemma full_attention_pages_bound:
  assumes "boundary_geometry p = Inr g" and "8258 \<le> p"
  shows "6 \<le> full_attention_pages g"
proof -
  have "8240 \<le> p div 8 * 8 - (if p div 8 * 8 mod 1648 \<in> {0, 8} then 2 else 1) * 8"
    using assms(2) by auto
  moreover have "p div 8 * 8 - (if p div 8 * 8 mod 1648 \<in> {0, 8} then 2 else 1) * 8 \<noteq> 8240"
    using replay_boundary_off_page_edge [of "p div 8 * 8"] by auto
  ultimately have "8241 \<le> replay_boundary_tokens g"
    using boundary_geometry_fields(5) [OF assms(1)] by linarith
  then show ?thesis
    by (simp add: full_attention_pages_def boundary_geometry_fields(3) [OF assms(1)])
qed

lemma checkpoint_root_bounds: "8258 \<le> checkpoint_root b" "checkpoint_root b \<le> 60298"
  by (simp_all add: checkpoint_root_def geometry_constants)

lemma checkpoint_geometry_ok:
  assumes "checkpoint_root b \<le> p" and "p \<le> MAX_PROMPT_TOKENS"
  shows "\<exists>g. checkpoint_geometry p b = Inr g \<and> prompt_tokens g = p"
proof -
  have ge: "8258 \<le> p" using assms(1) checkpoint_root_bounds [of b] by linarith
  then obtain g where g: "boundary_geometry p = Inr g"
    using boundary_geometry_ok [of p] assms(2) by auto
  with ge have "6 \<le> full_attention_pages g" by (rule full_attention_pages_bound [rotated])
  with g assms(1) boundary_geometry_fields(1) [OF g] show ?thesis
    by (simp add: checkpoint_geometry_def geometry_constants)
qed

lemma checkpoint_geometry_Inr:
  "checkpoint_geometry p b = Inr g \<Longrightarrow>
     boundary_geometry p = Inr g \<and> checkpoint_root b \<le> p \<and> 6 \<le> full_attention_pages g"
  by (auto simp: checkpoint_geometry_def result_simps geometry_constants
      boundary_geometry_fields(1) split: if_splits)

lemma checkpoint_prompt_tokens_Inr:
  "checkpoint_prompt_tokens k b = Inr n \<longleftrightarrow>
     0 \<le> k \<and> n = checkpoint_root b + k * 1648 \<and> n \<le> MAX_PROMPT_TOKENS"
proof
  assume ok: "checkpoint_prompt_tokens k b = Inr n"
  then have k: "0 \<le> k" and
    "\<exists>g. checkpoint_geometry (checkpoint_root b + k * 1648) b = Inr g \<and> prompt_tokens g = n"
    by (auto simp: checkpoint_prompt_tokens_def result_simps geometry_constants
        split: if_splits)
  then obtain g where "boundary_geometry (checkpoint_root b + k * 1648) = Inr g"
    and "prompt_tokens g = n"
    using checkpoint_geometry_Inr by blast
  with k show "0 \<le> k \<and> n = checkpoint_root b + k * 1648 \<and> n \<le> MAX_PROMPT_TOKENS"
    using boundary_geometry_fields(1,8) by (fastforce simp: geometry_constants)
next
  assume r: "0 \<le> k \<and> n = checkpoint_root b + k * 1648 \<and> n \<le> MAX_PROMPT_TOKENS"
  then have "checkpoint_root b \<le> n" by simp
  with r obtain g where "checkpoint_geometry n b = Inr g" "prompt_tokens g = n"
    using checkpoint_geometry_ok by blast
  with r show "checkpoint_prompt_tokens k b = Inr n"
    by (simp add: checkpoint_prompt_tokens_def geometry_constants)
qed

lemma milestone_after:
  fixes c root k m :: int
  assumes "0 < m"
  shows "c < root + ((c - root) div m + 1) * m"
    and "c < root + k * m \<Longrightarrow> (c - root) div m + 1 \<le> k"
proof -
  have eq: "(c - root) div m * m + (c - root) mod m = c - root"
    by simp
  have "(c - root) mod m < m" and nonneg: "0 \<le> (c - root) mod m"
    using assms by simp_all
  moreover have "((c - root) div m + 1) * m = (c - root) div m * m + m"
    by (simp add: distrib_right)
  ultimately show "c < root + ((c - root) div m + 1) * m"
    using eq by linarith
  assume "c < root + k * m"
  with eq nonneg have "(c - root) div m * m < k * m"
    by linarith
  then have "(c - root) div m < k"
    using assms by (simp add: mult_less_cancel_right)
  then show "(c - root) div m + 1 \<le> k" by simp
qed

subsection \<open>What the arithmetic guarantees\<close>

text \<open>
  Whenever the checkpoint arithmetic succeeds, the hash boundary \<open>H\<close> is the last
  whole hash unit of the prompt, the replay boundary \<open>R\<close> is one or two hash units
  before it, is positive, and never lies on a physical page edge, so that a partial
  page is always available to copy; and it succeeds exactly on prompts of 16 tokens up
  to the maximum.
\<close>

theorem boundary_geometry_sound:
  "boundary_geometry p = Inr g \<Longrightarrow>
     16 \<le> p \<and> p \<le> MAX_PROMPT_TOKENS \<and> prompt_tokens g = p
   \<and> 8 dvd hash_aligned_tokens g \<and> hash_aligned_tokens g \<le> p \<and> p < hash_aligned_tokens g + 8
   \<and> 8 dvd replay_boundary_tokens g \<and> 0 < replay_boundary_tokens g
   \<and> replay_hash_units g \<in> {1, 2} \<and> replay_boundary_tokens g < hash_aligned_tokens g
   \<and> requires_partial_snapshot g"
proof -
  assume ok: "boundary_geometry p = Inr g"
  note f = boundary_geometry_fields [OF ok]
  have off: "replay_boundary_tokens g mod 1648 \<noteq> 0"
    unfolding f(5) by (rule replay_boundary_off_page_edge)
  have p16: "16 \<le> p"
    using boundary_geometry_short [of p] ok f(7) by (cases "p < 16") auto
  have r0: "replay_boundary_tokens g \<noteq> 0"
    using off by auto
  obtain u :: int where u: "u \<in> {1, 2}" and r: "replay_boundary_tokens g = p div 8 * 8 - u * 8"
    using f(5) by (cases "p div 8 * 8 mod 1648 \<in> {0, 8}") auto
  have "replay_hash_units g = u"
    by (simp add: replay_hash_units_def f(2,4) r)
  moreover have "8 dvd replay_boundary_tokens g" and "8 dvd hash_aligned_tokens g"
    unfolding r f(4) by simp_all
  moreover have "p div 8 * 8 \<le> p" and "p < p div 8 * 8 + 8"
    using hash_aligned_bounds [of p] by (simp_all add: geometry_constants)
  moreover have "requires_partial_snapshot g"
    using off by (simp add: requires_partial_snapshot_def f(3))
  ultimately show ?thesis
    using p16 f(1,4,6,8) r r0 u by (auto simp: MAX_PROMPT_TOKENS_def)
qed

theorem boundary_geometry_sound_witness:
  "\<exists>g. boundary_geometry 3296 = Inr g \<and> replay_boundary_tokens g = 3280
     \<and> requires_partial_snapshot g"
proof -
  obtain g where g: "boundary_geometry 3296 = Inr g"
    using boundary_geometry_ok [of 3296] by (auto simp: geometry_constants)
  with boundary_geometry_sound [OF g] boundary_geometry_fields [OF g] show ?thesis by auto
qed

text \<open>
  The next checkpoint of a durable prefix is the least milestone of the page-stride
  lattice strictly beyond it, and it is itself an admissible checkpoint geometry.
\<close>

theorem next_checkpoint_least:
  assumes "next_checkpoint_prompt_tokens c short = Inr n"
  shows "c < n \<and> (\<exists>k \<ge> 0. n = checkpoint_root short + k * CHECKPOINT_STRIDE_TOKENS)
    \<and> (\<forall>k \<ge> 0. c < checkpoint_root short + k * CHECKPOINT_STRIDE_TOKENS
          \<longrightarrow> n \<le> checkpoint_root short + k * CHECKPOINT_STRIDE_TOKENS)
    \<and> (\<exists>g. checkpoint_geometry n short = Inr g \<and> prompt_tokens g = n)"
proof (cases "c < checkpoint_root short")
  case True
  with assms have n: "n = checkpoint_root short"
    by (auto simp: next_checkpoint_prompt_tokens_def Let_def split: if_splits)
  moreover have "n \<le> MAX_PROMPT_TOKENS"
    using n checkpoint_root_bounds [of short] by (simp add: geometry_constants)
  ultimately show ?thesis
    using True checkpoint_geometry_ok [of short n] by (force simp: geometry_constants)
next
  case False
  let ?k = "(c - checkpoint_root short) div 1648 + 1"
  from assms False have "checkpoint_prompt_tokens ?k short = Inr n"
    by (auto simp: next_checkpoint_prompt_tokens_def Let_def geometry_constants split: if_splits)
  then have k: "0 \<le> ?k" and n: "n = checkpoint_root short + ?k * 1648"
    and max: "n \<le> MAX_PROMPT_TOKENS"
    by (simp_all add: checkpoint_prompt_tokens_Inr)
  have "c < n"
    unfolding n by (rule milestone_after(1)) simp
  moreover have "n \<le> checkpoint_root short + k * 1648"
    if "c < checkpoint_root short + k * 1648" for k
    using milestone_after(2) [of 1648 c "checkpoint_root short" k] that n by simp
  moreover have "checkpoint_root short \<le> n" using k n by simp
  ultimately show ?thesis
    using k n checkpoint_geometry_ok [OF _ max] by (auto simp: geometry_constants)
qed

theorem next_checkpoint_least_witness:
  "next_checkpoint_prompt_tokens 60298 False = Inr 61946 \<and> (60298::int) < 61946"
proof -
  have "next_checkpoint_prompt_tokens 60298 False = Inr 61946"
    by (simp add: next_checkpoint_prompt_tokens_def checkpoint_prompt_tokens_Inr
        checkpoint_root_def geometry_constants)
  with next_checkpoint_least [OF this] show ?thesis by simp
qed

end
