(* ===== verification/Live_State.thy ===== *)
theory Live_State
  imports Prelude
begin

section \<open>The complete normalized state of a live commit\<close>

text \<open>
  Model of the state documents of \<open>src/qwen_r9700_lab/live_commit_validation.py\<close>: the
  dictionary with exactly the keys \<open>STATE_KEYS\<close>, its normalization, and the comparison
  of two states.  The field names of the dictionary are the constructors of three
  enumerations, so the exact-key test of \<open>_exact_dict\<close> (and the JSON type tests) are
  discharged by the record type; every other test of the code is a branch.
  \<open>json.loads(_canonical(value))\<close> is a deep copy, so a normalization that succeeds
  returns the value it was given.

  Strings hold the code points up to 255; \<open>is_space\<close> is Python's \<open>str.isspace\<close> on
  them.
\<close>

datatype digest_field =
    CommittedTokenPrefix
  | CompleteTargetLogits
  | LogicalTargetKv
  | PhysicalTargetKv
  | LogicalDraftKv
  | PhysicalDraftKv
  | GdnState
  | ConvolutionState
  | ResidualAndIntermediates
  | Positions
  | RopeIndices
  | OrderedQuestScores
  | OrderedQuestPages
  | QuestVisibility
  | QuestAttentionOutputs
  | QuantizationScales
  | WorkspaceContents
  | CacheMapping
  | AllocationTopology
  | Ownership
  | Pins
  | Refcounts
  | SamplerRngDecoding
  | TransactionState
  | CanonicalRoot

datatype layer_field =
    LogicalTargetKvByLayer
  | PhysicalTargetKvByLayer
  | LogicalDraftKvByLayer
  | PhysicalDraftKvByLayer
  | GdnStateByLayer
  | ConvolutionStateByLayer
  | ResidualAndIntermediatesByLayer
  | QuestScoresByLayer
  | QuestPagesByLayer
  | QuestVisibilityByLayer
  | QuestAttentionOutputsByLayer

datatype transition_unit =
    M8ConstructionPositionsRope
  | W4a16Projections
  | FullAttentionQkNormRope
  | QuestScoring
  | QuestTop96Selection
  | QuestUnionVisibility
  | QuestHistoricalAttention
  | QuestCausalTailAttention
  | QuestSoftmaxReduction
  | GdnConvolution
  | GdnRecurrence
  | GdnGatedRmsnorm
  | ResidualStream
  | SwigluFfn
  | FinalRmsnorm
  | LmHead
  | TargetVerification
  | SamplerRngDecodingUnit

definition STATE_DIGEST_FIELDS :: "digest_field list" where
  "STATE_DIGEST_FIELDS =
     [CommittedTokenPrefix, CompleteTargetLogits, LogicalTargetKv, PhysicalTargetKv,
      LogicalDraftKv, PhysicalDraftKv, GdnState, ConvolutionState, ResidualAndIntermediates,
      Positions, RopeIndices, OrderedQuestScores, OrderedQuestPages, QuestVisibility,
      QuestAttentionOutputs, QuantizationScales, WorkspaceContents, CacheMapping,
      AllocationTopology, Ownership, Pins, Refcounts, SamplerRngDecoding, TransactionState,
      CanonicalRoot]"

definition TARGET_LAYER_COUNT :: nat where "TARGET_LAYER_COUNT = 64"
definition TARGET_KV_LAYER_COUNT :: nat where "TARGET_KV_LAYER_COUNT = 16"
definition DRAFT_LAYER_COUNT :: nat where "DRAFT_LAYER_COUNT = 5"
definition GDN_LAYER_COUNT :: nat where "GDN_LAYER_COUNT = 48"
definition QUEST_LAYER_COUNT :: nat where "QUEST_LAYER_COUNT = 16"

lemmas layer_counts =
  TARGET_LAYER_COUNT_def TARGET_KV_LAYER_COUNT_def DRAFT_LAYER_COUNT_def
  GDN_LAYER_COUNT_def QUEST_LAYER_COUNT_def

definition LAYER_DIGEST_FIELDS :: "(layer_field \<times> nat) list" where
  "LAYER_DIGEST_FIELDS =
     [(LogicalTargetKvByLayer, TARGET_KV_LAYER_COUNT),
      (PhysicalTargetKvByLayer, TARGET_KV_LAYER_COUNT),
      (LogicalDraftKvByLayer, DRAFT_LAYER_COUNT),
      (PhysicalDraftKvByLayer, DRAFT_LAYER_COUNT),
      (GdnStateByLayer, GDN_LAYER_COUNT),
      (ConvolutionStateByLayer, GDN_LAYER_COUNT),
      (ResidualAndIntermediatesByLayer, TARGET_LAYER_COUNT),
      (QuestScoresByLayer, QUEST_LAYER_COUNT),
      (QuestPagesByLayer, QUEST_LAYER_COUNT),
      (QuestVisibilityByLayer, QUEST_LAYER_COUNT),
      (QuestAttentionOutputsByLayer, QUEST_LAYER_COUNT)]"

definition TRANSITION_UNITS :: "transition_unit list" where
  "TRANSITION_UNITS =
     [M8ConstructionPositionsRope, W4a16Projections, FullAttentionQkNormRope, QuestScoring,
      QuestTop96Selection, QuestUnionVisibility, QuestHistoricalAttention,
      QuestCausalTailAttention, QuestSoftmaxReduction, GdnConvolution, GdnRecurrence,
      GdnGatedRmsnorm, ResidualStream, SwigluFfn, FinalRmsnorm, LmHead, TargetVerification,
      SamplerRngDecodingUnit]"

record live_state =
  digests :: "digest_field \<Rightarrow> string"
  layer_digests :: "layer_field \<Rightarrow> string list"
  semantic_unit_sha256 :: "transition_unit \<Rightarrow> string"
  allocator_generation :: int
  commit_epoch :: int
  device_error_word :: int
  logical_length :: int
  nonfinite_count :: int

datatype state_key =
    DigestKey digest_field
  | LayerKey layer_field
  | AllocatorGeneration
  | CommitEpoch
  | DeviceErrorWord
  | LogicalLength
  | NonfiniteCount
  | SemanticUnits

text \<open>The keys in the order \<open>sorted(STATE_KEYS)\<close> visits them.\<close>

definition sorted_state_keys :: "state_key list" where
  "sorted_state_keys =
     [DigestKey AllocationTopology, AllocatorGeneration, DigestKey CacheMapping,
      DigestKey CanonicalRoot, CommitEpoch, DigestKey CommittedTokenPrefix,
      DigestKey CompleteTargetLogits, DigestKey ConvolutionState,
      LayerKey ConvolutionStateByLayer, DeviceErrorWord, DigestKey GdnState,
      LayerKey GdnStateByLayer, DigestKey LogicalDraftKv, LayerKey LogicalDraftKvByLayer,
      LogicalLength, DigestKey LogicalTargetKv, LayerKey LogicalTargetKvByLayer,
      NonfiniteCount, DigestKey OrderedQuestPages, DigestKey OrderedQuestScores,
      DigestKey Ownership, DigestKey PhysicalDraftKv, LayerKey PhysicalDraftKvByLayer,
      DigestKey PhysicalTargetKv, LayerKey PhysicalTargetKvByLayer, DigestKey Pins,
      DigestKey Positions, DigestKey QuantizationScales, DigestKey QuestAttentionOutputs,
      LayerKey QuestAttentionOutputsByLayer, LayerKey QuestPagesByLayer,
      LayerKey QuestScoresByLayer, DigestKey QuestVisibility, LayerKey QuestVisibilityByLayer,
      DigestKey Refcounts, DigestKey ResidualAndIntermediates,
      LayerKey ResidualAndIntermediatesByLayer, DigestKey RopeIndices,
      DigestKey SamplerRngDecoding, SemanticUnits, DigestKey TransactionState,
      DigestKey WorkspaceContents]"

datatype state_error =
    NotLowercaseSha256
  | InvalidIdentifier
  | LayerDigestCount layer_field
  | NotNonNegative state_key
  | MustBeZero state_key

definition is_sha256 :: "string \<Rightarrow> bool" where
  "is_sha256 s \<longleftrightarrow> length s = 64 \<and> list_all (\<lambda>c. c \<in> set ''0123456789abcdef'') s"

definition sha256_value :: "string \<Rightarrow> state_error + unit" where
  "sha256_value s = require (is_sha256 s) NotLowercaseSha256"

definition is_space :: "char \<Rightarrow> bool" where
  "is_space c \<longleftrightarrow> (let n = (of_char c :: nat)
     in (9 \<le> n \<and> n \<le> 13) \<or> (28 \<le> n \<and> n \<le> 32) \<or> n = 133 \<or> n = 160)"

definition identifier_value :: "string \<Rightarrow> state_error + unit" where
  "identifier_value s = require (s \<noteq> [] \<and> length s \<le> 256 \<and> \<not> list_ex is_space s) InvalidIdentifier"

definition layer_digest_check :: "live_state \<Rightarrow> layer_field \<times> nat \<Rightarrow> state_error + unit" where
  "layer_digest_check st entry =
     (case entry of (field, count) \<Rightarrow>
        if length (layer_digests st field) \<noteq> count then Inl (LayerDigestCount field)
        else check_all sha256_value (layer_digests st field))"

definition normalize_state :: "live_state \<Rightarrow> state_error + live_state" where
  "normalize_state st =
     rbind (check_all (\<lambda>f. sha256_value (digests st f)) STATE_DIGEST_FIELDS) (\<lambda>_.
     rbind (check_all (layer_digest_check st) LAYER_DIGEST_FIELDS) (\<lambda>_.
     rbind (check_all (\<lambda>u. sha256_value (semantic_unit_sha256 st u)) TRANSITION_UNITS) (\<lambda>_.
     if allocator_generation st < 0 then Inl (NotNonNegative AllocatorGeneration)
     else if commit_epoch st < 0 then Inl (NotNonNegative CommitEpoch)
     else if logical_length st < 0 then Inl (NotNonNegative LogicalLength)
     else if device_error_word st \<noteq> 0 then Inl (MustBeZero DeviceErrorWord)
     else if nonfinite_count st \<noteq> 0 then Inl (MustBeZero NonfiniteCount)
     else Inr st)))"

subsection \<open>The first difference of two states\<close>

datatype diff_value =
    DTokens "int list"
  | DDigest string
  | DDigests "string list"
  | DUnits "transition_unit \<Rightarrow> string"
  | DInt int

datatype diff_field =
    CommittedTokenIds
  | StateField state_key
  | LayerItem layer_field nat
  | OtherField string

record difference =
  diff_name :: diff_field
  diff_left :: diff_value
  diff_right :: diff_value

fun state_item :: "live_state \<Rightarrow> state_key \<Rightarrow> diff_value" where
  "state_item st (DigestKey f) = DDigest (digests st f)"
| "state_item st (LayerKey f) = DDigests (layer_digests st f)"
| "state_item st AllocatorGeneration = DInt (allocator_generation st)"
| "state_item st CommitEpoch = DInt (commit_epoch st)"
| "state_item st DeviceErrorWord = DInt (device_error_word st)"
| "state_item st LogicalLength = DInt (logical_length st)"
| "state_item st NonfiniteCount = DInt (nonfinite_count st)"
| "state_item st SemanticUnits = DUnits (semantic_unit_sha256 st)"

fun first_unequal :: "nat \<Rightarrow> (string \<times> string) list \<Rightarrow> (nat \<times> string \<times> string) option" where
  "first_unequal i [] = None"
| "first_unequal i ((a, b) # ps) =
     (if a \<noteq> b then Some (i, a, b) else first_unequal (Suc i) ps)"

definition key_difference :: "live_state \<Rightarrow> live_state \<Rightarrow> state_key \<Rightarrow> difference" where
  "key_difference l r k =
     (let whole = \<lparr>diff_name = StateField k, diff_left = state_item l k,
                   diff_right = state_item r k\<rparr>
      in case k of
           LayerKey f \<Rightarrow>
             (case first_unequal 0 (zip (layer_digests l f) (layer_digests r f)) of
                Some (i, a, b) \<Rightarrow>
                  \<lparr>diff_name = LayerItem f i, diff_left = DDigest a, diff_right = DDigest b\<rparr>
              | None \<Rightarrow> whole)
         | _ \<Rightarrow> whole)"

fun scan_differences :: "state_key list \<Rightarrow> live_state \<Rightarrow> live_state \<Rightarrow> difference option" where
  "scan_differences [] l r = None"
| "scan_differences (k # ks) l r =
     (if state_item l k \<noteq> state_item r k then Some (key_difference l r k)
      else scan_differences ks l r)"

definition first_state_difference ::
  "live_state \<Rightarrow> live_state \<Rightarrow> state_error + difference option" where
  "first_state_difference l r =
     rbind (normalize_state l) (\<lambda>l'.
     rbind (normalize_state r) (\<lambda>r'.
     Inr (scan_differences sorted_state_keys l' r')))"

subsection \<open>Facts about normalization and comparison\<close>

lemma digest_field_listed: "f \<in> set STATE_DIGEST_FIELDS"
  by (cases f) (simp_all add: STATE_DIGEST_FIELDS_def)

lemma transition_unit_listed: "u \<in> set TRANSITION_UNITS"
  by (cases u) (simp_all add: TRANSITION_UNITS_def)

lemma state_key_listed: "k \<in> set sorted_state_keys"
proof (cases k)
  case (DigestKey f)
  then show ?thesis by (cases f) (simp_all add: sorted_state_keys_def)
next
  case (LayerKey f)
  then show ?thesis by (cases f) (simp_all add: sorted_state_keys_def)
qed (simp_all add: sorted_state_keys_def)

lemma normalize_state_id: "normalize_state st = Inr st' \<Longrightarrow> st' = st"
  by (auto simp: normalize_state_def result_simps split: if_splits)

definition normal_state :: "live_state \<Rightarrow> bool" where
  "normal_state st \<longleftrightarrow> normalize_state st = Inr st"

lemma normalize_state_Inr [result_simps]:
  "normalize_state st = Inr st' \<longleftrightarrow> normal_state st \<and> st' = st"
  using normalize_state_id by (auto simp: normal_state_def)

lemma normal_state_digest: "normal_state st \<Longrightarrow> is_sha256 (digests st f)"
  using digest_field_listed [of f]
  by (auto simp: normal_state_def normalize_state_def sha256_value_def rbind_Inr_iff
      check_all_Inr_iff require_Inr_iff split: if_splits)

lemma normal_state_nonneg:
  assumes "normal_state st"
  shows "0 \<le> allocator_generation st" "0 \<le> commit_epoch st" "0 \<le> logical_length st"
    "device_error_word st = 0" "nonfinite_count st = 0"
  using assms
  by (auto simp: normal_state_def normalize_state_def rbind_Inr_iff split: if_splits)

lemma state_eqI:
  fixes l r :: live_state
  assumes "\<And>k. state_item l k = state_item r k"
  shows "l = r"
proof -
  have "digests l = digests r"
    using assms [of "DigestKey f" for f] by auto
  moreover have "layer_digests l = layer_digests r"
    using assms [of "LayerKey f" for f] by auto
  ultimately show ?thesis
    using assms [of AllocatorGeneration] assms [of CommitEpoch] assms [of DeviceErrorWord]
      assms [of LogicalLength] assms [of NonfiniteCount] assms [of SemanticUnits]
    by (cases l; cases r) simp
qed

lemma scan_differences_None_iff:
  "scan_differences ks l r = None \<longleftrightarrow> (\<forall>k \<in> set ks. state_item l k = state_item r k)"
  by (induction ks) auto

text \<open>
  The comparison is complete: it reports no difference exactly for equal states, because
  the sorted key list names every field.
\<close>

lemma scan_sorted_None_iff: "scan_differences sorted_state_keys l r = None \<longleftrightarrow> l = r"
  using state_eqI [of l r] state_key_listed by (auto simp: scan_differences_None_iff)

lemma first_state_difference_None:
  "first_state_difference l r = Inr None \<longleftrightarrow> normal_state l \<and> normal_state r \<and> l = r"
  by (auto simp: first_state_difference_def result_simps scan_sorted_None_iff)

lemma first_state_difference_total:
  "normal_state l \<Longrightarrow> normal_state r \<Longrightarrow>
     first_state_difference l r = Inr (scan_differences sorted_state_keys l r)"
  by (simp add: first_state_difference_def normal_state_def)

lemma first_unequal_Some:
  "first_unequal i ps = Some (j, a, b) \<Longrightarrow>
     \<exists>d. j = i + d \<and> d < length ps \<and> ps ! d = (a, b) \<and> a \<noteq> b"
proof (induction i ps rule: first_unequal.induct)
  case (1 i)
  then show ?case by simp
next
  case (2 i a' b' ps)
  show ?case
  proof (cases "a' = b'")
    case True
    with 2 obtain d where "j = Suc i + d" "d < length ps" "ps ! d = (a, b)" "a \<noteq> b"
      by auto
    then show ?thesis by (intro exI [of _ "Suc d"]) simp
  next
    case False
    with "2.prems" show ?thesis by (intro exI [of _ 0]) simp
  qed
qed

lemma first_unequal_None: "first_unequal i ps = None \<longleftrightarrow> (\<forall>p \<in> set ps. fst p = snd p)"
  by (induction i ps rule: first_unequal.induct) auto

lemma zip_all_equal:
  "length xs = length ys \<Longrightarrow> \<forall>p \<in> set (zip xs ys). fst p = snd p \<Longrightarrow> xs = ys"
  by (induction xs ys rule: list_induct2) auto

subsection \<open>A concrete state\<close>

definition zero_sha256 :: string where
  "zero_sha256 = replicate 64 CHR ''0''"

lemma is_sha256_zero [simp]: "is_sha256 zero_sha256"
  by (simp add: is_sha256_def zero_sha256_def list_all_iff)

fun layer_width :: "layer_field \<Rightarrow> nat" where
  "layer_width LogicalTargetKvByLayer = 16"
| "layer_width PhysicalTargetKvByLayer = 16"
| "layer_width LogicalDraftKvByLayer = 5"
| "layer_width PhysicalDraftKvByLayer = 5"
| "layer_width GdnStateByLayer = 48"
| "layer_width ConvolutionStateByLayer = 48"
| "layer_width ResidualAndIntermediatesByLayer = 64"
| "layer_width QuestScoresByLayer = 16"
| "layer_width QuestPagesByLayer = 16"
| "layer_width QuestVisibilityByLayer = 16"
| "layer_width QuestAttentionOutputsByLayer = 16"

definition sample_state :: "string \<Rightarrow> int \<Rightarrow> int \<Rightarrow> live_state" where
  "sample_state prefix epoch len =
     \<lparr>digests = (\<lambda>f. if f = CommittedTokenPrefix then prefix else zero_sha256),
      layer_digests = (\<lambda>f. replicate (layer_width f) zero_sha256),
      semantic_unit_sha256 = (\<lambda>_. zero_sha256),
      allocator_generation = 0, commit_epoch = epoch, device_error_word = 0,
      logical_length = len, nonfinite_count = 0\<rparr>"

lemma sample_state_select [simp]:
  "digests (sample_state p e n) CommittedTokenPrefix = p"
  "commit_epoch (sample_state p e n) = e"
  "logical_length (sample_state p e n) = n"
  "allocator_generation (sample_state p e n) = 0"
  by (simp_all add: sample_state_def)

lemma sample_state_layers:
  "(f, n) \<in> set LAYER_DIGEST_FIELDS \<Longrightarrow> layer_width f = n"
  by (auto simp: LAYER_DIGEST_FIELDS_def layer_counts)

lemma sample_state_normal [simp]:
  assumes "is_sha256 p" and "0 \<le> e" and "0 \<le> n"
  shows "normal_state (sample_state p e n)"
proof -
  let ?s = "sample_state p e n"
  have "check_all (\<lambda>f. sha256_value (digests ?s f)) STATE_DIGEST_FIELDS = Inr ()"
    using assms(1) by (simp add: check_all_Inr_iff sha256_value_def sample_state_def)
  moreover have "layer_digest_check ?s (f, n) = Inr ()" if "(f, n) \<in> set LAYER_DIGEST_FIELDS"
    for f n
    using sample_state_layers [OF that]
    by (simp add: layer_digest_check_def sample_state_def check_all_Inr_iff sha256_value_def)
  then have "check_all (layer_digest_check ?s) LAYER_DIGEST_FIELDS = Inr ()"
    by (auto simp: check_all_Inr_iff)
  moreover have
    "check_all (\<lambda>u. sha256_value (semantic_unit_sha256 ?s u)) TRANSITION_UNITS = Inr ()"
    by (simp add: check_all_Inr_iff sha256_value_def sample_state_def)
  ultimately show ?thesis
    using assms(2,3) by (simp add: normal_state_def normalize_state_def) (simp add: sample_state_def)
qed

end
