(* ===== verification/Live_Receipt.thy ===== *)
theory Live_Receipt
  imports Live_State
begin

section \<open>Receipts of validated commits\<close>

text \<open>
  Model of \<open>seal_receipt\<close> and \<open>verify_receipt\<close> of
  \<open>src/qwen_r9700_lab/live_commit_validation.py\<close>.  A receipt is a dictionary with the
  keys \<open>RECEIPT_KEYS\<close>; the template is the part the controller fixes before it
  publishes, and the receipt extends it with the five dynamic keys, as the code's
  \<open>{**template, ...}\<close> does.  \<open>_digest\<close> (SHA-256 of the canonical JSON text) is the
  parameter \<open>digests\<close>, one function per kind of document.
\<close>

datatype receipt_mode =
    ValidatedCandidate
  | CandidateFaultSerial
  | QuarantinedSerial
  | OtherMode string

datatype publication_origin =
    FromCandidate
  | FromSerial
  | Unchanged
  | OtherSource string

record candidate_fault =
  fault_stage :: string
  fault_exception_type :: string
  fault_message_sha256 :: string
  fault_traceback_sha256 :: string

record receipt_template =
  schema :: string
  capability_sha256 :: string
  session_id :: string
  request_id :: string
  round_index :: int
  commit_count :: int
  mode :: receipt_mode
  candidate_enabled_before :: bool
  candidate_enabled_after :: bool
  canonical_before :: live_state
  candidate_state :: "live_state option"
  candidate_token_ids :: "int list option"
  candidate_failure :: "candidate_fault option"
  serial_state :: live_state
  serial_token_ids :: "int list"
  canonical_probe_after_candidate_sha256 :: string
  canonical_probe_after_serial_sha256 :: string
  comparison_equal :: bool
  first_difference :: "difference option"
  publication_source :: publication_origin
  counterexample_sha256 :: "string option"
  comparison_sha256 :: string

record receipt = receipt_template +
  publication_intent_sha256 :: string
  canonical_after :: live_state
  publication_atomic :: bool
  candidate_private_state_destroyed :: bool
  serial_private_state_destroyed :: bool

text \<open>The dictionary whose digest is \<open>comparison_sha256\<close>.\<close>

record comparison_payload =
  cmp_candidate_state_sha256 :: "string option"
  cmp_candidate_token_ids :: "int list option"
  cmp_candidate_failure :: "candidate_fault option"
  cmp_serial_state_sha256 :: string
  cmp_serial_token_ids :: "int list"
  cmp_equal :: bool
  cmp_first_difference :: "difference option"

text \<open>A document together with the self-hash the sealing adds.\<close>

record 'd sealed =
  body :: 'd
  self_sha256 :: string

record ledger =
  ledger_schema :: string
  ledger_capability_sha256 :: string
  ledger_session_id :: string
  initial_state :: live_state
  receipts :: "receipt sealed list"
  final_state :: live_state
  candidate_quarantined :: bool
  request_complete :: bool
  classification :: string
  universal_guarantee_mechanism :: string

record digest_functions =
  state_digest :: "live_state \<Rightarrow> string"
  comparison_digest :: "comparison_payload \<Rightarrow> string"
  receipt_digest :: "receipt \<Rightarrow> string"
  ledger_digest :: "ledger \<Rightarrow> string"

definition RECEIPT_SCHEMA :: string where
  "RECEIPT_SCHEMA = ''urn:qwen-r9700:live-serial-commit-receipt:v2''"

definition LEDGER_SCHEMA :: string where
  "LEDGER_SCHEMA = ''urn:qwen-r9700:live-serial-commit-ledger:v2''"

definition RUNTIME_CLASSIFICATION :: string where
  "RUNTIME_CLASSIFICATION = ''runtime_invariant_not_finite_qualification''"

definition SERIAL_MECHANISM :: string where
  "SERIAL_MECHANISM = ''independent_serial_before_every_commit''"

definition COMMIT_COUNTS :: "int list" where
  "COMMIT_COUNTS = [0, 1, 2, 3, 4, 5, 6, 7, 8]"

datatype receipt_error =
    StateError state_error
  | ReceiptSchemaDiffers
  | InvalidRoundIndex
  | CommitCountOutside
  | CanonicalChangedBeforePublication
  | NotAtomicOrNotCleaned
  | TokenIdsInvalid
  | SerialDidNotAdvance
  | SerialWrongEpoch
  | ZeroCommitSerialDiffers
  | SerialPrefixNotExtended
  | LacksCandidateExecution
  | ComparisonNotComplete
  | EqualCandidateQuarantined
  | MismatchNotQuarantined
  | CandidateNotDestroyed
  | InvalidQuarantineTransition
  | FaultContainsComparison
  | FailedCandidateNotDestroyed
  | ReenabledCandidate
  | QuarantinedContainsComparison
  | UnsupportedMode
  | NotSafeSelectedState
  | EpochNotExactlyOnce
  | ComparisonDigestDiffers
  | ReceiptSelfHashDiffers

fun in_receipt :: "state_error + 'a \<Rightarrow> receipt_error + 'a" where
  "in_receipt (Inl e) = Inl (StateError e)"
| "in_receipt (Inr x) = Inr x"

lemma in_receipt_Inr [result_simps]: "in_receipt r = Inr x \<longleftrightarrow> r = Inr x"
  by (cases r) auto

definition optional_sha256 :: "string option \<Rightarrow> state_error + unit" where
  "optional_sha256 v = (case v of None \<Rightarrow> Inl NotLowercaseSha256 | Some s \<Rightarrow> sha256_value s)"

definition token_ids_of :: "int list \<Rightarrow> int \<Rightarrow> receipt_error + int list" where
  "token_ids_of value count =
     (if int (length value) \<noteq> count \<or> list_ex (\<lambda>t. t < 0) value then Inl TokenIdsInvalid
      else Inr value)"

definition normalize_difference :: "difference option \<Rightarrow> state_error + unit" where
  "normalize_difference d =
     (case d of
        None \<Rightarrow> Inr ()
      | Some x \<Rightarrow>
          (case diff_name x of OtherField name \<Rightarrow> identifier_value name | _ \<Rightarrow> Inr ()))"

definition normalize_candidate_failure :: "candidate_fault option \<Rightarrow> state_error + unit" where
  "normalize_candidate_failure f =
     (case f of
        None \<Rightarrow> Inr ()
      | Some c \<Rightarrow>
          rbind (identifier_value (fault_stage c)) (\<lambda>_.
          rbind (identifier_value (fault_exception_type c)) (\<lambda>_.
          rbind (sha256_value (fault_message_sha256 c)) (\<lambda>_.
          sha256_value (fault_traceback_sha256 c)))))"

text \<open>
  The checks of \<open>seal_receipt\<close> up to \<open>serial_private_state_destroyed\<close>: identities,
  states, and the two probes that must show the canonical state before publication.
\<close>

definition receipt_header_check ::
  "('h) digest_functions_scheme \<Rightarrow> receipt \<Rightarrow> receipt_error + unit" where
  "receipt_header_check H r =
     (if schema r \<noteq> RECEIPT_SCHEMA then Inl ReceiptSchemaDiffers else
      rbind (in_receipt (sha256_value (capability_sha256 r))) (\<lambda>_.
      rbind (in_receipt (sha256_value (publication_intent_sha256 r))) (\<lambda>_.
      rbind (in_receipt (identifier_value (session_id r))) (\<lambda>_.
      rbind (in_receipt (identifier_value (request_id r))) (\<lambda>_.
      if round_index r < 0 then Inl InvalidRoundIndex
      else if commit_count r \<notin> set COMMIT_COUNTS then Inl CommitCountOutside else
      rbind (in_receipt (normalize_state (canonical_before r))) (\<lambda>_.
      rbind (in_receipt (normalize_state (serial_state r))) (\<lambda>_.
      rbind (in_receipt (normalize_state (canonical_after r))) (\<lambda>_.
      rbind (check_all (\<lambda>probe.
               rbind (in_receipt (sha256_value probe)) (\<lambda>_.
               require (probe = state_digest H (canonical_before r))
                       CanonicalChangedBeforePublication))
             [canonical_probe_after_candidate_sha256 r, canonical_probe_after_serial_sha256 r])
        (\<lambda>_.
      require (publication_atomic r \<and> serial_private_state_destroyed r)
              NotAtomicOrNotCleaned)))))))))"

text \<open>The serial transition must account for exactly \<open>commit_count\<close> tokens.\<close>

definition serial_advance_check :: "receipt \<Rightarrow> receipt_error + int list" where
  "serial_advance_check r =
     rbind (token_ids_of (serial_token_ids r) (commit_count r)) (\<lambda>tokens.
     if logical_length (serial_state r) \<noteq> logical_length (canonical_before r) + commit_count r
     then Inl SerialDidNotAdvance
     else if commit_epoch (serial_state r) \<noteq>
             commit_epoch (canonical_before r) + of_bool (commit_count r > 0)
     then Inl SerialWrongEpoch
     else if commit_count r = 0 \<and> serial_state r \<noteq> canonical_before r
     then Inl ZeroCommitSerialDiffers
     else if commit_count r > 0 \<and>
             digests (serial_state r) CommittedTokenPrefix =
             digests (canonical_before r) CommittedTokenPrefix
     then Inl SerialPrefixNotExtended
     else Inr tokens)"

definition serial_or_unchanged :: "receipt \<Rightarrow> publication_origin \<times> live_state" where
  "serial_or_unchanged r =
     (if commit_count r = 0 then (Unchanged, canonical_before r) else (FromSerial, serial_state r))"

text \<open>
  The comparison the receipt must report: token IDs first, then the complete state.
\<close>

definition actual_difference ::
  "int list \<Rightarrow> live_state \<Rightarrow> int list \<Rightarrow> live_state \<Rightarrow> state_error + difference option" where
  "actual_difference candidate_tokens candidate serial_tokens serial =
     (if candidate_tokens \<noteq> serial_tokens
      then Inr (Some \<lparr>diff_name = CommittedTokenIds, diff_left = DTokens candidate_tokens,
                      diff_right = DTokens serial_tokens\<rparr>)
      else first_state_difference candidate serial)"

definition validated_candidate_outcome ::
  "receipt \<Rightarrow> receipt_error + publication_origin \<times> live_state" where
  "validated_candidate_outcome r =
     (case candidate_state r of
        None \<Rightarrow> Inl LacksCandidateExecution
      | Some candidate \<Rightarrow>
          if \<not> candidate_enabled_before r \<or> candidate_failure r \<noteq> None
          then Inl LacksCandidateExecution else
          rbind (in_receipt (normalize_state candidate)) (\<lambda>_.
          rbind (case candidate_token_ids r of
                   None \<Rightarrow> Inl TokenIdsInvalid
                 | Some tokens \<Rightarrow> token_ids_of tokens (commit_count r)) (\<lambda>candidate_tokens.
          rbind (in_receipt (actual_difference candidate_tokens candidate
                               (serial_token_ids r) (serial_state r))) (\<lambda>actual.
          if comparison_equal r \<noteq> (actual = None) \<or> first_difference r \<noteq> actual
          then Inl ComparisonNotComplete else
          rbind (if actual = None
                 then if counterexample_sha256 r \<noteq> None \<or> \<not> candidate_enabled_after r
                      then Inl EqualCandidateQuarantined
                      else Inr (if commit_count r = 0 then (Unchanged, canonical_before r)
                                else (FromCandidate, candidate))
                 else rbind (in_receipt (optional_sha256 (counterexample_sha256 r))) (\<lambda>_.
                      if candidate_enabled_after r then Inl MismatchNotQuarantined
                      else Inr (serial_or_unchanged r))) (\<lambda>outcome.
          if \<not> candidate_private_state_destroyed r then Inl CandidateNotDestroyed
          else Inr outcome)))))"

definition candidate_fault_outcome ::
  "receipt \<Rightarrow> receipt_error + publication_origin \<times> live_state" where
  "candidate_fault_outcome r =
     (if \<not> candidate_enabled_before r \<or> candidate_enabled_after r \<or> candidate_failure r = None
      then Inl InvalidQuarantineTransition
      else if candidate_state r \<noteq> None \<or> candidate_token_ids r \<noteq> None \<or> comparison_equal r
              \<or> first_difference r \<noteq> None
      then Inl FaultContainsComparison
      else rbind (in_receipt (optional_sha256 (counterexample_sha256 r))) (\<lambda>_.
           if \<not> candidate_private_state_destroyed r then Inl FailedCandidateNotDestroyed
           else Inr (serial_or_unchanged r)))"

definition quarantined_outcome ::
  "receipt \<Rightarrow> receipt_error + publication_origin \<times> live_state" where
  "quarantined_outcome r =
     (if candidate_enabled_before r \<or> candidate_enabled_after r then Inl ReenabledCandidate
      else if candidate_state r \<noteq> None \<or> candidate_token_ids r \<noteq> None
              \<or> candidate_failure r \<noteq> None \<or> comparison_equal r \<or> first_difference r \<noteq> None
      then Inl QuarantinedContainsComparison
      else rbind (in_receipt (optional_sha256 (counterexample_sha256 r))) (\<lambda>_.
           Inr (serial_or_unchanged r)))"

definition receipt_outcome :: "receipt \<Rightarrow> receipt_error + publication_origin \<times> live_state" where
  "receipt_outcome r =
     (case mode r of
        ValidatedCandidate \<Rightarrow> validated_candidate_outcome r
      | CandidateFaultSerial \<Rightarrow> candidate_fault_outcome r
      | QuarantinedSerial \<Rightarrow> quarantined_outcome r
      | OtherMode _ \<Rightarrow> Inl UnsupportedMode)"

definition receipt_comparison ::
  "('h) digest_functions_scheme \<Rightarrow> ('t) receipt_template_scheme \<Rightarrow> comparison_payload" where
  "receipt_comparison H r =
     \<lparr>cmp_candidate_state_sha256 = map_option (state_digest H) (candidate_state r),
      cmp_candidate_token_ids = candidate_token_ids r,
      cmp_candidate_failure = candidate_failure r,
      cmp_serial_state_sha256 = state_digest H (serial_state r),
      cmp_serial_token_ids = serial_token_ids r,
      cmp_equal = comparison_equal r,
      cmp_first_difference = first_difference r\<rparr>"

definition seal_receipt ::
  "('h) digest_functions_scheme \<Rightarrow> receipt \<Rightarrow> receipt_error + receipt sealed" where
  "seal_receipt H r =
     rbind (receipt_header_check H r) (\<lambda>_.
     rbind (in_receipt (normalize_candidate_failure (candidate_failure r))) (\<lambda>_.
     rbind (in_receipt (normalize_difference (first_difference r))) (\<lambda>_.
     rbind (serial_advance_check r) (\<lambda>_.
     rbind (receipt_outcome r) (\<lambda>(expected_source, expected_after).
     if publication_source r \<noteq> expected_source \<or> canonical_after r \<noteq> expected_after
     then Inl NotSafeSelectedState
     else if commit_epoch (canonical_after r) \<noteq>
             commit_epoch (canonical_before r) + of_bool (commit_count r > 0)
     then Inl EpochNotExactlyOnce
     else rbind (in_receipt (sha256_value (comparison_sha256 r))) (\<lambda>_.
     if comparison_sha256 r \<noteq> comparison_digest H (receipt_comparison H r)
     then Inl ComparisonDigestDiffers
     else Inr \<lparr>body = r, self_sha256 = receipt_digest H r\<rparr>))))))"

definition verify_receipt ::
  "('h) digest_functions_scheme \<Rightarrow> receipt sealed \<Rightarrow> receipt_error + receipt sealed" where
  "verify_receipt H value =
     rbind (in_receipt (sha256_value (self_sha256 value))) (\<lambda>_.
     rbind (seal_receipt H (body value)) (\<lambda>s.
     if self_sha256 s \<noteq> self_sha256 value then Inl ReceiptSelfHashDiffers else Inr s))"

subsection \<open>What a sealed receipt proves\<close>

named_theorems outcome_defs "the outcome checks of the receipt modes"

declare receipt_outcome_def [outcome_defs] validated_candidate_outcome_def [outcome_defs]
  candidate_fault_outcome_def [outcome_defs] quarantined_outcome_def [outcome_defs]
  serial_or_unchanged_def [outcome_defs]

lemma seal_receipt_body: "seal_receipt H r = Inr s \<Longrightarrow> body s = r \<and> self_sha256 s = receipt_digest H r"
  by (auto simp: seal_receipt_def result_simps split: if_splits)

lemma seal_receipt_Inr:
  "seal_receipt H r = Inr s \<longleftrightarrow>
     receipt_header_check H r = Inr () \<and>
     normalize_candidate_failure (candidate_failure r) = Inr () \<and>
     normalize_difference (first_difference r) = Inr () \<and>
     serial_advance_check r = Inr (serial_token_ids r) \<and>
     receipt_outcome r = Inr (publication_source r, canonical_after r) \<and>
     commit_epoch (canonical_after r) =
       commit_epoch (canonical_before r) + of_bool (commit_count r > 0) \<and>
     is_sha256 (comparison_sha256 r) \<and>
     comparison_sha256 r = comparison_digest H (receipt_comparison H r) \<and>
     s = \<lparr>body = r, self_sha256 = receipt_digest H r\<rparr>"
proof -
  have "serial_advance_check r = Inr t \<Longrightarrow> t = serial_token_ids r" for t
    by (auto simp: serial_advance_check_def token_ids_of_def result_simps split: if_splits)
  then show ?thesis
    by (auto simp: seal_receipt_def result_simps sha256_value_def split: if_splits)
qed

lemma serial_advance_Inr:
  assumes "serial_advance_check r = Inr t"
  shows "int (length (serial_token_ids r)) = commit_count r"
    "\<forall>x \<in> set (serial_token_ids r). 0 \<le> x"
    "logical_length (serial_state r) = logical_length (canonical_before r) + commit_count r"
    "commit_epoch (serial_state r) =
       commit_epoch (canonical_before r) + of_bool (commit_count r > 0)"
    "commit_count r = 0 \<longrightarrow> serial_state r = canonical_before r"
  using assms
  by (auto simp: serial_advance_check_def token_ids_of_def result_simps list_ex_iff
      split: if_splits)

lemma header_commit_count:
  "receipt_header_check H r = Inr u \<Longrightarrow> 0 \<le> commit_count r \<and> commit_count r \<le> 8"
  by (auto simp: receipt_header_check_def result_simps COMMIT_COUNTS_def split: if_splits)

lemma header_states:
  "receipt_header_check H r = Inr u \<Longrightarrow>
     normal_state (canonical_before r) \<and> normal_state (serial_state r)
     \<and> normal_state (canonical_after r)"
  by (auto simp: receipt_header_check_def result_simps split: if_splits)

lemma actual_difference_None:
  "actual_difference ct c st s = Inr None \<Longrightarrow> ct = st \<and> c = s"
  by (auto simp: actual_difference_def first_state_difference_None split: if_splits)

text \<open>
  The heart of the contract: in every mode the safe state is the serial one, because an
  accepted candidate has been found equal to it, field by field.
\<close>

lemma receipt_outcome_serial:
  assumes "receipt_outcome r = Inr (source, after)"
    and "commit_count r = 0 \<longrightarrow> serial_state r = canonical_before r"
  shows "after = serial_state r"
  using assms
  by (auto simp: outcome_defs result_simps dest: actual_difference_None
      split: receipt_mode.splits option.splits if_splits)

lemma receipt_outcome_source:
  assumes "receipt_outcome r = Inr (source, after)"
  shows "source = Unchanged \<and> commit_count r = 0
       \<or> source = FromSerial \<and> commit_count r \<noteq> 0
       \<or> source = FromCandidate \<and> commit_count r \<noteq> 0 \<and> mode r = ValidatedCandidate
         \<and> candidate_token_ids r = Some (serial_token_ids r)
         \<and> candidate_state r = Some (serial_state r)"
  using assms
  by (auto simp: outcome_defs result_simps token_ids_of_def dest: actual_difference_None
      split: receipt_mode.splits option.splits if_splits)

lemma receipt_outcome_modes:
  assumes "receipt_outcome r = Inr oc"
  shows "candidate_enabled_after r \<longrightarrow>
      mode r = ValidatedCandidate \<and> candidate_state r = Some (serial_state r)
      \<and> candidate_token_ids r = Some (serial_token_ids r)"
    and "mode r = QuarantinedSerial \<longleftrightarrow> \<not> candidate_enabled_before r"
  using assms
  by (auto simp: outcome_defs result_simps token_ids_of_def dest: actual_difference_None
      split: receipt_mode.splits option.splits if_splits)

end
