(* ===== verification/Live_Capability.thy ===== *)
theory Live_Capability
  imports Live_Receipt
begin

section \<open>Capabilities: what a release must have authenticated\<close>

text \<open>
  Model of \<open>_artifact\<close>, \<open>_release_manifest\<close>, \<open>_require_release_member\<close>,
  \<open>seal_capability\<close> and \<open>verify_capability\<close> of
  \<open>src/qwen_r9700_lab/live_commit_validation.py\<close>.  The file system the code reads is a
  value: a function from normalized absolute paths to files, each with the verdict of the
  ownership test, whether its identity was the same before and after it was read, the
  SHA-256 of its bytes, and the release manifest those bytes spell (\<open>None\<close> when they are
  not the JSON text of one).  A missing file is the error of \<open>lstat\<close>.
\<close>

record release_file =
  hot_path :: bool
  file_mode :: string
  file_path :: string
  file_sha256 :: string

record release_manifest =
  manifest_schema :: string
  artifact_id :: string
  artifact_kind :: string
  semantic_contract :: string
  semantic_source_sha256 :: string
  source_manifest_sha256 :: string
  tree_sha256 :: string
  manifest_files :: "release_file list"

record stored_file =
  owner_controlled :: bool
  stable_while_read :: bool
  stored_sha256 :: string
  stored_manifest :: "release_manifest option"

type_synonym file_system = "string \<Rightarrow> stored_file option"

record artifact =
  artifact_path :: string
  artifact_sha256 :: string

record capability =
  cap_schema :: string
  semantic_source :: artifact
  release_artifact_manifest :: artifact
  controller_runtime :: artifact
  enforcement_runtime :: artifact
  driver_runtime :: artifact
  model_output_fingerprint_runtime :: artifact
  coordinator_runtime :: artifact
  scheduler_runtime :: artifact
  release_runtime :: artifact
  serial_oracle_runtime :: artifact
  cap_model :: artifact
  hardware_runtime_contract_sha256 :: string
  compiler_contract_sha256 :: string
  cap_candidate_family :: string
  cap_serial_family :: string
  commit_counts :: "int list"
  runtime_invariants :: "(string \<times> bool) list"
  hook_boundaries :: "string list"
  cap_classification :: string
  cap_mechanism :: string

datatype capability_error =
    CapabilityField state_error
  | PathNotAbsolute
  | FileNotFound
  | NotOwnerControlled
  | ChangedDuringAuthentication
  | ArtifactHashDiffers
  | ManifestInvalidJson
  | ManifestIdentityDiffers
  | SemanticContractInvalid
  | ManifestFilesAbsent
  | FilePathUnsafeOrDuplicated
  | FileMetadataInvalid
  | TreeIdentityDiffers
  | BoundToDifferentSource
  | RuntimePathsNotDistinct
  | NotReleaseMember
  | ReleaseMemberIdentityDiffers
  | ReleaseAndSerialPathsEqual
  | ReleaseAndSerialIdentitiesEqual
  | FamiliesEqual
  | CapabilitySchemaDiffers
  | CommitCountsDiffer
  | RuntimeInvariantsIncomplete
  | HookBoundariesDiffer
  | CapabilityClassificationUnsafe
  | CapabilityMechanismDiffers
  | CapabilitySelfHashDiffers

fun in_capability :: "state_error + 'a \<Rightarrow> capability_error + 'a" where
  "in_capability (Inl e) = Inl (CapabilityField e)"
| "in_capability (Inr x) = Inr x"

lemma in_capability_Inr [result_simps]: "in_capability r = Inr x \<longleftrightarrow> r = Inr x"
  by (cases r) auto

definition CAPABILITY_SCHEMA :: string where
  "CAPABILITY_SCHEMA = ''urn:qwen-r9700:live-serial-commit-capability:v16''"

definition RELEASE_ARTIFACT_SCHEMA :: string where
  "RELEASE_ARTIFACT_SCHEMA = ''urn:qwen-r9700:coding-turbo-artifact:v1''"

definition RUNTIME_INVARIANTS :: "(string \<times> bool) list" where
  "RUNTIME_INVARIANTS =
     map (\<lambda>name. (name, True))
     [''engine_core_is_sole_transition_coordinator'',
      ''engine_core_source_authenticated'',
      ''scheduler_is_sole_canonical_state_authority'',
      ''scheduler_invokes_authenticated_private_root_preparation'',
      ''scheduler_captures_complete_physical_state_before_record_and_publication'',
      ''canonical_physical_root_is_rechecked_after_every_provisional_operation'',
      ''candidate_executor_is_engine_core_model_executor'',
      ''candidate_executor_distinct_from_coordinator_and_scheduler'',
      ''serial_executor_distinct_from_coordinator_scheduler_and_candidate'',
      ''candidate_and_serial_worker_rpc_methods_are_distinct'',
      ''private_worker_request_and_result_identities_are_echo_verified'',
      ''private_worker_rpc_requires_exactly_one_tp1_result'',
      ''worker_executors_cannot_publish_canonical_state'',
      ''scheduler_records_worker_results_before_comparison'',
      ''scheduler_fingerprints_complete_worker_output_at_record_publish_and_consume'',
      ''scheduler_extracts_and_matches_worker_output_tokens_at_record_publish_and_consume'',
      ''model_runner_output_contains_exactly_one_transaction_request'',
      ''scheduler_update_requires_one_shot_verified_advance'',
      ''scheduler_prepares_identity_bound_private_round_payload'',
      ''candidate_determines_live_commit_width'',
      ''serial_executes_exact_candidate_or_external_cap_width'',
      ''candidate_uses_private_state'',
      ''serial_uses_independent_private_state'',
      ''serial_executor_distinct_from_candidate_runner'',
      ''serial_hook_source_authenticated'',
      ''release_hooks_source_authenticated'',
      ''provisional_round_opened_before_candidate_forward'',
      ''provisional_abort_proves_canonical_unchanged'',
      ''canonical_unchanged_before_publication'',
      ''complete_state_compared'',
      ''atomic_root_publication'',
      ''serial_published_on_mismatch'',
      ''counterexample_preserved_before_fallback'',
      ''candidate_quarantined_on_mismatch'',
      ''serial_continues_after_quarantine'',
      ''authenticated_process_death_recovery'',
      ''recovery_is_idempotent'',
      ''runtime_bypass_forbidden'']"

definition HOOK_BOUNDARIES :: "string list" where
  "HOOK_BOUNDARIES =
     [''engine_core_enters_authenticated_serial_validation_before_model_execution'',
      ''scheduler_prepares_identity_bound_private_schedule_without_canonical_mutation'',
      ''scheduler_opens_private_branches_before_candidate_worker_execution'',
      ''candidate_worker_forward_between_private_open_and_validated_commit'',
      ''candidate_target_verification_determines_commit_width_zero_through_eight'',
      ''scheduler_cancellation_aborts_private_round'',
      ''after_candidate_before_serial'',
      ''serial_worker_executes_exact_verified_or_capped_candidate_width'',
      ''scheduler_records_private_worker_results'',
      ''after_serial_before_comparison'',
      ''after_comparison_before_publication'',
      ''scheduler_atomic_root_publication_before_request_advance'',
      ''engine_core_consumes_verified_advance_before_scheduler_update_from_output'',
      ''scheduler_update_from_output_accepts_only_verified_commit'',
      ''after_atomic_scheduler_publication'',
      ''serial_fallback_after_candidate_fault'',
      ''restart_resolves_prepublication_intent'']"

subsection \<open>Paths\<close>

text \<open>
  \<open>pathlib\<close> splits a path at the slashes and drops empty and \<open>.\<close> parts; a path that
  begins with exactly two slashes keeps them.
\<close>

fun split_slash :: "string \<Rightarrow> string \<Rightarrow> string list" where
  "split_slash acc [] = [rev acc]"
| "split_slash acc (c # cs) =
     (if c = CHR ''/'' then rev acc # split_slash [] cs else split_slash (c # acc) cs)"

definition path_parts :: "string \<Rightarrow> string list" where
  "path_parts p = filter (\<lambda>part. part \<noteq> [] \<and> part \<noteq> ''.'') (split_slash [] p)"

fun join_slash :: "string list \<Rightarrow> string" where
  "join_slash [] = []"
| "join_slash [p] = p"
| "join_slash (p # q # ps) = p @ ''/'' @ join_slash (q # ps)"

definition path_root :: "string \<Rightarrow> string" where
  "path_root p =
     (if take 2 p = ''//'' \<and> take 3 p \<noteq> ''///'' then ''//''
      else if take 1 p = ''/'' then ''/'' else [])"

definition path_text :: "string \<Rightarrow> string" where
  "path_text p = path_root p @ join_slash (path_parts p)"

definition path_parent :: "string \<Rightarrow> string" where
  "path_parent p = path_root p @ join_slash (butlast (path_parts p))"

definition path_join :: "string \<Rightarrow> string \<Rightarrow> string" where
  "path_join base relative = path_text (base @ ''/'' @ relative)"

subsection \<open>Artifacts and release manifests\<close>

definition artifact_check :: "file_system \<Rightarrow> artifact \<Rightarrow> capability_error + artifact" where
  "artifact_check fs a =
     (if take 1 (artifact_path a) \<noteq> ''/'' then Inl PathNotAbsolute else
      rbind (in_capability (sha256_value (artifact_sha256 a))) (\<lambda>_.
      case fs (path_text (artifact_path a)) of
        None \<Rightarrow> Inl FileNotFound
      | Some file \<Rightarrow>
          if \<not> owner_controlled file then Inl NotOwnerControlled
          else if \<not> stable_while_read file then Inl ChangedDuringAuthentication
          else if stored_sha256 file \<noteq> artifact_sha256 a then Inl ArtifactHashDiffers
          else Inr \<lparr>artifact_path = path_text (artifact_path a),
                    artifact_sha256 = stored_sha256 file\<rparr>))"

text \<open>The loop over \<open>manifest["files"]\<close>; \<open>seen\<close> is the set \<open>paths\<close>.\<close>

fun release_files_check :: "string set \<Rightarrow> release_file list \<Rightarrow> capability_error + unit" where
  "release_files_check seen [] = Inr ()"
| "release_files_check seen (f # fs) =
     (if file_path f = [] \<or> take 1 (file_path f) = ''/'' \<or> ''..'' \<in> set (path_parts (file_path f))
         \<or> file_path f \<in> seen
      then Inl FilePathUnsafeOrDuplicated
      else if file_mode f \<notin> {''0600'', ''0700''} then Inl FileMetadataInvalid
      else rbind (in_capability (sha256_value (file_sha256 f))) (\<lambda>_.
           release_files_check (insert (file_path f) seen) fs))"

definition manifest_identity :: "release_manifest \<Rightarrow> (string \<times> string) list" where
  "manifest_identity m = map (\<lambda>f. (file_path f, file_sha256 f)) (manifest_files m)"

text \<open>\<open>tree_digest\<close> is the SHA-256 of the indented JSON text of the file identities.\<close>

definition release_manifest_check ::
  "((string \<times> string) list \<Rightarrow> string) \<Rightarrow> file_system \<Rightarrow> artifact
   \<Rightarrow> capability_error + artifact \<times> release_manifest" where
  "release_manifest_check tree_digest fs value =
     rbind (artifact_check fs value) (\<lambda>artifact.
     case Option.bind (fs (artifact_path artifact)) stored_manifest of
       None \<Rightarrow> Inl ManifestInvalidJson
     | Some m \<Rightarrow>
         if manifest_schema m \<noteq> RELEASE_ARTIFACT_SCHEMA \<or> artifact_kind m \<noteq> ''release''
         then Inl ManifestIdentityDiffers else
         rbind (in_capability (identifier_value (artifact_id m))) (\<lambda>_.
         if semantic_contract m = [] then Inl SemanticContractInvalid else
         rbind (in_capability (check_all sha256_value
                  [semantic_source_sha256 m, source_manifest_sha256 m, tree_sha256 m])) (\<lambda>_.
         if manifest_files m = [] then Inl ManifestFilesAbsent else
         rbind (release_files_check {} (manifest_files m)) (\<lambda>_.
         if tree_digest (manifest_identity m) \<noteq> tree_sha256 m then Inl TreeIdentityDiffers
         else Inr (artifact, m)))))"

definition require_release_member ::
  "file_system \<Rightarrow> artifact \<Rightarrow> artifact \<Rightarrow> release_manifest \<Rightarrow> capability_error + unit" where
  "require_release_member fs runtime manifest_artifact m =
     (case filter (\<lambda>entry. file_sha256 entry = artifact_sha256 runtime) (manifest_files m) of
        [entry] \<Rightarrow>
          rbind (artifact_check fs
                   \<lparr>artifact_path = path_join (path_join (path_parent (artifact_path manifest_artifact))
                                                ''files'') (file_path entry),
                    artifact_sha256 = file_sha256 entry\<rparr>) (\<lambda>authenticated.
          require (artifact_sha256 authenticated = artifact_sha256 runtime)
                  ReleaseMemberIdentityDiffers)
      | _ \<Rightarrow> Inl NotReleaseMember)"

subsection \<open>Sealing\<close>

definition runtime_artifacts :: "capability \<Rightarrow> artifact list" where
  "runtime_artifacts c =
     [controller_runtime c, enforcement_runtime c, driver_runtime c,
      model_output_fingerprint_runtime c, coordinator_runtime c, scheduler_runtime c,
      release_runtime c, serial_oracle_runtime c]"

text \<open>The artifacts replaced by their authenticated, normalized forms.\<close>

definition authenticate_artifacts ::
  "((string \<times> string) list \<Rightarrow> string) \<Rightarrow> file_system \<Rightarrow> capability
   \<Rightarrow> capability_error + capability \<times> release_manifest" where
  "authenticate_artifacts tree_digest fs c =
     rbind (artifact_check fs (semantic_source c)) (\<lambda>source.
     rbind (release_manifest_check tree_digest fs (release_artifact_manifest c)) (\<lambda>(artifact, m).
     if source_manifest_sha256 m \<noteq> artifact_sha256 source then Inl BoundToDifferentSource else
     rbind (artifact_check fs (controller_runtime c)) (\<lambda>controller.
     rbind (artifact_check fs (enforcement_runtime c)) (\<lambda>enforcement.
     rbind (artifact_check fs (driver_runtime c)) (\<lambda>driver_file.
     rbind (artifact_check fs (model_output_fingerprint_runtime c)) (\<lambda>fingerprint.
     rbind (artifact_check fs (coordinator_runtime c)) (\<lambda>coordinator.
     rbind (artifact_check fs (scheduler_runtime c)) (\<lambda>scheduler.
     rbind (artifact_check fs (release_runtime c)) (\<lambda>release.
     rbind (artifact_check fs (serial_oracle_runtime c)) (\<lambda>oracle.
     rbind (artifact_check fs (cap_model c)) (\<lambda>model_file.
     Inr (c\<lparr>semantic_source := source, release_artifact_manifest := artifact,
            controller_runtime := controller, enforcement_runtime := enforcement,
            driver_runtime := driver_file, model_output_fingerprint_runtime := fingerprint,
            coordinator_runtime := coordinator, scheduler_runtime := scheduler,
            release_runtime := release, serial_oracle_runtime := oracle,
            cap_model := model_file\<rparr>, m))))))))))))"

definition capability_contract_check :: "capability \<Rightarrow> capability_error + unit" where
  "capability_contract_check c =
     (if artifact_path (release_runtime c) = artifact_path (serial_oracle_runtime c)
      then Inl ReleaseAndSerialPathsEqual
      else if artifact_sha256 (release_runtime c) = artifact_sha256 (serial_oracle_runtime c)
      then Inl ReleaseAndSerialIdentitiesEqual else
      rbind (in_capability (identifier_value (cap_candidate_family c))) (\<lambda>_.
      rbind (in_capability (identifier_value (cap_serial_family c))) (\<lambda>_.
      if cap_candidate_family c = cap_serial_family c then Inl FamiliesEqual else
      rbind (in_capability (sha256_value (hardware_runtime_contract_sha256 c))) (\<lambda>_.
      rbind (in_capability (sha256_value (compiler_contract_sha256 c))) (\<lambda>_.
      if cap_schema c \<noteq> CAPABILITY_SCHEMA then Inl CapabilitySchemaDiffers
      else if commit_counts c \<noteq> COMMIT_COUNTS then Inl CommitCountsDiffer
      else if set (runtime_invariants c) \<noteq> set RUNTIME_INVARIANTS
      then Inl RuntimeInvariantsIncomplete
      else if hook_boundaries c \<noteq> HOOK_BOUNDARIES then Inl HookBoundariesDiffer
      else if cap_classification c \<noteq> RUNTIME_CLASSIFICATION
      then Inl CapabilityClassificationUnsafe
      else require (cap_mechanism c = SERIAL_MECHANISM) CapabilityMechanismDiffers)))))"

definition seal_capability ::
  "((string \<times> string) list \<Rightarrow> string) \<Rightarrow> (capability \<Rightarrow> string) \<Rightarrow> file_system \<Rightarrow> capability
   \<Rightarrow> capability_error + capability sealed" where
  "seal_capability tree_digest cap_digest fs c =
     rbind (authenticate_artifacts tree_digest fs c) (\<lambda>(sealed_cap, m).
     if \<not> distinct (map artifact_path (runtime_artifacts sealed_cap))
     then Inl RuntimePathsNotDistinct else
     rbind (check_all (\<lambda>runtime. require_release_member fs runtime
                          (release_artifact_manifest sealed_cap) m)
              (runtime_artifacts sealed_cap)) (\<lambda>_.
     rbind (capability_contract_check sealed_cap) (\<lambda>_.
     Inr \<lparr>body = sealed_cap, self_sha256 = cap_digest sealed_cap\<rparr>)))"

definition verify_capability ::
  "((string \<times> string) list \<Rightarrow> string) \<Rightarrow> (capability \<Rightarrow> string) \<Rightarrow> file_system \<Rightarrow> capability sealed
   \<Rightarrow> capability_error + capability sealed" where
  "verify_capability tree_digest cap_digest fs value =
     rbind (in_capability (sha256_value (self_sha256 value))) (\<lambda>_.
     rbind (seal_capability tree_digest cap_digest fs (body value)) (\<lambda>s.
     if self_sha256 s \<noteq> self_sha256 value then Inl CapabilitySelfHashDiffers else Inr s))"

subsection \<open>What a sealed capability guarantees\<close>

lemma artifact_check_Inr:
  assumes "artifact_check fs a = Inr b"
  shows "artifact_sha256 b = artifact_sha256 a"
    "\<exists>file. fs (artifact_path b) = Some file \<and> stored_sha256 file = artifact_sha256 b
       \<and> owner_controlled file \<and> is_sha256 (artifact_sha256 b)"
  using assms
  by (auto simp: artifact_check_def sha256_value_def result_simps split: if_splits option.splits)

lemma seal_capability_body:
  assumes "seal_capability td cd fs c = Inr s"
  obtains m where "authenticate_artifacts td fs c = Inr (body s, m)"
    "distinct (map artifact_path (runtime_artifacts (body s)))"
    "\<forall>a \<in> set (runtime_artifacts (body s)).
       require_release_member fs a (release_artifact_manifest (body s)) m = Inr ()"
    "capability_contract_check (body s) = Inr ()"
    "self_sha256 s = cd (body s)"
  using assms
  by (auto simp: seal_capability_def result_simps split: if_splits)

lemma contract_check_Inr:
  assumes "capability_contract_check c = Inr u"
  shows "cap_candidate_family c \<noteq> cap_serial_family c"
    "artifact_sha256 (release_runtime c) \<noteq> artifact_sha256 (serial_oracle_runtime c)"
    "set (runtime_invariants c) = set RUNTIME_INVARIANTS" "hook_boundaries c = HOOK_BOUNDARIES"
  using assms by (auto simp: capability_contract_check_def result_simps split: if_splits)

lemma authenticate_artifacts_Inr:
  assumes "authenticate_artifacts td fs c = Inr (c', m)"
  shows "\<forall>a \<in> set (runtime_artifacts c'). \<exists>a0. artifact_check fs a0 = Inr a"
  using assms
proof -
  have "\<exists>xs. runtime_artifacts c' = xs \<and> (\<forall>a \<in> set xs. \<exists>a0. artifact_check fs a0 = Inr a)"
    using assms
    by (simp only: authenticate_artifacts_def rbind_Inr_iff if_Inl_Inr_iff split_paired_Ex
          prod.case sum.inject prod.inject)
       (elim exE conjE, hypsubst, simp add: runtime_artifacts_def, blast)
  then show ?thesis by blast
qed

lemma authenticated_on_disk:
  assumes "authenticate_artifacts td fs c = Inr (c', m)" and "a \<in> set (runtime_artifacts c')"
  shows "\<exists>file. fs (artifact_path a) = Some file \<and> stored_sha256 file = artifact_sha256 a
           \<and> owner_controlled file"
proof -
  obtain a0 where "artifact_check fs a0 = Inr a"
    using authenticate_artifacts_Inr [OF assms(1)] assms(2) by blast
  then show ?thesis using artifact_check_Inr(2) by blast
qed

lemma release_member_unique:
  assumes "require_release_member fs a manifest_artifact m = Inr u"
  shows "\<exists>!i. i < length (manifest_files m) \<and> file_sha256 (manifest_files m ! i) = artifact_sha256 a"
proof -
  let ?P = "\<lambda>entry. file_sha256 entry = artifact_sha256 a"
  from assms have "length (filter ?P (manifest_files m)) = 1"
    by (auto simp: require_release_member_def split: list.splits)
  then have "card {i. i < length (manifest_files m) \<and> ?P (manifest_files m ! i)} = 1"
    by (simp add: length_filter_conv_card)
  then obtain k where "{i. i < length (manifest_files m) \<and> ?P (manifest_files m ! i)} = {k}"
    by (rule card_1_singletonE)
  then have "(i < length (manifest_files m) \<and> ?P (manifest_files m ! i)) = (i = k)" for i
    by (simp add: set_eq_iff)
  then show ?thesis by simp
qed

end
