(* ===== verification/Live_Ledger.thy ===== *)
theory Live_Ledger
  imports Live_Receipt
begin

section \<open>Ledgers: chains of receipts with one-way quarantine\<close>

text \<open>
  Model of \<open>seal_ledger\<close> and \<open>verify_ledger\<close> of
  \<open>src/qwen_r9700_lab/live_commit_validation.py\<close>.  The loop over the receipts is
  \<open>chain_receipts\<close>; its accumulator is the pair \<open>(previous, quarantined)\<close> of the code,
  and the index \<open>enumerate\<close> supplies.  The second half of the theory relates ledgers to
  an abstract machine that only knows the serial program: every verified ledger is a run
  of that machine, whatever the candidates did.
\<close>

datatype ledger_error =
    LedgerSchemaDiffers
  | LedgerField state_error
  | LedgerReceipt receipt_error
  | ReceiptIdentityDiffers
  | RoundIndexesNotContiguous
  | StateChainBroken
  | CandidateAfterQuarantine
  | FinalStateDiffers
  | QuarantineVerdictDiffers
  | IncompleteRequest
  | UnsafeClassification
  | MechanismDiffers
  | LedgerSelfHashDiffers

fun in_ledger :: "state_error + 'a \<Rightarrow> ledger_error + 'a" where
  "in_ledger (Inl e) = Inl (LedgerField e)"
| "in_ledger (Inr x) = Inr x"

fun receipt_in_ledger :: "receipt_error + 'a \<Rightarrow> ledger_error + 'a" where
  "receipt_in_ledger (Inl e) = Inl (LedgerReceipt e)"
| "receipt_in_ledger (Inr x) = Inr x"

lemma in_ledger_Inr [result_simps]: "in_ledger r = Inr x \<longleftrightarrow> r = Inr x"
  by (cases r) auto

lemma receipt_in_ledger_Inr [result_simps]: "receipt_in_ledger r = Inr x \<longleftrightarrow> r = Inr x"
  by (cases r) auto

fun chain_receipts ::
  "string \<Rightarrow> string \<Rightarrow> int \<Rightarrow> receipt sealed list \<Rightarrow> live_state \<times> bool
   \<Rightarrow> ledger_error + live_state \<times> bool" where
  "chain_receipts session capability index [] acc = Inr acc"
| "chain_receipts session capability index (s # rest) (previous, quarantined) =
     (if session_id (body s) \<noteq> session \<or> capability_sha256 (body s) \<noteq> capability
      then Inl ReceiptIdentityDiffers
      else if round_index (body s) \<noteq> index then Inl RoundIndexesNotContiguous
      else if canonical_before (body s) \<noteq> previous then Inl StateChainBroken
      else if quarantined \<and> mode (body s) \<noteq> QuarantinedSerial then Inl CandidateAfterQuarantine
      else chain_receipts session capability (index + 1) rest
             (canonical_after (body s), quarantined \<or> \<not> candidate_enabled_after (body s)))"

definition seal_ledger ::
  "('h) digest_functions_scheme \<Rightarrow> ledger \<Rightarrow> ledger_error + ledger sealed" where
  "seal_ledger H l =
     (if ledger_schema l \<noteq> LEDGER_SCHEMA then Inl LedgerSchemaDiffers else
      rbind (in_ledger (sha256_value (ledger_capability_sha256 l))) (\<lambda>_.
      rbind (in_ledger (identifier_value (ledger_session_id l))) (\<lambda>_.
      rbind (in_ledger (normalize_state (initial_state l))) (\<lambda>initial.
      rbind (in_ledger (normalize_state (final_state l))) (\<lambda>final.
      rbind (map_result (\<lambda>s. receipt_in_ledger (verify_receipt H s)) (receipts l)) (\<lambda>verified.
      rbind (chain_receipts (ledger_session_id l) (ledger_capability_sha256 l) 0 verified
               (initial, False)) (\<lambda>(previous, quarantined).
      if previous \<noteq> final then Inl FinalStateDiffers
      else if candidate_quarantined l \<noteq> quarantined then Inl QuarantineVerdictDiffers
      else if \<not> request_complete l then Inl IncompleteRequest
      else if classification l \<noteq> RUNTIME_CLASSIFICATION then Inl UnsafeClassification
      else if universal_guarantee_mechanism l \<noteq> SERIAL_MECHANISM then Inl MechanismDiffers
      else let sealed_body = l\<lparr>initial_state := initial, receipts := verified,
                               final_state := final\<rparr>
           in Inr \<lparr>body = sealed_body, self_sha256 = ledger_digest H sealed_body\<rparr>)))))))"

definition verify_ledger ::
  "('h) digest_functions_scheme \<Rightarrow> ledger sealed \<Rightarrow> ledger_error + ledger sealed" where
  "verify_ledger H value =
     rbind (in_ledger (sha256_value (self_sha256 value))) (\<lambda>_.
     rbind (seal_ledger H (body value)) (\<lambda>s.
     if self_sha256 s \<noteq> self_sha256 value then Inl LedgerSelfHashDiffers else Inr s))"

subsection \<open>Verification and sealing\<close>

lemma seal_receipt_verified:
  assumes "verify_receipt H s = Inr s'"
  shows "s' = s" "seal_receipt H (body s) = Inr s" "is_sha256 (self_sha256 s)"
proof -
  from assms have "is_sha256 (self_sha256 s)" "seal_receipt H (body s) = Inr s'"
    "self_sha256 s' = self_sha256 s"
    by (auto simp: verify_receipt_def sha256_value_def result_simps split: if_splits)
  moreover from this have "body s' = body s"
    using seal_receipt_body by metis
  ultimately show "s' = s" "seal_receipt H (body s) = Inr s" "is_sha256 (self_sha256 s)"
    by (cases s; cases s'; simp)+
qed

lemma map_verify_id:
  "map_result (\<lambda>s. receipt_in_ledger (verify_receipt H s)) xs = Inr ys \<Longrightarrow>
     ys = xs \<and> (\<forall>s \<in> set xs. verify_receipt H s = Inr s)"
  by (induction xs arbitrary: ys) (auto simp: result_simps dest: seal_receipt_verified(1))

lemma seal_ledger_Inr:
  "seal_ledger H l = Inr s \<longleftrightarrow>
     ledger_schema l = LEDGER_SCHEMA \<and>
     is_sha256 (ledger_capability_sha256 l) \<and>
     identifier_value (ledger_session_id l) = Inr () \<and>
     normal_state (initial_state l) \<and> normal_state (final_state l) \<and>
     (\<forall>r \<in> set (receipts l). verify_receipt H r = Inr r) \<and>
     chain_receipts (ledger_session_id l) (ledger_capability_sha256 l) 0 (receipts l)
       (initial_state l, False) = Inr (final_state l, candidate_quarantined l) \<and>
     request_complete l \<and> classification l = RUNTIME_CLASSIFICATION \<and>
     universal_guarantee_mechanism l = SERIAL_MECHANISM \<and>
     s = \<lparr>body = l, self_sha256 = ledger_digest H l\<rparr>"
  (is "?lhs = ?rhs")
proof
  assume ?lhs
  then show ?rhs
    by (auto simp: seal_ledger_def sha256_value_def result_simps Let_def dest!: map_verify_id
        split: if_splits)
next
  assume r: ?rhs
  have "map_result (\<lambda>s. receipt_in_ledger (verify_receipt H s)) xs = Inr xs"
    if "\<forall>r \<in> set xs. verify_receipt H r = Inr r" for xs
    using that by (induction xs) auto
  with r show ?lhs
    by (simp add: seal_ledger_def sha256_value_def Let_def normal_state_def)
qed

subsection \<open>The chain\<close>

text \<open>
  A verified receipt as one step of the serial program: \<open>count\<close> tokens are appended and
  the state moves from \<open>before\<close> to \<open>after\<close>.
\<close>

definition serial_step :: "receipt \<Rightarrow> live_state \<Rightarrow> live_state \<Rightarrow> bool" where
  "serial_step r before after \<longleftrightarrow>
     before = canonical_before r \<and> after = serial_state r
     \<and> logical_length after = logical_length before + int (length (serial_token_ids r))
     \<and> commit_epoch after = commit_epoch before + of_bool (serial_token_ids r \<noteq> [])
     \<and> length (serial_token_ids r) \<le> 8
     \<and> (serial_token_ids r = [] \<longrightarrow> after = before)"

lemma sealed_receipt_step:
  assumes "seal_receipt H r = Inr s"
  shows "serial_step r (canonical_before r) (canonical_after r)"
    and "canonical_after r = serial_state r"
proof -
  from assms have adv: "serial_advance_check r = Inr (serial_token_ids r)"
    and hdr: "receipt_header_check H r = Inr ()"
    and out: "receipt_outcome r = Inr (publication_source r, canonical_after r)"
    by (auto simp: seal_receipt_Inr)
  note facts = serial_advance_Inr [OF adv] header_commit_count [OF hdr]
  show after: "canonical_after r = serial_state r"
    using receipt_outcome_serial [OF out] facts(5) by blast
  show "serial_step r (canonical_before r) (canonical_after r)"
    unfolding serial_step_def after using facts by auto
qed

inductive serial_run :: "live_state \<Rightarrow> receipt list \<Rightarrow> live_state \<Rightarrow> bool" where
  run_done: "serial_run st [] st"
| run_step: "serial_step r st st' \<Longrightarrow> serial_run st' rs final \<Longrightarrow> serial_run st (r # rs) final"

inductive_simps serial_run_simps:
  "serial_run st [] final"
  "serial_run st (r # rs) final"

lemma serial_run_totals:
  "serial_run st rs final \<Longrightarrow>
     logical_length final =
       logical_length st + int (length (concat (map serial_token_ids rs)))
     \<and> commit_epoch final =
       commit_epoch st + int (length (filter (\<lambda>r. serial_token_ids r \<noteq> []) rs))"
  by (induction rule: serial_run.induct) (auto simp: serial_step_def)

lemma chain_receipts_run:
  assumes "chain_receipts session capability i xs (previous, q) = Inr (final, q')"
    and "\<forall>s \<in> set xs. verify_receipt H s = Inr s"
  shows "serial_run previous (map body xs) final"
  using assms
proof (induction session capability i xs "(previous, q)" arbitrary: previous q
    rule: chain_receipts.induct)
  case (1 session capability index previous q)
  then show ?case by (simp add: serial_run_simps)
next
  case (2 session capability index s rest previous q)
  from "2.prems" have "seal_receipt H (body s) = Inr s"
    by (auto dest: seal_receipt_verified)
  then have "serial_step (body s) (canonical_before (body s)) (canonical_after (body s))"
    by (rule sealed_receipt_step)
  with 2 show ?case by (auto simp: serial_run_simps split: if_splits)
qed

lemma chain_receipts_indexes:
  assumes "chain_receipts session capability i xs acc = Inr acc'" and "n < length xs"
  shows "round_index (body (xs ! n)) = i + int n"
    "session_id (body (xs ! n)) = session" "capability_sha256 (body (xs ! n)) = capability"
  using assms
  by (induction session capability i xs acc arbitrary: n rule: chain_receipts.induct)
     (auto simp: nth_Cons split: if_splits nat.splits)

text \<open>Quarantine is one-way: after the first disabling receipt only serial rounds follow.\<close>

lemma chain_receipts_flag:
  "chain_receipts session capability i xs acc = Inr acc' \<Longrightarrow>
     snd acc' \<longleftrightarrow> snd acc \<or> (\<exists>s \<in> set xs. \<not> candidate_enabled_after (body s))"
  by (induction session capability i xs acc rule: chain_receipts.induct) (auto split: if_splits)

lemma chain_receipts_quarantined:
  "chain_receipts session capability i xs acc = Inr acc' \<Longrightarrow> snd acc \<Longrightarrow>
     \<forall>s \<in> set xs. mode (body s) = QuarantinedSerial"
  by (induction session capability i xs acc rule: chain_receipts.induct) (auto split: if_splits)

lemma chain_receipts_append:
  "chain_receipts session capability i (xs @ ys) acc =
     rbind (chain_receipts session capability i xs acc)
       (chain_receipts session capability (i + int (length xs)) ys)"
  by (induction session capability i xs acc rule: chain_receipts.induct)
     (auto simp: algebra_simps)

lemma chain_receipts_one_way:
  assumes "chain_receipts session capability i (xs @ s # ys) acc = Inr acc'"
    and "\<not> candidate_enabled_after (body s)"
  shows "\<forall>t \<in> set ys. mode (body t) = QuarantinedSerial"
proof -
  from assms(1) obtain mid where
    "chain_receipts session capability (i + int (length xs)) (s # ys) mid = Inr acc'"
    unfolding chain_receipts_append rbind_Inr_iff by blast
  then have "chain_receipts session capability (i + int (length xs) + 1) ys
      (canonical_after (body s), True) = Inr acc'"
    using assms(2) by (cases mid) (auto split: if_splits)
  then show ?thesis by (rule chain_receipts_quarantined) simp
qed

end
