(* ===== verification/Live_Journal.thy ===== *)
theory Live_Journal
  imports Live_Ledger
begin

section \<open>Publication intents and the durable evidence journal\<close>

text \<open>
  Model of the document types of \<open>src/qwen_r9700_lab/live_commit_controller.py\<close>, of
  \<open>_normalize_intent\<close>, and of \<open>DurableEvidenceJournal\<close>.  The directory is an
  association list from file names to files: file names are a datatype with the six
  patterns the code formats (and \<open>OtherName\<close> for anything else found in the directory),
  a file has the result of the owner-only check and its parsed document.  The order of
  the list is the order \<open>iterdir\<close> would report, which no statement depends on.
  Publication is create-only: an existing file is accepted exactly when its content is
  the same.  Failures of the file system itself (\<open>OSError\<close>) are not modelled.
\<close>

datatype driver_exception = DriverException string string

text \<open>The refusals of \<open>run_round\<close> and \<open>finalize_ledger\<close> themselves.\<close>

datatype refusal =
    RoundIndexInvalid
  | NotNextDurableIndex
  | CommitCountOutsideRange
  | FallbackWithFixedWidth
  | FallbackWidthRequired
  | ReceiptChainDiffers
  | SerialTransitionFailed
  | LacksCounterexample
  | PublicationFailed
  | PublicationAndCleanupFailed
  | NonAtomicPublication
  | PublishedStateDiffers
  | PrivateCleanupFailed
  | EmptySession

text \<open>The errors of the constructor and of the recovery of an interrupted publication.\<close>

datatype restart_error =
    ControllerPathUnauthenticated
  | ControllerIdentityDiffers
  | DriverIdentityDiffers
  | ReceiptSequenceIdentity
  | ReceiptSequenceBroken
  | ReenabledQuarantinedCandidate
  | RecoveryIdentityDiffers
  | RecoveryStateDiffers
  | CommittedWithoutReceipt
  | RolledBackWithReceipt
  | MultipleUnresolvedIntents
  | IntentIdentityDiffers
  | IntentDoesNotExtendChain
  | RecoveryOracleFailed
  | IncompleteDriverRecovery
  | RecoveredProbeDiffers
  | RecoveredStateDiffers

datatype controller_error =
    StateInvalid state_error
  | ReceiptInvalid receipt_error
  | LedgerInvalid ledger_error
  | DriverRaised driver_exception
  | IntentFieldInvalid string
  | IntentTemplateInvalid
  | IntentTemplateDiffers
  | SelectedSerialTokensDiffer
  | SelectedCandidateTokensDiffer
  | OmittedCandidateHandle
  | EvidenceDiffers
  | MalformedArtifact
  | UnsafeArtifact
  | UnreadableArtifact
  | IntentInvalid
  | ReceiptArtifactInvalid
  | ReceiptFilenameHashDiffers
  | ReceiptIntentAbsent
  | ReceiptIntentDiffers
  | ReceiptTemplateDiffers
  | ReceiptFilenameRoundDiffers
  | NotExactlyOneIntent
  | RecoveryInvalid
  | RecoveryDispositionInvalid
  | RecoveryIncomplete
  | MultipleRecoveries
  | CapabilityRefused
  | RestartRefused restart_error
  | CanonicalChanged string
  | RestorationFailed string
  | TransitionInvalid string
  | RoundRefused refusal

record intent =
  intent_schema :: string
  intent_capability_sha256 :: string
  intent_session_id :: string
  intent_request_id :: string
  intent_round_index :: int
  intent_commit_count :: int
  intent_mode :: receipt_mode
  snapshot_handle_id :: string
  intent_canonical_before :: live_state
  selected_source :: publication_origin
  selected_handle_id :: string
  selected_state :: live_state
  selected_token_ids :: "int list"
  candidate_handle_id :: "string option"
  serial_handle_id :: string
  intent_candidate_failure :: "candidate_fault option"
  intent_counterexample_sha256 :: "string option"
  intent_template :: receipt_template

record counterexample =
  cex_schema :: string
  cex_capability_sha256 :: string
  cex_session_id :: string
  cex_request_id :: string
  cex_round_index :: int
  cex_canonical_before_sha256 :: string
  cex_candidate_state_sha256 :: "string option"
  cex_candidate_token_ids :: "int list option"
  cex_candidate_failure :: "candidate_fault option"
  cex_serial_state_sha256 :: string
  cex_serial_token_ids :: "int list"
  cex_first_difference :: "difference option"

record fatal =
  fatal_schema :: string
  fatal_capability_sha256 :: string
  fatal_session_id :: string
  fatal_request_id :: string
  fatal_round_index :: int
  fatal_canonical_before_sha256 :: string
  fatal_failure :: candidate_fault

datatype disposition = Committed | RolledBack | OtherDisposition string

record recovery =
  recovery_schema :: string
  recovery_intent_sha256 :: string
  recovery_capability_sha256 :: string
  recovery_session_id :: string
  recovery_request_id :: string
  recovery_round_index :: int
  recovery_disposition :: disposition
  recovery_canonical_state :: live_state
  recovery_publication_atomic :: bool
  recovery_candidate_destroyed :: bool
  recovery_serial_destroyed :: bool
  recovery_counterexample_sha256 :: "string option"

record controller_digests = digest_functions +
  intent_digest :: "intent \<Rightarrow> string"
  counterexample_digest :: "counterexample \<Rightarrow> string"
  fatal_digest :: "fatal \<Rightarrow> string"
  recovery_digest :: "recovery \<Rightarrow> string"
  text_digest :: "string \<Rightarrow> string"
  message_digest :: "controller_error \<Rightarrow> string"
  traceback_digest :: "controller_error \<Rightarrow> string"

definition COUNTEREXAMPLE_SCHEMA :: string where
  "COUNTEREXAMPLE_SCHEMA = ''urn:qwen-r9700:live-serial-counterexample:v1''"

definition PUBLICATION_INTENT_SCHEMA :: string where
  "PUBLICATION_INTENT_SCHEMA = ''urn:qwen-r9700:live-serial-publication-intent:v2''"

definition PUBLICATION_RECOVERY_SCHEMA :: string where
  "PUBLICATION_RECOVERY_SCHEMA = ''urn:qwen-r9700:live-serial-publication-recovery:v1''"

definition FATAL_SCHEMA :: string where
  "FATAL_SCHEMA = ''urn:qwen-r9700:live-serial-fatal:v1''"

fun in_state :: "state_error + 'a \<Rightarrow> controller_error + 'a" where
  "in_state (Inl e) = Inl (StateInvalid e)"
| "in_state (Inr x) = Inr x"

fun in_validation :: "receipt_error + 'a \<Rightarrow> controller_error + 'a" where
  "in_validation (Inl e) = Inl (ReceiptInvalid e)"
| "in_validation (Inr x) = Inr x"

lemma in_state_Inr [result_simps]: "in_state r = Inr x \<longleftrightarrow> r = Inr x"
  by (cases r) auto

lemma in_validation_Inr [result_simps]: "in_validation r = Inr x \<longleftrightarrow> r = Inr x"
  by (cases r) auto

subsection \<open>Failures\<close>

fun exception_type_name :: "controller_error \<Rightarrow> string" where
  "exception_type_name (DriverRaised (DriverException name message)) = name"
| "exception_type_name (StateInvalid e) = ''LiveCommitValidationError''"
| "exception_type_name (ReceiptInvalid e) = ''LiveCommitValidationError''"
| "exception_type_name (LedgerInvalid e) = ''LiveCommitValidationError''"
| "exception_type_name e = ''LiveCommitControllerError''"

definition failure_of ::
  "('h) controller_digests_scheme \<Rightarrow> string \<Rightarrow> controller_error \<Rightarrow> candidate_fault" where
  "failure_of H stage e =
     \<lparr>fault_stage = stage, fault_exception_type = exception_type_name e,
      fault_message_sha256 = message_digest H e,
      fault_traceback_sha256 = traceback_digest H e\<rparr>"

definition synthetic_failure ::
  "('h) controller_digests_scheme \<Rightarrow> string \<Rightarrow> string \<Rightarrow> candidate_fault" where
  "synthetic_failure H stage message =
     \<lparr>fault_stage = stage, fault_exception_type = ''InvariantViolation'',
      fault_message_sha256 = text_digest H message,
      fault_traceback_sha256 = text_digest H []\<rparr>"

subsection \<open>Publication intents\<close>

text \<open>\<open>{**template, ...}\<close>: the receipt a template becomes with its dynamic keys.\<close>

definition receipt_of_template ::
  "receipt_template \<Rightarrow> string \<Rightarrow> live_state \<Rightarrow> bool \<Rightarrow> bool \<Rightarrow> bool \<Rightarrow> receipt" where
  "receipt_of_template t intent_sha after atomic candidate_destroyed serial_destroyed =
     receipt_template.extend t
       (receipt.fields intent_sha after atomic candidate_destroyed serial_destroyed)"

lemma receipt_of_template_simps [simp]:
  "receipt_template.truncate (receipt_of_template t i a p c d) = t"
  "publication_intent_sha256 (receipt_of_template t i a p c d) = i"
  "canonical_after (receipt_of_template t i a p c d) = a"
  "publication_atomic (receipt_of_template t i a p c d) = p"
  "candidate_private_state_destroyed (receipt_of_template t i a p c d) = c"
  "serial_private_state_destroyed (receipt_of_template t i a p c d) = d"
  "schema (receipt_of_template t i a p c d) = schema t"
  "capability_sha256 (receipt_of_template t i a p c d) = capability_sha256 t"
  "session_id (receipt_of_template t i a p c d) = session_id t"
  "request_id (receipt_of_template t i a p c d) = request_id t"
  "round_index (receipt_of_template t i a p c d) = round_index t"
  "commit_count (receipt_of_template t i a p c d) = commit_count t"
  "mode (receipt_of_template t i a p c d) = mode t"
  "candidate_enabled_before (receipt_of_template t i a p c d) = candidate_enabled_before t"
  "candidate_enabled_after (receipt_of_template t i a p c d) = candidate_enabled_after t"
  "canonical_before (receipt_of_template t i a p c d) = canonical_before t"
  "candidate_state (receipt_of_template t i a p c d) = candidate_state t"
  "candidate_token_ids (receipt_of_template t i a p c d) = candidate_token_ids t"
  "candidate_failure (receipt_of_template t i a p c d) = candidate_failure t"
  "serial_state (receipt_of_template t i a p c d) = serial_state t"
  "serial_token_ids (receipt_of_template t i a p c d) = serial_token_ids t"
  "comparison_equal (receipt_of_template t i a p c d) = comparison_equal t"
  "first_difference (receipt_of_template t i a p c d) = first_difference t"
  "publication_source (receipt_of_template t i a p c d) = publication_source t"
  "counterexample_sha256 (receipt_of_template t i a p c d) = counterexample_sha256 t"
  "comparison_sha256 (receipt_of_template t i a p c d) = comparison_sha256 t"
  by (simp_all add: receipt_of_template_def receipt_template.defs receipt.defs)

definition optional_identifier :: "string option \<Rightarrow> state_error + unit" where
  "optional_identifier v = (case v of None \<Rightarrow> Inr () | Some s \<Rightarrow> identifier_value s)"

definition intent_fields_check :: "intent \<Rightarrow> controller_error + unit" where
  "intent_fields_check i =
     (if intent_schema i \<noteq> PUBLICATION_INTENT_SCHEMA then Inl (IntentFieldInvalid ''schema'') else
      rbind (in_state (sha256_value (intent_capability_sha256 i))) (\<lambda>_.
      rbind (in_state (identifier_value (intent_session_id i))) (\<lambda>_.
      rbind (in_state (identifier_value (intent_request_id i))) (\<lambda>_.
      if intent_round_index i < 0 then Inl (IntentFieldInvalid ''round_index'')
      else if intent_commit_count i \<notin> set COMMIT_COUNTS
      then Inl (IntentFieldInvalid ''commit_count'') else
      rbind (in_state (identifier_value (snapshot_handle_id i))) (\<lambda>_.
      rbind (in_state (identifier_value (selected_handle_id i))) (\<lambda>_.
      rbind (in_state (optional_identifier (candidate_handle_id i))) (\<lambda>_.
      rbind (in_state (identifier_value (serial_handle_id i))) (\<lambda>_.
      rbind (in_state (normalize_state (intent_canonical_before i))) (\<lambda>_.
      rbind (in_state (normalize_state (selected_state i))) (\<lambda>_.
      if int (length (selected_token_ids i)) \<noteq> intent_commit_count i
         \<or> list_ex (\<lambda>t. t < 0) (selected_token_ids i)
      then Inl (IntentFieldInvalid ''selected_token_ids'')
      else case intent_counterexample_sha256 i of
             None \<Rightarrow> Inr ()
           | Some sha \<Rightarrow> in_state (sha256_value sha)))))))))))"

definition intent_template_matches :: "intent \<Rightarrow> receipt_template \<Rightarrow> bool" where
  "intent_template_matches i t \<longleftrightarrow>
     capability_sha256 t = intent_capability_sha256 i
     \<and> session_id t = intent_session_id i
     \<and> request_id t = intent_request_id i
     \<and> round_index t = intent_round_index i
     \<and> commit_count t = intent_commit_count i
     \<and> mode t = intent_mode i
     \<and> canonical_before t = intent_canonical_before i
     \<and> publication_source t = selected_source i
     \<and> counterexample_sha256 t = intent_counterexample_sha256 i"

definition normalize_intent ::
  "('h) digest_functions_scheme \<Rightarrow> intent \<Rightarrow> controller_error + intent" where
  "normalize_intent H i =
     rbind (intent_fields_check i) (\<lambda>_.
     let expected_after = (if intent_commit_count i = 0 then intent_canonical_before i
                           else selected_state i)
     in case seal_receipt H (receipt_of_template (intent_template i) zero_sha256 expected_after
                               True True True) of
          Inl _ \<Rightarrow> Inl IntentTemplateInvalid
        | Inr s \<Rightarrow>
            (let t = receipt_template.truncate (body s)
             in if \<not> intent_template_matches i t then Inl IntentTemplateDiffers
                else if serial_token_ids t \<noteq> selected_token_ids i
                        \<and> selected_source i \<in> {FromSerial, Unchanged}
                then Inl SelectedSerialTokensDiffer
                else if selected_source i = FromCandidate
                        \<and> candidate_token_ids t \<noteq> Some (selected_token_ids i)
                then Inl SelectedCandidateTokensDiffer
                else if candidate_handle_id i = None \<and> candidate_state t \<noteq> None
                then Inl OmittedCandidateHandle
                else Inr (i\<lparr>intent_template := t\<rparr>)))"

lemma normalize_intent_Inr:
  assumes "normalize_intent H i = Inr i'"
  shows "i' = i"
    and "intent_fields_check i = Inr ()"
    and "\<exists>s. seal_receipt H (receipt_of_template (intent_template i) zero_sha256
               (if intent_commit_count i = 0 then intent_canonical_before i else selected_state i)
               True True True) = Inr s"
    and "intent_template_matches i (intent_template i)"
    and "selected_source i \<in> {FromSerial, Unchanged} \<Longrightarrow>
           serial_token_ids (intent_template i) = selected_token_ids i"
    and "selected_source i = FromCandidate \<Longrightarrow>
           candidate_token_ids (intent_template i) = Some (selected_token_ids i)"
  using assms
  by (auto simp: normalize_intent_def result_simps Let_def dest!: seal_receipt_body
      split: sum.splits if_splits)

text \<open>
  An intent can only be made durable for a receipt that would seal: the state it selects
  is the serial state, and its tokens are the serial tokens.
\<close>

lemma normalize_intent_serial:
  assumes "normalize_intent H i = Inr i'"
  shows "selected_token_ids i = serial_token_ids (intent_template i)"
    and "intent_commit_count i = 0 \<Longrightarrow> intent_canonical_before i = serial_state (intent_template i)"
    and "intent_commit_count i \<noteq> 0 \<Longrightarrow> selected_state i = serial_state (intent_template i)"
proof -
  note facts = normalize_intent_Inr [OF assms]
  let ?after = "if intent_commit_count i = 0 then intent_canonical_before i else selected_state i"
  let ?r = "receipt_of_template (intent_template i) zero_sha256 ?after True True True"
  obtain s where s: "seal_receipt H ?r = Inr s" using facts(3) by blast
  then have out: "receipt_outcome ?r = Inr (publication_source ?r, canonical_after ?r)"
    by (simp add: seal_receipt_Inr)
  have "?after = serial_state (intent_template i)"
    using sealed_receipt_step(2) [OF s] by simp
  then show "intent_commit_count i = 0 \<Longrightarrow> intent_canonical_before i = serial_state (intent_template i)"
    and "intent_commit_count i \<noteq> 0 \<Longrightarrow> selected_state i = serial_state (intent_template i)"
    by simp_all
  have "selected_source i = publication_source (intent_template i)"
    using facts(4) by (simp add: intent_template_matches_def)
  then show "selected_token_ids i = serial_token_ids (intent_template i)"
    using receipt_outcome_source [OF out] facts(5,6) by auto
qed

subsection \<open>The journal\<close>

datatype evidence_name =
    CounterexampleName string
  | ReceiptName int string
  | IntentName int string
  | FatalName string
  | RecoveryName string string
  | LedgerName string
  | OtherName string

datatype document =
    CounterexampleDoc counterexample
  | ReceiptDoc "receipt sealed"
  | IntentDoc intent
  | FatalDoc fatal
  | RecoveryDoc recovery
  | LedgerDoc "ledger sealed"
  | Unreadable

record evidence =
  owner_only_regular :: bool
  content :: document

type_synonym journal = "(evidence_name \<times> evidence) list"

definition publish_evidence ::
  "evidence_name \<Rightarrow> document \<Rightarrow> journal \<Rightarrow> controller_error + journal" where
  "publish_evidence name doc j =
     (case map_of j name of
        Some existing \<Rightarrow> if content existing \<noteq> doc then Inl EvidenceDiffers else Inr j
      | None \<Rightarrow> Inr (j @ [(name, \<lparr>owner_only_regular = True, content = doc\<rparr>)]))"

definition preserve_counterexample ::
  "('h) controller_digests_scheme \<Rightarrow> counterexample \<Rightarrow> journal
   \<Rightarrow> controller_error + string \<times> journal" where
  "preserve_counterexample H value j =
     (let digest = counterexample_digest H value
      in rbind (publish_evidence (CounterexampleName digest) (CounterexampleDoc value) j)
           (\<lambda>j'. Inr (digest, j')))"

definition preserve_receipt :: "receipt sealed \<Rightarrow> journal \<Rightarrow> controller_error + journal" where
  "preserve_receipt value j =
     publish_evidence (ReceiptName (round_index (body value)) (self_sha256 value))
       (ReceiptDoc value) j"

definition preserve_intent ::
  "('h) controller_digests_scheme \<Rightarrow> intent \<Rightarrow> journal \<Rightarrow> controller_error + string \<times> journal" where
  "preserve_intent H value j =
     (let digest = intent_digest H value
      in rbind (publish_evidence (IntentName (intent_round_index value) digest) (IntentDoc value) j)
           (\<lambda>j'. Inr (digest, j')))"

definition preserve_failure ::
  "('h) controller_digests_scheme \<Rightarrow> fatal \<Rightarrow> journal \<Rightarrow> controller_error + string \<times> journal" where
  "preserve_failure H value j =
     (let digest = fatal_digest H value
      in rbind (publish_evidence (FatalName digest) (FatalDoc value) j)
           (\<lambda>j'. Inr (digest, j')))"

definition preserve_recovery ::
  "('h) controller_digests_scheme \<Rightarrow> recovery \<Rightarrow> journal
   \<Rightarrow> controller_error + string \<times> journal" where
  "preserve_recovery H value j =
     (let digest = recovery_digest H value
      in rbind (publish_evidence (RecoveryName (recovery_intent_sha256 value) digest)
                 (RecoveryDoc value) j)
           (\<lambda>j'. Inr (digest, j')))"

definition preserve_ledger :: "ledger sealed \<Rightarrow> journal \<Rightarrow> controller_error + journal" where
  "preserve_ledger value j = publish_evidence (LedgerName (self_sha256 value)) (LedgerDoc value) j"

lemmas preserve_defs =
  preserve_counterexample_def preserve_receipt_def preserve_intent_def preserve_failure_def
  preserve_recovery_def preserve_ledger_def

text \<open>Create-only publication: nothing that was durable changes or disappears.\<close>

definition journal_extends :: "journal \<Rightarrow> journal \<Rightarrow> bool" where
  "journal_extends j j' \<longleftrightarrow> (\<forall>name file. map_of j name = Some file \<longrightarrow> map_of j' name = Some file)"

lemma journal_extends_refl [simp, intro]: "journal_extends j j"
  by (simp add: journal_extends_def)

lemma journal_extends_trans [trans]:
  "journal_extends a b \<Longrightarrow> journal_extends b c \<Longrightarrow> journal_extends a c"
  by (simp add: journal_extends_def)

lemma publish_evidence_Inr:
  assumes "publish_evidence name doc j = Inr j'"
  shows "journal_extends j j'" and "\<exists>file. map_of j' name = Some file \<and> content file = doc"
  using assms
  by (auto simp: publish_evidence_def journal_extends_def map_add_def
      split: option.splits if_splits)

lemma preserve_extends:
  "preserve_counterexample H c j = Inr (d, j') \<Longrightarrow> journal_extends j j'"
  "preserve_receipt s j = Inr j' \<Longrightarrow> journal_extends j j'"
  "preserve_intent H i j = Inr (d, j') \<Longrightarrow> journal_extends j j'"
  "preserve_failure H f j = Inr (d, j') \<Longrightarrow> journal_extends j j'"
  "preserve_recovery H r j = Inr (d, j') \<Longrightarrow> journal_extends j j'"
  "preserve_ledger l j = Inr j' \<Longrightarrow> journal_extends j j'"
  by (auto simp: preserve_defs Let_def result_simps dest: publish_evidence_Inr)

end
