(* ===== verification/Live_Journal_Load.thy ===== *)
theory Live_Journal_Load
  imports Live_Journal
begin

section \<open>Reading the journal back after a restart\<close>

text \<open>
  Model of \<open>_load_intent\<close>, \<open>load_intent_by_sha256\<close>, \<open>load_receipts\<close>,
  \<open>load_recoveries\<close> and \<open>unresolved_intents\<close> of
  \<open>src/qwen_r9700_lab/live_commit_controller.py\<close>.  Each loop over \<open>iterdir\<close> is a fold
  over the directory list that stops at the first error.  A file whose bytes are not the
  canonical text of the document its name announces has another \<open>document\<close> constructor
  (\<open>Unreadable\<close> when its bytes are no document at all).
\<close>

definition load_intent ::
  "('h) controller_digests_scheme \<Rightarrow> evidence \<Rightarrow> string \<Rightarrow> controller_error + intent" where
  "load_intent H file expected =
     (if \<not> owner_only_regular file then Inl UnsafeArtifact
      else case content file of
             Unreadable \<Rightarrow> Inl UnreadableArtifact
           | IntentDoc i \<Rightarrow>
               if intent_digest H i \<noteq> expected then Inl IntentInvalid
               else (case normalize_intent H i of Inl _ \<Rightarrow> Inl IntentInvalid | Inr i' \<Rightarrow> Inr i')
           | _ \<Rightarrow> Inl IntentInvalid)"

fun is_intent_named :: "string \<Rightarrow> evidence_name \<Rightarrow> bool" where
  "is_intent_named sha (IntentName n d) \<longleftrightarrow> d = sha"
| "is_intent_named sha _ \<longleftrightarrow> False"

definition load_intent_by_sha256 ::
  "('h) controller_digests_scheme \<Rightarrow> journal \<Rightarrow> string \<Rightarrow> controller_error + intent" where
  "load_intent_by_sha256 H j expected =
     rbind (in_state (sha256_value expected)) (\<lambda>_.
     case filter (\<lambda>entry. is_intent_named expected (fst entry)) j of
       [entry] \<Rightarrow> load_intent H (snd entry) expected
     | _ \<Rightarrow> Inl NotExactlyOneIntent)"

definition starts_with :: "string \<Rightarrow> string \<Rightarrow> bool" where
  "starts_with text start \<longleftrightarrow> take (length start) text = start"

definition receipt_matches_intent :: "receipt \<Rightarrow> intent \<Rightarrow> bool" where
  "receipt_matches_intent r i \<longleftrightarrow>
     intent_round_index i = round_index r
     \<and> intent_capability_sha256 i = capability_sha256 r
     \<and> intent_session_id i = session_id r
     \<and> intent_request_id i = request_id r
     \<and> intent_commit_count i = commit_count r
     \<and> selected_source i = publication_source r
     \<and> selected_state i = canonical_after r"

definition load_receipt_file ::
  "('h) controller_digests_scheme \<Rightarrow> journal \<Rightarrow> evidence \<Rightarrow> string
   \<Rightarrow> controller_error + receipt sealed" where
  "load_receipt_file H j file name_sha =
     (if \<not> owner_only_regular file then Inl UnsafeArtifact
      else case content file of
             ReceiptDoc s \<Rightarrow>
               (case verify_receipt H s of
                  Inl _ \<Rightarrow> Inl ReceiptArtifactInvalid
                | Inr r \<Rightarrow>
                    if self_sha256 r \<noteq> name_sha then Inl ReceiptFilenameHashDiffers
                    else case map_of j (IntentName (round_index (body r))
                                          (publication_intent_sha256 (body r))) of
                           None \<Rightarrow> Inl ReceiptIntentAbsent
                         | Some intent_file \<Rightarrow>
                             rbind (load_intent H intent_file (publication_intent_sha256 (body r)))
                               (\<lambda>i. if \<not> receipt_matches_intent (body r) i
                                     then Inl ReceiptIntentDiffers
                                     else if receipt_template.truncate (body r) \<noteq> intent_template i
                                     then Inl ReceiptTemplateDiffers
                                     else Inr r))
           | _ \<Rightarrow> Inl ReceiptArtifactInvalid)"

fun scan_receipts ::
  "('h) controller_digests_scheme \<Rightarrow> journal \<Rightarrow> journal
   \<Rightarrow> controller_error + (int \<times> receipt sealed) list" where
  "scan_receipts H j [] = Inr []"
| "scan_receipts H j ((ReceiptName n sha, file) # rest) =
     rbind (load_receipt_file H j file sha) (\<lambda>r.
     rbind (scan_receipts H j rest) (\<lambda>rs. Inr ((n, r) # rs)))"
| "scan_receipts H j ((OtherName name, file) # rest) =
     (if starts_with name ''receipt-'' then Inl MalformedArtifact else scan_receipts H j rest)"
| "scan_receipts H j (entry # rest) = scan_receipts H j rest"

definition load_receipts ::
  "('h) controller_digests_scheme \<Rightarrow> journal \<Rightarrow> controller_error + receipt sealed list" where
  "load_receipts H j =
     rbind (scan_receipts H j j) (\<lambda>found.
     let ordered = sort_key fst found
     in if list_ex (\<lambda>(n, r). n \<noteq> round_index (body r)) ordered
        then Inl ReceiptFilenameRoundDiffers
        else Inr (map snd ordered))"

definition load_recovery_file ::
  "('h) controller_digests_scheme \<Rightarrow> evidence \<Rightarrow> string \<Rightarrow> string
   \<Rightarrow> controller_error + recovery" where
  "load_recovery_file H file intent_sha name_sha =
     (if \<not> owner_only_regular file then Inl UnsafeArtifact
      else case content file of
             Unreadable \<Rightarrow> Inl UnreadableArtifact
           | RecoveryDoc r \<Rightarrow>
               if recovery_schema r \<noteq> PUBLICATION_RECOVERY_SCHEMA
                  \<or> recovery_digest H r \<noteq> name_sha
                  \<or> recovery_intent_sha256 r \<noteq> intent_sha
               then Inl RecoveryInvalid
               else if recovery_disposition r \<notin> {Committed, RolledBack}
               then Inl RecoveryDispositionInvalid
               else rbind (in_state (normalize_state (recovery_canonical_state r))) (\<lambda>_.
                    if \<not> recovery_publication_atomic r \<or> \<not> recovery_candidate_destroyed r
                       \<or> \<not> recovery_serial_destroyed r
                    then Inl RecoveryIncomplete
                    else case recovery_counterexample_sha256 r of
                           None \<Rightarrow> Inr r
                         | Some sha \<Rightarrow> rbind (in_state (sha256_value sha)) (\<lambda>_. Inr r))
           | _ \<Rightarrow> Inl RecoveryInvalid)"

fun scan_recoveries ::
  "('h) controller_digests_scheme \<Rightarrow> journal \<Rightarrow> controller_error + recovery list" where
  "scan_recoveries H [] = Inr []"
| "scan_recoveries H ((RecoveryName intent_sha sha, file) # rest) =
     rbind (load_recovery_file H file intent_sha sha) (\<lambda>r.
     rbind (scan_recoveries H rest) (\<lambda>rs. Inr (r # rs)))"
| "scan_recoveries H ((OtherName name, file) # rest) =
     (if starts_with name ''recovery-'' then Inl MalformedArtifact else scan_recoveries H rest)"
| "scan_recoveries H (entry # rest) = scan_recoveries H rest"

definition load_recoveries ::
  "('h) controller_digests_scheme \<Rightarrow> journal \<Rightarrow> controller_error + recovery list" where
  "load_recoveries H j =
     rbind (scan_recoveries H j) (\<lambda>found.
     if \<not> distinct (map recovery_intent_sha256 found) then Inl MultipleRecoveries else Inr found)"

text \<open>
  The unresolved intents, in directory order.  The code sorts the paths; its caller only
  looks at the first element of a list of length one, so the order is not modelled.
\<close>

fun unresolved_intents ::
  "('h) controller_digests_scheme \<Rightarrow> string set \<Rightarrow> journal
   \<Rightarrow> controller_error + (string \<times> evidence) list" where
  "unresolved_intents H resolved [] = Inr []"
| "unresolved_intents H resolved ((IntentName n sha, file) # rest) =
     (if sha \<in> resolved then unresolved_intents H resolved rest
      else rbind (load_intent H file sha) (\<lambda>_.
           rbind (unresolved_intents H resolved rest) (\<lambda>found. Inr ((sha, file) # found))))"
| "unresolved_intents H resolved ((OtherName name, file) # rest) =
     (if starts_with name ''intent-'' then Inl MalformedArtifact
      else unresolved_intents H resolved rest)"
| "unresolved_intents H resolved (entry # rest) = unresolved_intents H resolved rest"

subsection \<open>What a successful load guarantees\<close>

lemma load_intent_Inr:
  assumes "load_intent H file expected = Inr i"
  shows "content file = IntentDoc i" "intent_digest H i = expected" "normalize_intent H i = Inr i"
  using assms
  by (auto simp: load_intent_def split: if_splits document.splits sum.splits
      dest: normalize_intent_Inr(1))

lemma load_receipt_file_Inr:
  assumes "load_receipt_file H j file sha = Inr r"
  shows "content file = ReceiptDoc r" "verify_receipt H r = Inr r" "self_sha256 r = sha"
    and "\<exists>intent_file i. map_of j (IntentName (round_index (body r))
              (publication_intent_sha256 (body r))) = Some intent_file
            \<and> load_intent H intent_file (publication_intent_sha256 (body r)) = Inr i
            \<and> receipt_matches_intent (body r) i
            \<and> receipt_template.truncate (body r) = intent_template i"
  using assms
  by (auto simp: load_receipt_file_def result_simps
      split: if_splits document.splits sum.splits option.splits dest: seal_receipt_verified(1))

lemma scan_receipts_Inr:
  assumes "scan_receipts H j files = Inr found" and "(n, r) \<in> set found"
  shows "\<exists>sha file. (ReceiptName n sha, file) \<in> set files \<and> load_receipt_file H j file sha = Inr r"
  using assms
  by (induction H j files arbitrary: found rule: scan_receipts.induct)
     (auto simp: result_simps split: if_splits; blast)+

text \<open>
  The receipts a restart trusts are exactly verified receipts, ordered by round, each
  bound to a durable intent that selects the state the receipt reports.
\<close>

lemma load_receipts_Inr:
  assumes "load_receipts H j = Inr rs"
  shows "\<forall>r \<in> set rs. verify_receipt H r = Inr r"
    and "sorted (map (round_index \<circ> body) rs)"
    and "\<forall>r \<in> set rs. \<exists>sha file. (ReceiptName (round_index (body r)) sha, file) \<in> set j
                        \<and> load_receipt_file H j file sha = Inr r"
proof -
  from assms obtain found where found: "scan_receipts H j j = Inr found"
    and names: "\<forall>(n, r) \<in> set (sort_key fst found). n = round_index (body r)"
    and rs: "rs = map snd (sort_key fst found)"
    by (auto simp: load_receipts_def result_simps Let_def list_ex_iff split: if_splits)
  have "map (round_index \<circ> body) rs = map fst (sort_key fst found)"
    using names rs by auto
  then show "sorted (map (round_index \<circ> body) rs)"
    by (metis sorted_sort_key)
  show files: "\<forall>r \<in> set rs. \<exists>sha file. (ReceiptName (round_index (body r)) sha, file) \<in> set j
                        \<and> load_receipt_file H j file sha = Inr r"
    using names rs scan_receipts_Inr [OF found] by fastforce
  show "\<forall>r \<in> set rs. verify_receipt H r = Inr r"
    using files load_receipt_file_Inr(2) by blast
qed

lemma load_recovery_file_Inr:
  assumes "load_recovery_file H file intent_sha sha = Inr r"
  shows "recovery_intent_sha256 r = intent_sha" "recovery_disposition r \<in> {Committed, RolledBack}"
    "normal_state (recovery_canonical_state r)"
  using assms
  by (auto simp: load_recovery_file_def result_simps
      split: if_splits document.splits option.splits)

end
