(* ===== verification/Live_Controller.thy ===== *)
theory Live_Controller
  imports Live_Journal_Load Live_Capability
begin

section \<open>The live commit controller\<close>

text \<open>
  Model of \<open>LiveCommitController\<close> of \<open>src/qwen_r9700_lab/live_commit_controller.py\<close>: the
  driver calls, \<open>run_round\<close> and \<open>finalize_ledger\<close>.  The driver (the \<open>Protocol\<close>
  \<open>LiveTransitionDriver\<close>) is a record of operations over a state type \<open>'w\<close> of its own,
  each of which may raise and may change that state; nothing is assumed of it here, so the
  controller's guarantees hold for every driver.  An action of the controller is a
  function of its attributes, of the driver's state and of the journal
  (\<open>('w) controller\<close>), and \<open>run_round\<close> is split at its stages, in the order the code
  has them.  \<open>try_except\<close> is the \<open>except Exception\<close> of the code; asynchronous
  \<open>BaseException\<close>s are not modelled.
\<close>

record canonical_snapshot =
  snapshot_handle :: string
  snapshot_state :: live_state

record 'm private_transition =
  transition_handle :: string
  implementation_family :: string
  transition_tokens :: "int list"
  transition_state :: live_state
  model_output :: 'm

record publication =
  publication_state :: live_state
  atomic :: bool

record publication_recovery =
  recovered_state :: live_state
  recovered_atomic :: bool
  recovered_disposition :: disposition
  recovered_candidate_destroyed :: bool
  recovered_serial_destroyed :: bool

type_synonym ('w, 'a) driver_op = "'w \<Rightarrow> (driver_exception + 'a) \<times> 'w"

record ('w, 'p, 'm) transition_driver =
  driver_release_sha256 :: string
  driver_serial_sha256 :: string
  driver_candidate_family :: string
  driver_serial_family :: string
  snapshot_canonical :: "('w, canonical_snapshot) driver_op"
  probe_canonical :: "('w, live_state) driver_op"
  execute_candidate ::
    "canonical_snapshot \<Rightarrow> 'p \<Rightarrow> int option \<Rightarrow> ('w, 'm private_transition) driver_op"
  execute_serial :: "canonical_snapshot \<Rightarrow> 'p \<Rightarrow> int \<Rightarrow> ('w, 'm private_transition) driver_op"
  publish_private ::
    "canonical_snapshot \<Rightarrow> 'm private_transition \<Rightarrow> string \<Rightarrow> ('w, publication) driver_op"
  restore_canonical :: "canonical_snapshot \<Rightarrow> ('w, publication) driver_op"
  destroy_private :: "'m private_transition \<Rightarrow> ('w, unit) driver_op"
  cleanup_failed_private :: "string \<Rightarrow> string \<Rightarrow> string \<Rightarrow> int \<Rightarrow> ('w, unit) driver_op"
  recover_publication :: "intent \<Rightarrow> ('w, publication_recovery) driver_op"

text \<open>The parts of a controller that no method changes.\<close>

record ('w, 'p, 'm) controller_setup =
  hashes :: controller_digests
  release_driver :: "('w, 'p, 'm) transition_driver"
  capability_id :: string
  controller_session :: string

text \<open>The parts that change: the attributes, the journal's directory, the driver's state.\<close>

record 'w controller =
  world :: 'w
  evidence_journal :: journal
  durable_receipts :: "receipt sealed list"
  durable_recoveries :: "recovery list"
  quarantined :: bool
  held_counterexample :: "string option"

type_synonym ('w, 'a) controller_op = "('w controller, controller_error, 'a) action"

definition driver_call :: "('w, 'a) driver_op \<Rightarrow> ('w, 'a) controller_op" where
  "driver_call op s =
     (case op (world s) of
        (Inl e, w) \<Rightarrow> (Inl (DriverRaised e), s\<lparr>world := w\<rparr>)
      | (Inr x, w) \<Rightarrow> (Inr x, s\<lparr>world := w\<rparr>))"

definition journal_call ::
  "(journal \<Rightarrow> controller_error + 'a \<times> journal) \<Rightarrow> ('w, 'a) controller_op" where
  "journal_call op s =
     (case op (evidence_journal s) of
        Inl e \<Rightarrow> (Inl e, s)
      | Inr (x, j) \<Rightarrow> (Inr x, s\<lparr>evidence_journal := j\<rparr>))"

definition journal_write :: "(journal \<Rightarrow> controller_error + journal) \<Rightarrow> ('w, unit) controller_op" where
  "journal_write op = journal_call (\<lambda>j. rbind (op j) (\<lambda>j'. Inr ((), j')))"

definition probe_state :: "('w, 'p, 'm) controller_setup \<Rightarrow> ('w, live_state) controller_op" where
  "probe_state env =
     sbind (driver_call (probe_canonical (release_driver env))) (\<lambda>st.
     lift_result (in_state (normalize_state st)))"

subsection \<open>Observing and restoring the canonical state\<close>

definition take_snapshot :: "('w, 'p, 'm) controller_setup \<Rightarrow> ('w, canonical_snapshot) controller_op" where
  "take_snapshot env =
     sbind (driver_call (snapshot_canonical (release_driver env))) (\<lambda>snapshot.
     sbind (lift_result (in_state (normalize_state (snapshot_state snapshot)))) (\<lambda>st.
     sbind (probe_state env) (\<lambda>probe.
     sbind (assert_that (probe = st) (CanonicalChanged ''snapshot'')) (\<lambda>_.
     ret \<lparr>snapshot_handle = snapshot_handle snapshot, snapshot_state = st\<rparr>))))"

definition require_unchanged ::
  "('w, 'p, 'm) controller_setup \<Rightarrow> canonical_snapshot \<Rightarrow> string \<Rightarrow> ('w, string) controller_op" where
  "require_unchanged env snapshot stage =
     sbind (probe_state env) (\<lambda>probe.
     sbind (assert_that (probe = snapshot_state snapshot) (CanonicalChanged stage)) (\<lambda>_.
     ret (state_digest (hashes env) probe)))"

definition restore ::
  "('w, 'p, 'm) controller_setup \<Rightarrow> canonical_snapshot \<Rightarrow> string \<Rightarrow> ('w, unit) controller_op" where
  "restore env snapshot stage =
     sbind (driver_call (restore_canonical (release_driver env) snapshot)) (\<lambda>p.
     sbind (assert_that (atomic p) (RestorationFailed stage)) (\<lambda>_.
     sbind (lift_result (in_state (normalize_state (publication_state p)))) (\<lambda>restored.
     sbind (probe_state env) (\<lambda>probe.
     assert_that (restored = snapshot_state snapshot \<and> probe = snapshot_state snapshot)
                 (RestorationFailed stage)))))"

text \<open>\<open>_transition\<close>: \<open>count\<close> is \<open>None\<close> when the candidate chooses its own width.\<close>

definition check_transition ::
  "string \<Rightarrow> string \<Rightarrow> int option \<Rightarrow> 'm private_transition
   \<Rightarrow> controller_error + 'm private_transition" where
  "check_transition role expected_family count t =
     (if implementation_family t \<noteq> expected_family then Inl (TransitionInvalid role)
      else if (case count of None \<Rightarrow> False | Some n \<Rightarrow> int (length (transition_tokens t)) \<noteq> n)
              \<or> list_ex (\<lambda>token. token < 0) (transition_tokens t)
      then Inl (TransitionInvalid role)
      else if count = None \<and> int (length (transition_tokens t)) \<notin> set COMMIT_COUNTS
      then Inl (TransitionInvalid role)
      else rbind (in_state (normalize_state (transition_state t))) (\<lambda>st.
           Inr (t\<lparr>transition_state := st\<rparr>)))"

definition record_fatal ::
  "('w, 'p, 'm) controller_setup \<Rightarrow> string \<Rightarrow> int \<Rightarrow> string \<Rightarrow> controller_error \<Rightarrow> live_state
   \<Rightarrow> ('w, unit) controller_op" where
  "record_fatal env request rnd stage error before =
     sbind (journal_call (preserve_failure (hashes env)
       \<lparr>fatal_schema = FATAL_SCHEMA, fatal_capability_sha256 = capability_id env,
        fatal_session_id = controller_session env, fatal_request_id = request, fatal_round_index = rnd,
        fatal_canonical_before_sha256 = state_digest (hashes env) before,
        fatal_failure = failure_of (hashes env) stage error\<rparr>)) (\<lambda>_. ret ())"

subsection \<open>The stages of a round\<close>

text \<open>\<open>fallback\<close> is \<open>serial_fallback_commit_count\<close>.\<close>

definition check_request ::
  "string \<Rightarrow> int \<Rightarrow> int option \<Rightarrow> int option \<Rightarrow> ('w, unit) controller_op" where
  "check_request request rnd count fallback s =
     (rbind (in_state (identifier_value request)) (\<lambda>_.
      if rnd < 0 then Inl (RoundRefused RoundIndexInvalid)
      else if rnd \<noteq> int (length (durable_receipts s))
      then Inl (RoundRefused NotNextDurableIndex)
      else case count of
             Some n \<Rightarrow>
               if n \<notin> set COMMIT_COUNTS
               then Inl (RoundRefused CommitCountOutsideRange)
               else require (fallback = None) (RoundRefused FallbackWithFixedWidth)
           | None \<Rightarrow>
               require (case fallback of None \<Rightarrow> False | Some n \<Rightarrow> n \<in> set COMMIT_COUNTS)
                 (RoundRefused FallbackWidthRequired)), s)"

definition open_round :: "('w, 'p, 'm) controller_setup \<Rightarrow> ('w, canonical_snapshot) controller_op" where
  "open_round env =
     sbind (take_snapshot env) (\<lambda>snapshot.
     sbind (gets durable_receipts) (\<lambda>rs.
     sbind (assert_that (rs = [] \<or> snapshot_state snapshot = canonical_after (body (last rs)))
              (RoundRefused ReceiptChainDiffers)) (\<lambda>_.
     ret snapshot)))"

text \<open>
  The candidate execution: the transition it produced, or the failure that quarantines
  it, and the digest of the last probe that succeeded.
\<close>

type_synonym 'm candidate_result = "'m private_transition option \<times> candidate_fault option \<times> string"

definition candidate_stage ::
  "('w, 'p, 'm) controller_setup \<Rightarrow> string \<Rightarrow> int \<Rightarrow> canonical_snapshot \<Rightarrow> 'p \<Rightarrow> int option \<Rightarrow> bool
   \<Rightarrow> ('w, 'm candidate_result) controller_op" where
  "candidate_stage env request rnd snapshot payload count enabled =
     (if \<not> enabled then ret (None, None, state_digest (hashes env) (snapshot_state snapshot))
      else try_except
        (sbind (driver_call (execute_candidate (release_driver env) snapshot payload count)) (\<lambda>value.
         sbind (lift_result (check_transition ''candidate''
                  (driver_candidate_family (release_driver env)) count value)) (\<lambda>t.
         sbind (require_unchanged env snapshot ''candidate execution'') (\<lambda>sha.
         ret (Some t, None, sha)))))
        (\<lambda>error.
         sbind (driver_call (cleanup_failed_private (release_driver env) ''candidate''
                  (controller_session env) request rnd)) (\<lambda>_.
         sbind (restore env snapshot ''candidate failure'') (\<lambda>_.
         sbind (modify (\<lambda>s. s\<lparr>quarantined := True\<rparr>)) (\<lambda>_.
         ret (None, Some (failure_of (hashes env) ''candidate.execute'' error),
              state_digest (hashes env) (snapshot_state snapshot)))))))"

text \<open>The width of the round; \<open>check_request\<close> has excluded the case without any.\<close>

definition round_width :: "int option \<Rightarrow> int option \<Rightarrow> 'm private_transition option \<Rightarrow> int" where
  "round_width requested fallback candidate =
     (case requested of
        Some n \<Rightarrow> n
      | None \<Rightarrow> (case candidate of
                  Some t \<Rightarrow> int (length (transition_tokens t))
                | None \<Rightarrow> (case fallback of Some n \<Rightarrow> n | None \<Rightarrow> 0)))"

definition serial_stage ::
  "('w, 'p, 'm) controller_setup \<Rightarrow> string \<Rightarrow> int \<Rightarrow> canonical_snapshot \<Rightarrow> 'p \<Rightarrow> int
   \<Rightarrow> ('w, 'm private_transition \<times> string) controller_op" where
  "serial_stage env request rnd snapshot payload count =
     try_except
       (sbind (driver_call (execute_serial (release_driver env) snapshot payload count)) (\<lambda>value.
        sbind (lift_result (check_transition ''serial''
                 (driver_serial_family (release_driver env)) (Some count) value)) (\<lambda>t.
        sbind (require_unchanged env snapshot ''serial execution'') (\<lambda>sha.
        ret (t, sha)))))
       (\<lambda>error.
        sbind (driver_call (cleanup_failed_private (release_driver env) ''serial''
                 (controller_session env) request rnd)) (\<lambda>_.
        sbind (restore env snapshot ''serial failure'') (\<lambda>_.
        sbind (record_fatal env request rnd ''serial.execute'' error
                 (snapshot_state snapshot)) (\<lambda>_.
        raise (RoundRefused SerialTransitionFailed)))))"

text \<open>Token IDs are compared first, then the complete states.\<close>

definition compare_transitions ::
  "'m private_transition option \<Rightarrow> 'm private_transition
   \<Rightarrow> controller_error + difference option \<times> bool" where
  "compare_transitions candidate serial =
     (case candidate of
        None \<Rightarrow> Inr (None, False)
      | Some c \<Rightarrow>
          rbind (in_state (actual_difference (transition_tokens c) (transition_state c)
                   (transition_tokens serial) (transition_state serial))) (\<lambda>d.
          Inr (d, d = None)))"

definition counterexample_of ::
  "('w, 'p, 'm) controller_setup \<Rightarrow> string \<Rightarrow> int \<Rightarrow> live_state \<Rightarrow> 'm private_transition option
   \<Rightarrow> 'm private_transition \<Rightarrow> candidate_fault option \<Rightarrow> difference option \<Rightarrow> counterexample" where
  "counterexample_of env request rnd before candidate serial failure diff =
     \<lparr>cex_schema = COUNTEREXAMPLE_SCHEMA, cex_capability_sha256 = capability_id env,
      cex_session_id = controller_session env, cex_request_id = request, cex_round_index = rnd,
      cex_canonical_before_sha256 = state_digest (hashes env) before,
      cex_candidate_state_sha256 =
        map_option (\<lambda>t. state_digest (hashes env) (transition_state t)) candidate,
      cex_candidate_token_ids = map_option transition_tokens candidate,
      cex_candidate_failure = failure,
      cex_serial_state_sha256 = state_digest (hashes env) (transition_state serial),
      cex_serial_token_ids = transition_tokens serial,
      cex_first_difference = diff\<rparr>"

definition comparison_stage ::
  "('w, 'p, 'm) controller_setup \<Rightarrow> string \<Rightarrow> int \<Rightarrow> live_state \<Rightarrow> 'm private_transition option
   \<Rightarrow> candidate_fault option \<Rightarrow> 'm private_transition
   \<Rightarrow> ('w, difference option \<times> bool) controller_op" where
  "comparison_stage env request rnd before candidate failure serial =
     sbind (lift_result (compare_transitions candidate serial)) (\<lambda>(diff, equal).
     sbind (modify (\<lambda>s. if candidate \<noteq> None \<and> \<not> equal then s\<lparr>quarantined := True\<rparr> else s)) (\<lambda>_.
     if failure \<noteq> None \<or> candidate \<noteq> None \<and> \<not> equal
     then sbind (journal_call (preserve_counterexample (hashes env)
                   (counterexample_of env request rnd before candidate serial failure diff)))
            (\<lambda>sha. sbind (modify (\<lambda>s. s\<lparr>held_counterexample := Some sha\<rparr>)) (\<lambda>_.
             ret (diff, equal)))
     else ret (diff, equal)))"

definition round_mode ::
  "'m private_transition option \<Rightarrow> candidate_fault option \<Rightarrow> receipt_mode" where
  "round_mode candidate failure =
     (if candidate \<noteq> None then ValidatedCandidate
      else if failure \<noteq> None then CandidateFaultSerial
      else QuarantinedSerial)"

definition select_transition ::
  "'m private_transition option \<Rightarrow> 'm private_transition \<Rightarrow> bool \<Rightarrow> int
   \<Rightarrow> 'm private_transition \<times> publication_origin" where
  "select_transition candidate serial equal count =
     (case candidate of
        Some c \<Rightarrow>
          if equal then (c, if count = 0 then Unchanged else FromCandidate)
          else (serial, if count = 0 then Unchanged else FromSerial)
      | None \<Rightarrow> (serial, if count = 0 then Unchanged else FromSerial))"

text \<open>
  \<open>candidate_for_receipt\<close> of the code is the candidate itself: the mode is
  \<open>validated_candidate\<close> exactly when there is one.
\<close>

definition template_of ::
  "('w, 'p, 'm) controller_setup \<Rightarrow> string \<Rightarrow> int \<Rightarrow> int \<Rightarrow> live_state \<Rightarrow> 'm private_transition option
   \<Rightarrow> candidate_fault option \<Rightarrow> string \<Rightarrow> 'm private_transition \<Rightarrow> string
   \<Rightarrow> difference option \<times> bool \<Rightarrow> bool \<Rightarrow> bool \<Rightarrow> string option \<Rightarrow> receipt_template" where
  "template_of env request rnd count before candidate failure probe_candidate serial probe_serial
     comparison enabled_before enabled_after cex =
     (let validated = candidate \<noteq> None;
          equal = validated \<and> snd comparison;
          diff = (if validated then fst comparison else None);
          t = \<lparr>schema = RECEIPT_SCHEMA, capability_sha256 = capability_id env,
               session_id = controller_session env, request_id = request, round_index = rnd,
               commit_count = count, mode = round_mode candidate failure,
               candidate_enabled_before = enabled_before,
               candidate_enabled_after = enabled_after,
               canonical_before = before,
               candidate_state = map_option transition_state candidate,
               candidate_token_ids = map_option transition_tokens candidate,
               candidate_failure = failure,
               serial_state = transition_state serial,
               serial_token_ids = transition_tokens serial,
               canonical_probe_after_candidate_sha256 = probe_candidate,
               canonical_probe_after_serial_sha256 = probe_serial,
               comparison_equal = equal,
               first_difference = diff,
               publication_source = snd (select_transition candidate serial (snd comparison) count),
               counterexample_sha256 = (if equal then None else cex),
               comparison_sha256 = []\<rparr>
      in t\<lparr>comparison_sha256 :=
             comparison_digest (hashes env) (receipt_comparison (hashes env) t)\<rparr>)"

definition intent_of ::
  "receipt_template \<Rightarrow> canonical_snapshot \<Rightarrow> 'm private_transition \<Rightarrow> 'm private_transition option
   \<Rightarrow> 'm private_transition \<Rightarrow> intent" where
  "intent_of t snapshot selected candidate serial =
     \<lparr>intent_schema = PUBLICATION_INTENT_SCHEMA,
      intent_capability_sha256 = capability_sha256 t, intent_session_id = session_id t,
      intent_request_id = request_id t, intent_round_index = round_index t,
      intent_commit_count = commit_count t, intent_mode = mode t,
      snapshot_handle_id = snapshot_handle snapshot,
      intent_canonical_before = snapshot_state snapshot,
      selected_source = publication_source t,
      selected_handle_id = transition_handle selected,
      selected_state = transition_state selected,
      selected_token_ids = transition_tokens selected,
      candidate_handle_id = map_option transition_handle candidate,
      serial_handle_id = transition_handle serial,
      intent_candidate_failure = candidate_failure t,
      intent_counterexample_sha256 = counterexample_sha256 t,
      intent_template = t\<rparr>"

text \<open>
  The clean-up loop after a failed publication: every transition is attempted; the
  result says whether all succeeded.
\<close>

fun destroy_each ::
  "('w, 'p, 'm) controller_setup \<Rightarrow> 'm private_transition list \<Rightarrow> ('w, bool) controller_op" where
  "destroy_each env [] = ret True"
| "destroy_each env (t # ts) =
     sbind (attempt (driver_call (destroy_private (release_driver env) t))) (\<lambda>outcome.
     sbind (destroy_each env ts) (\<lambda>clean. ret (clean \<and> \<not> isl outcome)))"

definition publication_stage ::
  "('w, 'p, 'm) controller_setup \<Rightarrow> string \<Rightarrow> int \<Rightarrow> int \<Rightarrow> canonical_snapshot \<Rightarrow> 'm private_transition
   \<Rightarrow> 'm private_transition option \<Rightarrow> 'm private_transition \<Rightarrow> string
   \<Rightarrow> ('w, live_state) controller_op" where
  "publication_stage env request rnd count snapshot selected candidate serial intent_sha =
     (if count = 0 then ret (snapshot_state snapshot) else
      sbind (try_except
        (driver_call (publish_private (release_driver env) snapshot selected intent_sha))
        (\<lambda>error.
         sbind (restore env snapshot ''publication failure'') (\<lambda>_.
         sbind (destroy_each env ((case candidate of None \<Rightarrow> [] | Some c \<Rightarrow> [c]) @ [serial])) (\<lambda>clean.
         sbind (record_fatal env request rnd ''publication'' error (snapshot_state snapshot)) (\<lambda>_.
         raise (RoundRefused (if clean then PublicationFailed
                              else PublicationAndCleanupFailed))))))) (\<lambda>p.
      if \<not> atomic p
      then sbind (restore env snapshot ''non-atomic publication'') (\<lambda>_.
           raise (RoundRefused NonAtomicPublication))
      else
      sbind (lift_result (in_state (normalize_state (publication_state p)))) (\<lambda>after.
      sbind (probe_state env) (\<lambda>probe.
      if after \<noteq> transition_state selected \<or> probe \<noteq> transition_state selected
      then sbind (restore env snapshot ''incorrect publication'') (\<lambda>_.
           raise (RoundRefused PublishedStateDiffers))
      else ret after))))"

definition cleanup_stage ::
  "('w, 'p, 'm) controller_setup \<Rightarrow> string \<Rightarrow> int \<Rightarrow> live_state \<Rightarrow> 'm private_transition option
   \<Rightarrow> 'm private_transition \<Rightarrow> ('w, unit) controller_op" where
  "cleanup_stage env request rnd before candidate serial =
     try_except
       (sbind (case candidate of
                 None \<Rightarrow> ret ()
               | Some c \<Rightarrow> driver_call (destroy_private (release_driver env) c)) (\<lambda>_.
        driver_call (destroy_private (release_driver env) serial)))
       (\<lambda>error.
        sbind (record_fatal env request rnd ''private.cleanup'' error before) (\<lambda>_.
        raise (RoundRefused PrivateCleanupFailed)))"

definition receipt_stage ::
  "('w, 'p, 'm) controller_setup \<Rightarrow> receipt_template \<Rightarrow> string \<Rightarrow> live_state
   \<Rightarrow> ('w, receipt sealed) controller_op" where
  "receipt_stage env t intent_sha after =
     sbind (lift_result (in_validation (seal_receipt (hashes env)
              (receipt_of_template t intent_sha after True True True)))) (\<lambda>r.
     sbind (journal_write (preserve_receipt r)) (\<lambda>_.
     sbind (modify (\<lambda>s. s\<lparr>durable_receipts := durable_receipts s @ [r]\<rparr>)) (\<lambda>_.
     ret r)))"

text \<open>From the two private transitions to the receipt.\<close>

definition commit_stage ::
  "('w, 'p, 'm) controller_setup \<Rightarrow> string \<Rightarrow> int \<Rightarrow> int \<Rightarrow> canonical_snapshot \<Rightarrow> bool
   \<Rightarrow> 'm candidate_result \<Rightarrow> 'm private_transition \<times> string
   \<Rightarrow> ('w, receipt sealed) controller_op" where
  "commit_stage env request rnd count snapshot enabled_before cand ser =
     (case (cand, ser) of ((candidate, failure, probe_candidate), (serial, probe_serial)) \<Rightarrow>
      sbind (comparison_stage env request rnd (snapshot_state snapshot) candidate failure serial)
        (\<lambda>comparison.
      sbind (gets (\<lambda>s. (held_counterexample s, \<not> quarantined s))) (\<lambda>(cex, enabled_after).
      sbind (assert_that (candidate \<noteq> None \<or> cex \<noteq> None)
               (RoundRefused LacksCounterexample)) (\<lambda>_.
      let selected = fst (select_transition candidate serial (snd comparison) count);
          t = template_of env request rnd count (snapshot_state snapshot) candidate failure
                probe_candidate serial probe_serial comparison enabled_before enabled_after cex
      in sbind (lift_result (normalize_intent (hashes env)
                  (intent_of t snapshot selected candidate serial))) (\<lambda>i.
         sbind (journal_call (preserve_intent (hashes env) i)) (\<lambda>intent_sha.
         sbind (publication_stage env request rnd count snapshot selected candidate serial
                  intent_sha) (\<lambda>after.
         sbind (cleanup_stage env request rnd (snapshot_state snapshot) candidate serial) (\<lambda>_.
         receipt_stage env t intent_sha after))))))))"

definition run_round ::
  "('w, 'p, 'm) controller_setup \<Rightarrow> string \<Rightarrow> int \<Rightarrow> int option \<Rightarrow> 'p \<Rightarrow> int option
   \<Rightarrow> ('w, receipt sealed) controller_op" where
  "run_round env request rnd requested payload fallback =
     sbind (check_request request rnd requested fallback) (\<lambda>_.
     sbind (open_round env) (\<lambda>snapshot.
     sbind (gets (\<lambda>s. \<not> quarantined s)) (\<lambda>enabled.
     sbind (candidate_stage env request rnd snapshot payload requested enabled) (\<lambda>cand.
     let count = round_width requested fallback (fst cand)
     in sbind (serial_stage env request rnd snapshot payload count) (\<lambda>ser.
        commit_stage env request rnd count snapshot enabled cand ser)))))"

definition session_ledger ::
  "('w, 'p, 'm) controller_setup \<Rightarrow> receipt sealed list \<Rightarrow> bool \<Rightarrow> ledger" where
  "session_ledger env rs q =
     \<lparr>ledger_schema = LEDGER_SCHEMA, ledger_capability_sha256 = capability_id env,
      ledger_session_id = controller_session env,
      initial_state = canonical_before (body (hd rs)),
      receipts = rs,
      final_state = canonical_after (body (last rs)),
      candidate_quarantined = q, request_complete = True,
      classification = RUNTIME_CLASSIFICATION,
      universal_guarantee_mechanism = SERIAL_MECHANISM\<rparr>"

definition finalize_ledger :: "('w, 'p, 'm) controller_setup \<Rightarrow> ('w, ledger sealed) controller_op" where
  "finalize_ledger env =
     sbind (gets (\<lambda>s. (durable_receipts s, quarantined s))) (\<lambda>(rs, q).
     sbind (assert_that (rs \<noteq> []) (RoundRefused EmptySession)) (\<lambda>_.
     sbind (lift_result (case seal_ledger (hashes env) (session_ledger env rs q) of
                           Inl e \<Rightarrow> Inl (LedgerInvalid e) | Inr l \<Rightarrow> Inr l)) (\<lambda>l.
     sbind (journal_write (preserve_ledger l)) (\<lambda>_.
     ret l))))"

end
