(* ===== verification/Controller_Safety.thy ===== *)
theory Controller_Safety
  imports Live_Controller
begin

section \<open>What a round can and cannot do\<close>

text \<open>
  Facts about \<open>run_round\<close> that hold for every driver.  Two history relations carry them:
  \<open>steady\<close> (only the driver and the journal may change, and the journal only grows) for
  the stages after the comparison, and \<open>evolves\<close> (quarantine may be entered, never left)
  for a whole round up to its receipt.  Both are instances of the locale \<open>history\<close>.
\<close>

definition steady :: "'w controller \<Rightarrow> 'w controller \<Rightarrow> bool" where
  "steady s s' \<longleftrightarrow>
     journal_extends (evidence_journal s) (evidence_journal s')
     \<and> durable_receipts s' = durable_receipts s
     \<and> durable_recoveries s' = durable_recoveries s
     \<and> quarantined s' = quarantined s
     \<and> held_counterexample s' = held_counterexample s"

definition evolves :: "'w controller \<Rightarrow> 'w controller \<Rightarrow> bool" where
  "evolves s s' \<longleftrightarrow>
     journal_extends (evidence_journal s) (evidence_journal s')
     \<and> durable_receipts s' = durable_receipts s
     \<and> (quarantined s \<longrightarrow> quarantined s')"

interpretation steady: history steady
  by unfold_locales (auto simp: steady_def intro: journal_extends_trans)

interpretation evolves: history evolves
  by unfold_locales (auto simp: evolves_def intro: journal_extends_trans)

lemma steady_evolves: "steady s s' \<Longrightarrow> evolves s s'"
  by (simp add: steady_def evolves_def)

lemma keeps_evolves: "keeps steady m \<Longrightarrow> keeps evolves m"
  by (erule keeps_mono) (rule steady_evolves)

lemma driver_call_steady [intro]: "keeps steady (driver_call op)"
  by (auto simp: keeps_def driver_call_def steady_def split: prod.splits sum.splits)

lemma journal_call_steady:
  assumes "\<And>j x j'. op j = Inr (x, j') \<Longrightarrow> journal_extends j j'"
  shows "keeps steady (journal_call op)"
  using assms
  by (auto simp: keeps_def journal_call_def steady_def split: prod.splits sum.splits)

lemma preserve_steady [intro]:
  "keeps steady (journal_call (preserve_counterexample H c))"
  "keeps steady (journal_call (preserve_intent H i))"
  "keeps steady (journal_call (preserve_failure H f))"
  "keeps steady (journal_write (preserve_receipt r))"
  "keeps steady (journal_write (preserve_ledger l))"
  unfolding journal_write_def
  by (rule journal_call_steady; auto simp: result_simps dest: preserve_extends)+

lemma probe_state_steady [intro]: "keeps steady (probe_state env)"
  unfolding probe_state_def by (intro steady.keeps_sbind steady.keeps_pure driver_call_steady)

lemma take_snapshot_steady [intro]: "keeps steady (take_snapshot env)"
  unfolding take_snapshot_def
  by (intro steady.keeps_sbind steady.keeps_pure driver_call_steady probe_state_steady)

lemma require_unchanged_steady [intro]: "keeps steady (require_unchanged env sn stage)"
  unfolding require_unchanged_def
  by (intro steady.keeps_sbind steady.keeps_pure probe_state_steady)

lemma restore_steady [intro]: "keeps steady (restore env sn stage)"
  unfolding restore_def
  by (intro steady.keeps_sbind steady.keeps_pure driver_call_steady probe_state_steady)

lemma record_fatal_steady [intro]: "keeps steady (record_fatal env request rnd stage e st)"
  unfolding record_fatal_def
  by (intro steady.keeps_sbind steady.keeps_pure preserve_steady)

lemma check_request_steady [intro]: "keeps steady (check_request request rnd count fallback)"
  by (simp add: check_request_def keeps_def)

lemma open_round_steady [intro]: "keeps steady (open_round env)"
  unfolding open_round_def
  by (intro steady.keeps_sbind steady.keeps_pure take_snapshot_steady)

lemma destroy_each_steady [intro]: "keeps steady (destroy_each env ts)"
proof (induction ts)
  case Nil
  show ?case by (simp only: destroy_each.simps) (rule steady.keeps_pure)
next
  case (Cons t ts)
  show ?case
    unfolding destroy_each.simps
    by (intro steady.keeps_sbind steady.keeps_attempt driver_call_steady Cons.IH steady.keeps_pure)
qed

lemma serial_stage_steady [intro]: "keeps steady (serial_stage env request rnd sn payload count)"
  unfolding serial_stage_def
  by (intro steady.keeps_try_except steady.keeps_sbind steady.keeps_pure driver_call_steady
      require_unchanged_steady restore_steady record_fatal_steady)

lemma publication_stage_steady [intro]:
  "keeps steady (publication_stage env request rnd count sn selected candidate serial sha)"
  unfolding publication_stage_def
  by (intro steady.keeps_if steady.keeps_try_except steady.keeps_sbind steady.keeps_pure
      driver_call_steady restore_steady record_fatal_steady destroy_each_steady
      probe_state_steady)

lemma cleanup_stage_steady [intro]:
  "keeps steady (cleanup_stage env request rnd st candidate serial)"
  unfolding cleanup_stage_def
  by (intro steady.keeps_case_option steady.keeps_try_except steady.keeps_sbind
      steady.keeps_pure driver_call_steady record_fatal_steady)

lemma candidate_stage_evolves [intro]:
  "keeps evolves (candidate_stage env request rnd sn payload count enabled)"
  unfolding candidate_stage_def
  by (intro evolves.keeps_if evolves.keeps_try_except evolves.keeps_sbind evolves.keeps_pure
      evolves.keeps_modify keeps_evolves driver_call_steady require_unchanged_steady
      restore_steady)
     (simp_all add: evolves_def)

lemma comparison_stage_evolves [intro]:
  "keeps evolves (comparison_stage env request rnd st candidate failure serial)"
  unfolding comparison_stage_def
  by (intro evolves.keeps_if evolves.keeps_case_prod evolves.keeps_sbind evolves.keeps_pure
      evolves.keeps_modify keeps_evolves preserve_steady)
     (simp_all add: evolves_def)

subsection \<open>The stages that succeed\<close>

lemma check_request_Inr:
  "check_request request rnd count fallback s = (Inr u, s') \<Longrightarrow>
     s' = s \<and> rnd = int (length (durable_receipts s))"
  by (auto simp: check_request_def result_simps)

lemma open_round_Inr:
  assumes "open_round env s = (Inr sn, s')"
  shows "durable_receipts s = [] \<or>
           snapshot_state sn = canonical_after (body (last (durable_receipts s)))"
    and "normal_state (snapshot_state sn)" and "steady s s'"
proof -
  from assms obtain rs s1 where "take_snapshot env s = (Inr sn, s1)" "s' = s1"
    and *: "durable_receipts s1 = [] \<or>
           snapshot_state sn = canonical_after (body (last (durable_receipts s1)))"
    by (auto simp: open_round_def action_simps)
  then have snap: "take_snapshot env s = (Inr sn, s')" by simp
  then show "normal_state (snapshot_state sn)"
    by (auto simp: take_snapshot_def action_simps result_simps)
  show "steady s s'" by (rule keepsD [OF take_snapshot_steady snap])
  then show "durable_receipts s = [] \<or>
           snapshot_state sn = canonical_after (body (last (durable_receipts s)))"
    using * \<open>s' = s1\<close> by (simp add: steady_def)
qed

text \<open>
  The candidate stage returns a candidate only when candidates are enabled, and a failure
  always comes with quarantine.
\<close>

lemma candidate_stage_Inr:
  assumes "candidate_stage env request rnd sn payload count enabled s = (Inr (c, f, sha), s')"
  shows "c \<noteq> None \<longrightarrow> enabled \<and> f = None \<and> quarantined s' = quarantined s"
    and "f \<noteq> None \<longrightarrow> enabled \<and> c = None \<and> quarantined s'"
    and "c = None \<and> f = None \<longrightarrow> \<not> enabled \<and> s' = s"
proof -
  let ?m = "sbind (driver_call (execute_candidate (release_driver env) sn payload count)) (\<lambda>value.
         sbind (lift_result (check_transition ''candidate''
                  (driver_candidate_family (release_driver env)) count value)) (\<lambda>t.
         sbind (require_unchanged env sn ''candidate execution'') (\<lambda>sha.
         ret (Some t, None, sha))))"
  have m: "keeps steady ?m"
    by (intro steady.keeps_sbind steady.keeps_pure driver_call_steady require_unchanged_steady)
  consider (disabled) "\<not> enabled" "c = None" "f = None" "s' = s"
    | (returned) "enabled" "?m s = (Inr (c, f, sha), s')"
    | (failed) "enabled" "c = None" "f \<noteq> None" "quarantined s'"
    using assms unfolding candidate_stage_def
    by (cases enabled) (auto simp: try_except_Inr_iff, auto simp: action_simps)
  then have "(c \<noteq> None \<longrightarrow> enabled \<and> f = None \<and> quarantined s' = quarantined s)
      \<and> (f \<noteq> None \<longrightarrow> enabled \<and> c = None \<and> quarantined s')
      \<and> (c = None \<and> f = None \<longrightarrow> \<not> enabled \<and> s' = s)"
  proof cases
    case returned
    then have "c \<noteq> None" "f = None" by (auto simp: action_simps)
    moreover have "steady s s'" using keepsD [OF m returned(2)] .
    ultimately show ?thesis using returned(1) by (simp add: steady_def)
  qed auto
  then show "c \<noteq> None \<longrightarrow> enabled \<and> f = None \<and> quarantined s' = quarantined s"
    and "f \<noteq> None \<longrightarrow> enabled \<and> c = None \<and> quarantined s'"
    and "c = None \<and> f = None \<longrightarrow> \<not> enabled \<and> s' = s"
    by blast+
qed

lemma comparison_stage_Inr:
  assumes "comparison_stage env request rnd st candidate failure serial s = (Inr (d, eq), s')"
  shows "compare_transitions candidate serial = Inr (d, eq)"
    and "quarantined s' = (quarantined s \<or> candidate \<noteq> None \<and> \<not> eq)"
    and "failure \<noteq> None \<or> candidate \<noteq> None \<and> \<not> eq \<Longrightarrow>
           \<exists>sha. held_counterexample s' = Some sha \<and>
             sha = counterexample_digest (hashes env)
                     (counterexample_of env request rnd st candidate serial failure d) \<and>
             (\<exists>file. map_of (evidence_journal s') (CounterexampleName sha) = Some file \<and>
                content file = CounterexampleDoc
                  (counterexample_of env request rnd st candidate serial failure d))"
proof -
  let ?x = "counterexample_of env request rnd st candidate serial failure d"
  let ?bad = "failure \<noteq> None \<or> candidate \<noteq> None \<and> \<not> eq"
  let ?q = "if candidate \<noteq> None \<and> \<not> eq then s\<lparr>quarantined := True\<rparr> else s"
  from assms show cmp: "compare_transitions candidate serial = Inr (d, eq)"
    by (auto simp: comparison_stage_def action_simps split: if_splits)
  then have "(if ?bad
      then sbind (journal_call (preserve_counterexample (hashes env) ?x))
             (\<lambda>sha. sbind (modify (\<lambda>s. s\<lparr>held_counterexample := Some sha\<rparr>)) (\<lambda>_. ret (d, eq)))
      else ret (d, eq)) ?q = (Inr (d, eq), s')"
    using assms by (simp add: comparison_stage_def sbind_def)
  then have alt: "\<not> ?bad \<and> s' = ?q \<or> ?bad \<and> (\<exists>j.
      preserve_counterexample (hashes env) ?x (evidence_journal s) =
        Inr (counterexample_digest (hashes env) ?x, j) \<and>
      s' = ?q\<lparr>evidence_journal := j,
              held_counterexample := Some (counterexample_digest (hashes env) ?x)\<rparr>)"
    by (auto simp: action_simps journal_call_def preserve_counterexample_def Let_def result_simps
        split: if_splits sum.splits prod.splits)
  then show "quarantined s' = (quarantined s \<or> candidate \<noteq> None \<and> \<not> eq)"
    by (auto split: if_splits)
  assume ?bad
  with alt obtain j where j:
    "preserve_counterexample (hashes env) ?x (evidence_journal s) =
        Inr (counterexample_digest (hashes env) ?x, j)"
    and s': "evidence_journal s' = j"
      "held_counterexample s' = Some (counterexample_digest (hashes env) ?x)"
    by auto
  from j have "\<exists>file. map_of j (CounterexampleName (counterexample_digest (hashes env) ?x)) = Some file
      \<and> content file = CounterexampleDoc ?x"
    by (auto simp: preserve_counterexample_def Let_def result_simps dest!: publish_evidence_Inr(2))
  with s' show "\<exists>sha. held_counterexample s' = Some sha \<and>
      sha = counterexample_digest (hashes env) ?x \<and>
      (\<exists>file. map_of (evidence_journal s') (CounterexampleName sha) = Some file \<and>
         content file = CounterexampleDoc ?x)"
    by simp
qed

lemma receipt_stage_Inr:
  assumes "receipt_stage env t sha after s = (Inr r, s')"
  shows "seal_receipt (hashes env) (receipt_of_template t sha after True True True) = Inr r"
    and "durable_receipts s' = durable_receipts s @ [r]"
    and "quarantined s' = quarantined s"
    and "held_counterexample s' = held_counterexample s"
    and "journal_extends (evidence_journal s) (evidence_journal s')"
    and "\<exists>file. map_of (evidence_journal s') (ReceiptName (round_index (body r)) (self_sha256 r))
             = Some file \<and> content file = ReceiptDoc r"
proof -
  from assms obtain s1 where
    "seal_receipt (hashes env) (receipt_of_template t sha after True True True) = Inr r"
    and w: "journal_write (preserve_receipt r) s = (Inr (), s1)"
    and s': "s' = s1\<lparr>durable_receipts := durable_receipts s1 @ [r]\<rparr>"
    by (auto simp: receipt_stage_def action_simps result_simps)
  then show "seal_receipt (hashes env) (receipt_of_template t sha after True True True) = Inr r"
    by simp
  have "steady s s1" by (rule keepsD [OF preserve_steady(4) w])
  then show "durable_receipts s' = durable_receipts s @ [r]"
    "quarantined s' = quarantined s" "held_counterexample s' = held_counterexample s"
    "journal_extends (evidence_journal s) (evidence_journal s')"
    by (simp_all add: s' steady_def)
  show "\<exists>file. map_of (evidence_journal s') (ReceiptName (round_index (body r)) (self_sha256 r))
             = Some file \<and> content file = ReceiptDoc r"
    using w s'
    by (auto simp: journal_write_def journal_call_def preserve_receipt_def result_simps
        split: sum.splits dest!: publish_evidence_Inr(2))
qed

lemma template_of_simps [simp]:
  "round_index (template_of env request rnd count st c f pc ser ps cmp eb ea cex) = rnd"
  "session_id (template_of env request rnd count st c f pc ser ps cmp eb ea cex)
     = controller_session env"
  "capability_sha256 (template_of env request rnd count st c f pc ser ps cmp eb ea cex)
     = capability_id env"
  "request_id (template_of env request rnd count st c f pc ser ps cmp eb ea cex) = request"
  "commit_count (template_of env request rnd count st c f pc ser ps cmp eb ea cex) = count"
  "canonical_before (template_of env request rnd count st c f pc ser ps cmp eb ea cex) = st"
  "mode (template_of env request rnd count st c f pc ser ps cmp eb ea cex) = round_mode c f"
  "candidate_enabled_before (template_of env request rnd count st c f pc ser ps cmp eb ea cex) = eb"
  "candidate_enabled_after (template_of env request rnd count st c f pc ser ps cmp eb ea cex) = ea"
  "candidate_state (template_of env request rnd count st c f pc ser ps cmp eb ea cex)
     = map_option transition_state c"
  "candidate_failure (template_of env request rnd count st c f pc ser ps cmp eb ea cex) = f"
  "serial_state (template_of env request rnd count st c f pc ser ps cmp eb ea cex)
     = transition_state ser"
  "serial_token_ids (template_of env request rnd count st c f pc ser ps cmp eb ea cex)
     = transition_tokens ser"
  "counterexample_sha256 (template_of env request rnd count st c f pc ser ps cmp eb ea cex)
     = (if c \<noteq> None \<and> snd cmp then None else cex)"
  by (simp_all add: template_of_def Let_def)

subsection \<open>A round that returns\<close>

text \<open>The calls of a returning round, in order.\<close>

lemma run_round_stages:
  fixes env :: "('w, 'p, 'm) controller_setup" and s s' :: "'w controller"
  assumes "run_round env request rnd requested payload fallback s = (Inr r, s')"
  obtains sn :: canonical_snapshot and s1 s2 s3 s4 s5 s6 s7 :: "'w controller"
      and c f pc ser ps d eq i sha after where
    "check_request request rnd requested fallback s = (Inr (), s)"
    and "open_round env s = (Inr sn, s1)"
    and "candidate_stage env request rnd sn payload requested (\<not> quarantined s1) s1
             = (Inr (c, f, pc), s2)"
    and "serial_stage env request rnd sn payload (round_width requested fallback c) s2
             = (Inr (ser, ps), s3)"
    and "comparison_stage env request rnd (snapshot_state sn) c f ser s3 = (Inr (d, eq), s4)"
    and "journal_call (preserve_intent (hashes env) i) s4 = (Inr sha, s5)"
    and "publication_stage env request rnd (round_width requested fallback c) sn
           (fst (select_transition c ser eq (round_width requested fallback c))) c ser sha s5
           = (Inr after, s6)"
    and "cleanup_stage env request rnd (snapshot_state sn) c ser s6 = (Inr (), s7)"
    and "receipt_stage env (template_of env request rnd (round_width requested fallback c)
           (snapshot_state sn) c f pc ser ps (d, eq) (\<not> quarantined s1) (\<not> quarantined s4)
           (held_counterexample s4)) sha after s7 = (Inr r, s')"
proof -
  from assms obtain s0 sn s1 where
    req: "check_request request rnd requested fallback s = (Inr (), s0)"
    and opn: "open_round env s0 = (Inr sn, s1)"
    and rest: "sbind (candidate_stage env request rnd sn payload requested (\<not> quarantined s1))
        (\<lambda>cand. let count = round_width requested fallback (fst cand)
           in sbind (serial_stage env request rnd sn payload count) (\<lambda>ser.
              commit_stage env request rnd count sn (\<not> quarantined s1) cand ser)) s1 = (Inr r, s')"
    by (auto simp: run_round_def action_simps)
  have s0: "s0 = s" using check_request_Inr [OF req] by simp
  from rest obtain c f pc s2 ser ps s3 where
    cand: "candidate_stage env request rnd sn payload requested (\<not> quarantined s1) s1
             = (Inr (c, f, pc), s2)"
    and serl: "serial_stage env request rnd sn payload (round_width requested fallback c) s2
             = (Inr (ser, ps), s3)"
    and commit: "commit_stage env request rnd (round_width requested fallback c) sn
             (\<not> quarantined s1) (c, f, pc) (ser, ps) s3 = (Inr r, s')"
    by (auto simp: action_simps Let_def)
  let ?n = "round_width requested fallback c"
  from commit obtain d eq s4 sha s5 i after s6 s7 where
    cmp: "comparison_stage env request rnd (snapshot_state sn) c f ser s3 = (Inr (d, eq), s4)"
    and int: "journal_call (preserve_intent (hashes env) i) s4 = (Inr sha, s5)"
    and pub: "publication_stage env request rnd ?n sn
           (fst (select_transition c ser eq ?n)) c ser sha s5 = (Inr after, s6)"
    and cln: "cleanup_stage env request rnd (snapshot_state sn) c ser s6 = (Inr (), s7)"
    and rcp: "receipt_stage env (template_of env request rnd ?n (snapshot_state sn) c f pc ser ps
           (d, eq) (\<not> quarantined s1) (\<not> quarantined s4) (held_counterexample s4)) sha after s7
           = (Inr r, s')"
    by (auto simp: commit_stage_def action_simps Let_def split: prod.splits)
  show thesis by (rule that [OF req [unfolded s0] opn [unfolded s0] cand serl cmp int pub cln rcp])
qed

text \<open>
  The stages a returning round went through, with the facts later proofs use.  \<open>s4\<close> is
  the controller after the comparison, when the counterexample (if any) is durable and
  nothing has been published yet.
\<close>

lemma run_round_Inr:
  fixes env :: "('w, 'p, 'm) controller_setup" and s s' :: "'w controller"
  assumes "run_round env request rnd requested payload fallback s = (Inr r, s')"
  obtains sn c f pc ser ps d eq s2 s4 sha where
    "rnd = int (length (durable_receipts s))"
    and "durable_receipts s = [] \<or>
           snapshot_state (sn :: canonical_snapshot) = canonical_after (body (last (durable_receipts s)))"
    and "c \<noteq> None \<longrightarrow> \<not> quarantined s"
    and "c = None \<and> f = None \<longleftrightarrow> quarantined s"
    and "f \<noteq> None \<longrightarrow> c = None"
    and "comparison_stage env request rnd (snapshot_state sn) c f ser s2 = (Inr (d, eq), s4)"
    and "seal_receipt (hashes env) (receipt_of_template
           (template_of env request rnd (round_width requested fallback c) (snapshot_state sn)
              c f pc ser ps (d, eq) (\<not> quarantined s) (\<not> quarantined s4) (held_counterexample s4))
           sha (canonical_after (body r)) True True True) = Inr r"
    and "quarantined s' = quarantined s4"
    and "quarantined s4 = (quarantined s \<or> f \<noteq> None \<or> c \<noteq> None \<and> \<not> eq)"
    and "held_counterexample s' = held_counterexample s4"
    and "durable_receipts s' = durable_receipts s @ [r]"
    and "journal_extends (evidence_journal s) (evidence_journal s4)"
    and "journal_extends (evidence_journal s4) (evidence_journal s')"
    and "\<exists>file. map_of (evidence_journal s') (ReceiptName rnd (self_sha256 r))
             = Some file \<and> content file = ReceiptDoc r"
proof -
  obtain sn :: canonical_snapshot and s1 s2 s3 s4 s5 s6 s7 :: "'w controller"
      and c f pc ser ps d eq i sha after where
    req: "check_request request rnd requested fallback s = (Inr (), s)"
    and opn: "open_round env s = (Inr sn, s1)"
    and cand: "candidate_stage env request rnd sn payload requested (\<not> quarantined s1) s1
             = (Inr (c, f, pc), s2)"
    and serl: "serial_stage env request rnd sn payload (round_width requested fallback c) s2
             = (Inr (ser, ps), s3)"
    and cmp: "comparison_stage env request rnd (snapshot_state sn) c f ser s3 = (Inr (d, eq), s4)"
    and int: "journal_call (preserve_intent (hashes env) i) s4 = (Inr sha, s5)"
    and pub: "publication_stage env request rnd (round_width requested fallback c) sn
           (fst (select_transition c ser eq (round_width requested fallback c))) c ser sha s5
           = (Inr after, s6)"
    and cln: "cleanup_stage env request rnd (snapshot_state sn) c ser s6 = (Inr (), s7)"
    and rcp: "receipt_stage env (template_of env request rnd (round_width requested fallback c)
           (snapshot_state sn) c f pc ser ps (d, eq) (\<not> quarantined s1) (\<not> quarantined s4)
           (held_counterexample s4)) sha after s7 = (Inr r, s')"
    by (rule run_round_stages [OF assms])
  note opened = open_round_Inr [OF opn]
  note cfacts = candidate_stage_Inr [OF cand]
  have e12: "evolves s1 s2" by (rule keepsD [OF candidate_stage_evolves cand])
  have s23: "steady s2 s3" by (rule keepsD [OF serial_stage_steady serl])
  have s47: "steady s4 s7"
    using keepsD [OF preserve_steady(2) int] keepsD [OF publication_stage_steady pub]
      keepsD [OF cleanup_stage_steady cln] steady.trans by blast
  have e34: "evolves s3 s4" by (rule keepsD [OF comparison_stage_evolves cmp])
  note rc = receipt_stage_Inr [OF rcp]
  have after: "canonical_after (body r) = after"
    using seal_receipt_body [OF rc(1)] by simp
  have rnd_body: "round_index (body r) = rnd"
    using seal_receipt_body [OF rc(1)] by simp
  have evo: "evolves s s4" and q1: "quarantined s1 = quarantined s"
    using opened(3) e12 steady_evolves [OF s23] e34 evolves.trans steady_evolves
    by (blast, simp add: steady_def)
  show thesis
  proof (rule that [of sn c f ser s3 d eq s4 pc ps sha])
    show "rnd = int (length (durable_receipts s))" using check_request_Inr [OF req] by simp
    show "durable_receipts s = [] \<or>
           snapshot_state sn = canonical_after (body (last (durable_receipts s)))"
      using opened(1) by simp
    show "c \<noteq> None \<longrightarrow> \<not> quarantined s" "f \<noteq> None \<longrightarrow> c = None"
      using cfacts q1 by auto
    show "(c = None \<and> f = None) = quarantined s"
      using cfacts q1 by auto
    show "comparison_stage env request rnd (snapshot_state sn) c f ser s3 = (Inr (d, eq), s4)"
      by (rule cmp)
    show "seal_receipt (hashes env) (receipt_of_template
           (template_of env request rnd (round_width requested fallback c) (snapshot_state sn)
              c f pc ser ps (d, eq) (\<not> quarantined s) (\<not> quarantined s4) (held_counterexample s4))
           sha (canonical_after (body r)) True True True) = Inr r"
      using rc(1) after q1 by simp
    show "quarantined s' = quarantined s4" "held_counterexample s' = held_counterexample s4"
      using rc(3,4) s47 by (simp_all add: steady_def)
    show "quarantined s4 = (quarantined s \<or> f \<noteq> None \<or> c \<noteq> None \<and> \<not> eq)"
      using comparison_stage_Inr(2) [OF cmp] cfacts q1 s23 e12
      by (auto simp: steady_def evolves_def)
    show "durable_receipts s' = durable_receipts s @ [r]"
      using rc(2) s47 evo by (simp add: steady_def evolves_def)
    show "journal_extends (evidence_journal s) (evidence_journal s4)"
      using evo by (simp add: evolves_def)
    show "journal_extends (evidence_journal s4) (evidence_journal s')"
      using s47 rc(5) journal_extends_trans by (auto simp: steady_def)
    show "\<exists>file. map_of (evidence_journal s') (ReceiptName rnd (self_sha256 r))
             = Some file \<and> content file = ReceiptDoc r"
      using rc(6) rnd_body by simp
  qed
qed

end
