(* ===== verification/Controller_Session.thy ===== *)
theory Controller_Session
  imports Controller_Safety
begin

section \<open>Sessions: any sequence of rounds\<close>

text \<open>
  A session of a controller is a sequence of calls of \<open>run_round\<close> and
  \<open>finalize_ledger\<close>, with any arguments, on any driver, each of which may return or
  raise.  The inductive predicate \<open>session_reaches\<close> collects the states such sequences
  reach; \<open>controller_invariant\<close> holds in all of them.
\<close>

definition controller_invariant :: "('w, 'p, 'm) controller_setup \<Rightarrow> 'w controller \<Rightarrow> bool" where
  "controller_invariant env s \<longleftrightarrow>
     (\<forall>r \<in> set (durable_receipts s). seal_receipt (hashes env) (body r) = Inr r) \<and>
     (durable_receipts s \<noteq> [] \<longrightarrow>
        (\<exists>q. chain_receipts (controller_session env) (capability_id env) 0 (durable_receipts s)
               (canonical_before (body (hd (durable_receipts s))), False)
             = Inr (canonical_after (body (last (durable_receipts s))), q)
           \<and> (q \<longrightarrow> quarantined s)))"

text \<open>The state after the constructor ran on an empty journal.\<close>

definition fresh_controller :: "'w \<Rightarrow> 'w controller" where
  "fresh_controller w =
     \<lparr>world = w, evidence_journal = [], durable_receipts = [], durable_recoveries = [],
      quarantined = False, held_counterexample = None\<rparr>"

inductive session_reaches :: "('w, 'p, 'm) controller_setup \<Rightarrow> 'w controller \<Rightarrow> 'w controller \<Rightarrow> bool"
  for env start where
    reach_start: "session_reaches env start start"
  | reach_round: "session_reaches env start s \<Longrightarrow>
      run_round env request rnd requested payload fallback s = (outcome, s') \<Longrightarrow>
      session_reaches env start s'"
  | reach_finalize: "session_reaches env start s \<Longrightarrow> finalize_ledger env s = (ledger_outcome, s') \<Longrightarrow>
      session_reaches env start s'"

subsection \<open>A round that raises\<close>

lemma fails_modify_ret: "fails_keeping R (sbind (modify f) (\<lambda>_. ret x))"
  by (simp add: fails_keeping_def sbind_def)

lemma receipt_stage_fails: "fails_keeping steady (receipt_stage env t sha after)"
  unfolding receipt_stage_def
  by (intro steady.fails_sbind steady.keeps_pure preserve_steady fails_modify_ret)

lemma fails_evolves: "fails_keeping steady m \<Longrightarrow> fails_keeping evolves m"
  by (auto simp: fails_keeping_def steady_evolves)

lemma commit_stage_fails: "fails_keeping evolves (commit_stage env request rnd n sn enabled cand ser)"
  unfolding commit_stage_def Let_def
  by (intro fails_cases(2) evolves.fails_sbind comparison_stage_evolves evolves.keeps_pure
      keeps_evolves preserve_steady publication_stage_steady cleanup_stage_steady
      fails_evolves receipt_stage_fails steady.keeps_pure)

lemma run_round_fails: "fails_keeping evolves (run_round env request rnd requested payload fallback)"
  unfolding run_round_def Let_def
  by (intro evolves.fails_sbind evolves.keeps_pure keeps_evolves check_request_steady
      open_round_steady candidate_stage_evolves serial_stage_steady commit_stage_fails)

lemma finalize_ledger_steady: "keeps steady (finalize_ledger env)"
  unfolding finalize_ledger_def
  by (intro steady.keeps_sbind steady.keeps_case_prod steady.keeps_pure preserve_steady)

subsection \<open>A round that returns\<close>

text \<open>The shape of the receipt a round returns, whatever the driver did.\<close>

lemma run_round_receipt_facts:
  fixes env :: "('w, 'p, 'm) controller_setup" and s s' :: "'w controller"
  assumes "run_round env request rnd requested payload fallback s = (Inr r, s')"
  shows "seal_receipt (hashes env) (body r) = Inr r"
    and "session_id (body r) = controller_session env"
    and "capability_sha256 (body r) = capability_id env"
    and "request_id (body r) = request"
    and "round_index (body r) = int (length (durable_receipts s))"
    and "durable_receipts s \<noteq> [] \<Longrightarrow>
           canonical_before (body r) = canonical_after (body (last (durable_receipts s)))"
    and "mode (body r) = QuarantinedSerial \<longleftrightarrow> quarantined s"
    and "candidate_enabled_after (body r) \<longleftrightarrow> \<not> quarantined s'"
    and "quarantined s \<Longrightarrow> quarantined s'"
    and "durable_receipts s' = durable_receipts s @ [r]"
    and "journal_extends (evidence_journal s) (evidence_journal s')"
proof -
  obtain sn :: canonical_snapshot and s4 :: "'w controller" and c f pc ser ps d eq sha t where
    rnd: "rnd = int (length (durable_receipts s))"
    and chain: "durable_receipts s = [] \<or>
           snapshot_state sn = canonical_after (body (last (durable_receipts s)))"
    and modes: "c = None \<and> f = None \<longleftrightarrow> quarantined s" "c \<noteq> None \<longrightarrow> \<not> quarantined s"
    and t: "t = template_of env request rnd (round_width requested fallback c) (snapshot_state sn)
              c f pc ser ps (d, eq) (\<not> quarantined s) (\<not> quarantined s4) (held_counterexample s4)"
    and seal: "seal_receipt (hashes env)
           (receipt_of_template t sha (canonical_after (body r)) True True True) = Inr r"
    and q: "quarantined s' = quarantined s4"
      "quarantined s4 = (quarantined s \<or> f \<noteq> None \<or> c \<noteq> None \<and> \<not> eq)"
    and rs: "durable_receipts s' = durable_receipts s @ [r]"
    and je: "journal_extends (evidence_journal s) (evidence_journal s4)"
      "journal_extends (evidence_journal s4) (evidence_journal s')"
    by (rule run_round_Inr [OF assms], rule that [OF _ _ _ _ refl], assumption+)
  have b: "body r = receipt_of_template t sha (canonical_after (body r)) True True True"
    using seal_receipt_body [OF seal] by simp
  then show "seal_receipt (hashes env) (body r) = Inr r" using seal by simp
  have sel: "session_id (body r) = session_id t" "capability_sha256 (body r) = capability_sha256 t"
    "request_id (body r) = request_id t" "round_index (body r) = round_index t"
    "canonical_before (body r) = canonical_before t" "mode (body r) = mode t"
    "candidate_enabled_after (body r) = candidate_enabled_after t"
    by (subst b, simp)+
  show "session_id (body r) = controller_session env" "capability_sha256 (body r) = capability_id env"
    "request_id (body r) = request" "round_index (body r) = int (length (durable_receipts s))"
    using sel rnd by (simp_all add: t)
  show "durable_receipts s \<noteq> [] \<Longrightarrow>
           canonical_before (body r) = canonical_after (body (last (durable_receipts s)))"
    using sel(5) chain by (simp add: t)
  show "mode (body r) = QuarantinedSerial \<longleftrightarrow> quarantined s"
    using sel(6) modes by (auto simp: t round_mode_def)
  show "candidate_enabled_after (body r) \<longleftrightarrow> \<not> quarantined s'"
    using sel(7) q(1) by (simp add: t)
  show "quarantined s \<Longrightarrow> quarantined s'" using q by simp
  show "durable_receipts s' = durable_receipts s @ [r]" by (rule rs)
  show "journal_extends (evidence_journal s) (evidence_journal s')"
    using je by (rule journal_extends_trans)
qed

subsection \<open>The invariant\<close>

lemma controller_invariant_fresh: "controller_invariant env (fresh_controller w)"
  by (simp add: controller_invariant_def fresh_controller_def)

lemma controller_invariant_evolves:
  "controller_invariant env s \<Longrightarrow> evolves s s' \<Longrightarrow> controller_invariant env s'"
  by (auto simp: controller_invariant_def evolves_def)

lemma controller_invariant_round:
  assumes inv: "controller_invariant env s"
    and rnd: "run_round env request rnd requested payload fallback s = (Inr r, s')"
  shows "controller_invariant env s'"
proof -
  note f = run_round_receipt_facts [OF rnd]
  let ?rs = "durable_receipts s"
  let ?chain = "chain_receipts (controller_session env) (capability_id env)"
  let ?first = "canonical_before (body (hd (durable_receipts s')))"
  have sealed: "\<forall>x \<in> set (durable_receipts s'). seal_receipt (hashes env) (body x) = Inr x"
    using inv f(1,10) by (auto simp: controller_invariant_def)
  obtain q where q: "?chain 0 ?rs (?first, False) = Inr (canonical_before (body r), q)"
      "q \<longrightarrow> quarantined s"
  proof (cases "?rs = []")
    case True
    then show ?thesis using that [of False] f(10) by simp
  next
    case False
    then show ?thesis
      using inv f(6,10) that by (auto simp: controller_invariant_def)
  qed
  have "?chain 0 (durable_receipts s') (?first, False) =
      Inr (canonical_after (body r), q \<or> \<not> candidate_enabled_after (body r))"
    using q f(2,3,5,7) by (simp add: f(10) chain_receipts_append)
  then show ?thesis
    using sealed q(2) f(8,9,10) by (auto simp: controller_invariant_def)
qed

lemma session_invariant:
  "session_reaches env start s \<Longrightarrow> controller_invariant env start \<Longrightarrow> controller_invariant env s"
proof (induction rule: session_reaches.induct)
  case (reach_round s request rnd requested payload fallback outcome s')
  then show ?case
  proof (cases outcome)
    case (Inl e)
    with reach_round have "evolves s s'" by (auto intro: fails_keepingD [OF run_round_fails])
    then show ?thesis using reach_round controller_invariant_evolves by blast
  qed (auto intro: controller_invariant_round)
next
  case (reach_finalize s ledger_outcome s')
  then have "evolves s s'" by (auto intro: keepsD [OF keeps_evolves [OF finalize_ledger_steady]])
  then show ?case using reach_finalize controller_invariant_evolves by blast
qed

text \<open>Quarantine and the journal are never rolled back within a session.\<close>

lemma session_monotone:
  "session_reaches env start s \<Longrightarrow>
     (quarantined start \<longrightarrow> quarantined s)
     \<and> journal_extends (evidence_journal start) (evidence_journal s)
     \<and> (\<exists>rs. durable_receipts s = durable_receipts start @ rs)"
proof (induction rule: session_reaches.induct)
  case (reach_round s request rnd requested payload fallback outcome s')
  show ?case
  proof (cases outcome)
    case (Inl e)
    with reach_round have "evolves s s'" by (auto intro: fails_keepingD [OF run_round_fails])
    then show ?thesis
      using reach_round.IH by (auto simp: evolves_def intro: journal_extends_trans)
  next
    case (Inr r)
    with reach_round.hyps have rr: "run_round env request rnd requested payload fallback s = (Inr r, s')"
      by simp
    show ?thesis
      using reach_round.IH run_round_receipt_facts(9,10,11) [OF rr]
      by (auto intro: journal_extends_trans)
  qed
next
  case (reach_finalize s ledger_outcome s')
  then have "evolves s s'" by (auto intro: keepsD [OF keeps_evolves [OF finalize_ledger_steady]])
  then show ?case using reach_finalize.IH by (auto simp: evolves_def intro: journal_extends_trans)
qed simp

subsection \<open>Closing a session\<close>

text \<open>
  The quarantine verdict agrees with the receipts exactly when no quarantine happened
  outside a completed round, in particular right after a round that returned.
\<close>

lemma chain_quarantine_verdict:
  assumes "controller_invariant env s"
    and "run_round env request rnd requested payload fallback s = (Inr r, s')"
  shows "chain_receipts (controller_session env) (capability_id env) 0 (durable_receipts s')
           (canonical_before (body (hd (durable_receipts s'))), False)
         = Inr (canonical_after (body (last (durable_receipts s'))), quarantined s')"
proof -
  note f = run_round_receipt_facts [OF assms(2)]
  obtain q where q: "chain_receipts (controller_session env) (capability_id env) 0
      (durable_receipts s') (canonical_before (body (hd (durable_receipts s'))), False)
         = Inr (canonical_after (body (last (durable_receipts s'))), q)" "q \<longrightarrow> quarantined s'"
    using controller_invariant_round [OF assms] f(10) by (auto simp: controller_invariant_def)
  moreover have "quarantined s' \<Longrightarrow> q"
    using chain_receipts_flag [OF q(1)] f(8,10) by auto
  ultimately show ?thesis by (cases q) auto
qed

lemma seals_after_round:
  assumes inv: "controller_invariant env s"
    and rnd: "run_round env request rnd requested payload fallback s = (Inr r, s')"
    and hex: "\<And>x. is_sha256 (receipt_digest (hashes env) x)"
  shows "seal_ledger (hashes env) (session_ledger env (durable_receipts s') (quarantined s')) =
    Inr \<lparr>body = session_ledger env (durable_receipts s') (quarantined s'),
         self_sha256 = ledger_digest (hashes env)
           (session_ledger env (durable_receipts s') (quarantined s'))\<rparr>"
proof -
  note f = run_round_receipt_facts [OF rnd]
  let ?rs = "durable_receipts s'"
  have inv': "controller_invariant env s'" by (rule controller_invariant_round [OF inv rnd])
  then have sealed: "\<forall>x \<in> set ?rs. seal_receipt (hashes env) (body x) = Inr x"
    by (simp add: controller_invariant_def)
  have ver: "\<forall>x \<in> set ?rs. verify_receipt (hashes env) x = Inr x"
  proof
    fix x assume "x \<in> set ?rs"
    then have "seal_receipt (hashes env) (body x) = Inr x" using sealed by blast
    moreover from this have "is_sha256 (self_sha256 x)" using seal_receipt_body hex by metis
    ultimately show "verify_receipt (hashes env) x = Inr x"
      by (simp add: verify_receipt_def sha256_value_def)
  qed
  have ne: "?rs \<noteq> []" using f(10) by simp
  have hd: "seal_receipt (hashes env) (body (hd ?rs)) = Inr (hd ?rs)"
    and la: "seal_receipt (hashes env) (body r) = Inr r"
    using sealed ne f(10) by (blast intro: hd_in_set, simp)
  have states: "normal_state (canonical_before (body (hd ?rs)))"
      "normal_state (canonical_after (body (last ?rs)))"
    using hd la header_states f(10) by (auto simp: seal_receipt_Inr)
  have ident: "is_sha256 (capability_id env)" "identifier_value (controller_session env) = Inr ()"
    using la f(2,3)
    by (auto simp: seal_receipt_Inr receipt_header_check_def result_simps sha256_value_def
        split: if_splits)
  show ?thesis
    using ver states ident chain_quarantine_verdict [OF inv rnd]
    by (simp add: seal_ledger_Inr session_ledger_def)
qed

lemma finalize_ledger_outcome:
  assumes "durable_receipts s \<noteq> []"
    and "seal_ledger (hashes env) (session_ledger env (durable_receipts s) (quarantined s)) = Inr l"
  shows "fst (finalize_ledger env s) \<in> {Inl EvidenceDiffers, Inr l}"
  using assms
  by (auto simp: finalize_ledger_def sbind_def assert_that_def journal_write_def
      journal_call_def preserve_ledger_def publish_evidence_def
      split: option.splits if_splits sum.splits prod.splits)

end
