(* ===== verification/Controller_Restoration.thy ===== *)
theory Controller_Restoration
  imports Controller_Session
begin

section \<open>The canonical state after a round\<close>

text \<open>
  The controller observes the driver only through \<open>probe_canonical\<close>.  When the probe tells
  the truth (it reports the canonical state and neither it, the snapshot nor the
  destruction of a private transition changes that state), the receipt of a round
  describes the canonical state the round leaves, and an error that says that the
  canonical state was restored is right.  Nothing is assumed of the execution,
  publication, restoration and clean-up operations: they may do anything.
\<close>

definition truthful_driver :: "('w, 'p, 'm) transition_driver \<Rightarrow> ('w \<Rightarrow> live_state) \<Rightarrow> bool" where
  "truthful_driver d canonical \<longleftrightarrow>
     (\<forall>w r w'. probe_canonical d w = (r, w') \<longrightarrow>
        canonical w' = canonical w \<and> (\<forall>st. r = Inr st \<longrightarrow> st = canonical w)) \<and>
     (\<forall>w r w'. snapshot_canonical d w = (r, w') \<longrightarrow> canonical w' = canonical w) \<and>
     (\<forall>t w r w'. destroy_private d t w = (r, w') \<longrightarrow> canonical w' = canonical w)"

definition same_canonical :: "('w \<Rightarrow> live_state) \<Rightarrow> 'w controller \<Rightarrow> 'w controller \<Rightarrow> bool" where
  "same_canonical canonical s s' \<longleftrightarrow> canonical (world s') = canonical (world s)"

interpretation canon: history "same_canonical canonical" for canonical
  by unfold_locales (simp_all add: same_canonical_def)

lemma driver_call_canonical:
  "(\<And>w r w'. op w = (r, w') \<Longrightarrow> canonical w' = canonical w) \<Longrightarrow>
     keeps (same_canonical canonical) (driver_call op)"
  by (auto simp: keeps_def driver_call_def same_canonical_def split: prod.splits sum.splits)

lemma journal_call_canonical [intro]: "keeps (same_canonical canonical) (journal_call op)"
  by (auto simp: keeps_def journal_call_def same_canonical_def split: prod.splits sum.splits)

lemma record_fatal_canonical [intro]:
  "keeps (same_canonical canonical) (record_fatal env request rnd stage e st)"
  unfolding record_fatal_def
  by (intro canon.keeps_sbind journal_call_canonical canon.keeps_pure)

lemma comparison_stage_canonical [intro]:
  "keeps (same_canonical canonical) (comparison_stage env request rnd st c f ser)"
  unfolding comparison_stage_def
  by (intro canon.keeps_if canon.keeps_case_prod canon.keeps_sbind canon.keeps_pure
      canon.keeps_modify journal_call_canonical)
     (simp_all add: same_canonical_def)

lemma receipt_stage_canonical [intro]:
  "keeps (same_canonical canonical) (receipt_stage env t sha after)"
  unfolding receipt_stage_def journal_write_def
  by (intro canon.keeps_sbind canon.keeps_pure canon.keeps_modify journal_call_canonical)
     (simp add: same_canonical_def)

subsection \<open>With a truthful driver\<close>

lemma probe_state_canonical:
  assumes "truthful_driver (release_driver env) canonical"
  shows "keeps (same_canonical canonical) (probe_state env)"
    and "probe_state env s = (Inr st, s') \<Longrightarrow> st = canonical (world s')"
proof -
  show "keeps (same_canonical canonical) (probe_state env)"
    unfolding probe_state_def
    using assms by (intro canon.keeps_sbind canon.keeps_pure driver_call_canonical)
      (auto simp: truthful_driver_def)
  assume "probe_state env s = (Inr st, s')"
  then show "st = canonical (world s')"
    using assms
    by (auto simp: probe_state_def action_simps result_simps driver_call_def truthful_driver_def
        split: prod.splits sum.splits)
qed

lemma destroy_private_canonical:
  "truthful_driver (release_driver env) canonical \<Longrightarrow>
     keeps (same_canonical canonical) (driver_call (destroy_private (release_driver env) t))"
  by (rule driver_call_canonical) (auto simp: truthful_driver_def)

lemma cleanup_stage_canonical:
  assumes "truthful_driver (release_driver env) canonical"
  shows "keeps (same_canonical canonical) (cleanup_stage env request rnd st c ser)"
  unfolding cleanup_stage_def
  by (intro canon.keeps_try_except canon.keeps_case_option canon.keeps_sbind canon.keeps_pure
      destroy_private_canonical [OF assms] record_fatal_canonical)

lemma destroy_each_canonical:
  assumes "truthful_driver (release_driver env) canonical"
  shows "keeps (same_canonical canonical) (destroy_each env ts)"
proof (induction ts)
  case Nil
  show ?case by (simp only: destroy_each.simps) (rule canon.keeps_pure)
next
  case (Cons t ts)
  show ?case
    unfolding destroy_each.simps
    by (intro canon.keeps_sbind canon.keeps_attempt canon.keeps_pure Cons.IH
        destroy_private_canonical [OF assms])
qed

lemma open_round_canonical:
  assumes t: "truthful_driver (release_driver env) canonical"
    and "open_round env s = (Inr sn, s')"
  shows "snapshot_state sn = canonical (world s)"
proof -
  from assms(2) obtain sn0 s1 probe where
    a: "driver_call (snapshot_canonical (release_driver env)) s = (Inr sn0, s1)"
    and b: "probe_state env s1 = (Inr probe, s')"
    and c: "probe = snapshot_state sn"
    by (auto simp: open_round_def take_snapshot_def action_simps result_simps)
  have "canonical (world s1) = canonical (world s)"
    using a t by (auto simp: driver_call_def truthful_driver_def split: prod.splits sum.splits)
  moreover have "canonical (world s') = canonical (world s1)"
    using keepsD [OF probe_state_canonical(1) [OF t] b] by (simp add: same_canonical_def)
  ultimately show ?thesis using probe_state_canonical(2) [OF t b] c by simp
qed

text \<open>A restoration that returns has put the snapshot back.\<close>

lemma restore_canonical_state:
  assumes t: "truthful_driver (release_driver env) canonical"
    and "restore env sn stage s = (Inr u, s')"
  shows "canonical (world s') = snapshot_state sn"
  using assms(2) probe_state_canonical(2) [OF t]
  by (auto simp: restore_def action_simps)

lemma serial_stage_canonical:
  assumes t: "truthful_driver (release_driver env) canonical"
    and "serial_stage env request rnd sn payload count s = (Inr (ser, sha), s')"
  shows "canonical (world s') = snapshot_state sn"
proof -
  from assms(2) obtain s1 where "require_unchanged env sn ''serial execution'' s1 = (Inr sha, s')"
    by (auto simp: serial_stage_def action_simps)
  then show ?thesis
    using probe_state_canonical(2) [OF t] by (auto simp: require_unchanged_def action_simps)
qed

lemma publication_stage_canonical:
  assumes t: "truthful_driver (release_driver env) canonical"
    and pub: "publication_stage env request rnd count sn selected c ser sha s = (Inr after, s')"
    and before: "canonical (world s) = snapshot_state sn"
  shows "canonical (world s') = after"
proof (cases "count = 0")
  case True
  then show ?thesis using pub before by (simp add: publication_stage_def)
next
  case False
  with pub obtain s1 probe where "probe_state env s1 = (Inr probe, s')" "probe = after"
    by (auto simp: publication_stage_def action_simps result_simps split: if_splits)
  then show ?thesis using probe_state_canonical(2) [OF t] by blast
qed

lemma run_round_canonical:
  fixes env :: "('w, 'p, 'm) controller_setup" and s s' :: "'w controller"
  assumes t: "truthful_driver (release_driver env) canonical"
    and run: "run_round env request rnd requested payload fallback s = (Inr r, s')"
  shows "canonical (world s) = canonical_before (body r)"
    and "canonical (world s') = canonical_after (body r)"
proof -
  obtain sn :: canonical_snapshot and s1 s2 s3 s4 s5 s6 s7 :: "'w controller"
      and c f pc ser ps d eq i sha after where
    opn: "open_round env s = (Inr sn, s1)"
    and serl: "serial_stage env request rnd sn payload (round_width requested fallback c) s2
             = (Inr (ser, ps), s3)"
    and cmp: "comparison_stage env request rnd (snapshot_state sn) c f ser s3 = (Inr (d, eq), s4)"
    and int: "journal_call (preserve_intent (hashes env) i) s4 = (Inr sha, s5)"
    and pub: "publication_stage env request rnd (round_width requested fallback c) sn
           (fst (select_transition c ser eq (round_width requested fallback c))) c ser sha s5
           = (Inr after, s6)"
    and cln: "cleanup_stage env request rnd (snapshot_state sn) c ser s6 = (Inr (), s7)"
    and rcp: "receipt_stage env (template_of env request rnd (round_width requested fallback c)
           (snapshot_state sn) c f pc ser ps (d, eq) (\<not> quarantined s1) (\<not> quarantined s4)
           (held_counterexample s4)) sha after s7 = (Inr r, s')"
    by (rule run_round_stages [OF run])
  have b: "body r = receipt_of_template (template_of env request rnd
        (round_width requested fallback c) (snapshot_state sn) c f pc ser ps (d, eq)
        (\<not> quarantined s1) (\<not> quarantined s4) (held_counterexample s4)) sha after True True True"
    using receipt_stage_Inr(1) [OF rcp] seal_receipt_body by metis
  show "canonical (world s) = canonical_before (body r)"
    using open_round_canonical [OF t opn] by (simp add: b)
  have "canonical (world s3) = snapshot_state sn"
    by (rule serial_stage_canonical [OF t serl])
  then have "canonical (world s5) = snapshot_state sn"
    using keepsD [OF comparison_stage_canonical cmp, of canonical]
      keepsD [OF journal_call_canonical int, of canonical] by (simp add: same_canonical_def)
  then have "canonical (world s6) = after"
    by (rule publication_stage_canonical [OF t pub])
  then show "canonical (world s') = canonical_after (body r)"
    using keepsD [OF cleanup_stage_canonical [OF t] cln]
      keepsD [OF receipt_stage_canonical rcp, of canonical] by (simp add: same_canonical_def b)
qed

subsection \<open>Errors that promise a restoration\<close>

fun promises_restoration :: "controller_error \<Rightarrow> bool" where
  "promises_restoration (RoundRefused why) =
     (why \<in> {SerialTransitionFailed, PublicationFailed, PublicationAndCleanupFailed,
             NonAtomicPublication, PublishedStateDiffers})"
| "promises_restoration e = False"

abbreviation quiet :: "('s, controller_error, 'a) action \<Rightarrow> bool" where
  "quiet \<equiv> raises_only (\<lambda>e. \<not> promises_restoration e)"

lemma quiet_driver_call [intro]: "quiet (driver_call op)"
  by (auto simp: raises_only_def driver_call_def split: prod.splits sum.splits)

lemma in_state_quiet: "in_state r = Inl e \<Longrightarrow> \<not> promises_restoration e"
  by (cases r) auto

lemma in_validation_quiet: "in_validation r = Inl e \<Longrightarrow> \<not> promises_restoration e"
  by (cases r) auto

lemma publish_evidence_Inl: "publish_evidence name doc j = Inl e \<Longrightarrow> e = EvidenceDiffers"
  by (auto simp: publish_evidence_def split: option.splits if_splits)

lemma preserve_quiet [intro]:
  "quiet (journal_call (preserve_counterexample H c))"
  "quiet (journal_call (preserve_intent H i))"
  "quiet (journal_call (preserve_failure H f))"
  "quiet (journal_write (preserve_receipt r))"
  by (auto simp: raises_only_def journal_write_def journal_call_def preserve_defs Let_def
      result_simps dest!: publish_evidence_Inl split: sum.splits prod.splits)

lemma probe_state_quiet [intro]: "quiet (probe_state env)"
  unfolding probe_state_def
  by (intro raises_only_sbind raises_only_lift quiet_driver_call) (rule in_state_quiet)

lemma restore_quiet [intro]: "quiet (restore env sn stage)"
  unfolding restore_def
  by (intro raises_only_sbind raises_only_lift raises_only_pure quiet_driver_call probe_state_quiet)
     (simp_all add: in_state_quiet)

lemma require_unchanged_quiet [intro]: "quiet (require_unchanged env sn stage)"
  unfolding require_unchanged_def
  by (intro raises_only_sbind raises_only_pure probe_state_quiet) simp

lemma check_request_quiet [intro]: "quiet (check_request request rnd count fallback)"
  by (auto simp: raises_only_def check_request_def result_simps
      split: option.splits if_splits dest: in_state_quiet)

lemma open_round_quiet [intro]: "quiet (open_round env)"
  unfolding open_round_def take_snapshot_def
  by (intro raises_only_sbind raises_only_lift raises_only_pure quiet_driver_call probe_state_quiet)
     (simp_all add: in_state_quiet)

lemma candidate_stage_quiet [intro]:
  "quiet (candidate_stage env request rnd sn payload count enabled)"
  unfolding candidate_stage_def
  by (intro raises_only_cases raises_only_try raises_only_sbind raises_only_pure
      quiet_driver_call restore_quiet)

lemma comparison_stage_quiet [intro]: "quiet (comparison_stage env request rnd st c f ser)"
  unfolding comparison_stage_def
  by (intro raises_only_cases raises_only_sbind raises_only_lift raises_only_pure preserve_quiet)
     (auto simp: compare_transitions_def result_simps split: option.splits dest: in_state_quiet)

lemma normalize_intent_quiet: "normalize_intent H i = Inl e \<Longrightarrow> \<not> promises_restoration e"
proof -
  let ?P = "\<lambda>e. \<not> promises_restoration e"
  have st: "errs_only ?P (in_state r)" for r :: "state_error + 'x"
    by (auto simp: errs_only_def dest: in_state_quiet)
  have "errs_only ?P (intent_fields_check i)"
    unfolding intent_fields_check_def
    by (cases "intent_counterexample_sha256 i") (auto intro!: errs_only_intros st)
  then have "errs_only ?P (normalize_intent H i)"
    unfolding normalize_intent_def Let_def
    by (intro errs_only_intros) (auto simp: errs_only_def split: sum.splits if_splits)
  then show "normalize_intent H i = Inl e \<Longrightarrow> \<not> promises_restoration e"
    by (simp add: errs_only_def)
qed

lemma cleanup_stage_quiet [intro]: "quiet (cleanup_stage env request rnd st c ser)"
  unfolding cleanup_stage_def record_fatal_def
  by (intro raises_only_try raises_only_sbind raises_only_pure preserve_quiet) simp

lemma receipt_stage_quiet [intro]: "quiet (receipt_stage env t sha after)"
  unfolding receipt_stage_def
  by (intro raises_only_sbind raises_only_lift raises_only_pure preserve_quiet)
     (rule in_validation_quiet)

text \<open>
  \<open>kept_promise P m\<close>: when \<open>m\<close> raises an error that promises a restoration, the state it
  leaves satisfies \<open>P\<close>.
\<close>

definition kept_promise :: "('s \<Rightarrow> bool) \<Rightarrow> ('s, controller_error, 'a) action \<Rightarrow> bool" where
  "kept_promise P m \<longleftrightarrow> (\<forall>s e s'. m s = (Inl e, s') \<longrightarrow> promises_restoration e \<longrightarrow> P s')"

lemma kept_quiet: "quiet m \<Longrightarrow> kept_promise P m"
  by (auto simp: kept_promise_def raises_only_def)

lemma kept_sbind:
  "kept_promise P m \<Longrightarrow> (\<And>x. kept_promise P (f x)) \<Longrightarrow> kept_promise P (sbind m f)"
  unfolding kept_promise_def sbind_Inl_iff by blast

lemma kept_cases:
  "kept_promise P m \<Longrightarrow> kept_promise P n \<Longrightarrow> kept_promise P (if b then m else n)"
  "(\<And>a b. kept_promise P (f a b)) \<Longrightarrow> kept_promise P (case p of (a, b) \<Rightarrow> f a b)"
  by (auto split: prod.splits)

lemma kept_try: "(\<And>e. kept_promise P (h e)) \<Longrightarrow> kept_promise P (try_except m h)"
  unfolding kept_promise_def try_except_Inl_iff by blast

text \<open>Restoring first, and then only operations that leave the canonical state alone.\<close>

lemma kept_restore:
  assumes t: "truthful_driver (release_driver env) canonical"
    and f: "keeps (same_canonical canonical) (f ())"
  shows "kept_promise (\<lambda>s. canonical (world s) = snapshot_state sn)
           (sbind (restore env sn stage) f)"
  unfolding kept_promise_def
proof (intro allI impI)
  fix s e s'
  assume "sbind (restore env sn stage) f s = (Inl e, s')" "promises_restoration e"
  then obtain s1 where a: "restore env sn stage s = (Inr (), s1)" and b: "f () s1 = (Inl e, s')"
    using raises_onlyD [OF restore_quiet [of env sn stage]] by (auto simp: sbind_Inl_iff)
  show "canonical (world s') = snapshot_state sn"
    using restore_canonical_state [OF t a] keepsD [OF f b] by (simp add: same_canonical_def)
qed

lemma serial_stage_promise:
  assumes t: "truthful_driver (release_driver env) canonical"
  shows "kept_promise (\<lambda>s. canonical (world s) = snapshot_state sn)
           (serial_stage env request rnd sn payload count)"
  unfolding serial_stage_def
  by (intro kept_try kept_sbind [OF kept_quiet [OF quiet_driver_call]] kept_restore [OF t]
      canon.keeps_sbind record_fatal_canonical canon.keeps_pure)

lemma publication_stage_promise:
  assumes t: "truthful_driver (release_driver env) canonical"
  shows "kept_promise (\<lambda>s. canonical (world s) = snapshot_state sn)
           (publication_stage env request rnd count sn selected c ser sha)"
  unfolding publication_stage_def
  by (intro kept_cases kept_try kept_sbind kept_restore [OF t] canon.keeps_sbind
      canon.keeps_pure record_fatal_canonical destroy_each_canonical [OF t]
      kept_quiet raises_only_pure raises_only_lift probe_state_quiet)
     (auto dest: in_state_quiet)

lemma commit_stage_promise:
  assumes t: "truthful_driver (release_driver env) canonical"
  shows "kept_promise (\<lambda>s. canonical (world s) = snapshot_state sn)
           (commit_stage env request rnd count sn enabled cand ser)"
  unfolding commit_stage_def Let_def
  by (intro kept_cases kept_sbind publication_stage_promise [OF t]
      kept_quiet [OF comparison_stage_quiet] kept_quiet [OF preserve_quiet(2)]
      kept_quiet [OF cleanup_stage_quiet] kept_quiet [OF receipt_stage_quiet]
      kept_quiet [OF raises_only_pure(3)] kept_quiet [OF raises_only_pure(5)]
      kept_quiet [OF raises_only_lift])
     (auto dest: normalize_intent_quiet)

lemma run_round_restored:
  assumes t: "truthful_driver (release_driver env) canonical"
    and run: "run_round env request rnd requested payload fallback s = (Inl e, s')"
    and promise: "promises_restoration e"
  shows "canonical (world s') = canonical (world s)"
proof -
  have s: "s0 = s" if "check_request request rnd requested fallback s = (Inr u, s0)" for u s0
    using check_request_Inr [OF that] by simp
  from run promise obtain sn s1 where opn: "open_round env s = (Inr sn, s1)"
    and rest: "sbind (gets (\<lambda>s. \<not> quarantined s)) (\<lambda>enabled.
       sbind (candidate_stage env request rnd sn payload requested enabled) (\<lambda>cand.
       let count = round_width requested fallback (fst cand)
       in sbind (serial_stage env request rnd sn payload count) (\<lambda>ser.
          commit_stage env request rnd count sn enabled cand ser))) s1 = (Inl e, s')"
    unfolding run_round_def sbind_Inl_iff [of "check_request _ _ _ _"] sbind_Inl_iff [of "open_round _"]
    using raises_onlyD [OF check_request_quiet] raises_onlyD [OF open_round_quiet] s by blast
  have "kept_promise (\<lambda>s. canonical (world s) = snapshot_state sn)
      (sbind (gets (\<lambda>s. \<not> quarantined s)) (\<lambda>enabled.
       sbind (candidate_stage env request rnd sn payload requested enabled) (\<lambda>cand.
       let count = round_width requested fallback (fst cand)
       in sbind (serial_stage env request rnd sn payload count) (\<lambda>ser.
          commit_stage env request rnd count sn enabled cand ser))))"
    unfolding Let_def
    by (intro kept_sbind serial_stage_promise [OF t] commit_stage_promise [OF t]
        kept_quiet [OF candidate_stage_quiet] kept_quiet [OF raises_only_pure(3)])
  then have "canonical (world s') = snapshot_state sn"
    using rest promise by (auto simp: kept_promise_def)
  then show ?thesis using open_round_canonical [OF t opn] by simp
qed

end
