(* ===== verification/Publication_Gap.thy ===== *)
theory Publication_Gap
  imports Controller_Restoration
begin

section \<open>The publication that is not restored\<close>

text \<open>
  \<open>run_round\<close> makes the intent durable, asks the driver to publish, and only then reads the
  state the driver says it published.  When that state does not normalize the exception
  leaves the round at once.  The intents in the journal tell how far a round came, so the
  history relation of this theory is that no intent was added.
\<close>

definition same_intents :: "'w controller \<Rightarrow> 'w controller \<Rightarrow> bool" where
  "same_intents s s' \<longleftrightarrow>
     (\<forall>k sha. map_of (evidence_journal s') (IntentName k sha)
              = map_of (evidence_journal s) (IntentName k sha))"

interpretation intents: history same_intents
  by unfold_locales (simp_all add: same_intents_def)

text \<open>A composition that left the relation did so after its first part had succeeded.\<close>

context history
begin

lemma sbind_left:
  assumes "sbind m f s = (r, s')" and "\<not> R s s'" and "keeps R m"
  obtains x s1 where "m s = (Inr x, s1)" and "f x s1 = (r, s')" and "\<not> R s1 s'"
proof -
  obtain r1 s1 where m: "m s = (r1, s1)" by fastforce
  have R: "R s s1" by (rule keepsD [OF assms(3) m])
  show thesis
  proof (cases r1)
    case (Inl e)
    then have "s1 = s'" using assms(1) m by (simp add: sbind_def)
    then show ?thesis using R assms(2) by simp
  next
    case (Inr x)
    then have "f x s1 = (r, s')" using assms(1) m by (simp add: sbind_def)
    then show ?thesis using that m Inr R assms(2) trans by blast
  qed
qed

end

subsection \<open>The stages that add no intent\<close>

lemma driver_call_intents [intro]: "keeps same_intents (driver_call op)"
  by (auto simp: keeps_def driver_call_def same_intents_def split: prod.splits sum.splits)

lemma publish_evidence_other:
  "publish_evidence name doc j = Inr j' \<Longrightarrow> name \<noteq> other \<Longrightarrow> map_of j' other = map_of j other"
  by (auto simp: publish_evidence_def map_add_def split: option.splits if_splits)

lemma preserve_intents [intro]:
  "keeps same_intents (journal_call (preserve_counterexample H c))"
  "keeps same_intents (journal_call (preserve_failure H f))"
  "keeps same_intents (journal_write (preserve_receipt r))"
  by (auto simp: keeps_def journal_write_def journal_call_def preserve_defs Let_def result_simps
      same_intents_def split: prod.splits sum.splits dest: publish_evidence_other)

lemma probe_state_intents [intro]: "keeps same_intents (probe_state env)"
  unfolding probe_state_def by (intro intents.keeps_sbind intents.keeps_pure driver_call_intents)

lemma restore_intents [intro]: "keeps same_intents (restore env sn stage)"
  unfolding restore_def
  by (intro intents.keeps_sbind intents.keeps_pure driver_call_intents probe_state_intents)

lemma require_unchanged_intents [intro]: "keeps same_intents (require_unchanged env sn stage)"
  unfolding require_unchanged_def
  by (intro intents.keeps_sbind intents.keeps_pure probe_state_intents)

lemma record_fatal_intents [intro]: "keeps same_intents (record_fatal env request rnd stage e st)"
  unfolding record_fatal_def
  by (intro intents.keeps_sbind intents.keeps_pure preserve_intents)

lemma check_request_intents [intro]: "keeps same_intents (check_request request rnd count fallback)"
  by (simp add: check_request_def keeps_def)

lemma open_round_intents [intro]: "keeps same_intents (open_round env)"
  unfolding open_round_def take_snapshot_def
  by (intro intents.keeps_sbind intents.keeps_pure driver_call_intents probe_state_intents)

lemma destroy_each_intents [intro]: "keeps same_intents (destroy_each env ts)"
proof (induction ts)
  case Nil
  show ?case by (simp only: destroy_each.simps) (rule intents.keeps_pure)
next
  case (Cons t ts)
  show ?case
    unfolding destroy_each.simps
    by (intro intents.keeps_sbind intents.keeps_attempt driver_call_intents Cons.IH
        intents.keeps_pure)
qed

lemma candidate_stage_intents [intro]:
  "keeps same_intents (candidate_stage env request rnd sn payload count enabled)"
  unfolding candidate_stage_def
  by (intro intents.keeps_if intents.keeps_try_except intents.keeps_sbind intents.keeps_pure
      intents.keeps_modify driver_call_intents require_unchanged_intents restore_intents)
     (simp add: same_intents_def)

lemma serial_stage_intents [intro]:
  "keeps same_intents (serial_stage env request rnd sn payload count)"
  unfolding serial_stage_def
  by (intro intents.keeps_try_except intents.keeps_sbind intents.keeps_pure driver_call_intents
      require_unchanged_intents restore_intents record_fatal_intents)

lemma comparison_stage_intents [intro]:
  "keeps same_intents (comparison_stage env request rnd st candidate failure serial)"
  unfolding comparison_stage_def
  by (intro intents.keeps_if intents.keeps_case_prod intents.keeps_sbind intents.keeps_pure
      intents.keeps_modify preserve_intents)
     (simp_all add: same_intents_def)

lemma publication_stage_intents [intro]:
  "keeps same_intents (publication_stage env request rnd count sn selected candidate serial sha)"
  unfolding publication_stage_def
  by (intro intents.keeps_if intents.keeps_try_except intents.keeps_sbind intents.keeps_pure
      driver_call_intents restore_intents record_fatal_intents destroy_each_intents
      probe_state_intents)

lemma cleanup_stage_intents [intro]:
  "keeps same_intents (cleanup_stage env request rnd st candidate serial)"
  unfolding cleanup_stage_def
  by (intro intents.keeps_case_option intents.keeps_try_except intents.keeps_sbind
      intents.keeps_pure driver_call_intents record_fatal_intents)

lemma receipt_stage_intents [intro]: "keeps same_intents (receipt_stage env t sha after)"
  unfolding receipt_stage_def
  by (intro intents.keeps_sbind intents.keeps_pure intents.keeps_modify preserve_intents)
     (simp add: same_intents_def)

lemma preserve_intent_new:
  assumes "journal_call (preserve_intent H i) s = (Inr sha, s')"
    and "map_of (evidence_journal s) (IntentName k h) = None"
    and "map_of (evidence_journal s') (IntentName k h) = Some stored"
  shows "content stored = IntentDoc i"
  using assms
  by (auto simp: journal_call_def preserve_intent_def publish_evidence_def Let_def result_simps
      map_add_def split: sum.splits prod.splits option.splits if_splits)

subsection \<open>A round that added an intent\<close>

lemma same_intents_new:
  "map_of (evidence_journal s) (IntentName k h) = None \<Longrightarrow>
   map_of (evidence_journal s') (IntentName k h) = Some stored \<Longrightarrow> \<not> same_intents s s'"
  unfolding same_intents_def by force

text \<open>
  A commit that leaves an intent it did not find reached its publication: \<open>s4\<close> is the
  controller when the publication began.
\<close>

lemma commit_stage_intent:
  assumes run: "commit_stage env request rnd count sn enabled (c, f, pc) (ser, ps) s = (outcome, s')"
    and old: "map_of (evidence_journal s) (IntentName k h) = None"
    and new: "map_of (evidence_journal s') (IntentName k h) = Some stored"
  obtains i sha selected s4 tail where
    "content stored = IntentDoc i"
    and "same_canonical canonical s s4"
    and "normalize_intent (hashes env) i = Inr i"
    and "intent_canonical_before i = snapshot_state sn"
    and "intent_commit_count i = count"
    and "selected_state i = transition_state selected"
    and "sbind (publication_stage env request rnd count sn selected c ser sha) tail s4
           = (outcome, s')"
proof -
  let ?select = "\<lambda>cmp. fst (select_transition c ser (snd cmp) count)"
  let ?template = "\<lambda>cmp cex after. template_of env request rnd count (snapshot_state sn) c f pc ser ps
     cmp enabled after cex"
  have left: "\<not> same_intents s s'" by (rule same_intents_new [OF old new])
  note run' = run [unfolded commit_stage_def prod.case Let_def]
  obtain cmp s1 where cmp: "comparison_stage env request rnd (snapshot_state sn) c f ser s = (Inr cmp, s1)"
    and rest: "sbind (gets (\<lambda>s. (held_counterexample s, \<not> quarantined s))) (\<lambda>(cex, enabled_after).
      sbind (assert_that (c \<noteq> None \<or> cex \<noteq> None) (RoundRefused LacksCounterexample)) (\<lambda>_.
      sbind (lift_result (normalize_intent (hashes env)
                  (intent_of (?template cmp cex enabled_after) sn (?select cmp) c ser))) (\<lambda>i.
         sbind (journal_call (preserve_intent (hashes env) i)) (\<lambda>intent_sha.
         sbind (publication_stage env request rnd count sn (?select cmp) c ser intent_sha) (\<lambda>after.
         sbind (cleanup_stage env request rnd (snapshot_state sn) c ser) (\<lambda>_.
         receipt_stage env (?template cmp cex enabled_after) intent_sha after)))))) s1 = (outcome, s')"
    and left1: "\<not> same_intents s1 s'"
    by (rule intents.sbind_left [OF run' left comparison_stage_intents])
  obtain cex after where rest': "sbind (assert_that (c \<noteq> None \<or> cex \<noteq> None) (RoundRefused LacksCounterexample)) (\<lambda>_.
      sbind (lift_result (normalize_intent (hashes env)
                  (intent_of (?template cmp cex after) sn (?select cmp) c ser))) (\<lambda>i.
         sbind (journal_call (preserve_intent (hashes env) i)) (\<lambda>intent_sha.
         sbind (publication_stage env request rnd count sn (?select cmp) c ser intent_sha) (\<lambda>published.
         sbind (cleanup_stage env request rnd (snapshot_state sn) c ser) (\<lambda>_.
         receipt_stage env (?template cmp cex after) intent_sha published))))) s1 = (outcome, s')"
    using rest by (auto simp: sbind_def)
  let ?i = "intent_of (?template cmp cex after) sn (?select cmp) c ser"
  obtain i s2 s3 where n: "normalize_intent (hashes env) ?i = Inr i"
    and rest2: "sbind (journal_call (preserve_intent (hashes env) i)) (\<lambda>intent_sha.
         sbind (publication_stage env request rnd count sn (?select cmp) c ser intent_sha) (\<lambda>published.
         sbind (cleanup_stage env request rnd (snapshot_state sn) c ser) (\<lambda>_.
         receipt_stage env (?template cmp cex after) intent_sha published))) s1 = (outcome, s')"
  proof (rule intents.sbind_left [OF rest' left1 intents.keeps_pure(5)], goal_cases)
    case (1 u s2)
    then have s2: "s2 = s1" by (simp add: action_simps)
    show ?case
      by (rule intents.sbind_left [OF 1(3) 1(4) intents.keeps_pure(3)])
         (rule 1(1), simp_all add: s2)
  qed
  have i: "i = ?i" using normalize_intent_Inr(1) [OF n] .
  obtain r5 s5 where j: "journal_call (preserve_intent (hashes env) i) s1 = (r5, s5)" by fastforce
  have s1: "map_of (evidence_journal s1) (IntentName k h) = None"
    using keepsD [OF comparison_stage_intents cmp] old by (simp add: same_intents_def)
  obtain sha where r5: "r5 = Inr sha"
  proof (cases r5)
    case (Inl e)
    then have "same_intents s1 s'"
      using rest2 j by (auto simp: sbind_def journal_call_def split: sum.splits prod.splits)
    then show ?thesis using left1 by simp
  qed
  note rest3 = rest2 [unfolded sbind_def [of "journal_call _"] j r5 prod.case sum.case]
  have "keeps same_intents (sbind (publication_stage env request rnd count sn (?select cmp) c ser sha)
     (\<lambda>published. sbind (cleanup_stage env request rnd (snapshot_state sn) c ser) (\<lambda>_.
         receipt_stage env (?template cmp cex after) sha published)))"
    by (intro intents.keeps_sbind publication_stage_intents cleanup_stage_intents
        receipt_stage_intents)
  from keepsD [OF this rest3] have "map_of (evidence_journal s5) (IntentName k h) = Some stored"
    using new by (simp add: same_intents_def)
  then have "content stored = IntentDoc i"
    using preserve_intent_new [OF j [unfolded r5] s1] by simp
  moreover have "same_canonical canonical s s5"
    using keepsD [OF comparison_stage_canonical cmp, of canonical]
      keepsD [OF journal_call_canonical j, of canonical] by (simp add: same_canonical_def)
  moreover have "normalize_intent (hashes env) i = Inr i" using n i by simp
  moreover have "intent_canonical_before i = snapshot_state sn" "intent_commit_count i = count"
    "selected_state i = transition_state (?select cmp)"
    by (simp_all add: i intent_of_def)
  ultimately show thesis using that rest3 by blast
qed

text \<open>
  A round that leaves an intent it did not find opened from the snapshot the intent names,
  and with a truthful driver that snapshot still was the canonical state when the
  publication began.
\<close>

lemma run_round_intent:
  fixes env :: "('w, 'p, 'm) controller_setup" and s s' :: "'w controller"
  assumes t: "truthful_driver (release_driver env) canonical"
    and run: "run_round env request rnd requested payload fallback s = (outcome, s')"
    and old: "map_of (evidence_journal s) (IntentName k h) = None"
    and new: "map_of (evidence_journal s') (IntentName k h) = Some stored"
  obtains sn c ser i sha selected s4 tail where
    "content stored = IntentDoc i"
    and "canonical (world s) = intent_canonical_before i"
    and "canonical (world s4) = intent_canonical_before i"
    and "snapshot_state sn = intent_canonical_before i"
    and "normalize_intent (hashes env) i = Inr i"
    and "selected_state i = transition_state selected"
    and "sbind (publication_stage env request rnd (intent_commit_count i) sn selected c ser sha)
           tail s4 = (outcome, s')"
proof -
  have left: "\<not> same_intents s s'" by (rule same_intents_new [OF old new])
  obtain sn s1 enabled where opn: "open_round env s = (Inr sn, s1)"
    and rest: "sbind (candidate_stage env request rnd sn payload requested enabled) (\<lambda>cand.
       sbind (serial_stage env request rnd sn payload (round_width requested fallback (fst cand)))
         (\<lambda>ser. commit_stage env request rnd (round_width requested fallback (fst cand)) sn enabled
            cand ser)) s1 = (outcome, s')"
  proof (rule intents.sbind_left [OF run [unfolded run_round_def] left check_request_intents],
      goal_cases)
    case (1 u s0)
    note hyp = 1(1)
    have s0: "s0 = s" using check_request_Inr [OF 1(2)] by simp
    show ?case
      by (rule intents.sbind_left [OF 1(3) 1(4) open_round_intents])
         (rule hyp, simp_all add: s0 sbind_def [of "gets _"] Let_def)
  qed
  have keep1: "same_intents s s1" by (rule keepsD [OF open_round_intents opn])
  obtain c f pc ser ps s2 s3 where cnd: "candidate_stage env request rnd sn payload requested enabled s1
       = (Inr (c, f, pc), s2)"
    and serl: "serial_stage env request rnd sn payload (round_width requested fallback c) s2
       = (Inr (ser, ps), s3)"
    and cmt: "commit_stage env request rnd (round_width requested fallback c) sn enabled
            (c, f, pc) (ser, ps) s3 = (outcome, s')"
  proof (rule intents.sbind_left [OF rest _ candidate_stage_intents], goal_cases)
    case 1
    then show ?case using keep1 left intents.trans by blast
  next
    case (2 cand s2)
    note hyp = 2(1) and cnd = 2(2)
    obtain c f pc where c: "cand = (c, f, pc)" by (cases cand) auto
    show ?case
    proof (rule intents.sbind_left [OF 2(3) 2(4) serial_stage_intents], goal_cases)
      case (1 ser s3)
      then show ?case using hyp [of c f pc s2 "fst ser" "snd ser" s3] cnd c by simp
    qed
  qed
  have "same_intents s s3"
    using keep1 keepsD [OF candidate_stage_intents cnd] keepsD [OF serial_stage_intents serl]
      intents.trans by blast
  then have old3: "map_of (evidence_journal s3) (IntentName k h) = None"
    using old by (simp add: same_intents_def)
  have before: "canonical (world s) = snapshot_state sn"
    using open_round_canonical [OF t opn] by simp
  have at3: "canonical (world s3) = snapshot_state sn" by (rule serial_stage_canonical [OF t serl])
  show thesis
  proof (rule commit_stage_intent [OF cmt old3 new, of canonical], goal_cases)
    case (1 i sha selected s4 tail)
    show ?case
      by (rule that [OF 1(1) _ _ _ 1(3) 1(6) 1(7) [folded 1(5)]])
         (use before at3 1(2,4) in \<open>simp_all add: same_canonical_def\<close>)
  qed
qed

subsection \<open>The gap\<close>

text \<open>
  The driver publishes the state \<open>after\<close> over the state \<open>before\<close>, in one step and really,
  but reports a state that does not normalize.
\<close>

definition misreports_publication ::
  "('w, 'p, 'm) transition_driver \<Rightarrow> ('w \<Rightarrow> live_state) \<Rightarrow> live_state \<Rightarrow> live_state \<Rightarrow> bool" where
  "misreports_publication d canonical before after \<longleftrightarrow>
     (\<forall>sn t sha w. snapshot_state sn = before \<longrightarrow> transition_state t = after \<longrightarrow>
        canonical w = before \<longrightarrow>
        (\<exists>p w'. publish_private d sn t sha w = (Inr p, w') \<and> atomic p
           \<and> isl (normalize_state (publication_state p)) \<and> canonical w' = after))"

lemma publication_stage_misreported:
  assumes bad: "misreports_publication (release_driver env) canonical (snapshot_state sn)
                  (transition_state selected)"
    and "count \<noteq> 0" and "canonical (world s) = snapshot_state sn"
  shows "\<exists>e w. publication_stage env request rnd count sn selected c ser sha s
             = (Inl (StateInvalid e), s\<lparr>world := w\<rparr>)
           \<and> canonical w = transition_state selected"
proof -
  obtain p w e where
    "publish_private (release_driver env) sn selected sha (world s) = (Inr p, w)"
    "atomic p" "normalize_state (publication_state p) = Inl e"
    "canonical w = transition_state selected"
    using bad [unfolded misreports_publication_def, rule_format, OF refl refl assms(3)]
    unfolding isl_def by blast
  then show ?thesis
    using assms(2)
    by (intro exI [of _ e] exI [of _ w])
       (simp add: publication_stage_def try_except_def driver_call_def sbind_def)
qed

text \<open>The state an intent selects is not the state it starts from.\<close>

lemma normalize_intent_moves:
  assumes "normalize_intent H i = Inr i'" and "0 < intent_commit_count i"
  shows "selected_state i \<noteq> intent_canonical_before i"
proof -
  let ?r = "receipt_of_template (intent_template i) zero_sha256 (selected_state i) True True True"
  obtain s where s: "seal_receipt H ?r = Inr s"
    using normalize_intent_Inr(3) [OF assms(1)] assms(2) by auto
  have "serial_advance_check ?r = Inr (serial_token_ids ?r)"
    using s by (auto simp: seal_receipt_Inr)
  note serial_advance_Inr [OF this]
  moreover have "intent_commit_count i = commit_count (intent_template i)"
    "intent_canonical_before i = canonical_before (intent_template i)"
    using normalize_intent_Inr(4) [OF assms(1)] by (simp_all add: intent_template_matches_def)
  ultimately show ?thesis
    using sealed_receipt_step(2) [OF s] assms(2) by auto
qed

lemma run_round_misreported:
  fixes env :: "('w, 'p, 'm) controller_setup" and s s' :: "'w controller"
  assumes t: "truthful_driver (release_driver env) canonical"
    and run: "run_round env request rnd requested payload fallback s = (outcome, s')"
    and old: "map_of (evidence_journal s) (IntentName k h) = None"
    and new: "map_of (evidence_journal s') (IntentName k h) = Some stored"
    and doc: "content stored = IntentDoc i" and pos: "0 < intent_commit_count i"
    and bad: "misreports_publication (release_driver env) canonical
                (intent_canonical_before i) (selected_state i)"
  shows "(\<exists>e. outcome = Inl (StateInvalid e))
    \<and> durable_receipts s' = durable_receipts s
    \<and> canonical (world s) = intent_canonical_before i
    \<and> canonical (world s') = selected_state i
    \<and> canonical (world s') \<noteq> canonical (world s)"
proof (rule run_round_intent [OF t run old new], goal_cases)
  case (1 sn c ser i' sha selected s4 tail)
  have i: "i' = i" using 1(1) doc by simp
  obtain e w where "publication_stage env request rnd (intent_commit_count i) sn selected c ser sha s4
       = (Inl (StateInvalid e), s4\<lparr>world := w\<rparr>)" and w: "canonical w = selected_state i"
    using publication_stage_misreported [of env canonical sn selected "intent_commit_count i" s4]
      bad pos 1(3,4,6) i by (metis less_numeral_extra(3))
  then have out: "outcome = Inl (StateInvalid e)" "s' = s4\<lparr>world := w\<rparr>"
    using 1(7) i by (simp_all add: sbind_def)
  have "evolves s s'" by (rule fails_keepingD [OF run_round_fails run [unfolded out(1)]])
  then show ?case
    using out w 1(2,5) i normalize_intent_moves pos by (auto simp: evolves_def)
qed

end
