(* ===== verification/Live_Recovery.thy ===== *)
theory Live_Recovery
  imports Controller_Session
begin

section \<open>Restart: replaying the journal and resolving an interrupted publication\<close>

text \<open>
  Model of the constructor of \<open>LiveCommitController\<close>
  (\<open>src/qwen_r9700_lab/live_commit_controller.py\<close>), of \<open>_validate_existing_recovery\<close>, of
  \<open>_recover_intent\<close> and of the two identity checks.  The constructor is
  \<open>authenticate_controller\<close> (capability, session, controller file, driver) followed by
  \<open>load_controller\<close> (receipts, recoveries, the at most one unresolved intent).
\<close>

subsection \<open>Identities\<close>

text \<open>
  \<open>same_file own declared\<close> is \<open>samefile\<close>, \<open>None\<close> when it raises; \<open>own_sha256\<close> is the
  digest of the running source file.
\<close>

definition verify_controller_identity ::
  "(string \<Rightarrow> string \<Rightarrow> bool option) \<Rightarrow> string \<Rightarrow> string \<Rightarrow> capability \<Rightarrow> controller_error + unit" where
  "verify_controller_identity same_file own_source own_sha256 cap =
     (case same_file own_source (artifact_path (controller_runtime cap)) of
        None \<Rightarrow> Inl (RestartRefused ControllerPathUnauthenticated)
      | Some same \<Rightarrow>
          require (same \<and> own_sha256 = artifact_sha256 (controller_runtime cap))
                  (RestartRefused ControllerIdentityDiffers))"

definition verify_driver_identity ::
  "('w, 'p, 'm) transition_driver \<Rightarrow> capability \<Rightarrow> controller_error + unit" where
  "verify_driver_identity d cap =
     require (driver_release_sha256 d = artifact_sha256 (release_runtime cap)
              \<and> driver_serial_sha256 d = artifact_sha256 (serial_oracle_runtime cap)
              \<and> driver_candidate_family d = cap_candidate_family cap
              \<and> driver_serial_family d = cap_serial_family cap)
             (RestartRefused DriverIdentityDiffers)"

record environment =
  tree_digest_of :: "(string \<times> string) list \<Rightarrow> string"
  capability_digest :: "capability \<Rightarrow> string"
  files :: file_system
  samefile :: "string \<Rightarrow> string \<Rightarrow> bool option"
  own_source :: string
  own_sha256 :: string

definition authenticate_controller ::
  "environment \<Rightarrow> controller_digests \<Rightarrow> capability sealed \<Rightarrow> ('w, 'p, 'm) transition_driver
   \<Rightarrow> string \<Rightarrow> controller_error + ('w, 'p, 'm) controller_setup" where
  "authenticate_controller sys H value d session_text =
     (case verify_capability (tree_digest_of sys) (capability_digest sys) (files sys) value of
        Inl _ \<Rightarrow> Inl CapabilityRefused
      | Inr cap \<Rightarrow>
          rbind (in_state (identifier_value session_text)) (\<lambda>_.
          rbind (verify_controller_identity (samefile sys) (own_source sys) (own_sha256 sys)
                   (body cap)) (\<lambda>_.
          rbind (verify_driver_identity d (body cap)) (\<lambda>_.
          Inr \<lparr>hashes = H, release_driver = d, capability_id = self_sha256 cap,
               controller_session = session_text\<rparr>))))"

subsection \<open>Replaying receipts and recoveries\<close>

text \<open>
  The loop over the loaded receipts; the accumulators are \<open>previous\<close>,
  \<open>candidate_quarantined\<close> and \<open>counterexample_sha256\<close>.
\<close>

fun replay_receipts ::
  "('w, 'p, 'm) controller_setup \<Rightarrow> int \<Rightarrow> receipt sealed list \<Rightarrow> live_state option \<Rightarrow> bool
   \<Rightarrow> string option \<Rightarrow> controller_error + bool \<times> string option" where
  "replay_receipts env index [] previous q cex = Inr (q, cex)"
| "replay_receipts env index (s # rest) previous q cex =
     (let r = body s
      in if round_index r \<noteq> index \<or> session_id r \<noteq> controller_session env
            \<or> capability_sha256 r \<noteq> capability_id env
         then Inl (RestartRefused ReceiptSequenceIdentity)
         else if (case previous of None \<Rightarrow> False | Some p \<Rightarrow> canonical_before r \<noteq> p)
         then Inl (RestartRefused ReceiptSequenceBroken)
         else if q \<and> mode r \<noteq> QuarantinedSerial
         then Inl (RestartRefused ReenabledQuarantinedCandidate)
         else replay_receipts env (index + 1) rest (Some (canonical_after r))
                (q \<or> \<not> candidate_enabled_after r)
                (case counterexample_sha256 r of None \<Rightarrow> cex | Some sha \<Rightarrow> Some sha))"

definition validate_existing_recovery ::
  "('w, 'p, 'm) controller_setup \<Rightarrow> journal \<Rightarrow> receipt sealed list \<Rightarrow> recovery
   \<Rightarrow> controller_error + unit" where
  "validate_existing_recovery env j rs recovery =
     rbind (load_intent_by_sha256 (hashes env) j (recovery_intent_sha256 recovery)) (\<lambda>i.
     if recovery_capability_sha256 recovery \<noteq> capability_id env
        \<or> recovery_session_id recovery \<noteq> controller_session env
        \<or> recovery_request_id recovery \<noteq> intent_request_id i
        \<or> recovery_round_index recovery \<noteq> intent_round_index i
     then Inl (RestartRefused RecoveryIdentityDiffers)
     else if recovery_canonical_state recovery \<noteq>
             (if recovery_disposition recovery = Committed then selected_state i
              else intent_canonical_before i)
     then Inl (RestartRefused RecoveryStateDiffers)
     else let matching = filter (\<lambda>s. publication_intent_sha256 (body s)
                                        = recovery_intent_sha256 recovery) rs
          in if recovery_disposition recovery = Committed \<and> length matching \<noteq> 1
             then Inl (RestartRefused CommittedWithoutReceipt)
             else if recovery_disposition recovery = RolledBack \<and> matching \<noteq> []
             then Inl (RestartRefused RolledBackWithReceipt)
             else Inr ())"

fun replay_recoveries ::
  "('w, 'p, 'm) controller_setup \<Rightarrow> journal \<Rightarrow> receipt sealed list \<Rightarrow> recovery list \<Rightarrow> bool
   \<Rightarrow> string option \<Rightarrow> controller_error + bool \<times> string option" where
  "replay_recoveries env j rs [] q cex = Inr (q, cex)"
| "replay_recoveries env j rs (v # vs) q cex =
     rbind (validate_existing_recovery env j rs v) (\<lambda>_.
     if recovery_disposition v = RolledBack
     then replay_recoveries env j rs vs True (recovery_counterexample_sha256 v)
     else replay_recoveries env j rs vs q cex)"

subsection \<open>Resolving one interrupted publication\<close>

definition rollback_counterexample ::
  "('w, 'p, 'm) controller_setup \<Rightarrow> intent \<Rightarrow> counterexample" where
  "rollback_counterexample env i =
     \<lparr>cex_schema = COUNTEREXAMPLE_SCHEMA, cex_capability_sha256 = capability_id env,
      cex_session_id = controller_session env, cex_request_id = intent_request_id i,
      cex_round_index = intent_round_index i,
      cex_canonical_before_sha256 = state_digest (hashes env) (intent_canonical_before i),
      cex_candidate_state_sha256 =
        map_option (state_digest (hashes env)) (candidate_state (intent_template i)),
      cex_candidate_token_ids = candidate_token_ids (intent_template i),
      cex_candidate_failure = Some (synthetic_failure (hashes env)
        ''publication.recovery_rollback''
        ''interrupted publication restored the prior canonical root''),
      cex_serial_state_sha256 = state_digest (hashes env) (serial_state (intent_template i)),
      cex_serial_token_ids = serial_token_ids (intent_template i),
      cex_first_difference = Some
        \<lparr>diff_name = StateField (DigestKey TransactionState),
         diff_left = DDigest (digests (selected_state i) TransactionState),
         diff_right = DDigest (digests (intent_canonical_before i) TransactionState)\<rparr>\<rparr>"

definition recovery_of ::
  "('w, 'p, 'm) controller_setup \<Rightarrow> intent \<Rightarrow> string \<Rightarrow> disposition \<Rightarrow> live_state \<Rightarrow> string option
   \<Rightarrow> recovery" where
  "recovery_of env i intent_sha verdict st cex =
     \<lparr>recovery_schema = PUBLICATION_RECOVERY_SCHEMA, recovery_intent_sha256 = intent_sha,
      recovery_capability_sha256 = capability_id env,
      recovery_session_id = controller_session env,
      recovery_request_id = intent_request_id i, recovery_round_index = intent_round_index i,
      recovery_disposition = verdict, recovery_canonical_state = st,
      recovery_publication_atomic = True, recovery_candidate_destroyed = True,
      recovery_serial_destroyed = True, recovery_counterexample_sha256 = cex\<rparr>"

text \<open>
  The driver's verdict on the interrupted publication, checked against the probe and the
  durable intent.
\<close>

definition ask_recovery_oracle ::
  "('w, 'p, 'm) controller_setup \<Rightarrow> intent \<Rightarrow> ('w, disposition \<times> live_state) controller_op" where
  "ask_recovery_oracle env i =
     sbind (try_except (driver_call (recover_publication (release_driver env) i))
       (\<lambda>error.
        sbind (record_fatal env (intent_request_id i) (intent_round_index i)
                 ''publication.recovery'' error (intent_canonical_before i)) (\<lambda>_.
        raise (RestartRefused RecoveryOracleFailed)))) (\<lambda>v.
     sbind (assert_that (recovered_atomic v
                \<and> recovered_disposition v \<in> {Committed, RolledBack}
                \<and> recovered_candidate_destroyed v \<and> recovered_serial_destroyed v)
              (RestartRefused IncompleteDriverRecovery)) (\<lambda>_.
     sbind (lift_result (in_state (normalize_state (recovered_state v)))) (\<lambda>st.
     sbind (probe_state env) (\<lambda>probe.
     sbind (assert_that (probe = st) (RestartRefused RecoveredProbeDiffers)) (\<lambda>_.
     sbind (assert_that (st = (if recovered_disposition v = Committed then selected_state i
                               else intent_canonical_before i))
              (RestartRefused RecoveredStateDiffers)) (\<lambda>_.
     ret (recovered_disposition v, st)))))))"

definition adopt_committed ::
  "('w, 'p, 'm) controller_setup \<Rightarrow> intent \<Rightarrow> string \<Rightarrow> live_state \<Rightarrow> ('w, unit) controller_op" where
  "adopt_committed env i intent_sha st =
     sbind (receipt_stage env (intent_template i) intent_sha st) (\<lambda>r.
     modify (\<lambda>s. if candidate_enabled_after (body r) then s
                  else s\<lparr>quarantined := True,
                         held_counterexample := counterexample_sha256 (body r)\<rparr>))"

definition adopt_rollback ::
  "('w, 'p, 'm) controller_setup \<Rightarrow> intent \<Rightarrow> ('w, string) controller_op" where
  "adopt_rollback env i =
     sbind (journal_call (preserve_counterexample (hashes env) (rollback_counterexample env i)))
       (\<lambda>sha.
     sbind (modify (\<lambda>s. s\<lparr>quarantined := True, held_counterexample := Some sha\<rparr>)) (\<lambda>_.
     ret sha))"

definition recover_intent ::
  "('w, 'p, 'm) controller_setup \<Rightarrow> intent \<Rightarrow> string \<Rightarrow> ('w, unit) controller_op" where
  "recover_intent env i intent_sha =
     sbind (gets durable_receipts) (\<lambda>rs.
     if intent_capability_sha256 i \<noteq> capability_id env
        \<or> intent_session_id i \<noteq> controller_session env
        \<or> intent_round_index i \<noteq> int (length rs)
     then raise (RestartRefused IntentIdentityDiffers)
     else if rs \<noteq> [] \<and> intent_canonical_before i \<noteq> canonical_after (body (last rs))
     then raise (RestartRefused IntentDoesNotExtendChain)
     else
     sbind (ask_recovery_oracle env i) (\<lambda>(verdict, st).
     sbind (if verdict = RolledBack
            then sbind (adopt_rollback env i) (\<lambda>sha. ret (Some sha))
            else sbind (adopt_committed env i intent_sha st) (\<lambda>_.
                 ret (intent_counterexample_sha256 i))) (\<lambda>cex.
     sbind (journal_call (preserve_recovery (hashes env)
              (recovery_of env i intent_sha verdict st cex))) (\<lambda>_.
     modify (\<lambda>s. s\<lparr>durable_recoveries := durable_recoveries s
                      @ [recovery_of env i intent_sha verdict st cex]\<rparr>)))))"

subsection \<open>The constructor\<close>

definition load_controller :: "('w, 'p, 'm) controller_setup \<Rightarrow> ('w, unit) controller_op" where
  "load_controller env =
     sbind (gets evidence_journal) (\<lambda>j.
     sbind (lift_result (load_receipts (hashes env) j)) (\<lambda>rs.
     sbind (lift_result (load_recoveries (hashes env) j)) (\<lambda>vs.
     sbind (lift_result (replay_receipts env 0 rs None False None)) (\<lambda>(q, cex).
     sbind (lift_result (replay_recoveries env j rs vs q cex)) (\<lambda>(q, cex).
     sbind (modify (\<lambda>s. s\<lparr>durable_receipts := rs, durable_recoveries := vs,
                           quarantined := q, held_counterexample := cex\<rparr>)) (\<lambda>_.
     sbind (lift_result (unresolved_intents (hashes env)
              (set (map (publication_intent_sha256 \<circ> body) rs)
               \<union> set (map recovery_intent_sha256 vs)) j)) (\<lambda>pending.
     case pending of
       [] \<Rightarrow> ret ()
     | [(sha, file)] \<Rightarrow>
         sbind (lift_result (load_intent (hashes env) file sha)) (\<lambda>i. recover_intent env i sha)
     | _ \<Rightarrow> raise (RestartRefused MultipleUnresolvedIntents))))))))"

definition open_controller ::
  "environment \<Rightarrow> controller_digests \<Rightarrow> capability sealed \<Rightarrow> ('w, 'p, 'm) transition_driver
   \<Rightarrow> string \<Rightarrow> ('w, ('w, 'p, 'm) controller_setup) controller_op" where
  "open_controller sys H value d session_text =
     sbind (lift_result (authenticate_controller sys H value d session_text)) (\<lambda>env.
     sbind (load_controller env) (\<lambda>_. ret env))"

subsection \<open>What a restart establishes\<close>

lemma replay_receipts_chain:
  assumes "replay_receipts env i rs previous q cex = Inr (q', cex')"
    and "previous = Some st \<or> previous = None \<and> rs \<noteq> [] \<and> st = canonical_before (body (hd rs))"
  shows "chain_receipts (controller_session env) (capability_id env) i rs (st, q)
         = Inr (if rs = [] then st else canonical_after (body (last rs)), q')"
  using assms
proof (induction env i rs previous q cex arbitrary: st rule: replay_receipts.induct)
  case (2 env index s rest previous q cex)
  have "\<not> (round_index (body s) \<noteq> index \<or> session_id (body s) \<noteq> controller_session env
            \<or> capability_sha256 (body s) \<noteq> capability_id env) \<and>
      \<not> (case previous of None \<Rightarrow> False | Some p \<Rightarrow> canonical_before (body s) \<noteq> p) \<and>
      \<not> (q \<and> mode (body s) \<noteq> QuarantinedSerial) \<and>
      replay_receipts env (index + 1) rest (Some (canonical_after (body s)))
        (q \<or> \<not> candidate_enabled_after (body s))
        (case counterexample_sha256 (body s) of None \<Rightarrow> cex | Some sha \<Rightarrow> Some sha)
      = Inr (q', cex')"
    using "2.prems"(1) unfolding replay_receipts.simps Let_def if_Inl_Inr_iff by blast
  note c = this
  note rest = conjunct2 [OF conjunct2 [OF conjunct2 [OF c]]]
  have ids: "round_index (body s) = index" "session_id (body s) = controller_session env"
      "capability_sha256 (body s) = capability_id env"
    using conjunct1 [OF c] by blast+
  have prev: "canonical_before (body s) = p" if "previous = Some p" for p
    using conjunct1 [OF conjunct2 [OF c]] that by simp
  note quar = conjunct1 [OF conjunct2 [OF conjunct2 [OF c]]]
  have "canonical_before (body s) = st"
    using prev "2.prems"(2) by auto
  moreover have "chain_receipts (controller_session env) (capability_id env) (index + 1) rest
      (canonical_after (body s), q \<or> \<not> candidate_enabled_after (body s))
      = Inr (if rest = [] then canonical_after (body s) else canonical_after (body (last rest)), q')"
    by (rule "2.IH" [OF refl conjunct1 [OF c] conjunct1 [OF conjunct2 [OF c]] quar rest]) simp
  ultimately show ?case using ids quar by simp
qed simp

lemma replay_recoveries_quarantine:
  "replay_recoveries env j rs vs q cex = Inr (q', cex') \<Longrightarrow> q \<Longrightarrow> q'"
  by (induction env j rs vs q cex rule: replay_recoveries.induct)
     (auto simp: result_simps split: if_splits)

lemma replayed_invariant:
  assumes "load_receipts (hashes env) j = Inr rs"
    and "replay_receipts env 0 rs None False None = Inr (q0, c0)"
    and "replay_recoveries env j rs vs q0 c0 = Inr (q, c)"
    and "durable_receipts s = rs" and "quarantined s = q"
  shows "controller_invariant env s"
proof -
  have "\<forall>r \<in> set rs. seal_receipt (hashes env) (body r) = Inr r"
    using load_receipts_Inr(1) [OF assms(1)] seal_receipt_verified(2) by blast
  moreover have "chain_receipts (controller_session env) (capability_id env) 0 rs
      (canonical_before (body (hd rs)), False) = Inr (canonical_after (body (last rs)), q0)"
    if "rs \<noteq> []"
    using replay_receipts_chain [OF assms(2)] that by simp
  moreover have "q0 \<longrightarrow> q" using replay_recoveries_quarantine [OF assms(3)] by blast
  ultimately show ?thesis using assms(4,5) by (auto simp: controller_invariant_def)
qed

text \<open>
  A rolled-back publication leaves the chain as it was and quarantines the candidate; a
  committed one appends the receipt the interrupted round would have sealed.
\<close>

lemma ask_recovery_oracle_Inr:
  assumes "ask_recovery_oracle env i s = (Inr (verdict, st), s')"
  shows "verdict = Committed \<and> st = selected_state i
       \<or> verdict = RolledBack \<and> st = intent_canonical_before i"
    and "steady s s'"
proof -
  show "verdict = Committed \<and> st = selected_state i
       \<or> verdict = RolledBack \<and> st = intent_canonical_before i"
    using assms by (auto simp: ask_recovery_oracle_def action_simps split: if_splits)
  have k: "keeps steady (ask_recovery_oracle env i)"
    unfolding ask_recovery_oracle_def
    by (intro steady.keeps_try_except steady.keeps_sbind steady.keeps_pure driver_call_steady
        record_fatal_steady probe_state_steady)
  show "steady s s'" by (rule keepsD [OF k assms])
qed

lemma preserve_recovery_steady: "keeps steady (journal_call (preserve_recovery H v))"
  by (rule journal_call_steady) (auto dest: preserve_extends)

lemma recover_intent_rolled_back:
  fixes s s' :: "'w controller"
  assumes "recover_intent env i sha s = (Inr (), s')"
    and "ask_recovery_oracle env i s = (Inr (RolledBack, st), s1)"
  shows "durable_receipts s' = durable_receipts s" and "quarantined s'"
    and "st = intent_canonical_before i"
proof -
  have s1: "steady s s1" and "st = intent_canonical_before i"
    using ask_recovery_oracle_Inr [OF assms(2)] by auto
  then show "st = intent_canonical_before i" by simp
  from assms obtain x j s2 s3 where
    a: "journal_call (preserve_counterexample (hashes env) (rollback_counterexample env i)) s1
          = (Inr x, s2)"
    and b: "journal_call (preserve_recovery (hashes env)
              (recovery_of env i sha RolledBack st (Some x)))
              (s2\<lparr>quarantined := True, held_counterexample := Some x\<rparr>) = (Inr j, s3)"
    and c: "s' = s3\<lparr>durable_recoveries := durable_recoveries s3
                      @ [recovery_of env i sha RolledBack st (Some x)]\<rparr>"
    by (auto simp: recover_intent_def adopt_rollback_def action_simps split: if_splits)
  show "durable_receipts s' = durable_receipts s" "quarantined s'"
    using s1 keepsD [OF preserve_steady(1) a] keepsD [OF preserve_recovery_steady b]
    by (simp_all add: c steady_def)
qed

lemma recover_intent_committed:
  fixes s s' :: "'w controller"
  assumes "recover_intent env i sha s = (Inr (), s')"
    and "ask_recovery_oracle env i s = (Inr (Committed, st), s1)"
  shows "st = selected_state i"
    and "\<exists>r. durable_receipts s' = durable_receipts s @ [r]
           \<and> seal_receipt (hashes env) (body r) = Inr r
           \<and> canonical_after (body r) = selected_state i
           \<and> receipt_template.truncate (body r) = intent_template i"
proof -
  have s1: "steady s s1" and st: "st = selected_state i"
    using ask_recovery_oracle_Inr [OF assms(2)] by auto
  then show "st = selected_state i" by simp
  from assms obtain r s2 j s3 where
    a: "receipt_stage env (intent_template i) sha st s1 = (Inr r, s2)"
    and b: "journal_call (preserve_recovery (hashes env)
              (recovery_of env i sha Committed st (intent_counterexample_sha256 i)))
              (if candidate_enabled_after (body r) then s2
               else s2\<lparr>quarantined := True,
                       held_counterexample := counterexample_sha256 (body r)\<rparr>) = (Inr j, s3)"
    and c: "s' = s3\<lparr>durable_recoveries := durable_recoveries s3
               @ [recovery_of env i sha Committed st (intent_counterexample_sha256 i)]\<rparr>"
    by (auto simp: recover_intent_def adopt_committed_def action_simps split: if_splits)
  have "durable_receipts s' = durable_receipts s2"
    using keepsD [OF preserve_recovery_steady b] by (simp add: c steady_def split: if_splits)
  moreover note rc = receipt_stage_Inr [OF a]
  moreover have "body r = receipt_of_template (intent_template i) sha st True True True"
    using rc(1) seal_receipt_body by metis
  ultimately show "\<exists>r. durable_receipts s' = durable_receipts s @ [r]
           \<and> seal_receipt (hashes env) (body r) = Inr r
           \<and> canonical_after (body r) = selected_state i
           \<and> receipt_template.truncate (body r) = intent_template i"
    using s1 st by (auto simp: steady_def)
qed

end
