(* ===== verification/Demo_Driver.thy ===== *)
theory Demo_Driver
  imports Controller_Session
begin

section \<open>A concrete driver\<close>

text \<open>
  A driver whose own state is the canonical live state, used to evaluate the controller
  on concrete rounds.  Its serial implementation appends the token 7; its candidate
  implementation appends the token it is given, so that the token 7 is accepted and any
  other token is a mismatch.  All digests are the constant \<open>zero_sha256\<close>.
\<close>

definition one_sha256 :: string where
  "one_sha256 = replicate 64 CHR ''1''"

lemma is_sha256_one [simp]: "is_sha256 one_sha256"
  by (simp add: is_sha256_def one_sha256_def list_all_iff)

lemma one_not_zero [simp]: "one_sha256 \<noteq> zero_sha256"
proof -
  have "hd one_sha256 \<noteq> hd zero_sha256" by (simp add: one_sha256_def zero_sha256_def)
  then show ?thesis by metis
qed

definition demo_hashes :: controller_digests where
  "demo_hashes =
     \<lparr>state_digest = (\<lambda>_. zero_sha256), comparison_digest = (\<lambda>_. zero_sha256),
      receipt_digest = (\<lambda>_. zero_sha256), ledger_digest = (\<lambda>_. zero_sha256),
      intent_digest = (\<lambda>_. zero_sha256), counterexample_digest = (\<lambda>_. zero_sha256),
      fatal_digest = (\<lambda>_. zero_sha256), recovery_digest = (\<lambda>_. zero_sha256),
      text_digest = (\<lambda>_. zero_sha256), message_digest = (\<lambda>_. zero_sha256),
      traceback_digest = (\<lambda>_. zero_sha256)\<rparr>"

definition demo_before :: live_state where "demo_before = sample_state zero_sha256 0 4"
definition demo_after :: live_state where "demo_after = sample_state one_sha256 1 5"

definition demo_transition :: "string \<Rightarrow> string \<Rightarrow> int \<Rightarrow> unit private_transition" where
  "demo_transition handle family token =
     \<lparr>transition_handle = handle, implementation_family = family, transition_tokens = [token],
      transition_state = demo_after, model_output = ()\<rparr>"

definition demo_driver :: "int \<Rightarrow> (live_state, unit, unit) transition_driver" where
  "demo_driver candidate_token =
     \<lparr>driver_release_sha256 = zero_sha256, driver_serial_sha256 = one_sha256,
      driver_candidate_family = ''fused'', driver_serial_family = ''serial_oracle'',
      snapshot_canonical = (\<lambda>w. (Inr \<lparr>snapshot_handle = ''root'', snapshot_state = w\<rparr>, w)),
      probe_canonical = (\<lambda>w. (Inr w, w)),
      execute_candidate = (\<lambda>sn _ _ w. (Inr (demo_transition ''c0'' ''fused'' candidate_token), w)),
      execute_serial = (\<lambda>sn _ _ w. (Inr (demo_transition ''s0'' ''serial_oracle'' 7), w)),
      publish_private = (\<lambda>sn t _ w.
        (Inr \<lparr>publication_state = transition_state t, atomic = True\<rparr>, transition_state t)),
      restore_canonical = (\<lambda>sn w.
        (Inr \<lparr>publication_state = snapshot_state sn, atomic = True\<rparr>, snapshot_state sn)),
      destroy_private = (\<lambda>_ w. (Inr (), w)),
      cleanup_failed_private = (\<lambda>_ _ _ _ w. (Inr (), w)),
      recover_publication = (\<lambda>i w.
        (Inr \<lparr>recovered_state = w, recovered_atomic = True, recovered_disposition = RolledBack,
              recovered_candidate_destroyed = True, recovered_serial_destroyed = True\<rparr>, w))\<rparr>"

definition demo_env :: "int \<Rightarrow> (live_state, unit, unit) controller_setup" where
  "demo_env candidate_token =
     \<lparr>hashes = demo_hashes, release_driver = demo_driver candidate_token,
      capability_id = zero_sha256, controller_session = ''session''\<rparr>"

definition demo_start :: "live_state controller" where
  "demo_start = fresh_controller demo_before"

lemma demo_states [simp]:
  "normal_state demo_before" "normal_state demo_after"
  "commit_epoch demo_before = 0" "commit_epoch demo_after = 1"
  "logical_length demo_before = 4" "logical_length demo_after = 5"
  "digests demo_before CommittedTokenPrefix = zero_sha256"
  "digests demo_after CommittedTokenPrefix = one_sha256"
  by (simp_all add: demo_before_def demo_after_def)

lemma demo_normalize [simp]:
  "normalize_state demo_before = Inr demo_before" "normalize_state demo_after = Inr demo_after"
  using demo_states(1,2) by (simp_all add: normal_state_def)

lemma demo_before_after [simp]: "demo_before \<noteq> demo_after" "demo_after \<noteq> demo_before"
  using demo_states(3,4) by force+

lemma demo_env_simps [simp]:
  "hashes (demo_env k) = demo_hashes" "release_driver (demo_env k) = demo_driver k"
  "capability_id (demo_env k) = zero_sha256" "controller_session (demo_env k) = ''session''"
  by (simp_all add: demo_env_def)

lemma demo_digests [simp]:
  "state_digest demo_hashes st = zero_sha256" "comparison_digest demo_hashes c = zero_sha256"
  "receipt_digest demo_hashes r = zero_sha256" "ledger_digest demo_hashes l = zero_sha256"
  "intent_digest demo_hashes i = zero_sha256" "counterexample_digest demo_hashes x = zero_sha256"
  "fatal_digest demo_hashes f = zero_sha256" "recovery_digest demo_hashes v = zero_sha256"
  by (simp_all add: demo_hashes_def)

lemma demo_identifiers [simp]:
  "identifier_value ''request'' = Inr ()" "identifier_value ''session'' = Inr ()"
  "identifier_value ''root'' = Inr ()" "identifier_value ''c0'' = Inr ()"
  "identifier_value ''s0'' = Inr ()"
  by (simp_all add: identifier_value_def is_space_def)

lemmas demo_eval =
  sbind_def try_except_def assert_that_def driver_call_def journal_call_def journal_write_def
  probe_state_def take_snapshot_def require_unchanged_def check_transition_def

lemma demo_request [simp]:
  "check_request ''request'' 0 (Some 1) None demo_start = (Inr (), demo_start)"
  by (simp add: check_request_def COMMIT_COUNTS_def demo_start_def fresh_controller_def)

definition demo_snapshot :: canonical_snapshot where
  "demo_snapshot = \<lparr>snapshot_handle = ''root'', snapshot_state = demo_before\<rparr>"

lemma demo_open [simp]: "open_round (demo_env k) demo_start = (Inr demo_snapshot, demo_start)"
  by (simp add: open_round_def demo_eval demo_driver_def demo_start_def fresh_controller_def
      demo_snapshot_def)

lemma demo_candidate [simp]:
  "0 \<le> k \<Longrightarrow> candidate_stage (demo_env k) ''request'' 0 demo_snapshot () (Some 1) True demo_start =
     (Inr (Some (demo_transition ''c0'' ''fused'' k), None, zero_sha256), demo_start)"
  by (simp add: candidate_stage_def demo_eval demo_driver_def demo_start_def fresh_controller_def
      demo_snapshot_def demo_transition_def)

lemma demo_serial [simp]:
  "serial_stage (demo_env k) ''request'' 0 demo_snapshot () 1 demo_start =
     (Inr (demo_transition ''s0'' ''serial_oracle'' 7, zero_sha256), demo_start)"
  by (simp add: serial_stage_def demo_eval demo_driver_def demo_start_def fresh_controller_def
      demo_snapshot_def demo_transition_def)

lemma demo_sha [simp]: "sha256_value zero_sha256 = Inr ()" "sha256_value one_sha256 = Inr ()"
  by (simp_all add: sha256_value_def)

text \<open>A round that validates the candidate, and one that rejects it.\<close>

lemma demo_compare [simp]:
  "actual_difference [k] demo_after [7] demo_after =
     Inr (if k = 7 then None else Some \<lparr>diff_name = CommittedTokenIds, diff_left = DTokens [k],
                                          diff_right = DTokens [7]\<rparr>)"
  by (simp add: actual_difference_def first_state_difference_def scan_sorted_None_iff)

lemma demo_commit:
  assumes "k = 7 \<or> k = 8"
  shows "\<exists>r s'. commit_stage (demo_env k) ''request'' 0 1 demo_snapshot True
         (Some (demo_transition ''c0'' ''fused'' k), None, zero_sha256)
         (demo_transition ''s0'' ''serial_oracle'' 7, zero_sha256) demo_start = (Inr r, s')
       \<and> quarantined s' = (k \<noteq> 7) \<and> world s' = demo_after
       \<and> map_of (evidence_journal s') (LedgerName zero_sha256) = None"
  using assms
  apply (elim disjE)
   apply (simp_all add: commit_stage_def comparison_stage_def compare_transitions_def demo_eval
      demo_transition_def demo_snapshot_def demo_start_def fresh_controller_def
      select_transition_def template_of_def intent_of_def Let_def round_mode_def
      preserve_counterexample_def publish_evidence_def counterexample_of_def
      normalize_intent_def intent_fields_check_def COMMIT_COUNTS_def
      seal_receipt_def receipt_of_template_def receipt_template.defs receipt.defs
      receipt_header_check_def check_all.simps optional_identifier_def serial_advance_check_def
      token_ids_of_def normalize_candidate_failure_def normalize_difference_def
      receipt_outcome_def validated_candidate_outcome_def optional_sha256_def serial_or_unchanged_def
      intent_template_matches_def preserve_intent_def
      publication_stage_def demo_driver_def cleanup_stage_def receipt_stage_def preserve_receipt_def)
  done

lemma demo_round:
  assumes "k = 7 \<or> k = 8"
  shows "\<exists>r s'. run_round (demo_env k) ''request'' 0 (Some 1) () None demo_start = (Inr r, s')
       \<and> quarantined s' = (k \<noteq> 7) \<and> world s' = demo_after
       \<and> map_of (evidence_journal s') (LedgerName zero_sha256) = None"
proof -
  have "\<not> quarantined demo_start" "0 \<le> k"
    using assms by (auto simp: demo_start_def fresh_controller_def)
  then show ?thesis
    using demo_commit [OF assms] by (simp add: run_round_def sbind_def round_width_def)
qed

end
