(* ===== verification/Commit_Properties.thy ===== *)
theory Commit_Properties
  imports Publication_Gap Live_Recovery Demo_Driver
begin

section \<open>Properties of validated commits\<close>

text \<open>
  The properties of receipts, ledgers, rounds, sessions and restarts, each with an
  instance on the concrete driver of \<open>Demo_Driver\<close>.
\<close>

subsection \<open>Concrete receipts\<close>

text \<open>
  A round in which the candidate proposed the token 9 instead of 7, and the quarantined
  round without tokens that follows it.
\<close>

definition demo_mismatch :: difference where
  "demo_mismatch = \<lparr>diff_name = CommittedTokenIds, diff_left = DTokens [9],
                    diff_right = DTokens [7]\<rparr>"

definition demo_receipt :: receipt where
  "demo_receipt =
     \<lparr>schema = RECEIPT_SCHEMA, capability_sha256 = zero_sha256, session_id = ''session'',
      request_id = ''request'', round_index = 0, commit_count = 1, mode = ValidatedCandidate,
      candidate_enabled_before = True, candidate_enabled_after = False,
      canonical_before = demo_before, candidate_state = Some demo_after,
      candidate_token_ids = Some [9], candidate_failure = None, serial_state = demo_after,
      serial_token_ids = [7], canonical_probe_after_candidate_sha256 = zero_sha256,
      canonical_probe_after_serial_sha256 = zero_sha256, comparison_equal = False,
      first_difference = Some demo_mismatch, publication_source = FromSerial,
      counterexample_sha256 = Some zero_sha256, comparison_sha256 = zero_sha256,
      publication_intent_sha256 = zero_sha256, canonical_after = demo_after,
      publication_atomic = True, candidate_private_state_destroyed = True,
      serial_private_state_destroyed = True\<rparr>"

definition demo_receipt_serial :: receipt where
  "demo_receipt_serial = demo_receipt\<lparr>round_index := 1, commit_count := 0, mode := QuarantinedSerial,
      candidate_enabled_before := False, canonical_before := demo_after, candidate_state := None,
      candidate_token_ids := None, serial_token_ids := [], first_difference := None,
      publication_source := Unchanged\<rparr>"

definition demo_ledger :: ledger where
  "demo_ledger =
     \<lparr>ledger_schema = LEDGER_SCHEMA, ledger_capability_sha256 = zero_sha256,
      ledger_session_id = ''session'', initial_state = demo_before,
      receipts = [\<lparr>body = demo_receipt, self_sha256 = zero_sha256\<rparr>,
                  \<lparr>body = demo_receipt_serial, self_sha256 = zero_sha256\<rparr>],
      final_state = demo_after, candidate_quarantined = True, request_complete = True,
      classification = RUNTIME_CLASSIFICATION,
      universal_guarantee_mechanism = SERIAL_MECHANISM\<rparr>"

lemmas seal_eval =
  seal_receipt_def receipt_header_check_def COMMIT_COUNTS_def serial_advance_check_def
  token_ids_of_def normalize_candidate_failure_def normalize_difference_def outcome_defs
  optional_sha256_def actual_difference_def

lemma demo_receipt_seals:
  "seal_receipt demo_hashes demo_receipt = Inr \<lparr>body = demo_receipt, self_sha256 = zero_sha256\<rparr>"
  by (simp add: seal_eval demo_receipt_def demo_mismatch_def)

lemma demo_receipt_serial_seals:
  "seal_receipt demo_hashes demo_receipt_serial =
     Inr \<lparr>body = demo_receipt_serial, self_sha256 = zero_sha256\<rparr>"
  by (simp add: seal_eval demo_receipt_serial_def demo_receipt_def)

lemma demo_ledger_seals:
  "seal_ledger demo_hashes demo_ledger = Inr \<lparr>body = demo_ledger, self_sha256 = zero_sha256\<rparr>"
  by (simp add: seal_ledger_Inr demo_ledger_def verify_receipt_def demo_receipt_seals
      demo_receipt_serial_seals)
     (simp add: demo_receipt_serial_def demo_receipt_def)

subsection \<open>Receipts and ledgers\<close>

text \<open>
  C1: a receipt that seals publishes exactly the state and the tokens of the independent
  serial transition, whatever its mode: the published state is the serial state, the
  length and the epoch account for its at most eight tokens, and the candidate stays
  enabled only if its tokens and its complete state were equal to the serial ones.
\<close>

theorem receipt_publishes_serial:
  assumes "seal_receipt H r = Inr s"
  shows "canonical_after r = serial_state r
    \<and> int (length (serial_token_ids r)) = commit_count r \<and> commit_count r \<le> 8
    \<and> logical_length (canonical_after r) = logical_length (canonical_before r) + commit_count r
    \<and> commit_epoch (canonical_after r) =
        commit_epoch (canonical_before r) + of_bool (commit_count r > 0)
    \<and> (\<not> candidate_enabled_after r \<or>
         candidate_state r = Some (serial_state r) \<and>
         candidate_token_ids r = Some (serial_token_ids r))"
proof -
  from assms have adv: "serial_advance_check r = Inr (serial_token_ids r)"
    and hdr: "receipt_header_check H r = Inr ()"
    and out: "receipt_outcome r = Inr (publication_source r, canonical_after r)"
    by (auto simp: seal_receipt_Inr)
  show ?thesis
    using sealed_receipt_step(2) [OF assms] serial_advance_Inr [OF adv]
      header_commit_count [OF hdr] receipt_outcome_modes(1) [OF out] by auto
qed

theorem receipt_publishes_serial_witness:
  "canonical_after demo_receipt = serial_state demo_receipt
   \<and> serial_token_ids demo_receipt = [7] \<and> candidate_token_ids demo_receipt = Some [9]"
  using receipt_publishes_serial [OF demo_receipt_seals] by (simp add: demo_receipt_def)

text \<open>
  C2: a ledger that seals is a run of the serial program from its initial to its final
  state: every receipt is one serial step, and the final length and epoch are the initial
  ones plus the number of committed tokens and of nonempty commits.
\<close>

theorem ledger_is_serial_run:
  assumes "seal_ledger H l = Inr s"
  shows "serial_run (initial_state l) (map body (receipts l)) (final_state l)
    \<and> logical_length (final_state l) = logical_length (initial_state l)
        + int (length (concat (map (serial_token_ids \<circ> body) (receipts l))))
    \<and> commit_epoch (final_state l) = commit_epoch (initial_state l)
        + int (length (filter (\<lambda>x. serial_token_ids (body x) \<noteq> []) (receipts l)))"
proof -
  from assms have "chain_receipts (ledger_session_id l) (ledger_capability_sha256 l) 0 (receipts l)
       (initial_state l, False) = Inr (final_state l, candidate_quarantined l)"
    "\<forall>x \<in> set (receipts l). verify_receipt H x = Inr x"
    by (auto simp: seal_ledger_Inr)
  then have run: "serial_run (initial_state l) (map body (receipts l)) (final_state l)"
    by (rule chain_receipts_run)
  then show ?thesis
    using serial_run_totals [OF run] by (simp add: filter_map o_def)
qed

theorem ledger_is_serial_run_witness:
  "serial_run demo_before [demo_receipt, demo_receipt_serial] demo_after"
  using ledger_is_serial_run [OF demo_ledger_seals] by (simp add: demo_ledger_def)

text \<open>
  C3: quarantine is one-way in a sealed ledger: after a receipt that disabled the
  candidate every later receipt is a quarantined serial one, and the ledger says so.
\<close>

theorem ledger_quarantine_one_way:
  assumes "seal_ledger H l = Inr s" and "receipts l = xs @ x # ys"
    and "\<not> candidate_enabled_after (body x)"
  shows "(\<forall>y \<in> set ys. mode (body y) = QuarantinedSerial) \<and> candidate_quarantined l"
proof -
  have chain: "chain_receipts (ledger_session_id l) (ledger_capability_sha256 l) 0 (xs @ x # ys)
       (initial_state l, False) = Inr (final_state l, candidate_quarantined l)"
    using assms(1,2) by (simp add: seal_ledger_Inr)
  show ?thesis
    using chain_receipts_one_way [OF chain assms(3)] chain_receipts_flag [OF chain] assms(3) by simp
qed

theorem ledger_quarantine_one_way_witness:
  "mode demo_receipt_serial = QuarantinedSerial \<and> candidate_quarantined demo_ledger"
  using ledger_quarantine_one_way [OF demo_ledger_seals, of "[]"
      "\<lparr>body = demo_receipt, self_sha256 = zero_sha256\<rparr>"
      "[\<lparr>body = demo_receipt_serial, self_sha256 = zero_sha256\<rparr>]"]
  by (simp add: demo_ledger_def demo_receipt_def)

subsection \<open>Rounds\<close>

text \<open>
  C4: a round that returns has published the serial result, whatever the driver did: its
  receipt seals, extends the durable chain by one, and publishes the serial state; the
  candidate stays enabled exactly if the controller is not quarantined, and a quarantined
  controller never leaves quarantine.
\<close>

theorem round_publishes_serial:
  assumes "run_round env request rnd requested payload fallback s = (Inr r, s')"
  shows "seal_receipt (hashes env) (body r) = Inr r
    \<and> canonical_after (body r) = serial_state (body r)
    \<and> durable_receipts s' = durable_receipts s @ [r]
    \<and> round_index (body r) = int (length (durable_receipts s))
    \<and> (durable_receipts s = [] \<or>
         canonical_before (body r) = canonical_after (body (last (durable_receipts s))))
    \<and> (candidate_enabled_after (body r) \<longleftrightarrow> \<not> quarantined s')
    \<and> (mode (body r) = QuarantinedSerial \<longleftrightarrow> quarantined s)
    \<and> (\<not> quarantined s \<or> quarantined s')
    \<and> (\<exists>file. map_of (evidence_journal s') (ReceiptName rnd (self_sha256 r)) = Some file
               \<and> content file = ReceiptDoc r)"
proof -
  note f = run_round_receipt_facts [OF assms]
  have "\<exists>file. map_of (evidence_journal s') (ReceiptName rnd (self_sha256 r)) = Some file
               \<and> content file = ReceiptDoc r"
    by (rule run_round_Inr [OF assms])
  then show ?thesis using f sealed_receipt_step(2) [OF f(1)] by auto
qed

theorem round_publishes_serial_witness:
  "\<exists>r s'. run_round (demo_env 8) ''request'' 0 (Some 1) () None demo_start = (Inr r, s')
     \<and> canonical_after (body r) = serial_state (body r) \<and> quarantined s'
     \<and> \<not> candidate_enabled_after (body r)"
proof -
  obtain r s' where run: "run_round (demo_env 8) ''request'' 0 (Some 1) () None demo_start = (Inr r, s')"
    and "quarantined s'"
    using demo_round [of 8] by auto
  then show ?thesis using round_publishes_serial [OF run] by auto
qed

text \<open>
  C5: a round that rejects its candidate leaves a durable counterexample: the receipt and
  the controller name it, and the document in the journal shows the serial tokens, and
  either the candidate's tokens or its failure.
\<close>

theorem rejected_candidate_leaves_evidence:
  assumes "run_round env request rnd requested payload fallback s = (Inr r, s')"
    and "\<not> quarantined s" and "quarantined s'"
  shows "\<exists>sha file x. held_counterexample s' = Some sha
    \<and> counterexample_sha256 (body r) = Some sha
    \<and> map_of (evidence_journal s') (CounterexampleName sha) = Some file
    \<and> content file = CounterexampleDoc x
    \<and> cex_serial_token_ids x = serial_token_ids (body r)
    \<and> cex_candidate_token_ids x = candidate_token_ids (body r)
    \<and> cex_candidate_failure x = candidate_failure (body r)"
proof -
  let ?P = "\<exists>sha file x. held_counterexample s' = Some sha
    \<and> counterexample_sha256 (body r) = Some sha
    \<and> map_of (evidence_journal s') (CounterexampleName sha) = Some file
    \<and> content file = CounterexampleDoc x
    \<and> cex_serial_token_ids x = serial_token_ids (body r)
    \<and> cex_candidate_token_ids x = candidate_token_ids (body r)
    \<and> cex_candidate_failure x = candidate_failure (body r)"
  show ?P
  proof (rule run_round_Inr [OF assms(1)], goal_cases)
    case (1 sn c f pc ser ps d eq s2 s4 sha)
    let ?t = "template_of env request rnd (round_width requested fallback c) (snapshot_state sn)
              c f pc ser ps (d, eq) (\<not> quarantined s) (\<not> quarantined s4) (held_counterexample s4)"
    have b: "body r = receipt_of_template ?t sha (canonical_after (body r)) True True True"
      using seal_receipt_body [OF 1(7)] by simp
    have sel: "serial_token_ids (body r) = transition_tokens ser"
      "candidate_token_ids (body r) = map_option transition_tokens c"
      "candidate_failure (body r) = f"
      "counterexample_sha256 (body r) =
         (if c \<noteq> None \<and> eq then None else held_counterexample s4)"
      by (subst b, simp add: template_of_def Let_def)+
    have bad: "f \<noteq> None \<or> c \<noteq> None \<and> \<not> eq" using 1(8,9) assms(2,3) by auto
    then have "\<not> (c \<noteq> None \<and> eq)" using 1(5) by auto
    then have cex: "counterexample_sha256 (body r) = held_counterexample s4"
      using sel(4) by (simp only: if_False)
    obtain stored h where h: "held_counterexample s4 = Some h"
      "map_of (evidence_journal s4) (CounterexampleName h) = Some stored"
      "content stored = CounterexampleDoc
         (counterexample_of env request rnd (snapshot_state sn) c ser f d)"
      using comparison_stage_Inr(3) [OF 1(6) bad] by blast
    moreover have "map_of (evidence_journal s') (CounterexampleName h) = Some stored"
      using h(2) 1(13) by (simp add: journal_extends_def)
    ultimately show ?case
      using 1(10) sel(1-3) cex
      by (intro exI [of _ h] exI [of _ stored]
          exI [of _ "counterexample_of env request rnd (snapshot_state sn) c ser f d"])
         (simp add: counterexample_of_def)
  qed
qed

theorem rejected_candidate_leaves_evidence_witness:
  "\<exists>r s' sha file x. run_round (demo_env 8) ''request'' 0 (Some 1) () None demo_start = (Inr r, s')
     \<and> held_counterexample s' = Some sha
     \<and> map_of (evidence_journal s') (CounterexampleName sha) = Some file
     \<and> content file = CounterexampleDoc x
     \<and> cex_candidate_token_ids x = candidate_token_ids (body r)"
proof -
  obtain r s' where run: "run_round (demo_env 8) ''request'' 0 (Some 1) () None demo_start = (Inr r, s')"
    and q: "quarantined s'"
    using demo_round [of 8] by auto
  have "\<not> quarantined demo_start" by (simp add: demo_start_def fresh_controller_def)
  then show ?thesis using rejected_candidate_leaves_evidence [OF run _ q] run by blast
qed

text \<open>
  C6: with a driver whose probe tells the truth, a round that returns takes the canonical
  state from the receipt's \<open>canonical_before\<close> to the serial state of the receipt.
\<close>

theorem round_moves_canonical_to_serial:
  assumes "truthful_driver (release_driver env) canonical"
    and "run_round env request rnd requested payload fallback s = (Inr r, s')"
  shows "canonical (world s) = canonical_before (body r)
    \<and> canonical (world s') = serial_state (body r)"
  using run_round_canonical [OF assms] run_round_receipt_facts(1) [OF assms(2)]
    sealed_receipt_step(2) by fastforce

lemma demo_truthful: "truthful_driver (demo_driver k) (\<lambda>w. w)"
  by (simp add: truthful_driver_def demo_driver_def)

theorem round_moves_canonical_to_serial_witness:
  "\<exists>r s'. run_round (demo_env 8) ''request'' 0 (Some 1) () None demo_start = (Inr r, s')
     \<and> canonical_before (body r) = demo_before \<and> serial_state (body r) = demo_after"
proof -
  obtain r s' where run: "run_round (demo_env 8) ''request'' 0 (Some 1) () None demo_start = (Inr r, s')"
    and w: "world s' = demo_after"
    using demo_round [of 8] by auto
  have t: "truthful_driver (release_driver (demo_env 8)) (\<lambda>w. w)" by (simp add: demo_truthful)
  have "world demo_start = demo_before" by (simp add: demo_start_def fresh_controller_def)
  then show ?thesis using round_moves_canonical_to_serial [OF t run] run w by auto
qed

text \<open>
  C7: with such a driver, a round that is refused with one of the errors that promise a
  restoration (serial failure, publication failure with or without failed clean-up,
  non-atomic publication, wrong published state) has left the canonical state as it was.
\<close>

theorem refused_round_restores_canonical:
  assumes "truthful_driver (release_driver env) canonical"
    and "run_round env request rnd requested payload fallback s = (Inl e, s')"
    and "promises_restoration e"
  shows "canonical (world s') = canonical (world s)"
  by (rule run_round_restored [OF assms])

text \<open>A driver whose serial execution corrupts the canonical state and then fails.\<close>

definition failing_env :: "(live_state, unit, unit) controller_setup" where
  "failing_env = (demo_env 7)\<lparr>release_driver := (demo_driver 7)
     \<lparr>execute_serial := (\<lambda>_ _ _ w. (Inl (DriverException ''RuntimeError'' ''lost''), demo_after))\<rparr>\<rparr>"

lemma failing_round:
  "\<exists>s'. run_round failing_env ''request'' 0 (Some 1) () None demo_start
     = (Inl (RoundRefused SerialTransitionFailed), s')"
  by (simp add: run_round_def check_request_def open_round_def candidate_stage_def serial_stage_def
      demo_eval restore_def record_fatal_def preserve_failure_def publish_evidence_def Let_def
      failing_env_def demo_driver_def demo_start_def fresh_controller_def COMMIT_COUNTS_def
      demo_transition_def round_width_def)

theorem refused_round_restores_canonical_witness:
  "\<exists>s'. run_round failing_env ''request'' 0 (Some 1) () None demo_start
     = (Inl (RoundRefused SerialTransitionFailed), s') \<and> world s' = demo_before"
proof -
  obtain s' where run: "run_round failing_env ''request'' 0 (Some 1) () None demo_start
     = (Inl (RoundRefused SerialTransitionFailed), s')"
    using failing_round by blast
  have t: "truthful_driver (release_driver failing_env) (\<lambda>w. w)"
    by (simp add: truthful_driver_def failing_env_def demo_driver_def)
  have "world demo_start = demo_before" by (simp add: demo_start_def fresh_controller_def)
  then show ?thesis using refused_round_restores_canonical [OF t run] run by simp
qed

text \<open>
  C10: the promise has a gap.  Take a driver whose probe is truthful and a round that made a
  publication intent of at least one token durable.  If the driver publishes the state
  selected by that intent atomically, but reports a state that does not normalize, the
  round raises the normalization error without a restoration: the selected state stays
  canonical, it differs from the state the round started from, and no receipt records it.
\<close>

theorem published_state_gap:
  assumes "truthful_driver (release_driver env) canonical"
    and "run_round env request rnd requested payload fallback s = (outcome, s')"
    and "map_of (evidence_journal s) (IntentName k h) = None"
    and "map_of (evidence_journal s') (IntentName k h) = Some stored"
    and "content stored = IntentDoc i" and "0 < intent_commit_count i"
    and "misreports_publication (release_driver env) canonical
           (intent_canonical_before i) (selected_state i)"
  shows "(\<exists>e. outcome = Inl (StateInvalid e))
    \<and> durable_receipts s' = durable_receipts s
    \<and> canonical (world s) = intent_canonical_before i
    \<and> canonical (world s') = selected_state i
    \<and> canonical (world s') \<noteq> canonical (world s)"
  by (rule run_round_misreported [OF assms])

text \<open>A driver that publishes for real and reports one nonfinite value too many.\<close>

definition unnormal_env :: "(live_state, unit, unit) controller_setup" where
  "unnormal_env = (demo_env 7)\<lparr>release_driver := (demo_driver 7)
     \<lparr>publish_private := (\<lambda>sn t _ w.
        (Inr \<lparr>publication_state = (transition_state t)\<lparr>nonfinite_count := 1\<rparr>, atomic = True\<rparr>,
         transition_state t))\<rparr>\<rparr>"

lemma normalize_nonfinite:
  assumes "normal_state st"
  shows "normalize_state (st\<lparr>nonfinite_count := 1\<rparr>) = Inl (MustBeZero NonfiniteCount)"
proof -
  have a: "layer_digest_check (st\<lparr>nonfinite_count := 1\<rparr>) = layer_digest_check st"
    by (rule ext) (simp add: layer_digest_check_def split: prod.splits)
  from assms have
    "check_all (\<lambda>f. sha256_value (digests st f)) STATE_DIGEST_FIELDS = Inr ()"
    "check_all (layer_digest_check st) LAYER_DIGEST_FIELDS = Inr ()"
    "check_all (\<lambda>u. sha256_value (semantic_unit_sha256 st u)) TRANSITION_UNITS = Inr ()"
    by (auto simp only: normal_state_def normalize_state_def rbind_Inr_iff) simp_all
  then show ?thesis
    using normal_state_nonneg [OF assms] by (simp add: normalize_state_def a)
qed

lemma unnormal_driver:
  "truthful_driver (release_driver unnormal_env) (\<lambda>w. w)"
  "misreports_publication (release_driver unnormal_env) (\<lambda>w. w) demo_before demo_after"
  using normalize_nonfinite [OF demo_states(2)]
  by (simp_all add: truthful_driver_def misreports_publication_def unnormal_env_def demo_driver_def)

definition unnormal_intent :: intent where
  "unnormal_intent =
     intent_of (template_of unnormal_env ''request'' 0 1 demo_before
         (Some (demo_transition ''c0'' ''fused'' 7)) None zero_sha256
         (demo_transition ''s0'' ''serial_oracle'' 7) zero_sha256 (None, True) True True None)
       demo_snapshot (demo_transition ''c0'' ''fused'' 7)
       (Some (demo_transition ''c0'' ''fused'' 7)) (demo_transition ''s0'' ''serial_oracle'' 7)"

lemma unnormal_intent_simps:
  "intent_commit_count unnormal_intent = 1" "selected_state unnormal_intent = demo_after"
  "intent_canonical_before unnormal_intent = demo_before"
  by (simp_all add: unnormal_intent_def intent_of_def demo_transition_def demo_snapshot_def)

lemma unnormal_commit:
  "\<exists>s'. commit_stage unnormal_env ''request'' 0 1 demo_snapshot True
         (Some (demo_transition ''c0'' ''fused'' 7), None, zero_sha256)
         (demo_transition ''s0'' ''serial_oracle'' 7, zero_sha256) demo_start
       = (Inl (StateInvalid (MustBeZero NonfiniteCount)), s')
     \<and> map_of (evidence_journal s') (IntentName 0 zero_sha256)
       = Some \<lparr>owner_only_regular = True, content = IntentDoc unnormal_intent\<rparr>"
proof -
  note n = normalize_nonfinite [OF demo_states(2)]
  show ?thesis
  by (simp add: commit_stage_def comparison_stage_def compare_transitions_def demo_eval
      demo_transition_def demo_snapshot_def demo_start_def fresh_controller_def
      select_transition_def template_of_def intent_of_def Let_def round_mode_def
      normalize_intent_def intent_fields_check_def COMMIT_COUNTS_def
      seal_receipt_def receipt_of_template_def receipt_template.defs receipt.defs
      receipt_header_check_def check_all.simps optional_identifier_def serial_advance_check_def
      token_ids_of_def normalize_candidate_failure_def normalize_difference_def
      receipt_outcome_def validated_candidate_outcome_def optional_sha256_def serial_or_unchanged_def
      intent_template_matches_def preserve_intent_def publish_evidence_def n
      publication_stage_def demo_driver_def unnormal_env_def unnormal_intent_def)
qed

lemma unnormal_round:
  "run_round unnormal_env ''request'' 0 (Some 1) () None demo_start
      = commit_stage unnormal_env ''request'' 0 1 demo_snapshot True
         (Some (demo_transition ''c0'' ''fused'' 7), None, zero_sha256)
         (demo_transition ''s0'' ''serial_oracle'' 7, zero_sha256) demo_start"
  by (simp add: run_round_def check_request_def open_round_def candidate_stage_def
      serial_stage_def demo_eval unnormal_env_def demo_driver_def demo_start_def
      fresh_controller_def COMMIT_COUNTS_def demo_transition_def round_width_def demo_snapshot_def)

theorem published_state_gap_witness:
  "\<exists>e s'. run_round unnormal_env ''request'' 0 (Some 1) () None demo_start = (Inl (StateInvalid e), s')
     \<and> world demo_start = demo_before \<and> world s' = demo_after \<and> durable_receipts s' = []"
proof -
  obtain s' where run: "run_round unnormal_env ''request'' 0 (Some 1) () None demo_start
       = (Inl (StateInvalid (MustBeZero NonfiniteCount)), s')"
    and new: "map_of (evidence_journal s') (IntentName 0 zero_sha256)
       = Some \<lparr>owner_only_regular = True, content = IntentDoc unnormal_intent\<rparr>"
    using unnormal_commit by (auto simp: unnormal_round)
  have old: "map_of (evidence_journal demo_start) (IntentName 0 zero_sha256) = None"
    and none: "durable_receipts demo_start = []"
    by (simp_all add: demo_start_def fresh_controller_def)
  show ?thesis
    using published_state_gap [OF unnormal_driver(1) run old new, of unnormal_intent]
      unnormal_driver(2) none run by (auto simp: unnormal_intent_simps)
qed

subsection \<open>Sessions\<close>

text \<open>
  The chain of durable receipts: contiguous rounds of one session, each sealed, each
  starting from the state the previous one published.
\<close>

definition receipt_chain :: "('w, 'p, 'm) controller_setup \<Rightarrow> receipt sealed list \<Rightarrow> bool" where
  "receipt_chain env rs \<longleftrightarrow>
     (\<forall>i < length rs.
        seal_receipt (hashes env) (body (rs ! i)) = Inr (rs ! i)
        \<and> round_index (body (rs ! i)) = int i
        \<and> session_id (body (rs ! i)) = controller_session env
        \<and> capability_sha256 (body (rs ! i)) = capability_id env
        \<and> (0 < i \<longrightarrow> canonical_before (body (rs ! i)) = canonical_after (body (rs ! (i - 1)))))"

lemma chain_receipts_linked:
  assumes "chain_receipts session capability i xs (st, q) = Inr acc"
    and "n < length xs"
  shows "canonical_before (body (xs ! n)) =
    (if n = 0 then st else canonical_after (body (xs ! (n - 1))))"
  using assms
proof (induction xs arbitrary: i st q n)
  case (Cons x xs)
  then have rest: "chain_receipts session capability (i + 1) xs
        (canonical_after (body x), q \<or> \<not> candidate_enabled_after (body x)) = Inr acc"
    and "canonical_before (body x) = st"
    by (auto split: if_splits)
  then show ?case
    using Cons.IH [OF rest] Cons.prems(2) by (cases n) (auto simp: nth_Cons split: nat.splits)
qed simp

lemma invariant_chain:
  assumes "controller_invariant env s"
  shows "receipt_chain env (durable_receipts s)"
proof (cases "durable_receipts s = []")
  case False
  with assms obtain q where q: "chain_receipts (controller_session env) (capability_id env) 0
      (durable_receipts s) (canonical_before (body (hd (durable_receipts s))), False)
      = Inr (canonical_after (body (last (durable_receipts s))), q)"
    by (auto simp: controller_invariant_def)
  show ?thesis
    using assms chain_receipts_indexes [OF q] chain_receipts_linked [OF q]
    by (auto simp: receipt_chain_def controller_invariant_def)
qed (simp add: receipt_chain_def)

text \<open>
  C8: in every state a session reaches (any rounds, any outcomes, any driver) the durable
  receipts form a chain, nothing that was durable has changed, and quarantine has not
  been left.
\<close>

theorem session_keeps_chain:
  assumes "session_reaches env (fresh_controller w) s" and "session_reaches env s s'"
  shows "receipt_chain env (durable_receipts s')
    \<and> (\<exists>rs. durable_receipts s' = durable_receipts s @ rs)
    \<and> journal_extends (evidence_journal s) (evidence_journal s')
    \<and> (\<not> quarantined s \<or> quarantined s')"
  using session_monotone [OF assms(2)]
    invariant_chain [OF session_invariant [OF assms(2)
      session_invariant [OF assms(1) controller_invariant_fresh]]] by auto

theorem session_keeps_chain_witness:
  "\<exists>r s'. run_round (demo_env 8) ''request'' 0 (Some 1) () None demo_start = (Inr r, s')
     \<and> receipt_chain (demo_env 8) (durable_receipts s')"
proof -
  obtain r s' where run: "run_round (demo_env 8) ''request'' 0 (Some 1) () None demo_start = (Inr r, s')"
    using demo_round [of 8] by auto
  have a: "session_reaches (demo_env 8) (fresh_controller demo_before) demo_start"
    unfolding demo_start_def by (rule reach_start)
  have b: "session_reaches (demo_env 8) demo_start s'"
    by (rule reach_round [OF reach_start run])
  show ?thesis using session_keeps_chain [OF a b] run by blast
qed

text \<open>
  a session whose last round returned can always be closed: \<open>finalize_ledger\<close> returns a
  ledger that verifies, contains every receipt and reports the quarantine, unless a
  different document is stored under the ledger's name.
\<close>

theorem session_finalizes:
  assumes "session_reaches env (fresh_controller w) s"
    and "run_round env request rnd requested payload fallback s = (Inr r, s')"
    and "\<And>x. is_sha256 (receipt_digest (hashes env) x)"
    and "\<And>x. is_sha256 (ledger_digest (hashes env) x)"
  shows "fst (finalize_ledger env s') = Inl EvidenceDiffers
    \<or> (\<exists>l. fst (finalize_ledger env s') = Inr l \<and> verify_ledger (hashes env) l = Inr l
         \<and> receipts (body l) = durable_receipts s @ [r]
         \<and> candidate_quarantined (body l) = quarantined s')"
proof -
  have inv: "controller_invariant env s"
    by (rule session_invariant [OF assms(1) controller_invariant_fresh])
  note seal = seals_after_round [OF inv assms(2,3)]
  have ne: "durable_receipts s' = durable_receipts s @ [r]"
    by (rule run_round_receipt_facts(10) [OF assms(2)])
  then have "fst (finalize_ledger env s') \<in> {Inl EvidenceDiffers,
      Inr \<lparr>body = session_ledger env (durable_receipts s') (quarantined s'),
         self_sha256 = ledger_digest (hashes env)
           (session_ledger env (durable_receipts s') (quarantined s'))\<rparr>}"
    using finalize_ledger_outcome [OF _ seal] by simp
  then show ?thesis
    using seal assms(4) ne by (auto simp: verify_ledger_def sha256_value_def session_ledger_def)
qed

theorem session_finalizes_witness:
  "\<exists>r s' l. run_round (demo_env 7) ''request'' 0 (Some 1) () None demo_start = (Inr r, s')
     \<and> fst (finalize_ledger (demo_env 7) s') = Inr l \<and> receipts (body l) = [r]"
proof -
  obtain r s' where run: "run_round (demo_env 7) ''request'' 0 (Some 1) () None demo_start = (Inr r, s')"
    and new: "map_of (evidence_journal s') (LedgerName zero_sha256) = None"
    using demo_round [of 7] by auto
  have a: "session_reaches (demo_env 7) (fresh_controller demo_before) demo_start"
    unfolding demo_start_def by (rule reach_start)
  have "durable_receipts demo_start = []" by (simp add: demo_start_def fresh_controller_def)
  moreover from new have "fst (finalize_ledger (demo_env 7) s') \<noteq> Inl EvidenceDiffers"
    using seal_ledger_Inr
    by (auto simp: finalize_ledger_def sbind_def assert_that_def journal_write_def journal_call_def
        preserve_ledger_def publish_evidence_def seal_ledger_Inr split: sum.splits prod.splits)
  ultimately show ?thesis using session_finalizes [OF a run] run by auto
qed

end
