(* ===== verification/Restart_Properties.thy ===== *)
theory Restart_Properties
  imports Commit_Properties
begin

section \<open>Properties of restarts\<close>

text \<open>
  A restart reads the journal, replays the receipts and resolves at most one interrupted
  publication.  The witnesses restart on the journal a process left that died after the
  intent of \<open>Commit_Properties.demo_receipt\<close> was durable, with and without its receipt.
\<close>

lemma truncate_selectors [simp]:
  "round_index (receipt_template.truncate r) = round_index r"
  "session_id (receipt_template.truncate r) = session_id r"
  "capability_sha256 (receipt_template.truncate r) = capability_sha256 r"
  "canonical_before (receipt_template.truncate r) = canonical_before r"
  "candidate_enabled_after (receipt_template.truncate r) = candidate_enabled_after r"
  by (simp_all add: receipt_template.defs)

lemma receipt_chain_append:
  assumes "receipt_chain env rs"
    and "seal_receipt (hashes env) (body r) = Inr r"
    and "round_index (body r) = int (length rs)"
    and "session_id (body r) = controller_session env"
    and "capability_sha256 (body r) = capability_id env"
    and "rs = [] \<or> canonical_before (body r) = canonical_after (body (last rs))"
  shows "receipt_chain env (rs @ [r])"
  using assms
  by (auto simp: receipt_chain_def nth_append less_Suc_eq last_conv_nth)

lemma recover_intent_guard:
  assumes "recover_intent env i sha s = (Inr (), s')"
  obtains verdict st s1 where
    "intent_capability_sha256 i = capability_id env"
    "intent_session_id i = controller_session env"
    "intent_round_index i = int (length (durable_receipts s))"
    "durable_receipts s = [] \<or>
       intent_canonical_before i = canonical_after (body (last (durable_receipts s)))"
    "ask_recovery_oracle env i s = (Inr (verdict, st), s1)"
  using assms by (auto simp: recover_intent_def action_simps split: if_splits)

lemma recover_intent_chain:
  assumes "recover_intent env i sha s = (Inr (), s')"
    and "normalize_intent (hashes env) i = Inr i"
    and chain: "receipt_chain env (durable_receipts s)"
  shows "receipt_chain env (durable_receipts s')"
proof -
  from assms(1) obtain verdict st s1 where
    g: "intent_capability_sha256 i = capability_id env"
      "intent_session_id i = controller_session env"
      "intent_round_index i = int (length (durable_receipts s))"
      "durable_receipts s = [] \<or>
         intent_canonical_before i = canonical_after (body (last (durable_receipts s)))"
    and ask: "ask_recovery_oracle env i s = (Inr (verdict, st), s1)"
    by (rule recover_intent_guard)
  have m: "intent_template_matches i (intent_template i)"
    by (rule normalize_intent_Inr(4) [OF assms(2)])
  from ask_recovery_oracle_Inr(1) [OF ask] show ?thesis
  proof (elim disjE conjE)
    assume "verdict = RolledBack"
    then show ?thesis
      using recover_intent_rolled_back(1) [OF assms(1)] ask chain by metis
  next
    assume "verdict = Committed"
    then obtain r where r: "durable_receipts s' = durable_receipts s @ [r]"
      "seal_receipt (hashes env) (body r) = Inr r"
      "receipt_template.truncate (body r) = intent_template i"
      using recover_intent_committed(2) [OF assms(1)] ask by blast
    have "round_index (body r) = intent_round_index i" "session_id (body r) = intent_session_id i"
      "capability_sha256 (body r) = intent_capability_sha256 i"
      "canonical_before (body r) = intent_canonical_before i"
      using m r(3) by (metis intent_template_matches_def truncate_selectors)+
    then show ?thesis
      using receipt_chain_append [OF chain r(2)] r(1) g by simp
  qed
qed

lemma load_controller_stages:
  fixes s s' :: "'w controller"
  assumes "load_controller env s = (Inr (), s')"
  obtains s1 :: "'w controller" and pending where
    "controller_invariant env s1"
    "pending = [] \<and> s' = s1 \<or>
     (\<exists>sha stored i. pending = [(sha, stored)] \<and> load_intent (hashes env) stored sha = Inr i
        \<and> recover_intent env i sha s1 = (Inr (), s'))"
proof -
  let ?j = "evidence_journal s"
  from assms obtain rs vs q0 c0 q c pending where
    l: "load_receipts (hashes env) ?j = Inr rs"
    and r1: "replay_receipts env 0 rs None False None = Inr (q0, c0)"
    and r2: "replay_recoveries env ?j rs vs q0 c0 = Inr (q, c)"
    and p: "(case pending of [] \<Rightarrow> ret ()
       | [(sha, file)] \<Rightarrow>
         sbind (lift_result (load_intent (hashes env) file sha)) (\<lambda>i. recover_intent env i sha)
       | _ \<Rightarrow> raise (RestartRefused MultipleUnresolvedIntents))
      (s\<lparr>durable_receipts := rs, durable_recoveries := vs, quarantined := q,
         held_counterexample := c\<rparr>) = (Inr (), s')"
    by (auto simp: load_controller_def action_simps)
  let ?s1 = "s\<lparr>durable_receipts := rs, durable_recoveries := vs, quarantined := q,
         held_counterexample := c\<rparr>"
  have "controller_invariant env ?s1"
    by (rule replayed_invariant [OF l r1 r2]) simp_all
  moreover from p have "pending = [] \<and> s' = ?s1 \<or>
     (\<exists>sha stored i. pending = [(sha, stored)] \<and> load_intent (hashes env) stored sha = Inr i
        \<and> recover_intent env i sha ?s1 = (Inr (), s'))"
    by (auto simp: action_simps split: list.splits prod.splits)
  ultimately show thesis by (rule that)
qed

text \<open>
  C9: a restart that succeeds, on any journal and with any driver, holds a chain of
  sealed receipts again: whether the interrupted publication was found committed (its
  receipt is appended) or rolled back (the chain is the durable one).
\<close>

theorem restart_keeps_chain:
  assumes "load_controller env s = (Inr (), s')"
  shows "receipt_chain env (durable_receipts s')"
proof -
  from assms obtain s1 pending where inv: "controller_invariant env s1"
    and p: "pending = [] \<and> s' = s1 \<or>
     (\<exists>sha stored i. pending = [(sha, stored)] \<and> load_intent (hashes env) stored sha = Inr i
        \<and> recover_intent env i sha s1 = (Inr (), s'))"
    by (rule load_controller_stages)
  note chain = invariant_chain [OF inv]
  from p show ?thesis
  proof (elim disjE conjE exE)
    assume "s' = s1"
    then show ?thesis using chain by simp
  next
    fix sha stored i
    assume "load_intent (hashes env) stored sha = Inr i" "recover_intent env i sha s1 = (Inr (), s')"
    then show ?thesis using recover_intent_chain [OF _ load_intent_Inr(3) chain] by blast
  qed
qed

subsection \<open>A concrete crash\<close>

definition demo_intent :: intent where
  "demo_intent = intent_of (receipt_template.truncate demo_receipt) demo_snapshot
     (demo_transition ''s0'' ''serial_oracle'' 7)
     (Some (demo_transition ''c0'' ''fused'' 9)) (demo_transition ''s0'' ''serial_oracle'' 7)"

definition crash_journal :: journal where
  "crash_journal =
     [(IntentName 0 zero_sha256, \<lparr>owner_only_regular = True, content = IntentDoc demo_intent\<rparr>)]"

definition completed_journal :: journal where
  "completed_journal = crash_journal @
     [(ReceiptName 0 zero_sha256, \<lparr>owner_only_regular = True,
        content = ReceiptDoc \<lparr>body = demo_receipt, self_sha256 = zero_sha256\<rparr>\<rparr>)]"

definition restarting :: "journal \<Rightarrow> live_state controller" where
  "restarting j = (fresh_controller demo_before)\<lparr>evidence_journal := j\<rparr>"

lemma demo_intent_normal: "normalize_intent demo_hashes demo_intent = Inr demo_intent"
  by (simp add: normalize_intent_def intent_fields_check_def optional_identifier_def
      intent_template_matches_def demo_intent_def intent_of_def demo_snapshot_def Let_def
      demo_transition_def demo_receipt_def receipt_of_template_def receipt_template.defs receipt.defs
      seal_eval demo_mismatch_def)

lemma demo_intent_loads:
  "load_intent demo_hashes \<lparr>owner_only_regular = True, content = IntentDoc demo_intent\<rparr> zero_sha256
     = Inr demo_intent"
  by (simp add: load_intent_def demo_intent_normal)

lemma demo_intent_simps [simp]:
  "intent_capability_sha256 demo_intent = zero_sha256" "intent_session_id demo_intent = ''session''"
  "intent_request_id demo_intent = ''request''" "intent_round_index demo_intent = 0"
  "intent_commit_count demo_intent = 1" "selected_source demo_intent = FromSerial"
  "selected_state demo_intent = demo_after" "intent_canonical_before demo_intent = demo_before"
  "intent_template demo_intent = receipt_template.truncate demo_receipt"
  by (simp_all add: demo_intent_def intent_of_def demo_receipt_def receipt_template.defs
      demo_transition_def demo_snapshot_def)

lemma restart_after_crash:
  "\<exists>s'. load_controller (demo_env 7) (restarting crash_journal) = (Inr (), s')
     \<and> durable_receipts s' = [] \<and> quarantined s'"
  by (simp add: load_controller_def restarting_def crash_journal_def fresh_controller_def sbind_def
      load_receipts_def load_recoveries_def demo_intent_loads recover_intent_def
      ask_recovery_oracle_def try_except_def driver_call_def demo_driver_def assert_that_def
      probe_state_def adopt_rollback_def journal_call_def preserve_counterexample_def Let_def
      publish_evidence_def preserve_recovery_def recovery_of_def)

lemma restart_after_completion:
  "\<exists>s'. load_controller (demo_env 7) (restarting completed_journal) = (Inr (), s')
     \<and> durable_receipts s' = [\<lparr>body = demo_receipt, self_sha256 = zero_sha256\<rparr>] \<and> quarantined s'"
proof -
  have "load_receipt_file demo_hashes completed_journal \<lparr>owner_only_regular = True,
        content = ReceiptDoc \<lparr>body = demo_receipt, self_sha256 = zero_sha256\<rparr>\<rparr> zero_sha256
      = Inr \<lparr>body = demo_receipt, self_sha256 = zero_sha256\<rparr>"
    by (simp add: load_receipt_file_def verify_receipt_def demo_receipt_seals completed_journal_def
        crash_journal_def demo_intent_loads receipt_matches_intent_def)
       (simp add: demo_receipt_def demo_intent_loads receipt_matches_intent_def)
  then have "load_receipts demo_hashes completed_journal
      = Inr [\<lparr>body = demo_receipt, self_sha256 = zero_sha256\<rparr>]"
    by (simp add: load_receipts_def completed_journal_def crash_journal_def)
       (simp add: demo_receipt_def)
  then show ?thesis
    by (simp add: load_controller_def restarting_def fresh_controller_def sbind_def
        load_recoveries_def completed_journal_def crash_journal_def demo_receipt_def Let_def)
qed

theorem restart_keeps_chain_witness:
  "\<exists>s'. load_controller (demo_env 7) (restarting completed_journal) = (Inr (), s')
     \<and> receipt_chain (demo_env 7) (durable_receipts s') \<and> length (durable_receipts s') = 1"
proof -
  obtain s' where "load_controller (demo_env 7) (restarting completed_journal) = (Inr (), s')"
    "length (durable_receipts s') = 1"
    using restart_after_completion by auto
  then show ?thesis using restart_keeps_chain by blast
qed

text \<open>
  An interrupted publication that the driver reports as rolled back never produces a
  receipt, quarantines the candidate and leaves the state before the intent; one reported
  as committed appends exactly the receipt whose template was durable before the
  publication, and that receipt seals with the state the intent selected, which is the
  serial state.
\<close>

theorem interrupted_publication_resolved:
  assumes "recover_intent env i sha s = (Inr (), s')"
    and "normalize_intent (hashes env) i = Inr i"
  shows "(\<exists>s1. ask_recovery_oracle env i s = (Inr (RolledBack, intent_canonical_before i), s1)
            \<and> durable_receipts s' = durable_receipts s \<and> quarantined s')
       \<or> (\<exists>s1 r. ask_recovery_oracle env i s = (Inr (Committed, selected_state i), s1)
            \<and> durable_receipts s' = durable_receipts s @ [r]
            \<and> seal_receipt (hashes env) (body r) = Inr r
            \<and> receipt_template.truncate (body r) = intent_template i
            \<and> canonical_after (body r) = selected_state i
            \<and> serial_state (body r) = selected_state i)"
proof -
  from assms(1) obtain verdict st s1 where
    ask: "ask_recovery_oracle env i s = (Inr (verdict, st), s1)"
    by (rule recover_intent_guard)
  from ask_recovery_oracle_Inr(1) [OF ask] show ?thesis
  proof (elim disjE conjE)
    assume "verdict = RolledBack" "st = intent_canonical_before i"
    then show ?thesis using recover_intent_rolled_back(1,2) [OF assms(1)] ask by blast
  next
    assume v: "verdict = Committed" "st = selected_state i"
    then obtain r where r: "durable_receipts s' = durable_receipts s @ [r]"
      "seal_receipt (hashes env) (body r) = Inr r"
      "canonical_after (body r) = selected_state i"
      "receipt_template.truncate (body r) = intent_template i"
      using recover_intent_committed(2) [OF assms(1)] ask by blast
    have "serial_state (body r) = selected_state i"
      using sealed_receipt_step(2) [OF r(2)] r(3) by simp
    then show ?thesis using r ask v by blast
  qed
qed

theorem interrupted_publication_resolved_witness:
  "\<exists>s'. recover_intent (demo_env 7) demo_intent zero_sha256 (restarting crash_journal) = (Inr (), s')
     \<and> durable_receipts s' = [] \<and> quarantined s'"
proof -
  have r: "\<exists>s'. recover_intent (demo_env 7) demo_intent zero_sha256 (restarting crash_journal)
      = (Inr (), s')"
    and v: "fst (ask_recovery_oracle (demo_env 7) demo_intent (restarting crash_journal))
      = Inr (RolledBack, demo_before)"
    by (simp_all add: restarting_def crash_journal_def fresh_controller_def sbind_def
      recover_intent_def ask_recovery_oracle_def try_except_def driver_call_def demo_driver_def
      assert_that_def probe_state_def adopt_rollback_def journal_call_def
      preserve_counterexample_def Let_def publish_evidence_def preserve_recovery_def recovery_of_def)
  then obtain s' where run: "recover_intent (demo_env 7) demo_intent zero_sha256
      (restarting crash_journal) = (Inr (), s')" by blast
  have n: "normalize_intent (hashes (demo_env 7)) demo_intent = Inr demo_intent"
    by (simp add: demo_intent_normal)
  have e: "durable_receipts (restarting crash_journal) = []"
    by (simp add: restarting_def fresh_controller_def)
  show ?thesis
    using interrupted_publication_resolved [OF run n] run v e by auto
qed

end
