(* ===== verification/One_Shot.thy ===== *)
theory One_Shot
  imports Prelude
begin

section \<open>One-shot hand-offs\<close>

text \<open>
  Several components hand a value over through a slot that holds at most one value: the
  verified advance of the scheduler authority, the pending advance of the runtime gate,
  the payload mailbox of the tree runtime.  The contract is a labelled step relation: a
  value is put only into an empty slot, taken only when it is there, and no other step
  touches the slot.  Under that contract the values taken are exactly the values put, in
  order, up to the one still pending: nothing is lost, repeated or invented.
\<close>

datatype 'v handoff = Put 'v | Take 'v | Other

inductive steps :: "('s \<Rightarrow> 'e \<Rightarrow> 's \<Rightarrow> bool) \<Rightarrow> 's \<Rightarrow> 'e list \<Rightarrow> 's \<Rightarrow> bool" for step where
  steps_refl: "steps step s [] s"
| steps_step: "step s e s' \<Longrightarrow> steps step s' es s'' \<Longrightarrow> steps step s (e # es) s''"

inductive_simps steps_simps:
  "steps step s [] s'"
  "steps step s (e # es) s'"

lemma steps_append:
  "steps step s (es @ fs) s'' \<longleftrightarrow> (\<exists>s'. steps step s es s' \<and> steps step s' fs s'')"
  by (induction es arbitrary: s) (auto simp: steps_simps)

lemma steps_invariant:
  assumes "steps step s es s'" and "I s"
    and "\<And>s e s'. step s e s' \<Longrightarrow> I s \<Longrightarrow> I s'"
  shows "I s'"
  using assms by (induction rule: steps.induct) auto

fun puts :: "'v handoff list \<Rightarrow> 'v list" where
  "puts [] = []"
| "puts (Put v # es) = v # puts es"
| "puts (Take v # es) = puts es"
| "puts (Other # es) = puts es"

fun takes :: "'v handoff list \<Rightarrow> 'v list" where
  "takes [] = []"
| "takes (Put v # es) = takes es"
| "takes (Take v # es) = v # takes es"
| "takes (Other # es) = takes es"

definition held :: "'v option \<Rightarrow> 'v list" where
  "held v = (case v of None \<Rightarrow> [] | Some x \<Rightarrow> [x])"

lemma held_simps [simp]: "held None = []" "held (Some v) = [v]"
  by (simp_all add: held_def)

locale one_shot =
  fixes step :: "'s \<Rightarrow> 'v handoff \<Rightarrow> 's \<Rightarrow> bool" and slot :: "'s \<Rightarrow> 'v option"
  assumes put_step: "step s (Put v) s' \<Longrightarrow> slot s = None \<and> slot s' = Some v"
    and take_step: "step s (Take v) s' \<Longrightarrow> slot s = Some v \<and> slot s' = None"
    and other_step: "step s Other s' \<Longrightarrow> slot s' = slot s"
begin

lemma conservation:
  "steps step s es s' \<Longrightarrow> held (slot s) @ puts es = takes es @ held (slot s')"
proof (induction rule: steps.induct)
  case (steps_step s e s' es s'')
  then show ?case
    using put_step [of s _ s'] take_step [of s _ s'] other_step [of s s'] by (cases e) auto
qed simp

text \<open>From an empty slot, what was taken is a prefix of what was put, at most one behind.\<close>

lemma taken_is_prefix:
  "steps step s es s' \<Longrightarrow> slot s = None \<Longrightarrow>
     puts es = takes es @ held (slot s') \<and> length (puts es) \<le> length (takes es) + 1"
  using conservation [of s es s'] by (cases "slot s'") auto

lemma no_second_take:
  "step s (Take v) s' \<Longrightarrow> steps step s' es s'' \<Longrightarrow> puts es = [] \<Longrightarrow> takes es = []"
  using conservation [of s' es s''] take_step [of s v s'] by auto

end

end
