(* ===== verification/Scheduler_Authority.thy ===== *)
theory Scheduler_Authority
  imports Live_Controller One_Shot
begin

section \<open>The scheduler's canonical roots\<close>

text \<open>
  Model of \<open>src/qwen_r9700_lab/live_commit_scheduler_authority.py\<close>: \<open>PhysicalRoot\<close> with its
  validation, \<open>_validate_root_set\<close> and every method of \<open>SchedulerRootAuthority\<close>.

  The callbacks of the constructor are a record of functions over the physical memory
  \<open>'w\<close>: observers (\<open>capture_complete_state\<close>, the fingerprint and the tokens of a model
  output) read it and may raise (\<open>None\<close>), the two \<open>prepare\<close> callbacks change it and say
  whether they returned.  A model output is an object identity \<open>'m\<close>, so that \<open>is not\<close> is
  inequality and its fingerprint may change between two observations.  The lock makes
  every method atomic; a method is one action on \<open>('w, 'm) authority\<close>.
\<close>

datatype resource =
    TargetBlock nat int
  | DraftBlock nat int
  | GdnSlot int
  | ConvolutionSlot int
  | PositionResource string
  | DecodingResource string

record physical_root =
  root_id :: string
  root_request_id :: string
  root_allocator_generation :: int
  target_blocks :: "int list list"
  draft_blocks :: "int list list"
  writable_target_blocks :: "int list list"
  writable_draft_blocks :: "int list list"
  gdn_slots :: "int list"
  convolution_slots :: "int list"
  position_state_id :: string
  decoding_state_id :: string

datatype root_error =
    InvalidRootIdentifier
  | InvalidAllocatorGeneration
  | NoBlockGroups
  | InvalidBlock
  | DuplicateRealBlocks
  | BlockGroupCountDiffers
  | WritableTopologyDiffers
  | WritableOutsideRoot
  | SlotCountDiffers
  | SlotsNotShared
  | SlotsNotUnique
  | InvalidSlot
  | RootIdsNotUnique
  | RequestOrGenerationDiffers
  | WritableAliases

definition authority_identifier :: "string \<Rightarrow> root_error + unit" where
  "authority_identifier s =
     require (1 \<le> length s \<and> length s \<le> 256 \<and>
              list_all (\<lambda>c. c \<in> set (''ABCDEFGHIJKLMNOPQRSTUVWXYZ'' @ ''abcdefghijklmnopqrstuvwxyz''
                                    @ ''0123456789._:/+-'')) s)
             InvalidRootIdentifier"

definition block_groups :: "int list list \<Rightarrow> root_error + int list list" where
  "block_groups value =
     (if value = [] then Inl NoBlockGroups else
      rbind (check_all (\<lambda>group.
               if list_ex (\<lambda>b. b < 0) group then Inl InvalidBlock
               else require (distinct (filter (\<lambda>b. b \<noteq> 0) group)) DuplicateRealBlocks) value)
        (\<lambda>_. Inr value))"

definition writable_inside :: "int list list \<Rightarrow> int list list \<Rightarrow> root_error + unit" where
  "writable_inside blocks writable =
     check_all (\<lambda>(group, write_group). require (set write_group \<subseteq> set group) WritableOutsideRoot)
       (zip blocks writable)"

definition slots_check :: "int list \<Rightarrow> root_error + unit" where
  "slots_check values =
     (if \<not> distinct values then Inl SlotsNotUnique
      else check_all (\<lambda>v. require (0 \<le> v) InvalidSlot) values)"

text \<open>\<open>PhysicalRoot.__post_init__\<close>.\<close>

definition physical_root_check :: "physical_root \<Rightarrow> root_error + unit" where
  "physical_root_check r =
     rbind (authority_identifier (root_id r)) (\<lambda>_.
     rbind (authority_identifier (root_request_id r)) (\<lambda>_.
     if root_allocator_generation r < 0 then Inl InvalidAllocatorGeneration else
     rbind (block_groups (target_blocks r)) (\<lambda>target.
     rbind (block_groups (draft_blocks r)) (\<lambda>draft.
     if length target \<noteq> TARGET_KV_LAYER_COUNT then Inl BlockGroupCountDiffers
     else if length draft \<noteq> DRAFT_LAYER_COUNT then Inl BlockGroupCountDiffers else
     rbind (block_groups (writable_target_blocks r)) (\<lambda>writable_target.
     rbind (block_groups (writable_draft_blocks r)) (\<lambda>writable_draft.
     if length target \<noteq> length writable_target \<or> length draft \<noteq> length writable_draft
     then Inl WritableTopologyDiffers else
     rbind (writable_inside target writable_target) (\<lambda>_.
     rbind (writable_inside draft writable_draft) (\<lambda>_.
     if length (gdn_slots r) \<noteq> GDN_LAYER_COUNT then Inl SlotCountDiffers
     else if length (convolution_slots r) \<noteq> GDN_LAYER_COUNT then Inl SlotCountDiffers
     else if gdn_slots r \<noteq> convolution_slots r then Inl SlotsNotShared else
     rbind (slots_check (gdn_slots r)) (\<lambda>_.
     rbind (slots_check (convolution_slots r)) (\<lambda>_.
     rbind (authority_identifier (position_state_id r)) (\<lambda>_.
     authority_identifier (decoding_state_id r))))))))))))"

definition block_resources :: "(nat \<Rightarrow> int \<Rightarrow> resource) \<Rightarrow> int list list \<Rightarrow> resource set" where
  "block_resources mk groups =
     (\<Union>(i, group) \<in> set (enumerate 0 groups). mk i ` set group)"

definition slot_resources :: "physical_root \<Rightarrow> resource set" where
  "slot_resources r =
     GdnSlot ` set (gdn_slots r) \<union> ConvolutionSlot ` set (convolution_slots r)
     \<union> {PositionResource (position_state_id r), DecodingResource (decoding_state_id r)}"

definition all_resource_ids :: "physical_root \<Rightarrow> resource set" where
  "all_resource_ids r =
     block_resources TargetBlock (target_blocks r) \<union> block_resources DraftBlock (draft_blocks r)
     \<union> slot_resources r"

definition writable_resource_ids :: "physical_root \<Rightarrow> resource set" where
  "writable_resource_ids r =
     block_resources TargetBlock (writable_target_blocks r)
     \<union> block_resources DraftBlock (writable_draft_blocks r) \<union> slot_resources r"

definition aliases :: "physical_root \<Rightarrow> physical_root \<Rightarrow> bool" where
  "aliases left right \<longleftrightarrow>
     writable_resource_ids left \<inter> all_resource_ids right \<noteq> {}
     \<or> writable_resource_ids right \<inter> all_resource_ids left \<noteq> {}"

text \<open>The nested loops over \<open>roots\<close> and \<open>roots[index + 1:]\<close>.\<close>

fun alias_check :: "physical_root list \<Rightarrow> root_error + unit" where
  "alias_check [] = Inr ()"
| "alias_check (left # rest) =
     rbind (check_all (\<lambda>right. require (\<not> aliases left right) WritableAliases) rest) (\<lambda>_.
     alias_check rest)"

definition validate_root_set :: "physical_root list \<Rightarrow> root_error + unit" where
  "validate_root_set roots =
     (if \<not> distinct (map root_id roots) then Inl RootIdsNotUnique
      else if card (set (map root_request_id roots)) \<noteq> 1
              \<or> card (set (map root_allocator_generation roots)) \<noteq> 1
      then Inl RequestOrGenerationDiffers
      else alias_check roots)"

subsection \<open>The authority's state\<close>

datatype branch_role = CandidateRole | SerialRole

record canonical_binding =
  storage :: physical_root
  binding_state :: live_state
  binding_sha256 :: string

record 'm recorded_transition =
  recorded_role :: branch_role
  recorded_transition :: "'m option private_transition"
  recorded_state_sha256 :: string
  recorded_output_sha256 :: "string option"

record 'm provisional_round =
  open_request_id :: string
  open_round_index :: int
  base_root_id :: string
  base_state_sha256 :: string
  open_allocator_generation :: int
  candidate_root :: physical_root
  serial_root :: physical_root
  candidate_result :: "'m recorded_transition option"
  serial_result :: "'m recorded_transition option"

record 'm verified_advance =
  advance_request_id :: string
  advance_round_index :: int
  advance_root_id :: string
  advance_token_ids :: "int list"
  advance_intent_sha256 :: string
  advance_output_sha256 :: string
  advance_output :: 'm

record 'm authority_state =
  canonical :: canonical_binding
  spare_roots :: "physical_root \<times> physical_root"
  open_round_of :: "'m provisional_round option"
  pending_advance :: "'m verified_advance option"

record authority_publication =
  published_state :: live_state
  published_atomic :: bool
  published_root_id :: string
  published_role :: branch_role
  published_intent_sha256 :: string

text \<open>\<open>VerifiedVllmAdvance\<close> of \<open>live_commit_vllm_driver.py\<close>: what the scheduler may consume.\<close>

record 'm vllm_advance =
  vllm_request_id :: string
  vllm_round_index :: int
  vllm_intent_sha256 :: string
  vllm_token_ids :: "int list"
  vllm_output_sha256 :: string
  vllm_output :: 'm

record ('w, 'm) authority =
  scheduler :: "'m authority_state"
  physical :: 'w

record ('w, 'm) root_callbacks =
  state_sha256_of :: "live_state \<Rightarrow> string"
  output_sha256_of :: "'m \<Rightarrow> 'w \<Rightarrow> string option"
  output_tokens_of :: "'m \<Rightarrow> string \<Rightarrow> 'w \<Rightarrow> int list option"
  prepare_private_roots :: "physical_root \<Rightarrow> physical_root \<Rightarrow> physical_root \<Rightarrow> 'w \<Rightarrow> bool \<times> 'w"
  capture_complete_state :: "physical_root \<Rightarrow> 'w \<Rightarrow> live_state option"
  prepare_atomic_publication :: "string \<Rightarrow> string \<Rightarrow> 'w \<Rightarrow> bool \<times> 'w"

datatype authority_error =
    RootSetInvalid root_error
  | StateRejected state_error
  | BindingGenerationDiffers
  | CaptureFailed
  | CapturedRootInvalid
  | InitialStateDiffers
  | PhysicalCanonicalChanged
  | OutputNotFingerprinted
  | OutputFingerprintInvalid
  | OutputTokensNotExtracted
  | OutputTokensInvalid
  | RoundAlreadyOpen
  | AdvanceStillPending
  | RequestIdDiffers
  | InvalidRound
  | PreparationFailed
  | PreparedRootDiffers
  | NoOpenRound
  | HandleDiffers
  | RecordedRootDiffers
  | GenerationChanged
  | LacksModelOutput
  | OutputTokensDiffer
  | EpochDiffers
  | LengthDiffers
  | RecordedTwice
  | AbortIdentityDiffers
  | CanonicalChangedDuringRound
  | PublicationRefused string
  | AdvanceRefused string

type_synonym ('w, 'm, 'a) authority_op = "(('w, 'm) authority, authority_error, 'a) action"

fun in_authority :: "state_error + 'a \<Rightarrow> authority_error + 'a" where
  "in_authority (Inl e) = Inl (StateRejected e)"
| "in_authority (Inr x) = Inr x"

fun root_in_authority :: "root_error + 'a \<Rightarrow> authority_error + 'a" where
  "root_in_authority (Inl e) = Inl (RootSetInvalid e)"
| "root_in_authority (Inr x) = Inr x"

lemma in_authority_Inr [result_simps]: "in_authority r = Inr x \<longleftrightarrow> r = Inr x"
  by (cases r) auto

lemma root_in_authority_Inr [result_simps]: "root_in_authority r = Inr x \<longleftrightarrow> r = Inr x"
  by (cases r) auto

definition binding_of ::
  "('w, 'm) root_callbacks \<Rightarrow> physical_root \<Rightarrow> live_state \<Rightarrow> authority_error + canonical_binding" where
  "binding_of cb root st =
     rbind (in_authority (normalize_state st)) (\<lambda>normalized.
     if allocator_generation normalized \<noteq> root_allocator_generation root
     then Inl BindingGenerationDiffers
     else Inr \<lparr>storage = root, binding_state = normalized,
               binding_sha256 = state_sha256_of cb normalized\<rparr>)"

text \<open>\<open>_capture_root\<close>: a generation error is kept, any other error of \<open>_binding\<close> is wrapped.\<close>

definition capture_root ::
  "('w, 'm) root_callbacks \<Rightarrow> physical_root \<Rightarrow> ('w, 'm, canonical_binding) authority_op" where
  "capture_root cb root s =
     ((case capture_complete_state cb root (physical s) of
         None \<Rightarrow> Inl CaptureFailed
       | Some st \<Rightarrow>
           (case binding_of cb root st of
              Inl (StateRejected e) \<Rightarrow> Inl CapturedRootInvalid
            | r \<Rightarrow> r)), s)"

definition require_canonical_unchanged ::
  "('w, 'm) root_callbacks \<Rightarrow> ('w, 'm, canonical_binding) authority_op" where
  "require_canonical_unchanged cb =
     sbind (gets (canonical \<circ> scheduler)) (\<lambda>bound.
     sbind (capture_root cb (storage bound)) (\<lambda>observed.
     sbind (assert_that (observed = bound) PhysicalCanonicalChanged) (\<lambda>_.
     ret observed)))"

definition fingerprint_output ::
  "('w, 'm) root_callbacks \<Rightarrow> 'm \<Rightarrow> ('w, 'm, string) authority_op" where
  "fingerprint_output cb m s =
     ((case output_sha256_of cb m (physical s) of
         None \<Rightarrow> Inl OutputNotFingerprinted
       | Some digest \<Rightarrow>
           if is_sha256 digest then Inr digest else Inl OutputFingerprintInvalid), s)"

definition tokens_from_output ::
  "('w, 'm) root_callbacks \<Rightarrow> 'm \<Rightarrow> string \<Rightarrow> ('w, 'm, int list) authority_op" where
  "tokens_from_output cb m request s =
     ((case output_tokens_of cb m request (physical s) of
         None \<Rightarrow> Inl OutputTokensNotExtracted
       | Some tokens \<Rightarrow>
           if list_ex (\<lambda>t. t < 0) tokens then Inl OutputTokensInvalid else Inr tokens), s)"

definition prepare_physical ::
  "('w \<Rightarrow> bool \<times> 'w) \<Rightarrow> ('w, 'm, bool) authority_op" where
  "prepare_physical op s =
     (case op (physical s) of (returned, w) \<Rightarrow> (Inr returned, s\<lparr>physical := w\<rparr>))"

definition set_scheduler :: "'m authority_state \<Rightarrow> ('w, 'm, unit) authority_op" where
  "set_scheduler a = modify (\<lambda>s. s\<lparr>scheduler := a\<rparr>)"

subsection \<open>The operations\<close>

definition new_authority ::
  "('w, 'm) root_callbacks \<Rightarrow> physical_root \<Rightarrow> live_state \<Rightarrow> physical_root \<Rightarrow> physical_root \<Rightarrow> 'w
   \<Rightarrow> authority_error + ('w, 'm) authority" where
  "new_authority cb root st candidate_spare serial_spare w =
     rbind (root_in_authority (validate_root_set [root, candidate_spare, serial_spare])) (\<lambda>_.
     rbind (binding_of cb root st) (\<lambda>bound.
     let s = \<lparr>scheduler = \<lparr>canonical = bound, spare_roots = (candidate_spare, serial_spare),
                          open_round_of = None, pending_advance = None\<rparr>, physical = w\<rparr>
     in rbind (fst (capture_root cb root s)) (\<lambda>observed.
        if observed \<noteq> bound then Inl InitialStateDiffers else Inr s)))"

definition authority_snapshot ::
  "('w, 'm) root_callbacks \<Rightarrow> ('w, 'm, canonical_binding) authority_op" where
  "authority_snapshot cb = require_canonical_unchanged cb"

definition authority_probe :: "('w, 'm) root_callbacks \<Rightarrow> ('w, 'm, live_state) authority_op" where
  "authority_probe cb = sbind (require_canonical_unchanged cb) (\<lambda>b. ret (binding_state b))"

definition check_prepared ::
  "('w, 'm) root_callbacks \<Rightarrow> physical_root \<Rightarrow> live_state \<Rightarrow> ('w, 'm, unit) authority_op" where
  "check_prepared cb root expected =
     sbind (capture_root cb root) (\<lambda>prepared.
     assert_that (binding_state prepared = expected) PreparedRootDiffers)"

definition begin_round ::
  "('w, 'm) root_callbacks \<Rightarrow> string \<Rightarrow> int \<Rightarrow> ('w, 'm, 'm provisional_round) authority_op" where
  "begin_round cb request rnd =
     sbind (gets scheduler) (\<lambda>current.
     sbind (assert_that (open_round_of current = None) RoundAlreadyOpen) (\<lambda>_.
     sbind (assert_that (pending_advance current = None) AdvanceStillPending) (\<lambda>_.
     sbind (assert_that (request = root_request_id (storage (canonical current)))
              RequestIdDiffers) (\<lambda>_.
     sbind (assert_that (0 \<le> rnd) InvalidRound) (\<lambda>_.
     case spare_roots current of (candidate, serial) \<Rightarrow>
     sbind (lift_result (root_in_authority
              (validate_root_set [storage (canonical current), candidate, serial]))) (\<lambda>_.
     sbind (prepare_physical (prepare_private_roots cb (storage (canonical current))
              candidate serial)) (\<lambda>returned.
     if \<not> returned
     then sbind (require_canonical_unchanged cb) (\<lambda>_. raise PreparationFailed)
     else
     sbind (require_canonical_unchanged cb) (\<lambda>after.
     sbind (check_prepared cb candidate (binding_state after)) (\<lambda>_.
     sbind (check_prepared cb serial (binding_state after)) (\<lambda>_.
     let opened = \<lparr>open_request_id = request, open_round_index = rnd,
                   base_root_id = root_id (storage (canonical current)),
                   base_state_sha256 = binding_sha256 (canonical current),
                   open_allocator_generation =
                     root_allocator_generation (storage (canonical current)),
                   candidate_root = candidate, serial_root = serial,
                   candidate_result = None, serial_result = None\<rparr>
     in sbind (set_scheduler (current\<lparr>open_round_of := Some opened\<rparr>)) (\<lambda>_.
        ret opened)))))))))))"

definition record_output ::
  "('w, 'm) root_callbacks \<Rightarrow> string \<Rightarrow> 'm option private_transition
   \<Rightarrow> ('w, 'm, string option) authority_op" where
  "record_output cb request t =
     (case model_output t of
        None \<Rightarrow> ret None
      | Some m \<Rightarrow>
          sbind (fingerprint_output cb m) (\<lambda>digest.
          sbind (tokens_from_output cb m request) (\<lambda>tokens.
          sbind (assert_that (tokens = transition_tokens t) OutputTokensDiffer) (\<lambda>_.
          ret (Some digest)))))"

fun result_of :: "branch_role \<Rightarrow> 'm provisional_round \<Rightarrow> 'm recorded_transition option" where
  "result_of CandidateRole r = candidate_result r"
| "result_of SerialRole r = serial_result r"

fun root_of_role :: "branch_role \<Rightarrow> 'm provisional_round \<Rightarrow> physical_root" where
  "root_of_role CandidateRole r = candidate_root r"
| "root_of_role SerialRole r = serial_root r"

fun with_result ::
  "branch_role \<Rightarrow> 'm recorded_transition \<Rightarrow> 'm provisional_round \<Rightarrow> 'm provisional_round" where
  "with_result CandidateRole x r = r\<lparr>candidate_result := Some x\<rparr>"
| "with_result SerialRole x r = r\<lparr>serial_result := Some x\<rparr>"

definition record_private_transition ::
  "('w, 'm) root_callbacks \<Rightarrow> branch_role \<Rightarrow> 'm option private_transition
   \<Rightarrow> ('w, 'm, unit) authority_op" where
  "record_private_transition cb role t =
     sbind (gets scheduler) (\<lambda>current.
     case open_round_of current of
       None \<Rightarrow> raise NoOpenRound
     | Some opened \<Rightarrow>
         sbind (assert_that (transition_handle t = root_id (root_of_role role opened))
                  HandleDiffers) (\<lambda>_.
         sbind (lift_result (in_authority (normalize_state (transition_state t)))) (\<lambda>st.
         sbind (capture_root cb (root_of_role role opened)) (\<lambda>observed.
         sbind (assert_that (binding_state observed = st) RecordedRootDiffers) (\<lambda>_.
         sbind (require_canonical_unchanged cb) (\<lambda>_.
         sbind (assert_that (allocator_generation st = open_allocator_generation opened)
                  GenerationChanged) (\<lambda>_.
         sbind (assert_that (transition_tokens t = [] \<or> model_output t \<noteq> None)
                  LacksModelOutput) (\<lambda>_.
         sbind (record_output cb (open_request_id opened) t) (\<lambda>digest.
         sbind (assert_that (commit_epoch st = commit_epoch (binding_state (canonical current))
                               + of_bool (transition_tokens t \<noteq> [])) EpochDiffers) (\<lambda>_.
         sbind (assert_that (logical_length st = logical_length (binding_state (canonical current))
                               + int (length (transition_tokens t))) LengthDiffers) (\<lambda>_.
         sbind (assert_that (result_of role opened = None) RecordedTwice) (\<lambda>_.
         set_scheduler (current\<lparr>open_round_of := Some (with_result role
           \<lparr>recorded_role = role, recorded_transition = t,
            recorded_state_sha256 = state_sha256_of cb st,
            recorded_output_sha256 = digest\<rparr> opened)\<rparr>)))))))))))))"

definition abort_round ::
  "('w, 'm) root_callbacks \<Rightarrow> string \<Rightarrow> int \<Rightarrow> ('w, 'm, unit) authority_op" where
  "abort_round cb request rnd =
     sbind (gets scheduler) (\<lambda>current.
     case open_round_of current of
       None \<Rightarrow> raise NoOpenRound
     | Some opened \<Rightarrow>
         sbind (assert_that (request = open_request_id opened \<and> rnd = open_round_index opened)
                  AbortIdentityDiffers) (\<lambda>_.
         sbind (assert_that (binding_sha256 (canonical current) = base_state_sha256 opened)
                  CanonicalChangedDuringRound) (\<lambda>_.
         sbind (capture_root cb (storage (canonical current))) (\<lambda>observed.
         sbind (assert_that (binding_sha256 observed = base_state_sha256 opened)
                  CanonicalChangedDuringRound) (\<lambda>_.
         set_scheduler (current\<lparr>open_round_of := None\<rparr>))))))"

text \<open>The role whose root the transition's handle names, candidate first.\<close>

definition selected_role :: "'m provisional_round \<Rightarrow> string \<Rightarrow> branch_role option" where
  "selected_role opened handle =
     (if handle = root_id (candidate_root opened) then Some CandidateRole
      else if handle = root_id (serial_root opened) then Some SerialRole else None)"

fun other_role :: "branch_role \<Rightarrow> branch_role" where
  "other_role CandidateRole = SerialRole"
| "other_role SerialRole = CandidateRole"

text \<open>
  The checks that tie the selected transition to the recorded one; the result is the
  model output with its recorded fingerprint.
\<close>

definition check_selected ::
  "('w, 'm) root_callbacks \<Rightarrow> 'm provisional_round \<Rightarrow> 'm recorded_transition
   \<Rightarrow> 'm option private_transition \<Rightarrow> ('w, 'm, 'm \<times> string) authority_op" where
  "check_selected cb opened recorded t =
     sbind (assert_that (transition_tokens (recorded_transition recorded) = transition_tokens t)
              (PublicationRefused ''differs from recorded result'')) (\<lambda>_.
     sbind (lift_result (in_authority (normalize_state (transition_state t)))) (\<lambda>st.
     sbind (assert_that (recorded_state_sha256 recorded = state_sha256_of cb st
                         \<and> model_output (recorded_transition recorded) = model_output t)
              (PublicationRefused ''differs from recorded result'')) (\<lambda>_.
     case (model_output t, recorded_output_sha256 recorded) of
       (Some m, Some digest) \<Rightarrow>
         sbind (fingerprint_output cb m) (\<lambda>now.
         sbind (assert_that (now = digest)
                  (PublicationRefused ''output changed after recording'')) (\<lambda>_.
         sbind (tokens_from_output cb m (open_request_id opened)) (\<lambda>tokens.
         sbind (assert_that (tokens = transition_tokens t)
                  (PublicationRefused ''output tokens changed after recording'')) (\<lambda>_.
         ret (m, digest)))))
     | _ \<Rightarrow> raise (PublicationRefused ''output changed after recording''))))"

definition publish_transition ::
  "('w, 'm) root_callbacks \<Rightarrow> string \<Rightarrow> 'm option private_transition \<Rightarrow> string
   \<Rightarrow> ('w, 'm, authority_publication) authority_op" where
  "publish_transition cb snapshot_root t intent_sha =
     sbind (gets scheduler) (\<lambda>current.
     case open_round_of current of
       None \<Rightarrow> raise NoOpenRound
     | Some opened \<Rightarrow>
         sbind (assert_that (pending_advance current = None) AdvanceStillPending) (\<lambda>_.
         sbind (assert_that (snapshot_root = base_root_id opened)
                  (PublicationRefused ''snapshot root differs'')) (\<lambda>_.
         sbind (lift_result (in_authority (sha256_value intent_sha))) (\<lambda>_.
         case selected_role opened (transition_handle t) of
           None \<Rightarrow> raise (PublicationRefused ''outside the open roots'')
         | Some role \<Rightarrow>
         case result_of role opened of
           None \<Rightarrow> raise (PublicationRefused ''not recorded by scheduler'')
         | Some recorded \<Rightarrow>
         sbind (check_selected cb opened recorded t) (\<lambda>(m, digest).
         sbind (assert_that (transition_tokens t \<noteq> [])
                  (PublicationRefused ''zero-commit transition'')) (\<lambda>_.
         sbind (capture_root cb (storage (canonical current))) (\<lambda>before.
         sbind (assert_that (binding_sha256 before = base_state_sha256 opened)
                  (PublicationRefused ''canonical changed before publication'')) (\<lambda>_.
         sbind (capture_root cb (root_of_role role opened)) (\<lambda>selected.
         sbind (assert_that (Inr (binding_state selected) = normalize_state (transition_state t))
                  (PublicationRefused ''differs from its physical root'')) (\<lambda>_.
         sbind (lift_result (binding_of cb (root_of_role role opened) (transition_state t))) (\<lambda>bound.
         let next_state = \<lparr>canonical = bound,
               spare_roots = (storage (canonical current), root_of_role (other_role role) opened),
               open_round_of = None,
               pending_advance = Some
                 \<lparr>advance_request_id = open_request_id opened,
                  advance_round_index = open_round_index opened,
                  advance_root_id = root_id (root_of_role role opened),
                  advance_token_ids = transition_tokens t,
                  advance_intent_sha256 = intent_sha, advance_output_sha256 = digest,
                  advance_output = m\<rparr>\<rparr>
         in sbind (prepare_physical (prepare_atomic_publication cb
                     (root_id (storage (canonical current)))
                     (root_id (root_of_role role opened)))) (\<lambda>returned.
            if \<not> returned
            then sbind (require_canonical_unchanged cb) (\<lambda>_.
                 raise (PublicationRefused ''could not be prepared''))
            else sbind (set_scheduler next_state) (\<lambda>_.
                 ret \<lparr>published_state = binding_state bound, published_atomic = True,
                      published_root_id = root_id (root_of_role role opened),
                      published_role = role, published_intent_sha256 = intent_sha\<rparr>)))))))))))))"

definition consume_verified_advance ::
  "('w, 'm) root_callbacks \<Rightarrow> string \<Rightarrow> int \<Rightarrow> string \<Rightarrow> int list
   \<Rightarrow> ('w, 'm, 'm vllm_advance) authority_op" where
  "consume_verified_advance cb request rnd intent_sha expected_tokens =
     sbind (gets scheduler) (\<lambda>current.
     case pending_advance current of
       None \<Rightarrow> raise (AdvanceRefused ''lacks a verified publication'')
     | Some a \<Rightarrow>
         sbind (assert_that (request = advance_request_id a \<and> rnd = advance_round_index a
                   \<and> intent_sha = advance_intent_sha256 a
                   \<and> expected_tokens = advance_token_ids a)
                  (AdvanceRefused ''identity differs'')) (\<lambda>_.
         sbind (fingerprint_output cb (advance_output a)) (\<lambda>digest.
         sbind (assert_that (digest = advance_output_sha256 a)
                  (AdvanceRefused ''output changed after publication'')) (\<lambda>_.
         sbind (tokens_from_output cb (advance_output a) (advance_request_id a)) (\<lambda>tokens.
         sbind (assert_that (tokens = advance_token_ids a)
                  (AdvanceRefused ''output tokens changed after publication'')) (\<lambda>_.
         sbind (set_scheduler (current\<lparr>pending_advance := None\<rparr>)) (\<lambda>_.
         ret \<lparr>vllm_request_id = advance_request_id a, vllm_round_index = advance_round_index a,
              vllm_intent_sha256 = advance_intent_sha256 a, vllm_token_ids = advance_token_ids a,
              vllm_output_sha256 = advance_output_sha256 a,
              vllm_output = advance_output a\<rparr>)))))))"

end
