(* ===== verification/Authority_Safety.thy ===== *)
theory Authority_Safety
  imports Scheduler_Authority
begin

section \<open>Safety of the scheduler authority\<close>

text \<open>
  The invariant of the authority and its preservation by every method, in the presence of
  arbitrary changes of the physical memory between and during the methods, and the
  hand-off of verified advances as an instance of \<open>one_shot\<close>.
\<close>

subsection \<open>Root sets\<close>

lemma aliases_sym: "aliases a b \<longleftrightarrow> aliases b a"
  by (auto simp: aliases_def)

definition root_trio :: "physical_root \<Rightarrow> physical_root \<Rightarrow> physical_root \<Rightarrow> bool" where
  "root_trio a b c \<longleftrightarrow>
     root_id a \<noteq> root_id b \<and> root_id a \<noteq> root_id c \<and> root_id b \<noteq> root_id c
     \<and> root_request_id a = root_request_id b \<and> root_request_id b = root_request_id c
     \<and> root_allocator_generation a = root_allocator_generation b
     \<and> root_allocator_generation b = root_allocator_generation c
     \<and> \<not> aliases a b \<and> \<not> aliases a c \<and> \<not> aliases b c"

lemma card_three: "card {a, b, c} = 1 \<longleftrightarrow> a = b \<and> b = c"
  by (auto simp: card_insert_if)

lemma validate_root_set_three:
  "validate_root_set [a, b, c] = Inr () \<longleftrightarrow> root_trio a b c"
proof -
  have al: "alias_check [a, b, c] = Inr () \<longleftrightarrow> \<not> aliases a b \<and> \<not> aliases a c \<and> \<not> aliases b c"
    by (simp add: result_simps)
  have ids: "distinct [root_id a, root_id b, root_id c] \<longleftrightarrow>
      root_id a \<noteq> root_id b \<and> root_id a \<noteq> root_id c \<and> root_id b \<noteq> root_id c"
    by auto
  show ?thesis
    unfolding validate_root_set_def if_Inl_Inr_iff al root_trio_def list.map ids list.set
      card_three by blast
qed

lemma root_trio_rotate:
  "root_trio a b c \<Longrightarrow> root_trio b a c" "root_trio a b c \<Longrightarrow> root_trio c a b"
  using aliases_sym by (auto simp: root_trio_def)

subsection \<open>The invariant\<close>

definition binding_ok :: "('w, 'm) root_callbacks \<Rightarrow> canonical_binding \<Rightarrow> bool" where
  "binding_ok cb b \<longleftrightarrow>
     normal_state (binding_state b)
     \<and> allocator_generation (binding_state b) = root_allocator_generation (storage b)
     \<and> binding_sha256 b = state_sha256_of cb (binding_state b)"

definition recorded_ok ::
  "('w, 'm) root_callbacks \<Rightarrow> live_state \<Rightarrow> 'm recorded_transition \<Rightarrow> bool" where
  "recorded_ok cb base x \<longleftrightarrow>
     (let t = recorded_transition x; st = transition_state t
      in normal_state st \<and> recorded_state_sha256 x = state_sha256_of cb st
         \<and> commit_epoch st = commit_epoch base + of_bool (transition_tokens t \<noteq> [])
         \<and> logical_length st = logical_length base + int (length (transition_tokens t)))"

definition round_ok ::
  "('w, 'm) root_callbacks \<Rightarrow> 'm authority_state \<Rightarrow> 'm provisional_round \<Rightarrow> bool" where
  "round_ok cb a r \<longleftrightarrow>
     pending_advance a = None
     \<and> (candidate_root r, serial_root r) = spare_roots a
     \<and> base_root_id r = root_id (storage (canonical a))
     \<and> base_state_sha256 r = binding_sha256 (canonical a)
     \<and> open_request_id r = root_request_id (storage (canonical a))
     \<and> (\<forall>role x. result_of role r = Some x \<longrightarrow> recorded_ok cb (binding_state (canonical a)) x)"

definition authority_invariant :: "('w, 'm) root_callbacks \<Rightarrow> 'm authority_state \<Rightarrow> bool" where
  "authority_invariant cb a \<longleftrightarrow>
     binding_ok cb (canonical a)
     \<and> root_trio (storage (canonical a)) (fst (spare_roots a)) (snd (spare_roots a))
     \<and> (\<forall>r. open_round_of a = Some r \<longrightarrow> round_ok cb a r)
     \<and> (\<forall>v. pending_advance a = Some v \<longrightarrow>
          advance_root_id v = root_id (storage (canonical a)) \<and> advance_token_ids v \<noteq> [])"

subsection \<open>Observers\<close>

lemma capture_root_state: "capture_root cb root s = (r, s') \<Longrightarrow> s' = s"
  by (simp add: capture_root_def)

lemma binding_of_Inr:
  assumes "binding_of cb root st = Inr b"
  shows "binding_ok cb b" "storage b = root" "binding_state b = st"
  using assms by (auto simp: binding_of_def binding_ok_def result_simps)

lemma capture_root_Inr:
  assumes "capture_root cb root s = (Inr b, s')"
  shows "s' = s" "binding_ok cb b" "storage b = root"
    "capture_complete_state cb root (physical s) = Some (binding_state b)"
proof -
  from assms obtain st where st: "capture_complete_state cb root (physical s) = Some st"
    "binding_of cb root st = Inr b"
    by (auto simp: capture_root_def split: option.splits sum.splits authority_error.splits)
  then show "binding_ok cb b" "storage b = root"
    "capture_complete_state cb root (physical s) = Some (binding_state b)"
    using binding_of_Inr [OF st(2)] by simp_all
  show "s' = s" using assms by (rule capture_root_state)
qed

lemma unchanged_state: "require_canonical_unchanged cb s = (r, s') \<Longrightarrow> s' = s"
  by (auto simp: require_canonical_unchanged_def sbind_def assert_that_def
      split: prod.splits sum.splits if_splits dest: capture_root_state)

lemma unchanged_Inr:
  assumes "require_canonical_unchanged cb s = (Inr b, s')"
  shows "b = canonical (scheduler s)"
    "capture_complete_state cb (storage b) (physical s) = Some (binding_state b)"
  using assms capture_root_Inr(4)
  by (auto simp: require_canonical_unchanged_def action_simps)

lemma fingerprint_state: "fingerprint_output cb m s = (r, s') \<Longrightarrow> s' = s"
  by (simp add: fingerprint_output_def)

lemma tokens_state: "tokens_from_output cb m request s = (r, s') \<Longrightarrow> s' = s"
  by (simp add: tokens_from_output_def)

definition observes :: "('w, 'm, 'a) authority_op \<Rightarrow> bool" where
  "observes m \<longleftrightarrow> keeps (\<lambda>s s'. s' = s) m"

interpretation same: history "\<lambda>s s'. s' = s"
  by unfold_locales simp_all

lemma observers:
  "observes (capture_root cb root)" "observes (require_canonical_unchanged cb)"
  "observes (fingerprint_output cb m)" "observes (tokens_from_output cb m request)"
  unfolding observes_def keeps_def
  by (metis capture_root_state unchanged_state fingerprint_state tokens_state prod.collapse)+

lemma record_output_observes: "observes (record_output cb request t)"
  unfolding record_output_def observes_def
  by (intro same.keeps_case_option same.keeps_sbind same.keeps_pure
      observers [unfolded observes_def])

lemma check_prepared_observes: "observes (check_prepared cb root st)"
  unfolding check_prepared_def observes_def
  by (intro same.keeps_sbind same.keeps_pure observers [unfolded observes_def])

lemma check_selected_observes: "observes (check_selected cb opened recorded t)"
  unfolding check_selected_def observes_def
  by (intro same.keeps_case_prod same.keeps_case_option same.keeps_sbind same.keeps_pure
      observers [unfolded observes_def])

lemma observesD: "observes m \<Longrightarrow> m s = (r, s') \<Longrightarrow> s' = s"
  unfolding observes_def by (rule keepsD)

subsection \<open>What the methods do to the scheduler's state\<close>

definition same_scheduler :: "('w, 'm) authority \<Rightarrow> ('w, 'm) authority \<Rightarrow> bool" where
  "same_scheduler s s' \<longleftrightarrow> scheduler s' = scheduler s"

interpretation sched: history same_scheduler
  by unfold_locales (simp_all add: same_scheduler_def)

lemma observes_sched: "observes m \<Longrightarrow> keeps same_scheduler m"
  unfolding observes_def by (erule keeps_mono) (simp add: same_scheduler_def)

lemma prepare_sched: "keeps same_scheduler (prepare_physical op)"
  by (auto simp: keeps_def prepare_physical_def same_scheduler_def split: prod.splits)

lemma set_scheduler_never_raises: "fails_keeping R (set_scheduler a)"
  by (simp add: fails_keeping_def set_scheduler_def)

lemma set_then_ret_never_raises: "fails_keeping R (sbind (set_scheduler a) (\<lambda>_. ret x))"
  by (simp add: fails_keeping_def set_scheduler_def sbind_def)

text \<open>A method that raises has changed nothing of the scheduler's state.\<close>

lemmas sched_intros =
  sched.fails_sbind fails_cases sched.keeps_pure prepare_sched
  observers [THEN observes_sched] check_prepared_observes [THEN observes_sched]
  record_output_observes [THEN observes_sched] check_selected_observes [THEN observes_sched]
  set_then_ret_never_raises set_scheduler_never_raises keeps_fails [OF sched.keeps_pure(2)]

lemma methods_fail_safely:
  "fails_keeping same_scheduler (begin_round cb request rnd)"
  "fails_keeping same_scheduler (record_private_transition cb role t)"
  "fails_keeping same_scheduler (abort_round cb request rnd)"
  "fails_keeping same_scheduler (publish_transition cb snapshot t sha)"
  "fails_keeping same_scheduler (consume_verified_advance cb request rnd sha tokens)"
  unfolding begin_round_def record_private_transition_def abort_round_def
    publish_transition_def consume_verified_advance_def Let_def
  by (intro sched_intros)+

subsection \<open>The methods that return\<close>

lemma begin_round_Inr:
  assumes "begin_round cb request rnd s = (Inr r, s')"
  shows "open_round_of (scheduler s) = None" "pending_advance (scheduler s) = None"
    and "scheduler s' = (scheduler s)\<lparr>open_round_of := Some r\<rparr>"
    and "r = \<lparr>open_request_id = request, open_round_index = rnd,
              base_root_id = root_id (storage (canonical (scheduler s))),
              base_state_sha256 = binding_sha256 (canonical (scheduler s)),
              open_allocator_generation =
                root_allocator_generation (storage (canonical (scheduler s))),
              candidate_root = fst (spare_roots (scheduler s)),
              serial_root = snd (spare_roots (scheduler s)),
              candidate_result = None, serial_result = None\<rparr>"
    and "request = root_request_id (storage (canonical (scheduler s)))"
    and "capture_complete_state cb (storage (canonical (scheduler s))) (physical s')
           = Some (binding_state (canonical (scheduler s)))"
    and "capture_complete_state cb (candidate_root r) (physical s')
           = Some (binding_state (canonical (scheduler s)))"
    and "capture_complete_state cb (serial_root r) (physical s')
           = Some (binding_state (canonical (scheduler s)))"
proof -
  let ?a = "scheduler s"
  obtain c k where spare: "spare_roots ?a = (c, k)" by fastforce
  from assms obtain s1 b s2 s3 s4 where
    g: "open_round_of ?a = None" "pending_advance ?a = None"
      "request = root_request_id (storage (canonical ?a))"
    and p: "prepare_physical (prepare_private_roots cb (storage (canonical ?a)) c k) s = (Inr True, s1)"
    and u: "require_canonical_unchanged cb s1 = (Inr b, s2)"
    and cc: "check_prepared cb c (binding_state b) s2 = (Inr (), s3)"
    and ck: "check_prepared cb k (binding_state b) s3 = (Inr (), s4)"
    and r: "r = \<lparr>open_request_id = request, open_round_index = rnd,
              base_root_id = root_id (storage (canonical ?a)),
              base_state_sha256 = binding_sha256 (canonical ?a),
              open_allocator_generation = root_allocator_generation (storage (canonical ?a)),
              candidate_root = c, serial_root = k, candidate_result = None, serial_result = None\<rparr>"
    and s': "s' = s4\<lparr>scheduler := ?a\<lparr>open_round_of := Some r\<rparr>\<rparr>"
    using spare
    by (auto simp: begin_round_def action_simps result_simps set_scheduler_def Let_def
        split: if_splits)
  have same: "s2 = s1" "s3 = s1" "s4 = s1"
    using unchanged_state [OF u] observesD [OF check_prepared_observes cc]
      observesD [OF check_prepared_observes ck] by auto
  have a1: "scheduler s1 = ?a"
    using keepsD [OF prepare_sched p] by (simp add: same_scheduler_def)
  have b: "b = canonical ?a" using unchanged_Inr(1) [OF u] a1 by simp
  have cap: "capture_complete_state cb root (physical s1) = Some (binding_state b)"
    if "check_prepared cb root (binding_state b) s1 = (Inr (), t)" for root t
    using that by (auto simp: check_prepared_def action_simps dest!: capture_root_Inr(4))
  show "open_round_of ?a = None" "pending_advance ?a = None"
    "request = root_request_id (storage (canonical ?a))"
    using g by simp_all
  show "scheduler s' = ?a\<lparr>open_round_of := Some r\<rparr>" using s' by simp
  show "r = \<lparr>open_request_id = request, open_round_index = rnd,
              base_root_id = root_id (storage (canonical ?a)),
              base_state_sha256 = binding_sha256 (canonical ?a),
              open_allocator_generation = root_allocator_generation (storage (canonical ?a)),
              candidate_root = fst (spare_roots ?a), serial_root = snd (spare_roots ?a),
              candidate_result = None, serial_result = None\<rparr>"
    using r spare by simp
  show "capture_complete_state cb (storage (canonical ?a)) (physical s')
           = Some (binding_state (canonical ?a))"
    using unchanged_Inr(2) [OF u] same s' b by simp
  show "capture_complete_state cb (candidate_root r) (physical s') = Some (binding_state (canonical ?a))"
    "capture_complete_state cb (serial_root r) (physical s') = Some (binding_state (canonical ?a))"
    using cap cc ck same s' b r by simp_all
qed

lemma record_Inr:
  assumes "record_private_transition cb role t s = (Inr (), s')"
  obtains r x where "open_round_of (scheduler s) = Some r"
    and "result_of role r = None"
    and "scheduler s' = (scheduler s)\<lparr>open_round_of := Some (with_result role x r)\<rparr>"
    and "physical s' = physical s"
    and "recorded_transition x = t"
    and "recorded_ok cb (binding_state (canonical (scheduler s))) x"
    and "capture_complete_state cb (root_of_role role r) (physical s) = Some (transition_state t)"
proof -
  let ?a = "scheduler s"
  from assms obtain r st b b' s1 s2 s3 digest where
    o: "open_round_of ?a = Some r"
    and n: "normalize_state (transition_state t) = Inr st"
    and c: "capture_root cb (root_of_role role r) s = (Inr b, s1)" "binding_state b = st"
    and u: "require_canonical_unchanged cb s1 = (Inr b', s2)"
    and ro: "record_output cb (open_request_id r) t s2 = (Inr digest, s3)"
    and e: "commit_epoch st = commit_epoch (binding_state (canonical ?a))
                               + of_bool (transition_tokens t \<noteq> [])"
    and l: "logical_length st = logical_length (binding_state (canonical ?a))
                               + int (length (transition_tokens t))"
    and none: "result_of role r = None"
    and s': "s' = s3\<lparr>scheduler := ?a\<lparr>open_round_of := Some (with_result role
           \<lparr>recorded_role = role, recorded_transition = t,
            recorded_state_sha256 = state_sha256_of cb st,
            recorded_output_sha256 = digest\<rparr> r)\<rparr>\<rparr>"
    by (auto simp: record_private_transition_def action_simps result_simps set_scheduler_def
        split: option.splits)
  have same: "s1 = s" "s2 = s" "s3 = s"
    using capture_root_state [OF c(1)] unchanged_state [OF u]
      observesD [OF record_output_observes ro] by auto
  have st: "normal_state (transition_state t)" "st = transition_state t"
    using n by (auto simp: result_simps)
  show thesis
    by (rule that [OF o none, of "\<lparr>recorded_role = role, recorded_transition = t,
            recorded_state_sha256 = state_sha256_of cb st, recorded_output_sha256 = digest\<rparr>"])
       (use s' same st e l capture_root_Inr(4) [OF c(1)] c(2) in
         \<open>auto simp: recorded_ok_def Let_def\<close>)
qed

lemma abort_Inr:
  assumes "abort_round cb request rnd s = (Inr (), s')"
  shows "\<exists>r. open_round_of (scheduler s) = Some r \<and> open_request_id r = request
           \<and> open_round_index r = rnd"
    and "scheduler s' = (scheduler s)\<lparr>open_round_of := None\<rparr>"
  using assms capture_root_state
  by (auto simp: abort_round_def action_simps set_scheduler_def split: option.splits)

lemma consume_Inr:
  assumes "consume_verified_advance cb request rnd sha tokens s = (Inr v, s')"
  obtains a where "pending_advance (scheduler s) = Some a"
    and "scheduler s' = (scheduler s)\<lparr>pending_advance := None\<rparr>"
    and "v = \<lparr>vllm_request_id = advance_request_id a, vllm_round_index = advance_round_index a,
              vllm_intent_sha256 = advance_intent_sha256 a, vllm_token_ids = advance_token_ids a,
              vllm_output_sha256 = advance_output_sha256 a, vllm_output = advance_output a\<rparr>"
    and "(request, rnd, sha, tokens) = (advance_request_id a, advance_round_index a,
              advance_intent_sha256 a, advance_token_ids a)"
    and "output_tokens_of cb (advance_output a) (advance_request_id a) (physical s)
           = Some (advance_token_ids a)"
  using assms fingerprint_state tokens_state
  by (fastforce simp: consume_verified_advance_def action_simps set_scheduler_def
      tokens_from_output_def split: option.splits if_splits)

lemma check_selected_Inr:
  assumes "check_selected cb opened recorded t s = (Inr (m, digest), s')"
  shows "s' = s" "model_output t = Some m" "recorded_output_sha256 recorded = Some digest"
    "transition_tokens (recorded_transition recorded) = transition_tokens t"
    "normal_state (transition_state t)"
    "recorded_state_sha256 recorded = state_sha256_of cb (transition_state t)"
    "output_tokens_of cb m (open_request_id opened) (physical s) = Some (transition_tokens t)"
    "output_sha256_of cb m (physical s) = Some digest"
proof -
  show "s' = s" by (rule observesD [OF check_selected_observes assms])
  from assms obtain now tokens s1 s2 where
    m: "model_output t = Some m" "recorded_output_sha256 recorded = Some digest"
      "transition_tokens (recorded_transition recorded) = transition_tokens t"
      "normal_state (transition_state t)"
      "recorded_state_sha256 recorded = state_sha256_of cb (transition_state t)"
    and f: "fingerprint_output cb m s = (Inr now, s1)" "now = digest"
    and k: "tokens_from_output cb m (open_request_id opened) s1 = (Inr tokens, s2)"
      "tokens = transition_tokens t"
    by (auto simp: check_selected_def action_simps result_simps split: option.splits)
  show "model_output t = Some m" "recorded_output_sha256 recorded = Some digest"
      "transition_tokens (recorded_transition recorded) = transition_tokens t"
      "normal_state (transition_state t)"
      "recorded_state_sha256 recorded = state_sha256_of cb (transition_state t)"
    by (fact m)+
  show "output_sha256_of cb m (physical s) = Some digest"
    using f by (auto simp: fingerprint_output_def split: option.splits if_splits)
  show "output_tokens_of cb m (open_request_id opened) (physical s) = Some (transition_tokens t)"
    using k fingerprint_state [OF f(1)]
    by (auto simp: tokens_from_output_def split: option.splits if_splits)
qed

definition advance_of ::
  "'m provisional_round \<Rightarrow> physical_root \<Rightarrow> 'm option private_transition \<Rightarrow> string \<Rightarrow> string \<Rightarrow> 'm
   \<Rightarrow> 'm verified_advance" where
  "advance_of opened root t intent_sha digest m =
     \<lparr>advance_request_id = open_request_id opened, advance_round_index = open_round_index opened,
      advance_root_id = root_id root, advance_token_ids = transition_tokens t,
      advance_intent_sha256 = intent_sha, advance_output_sha256 = digest, advance_output = m\<rparr>"

lemma publish_Inr:
  assumes "publish_transition cb snapshot t sha s = (Inr p, s')"
  obtains r role x m digest where
    "open_round_of (scheduler s) = Some r" "pending_advance (scheduler s) = None"
    "snapshot = base_root_id r" "is_sha256 sha"
    "selected_role r (transition_handle t) = Some role" "result_of role r = Some x"
    "transition_tokens t \<noteq> []" "model_output t = Some m"
    "transition_tokens (recorded_transition x) = transition_tokens t"
    "recorded_state_sha256 x = state_sha256_of cb (transition_state t)"
    "output_tokens_of cb m (open_request_id r) (physical s) = Some (transition_tokens t)"
    "capture_complete_state cb (root_of_role role r) (physical s) = Some (transition_state t)"
    "binding_ok cb (canonical (scheduler s'))"
    "binding_state (canonical (scheduler s')) = transition_state t"
    "storage (canonical (scheduler s')) = root_of_role role r"
    "spare_roots (scheduler s') =
       (storage (canonical (scheduler s)), root_of_role (other_role role) r)"
    "open_round_of (scheduler s') = None"
    "pending_advance (scheduler s') = Some (advance_of r (root_of_role role r) t sha digest m)"
    "published_state p = transition_state t" "published_role p = role"
proof -
  let ?a = "scheduler s"
  from assms obtain r role x m digest s1 before s2 selected s3 bound s4 where
    o: "open_round_of ?a = Some r" "pending_advance ?a = None"
      "snapshot = base_root_id r" "sha256_value sha = Inr ()"
    and role: "selected_role r (transition_handle t) = Some role" "result_of role r = Some x"
    and sel: "check_selected cb r x t s = (Inr (m, digest), s1)"
    and ne: "transition_tokens t \<noteq> []"
    and cap: "capture_root cb (storage (canonical ?a)) s1 = (Inr before, s2)"
      "capture_root cb (root_of_role role r) s2 = (Inr selected, s3)"
      "Inr (binding_state selected) = normalize_state (transition_state t)"
    and bnd: "binding_of cb (root_of_role role r) (transition_state t) = Inr bound"
    and prep: "prepare_physical (prepare_atomic_publication cb (root_id (storage (canonical ?a)))
                     (root_id (root_of_role role r))) s3 = (Inr True, s4)"
    and p: "p = \<lparr>published_state = binding_state bound, published_atomic = True,
                published_root_id = root_id (root_of_role role r),
                published_role = role, published_intent_sha256 = sha\<rparr>"
    and s': "s' = s4\<lparr>scheduler := \<lparr>canonical = bound,
               spare_roots = (storage (canonical ?a), root_of_role (other_role role) r),
               open_round_of = None,
               pending_advance = Some (advance_of r (root_of_role role r) t sha digest m)\<rparr>\<rparr>"
    by (auto simp: publish_transition_def action_simps result_simps set_scheduler_def Let_def
        advance_of_def split: option.splits if_splits)
  note c = check_selected_Inr [OF sel]
  note b = binding_of_Inr [OF bnd]
  have s2: "s2 = s" using capture_root_state [OF cap(1)] c(1) by simp
  have "binding_state selected = transition_state t"
    using cap(3) c(5) by (simp add: normal_state_def)
  then have phys: "capture_complete_state cb (root_of_role role r) (physical s)
      = Some (transition_state t)"
    using capture_root_Inr(4) [OF cap(2)] s2 by simp
  show thesis
    by (rule that [OF o(1,2,3) _ role ne c(2,4,6,7) phys])
       (use o(4) b s' p in \<open>simp_all add: sha256_value_def result_simps\<close>)
qed

subsection \<open>Reachable states\<close>

definition vllm_advance_of :: "'m verified_advance \<Rightarrow> 'm vllm_advance" where
  "vllm_advance_of a =
     \<lparr>vllm_request_id = advance_request_id a, vllm_round_index = advance_round_index a,
      vllm_intent_sha256 = advance_intent_sha256 a, vllm_token_ids = advance_token_ids a,
      vllm_output_sha256 = advance_output_sha256 a, vllm_output = advance_output a\<rparr>"

definition advance_slot :: "('w, 'm) authority \<Rightarrow> 'm vllm_advance option" where
  "advance_slot s = map_option vllm_advance_of (pending_advance (scheduler s))"

text \<open>
  One step of the authority: a method with any arguments and any outcome, or an arbitrary
  change of the physical memory (the workers run between the methods).
\<close>

inductive authority_step ::
  "('w, 'm) root_callbacks \<Rightarrow> ('w, 'm) authority \<Rightarrow> 'm vllm_advance handoff \<Rightarrow> ('w, 'm) authority \<Rightarrow> bool"
  for cb where
    step_memory: "authority_step cb s Other (s\<lparr>physical := w\<rparr>)"
  | step_begin: "begin_round cb request rnd s = (r, s') \<Longrightarrow> authority_step cb s Other s'"
  | step_record: "record_private_transition cb role t s = (u, s') \<Longrightarrow> authority_step cb s Other s'"
  | step_abort: "abort_round cb request rnd s = (u, s') \<Longrightarrow> authority_step cb s Other s'"
  | step_refused: "publish_transition cb snapshot t sha s = (Inl e, s') \<Longrightarrow>
      authority_step cb s Other s'"
  | step_publish: "publish_transition cb snapshot t sha s = (Inr p, s') \<Longrightarrow>
      advance_slot s' = Some v \<Longrightarrow> authority_step cb s (Put v) s'"
  | step_unconsumed: "consume_verified_advance cb request rnd sha tokens s = (Inl e, s') \<Longrightarrow>
      authority_step cb s Other s'"
  | step_consume: "consume_verified_advance cb request rnd sha tokens s = (Inr v, s') \<Longrightarrow>
      authority_step cb s (Take v) s'"

inductive_cases authority_stepE: "authority_step cb s e s'"

lemma selected_role_distinct:
  "selected_role r handle = Some role \<Longrightarrow> handle = root_id (root_of_role role r)"
  by (auto simp: selected_role_def split: if_splits)

lemma with_result_simps [simp]:
  "candidate_root (with_result role x r) = candidate_root r"
  "serial_root (with_result role x r) = serial_root r"
  "base_root_id (with_result role x r) = base_root_id r"
  "base_state_sha256 (with_result role x r) = base_state_sha256 r"
  "open_request_id (with_result role x r) = open_request_id r"
  "result_of role' (with_result role x r) = (if role' = role then Some x else result_of role' r)"
  by (cases role; cases role'; simp)+

lemma fails_sched:
  "fails_keeping same_scheduler m \<Longrightarrow> m s = (Inl e, s') \<Longrightarrow> scheduler s' = scheduler s"
  by (auto dest: fails_keepingD simp: same_scheduler_def)

lemma authority_step_invariant:
  assumes "authority_step cb s e s'" and inv: "authority_invariant cb (scheduler s)"
  shows "authority_invariant cb (scheduler s')"
  using assms(1)
proof (cases rule: authority_step.cases)
  case (step_begin request rnd r)
  show ?thesis
  proof (cases r)
    case (Inl x)
    then show ?thesis
      using step_begin inv by (auto dest: fails_sched [OF methods_fail_safely(1)])
  next
    case (Inr x)
    with step_begin have b: "begin_round cb request rnd s = (Inr x, s')" by simp
    have "result_of role x = None" for role
      using begin_round_Inr(4) [OF b] by (cases role) simp_all
    then show ?thesis
      using inv begin_round_Inr(2,3,4,5) [OF b]
      by (auto simp: authority_invariant_def round_ok_def)
  qed
next
  case (step_record role t u)
  show ?thesis
  proof (cases u)
    case (Inl x)
    then show ?thesis
      using step_record inv by (auto dest: fails_sched [OF methods_fail_safely(2)])
  next
    case (Inr x)
    with step_record have "record_private_transition cb role t s = (Inr (), s')" by simp
    then show ?thesis
      by (rule record_Inr)
         (use inv in \<open>auto simp: authority_invariant_def round_ok_def split: if_splits\<close>)
  qed
next
  case (step_abort request rnd u)
  show ?thesis
  proof (cases u)
    case (Inl x)
    then show ?thesis
      using step_abort inv by (auto dest: fails_sched [OF methods_fail_safely(3)])
  next
    case (Inr x)
    with step_abort have "abort_round cb request rnd s = (Inr (), s')" by simp
    then show ?thesis
      using inv abort_Inr(2) by (fastforce simp: authority_invariant_def)
  qed
next
  case (step_publish snapshot t sha p v)
  from step_publish(2) show ?thesis
  proof (rule publish_Inr, goal_cases)
    case (1 r role x m digest)
    have "round_ok cb (scheduler s) r" using inv 1(1) by (simp add: authority_invariant_def)
    then have spare: "spare_roots (scheduler s) = (candidate_root r, serial_root r)"
      by (simp add: round_ok_def)
    have trio: "root_trio (storage (canonical (scheduler s))) (candidate_root r) (serial_root r)"
      using inv spare by (simp add: authority_invariant_def)
    have "root_trio (root_of_role role r) (storage (canonical (scheduler s)))
        (root_of_role (other_role role) r)"
      using root_trio_rotate [OF trio] by (cases role) simp_all
    then show ?case
      using 1 by (simp add: authority_invariant_def advance_of_def)
  qed
next
  case (step_refused snapshot t sha x)
  then show ?thesis
    using inv by (auto dest: fails_sched [OF methods_fail_safely(4)])
next
  case (step_unconsumed request rnd sha tokens x)
  then show ?thesis
    using inv by (auto dest: fails_sched [OF methods_fail_safely(5)])
next
  case (step_consume request rnd sha tokens v)
  from step_consume(2) show ?thesis
    by (rule consume_Inr) (use inv in \<open>auto simp: authority_invariant_def round_ok_def\<close>)
qed (use inv in auto)

lemma new_authority_invariant:
  assumes "new_authority cb root st spare1 spare2 w = Inr s"
  shows "authority_invariant cb (scheduler s)" "advance_slot s = None"
proof -
  from assms obtain bound where "validate_root_set [root, spare1, spare2] = Inr ()"
    "binding_of cb root st = Inr bound"
    "s = \<lparr>scheduler = \<lparr>canonical = bound, spare_roots = (spare1, spare2),
                          open_round_of = None, pending_advance = None\<rparr>, physical = w\<rparr>"
    by (auto simp: new_authority_def result_simps Let_def split: if_splits)
  then show "authority_invariant cb (scheduler s)" "advance_slot s = None"
    using binding_of_Inr [of cb root st bound]
    by (auto simp: authority_invariant_def validate_root_set_three advance_slot_def)
qed

subsection \<open>The hand-off of verified advances\<close>

text \<open>What the scheduler commits to: the canonical binding and the pending advance.\<close>

definition settled :: "('w, 'm) authority \<Rightarrow> canonical_binding \<times> 'm verified_advance option" where
  "settled s = (canonical (scheduler s), pending_advance (scheduler s))"

lemma fails_settled:
  "fails_keeping same_scheduler m \<Longrightarrow> m s = (Inl e, s') \<Longrightarrow> settled s' = settled s"
  by (auto dest: fails_keepingD simp: same_scheduler_def settled_def)

lemma authority_other_settled:
  assumes "authority_step cb s Other s'"
  shows "settled s' = settled s"
  using assms
proof (cases rule: authority_step.cases)
  case (step_begin request rnd r)
  show ?thesis
  proof (cases r)
    case (Inl x)
    then show ?thesis using fails_settled [OF methods_fail_safely(1)] step_begin by blast
  next
    case (Inr x)
    then show ?thesis
      using begin_round_Inr(3) step_begin by (fastforce simp: settled_def)
  qed
next
  case (step_record role t u)
  show ?thesis
  proof (cases u)
    case (Inl x)
    then show ?thesis using fails_settled [OF methods_fail_safely(2)] step_record by blast
  next
    case (Inr x)
    with step_record have "record_private_transition cb role t s = (Inr (), s')" by simp
    then show ?thesis by (rule record_Inr) (simp add: settled_def)
  qed
next
  case (step_abort request rnd u)
  show ?thesis
  proof (cases u)
    case (Inl x)
    then show ?thesis using fails_settled [OF methods_fail_safely(3)] step_abort by blast
  next
    case (Inr x)
    with step_abort have "abort_round cb request rnd s = (Inr (), s')" by simp
    then show ?thesis using abort_Inr(2) by (fastforce simp: settled_def)
  qed
next
  case (step_refused snapshot t sha x)
  then show ?thesis using fails_settled [OF methods_fail_safely(4)] by blast
next
  case (step_unconsumed request rnd sha tokens x)
  then show ?thesis using fails_settled [OF methods_fail_safely(5)] by blast
qed (auto simp: settled_def)

interpretation authority_handoff: one_shot "authority_step cb" advance_slot for cb
proof unfold_locales
  fix s v s'
  assume "authority_step cb s (Put v) s'"
  then obtain snapshot t sha p where "publish_transition cb snapshot t sha s = (Inr p, s')"
    "advance_slot s' = Some v" by (auto elim: authority_stepE)
  then show "advance_slot s = None \<and> advance_slot s' = Some v"
    by (elim publish_Inr) (simp add: advance_slot_def)
next
  fix s v s'
  assume "authority_step cb s (Take v) s'"
  then obtain request rnd sha tokens where
    "consume_verified_advance cb request rnd sha tokens s = (Inr v, s')"
    by (auto elim: authority_stepE)
  then show "advance_slot s = Some v \<and> advance_slot s' = None"
    by (elim consume_Inr) (simp add: advance_slot_def vllm_advance_of_def)
qed (auto dest!: authority_other_settled simp: advance_slot_def settled_def)

subsection \<open>What a publication adds to the canonical state\<close>

text \<open>
  The digest of a state determines its commit epoch and its length: all that the
  accounting below needs of the absence of collisions.
\<close>

definition digest_fixes_counters :: "('w, 'm) root_callbacks \<Rightarrow> bool" where
  "digest_fixes_counters cb \<longleftrightarrow>
     (\<forall>st st'. normal_state st \<longrightarrow> normal_state st' \<longrightarrow>
        state_sha256_of cb st = state_sha256_of cb st' \<longrightarrow>
        commit_epoch st = commit_epoch st' \<and> logical_length st = logical_length st')"

lemma digest_fixes_countersD:
  "digest_fixes_counters cb \<Longrightarrow> normal_state st \<Longrightarrow> normal_state st' \<Longrightarrow>
     state_sha256_of cb st = state_sha256_of cb st' \<Longrightarrow>
     commit_epoch st = commit_epoch st' \<and> logical_length st = logical_length st'"
  unfolding digest_fixes_counters_def by blast

definition canonical_counters :: "('w, 'm) authority \<Rightarrow> int \<times> int" where
  "canonical_counters s =
     (let st = binding_state (canonical (scheduler s)) in (commit_epoch st, logical_length st))"

fun advanced_by :: "'m vllm_advance handoff \<Rightarrow> int \<times> int" where
  "advanced_by (Put v) = (1, int (length (vllm_token_ids v)))"
| "advanced_by (Take v) = (0, 0)"
| "advanced_by Other = (0, 0)"

lemma authority_step_counters:
  assumes step: "authority_step cb s e s'" and inv: "authority_invariant cb (scheduler s)"
    and fixed: "digest_fixes_counters cb"
  shows "canonical_counters s' = (fst (canonical_counters s) + fst (advanced_by e),
                                  snd (canonical_counters s) + snd (advanced_by e))"
proof (cases e)
  case Other
  then show ?thesis
    using authority_other_settled step by (force simp: canonical_counters_def settled_def)
next
  case (Take v)
  with step obtain request rnd sha tokens where
    "consume_verified_advance cb request rnd sha tokens s = (Inr v, s')"
    by (auto elim: authority_stepE)
  then show ?thesis using Take by (elim consume_Inr) (simp add: canonical_counters_def)
next
  case (Put v)
  with step obtain snapshot t sha p where
    pub: "publish_transition cb snapshot t sha s = (Inr p, s')" and v: "advance_slot s' = Some v"
    by (auto elim: authority_stepE)
  from pub show ?thesis
  proof (rule publish_Inr, goal_cases)
    case (1 r role x m digest)
    have "recorded_ok cb (binding_state (canonical (scheduler s))) x"
      using inv 1 by (auto simp: authority_invariant_def round_ok_def)
    moreover have "normal_state (transition_state t)"
      using 1 by (simp add: binding_ok_def)
    moreover have "vllm_token_ids v = transition_tokens t"
      using v 1 by (auto simp: advance_slot_def vllm_advance_of_def advance_of_def)
    ultimately show ?case
      using 1 Put digest_fixes_countersD [OF fixed, of "transition_state (recorded_transition x)"
          "transition_state t"]
      by (simp add: recorded_ok_def canonical_counters_def Let_def)
  qed
qed

end
