(* ===== verification/Authority_Properties.thy ===== *)
theory Authority_Properties
  imports Authority_Safety Demo_Driver
begin

section \<open>Properties of the scheduler authority\<close>

text \<open>
  The claims about \<open>SchedulerRootAuthority\<close> and a concrete authority on which they are
  evaluated: the physical memory maps a root's identifier to the state stored there, and a
  model output is its list of tokens.
\<close>

subsection \<open>A concrete authority\<close>

definition demo_root :: "string \<Rightarrow> int \<Rightarrow> physical_root" where
  "demo_root rid b =
     \<lparr>root_id = rid, root_request_id = ''request'', root_allocator_generation = 0,
      target_blocks = replicate TARGET_KV_LAYER_COUNT [0, b],
      draft_blocks = replicate DRAFT_LAYER_COUNT [b],
      writable_target_blocks = replicate TARGET_KV_LAYER_COUNT [b],
      writable_draft_blocks = replicate DRAFT_LAYER_COUNT [b],
      gdn_slots = map (\<lambda>i. b * 100 + int i) [0..<GDN_LAYER_COUNT],
      convolution_slots = map (\<lambda>i. b * 100 + int i) [0..<GDN_LAYER_COUNT],
      position_state_id = rid, decoding_state_id = rid\<rparr>"

definition unary :: "live_state \<Rightarrow> string" where
  "unary st = replicate (nat (commit_epoch st)) CHR ''1'' @ CHR ''0''
              # replicate (nat (logical_length st)) CHR ''1''"

type_synonym demo_memory = "string \<Rightarrow> live_state"

definition demo_callbacks :: "(demo_memory, int list) root_callbacks" where
  "demo_callbacks =
     \<lparr>state_sha256_of = unary,
      output_sha256_of = (\<lambda>m w. Some zero_sha256),
      output_tokens_of = (\<lambda>m request w. Some m),
      prepare_private_roots = (\<lambda>base c k w.
        (True, w(root_id c := w (root_id base), root_id k := w (root_id base)))),
      capture_complete_state = (\<lambda>root w. Some (w (root_id root))),
      prepare_atomic_publication = (\<lambda>old new w. (True, w))\<rparr>"

definition root_a :: physical_root where "root_a = demo_root ''a'' 1"
definition root_b :: physical_root where "root_b = demo_root ''b'' 2"
definition root_c :: physical_root where "root_c = demo_root ''c'' 3"

lemma demo_root_valid: "physical_root_check root_a = Inr ()" "physical_root_check root_b = Inr ()"
  by (simp_all add: physical_root_check_def root_a_def root_b_def demo_root_def
      authority_identifier_def block_groups_def writable_inside_def slots_check_def
      layer_counts result_simps list_all_iff distinct_map inj_on_def in_set_zip)

lemma unary_prefix:
  "replicate m CHR ''1'' @ CHR ''0'' # xs = replicate n CHR ''1'' @ CHR ''0'' # ys \<longleftrightarrow> m = n \<and> xs = ys"
proof (induction m arbitrary: n)
  case 0
  then show ?case by (cases n) auto
next
  case (Suc m)
  then show ?case by (cases n) auto
qed

lemma demo_digest: "digest_fixes_counters demo_callbacks"
proof -
  have "commit_epoch st = commit_epoch st' \<and> logical_length st = logical_length st'"
    if "normal_state st" "normal_state st'" "unary st = unary st'" for st st'
    using that normal_state_nonneg [of st] normal_state_nonneg [of st']
    by (simp add: unary_def unary_prefix) linarith
  then show ?thesis
    unfolding digest_fixes_counters_def demo_callbacks_def root_callbacks.simps by blast
qed

fun owned :: "int \<Rightarrow> string \<Rightarrow> resource \<Rightarrow> bool" where
  "owned b rid (TargetBlock i v) = (v = b)"
| "owned b rid (DraftBlock i v) = (v = b)"
| "owned b rid (GdnSlot v) = (v div 100 = b)"
| "owned b rid (ConvolutionSlot v) = (v div 100 = b)"
| "owned b rid (PositionResource p) = (p = rid)"
| "owned b rid (DecodingResource p) = (p = rid)"

lemma demo_block_resources:
  "block_resources mk (replicate n xs) = (\<Union>i<n. mk i ` set xs)"
  by (auto simp: block_resources_def enumerate_replicate_eq)

lemma demo_slot_resources:
  assumes "x \<in> slot_resources (demo_root rid b)" shows "owned b rid x"
  using assms by (auto simp: slot_resources_def demo_root_def layer_counts)

lemma demo_resources:
  "x \<in> writable_resource_ids (demo_root rid b) \<Longrightarrow> owned b rid x"
  "x \<in> all_resource_ids (demo_root rid b) \<Longrightarrow> owned b rid x \<or> (\<exists>i. x = TargetBlock i 0)"
  using demo_slot_resources [of x rid b]
  by (auto simp: writable_resource_ids_def all_resource_ids_def demo_block_resources)
     (auto simp: demo_root_def demo_block_resources)

lemma demo_no_alias:
  assumes "b \<noteq> c" "b \<noteq> 0" "c \<noteq> 0" "rid \<noteq> rid'"
  shows "\<not> aliases (demo_root rid b) (demo_root rid' c)"
proof -
  have "\<not> (owned b rid x \<and> owned c rid' x)" for x
    using assms by (cases x) auto
  then show ?thesis
    using assms demo_resources [of _ rid b] demo_resources [of _ rid' c]
    unfolding aliases_def by (metis disjoint_iff owned.simps(1))
qed

lemma demo_trio: "root_trio root_a root_b root_c"
  by (simp add: root_trio_def root_a_def root_b_def root_c_def demo_no_alias)
     (simp add: demo_root_def)


definition demo_memory :: demo_memory where "demo_memory = (\<lambda>_. demo_before)"

definition authority_0 :: "(demo_memory, int list) authority" where
  "authority_0 =
     \<lparr>scheduler = \<lparr>canonical = \<lparr>storage = root_a, binding_state = demo_before,
                                binding_sha256 = unary demo_before\<rparr>,
                  spare_roots = (root_b, root_c), open_round_of = None, pending_advance = None\<rparr>,
      physical = demo_memory\<rparr>"

definition demo_step :: "int list option private_transition" where
  "demo_step = \<lparr>transition_handle = ''c'', implementation_family = ''serial_oracle'',
                transition_tokens = [7], transition_state = demo_after, model_output = Some [7]\<rparr>"

definition authority_1 :: "(demo_memory, int list) authority" where
  "authority_1 = snd (begin_round demo_callbacks ''request'' 0 authority_0)"
definition authority_2 :: "(demo_memory, int list) authority" where
  "authority_2 = authority_1\<lparr>physical := demo_memory(''c'' := demo_after)\<rparr>"
definition authority_3 :: "(demo_memory, int list) authority" where
  "authority_3 = snd (record_private_transition demo_callbacks SerialRole demo_step authority_2)"
definition authority_4 :: "(demo_memory, int list) authority" where
  "authority_4 = snd (publish_transition demo_callbacks ''a'' demo_step zero_sha256 authority_3)"
definition authority_5 :: "(demo_memory, int list) authority" where
  "authority_5 = snd (consume_verified_advance demo_callbacks ''request'' 0 zero_sha256 [7] authority_4)"

definition demo_advance :: "int list vllm_advance" where
  "demo_advance =
     \<lparr>vllm_request_id = ''request'', vllm_round_index = 0, vllm_intent_sha256 = zero_sha256,
      vllm_token_ids = [7], vllm_output_sha256 = zero_sha256, vllm_output = [7]\<rparr>"

definition demo_opened :: "int list provisional_round" where
  "demo_opened =
     \<lparr>open_request_id = ''request'', open_round_index = 0, base_root_id = ''a'',
      base_state_sha256 = unary demo_before, open_allocator_generation = 0,
      candidate_root = root_b, serial_root = root_c,
      candidate_result = None, serial_result = None\<rparr>"

lemma demo_roots [simp]:
  "root_id root_a = ''a''" "root_id root_b = ''b''" "root_id root_c = ''c''"
  "root_request_id root_a = ''request''"
  "root_allocator_generation root_a = 0" "root_allocator_generation root_b = 0"
  "root_allocator_generation root_c = 0"
  by (simp_all add: root_a_def root_b_def root_c_def demo_root_def)

lemma demo_callbacks_simps [simp]:
  "state_sha256_of demo_callbacks = unary"
  "output_sha256_of demo_callbacks m w = Some zero_sha256"
  "output_tokens_of demo_callbacks m request w = Some m"
  "prepare_private_roots demo_callbacks base c k w =
     (True, w(root_id c := w (root_id base), root_id k := w (root_id base)))"
  "capture_complete_state demo_callbacks root w = Some (w (root_id root))"
  "prepare_atomic_publication demo_callbacks old new w = (True, w)"
  by (simp_all add: demo_callbacks_def)

lemma demo_generation [simp]:
  "allocator_generation demo_before = 0" "allocator_generation demo_after = 0"
  by (simp_all add: demo_before_def demo_after_def)

lemma demo_binding [simp]:
  "root_allocator_generation root = 0 \<Longrightarrow> binding_of demo_callbacks root demo_before =
     Inr \<lparr>storage = root, binding_state = demo_before, binding_sha256 = unary demo_before\<rparr>"
  "root_allocator_generation root = 0 \<Longrightarrow> binding_of demo_callbacks root demo_after =
     Inr \<lparr>storage = root, binding_state = demo_after, binding_sha256 = unary demo_after\<rparr>"
  by (simp_all add: binding_of_def)

lemma demo_root_set [simp]: "validate_root_set [root_a, root_b, root_c] = Inr ()"
  by (simp add: validate_root_set_three demo_trio)

lemmas demo_authority_eval =
  sbind_def assert_that_def capture_root_def require_canonical_unchanged_def
  prepare_physical_def set_scheduler_def check_prepared_def fingerprint_output_def
  tokens_from_output_def

lemma demo_new: "new_authority demo_callbacks root_a demo_before root_b root_c demo_memory = Inr authority_0"
  by (simp add: new_authority_def authority_0_def capture_root_def Let_def demo_memory_def)

lemma demo_begin:
  "begin_round demo_callbacks ''request'' 0 authority_0 = (Inr demo_opened, authority_1)"
  unfolding authority_1_def
  by (simp add: begin_round_def demo_authority_eval authority_0_def Let_def demo_opened_def
      demo_memory_def)

lemma authority_1: "scheduler authority_1 = (scheduler authority_0)\<lparr>open_round_of := Some demo_opened\<rparr>"
  by (rule begin_round_Inr(3) [OF demo_begin])

lemmas demo_records =
  authority_0_def demo_opened_def demo_step_def demo_memory_def

lemma demo_record:
  "record_private_transition demo_callbacks SerialRole demo_step authority_2 = (Inr (), authority_3)"
  unfolding authority_3_def
  by (simp add: record_private_transition_def record_output_def demo_authority_eval demo_records
      authority_2_def authority_1)

definition demo_recorded :: "int list recorded_transition" where
  "demo_recorded = \<lparr>recorded_role = SerialRole, recorded_transition = demo_step,
     recorded_state_sha256 = unary demo_after, recorded_output_sha256 = Some zero_sha256\<rparr>"

lemma authority_3:
  "scheduler authority_3 =
     (scheduler authority_0)\<lparr>open_round_of := Some (demo_opened\<lparr>serial_result := Some demo_recorded\<rparr>)\<rparr>"
  "physical authority_3 = demo_memory(''c'' := demo_after)"
  unfolding authority_3_def
  by (simp_all add: record_private_transition_def record_output_def demo_authority_eval demo_records
      authority_2_def authority_1 demo_recorded_def)

lemma demo_publish:
  "\<exists>p. publish_transition demo_callbacks ''a'' demo_step zero_sha256 authority_3 = (Inr p, authority_4)"
  unfolding authority_4_def
  by (simp add: publish_transition_def check_selected_def selected_role_def demo_authority_eval
      demo_records authority_3 demo_recorded_def)

lemma authority_4:
  "canonical (scheduler authority_4) =
     \<lparr>storage = root_c, binding_state = demo_after, binding_sha256 = unary demo_after\<rparr>"
  "advance_slot authority_4 = Some demo_advance"
  unfolding authority_4_def
  by (simp_all add: publish_transition_def check_selected_def selected_role_def demo_authority_eval
      demo_records authority_3 demo_recorded_def advance_slot_def vllm_advance_of_def
      demo_advance_def)

lemma demo_consume:
  "consume_verified_advance demo_callbacks ''request'' 0 zero_sha256 [7] authority_4
     = (Inr demo_advance, authority_5)"
  unfolding authority_5_def
  using authority_4(2)
  by (auto simp: consume_verified_advance_def demo_authority_eval advance_slot_def
      vllm_advance_of_def demo_advance_def)

lemma demo_session:
  "steps (authority_step demo_callbacks) authority_0
     [Other, Other, Other, Put demo_advance, Take demo_advance] authority_5"
proof -
  have "authority_step demo_callbacks authority_0 Other authority_1"
    by (rule step_begin [OF demo_begin])
  moreover have "authority_step demo_callbacks authority_1 Other authority_2"
    unfolding authority_2_def by (rule step_memory)
  moreover have "authority_step demo_callbacks authority_2 Other authority_3"
    by (rule step_record [OF demo_record])
  moreover have "authority_step demo_callbacks authority_3 (Put demo_advance) authority_4"
    using demo_publish authority_4(2) by (auto intro: step_publish)
  moreover have "authority_step demo_callbacks authority_4 (Take demo_advance) authority_5"
    by (rule step_consume [OF demo_consume])
  ultimately show ?thesis by (auto simp: steps_simps)
qed


subsection \<open>The properties\<close>

lemma authority_session_invariant:
  assumes "new_authority cb root st spare1 spare2 w = Inr s0"
    and "steps (authority_step cb) s0 es s"
  shows "authority_invariant cb (scheduler s)"
  using steps_invariant [where I = "\<lambda>s. authority_invariant cb (scheduler s)",
      OF assms(2) new_authority_invariant(1) [OF assms(1)]] authority_step_invariant
  by blast

lemma session_counters:
  assumes "steps (authority_step cb) s0 es s" and "authority_invariant cb (scheduler s0)"
    and "digest_fixes_counters cb"
  shows "canonical_counters s =
     (fst (canonical_counters s0) + int (length (puts es)),
      snd (canonical_counters s0) + sum_list (map (\<lambda>v. int (length (vllm_token_ids v))) (puts es)))"
  using assms(1,2)
proof (induction rule: steps.induct)
  case (steps_step s e s' es s'')
  note one = authority_step_counters [OF steps_step.hyps(1) steps_step.prems assms(3)]
  have "authority_invariant cb (scheduler s')"
    by (rule authority_step_invariant [OF steps_step.hyps(1) steps_step.prems])
  from steps_step.IH [OF this] one show ?case
    by (cases e) simp_all
qed simp

text \<open>
  C11: Accounting of a request's whole life.  Take an authority as its constructor returns
  it and any sequence of its methods, with any arguments and outcomes and with arbitrary
  changes of the physical memory in between.  The advances taken by the scheduler
  followed by the one still pending are the advances published, in order; the commit
  epoch of the canonical state has grown by the number of publications and its logical
  length by the number of their tokens.  The only assumption is that the state digest
  fixes these two counters.
\<close>

theorem published_advances_account_for_canonical:
  assumes "new_authority cb root st spare1 spare2 w = Inr s0"
    and "digest_fixes_counters cb"
    and "steps (authority_step cb) s0 es s"
  shows "puts es = takes es @ held (advance_slot s)
    \<and> commit_epoch (binding_state (canonical (scheduler s))) = commit_epoch st + int (length (puts es))
    \<and> logical_length (binding_state (canonical (scheduler s)))
        = logical_length st + sum_list (map (\<lambda>v. int (length (vllm_token_ids v))) (puts es))"
proof -
  note fresh = new_authority_invariant [OF assms(1)]
  have "binding_state (canonical (scheduler s0)) = st"
    using assms(1) binding_of_Inr(3)
    by (fastforce simp: new_authority_def result_simps Let_def split: if_splits)
  then show ?thesis
    using authority_handoff.conservation [OF assms(3)] fresh(2)
      session_counters [OF assms(3) fresh(1) assms(2)]
    by (simp add: canonical_counters_def Let_def)
qed

theorem published_advances_account_for_canonical_witness:
  "puts [Other, Other, Other, Put demo_advance, Take demo_advance]
     = takes [Other, Other, Other, Put demo_advance, Take demo_advance] @ held (advance_slot authority_5)
   \<and> logical_length (binding_state (canonical (scheduler authority_5))) = 5"
  using published_advances_account_for_canonical [OF demo_new demo_digest demo_session]
  by (simp add: demo_advance_def)

text \<open>
  C12: Isolation of the roots.  In every state an authority can reach, nothing writable in
  one of its three physical roots (the canonical root and the two private ones) is part of
  another root, the canonical state is normalized and of the root's allocator generation,
  and a round is never open while a published advance waits to be consumed.
\<close>

theorem physical_roots_stay_isolated:
  assumes "new_authority cb root st spare1 spare2 w = Inr s0"
    and "steps (authority_step cb) s0 es s"
  defines "roots \<equiv> [storage (canonical (scheduler s)), fst (spare_roots (scheduler s)),
                     snd (spare_roots (scheduler s))]"
  shows "(\<forall>i j. i < 3 \<longrightarrow> j < 3 \<longrightarrow> i \<noteq> j \<longrightarrow>
            root_id (roots ! i) \<noteq> root_id (roots ! j)
            \<and> writable_resource_ids (roots ! i) \<inter> all_resource_ids (roots ! j) = {})
    \<and> normalize_state (binding_state (canonical (scheduler s)))
        = Inr (binding_state (canonical (scheduler s)))
    \<and> allocator_generation (binding_state (canonical (scheduler s)))
        = root_allocator_generation (storage (canonical (scheduler s)))
    \<and> (open_round_of (scheduler s) = None \<or> pending_advance (scheduler s) = None)"
proof -
  let ?a = "scheduler s"
  note inv = authority_session_invariant [OF assms(1,2)]
  then have trio: "root_trio (roots ! 0) (roots ! 1) (roots ! 2)"
    by (simp add: authority_invariant_def roots_def)
  have "root_id (roots ! i) \<noteq> root_id (roots ! j)
      \<and> writable_resource_ids (roots ! i) \<inter> all_resource_ids (roots ! j) = {}"
    if "i < 3" "j < 3" "i \<noteq> j" for i j
  proof -
    have "i = 0 \<or> i = 1 \<or> i = 2" "j = 0 \<or> j = 1 \<or> j = 2" using that by auto
    then show ?thesis
      using trio that(3) unfolding root_trio_def aliases_def by metis
  qed
  then show ?thesis
    using inv by (auto simp: authority_invariant_def binding_ok_def normal_state_def round_ok_def)
qed

theorem physical_roots_stay_isolated_witness:
  "writable_resource_ids (fst (spare_roots (scheduler authority_5)))
     \<inter> all_resource_ids (storage (canonical (scheduler authority_5))) = {}"
  using physical_roots_stay_isolated [OF demo_new demo_session,
      THEN conjunct1, rule_format, of 1 0]
  by simp

text \<open>
  C13: What a publication publishes.  When a reachable authority publishes a transition, a
  round was open, the transition was recorded for the private root its handle names, that
  root physically holds the published state at this moment, the model output decodes to
  the transition's tokens, and the published state, one epoch and the recorded tokens
  further, becomes canonical in that root while the old canonical root becomes a spare.
\<close>

theorem publication_is_recorded_and_captured:
  assumes "new_authority cb root st spare1 spare2 w = Inr s0"
    and "digest_fixes_counters cb"
    and "steps (authority_step cb) s0 es s"
    and "publish_transition cb snapshot t sha s = (Inr p, s')"
  shows "\<exists>r role x m. open_round_of (scheduler s) = Some r
    \<and> snapshot = root_id (storage (canonical (scheduler s)))
    \<and> result_of role r = Some x
    \<and> transition_tokens (recorded_transition x) = transition_tokens t
    \<and> transition_handle t = root_id (root_of_role role r)
    \<and> model_output t = Some m
    \<and> output_tokens_of cb m (open_request_id r) (physical s) = Some (transition_tokens t)
    \<and> capture_complete_state cb (root_of_role role r) (physical s) = Some (transition_state t)
    \<and> published_state p = transition_state t
    \<and> storage (canonical (scheduler s')) = root_of_role role r
    \<and> binding_state (canonical (scheduler s')) = transition_state t
    \<and> fst (spare_roots (scheduler s')) = storage (canonical (scheduler s))
    \<and> commit_epoch (transition_state t)
        = commit_epoch (binding_state (canonical (scheduler s))) + 1
    \<and> logical_length (transition_state t)
        = logical_length (binding_state (canonical (scheduler s)))
          + int (length (transition_tokens t))"
proof -
  note inv = authority_session_invariant [OF assms(1,3)]
  from assms(4) show ?thesis
  proof (rule publish_Inr, goal_cases)
    case (1 r role x m digest)
    have r: "round_ok cb (scheduler s) r" using inv 1(1) by (simp add: authority_invariant_def)
    then have rec: "recorded_ok cb (binding_state (canonical (scheduler s))) x"
      using 1(6) by (auto simp: round_ok_def)
    moreover have "normal_state (transition_state t)" using 1 by (simp add: binding_ok_def)
    ultimately have "commit_epoch (transition_state t)
        = commit_epoch (binding_state (canonical (scheduler s))) + 1
      \<and> logical_length (transition_state t)
        = logical_length (binding_state (canonical (scheduler s)))
          + int (length (transition_tokens t))"
      using 1 digest_fixes_countersD [OF assms(2), of "transition_state (recorded_transition x)"
          "transition_state t"]
      by (simp add: recorded_ok_def Let_def)
    moreover have "snapshot = root_id (storage (canonical (scheduler s)))"
      using 1(3) r by (simp add: round_ok_def)
    moreover have "transition_handle t = root_id (root_of_role role r)"
      by (rule selected_role_distinct [OF 1(5)])
    ultimately show ?case using 1 by (intro exI conjI) simp_all
  qed
qed

theorem publication_is_recorded_and_captured_witness:
  "logical_length (transition_state demo_step) = 5
   \<and> binding_state (canonical (scheduler authority_4)) = demo_after"
proof -
  obtain p where p: "publish_transition demo_callbacks ''a'' demo_step zero_sha256 authority_3
      = (Inr p, authority_4)" using demo_publish by blast
  have pre: "steps (authority_step demo_callbacks) authority_0 [Other, Other, Other] authority_3"
    using step_begin [OF demo_begin] step_memory [of demo_callbacks authority_1]
      step_record [OF demo_record]
    by (auto simp: steps_simps authority_2_def)
  show ?thesis
    using publication_is_recorded_and_captured [OF demo_new demo_digest pre p]
    by (elim exE conjE) (simp add: authority_3, simp add: authority_0_def demo_step_def)
qed

text \<open>
  C14: A provisional round starts from equal copies.  When a round opens, the canonical
  root still holds the canonical state and both private roots physically hold exactly
  that state, whatever the preparation callback did.
\<close>

theorem round_starts_from_equal_roots:
  assumes "begin_round cb request rnd s = (Inr r, s')"
  shows "request = root_request_id (storage (canonical (scheduler s)))
    \<and> (candidate_root r, serial_root r) = spare_roots (scheduler s)
    \<and> (\<forall>root. root = storage (canonical (scheduler s)) \<or> root = candidate_root r \<or> root = serial_root r
         \<longrightarrow> capture_complete_state cb root (physical s')
               = Some (binding_state (canonical (scheduler s'))))
    \<and> canonical (scheduler s') = canonical (scheduler s)"
  using begin_round_Inr [OF assms] by auto

theorem round_starts_from_equal_roots_witness:
  "capture_complete_state demo_callbacks root_c (physical authority_1) = Some demo_before"
  using round_starts_from_equal_roots [OF demo_begin]
  by (simp add: demo_opened_def authority_0_def)

text \<open>
  A refused method leaves no trace.  Whichever check fails, the canonical binding, the
  spare roots, the open round and the pending advance are those from before the call.
\<close>

theorem refused_method_changes_nothing:
  "(begin_round cb request rnd s = (Inl e, s') \<longrightarrow> scheduler s' = scheduler s)
   \<and> (record_private_transition cb role t s = (Inl e, s') \<longrightarrow> scheduler s' = scheduler s)
   \<and> (abort_round cb request rnd s = (Inl e, s') \<longrightarrow> scheduler s' = scheduler s)
   \<and> (publish_transition cb snapshot t sha s = (Inl e, s') \<longrightarrow> scheduler s' = scheduler s)
   \<and> (consume_verified_advance cb request rnd sha tokens s = (Inl e, s')
       \<longrightarrow> scheduler s' = scheduler s)"
  by (intro conjI impI)
     (erule methods_fail_safely [THEN fails_sched])+

theorem refused_method_changes_nothing_witness:
  "\<exists>s'. begin_round demo_callbacks ''other'' 0 authority_0 = (Inl RequestIdDiffers, s')
        \<and> scheduler s' = scheduler authority_0"
proof -
  have "begin_round demo_callbacks ''other'' 0 authority_0 = (Inl RequestIdDiffers, authority_0)"
    by (simp add: begin_round_def demo_authority_eval authority_0_def)
  then show ?thesis
    using refused_method_changes_nothing [THEN conjunct1, rule_format] by blast
qed

end
