(* ===== verification/Vllm_Driver.thy ===== *)
theory Vllm_Driver
  imports Scheduler_Authority
begin

section \<open>The vLLM driver\<close>

text \<open>
  Model of the operations of \<open>VllmLiveTransitionDriver\<close> of
  \<open>src/qwen_r9700_lab/live_commit_vllm_driver.py\<close>: the adapter that turns the hooks of the
  scheduler and the two worker executors into the driver the controller and the gate call.
  The hooks are code outside the repository (a patched vLLM) and are a record of
  operations over the engine's state \<open>'w\<close>; \<open>'p\<close> is the request payload, whose absence the
  code writes \<open>None\<close>, and \<open>'m\<close> the model output.  The identity checks of the constructor,
  which inspect Python classes and source files, are not modelled.
\<close>

record ('w, 'p, 'm) scheduler_hooks =
  hook_begin_provisional_round ::
    "canonical_snapshot \<Rightarrow> 'p \<Rightarrow> string \<Rightarrow> int \<Rightarrow> ('w, 'p option) driver_op"
  hook_abort_provisional_round :: "string \<Rightarrow> int \<Rightarrow> ('w, unit) driver_op"
  hook_snapshot_canonical :: "('w, canonical_snapshot) driver_op"
  hook_probe_canonical :: "('w, live_state) driver_op"
  hook_record_private_transition ::
    "branch_role \<Rightarrow> 'm option private_transition \<Rightarrow> ('w, unit) driver_op"
  hook_publish_private ::
    "canonical_snapshot \<Rightarrow> 'm option private_transition \<Rightarrow> string \<Rightarrow> ('w, publication) driver_op"
  hook_restore_canonical :: "canonical_snapshot \<Rightarrow> ('w, publication) driver_op"
  hook_destroy_private :: "'m option private_transition \<Rightarrow> ('w, unit) driver_op"
  hook_cleanup_failed_private :: "string \<Rightarrow> string \<Rightarrow> string \<Rightarrow> int \<Rightarrow> ('w, unit) driver_op"
  hook_recover_publication :: "intent \<Rightarrow> ('w, publication_recovery) driver_op"
  hook_model_output_sha256 :: "'m \<Rightarrow> ('w, string) driver_op"
  hook_model_output_token_ids :: "'m \<Rightarrow> string \<Rightarrow> ('w, int list) driver_op"
  hook_consume_verified_advance ::
    "string \<Rightarrow> int \<Rightarrow> string \<Rightarrow> int list \<Rightarrow> ('w, 'm option vllm_advance) driver_op"

record ('w, 'p, 'm) vllm_engine =
  engine_hooks :: "('w, 'p, 'm) scheduler_hooks"
  candidate_execute ::
    "canonical_snapshot \<Rightarrow> 'p \<Rightarrow> int option \<Rightarrow> ('w, 'm option private_transition) driver_op"
  serial_execute ::
    "canonical_snapshot \<Rightarrow> 'p \<Rightarrow> int \<Rightarrow> ('w, 'm option private_transition) driver_op"
  engine_release_sha256 :: string
  engine_serial_sha256 :: string
  engine_candidate_family :: string
  engine_serial_family :: string

definition vllm_error :: "string \<Rightarrow> driver_exception" where
  "vllm_error = DriverException ''VllmLiveCommitDriverError''"

text \<open>\<open>validation._sha256\<close>, whose exception is a driver exception for the caller.\<close>

definition vllm_sha256 :: "string \<Rightarrow> ('w, unit) driver_op" where
  "vllm_sha256 s =
     assert_that (is_sha256 s) (DriverException ''LiveCommitValidationError'' ''invalid digest'')"

definition vllm_begin_provisional_round ::
  "('w, 'p, 'm) vllm_engine \<Rightarrow> canonical_snapshot \<Rightarrow> 'p \<Rightarrow> string \<Rightarrow> int \<Rightarrow> ('w, 'p) driver_op" where
  "vllm_begin_provisional_round eng snapshot payload request rnd =
     sbind (hook_begin_provisional_round (engine_hooks eng) snapshot payload request rnd) (\<lambda>prepared.
     case prepared of
       None \<Rightarrow> raise (vllm_error ''vLLM Scheduler did not return its private round payload'')
     | Some p \<Rightarrow> ret p)"

definition vllm_execute_candidate ::
  "('w, 'p, 'm) vllm_engine \<Rightarrow> canonical_snapshot \<Rightarrow> 'p \<Rightarrow> int option
   \<Rightarrow> ('w, 'm option private_transition) driver_op" where
  "vllm_execute_candidate eng snapshot payload count =
     sbind (candidate_execute eng snapshot payload count) (\<lambda>t.
     sbind (assert_that (\<not> (transition_tokens t \<noteq> [] \<and> model_output t = None))
       (vllm_error ''vLLM candidate executor did not preserve its private model output'')) (\<lambda>_.
     sbind (hook_record_private_transition (engine_hooks eng) CandidateRole t) (\<lambda>_.
     ret t)))"

definition vllm_execute_serial ::
  "('w, 'p, 'm) vllm_engine \<Rightarrow> canonical_snapshot \<Rightarrow> 'p \<Rightarrow> int
   \<Rightarrow> ('w, 'm option private_transition) driver_op" where
  "vllm_execute_serial eng snapshot payload count =
     sbind (serial_execute eng snapshot payload count) (\<lambda>t.
     sbind (assert_that (\<not> (count \<noteq> 0 \<and> model_output t = None))
       (vllm_error ''vLLM serial executor did not preserve its private model output'')) (\<lambda>_.
     sbind (hook_record_private_transition (engine_hooks eng) SerialRole t) (\<lambda>_.
     ret t)))"

definition vllm_publish_private ::
  "('w, 'p, 'm) vllm_engine \<Rightarrow> canonical_snapshot \<Rightarrow> 'm option private_transition \<Rightarrow> string
   \<Rightarrow> ('w, publication) driver_op" where
  "vllm_publish_private eng snapshot t intent_sha =
     sbind (vllm_sha256 intent_sha) (\<lambda>_.
     hook_publish_private (engine_hooks eng) snapshot t intent_sha)"

definition vllm_consume_verified_advance ::
  "('w, 'p, 'm) vllm_engine \<Rightarrow> string \<Rightarrow> int \<Rightarrow> string \<Rightarrow> int list
   \<Rightarrow> ('w, 'm option vllm_advance) driver_op" where
  "vllm_consume_verified_advance eng request rnd intent_sha expected =
     sbind (vllm_sha256 intent_sha) (\<lambda>_.
     sbind (assert_that (expected \<noteq> [] \<and> \<not> list_ex (\<lambda>t. t < 0) expected)
       (vllm_error ''expected request-advance tokens are invalid'')) (\<lambda>_.
     sbind (hook_consume_verified_advance (engine_hooks eng) request rnd intent_sha expected) (\<lambda>a.
     sbind (assert_that (vllm_request_id a = request \<and> vllm_round_index a = rnd
              \<and> vllm_intent_sha256 a = intent_sha \<and> vllm_token_ids a = expected)
       (vllm_error ''vLLM scheduler request advance identity differs'')) (\<lambda>_.
     case vllm_output a of
       None \<Rightarrow> raise (vllm_error ''vLLM scheduler request advance payload is invalid'')
     | Some m \<Rightarrow>
         sbind (assert_that (vllm_token_ids a \<noteq> [] \<and> \<not> list_ex (\<lambda>t. t < 0) (vllm_token_ids a))
           (vllm_error ''vLLM scheduler request advance payload is invalid'')) (\<lambda>_.
         sbind (hook_model_output_sha256 (engine_hooks eng) m) (\<lambda>observed.
         sbind (vllm_sha256 (vllm_output_sha256 a)) (\<lambda>_.
         sbind (vllm_sha256 observed) (\<lambda>_.
         sbind (assert_that (vllm_output_sha256 a = observed)
           (vllm_error ''vLLM scheduler request advance model output changed'')) (\<lambda>_.
         sbind (hook_model_output_token_ids (engine_hooks eng) m request) (\<lambda>tokens.
         sbind (assert_that (tokens = expected)
           (vllm_error ''vLLM scheduler request advance model output tokens differ'')) (\<lambda>_.
         ret a)))))))))))"

text \<open>The driver as the controller sees it; the remaining operations are the hooks themselves.\<close>

definition vllm_driver ::
  "('w, 'p, 'm) vllm_engine \<Rightarrow> ('w, 'p, 'm option) transition_driver" where
  "vllm_driver eng =
     \<lparr>driver_release_sha256 = engine_release_sha256 eng,
      driver_serial_sha256 = engine_serial_sha256 eng,
      driver_candidate_family = engine_candidate_family eng,
      driver_serial_family = engine_serial_family eng,
      snapshot_canonical = hook_snapshot_canonical (engine_hooks eng),
      probe_canonical = hook_probe_canonical (engine_hooks eng),
      execute_candidate = vllm_execute_candidate eng,
      execute_serial = vllm_execute_serial eng,
      publish_private = vllm_publish_private eng,
      restore_canonical = hook_restore_canonical (engine_hooks eng),
      destroy_private = hook_destroy_private (engine_hooks eng),
      cleanup_failed_private = hook_cleanup_failed_private (engine_hooks eng),
      recover_publication = hook_recover_publication (engine_hooks eng)\<rparr>"

subsection \<open>What the adapter guarantees of any engine\<close>

lemma vllm_execute_Inr:
  "vllm_execute_candidate eng sn payload count w = (Inr t, w') \<Longrightarrow>
     (transition_tokens t \<noteq> [] \<longrightarrow> model_output t \<noteq> None)
     \<and> (\<exists>w1. hook_record_private_transition (engine_hooks eng) CandidateRole t w1 = (Inr (), w'))"
  "vllm_execute_serial eng sn payload n w = (Inr t, w') \<Longrightarrow>
     (n \<noteq> 0 \<longrightarrow> model_output t \<noteq> None)
     \<and> (\<exists>w1. hook_record_private_transition (engine_hooks eng) SerialRole t w1 = (Inr (), w'))"
  by (auto simp: vllm_execute_candidate_def vllm_execute_serial_def action_simps)

lemma vllm_consume_Inr:
  assumes "vllm_consume_verified_advance eng request rnd sha expected w = (Inr a, w')"
  obtains m w1 w2 where "vllm_output a = Some m"
    "vllm_request_id a = request" "vllm_round_index a = rnd" "vllm_intent_sha256 a = sha"
    "vllm_token_ids a = expected" "expected \<noteq> []" "\<forall>t \<in> set expected. 0 \<le> t"
    "hook_model_output_sha256 (engine_hooks eng) m w1 = (Inr (vllm_output_sha256 a), w2)"
    "hook_model_output_token_ids (engine_hooks eng) m request w2 = (Inr expected, w')"
  using assms
  by (auto simp: vllm_consume_verified_advance_def vllm_sha256_def action_simps list_ex_iff
      not_less split: option.splits)

end
