(* ===== verification/Runtime_Gate.thy ===== *)
theory Runtime_Gate
  imports Controller_Session Vllm_Driver
begin

section \<open>The runtime gate\<close>

text \<open>
  Model of \<open>LiveCommitRuntimeGate\<close> of \<open>src/qwen_r9700_lab/live_commit_runtime_gate.py\<close>: the
  only interface through which the scheduler obtains committed tokens.  The controller it
  owns is the model of \<open>Live_Controller\<close>; the three further operations of the driver are
  fields of \<open>gate_setup\<close>.  The lock is taken without blocking and a call that does not get
  it raises before it touches anything, so a method is one atomic action here.
  \<open>opened.request_payload is not request_payload\<close> compares object identities, which are
  the values of \<open>'p\<close>.
\<close>

record ('w, 'p, 'm) gate_setup =
  enforced :: "('w, 'p, 'm) controller_setup"
  begin_provisional :: "canonical_snapshot \<Rightarrow> 'p \<Rightarrow> string \<Rightarrow> int \<Rightarrow> ('w, 'p) driver_op"
  abort_provisional :: "string \<Rightarrow> int \<Rightarrow> ('w, unit) driver_op"
  consume_advance :: "string \<Rightarrow> int \<Rightarrow> string \<Rightarrow> int list \<Rightarrow> ('w, 'm vllm_advance) driver_op"

record 'p provisional_opening =
  opened_request_id :: string
  opened_round_index :: int
  opened_payload :: 'p
  opened_snapshot :: canonical_snapshot
  opened_state_sha256 :: string

record pending_commit =
  pending_request_id :: string
  pending_round_index :: int
  pending_intent_sha256 :: string
  pending_token_ids :: "int list"

record verified_commit =
  committed_token_ids :: "int list"
  committed_state :: live_state
  committed_source :: publication_origin
  committed_intent_sha256 :: string
  committed_receipt_sha256 :: string
  committed_capability_sha256 :: string

record ('w, 'p) gate =
  enforcing :: "'w controller"
  gate_closed :: bool
  gate_open_round :: "'p provisional_opening option"
  gate_pending :: "pending_commit option"

datatype gate_refusal =
    GateFinalized
  | AdvanceNotConsumed
  | ProvisionalRoundOpen
  | NoProvisionalRound
  | OpeningMutatedCanonical
  | BeginCleanupFailed
  | AbortIdentity
  | AbortedRoundWasRestored
  | CommitIdentity
  | CandidateMutatedCanonical
  | ReceiptCapabilityDiffers
  | ReceiptRoundDiffers
  | ReceiptWidthDiffers
  | ReceiptTokensInexact
  | ZeroCommitChangedCanonical
  | CommitCleanupFailed
  | CleanupCouldNotRestore
  | CleanupDidNotRestore
  | AbortNotClean
  | NoAdvancePending
  | AdvanceIdentity
  | AdvanceRejected
  | AdvanceTokensDiffer
  | LedgerCapabilityDiffers

datatype gate_error =
    GateRefused gate_refusal
  | FailedClosed controller_error
  | Propagated controller_error

type_synonym ('w, 'p, 'a) gate_op = "(('w, 'p) gate, gate_error, 'a) action"

text \<open>
  \<open>except LiveCommitControllerError\<close>: which errors of the controller are of its own
  exception class; the others are validation errors or exceptions of the driver.
\<close>

fun controller_class :: "controller_error \<Rightarrow> bool" where
  "controller_class (StateInvalid _) = False"
| "controller_class (ReceiptInvalid _) = False"
| "controller_class (LedgerInvalid _) = False"
| "controller_class (DriverRaised _) = False"
| "controller_class _ = True"

definition controlled :: "('w, 'a) controller_op \<Rightarrow> ('w, 'p, 'a) gate_op" where
  "controlled m s =
     (case m (enforcing s) of
        (Inl e, c) \<Rightarrow> (Inl (Propagated e), s\<lparr>enforcing := c\<rparr>)
      | (Inr x, c) \<Rightarrow> (Inr x, s\<lparr>enforcing := c\<rparr>))"

text \<open>\<open>validation.state_sha256\<close>.\<close>

definition digest_of_state ::
  "('w, 'p, 'm) controller_setup \<Rightarrow> live_state \<Rightarrow> controller_error + string" where
  "digest_of_state env st =
     rbind (in_state (normalize_state st)) (\<lambda>n. Inr (state_digest (hashes env) n))"

definition probe_digest :: "('w, 'p, 'm) controller_setup \<Rightarrow> ('w, string) controller_op" where
  "probe_digest env =
     sbind (driver_call (probe_canonical (release_driver env))) (\<lambda>st.
     lift_result (digest_of_state env st))"

definition cleanup_restore ::
  "('w, 'p, 'm) gate_setup \<Rightarrow> 'p provisional_opening \<Rightarrow> ('w, 'p, unit) gate_op" where
  "cleanup_restore g opened =
     sbind (try_except (controlled
         (sbind (driver_call (restore_canonical (release_driver (enforced g))
                   (opened_snapshot opened))) (\<lambda>p.
          sbind (lift_result (digest_of_state (enforced g) (publication_state p))) (\<lambda>restored.
          sbind (probe_digest (enforced g)) (\<lambda>probed.
          ret (atomic p, restored, probed))))))
       (\<lambda>_. raise (GateRefused CleanupCouldNotRestore))) (\<lambda>(was_atomic, restored, probed).
     assert_that (was_atomic \<and> restored = opened_state_sha256 opened
                  \<and> probed = opened_state_sha256 opened) (GateRefused CleanupDidNotRestore))"

definition abort_private_and_restore ::
  "('w, 'p, 'm) gate_setup \<Rightarrow> 'p provisional_opening \<Rightarrow> ('w, 'p, bool) gate_op" where
  "abort_private_and_restore g opened =
     sbind (attempt (controlled (driver_call (abort_provisional g
              (opened_request_id opened) (opened_round_index opened))))) (\<lambda>aborted.
     sbind (attempt (controlled (probe_digest (enforced g)))) (\<lambda>probed.
     let changed = (probed \<noteq> Inr (opened_state_sha256 opened))
     in sbind (if changed \<or> isl aborted then cleanup_restore g opened else ret ()) (\<lambda>_.
        sbind (assert_that (\<not> isl aborted) (GateRefused AbortNotClean)) (\<lambda>_.
        ret changed))))"

definition gate_begin ::
  "('w, 'p, 'm) gate_setup \<Rightarrow> string \<Rightarrow> int \<Rightarrow> 'p \<Rightarrow> ('w, 'p, 'p) gate_op" where
  "gate_begin g request rnd payload =
     sbind (gets id) (\<lambda>s.
     sbind (assert_that (\<not> gate_closed s) (GateRefused GateFinalized)) (\<lambda>_.
     sbind (assert_that (gate_pending s = None) (GateRefused AdvanceNotConsumed)) (\<lambda>_.
     sbind (assert_that (gate_open_round s = None) (GateRefused ProvisionalRoundOpen)) (\<lambda>_.
     sbind (controlled (driver_call (snapshot_canonical (release_driver (enforced g))))) (\<lambda>snapshot.
     sbind (controlled (lift_result (digest_of_state (enforced g) (snapshot_state snapshot)))) (\<lambda>sha.
     let opened = (\<lambda>p. \<lparr>opened_request_id = request, opened_round_index = rnd, opened_payload = p,
                        opened_snapshot = snapshot, opened_state_sha256 = sha\<rparr>)
     in try_except
          (sbind (controlled (driver_call (begin_provisional g snapshot payload request rnd))) (\<lambda>prepared.
           sbind (controlled (probe_digest (enforced g))) (\<lambda>probed.
           sbind (assert_that (probed = sha) (GateRefused OpeningMutatedCanonical)) (\<lambda>_.
           sbind (modify (\<lambda>s. s\<lparr>gate_open_round := Some (opened prepared)\<rparr>)) (\<lambda>_.
           ret prepared)))))
          (\<lambda>error.
           sbind (try_except (abort_private_and_restore g (opened payload))
                    (\<lambda>_. raise (GateRefused BeginCleanupFailed))) (\<lambda>_.
           raise error))))))))"

definition gate_abort ::
  "('w, 'p, 'm) gate_setup \<Rightarrow> string \<Rightarrow> int \<Rightarrow> ('w, 'p, unit) gate_op" where
  "gate_abort g request rnd =
     sbind (gets gate_open_round) (\<lambda>current.
     case current of
       None \<Rightarrow> raise (GateRefused NoProvisionalRound)
     | Some opened \<Rightarrow>
         sbind (assert_that (opened_request_id opened = request \<and> opened_round_index opened = rnd)
                  (GateRefused AbortIdentity)) (\<lambda>_.
         sbind (abort_private_and_restore g opened) (\<lambda>changed.
         sbind (modify (\<lambda>s. s\<lparr>gate_open_round := None\<rparr>)) (\<lambda>_.
         assert_that (\<not> changed) (GateRefused AbortedRoundWasRestored)))))"

definition receipt_tokens :: "receipt \<Rightarrow> int list option" where
  "receipt_tokens r =
     (case publication_source r of
        FromCandidate \<Rightarrow> candidate_token_ids r
      | FromSerial \<Rightarrow> Some (serial_token_ids r)
      | Unchanged \<Rightarrow> Some [])"

text \<open>
  The checks of the receipt that \<open>run_round\<close> returned, up to the exact tokens; \<open>requested\<close>
  is the argument \<open>commit_count\<close>.
\<close>

definition check_receipt ::
  "('w, 'p, 'm) controller_setup \<Rightarrow> int \<Rightarrow> int option \<Rightarrow> receipt sealed \<Rightarrow> gate_error + int list" where
  "check_receipt env rnd requested r =
     (if capability_sha256 (body r) \<noteq> capability_id env
      then Inl (GateRefused ReceiptCapabilityDiffers)
      else if round_index (body r) \<noteq> rnd then Inl (GateRefused ReceiptRoundDiffers)
      else if (case requested of None \<Rightarrow> False | Some n \<Rightarrow> commit_count (body r) \<noteq> n)
      then Inl (GateRefused ReceiptWidthDiffers)
      else case receipt_tokens (body r) of
             None \<Rightarrow> Inl (GateRefused ReceiptTokensInexact)
           | Some tokens \<Rightarrow>
               if int (length tokens) \<noteq> commit_count (body r)
               then Inl (GateRefused ReceiptTokensInexact) else Inr tokens)"

text \<open>From the verified receipt to the commit the scheduler sees.\<close>

definition expose_receipt ::
  "('w, 'p, 'm) gate_setup \<Rightarrow> 'p provisional_opening \<Rightarrow> string \<Rightarrow> int \<Rightarrow> int option \<Rightarrow> receipt sealed
   \<Rightarrow> ('w, 'p, verified_commit) gate_op" where
  "expose_receipt g opened request rnd requested r =
     sbind (lift_result (check_receipt (enforced g) rnd requested r)) (\<lambda>tokens.
     sbind (if commit_count (body r) = 0
            then sbind (abort_private_and_restore g opened) (\<lambda>changed.
                 sbind (modify (\<lambda>s. s\<lparr>gate_open_round := None\<rparr>)) (\<lambda>_.
                 assert_that (\<not> changed) (GateRefused ZeroCommitChangedCanonical)))
            else ret ()) (\<lambda>_.
     let committed = \<lparr>committed_token_ids = tokens, committed_state = canonical_after (body r),
                      committed_source = publication_source (body r),
                      committed_intent_sha256 = publication_intent_sha256 (body r),
                      committed_receipt_sha256 = self_sha256 r,
                      committed_capability_sha256 = capability_sha256 (body r)\<rparr>
     in sbind (if commit_count (body r) \<noteq> 0
               then modify (\<lambda>s. s\<lparr>gate_pending := Some
                      \<lparr>pending_request_id = request, pending_round_index = rnd,
                       pending_intent_sha256 = publication_intent_sha256 (body r),
                       pending_token_ids = tokens\<rparr>\<rparr>)
               else ret ()) (\<lambda>_.
        ret committed)))"

definition commit_body ::
  "('w, 'p, 'm) gate_setup \<Rightarrow> string \<Rightarrow> int \<Rightarrow> int option \<Rightarrow> 'p \<Rightarrow> int option
   \<Rightarrow> ('w, 'p, verified_commit) gate_op" where
  "commit_body g request rnd requested payload fallback =
     sbind (gets id) (\<lambda>s.
     sbind (assert_that (\<not> gate_closed s) (GateRefused GateFinalized)) (\<lambda>_.
     case gate_open_round s of
       None \<Rightarrow> raise (GateRefused NoProvisionalRound)
     | Some opened \<Rightarrow>
         sbind (assert_that (opened_request_id opened = request \<and> opened_round_index opened = rnd
                             \<and> opened_payload opened = payload) (GateRefused CommitIdentity)) (\<lambda>_.
         sbind (controlled (probe_digest (enforced g))) (\<lambda>probed.
         sbind (assert_that (probed = opened_state_sha256 opened)
                  (GateRefused CandidateMutatedCanonical)) (\<lambda>_.
         sbind (controlled (sbind (run_round (enforced g) request rnd requested payload fallback) (\<lambda>r.
                lift_result (in_validation (verify_receipt (hashes (enforced g)) r))))) (\<lambda>r.
         expose_receipt g opened request rnd requested r))))))"

definition commit_error :: "gate_error \<Rightarrow> gate_error" where
  "commit_error e =
     (case e of Propagated c \<Rightarrow> if controller_class c then FailedClosed c else e | _ \<Rightarrow> e)"

text \<open>The \<open>except BaseException\<close> and the \<open>finally\<close> of \<open>commit\<close>.\<close>

definition gate_commit ::
  "('w, 'p, 'm) gate_setup \<Rightarrow> string \<Rightarrow> int \<Rightarrow> int option \<Rightarrow> 'p \<Rightarrow> int option
   \<Rightarrow> ('w, 'p, verified_commit) gate_op" where
  "gate_commit g request rnd requested payload fallback s =
     (case try_except (commit_body g request rnd requested payload fallback)
             (\<lambda>error.
              sbind (gets gate_open_round) (\<lambda>current.
              sbind (case current of
                       None \<Rightarrow> ret ()
                     | Some opened \<Rightarrow>
                         try_except (sbind (abort_private_and_restore g opened) (\<lambda>_. ret ()))
                           (\<lambda>_. raise (GateRefused CommitCleanupFailed))) (\<lambda>_.
              raise (commit_error error)))) s of
        (outcome, s') \<Rightarrow> (outcome, s'\<lparr>gate_open_round := None\<rparr>))"

definition gate_consume ::
  "('w, 'p, 'm) gate_setup \<Rightarrow> string \<Rightarrow> int \<Rightarrow> string \<Rightarrow> ('w, 'p, 'm vllm_advance) gate_op" where
  "gate_consume g request rnd intent_sha =
     sbind (gets id) (\<lambda>s.
     sbind (assert_that (\<not> gate_closed s) (GateRefused GateFinalized)) (\<lambda>_.
     sbind (assert_that (gate_open_round s = None) (GateRefused ProvisionalRoundOpen)) (\<lambda>_.
     case gate_pending s of
       None \<Rightarrow> raise (GateRefused NoAdvancePending)
     | Some p \<Rightarrow>
         sbind (assert_that ((request, rnd, intent_sha)
                  = (pending_request_id p, pending_round_index p, pending_intent_sha256 p))
                  (GateRefused AdvanceIdentity)) (\<lambda>_.
         sbind (try_except (controlled (driver_call (consume_advance g request rnd intent_sha
                  (pending_token_ids p)))) (\<lambda>_. raise (GateRefused AdvanceRejected))) (\<lambda>a.
         sbind (assert_that (vllm_token_ids a = pending_token_ids p)
                  (GateRefused AdvanceTokensDiffer)) (\<lambda>_.
         sbind (modify (\<lambda>s. s\<lparr>gate_pending := None\<rparr>)) (\<lambda>_.
         ret a)))))))"

definition gate_finalize :: "('w, 'p, 'm) gate_setup \<Rightarrow> ('w, 'p, ledger sealed) gate_op" where
  "gate_finalize g =
     sbind (gets id) (\<lambda>s.
     sbind (assert_that (\<not> gate_closed s) (GateRefused GateFinalized)) (\<lambda>_.
     sbind (assert_that (gate_open_round s = None) (GateRefused ProvisionalRoundOpen)) (\<lambda>_.
     sbind (assert_that (gate_pending s = None) (GateRefused AdvanceNotConsumed)) (\<lambda>_.
     try_except
       (sbind (controlled (sbind (finalize_ledger (enforced g)) (\<lambda>l.
          lift_result (case verify_ledger (hashes (enforced g)) l of
                         Inl e \<Rightarrow> Inl (LedgerInvalid e) | Inr v \<Rightarrow> Inr v)))) (\<lambda>l.
        sbind (assert_that (ledger_capability_sha256 (body l) = capability_id (enforced g))
                 (GateRefused LedgerCapabilityDiffers)) (\<lambda>_.
        sbind (modify (\<lambda>s. s\<lparr>gate_closed := True\<rparr>)) (\<lambda>_.
        ret l))))
       (\<lambda>error. raise (commit_error error))))))"

text \<open>A gate over the vLLM engine.\<close>

definition vllm_gate ::
  "controller_digests \<Rightarrow> string \<Rightarrow> string \<Rightarrow> ('w, 'p, 'm) vllm_engine \<Rightarrow> ('w, 'p, 'm option) gate_setup" where
  "vllm_gate H capability session eng =
     \<lparr>enforced = \<lparr>hashes = H, release_driver = vllm_driver eng, capability_id = capability,
                  controller_session = session\<rparr>,
      begin_provisional = vllm_begin_provisional_round eng,
      abort_provisional = hook_abort_provisional_round (engine_hooks eng),
      consume_advance = vllm_consume_verified_advance eng\<rparr>"

end
