(* ===== verification/Gate_Safety.thy ===== *)
theory Gate_Safety
  imports Runtime_Gate
begin

section \<open>Safety of the runtime gate\<close>

text \<open>
  What every method of the gate does to the durable receipts and to the pending advance,
  for every driver, and the hand-off of the committed tokens as an instance of
  \<open>one_shot\<close>.
\<close>

subsection \<open>Quiet methods\<close>

definition calm :: "('w, 'p) gate \<Rightarrow> ('w, 'p) gate \<Rightarrow> bool" where
  "calm s s' \<longleftrightarrow> steady (enforcing s) (enforcing s') \<and> gate_pending s' = gate_pending s
     \<and> gate_closed s' = gate_closed s \<and> gate_open_round s' = gate_open_round s"

definition hushed :: "('w, 'p) gate \<Rightarrow> ('w, 'p) gate \<Rightarrow> bool" where
  "hushed s s' \<longleftrightarrow> steady (enforcing s) (enforcing s') \<and> gate_pending s' = gate_pending s
     \<and> (gate_closed s \<longrightarrow> gate_closed s')"

interpretation calm: history calm
  by unfold_locales (auto simp: calm_def intro: steady.trans)

interpretation hushed: history hushed
  by unfold_locales (auto simp: hushed_def intro: steady.trans)

lemma calm_hushed: "calm s s' \<Longrightarrow> hushed s s'"
  by (simp add: calm_def hushed_def)

lemma controlled_calm: "keeps steady m \<Longrightarrow> keeps calm (controlled m)"
  by (auto simp: keeps_def controlled_def calm_def split: prod.splits sum.splits)
     (metis snd_conv)+

lemma probe_digest_steady: "keeps steady (probe_digest env)"
  unfolding probe_digest_def
  by (intro steady.keeps_sbind steady.keeps_pure driver_call_steady)

lemma cleanup_restore_calm: "keeps calm (cleanup_restore g opened)"
  unfolding cleanup_restore_def
  by (intro calm.keeps_sbind calm.keeps_try_except calm.keeps_case_prod calm.keeps_pure
      controlled_calm steady.keeps_sbind steady.keeps_pure driver_call_steady
      probe_digest_steady)

lemma abort_private_calm: "keeps calm (abort_private_and_restore g opened)"
  unfolding abort_private_and_restore_def Let_def
  by (intro calm.keeps_sbind calm.keeps_attempt calm.keeps_if calm.keeps_pure
      cleanup_restore_calm controlled_calm driver_call_steady probe_digest_steady)

lemmas hushed_calls =
  controlled_calm [THEN keeps_mono, OF _ calm_hushed]
  abort_private_calm [THEN keeps_mono, OF calm_hushed]

lemma hushed_open: "hushed s (s\<lparr>gate_open_round := x\<rparr>)"
  by (simp add: hushed_def)

lemma gate_begin_hushed: "keeps hushed (gate_begin g request rnd payload)"
  unfolding gate_begin_def Let_def
  by (intro hushed.keeps_sbind hushed.keeps_try_except hushed.keeps_pure hushed.keeps_modify
      hushed_calls driver_call_steady probe_digest_steady hushed_open steady.keeps_pure)

lemma gate_abort_hushed: "keeps hushed (gate_abort g request rnd)"
  unfolding gate_abort_def
  by (intro hushed.keeps_case_option hushed.keeps_sbind hushed.keeps_pure hushed.keeps_modify
      hushed_calls hushed_open)

lemma gate_consume_fails: "fails_keeping calm (gate_consume g request rnd sha)"
  unfolding gate_consume_def
  by (intro calm.fails_sbind fails_cases calm.keeps_pure calm.keeps_try_except controlled_calm
      driver_call_steady keeps_fails [OF calm.keeps_pure(2)] fails_modify_ret)

lemma gate_finalize_hushed: "keeps hushed (gate_finalize g)"
  unfolding gate_finalize_def
  by (intro hushed.keeps_sbind hushed.keeps_try_except hushed.keeps_pure hushed.keeps_modify
      hushed_calls finalize_ledger_steady steady.keeps_sbind steady.keeps_pure)
     (simp_all add: hushed_def)

subsection \<open>A round that returns is exposed\<close>

lemma run_round_width:
  fixes env :: "('w, 'p, 'm) controller_setup" and s s' :: "'w controller"
  assumes "run_round env request rnd requested payload fallback s = (Inr r, s')"
  shows "requested = Some n \<Longrightarrow> commit_count (body r) = n"
    and "round_index (body r) = rnd"
proof -
  obtain sn :: canonical_snapshot and s1 s2 s3 s4 s5 s6 s7 :: "'w controller"
      and c f pc ser ps d eq i sha after where
    "receipt_stage env (template_of env request rnd (round_width requested fallback c)
           (snapshot_state sn) c f pc ser ps (d, eq) (\<not> quarantined s1) (\<not> quarantined s4)
           (held_counterexample s4)) sha after s7 = (Inr r, s')"
    by (rule run_round_stages [OF assms])
  from seal_receipt_body [OF receipt_stage_Inr(1) [OF this]]
  show "requested = Some n \<Longrightarrow> commit_count (body r) = n" "round_index (body r) = rnd"
    by (simp_all add: round_width_def)
qed

lemma sealed_receipt_tokens:
  assumes "seal_receipt H r = Inr x"
  shows "receipt_tokens r = Some (serial_token_ids r)"
    and "int (length (serial_token_ids r)) = commit_count r"
    and "0 \<le> commit_count r"
    and "canonical_after r = serial_state r"
proof -
  from assms have adv: "serial_advance_check r = Inr (serial_token_ids r)"
    and hdr: "receipt_header_check H r = Inr ()"
    and out: "receipt_outcome r = Inr (publication_source r, canonical_after r)"
    by (auto simp: seal_receipt_Inr)
  note a = serial_advance_Inr [OF adv]
  show "int (length (serial_token_ids r)) = commit_count r" by (rule a(1))
  show "receipt_tokens r = Some (serial_token_ids r)"
    using receipt_outcome_source [OF out] a(1) by (auto simp: receipt_tokens_def)
  show "canonical_after r = serial_state r" by (rule receipt_outcome_serial [OF out a(5)])
  show "0 \<le> commit_count r" using header_commit_count [OF hdr] by simp
qed

definition hexadecimal :: "('w, 'p, 'm) controller_setup \<Rightarrow> bool" where
  "hexadecimal env \<longleftrightarrow> (\<forall>x. is_sha256 (receipt_digest (hashes env) x))"

lemma returned_receipt_is_exposed:
  fixes env :: "('w, 'p, 'm) controller_setup" and s s' :: "'w controller"
  assumes run: "run_round env request rnd requested payload fallback s = (Inr r, s')"
    and hex: "hexadecimal env"
  shows "verify_receipt (hashes env) r = Inr r"
    and "check_receipt env rnd requested r = Inr (serial_token_ids (body r))"
proof -
  note f = run_round_receipt_facts [OF run]
  note t = sealed_receipt_tokens [OF f(1)]
  have "self_sha256 r = receipt_digest (hashes env) (body r)"
    using seal_receipt_body [OF f(1)] by simp
  then have "is_sha256 (self_sha256 r)" using hex by (simp add: hexadecimal_def)
  then show "verify_receipt (hashes env) r = Inr r"
    using f(1) by (simp add: verify_receipt_def sha256_value_def)
  show "check_receipt env rnd requested r = Inr (serial_token_ids (body r))"
    using f(3) t(1,2) run_round_width [OF run]
    by (auto simp: check_receipt_def split: option.splits)
qed

subsection \<open>Commits\<close>

definition exposed :: "receipt sealed \<Rightarrow> verified_commit" where
  "exposed r =
     \<lparr>committed_token_ids = serial_token_ids (body r), committed_state = serial_state (body r),
      committed_source = publication_source (body r),
      committed_intent_sha256 = publication_intent_sha256 (body r),
      committed_receipt_sha256 = self_sha256 r,
      committed_capability_sha256 = capability_sha256 (body r)\<rparr>"

definition pending_of :: "string \<Rightarrow> int \<Rightarrow> receipt sealed \<Rightarrow> pending_commit" where
  "pending_of request rnd r =
     \<lparr>pending_request_id = request, pending_round_index = rnd,
      pending_intent_sha256 = publication_intent_sha256 (body r),
      pending_token_ids = serial_token_ids (body r)\<rparr>"

lemma expose_receipt_cases:
  assumes "expose_receipt g opened request rnd requested r s = (res, s')"
    and "check_receipt (enforced g) rnd requested r = Inr (serial_token_ids (body r))"
    and "seal_receipt (hashes (enforced g)) (body r) = Inr r"
  shows "steady (enforcing s) (enforcing s')" "gate_closed s' = gate_closed s"
    and "isl res \<Longrightarrow> serial_token_ids (body r) = [] \<and> gate_pending s' = gate_pending s"
    and "res = Inr c \<Longrightarrow> c = exposed r \<and>
           gate_pending s' = (if serial_token_ids (body r) = [] then gate_pending s
                              else Some (pending_of request rnd r))"
proof -
  note t = sealed_receipt_tokens [OF assms(3)]
  have z: "commit_count (body r) = 0 \<longleftrightarrow> serial_token_ids (body r) = []" using t(2) by auto
  have one: "steady (enforcing s) (enforcing s') \<and> gate_closed s' = gate_closed s
     \<and> (isl res \<longrightarrow> serial_token_ids (body r) = [] \<and> gate_pending s' = gate_pending s)
     \<and> (\<forall>c. res = Inr c \<longrightarrow> c = exposed r \<and>
           gate_pending s' = (if serial_token_ids (body r) = [] then gate_pending s
                              else Some (pending_of request rnd r)))"
  proof (cases "serial_token_ids (body r) = []")
    case False
    then show ?thesis
      using assms(1,2) z t(4)
      by (auto simp: expose_receipt_def sbind_def Let_def exposed_def pending_of_def)
  next
    case True
    obtain ar s1 where a: "abort_private_and_restore g opened s = (ar, s1)" by fastforce
    note k = keepsD [OF abort_private_calm a]
    show ?thesis
      using assms(1,2) z t(4) True a k
      by (cases ar)
         (auto simp: expose_receipt_def sbind_def Let_def exposed_def assert_that_def calm_def
           split: if_splits)
  qed
  then show "steady (enforcing s) (enforcing s')" "gate_closed s' = gate_closed s"
    and "isl res \<Longrightarrow> serial_token_ids (body r) = [] \<and> gate_pending s' = gate_pending s"
    and "res = Inr c \<Longrightarrow> c = exposed r \<and>
           gate_pending s' = (if serial_token_ids (body r) = [] then gate_pending s
                              else Some (pending_of request rnd r))"
    by simp_all
qed


lemma controlled_iffs [action_simps]:
  "controlled m s = (Inr x, s') \<longleftrightarrow> (\<exists>c. m (enforcing s) = (Inr x, c) \<and> s' = s\<lparr>enforcing := c\<rparr>)"
  "controlled m s = (Inl e, s') \<longleftrightarrow>
     (\<exists>e' c. m (enforcing s) = (Inl e', c) \<and> e = Propagated e' \<and> s' = s\<lparr>enforcing := c\<rparr>)"
  by (auto simp: controlled_def split: prod.splits sum.splits)

text \<open>The handler of \<open>commit\<close> and its \<open>finally\<close> add nothing to what the body did.\<close>

lemma gate_commit_body:
  assumes "gate_commit g request rnd requested payload fallback s = (res, s')"
  obtains res0 s0 s1 where
    "commit_body g request rnd requested payload fallback s = (res0, s0)"
    "calm s0 s1" "s' = s1\<lparr>gate_open_round := None\<rparr>"
    "isl res \<longleftrightarrow> isl res0" "\<And>c. res = Inr c \<Longrightarrow> res0 = Inr c"
proof -
  obtain res0 s0 where b: "commit_body g request rnd requested payload fallback s = (res0, s0)"
    by fastforce
  show thesis
  proof (cases res0)
    case (Inr c)
    then show thesis
      using assms b that [OF b, of s0] by (auto simp: gate_commit_def try_except_def)
  next
    case (Inl e)
    let ?h = "sbind (gets gate_open_round) (\<lambda>current.
              sbind (case current of
                       None \<Rightarrow> ret ()
                     | Some opened \<Rightarrow>
                         try_except (sbind (abort_private_and_restore g opened) (\<lambda>_. ret ()))
                           (\<lambda>_. raise (GateRefused CommitCleanupFailed))) (\<lambda>_.
              raise (commit_error e))) :: ('a, 'b, verified_commit) gate_op"
    obtain hres s1 where h: "?h s0 = (hres, s1)" by fastforce
    have "keeps calm ?h"
      by (intro calm.keeps_sbind calm.keeps_case_option calm.keeps_try_except calm.keeps_pure
          abort_private_calm)
    then have "calm s0 s1" using h by (rule keepsD)
    moreover have "isl hres"
      using h by (cases hres) (auto simp: action_simps)
    moreover have "res = hres" "s' = s1\<lparr>gate_open_round := None\<rparr>"
      using assms b Inl h by (auto simp: gate_commit_def try_except_def)
    ultimately show thesis
      using Inl by (intro that [OF b, of s1]) auto
  qed
qed

lemma commit_body_cases:
  assumes "commit_body g request rnd requested payload fallback s = (res, s')"
    and hex: "hexadecimal (enforced g)"
  obtains (refused) "isl res" "calm s s'"
  | (failed) e c1 c2 where "isl res" "steady (enforcing s) c1"
      "run_round (enforced g) request rnd requested payload fallback c1 = (Inl e, c2)"
      "s' = s\<lparr>enforcing := c2\<rparr>"
  | (returned) opened r c1 c2 where "gate_open_round s = Some opened" "\<not> gate_closed s"
      "opened_request_id opened = request" "opened_round_index opened = rnd"
      "steady (enforcing s) c1"
      "run_round (enforced g) request rnd requested payload fallback c1 = (Inr r, c2)"
      "expose_receipt g opened request rnd requested r (s\<lparr>enforcing := c2\<rparr>) = (res, s')"
proof -
  consider "gate_closed s" | "\<not> gate_closed s" "gate_open_round s = None"
    | opened where "\<not> gate_closed s" "gate_open_round s = Some opened" by (cases "gate_open_round s") auto
  then show thesis
  proof cases
    case 3
    let ?ids = "opened_request_id opened = request \<and> opened_round_index opened = rnd
                  \<and> opened_payload opened = payload"
    obtain pr c1 where p: "probe_digest (enforced g) (enforcing s) = (pr, c1)" by fastforce
    then have st: "steady (enforcing s) c1" by (rule keepsD [OF probe_digest_steady])
    have calm: "calm s (s\<lparr>enforcing := c1\<rparr>)" using st by (simp add: calm_def)
    obtain rr c2 where rr: "run_round (enforced g) request rnd requested payload fallback c1 = (rr, c2)"
      by fastforce
    show thesis
    proof (cases "?ids \<and> pr = Inr (opened_state_sha256 opened)")
      case False
      then have "isl res" "calm s s'"
        using assms(1) 3 p calm
        by (cases pr; auto simp: commit_body_def sbind_def assert_that_def controlled_def
            split: if_splits)+
      then show thesis by (rule refused)
    next
      case True
      show thesis
      proof (cases rr)
        case (Inl e)
        then have "isl res" "s' = s\<lparr>enforcing := c2\<rparr>"
          using assms(1) 3 p True rr
          by (auto simp: commit_body_def sbind_def assert_that_def controlled_def)
        with st rr Inl show thesis by (auto intro: failed)
      next
        case (Inr r)
        with rr have run: "run_round (enforced g) request rnd requested payload fallback c1 = (Inr r, c2)"
          by simp
        have "expose_receipt g opened request rnd requested r (s\<lparr>enforcing := c2\<rparr>) = (res, s')"
          using assms(1) 3 p True run returned_receipt_is_exposed(1) [OF run hex]
          by (simp add: commit_body_def sbind_def assert_that_def controlled_def)
        with 3 True st run show thesis by (auto intro: returned)
      qed
    qed
  qed (use assms(1) refused in
      \<open>auto simp: commit_body_def sbind_def assert_that_def\<close>)
qed

text \<open>
  The whole method.  A commit that returns has appended exactly the receipt it exposes; a
  commit that raises has left the receipts alone, or appended a receipt without tokens
  (the round committed nothing and closing the provisional round then failed).
\<close>

lemma gate_commit_cases:
  assumes com: "gate_commit g request rnd requested payload fallback s = (res, s')"
    and hex: "hexadecimal (enforced g)"
  obtains (refused) "isl res" "steady (enforcing s) (enforcing s')" "gate_pending s' = gate_pending s"
  | (failed) e c1 c2 where "isl res" "steady (enforcing s) c1"
      "run_round (enforced g) request rnd requested payload fallback c1 = (Inl e, c2)"
      "steady c2 (enforcing s')" "gate_pending s' = gate_pending s"
  | (unfinished) r c1 c2 where "isl res" "steady (enforcing s) c1"
      "run_round (enforced g) request rnd requested payload fallback c1 = (Inr r, c2)"
      "steady c2 (enforcing s')" "serial_token_ids (body r) = []" "gate_pending s' = gate_pending s"
  | (returned) opened r c1 c2 where "res = Inr (exposed r)" "gate_open_round s = Some opened"
      "opened_request_id opened = request" "opened_round_index opened = rnd"
      "steady (enforcing s) c1"
      "run_round (enforced g) request rnd requested payload fallback c1 = (Inr r, c2)"
      "steady c2 (enforcing s')"
      "gate_pending s' = (if serial_token_ids (body r) = [] then gate_pending s
                          else Some (pending_of request rnd r))"
proof -
  obtain res0 s0 s1 where b: "commit_body g request rnd requested payload fallback s = (res0, s0)"
    and e: "calm s0 s1" "s' = s1\<lparr>gate_open_round := None\<rparr>"
      "isl res \<longleftrightarrow> isl res0" "\<And>c. res = Inr c \<Longrightarrow> res0 = Inr c"
    by (rule gate_commit_body [OF com], rule that, assumption+)
  have end0: "steady (enforcing s0) (enforcing s')" "gate_pending s' = gate_pending s0"
    using e(1,2) by (simp_all add: calm_def)
  from b hex show thesis
  proof (cases rule: commit_body_cases)
    case refused
    then show thesis
      using that(1) e(3) end0 steady.trans [of "enforcing s" "enforcing s0" "enforcing s'"]
      by (auto simp: calm_def)
  next
    case (failed x c1 c2)
    then show thesis using that(2) [of c1 x c2] e(3) end0 by simp
  next
    case (returned opened r c1 c2)
    note f = run_round_receipt_facts(1) [OF returned(6)]
    note x = expose_receipt_cases [OF returned(7) returned_receipt_is_exposed(2) [OF returned(6) hex] f]
    have st: "steady c2 (enforcing s')"
      using x(1) end0(1) steady.trans by (auto simp del: steady_def)
    show thesis
    proof (cases res)
      case (Inl y)
      then show thesis
        using that(3) [of c1 r c2] e(3) x(3) returned(5,6) st end0(2) by simp
    next
      case (Inr c)
      then have "res0 = Inr c" by (rule e(4))
      then show thesis
        using that(4) [of r opened c1 c2] x(4) returned Inr st end0(2) by simp
    qed
  qed
qed

lemma gate_commit_closes: "gate_commit g request rnd requested payload fallback s = (res, s') \<Longrightarrow>
    gate_open_round s' = None"
  by (auto simp: gate_commit_def split: prod.splits)


subsection \<open>The hand-off of committed tokens\<close>

text \<open>
  One step of a gate: a method with any arguments and any outcome, or work of the driver
  between the methods, which may change its state in any way.
\<close>

inductive gate_step ::
  "('w, 'p, 'm) gate_setup \<Rightarrow> ('w, 'p) gate \<Rightarrow> int list handoff \<Rightarrow> ('w, 'p) gate \<Rightarrow> bool"
  for g where
    gstep_work: "gate_step g s Other (s\<lparr>enforcing := (enforcing s)\<lparr>world := w\<rparr>\<rparr>)"
  | gstep_begin: "gate_begin g request rnd payload s = (r, s') \<Longrightarrow> gate_step g s Other s'"
  | gstep_abort: "gate_abort g request rnd s = (u, s') \<Longrightarrow> gate_step g s Other s'"
  | gstep_refused: "gate_commit g request rnd requested payload fallback s = (Inl e, s') \<Longrightarrow>
      gate_step g s Other s'"
  | gstep_empty: "gate_commit g request rnd requested payload fallback s = (Inr c, s') \<Longrightarrow>
      committed_token_ids c = [] \<Longrightarrow> gate_step g s Other s'"
  | gstep_commit: "gate_commit g request rnd requested payload fallback s = (Inr c, s') \<Longrightarrow>
      committed_token_ids c \<noteq> [] \<Longrightarrow> gate_step g s (Put (committed_token_ids c)) s'"
  | gstep_unconsumed: "gate_consume g request rnd sha s = (Inl e, s') \<Longrightarrow> gate_step g s Other s'"
  | gstep_consume: "gate_consume g request rnd sha s = (Inr a, s') \<Longrightarrow>
      gate_step g s (Take (vllm_token_ids a)) s'"
  | gstep_finalize: "gate_finalize g s = (l, s') \<Longrightarrow> gate_step g s Other s'"

inductive_cases gate_putE: "gate_step g s (Put v) s'"
inductive_cases gate_takeE: "gate_step g s (Take v) s'"

definition gate_slot :: "('w, 'p) gate \<Rightarrow> int list option" where
  "gate_slot s = map_option pending_token_ids (gate_pending s)"

definition one_at_a_time :: "('w, 'p) gate \<Rightarrow> bool" where
  "one_at_a_time s \<longleftrightarrow> gate_open_round s = None \<or> gate_pending s = None"

definition durable_tokens :: "'w controller \<Rightarrow> int list" where
  "durable_tokens c = concat (map (serial_token_ids \<circ> body) (durable_receipts c))"

lemma durable_tokens_steady: "steady c c' \<Longrightarrow> durable_tokens c' = durable_tokens c"
  by (simp add: durable_tokens_def steady_def)

lemma gate_consume_Inr:
  assumes "gate_consume g request rnd sha s = (Inr a, s')"
  obtains p where "gate_pending s = Some p" "gate_pending s' = None"
    "vllm_token_ids a = pending_token_ids p" "steady (enforcing s) (enforcing s')"
    "request = pending_request_id p" "rnd = pending_round_index p" "sha = pending_intent_sha256 p"
  using assms keepsD [OF driver_call_steady]
  by (fastforce simp: gate_consume_def action_simps split: option.splits)

text \<open>While an advance is pending and no round is open, only \<open>consume\<close> does anything.\<close>

lemma pending_blocks:
  assumes "gate_pending s \<noteq> None" and "gate_open_round s = None"
  shows "gate_begin g request rnd payload s = (r, s') \<Longrightarrow> s' = s"
    and "gate_abort g request rnd s = (u, s') \<Longrightarrow> s' = s"
    and "gate_finalize g s = (l, s') \<Longrightarrow> s' = s"
  using assms
  by (auto simp: gate_begin_def gate_abort_def gate_finalize_def sbind_def assert_that_def
      split: if_splits)

lemma hushed_one_at_a_time:
  "hushed s s' \<Longrightarrow> one_at_a_time s \<Longrightarrow>
     (gate_pending s \<noteq> None \<Longrightarrow> gate_open_round s = None \<Longrightarrow> s' = s) \<Longrightarrow> one_at_a_time s'"
  by (cases "gate_pending s") (auto simp: hushed_def one_at_a_time_def)

lemma gate_step_one_at_a_time:
  assumes "gate_step g s e s'" and ok: "one_at_a_time s"
  shows "one_at_a_time s'"
  using assms(1)
proof (cases rule: gate_step.cases)
  case (gstep_begin request rnd payload r)
  show ?thesis
    by (rule hushed_one_at_a_time [OF keepsD [OF gate_begin_hushed gstep_begin(2)] ok])
       (rule pending_blocks(1) [OF _ _ gstep_begin(2)])
next
  case (gstep_abort request rnd u)
  show ?thesis
    by (rule hushed_one_at_a_time [OF keepsD [OF gate_abort_hushed gstep_abort(2)] ok])
       (rule pending_blocks(2) [OF _ _ gstep_abort(2)])
next
  case (gstep_finalize l)
  show ?thesis
    by (rule hushed_one_at_a_time [OF keepsD [OF gate_finalize_hushed gstep_finalize(2)] ok])
       (rule pending_blocks(3) [OF _ _ gstep_finalize(2)])
next
  case (gstep_unconsumed request rnd sha x)
  then show ?thesis
    using fails_keepingD [OF gate_consume_fails gstep_unconsumed(2)] ok
    by (simp add: calm_def one_at_a_time_def)
next
  case (gstep_consume request rnd sha a)
  from gstep_consume(2) show ?thesis
    by (rule gate_consume_Inr) (simp add: one_at_a_time_def)
qed (use ok in \<open>auto simp: one_at_a_time_def dest: gate_commit_closes\<close>)

text \<open>One step: the slot, the durable tokens and the controller's invariant together.\<close>

lemma gate_step_effect:
  assumes step: "gate_step g s e s'" and ok: "one_at_a_time s" and hex: "hexadecimal (enforced g)"
  shows "durable_tokens (enforcing s') = durable_tokens (enforcing s) @ concat (puts [e])"
    and "controller_invariant (enforced g) (enforcing s) \<Longrightarrow>
           controller_invariant (enforced g) (enforcing s')"
    and "case e of Put v \<Rightarrow> gate_slot s = None \<and> gate_slot s' = Some v
         | Take v \<Rightarrow> gate_slot s = Some v \<and> gate_slot s' = None
         | Other \<Rightarrow> gate_slot s' = gate_slot s"
proof -
  let ?env = "enforced g"
  let ?goal = "\<lambda>e s'. durable_tokens (enforcing s') = durable_tokens (enforcing s) @ concat (puts [e])
     \<and> (controller_invariant ?env (enforcing s) \<longrightarrow> controller_invariant ?env (enforcing s'))
     \<and> (case e of Put v \<Rightarrow> gate_slot s = None \<and> gate_slot s' = Some v
         | Take v \<Rightarrow> gate_slot s = Some v \<and> gate_slot s' = None
         | Other \<Rightarrow> gate_slot s' = gate_slot s)"
  have quiet: "?goal Other s'" if "steady (enforcing s) (enforcing s')" "gate_pending s' = gate_pending s" for s'
    using that durable_tokens_steady [OF that(1)]
    by (auto simp: gate_slot_def intro: controller_invariant_evolves steady_evolves)
  have hush: "?goal Other s'" if "hushed s s'" for s'
    using that by (intro quiet) (simp_all add: hushed_def)
  have round: "controller_invariant ?env (enforcing s) \<longrightarrow> controller_invariant ?env (enforcing s')"
    "durable_tokens (enforcing s')
       = durable_tokens (enforcing s) @ (case rr of Inl x \<Rightarrow> [] | Inr r \<Rightarrow> serial_token_ids (body r))"
    if "steady (enforcing s) c1" "run_round ?env request rnd requested payload fallback c1 = (rr, c2)"
      "steady c2 (enforcing s')"
    for c1 c2 rr s' request rnd requested payload fallback
  proof -
    have a: "controller_invariant ?env (enforcing s) \<Longrightarrow> controller_invariant ?env c1"
      using that(1) by (auto intro: controller_invariant_evolves steady_evolves)
    have b: "controller_invariant ?env c1 \<Longrightarrow> controller_invariant ?env c2"
      using session_invariant [OF reach_round [OF reach_start that(2)]] by simp
    have c: "controller_invariant ?env c2 \<Longrightarrow> controller_invariant ?env (enforcing s')"
      using that(3) by (auto intro: controller_invariant_evolves steady_evolves)
    show "controller_invariant ?env (enforcing s) \<longrightarrow> controller_invariant ?env (enforcing s')"
      using a b c by blast
    have "durable_tokens c2 = durable_tokens c1 @ (case rr of Inl x \<Rightarrow> [] | Inr r \<Rightarrow> serial_token_ids (body r))"
    proof (cases rr)
      case (Inl x)
      then have "evolves c1 c2" using that(2) by (auto intro: fails_keepingD [OF run_round_fails])
      then show ?thesis using Inl by (simp add: durable_tokens_def evolves_def)
    next
      case (Inr r)
      then show ?thesis
        using run_round_receipt_facts(10) [OF that(2) [unfolded Inr]] by (simp add: durable_tokens_def)
    qed
    then show "durable_tokens (enforcing s')
       = durable_tokens (enforcing s) @ (case rr of Inl x \<Rightarrow> [] | Inr r \<Rightarrow> serial_token_ids (body r))"
      using durable_tokens_steady [OF that(1)] durable_tokens_steady [OF that(3)] by simp
  qed
  have "?goal e s'"
    using step
  proof (cases rule: gate_step.cases)
    case (gstep_work w)
    have "?goal Other (s\<lparr>enforcing := (enforcing s)\<lparr>world := w\<rparr>\<rparr>)"
      by (rule quiet) (simp_all add: steady_def)
    then show ?thesis using gstep_work by simp
  next
    case (gstep_refused request rnd requested payload fallback x)
    from gstep_refused(2) hex show ?thesis
    proof (cases rule: gate_commit_cases)
      case refused
      then show ?thesis using quiet [OF refused(2,3)] gstep_refused(1) by simp
    next
      case (failed y c1 c2)
      then show ?thesis using round [OF failed(2-4)] gstep_refused(1) by (simp add: gate_slot_def)
    next
      case (unfinished r c1 c2)
      then show ?thesis using round [OF unfinished(2-4)] gstep_refused(1) by (simp add: gate_slot_def)
    qed simp
  next
    case (gstep_empty request rnd requested payload fallback c)
    from gstep_empty(2) hex show ?thesis
    proof (cases rule: gate_commit_cases)
      case (returned opened r c1 c2)
      then show ?thesis
        using round [OF returned(5-7)] gstep_empty by (simp add: gate_slot_def exposed_def)
    qed simp_all
  next
    case (gstep_commit request rnd requested payload fallback c)
    from gstep_commit(2) hex show ?thesis
    proof (cases rule: gate_commit_cases)
      case (returned opened r c1 c2)
      then show ?thesis
        using round [OF returned(5-7)] gstep_commit ok
        by (simp add: gate_slot_def exposed_def pending_of_def one_at_a_time_def)
    qed simp_all
  next
    case (gstep_consume request rnd sha a)
    from gstep_consume(2) show ?thesis
    proof (rule gate_consume_Inr, goal_cases)
      case (1 p)
      then show ?case
        using gstep_consume(1) durable_tokens_steady [OF 1(4)]
        by (auto simp: gate_slot_def intro: controller_invariant_evolves steady_evolves)
    qed
  next
    case (gstep_begin request rnd payload r)
    then show ?thesis using hush [OF keepsD [OF gate_begin_hushed gstep_begin(2)]] by simp
  next
    case (gstep_abort request rnd u)
    then show ?thesis using hush [OF keepsD [OF gate_abort_hushed gstep_abort(2)]] by simp
  next
    case (gstep_finalize l)
    then show ?thesis using hush [OF keepsD [OF gate_finalize_hushed gstep_finalize(2)]] by simp
  next
    case (gstep_unconsumed request rnd sha x)
    then show ?thesis
      using hush [OF calm_hushed [OF fails_keepingD [OF gate_consume_fails gstep_unconsumed(2)]]]
      by simp
  qed
  note all = this
  show "durable_tokens (enforcing s') = durable_tokens (enforcing s) @ concat (puts [e])"
    by (rule all [THEN conjunct1])
  show "controller_invariant (enforced g) (enforcing s')"
    if "controller_invariant (enforced g) (enforcing s)"
    by (rule all [THEN conjunct2, THEN conjunct1, THEN mp, OF that])
  show "case e of Put v \<Rightarrow> gate_slot s = None \<and> gate_slot s' = Some v
         | Take v \<Rightarrow> gate_slot s = Some v \<and> gate_slot s' = None
         | Other \<Rightarrow> gate_slot s' = gate_slot s"
    by (rule all [THEN conjunct2, THEN conjunct2])
qed


text \<open>
  The gate as an instance of the one-shot contract.  \<open>one_at_a_time\<close> holds initially and
  is preserved, so that restricting the steps to states with it loses nothing.
\<close>

definition orderly_step ::
  "('w, 'p, 'm) gate_setup \<Rightarrow> ('w, 'p) gate \<Rightarrow> int list handoff \<Rightarrow> ('w, 'p) gate \<Rightarrow> bool" where
  "orderly_step g s e s' \<longleftrightarrow> hexadecimal (enforced g) \<and> one_at_a_time s \<and> gate_step g s e s'"

interpretation gate_handoff: one_shot "orderly_step g" gate_slot for g
proof unfold_locales
  fix s v s' assume "orderly_step g s (Put v) s'"
  then show "gate_slot s = None \<and> gate_slot s' = Some v"
    using gate_step_effect(3) [of g s "Put v" s'] by (simp add: orderly_step_def)
next
  fix s v s' assume "orderly_step g s (Take v) s'"
  then show "gate_slot s = Some v \<and> gate_slot s' = None"
    using gate_step_effect(3) [of g s "Take v" s'] by (simp add: orderly_step_def)
next
  fix s s' assume "orderly_step g s Other s'"
  then show "gate_slot s' = gate_slot s"
    using gate_step_effect(3) [of g s Other s'] by (simp add: orderly_step_def)
qed

lemma orderly_steps:
  assumes "steps (gate_step g) s es s'" and "one_at_a_time s" and "hexadecimal (enforced g)"
  shows "steps (orderly_step g) s es s'"
  using assms
  by (induction rule: steps.induct)
     (auto simp: steps_simps orderly_step_def dest: gate_step_one_at_a_time)

lemma puts_Cons: "puts (e # es) = puts [e] @ puts es"
  by (cases e) simp_all

lemma gate_steps_effect:
  assumes "steps (gate_step g) s es s'" and "one_at_a_time s" and "hexadecimal (enforced g)"
  shows "durable_tokens (enforcing s') = durable_tokens (enforcing s) @ concat (puts es)
    \<and> (controller_invariant (enforced g) (enforcing s) \<longrightarrow>
         controller_invariant (enforced g) (enforcing s'))"
  using assms
proof (induction rule: steps.induct)
  case (steps_step s e s' es s'')
  note one = gate_step_effect [OF steps_step.hyps(1) steps_step.prems]
  have "one_at_a_time s'"
    by (rule gate_step_one_at_a_time [OF steps_step.hyps(1) steps_step.prems(1)])
  from steps_step.IH [OF this steps_step.prems(2)] one(1,2) show ?case
    by (simp add: puts_Cons [of e es])
qed simp

definition fresh_gate :: "'w \<Rightarrow> ('w, 'p) gate" where
  "fresh_gate w = \<lparr>enforcing = fresh_controller w, gate_closed = False, gate_open_round = None,
                   gate_pending = None\<rparr>"

end
