(* ===== verification/Gate_Properties.thy ===== *)
theory Gate_Properties
  imports Gate_Safety Controller_Restoration Demo_Driver
begin

section \<open>Properties of the runtime gate\<close>

text \<open>
  The claims about \<open>LiveCommitRuntimeGate\<close>, evaluated on a gate over the concrete driver
  of \<open>Demo_Driver\<close>.
\<close>

subsection \<open>Cleaning up restores\<close>

text \<open>The canonical state has the digest the open round was started from.\<close>

definition canonical_as_opened ::
  "('w, 'p, 'm) gate_setup \<Rightarrow> ('w \<Rightarrow> live_state) \<Rightarrow> 'p provisional_opening \<Rightarrow> ('w, 'p) gate \<Rightarrow> bool" where
  "canonical_as_opened g actual opened s \<longleftrightarrow>
     digest_of_state (enforced g) (actual (world (enforcing s))) = Inr (opened_state_sha256 opened)"

lemma probe_digest_canonical:
  assumes "truthful_driver (release_driver env) actual"
    and "probe_digest env c = (Inr d, c')"
  shows "digest_of_state env (actual (world c')) = Inr d"
  using assms
  by (fastforce simp: probe_digest_def driver_call_def truthful_driver_def action_simps
      split: prod.splits sum.splits)

lemma cleanup_restore_canonical:
  assumes t: "truthful_driver (release_driver (enforced g)) actual"
    and "cleanup_restore g opened s = (Inr (), s')"
  shows "canonical_as_opened g actual opened s'"
proof -
  from assms(2) obtain c p c1 probed c' where
    "probe_digest (enforced g) c1 = (Inr probed, c')" "s' = s\<lparr>enforcing := c'\<rparr>"
    "probed = opened_state_sha256 opened"
    by (auto simp: cleanup_restore_def action_simps)
  then show ?thesis
    using probe_digest_canonical [OF t] by (simp add: canonical_as_opened_def)
qed

lemma abort_private_canonical:
  assumes t: "truthful_driver (release_driver (enforced g)) actual"
    and ab: "abort_private_and_restore g opened s = (Inr changed, s')"
  shows "canonical_as_opened g actual opened s'"
proof -
  from ab have "(\<exists>s2. cleanup_restore g opened s2 = (Inr (), s'))
      \<or> (\<exists>c. probe_digest (enforced g) c = (Inr (opened_state_sha256 opened), enforcing s'))"
    by (auto simp: abort_private_and_restore_def action_simps Let_def split: if_splits)
  then show ?thesis
    using cleanup_restore_canonical [OF t] probe_digest_canonical [OF t]
    by (auto simp: canonical_as_opened_def)
qed

lemma controlled_open: "controlled m s = (r, s') \<Longrightarrow> gate_open_round s' = gate_open_round s"
  by (auto simp: controlled_def split: prod.splits sum.splits)

text \<open>When the body of \<open>commit\<close> raises, the round is still open or has been cleaned up.\<close>

lemma commit_body_open:
  assumes t: "truthful_driver (release_driver (enforced g)) actual"
    and o: "gate_open_round s = Some opened"
    and "commit_body g request rnd requested payload fallback s = (Inl e, s')"
  shows "gate_open_round s' = Some opened
    \<or> gate_open_round s' = None \<and> canonical_as_opened g actual opened s'"
proof -
  have ex: "gate_open_round s' = Some opened
    \<or> gate_open_round s' = None \<and> canonical_as_opened g actual opened s'"
    if "expose_receipt g opened request rnd requested r s1 = (Inl e, s')"
      "gate_open_round s1 = Some opened" for r s1
  proof -
    from that(1) consider "s' = s1" | x where "abort_private_and_restore g opened s1 = (Inl x, s')"
      | changed s2 where "abort_private_and_restore g opened s1 = (Inr changed, s2)"
          "s' = s2\<lparr>gate_open_round := None\<rparr>"
      by (auto simp: expose_receipt_def action_simps Let_def split: if_splits)
    then show ?thesis
    proof cases
      case 2
      then show ?thesis
        using keepsD [OF abort_private_calm 2] that(2) by (simp add: calm_def)
    next
      case 3
      then show ?thesis
        using abort_private_canonical [OF t 3(1)] by (simp add: canonical_as_opened_def)
    qed (use that(2) in simp)
  qed
  show ?thesis
    using assms(3) o ex
    by (auto simp: commit_body_def action_simps split: if_splits dest: controlled_open)
qed

lemma fresh_gate_facts:
  "one_at_a_time (fresh_gate w)" "gate_slot (fresh_gate w) = None"
  "durable_tokens (enforcing (fresh_gate w)) = []"
  "controller_invariant env (enforcing (fresh_gate w))"
  by (simp_all add: one_at_a_time_def fresh_gate_def gate_slot_def durable_tokens_def
      controller_invariant_fresh) (simp add: fresh_controller_def)

lemma invariant_serial_run:
  assumes inv: "controller_invariant env c" and hex: "hexadecimal env"
    and "durable_receipts c \<noteq> []"
  shows "serial_run (canonical_before (body (hd (durable_receipts c))))
           (map body (durable_receipts c)) (canonical_after (body (last (durable_receipts c))))"
proof -
  obtain q where "chain_receipts (controller_session env) (capability_id env) 0 (durable_receipts c)
       (canonical_before (body (hd (durable_receipts c))), False)
     = Inr (canonical_after (body (last (durable_receipts c))), q)"
    using inv assms(3) by (auto simp: controller_invariant_def)
  moreover have "verify_receipt (hashes env) r = Inr r" if "r \<in> set (durable_receipts c)" for r
  proof -
    have s: "seal_receipt (hashes env) (body r) = Inr r"
      using inv that by (simp add: controller_invariant_def)
    then have "is_sha256 (self_sha256 r)"
      using seal_receipt_body [OF s] hex by (simp add: hexadecimal_def)
    then show ?thesis using s by (simp add: verify_receipt_def sha256_value_def)
  qed
  ultimately show ?thesis by (intro chain_receipts_run) auto
qed


subsection \<open>A concrete gate\<close>

definition demo_gate :: "(live_state, unit, unit) gate_setup" where
  "demo_gate =
     \<lparr>enforced = demo_env 7,
      begin_provisional = (\<lambda>snapshot payload request rnd w. (Inr payload, w)),
      abort_provisional = (\<lambda>request rnd w. (Inr (), w)),
      consume_advance = (\<lambda>request rnd sha tokens w.
        (Inr \<lparr>vllm_request_id = request, vllm_round_index = rnd, vllm_intent_sha256 = sha,
              vllm_token_ids = tokens, vllm_output_sha256 = zero_sha256, vllm_output = ()\<rparr>, w))\<rparr>"

lemma demo_gate_simps [simp]:
  "enforced demo_gate = demo_env 7"
  "begin_provisional demo_gate snapshot payload request rnd w = (Inr payload, w)"
  "abort_provisional demo_gate request rnd w = (Inr (), w)"
  "consume_advance demo_gate request rnd sha tokens w =
     (Inr \<lparr>vllm_request_id = request, vllm_round_index = rnd, vllm_intent_sha256 = sha,
           vllm_token_ids = tokens, vllm_output_sha256 = zero_sha256, vllm_output = ()\<rparr>, w)"
  by (simp_all add: demo_gate_def)

lemma demo_hexadecimal: "hexadecimal (demo_env 7)"
  by (simp add: hexadecimal_def)

definition demo_opening :: "unit provisional_opening" where
  "demo_opening =
     \<lparr>opened_request_id = ''request'', opened_round_index = 0, opened_payload = (),
      opened_snapshot = demo_snapshot, opened_state_sha256 = zero_sha256\<rparr>"

definition opened_gate :: "(live_state, unit) gate" where
  "opened_gate = (fresh_gate demo_before)\<lparr>gate_open_round := Some demo_opening\<rparr>"

lemma demo_driver_observers [simp]:
  "snapshot_canonical (demo_driver k) w
     = (Inr \<lparr>snapshot_handle = ''root'', snapshot_state = w\<rparr>, w)"
  "probe_canonical (demo_driver k) w = (Inr w, w)"
  by (simp_all add: demo_driver_def)

lemma demo_probe_digest [simp]:
  "world c = demo_before \<Longrightarrow> probe_digest (demo_env k) c = (Inr zero_sha256, c)"
  by (simp add: probe_digest_def sbind_def driver_call_def digest_of_state_def)

lemmas gate_eval =
  sbind_def assert_that_def controlled_def try_except_def driver_call_def Let_def

lemma demo_gate_begin:
  "gate_begin demo_gate ''request'' 0 () (fresh_gate demo_before) = (Inr (), opened_gate)"
  by (simp add: gate_begin_def gate_eval fresh_gate_def fresh_controller_def opened_gate_def
      demo_opening_def demo_snapshot_def digest_of_state_def)

lemma demo_gate_commit:
  "\<exists>c s1 r. gate_commit demo_gate ''request'' 0 (Some 1) () None opened_gate = (Inr c, s1)
     \<and> length (committed_token_ids c) = 1 \<and> \<not> gate_closed s1 \<and> gate_open_round s1 = None
     \<and> committed_token_ids c = serial_token_ids (body r)
     \<and> gate_pending s1 = Some (pending_of ''request'' 0 r)"
proof -
  obtain r c2 where run: "run_round (demo_env 7) ''request'' 0 (Some 1) () None demo_start = (Inr r, c2)"
    using demo_round [of 7] by auto
  note x = returned_receipt_is_exposed [OF run demo_hexadecimal, simplified]
  note f = run_round_receipt_facts(1) [OF run]
  have n: "commit_count (body r) = 1" using run_round_width(1) [OF run] by simp
  have g: "opened_gate = \<lparr>enforcing = demo_start, gate_closed = False,
      gate_open_round = Some demo_opening, gate_pending = None\<rparr>" "world demo_start = demo_before"
    by (simp_all add: opened_gate_def fresh_gate_def demo_start_def fresh_controller_def)
  have "\<exists>c s1. gate_commit demo_gate ''request'' 0 (Some 1) () None opened_gate = (Inr c, s1)
     \<and> length (committed_token_ids c) = 1 \<and> \<not> gate_closed s1 \<and> gate_open_round s1 = None
     \<and> committed_token_ids c = serial_token_ids (body r)
     \<and> gate_pending s1 = Some (pending_of ''request'' 0 r)"
    using run x n sealed_receipt_tokens(2) [OF f] g(2)
    by (simp add: g(1) gate_commit_def commit_body_def gate_eval expose_receipt_def)
       (simp add: demo_opening_def pending_of_def)
  then show ?thesis by blast
qed

lemma demo_gate_session:
  "\<exists>v s1 s2 c. gate_commit demo_gate ''request'' 0 (Some 1) () None opened_gate = (Inr c, s1)
     \<and> v = committed_token_ids c \<and> length v = 1
     \<and> steps (gate_step demo_gate) (fresh_gate demo_before) [Other, Put v, Take v] s2"
proof -
  obtain c s1 r where com: "gate_commit demo_gate ''request'' 0 (Some 1) () None opened_gate = (Inr c, s1)"
    and s1: "length (committed_token_ids c) = 1" "\<not> gate_closed s1" "gate_open_round s1 = None"
      "committed_token_ids c = serial_token_ids (body r)"
      "gate_pending s1 = Some (pending_of ''request'' 0 r)"
    using demo_gate_commit by blast
  then have put: "gate_step demo_gate opened_gate (Put (committed_token_ids c)) s1"
    by (intro gstep_commit) auto
  have "\<exists>a s2. gate_consume demo_gate ''request'' 0 (publication_intent_sha256 (body r)) s1 = (Inr a, s2)
      \<and> vllm_token_ids a = serial_token_ids (body r)"
    using s1 by (simp add: gate_consume_def gate_eval pending_of_def)
  then obtain s2 where "gate_step demo_gate s1 (Take (committed_token_ids c)) s2"
    using gstep_consume s1(4) by metis
  with put gstep_begin [OF demo_gate_begin] com s1(1) show ?thesis
    by (auto simp: steps_simps)
qed


subsection \<open>The properties\<close>

text \<open>
  C15: End to end: whatever the driver does and whatever sequence of calls the scheduler
  makes on a new gate, the tokens it has been given so far, followed by those of the
  advance it has not fetched yet, are exactly the tokens of the independent serial
  implementation in the durable receipts, in order; and these receipts are a run of the
  serial program.  The only assumption is that receipt digests are SHA-256 digests.
\<close>

theorem released_tokens_are_serial:
  fixes g :: "('w, 'p, 'm) gate_setup"
  assumes "hexadecimal (enforced g)"
    and "steps (gate_step g) (fresh_gate w) es s"
  defines "rs \<equiv> durable_receipts (enforcing s)"
  shows "concat (takes es) @ (case gate_pending s of None \<Rightarrow> [] | Some p \<Rightarrow> pending_token_ids p)
      = concat (map (serial_token_ids \<circ> body) rs)
    \<and> (rs = [] \<or> serial_run (canonical_before (body (hd rs))) (map body rs)
                              (canonical_after (body (last rs))))"
proof -
  note fresh = fresh_gate_facts [where w = w]
  note eff = gate_steps_effect [OF assms(2) fresh(1) assms(1)]
  have "puts es = takes es @ held (gate_slot s)"
    using gate_handoff.conservation [OF orderly_steps [OF assms(2) fresh(1) assms(1)]]
    by (simp add: fresh_gate_facts(2))
  then have "concat (puts es) = concat (takes es)
      @ (case gate_pending s of None \<Rightarrow> [] | Some p \<Rightarrow> pending_token_ids p)"
    by (simp add: gate_slot_def held_def split: option.splits)
  moreover have "rs \<noteq> [] \<Longrightarrow> serial_run (canonical_before (body (hd rs))) (map body rs)
                              (canonical_after (body (last rs)))"
    unfolding rs_def by (rule invariant_serial_run) (use eff fresh(4) assms(1) in auto)
  ultimately show ?thesis
    using eff
    by (cases "durable_receipts (enforcing s) = []")
       (simp_all add: fresh_gate_facts(3) durable_tokens_def [of "enforcing s"] rs_def)
qed

theorem released_tokens_are_serial_witness:
  "\<exists>es s. steps (gate_step demo_gate) (fresh_gate demo_before) es s \<and> length (concat (takes es)) = 1
     \<and> concat (takes es) @ (case gate_pending s of None \<Rightarrow> [] | Some p \<Rightarrow> pending_token_ids p)
        = concat (map (serial_token_ids \<circ> body) (durable_receipts (enforcing s)))"
proof -
  obtain v s2 where run: "steps (gate_step demo_gate) (fresh_gate demo_before) [Other, Put v, Take v] s2"
    and v: "length v = 1" using demo_gate_session by blast
  have "hexadecimal (enforced demo_gate)" using demo_hexadecimal by simp
  from released_tokens_are_serial [OF this run] run v show ?thesis
    by (intro exI [of _ "[Other, Put v, Take v]"] exI [of _ s2]) simp
qed

text \<open>
  A commit that returns exposes one receipt.  It was called for the round that was
  open, exactly one receipt has become durable, in the journal and in the chain, and the
  tokens, the state, the intent and the receipt digest handed to the scheduler are those of
  this receipt, with the serial tokens and the serial state in it.
\<close>

theorem commit_exposes_its_receipt:
  fixes g :: "('w, 'p, 'm) gate_setup"
  assumes "hexadecimal (enforced g)"
    and "gate_commit g request rnd requested payload fallback s = (Inr c, s')"
  shows "\<exists>r opened. gate_open_round s = Some opened
    \<and> opened_request_id opened = request \<and> opened_round_index opened = rnd
    \<and> durable_receipts (enforcing s') = durable_receipts (enforcing s) @ [r]
    \<and> verify_receipt (hashes (enforced g)) r = Inr r
    \<and> round_index (body r) = rnd
    \<and> committed_token_ids c = serial_token_ids (body r)
    \<and> committed_state c = serial_state (body r)
    \<and> committed_receipt_sha256 c = self_sha256 r
    \<and> gate_open_round s' = None
    \<and> (case gate_pending s' of
         None \<Rightarrow> committed_token_ids c = []
       | Some p \<Rightarrow> committed_token_ids c = [] \<and> gate_pending s = Some p
                  \<or> pending_token_ids p = committed_token_ids c
                    \<and> pending_intent_sha256 p = committed_intent_sha256 c)"
  using assms(2,1)
proof (cases rule: gate_commit_cases)
  case (returned opened r c1 c2)
  note x = returned_receipt_is_exposed(1) [OF returned(6) assms(1)]
  have "durable_receipts (enforcing s') = durable_receipts (enforcing s) @ [r]"
    using returned(5,7) run_round_receipt_facts(10) [OF returned(6)] by (simp add: steady_def)
  then show ?thesis
    using returned x run_round_width(2) [OF returned(6)] gate_commit_closes [OF assms(2)]
    by (intro exI [of _ r] exI [of _ opened])
       (auto simp: exposed_def pending_of_def split: option.splits)
qed simp_all

theorem commit_exposes_its_receipt_witness:
  "\<exists>c s1 r. gate_commit demo_gate ''request'' 0 (Some 1) () None opened_gate = (Inr c, s1)
     \<and> durable_receipts (enforcing s1) = [r] \<and> committed_token_ids c = serial_token_ids (body r)"
proof -
  obtain c s1 where com: "gate_commit demo_gate ''request'' 0 (Some 1) () None opened_gate = (Inr c, s1)"
    using demo_gate_commit by blast
  have "hexadecimal (enforced demo_gate)" using demo_hexadecimal by simp
  from commit_exposes_its_receipt [OF this com] com show ?thesis
    by (auto simp: opened_gate_def fresh_gate_def fresh_controller_def)
qed

text \<open>
  C16: A commit that fails leaves the canonical state it found.  With a driver whose probe
  is truthful, a commit of an open round that raises anything but the failure of its own
  clean-up leaves the canonical state with the digest the round was opened with, closes the
  round and exposes no tokens, however far the controller had come.
\<close>

theorem failed_commit_restores_canonical:
  fixes g :: "('w, 'p, 'm) gate_setup"
  assumes "truthful_driver (release_driver (enforced g)) actual"
    and "gate_open_round s = Some opened"
    and "gate_commit g request rnd requested payload fallback s = (Inl e, s')"
    and "e \<noteq> GateRefused CommitCleanupFailed"
  shows "digest_of_state (enforced g) (actual (world (enforcing s'))) = Inr (opened_state_sha256 opened)
    \<and> gate_open_round s' = None"
proof -
  obtain res0 s0 where b: "commit_body g request rnd requested payload fallback s = (res0, s0)"
    by fastforce
  with assms(3) obtain e0 where e0: "res0 = Inl e0"
    by (cases res0) (auto simp: gate_commit_def try_except_def)
  note o = commit_body_open [OF assms(1,2) b [unfolded e0]]
  have "canonical_as_opened g actual opened s'"
  proof (cases "gate_open_round s0")
    case None
    then have "enforcing s' = enforcing s0"
      using assms(3) b e0 by (auto simp: gate_commit_def try_except_def sbind_def)
    then show ?thesis using o None by (simp add: canonical_as_opened_def)
  next
    case (Some op)
    then have op: "op = opened" using o by simp
    obtain ar s1 where ar: "abort_private_and_restore g opened s0 = (ar, s1)" by fastforce
    with assms(3,4) b e0 Some op obtain changed where "ar = Inr changed" "enforcing s' = enforcing s1"
      by (cases ar) (auto simp: gate_commit_def try_except_def sbind_def)
    then show ?thesis
      using abort_private_canonical [OF assms(1)] ar by (simp add: canonical_as_opened_def)
  qed
  then show ?thesis
    using gate_commit_closes [OF assms(3)] by (simp add: canonical_as_opened_def)
qed

theorem failed_commit_restores_canonical_witness:
  "\<exists>s'. gate_commit demo_gate ''other'' 0 (Some 1) () None opened_gate
      = (Inl (GateRefused CommitIdentity), s')
     \<and> digest_of_state (demo_env 7) (world (enforcing s')) = Inr zero_sha256"
proof -
  have t: "truthful_driver (release_driver (enforced demo_gate)) (\<lambda>w. w)"
    by (simp add: truthful_driver_def demo_driver_def)
  have o: "gate_open_round opened_gate = Some demo_opening"
    by (simp add: opened_gate_def)
  have "enforcing opened_gate = demo_start" "world demo_start = demo_before" "\<not> gate_closed opened_gate"
    by (simp_all add: opened_gate_def fresh_gate_def demo_start_def fresh_controller_def)
  then have "\<exists>s'. gate_commit demo_gate ''other'' 0 (Some 1) () None opened_gate
      = (Inl (GateRefused CommitIdentity), s')"
    by (simp add: gate_commit_def commit_body_def gate_eval o)
       (simp add: demo_opening_def abort_private_and_restore_def gate_eval attempt_def commit_error_def)
  then obtain s' where com: "gate_commit demo_gate ''other'' 0 (Some 1) () None opened_gate
      = (Inl (GateRefused CommitIdentity), s')" by blast
  from failed_commit_restores_canonical [OF t o com] com show ?thesis
    by (intro exI [of _ s']) (simp add: demo_opening_def)
qed


text \<open>
  C17: What the engine is handed can be decoded to what was verified.  When a gate over the
  vLLM driver releases an advance, the advance names the pending commit, carries a model
  output, and at that moment the scheduler's own hooks computed the advertised fingerprint
  and exactly the verified tokens from this output.
\<close>

theorem released_output_decodes_to_tokens:
  fixes eng :: "('w, 'p, 'm) vllm_engine"
  assumes "gate_consume (vllm_gate H capability session eng) request rnd sha s = (Inr a, s')"
  shows "\<exists>p m w1 w2. gate_pending s = Some p
    \<and> (request, rnd, sha) = (pending_request_id p, pending_round_index p, pending_intent_sha256 p)
    \<and> vllm_token_ids a = pending_token_ids p \<and> pending_token_ids p \<noteq> []
    \<and> vllm_output a = Some m
    \<and> hook_model_output_sha256 (engine_hooks eng) m w1 = (Inr (vllm_output_sha256 a), w2)
    \<and> hook_model_output_token_ids (engine_hooks eng) m request w2
        = (Inr (pending_token_ids p), world (enforcing s'))
    \<and> gate_pending s' = None"
proof -
  from assms obtain p c where p: "gate_pending s = Some p" "gate_pending s' = None"
      "(request, rnd, sha) = (pending_request_id p, pending_round_index p, pending_intent_sha256 p)"
    and d: "driver_call (vllm_consume_verified_advance eng request rnd sha (pending_token_ids p))
              (enforcing s) = (Inr a, c)" "enforcing s' = c"
    by (auto simp: gate_consume_def action_simps vllm_gate_def split: option.splits)
  from d obtain w where v:
    "vllm_consume_verified_advance eng request rnd sha (pending_token_ids p) (world (enforcing s))
       = (Inr a, w)" and c: "c = (enforcing s)\<lparr>world := w\<rparr>"
    by (auto simp: driver_call_def split: prod.splits sum.splits)
  have "world (enforcing s') = w" using c d(2) by simp
  with v show ?thesis
    using p by (elim vllm_consume_Inr) auto
qed

definition echo_hooks :: "(unit, unit, int list) scheduler_hooks" where
  "echo_hooks =
     \<lparr>hook_begin_provisional_round = (\<lambda>sn p r i w. (Inr (Some p), w)),
      hook_abort_provisional_round = (\<lambda>r i w. (Inr (), w)),
      hook_snapshot_canonical = (\<lambda>w. (Inr demo_snapshot, w)),
      hook_probe_canonical = (\<lambda>w. (Inr demo_before, w)),
      hook_record_private_transition = (\<lambda>role t w. (Inr (), w)),
      hook_publish_private = (\<lambda>sn t sha w. (Inr \<lparr>publication_state = demo_after, atomic = True\<rparr>, w)),
      hook_restore_canonical = (\<lambda>sn w. (Inr \<lparr>publication_state = demo_before, atomic = True\<rparr>, w)),
      hook_destroy_private = (\<lambda>t w. (Inr (), w)),
      hook_cleanup_failed_private = (\<lambda>role session r i w. (Inr (), w)),
      hook_recover_publication = (\<lambda>i w. (Inl (DriverException ''none'' ''none''), w)),
      hook_model_output_sha256 = (\<lambda>m w. (Inr zero_sha256, w)),
      hook_model_output_token_ids = (\<lambda>m r w. (Inr m, w)),
      hook_consume_verified_advance = (\<lambda>r i sha tokens w.
        (Inr \<lparr>vllm_request_id = r, vllm_round_index = i, vllm_intent_sha256 = sha,
              vllm_token_ids = tokens, vllm_output_sha256 = zero_sha256, vllm_output = Some tokens\<rparr>, w))\<rparr>"

definition echo_engine :: "(unit, unit, int list) vllm_engine" where
  "echo_engine =
     \<lparr>engine_hooks = echo_hooks,
      candidate_execute = (\<lambda>sn p n w. (Inl (DriverException ''none'' ''none''), w)),
      serial_execute = (\<lambda>sn p n w. (Inl (DriverException ''none'' ''none''), w)),
      engine_release_sha256 = zero_sha256, engine_serial_sha256 = one_sha256,
      engine_candidate_family = ''fused'', engine_serial_family = ''serial_oracle''\<rparr>"

definition echo_gate :: "(unit, unit) gate" where
  "echo_gate = (fresh_gate ())\<lparr>gate_pending := Some
     \<lparr>pending_request_id = ''request'', pending_round_index = 0, pending_intent_sha256 = zero_sha256,
      pending_token_ids = [7, 8]\<rparr>\<rparr>"

theorem released_output_decodes_to_tokens_witness:
  "\<exists>a s'. gate_consume (vllm_gate demo_hashes zero_sha256 ''session'' echo_engine) ''request'' 0
      zero_sha256 echo_gate = (Inr a, s')
     \<and> vllm_token_ids a = [7, 8] \<and> vllm_output a = Some [7, 8]"
proof -
  have "\<exists>a s'. gate_consume (vllm_gate demo_hashes zero_sha256 ''session'' echo_engine) ''request'' 0
      zero_sha256 echo_gate = (Inr a, s')"
    by (simp add: gate_consume_def gate_eval vllm_gate_def echo_engine_def echo_hooks_def echo_gate_def
        fresh_gate_def fresh_controller_def vllm_consume_verified_advance_def vllm_sha256_def)
  then obtain a s' where run: "gate_consume (vllm_gate demo_hashes zero_sha256 ''session'' echo_engine)
      ''request'' 0 zero_sha256 echo_gate = (Inr a, s')" by blast
  from released_output_decodes_to_tokens [OF run] run show ?thesis
    by (intro exI [of _ a] exI [of _ s'])
       (auto simp: echo_gate_def echo_engine_def echo_hooks_def)
qed

end
