(* ===== verification/Root_Tables.thy ===== *)
theory Root_Tables
  imports Scheduler_Authority "HOL-Library.List_Lexorder" "HOL-Library.Char_ord" "HOL-Library.AList"
begin

section \<open>Block-table roots\<close>

text \<open>
  Model of \<open>AtomicRootTableBank\<close> and \<open>RootedRequestBlockMap\<close> of
  \<open>src/qwen_r9700_lab/live_commit_vllm_root_tables.py\<close>.  A cache block is its block ID (the
  block pool has one object per ID), a block table is a list of blocks, and a root has one
  table for each of the 69 cache groups.  The bank's dictionary keeps its insertion order
  as an association list.  The getter of an external authority is a function of that
  authority's state \<open>'x\<close> and may raise (\<open>None\<close>); \<open>_selection\<close> is the value of the context
  variable in the running context.
\<close>

definition MAMBA_GROUPS :: nat where "MAMBA_GROUPS = 48"
definition TARGET_ATTENTION_GROUPS :: nat where "TARGET_ATTENTION_GROUPS = 16"
definition DRAFT_ATTENTION_GROUPS :: nat where "DRAFT_ATTENTION_GROUPS = 5"
definition TOTAL_GROUPS :: nat where
  "TOTAL_GROUPS = MAMBA_GROUPS + TARGET_ATTENTION_GROUPS + DRAFT_ATTENTION_GROUPS"
definition MAX_COMMIT_WIDTH :: nat where "MAX_COMMIT_WIDTH = 8"

lemmas group_counts =
  MAMBA_GROUPS_def TARGET_ATTENTION_GROUPS_def DRAFT_ATTENTION_GROUPS_def TOTAL_GROUPS_def
  MAX_COMMIT_WIDTH_def

datatype pool_exception = PoolException string

datatype table_error =
    InvalidRootId
  | InvalidRequestId
  | TableGroupCountDiffers
  | RootAlreadyRegistered
  | ExternalLookupFailed
  | ExternalRootNotRegistered
  | ExternalAlreadyBound
  | ExternalRootDiffers
  | GroupIndexInvalid
  | RootNotRegistered
  | PrivateSelectionInvalid
  | ExternallyBoundPublication
  | PublishInsideSelection
  | CanonicalRootChanged
  | PublicationRootInvalid
  | KeyMissing
  | NumberInvalid
  | CommitWidthInvalid
  | AllocatorRootIdsNotUnique
  | GroupsNotSixtyNine
  | PoolsDiffer
  | GroupIdsNotCanonical
  | UnsupportedManager
  | GroupOrderDiffers
  | BlockSizeInvalid
  | MambaModeInvalid
  | NoAllocatedBlocks
  | MambaBlockCount
  | InvalidBlockId
  | BlockOwnedTwice
  | MissingHistory
  | ReservationIncomplete
  | ReservationDuplicates
  | ReservationExhausted
  | ReservationUnused
  | CapacityPreparationFailed
  | SharedReferencedTwice
  | SharedReferenceInvalid
  | UnknownOwnership
  | TouchedWrongly
  | PoolRaised pool_exception
  | PhysicalRootInvalid root_error
  | AlreadyReserved
  | AlreadyInstalled
  | TableChangedBeforeInstallation
  | NotInstalled
  | CloseInsideSelection

type_synonym block_tables = "int list list"

definition table_root_id :: "string \<Rightarrow> table_error + unit" where
  "table_root_id s =
     require (1 \<le> length s \<and> length s \<le> 256 \<and>
              list_all (\<lambda>c. c \<in> set (''ABCDEFGHIJKLMNOPQRSTUVWXYZ'' @ ''abcdefghijklmnopqrstuvwxyz''
                                    @ ''0123456789._:+/-'')) s)
             InvalidRootId"

record 'x table_bank =
  bank_request :: string
  root_tables :: "(string \<times> block_tables) list"
  own_canonical :: string
  external_getter :: "('x \<Rightarrow> string option) option"
  root_selection :: "string option"

type_synonym ('x, 'a) bank_op = "('x table_bank, table_error, 'a) action"

definition normalize_tables :: "block_tables \<Rightarrow> table_error + block_tables" where
  "normalize_tables tables =
     rbind (require (length tables = TOTAL_GROUPS) TableGroupCountDiffers) (\<lambda>_. Inr tables)"

definition new_bank :: "string \<Rightarrow> string \<Rightarrow> block_tables \<Rightarrow> table_error + 'x table_bank" where
  "new_bank request root tables =
     (if request = [] then Inl InvalidRequestId else
      rbind (table_root_id root) (\<lambda>_.
      rbind (normalize_tables tables) (\<lambda>normalized.
      Inr \<lparr>bank_request = request, root_tables = [(root, normalized)], own_canonical = root,
           external_getter = None, root_selection = None\<rparr>)))"

text \<open>\<open>_root_id(getter())\<close> with the exceptions of the getter wrapped.\<close>

definition external_root :: "('x \<Rightarrow> string option) \<Rightarrow> 'x \<Rightarrow> table_error + string" where
  "external_root getter x =
     (case getter x of
        None \<Rightarrow> Inl ExternalLookupFailed
      | Some root \<Rightarrow> rbind (table_root_id root) (\<lambda>_. Inr root))"

definition canonical_root :: "'x \<Rightarrow> 'x table_bank \<Rightarrow> table_error + string" where
  "canonical_root x b =
     (case external_getter b of
        None \<Rightarrow> Inr (own_canonical b)
      | Some getter \<Rightarrow>
          rbind (external_root getter x) (\<lambda>root.
          if root \<notin> fst ` set (root_tables b) then Inl ExternalRootNotRegistered else Inr root))"

definition selected_root :: "'x \<Rightarrow> 'x table_bank \<Rightarrow> table_error + string" where
  "selected_root x b =
     (case root_selection b of None \<Rightarrow> canonical_root x b | Some root \<Rightarrow> Inr root)"

definition register_root :: "string \<Rightarrow> block_tables \<Rightarrow> ('x, unit) bank_op" where
  "register_root root tables =
     sbind (lift_result (table_root_id root)) (\<lambda>_.
     sbind (lift_result (normalize_tables tables)) (\<lambda>normalized.
     sbind (gets root_tables) (\<lambda>known.
     sbind (assert_that (root \<notin> fst ` set known) RootAlreadyRegistered) (\<lambda>_.
     modify (\<lambda>b. b\<lparr>root_tables := known @ [(root, normalized)]\<rparr>)))))"

definition bind_canonical_root :: "('x \<Rightarrow> string option) \<Rightarrow> 'x \<Rightarrow> ('x, unit) bank_op" where
  "bind_canonical_root getter x =
     sbind (gets id) (\<lambda>b.
     sbind (assert_that (external_getter b = None) ExternalAlreadyBound) (\<lambda>_.
     sbind (lift_result (external_root getter x)) (\<lambda>observed.
     sbind (assert_that (observed = own_canonical b \<and> observed \<in> fst ` set (root_tables b))
              ExternalRootDiffers) (\<lambda>_.
     modify (\<lambda>b. b\<lparr>external_getter := Some getter\<rparr>)))))"

definition resolve_root :: "'x \<Rightarrow> string option \<Rightarrow> 'x table_bank \<Rightarrow> table_error + string" where
  "resolve_root x root b =
     (case root of
        None \<Rightarrow> selected_root x b
      | Some r \<Rightarrow> rbind (table_root_id r) (\<lambda>_. Inr r))"

definition bank_tables :: "'x \<Rightarrow> string option \<Rightarrow> 'x table_bank \<Rightarrow> table_error + block_tables" where
  "bank_tables x root b =
     rbind (resolve_root x root b) (\<lambda>r.
     case map_of (root_tables b) r of None \<Rightarrow> Inl RootNotRegistered | Some ts \<Rightarrow> Inr ts)"

definition bank_table :: "'x \<Rightarrow> int \<Rightarrow> string option \<Rightarrow> 'x table_bank \<Rightarrow> table_error + int list" where
  "bank_table x g root b =
     (if g < 0 \<or> int TOTAL_GROUPS \<le> g then Inl GroupIndexInvalid
      else rbind (bank_tables x root b) (\<lambda>ts. Inr (ts ! nat g)))"

text \<open>\<open>select_private\<close>: the body runs with the selection and the previous one is put back.\<close>

definition with_private :: "'x \<Rightarrow> string \<Rightarrow> ('x, 'a) bank_op \<Rightarrow> ('x, 'a) bank_op" where
  "with_private x root body_op =
     sbind (lift_result (table_root_id root)) (\<lambda>_.
     sbind (gets id) (\<lambda>b.
     sbind (lift_result (canonical_root x b)) (\<lambda>current.
     sbind (assert_that (\<not> (root = current \<or> root \<notin> fst ` set (root_tables b)))
              PrivateSelectionInvalid) (\<lambda>_.
     sbind (modify (\<lambda>b. b\<lparr>root_selection := Some root\<rparr>)) (\<lambda>_.
     sbind (attempt body_op) (\<lambda>outcome.
     sbind (modify (\<lambda>c. c\<lparr>root_selection := root_selection b\<rparr>)) (\<lambda>_.
     lift_result outcome)))))))"

definition bank_publish :: "'x \<Rightarrow> string \<Rightarrow> string \<Rightarrow> ('x, string) bank_op" where
  "bank_publish x expected selected =
     sbind (lift_result (table_root_id expected)) (\<lambda>_.
     sbind (lift_result (table_root_id selected)) (\<lambda>_.
     sbind (gets id) (\<lambda>b.
     sbind (assert_that (external_getter b = None) ExternallyBoundPublication) (\<lambda>_.
     sbind (assert_that (root_selection b = None) PublishInsideSelection) (\<lambda>_.
     sbind (lift_result (canonical_root x b)) (\<lambda>current.
     sbind (assert_that (current = expected) CanonicalRootChanged) (\<lambda>_.
     sbind (assert_that (\<not> (selected = expected \<or> selected \<notin> fst ` set (root_tables b)))
              PublicationRootInvalid) (\<lambda>_.
     sbind (modify (\<lambda>b. b\<lparr>own_canonical := selected\<rparr>)) (\<lambda>_.
     ret (own_canonical b))))))))))"

subsection \<open>The request maps\<close>

text \<open>
  \<open>current[:] = value\<close> and \<open>clear()\<close> mutate the list the bank holds: the table of the group
  in the root that is resolved at this moment.
\<close>

definition write_table :: "'x \<Rightarrow> nat \<Rightarrow> int list \<Rightarrow> ('x, unit) bank_op" where
  "write_table x g blocks =
     sbind (gets id) (\<lambda>b.
     sbind (lift_result (bank_table x (int g) None b)) (\<lambda>_.
     sbind (lift_result (resolve_root x None b)) (\<lambda>r.
     modify (\<lambda>b. b\<lparr>root_tables :=
       map (\<lambda>(root, ts). (root, if root = r then ts[g := blocks] else ts)) (root_tables b)\<rparr>))))"

record 'x request_map =
  delegate :: "(string \<times> int list) list"
  map_bank :: "'x table_bank"

type_synonym ('x, 'a) map_op = "('x request_map, table_error, 'a) action"

definition on_bank :: "('x, 'a) bank_op \<Rightarrow> ('x, 'a) map_op" where
  "on_bank m s = (case m (map_bank s) of (r, b) \<Rightarrow> (r, s\<lparr>map_bank := b\<rparr>))"

definition read_table :: "'x \<Rightarrow> nat \<Rightarrow> ('x, int list) bank_op" where
  "read_table x g = sbind (gets id) (\<lambda>b. lift_result (bank_table x (int g) None b))"

definition map_get :: "'x \<Rightarrow> nat \<Rightarrow> string \<Rightarrow> ('x, int list) map_op" where
  "map_get x g key =
     sbind (gets id) (\<lambda>s.
     if key = bank_request (map_bank s) then on_bank (read_table x g)
     else case map_of (delegate s) key of None \<Rightarrow> raise KeyMissing | Some v \<Rightarrow> ret v)"

definition map_set :: "'x \<Rightarrow> nat \<Rightarrow> string \<Rightarrow> int list \<Rightarrow> ('x, unit) map_op" where
  "map_set x g key value =
     sbind (gets id) (\<lambda>s.
     if key = bank_request (map_bank s) then on_bank (write_table x g value)
     else modify (\<lambda>s. s\<lparr>delegate := AList.update key value (delegate s)\<rparr>))"

definition map_delete :: "'x \<Rightarrow> nat \<Rightarrow> string \<Rightarrow> ('x, unit) map_op" where
  "map_delete x g key =
     sbind (gets id) (\<lambda>s.
     if key = bank_request (map_bank s) then on_bank (write_table x g [])
     else sbind (assert_that (map_of (delegate s) key \<noteq> None) KeyMissing) (\<lambda>_.
          modify (\<lambda>s. s\<lparr>delegate := AList.delete key (delegate s)\<rparr>)))"

definition map_iter :: "'x request_map \<Rightarrow> string list" where
  "map_iter s =
     (let keys = map fst (delegate s); protected = bank_request (map_bank s)
      in if protected \<in> set keys then keys else keys @ [protected])"

definition map_len :: "'x request_map \<Rightarrow> nat" where
  "map_len s = card (set (map fst (delegate s)) \<union> {bank_request (map_bank s)})"

definition map_get_default :: "'x \<Rightarrow> nat \<Rightarrow> string \<Rightarrow> ('x, int list option) map_op" where
  "map_get_default x g key =
     sbind (gets id) (\<lambda>s.
     if key = bank_request (map_bank s)
     then sbind (on_bank (read_table x g)) (\<lambda>v. ret (Some v))
     else ret (map_of (delegate s) key))"

text \<open>\<open>fallback\<close>, the argument \<open>default\<close>, is \<open>None\<close> when the argument is missing.\<close>

definition map_pop :: "'x \<Rightarrow> nat \<Rightarrow> string \<Rightarrow> int list option \<Rightarrow> ('x, int list) map_op" where
  "map_pop x g key fallback =
     sbind (gets id) (\<lambda>s.
     if key = bank_request (map_bank s)
     then sbind (on_bank (read_table x g)) (\<lambda>v.
          sbind (on_bank (write_table x g [])) (\<lambda>_. ret v))
     else case (map_of (delegate s) key, fallback) of
            (Some v, _) \<Rightarrow>
              sbind (modify (\<lambda>s. s\<lparr>delegate := AList.delete key (delegate s)\<rparr>)) (\<lambda>_. ret v)
          | (None, Some d) \<Rightarrow> ret d
          | (None, None) \<Rightarrow> raise KeyMissing)"

end
