(* ===== verification/Root_Allocator.thy ===== *)
theory Root_Allocator
  imports Root_Tables
begin

section \<open>Reserving and installing the three roots\<close>

text \<open>
  Model of \<open>QwenSchedulerRootAllocator\<close> of
  \<open>src/qwen_r9700_lab/live_commit_vllm_root_tables.py\<close>.  vLLM's block pool is code outside the
  repository: its operations over a state \<open>'w\<close> are the fields of \<open>block_pool\<close>, where
  \<open>ref_cnt\<close> is the attribute of a block object.  A manager is what the allocator reads of
  it: its class name, group ID, block size, cache mode, the identity of its pool and its
  request table (an association list, the dictionary \<open>req_to_blocks\<close>).  An allocator does
  not change the managers themselves but which map they use: \<open>allocator_maps\<close> holds the
  delegates, and while \<open>installed\<close> is true every lookup goes through \<open>Root_Tables\<close>.
\<close>

record 'w block_pool =
  ref_cnt :: "int \<Rightarrow> 'w \<Rightarrow> int"
  get_new_blocks :: "nat \<Rightarrow> 'w \<Rightarrow> (pool_exception + int list) \<times> 'w"
  touch_block :: "int \<Rightarrow> 'w \<Rightarrow> (pool_exception + unit) \<times> 'w"
  free_blocks :: "int list \<Rightarrow> 'w \<Rightarrow> 'w"

type_synonym request_table = "(string \<times> int list) list"

record kv_manager =
  manager_class :: string
  kv_cache_group_id :: int
  manager_block_size :: int
  mamba_cache_mode :: string
  manager_pool :: nat
  req_to_blocks :: request_table

datatype kv_kind = Mamba | Target | Draft

record group_topology =
  topology_index :: nat
  topology_kind :: kv_kind
  topology_block_size :: nat

record 'w allocator_setup =
  pool :: "'w block_pool"
  null_block :: int
  alloc_request :: string
  alloc_length :: nat
  alloc_generation :: int
  alloc_root_ids :: "string \<times> string \<times> string"
  alloc_width :: nat
  alloc_topology :: "group_topology list"

record ('x) private_root_allocation =
  canonical_allocated :: physical_root
  candidate_allocated :: physical_root
  serial_allocated :: physical_root
  allocated_bank :: "'x table_bank"
  blocks_to_zero :: "int list"

record ('w, 'x) allocator =
  pool_state :: 'w
  allocator_maps :: "request_table list"
  installed :: bool
  allocation :: "'x private_root_allocation option"
  private_ownership :: "int list"

type_synonym ('w, 'x, 'a) alloc_op = "(('w, 'x) allocator, table_error, 'a) action"

subsection \<open>The topology\<close>

definition manager_kind :: "string \<Rightarrow> table_error + kv_kind" where
  "manager_kind name =
     (if name = ''MambaManager'' then Inr Mamba
      else if name = ''FullAttentionManager'' then Inr Target
      else if name = ''SlidingWindowManager'' then Inr Draft
      else Inl UnsupportedManager)"

definition expected_kinds :: "kv_kind list" where
  "expected_kinds = replicate MAMBA_GROUPS Mamba @ replicate TARGET_ATTENTION_GROUPS Target
                    @ replicate DRAFT_ATTENTION_GROUPS Draft"

definition block_id :: "int \<Rightarrow> table_error + int" where
  "block_id b = (if b < 0 then Inl InvalidBlockId else Inr b)"

text \<open>The inner loop: every real block is claimed once, over all groups.\<close>

fun claim_blocks :: "int \<Rightarrow> int list \<Rightarrow> int set \<Rightarrow> table_error + int set" where
  "claim_blocks null [] seen = Inr seen"
| "claim_blocks null (b # bs) seen =
     (if b = null then claim_blocks null bs seen
      else rbind (block_id b) (\<lambda>identifier.
           if identifier \<in> seen then Inl BlockOwnedTwice
           else claim_blocks null bs (insert identifier seen)))"

fun scan_managers ::
  "string \<Rightarrow> int \<Rightarrow> nat \<Rightarrow> (kv_manager \<times> kv_kind) list \<Rightarrow> int set
   \<Rightarrow> table_error + group_topology list" where
  "scan_managers request null index [] seen = Inr []"
| "scan_managers request null index ((m, expected) # rest) seen =
     (if kv_cache_group_id m \<noteq> int index then Inl GroupIdsNotCanonical else
      rbind (manager_kind (manager_class m)) (\<lambda>kind.
      if kind \<noteq> expected then Inl GroupOrderDiffers
      else if manager_block_size m \<le> 0 then Inl BlockSizeInvalid
      else if kind = Mamba \<and> mamba_cache_mode m \<noteq> ''none'' then Inl MambaModeInvalid
      else case map_of (req_to_blocks m) request of
             None \<Rightarrow> Inl NoAllocatedBlocks
           | Some blocks \<Rightarrow>
               if blocks = [] then Inl NoAllocatedBlocks
               else if kind = Mamba \<and> length (filter (\<lambda>b. b \<noteq> null) blocks) \<noteq> 1
               then Inl MambaBlockCount
               else rbind (claim_blocks null blocks seen) (\<lambda>seen'.
                    rbind (scan_managers request null (index + 1) rest seen') (\<lambda>ts.
                    Inr (\<lparr>topology_index = index, topology_kind = kind,
                          topology_block_size = nat (manager_block_size m)\<rparr> # ts)))))"

definition validate_topology ::
  "string \<Rightarrow> int \<Rightarrow> kv_manager list \<Rightarrow> table_error + group_topology list" where
  "validate_topology request null managers =
     (if length managers \<noteq> TOTAL_GROUPS then Inl GroupsNotSixtyNine
      else if card (set (map manager_pool managers)) \<noteq> 1 then Inl PoolsDiffer
      else scan_managers request null 0 (zip managers expected_kinds) {})"

definition new_allocator ::
  "'w block_pool \<Rightarrow> int \<Rightarrow> kv_manager list \<Rightarrow> string \<Rightarrow> int \<Rightarrow> int \<Rightarrow> string \<Rightarrow> string \<Rightarrow> string \<Rightarrow> int
   \<Rightarrow> 'w \<Rightarrow> table_error + 'w allocator_setup \<times> ('w, 'x) allocator" where
  "new_allocator p null managers request len generation canonical_id candidate_id serial_id width w =
     (if request = [] then Inl InvalidRequestId
      else if len < 0 \<or> generation < 0 \<or> width < 0 then Inl NumberInvalid
      else if \<not> (1 \<le> width \<and> width \<le> int MAX_COMMIT_WIDTH) then Inl CommitWidthInvalid else
      rbind (table_root_id canonical_id) (\<lambda>_.
      rbind (table_root_id candidate_id) (\<lambda>_.
      rbind (table_root_id serial_id) (\<lambda>_.
      if \<not> distinct [canonical_id, candidate_id, serial_id] then Inl AllocatorRootIdsNotUnique else
      rbind (validate_topology request null managers) (\<lambda>topology.
      Inr (\<lparr>pool = p, null_block = null, alloc_request = request, alloc_length = nat len,
            alloc_generation = generation,
            alloc_root_ids = (canonical_id, candidate_id, serial_id),
            alloc_width = nat width, alloc_topology = topology\<rparr>,
           \<lparr>pool_state = w, allocator_maps = map req_to_blocks managers, installed = False,
            allocation = None, private_ownership = []\<rparr>))))))"

subsection \<open>Counting what a round can write\<close>

definition write_indices :: "'w allocator_setup \<Rightarrow> nat \<Rightarrow> nat list" where
  "write_indices su sz =
     sorted_list_of_set ((\<lambda>position. position div sz)
                         ` set [alloc_length su..<alloc_length su + alloc_width su])"

definition private_block_count :: "'w allocator_setup \<Rightarrow> nat" where
  "private_block_count su =
     MAMBA_GROUPS + sum_list (map (\<lambda>g. length (write_indices su (topology_block_size g)))
                                  (drop MAMBA_GROUPS (alloc_topology su)))"

definition history_pages :: "'w allocator_setup \<Rightarrow> nat \<Rightarrow> nat" where
  "history_pages su sz = (alloc_length su + sz - 1) div sz"

definition required_pages :: "'w allocator_setup \<Rightarrow> nat \<Rightarrow> nat" where
  "required_pages su sz = last (write_indices su sz) + 1"

fun canonical_capacity_count ::
  "'w allocator_setup \<Rightarrow> (group_topology \<times> int list) list \<Rightarrow> table_error + nat" where
  "canonical_capacity_count su [] = Inr 0"
| "canonical_capacity_count su ((g, blocks) # rest) =
     (if topology_kind g = Mamba then canonical_capacity_count su rest
      else if length blocks < history_pages su (topology_block_size g) then Inl MissingHistory
      else rbind (canonical_capacity_count su rest) (\<lambda>n.
           Inr (n + (required_pages su (topology_block_size g) - length blocks))))"

subsection \<open>Building the tables from the reservation\<close>

text \<open>
  \<open>reserved\<close> is the iterator over the new blocks; \<open>next\<close> on an exhausted iterator raises.
  The first function is the loop \<open>while len(group) < required_pages\<close>, its argument the
  number of pages still missing.
\<close>

fun append_reserved :: "nat \<Rightarrow> int list \<Rightarrow> int list \<Rightarrow> table_error + int list \<times> int list" where
  "append_reserved 0 table reserved = Inr (table, reserved)"
| "append_reserved (Suc n) table [] = Inl ReservationExhausted"
| "append_reserved (Suc n) table (b # reserved) = append_reserved n (table @ [b]) reserved"

fun extend_canonical_capacity ::
  "'w allocator_setup \<Rightarrow> (group_topology \<times> int list) list \<Rightarrow> int list
   \<Rightarrow> table_error + block_tables \<times> int list" where
  "extend_canonical_capacity su [] reserved = Inr ([], reserved)"
| "extend_canonical_capacity su ((g, table) # rest) reserved =
     (if topology_kind g = Mamba
      then rbind (extend_canonical_capacity su rest reserved) (\<lambda>(ts, left). Inr (table # ts, left))
      else if length table < history_pages su (topology_block_size g) then Inl MissingHistory
      else rbind (append_reserved (required_pages su (topology_block_size g) - length table)
                    table reserved) (\<lambda>(table', reserved').
           rbind (extend_canonical_capacity su rest reserved') (\<lambda>(ts, left).
           Inr (table' # ts, left))))"

fun replace_written ::
  "nat list \<Rightarrow> int list \<Rightarrow> int list \<Rightarrow> table_error + int list \<times> int list \<times> int list" where
  "replace_written [] table reserved = Inr (table, [], reserved)"
| "replace_written (i # is) table reserved =
     (if length table \<le> i then Inl CapacityPreparationFailed
      else case reserved of
             [] \<Rightarrow> Inl ReservationExhausted
           | b # left \<Rightarrow>
               rbind (block_id b) (\<lambda>identifier.
               rbind (replace_written is (table[i := b]) left) (\<lambda>(table', written, left').
               Inr (table', identifier # written, left'))))"

fun real_indexes :: "int \<Rightarrow> nat \<Rightarrow> int list \<Rightarrow> nat list" where
  "real_indexes null i [] = []"
| "real_indexes null i (b # bs) =
     (if b \<noteq> null then [i] else []) @ real_indexes null (i + 1) bs"

definition private_group ::
  "'w allocator_setup \<Rightarrow> group_topology \<Rightarrow> int list \<Rightarrow> int list
   \<Rightarrow> table_error + int list \<times> int list \<times> int list" where
  "private_group su g table reserved =
     (if topology_kind g = Mamba
      then (case real_indexes (null_block su) 0 table of
              [i] \<Rightarrow> replace_written [i] table reserved
            | _ \<Rightarrow> Inl MambaBlockCount)
      else replace_written (write_indices su (topology_block_size g)) table reserved)"

fun build_private_tables ::
  "'w allocator_setup \<Rightarrow> (group_topology \<times> int list) list \<Rightarrow> int list
   \<Rightarrow> table_error + block_tables \<times> block_tables \<times> int list" where
  "build_private_tables su [] reserved = Inr ([], [], reserved)"
| "build_private_tables su ((g, table) # rest) reserved =
     rbind (private_group su g table reserved) (\<lambda>(table', written, reserved').
     rbind (build_private_tables su rest reserved') (\<lambda>(ts, writes, left).
     Inr (table' # ts, written # writes, left)))"

text \<open>The writable blocks of the canonical root itself.\<close>

definition canonical_writable ::
  "'w allocator_setup \<Rightarrow> group_topology \<Rightarrow> int list \<Rightarrow> table_error + int list" where
  "canonical_writable su g table =
     (if topology_kind g = Mamba
      then map_result block_id (filter (\<lambda>b. b \<noteq> null_block su) table)
      else map_result block_id
             (filter (\<lambda>b. b \<noteq> null_block su)
               (map ((!) table) (filter (\<lambda>i. i < length table)
                                   (write_indices su (topology_block_size g))))))"

definition mamba_block :: "'w allocator_setup \<Rightarrow> int list \<Rightarrow> table_error + int" where
  "mamba_block su table =
     (case filter (\<lambda>b. b \<noteq> null_block su) table of [b] \<Rightarrow> block_id b | _ \<Rightarrow> Inl MambaBlockCount)"

fun root_in_table :: "root_error + 'a \<Rightarrow> table_error + 'a" where
  "root_in_table (Inl e) = Inl (PhysicalRootInvalid e)"
| "root_in_table (Inr x) = Inr x"

lemma root_in_table_Inr [result_simps]: "root_in_table r = Inr x \<longleftrightarrow> r = Inr x"
  by (cases r) auto

definition physical_root_of ::
  "'w allocator_setup \<Rightarrow> string \<Rightarrow> block_tables \<Rightarrow> block_tables \<Rightarrow> table_error + physical_root" where
  "physical_root_of su root tables writable =
     rbind (map_result (mamba_block su) (take MAMBA_GROUPS tables)) (\<lambda>slots.
     rbind (map_result (map_result block_id)
              (take TARGET_ATTENTION_GROUPS (drop MAMBA_GROUPS tables))) (\<lambda>target.
     rbind (map_result (map_result block_id)
              (drop (MAMBA_GROUPS + TARGET_ATTENTION_GROUPS) tables)) (\<lambda>draft.
     let r = \<lparr>root_id = root, root_request_id = alloc_request su,
              root_allocator_generation = alloc_generation su,
              target_blocks = target, draft_blocks = draft,
              writable_target_blocks = take TARGET_ATTENTION_GROUPS (drop MAMBA_GROUPS writable),
              writable_draft_blocks = drop (MAMBA_GROUPS + TARGET_ATTENTION_GROUPS) writable,
              gdn_slots = slots, convolution_slots = slots,
              position_state_id = root @ '':position'',
              decoding_state_id = root @ '':decoding''\<rparr>
     in rbind (root_in_table (physical_root_check r)) (\<lambda>_. Inr r))))"

subsection \<open>The reservation\<close>

text \<open>
  Inside \<open>reserve\<close> the state is the pool together with \<open>acquired\<close>, the references taken so
  far; they are what the \<open>except\<close> clause gives back.
\<close>

type_synonym ('w, 'a) reserving = "('w \<times> int list, table_error, 'a) action"

definition allocate_blocks :: "'w allocator_setup \<Rightarrow> nat \<Rightarrow> ('w, int list) reserving" where
  "allocate_blocks su n = (\<lambda>(w, acquired).
     case get_new_blocks (pool su) n w of
       (Inl e, w') \<Rightarrow> (Inl (PoolRaised e), (w', acquired))
     | (Inr blocks, w') \<Rightarrow>
         (if length blocks \<noteq> n then Inl ReservationIncomplete
          else rbind (map_result block_id blocks) (\<lambda>ids.
               if \<not> distinct ids then Inl ReservationDuplicates else Inr blocks), (w', acquired)))"

definition acquire_block :: "'w allocator_setup \<Rightarrow> int \<Rightarrow> ('w, unit) reserving" where
  "acquire_block su b = (\<lambda>(w, acquired).
     let before = ref_cnt (pool su) b w
     in if before \<le> 0 then (Inl SharedReferenceInvalid, (w, acquired))
        else case touch_block (pool su) b w of
               (Inl e, w') \<Rightarrow>
                 let after = ref_cnt (pool su) b w'
                 in if after = before + 1 then (Inl (PoolRaised e), (w', acquired @ [b]))
                    else if after \<noteq> before then (Inl UnknownOwnership, (w', acquired))
                    else (Inl (PoolRaised e), (w', acquired))
             | (Inr _, w') \<Rightarrow>
                 if ref_cnt (pool su) b w' \<noteq> before + 1 then (Inl TouchedWrongly, (w', acquired))
                 else (Inr (), (w', acquired @ [b])))"

fun acquire_each :: "'w allocator_setup \<Rightarrow> int list \<Rightarrow> ('w, unit) reserving" where
  "acquire_each su [] = ret ()"
| "acquire_each su (b # bs) = sbind (acquire_block su b) (\<lambda>_. acquire_each su bs)"

definition shared_blocks :: "'w allocator_setup \<Rightarrow> block_tables \<Rightarrow> block_tables \<Rightarrow> int list" where
  "shared_blocks su canonical_tables private_tables =
     filter (\<lambda>b. b \<noteq> null_block su \<and> b \<in> set (concat canonical_tables)) (concat private_tables)"

definition acquire_shared_blocks ::
  "'w allocator_setup \<Rightarrow> block_tables \<Rightarrow> block_tables \<Rightarrow> ('w, unit) reserving" where
  "acquire_shared_blocks su canonical_tables private_tables =
     (let shared = shared_blocks su canonical_tables private_tables
      in sbind (assert_that (distinct shared) SharedReferencedTwice) (\<lambda>_. acquire_each su shared))"

text \<open>The three roots over the tables that have been built, and their bank.\<close>

definition make_allocation ::
  "'w allocator_setup \<Rightarrow> block_tables \<Rightarrow> block_tables \<times> block_tables \<Rightarrow> block_tables \<times> block_tables
   \<Rightarrow> int list \<Rightarrow> table_error + 'x private_root_allocation" where
  "make_allocation su tables cand ser allocated =
     (case alloc_root_ids su of (canonical_id, candidate_id, serial_id) \<Rightarrow>
      rbind (map_result (\<lambda>(g, t). canonical_writable su g t) (zip (alloc_topology su) tables)) (\<lambda>writable.
      rbind (new_bank (alloc_request su) canonical_id tables) (\<lambda>b0.
      rbind (fst (register_root candidate_id (fst cand) b0)) (\<lambda>_.
      let b1 = snd (register_root candidate_id (fst cand) b0)
      in rbind (fst (register_root serial_id (fst ser) b1)) (\<lambda>_.
      let b2 = snd (register_root serial_id (fst ser) b1)
      in rbind (physical_root_of su canonical_id tables writable) (\<lambda>r0.
      rbind (physical_root_of su candidate_id (fst cand) (snd cand)) (\<lambda>r1.
      rbind (physical_root_of su serial_id (fst ser) (snd ser)) (\<lambda>r2.
      rbind (map_result block_id allocated) (\<lambda>zeroed.
      Inr \<lparr>canonical_allocated = r0, candidate_allocated = r1, serial_allocated = r2,
           allocated_bank = b2, blocks_to_zero = zeroed\<rparr>)))))))))"

definition reserve_body ::
  "'w allocator_setup \<Rightarrow> block_tables \<Rightarrow> nat \<Rightarrow> ('w, 'x private_root_allocation) reserving" where
  "reserve_body su tables0 capacity =
     sbind (allocate_blocks su (capacity + private_block_count su * 2)) (\<lambda>allocated.
     sbind (modify (\<lambda>(w, acquired). (w, acquired @ allocated))) (\<lambda>_.
     sbind (lift_result (extend_canonical_capacity su (zip (alloc_topology su) tables0) allocated))
       (\<lambda>(tables, left0).
     sbind (lift_result (build_private_tables su (zip (alloc_topology su) tables) left0))
       (\<lambda>(cand_tables, cand_writes, left1).
     sbind (lift_result (build_private_tables su (zip (alloc_topology su) tables) left1))
       (\<lambda>(ser_tables, ser_writes, left2).
     sbind (assert_that (left2 = []) ReservationUnused) (\<lambda>_.
     sbind (acquire_shared_blocks su tables cand_tables) (\<lambda>_.
     sbind (acquire_shared_blocks su tables ser_tables) (\<lambda>_.
     lift_result (make_allocation su tables (cand_tables, cand_writes) (ser_tables, ser_writes)
                    allocated)))))))))"

definition request_blocks :: "string \<Rightarrow> request_table list \<Rightarrow> table_error + block_tables" where
  "request_blocks request =
     map_result (\<lambda>m. case map_of m request of None \<Rightarrow> Inl KeyMissing | Some bs \<Rightarrow> Inr bs)"

definition reserve_roots :: "'w allocator_setup \<Rightarrow> ('w, 'x, 'x private_root_allocation) alloc_op" where
  "reserve_roots su =
     sbind (gets id) (\<lambda>s.
     sbind (assert_that (allocation s = None) AlreadyReserved) (\<lambda>_.
     sbind (lift_result (request_blocks (alloc_request su) (allocator_maps s))) (\<lambda>tables.
     sbind (lift_result (canonical_capacity_count su (zip (alloc_topology su) tables))) (\<lambda>capacity.
     case reserve_body su tables capacity (pool_state s, []) of
       (Inl e, (w, acquired)) \<Rightarrow>
         sbind (modify (\<lambda>s. s\<lparr>pool_state :=
           (if acquired = [] then w else free_blocks (pool su) (rev acquired) w)\<rparr>)) (\<lambda>_. raise e)
     | (Inr a, (w, acquired)) \<Rightarrow>
         sbind (modify (\<lambda>s. s\<lparr>pool_state := w, allocation := Some a,
                               private_ownership := acquired\<rparr>)) (\<lambda>_. ret a)))))"

subsection \<open>Installing and closing\<close>

text \<open>
  The installation loop reads the canonical tables through the bank that nothing has
  bound or selected yet; an observed table must be a prefix of the prepared one.
\<close>

definition prefix_of_prepared :: "int list \<Rightarrow> int list \<Rightarrow> table_error + unit" where
  "prefix_of_prepared observed prepared =
     (if length prepared < length observed \<or> observed \<noteq> take (length observed) prepared
      then Inl TableChangedBeforeInstallation else Inr ())"

definition check_installation ::
  "'w allocator_setup \<Rightarrow> 'x \<Rightarrow> 'x private_root_allocation \<Rightarrow> request_table list
   \<Rightarrow> table_error + unit" where
  "check_installation su x a maps =
     check_all (\<lambda>(index, m).
       case map_of m (alloc_request su) of
         None \<Rightarrow> Inl KeyMissing
       | Some observed \<Rightarrow>
           rbind (bank_table x (int index) None (allocated_bank a)) (\<lambda>prepared.
           prefix_of_prepared observed prepared)) (enumerate 0 maps)"

definition install_roots :: "'w allocator_setup \<Rightarrow> 'x \<Rightarrow> ('w, 'x, 'x private_root_allocation) alloc_op" where
  "install_roots su x =
     sbind (gets allocation) (\<lambda>known.
     sbind (case known of None \<Rightarrow> reserve_roots su | Some a \<Rightarrow> ret a) (\<lambda>a.
     sbind (gets id) (\<lambda>s.
     sbind (assert_that (\<not> installed s) AlreadyInstalled) (\<lambda>_.
     case check_installation su x a (allocator_maps s) of
       Inl e \<Rightarrow>
         sbind (modify (\<lambda>s. s\<lparr>pool_state :=
             (if private_ownership s = [] then pool_state s
              else free_blocks (pool su) (rev (private_ownership s)) (pool_state s)),
             private_ownership := [], allocation := None\<rparr>)) (\<lambda>_. raise e)
     | Inr _ \<Rightarrow> sbind (modify (\<lambda>s. s\<lparr>installed := True\<rparr>)) (\<lambda>_. ret a)))))"

text \<open>One occurrence of every block of the canonical root is kept, all others are freed.\<close>

fun surplus_occurrences :: "int set \<Rightarrow> int set \<Rightarrow> int list \<Rightarrow> int list" where
  "surplus_occurrences canonical_blocks kept [] = []"
| "surplus_occurrences canonical_blocks kept (b # bs) =
     (if b \<in> canonical_blocks \<and> b \<notin> kept
      then surplus_occurrences canonical_blocks (insert b kept) bs
      else b # surplus_occurrences canonical_blocks kept bs)"

definition real_occurrences :: "'w allocator_setup \<Rightarrow> block_tables \<Rightarrow> int list" where
  "real_occurrences su tables = filter (\<lambda>b. b \<noteq> null_block su) (concat tables)"

definition close_roots :: "'w allocator_setup \<Rightarrow> 'x \<Rightarrow> ('w, 'x, unit) alloc_op" where
  "close_roots su x =
     sbind (gets id) (\<lambda>s.
     case (installed s, allocation s) of
       (True, Some a) \<Rightarrow>
         let bank = allocated_bank a
         in sbind (assert_that (root_selection bank = None) CloseInsideSelection) (\<lambda>_.
            sbind (lift_result (rbind (canonical_root x bank) (\<lambda>r. bank_tables x (Some r) bank)))
              (\<lambda>canonical_tables.
            sbind (lift_result (map_result (\<lambda>r. bank_tables x (Some r) bank)
                     (sort (map fst (root_tables bank))))) (\<lambda>all_tables.
            let surplus = surplus_occurrences (set (real_occurrences su canonical_tables)) {}
                            (concat (map (real_occurrences su) all_tables))
            in modify (\<lambda>s. s\<lparr>allocator_maps :=
                     map2 (\<lambda>m t. AList.update (alloc_request su) t m) (allocator_maps s) canonical_tables,
                   pool_state := free_blocks (pool su) (rev surplus) (pool_state s),
                   installed := False, private_ownership := [], allocation := None\<rparr>))))
     | _ \<Rightarrow> raise NotInstalled)"

end
