(* ===== verification/Allocator_Safety.thy ===== *)
theory Allocator_Safety
  imports Root_Allocator Authority_Safety "HOL-Library.Multiset"
begin

section \<open>Isolation and ownership of the reserved roots\<close>

text \<open>
  The tables the allocator builds, group by group: which positions of a table a round can
  write, that exactly these positions are replaced by fresh blocks in a private root, and
  how many references to a block the allocator holds.
\<close>

subsection \<open>Write indices\<close>

lemma write_indices_set:
  "set (write_indices su sz)
     = (\<lambda>p. p div sz) ` {alloc_length su..<alloc_length su + alloc_width su}"
  by (simp add: write_indices_def)

lemma write_indices_distinct: "distinct (write_indices su sz)"
  by (simp add: write_indices_def)

lemma write_indices_upt:
  assumes "0 < sz" and "0 < alloc_width su"
  shows "write_indices su sz =
    [alloc_length su div sz..<(alloc_length su + alloc_width su - 1) div sz + 1]"
proof -
  let ?L = "alloc_length su" and ?W = "alloc_width su"
  have "(\<lambda>p. p div sz) ` {?L..<?L + ?W} = {?L div sz..<(?L + ?W - 1) div sz + 1}"
  proof (intro set_eqI iffI)
    fix i assume "i \<in> (\<lambda>p. p div sz) ` {?L..<?L + ?W}"
    then obtain p where "i = p div sz" "?L \<le> p" "p \<le> ?L + ?W - 1" using assms by auto
    then show "i \<in> {?L div sz..<(?L + ?W - 1) div sz + 1}"
      using div_le_mono [of ?L p sz] div_le_mono [of p "?L + ?W - 1" sz] by simp
  next
    fix i assume i: "i \<in> {?L div sz..<(?L + ?W - 1) div sz + 1}"
    show "i \<in> (\<lambda>p. p div sz) ` {?L..<?L + ?W}"
    proof (cases "i = ?L div sz")
      case True
      then show ?thesis using assms by (intro image_eqI [of _ _ ?L]) auto
    next
      case False
      then have "?L div sz < i" "i \<le> (?L + ?W - 1) div sz" using i by auto
      then have "?L \<le> i * sz" "i * sz \<le> ?L + ?W - 1"
        using assms(1) less_eq_div_iff_mult_less_eq [of sz i "?L + ?W - 1"]
        by (auto simp: div_less_iff_less_mult less_imp_le)
      then show ?thesis using assms by (intro image_eqI [of _ _ "i * sz"]) auto
    qed
  qed
  then show ?thesis by (simp add: write_indices_def)
qed

lemma write_indices_facts:
  assumes "0 < sz" and "0 < alloc_width su"
  shows "write_indices su sz \<noteq> []"
    and "i \<in> set (write_indices su sz) \<Longrightarrow> i < required_pages su sz"
  using assms div_le_mono [of "alloc_length su" "alloc_length su + alloc_width su - 1" sz]
  by (auto simp: required_pages_def write_indices_upt)

subsection \<open>Building one table\<close>

lemma append_reserved_iff:
  "append_reserved n table reserved = Inr r \<longleftrightarrow>
     n \<le> length reserved \<and> r = (table @ take n reserved, drop n reserved)"
  by (induction n table reserved rule: append_reserved.induct) auto

text \<open>What replacing the blocks at some positions by the first blocks of a reservation means.\<close>

definition overwrites :: "nat set \<Rightarrow> int list \<Rightarrow> int list \<Rightarrow> int list \<Rightarrow> bool" where
  "overwrites I table new table' \<longleftrightarrow>
     length table' = length table
     \<and> (\<forall>j \<in> I. j < length table \<and> table' ! j \<in> set new)
     \<and> (\<forall>j < length table. j \<notin> I \<longrightarrow> table' ! j = table ! j)"

lemma replace_written_Inr:
  assumes "replace_written is table reserved = Inr (table', written, left)"
  shows "reserved = written @ left" "length written = length is"
    and "overwrites (set is) table written table'"
    and "\<forall>b \<in> set written. 0 \<le> b"
proof -
  have "reserved = written @ left \<and> length written = length is
    \<and> overwrites (set is) table written table' \<and> (\<forall>b \<in> set written. 0 \<le> b)"
    using assms
  proof (induction "is" arbitrary: table reserved table' written left)
    case Nil
    then show ?case by (simp add: overwrites_def)
  next
    case (Cons i "is")
    from Cons.prems obtain b rest written' where r: "reserved = b # rest" "i < length table"
      "replace_written is (table[i := b]) rest = Inr (table', written', left)"
      "written = b # written'" "0 \<le> b"
      by (auto simp: result_simps block_id_def split: list.splits if_splits)
    from Cons.IH [OF r(3)] have ih: "rest = written' @ left" "length written' = length is"
      "overwrites (set is) (table[i := b]) written' table'" "\<forall>b \<in> set written'. 0 \<le> b"
      by auto
    have "overwrites (set (i # is)) table written table'"
      using ih(3) r(2,4) by (auto simp: overwrites_def nth_list_update split: if_splits)
    then show ?case using r ih by auto
  qed
  then show "reserved = written @ left" "length written = length is"
    and "overwrites (set is) table written table'"
    and "\<forall>b \<in> set written. 0 \<le> b" by auto
qed

lemma replace_written_total:
  assumes "\<forall>i \<in> set is. i < length table" and "length is \<le> length reserved"
    and "\<forall>b \<in> set reserved. 0 \<le> b"
  shows "\<exists>table'. replace_written is table reserved
      = Inr (table', take (length is) reserved, drop (length is) reserved)"
  using assms
proof (induction "is" arbitrary: table reserved)
  case (Cons i "is")
  then obtain b rest where r: "reserved = b # rest" by (cases reserved) auto
  then have "\<exists>table'. replace_written is (table[i := b]) rest
      = Inr (table', take (length is) rest, drop (length is) rest)"
    using Cons.prems by (intro Cons.IH) auto
  then show ?case using Cons.prems r by (auto simp: block_id_def)
qed simp

lemma real_indexes_set: "set (real_indexes null k xs) = {k + j | j. j < length xs \<and> xs ! j \<noteq> null}"
proof (induction xs arbitrary: k)
  case (Cons x xs)
  have "{k + j |j. j < length (x # xs) \<and> (x # xs) ! j \<noteq> null}
      = (if x \<noteq> null then {k} else {}) \<union> {Suc k + j |j. j < length xs \<and> xs ! j \<noteq> null}"
    by (auto simp: less_Suc_eq_0_disj)
  then show ?case using Cons.IH [of "k + 1"] by auto
qed simp

lemma real_indexes_length: "length (real_indexes null k xs) = length (filter (\<lambda>b. b \<noteq> null) xs)"
  by (induction xs arbitrary: k) auto

definition written_indexes :: "'w allocator_setup \<Rightarrow> group_topology \<Rightarrow> int list \<Rightarrow> nat list" where
  "written_indexes su g table =
     (if topology_kind g = Mamba then real_indexes (null_block su) 0 table
      else write_indices su (topology_block_size g))"

lemma private_group_eq:
  "topology_kind g = Mamba \<longrightarrow> length (filter (\<lambda>b. b \<noteq> null_block su) table) = 1 \<Longrightarrow>
     private_group su g table reserved = replace_written (written_indexes su g table) table reserved"
  using real_indexes_length [of "null_block su" 0 table]
  by (auto simp: private_group_def written_indexes_def split: list.splits)

lemma private_group_Inr:
  assumes "private_group su g table reserved = Inr (table', written, left)"
  shows "reserved = written @ left"
    and "overwrites (set (written_indexes su g table)) table written table'"
    and "\<forall>b \<in> set written. 0 \<le> b"
proof -
  from assms have "replace_written (written_indexes su g table) table reserved
      = Inr (table', written, left)"
    by (auto simp: private_group_def written_indexes_def split: if_splits list.splits)
  from replace_written_Inr [OF this]
  show "reserved = written @ left"
    and "overwrites (set (written_indexes su g table)) table written table'"
    and "\<forall>b \<in> set written. 0 \<le> b" by auto
qed


subsection \<open>Building all tables\<close>

definition extends :: "'w allocator_setup \<Rightarrow> group_topology \<times> int list \<Rightarrow> int list \<Rightarrow> int list \<Rightarrow> bool" where
  "extends su g table' new \<longleftrightarrow>
     table' = snd g @ new \<and> (topology_kind (fst g) = Mamba \<longrightarrow> new = [])
     \<and> (topology_kind (fst g) \<noteq> Mamba \<longrightarrow>
          required_pages su (topology_block_size (fst g)) \<le> length table')"

lemma extend_Inr:
  assumes "extend_canonical_capacity su gs reserved = Inr (ts, left)"
  obtains news where "reserved = concat news @ left" "length ts = length gs" "length news = length gs"
    "\<forall>i < length gs. extends su (gs ! i) (ts ! i) (news ! i)"
proof -
  have "\<exists>news. reserved = concat news @ left \<and> length ts = length gs \<and> length news = length gs
      \<and> (\<forall>i < length gs. extends su (gs ! i) (ts ! i) (news ! i))"
    using assms
  proof (induction gs arbitrary: reserved ts left)
    case (Cons gt gs)
    obtain g table where gt: "gt = (g, table)" by fastforce
    show ?case
    proof (cases "topology_kind g = Mamba")
      case True
      with Cons.prems gt obtain ts' where t: "ts = table # ts'"
        "extend_canonical_capacity su gs reserved = Inr (ts', left)"
        by (auto simp: result_simps)
      from Cons.IH [OF t(2)] obtain news where "reserved = concat news @ left"
        "length ts' = length gs" "length news = length gs"
        "\<forall>i < length gs. extends su (gs ! i) (ts' ! i) (news ! i)" by blast
      then show ?thesis
        using t(1) gt True
        by (intro exI [of _ "[] # news"]) (auto simp: extends_def nth_Cons split: nat.splits)
    next
      case False
      let ?n = "required_pages su (topology_block_size g) - length table"
      from Cons.prems gt False obtain ts' where t: "ts = (table @ take ?n reserved) # ts'"
        "?n \<le> length reserved"
        "extend_canonical_capacity su gs (drop ?n reserved) = Inr (ts', left)"
        by (auto simp: result_simps append_reserved_iff split: if_splits)
      from Cons.IH [OF t(3)] obtain news where "drop ?n reserved = concat news @ left"
        "length ts' = length gs" "length news = length gs"
        "\<forall>i < length gs. extends su (gs ! i) (ts' ! i) (news ! i)" by blast
      then show ?thesis
        using t(1,2) gt False append_take_drop_id [of ?n reserved]
        by (intro exI [of _ "take ?n reserved # news"])
           (auto simp: extends_def nth_Cons split: nat.splits)
    qed
  qed simp
  then show thesis using that by blast
qed

definition built ::
  "'w allocator_setup \<Rightarrow> (group_topology \<times> int list) list \<Rightarrow> block_tables \<Rightarrow> block_tables \<Rightarrow> bool" where
  "built su gs ts ws \<longleftrightarrow>
     length ts = length gs \<and> length ws = length gs
     \<and> (\<forall>i < length gs. overwrites (set (written_indexes su (fst (gs ! i)) (snd (gs ! i))))
                                 (snd (gs ! i)) (ws ! i) (ts ! i))"

lemma build_Inr:
  assumes "build_private_tables su gs reserved = Inr (ts, ws, left)"
  shows "reserved = concat ws @ left" "built su gs ts ws"
proof -
  have "reserved = concat ws @ left \<and> built su gs ts ws"
    using assms
  proof (induction gs arbitrary: reserved ts ws left)
    case (Cons gt gs)
    obtain g table where gt: "gt = (g, table)" by fastforce
    with Cons.prems obtain t' w reserved' ts' ws' where
      g: "private_group su g table reserved = Inr (t', w, reserved')"
      and rest: "build_private_tables su gs reserved' = Inr (ts', ws', left)"
      and eq: "ts = t' # ts'" "ws = w # ws'"
      by (auto simp: result_simps)
    note pg = private_group_Inr [OF g]
    from Cons.IH [OF rest] pg show ?case
      by (auto simp: eq gt built_def nth_Cons split: nat.splits)
  qed (simp add: built_def)
  then show "reserved = concat ws @ left" "built su gs ts ws" by auto
qed

subsection \<open>One group: disjointness\<close>

lemma filter_distinct_nth:
  assumes "distinct (filter P xs)" "i < length xs" "j < length xs" "P (xs ! i)" "xs ! i = xs ! j"
  shows "i = j"
  using assms
proof (induction xs arbitrary: i j)
  case (Cons x xs)
  then show ?case
    by (cases i; cases j) (auto simp: nth_mem in_set_conv_nth split: if_splits)
qed simp

text \<open>A real block at a replaced position does not survive anywhere in the new table.\<close>

lemma overwrites_disjoint:
  assumes "overwrites I table new table'"
    and "distinct (filter (\<lambda>b. b \<noteq> null) table)"
    and "set new \<inter> set table = {}"
    and "j \<in> I" "j < length table" "table ! j \<noteq> null"
  shows "table ! j \<notin> set table'"
proof
  assume "table ! j \<in> set table'"
  then obtain k where k: "k < length table" "table' ! k = table ! j"
    using assms(1) by (auto simp: in_set_conv_nth overwrites_def)
  show False
  proof (cases "k \<in> I")
    case True
    then have "table ! j \<in> set new" using assms(1) k by (metis overwrites_def)
    then show False using assms(3,5) by (auto simp: disjoint_iff)
  next
    case False
    then have eq: "table ! j = table ! k" using assms(1) k by (simp add: overwrites_def)
    have "j = k"
      by (rule filter_distinct_nth [OF assms(2) assms(5) k(1) assms(6) eq])
    then show False using False assms(4) by simp
  qed
qed

lemma overwrites_subset: "overwrites I table new table' \<Longrightarrow> set table' \<subseteq> set table \<union> set new"
proof
  fix b assume o: "overwrites I table new table'" and "b \<in> set table'"
  then obtain k where "k < length table" "b = table' ! k"
    by (auto simp: in_set_conv_nth overwrites_def)
  then show "b \<in> set table \<union> set new"
    using o by (cases "k \<in> I") (auto simp: overwrites_def)
qed

lemma overwrites_mamba:
  assumes "overwrites (set (real_indexes null 0 table)) table new table'"
    and "b \<in> set table'" "b \<noteq> null"
  shows "b \<in> set new"
proof -
  from assms(1,2) obtain k where "k < length table" "b = table' ! k"
    by (auto simp: in_set_conv_nth overwrites_def)
  then show ?thesis
    using assms(1,3) by (cases "table ! k = null") (auto simp: overwrites_def real_indexes_set)
qed


subsection \<open>Tables in order, and a fresh reservation\<close>

definition tables_ok :: "'w allocator_setup \<Rightarrow> block_tables \<Rightarrow> bool" where
  "tables_ok su tables \<longleftrightarrow>
     map topology_kind (alloc_topology su) = expected_kinds
     \<and> (\<forall>g \<in> set (alloc_topology su). 0 < topology_block_size g)
     \<and> 0 < alloc_width su
     \<and> length tables = TOTAL_GROUPS
     \<and> (\<forall>i < MAMBA_GROUPS. length (filter (\<lambda>b. b \<noteq> null_block su) (tables ! i)) = 1)
     \<and> distinct (real_occurrences su tables)
     \<and> (\<forall>b \<in> set (real_occurrences su tables). 0 \<le> b)"

lemma real_occurrences_set:
  "set (real_occurrences su tables) = {b. b \<noteq> null_block su \<and> (\<exists>t \<in> set tables. b \<in> set t)}"
  by (auto simp: real_occurrences_def)

lemma real_occurrences_nth:
  "i < length tables \<Longrightarrow> b \<in> set (tables ! i) \<Longrightarrow> b \<noteq> null_block su \<Longrightarrow>
     b \<in> set (real_occurrences su tables)"
  by (auto simp: real_occurrences_set)

lemma distinct_real_nth:
  assumes "distinct (real_occurrences su tables)" "i < length tables"
  shows "distinct (filter (\<lambda>b. b \<noteq> null_block su) (tables ! i))"
  using assms
proof (induction tables arbitrary: i)
  case (Cons t ts)
  then show ?case by (cases i) (auto simp: real_occurrences_def)
qed simp

lemma real_occurrences_Cons [simp]:
  "real_occurrences su (t # ts) = filter (\<lambda>b. b \<noteq> null_block su) t @ real_occurrences su ts"
  "real_occurrences su [] = []"
  by (simp_all add: real_occurrences_def)

lemma real_occurrences_apart:
  assumes "distinct (real_occurrences su tables)" "i < length tables" "j < length tables" "i < j"
    and "b \<in> set (tables ! i)" "b \<in> set (tables ! j)"
  shows "b = null_block su"
  using assms
proof (induction tables arbitrary: i j)
  case (Cons t ts)
  from Cons.prems(4) obtain j' where j: "j = Suc j'" by (cases j) auto
  show ?case
  proof (cases i)
    case 0
    show ?thesis
    proof (rule ccontr)
      assume n: "b \<noteq> null_block su"
      then have "b \<in> set (real_occurrences su ts)"
        using Cons.prems(3,6) j by (intro real_occurrences_nth [of j']) auto
      moreover have "b \<in> set (filter (\<lambda>b. b \<noteq> null_block su) t)"
        using Cons.prems(5) 0 n by simp
      ultimately show False using Cons.prems(1) by (simp only: real_occurrences_Cons distinct_append) blast
    qed
  next
    case (Suc i')
    show ?thesis
      by (rule Cons.IH [of i' j']) (use Cons.prems j Suc in simp_all)
  qed
qed simp

definition fresh_for :: "'w allocator_setup \<Rightarrow> int list \<Rightarrow> block_tables \<Rightarrow> bool" where
  "fresh_for su blocks tables \<longleftrightarrow>
     distinct blocks \<and> (\<forall>b \<in> set blocks. 0 \<le> b \<and> b \<noteq> null_block su)
     \<and> set blocks \<inter> set (concat tables) = {}"

lemma tables_ok_kinds:
  assumes "tables_ok su tables"
  shows "length (alloc_topology su) = TOTAL_GROUPS"
    and "i < TOTAL_GROUPS \<Longrightarrow> topology_kind (alloc_topology su ! i) = Mamba \<longleftrightarrow> i < MAMBA_GROUPS"
proof -
  have "length (map topology_kind (alloc_topology su)) = TOTAL_GROUPS"
    using assms by (simp add: tables_ok_def expected_kinds_def TOTAL_GROUPS_def)
  then show l: "length (alloc_topology su) = TOTAL_GROUPS" by simp
  assume "i < TOTAL_GROUPS"
  then have "topology_kind (alloc_topology su ! i) = expected_kinds ! i"
    using assms l by (metis nth_map tables_ok_def)
  then show "topology_kind (alloc_topology su ! i) = Mamba \<longleftrightarrow> i < MAMBA_GROUPS"
    using \<open>i < TOTAL_GROUPS\<close>
    by (auto simp: expected_kinds_def nth_append TOTAL_GROUPS_def split: if_splits)
qed

text \<open>Extending the canonical tables by a part of a fresh reservation keeps them in order.\<close>

lemma mset_extended:
  assumes "length ts = length tables" "length news = length tables"
    and "\<forall>i < length tables. ts ! i = tables ! i @ news ! i"
  shows "mset (real_occurrences su ts)
    = mset (real_occurrences su tables) + mset (filter (\<lambda>b. b \<noteq> null_block su) (concat news))"
  using assms
proof (induction tables arbitrary: ts news)
  case (Cons t tables)
  then obtain t' ts' n news' where "ts = t' # ts'" "news = n # news'"
    by (cases ts; cases news) auto
  with Cons.prems have "t' = t @ n" "length ts' = length tables" "length news' = length tables"
    "\<forall>i < length tables. ts' ! i = tables ! i @ news' ! i"
    by (auto simp: less_Suc_eq_0_disj)
  with Cons.IH [of ts' news'] \<open>ts = t' # ts'\<close> \<open>news = n # news'\<close> show ?case
    by (simp add: real_occurrences_def)
qed (simp add: real_occurrences_def)


lemma extended_tables:
  assumes ok: "tables_ok su tables" and fresh: "fresh_for su reserved tables"
    and ext: "extend_canonical_capacity su (zip (alloc_topology su) tables) reserved = Inr (ts, left)"
  obtains used where "reserved = used @ left" "tables_ok su ts" "fresh_for su left ts"
    "mset (real_occurrences su ts) = mset (real_occurrences su tables) + mset used"
    "\<And>i. i < TOTAL_GROUPS \<Longrightarrow> take (length (tables ! i)) (ts ! i) = tables ! i"
    "\<And>i. MAMBA_GROUPS \<le> i \<Longrightarrow> i < TOTAL_GROUPS \<Longrightarrow>
       required_pages su (topology_block_size (alloc_topology su ! i)) \<le> length (ts ! i)"
proof -
  note kinds = tables_ok_kinds [OF ok]
  let ?gs = "zip (alloc_topology su) tables"
  have len: "length tables = TOTAL_GROUPS" "length ?gs = TOTAL_GROUPS"
    using ok kinds(1) by (simp_all add: tables_ok_def)
  obtain news where n: "reserved = concat news @ left" "length ts = length ?gs" "length news = length ?gs"
    "\<forall>i < length ?gs. extends su (?gs ! i) (ts ! i) (news ! i)"
    by (rule extend_Inr [OF ext])
  have at: "ts ! i = tables ! i @ news ! i" if "i < TOTAL_GROUPS" for i
    using n(4) that len kinds(1) by (simp add: extends_def)
  have used: "\<forall>b \<in> set (concat news). 0 \<le> b \<and> b \<noteq> null_block su" "distinct (concat news)"
    "distinct left" "set (concat news) \<inter> set left = {}"
    "set (concat news) \<inter> set (concat tables) = {}" "set left \<inter> set (concat tables) = {}"
    "\<forall>b \<in> set left. 0 \<le> b \<and> b \<noteq> null_block su"
    using fresh n(1) by (auto simp: fresh_for_def)
  have real: "filter (\<lambda>b. b \<noteq> null_block su) (concat news) = concat news"
    using used(1) by (intro filter_True) blast
  have m: "mset (real_occurrences su ts) = mset (real_occurrences su tables) + mset (concat news)"
    using mset_extended [of ts tables news su] n(2,3) len at real by simp
  have sets: "set (real_occurrences su ts) = set (real_occurrences su tables) \<union> set (concat news)"
    using arg_cong [OF m, of set_mset] by simp
  have dis: "distinct (real_occurrences su tables @ concat news)"
    using ok used(2,5) by (auto simp: tables_ok_def real_occurrences_def)
  have "distinct (real_occurrences su ts)"
    using dis m by (metis mset_append mset_eq_imp_distinct_iff)
  moreover have "length (filter (\<lambda>b. b \<noteq> null_block su) (ts ! i)) = 1" if "i < MAMBA_GROUPS" for i
  proof -
    have "i < TOTAL_GROUPS" using that by (simp add: TOTAL_GROUPS_def)
    then have "news ! i = []"
      using n(4) kinds that len by (auto simp: extends_def)
    then show ?thesis using ok that at [OF \<open>i < TOTAL_GROUPS\<close>] by (simp add: tables_ok_def)
  qed
  moreover have "\<forall>b \<in> set (real_occurrences su ts). 0 \<le> b"
    using ok used(1) sets by (auto simp: tables_ok_def)
  ultimately have tok: "tables_ok su ts"
    using ok n(2) len by (simp add: tables_ok_def)
  have "b \<notin> set (concat ts)" if "b \<in> set left" for b
  proof
    assume "b \<in> set (concat ts)"
    then have "b \<in> set (real_occurrences su ts)"
      using that used(7) by (auto simp: real_occurrences_def)
    then consider "b \<in> set (real_occurrences su tables)" | "b \<in> set (concat news)"
      unfolding sets by blast
    then show False
      by cases (use that used(4,6) in \<open>auto simp: real_occurrences_def\<close>)
  qed
  then have lf: "fresh_for su left ts" using used(3,7) by (auto simp: fresh_for_def)
  show thesis
  proof (rule that [OF n(1) tok lf m])
    fix i assume i: "i < TOTAL_GROUPS"
    then show "take (length (tables ! i)) (ts ! i) = tables ! i" using at by simp
    assume "MAMBA_GROUPS \<le> i"
    then show "required_pages su (topology_block_size (alloc_topology su ! i)) \<le> length (ts ! i)"
      using n(4) kinds i len by (auto simp: extends_def)
  qed
qed

text \<open>The blocks of a table at the positions a round writes.\<close>

definition written_blocks :: "'w allocator_setup \<Rightarrow> nat \<Rightarrow> int list \<Rightarrow> int set" where
  "written_blocks su i table =
     {table ! j | j. j \<in> set (written_indexes su (alloc_topology su ! i) table)
                     \<and> j < length table \<and> table ! j \<noteq> null_block su}"

lemma private_group_facts:
  assumes ok: "tables_ok su ts"
    and b: "built su (zip (alloc_topology su) ts) ts' ws"
    and fresh: "fresh_for su (concat ws) ts" and i: "i < TOTAL_GROUPS"
  shows "length ts' = TOTAL_GROUPS" "length ws = TOTAL_GROUPS"
    and "set (ws ! i) \<inter> set (ts ! i) = {}"
    and "set (ts' ! i) \<subseteq> set (ts ! i) \<union> set (ws ! i)"
    and "written_blocks su i (ts ! i) \<inter> set (ts' ! i) = {}"
    and "i < MAMBA_GROUPS \<Longrightarrow> {b \<in> set (ts' ! i). b \<noteq> null_block su} \<subseteq> set (ws ! i)"
proof -
  note kinds = tables_ok_kinds [OF ok]
  have len: "length ts = TOTAL_GROUPS" using ok by (simp add: tables_ok_def)
  show l: "length ts' = TOTAL_GROUPS" "length ws = TOTAL_GROUPS"
    using b len kinds(1) by (simp_all add: built_def)
  have o: "overwrites (set (written_indexes su (alloc_topology su ! i) (ts ! i))) (ts ! i) (ws ! i) (ts' ! i)"
    using b i len kinds(1) by (simp add: built_def)
  show apart: "set (ws ! i) \<inter> set (ts ! i) = {}"
    using fresh i len l by (fastforce simp: fresh_for_def disjoint_iff)
  show "set (ts' ! i) \<subseteq> set (ts ! i) \<union> set (ws ! i)" by (rule overwrites_subset [OF o])
  have d: "distinct (filter (\<lambda>b. b \<noteq> null_block su) (ts ! i))"
    using ok i len by (intro distinct_real_nth) (simp_all add: tables_ok_def)
  show "written_blocks su i (ts ! i) \<inter> set (ts' ! i) = {}"
    using overwrites_disjoint [OF o d apart] by (auto simp: written_blocks_def)
  show "{b \<in> set (ts' ! i). b \<noteq> null_block su} \<subseteq> set (ws ! i)" if "i < MAMBA_GROUPS"
    using o kinds(2) [OF i] that overwrites_mamba [of "null_block su" "ts ! i" "ws ! i" "ts' ! i"]
    by (auto simp: written_indexes_def)
qed


subsection \<open>Three roots that do not alias\<close>

lemma map_result_block_id: "map_result block_id xs = Inr ys \<Longrightarrow> ys = xs"
  by (induction xs arbitrary: ys) (auto simp: result_simps block_id_def split: if_splits)

lemma map_result_block_ids: "map_result (map_result block_id) xs = Inr ys \<Longrightarrow> ys = xs"
  by (induction xs arbitrary: ys) (auto simp: result_simps dest: map_result_block_id)

lemma block_resources_iff:
  "x \<in> block_resources mk groups \<longleftrightarrow> (\<exists>i < length groups. \<exists>b \<in> set (groups ! i). x = mk i b)"
proof -
  have "set (enumerate 0 groups) = (\<lambda>i. (i, groups ! i)) ` {..<length groups}"
    by (auto simp: in_set_enumerate_eq image_iff)
  then have "block_resources mk groups = (\<Union>i < length groups. mk i ` set (groups ! i))"
    by (simp add: block_resources_def)
  then show ?thesis by auto
qed

lemma physical_root_of_Inr:
  assumes "physical_root_of su root tables writable = Inr r" and "length tables = TOTAL_GROUPS"
  shows "root_id r = root" "root_request_id r = alloc_request su"
    "root_allocator_generation r = alloc_generation su"
    "target_blocks r = take TARGET_ATTENTION_GROUPS (drop MAMBA_GROUPS tables)"
    "draft_blocks r = drop (MAMBA_GROUPS + TARGET_ATTENTION_GROUPS) tables"
    "writable_target_blocks r = take TARGET_ATTENTION_GROUPS (drop MAMBA_GROUPS writable)"
    "writable_draft_blocks r = drop (MAMBA_GROUPS + TARGET_ATTENTION_GROUPS) writable"
    "position_state_id r = root @ '':position''" "decoding_state_id r = root @ '':decoding''"
    "convolution_slots r = gdn_slots r"
    "physical_root_check r = Inr ()"
    and "\<forall>v \<in> set (gdn_slots r). \<exists>i < MAMBA_GROUPS. v \<in> set (tables ! i) \<and> v \<noteq> null_block su"
proof -
  from assms(1) obtain slots where s: "map_result (mamba_block su) (take MAMBA_GROUPS tables) = Inr slots"
    and r: "r = \<lparr>root_id = root, root_request_id = alloc_request su,
              root_allocator_generation = alloc_generation su,
              target_blocks = take TARGET_ATTENTION_GROUPS (drop MAMBA_GROUPS tables),
              draft_blocks = drop (MAMBA_GROUPS + TARGET_ATTENTION_GROUPS) tables,
              writable_target_blocks = take TARGET_ATTENTION_GROUPS (drop MAMBA_GROUPS writable),
              writable_draft_blocks = drop (MAMBA_GROUPS + TARGET_ATTENTION_GROUPS) writable,
              gdn_slots = slots, convolution_slots = slots,
              position_state_id = root @ '':position'',
              decoding_state_id = root @ '':decoding''\<rparr>"
    and ok: "physical_root_check r = Inr ()"
    by (auto simp: physical_root_of_def result_simps Let_def dest!: map_result_block_ids)
  show "root_id r = root" "root_request_id r = alloc_request su"
    "root_allocator_generation r = alloc_generation su"
    "target_blocks r = take TARGET_ATTENTION_GROUPS (drop MAMBA_GROUPS tables)"
    "draft_blocks r = drop (MAMBA_GROUPS + TARGET_ATTENTION_GROUPS) tables"
    "writable_target_blocks r = take TARGET_ATTENTION_GROUPS (drop MAMBA_GROUPS writable)"
    "writable_draft_blocks r = drop (MAMBA_GROUPS + TARGET_ATTENTION_GROUPS) writable"
    "position_state_id r = root @ '':position''" "decoding_state_id r = root @ '':decoding''"
    "convolution_slots r = gdn_slots r" by (simp_all add: r)
  show "physical_root_check r = Inr ()" by (rule ok)
  show "\<forall>v \<in> set (gdn_slots r). \<exists>i < MAMBA_GROUPS. v \<in> set (tables ! i) \<and> v \<noteq> null_block su"
  proof
    fix v assume "v \<in> set (gdn_slots r)"
    then obtain i where i: "i < length slots" "v = slots ! i" by (auto simp: r in_set_conv_nth)
    have l: "length slots = MAMBA_GROUPS"
      using map_result_length [OF s] assms(2) by (simp add: TOTAL_GROUPS_def)
    then have "mamba_block su (tables ! i) = Inr v"
      using map_result_nth [OF s, of i] i assms(2) by (simp add: TOTAL_GROUPS_def)
    then have "filter (\<lambda>b. b \<noteq> null_block su) (tables ! i) = [v]"
      by (auto simp: mamba_block_def block_id_def split: list.splits if_splits)
    then have "v \<in> set (filter (\<lambda>b. b \<noteq> null_block su) (tables ! i))" by simp
    then show "\<exists>i < MAMBA_GROUPS. v \<in> set (tables ! i) \<and> v \<noteq> null_block su"
      using i l by auto
  qed
qed

lemma group_slices:
  assumes "length xs = TOTAL_GROUPS"
  shows "length (take TARGET_ATTENTION_GROUPS (drop MAMBA_GROUPS xs)) = TARGET_ATTENTION_GROUPS"
    and "length (drop (MAMBA_GROUPS + TARGET_ATTENTION_GROUPS) xs) = DRAFT_ATTENTION_GROUPS"
    and "i < TARGET_ATTENTION_GROUPS \<Longrightarrow>
      take TARGET_ATTENTION_GROUPS (drop MAMBA_GROUPS xs) ! i = xs ! (MAMBA_GROUPS + i)"
    and "i < DRAFT_ATTENTION_GROUPS \<Longrightarrow>
      drop (MAMBA_GROUPS + TARGET_ATTENTION_GROUPS) xs ! i
        = xs ! (MAMBA_GROUPS + TARGET_ATTENTION_GROUPS + i)"
  using assms by (simp_all add: group_counts)

text \<open>The writable resources of one root against everything another root refers to.\<close>

lemma writable_disjoint:
  assumes r: "physical_root_of su root tables writable = Inr r" "length tables = TOTAL_GROUPS"
      "length writable = TOTAL_GROUPS"
    and r': "physical_root_of su root' tables' writable' = Inr r'" "length tables' = TOTAL_GROUPS"
    and ids: "root \<noteq> root'"
    and blocks: "\<And>i. MAMBA_GROUPS \<le> i \<Longrightarrow> i < TOTAL_GROUPS \<Longrightarrow> set (writable ! i) \<inter> set (tables' ! i) = {}"
    and slots: "set (gdn_slots r) \<inter> set (gdn_slots r') = {}"
  shows "writable_resource_ids r \<inter> all_resource_ids r' = {}"
proof -
  note a = physical_root_of_Inr [OF r(1,2)] and b = physical_root_of_Inr [OF r']
  note s = group_slices [OF r(3)] and s' = group_slices [OF r'(2)]
  have t: "block_resources TargetBlock (writable_target_blocks r)
      \<inter> block_resources TargetBlock (target_blocks r') = {}"
  proof -
    have "set (writable_target_blocks r ! i) \<inter> set (target_blocks r' ! i) = {}"
      if "i < TARGET_ATTENTION_GROUPS" for i
      using blocks [of "MAMBA_GROUPS + i"] that s(3) s'(3)
      by (simp add: a(6) b(4) TOTAL_GROUPS_def)
    then show ?thesis
      using s(1) s'(1) by (auto simp: a(6) b(4) block_resources_iff disjoint_iff)
  qed
  have d: "block_resources DraftBlock (writable_draft_blocks r)
      \<inter> block_resources DraftBlock (draft_blocks r') = {}"
  proof -
    have "set (writable_draft_blocks r ! i) \<inter> set (draft_blocks r' ! i) = {}"
      if "i < DRAFT_ATTENTION_GROUPS" for i
      using blocks [of "MAMBA_GROUPS + TARGET_ATTENTION_GROUPS + i"] that s(4) s'(4)
      by (simp add: a(7) b(5) TOTAL_GROUPS_def)
    then show ?thesis
      using s(2) s'(2) by (auto simp: a(7) b(5) block_resources_iff disjoint_iff)
  qed
  have "slot_resources r \<inter> slot_resources r' = {}"
    using slots ids by (auto simp: slot_resources_def a(8-10) b(8-10))
  then show ?thesis
    using t d
    by (auto simp: writable_resource_ids_def all_resource_ids_def slot_resources_def
        block_resources_iff)
qed


subsection \<open>The contract of the block pool\<close>

text \<open>
  What vLLM's block pool documents: \<open>get_new_blocks\<close> hands out as many distinct
  unreferenced blocks as asked for, never the null block, each with one reference, or
  raises without a change; \<open>touch\<close> adds one reference, and if it raises it has added one
  reference or none; \<open>free_blocks\<close> drops one reference per occurrence.
\<close>

definition pool_ok :: "'w block_pool \<Rightarrow> int \<Rightarrow> bool" where
  "pool_ok p null \<longleftrightarrow>
     (\<forall>n w bs w'. get_new_blocks p n w = (Inr bs, w') \<longrightarrow>
        length bs = n \<and> distinct bs \<and> (\<forall>b \<in> set bs. 0 \<le> b \<and> b \<noteq> null \<and> ref_cnt p b w = 0)
        \<and> (\<forall>b. ref_cnt p b w' = ref_cnt p b w + of_bool (b \<in> set bs)))
     \<and> (\<forall>n w e w'. get_new_blocks p n w = (Inl e, w') \<longrightarrow> (\<forall>b. ref_cnt p b w' = ref_cnt p b w))
     \<and> (\<forall>b w w'. touch_block p b w = (Inr (), w') \<longrightarrow>
          (\<forall>c. ref_cnt p c w' = ref_cnt p c w + of_bool (c = b)))
     \<and> (\<forall>b w e w'. touch_block p b w = (Inl e, w') \<longrightarrow>
          (\<forall>c. ref_cnt p c w' = ref_cnt p c w) \<or> (\<forall>c. ref_cnt p c w' = ref_cnt p c w + of_bool (c = b)))
     \<and> (\<forall>bs w c. ref_cnt p c (free_blocks p bs w) = ref_cnt p c w - int (count (mset bs) c))"

lemma pool_okD:
  assumes "pool_ok p null"
  shows "get_new_blocks p n w = (Inr bs, w') \<Longrightarrow> length bs = n \<and> distinct bs
      \<and> (\<forall>b \<in> set bs. 0 \<le> b \<and> b \<noteq> null \<and> ref_cnt p b w = 0)
      \<and> (\<forall>b. ref_cnt p b w' = ref_cnt p b w + of_bool (b \<in> set bs))"
    and "get_new_blocks p n w = (Inl e, w') \<Longrightarrow> ref_cnt p b w' = ref_cnt p b w"
    and "touch_block p b w = (Inr (), w') \<Longrightarrow> ref_cnt p c w' = ref_cnt p c w + of_bool (c = b)"
    and "touch_block p b w = (Inl e, w') \<Longrightarrow>
      (\<forall>c. ref_cnt p c w' = ref_cnt p c w) \<or> (\<forall>c. ref_cnt p c w' = ref_cnt p c w + of_bool (c = b))"
    and "ref_cnt p c (free_blocks p bs w) = ref_cnt p c w - int (count (mset bs) c)"
proof -
  note a = assms [unfolded pool_ok_def]
  note new = a [THEN conjunct1, THEN spec, THEN spec, THEN spec, THEN spec, THEN mp]
  note failed = a [THEN conjunct2, THEN conjunct1, THEN spec, THEN spec, THEN spec, THEN spec, THEN mp]
  note touched = a [THEN conjunct2, THEN conjunct2, THEN conjunct1, THEN spec, THEN spec, THEN spec,
      THEN mp]
  note raised = a [THEN conjunct2, THEN conjunct2, THEN conjunct2, THEN conjunct1,
      THEN spec, THEN spec, THEN spec, THEN spec, THEN mp]
  note freed = a [THEN conjunct2, THEN conjunct2, THEN conjunct2, THEN conjunct2,
      THEN spec, THEN spec, THEN spec]
  show "get_new_blocks p n w = (Inr bs, w') \<Longrightarrow> length bs = n \<and> distinct bs
      \<and> (\<forall>b \<in> set bs. 0 \<le> b \<and> b \<noteq> null \<and> ref_cnt p b w = 0)
      \<and> (\<forall>b. ref_cnt p b w' = ref_cnt p b w + of_bool (b \<in> set bs))" by (rule new)
  show "get_new_blocks p n w = (Inl e, w') \<Longrightarrow> ref_cnt p b w' = ref_cnt p b w"
    by (rule failed [THEN spec])
  show "touch_block p b w = (Inr (), w') \<Longrightarrow> ref_cnt p c w' = ref_cnt p c w + of_bool (c = b)"
    by (rule touched [THEN spec])
  show "touch_block p b w = (Inl e, w') \<Longrightarrow>
      (\<forall>c. ref_cnt p c w' = ref_cnt p c w) \<or> (\<forall>c. ref_cnt p c w' = ref_cnt p c w + of_bool (c = b))"
    by (rule raised)
  show "ref_cnt p c (free_blocks p bs w) = ref_cnt p c w - int (count (mset bs) c)" by (rule freed)
qed

subsection \<open>The books of a reservation\<close>

text \<open>References beyond those recorded in \<open>acquired\<close>: constant during a reservation.\<close>

definition unrecorded :: "'w allocator_setup \<Rightarrow> 'w \<times> int list \<Rightarrow> int \<Rightarrow> int" where
  "unrecorded su s b = ref_cnt (pool su) b (fst s) - int (count (mset (snd s)) b)"

definition balanced :: "'w allocator_setup \<Rightarrow> 'w \<times> int list \<Rightarrow> 'w \<times> int list \<Rightarrow> bool" where
  "balanced su s s' \<longleftrightarrow> (\<forall>b. unrecorded su s' b = unrecorded su s b)"

interpretation balance: history "balanced su" for su
  by unfold_locales (simp_all add: balanced_def)

lemma acquire_block_balanced:
  assumes "pool_ok (pool su) (null_block su)"
  shows "keeps (balanced su) (acquire_block su b)"
  unfolding keeps_def
proof
  fix s :: "'a \<times> int list"
  obtain w acq where s: "s = (w, acq)" by fastforce
  obtain r w' where t: "touch_block (pool su) b w = (r, w')" by fastforce
  show "balanced su s (snd (acquire_block su b s))"
  proof (cases r)
    case (Inl e)
    from pool_okD(4) [OF assms t [unfolded Inl]] show ?thesis
      using s t Inl by (auto simp: acquire_block_def Let_def balanced_def unrecorded_def)
  next
    case (Inr u)
    from pool_okD(3) [OF assms] t Inr have "\<And>c. ref_cnt (pool su) c w' = ref_cnt (pool su) c w + of_bool (c = b)"
      by simp
    then show ?thesis
      using s t Inr by (auto simp: acquire_block_def Let_def balanced_def unrecorded_def)
  qed
qed

lemma acquire_each_balanced:
  "pool_ok (pool su) (null_block su) \<Longrightarrow> keeps (balanced su) (acquire_each su bs)"
proof (induction bs)
  case Nil
  show ?case by (simp only: acquire_each.simps) (rule balance.keeps_pure)
next
  case (Cons b bs)
  show ?case
    unfolding acquire_each.simps
    by (intro balance.keeps_sbind acquire_block_balanced Cons)
qed

lemma acquire_shared_balanced:
  "pool_ok (pool su) (null_block su) \<Longrightarrow> keeps (balanced su) (acquire_shared_blocks su ts ps)"
  unfolding acquire_shared_blocks_def Let_def
  by (intro balance.keeps_sbind balance.keeps_pure acquire_each_balanced)

lemma acquire_each_Inr:
  assumes "pool_ok (pool su) (null_block su)" and "acquire_each su bs s = (Inr u, s')"
  shows "snd s' = snd s @ bs"
  using assms(2)
proof (induction bs arbitrary: s)
  case (Cons b bs)
  then obtain s1 where "acquire_block su b s = (Inr (), s1)" "acquire_each su bs s1 = (Inr u, s')"
    by (auto simp: action_simps)
  moreover from this(1) have "snd s1 = snd s @ [b]"
    by (auto simp: acquire_block_def Let_def split: prod.splits sum.splits if_splits)
  ultimately show ?case using Cons.IH by simp
qed simp

lemma block_ids_total: "\<forall>b \<in> set xs. 0 \<le> b \<Longrightarrow> map_result block_id xs = Inr xs"
  by (induction xs) (auto simp: block_id_def)

lemma allocate_blocks_cases:
  assumes "pool_ok (pool su) (null_block su)"
    and "allocate_blocks su n (w, acq) = (r, s')"
  shows "(\<exists>e. r = Inl e) \<and> balanced su (w, acq) s' \<and> snd s' = acq
    \<or> (\<exists>bs. r = Inr bs \<and> snd s' = acq \<and> length bs = n \<and> distinct bs
          \<and> (\<forall>b \<in> set bs. 0 \<le> b \<and> b \<noteq> null_block su \<and> ref_cnt (pool su) b w = 0)
          \<and> (\<forall>b. ref_cnt (pool su) b (fst s') = ref_cnt (pool su) b w + of_bool (b \<in> set bs)))"
proof -
  obtain g w' where g: "get_new_blocks (pool su) n w = (g, w')" by fastforce
  show ?thesis
  proof (cases g)
    case (Inl e)
    then show ?thesis
      using assms(2) g pool_okD(2) [OF assms(1)]
      by (auto simp: allocate_blocks_def balanced_def unrecorded_def)
  next
    case (Inr bs)
    note ok = pool_okD(1) [OF assms(1) g [unfolded Inr]]
    then have "map_result block_id bs = Inr bs" by (intro block_ids_total) auto
    then have "r = Inr bs" "s' = (w', acq)"
      using assms(2) g Inr ok by (simp_all add: allocate_blocks_def)
    then show ?thesis using ok by simp
  qed
qed

lemma reserve_body_balanced:
  assumes p: "pool_ok (pool su) (null_block su)"
    and r: "reserve_body su tables capacity (w, []) = (r, s')"
  shows "balanced su (w, []) s'"
proof -
  let ?n = "capacity + private_block_count su * 2"
  obtain ar s1 where a: "allocate_blocks su ?n (w, []) = (ar, s1)" by (rule prod.exhaust)
  from allocate_blocks_cases [OF p a] show ?thesis
  proof (elim disjE exE conjE)
    fix e assume "ar = Inl e" "balanced su (w, []) s1"
    then show ?thesis using r a by (simp add: reserve_body_def sbind_def)
  next
    fix bs assume bs: "ar = Inr bs" "snd s1 = []" "distinct bs"
      "\<forall>b. ref_cnt (pool su) b (fst s1) = ref_cnt (pool su) b w + of_bool (b \<in> set bs)"
    obtain w1 where s1: "s1 = (w1, [])" using bs(2) by (cases s1) simp
    let ?s2 = "(w1, bs)"
    have b0: "balanced su (w, []) ?s2"
      using bs(3,4) s1 by (auto simp: balanced_def unrecorded_def distinct_count_atmost_1)
    let ?rest = "sbind (lift_result (extend_canonical_capacity su (zip (alloc_topology su) tables) bs))
       (\<lambda>(tables, left0).
     sbind (lift_result (build_private_tables su (zip (alloc_topology su) tables) left0))
       (\<lambda>(cand_tables, cand_writes, left1).
     sbind (lift_result (build_private_tables su (zip (alloc_topology su) tables) left1))
       (\<lambda>(ser_tables, ser_writes, left2).
     sbind (assert_that (left2 = []) ReservationUnused) (\<lambda>_.
     sbind (acquire_shared_blocks su tables cand_tables) (\<lambda>_.
     sbind (acquire_shared_blocks su tables ser_tables) (\<lambda>_.
     lift_result (make_allocation su tables (cand_tables, cand_writes) (ser_tables, ser_writes)
                    bs)))))))"
    have "keeps (balanced su) ?rest"
      by (intro balance.keeps_sbind balance.keeps_case_prod balance.keeps_pure
          acquire_shared_balanced [OF p])
    moreover
    let ?m = "modify (\<lambda>(w, acquired). (w, acquired @ bs)) :: ('a, unit) reserving"
    have m: "?m (w1, []) = (Inr (), ?s2)" by simp
    have "?rest ?s2 = (r, s')"
      using r by (simp only: reserve_body_def
          sbind_step [where m = "allocate_blocks su ?n" and s = "(w, [])", OF a [unfolded bs(1) s1]]
          sbind_step [where m = ?m and s = "(w1, [])", OF m])
    ultimately have "balanced su ?s2 s'" by (rule keepsD)
    with b0 show ?thesis by (rule balance.trans)
  qed
qed


lemma acquire_shared_Inr:
  assumes "pool_ok (pool su) (null_block su)" and "acquire_shared_blocks su ts ps s = (Inr u, s')"
  shows "distinct (shared_blocks su ts ps)" "snd s' = snd s @ shared_blocks su ts ps"
  using assms acquire_each_Inr [OF assms(1)]
  by (auto simp: acquire_shared_blocks_def Let_def action_simps)

lemma reserve_body_Inr:
  assumes p: "pool_ok (pool su) (null_block su)"
    and r: "reserve_body su tables capacity (w, []) = (Inr a, s')"
  obtains bs ts left0 ct cw left1 st sw where
    "distinct bs" "\<forall>b \<in> set bs. 0 \<le> b \<and> b \<noteq> null_block su \<and> ref_cnt (pool su) b w = 0"
    "extend_canonical_capacity su (zip (alloc_topology su) tables) bs = Inr (ts, left0)"
    "build_private_tables su (zip (alloc_topology su) ts) left0 = Inr (ct, cw, left1)"
    "build_private_tables su (zip (alloc_topology su) ts) left1 = Inr (st, sw, [])"
    "snd s' = bs @ shared_blocks su ts ct @ shared_blocks su ts st"
    "make_allocation su ts (ct, cw) (st, sw) bs = Inr a"
proof -
  let ?n = "capacity + private_block_count su * 2"
  from r obtain bs s1 where a: "allocate_blocks su ?n (w, []) = (Inr bs, s1)"
    by (auto simp: reserve_body_def action_simps)
  obtain w1 where s1: "s1 = (w1, [])" and fresh: "distinct bs"
    "\<forall>b \<in> set bs. 0 \<le> b \<and> b \<noteq> null_block su \<and> ref_cnt (pool su) b w = 0"
    using allocate_blocks_cases [OF p a] by (cases s1) auto
  from r a s1 obtain ts left0 ct cw left1 st sw s3 s4 where
    "extend_canonical_capacity su (zip (alloc_topology su) tables) bs = Inr (ts, left0)"
    "build_private_tables su (zip (alloc_topology su) ts) left0 = Inr (ct, cw, left1)"
    "build_private_tables su (zip (alloc_topology su) ts) left1 = Inr (st, sw, [])"
    and acq: "acquire_shared_blocks su ts ct (w1, bs) = (Inr (), s3)"
      "acquire_shared_blocks su ts st s3 = (Inr (), s4)" "s' = s4"
    and "make_allocation su ts (ct, cw) (st, sw) bs = Inr a"
    by (auto simp: reserve_body_def action_simps)
  moreover have "snd s' = bs @ shared_blocks su ts ct @ shared_blocks su ts st"
    using acquire_shared_Inr(2) [OF p acq(1)] acquire_shared_Inr(2) [OF p acq(2)] acq(3) by simp
  ultimately show thesis using that fresh by blast
qed

definition referenced :: "'w allocator_setup \<Rightarrow> block_tables \<Rightarrow> 'w \<Rightarrow> bool" where
  "referenced su tables w \<longleftrightarrow> (\<forall>b \<in> set (real_occurrences su tables). 0 < ref_cnt (pool su) b w)"

lemma unreferenced_is_fresh:
  assumes "referenced su tables w" "distinct bs"
    and "\<forall>b \<in> set bs. 0 \<le> b \<and> b \<noteq> null_block su \<and> ref_cnt (pool su) b w = 0"
  shows "fresh_for su bs tables"
  using assms by (force simp: referenced_def fresh_for_def real_occurrences_set disjoint_iff)

lemma register_root_Inr:
  "register_root root ts b = (Inr u, b') \<longleftrightarrow>
     table_root_id root = Inr () \<and> length ts = TOTAL_GROUPS \<and> root \<notin> fst ` set (root_tables b)
     \<and> b' = b\<lparr>root_tables := root_tables b @ [(root, ts)]\<rparr>"
  by (auto simp: register_root_def action_simps normalize_tables_def result_simps)

lemma canonical_writable_Inr:
  assumes "canonical_writable su (alloc_topology su ! i) table = Inr ws"
  shows "set ws \<subseteq> written_blocks su i table"
proof
  fix b assume "b \<in> set ws"
  show "b \<in> written_blocks su i table"
  proof (cases "topology_kind (alloc_topology su ! i) = Mamba")
    case True
    then have "ws = filter (\<lambda>b. b \<noteq> null_block su) table"
      using assms by (auto simp: canonical_writable_def dest: map_result_block_id)
    with \<open>b \<in> set ws\<close> obtain j where "j < length table" "table ! j = b" "b \<noteq> null_block su"
      by (auto simp: in_set_conv_nth)
    then show ?thesis
      using True by (auto simp: written_blocks_def written_indexes_def real_indexes_set)
  next
    case False
    then have "ws = filter (\<lambda>b. b \<noteq> null_block su)
               (map ((!) table) (filter (\<lambda>i. i < length table)
                                   (write_indices su (topology_block_size (alloc_topology su ! i)))))"
      using assms by (auto simp: canonical_writable_def dest: map_result_block_id)
    with \<open>b \<in> set ws\<close> False show ?thesis
      by (auto simp: written_blocks_def written_indexes_def)
  qed
qed

lemma make_allocation_Inr:
  assumes "make_allocation su ts (ct, cw) (st, sw) bs = Inr a" "alloc_root_ids su = (i0, i1, i2)"
    and "length ts = TOTAL_GROUPS" "length (alloc_topology su) = TOTAL_GROUPS"
  obtains ws where "length ws = TOTAL_GROUPS"
    "\<forall>i < TOTAL_GROUPS. set (ws ! i) \<subseteq> written_blocks su i (ts ! i)"
    "physical_root_of su i0 ts ws = Inr (canonical_allocated a)"
    "physical_root_of su i1 ct cw = Inr (candidate_allocated a)"
    "physical_root_of su i2 st sw = Inr (serial_allocated a)"
    "allocated_bank a = \<lparr>bank_request = alloc_request su,
       root_tables = [(i0, ts), (i1, ct), (i2, st)], own_canonical = i0,
       external_getter = None, root_selection = None\<rparr>"
    "i0 \<noteq> i1" "i0 \<noteq> i2" "i1 \<noteq> i2" "blocks_to_zero a = bs"
proof -
  from assms(1,2) obtain ws b0 b1 b2 where
    w: "map_result (\<lambda>(g, t). canonical_writable su g t) (zip (alloc_topology su) ts) = Inr ws"
    and b: "new_bank (alloc_request su) i0 ts = Inr b0"
      "register_root i1 ct b0 = (Inr (), b1)" "register_root i2 st b1 = (Inr (), b2)"
    and r: "physical_root_of su i0 ts ws = Inr (canonical_allocated a)"
      "physical_root_of su i1 ct cw = Inr (candidate_allocated a)"
      "physical_root_of su i2 st sw = Inr (serial_allocated a)"
    and bank: "allocated_bank a = b2" and z: "blocks_to_zero a = bs"
    by (auto simp: make_allocation_def result_simps Let_def prod_eq_iff dest: map_result_block_id)
  have l: "length ws = TOTAL_GROUPS" using map_result_length [OF w] assms(3,4) by simp
  moreover have "set (ws ! i) \<subseteq> written_blocks su i (ts ! i)" if "i < TOTAL_GROUPS" for i
    using map_result_nth [OF w, of i] that assms(3,4) by (intro canonical_writable_Inr) simp
  moreover have "b0 = \<lparr>bank_request = alloc_request su, root_tables = [(i0, ts)], own_canonical = i0,
       external_getter = None, root_selection = None\<rparr>"
    using b(1) by (auto simp: new_bank_def normalize_tables_def result_simps split: if_splits)
  ultimately show thesis
    using that [of ws] r z bank b(2,3) by (auto simp: register_root_Inr)
qed


subsection \<open>Isolation\<close>

lemma nth_concat_subset: "i < length xss \<Longrightarrow> set (xss ! i) \<subseteq> set (concat xss)"
  by (auto intro: nth_mem)

lemma reserved_roots_isolated:
  assumes p: "pool_ok (pool su) (null_block su)"
    and ok: "tables_ok su tables" and ref: "referenced su tables w"
    and r: "reserve_body su tables capacity (w, []) = (Inr a, s')"
  shows "root_trio (canonical_allocated a) (candidate_allocated a) (serial_allocated a)"
proof -
  obtain bs ts left0 ct cw left1 st sw where
    fresh: "distinct bs" "\<forall>b \<in> set bs. 0 \<le> b \<and> b \<noteq> null_block su \<and> ref_cnt (pool su) b w = 0"
    and ext: "extend_canonical_capacity su (zip (alloc_topology su) tables) bs = Inr (ts, left0)"
    and cand: "build_private_tables su (zip (alloc_topology su) ts) left0 = Inr (ct, cw, left1)"
    and ser: "build_private_tables su (zip (alloc_topology su) ts) left1 = Inr (st, sw, [])"
    and mk: "make_allocation su ts (ct, cw) (st, sw) bs = Inr a"
    by (rule reserve_body_Inr [OF p r])
  obtain used where tok: "tables_ok su ts" and left0: "fresh_for su left0 ts"
    by (rule extended_tables [OF ok unreferenced_is_fresh [OF ref fresh] ext])
  have parts: "left0 = concat cw @ left1" "left1 = concat sw"
    using build_Inr(1) [OF cand] build_Inr(1) [OF ser] by simp_all
  have fc: "fresh_for su (concat cw) ts" and fs: "fresh_for su (concat sw) ts"
    and cs: "set (concat cw) \<inter> set (concat sw) = {}"
    using left0 by (auto simp: fresh_for_def parts)
  note c = private_group_facts [OF tok build_Inr(2) [OF cand] fc]
    and s = private_group_facts [OF tok build_Inr(2) [OF ser] fs]
  have lt: "length ts = TOTAL_GROUPS" using tok by (simp add: tables_ok_def)
  have lens: "length ct = TOTAL_GROUPS" "length cw = TOTAL_GROUPS"
    "length st = TOTAL_GROUPS" "length sw = TOTAL_GROUPS"
    using c(1,2) [of 0] s(1,2) [of 0] by (simp_all add: group_counts)
  obtain i0 i1 i2 where ids: "alloc_root_ids su = (i0, i1, i2)" by (rule prod_cases3)
  obtain ws where lw: "length ws = TOTAL_GROUPS"
    and ws: "\<forall>i < TOTAL_GROUPS. set (ws ! i) \<subseteq> written_blocks su i (ts ! i)"
    and r0: "physical_root_of su i0 ts ws = Inr (canonical_allocated a)"
    and r1: "physical_root_of su i1 ct cw = Inr (candidate_allocated a)"
    and r2: "physical_root_of su i2 st sw = Inr (serial_allocated a)"
    and ne: "i0 \<noteq> i1" "i0 \<noteq> i2" "i1 \<noteq> i2"
    by (rule make_allocation_Inr [OF mk ids lt tables_ok_kinds(1) [OF tok]])
  note f0 = physical_root_of_Inr [OF r0 lt] and f1 = physical_root_of_Inr [OF r1 lens(1)]
    and f2 = physical_root_of_Inr [OF r2 lens(3)]
  have in_cw: "set (cw ! i) \<subseteq> set (concat cw)" and in_sw: "set (sw ! i) \<subseteq> set (concat sw)"
    and in_ts: "set (ts ! i) \<subseteq> set (concat ts)" if "i < TOTAL_GROUPS" for i
    using that lens lt by (simp_all only: nth_concat_subset)
  have below: "i < TOTAL_GROUPS" if "i < MAMBA_GROUPS" for i
    using that by (simp add: TOTAL_GROUPS_def)
  have slots1: "set (gdn_slots (candidate_allocated a)) \<subseteq> set (concat cw)"
    using f1(12) c(6) in_cw below by blast
  have slots2: "set (gdn_slots (serial_allocated a)) \<subseteq> set (concat sw)"
    using f2(12) s(6) in_sw below by blast
  have slots0: "set (gdn_slots (canonical_allocated a)) \<subseteq> set (concat ts)"
    using f0(12) in_ts below by blast
  have apart: "set (concat cw) \<inter> set (concat ts) = {}" "set (concat sw) \<inter> set (concat ts) = {}"
    using fc fs by (auto simp: fresh_for_def)
  have d01: "set (gdn_slots (canonical_allocated a)) \<inter> set (gdn_slots (candidate_allocated a)) = {}"
    and d02: "set (gdn_slots (canonical_allocated a)) \<inter> set (gdn_slots (serial_allocated a)) = {}"
    and d12: "set (gdn_slots (candidate_allocated a)) \<inter> set (gdn_slots (serial_allocated a)) = {}"
    using slots0 slots1 slots2 apart cs by blast+
  have w01: "set (ws ! i) \<inter> set (ct ! i) = {}" and w02: "set (ws ! i) \<inter> set (st ! i) = {}"
    and w10: "set (cw ! i) \<inter> set (ts ! i) = {}" and w20: "set (sw ! i) \<inter> set (ts ! i) = {}"
    and w12: "set (cw ! i) \<inter> set (st ! i) = {}" and w21: "set (sw ! i) \<inter> set (ct ! i) = {}"
    if "i < TOTAL_GROUPS" for i
    using ws c(3-5) [OF that] s(3-5) [OF that] in_cw [OF that] in_sw [OF that] that cs by blast+
  have "\<not> aliases (canonical_allocated a) (candidate_allocated a)"
    using writable_disjoint [OF r0 lt lw r1 lens(1) ne(1) w01 d01]
      writable_disjoint [OF r1 lens(1,2) r0 lt ne(1) [symmetric] w10] d01
    by (simp add: aliases_def Int_commute)
  moreover have "\<not> aliases (canonical_allocated a) (serial_allocated a)"
    using writable_disjoint [OF r0 lt lw r2 lens(3) ne(2) w02 d02]
      writable_disjoint [OF r2 lens(3,4) r0 lt ne(2) [symmetric] w20] d02
    by (simp add: aliases_def Int_commute)
  moreover have "\<not> aliases (candidate_allocated a) (serial_allocated a)"
    using writable_disjoint [OF r1 lens(1,2) r2 lens(3) ne(3) w12 d12]
      writable_disjoint [OF r2 lens(3,4) r1 lens(1) ne(3) [symmetric] w21] d12
    by (simp add: aliases_def Int_commute)
  ultimately show ?thesis
    using ne by (simp add: root_trio_def f0(1-3) f1(1-3) f2(1-3))
qed

end
