(* ===== verification/Allocator_Ownership.thy ===== *)
theory Allocator_Ownership
  imports Allocator_Safety
begin

section \<open>Ownership: from the constructor to the closing\<close>

text \<open>
  The books of the allocator over its whole life: what the constructor has validated, the
  references a reservation holds, and the references the closing gives back.
\<close>

subsection \<open>What the constructor has validated\<close>

lemma claim_blocks_Inr:
  "claim_blocks null bs seen = Inr seen' \<Longrightarrow>
     distinct (filter (\<lambda>b. b \<noteq> null) bs) \<and> (\<forall>b \<in> set bs. b \<noteq> null \<longrightarrow> 0 \<le> b \<and> b \<notin> seen)
     \<and> seen' = seen \<union> set (filter (\<lambda>b. b \<noteq> null) bs)"
proof (induction null bs seen rule: claim_blocks.induct)
  case (2 null b bs seen)
  then show ?case
    by (cases "b = null") (auto simp: result_simps block_id_def split: if_splits)
qed simp

lemma scan_managers_Inr:
  assumes "scan_managers request (null_block su) index (zip ms kinds) seen = Inr topo"
    and "length ms = length kinds"
  shows "\<exists>tables. request_blocks request (map req_to_blocks ms) = Inr tables
    \<and> length topo = length ms \<and> map topology_kind topo = kinds
    \<and> (\<forall>g \<in> set topo. 0 < topology_block_size g)
    \<and> (\<forall>i < length ms. kinds ! i = Mamba \<longrightarrow>
          length (filter (\<lambda>b. b \<noteq> null_block su) (tables ! i)) = 1)
    \<and> distinct (real_occurrences su tables)
    \<and> (\<forall>b \<in> set (real_occurrences su tables). 0 \<le> b \<and> b \<notin> seen)"
  using assms
proof (induction ms arbitrary: kinds index seen topo)
  case Nil
  then show ?case by (simp add: request_blocks_def)
next
  case (Cons m ms)
  then obtain k kinds' where k: "kinds = k # kinds'" "length ms = length kinds'"
    by (cases kinds) auto
  from Cons.prems(1) k obtain blocks seen' topo' where
    m: "map_of (req_to_blocks m) request = Some blocks" "0 < manager_block_size m"
      "k = Mamba \<longrightarrow> length (filter (\<lambda>b. b \<noteq> null_block su) blocks) = 1"
    and c: "claim_blocks (null_block su) blocks seen = Inr seen'"
    and rest: "scan_managers request (null_block su) (index + 1) (zip ms kinds') seen' = Inr topo'"
    and topo: "topo = \<lparr>topology_index = index, topology_kind = k,
                       topology_block_size = nat (manager_block_size m)\<rparr> # topo'"
    by (auto simp: result_simps split: if_splits option.splits)
  note claim = claim_blocks_Inr [OF c]
  from Cons.IH [OF rest k(2)] obtain tables where
    t: "request_blocks request (map req_to_blocks ms) = Inr tables"
    and f: "length topo' = length ms" "map topology_kind topo' = kinds'"
      "\<forall>g \<in> set topo'. 0 < topology_block_size g"
      "\<forall>i < length ms. kinds' ! i = Mamba \<longrightarrow>
          length (filter (\<lambda>b. b \<noteq> null_block su) (tables ! i)) = 1"
      "distinct (real_occurrences su tables)"
      "\<forall>b \<in> set (real_occurrences su tables). 0 \<le> b \<and> b \<notin> seen'"
    by blast
  have "request_blocks request (map req_to_blocks (m # ms)) = Inr (blocks # tables)"
    using t m(1) by (simp add: request_blocks_def)
  moreover have "\<forall>i < length (m # ms). kinds ! i = Mamba \<longrightarrow>
      length (filter (\<lambda>b. b \<noteq> null_block su) ((blocks # tables) ! i)) = 1"
    using f(4) m(3) k by (auto simp: less_Suc_eq_0_disj)
  moreover have "distinct (real_occurrences su (blocks # tables))"
    using f(5,6) claim by auto
  moreover have "\<forall>b \<in> set (real_occurrences su (blocks # tables)). 0 \<le> b \<and> b \<notin> seen"
    using f(6) claim by auto
  ultimately show ?case
    using f(1-3) m(2) k topo by (intro exI [of _ "blocks # tables"]) simp
qed

lemma new_allocator_Inr:
  assumes "new_allocator p null managers request len gen i0 i1 i2 width w = Inr (su, s)"
  obtains tables where
    "pool su = p" "null_block su = null" "alloc_request su = request" "alloc_root_ids su = (i0, i1, i2)"
    "request_blocks request (map req_to_blocks managers) = Inr tables" "tables_ok su tables"
    "s = \<lparr>pool_state = w, allocator_maps = map req_to_blocks managers, installed = False,
          allocation = None, private_ownership = []\<rparr>"
    "length managers = TOTAL_GROUPS" "alloc_length su = nat len" "alloc_width su = nat width"
    "alloc_width su \<le> MAX_COMMIT_WIDTH"
proof -
  from assms obtain topo where
    v: "validate_topology request null managers = Inr topo" and width: "1 \<le> width" "width \<le> int MAX_COMMIT_WIDTH"
    and su: "su = \<lparr>pool = p, null_block = null, alloc_request = request, alloc_length = nat len,
            alloc_generation = gen, alloc_root_ids = (i0, i1, i2),
            alloc_width = nat width, alloc_topology = topo\<rparr>"
    and s: "s = \<lparr>pool_state = w, allocator_maps = map req_to_blocks managers, installed = False,
            allocation = None, private_ownership = []\<rparr>"
    by (auto simp: new_allocator_def result_simps split: if_splits)
  have len: "length managers = length expected_kinds" "length expected_kinds = TOTAL_GROUPS"
    using v by (auto simp: validate_topology_def expected_kinds_def TOTAL_GROUPS_def split: if_splits)
  have "scan_managers request (null_block su) 0 (zip managers expected_kinds) {} = Inr topo"
    using v by (auto simp: validate_topology_def su split: if_splits)
  from scan_managers_Inr [OF this len(1)] obtain tables where t:
    "request_blocks request (map req_to_blocks managers) = Inr tables"
    "map topology_kind topo = expected_kinds" "\<forall>g \<in> set topo. 0 < topology_block_size g"
    "\<forall>i < length managers. expected_kinds ! i = Mamba \<longrightarrow>
          length (filter (\<lambda>b. b \<noteq> null_block su) (tables ! i)) = 1"
    "distinct (real_occurrences su tables)" "\<forall>b \<in> set (real_occurrences su tables). 0 \<le> b"
    by blast
  have "length tables = TOTAL_GROUPS"
    using map_result_length [OF t(1) [unfolded request_blocks_def]] len by simp
  moreover have "expected_kinds ! i = Mamba \<and> i < length managers" if "i < MAMBA_GROUPS" for i
    using that len by (simp add: expected_kinds_def nth_append TOTAL_GROUPS_def)
  ultimately have "tables_ok su tables"
    using t(2-6) width by (simp add: tables_ok_def su)
  then show thesis using that [of tables] t(1) su s len width by (simp add: nat_le_iff)
qed

subsection \<open>Occurrences in the private tables\<close>

lemma replace_written_mset:
  assumes "replace_written is table reserved = Inr (table', written, left)" and "distinct is"
  shows "mset table' + mset (map ((!) table) is) = mset table + mset written"
  using assms
proof (induction "is" arbitrary: table reserved table' written left)
  case (Cons i "is")
  from Cons.prems obtain b rest written' where r: "i < length table"
    "replace_written is (table[i := b]) rest = Inr (table', written', left)" "written = b # written'"
    by (auto simp: result_simps block_id_def split: list.splits if_splits)
  have same: "map ((!) (table[i := b])) is = map ((!) table) is"
  proof (rule map_cong [OF HOL.refl])
    fix j assume "j \<in> set is"
    then have "j \<noteq> i" using Cons.prems(2) by auto
    then show "table[i := b] ! j = table ! j" by simp
  qed
  have "mset table' + mset (map ((!) (table[i := b])) is) = mset (table[i := b]) + mset written'"
    using Cons.prems(2) by (intro Cons.IH [OF r(2)]) simp
  then have "mset table' + mset (map ((!) table) is) = mset (table[i := b]) + mset written'"
    by (simp only: same)
  moreover have "mset (table[i := b]) + {# table ! i #} = mset table + {# b #}"
    using r(1) by (simp add: mset_update nth_mem)
  ultimately show ?case
    using r(3) by (simp add: ac_simps)
qed simp

lemma real_indexes_distinct: "distinct (real_indexes null k xs)"
proof (induction xs arbitrary: k)
  case (Cons x xs)
  then show ?case by (auto simp: real_indexes_set)
qed simp

lemma private_group_mset:
  assumes "private_group su g table reserved = Inr (table', written, left)"
  shows "\<exists>old. mset table' + mset old = mset table + mset written \<and> set old \<subseteq> set table"
proof -
  let ?is = "written_indexes su g table"
  from assms have r: "replace_written ?is table reserved = Inr (table', written, left)"
    by (auto simp: private_group_def written_indexes_def split: if_splits list.splits)
  have "distinct ?is"
    by (simp add: written_indexes_def real_indexes_distinct write_indices_distinct)
  moreover have "\<forall>i \<in> set ?is. i < length table"
    using replace_written_Inr(3) [OF r] by (auto simp: overwrites_def)
  ultimately show ?thesis
    using replace_written_mset [OF r] by (intro exI [of _ "map ((!) table) ?is"]) auto
qed

lemma build_mset:
  assumes "build_private_tables su gs reserved = Inr (ts, ws, left)"
    and "\<forall>b \<in> set (concat ws). b \<noteq> null_block su"
  shows "\<exists>old. mset (real_occurrences su ts) + mset old
      = mset (real_occurrences su (map snd gs)) + mset (concat ws)
    \<and> set old \<subseteq> set (real_occurrences su (map snd gs))"
  using assms
proof (induction gs arbitrary: reserved ts ws left)
  case (Cons gt gs)
  obtain g table where gt: "gt = (g, table)" by fastforce
  with Cons.prems(1) obtain t' w reserved' ts' ws' where
    g: "private_group su g table reserved = Inr (t', w, reserved')"
    and rest: "build_private_tables su gs reserved' = Inr (ts', ws', left)"
    and eq: "ts = t' # ts'" "ws = w # ws'"
    by (auto simp: result_simps)
  let ?real = "\<lambda>b. b \<noteq> null_block su"
  obtain old where old: "mset t' + mset old = mset table + mset w" "set old \<subseteq> set table"
    using private_group_mset [OF g] by blast
  have w: "filter ?real w = w"
    using Cons.prems(2) eq by (intro filter_True) auto
  have "filter_mset ?real (mset t') + filter_mset ?real (mset old)
      = filter_mset ?real (mset table) + filter_mset ?real (mset w)"
    using arg_cong [OF old(1), of "filter_mset ?real"] by simp
  then have one: "mset (filter ?real t') + mset (filter ?real old)
      = mset (filter ?real table) + mset w"
    using arg_cong [OF w, of mset] by simp
  from Cons.IH [OF rest] Cons.prems(2) eq obtain old' where old':
    "mset (real_occurrences su ts') + mset old'
      = mset (real_occurrences su (map snd gs)) + mset (concat ws')"
    "set old' \<subseteq> set (real_occurrences su (map snd gs))" by auto
  show ?case
  proof (intro exI conjI)
    show "mset (real_occurrences su ts) + mset (filter ?real old @ old')
      = mset (real_occurrences su (map snd (gt # gs))) + mset (concat ws)"
      using one old'(1) by (simp add: eq gt) (metis (no_types, lifting) add.assoc add.left_commute)
    show "set (filter ?real old @ old') \<subseteq> set (real_occurrences su (map snd (gt # gs)))"
      using old(2) old'(2) by (auto simp: gt)
  qed
qed simp

text \<open>A private root consists of what it shares with the canonical root and its own blocks.\<close>

lemma private_occurrences:
  assumes "build_private_tables su (zip (alloc_topology su) ts) reserved = Inr (ps, ws, left)"
    and "length (alloc_topology su) = length ts" and "fresh_for su (concat ws) ts"
  shows "mset (real_occurrences su ps) = mset (shared_blocks su ts ps) + mset (concat ws)"
proof -
  let ?in = "\<lambda>b. b \<in> set (concat ts)"
  have snds: "map snd (zip (alloc_topology su) ts) = ts" using assms(2) by simp
  obtain old where old: "mset (real_occurrences su ps) + mset old
      = mset (real_occurrences su ts) + mset (concat ws)" "set old \<subseteq> set (real_occurrences su ts)"
    using build_mset [OF assms(1)] assms(3) by (auto simp: snds fresh_for_def)
  have shared: "filter ?in (real_occurrences su ps) = shared_blocks su ts ps"
    by (simp add: real_occurrences_def shared_blocks_def conj_commute)
  have inside: "set (real_occurrences su ts) \<subseteq> set (concat ts)"
    by (auto simp: real_occurrences_set)
  have f1: "filter ?in (real_occurrences su ts) = real_occurrences su ts"
    by (rule filter_True) (use inside in blast)
  have f2: "filter ?in old = old"
    by (rule filter_True) (use old(2) inside in blast)
  have f3: "filter ?in (concat ws) = []"
    using assms(3) by (auto simp: fresh_for_def filter_empty_conv simp del: set_concat)
  have "mset (filter ?in (real_occurrences su ps)) + mset (filter ?in old)
      = mset (filter ?in (real_occurrences su ts)) + mset (filter ?in (concat ws))"
    using arg_cong [OF old(1), of "filter_mset ?in"] by simp
  then have "mset (shared_blocks su ts ps) + mset old = mset (real_occurrences su ts)"
    unfolding shared f1 f2 f3 by simp
  with old(1) have "mset (real_occurrences su ps) + mset old
      = (mset (shared_blocks su ts ps) + mset old) + mset (concat ws)"
    by (simp only:)
  also have "\<dots> = (mset (shared_blocks su ts ps) + mset (concat ws)) + mset old"
    by (simp only: ac_simps)
  finally show ?thesis by (rule add_right_imp_eq)
qed

text \<open>
  The three roots together refer to every block as often as the original tables did and as
  the reservation has taken references.
\<close>

lemma reserved_occurrences:
  assumes p: "pool_ok (pool su) (null_block su)" and ids: "alloc_root_ids su = (i0, i1, i2)"
    and ok: "tables_ok su tables" and ref: "referenced su tables w"
    and r: "reserve_body su tables capacity (w, []) = (Inr a, s')"
  obtains ts ct st where
    "allocated_bank a = \<lparr>bank_request = alloc_request su,
       root_tables = [(i0, ts), (i1, ct), (i2, st)], own_canonical = i0,
       external_getter = None, root_selection = None\<rparr>"
    "i0 \<noteq> i1" "i0 \<noteq> i2" "i1 \<noteq> i2"
    "length ts = TOTAL_GROUPS" "length ct = TOTAL_GROUPS" "length st = TOTAL_GROUPS"
    "\<And>i. i < TOTAL_GROUPS \<Longrightarrow> take (length (tables ! i)) (ts ! i) = tables ! i"
    "mset (real_occurrences su ts) + mset (real_occurrences su ct) + mset (real_occurrences su st)
       = mset (real_occurrences su tables) + mset (snd s')"
proof -
  obtain bs ts left0 ct cw left1 st sw where
    fresh: "distinct bs" "\<forall>b \<in> set bs. 0 \<le> b \<and> b \<noteq> null_block su \<and> ref_cnt (pool su) b w = 0"
    and ext: "extend_canonical_capacity su (zip (alloc_topology su) tables) bs = Inr (ts, left0)"
    and cand: "build_private_tables su (zip (alloc_topology su) ts) left0 = Inr (ct, cw, left1)"
    and ser: "build_private_tables su (zip (alloc_topology su) ts) left1 = Inr (st, sw, [])"
    and taken: "snd s' = bs @ shared_blocks su ts ct @ shared_blocks su ts st"
    and mk: "make_allocation su ts (ct, cw) (st, sw) bs = Inr a"
    by (rule reserve_body_Inr [OF p r])
  obtain used where used: "bs = used @ left0" and tok: "tables_ok su ts" and left0: "fresh_for su left0 ts"
    and m: "mset (real_occurrences su ts) = mset (real_occurrences su tables) + mset used"
    and prefix: "\<And>i. i < TOTAL_GROUPS \<Longrightarrow> take (length (tables ! i)) (ts ! i) = tables ! i"
    by (rule extended_tables [OF ok unreferenced_is_fresh [OF ref fresh] ext], rule that, assumption+)
  have parts: "left0 = concat cw @ left1" "left1 = concat sw"
    using build_Inr(1) [OF cand] build_Inr(1) [OF ser] by simp_all
  have fc: "fresh_for su (concat cw) ts" and fs: "fresh_for su (concat sw) ts"
    using left0 by (auto simp: fresh_for_def parts)
  have lt: "length ts = TOTAL_GROUPS" using tok by (simp add: tables_ok_def)
  have lens: "length (alloc_topology su) = length ts" using tables_ok_kinds(1) [OF tok] lt by simp
  have l: "length ct = TOTAL_GROUPS" "length st = TOTAL_GROUPS"
    using private_group_facts(1) [OF tok build_Inr(2) [OF cand] fc, of 0]
      private_group_facts(1) [OF tok build_Inr(2) [OF ser] fs, of 0]
    by (simp_all add: group_counts)
  show thesis
  proof (rule make_allocation_Inr [OF mk ids lt tables_ok_kinds(1) [OF tok]])
    fix ws :: block_tables
    assume bank: "allocated_bank a = \<lparr>bank_request = alloc_request su,
       root_tables = [(i0, ts), (i1, ct), (i2, st)], own_canonical = i0,
       external_getter = None, root_selection = None\<rparr>"
      and ne: "i0 \<noteq> i1" "i0 \<noteq> i2" "i1 \<noteq> i2"
    show thesis
    proof (rule that [OF bank ne lt l prefix])
      show "mset (real_occurrences su ts) + mset (real_occurrences su ct)
          + mset (real_occurrences su st) = mset (real_occurrences su tables) + mset (snd s')"
        using private_occurrences [OF cand lens fc] private_occurrences [OF ser lens fs] m
        by (simp only: taken used parts mset_append ac_simps)
    qed assumption
  qed
qed

lemma physical_root_of_valid:
  assumes "physical_root_of su root tables writable = Inr r"
  shows "physical_root_check r = Inr ()" "root_request_id r = alloc_request su"
    "root_allocator_generation r = alloc_generation su"
  using assms by (auto simp: physical_root_of_def result_simps Let_def)

lemma reserved_roots_valid:
  assumes p: "pool_ok (pool su) (null_block su)"
    and r: "reserve_body su tables capacity (w, []) = (Inr a, s')"
  shows "\<forall>r \<in> {canonical_allocated a, candidate_allocated a, serial_allocated a}.
    physical_root_check r = Inr () \<and> root_request_id r = alloc_request su
    \<and> root_allocator_generation r = alloc_generation su"
proof -
  obtain bs ts ct cw st sw where mk: "make_allocation su ts (ct, cw) (st, sw) bs = Inr a"
    by (rule reserve_body_Inr [OF p r], rule that)
  then obtain i0 i1 i2 ws where "physical_root_of su i0 ts ws = Inr (canonical_allocated a)"
    "physical_root_of su i1 ct cw = Inr (candidate_allocated a)"
    "physical_root_of su i2 st sw = Inr (serial_allocated a)"
    by (auto simp: make_allocation_def result_simps Let_def split: prod.splits)
  then show ?thesis by (auto dest: physical_root_of_valid)
qed

subsection \<open>What the closing frees\<close>

lemma surplus_occurrences_count:
  "count (mset (surplus_occurrences C kept xs)) b + of_bool (b \<in> C \<and> b \<notin> kept \<and> b \<in> set xs)
     = count (mset xs) b"
  by (induction C kept xs rule: surplus_occurrences.induct) auto

lemma mset_concat_perm: "mset xss = mset yss \<Longrightarrow> mset (concat xss) = mset (concat yss)"
  by (simp add: mset_concat) (metis mset_map sum_mset_sum_list)

subsection \<open>A fresh allocator\<close>

text \<open>The state between the constructor and the first reservation.\<close>

definition fresh_allocator ::
  "'w allocator_setup \<Rightarrow> block_tables \<Rightarrow> 'w \<Rightarrow> ('w, 'x) allocator \<Rightarrow> bool" where
  "fresh_allocator su tables w s \<longleftrightarrow>
     request_blocks (alloc_request su) (allocator_maps s) = Inr tables \<and> tables_ok su tables
     \<and> pool_state s = w \<and> \<not> installed s \<and> allocation s = None \<and> private_ownership s = []
     \<and> length (allocator_maps s) = TOTAL_GROUPS"

lemma new_allocator_fresh:
  assumes "new_allocator p null managers request len gen i0 i1 i2 width w = Inr (su, s)"
  obtains tables where "fresh_allocator su tables w s"
    "request_blocks request (map req_to_blocks managers) = Inr tables"
    "pool su = p" "null_block su = null" "alloc_request su = request" "alloc_root_ids su = (i0, i1, i2)"
  by (rule new_allocator_Inr [OF assms], rule that) (simp_all add: fresh_allocator_def)

lemma reserve_roots_fresh:
  fixes s :: "('w, 'x) allocator"
  assumes f: "fresh_allocator su tables w s" and r: "reserve_roots su s = (r, s')"
  shows "(\<exists>e. r = Inl e \<and> s' = s)
    \<or> (\<exists>capacity e w' acq. reserve_body su tables capacity (w, [])
          = ((Inl e :: table_error + 'x private_root_allocation), (w', acq)) \<and> r = Inl e
        \<and> s' = s\<lparr>pool_state := (if acq = [] then w' else free_blocks (pool su) (rev acq) w')\<rparr>)
    \<or> (\<exists>capacity a w' acq. reserve_body su tables capacity (w, []) = (Inr a, (w', acq)) \<and> r = Inr a
        \<and> s' = s\<lparr>pool_state := w', allocation := Some a, private_ownership := acq\<rparr>)"
proof (cases "canonical_capacity_count su (zip (alloc_topology su) tables)")
  case (Inl e)
  then show ?thesis
    using f r by (auto simp: reserve_roots_def fresh_allocator_def sbind_def assert_that_def)
next
  case (Inr capacity)
  obtain outcome :: "table_error + 'x private_root_allocation" and w' acq where
    b: "reserve_body su tables capacity (w, []) = (outcome, (w', acq))"
    by (metis prod.exhaust)
  have now: "pool_state s = w" "allocation s = None"
    "request_blocks (alloc_request su) (allocator_maps s) = Inr tables"
    using f by (simp_all add: fresh_allocator_def)
  show ?thesis
  proof (cases outcome)
    case (Inl e)
    then have "r = Inl e \<and> s' = s\<lparr>pool_state := (if acq = [] then w' else free_blocks (pool su) (rev acq) w')\<rparr>"
      using r b Inr now by (simp add: reserve_roots_def sbind_def assert_that_def)
    then show ?thesis using b Inl by blast
  next
    case (Inr a)
    then have "r = Inr a \<and> s' = s\<lparr>pool_state := w', allocation := Some a, private_ownership := acq\<rparr>"
      using r b \<open>canonical_capacity_count _ _ = _\<close> now
      by (simp add: reserve_roots_def sbind_def assert_that_def)
    then show ?thesis using b Inr by blast
  qed
qed

lemma freed_balance:
  assumes "pool_ok (pool su) (null_block su)" and "balanced su (w, []) (w', acq)"
  shows "ref_cnt (pool su) b (if acq = [] then w' else free_blocks (pool su) (rev acq) w')
    = ref_cnt (pool su) b w"
proof -
  have eq: "ref_cnt (pool su) b w' - int (count (mset acq) b) = ref_cnt (pool su) b w"
    using assms(2) [unfolded balanced_def, THEN spec, of b] by (simp add: unrecorded_def)
  show ?thesis
  proof (cases "acq = []")
    case True
    then show ?thesis using eq by simp
  next
    case False
    then show ?thesis using eq pool_okD(5) [OF assms(1), of b "rev acq" w'] by simp
  qed
qed

text \<open>A refused reservation or installation leaves every reference count as it was.\<close>

lemma install_refused:
  assumes p: "pool_ok (pool su) (null_block su)" and f: "fresh_allocator su tables w s"
    and r: "install_roots su x s = (Inl e, s')"
  shows "ref_cnt (pool su) b (pool_state s') = ref_cnt (pool su) b w
    \<and> allocator_maps s' = allocator_maps s \<and> \<not> installed s' \<and> allocation s' = None
    \<and> private_ownership s' = []"
proof -
  obtain outcome s1 where res: "reserve_roots su s = (outcome, s1)" by (rule prod.exhaust)
  have none: "allocation s = None" "private_ownership s = []" "\<not> installed s" "pool_state s = w"
    using f by (simp_all add: fresh_allocator_def)
  show ?thesis
  proof (cases outcome)
    case (Inl e')
    then have s': "s' = s1" using r res none by (simp add: install_roots_def sbind_def)
    from reserve_roots_fresh [OF f res] Inl show ?thesis
    proof (elim disjE exE conjE)
      assume "s1 = s"
      then show ?thesis using none s' by simp
    next
      fix capacity e w' acq
      assume b: "reserve_body su tables capacity (w, []) = (Inl e, (w', acq))"
        and s1: "s1 = s\<lparr>pool_state := (if acq = [] then w' else free_blocks (pool su) (rev acq) w')\<rparr>"
      show ?thesis
        using freed_balance [OF p reserve_body_balanced [OF p b], of b] none by (simp add: s' s1)
    qed simp_all
  next
    case (Inr a)
    from reserve_roots_fresh [OF f res] Inr obtain capacity w' acq where
      b: "reserve_body su tables capacity (w, []) = (Inr a, (w', acq))"
      and s1: "s1 = s\<lparr>pool_state := w', allocation := Some a, private_ownership := acq\<rparr>"
      by auto
    from r res none Inr s1 have
      "s' = s\<lparr>pool_state := (if acq = [] then w' else free_blocks (pool su) (rev acq) w'),
              private_ownership := [], allocation := None\<rparr>"
      by (auto simp: install_roots_def sbind_def assert_that_def split: sum.splits)
    then show ?thesis
      using freed_balance [OF p reserve_body_balanced [OF p b], of b] none by simp
  qed
qed

lemma install_succeeds:
  fixes s :: "('w, 'x) allocator"
  assumes p: "pool_ok (pool su) (null_block su)" and f: "fresh_allocator su tables w s"
    and r: "install_roots su x s = (Inr a, s')"
  obtains capacity w' acq where "reserve_body su tables capacity (w, []) = (Inr a, (w', acq))"
    "s' = s\<lparr>pool_state := w', allocation := Some a, private_ownership := acq, installed := True\<rparr>"
proof -
  have none: "allocation s = None" using f by (simp add: fresh_allocator_def)
  obtain outcome s1 where res: "reserve_roots su s = (outcome, s1)" by (rule prod.exhaust)
  from r res none obtain a' where Inr: "outcome = Inr a'"
    by (cases outcome) (auto simp: install_roots_def sbind_def)
  from reserve_roots_fresh [OF f res] Inr obtain capacity w' acq where
    b: "reserve_body su tables capacity (w, []) = (Inr a', (w', acq))"
    and s1: "s1 = s\<lparr>pool_state := w', allocation := Some a', private_ownership := acq\<rparr>"
    by auto
  from r res none Inr s1 have "a = a'" "s' = s1\<lparr>installed := True\<rparr>"
    by (auto simp: install_roots_def sbind_def assert_that_def split: sum.splits if_splits)
  then show thesis using that b s1 by simp
qed

subsection \<open>Closing\<close>

lemma map_result_tables:
  assumes "map_result (\<lambda>r. bank_tables y (Some r) bank) rs = Inr all"
  shows "all = map (\<lambda>r. the (map_of (root_tables bank) r)) rs"
  using assms
  by (induction rs arbitrary: all)
     (auto simp: result_simps bank_tables_def resolve_root_def split: option.splits)

lemma map_of_own_keys: "distinct (map fst xs) \<Longrightarrow> map (\<lambda>k. the (map_of xs k)) (map fst xs) = map snd xs"
  by (auto intro!: map_cong)

lemma all_tables_perm:
  assumes "map_result (\<lambda>r. bank_tables y (Some r) bank) (sort (map fst (root_tables bank))) = Inr all"
    and "distinct (map fst (root_tables bank))"
  shows "mset all = mset (map snd (root_tables bank))"
proof -
  let ?the = "\<lambda>r. the (map_of (root_tables bank) r)"
  have "mset all = image_mset ?the (mset (sort (map fst (root_tables bank))))"
    using map_result_tables [OF assms(1)] by simp
  also have "\<dots> = mset (map ?the (map fst (root_tables bank)))"
    by (simp only: mset_sort mset_map)
  finally show ?thesis by (simp only: map_of_own_keys [OF assms(2)])
qed

lemma request_blocks_update:
  assumes "length maps = length tables"
  shows "request_blocks r (map2 (\<lambda>m t. AList.update r t m) maps tables) = Inr tables"
  using assms
  by (induction maps tables rule: list_induct2) (simp_all add: request_blocks_def update_conv')

lemma close_roots_Inr:
  assumes c: "close_roots su y s = (Inr (), s')" and a: "allocation s = Some a"
    and d: "distinct (map fst (root_tables (allocated_bank a)))"
  obtains root canonical surplus where
    "canonical_root y (allocated_bank a) = Inr root"
    "map_of (root_tables (allocated_bank a)) root = Some canonical"
    "s' = s\<lparr>allocator_maps :=
             map2 (\<lambda>m t. AList.update (alloc_request su) t m) (allocator_maps s) canonical,
           pool_state := free_blocks (pool su) (rev surplus) (pool_state s),
           installed := False, private_ownership := [], allocation := None\<rparr>"
    "\<And>b. count (mset surplus) b + of_bool (b \<in> set (real_occurrences su canonical))
        = (\<Sum>ts\<leftarrow>map snd (root_tables (allocated_bank a)). count (mset (real_occurrences su ts)) b)"
proof -
  let ?bank = "allocated_bank a"
  from c a obtain root canonical all where
    r: "canonical_root y ?bank = Inr root" "map_of (root_tables ?bank) root = Some canonical"
    and all: "map_result (\<lambda>r. bank_tables y (Some r) ?bank) (sort (map fst (root_tables ?bank))) = Inr all"
    and s': "s' = s\<lparr>allocator_maps :=
             map2 (\<lambda>m t. AList.update (alloc_request su) t m) (allocator_maps s) canonical,
           pool_state := free_blocks (pool su) (rev (surplus_occurrences
               (set (real_occurrences su canonical)) {} (concat (map (real_occurrences su) all))))
             (pool_state s),
           installed := False, private_ownership := [], allocation := None\<rparr>"
    by (cases "installed s")
       (auto simp: close_roots_def action_simps result_simps Let_def bank_tables_def resolve_root_def
             split: option.splits)
  let ?occ = "concat (map (real_occurrences su) all)"
  have perm: "mset all = mset (map snd (root_tables ?bank))" by (rule all_tables_perm [OF all d])
  then have "canonical \<in> set all"
    using map_of_SomeD [OF r(2)] mset_eq_setD [OF perm] by force
  then have inside: "set (real_occurrences su canonical) \<subseteq> set ?occ" by auto
  have "mset ?occ = mset (concat (map (real_occurrences su) (map snd (root_tables ?bank))))"
    by (rule mset_concat_perm) (simp only: mset_map perm)
  moreover have "count (mset (concat (map (real_occurrences su) tss))) b
      = (\<Sum>ts\<leftarrow>tss. count (mset (real_occurrences su ts)) b)" for tss b
    by (induction tss) simp_all
  ultimately have "count (mset ?occ) b
      = (\<Sum>ts\<leftarrow>map snd (root_tables ?bank). count (mset (real_occurrences su ts)) b)" for b
    by (simp only:)
  moreover have "of_bool (b \<in> set (real_occurrences su canonical) \<and> b \<notin> {} \<and> b \<in> set ?occ)
      = (of_bool (b \<in> set (real_occurrences su canonical)) :: nat)" for b
    by (rule arg_cong [of _ _ of_bool]) (use inside in blast)
  ultimately show thesis
    using surplus_occurrences_count [of "set (real_occurrences su canonical)" "{}" ?occ]
    by (intro that [OF r s']) (simp only:)
qed

end
