(* ===== verification/Allocator_Liveness.thy ===== *)
theory Allocator_Liveness
  imports Allocator_Ownership
begin

section \<open>A reservation that cannot fail\<close>

text \<open>
  The allocator asks for exactly the blocks it consumes: with a pool that hands them out and
  identifiers short enough for the derived names, every step of \<open>reserve\<close> succeeds.
\<close>

subsection \<open>The number of blocks asked for\<close>

lemma extend_total:
  assumes "canonical_capacity_count su gs = Inr n" and "n \<le> length reserved"
  shows "\<exists>ts. extend_canonical_capacity su gs reserved = Inr (ts, drop n reserved)"
  using assms
proof (induction gs arbitrary: n reserved)
  case (Cons gt gs)
  obtain g table where gt: "gt = (g, table)" by fastforce
  show ?case
  proof (cases "topology_kind g = Mamba")
    case True
    with Cons gt obtain ts where "extend_canonical_capacity su gs reserved = Inr (ts, drop n reserved)"
      by fastforce
    then show ?thesis using True gt by simp
  next
    case False
    let ?k = "required_pages su (topology_block_size g) - length table"
    from Cons.prems(1) gt False obtain m where m: "canonical_capacity_count su gs = Inr m" "n = m + ?k"
      "history_pages su (topology_block_size g) \<le> length table"
      by (auto simp: result_simps split: if_splits)
    have "m \<le> length (drop ?k reserved)" using Cons.prems(2) m(2) by simp
    from Cons.IH [OF m(1) this] obtain ts where
      "extend_canonical_capacity su gs (drop ?k reserved) = Inr (ts, drop m (drop ?k reserved))"
      by blast
    moreover have "append_reserved ?k table reserved = Inr (table @ take ?k reserved, drop ?k reserved)"
      using Cons.prems(2) m(2) by (simp add: append_reserved_iff)
    ultimately show ?thesis using False gt m(2,3) by (simp add: add.commute)
  qed
qed simp

definition group_need :: "'w allocator_setup \<Rightarrow> group_topology \<Rightarrow> nat" where
  "group_need su g =
     (if topology_kind g = Mamba then 1 else length (write_indices su (topology_block_size g)))"

definition writable_in :: "'w allocator_setup \<Rightarrow> group_topology \<Rightarrow> int list \<Rightarrow> bool" where
  "writable_in su g table \<longleftrightarrow>
     (if topology_kind g = Mamba then length (filter (\<lambda>b. b \<noteq> null_block su) table) = 1
      else \<forall>i \<in> set (write_indices su (topology_block_size g)). i < length table)"

lemma private_group_total:
  assumes "writable_in su g table" "group_need su g \<le> length reserved" "\<forall>b \<in> set reserved. 0 \<le> b"
  shows "\<exists>table'. private_group su g table reserved
    = Inr (table', take (group_need su g) reserved, drop (group_need su g) reserved)"
proof -
  have m: "topology_kind g = Mamba \<longrightarrow> length (filter (\<lambda>b. b \<noteq> null_block su) table) = 1"
    using assms(1) by (simp add: writable_in_def)
  have "length (written_indexes su g table) = group_need su g"
    using m by (simp add: written_indexes_def group_need_def real_indexes_length)
  moreover have "\<forall>i \<in> set (written_indexes su g table). i < length table"
    using assms(1) by (auto simp: writable_in_def written_indexes_def real_indexes_set split: if_splits)
  ultimately show ?thesis
    using replace_written_total [of "written_indexes su g table" table reserved] assms(2,3)
    by (simp add: private_group_eq [OF m])
qed

lemma build_total:
  assumes "\<forall>(g, table) \<in> set gs. writable_in su g table"
    and "sum_list (map (group_need su \<circ> fst) gs) \<le> length reserved" and "\<forall>b \<in> set reserved. 0 \<le> b"
  shows "\<exists>ts ws. build_private_tables su gs reserved
    = Inr (ts, ws, drop (sum_list (map (group_need su \<circ> fst) gs)) reserved)"
  using assms
proof (induction gs arbitrary: reserved)
  case (Cons gt gs)
  obtain g table where gt: "gt = (g, table)" by fastforce
  obtain table' where one: "private_group su g table reserved
      = Inr (table', take (group_need su g) reserved, drop (group_need su g) reserved)"
    using private_group_total [of su g table reserved] Cons.prems gt by auto
  have "\<forall>(g, table) \<in> set gs. writable_in su g table" using Cons.prems(1) by simp
  moreover have "sum_list (map (group_need su \<circ> fst) gs) \<le> length (drop (group_need su g) reserved)"
    using Cons.prems(2) gt by (simp add: o_def)
  moreover have "\<forall>b \<in> set (drop (group_need su g) reserved). 0 \<le> b"
    using Cons.prems(3) by (auto dest: in_set_dropD)
  ultimately have "\<exists>ts ws. build_private_tables su gs (drop (group_need su g) reserved)
      = Inr (ts, ws, drop (sum_list (map (group_need su \<circ> fst) gs)) (drop (group_need su g) reserved))"
    by (rule Cons.IH)
  then show ?case using one gt by (auto simp: add.commute o_def)
qed simp

lemma private_block_count_need:
  assumes "map topology_kind (alloc_topology su) = expected_kinds"
  shows "sum_list (map (group_need su) (alloc_topology su)) = private_block_count su"
proof -
  let ?t = "alloc_topology su"
  have kinds: "map topology_kind (take MAMBA_GROUPS ?t) = replicate MAMBA_GROUPS Mamba"
    "Mamba \<notin> set (map topology_kind (drop MAMBA_GROUPS ?t))"
    by (simp_all only: take_map [symmetric] drop_map [symmetric] assms)
       (simp_all add: expected_kinds_def)
  have one: "map (group_need su) (take MAMBA_GROUPS ?t) = replicate MAMBA_GROUPS 1"
  proof (rule nth_equalityI)
    have l: "length (take MAMBA_GROUPS ?t) = MAMBA_GROUPS"
      using arg_cong [OF kinds(1), of length] by simp
    then show "length (map (group_need su) (take MAMBA_GROUPS ?t)) = length (replicate MAMBA_GROUPS 1)"
      by simp
    fix i assume i: "i < length (map (group_need su) (take MAMBA_GROUPS ?t))"
    have "map topology_kind (take MAMBA_GROUPS ?t) ! i = Mamba" using i l kinds(1) by simp
    then have "topology_kind (take MAMBA_GROUPS ?t ! i) = Mamba" using i by simp
    then show "map (group_need su) (take MAMBA_GROUPS ?t) ! i = replicate MAMBA_GROUPS 1 ! i"
      using i l by (simp add: group_need_def)
  qed
  have two: "map (group_need su) (drop MAMBA_GROUPS ?t)
      = map (\<lambda>g. length (write_indices su (topology_block_size g))) (drop MAMBA_GROUPS ?t)"
    using kinds(2) by (auto simp: group_need_def image_iff)
  have "sum_list (map (group_need su) (take MAMBA_GROUPS ?t @ drop MAMBA_GROUPS ?t))
      = private_block_count su"
    by (simp only: map_append sum_list_append one two private_block_count_def) (simp add: sum_list_replicate)
  then show ?thesis by simp
qed

subsection \<open>Valid physical roots\<close>

text \<open>Tables of 69 groups whose real blocks are all different, with one block per Mamba group.\<close>

definition root_tables_ok :: "'w allocator_setup \<Rightarrow> block_tables \<Rightarrow> bool" where
  "root_tables_ok su ts \<longleftrightarrow>
     length ts = TOTAL_GROUPS \<and> distinct (real_occurrences su ts)
     \<and> (\<forall>t \<in> set ts. \<forall>b \<in> set t. 0 \<le> b)
     \<and> (\<forall>i < MAMBA_GROUPS. length (filter (\<lambda>b. b \<noteq> null_block su) (ts ! i)) = 1)"

lemma mamba_blocks_total:
  assumes "\<forall>t \<in> set ts. length (filter (\<lambda>b. b \<noteq> null_block su) t) = 1 \<and> (\<forall>b \<in> set t. 0 \<le> b)"
  shows "map_result (mamba_block su) ts = Inr (real_occurrences su ts) \<and> length (real_occurrences su ts) = length ts"
  using assms
proof (induction ts)
  case (Cons t ts)
  then obtain b where b: "filter (\<lambda>b. b \<noteq> null_block su) t = [b]"
    by (auto simp: length_Suc_conv)
  then have "b \<in> set (filter (\<lambda>b. b \<noteq> null_block su) t)" by simp
  then have "0 \<le> b" using Cons.prems by simp
  then show ?case using Cons b by (simp add: mamba_block_def block_id_def)
qed simp

lemma block_ids_total2:
  "\<forall>t \<in> set ts. \<forall>b \<in> set t. 0 \<le> b \<Longrightarrow> map_result (map_result block_id) ts = Inr ts"
  by (induction ts) (simp_all add: block_ids_total)

lemma block_groups_total:
  "ts \<noteq> [] \<Longrightarrow> \<forall>t \<in> set ts. \<forall>b \<in> set t. 0 \<le> b \<Longrightarrow>
     \<forall>t \<in> set ts. distinct (filter (\<lambda>b. b \<noteq> 0) t) \<Longrightarrow> block_groups ts = Inr ts"
  by (auto simp: block_groups_def result_simps list_ex_iff)
     (metis (no_types, lifting) check_all_Inr_iff linorder_not_less)

lemma real_occurrences_append:
  "real_occurrences su (xs @ ys) = real_occurrences su xs @ real_occurrences su ys"
  by (simp add: real_occurrences_def)

lemma distinct_real_member:
  "distinct (real_occurrences su ts) \<Longrightarrow> t \<in> set ts \<Longrightarrow> distinct (filter (\<lambda>b. b \<noteq> null_block su) t)"
  by (metis distinct_real_nth in_set_conv_nth)

definition ids_fit :: "'w allocator_setup \<Rightarrow> string \<Rightarrow> bool" where
  "ids_fit su root \<longleftrightarrow>
     authority_identifier root = Inr () \<and> authority_identifier (root @ '':position'') = Inr ()
     \<and> authority_identifier (root @ '':decoding'') = Inr ()
     \<and> authority_identifier (alloc_request su) = Inr ()"

lemma physical_root_total:
  assumes ok: "root_tables_ok su ts" and null: "null_block su = 0" and ids: "ids_fit su root"
    and gen: "0 \<le> alloc_generation su"
    and w: "length ws = TOTAL_GROUPS" "\<forall>i < TOTAL_GROUPS. set (ws ! i) \<subseteq> set (ts ! i) \<and> distinct (ws ! i)"
  shows "\<exists>r. physical_root_of su root ts ws = Inr r"
proof -
  have len: "length ts = TOTAL_GROUPS" and d: "distinct (real_occurrences su ts)"
    and pos: "\<forall>t \<in> set ts. \<forall>b \<in> set t. 0 \<le> b"
    and mamba: "\<forall>i < MAMBA_GROUPS. length (filter (\<lambda>b. b \<noteq> null_block su) (ts ! i)) = 1"
    using ok by (auto simp: root_tables_ok_def)
  let ?mamba = "take MAMBA_GROUPS ts" and ?target = "take TARGET_ATTENTION_GROUPS (drop MAMBA_GROUPS ts)"
    and ?draft = "drop (MAMBA_GROUPS + TARGET_ATTENTION_GROUPS) ts"
  let ?wt = "take TARGET_ATTENTION_GROUPS (drop MAMBA_GROUPS ws)"
    and ?wd = "drop (MAMBA_GROUPS + TARGET_ATTENTION_GROUPS) ws"
  have sub: "set ?mamba \<subseteq> set ts" "set ?target \<subseteq> set ts" "set ?draft \<subseteq> set ts"
    by (auto dest: in_set_takeD in_set_dropD)
  have lm: "length ?mamba = MAMBA_GROUPS" using len by (simp add: TOTAL_GROUPS_def)
  have "\<forall>t \<in> set ?mamba. length (filter (\<lambda>b. b \<noteq> null_block su) t) = 1 \<and> (\<forall>b \<in> set t. 0 \<le> b)"
    using mamba pos sub(1) lm by (auto simp: in_set_conv_nth)
  note slots = mamba_blocks_total [OF this]
  have "distinct (real_occurrences su (?mamba @ drop MAMBA_GROUPS ts))" using d by simp
  then have sd: "distinct (real_occurrences su ?mamba)" by (simp only: real_occurrences_append distinct_append)
  have sp: "\<forall>v \<in> set (real_occurrences su ?mamba). 0 \<le> v"
    using pos sub(1) by (auto simp: real_occurrences_set)
  have wpos: "\<forall>t \<in> set ws. (\<forall>b \<in> set t. 0 \<le> b) \<and> distinct t"
  proof
    fix t assume "t \<in> set ws"
    then obtain i where i: "i < TOTAL_GROUPS" "t = ws ! i" using w(1) by (auto simp: in_set_conv_nth)
    then have "ts ! i \<in> set ts" "set t \<subseteq> set (ts ! i)" "distinct t" using w(2) len by auto
    then show "(\<forall>b \<in> set t. 0 \<le> b) \<and> distinct t" using pos by blast
  qed
  have wsub: "set ?wt \<subseteq> set ws" "set ?wd \<subseteq> set ws" by (auto dest: in_set_takeD in_set_dropD)
  note sl = group_slices [OF len] and wl = group_slices [OF w(1)]
  have ne: "?target \<noteq> []" "?draft \<noteq> []" "?wt \<noteq> []" "?wd \<noteq> []"
    using sl(1,2) wl(1,2) by (auto simp: group_counts)
  have groups: "block_groups ?target = Inr ?target" "block_groups ?draft = Inr ?draft"
    "block_groups ?wt = Inr ?wt" "block_groups ?wd = Inr ?wd"
    using sub wsub pos wpos distinct_real_member [OF d] null
    by (intro block_groups_total ne; auto)+
  have inside: "writable_inside ?target ?wt = Inr ()" "writable_inside ?draft ?wd = Inr ()"
    using sl wl w(2) [THEN spec, THEN mp, THEN conjunct1, THEN subsetD]
    by (auto simp: writable_inside_def result_simps set_zip group_counts)
  have ids_ok: "map_result (map_result block_id) ?target = Inr ?target"
    "map_result (map_result block_id) ?draft = Inr ?draft"
    using pos sub by (intro block_ids_total2; blast)+
  have counts: "length ?target = TARGET_KV_LAYER_COUNT" "length ?draft = DRAFT_LAYER_COUNT"
    "length (real_occurrences su ?mamba) = GDN_LAYER_COUNT"
    using slots sl(1,2) lm by (simp_all add: group_counts layer_counts)
  have checks: "slots_check (real_occurrences su ?mamba) = Inr ()"
    using sd sp by (simp add: slots_check_def result_simps)
  show ?thesis
    unfolding physical_root_of_def
    using slots ids_ok ids gen groups inside counts checks sl(1,2) wl(1,2)
    by (simp add: physical_root_check_def ids_fit_def)
qed

subsection \<open>The tables of the three roots\<close>

lemma tables_ok_root:
  assumes "tables_ok su ts" and "null_block su = 0"
  shows "root_tables_ok su ts"
proof -
  have "0 \<le> b" if "t \<in> set ts" "b \<in> set t" for t b
    using assms that by (cases "b = 0") (auto simp: tables_ok_def real_occurrences_set)
  then show ?thesis using assms(1) by (simp add: tables_ok_def root_tables_ok_def)
qed

lemma real_indexes_cong:
  "length xs = length ys \<Longrightarrow> \<forall>j < length xs. (xs ! j = null) = (ys ! j = null) \<Longrightarrow>
     real_indexes null k xs = real_indexes null k ys"
proof (induction xs ys arbitrary: k rule: list_induct2)
  case (Cons x xs y ys)
  from Cons.prems have "(x = null) = (y = null)" "\<forall>j < length xs. (xs ! j = null) = (ys ! j = null)"
    by fastforce+
  then show ?case using Cons.IH by simp
qed simp

lemma build_group_mset:
  assumes "build_private_tables su gs reserved = Inr (ts, ws, left)" and "i < length gs"
  shows "\<exists>old. mset (ts ! i) + mset old = mset (snd (gs ! i)) + mset (ws ! i) \<and> set old \<subseteq> set (snd (gs ! i))"
  using assms
proof (induction gs arbitrary: i reserved ts ws left)
  case (Cons gt gs)
  obtain g table where gt: "gt = (g, table)" by fastforce
  with Cons.prems(1) obtain t' w reserved' ts' ws' where
    g: "private_group su g table reserved = Inr (t', w, reserved')"
    and rest: "build_private_tables su gs reserved' = Inr (ts', ws', left)"
    and eq: "ts = t' # ts'" "ws = w # ws'"
    by (auto simp: result_simps)
  show ?case
  proof (cases i)
    case 0
    then show ?thesis using private_group_mset [OF g] eq gt by simp
  next
    case (Suc j)
    then show ?thesis using Cons.IH [OF rest, of j] Cons.prems(2) eq gt by simp
  qed
qed simp

lemma private_root_tables_ok:
  assumes ok: "tables_ok su ts" and null: "null_block su = 0"
    and b: "build_private_tables su (zip (alloc_topology su) ts) reserved = Inr (ps, ws, left)"
    and fresh: "fresh_for su (concat ws) ts"
  shows "root_tables_ok su ps"
    and "\<forall>i < TOTAL_GROUPS. set (ws ! i) \<subseteq> set (ps ! i) \<and> distinct (ws ! i)"
proof -
  note kinds = tables_ok_kinds [OF ok] and built = build_Inr(2) [OF b]
  note facts = private_group_facts [OF ok built fresh]
  have lt: "length ts = TOTAL_GROUPS" using ok by (simp add: tables_ok_def)
  have l: "length ps = TOTAL_GROUPS" "length ws = TOTAL_GROUPS"
    using facts(1,2) [of 0] by (simp_all add: group_counts)
  have snds: "map snd (zip (alloc_topology su) ts) = ts" using kinds(1) lt by simp
  have over: "overwrites (set (written_indexes su (alloc_topology su ! i) (ts ! i))) (ts ! i) (ws ! i) (ps ! i)"
    if "i < TOTAL_GROUPS" for i
    using built that lt kinds(1) by (simp add: built_def)
  have fr: "distinct (concat ws)" "\<forall>b \<in> set (concat ws). 0 \<le> b \<and> b \<noteq> null_block su"
    "set (concat ws) \<inter> set (concat ts) = {}"
    using fresh unfolding fresh_for_def by blast+
  have wi: "set (ws ! i) \<subseteq> set (concat ws)" if "i < TOTAL_GROUPS" for i
    using that l(2) by (simp only: nth_concat_subset)
  obtain old where old: "mset (real_occurrences su ps) + mset old
      = mset (real_occurrences su ts) + mset (concat ws)"
    using build_mset [OF b] fr(2) by (auto simp: snds)
  have "distinct (real_occurrences su ts @ concat ws)"
    using ok fr(1,3) by (auto simp: tables_ok_def real_occurrences_set)
  then have "distinct (real_occurrences su ps @ old)"
    using old by (metis mset_append mset_eq_imp_distinct_iff)
  then have d: "distinct (real_occurrences su ps)" by simp
  have pos: "\<forall>t \<in> set ps. \<forall>b \<in> set t. 0 \<le> b"
  proof (intro ballI)
    fix t b assume "t \<in> set ps" "b \<in> set t"
    then obtain i where i: "i < TOTAL_GROUPS" "b \<in> set (ps ! i)" using l by (auto simp: in_set_conv_nth)
    from facts(4) [OF i(1)] i(2) have "b \<in> set (ts ! i) \<or> b \<in> set (ws ! i)" by blast
    moreover have "ts ! i \<in> set ts" using i(1) lt by simp
    then have "0 \<le> c" if "c \<in> set (ts ! i)" for c
      using that tables_ok_root [OF ok null] unfolding root_tables_ok_def by blast
    ultimately show "0 \<le> b" using wi [OF i(1)] fr(2) by blast
  qed
  have mamba: "length (filter (\<lambda>b. b \<noteq> null_block su) (ps ! i)) = 1" if i: "i < MAMBA_GROUPS" for i
  proof -
    have t: "i < TOTAL_GROUPS" using i by (simp add: TOTAL_GROUPS_def)
    have m: "topology_kind (alloc_topology su ! i) = Mamba" using kinds(2) [OF t] i by simp
    have o: "overwrites (set (real_indexes (null_block su) 0 (ts ! i))) (ts ! i) (ws ! i) (ps ! i)"
      using over [OF t] m by (simp add: written_indexes_def)
    have "\<forall>j < length (ps ! i). (ps ! i ! j = null_block su) = (ts ! i ! j = null_block su)"
      using o wi [OF t] fr(2) by (fastforce simp: overwrites_def real_indexes_set)
    then have "real_indexes (null_block su) 0 (ps ! i) = real_indexes (null_block su) 0 (ts ! i)"
      using o by (intro real_indexes_cong) (simp_all add: overwrites_def)
    then have "length (filter (\<lambda>b. b \<noteq> null_block su) (ps ! i))
        = length (filter (\<lambda>b. b \<noteq> null_block su) (ts ! i))"
      by (metis real_indexes_length)
    then show ?thesis using ok i by (simp add: tables_ok_def)
  qed
  show "root_tables_ok su ps" using l d pos mamba by (simp add: root_tables_ok_def)
  show "\<forall>i < TOTAL_GROUPS. set (ws ! i) \<subseteq> set (ps ! i) \<and> distinct (ws ! i)"
  proof (intro allI impI conjI)
    fix i assume i: "i < TOTAL_GROUPS"
    then show "distinct (ws ! i)" using fr(1) l(2) by (simp add: distinct_concat_iff)
    show "set (ws ! i) \<subseteq> set (ps ! i)"
    proof
      fix c assume c: "c \<in> set (ws ! i)"
      obtain old where old: "mset (ps ! i) + mset old = mset (ts ! i) + mset (ws ! i)" "set old \<subseteq> set (ts ! i)"
        using build_group_mset [OF b, of i] i kinds(1) lt by auto
      have "set (ps ! i) \<union> set old = set (ts ! i) \<union> set (ws ! i)"
        using arg_cong [OF old(1), of set_mset] by simp
      then show "c \<in> set (ps ! i)" using c facts(3) [OF i] old(2) by blast
    qed
  qed
qed

subsection \<open>The reservation succeeds\<close>

text \<open>A pool that hands out blocks and touches them without raising.\<close>

definition pool_willing :: "'w block_pool \<Rightarrow> bool" where
  "pool_willing p \<longleftrightarrow>
     (\<forall>n w. \<exists>bs w'. get_new_blocks p n w = (Inr bs, w')) \<and> (\<forall>b w. \<exists>w'. touch_block p b w = (Inr (), w'))"

lemma acquire_each_total:
  assumes p: "pool_ok (pool su) (null_block su)" and "pool_willing (pool su)"
    and "\<forall>b \<in> set bs. 0 < ref_cnt (pool su) b w"
  shows "\<exists>w'. acquire_each su bs (w, acq) = (Inr (), (w', acq @ bs))
    \<and> (\<forall>c. ref_cnt (pool su) c w \<le> ref_cnt (pool su) c w')"
  using assms(3)
proof (induction bs arbitrary: w acq)
  case (Cons b bs)
  obtain w1 where t: "touch_block (pool su) b w = (Inr (), w1)"
    using assms(2) unfolding pool_willing_def by blast
  note more = pool_okD(3) [OF p t]
  have one: "acquire_block su b (w, acq) = (Inr (), (w1, acq @ [b]))"
    using Cons.prems t more [of b] by (simp add: acquire_block_def)
  have grows: "ref_cnt (pool su) c w \<le> ref_cnt (pool su) c w1" for c
    using more [of c] by simp
  then have "\<forall>b \<in> set bs. 0 < ref_cnt (pool su) b w1"
    using Cons.prems by (meson list.set_intros(2) order_less_le_trans)
  from Cons.IH [OF this, of "acq @ [b]"] obtain w' where
    "acquire_each su bs (w1, acq @ [b]) = (Inr (), (w', acq @ b # bs))"
    "\<forall>c. ref_cnt (pool su) c w1 \<le> ref_cnt (pool su) c w'" by auto
  then show ?case using one grows by (auto simp: sbind_def intro: order_trans)
qed simp

lemma shared_distinct:
  "root_tables_ok su ps \<Longrightarrow> distinct (shared_blocks su ts ps)"
proof -
  assume "root_tables_ok su ps"
  then have "distinct (filter (\<lambda>b. b \<in> set (concat ts)) (real_occurrences su ps))"
    by (simp only: root_tables_ok_def distinct_filter)
  then show ?thesis by (simp add: shared_blocks_def real_occurrences_def conj_commute)
qed

lemma acquire_shared_total:
  assumes "pool_ok (pool su) (null_block su)" "pool_willing (pool su)" "root_tables_ok su ps"
    and "\<forall>b \<in> set (real_occurrences su ts). 0 < ref_cnt (pool su) b w"
  shows "\<exists>w' acq'. acquire_shared_blocks su ts ps (w, acq) = (Inr (), (w', acq'))
    \<and> (\<forall>c. ref_cnt (pool su) c w \<le> ref_cnt (pool su) c w')"
proof -
  have "set (shared_blocks su ts ps) \<subseteq> set (real_occurrences su ts)"
    by (auto simp: shared_blocks_def real_occurrences_def)
  then have "\<forall>b \<in> set (shared_blocks su ts ps). 0 < ref_cnt (pool su) b w" using assms(4) by blast
  from acquire_each_total [OF assms(1,2) this, of acq] shared_distinct [OF assms(3)]
  show ?thesis by (auto simp: acquire_shared_blocks_def Let_def sbind_def assert_that_def)
qed

text \<open>The writable blocks of the canonical root.\<close>

lemma canonical_writable_total:
  assumes ok: "tables_ok su ts" and null: "null_block su = 0"
  shows "\<exists>ws. map_result (\<lambda>(g, t). canonical_writable su g t) (zip (alloc_topology su) ts) = Inr ws
    \<and> length ws = TOTAL_GROUPS
    \<and> (\<forall>i < TOTAL_GROUPS. set (ws ! i) \<subseteq> set (ts ! i) \<and> distinct (ws ! i))"
proof -
  let ?real = "\<lambda>b. b \<noteq> null_block su"
  let ?w = "\<lambda>(g, t). if topology_kind g = Mamba then filter ?real t
    else filter ?real (map ((!) t) (filter (\<lambda>i. i < length t) (write_indices su (topology_block_size g))))"
  let ?gs = "zip (alloc_topology su) ts"
  note kinds = tables_ok_kinds [OF ok]
  have rt: "root_tables_ok su ts" by (rule tables_ok_root [OF ok null])
  have lt: "length ts = TOTAL_GROUPS" using ok by (simp add: tables_ok_def)
  have sub: "set (?w (g, t)) \<subseteq> set t" for g t by auto
  have each: "canonical_writable su g t = Inr (?w (g, t))" if "t \<in> set ts" for g t
  proof -
    have "\<forall>b \<in> set (?w (g, t)). 0 \<le> b"
      using sub [of g t] that rt unfolding root_tables_ok_def by blast
    then show ?thesis by (auto simp: canonical_writable_def block_ids_total split: if_splits)
  qed
  have all: "map_result f gs = Inr (map h gs)" if "\<forall>x \<in> set gs. f x = Inr (h x)"
    for f :: "group_topology \<times> int list \<Rightarrow> table_error + int list" and h gs
    using that by (induction gs) simp_all
  have "map_result (\<lambda>(g, t). canonical_writable su g t) ?gs = Inr (map ?w ?gs)"
  proof (rule all, rule ballI)
    fix x assume "x \<in> set ?gs"
    then obtain g t where x: "x = (g, t)" "t \<in> set ts" by (metis prod.exhaust set_zip_rightD)
    show "(case x of (g, t) \<Rightarrow> canonical_writable su g t) = Inr (?w x)"
      unfolding x(1) prod.case using each [OF x(2)] by simp
  qed
  moreover have "distinct (map ?w ?gs ! i)" if i: "i < TOTAL_GROUPS" for i
  proof -
    let ?t = "ts ! i" and ?g = "alloc_topology su ! i"
    have d: "distinct (filter ?real ?t)"
      using i lt rt by (intro distinct_real_nth) (simp_all add: root_tables_ok_def)
    have "distinct (filter ?real (map ((!) ?t) is))" if "distinct is" "\<forall>j \<in> set is. j < length ?t" for "is"
      using that
    proof (induction "is")
      case (Cons j "is")
      have ih: "distinct (filter ?real (map ((!) ?t) is))" using Cons by simp
      have new: "?t ! j \<notin> set (map ((!) ?t) is)" if "?real (?t ! j)"
      proof
        assume "?t ! j \<in> set (map ((!) ?t) is)"
        then obtain k where k: "k \<in> set is" "?t ! j = ?t ! k" by auto
        have "j = k"
          by (rule filter_distinct_nth [OF d _ _ that k(2)]) (use Cons.prems k in auto)
        then show False using k Cons.prems by simp
      qed
      show ?case using ih new by auto
    qed simp
    then have "distinct (?w (?g, ?t))" using d by (simp add: write_indices_distinct)
    then show ?thesis using i lt kinds(1) by simp
  qed
  moreover have "set (map ?w ?gs ! i) \<subseteq> set (ts ! i)" if "i < TOTAL_GROUPS" for i
  proof -
    have eq: "map ?w ?gs ! i = ?w (alloc_topology su ! i, ts ! i)" using that lt kinds(1) by simp
    show ?thesis unfolding eq by (rule sub)
  qed
  ultimately show ?thesis using lt kinds(1) by (intro exI [of _ "map ?w ?gs"]) simp
qed

text \<open>
  \<open>reservable\<close>: the null block is block 0, the committed history of every attention group is
  in its table, and the identifiers leave room for the names derived from them.
\<close>

definition reservable :: "'w allocator_setup \<Rightarrow> block_tables \<Rightarrow> bool" where
  "reservable su tables \<longleftrightarrow>
     null_block su = 0 \<and> 0 \<le> alloc_generation su \<and> alloc_request su \<noteq> []
     \<and> (case alloc_root_ids su of (i0, i1, i2) \<Rightarrow>
          distinct [i0, i1, i2] \<and> (\<forall>i \<in> {i0, i1, i2}. table_root_id i = Inr () \<and> ids_fit su i))
     \<and> (\<exists>n. canonical_capacity_count su (zip (alloc_topology su) tables) = Inr n)"

lemma tables_writable:
  assumes ok: "tables_ok su ts"
    and cap: "\<And>i. MAMBA_GROUPS \<le> i \<Longrightarrow> i < TOTAL_GROUPS \<Longrightarrow>
      required_pages su (topology_block_size (alloc_topology su ! i)) \<le> length (ts ! i)"
  shows "\<forall>(g, table) \<in> set (zip (alloc_topology su) ts). writable_in su g table"
proof (rule ballI)
  fix x assume "x \<in> set (zip (alloc_topology su) ts)"
  note kinds = tables_ok_kinds [OF ok]
  have lt: "length ts = TOTAL_GROUPS" using ok by (simp add: tables_ok_def)
  from \<open>x \<in> _\<close> obtain i where i: "i < TOTAL_GROUPS" "x = (alloc_topology su ! i, ts ! i)"
    using lt kinds(1) by (auto simp: set_zip)
  have "writable_in su (alloc_topology su ! i) (ts ! i)"
  proof (cases "i < MAMBA_GROUPS")
    case True
    then show ?thesis using ok kinds(2) [OF i(1)] by (simp add: writable_in_def tables_ok_def)
  next
    case False
    let ?sz = "topology_block_size (alloc_topology su ! i)"
    have pos: "0 < ?sz" "0 < alloc_width su"
      using ok i(1) kinds(1) by (auto simp: tables_ok_def)
    have "\<forall>j \<in> set (write_indices su ?sz). j < length (ts ! i)"
      using write_indices_facts(2) [OF pos] cap [of i] False i(1) by (meson not_le order_less_le_trans)
    then show ?thesis using False kinds(2) [OF i(1)] by (simp add: writable_in_def)
  qed
  then show "case x of (g, table) \<Rightarrow> writable_in su g table" by (simp add: i(2))
qed

lemma make_allocation_total:
  assumes res: "reservable su tables" and ok: "tables_ok su ts"
    and cand: "root_tables_ok su ct" "length cw = TOTAL_GROUPS"
      "\<forall>i < TOTAL_GROUPS. set (cw ! i) \<subseteq> set (ct ! i) \<and> distinct (cw ! i)"
    and ser: "root_tables_ok su st" "length sw = TOTAL_GROUPS"
      "\<forall>i < TOTAL_GROUPS. set (sw ! i) \<subseteq> set (st ! i) \<and> distinct (sw ! i)"
    and bs: "\<forall>b \<in> set bs. 0 \<le> b"
  shows "\<exists>a. make_allocation su ts (ct, cw) (st, sw) bs = Inr a"
proof -
  obtain i0 i1 i2 where ids: "alloc_root_ids su = (i0, i1, i2)" by (rule prod_cases3)
  have null: "null_block su = 0" and gen: "0 \<le> alloc_generation su" and request: "alloc_request su \<noteq> []"
    and ne: "i0 \<noteq> i1" "i0 \<noteq> i2" "i1 \<noteq> i2"
    and rid: "table_root_id i0 = Inr ()" "table_root_id i1 = Inr ()" "table_root_id i2 = Inr ()"
    and fit: "ids_fit su i0" "ids_fit su i1" "ids_fit su i2"
    using res by (simp_all add: reservable_def ids)
  obtain ws where ws: "map_result (\<lambda>(g, t). canonical_writable su g t) (zip (alloc_topology su) ts) = Inr ws"
    "length ws = TOTAL_GROUPS" "\<forall>i < TOTAL_GROUPS. set (ws ! i) \<subseteq> set (ts ! i) \<and> distinct (ws ! i)"
    using canonical_writable_total [OF ok null] by blast
  obtain r0 where "physical_root_of su i0 ts ws = Inr r0"
    using physical_root_total [OF tables_ok_root [OF ok null] null fit(1) gen ws(2,3)] by blast
  moreover obtain r1 where "physical_root_of su i1 ct cw = Inr r1"
    using physical_root_total [OF cand(1) null fit(2) gen cand(2,3)] by blast
  moreover obtain r2 where "physical_root_of su i2 st sw = Inr r2"
    using physical_root_total [OF ser(1) null fit(3) gen ser(2,3)] by blast
  moreover have "length ts = TOTAL_GROUPS" "length ct = TOTAL_GROUPS" "length st = TOTAL_GROUPS"
    using ok cand(1) ser(1) by (simp_all add: tables_ok_def root_tables_ok_def)
  ultimately show ?thesis
    using ws(1) ne rid request block_ids_total [OF bs]
    by (simp add: make_allocation_def ids new_bank_def normalize_tables_def register_root_def
        sbind_def assert_that_def)
qed

lemma reserve_body_total:
  assumes p: "pool_ok (pool su) (null_block su)" and willing: "pool_willing (pool su)"
    and res: "reservable su tables" and ok: "tables_ok su tables" and ref: "referenced su tables w"
    and n: "canonical_capacity_count su (zip (alloc_topology su) tables) = Inr n"
  shows "\<exists>(a :: 'x private_root_allocation) s'. reserve_body su tables n (w, []) = (Inr a, s')"
proof -
  let ?n = "n + private_block_count su * 2"
  have null: "null_block su = 0" using res by (simp add: reservable_def)
  obtain bs w1 where g: "get_new_blocks (pool su) ?n w = (Inr bs, w1)"
    using willing unfolding pool_willing_def by blast
  note bs = pool_okD(1) [OF p g]
  then have all: "allocate_blocks su ?n (w, []) = (Inr bs, (w1, []))"
    by (simp add: allocate_blocks_def g block_ids_total)
  have fresh: "fresh_for su bs tables" using bs by (intro unreferenced_is_fresh [OF ref]) auto
  obtain ts where ext: "extend_canonical_capacity su (zip (alloc_topology su) tables) bs = Inr (ts, drop n bs)"
    using extend_total [OF n, of bs] bs by auto
  obtain used where used: "bs = used @ drop n bs" and tok: "tables_ok su ts"
    and left: "fresh_for su (drop n bs) ts"
    and m: "mset (real_occurrences su ts) = mset (real_occurrences su tables) + mset used"
    and cap: "\<And>i. MAMBA_GROUPS \<le> i \<Longrightarrow> i < TOTAL_GROUPS \<Longrightarrow>
       required_pages su (topology_block_size (alloc_topology su ! i)) \<le> length (ts ! i)"
    by (rule extended_tables [OF ok fresh ext], rule that, assumption+)
  let ?gs = "zip (alloc_topology su) ts" and ?k = "private_block_count su"
  have lt: "length (alloc_topology su) = length ts"
    using tables_ok_kinds(1) [OF tok] tok by (simp add: tables_ok_def)
  have need: "sum_list (map (group_need su \<circ> fst) ?gs) = ?k"
    using private_block_count_need [of su] tok lt
    by (simp add: tables_ok_def map_map [symmetric] del: map_map)
  note w = tables_writable [OF tok cap]
  have pos: "\<forall>b \<in> set xs. 0 \<le> b" if "set xs \<subseteq> set bs" for xs using that bs by auto
  have "\<exists>ts ws. build_private_tables su ?gs (drop n bs) = Inr (ts, ws, drop ?k (drop n bs))"
    using build_total [OF w, of "drop n bs"] pos [of "drop n bs"] bs
    by (simp add: need set_drop_subset)
  then obtain ct cw where cand: "build_private_tables su ?gs (drop n bs) = Inr (ct, cw, drop ?k (drop n bs))"
    by blast
  have "drop ?k (drop ?k (drop n bs)) = []" using bs by simp
  then have "\<exists>ts ws. build_private_tables su ?gs (drop ?k (drop n bs)) = Inr (ts, ws, [])"
    using build_total [OF w, of "drop ?k (drop n bs)"] pos [of "drop ?k (drop n bs)"] bs
    by (simp add: need set_drop_subset)
  then obtain st sw where ser: "build_private_tables su ?gs (drop ?k (drop n bs)) = Inr (st, sw, [])"
    by blast
  have second: "drop ?k (drop n bs) = concat sw"
    using build_Inr(1) [OF ser] by (simp only: append_Nil2)
  have parts: "drop n bs = concat cw @ concat sw"
    using build_Inr(1) [OF cand] unfolding second .
  have fc: "fresh_for su (concat cw) ts" and fs: "fresh_for su (concat sw) ts"
    using left by (auto simp: fresh_for_def parts)
  note c = private_root_tables_ok [OF tok null cand fc] and s = private_root_tables_ok [OF tok null ser fs]
  have lens: "length cw = TOTAL_GROUPS" "length sw = TOTAL_GROUPS"
    using private_group_facts(2) [OF tok build_Inr(2) [OF cand] fc, of 0]
      private_group_facts(2) [OF tok build_Inr(2) [OF ser] fs, of 0]
    by (simp_all add: group_counts)
  have "set (real_occurrences su ts) = set (real_occurrences su tables) \<union> set used"
    using arg_cong [OF m, of set_mset] by simp
  moreover have "set used \<subseteq> set bs" using used by (metis Un_upper1 set_append)
  moreover have "0 \<le> ref_cnt (pool su) b w" if "b \<in> set bs" for b using bs that by simp
  ultimately have held: "\<forall>b \<in> set (real_occurrences su ts). 0 < ref_cnt (pool su) b w1"
    using ref bs by (auto simp: referenced_def)
  obtain w2 acq2 where a1: "acquire_shared_blocks su ts ct (w1, bs) = (Inr (), (w2, acq2))"
    and grow: "\<forall>x. ref_cnt (pool su) x w1 \<le> ref_cnt (pool su) x w2"
    using acquire_shared_total [OF p willing c(1) held, of bs] by blast
  have "\<forall>b \<in> set (real_occurrences su ts). 0 < ref_cnt (pool su) b w2"
    using held grow by (meson order_less_le_trans)
  then obtain s3 where a2: "acquire_shared_blocks su ts st (w2, acq2) = (Inr (), s3)"
    using acquire_shared_total [OF p willing s(1)] by blast
  obtain a :: "'x private_root_allocation" where "make_allocation su ts (ct, cw) (st, sw) bs = Inr a"
    using make_allocation_total [OF res tok c(1) lens(1) c(2) s(1) lens(2) s(2) pos [OF order_refl]] by blast
  then show ?thesis
    using all ext cand ser a1 a2 by (simp add: reserve_body_def sbind_def assert_that_def)
qed

lemma check_installation_total:
  assumes maps: "request_blocks (alloc_request su) maps = Inr tables" "length maps = TOTAL_GROUPS"
    and bank: "allocated_bank a = \<lparr>bank_request = r, root_tables = (i0, ts) # rest, own_canonical = i0,
       external_getter = None, root_selection = None\<rparr>"
    and prefix: "\<And>i. i < TOTAL_GROUPS \<Longrightarrow> take (length (tables ! i)) (ts ! i) = tables ! i"
  shows "check_installation su x a maps = Inr ()"
proof -
  have one: "(case map_of (maps ! i) (alloc_request su) of
         None \<Rightarrow> Inl KeyMissing
       | Some observed \<Rightarrow>
           rbind (bank_table x (int i) None (allocated_bank a)) (prefix_of_prepared observed)) = Inr ()"
    if i: "i < TOTAL_GROUPS" for i
  proof -
    have "map_of (maps ! i) (alloc_request su) = Some (tables ! i)"
      using map_result_nth [OF maps(1) [unfolded request_blocks_def], of i] i maps(2)
      by (auto split: option.splits)
    moreover have "bank_table x (int i) None (allocated_bank a) = Inr (ts ! i)"
      using i by (simp add: bank bank_table_def bank_tables_def resolve_root_def selected_root_def
          canonical_root_def)
    moreover have "length (tables ! i) \<le> length (ts ! i)"
      using prefix [OF i] by (metis length_take min.cobounded1 min_def)
    ultimately show ?thesis using prefix [OF i] by (simp add: prefix_of_prepared_def)
  qed
  show ?thesis
    unfolding check_installation_def check_all_Inr_iff
    using one maps(2) by (auto simp: in_set_enumerate_eq)
qed

lemma install_total:
  fixes s :: "('w, 'x) allocator"
  assumes p: "pool_ok (pool su) (null_block su)" and willing: "pool_willing (pool su)"
    and f: "fresh_allocator su tables w s" and res: "reservable su tables" and ref: "referenced su tables w"
  shows "\<exists>a s'. install_roots su x s = (Inr a, s')"
proof -
  have fresh: "request_blocks (alloc_request su) (allocator_maps s) = Inr tables" "tables_ok su tables"
    "pool_state s = w" "\<not> installed s" "allocation s = None" "length (allocator_maps s) = TOTAL_GROUPS"
    using f by (simp_all add: fresh_allocator_def)
  obtain n where n: "canonical_capacity_count su (zip (alloc_topology su) tables) = Inr n"
    using res by (auto simp: reservable_def)
  obtain i0 i1 i2 where ids: "alloc_root_ids su = (i0, i1, i2)" by (rule prod_cases3)
  obtain a :: "'x private_root_allocation" and s' where b: "reserve_body su tables n (w, []) = (Inr a, s')"
    using reserve_body_total [OF p willing res fresh(2) ref n] by blast
  obtain w' acq where s': "s' = (w', acq)" by (rule prod.exhaust)
  obtain ts ct st where bank: "allocated_bank a = \<lparr>bank_request = alloc_request su,
       root_tables = [(i0, ts), (i1, ct), (i2, st)], own_canonical = i0,
       external_getter = None, root_selection = None\<rparr>"
    and prefix: "\<And>i. i < TOTAL_GROUPS \<Longrightarrow> take (length (tables ! i)) (ts ! i) = tables ! i"
    by (rule reserved_occurrences [OF p ids fresh(2) ref b], rule that, assumption+)
  have "reserve_roots su s
      = (Inr a, s\<lparr>pool_state := w', allocation := Some a, private_ownership := acq\<rparr>)"
    using fresh n b s' by (simp add: reserve_roots_def sbind_def assert_that_def)
  moreover have "check_installation su x a (allocator_maps s) = Inr ()"
    by (rule check_installation_total [OF fresh(1,6) bank prefix])
  ultimately show ?thesis
    using fresh by (auto simp: install_roots_def sbind_def assert_that_def)
qed

text \<open>What the constructor has already checked, and the history in terms of pages.\<close>

definition history_present :: "'w allocator_setup \<Rightarrow> block_tables \<Rightarrow> bool" where
  "history_present su tables \<longleftrightarrow>
     (\<forall>(g, table) \<in> set (zip (alloc_topology su) tables).
        topology_kind g \<noteq> Mamba \<longrightarrow> history_pages su (topology_block_size g) \<le> length table)"

lemma capacity_count_total:
  "\<forall>(g, table) \<in> set gs. topology_kind g \<noteq> Mamba \<longrightarrow>
     history_pages su (topology_block_size g) \<le> length table \<Longrightarrow>
   \<exists>n. canonical_capacity_count su gs = Inr n"
  by (induction su gs rule: canonical_capacity_count.induct) auto

lemma constructed_reservable:
  assumes "new_allocator p null managers request len gen i0 i1 i2 width w = Inr (su, s)"
    and "null = 0" and "\<forall>i \<in> {i0, i1, i2}. ids_fit su i" and "history_present su tables"
  shows "reservable su tables"
proof -
  have "\<exists>n. canonical_capacity_count su (zip (alloc_topology su) tables) = Inr n"
    using assms(4) by (intro capacity_count_total) (simp add: history_present_def)
  then show ?thesis
    using assms(1-3) by (auto simp: reservable_def new_allocator_def result_simps split: if_splits)
qed

end
