(* ===== verification/Allocator_Properties.thy ===== *)
theory Allocator_Properties
  imports Allocator_Liveness
begin

section \<open>What the root allocator guarantees\<close>

text \<open>
  The properties of the allocator, over any block pool that keeps its documented contract,
  with a small concrete pool on which they are exercised.
\<close>

subsection \<open>A block pool of references taken and given back\<close>

text \<open>
  The state of the pool is the list of references taken and the list of references given
  back; new blocks are numbered above everything that has been seen.
\<close>

type_synonym demo_books = "int list \<times> int list"

definition demo_block_pool :: "demo_books block_pool" where
  "demo_block_pool = \<lparr>
     ref_cnt = (\<lambda>b (taken, given). int (count_list taken b) - int (count_list given b)),
     get_new_blocks = (\<lambda>n (taken, given).
       let start = foldr max (taken @ given) 0 + 1; new = map (\<lambda>i. start + int i) [0..<n]
       in (Inr new, (new @ taken, given))),
     touch_block = (\<lambda>b (taken, given). (Inr (), (b # taken, given))),
     free_blocks = (\<lambda>bs (taken, given). (taken, bs @ given))\<rparr>"

lemma foldr_max_bound: "x \<in> set xs \<Longrightarrow> x \<le> foldr max xs (0 :: int)"
  by (induction xs) auto

lemma foldr_max_nonneg: "0 \<le> foldr max xs (0 :: int)"
  by (induction xs) auto

lemma count_list_fresh: "x \<notin> set xs \<Longrightarrow> count_list xs x = 0"
  by (induction xs) auto

lemma count_list_mset: "count (mset xs) x = count_list xs x"
  by (induction xs) auto

lemma count_list_distinct: "distinct xs \<Longrightarrow> count_list xs x = of_bool (x \<in> set xs)"
  by (induction xs) auto

lemma demo_block_pool_ok: "pool_ok demo_block_pool 0"
  unfolding pool_ok_def
proof (intro conjI)
  show "\<forall>n w bs w'. get_new_blocks demo_block_pool n w = (Inr bs, w') \<longrightarrow>
      length bs = n \<and> distinct bs \<and> (\<forall>b \<in> set bs. 0 \<le> b \<and> b \<noteq> 0 \<and> ref_cnt demo_block_pool b w = 0)
      \<and> (\<forall>b. ref_cnt demo_block_pool b w' = ref_cnt demo_block_pool b w + of_bool (b \<in> set bs))"
  proof (intro allI impI)
    fix n and w :: demo_books and bs w'
    assume g: "get_new_blocks demo_block_pool n w = (Inr bs, w')"
    obtain taken given where w: "w = (taken, given)" by (rule prod.exhaust)
    let ?start = "foldr max (taken @ given) 0 + 1"
    have bs: "bs = map (\<lambda>i. ?start + int i) [0..<n]" and w': "w' = (bs @ taken, given)"
      using g by (auto simp: demo_block_pool_def w Let_def)
    have d: "distinct bs" by (simp add: bs distinct_map inj_on_def)
    have above: "foldr max (taken @ given) 0 < b" if "b \<in> set bs" for b
      using that by (auto simp: bs)
    have "0 \<le> b \<and> b \<noteq> 0 \<and> b \<notin> set taken \<and> b \<notin> set given" if "b \<in> set bs" for b
      using above [OF that] foldr_max_nonneg [of "taken @ given"]
        foldr_max_bound [of b "taken @ given"] by auto
    then show "length bs = n \<and> distinct bs
        \<and> (\<forall>b \<in> set bs. 0 \<le> b \<and> b \<noteq> 0 \<and> ref_cnt demo_block_pool b w = 0)
        \<and> (\<forall>b. ref_cnt demo_block_pool b w' = ref_cnt demo_block_pool b w + of_bool (b \<in> set bs))"
      using d by (simp add: w w' demo_block_pool_def count_list_fresh count_list_distinct) (simp add: bs)
  qed
qed (auto simp: demo_block_pool_def Let_def count_list_mset)

text \<open>
  69 cache groups over one request of 16 tokens: one state block per Mamba group, one page
  per attention group, and a width of two positions, so that a second page has to be added.
\<close>

definition demo_manager :: "nat \<Rightarrow> kv_manager" where
  "demo_manager i = \<lparr>
     manager_class = (if i < 48 then ''MambaManager'' else if i < 64 then ''FullAttentionManager''
                      else ''SlidingWindowManager''),
     kv_cache_group_id = int i, manager_block_size = 16, mamba_cache_mode = ''none'',
     manager_pool = 0, req_to_blocks = [(''other'', [1000]), (''req'', [int i + 1])]\<rparr>"

definition demo_books :: demo_books where
  "demo_books = (map (\<lambda>i. int i + 1) [0..<69], [])"

definition demo_allocator ::
  "table_error + demo_books allocator_setup \<times> (demo_books, unit) allocator" where
  "demo_allocator = new_allocator demo_block_pool 0 (map demo_manager [0..<69]) ''req'' 16 7
     ''root-a'' ''root-b'' ''root-c'' 2 demo_books"

definition demo_setup :: "demo_books allocator_setup" where
  "demo_setup = fst (projr demo_allocator)"

definition demo_unreserved :: "(demo_books, unit) allocator" where
  "demo_unreserved = snd (projr demo_allocator)"

lemma demo_allocator_starts: "demo_allocator = Inr (demo_setup, demo_unreserved)"
proof -
  have "\<not> isl demo_allocator" by code_simp
  then show ?thesis by (cases demo_allocator) (simp_all add: demo_setup_def demo_unreserved_def)
qed

text \<open>Hypotheses of the properties, over the managers the constructor reads.\<close>

definition managers_referenced ::
  "'w block_pool \<Rightarrow> int \<Rightarrow> string \<Rightarrow> kv_manager list \<Rightarrow> 'w \<Rightarrow> bool" where
  "managers_referenced p null request managers w \<longleftrightarrow>
     (\<forall>m \<in> set managers. \<forall>bs. map_of (req_to_blocks m) request = Some bs \<longrightarrow>
        (\<forall>b \<in> set bs. b \<noteq> null \<longrightarrow> 0 < ref_cnt p b w))"

lemma managers_referenced_tables:
  assumes "managers_referenced p null request managers w"
    and "request_blocks request (map req_to_blocks managers) = Inr tables"
    and "pool su = p" "null_block su = null"
  shows "referenced su tables w"
  unfolding referenced_def
proof
  fix b assume "b \<in> set (real_occurrences su tables)"
  then obtain t where "t \<in> set tables" "b \<in> set t" "b \<noteq> null"
    using assms(4) by (auto simp: real_occurrences_set)
  then obtain i where i: "i < length tables" "b \<in> set (tables ! i)" "b \<noteq> null"
    by (auto simp: in_set_conv_nth [of t])
  note r = assms(2) [unfolded request_blocks_def]
  have l: "length tables = length managers" using map_result_length [OF r] by simp
  then have "map_of (req_to_blocks (managers ! i)) request = Some (tables ! i)"
    using map_result_nth [OF r, of i] i(1) by (auto split: option.splits)
  then show "0 < ref_cnt (pool su) b w"
    using assms(1,3) i l unfolding managers_referenced_def by (metis nth_mem)
qed

lemma demo_tables_referenced:
  "managers_referenced demo_block_pool 0 ''req'' (map demo_manager [0..<69]) demo_books"
proof -
  have "list_all (\<lambda>m. case map_of (req_to_blocks m) ''req'' of None \<Rightarrow> True
      | Some bs \<Rightarrow> list_all (\<lambda>b. b = 0 \<or> 0 < ref_cnt demo_block_pool b demo_books) bs)
      (map demo_manager [0..<69])"
    by code_simp
  then show ?thesis by (fastforce simp: managers_referenced_def list_all_iff split: option.splits)
qed

lemma demo_pool_willing: "pool_willing demo_block_pool"
  by (simp add: pool_willing_def demo_block_pool_def split_def Let_def)

definition demo_tables :: block_tables where
  "demo_tables = map (\<lambda>i. [int i + 1]) [0..<69]"

lemma demo_history: "history_present demo_setup demo_tables"
proof -
  have "list_all (\<lambda>(g, table). topology_kind g = Mamba
      \<or> history_pages demo_setup (topology_block_size g) \<le> length table)
      (zip (alloc_topology demo_setup) demo_tables)"
    by code_simp
  then show ?thesis by (auto simp: history_present_def list_all_iff)
qed

lemma demo_ids: "\<forall>i \<in> {''root-a'', ''root-b'', ''root-c''}. ids_fit demo_setup i"
proof -
  have "alloc_request demo_setup = ''req''" by code_simp
  moreover have "list_all (\<lambda>i. authority_identifier i = Inr ()
      \<and> authority_identifier (i @ '':position'') = Inr () \<and> authority_identifier (i @ '':decoding'') = Inr ())
      [''root-a'', ''root-b'', ''root-c''] \<and> authority_identifier ''req'' = Inr ()"
    by code_simp
  ultimately show ?thesis by (simp add: ids_fit_def)
qed

lemma demo_request_blocks:
  "request_blocks ''req'' (map req_to_blocks (map demo_manager [0..<69])) = Inr demo_tables"
  by code_simp

lemma demo_fresh: "fresh_allocator demo_setup demo_tables demo_books demo_unreserved"
proof -
  obtain tables where f: "fresh_allocator demo_setup tables demo_books demo_unreserved"
    and t: "request_blocks ''req'' (map req_to_blocks (map demo_manager [0..<69])) = Inr tables"
    by (rule new_allocator_fresh [OF demo_allocator_starts [unfolded demo_allocator_def]])
  with demo_request_blocks have "tables = demo_tables" by simp
  with f show ?thesis by simp
qed

lemma demo_installs: "\<exists>a s'. install_roots demo_setup () demo_unreserved = (Inr a, s')"
proof -
  have su: "pool demo_setup = demo_block_pool" "null_block demo_setup = 0"
    by (rule new_allocator_fresh [OF demo_allocator_starts [unfolded demo_allocator_def]], assumption)+
  show ?thesis
    by (rule install_total [OF _ _ demo_fresh])
       (simp_all add: su demo_block_pool_ok demo_pool_willing
          constructed_reservable [OF demo_allocator_starts [unfolded demo_allocator_def] HOL.refl
            demo_ids demo_history]
          managers_referenced_tables [OF demo_tables_referenced demo_request_blocks su])
qed

text \<open>The same allocator over a pool that is full.\<close>

definition demo_full_pool :: "demo_books block_pool" where
  "demo_full_pool = demo_block_pool\<lparr>get_new_blocks := \<lambda>n w. (Inl (PoolException ''no free blocks''), w)\<rparr>"

lemma demo_full_pool_ok: "pool_ok demo_full_pool 0"
  using demo_block_pool_ok by (simp add: pool_ok_def demo_full_pool_def)

definition demo_full_setup :: "demo_books allocator_setup" where
  "demo_full_setup = demo_setup\<lparr>pool := demo_full_pool\<rparr>"

lemma demo_full_starts:
  "new_allocator demo_full_pool 0 (map demo_manager [0..<69]) ''req'' 16 7
     ''root-a'' ''root-b'' ''root-c'' 2 demo_books = Inr (demo_full_setup, demo_unreserved)"
proof -
  from demo_allocator_starts obtain topology where
    "validate_topology ''req'' 0 (map demo_manager [0..<69]) = Inr topology"
    "table_root_id ''root-a'' = Inr ()" "table_root_id ''root-b'' = Inr ()" "table_root_id ''root-c'' = Inr ()"
    and su: "demo_setup = \<lparr>pool = demo_block_pool, null_block = 0, alloc_request = ''req'',
       alloc_length = 16, alloc_generation = 7, alloc_root_ids = (''root-a'', ''root-b'', ''root-c''),
       alloc_width = 2, alloc_topology = topology\<rparr>"
    and start: "demo_unreserved = \<lparr>pool_state = demo_books,
       allocator_maps = map req_to_blocks (map demo_manager [0..<69]), installed = False,
       allocation = None, private_ownership = []\<rparr>"
    by (auto simp: demo_allocator_def new_allocator_def result_simps simp del: map_map split: if_splits)
  then show ?thesis
    by (simp add: new_allocator_def demo_full_setup_def MAX_COMMIT_WIDTH_def su start)
qed

lemma demo_full_refuses:
  "install_roots demo_full_setup () demo_unreserved
     = (Inl (PoolRaised (PoolException ''no free blocks'')), demo_unreserved)"
proof -
  have su: "pool demo_setup = demo_block_pool" "null_block demo_setup = 0" "alloc_request demo_setup = ''req''"
    by (rule new_allocator_fresh [OF demo_allocator_starts [unfolded demo_allocator_def]], assumption)+
  have cap: "canonical_capacity_count demo_full_setup gs = canonical_capacity_count demo_setup gs" for gs
    by (induction demo_setup gs rule: canonical_capacity_count.induct)
       (simp_all add: demo_full_setup_def history_pages_def required_pages_def write_indices_def)
  have full: "alloc_request demo_full_setup = alloc_request demo_setup"
    "alloc_topology demo_full_setup = alloc_topology demo_setup"
    by (simp_all add: demo_full_setup_def)
  obtain n where "canonical_capacity_count demo_setup (zip (alloc_topology demo_setup) demo_tables) = Inr n"
    using capacity_count_total [of _ demo_setup] demo_history by (auto simp: history_present_def)
  moreover have "reserve_body demo_full_setup demo_tables n (demo_books, [])
      = (Inl (PoolRaised (PoolException ''no free blocks'')) :: table_error + unit private_root_allocation,
         (demo_books, []))"
    by (simp add: reserve_body_def sbind_def allocate_blocks_def demo_full_setup_def demo_full_pool_def)
  moreover have "request_blocks ''req'' (allocator_maps demo_unreserved) = Inr demo_tables"
    "pool_state demo_unreserved = demo_books" "allocation demo_unreserved = None"
    using demo_fresh su(3) by (simp_all add: fresh_allocator_def)
  ultimately have "reserve_roots demo_full_setup demo_unreserved
      = (Inl (PoolRaised (PoolException ''no free blocks'')), demo_unreserved)"
    using su(3) cap full by (simp add: reserve_roots_def sbind_def assert_that_def)
  then show ?thesis
    using \<open>allocation demo_unreserved = None\<close> by (simp add: install_roots_def sbind_def)
qed

subsection \<open>Properties\<close>

text \<open>
  C20: Liveness and exact accounting of the reservation.  When the pool hands out blocks, every
  block of the request is referenced, the committed history is in the tables and the
  identifiers leave room for the derived names, reserving and installing the three roots
  succeeds: the allocator asks for exactly the blocks it uses, so that none of its own
  checks (reservation exhausted or unused, capacity, topology, sharing) can refuse.
\<close>

theorem installation_succeeds:
  assumes "new_allocator p null managers request len gen i0 i1 i2 width w = Inr (su, s)"
    and "pool_ok p null" and "pool_willing p" and "null = 0"
    and "managers_referenced p null request managers w"
    and "request_blocks request (map req_to_blocks managers) = Inr tables"
    and "history_present su tables" and "\<forall>i \<in> {i0, i1, i2}. ids_fit su i"
  shows "\<exists>a s'. install_roots su x s = (Inr a, s') \<and> installed s' \<and> allocation s' = Some a"
proof -
  obtain ts where f: "fresh_allocator su ts w s"
    and t: "request_blocks request (map req_to_blocks managers) = Inr ts"
    and su: "pool su = p" "null_block su = null"
    by (rule new_allocator_fresh [OF assms(1)], rule that, assumption+)
  have p: "pool_ok (pool su) (null_block su)" using assms(2) su by simp
  obtain a s' where i: "install_roots su x s = (Inr a, s')"
    using install_total [OF p _ f, of x] assms(3) su
      constructed_reservable [OF assms(1,4,8,7)] managers_referenced_tables [OF assms(5) t su] t assms(6)
    by auto
  moreover have "installed s' \<and> allocation s' = Some a"
    by (rule install_succeeds [OF p f i]) simp
  ultimately show ?thesis by blast
qed

theorem installation_succeeds_witness:
  "\<exists>a s'. install_roots demo_setup () demo_unreserved = (Inr a, s') \<and> installed s' \<and> allocation s' = Some a"
  by (rule installation_succeeds [OF demo_allocator_starts [unfolded demo_allocator_def]
        demo_block_pool_ok demo_pool_willing HOL.refl demo_tables_referenced demo_request_blocks
        demo_history demo_ids])

text \<open>
  C18: Isolation of what is reserved.  The three physical roots an installation hands to the
  scheduler authority are pairwise disjoint in everything writable: the validation the
  authority makes of its root set succeeds, each root is valid, and all three belong to the
  request and the allocator generation the allocator was built for.
\<close>

theorem installed_roots_are_isolated:
  assumes "new_allocator p null managers request len gen i0 i1 i2 width w = Inr (su, s)"
    and "pool_ok p null" and "managers_referenced p null request managers w"
    and "install_roots su x s = (Inr a, s')"
  shows "validate_root_set [canonical_allocated a, candidate_allocated a, serial_allocated a] = Inr ()
    \<and> (\<forall>r \<in> {canonical_allocated a, candidate_allocated a, serial_allocated a}.
         physical_root_check r = Inr () \<and> root_request_id r = request
         \<and> root_allocator_generation r = alloc_generation su)"
proof -
  obtain ts where f: "fresh_allocator su ts w s"
    and t: "request_blocks request (map req_to_blocks managers) = Inr ts"
    and su: "pool su = p" "null_block su = null" "alloc_request su = request"
    by (rule new_allocator_fresh [OF assms(1)], rule that, assumption+)
  have p: "pool_ok (pool su) (null_block su)" using assms(2) su by simp
  have ref: "referenced su ts w" by (rule managers_referenced_tables [OF assms(3) t su(1,2)])
  have ok: "tables_ok su ts" using f by (simp add: fresh_allocator_def)
  obtain n w' acq where b: "reserve_body su ts n (w, []) = (Inr a, (w', acq))"
    by (rule install_succeeds [OF p f assms(4)], rule that)
  have "root_trio (canonical_allocated a) (candidate_allocated a) (serial_allocated a)"
    by (rule reserved_roots_isolated [OF p ok ref b])
  moreover have "\<forall>r \<in> {canonical_allocated a, candidate_allocated a, serial_allocated a}.
         physical_root_check r = Inr () \<and> root_request_id r = request
         \<and> root_allocator_generation r = alloc_generation su"
    using reserved_roots_valid [OF p b] su(3) by simp
  ultimately show ?thesis by (simp only: validate_root_set_three simp_thms)
qed

theorem installed_roots_are_isolated_witness:
  "\<exists>a. validate_root_set [canonical_allocated a, candidate_allocated a, serial_allocated (a :: unit private_root_allocation)]
     = Inr () \<and> root_request_id (serial_allocated a) = ''req''"
proof -
  obtain a s' where i: "install_roots demo_setup () demo_unreserved = (Inr a, s')"
    using demo_installs by blast
  show ?thesis
    using installed_roots_are_isolated [OF demo_allocator_starts [unfolded demo_allocator_def]
        demo_block_pool_ok demo_tables_referenced i] by blast
qed

text \<open>
  A refused installation takes nothing.  Whatever makes reserving or installing raise (the
  pool, a touch that fails half way, a table that changed since the reservation), every block
  has afterwards exactly the references it had before, the request maps are untouched and the
  allocator can be used again.
\<close>

theorem refused_installation_takes_nothing:
  assumes "new_allocator p null managers request len gen i0 i1 i2 width w = Inr (su, s)"
    and "pool_ok p null" and "install_roots su x s = (Inl e, s')"
  shows "(\<forall>b. ref_cnt p b (pool_state s') = ref_cnt p b w)
    \<and> allocator_maps s' = map req_to_blocks managers \<and> \<not> installed s' \<and> allocation s' = None
    \<and> private_ownership s' = []"
proof -
  obtain ts where f: "fresh_allocator su ts w s"
    and su: "pool su = p" "null_block su = null"
    by (rule new_allocator_fresh [OF assms(1)], rule that, assumption+)
  have "allocator_maps s = map req_to_blocks managers"
    by (rule new_allocator_Inr [OF assms(1)]) simp
  moreover have "pool_ok (pool su) (null_block su)" using assms(2) su by simp
  ultimately show ?thesis using install_refused [OF _ f assms(3)] su by simp
qed

theorem refused_installation_takes_nothing_witness:
  "ref_cnt demo_full_pool 69 (pool_state demo_unreserved) = ref_cnt demo_full_pool 69 demo_books
    \<and> allocator_maps demo_unreserved = map req_to_blocks (map demo_manager [0..<69])"
  using refused_installation_takes_nothing [OF demo_full_starts demo_full_pool_ok demo_full_refuses]
  by blast

text \<open>
  C19: The books over the life of the roots.  Roots are installed, rounds run and publish over
  the bank and may use the pool, and when no round is open the allocator is closed: then
  every block has the references it had before the allocator existed, less the one of each
  block of the original tables, plus one for each block of the root that is canonical now,
  whichever of the three it is.  The request maps hold the tables of that root.
\<close>

theorem closing_balances_references:
  assumes "new_allocator p null managers request len gen i0 i1 i2 width w = Inr (su, s)"
    and "pool_ok p null" and "managers_referenced p null request managers w"
    and "install_roots su x s = (Inr a, s')"
    and "root_tables bank = root_tables (allocated_bank a)"
    and "\<forall>b. ref_cnt p b v = ref_cnt p b (pool_state s')"
    and "close_roots su y (s'\<lparr>pool_state := v, allocation := Some (a\<lparr>allocated_bank := bank\<rparr>)\<rparr>) = (Inr (), t)"
  shows "\<exists>tables root canonical. request_blocks request (map req_to_blocks managers) = Inr tables
    \<and> canonical_root y bank = Inr root \<and> map_of (root_tables bank) root = Some canonical
    \<and> (\<forall>b. ref_cnt p b (pool_state t) = ref_cnt p b w
          - of_bool (b \<in> set (real_occurrences su tables))
          + of_bool (b \<in> set (real_occurrences su canonical)))
    \<and> request_blocks request (allocator_maps t) = Inr canonical
    \<and> \<not> installed t \<and> allocation t = None"
proof -
  obtain tables where f: "fresh_allocator su tables w s"
    and tabs: "request_blocks request (map req_to_blocks managers) = Inr tables"
    and su: "pool su = p" "null_block su = null" "alloc_request su = request" "alloc_root_ids su = (i0, i1, i2)"
    by (rule new_allocator_fresh [OF assms(1)], rule that, assumption+)
  have p: "pool_ok (pool su) (null_block su)" using assms(2) su by simp
  have ref: "referenced su tables w" by (rule managers_referenced_tables [OF assms(3) tabs su(1,2)])
  have ok: "tables_ok su tables" using f by (simp add: fresh_allocator_def)
  obtain n w' acq where b: "reserve_body su tables n (w, []) = (Inr a, (w', acq))"
    and s': "s' = s\<lparr>pool_state := w', allocation := Some a, private_ownership := acq, installed := True\<rparr>"
    by (rule install_succeeds [OF p f assms(4)], rule that, assumption+)
  obtain ts ct st where bank: "root_tables (allocated_bank a) = [(i0, ts), (i1, ct), (i2, st)]"
    and ne: "i0 \<noteq> i1" "i0 \<noteq> i2" "i1 \<noteq> i2" and len: "length ts = TOTAL_GROUPS" "length ct = TOTAL_GROUPS" "length st = TOTAL_GROUPS"
    and occ: "mset (real_occurrences su ts) + mset (real_occurrences su ct) + mset (real_occurrences su st)
       = mset (real_occurrences su tables) + mset acq"
    by (rule reserved_occurrences [OF p su(4) ok ref b]) simp
  let ?s = "s'\<lparr>pool_state := v, allocation := Some (a\<lparr>allocated_bank := bank\<rparr>)\<rparr>"
  have roots: "root_tables bank = [(i0, ts), (i1, ct), (i2, st)]" using assms(5) bank by simp
  have d: "distinct (map fst (root_tables (allocated_bank (a\<lparr>allocated_bank := bank\<rparr>))))"
    using roots ne by simp
  obtain root canonical surplus where c: "canonical_root y bank = Inr root"
    "map_of (root_tables bank) root = Some canonical"
    and t: "t = ?s\<lparr>allocator_maps := map2 (\<lambda>m t. AList.update (alloc_request su) t m) (allocator_maps ?s) canonical,
           pool_state := free_blocks (pool su) (rev surplus) (pool_state ?s),
           installed := False, private_ownership := [], allocation := None\<rparr>"
    and freed: "\<And>b. count (mset surplus) b + of_bool (b \<in> set (real_occurrences su canonical))
        = (\<Sum>ts\<leftarrow>map snd (root_tables bank). count (mset (real_occurrences su ts)) b)"
    by (rule close_roots_Inr [OF assms(7) _ d]) simp_all
  have lc: "length canonical = TOTAL_GROUPS"
    using c(2) len by (auto simp: roots split: if_splits)
  have maps: "request_blocks request (allocator_maps t) = Inr canonical"
    using request_blocks_update [of "allocator_maps s" canonical request] f lc
    by (simp add: t s' su(3) fresh_allocator_def)
  have "ref_cnt p b (pool_state t) = ref_cnt p b w - of_bool (b \<in> set (real_occurrences su tables))
      + of_bool (b \<in> set (real_occurrences su canonical))" for b
  proof -
    have "int (count (mset surplus) b) + of_bool (b \<in> set (real_occurrences su canonical))
        = int (count (mset (real_occurrences su tables)) b) + int (count (mset acq) b)"
      using arg_cong [OF freed [of b], of int] arg_cong [OF occ, of "\<lambda>m. int (count m b)"]
      by (simp add: roots)
    moreover have "count (mset (real_occurrences su tables)) b = of_bool (b \<in> set (real_occurrences su tables))"
      using ok by (auto simp: tables_ok_def distinct_count_atmost_1)
    moreover have "ref_cnt p b w' - int (count (mset acq) b) = ref_cnt p b w"
      using reserve_body_balanced [OF p b, unfolded balanced_def, THEN spec, of b] su(1)
      by (simp add: unrecorded_def)
    moreover have "ref_cnt p b (pool_state t) = ref_cnt p b v - int (count (mset surplus) b)"
      using pool_okD(5) [OF p, of b "rev surplus" v] su(1) by (simp add: t)
    ultimately show ?thesis using assms(6) s' by simp
  qed
  then show ?thesis using tabs c maps by (auto simp: t)
qed

lemma close_total:
  assumes "installed s" "allocation s = Some a" "root_selection (allocated_bank a) = None"
    and "canonical_root y (allocated_bank a) = Inr root" "root \<in> fst ` set (root_tables (allocated_bank a))"
    and "\<forall>r \<in> fst ` set (root_tables (allocated_bank a)). table_root_id r = Inr ()"
  shows "\<exists>t. close_roots su y s = (Inr (), t)"
proof -
  let ?bank = "allocated_bank a"
  have one: "\<exists>ts. bank_tables y (Some r) ?bank = Inr ts" if known: "r \<in> fst ` set (root_tables ?bank)" for r
  proof -
    obtain ts where "map_of (root_tables ?bank) r = Some ts"
      using known map_of_eq_None_iff [of "root_tables ?bank" r] by (cases "map_of (root_tables ?bank) r") auto
    then show ?thesis using bspec [OF assms(6) known] by (simp add: bank_tables_def resolve_root_def)
  qed
  have "\<exists>all. map_result (\<lambda>r. bank_tables y (Some r) ?bank) rs = Inr all"
    if "set rs \<subseteq> fst ` set (root_tables ?bank)" for rs
    using that
  proof (induction rs)
    case (Cons r rs)
    then show ?case using one [of r] by auto
  qed simp
  from this [of "sort (map fst (root_tables ?bank))"] obtain all where
    "map_result (\<lambda>r. bank_tables y (Some r) ?bank) (sort (map fst (root_tables ?bank))) = Inr all"
    by auto
  with one [OF assms(5)] show ?thesis
    using assms(1-4) by (auto simp: close_roots_def sbind_def assert_that_def Let_def)
qed

text \<open>A round that published the candidate root, and the closing after it.\<close>

theorem closing_balances_references_witness:
  "\<exists>canonical t. \<forall>b. ref_cnt demo_block_pool b (pool_state (t :: (demo_books, unit) allocator))
     = ref_cnt demo_block_pool b demo_books
       - of_bool (b \<in> set (real_occurrences demo_setup demo_tables))
       + of_bool (b \<in> set (real_occurrences demo_setup canonical))"
proof -
  obtain a s' where i: "install_roots demo_setup () demo_unreserved = (Inr a, s')"
    using demo_installs by blast
  have su: "pool demo_setup = demo_block_pool" "null_block demo_setup = 0"
    "alloc_root_ids demo_setup = (''root-a'', ''root-b'', ''root-c'')"
    by (rule new_allocator_fresh [OF demo_allocator_starts [unfolded demo_allocator_def]], assumption)+
  note p = demo_block_pool_ok [folded su(2), folded su(1)]
  have ref: "referenced demo_setup demo_tables demo_books"
    by (rule managers_referenced_tables [OF demo_tables_referenced demo_request_blocks su(1,2)])
  have ok: "tables_ok demo_setup demo_tables" using demo_fresh by (simp add: fresh_allocator_def)
  obtain n w' acq where b: "reserve_body demo_setup demo_tables n (demo_books, []) = (Inr a, (w', acq))"
    and s': "s' = demo_unreserved\<lparr>pool_state := w', allocation := Some a, private_ownership := acq, installed := True\<rparr>"
    by (rule install_succeeds [OF p demo_fresh i])
  obtain ts ct st where bank: "allocated_bank a = \<lparr>bank_request = alloc_request demo_setup,
       root_tables = [(''root-a'', ts), (''root-b'', ct), (''root-c'', st)], own_canonical = ''root-a'',
       external_getter = None, root_selection = None\<rparr>"
    by (rule reserved_occurrences [OF p su(3) ok ref b])
  let ?bank = "(allocated_bank a)\<lparr>own_canonical := ''root-b''\<rparr>"
  let ?s = "s'\<lparr>pool_state := pool_state s', allocation := Some (a\<lparr>allocated_bank := ?bank\<rparr>)\<rparr>"
  have ids: "\<forall>r \<in> {''root-a'', ''root-b'', ''root-c''}. table_root_id r = Inr ()"
    by code_simp
  have "\<exists>t. close_roots demo_setup () ?s = (Inr (), t)"
  proof (rule close_total [where a = "a\<lparr>allocated_bank := ?bank\<rparr>" and root = "''root-b''"])
    show "\<forall>r \<in> fst ` set (root_tables (allocated_bank (a\<lparr>allocated_bank := ?bank\<rparr>))). table_root_id r = Inr ()"
      using ids by (simp add: bank)
  qed (simp_all add: s' bank canonical_root_def)
  then obtain t where c: "close_roots demo_setup () ?s = (Inr (), t)" by blast
  have same: "root_tables ?bank = root_tables (allocated_bank a)"
    "\<forall>b. ref_cnt demo_block_pool b (pool_state s') = ref_cnt demo_block_pool b (pool_state s')"
    by simp_all
  obtain tables canonical where
    "request_blocks ''req'' (map req_to_blocks (map demo_manager [0..<69])) = Inr tables"
    "\<forall>b. ref_cnt demo_block_pool b (pool_state t) = ref_cnt demo_block_pool b demo_books
       - of_bool (b \<in> set (real_occurrences demo_setup tables))
       + of_bool (b \<in> set (real_occurrences demo_setup canonical))"
    using closing_balances_references [OF demo_allocator_starts [unfolded demo_allocator_def]
      demo_block_pool_ok demo_tables_referenced i same c] by blast
  with demo_request_blocks show ?thesis by (metis sum.inject(2))
qed

end
