(* ===== verification/Tree_Contract.thy ===== *)
theory Tree_Contract
  imports Prelude
begin

section \<open>Proposal trees and their attention contract\<close>

lemma map_result_all: "\<forall>x \<in> set xs. f x = Inr (h x) \<Longrightarrow> map_result f xs = Inr (map h xs)"
  by (induction xs) simp_all

lemma map_result_fails: "x \<in> set xs \<Longrightarrow> f x = Inl e \<Longrightarrow> \<exists>e'. map_result f xs = Inl e'"
proof (induction xs)
  case (Cons y ys)
  then show ?case by (cases "f y") auto
qed simp

text \<open>
  Model of \<open>src/qwen_r9700_lab/tree_attention_contract.py\<close>, of the hand-off in
  \<open>tree_runtime.py\<close> and of \<open>build_tree_plan\<close> in \<open>bole_reference.py\<close>.  Masks are Python's
  unbounded integers.  A field of the metadata mapping that is absent or is not a sequence
  of integers is \<open>None\<close>; scores are values of any type, the contract only counts them.
\<close>

unbundle bit_operations_syntax

datatype tree_error =
    NotIntegers
  | NodeCountOutOfRange
  | NodeLengthsDiffer
  | PrimaryPathLength
  | NegativeToken
  | ParentNotEarlier
  | InvalidDepth
  | RootDepthNotZero
  | DepthNotFollowing
  | MaskOutOfRange
  | MaskLacksParent
  | MaskHasSelf
  | PrimaryInvalidNode
  | PrimaryNotContiguous
  | ScoreLengthDiffers
  | NodeOutsideTree
  | EmptyTree
  | BadShape
  | NodeIndexError
  | DivisionByZero

definition MAX_TREE_NODES :: nat where "MAX_TREE_NODES = 32"

record 'r tree_mapping =
  raw_tokens :: "int list option"
  raw_parent :: "int list option"
  raw_depth :: "int list option"
  raw_ancestor_mask :: "int list option"
  raw_primary_path :: "int list option"
  raw_score :: "'r list"

record 'r tree_metadata =
  tree_tokens :: "int list"
  tree_parent :: "int list"
  tree_depth :: "int list"
  tree_mask :: "int list"
  tree_primary :: "int list"
  tree_score :: "'r list"

fun tree_ints :: "int list option \<Rightarrow> tree_error + int list" where
  "tree_ints None = Inl NotIntegers"
| "tree_ints (Some xs) = Inr xs"

text \<open>The body of the loop over \<open>enumerate(zip(parent, depth, ancestor_mask))\<close>.\<close>

definition node_check :: "int list \<Rightarrow> nat \<Rightarrow> nat \<times> int \<times> int \<times> int \<Rightarrow> tree_error + unit" where
  "node_check depth count = (\<lambda>(index, p, d, mask).
     if p < - 1 \<or> int index \<le> p then Inl ParentNotEarlier
     else if d < 0 \<or> (index = 0 \<and> d \<noteq> 0) then Inl InvalidDepth
     else if p < 0 \<and> d \<noteq> 0 then Inl RootDepthNotZero
     else if 0 \<le> p \<and> d \<noteq> depth ! nat p + 1 then Inl DepthNotFollowing
     else if mask < 0 \<or> drop_bit count mask \<noteq> 0 then Inl MaskOutOfRange
     else if 0 \<le> p \<and> mask AND push_bit (nat p) 1 = 0 then Inl MaskLacksParent
     else if mask AND push_bit index 1 \<noteq> 0 then Inl MaskHasSelf
     else Inr ())"

definition edge_check :: "int list \<Rightarrow> nat \<Rightarrow> int \<times> int \<Rightarrow> tree_error + unit" where
  "edge_check parents count = (\<lambda>(previous, current).
     if previous < 0 \<or> int count \<le> previous \<or> current < 0 \<or> int count \<le> current
     then Inl PrimaryInvalidNode
     else if parents ! nat current \<noteq> previous then Inl PrimaryNotContiguous
     else Inr ())"

definition validate_tree_metadata :: "nat \<Rightarrow> 'r tree_mapping \<Rightarrow> tree_error + 'r tree_metadata" where
  "validate_tree_metadata max_nodes m =
     rbind (tree_ints (raw_tokens m)) (\<lambda>tokens.
     rbind (tree_ints (raw_parent m)) (\<lambda>parents.
     rbind (tree_ints (raw_depth m)) (\<lambda>depths.
     rbind (tree_ints (raw_ancestor_mask m)) (\<lambda>masks.
     rbind (tree_ints (raw_primary_path m)) (\<lambda>primary.
     let count = length tokens
     in if count < 1 \<or> max_nodes < count then Inl NodeCountOutOfRange
        else if \<not> (length parents = length depths \<and> length depths = length masks \<and> length masks = count)
        then Inl NodeLengthsDiffer
        else if length primary < 1 \<or> count < length primary then Inl PrimaryPathLength
        else if list_ex (\<lambda>t. t < 0) tokens then Inl NegativeToken
        else rbind (check_all (node_check depths count)
                      (enumerate 0 (zip parents (zip depths masks)))) (\<lambda>_.
             rbind (check_all (edge_check parents count) (zip primary (tl primary))) (\<lambda>_.
             if raw_score m \<noteq> [] \<and> length (raw_score m) \<noteq> count then Inl ScoreLengthDiffers
             else Inr \<lparr>tree_tokens = tokens, tree_parent = parents, tree_depth = depths,
                        tree_mask = masks, tree_primary = primary, tree_score = raw_score m\<rparr>)))))))"

definition node_count :: "'r tree_metadata \<Rightarrow> nat" where
  "node_count t = length (tree_tokens t)"

definition as_dict :: "'r tree_metadata \<Rightarrow> 'r tree_mapping" where
  "as_dict t = \<lparr>raw_tokens = Some (tree_tokens t), raw_parent = Some (tree_parent t),
     raw_depth = Some (tree_depth t), raw_ancestor_mask = Some (tree_mask t),
     raw_primary_path = Some (tree_primary t), raw_score = tree_score t\<rparr>"

definition visible_nodes :: "'r tree_metadata \<Rightarrow> int \<Rightarrow> tree_error + nat list" where
  "visible_nodes t node =
     (if node < 0 \<or> int (node_count t) \<le> node then Inl NodeOutsideTree
      else let mask = tree_mask t ! nat node OR push_bit (nat node) 1
           in Inr (filter (\<lambda>i. mask AND push_bit i 1 \<noteq> 0) [0..<node_count t]))"

definition normalize_tree_metadata ::
  "nat \<Rightarrow> 'r tree_mapping option \<Rightarrow> tree_error + 'r tree_mapping option" where
  "normalize_tree_metadata max_nodes m =
     (case m of None \<Rightarrow> Inr None
      | Some m \<Rightarrow> rbind (validate_tree_metadata max_nodes m) (\<lambda>t. Inr (Some (as_dict t))))"

subsection \<open>The hand-off to the attention backend\<close>

text \<open>
  \<open>_ACTIVE\<close> as an association list in insertion order.  \<open>publish_tree_metadata\<close> clears it
  first, so that a mapping that is refused half way leaves the entries before it.
\<close>

type_synonym 'r active_trees = "(string \<times> 'r tree_mapping option) list"

fun publish_each ::
  "(string \<times> 'r tree_mapping option) list \<Rightarrow> ('r active_trees, tree_error, unit) action" where
  "publish_each [] = ret ()"
| "publish_each ((request, m) # rest) =
     sbind (lift_result (normalize_tree_metadata MAX_TREE_NODES m)) (\<lambda>normalized.
     sbind (modify (\<lambda>active. active @ [(request, normalized)])) (\<lambda>_. publish_each rest))"

definition publish_tree_metadata ::
  "(string \<times> 'r tree_mapping option) list option \<Rightarrow> ('r active_trees, tree_error, unit) action" where
  "publish_tree_metadata m =
     sbind (modify (\<lambda>_. [])) (\<lambda>_.
     case m of None \<Rightarrow> ret () | Some entries \<Rightarrow> publish_each entries)"

definition get_tree_metadata :: "string \<Rightarrow> 'r active_trees \<Rightarrow> 'r tree_mapping option" where
  "get_tree_metadata request active =
     (case map_of active request of None \<Rightarrow> None | Some entry \<Rightarrow> entry)"

definition clear_tree_metadata :: "('r active_trees, tree_error, unit) action" where
  "clear_tree_metadata = modify (\<lambda>_. [])"

definition get_single_tree_metadata :: "'r active_trees \<Rightarrow> 'r tree_mapping option" where
  "get_single_tree_metadata active =
     (case filter (\<lambda>(_, m). m \<noteq> None) active of [(_, m)] \<Rightarrow> m | _ \<Rightarrow> None)"

subsection \<open>Building a plan from the parents\<close>

record tree_plan =
  plan_parent :: "int list"
  plan_depth :: "int list"
  plan_mask :: "int list"

fun plan_nodes :: "int list \<Rightarrow> int list \<Rightarrow> int list \<Rightarrow> tree_error + int list \<times> int list" where
  "plan_nodes [] depths masks = Inr (depths, masks)"
| "plan_nodes (p # ps) depths masks =
     (if p < - 1 \<or> int (length depths) \<le> p then Inl ParentNotEarlier
      else if p < 0 then plan_nodes ps (depths @ [0]) (masks @ [0])
      else plan_nodes ps (depths @ [depths ! nat p + 1])
             (masks @ [masks ! nat p OR push_bit (nat p) 1]))"

definition build_tree_plan :: "int list \<Rightarrow> tree_error + tree_plan" where
  "build_tree_plan parents =
     (if parents = [] then Inl EmptyTree
      else rbind (plan_nodes parents [] []) (\<lambda>(depths, masks).
           Inr \<lparr>plan_parent = parents, plan_depth = depths, plan_mask = masks\<rparr>))"

definition max_depth :: "tree_plan \<Rightarrow> int" where
  "max_depth plan = foldr max (plan_depth plan) 0"

text \<open>
  \<open>while current >= 0: path.append(current); current = parent[current]\<close> with the reversal
  of the collected path; the loop need not end when a parent is not earlier than its child.
\<close>

partial_function (option) climb :: "int list \<Rightarrow> int \<Rightarrow> nat list \<Rightarrow> nat list option" where
  "climb parents current path =
     (if current < 0 then Some path
      else climb parents (parents ! nat current) (nat current # path))"

subsection \<open>Parents before children\<close>

definition parents_ok :: "int list \<Rightarrow> bool" where
  "parents_ok ps \<longleftrightarrow> (\<forall>i < length ps. - 1 \<le> ps ! i \<and> ps ! i < int i)"

lemma parents_okD:
  assumes "parents_ok ps" and "i < length ps"
  shows "- 1 \<le> ps ! i" "ps ! i < int i" "0 \<le> ps ! i \<Longrightarrow> nat (ps ! i) < i"
    "0 \<le> ps ! i \<Longrightarrow> nat (ps ! i) < length ps"
  using assms by (auto simp: parents_ok_def)

text \<open>The path from a root of the forest to a node, and the ancestors of a node.\<close>

function root_path :: "int list \<Rightarrow> nat \<Rightarrow> nat list" where
  "root_path ps i =
     (if 0 \<le> ps ! i \<and> ps ! i < int i then root_path ps (nat (ps ! i)) @ [i] else [i])"
  by auto
termination by (relation "measure snd") auto

declare root_path.simps [simp del]

lemma root_path_step:
  assumes "parents_ok ps" "i < length ps"
  shows "root_path ps i = (if ps ! i < 0 then [i] else root_path ps (nat (ps ! i)) @ [i])"
  using parents_okD [OF assms] by (subst root_path.simps) auto

definition ancestors :: "int list \<Rightarrow> nat \<Rightarrow> nat set" where
  "ancestors ps i = set (butlast (root_path ps i))"

lemma ancestors_step:
  assumes "parents_ok ps" "i < length ps"
  shows "ancestors ps i = (if ps ! i < 0 then {} else insert (nat (ps ! i)) (ancestors ps (nat (ps ! i))))"
proof -
  have "set (root_path ps j) = insert j (ancestors ps j)" for j
    by (subst (1) root_path.simps) (subst ancestors_def, subst root_path.simps, simp)
  then show ?thesis
    unfolding ancestors_def root_path_step [OF assms] by (simp add: butlast_append ancestors_def)
qed

lemma root_path_set: "set (root_path ps i) = insert i (ancestors ps i)"
  by (subst (1) root_path.simps) (subst ancestors_def, subst root_path.simps, simp)

lemma root_path_last: "root_path ps i = butlast (root_path ps i) @ [i]"
  by (subst (1 2) root_path.simps) simp

lemma root_path_sorted:
  assumes "parents_ok ps" "i < length ps"
  shows "sorted_wrt (<) (root_path ps i) \<and> (\<forall>j \<in> ancestors ps i. j < i)"
  using assms(2)
proof (induction i rule: less_induct)
  case (less i)
  show ?case
  proof (cases "ps ! i < 0")
    case True
    then show ?thesis
      using root_path_step [OF assms(1) less.prems] ancestors_step [OF assms(1) less.prems] by simp
  next
    case False
    then have p: "nat (ps ! i) < i" "nat (ps ! i) < length ps"
      using parents_okD(3,4) [OF assms(1) less.prems] by auto
    from less.IH [OF p] have ih: "sorted_wrt (<) (root_path ps (nat (ps ! i)))"
      "\<forall>j \<in> ancestors ps (nat (ps ! i)). j < nat (ps ! i)" by auto
    show ?thesis
      using ih p False root_path_step [OF assms(1) less.prems]
        ancestors_step [OF assms(1) less.prems]
      by (auto simp: sorted_wrt_append root_path_set)
  qed
qed

lemma ancestors_less: "parents_ok ps \<Longrightarrow> i < length ps \<Longrightarrow> j \<in> ancestors ps i \<Longrightarrow> j < i"
  using root_path_sorted by blast

lemma climb_path:
  assumes "parents_ok ps" "i < length ps"
  shows "climb ps (int i) path = Some (root_path ps i @ path)"
  using assms(2)
proof (induction i arbitrary: path rule: less_induct)
  case (less i)
  show ?case
  proof (cases "ps ! i < 0")
    case True
    then show ?thesis
      using root_path_step [OF assms(1) less.prems]
      by (subst climb.simps, simp, subst climb.simps) simp
  next
    case False
    then have p: "nat (ps ! i) < i" "nat (ps ! i) < length ps" "int (nat (ps ! i)) = ps ! i"
      using parents_okD(3,4) [OF assms(1) less.prems] by auto
    show ?thesis
      using less.IH [OF p(1,2), of "i # path"] p(3) root_path_step [OF assms(1) less.prems] False
      by (subst climb.simps) simp
  qed
qed

subsection \<open>What the plan holds\<close>

lemma and_shifted_one: "m AND push_bit i 1 = 0 \<longleftrightarrow> \<not> bit m i" for m :: int
  by (simp add: push_bit_eq_mult and_exp_eq_0_iff_not_bit)

definition plan_ok :: "int list \<Rightarrow> nat \<Rightarrow> int list \<Rightarrow> int list \<Rightarrow> bool" where
  "plan_ok ps n depths masks \<longleftrightarrow>
     length depths = n \<and> length masks = n \<and> n \<le> length ps
     \<and> (\<forall>i < n. - 1 \<le> ps ! i \<and> ps ! i < int i
          \<and> depths ! i = (if ps ! i < 0 then 0 else depths ! nat (ps ! i) + 1)
          \<and> 0 \<le> masks ! i \<and> (\<forall>j. bit (masks ! i) j \<longleftrightarrow> j \<in> ancestors ps i))"

lemma ancestors_local:
  "ps ! i < 0 \<Longrightarrow> ancestors ps i = {}"
  "0 \<le> ps ! i \<Longrightarrow> ps ! i < int i \<Longrightarrow>
     ancestors ps i = insert (nat (ps ! i)) (ancestors ps (nat (ps ! i)))"
proof -
  show "ps ! i < 0 \<Longrightarrow> ancestors ps i = {}"
    by (subst ancestors_def, subst root_path.simps) simp
  assume "0 \<le> ps ! i" "ps ! i < int i"
  then have "butlast (root_path ps i) = root_path ps (nat (ps ! i))"
    by (subst root_path.simps) simp
  then show "ancestors ps i = insert (nat (ps ! i)) (ancestors ps (nat (ps ! i)))"
    by (subst ancestors_def) (simp add: root_path_set)
qed

lemma plan_ok_step:
  assumes ok: "plan_ok ps n depths masks" and n: "n < length ps" "- 1 \<le> ps ! n" "ps ! n < int n"
  shows "plan_ok ps (n + 1)
    (depths @ [if ps ! n < 0 then 0 else depths ! nat (ps ! n) + 1])
    (masks @ [if ps ! n < 0 then 0 else masks ! nat (ps ! n) OR push_bit (nat (ps ! n)) 1])"
proof -
  have l: "length depths = n" "length masks = n" using ok by (simp_all add: plan_ok_def)
  show ?thesis
    unfolding plan_ok_def
  proof (intro conjI allI impI)
    fix i assume i: "i < n + 1"
    show "- 1 \<le> ps ! i" "ps ! i < int i"
      using i ok n by (auto simp: plan_ok_def less_Suc_eq)
    have par: "nat (ps ! i) < n" if "0 \<le> ps ! i"
      using that \<open>ps ! i < int i\<close> i by linarith
    show "(depths @ [if ps ! n < 0 then 0 else depths ! nat (ps ! n) + 1]) ! i
        = (if ps ! i < 0 then 0
           else (depths @ [if ps ! n < 0 then 0 else depths ! nat (ps ! n) + 1]) ! nat (ps ! i) + 1)"
      using i ok par l by (auto simp: plan_ok_def nth_append less_Suc_eq)
    let ?m = "if ps ! n < 0 then 0 else masks ! nat (ps ! n) OR push_bit (nat (ps ! n)) 1"
    have new: "0 \<le> ?m \<and> (\<forall>j. bit ?m j \<longleftrightarrow> j \<in> ancestors ps n)"
    proof (cases "ps ! n < 0")
      case True
      then show ?thesis by (simp add: ancestors_local)
    next
      case False
      then have p: "nat (ps ! n) < n" using n by linarith
      have "0 \<le> masks ! nat (ps ! n)" "\<forall>j. bit (masks ! nat (ps ! n)) j \<longleftrightarrow> j \<in> ancestors ps (nat (ps ! n))"
        using ok p by (auto simp: plan_ok_def)
      then show ?thesis
        using False n ancestors_local(2) [of ps n]
        by (auto simp: bit_or_iff bit_exp_iff)
    qed
    show "0 \<le> (masks @ [?m]) ! i"
      using i ok l new by (cases "i < n") (auto simp: plan_ok_def nth_append less_Suc_eq)
    fix j
    show "bit ((masks @ [?m]) ! i) j = (j \<in> ancestors ps i)"
    proof (cases "i < n")
      case True
      then show ?thesis using ok l by (simp add: plan_ok_def nth_append)
    next
      case False
      then have "i = n" using i by simp
      then show ?thesis using new l by (simp add: nth_append)
    qed
  qed (use l n in auto)
qed

lemma plan_nodes_Inr:
  assumes "plan_nodes ps depths masks = Inr (ds, ms)"
    and "plan_ok (qs @ ps) (length qs) depths masks"
  shows "plan_ok (qs @ ps) (length (qs @ ps)) ds ms"
  using assms
proof (induction ps arbitrary: qs depths masks)
  case (Cons p ps)
  have n: "length depths = length qs" using Cons.prems(2) by (simp add: plan_ok_def)
  then have p: "- 1 \<le> p" "p < int (length qs)"
    using Cons.prems(1) by (auto split: if_splits)
  have "plan_ok ((qs @ [p]) @ ps) (length (qs @ [p]))
    (depths @ [if p < 0 then 0 else depths ! nat p + 1])
    (masks @ [if p < 0 then 0 else masks ! nat p OR push_bit (nat p) 1])"
    using plan_ok_step [OF Cons.prems(2)] p unfolding nth_append_length by simp
  moreover have "plan_nodes ps (depths @ [if p < 0 then 0 else depths ! nat p + 1])
    (masks @ [if p < 0 then 0 else masks ! nat p OR push_bit (nat p) 1]) = Inr (ds, ms)"
    using Cons.prems(1) p n by (auto split: if_splits)
  ultimately show ?case
    using Cons.IH [of "depths @ [if p < 0 then 0 else depths ! nat p + 1]"
        "masks @ [if p < 0 then 0 else masks ! nat p OR push_bit (nat p) 1]" "qs @ [p]"]
    by simp
qed simp

lemma plan_nodes_total:
  assumes "\<forall>i < length ps. - 1 \<le> ps ! i \<and> ps ! i < int (length depths + i)"
  shows "\<exists>r. plan_nodes ps depths masks = Inr r"
  using assms
proof (induction ps arbitrary: depths masks)
  case (Cons p ps)
  have p: "- 1 \<le> p" "p < int (length depths)" using Cons.prems by force+
  have "\<exists>r. plan_nodes ps (depths @ [d]) (masks @ [m]) = Inr r" for d m
  proof (rule Cons.IH, intro allI impI)
    fix i assume "i < length ps"
    then show "- 1 \<le> ps ! i \<and> ps ! i < int (length (depths @ [d]) + i)"
      using Cons.prems [THEN spec, of "Suc i"] by simp
  qed
  then show ?case using p by simp
qed simp

text \<open>A plan exists exactly for a non-empty list of parents that precede their children.\<close>

lemma build_tree_plan_Inr:
  assumes "build_tree_plan ps = Inr plan"
  shows "plan_parent plan = ps" "ps \<noteq> []" "parents_ok ps"
    "plan_ok ps (length ps) (plan_depth plan) (plan_mask plan)"
proof -
  obtain ds ms where "plan_nodes ps [] [] = Inr (ds, ms)"
    and plan: "plan = \<lparr>plan_parent = ps, plan_depth = ds, plan_mask = ms\<rparr>" "ps \<noteq> []"
    using assms by (auto simp: build_tree_plan_def result_simps split: if_splits)
  then have "plan_ok ps (length ps) ds ms"
    using plan_nodes_Inr [of ps "[]" "[]" ds ms "[]"] by (simp add: plan_ok_def)
  then show "plan_parent plan = ps" "ps \<noteq> []" "parents_ok ps"
    "plan_ok ps (length ps) (plan_depth plan) (plan_mask plan)"
    using plan by (auto simp: plan_ok_def parents_ok_def)
qed

lemma build_tree_plan_total:
  "ps \<noteq> [] \<Longrightarrow> parents_ok ps \<Longrightarrow> \<exists>plan. build_tree_plan ps = Inr plan"
  using plan_nodes_total [of ps "[]" "[]"]
  by (auto simp: build_tree_plan_def parents_ok_def split_def)

lemma plan_okD:
  assumes "plan_ok ps (length ps) depths masks"
  shows "length depths = length ps" "length masks = length ps"
    "i < length ps \<Longrightarrow> depths ! i = (if ps ! i < 0 then 0 else depths ! nat (ps ! i) + 1)"
    "i < length ps \<Longrightarrow> 0 \<le> masks ! i"
    "i < length ps \<Longrightarrow> bit (masks ! i) j \<longleftrightarrow> j \<in> ancestors ps i"
  using assms by (simp_all add: plan_ok_def)

lemma depth_path:
  assumes ok: "plan_ok ps (length ps) depths masks" and i: "i < length ps"
  shows "depths ! i = int (length (root_path ps i)) - 1"
  using i
proof (induction i rule: less_induct)
  case (less i)
  have ps: "parents_ok ps" using ok by (simp add: plan_ok_def parents_ok_def)
  show ?case
    using less.IH [of "nat (ps ! i)"] less.prems parents_okD [OF ps less.prems]
      plan_okD(3) [OF ok less.prems] root_path_step [OF ps less.prems]
    by (cases "ps ! i < 0") auto
qed

lemma ancestor_depth:
  assumes ok: "plan_ok ps (length ps) depths masks" and i: "i < length ps" and j: "j \<in> ancestors ps i"
  shows "depths ! j < depths ! i"
  using i j
proof (induction i rule: less_induct)
  case (less i)
  have ps: "parents_ok ps" using ok by (simp add: plan_ok_def parents_ok_def)
  have par: "\<not> ps ! i < 0" using less.prems ancestors_step [OF ps] by auto
  then have p: "nat (ps ! i) < i" "nat (ps ! i) < length ps"
    using parents_okD(3,4) [OF ps less.prems(1)] by auto
  have d: "depths ! i = depths ! nat (ps ! i) + 1"
    using plan_okD(3) [OF ok less.prems(1)] par by simp
  have "j = nat (ps ! i) \<or> j \<in> ancestors ps (nat (ps ! i))"
    using less.prems ancestors_step [OF ps less.prems(1)] par by auto
  then show ?case using less.IH [OF p] d by auto
qed

subsection \<open>The contract\<close>

lemma tree_ints_Inr [result_simps]: "tree_ints v = Inr xs \<longleftrightarrow> v = Some xs"
  by (cases v) auto

text \<open>What a consumer of validated metadata may rely on.\<close>

definition tree_ok :: "nat \<Rightarrow> 'r tree_metadata \<Rightarrow> bool" where
  "tree_ok max_nodes t \<longleftrightarrow>
     (let n = node_count t
      in 1 \<le> n \<and> n \<le> max_nodes
       \<and> length (tree_parent t) = n \<and> length (tree_depth t) = n \<and> length (tree_mask t) = n
       \<and> 1 \<le> length (tree_primary t) \<and> length (tree_primary t) \<le> n
       \<and> (\<forall>token \<in> set (tree_tokens t). 0 \<le> token)
       \<and> parents_ok (tree_parent t)
       \<and> (\<forall>i < n. tree_depth t ! i = int (length (root_path (tree_parent t) i)) - 1
            \<and> 0 \<le> tree_mask t ! i \<and> \<not> bit (tree_mask t ! i) i
            \<and> (\<forall>j. bit (tree_mask t ! i) j \<longrightarrow> j < n)
            \<and> (0 \<le> tree_parent t ! i \<longrightarrow> bit (tree_mask t ! i) (nat (tree_parent t ! i))))
       \<and> (\<forall>k. Suc k < length (tree_primary t) \<longrightarrow>
            0 \<le> tree_primary t ! k \<and> tree_primary t ! Suc k < int n
            \<and> tree_parent t ! nat (tree_primary t ! Suc k) = tree_primary t ! k))"

lemma node_check_Inr:
  "node_check depths n (i, p, d, m) = Inr u \<longleftrightarrow>
     - 1 \<le> p \<and> p < int i \<and> 0 \<le> d \<and> (i = 0 \<longrightarrow> d = 0) \<and> (p < 0 \<longrightarrow> d = 0)
     \<and> (0 \<le> p \<longrightarrow> d = depths ! nat p + 1) \<and> 0 \<le> m \<and> drop_bit n m = 0
     \<and> (0 \<le> p \<longrightarrow> bit m (nat p)) \<and> \<not> bit m i"
  unfolding node_check_def prod.case and_shifted_one by (auto simp: not_less not_le)

lemma edge_check_Inr:
  "edge_check parents n (a, b) = Inr u \<longleftrightarrow>
     0 \<le> a \<and> a < int n \<and> 0 \<le> b \<and> b < int n \<and> parents ! nat b = a"
  by (auto simp: edge_check_def)

lemma high_bits: "drop_bit n m = 0 \<longleftrightarrow> (\<forall>j. bit m j \<longrightarrow> j < n)" for m :: int
proof
  assume "drop_bit n m = 0"
  then have "\<not> bit m (n + k)" for k by (metis bit_0_eq bit_drop_bit_eq bot_apply bot_bool_def comp_apply)
  then show "\<forall>j. bit m j \<longrightarrow> j < n" by (metis le_add_diff_inverse not_less)
next
  assume "\<forall>j. bit m j \<longrightarrow> j < n"
  then show "drop_bit n m = 0" by (intro bit_eqI) (auto simp: bit_drop_bit_eq)
qed

lemma checks_nth:
  assumes "length ys = length xs" "length zs = length xs"
  shows "check_all f (enumerate 0 (zip xs (zip ys zs))) = Inr () \<longleftrightarrow>
    (\<forall>i < length xs. f (i, xs ! i, ys ! i, zs ! i) = Inr ())"
  using assms by (auto simp: check_all_Inr_iff in_set_enumerate_eq)

lemma pairs_nth:
  "check_all f (zip xs (tl xs)) = Inr () \<longleftrightarrow> (\<forall>k. Suc k < length xs \<longrightarrow> f (xs ! k, xs ! Suc k) = Inr ())"
proof -
  have "set (zip xs (tl xs)) = {(xs ! k, xs ! Suc k) | k. Suc k < length xs}"
    by (auto simp: set_zip nth_tl)
  then show ?thesis by (auto simp: check_all_Inr_iff)
qed

lemma validated_tree_ok:
  assumes "validate_tree_metadata max_nodes m = Inr t"
  shows "tree_ok max_nodes t" "as_dict t = m"
proof -
  from assms show eq: "as_dict t = m"
    by (auto simp: validate_tree_metadata_def result_simps Let_def as_dict_def split: if_splits)
  let ?n = "node_count t" and ?ps = "tree_parent t"
  from assms have l: "1 \<le> ?n" "?n \<le> max_nodes" "length ?ps = ?n" "length (tree_depth t) = ?n"
    "length (tree_mask t) = ?n" "1 \<le> length (tree_primary t)" "length (tree_primary t) \<le> ?n"
    "\<forall>token \<in> set (tree_tokens t). 0 \<le> token"
    and nodes: "check_all (node_check (tree_depth t) ?n)
        (enumerate 0 (zip ?ps (zip (tree_depth t) (tree_mask t)))) = Inr ()"
    and edges: "check_all (edge_check ?ps ?n) (zip (tree_primary t) (tl (tree_primary t))) = Inr ()"
    by (auto simp: validate_tree_metadata_def result_simps Let_def node_count_def list_ex_iff
        not_less Suc_le_eq split: if_splits)
  have node: "- 1 \<le> ?ps ! i \<and> ?ps ! i < int i
      \<and> (?ps ! i < 0 \<longrightarrow> tree_depth t ! i = 0)
      \<and> (0 \<le> ?ps ! i \<longrightarrow> tree_depth t ! i = tree_depth t ! nat (?ps ! i) + 1)
      \<and> 0 \<le> tree_mask t ! i \<and> (\<forall>j. bit (tree_mask t ! i) j \<longrightarrow> j < ?n)
      \<and> (0 \<le> ?ps ! i \<longrightarrow> bit (tree_mask t ! i) (nat (?ps ! i))) \<and> \<not> bit (tree_mask t ! i) i"
    if "i < ?n" for i
    using nodes that l by (simp add: checks_nth node_check_Inr high_bits)
  have ps: "parents_ok ?ps" using node l(3) by (simp add: parents_ok_def)
  have "tree_depth t ! i = int (length (root_path ?ps i)) - 1" if "i < ?n" for i
    using that
  proof (induction i rule: less_induct)
    case (less i)
    then show ?case
      using less.IH [of "nat (?ps ! i)"] node [OF less.prems] parents_okD [OF ps, of i] l(3)
        root_path_step [OF ps, of i]
      by (cases "?ps ! i < 0") auto
  qed
  then show "tree_ok max_nodes t"
    using l node ps edges unfolding tree_ok_def Let_def pairs_nth edge_check_Inr by blast
qed

text \<open>Metadata built from a plan is accepted, and a node sees exactly its own path.\<close>

definition plan_mapping :: "int list \<Rightarrow> tree_plan \<Rightarrow> nat list \<Rightarrow> 'r list \<Rightarrow> 'r tree_mapping" where
  "plan_mapping tokens plan primary scores = \<lparr>raw_tokens = Some tokens,
     raw_parent = Some (plan_parent plan), raw_depth = Some (plan_depth plan),
     raw_ancestor_mask = Some (plan_mask plan), raw_primary_path = Some (map int primary),
     raw_score = scores\<rparr>"

lemma root_path_edges:
  assumes "parents_ok ps" "i < length ps" "Suc k < length (root_path ps i)"
  shows "ps ! (root_path ps i ! Suc k) = int (root_path ps i ! k)"
  using assms(2,3)
proof (induction i rule: less_induct)
  case (less i)
  note step = root_path_step [OF assms(1) less.prems(1)]
  show ?case
  proof (cases "ps ! i < 0")
    case True
    then show ?thesis using less.prems(2) step by simp
  next
    case False
    let ?p = "nat (ps ! i)"
    have p: "?p < i" "?p < length ps" using parents_okD(3,4) [OF assms(1) less.prems(1)] False by auto
    have path: "root_path ps i = root_path ps ?p @ [i]" using step False by simp
    show ?thesis
    proof (cases "Suc k < length (root_path ps ?p)")
      case True
      then show ?thesis using less.IH [OF p True] path by (simp add: nth_append)
    next
      case False
      then have k: "k = length (root_path ps ?p) - 1" "k < length (root_path ps ?p)"
        "Suc k = length (root_path ps ?p)"
        using less.prems(2) path root_path_last [of ps ?p] by auto
      have "root_path ps ?p ! k = last (root_path ps ?p)"
        using k by (metis last_conv_nth length_0_conv less_nat_zero_code)
      then have "root_path ps ?p ! k = ?p" by (subst (asm) (2) root_path_last) simp
      then show ?thesis using k path \<open>\<not> ps ! i < 0\<close> by (simp add: nth_append)
    qed
  qed
qed

lemma root_path_bounds:
  assumes "parents_ok ps" "i < length ps"
  shows "\<forall>j \<in> set (root_path ps i). j \<le> i" "length (root_path ps i) \<le> Suc i" "root_path ps i \<noteq> []"
proof -
  show b: "\<forall>j \<in> set (root_path ps i). j \<le> i"
    using ancestors_less [OF assms] by (auto simp: root_path_set intro: less_imp_le)
  have "distinct (root_path ps i)"
    using root_path_sorted [OF assms] by (simp add: strict_sorted_iff)
  then have "length (root_path ps i) = card (set (root_path ps i))" by (simp add: distinct_card)
  also have "\<dots> \<le> card {..i}" using b by (intro card_mono) auto
  finally show "length (root_path ps i) \<le> Suc i" by simp
  show "root_path ps i \<noteq> []" by (subst root_path_last) simp
qed

lemma plan_validates:
  assumes plan: "build_tree_plan ps = Inr plan" and n: "length ps \<le> max_nodes"
    and tokens: "length tokens = length ps" "\<forall>t \<in> set tokens. 0 \<le> t"
    and leaf: "leaf < length ps" and scores: "scores = [] \<or> length scores = length ps"
  shows "\<exists>t. validate_tree_metadata max_nodes (plan_mapping tokens plan (root_path ps leaf) scores) = Inr t
    \<and> tree_tokens t = tokens \<and> tree_parent t = ps \<and> tree_mask t = plan_mask plan
    \<and> tree_depth t = plan_depth plan \<and> tree_primary t = map int (root_path ps leaf)"
proof -
  note p = build_tree_plan_Inr [OF plan]
  note ok = plan_okD [OF p(4)]
  have len: "length ps = length (plan_depth plan)" "length (plan_mask plan) = length ps" using ok by simp_all
  let ?r = "root_path ps leaf"
  have "node_check (plan_depth plan) (length ps) (i, ps ! i, plan_depth plan ! i, plan_mask plan ! i) = Inr ()"
    if i: "i < length ps" for i
  proof -
    note pd = parents_okD [OF p(3) i]
    have "0 \<le> plan_depth plan ! i"
      using depth_path [OF p(4) i] root_path_bounds(3) [OF p(3) i]
      by (cases "root_path ps i") auto
    moreover have "\<forall>j. bit (plan_mask plan ! i) j \<longrightarrow> j < length ps"
      unfolding ok(5) [OF i] using ancestors_less [OF p(3) i] i by (auto intro: less_trans)
    moreover have "\<not> bit (plan_mask plan ! i) i"
      unfolding ok(5) [OF i] using ancestors_less [OF p(3) i, of i] by auto
    moreover have "bit (plan_mask plan ! i) (nat (ps ! i))" if "0 \<le> ps ! i"
      using ok(5) [OF i] ancestors_step [OF p(3) i] that by simp
    moreover have "ps ! i < 0 \<Longrightarrow> plan_depth plan ! i = 0" "i = 0 \<Longrightarrow> plan_depth plan ! i = 0"
      "0 \<le> ps ! i \<Longrightarrow> plan_depth plan ! i = plan_depth plan ! nat (ps ! i) + 1"
      using ok(3) [OF i] pd(2) by (simp_all split: if_splits)
    ultimately show ?thesis
      unfolding node_check_Inr high_bits using pd(1,2) ok(4) [OF i] by blast
  qed
  then have nodes: "check_all (node_check (plan_depth plan) (length ps))
      (enumerate 0 (zip ps (zip (plan_depth plan) (plan_mask plan)))) = Inr ()"
    using len by (simp add: checks_nth)
  have edges: "check_all (edge_check ps (length ps)) (zip (map int ?r) (tl (map int ?r))) = Inr ()"
    unfolding pairs_nth
  proof (intro allI impI)
    fix k assume k: "Suc k < length (map int ?r)"
    then have "?r ! k \<le> leaf" "?r ! Suc k \<le> leaf"
      using root_path_bounds(1) [OF p(3) leaf] by (auto intro: nth_mem)
    then show "edge_check ps (length ps) (map int ?r ! k, map int ?r ! Suc k) = Inr ()"
      using k root_path_edges [OF p(3) leaf, of k] leaf by (simp add: edge_check_Inr)
  qed
  have "length ?r \<le> length ps" "?r \<noteq> []"
    using root_path_bounds(2,3) [OF p(3) leaf] leaf by auto
  then show ?thesis
    using p(1,2) n tokens scores len nodes edges
    by (auto simp: validate_tree_metadata_def plan_mapping_def Let_def list_ex_iff Suc_le_eq)
qed

lemma plan_visibility:
  assumes plan: "build_tree_plan ps = Inr plan" and i: "i < length ps"
    and t: "node_count t = length ps" "tree_mask t = plan_mask plan"
  shows "visible_nodes t (int i) = Inr (root_path ps i)"
proof -
  note p = build_tree_plan_Inr [OF plan]
  let ?seen = "filter (\<lambda>j. j = i \<or> j \<in> ancestors ps i) [0..<length ps]"
  have "set ?seen = set (root_path ps i)"
    using ancestors_less [OF p(3) i] i by (auto simp: root_path_set intro: less_trans)
  moreover have "sorted_wrt (<) ?seen" by (simp add: sorted_wrt_filter)
  moreover have "sorted_wrt (<) (root_path ps i)" using root_path_sorted [OF p(3) i] by blast
  ultimately have "?seen = root_path ps i"
    by (metis strict_sorted_equal)
  moreover have "bit (plan_mask plan ! i OR push_bit i 1) = (\<lambda>j. j = i \<or> j \<in> ancestors ps i)"
    using plan_okD(5) [OF p(4) i] by (auto simp: bit_or_iff bit_exp_iff)
  ultimately show ?thesis
    using i t by (simp add: visible_nodes_def Let_def and_shifted_one del: push_bit_of_1)
qed

end
