(* ===== verification/Tree_Verification.thy ===== *)
theory Tree_Verification
  imports Tree_Contract "HOL-Library.List_Lexorder"
begin

section \<open>Greedy verification of a proposal tree\<close>

text \<open>
  Model of \<open>verify_greedy_tree\<close>, \<open>GreedyTreeVerification\<close> and \<open>tree_position_offsets\<close> of
  \<open>src/qwen_r9700_lab/dflash_trained_tree.py\<close> and of the row mappings and the compaction of
  \<open>src/qwen_r9700_lab/dflash_b7_runtime.py\<close>.  The recursion over the tree is not bounded
  by the code; it takes fuel, and running out of it is \<open>None\<close>.
\<close>

datatype verify_error = TargetRowCount | NegativeTarget | ChildMissing

datatype b7_error =
    PhysicalRowCount
  | NodeBudget
  | PositionsNotConsecutive
  | MropeAxes
  | RowsNotAligned
  | OneRequestOnly
  | DraftTokensDiffer
  | TreeRefused tree_error
  | GenerationInvalid
  | RequestInvalid
  | GenerationStale
  | MailboxFull
  | PayloadAbsent
  | BindingChanged

record greedy_verification =
  output_tokens :: "int list"
  accepted_nodes :: "nat list"

definition children :: "'r tree_metadata \<Rightarrow> int \<Rightarrow> nat list" where
  "children t p = filter (\<lambda>c. tree_parent t ! c = p) [0..<node_count t]"

definition better :: "nat list \<Rightarrow> nat list \<Rightarrow> nat list" where
  "better best candidate =
     (if length best < length candidate \<or> (length candidate = length best \<and> candidate < best)
      then candidate else best)"

fun scan_children ::
  "(int \<Rightarrow> nat list option) \<Rightarrow> 'r tree_metadata \<Rightarrow> int \<Rightarrow> nat list \<Rightarrow> nat list \<Rightarrow> nat list option" where
  "scan_children below t expected [] best = Some best"
| "scan_children below t expected (c # cs) best =
     (if tree_tokens t ! c \<noteq> expected then scan_children below t expected cs best
      else case below (int c) of
             None \<Rightarrow> None
           | Some path \<Rightarrow> scan_children below t expected cs (better best (c # path)))"

definition row_of :: "int \<Rightarrow> nat" where
  "row_of p = (if p < 0 then 0 else nat p + 1)"

primrec longest_match :: "nat \<Rightarrow> 'r tree_metadata \<Rightarrow> int list \<Rightarrow> int \<Rightarrow> nat list option" where
  "longest_match 0 t target p = None"
| "longest_match (Suc fuel) t target p =
     scan_children (longest_match fuel t target) t (target ! row_of p) (children t p) []"

definition verify_greedy_tree ::
  "nat \<Rightarrow> 'r tree_metadata \<Rightarrow> int list \<Rightarrow> (verify_error + greedy_verification) option" where
  "verify_greedy_tree fuel t target =
     (if length target \<noteq> node_count t + 1 then Some (Inl TargetRowCount)
      else if list_ex (\<lambda>x. x < 0) target then Some (Inl NegativeTarget)
      else map_option (\<lambda>accepted.
             let bonus = (if accepted = [] then 0 else last accepted + 1)
             in Inr \<lparr>output_tokens = map ((!) (tree_tokens t)) accepted @ [target ! bonus],
                     accepted_nodes = accepted\<rparr>) (longest_match fuel t target (- 1)))"

definition emitted_count :: "greedy_verification \<Rightarrow> nat" where
  "emitted_count v = length (output_tokens v)"

definition kv_commit_moves :: "greedy_verification \<Rightarrow> (nat \<times> nat) list" where
  "kv_commit_moves v =
     map (\<lambda>(offset, node). (node + 1, offset + 1))
       (filter (\<lambda>(offset, node). node \<noteq> offset) (enumerate 0 (accepted_nodes v)))"

definition accepted_replay_rows :: "greedy_verification \<Rightarrow> nat list" where
  "accepted_replay_rows v = 0 # map (\<lambda>node. node + 1) (accepted_nodes v)"

definition canonical_gdn_source_row :: "greedy_verification \<Rightarrow> nat" where
  "canonical_gdn_source_row v =
     (if accepted_nodes v = [] then 0 else last (accepted_nodes v) + 1)"

definition tree_position_offsets :: "'r tree_metadata \<Rightarrow> int list" where
  "tree_position_offsets t = 0 # map (\<lambda>d. d + 1) (tree_depth t)"

subsection \<open>Rows of the seven-node runtime\<close>

definition B7_NODE_BUDGET :: nat where "B7_NODE_BUDGET = 7"

fun apply_moves :: "'a list \<Rightarrow> (nat \<times> nat) list \<Rightarrow> 'a list \<Rightarrow> 'a list" where
  "apply_moves source [] destination = destination"
| "apply_moves source ((from_row, to_row) # moves) destination =
     apply_moves source moves (destination[to_row := source ! from_row])"

definition compact_accepted_kv_rows ::
  "'a list \<Rightarrow> greedy_verification \<Rightarrow> b7_error + 'a list" where
  "compact_accepted_kv_rows rows v =
     (if length rows \<noteq> B7_NODE_BUDGET + 1 then Inl PhysicalRowCount
      else Inr (take (emitted_count v) (apply_moves rows (kv_commit_moves v) rows)))"

definition committed_gdn_state :: "'a list \<Rightarrow> greedy_verification \<Rightarrow> b7_error + 'a" where
  "committed_gdn_state rows v =
     (if length rows \<noteq> B7_NODE_BUDGET + 1 then Inl PhysicalRowCount
      else Inr (rows ! canonical_gdn_source_row v))"

definition branch_logical_positions :: "int list \<Rightarrow> 'r tree_metadata \<Rightarrow> b7_error + int list" where
  "branch_logical_positions positions t =
     (if length positions \<noteq> B7_NODE_BUDGET + 1 then Inl PhysicalRowCount
      else if positions \<noteq> map (\<lambda>i. positions ! 0 + int i) [0..<length positions]
      then Inl PositionsNotConsecutive
      else let offsets = tree_position_offsets t
           in if length offsets \<noteq> length positions then Inl RowsNotAligned
              else Inr (map (\<lambda>offset. positions ! 0 + offset) offsets))"

definition branch_logical_mrope_positions ::
  "int list list \<Rightarrow> 'r tree_metadata \<Rightarrow> b7_error + int list list" where
  "branch_logical_mrope_positions axes t =
     (if length axes \<noteq> 3 then Inl MropeAxes
      else map_result (\<lambda>axis. branch_logical_positions axis t) axes)"

record b7_round_plan =
  plan_rows :: "nat list"
  logical_position_offsets :: "int list"
  gdn_parent_rows :: "nat list"
  gdn_state_columns :: "nat list"
  quest_ancestor_masks :: "int list"

definition build_b7_target_round_plan :: "'r tree_metadata \<Rightarrow> b7_error + b7_round_plan" where
  "build_b7_target_round_plan t =
     (if node_count t \<noteq> B7_NODE_BUDGET then Inl NodeBudget
      else let p = \<lparr>plan_rows = [0..<B7_NODE_BUDGET + 1],
             logical_position_offsets = 0 # map (\<lambda>d. d + 1) (tree_depth t),
             gdn_parent_rows = map row_of (tree_parent t),
             gdn_state_columns = [0..<B7_NODE_BUDGET + 1],
             quest_ancestor_masks = tree_mask t\<rparr>
           in if length (logical_position_offsets p) \<noteq> 8 then Inl RowsNotAligned
              else if length (gdn_parent_rows p) \<noteq> 7 then Inl RowsNotAligned
              else Inr p)"

definition quest_visible_physical_rows :: "'r tree_metadata \<Rightarrow> int \<Rightarrow> tree_error + nat list" where
  "quest_visible_physical_rows t node =
     rbind (visible_nodes t node) (\<lambda>nodes. Inr (0 # map (\<lambda>n. n + 1) nodes))"

subsection \<open>The payload and its mailbox\<close>

definition validate_atomic_tree_payload ::
  "int list list \<Rightarrow> 'r tree_mapping list \<Rightarrow> b7_error + 'r tree_metadata list" where
  "validate_atomic_tree_payload drafts mappings =
     (if length drafts \<noteq> length mappings \<or> length drafts \<noteq> 1 then Inl OneRequestOnly
      else case map_result (validate_tree_metadata B7_NODE_BUDGET) mappings of
             Inl e \<Rightarrow> Inl (TreeRefused e)
           | Inr normalized \<Rightarrow>
               rbind (check_all (\<lambda>(tokens, t).
                        if length tokens \<noteq> B7_NODE_BUDGET then Inl NodeBudget
                        else if tokens \<noteq> tree_tokens t then Inl DraftTokensDiffer else Inr ())
                      (zip drafts normalized)) (\<lambda>_. Inr normalized))"

record 'p mailbox =
  pending_payload :: "(int \<times> string \<times> 'p) option"
  last_consumed :: int

definition empty_mailbox :: "'p mailbox" where
  "empty_mailbox = \<lparr>pending_payload = None, last_consumed = - 1\<rparr>"

definition mailbox_publish :: "int \<Rightarrow> string \<Rightarrow> 'p \<Rightarrow> ('p mailbox, b7_error, unit) action" where
  "mailbox_publish generation request payload =
     sbind (assert_that (0 \<le> generation) GenerationInvalid) (\<lambda>_.
     sbind (assert_that (request \<noteq> []) RequestInvalid) (\<lambda>_.
     sbind (gets id) (\<lambda>s.
     sbind (assert_that (last_consumed s < generation) GenerationStale) (\<lambda>_.
     sbind (assert_that (pending_payload s = None) MailboxFull) (\<lambda>_.
     modify (\<lambda>s. s\<lparr>pending_payload := Some (generation, request, payload)\<rparr>))))))"

definition mailbox_take :: "int \<Rightarrow> string \<Rightarrow> ('p mailbox, b7_error, 'p) action" where
  "mailbox_take generation request =
     sbind (gets pending_payload) (\<lambda>pending.
     case pending of
       None \<Rightarrow> raise PayloadAbsent
     | Some (g, r, payload) \<Rightarrow>
         sbind (assert_that (generation = g \<and> request = r) BindingChanged) (\<lambda>_.
         sbind (modify (\<lambda>s. s\<lparr>pending_payload := None, last_consumed := generation\<rparr>)) (\<lambda>_.
         ret payload)))"

definition mailbox_discard :: "('p mailbox, b7_error, unit) action" where
  "mailbox_discard = modify (\<lambda>s. s\<lparr>pending_payload := None\<rparr>)"

subsection \<open>Paths that match the target\<close>

text \<open>\<open>matching t target p path\<close>: below \<open>p\<close>, every node of \<open>path\<close> carries the token the target predicts.\<close>

fun matching :: "'r tree_metadata \<Rightarrow> int list \<Rightarrow> int \<Rightarrow> nat list \<Rightarrow> bool" where
  "matching t target p [] \<longleftrightarrow> True"
| "matching t target p (c # path) \<longleftrightarrow>
     c < node_count t \<and> tree_parent t ! c = p \<and> tree_tokens t ! c = target ! row_of p
     \<and> matching t target (int c) path"

lemma better_length: "length (better best candidate) = max (length best) (length candidate)"
  by (auto simp: better_def)

lemma better_cases: "better best candidate = best \<or> better best candidate = candidate"
  by (simp add: better_def)

lemma scan_children_total:
  assumes "\<forall>c \<in> set cs. tree_tokens t ! c = expected \<longrightarrow> (\<exists>path. below (int c) = Some path)"
  shows "\<exists>r. scan_children below t expected cs best = Some r"
  using assms by (induction cs arbitrary: best) auto

lemma scan_children_longest:
  assumes "scan_children below t expected cs best = Some r"
  shows "length best \<le> length r \<and> (\<forall>c \<in> set cs. tree_tokens t ! c = expected \<longrightarrow>
    (\<exists>path. below (int c) = Some path \<and> length (c # path) \<le> length r))"
  using assms
proof (induction cs arbitrary: best)
  case (Cons c cs)
  then show ?case
    by (fastforce simp: better_length split: if_splits option.splits)
qed simp

lemma scan_children_among:
  assumes "scan_children below t expected cs best = Some r"
  shows "r = best \<or> (\<exists>c \<in> set cs. \<exists>path. tree_tokens t ! c = expected \<and> below (int c) = Some path \<and> r = c # path)"
  using assms
proof (induction cs arbitrary: best)
  case (Cons c cs)
  show ?case
  proof (cases "tree_tokens t ! c = expected")
    case False
    then show ?thesis using Cons by auto
  next
    case True
    with Cons.prems obtain path where path: "below (int c) = Some path"
      "scan_children below t expected cs (better best (c # path)) = Some r"
      by (auto split: option.splits)
    from Cons.IH [OF path(2)] better_cases [of best "c # path"] True path(1) show ?thesis by auto
  qed
qed simp

text \<open>With fuel for every remaining node the longest matching path is found.\<close>

lemma longest_match_total:
  assumes ps: "parents_ok (tree_parent t)" "length (tree_parent t) = node_count t"
    and "- 1 \<le> p" "node_count t - nat (p + 1) < fuel"
  shows "\<exists>path. longest_match fuel t target p = Some path \<and> matching t target p path
    \<and> (\<forall>path'. matching t target p path' \<longrightarrow> length path' \<le> length path)"
  using assms(3,4)
proof (induction fuel arbitrary: p)
  case (Suc fuel)
  let ?cs = "children t p" and ?below = "longest_match fuel t target"
  have child: "c < node_count t \<and> tree_parent t ! c = p \<and> p < int c" if "c \<in> set ?cs" for c
    using that parents_okD(2) [OF ps(1), of c] ps(2) by (auto simp: children_def)
  have ih: "\<exists>path. ?below (int c) = Some path \<and> matching t target (int c) path
      \<and> (\<forall>path'. matching t target (int c) path' \<longrightarrow> length path' \<le> length path)" if "c \<in> set ?cs" for c
  proof (rule Suc.IH)
    show "node_count t - nat (int c + 1) < fuel" using child [OF that] Suc.prems by linarith
  qed simp
  obtain r where r: "scan_children ?below t (target ! row_of p) ?cs [] = Some r"
    using scan_children_total [of ?cs t "target ! row_of p" ?below "[]"] ih by blast
  have "matching t target p r"
    using scan_children_among [OF r] child ih by fastforce
  moreover have "length path \<le> length r" if m: "matching t target p path" for path
  proof (cases path)
    case (Cons c rest)
    have c: "c \<in> set ?cs" "tree_tokens t ! c = target ! row_of p" "matching t target (int c) rest"
      using m Cons by (auto simp: children_def)
    obtain best where best: "?below (int c) = Some best" "length rest \<le> length best"
      using ih [OF c(1)] c(3) by blast
    then show ?thesis using scan_children_longest [OF r] c Cons by fastforce
  qed simp
  ultimately show ?case using r by auto
qed simp

text \<open>A matching path from the top is the path of its last node.\<close>

lemma matching_append:
  "matching t target p (xs @ ys) \<longleftrightarrow>
     matching t target p xs \<and> matching t target (if xs = [] then p else int (last xs)) ys"
  by (induction xs arbitrary: p) auto

lemma matching_root_path:
  assumes ps: "parents_ok (tree_parent t)" "length (tree_parent t) = node_count t"
    and "matching t target (- 1) path" "path \<noteq> []"
  shows "root_path (tree_parent t) (last path) = path \<and> last path < node_count t"
  using assms(3,4)
proof (induction path rule: rev_induct)
  case (snoc c path)
  have c: "c < node_count t" "tree_parent t ! c = (if path = [] then - 1 else int (last path))"
    and m: "matching t target (- 1) path"
    using snoc.prems(1) by (auto simp: matching_append)
  note step = root_path_step [OF ps(1), of c]
  show ?case
  proof (cases "path = []")
    case True
    then show ?thesis using c step ps(2) by simp
  next
    case False
    then show ?thesis using snoc.IH [OF m False] c step ps(2) by simp
  qed
qed simp

subsection \<open>Losslessness\<close>

text \<open>Serial greedy decoding: one token at a time from a model of the next token.\<close>

primrec greedy :: "(int list \<Rightarrow> int) \<Rightarrow> int list \<Rightarrow> nat \<Rightarrow> int list" where
  "greedy next_token ctx 0 = []"
| "greedy next_token ctx (Suc n) =
     next_token ctx # greedy next_token (ctx @ [next_token ctx]) n"

lemma greedy_length [simp]: "length (greedy next_token ctx n) = n"
  by (induction n arbitrary: ctx) simp_all

lemma greedy_append:
  "greedy next_token ctx (m + n)
     = greedy next_token ctx m @ greedy next_token (ctx @ greedy next_token ctx m) n"
  by (induction m arbitrary: ctx) simp_all

lemma greedy_snoc:
  "greedy next_token ctx (Suc m)
     = greedy next_token ctx m @ [next_token (ctx @ greedy next_token ctx m)]"
  using greedy_append [of next_token ctx m 1] by simp

text \<open>
  \<open>branch_target\<close>: row zero predicts after the context, and the row of a node after the
  ctx and the tokens of its path, as a branch-aware target computes them.
\<close>

definition branch_target :: "(int list \<Rightarrow> int) \<Rightarrow> int list \<Rightarrow> 'r tree_metadata \<Rightarrow> int list \<Rightarrow> bool" where
  "branch_target next_token ctx t target \<longleftrightarrow>
     length target = node_count t + 1 \<and> target ! 0 = next_token ctx
     \<and> (\<forall>i < node_count t. target ! (i + 1)
          = next_token (ctx @ map ((!) (tree_tokens t)) (root_path (tree_parent t) i)))"

lemma row_of_last: "row_of (if path = [] then - 1 else int (last path)) = (if path = [] then 0 else last path + 1)"
  by (simp add: row_of_def)

lemma target_after_path:
  assumes ps: "parents_ok (tree_parent t)" "length (tree_parent t) = node_count t"
    and b: "branch_target next_token ctx t target"
    and m: "matching t target (- 1) path"
  shows "target ! row_of (if path = [] then - 1 else int (last path))
    = next_token (ctx @ map ((!) (tree_tokens t)) path)"
  using matching_root_path [OF ps m] b by (auto simp: branch_target_def row_of_def)

lemma matching_greedy:
  assumes ps: "parents_ok (tree_parent t)" "length (tree_parent t) = node_count t"
    and b: "branch_target next_token ctx t target"
    and "matching t target (- 1) path"
  shows "map ((!) (tree_tokens t)) path = greedy next_token ctx (length path)"
  using assms(4)
proof (induction path rule: rev_induct)
  case (snoc c path)
  have m: "matching t target (- 1) path"
    and c: "tree_tokens t ! c = target ! row_of (if path = [] then - 1 else int (last path))"
    using snoc.prems by (simp_all add: matching_append)
  show ?case
    using snoc.IH [OF m] c target_after_path [OF ps b m] by (simp add: greedy_snoc del: greedy.simps)
qed simp

lemma greedy_path_matches:
  assumes ps: "parents_ok (tree_parent t)" "length (tree_parent t) = node_count t"
    and b: "branch_target next_token ctx t target" and i: "i < node_count t"
    and g: "map ((!) (tree_tokens t)) (root_path (tree_parent t) i)
      = greedy next_token ctx (length (root_path (tree_parent t) i))"
  shows "matching t target (- 1) (root_path (tree_parent t) i)"
  using i g
proof (induction i rule: less_induct)
  case (less i)
  let ?ps = "tree_parent t" and ?tok = "(!) (tree_tokens t)"
  have i': "i < length ?ps" using less.prems ps by simp
  note step = root_path_step [OF ps(1) i']
  show ?case
  proof (cases "?ps ! i < 0")
    case True
    then have "?ps ! i = - 1" using parents_okD(1) [OF ps(1) i'] by simp
    then show ?thesis using less.prems step b by (simp add: row_of_def branch_target_def)
  next
    case False
    let ?p = "nat (?ps ! i)" let ?path = "root_path ?ps ?p"
    have p: "?p < i" "?p < node_count t" using parents_okD(3,4) [OF ps(1) i'] False ps(2) by auto
    have path: "root_path ?ps i = ?path @ [i]" using step False by simp
    have "map ?tok ?path @ [?tok i] = greedy next_token ctx (length ?path)
        @ [next_token (ctx @ greedy next_token ctx (length ?path))]"
      using less.prems(2) by (simp add: path greedy_snoc del: greedy.simps)
    then have g: "map ?tok ?path = greedy next_token ctx (length ?path)"
      "?tok i = next_token (ctx @ map ?tok ?path)" by auto
    have "last ?path = ?p" "?path \<noteq> []" by (subst root_path_last, simp)+
    moreover have "matching t target (- 1) ?path" by (rule less.IH [OF p g(1)])
    ultimately show ?thesis
      using False g(2) b p less.prems(1) by (simp add: path matching_append row_of_def branch_target_def)
  qed
qed

subsection \<open>Compaction\<close>

lemma apply_moves_length: "length (apply_moves source moves destination) = length destination"
  by (induction source moves destination rule: apply_moves.induct) simp_all

lemma apply_moves_append:
  "apply_moves source (ms @ ns) destination = apply_moves source ns (apply_moves source ms destination)"
  by (induction source ms destination rule: apply_moves.induct) simp_all

definition moves_from :: "nat \<Rightarrow> nat list \<Rightarrow> (nat \<times> nat) list" where
  "moves_from k nodes = map (\<lambda>(offset, node). (node + 1, offset + 1))
     (filter (\<lambda>(offset, node). node \<noteq> offset) (enumerate k nodes))"

lemma moves_from_nth:
  assumes "k + length nodes < length destination"
    and "\<forall>r. k < r \<longrightarrow> destination ! r = source ! r"
  shows "r < length destination \<Longrightarrow> apply_moves source (moves_from k nodes) destination ! r
    = (if r \<le> k then destination ! r
       else if r \<le> k + length nodes then source ! (nodes ! (r - k - 1) + 1) else destination ! r)"
  using assms
proof (induction nodes arbitrary: k destination)
  case (Cons node nodes)
  let ?d = "if node \<noteq> k then destination[k + 1 := source ! (node + 1)] else destination"
  have step: "apply_moves source (moves_from k (node # nodes)) destination
      = apply_moves source (moves_from (Suc k) nodes) ?d"
    by (simp add: moves_from_def)
  have "apply_moves source (moves_from (Suc k) nodes) ?d ! r
    = (if r \<le> Suc k then ?d ! r
       else if r \<le> Suc k + length nodes then source ! (nodes ! (r - Suc k - 1) + 1) else ?d ! r)"
    using Cons.prems by (intro Cons.IH) (auto simp: nth_list_update)
  moreover have "?d ! Suc k = source ! (node + 1)"
    using Cons.prems by (auto simp: nth_list_update)
  moreover have "(node # nodes) ! (r - k - 1) = nodes ! (r - Suc k - 1)" if "Suc k < r"
  proof -
    obtain m where "r = Suc (Suc k) + m" using \<open>Suc k < r\<close> less_iff_Suc_add by auto
    then show ?thesis by simp
  qed
  moreover have "r \<le> k \<or> r = Suc k \<or> Suc k < r" by linarith
  ultimately show ?case
    unfolding step using Cons.prems by (elim disjE) (auto simp: nth_list_update)
qed (simp add: moves_from_def)

lemma compaction_rows:
  assumes "length rows = B7_NODE_BUDGET + 1" and "length (accepted_nodes v) \<le> B7_NODE_BUDGET"
    and "\<forall>node \<in> set (accepted_nodes v). node < B7_NODE_BUDGET"
    and "emitted_count v = length (accepted_nodes v) + 1"
  shows "compact_accepted_kv_rows rows v = Inr (map ((!) rows) (accepted_replay_rows v))"
proof -
  let ?nodes = "accepted_nodes v"
  let ?moved = "apply_moves rows (kv_commit_moves v) rows"
  have at: "?moved ! r = (if r = 0 then rows ! 0
      else if r \<le> length ?nodes then rows ! (?nodes ! (r - 1) + 1) else rows ! r)"
    if "r < length rows" for r
    using moves_from_nth [of 0 ?nodes rows rows r] assms(1,2) that
    by (simp add: kv_commit_moves_def moves_from_def)
  have "take (emitted_count v) ?moved = map ((!) rows) (accepted_replay_rows v)"
  proof (rule nth_equalityI)
    show "length (take (emitted_count v) ?moved) = length (map ((!) rows) (accepted_replay_rows v))"
      using assms by (simp add: apply_moves_length accepted_replay_rows_def)
    fix r assume "r < length (take (emitted_count v) ?moved)"
    then show "take (emitted_count v) ?moved ! r = map ((!) rows) (accepted_replay_rows v) ! r"
      using at [of r] assms by (simp add: apply_moves_length accepted_replay_rows_def nth_Cons split: nat.splits)
  qed
  then show ?thesis using assms(1) by (simp add: compact_accepted_kv_rows_def)
qed

subsection \<open>Verification and compaction together\<close>

lemma verification_greedy:
  assumes t: "tree_ok max_nodes t" and b: "branch_target next_token ctx t target"
    and nonneg: "\<forall>x \<in> set target. 0 \<le> x" and fuel: "node_count t < fuel"
  shows "\<exists>v. verify_greedy_tree fuel t target = Some (Inr v)
    \<and> output_tokens v = greedy next_token ctx (emitted_count v)
    \<and> emitted_count v = length (accepted_nodes v) + 1
    \<and> (accepted_nodes v = [] \<or> accepted_nodes v = root_path (tree_parent t) (last (accepted_nodes v)))
    \<and> (\<forall>i < node_count t. map ((!) (tree_tokens t)) (root_path (tree_parent t) i)
           = greedy next_token ctx (length (root_path (tree_parent t) i))
         \<longrightarrow> length (root_path (tree_parent t) i) \<le> length (accepted_nodes v))"
proof -
  have ps: "parents_ok (tree_parent t)" "length (tree_parent t) = node_count t"
    using t by (simp_all add: tree_ok_def Let_def)
  obtain path where path: "longest_match fuel t target (- 1) = Some path"
    "matching t target (- 1) path" "\<forall>path'. matching t target (- 1) path' \<longrightarrow> length path' \<le> length path"
    using longest_match_total [OF ps, of "- 1" fuel target] fuel by auto
  define v where "v = \<lparr>output_tokens = map ((!) (tree_tokens t)) path
    @ [target ! (if path = [] then 0 else last path + 1)], accepted_nodes = path\<rparr>"
  have "verify_greedy_tree fuel t target = Some (Inr v)"
    using b nonneg path(1) by (auto simp: verify_greedy_tree_def branch_target_def list_ex_iff v_def)
  moreover have "target ! (if path = [] then 0 else last path + 1)
      = next_token (ctx @ map ((!) (tree_tokens t)) path)"
    using target_after_path [OF ps b path(2)] by (simp add: row_of_last)
  then have "output_tokens v = greedy next_token ctx (Suc (length path))"
    unfolding greedy_snoc matching_greedy [OF ps b path(2), symmetric] by (simp add: v_def)
  moreover have "emitted_count v = Suc (length path)" by (simp add: emitted_count_def v_def)
  moreover have "path = [] \<or> path = root_path (tree_parent t) (last path)"
    using matching_root_path [OF ps path(2)] by metis
  moreover have "length (root_path (tree_parent t) i) \<le> length path"
    if "i < node_count t" "map ((!) (tree_tokens t)) (root_path (tree_parent t) i)
       = greedy next_token ctx (length (root_path (tree_parent t) i))" for i
    using greedy_path_matches [OF ps b that] path(3) by blast
  ultimately show ?thesis by (auto simp: v_def)
qed

lemma verification_compaction:
  assumes t: "tree_ok max_nodes t" "node_count t = B7_NODE_BUDGET"
    and v: "verify_greedy_tree fuel t target = Some (Inr v)" "node_count t < fuel"
    and rows: "length rows = B7_NODE_BUDGET + 1" "length states = B7_NODE_BUDGET + 1"
  shows "compact_accepted_kv_rows rows v = Inr (rows ! 0 # map (\<lambda>node. rows ! (node + 1)) (accepted_nodes v))
    \<and> length (accepted_nodes v) + 1 = emitted_count v
    \<and> committed_gdn_state states v
        = Inr (last (states ! 0 # map (\<lambda>node. states ! (node + 1)) (accepted_nodes v)))"
proof -
  have ps: "parents_ok (tree_parent t)" "length (tree_parent t) = node_count t"
    using t(1) by (simp_all add: tree_ok_def Let_def)
  obtain path where path: "longest_match fuel t target (- 1) = Some path" "matching t target (- 1) path"
    using longest_match_total [OF ps, of "- 1" fuel target] v(2) by auto
  then have accepted: "accepted_nodes v = path" "emitted_count v = length path + 1"
    using v(1) by (auto simp: verify_greedy_tree_def emitted_count_def split: if_splits)
  have bounds: "length path \<le> B7_NODE_BUDGET \<and> (\<forall>node \<in> set path. node < B7_NODE_BUDGET)"
  proof (cases "path = []")
    case False
    note r = matching_root_path [OF ps path(2) False]
    then have "last path < length (tree_parent t)" using ps(2) by simp
    from root_path_bounds(1,2) [OF ps(1) this] r t(2) show ?thesis by fastforce
  qed simp
  then have "compact_accepted_kv_rows rows v = Inr (map ((!) rows) (accepted_replay_rows v))"
    using compaction_rows [OF rows(1), of v] accepted by auto
  then show ?thesis
    using accepted rows(2)
    by (simp add: accepted_replay_rows_def committed_gdn_state_def canonical_gdn_source_row_def last_map)
qed

text \<open>What a branch-aware greedy target predicts for the rows of a tree.\<close>

definition target_rows :: "(int list \<Rightarrow> int) \<Rightarrow> int list \<Rightarrow> 'r tree_metadata \<Rightarrow> int list" where
  "target_rows next_token ctx t =
     next_token ctx # map (\<lambda>i. next_token (ctx @ map ((!) (tree_tokens t)) (root_path (tree_parent t) i)))
       [0..<node_count t]"

lemma branch_target_rows: "branch_target next_token ctx t (target_rows next_token ctx t)"
  by (simp add: branch_target_def target_rows_def)

end
