(* ===== verification/Tree_Planner.thy ===== *)
theory Tree_Planner
  imports Tree_Verification Complex_Main "HOL-Library.Multiset"
begin

section \<open>Best-first planning of a proposal tree\<close>

text \<open>
  Model of \<open>build_best_first_dflash_tree\<close> of \<open>src/qwen_r9700_lab/dflash_trained_tree.py\<close>.  A
  score is a number or minus infinity (\<open>None\<close>); NaN and plus infinity, which the code
  refuses, are not values of the model.  The planner is stated over any ordered group of
  numbers, the log probabilities of a row of the lattice being a function of the depth and
  the predecessor's rank; the last definition is the instance the code runs, over the real
  numbers.  The heap is the bag of its entries, and \<open>heappop\<close> takes the least entry.
\<close>

definition DFLASH_DRAFT_DEPTH :: nat where "DFLASH_DRAFT_DEPTH = 7"
definition DFLASH_TOP_K :: nat where "DFLASH_TOP_K = 16"

datatype planner_error =
    BudgetNotSeven
  | TemperatureInvalid
  | CandidateRows
  | CandidateWidth
  | NegativeCandidate
  | ScorePlanes
  | ScoreRows
  | ScoreWidth
  | NoFiniteScore
  | NotEnoughNodes
  | PrefixClosureViolated
  | PathDiverges
  | RankPathsMisaligned
  | PrimaryRankLength
  | MetadataRefused tree_error

type_synonym 'r entry = "'r option \<times> nat list \<times> 'r option"

record 'r dflash_tree =
  dflash_metadata :: "'r option tree_metadata"
  candidate_ranks :: "nat list list"
  primary_ranks :: "nat list"

definition validate_candidates :: "int list list \<Rightarrow> planner_error + int list list" where
  "validate_candidates rows =
     (if length rows \<noteq> DFLASH_DRAFT_DEPTH then Inl CandidateRows
      else rbind (check_all (\<lambda>row. if length row \<noteq> DFLASH_TOP_K then Inl CandidateWidth
                    else require (\<not> list_ex (\<lambda>t. t < 0) row) NegativeCandidate) rows) (\<lambda>_. Inr rows))"

definition validate_scores :: "'r option list list list \<Rightarrow> planner_error + 'r option list list list" where
  "validate_scores planes =
     (if length planes \<noteq> DFLASH_DRAFT_DEPTH then Inl ScorePlanes
      else rbind (check_all (\<lambda>plane. if length plane \<noteq> DFLASH_TOP_K then Inl ScoreRows
                    else check_all (\<lambda>row. if length row \<noteq> DFLASH_TOP_K then Inl ScoreWidth
                           else require (\<not> list_all (\<lambda>s. s = None) row) NoFiniteScore) plane) planes)
             (\<lambda>_. Inr planes))"

subsection \<open>The frontier\<close>

text \<open>The order of the heap's tuples \<open>(-priority, path, score)\<close>.\<close>

definition heap_before :: "'r :: linorder entry \<Rightarrow> 'r entry \<Rightarrow> bool" where
  "heap_before a b =
     (case (fst a, fst b) of
        (Some x, Some y) \<Rightarrow> y < x \<or> (x = y \<and> fst (snd a) < fst (snd b))
      | (Some x, None) \<Rightarrow> True
      | (None, Some y) \<Rightarrow> False
      | (None, None) \<Rightarrow> fst (snd a) < fst (snd b))"

fun pop_least :: "'r :: linorder entry \<Rightarrow> 'r entry list \<Rightarrow> 'r entry \<times> 'r entry list" where
  "pop_least e [] = (e, [])"
| "pop_least e (f # fs) =
     (if heap_before f e then (case pop_least f fs of (m, rest) \<Rightarrow> (m, e # rest))
      else (case pop_least e fs of (m, rest) \<Rightarrow> (m, f # rest)))"

text \<open>The children of a selected path, with the scores the lattice gives them.\<close>

definition child_entries ::
  "(nat \<Rightarrow> nat \<Rightarrow> 'r :: linordered_ab_group_add option list) \<Rightarrow> (nat \<Rightarrow> 'r) \<Rightarrow> (nat \<Rightarrow> 'r)
   \<Rightarrow> nat list \<Rightarrow> 'r option \<Rightarrow> 'r entry list" where
  "child_entries log_probs bias bonus path score =
     map (\<lambda>(rank, l).
            let child = path @ [rank];
                child_score = (case (score, l) of (Some s, Some x) \<Rightarrow> Some (s + x + bias rank) | _ \<Rightarrow> None)
            in (map_option (\<lambda>s. s + bonus (length child)) child_score, child, child_score))
       (enumerate 0 (log_probs (length path) (if path = [] then 0 else last path)))"

record 'r growth =
  frontier :: "'r entry list"
  chosen :: "nat list list"
  chosen_parents :: "int list"
  chosen_scores :: "'r option list"

fun index_of :: "nat list \<Rightarrow> nat list list \<Rightarrow> nat" where
  "index_of p [] = 0"
| "index_of p (q # qs) = (if p = q then 0 else Suc (index_of p qs))"

text \<open>\<open>while len(paths) < node_budget\<close>, its argument the number of nodes still to be chosen.\<close>

fun grow ::
  "(nat \<Rightarrow> nat \<Rightarrow> 'r :: linordered_ab_group_add option list) \<Rightarrow> (nat \<Rightarrow> 'r) \<Rightarrow> (nat \<Rightarrow> 'r)
   \<Rightarrow> nat \<Rightarrow> 'r growth \<Rightarrow> planner_error + 'r growth" where
  "grow log_probs bias bonus 0 g = Inr g"
| "grow log_probs bias bonus (Suc n) g =
     (case frontier g of
        [] \<Rightarrow> Inl NotEnoughNodes
      | e # es \<Rightarrow>
          (case pop_least e es of
             ((None, path, score), rest) \<Rightarrow> Inl NotEnoughNodes
           | ((Some priority, path, score), rest) \<Rightarrow>
               let parent_path = butlast path
               in if parent_path \<noteq> [] \<and> parent_path \<notin> set (chosen g) then Inl PrefixClosureViolated
                  else let parent_index = (if parent_path = [] then - 1 else int (index_of parent_path (chosen g)));
                           new = (if DFLASH_DRAFT_DEPTH \<le> length path then []
                                  else child_entries log_probs bias bonus path score)
                       in grow log_probs bias bonus n
                            \<lparr>frontier = rest @ new, chosen = chosen g @ [path],
                             chosen_parents = chosen_parents g @ [parent_index],
                             chosen_scores = chosen_scores g @ [score]\<rparr>))"

text \<open>\<open>max(range(len(paths)), key=lambda index: (len(paths[index]), -index))\<close>.\<close>

definition deepest :: "nat list list \<Rightarrow> nat" where
  "deepest paths =
     foldl (\<lambda>best i. if length (paths ! best) < length (paths ! i) then i else best) 0 [1..<length paths]"

fun mask_list :: "int list \<Rightarrow> int list \<Rightarrow> int list" where
  "mask_list [] masks = masks"
| "mask_list (p # ps) masks =
     mask_list ps (masks @ [if p < 0 then 0 else masks ! nat p OR push_bit (nat p) 1])"

definition finish_tree :: "nat \<Rightarrow> int list list \<Rightarrow> 'r growth \<Rightarrow> planner_error + 'r dflash_tree" where
  "finish_tree budget candidates g =
     (let paths = chosen g; parents = chosen_parents g; leaf = deepest paths
      in case climb parents (int leaf) [] of
           None \<Rightarrow> Inl PathDiverges
         | Some primary \<Rightarrow>
             (case validate_tree_metadata budget
                     \<lparr>raw_tokens = Some (map (\<lambda>path. candidates ! (length path - 1) ! last path) paths),
                      raw_parent = Some parents,
                      raw_depth = Some (map (\<lambda>path. int (length path) - 1) paths),
                      raw_ancestor_mask = Some (mask_list parents []),
                      raw_primary_path = Some (map int primary),
                      raw_score = chosen_scores g\<rparr> of
                Inl e \<Rightarrow> Inl (MetadataRefused e)
              | Inr t \<Rightarrow>
                  if length paths \<noteq> node_count t then Inl RankPathsMisaligned
                  else if \<not> (1 \<le> length (paths ! leaf) \<and> length (paths ! leaf) \<le> DFLASH_DRAFT_DEPTH)
                  then Inl PrimaryRankLength
                  else Inr \<lparr>dflash_metadata = t, candidate_ranks = paths, primary_ranks = paths ! leaf\<rparr>))"

definition first_frontier ::
  "(nat \<Rightarrow> nat \<Rightarrow> 'r :: linordered_ab_group_add option list) \<Rightarrow> (nat \<Rightarrow> 'r) \<Rightarrow> (nat \<Rightarrow> 'r) \<Rightarrow> 'r growth" where
  "first_frontier log_probs bias bonus =
     \<lparr>frontier = child_entries log_probs bias bonus [] (Some 0), chosen = [], chosen_parents = [],
      chosen_scores = []\<rparr>"

definition plan_best_first ::
  "(nat \<Rightarrow> nat \<Rightarrow> 'r :: linordered_ab_group_add option list) \<Rightarrow> (nat \<Rightarrow> 'r) \<Rightarrow> (nat \<Rightarrow> 'r)
   \<Rightarrow> int list list \<Rightarrow> planner_error + 'r dflash_tree" where
  "plan_best_first log_probs bias bonus candidates =
     rbind (grow log_probs bias bonus B7_NODE_BUDGET (first_frontier log_probs bias bonus)) (\<lambda>g.
     finish_tree B7_NODE_BUDGET candidates g)"

subsection \<open>The planner over real scores\<close>

definition log_probabilities :: "real \<Rightarrow> real option list \<Rightarrow> real option list" where
  "log_probabilities temperature scores =
     (let scaled = map (map_option (\<lambda>s. s / temperature)) scores;
          finite = List.map_filter id scaled;
          maximum = foldr max (tl finite) (hd finite);
          denominator = \<Sum>s\<leftarrow>finite. exp (s - maximum);
          log_denominator = maximum + ln denominator
      in map (map_option (\<lambda>s. s - log_denominator)) scaled)"

definition build_best_first_dflash_tree ::
  "int list list \<Rightarrow> real option list list list \<Rightarrow> nat \<Rightarrow> real \<Rightarrow> real \<Rightarrow> real
   \<Rightarrow> planner_error + real dflash_tree" where
  "build_best_first_dflash_tree candidate_ids edge_scores node_budget temperature depth_bonus index_bias =
     (if node_budget \<noteq> B7_NODE_BUDGET then Inl BudgetNotSeven
      else if temperature \<le> 0 then Inl TemperatureInvalid else
      rbind (validate_candidates candidate_ids) (\<lambda>candidates.
      rbind (validate_scores edge_scores) (\<lambda>scores.
      plan_best_first (\<lambda>depth predecessor. log_probabilities temperature (scores ! depth ! predecessor))
        (\<lambda>rank. index_bias * ln (1 + real rank)) (\<lambda>n. depth_bonus * real n) candidates)))"

subsection \<open>The score of a path\<close>

fun path_score_from ::
  "(nat \<Rightarrow> nat \<Rightarrow> 'r :: linordered_ab_group_add option list) \<Rightarrow> (nat \<Rightarrow> 'r) \<Rightarrow> nat \<Rightarrow> nat
   \<Rightarrow> 'r option \<Rightarrow> nat list \<Rightarrow> 'r option" where
  "path_score_from log_probs bias depth predecessor score [] = score"
| "path_score_from log_probs bias depth predecessor score (rank # ranks) =
     path_score_from log_probs bias (depth + 1) rank
       (case (score, log_probs depth predecessor ! rank) of
          (Some s, Some x) \<Rightarrow> Some (s + x + bias rank) | _ \<Rightarrow> None) ranks"

definition path_entry ::
  "(nat \<Rightarrow> nat \<Rightarrow> 'r :: linordered_ab_group_add option list) \<Rightarrow> (nat \<Rightarrow> 'r) \<Rightarrow> (nat \<Rightarrow> 'r)
   \<Rightarrow> nat list \<Rightarrow> 'r entry" where
  "path_entry log_probs bias bonus path =
     (let score = path_score_from log_probs bias 0 0 (Some 0) path
      in (map_option (\<lambda>s. s + bonus (length path)) score, path, score))"

definition lattice_path ::
  "(nat \<Rightarrow> nat \<Rightarrow> 'r option list) \<Rightarrow> nat list \<Rightarrow> bool" where
  "lattice_path log_probs path \<longleftrightarrow>
     path \<noteq> [] \<and> length path \<le> DFLASH_DRAFT_DEPTH
     \<and> last path < length (log_probs (length path - 1) (if butlast path = [] then 0 else last (butlast path)))"

text \<open>The candidates for the next node: children of what is chosen, not chosen themselves.\<close>

definition open_paths :: "(nat \<Rightarrow> nat \<Rightarrow> 'r option list) \<Rightarrow> nat list list \<Rightarrow> nat list set" where
  "open_paths log_probs paths =
     {path. lattice_path log_probs path \<and> path \<notin> set paths
        \<and> (butlast path = [] \<or> butlast path \<in> set paths)}"

lemma path_score_snoc:
  "path_score_from log_probs bias depth predecessor score (path @ [rank])
     = (case (path_score_from log_probs bias depth predecessor score path,
              log_probs (depth + length path) (if path = [] then predecessor else last path) ! rank) of
          (Some s, Some x) \<Rightarrow> Some (s + x + bias rank) | _ \<Rightarrow> None)"
proof (induction path arbitrary: depth predecessor score)
  case (Cons a path)
  show ?case by (simp only: append_Cons path_score_from.simps Cons.IH) simp
qed simp

lemma enumerate_map: "enumerate 0 xs = map (\<lambda>i. (i, xs ! i)) [0..<length xs]"
  by (rule nth_equalityI) (simp_all add: nth_enumerate_eq)

lemma child_entries_path_entry:
  "child_entries log_probs bias bonus path (path_score_from log_probs bias 0 0 (Some 0) path)
     = map (\<lambda>rank. path_entry log_probs bias bonus (path @ [rank]))
         [0..<length (log_probs (length path) (if path = [] then 0 else last path))]"
  unfolding child_entries_def enumerate_map
  by (auto simp: path_entry_def path_score_snoc Let_def)

lemma heap_before_asym: "heap_before a b \<Longrightarrow> \<not> heap_before b a"
  by (auto simp: heap_before_def split: option.splits)

lemma heap_before_irrefl [simp]: "\<not> heap_before a a"
  by (simp add: heap_before_def split: option.splits)

lemma not_before_trans:
  "\<not> heap_before a b \<Longrightarrow> \<not> heap_before b c \<Longrightarrow> \<not> heap_before a c"
  by (auto simp: heap_before_def split: option.splits)

lemma pop_least_spec:
  assumes "pop_least e es = (m, rest)"
  shows "mset (m # rest) = mset (e # es)" "\<forall>x \<in> set (e # es). \<not> heap_before x m"
proof -
  have "mset (m # rest) = mset (e # es) \<and> (\<forall>x \<in> set (e # es). \<not> heap_before x m)"
    using assms
  proof (induction e es arbitrary: m rest rule: pop_least.induct)
    case (1 e)
    then show ?case using heap_before_irrefl by auto
  next
    case (2 e f fs)
    show ?case
    proof (cases "heap_before f e")
      case True
      obtain tail where eq: "pop_least f fs = (m, tail)" "rest = e # tail"
        using "2.prems" True by (auto split: prod.splits)
      have "\<not> heap_before e m"
        using not_before_trans [OF heap_before_asym [OF True]] "2.IH"(1) [OF True eq(1)] by (meson list.set_intros(1))
      then show ?thesis using "2.IH"(1) [OF True eq(1)] eq(2) by simp
    next
      case False
      obtain tail where eq: "pop_least e fs = (m, tail)" "rest = f # tail"
        using "2.prems" False by (auto split: prod.splits)
      have "\<not> heap_before f m"
        using not_before_trans [OF False] "2.IH"(2) [OF False eq(1)] by (meson list.set_intros(1))
      then show ?thesis using "2.IH"(2) [OF False eq(1)] eq(2) by simp
    qed
  qed
  then show "mset (m # rest) = mset (e # es)" "\<forall>x \<in> set (e # es). \<not> heap_before x m" by simp_all
qed


subsection \<open>Every chosen path is the best of the open ones\<close>

definition path_score ::
  "(nat \<Rightarrow> nat \<Rightarrow> 'r :: linordered_ab_group_add option list) \<Rightarrow> (nat \<Rightarrow> 'r) \<Rightarrow> nat list \<Rightarrow> 'r option" where
  "path_score log_probs bias path = path_score_from log_probs bias 0 0 (Some 0) path"

definition best_first ::
  "(nat \<Rightarrow> nat \<Rightarrow> 'r :: linordered_ab_group_add option list) \<Rightarrow> (nat \<Rightarrow> 'r) \<Rightarrow> (nat \<Rightarrow> 'r)
   \<Rightarrow> nat list list \<Rightarrow> bool" where
  "best_first log_probs bias bonus paths \<longleftrightarrow>
     (\<forall>k < length paths. paths ! k \<in> open_paths log_probs (take k paths)
        \<and> path_score log_probs bias (paths ! k) \<noteq> None
        \<and> (\<forall>q \<in> open_paths log_probs (take k paths).
             \<not> heap_before (path_entry log_probs bias bonus q) (path_entry log_probs bias bonus (paths ! k))))"

lemma best_first_snoc:
  "best_first L bias bonus (paths @ [p]) \<longleftrightarrow>
     best_first L bias bonus paths \<and> p \<in> open_paths L paths \<and> path_score L bias p \<noteq> None
     \<and> (\<forall>q \<in> open_paths L paths. \<not> heap_before (path_entry L bias bonus q) (path_entry L bias bonus p))"
  by (auto simp: best_first_def nth_append less_Suc_eq)

text \<open>A chosen path's parent was chosen before it.\<close>

lemma best_first_closed:
  assumes "best_first L bias bonus paths"
  shows "distinct paths"
    "k < length paths \<Longrightarrow> lattice_path L (paths ! k)"
    "k < length paths \<Longrightarrow> butlast (paths ! k) = [] \<or> butlast (paths ! k) \<in> set (take k paths)"
    "p \<in> set paths \<Longrightarrow> path_score L bias p \<noteq> None"
proof -
  show "distinct paths" using assms
  proof (induction paths rule: rev_induct)
    case (snoc p paths)
    then show ?case by (simp add: best_first_snoc open_paths_def)
  qed simp
  show "k < length paths \<Longrightarrow> lattice_path L (paths ! k)"
    "k < length paths \<Longrightarrow> butlast (paths ! k) = [] \<or> butlast (paths ! k) \<in> set (take k paths)"
    "p \<in> set paths \<Longrightarrow> path_score L bias p \<noteq> None"
    using assms by (auto simp: best_first_def open_paths_def in_set_conv_nth simp del: path_score_def)
qed

lemma best_first_parents:
  assumes "best_first L bias bonus paths" "q \<in> set paths"
  shows "butlast q = [] \<or> butlast q \<in> set paths" "lattice_path L q"
proof -
  obtain k where "k < length paths" "q = paths ! k" using assms(2) by (auto simp: in_set_conv_nth)
  then show "butlast q = [] \<or> butlast q \<in> set paths" "lattice_path L q"
    using best_first_closed(2,3) [OF assms(1), of k] by (auto dest: in_set_takeD)
qed

definition lattice_children ::
  "(nat \<Rightarrow> nat \<Rightarrow> 'r option list) \<Rightarrow> nat list \<Rightarrow> nat list set" where
  "lattice_children L p =
     (if DFLASH_DRAFT_DEPTH \<le> length p then {}
      else (\<lambda>rank. p @ [rank]) ` {0..<length (L (length p) (if p = [] then 0 else last p))})"

lemma lattice_children_iff:
  "q \<in> lattice_children L p \<longleftrightarrow> lattice_path L q \<and> butlast q = p"
proof
  assume "q \<in> lattice_children L p"
  then show "lattice_path L q \<and> butlast q = p"
    by (auto simp: lattice_children_def lattice_path_def split: if_splits)
next
  assume q: "lattice_path L q \<and> butlast q = p"
  then have "q \<noteq> []" "length q \<le> DFLASH_DRAFT_DEPTH" "q = p @ [last q]" "length p = length q - 1"
    by (auto simp: lattice_path_def)
  moreover from this have shorter: "length p < DFLASH_DRAFT_DEPTH"
    by (metis Suc_le_eq length_append_singleton)
  moreover have last: "last q < length (L (length p) (if p = [] then 0 else last p))"
    using q calculation(4) by (auto simp: lattice_path_def)
  ultimately have "p @ [last q] \<in> lattice_children L p"
    by (simp add: lattice_children_def)
  then show "q \<in> lattice_children L p" using \<open>q = p @ [last q]\<close> by simp
qed

lemma open_paths_start: "open_paths L [] = lattice_children L []"
  by (auto simp: open_paths_def lattice_children_iff)

lemma open_paths_step:
  assumes "best_first L bias bonus paths" "p \<in> open_paths L paths"
  shows "open_paths L (paths @ [p]) = (open_paths L paths - {p}) \<union> lattice_children L p"
    "open_paths L paths \<inter> lattice_children L p = {}"
proof -
  have p: "p \<noteq> []" "p \<notin> set paths" using assms(2) by (auto simp: open_paths_def lattice_path_def)
  have fresh: "q \<notin> set paths \<and> q \<noteq> p" if "lattice_path L q" "butlast q = p" for q
  proof
    show "q \<notin> set paths"
    proof
      assume "q \<in> set paths"
      then show False using best_first_parents(1) [OF assms(1), of q] that(2) p by auto
    qed
    show "q \<noteq> p"
    proof
      assume "q = p"
      then have "length p = length p - 1" using that(2) by (metis length_butlast)
      then show False using p(1) by (cases p) auto
    qed
  qed
  show "open_paths L (paths @ [p]) = (open_paths L paths - {p}) \<union> lattice_children L p"
    using fresh unfolding lattice_children_iff set_eq_iff Un_iff Diff_iff open_paths_def by auto
  show "open_paths L paths \<inter> lattice_children L p = {}"
    using p unfolding lattice_children_iff set_eq_iff Int_iff open_paths_def by auto
qed

lemma finite_lattice_children [simp]: "finite (lattice_children L p)"
  by (simp add: lattice_children_def)

lemma children_entries:
  assumes "length p < DFLASH_DRAFT_DEPTH"
  shows "mset (child_entries L bias bonus p (path_score L bias p))
       = image_mset (path_entry L bias bonus) (mset_set (lattice_children L p))"
proof -
  let ?n = "length (L (length p) (if p = [] then 0 else last p))"
  have "mset_set (lattice_children L p) = image_mset (\<lambda>rank. p @ [rank]) (mset_set {0..<?n})"
    using assms unfolding lattice_children_def
    by (subst image_mset_mset_set) (auto simp: inj_on_def)
  also have "\<dots> = mset (map (\<lambda>rank. p @ [rank]) [0..<?n])" by (simp add: mset_upt)
  finally show "mset (child_entries L bias bonus p (path_score L bias p))
       = image_mset (path_entry L bias bonus) (mset_set (lattice_children L p))"
    unfolding path_score_def child_entries_path_entry by (simp add: multiset.map_comp comp_def)
qed


subsection \<open>The planner never runs out of nodes\<close>

definition parent_index :: "nat list list \<Rightarrow> nat list \<Rightarrow> int" where
  "parent_index paths p = (if butlast p = [] then - 1 else int (index_of (butlast p) paths))"

definition growth_ok ::
  "(nat \<Rightarrow> nat \<Rightarrow> 'r :: linordered_ab_group_add option list) \<Rightarrow> (nat \<Rightarrow> 'r) \<Rightarrow> (nat \<Rightarrow> 'r)
   \<Rightarrow> 'r growth \<Rightarrow> bool" where
  "growth_ok L bias bonus g \<longleftrightarrow>
     best_first L bias bonus (chosen g) \<and> finite (open_paths L (chosen g))
     \<and> mset (frontier g) = image_mset (path_entry L bias bonus) (mset_set (open_paths L (chosen g)))
     \<and> chosen_scores g = map (path_score L bias) (chosen g)
     \<and> chosen_parents g = map (parent_index (chosen g)) (chosen g)"

definition lattice_ok :: "(nat \<Rightarrow> nat \<Rightarrow> 'r option list) \<Rightarrow> bool" where
  "lattice_ok L \<longleftrightarrow> (\<forall>depth < DFLASH_DRAFT_DEPTH. \<forall>r < DFLASH_TOP_K.
     length (L depth r) = DFLASH_TOP_K \<and> (\<exists>rank < DFLASH_TOP_K. L depth r ! rank \<noteq> None))"

lemma index_of_append: "p \<in> set xs \<Longrightarrow> index_of p (xs @ ys) = index_of p xs"
  by (induction xs) auto

lemma index_of_nth: "p \<in> set xs \<Longrightarrow> index_of p xs < length xs \<and> xs ! index_of p xs = p"
  by (induction xs) auto

lemma best_first_prefix:
  assumes "best_first L bias bonus paths" "p \<in> set paths" "1 \<le> k" "k \<le> length p"
  shows "take k p \<in> set paths"
  using assms(2-)
proof (induction p rule: rev_induct)
  case (snoc a p)
  show ?case
  proof (cases "k = Suc (length p)")
    case True
    then show ?thesis using snoc.prems by simp
  next
    case False
    then have k: "k \<le> length p" "p \<noteq> []" using snoc.prems by auto
    then have "p \<in> set paths" using best_first_parents(1) [OF assms(1) snoc.prems(1)] by simp
    then show ?thesis using snoc.IH k snoc.prems by simp
  qed
qed simp

lemma best_first_ranks:
  assumes "best_first L bias bonus paths" "lattice_ok L"
  shows "p \<in> set paths \<Longrightarrow> last p < DFLASH_TOP_K"
proof (induction p rule: length_induct)
  case (1 p)
  note q = best_first_parents [OF assms(1) "1.prems"]
  let ?r = "if butlast p = [] then 0 else last (butlast p)"
  have "p \<noteq> []" "length p - 1 < DFLASH_DRAFT_DEPTH"
    and last: "last p < length (L (length p - 1) ?r)"
    using q(2) by (auto simp: lattice_path_def DFLASH_DRAFT_DEPTH_def)
  moreover have "?r < DFLASH_TOP_K"
    using q(1) "1.IH" \<open>p \<noteq> []\<close> by (auto simp: DFLASH_TOP_K_def)
  ultimately show ?case using assms(2) by (auto simp: lattice_ok_def)
qed

lemma open_finite_score:
  assumes "best_first L bias bonus paths" "lattice_ok L" "length paths < DFLASH_DRAFT_DEPTH"
  shows "\<exists>q \<in> open_paths L paths. path_score L bias q \<noteq> None"
proof -
  have ex: "\<exists>q. q \<in> lattice_children L p \<and> path_score L bias q \<noteq> None"
    if p: "length p < DFLASH_DRAFT_DEPTH" "p = [] \<or> last p < DFLASH_TOP_K" "path_score L bias p \<noteq> None" for p
  proof -
    let ?r = "if p = [] then 0 else last p"
    have "?r < DFLASH_TOP_K" using p(2) by (auto simp: DFLASH_TOP_K_def)
    then obtain rank where r: "rank < length (L (length p) ?r)" "L (length p) ?r ! rank \<noteq> None"
      using assms(2) p(1) unfolding lattice_ok_def by metis
    then have "p @ [rank] \<in> lattice_children L p" using p(1) by (simp add: lattice_children_def)
    moreover have "path_score L bias (p @ [rank]) \<noteq> None"
      using p(3) r(2) by (auto simp: path_score_def path_score_snoc)
    ultimately show ?thesis by blast
  qed
  show ?thesis
  proof (cases "paths = []")
    case True
    then show ?thesis
      using ex [of "[]"] by (auto simp: open_paths_start path_score_def DFLASH_DRAFT_DEPTH_def)
  next
    case False
    then obtain p where p: "p \<in> set paths" and longest: "\<forall>q \<in> set paths. length q \<le> length p"
      using finite_set [of paths] Max_in [of "length ` set paths"] Max_ge [of "length ` set paths"]
      by (metis (no_types, lifting) List.finite_set finite_imageI imageE image_eqI image_is_empty set_empty)
    have "(\<lambda>k. take k p) ` {1..length p} \<subseteq> set paths"
      using best_first_prefix [OF assms(1) p] by auto
    then have "card ((\<lambda>k. take k p) ` {1..length p}) \<le> length paths"
      by (meson card_length card_mono finite_set le_trans)
    moreover have "inj_on (\<lambda>k. take k p) {1..length p}"
      by (rule inj_onI) (metis atLeastAtMost_iff length_take min.absorb2)
    ultimately have "length p \<le> length paths" by (simp add: card_image)
    then obtain q where q: "lattice_path L q" "butlast q = p" "path_score L bias q \<noteq> None"
      using ex [of p] assms(3) best_first_ranks [OF assms(1,2) p] best_first_closed(4) [OF assms(1) p]
      unfolding lattice_children_iff by auto
    have "q \<notin> set paths"
    proof
      assume "q \<in> set paths"
      then have "length q \<le> length (butlast q)" using longest q(2) by blast
      then show False using q(1) by (cases q rule: rev_cases) (auto simp: lattice_path_def)
    qed
    then show ?thesis using q p by (auto simp: open_paths_def)
  qed
qed


lemma grow_step:
  assumes ok: "growth_ok L bias bonus g" and lat: "lattice_ok L"
    and room: "length (chosen g) < DFLASH_DRAFT_DEPTH"
  shows "\<exists>g'. growth_ok L bias bonus g' \<and> length (chosen g') = Suc (length (chosen g))
    \<and> grow L bias bonus (Suc n) g = grow L bias bonus n g'"
proof -
  let ?entry = "path_entry L bias bonus" and ?open = "open_paths L (chosen g)"
  have best: "best_first L bias bonus (chosen g)" and fin: "finite ?open"
    and front: "mset (frontier g) = image_mset ?entry (mset_set ?open)"
    and scores: "chosen_scores g = map (path_score L bias) (chosen g)"
    and parents: "chosen_parents g = map (parent_index (chosen g)) (chosen g)"
    using ok by (simp_all add: growth_ok_def)
  have members: "set (frontier g) = ?entry ` ?open"
    using arg_cong [OF front, of set_mset] fin by simp
  obtain q where q: "q \<in> ?open" "path_score L bias q \<noteq> None"
    using open_finite_score [OF best lat room] by blast
  then obtain e es where es: "frontier g = e # es"
    using members by (cases "frontier g") auto
  obtain m rest where pop: "pop_least e es = (m, rest)" by (cases "pop_least e es")
  note spec = pop_least_spec [OF pop]
  have "m \<in> set (frontier g)" using arg_cong [OF spec(1), of set_mset] es by auto
  then obtain p where p: "p \<in> ?open" "m = ?entry p" using members by auto
  have least: "\<forall>r \<in> ?open. \<not> heap_before (?entry r) (?entry p)"
    using spec(2) members es p(2) by auto
  have "path_score L bias p \<noteq> None"
  proof
    assume "path_score L bias p = None"
    then have "heap_before (?entry q) (?entry p)"
      using q(2) by (auto simp: heap_before_def path_entry_def path_score_def)
    then show False using least q(1) by blast
  qed
  then obtain x where x: "path_score L bias p = Some x" by blast
  then have m: "m = (Some (x + bonus (length p)), p, path_score L bias p)"
    using p(2) by (simp add: path_entry_def path_score_def)
  have path: "p \<noteq> []" "butlast p = [] \<or> butlast p \<in> set (chosen g)"
    using p(1) by (auto simp: open_paths_def lattice_path_def)
  define new where "new = (if DFLASH_DRAFT_DEPTH \<le> length p then []
    else child_entries L bias bonus p (path_score L bias p))"
  define g' where "g' = \<lparr>frontier = rest @ new, chosen = chosen g @ [p],
    chosen_parents = chosen_parents g @ [parent_index (chosen g) p],
    chosen_scores = chosen_scores g @ [path_score L bias p]\<rparr>"
  have step: "grow L bias bonus (Suc n) g = grow L bias bonus n g'"
    using es pop m path(2) by (auto simp: g'_def new_def parent_index_def)
  have best': "best_first L bias bonus (chosen g @ [p])"
    using best p(1) least x by (simp add: best_first_snoc)
  note opens = open_paths_step [OF best p(1)]
  have children: "mset new = image_mset ?entry (mset_set (lattice_children L p))"
    using children_entries [of p L bias bonus] by (auto simp: new_def lattice_children_def not_le)
  have "add_mset m (mset rest) = image_mset ?entry (mset_set ?open)"
    using spec(1) es front by simp
  also have "mset_set ?open = add_mset p (mset_set (?open - {p}))"
    using fin p(1) by (rule mset_set.remove)
  finally have rest: "mset rest = image_mset ?entry (mset_set (?open - {p}))"
    using p(2) by simp
  have "mset_set ((?open - {p}) \<union> lattice_children L p)
      = mset_set (?open - {p}) + mset_set (lattice_children L p)"
    using fin opens(2) by (intro mset_set_Union) auto
  then have front': "mset (rest @ new) = image_mset ?entry (mset_set (open_paths L (chosen g @ [p])))"
    using rest children opens(1) by simp
  have index: "parent_index (chosen g @ [p]) r = parent_index (chosen g) r"
    if "r = p \<or> r \<in> set (chosen g)" for r
  proof -
    have "butlast r = [] \<or> butlast r \<in> set (chosen g)"
      using that path(2) best_first_parents(1) [OF best] by blast
    then show ?thesis by (auto simp: parent_index_def index_of_append)
  qed
  have "growth_ok L bias bonus g'"
    using best' front' fin opens(1) scores parents index
    by (simp add: growth_ok_def g'_def)
  moreover have "length (chosen g') = Suc (length (chosen g))" by (simp add: g'_def)
  ultimately show ?thesis using step by blast
qed

lemma grow_total:
  assumes "growth_ok L bias bonus g" "lattice_ok L" "n + length (chosen g) \<le> DFLASH_DRAFT_DEPTH"
  shows "\<exists>g'. grow L bias bonus n g = Inr g' \<and> growth_ok L bias bonus g'
    \<and> length (chosen g') = n + length (chosen g)"
  using assms(1,3)
proof (induction n arbitrary: g)
  case (Suc n)
  then obtain g1 where g1: "growth_ok L bias bonus g1" "length (chosen g1) = Suc (length (chosen g))"
    "grow L bias bonus (Suc n) g = grow L bias bonus n g1"
    using grow_step [OF Suc.prems(1) assms(2), of n] by auto
  then show ?case using Suc.IH [of g1] Suc.prems(2) by auto
qed simp

lemma first_frontier_ok:
  "growth_ok L bias bonus (first_frontier L bias bonus)"
  using children_entries [of "[]" L bias bonus]
  by (simp add: growth_ok_def first_frontier_def best_first_def open_paths_start
      path_score_def DFLASH_DRAFT_DEPTH_def)


subsection \<open>The finished tree\<close>

lemma mask_list_plan: "plan_nodes ps ds ms = Inr (a, b) \<Longrightarrow> mask_list ps ms = b"
  by (induction ps arbitrary: ds ms) (auto split: if_splits)

lemma deepest_longest:
  assumes "paths \<noteq> []"
  shows "deepest paths < length paths \<and> (\<forall>i < length paths. length (paths ! i) \<le> length (paths ! deepest paths))"
proof -
  define f where "f = (\<lambda>best i. if length (paths ! best) < length (paths ! i) then i else best)"
  have "foldl f 0 [1..<Suc n] \<le> n \<and> (\<forall>i \<le> n. length (paths ! i) \<le> length (paths ! foldl f 0 [1..<Suc n]))" for n
  proof (induction n)
    case (Suc n)
    have "foldl f 0 [1..<Suc (Suc n)] = f (foldl f 0 [1..<Suc n]) (Suc n)" by simp
    then show ?case using Suc by (auto simp: f_def le_Suc_eq simp del: upt_Suc)
  qed simp
  from this [of "length paths - 1"] show ?thesis
    using assms by (cases "length paths") (auto simp: deepest_def f_def less_Suc_eq_le simp del: upt_Suc)
qed

text \<open>The nodes above a node are the prefixes of its path.\<close>

lemma chosen_parents_ok:
  assumes "best_first L bias bonus paths"
  shows "parents_ok (map (parent_index paths) paths)"
    "i < length paths \<Longrightarrow> parent_index paths (paths ! i) < 0 \<longleftrightarrow> butlast (paths ! i) = []"
    "i < length paths \<Longrightarrow> \<not> parent_index paths (paths ! i) < 0 \<Longrightarrow>
       nat (parent_index paths (paths ! i)) < i
       \<and> paths ! nat (parent_index paths (paths ! i)) = butlast (paths ! i)"
proof -
  have index: "index_of (butlast (paths ! i)) paths < i
      \<and> paths ! index_of (butlast (paths ! i)) paths = butlast (paths ! i)"
    if i: "i < length paths" and p: "butlast (paths ! i) \<noteq> []" for i
  proof -
    have m: "butlast (paths ! i) \<in> set (take i paths)" using best_first_closed(3) [OF assms i] p by blast
    then have "index_of (butlast (paths ! i)) paths = index_of (butlast (paths ! i)) (take i paths)"
      using index_of_append [OF m, of "drop i paths"] by simp
    then show ?thesis using index_of_nth [OF m] i by (metis length_take min.absorb2 less_imp_le nth_take)
  qed
  then show "i < length paths \<Longrightarrow> \<not> parent_index paths (paths ! i) < 0 \<Longrightarrow>
       nat (parent_index paths (paths ! i)) < i
       \<and> paths ! nat (parent_index paths (paths ! i)) = butlast (paths ! i)"
    by (auto simp: parent_index_def split: if_splits)
  show "parents_ok (map (parent_index paths) paths)"
    unfolding parents_ok_def
  proof (intro allI impI)
    fix i assume "i < length (map (parent_index paths) paths)"
    then show "- 1 \<le> map (parent_index paths) paths ! i \<and> map (parent_index paths) paths ! i < int i"
      using index [of i] by (auto simp: parent_index_def)
  qed
  show "i < length paths \<Longrightarrow> parent_index paths (paths ! i) < 0 \<longleftrightarrow> butlast (paths ! i) = []"
    by (simp add: parent_index_def)
qed

definition path_prefixes :: "'a list \<Rightarrow> 'a list list" where
  "path_prefixes p = map (\<lambda>k. take k p) [1..<Suc (length p)]"

lemma path_prefixes_snoc: "path_prefixes (p @ [a]) = path_prefixes p @ [p @ [a]]"
  by (auto simp: path_prefixes_def)

lemma root_path_prefixes:
  assumes best: "best_first L bias bonus paths" and i: "i < length paths"
  shows "map (\<lambda>j. paths ! j) (root_path (map (parent_index paths) paths) i) = path_prefixes (paths ! i)"
  using i
proof (induction i rule: less_induct)
  case (less i)
  let ?ps = "map (parent_index paths) paths"
  note ok = chosen_parents_ok [OF best]
  have step: "root_path ?ps i = (if parent_index paths (paths ! i) < 0 then [i]
      else root_path ?ps (nat (parent_index paths (paths ! i))) @ [i])"
    using root_path_step [OF ok(1), of i] less.prems by simp
  have "paths ! i \<noteq> []" using best_first_closed(2) [OF best less.prems] by (simp add: lattice_path_def)
  then obtain p a where p: "paths ! i = p @ [a]" by (cases "paths ! i" rule: rev_cases) auto
  show ?case
  proof (cases "parent_index paths (paths ! i) < 0")
    case True
    then have "p = []" using ok(2) [OF less.prems] p by simp
    then show ?thesis using True step p by (simp add: path_prefixes_def)
  next
    case False
    note par = ok(3) [OF less.prems False]
    then have "map (\<lambda>j. paths ! j) (root_path ?ps (nat (parent_index paths (paths ! i)))) = path_prefixes p"
      using less.IH [of "nat (parent_index paths (paths ! i))"] less.prems p by simp
    then show ?thesis using False step p by (simp add: path_prefixes_snoc)
  qed
qed


lemma finish_tree_total:
  assumes g: "growth_ok L bias bonus g" "lattice_ok L"
    and n: "chosen g \<noteq> []" "length (chosen g) = budget"
    and candidates: "validate_candidates candidates = Inr rows"
  shows "\<exists>t. finish_tree budget candidates g = Inr t \<and> candidate_ranks t = chosen g
    \<and> primary_ranks t = chosen g ! deepest (chosen g)
    \<and> tree_tokens (dflash_metadata t) = map (\<lambda>p. candidates ! (length p - 1) ! last p) (chosen g)
    \<and> tree_score (dflash_metadata t) = map (path_score L bias) (chosen g)
    \<and> tree_ok budget (dflash_metadata t)
    \<and> validate_tree_metadata budget (as_dict (dflash_metadata t)) = Inr (dflash_metadata t)
    \<and> tree_primary (dflash_metadata t) = map int (root_path (tree_parent (dflash_metadata t)) (deepest (chosen g)))
    \<and> (\<forall>i < budget. map (\<lambda>j. chosen g ! j) (root_path (tree_parent (dflash_metadata t)) i)
            = path_prefixes (chosen g ! i)
         \<and> visible_nodes (dflash_metadata t) (int i)
            = Inr (root_path (tree_parent (dflash_metadata t)) i))"
proof -
  let ?paths = "chosen g"
  let ?ps = "map (parent_index ?paths) ?paths"
  let ?leaf = "deepest ?paths"
  let ?tokens = "map (\<lambda>p. candidates ! (length p - 1) ! last p) ?paths"
  have best: "best_first L bias bonus ?paths" and scores: "chosen_scores g = map (path_score L bias) ?paths"
    and parents: "chosen_parents g = ?ps"
    using g(1) by (simp_all add: growth_ok_def)
  note ps = chosen_parents_ok(1) [OF best]
  have leaf: "?leaf < length ?ps" using deepest_longest [OF n(1)] by simp
  obtain plan where plan: "build_tree_plan ?ps = Inr plan"
    using build_tree_plan_total [OF _ ps] n(1) by auto
  note p = build_tree_plan_Inr [OF plan]
  have mask: "mask_list ?ps [] = plan_mask plan"
    using plan mask_list_plan [of ?ps "[]" "[]"]
    by (auto simp: build_tree_plan_def result_simps split: if_splits)
  have depth: "plan_depth plan ! i = int (length (?paths ! i)) - 1" if "i < length ?ps" for i
  proof -
    have "length (root_path ?ps i) = length (path_prefixes (?paths ! i))"
      using root_path_prefixes [OF best, of i] that by (metis length_map)
    then show ?thesis using depth_path [OF p(4) that] by (simp add: path_prefixes_def del: upt_Suc)
  qed
  have depths: "map (\<lambda>p. int (length p) - 1) ?paths = plan_depth plan"
    by (rule nth_equalityI) (use depth plan_okD(1) [OF p(4)] in simp_all)
  have nonneg: "\<forall>t \<in> set ?tokens. 0 \<le> t"
  proof
    fix t assume "t \<in> set ?tokens"
    then obtain q where q: "q \<in> set ?paths" "t = candidates ! (length q - 1) ! last q" by auto
    have "length q - 1 < DFLASH_DRAFT_DEPTH"
      using best_first_parents(2) [OF best q(1)] by (auto simp: lattice_path_def DFLASH_DRAFT_DEPTH_def)
    moreover have "last q < DFLASH_TOP_K" using best_first_ranks [OF best g(2) q(1)] .
    moreover have "length candidates = DFLASH_DRAFT_DEPTH"
      "\<forall>row \<in> set candidates. length row = DFLASH_TOP_K \<and> (\<forall>x \<in> set row. 0 \<le> x)"
      using candidates
      by (auto simp: validate_candidates_def result_simps check_all_Inr_iff list_ex_iff not_less
          split: if_splits)
    ultimately show "0 \<le> t" unfolding q(2) by (metis nth_mem)
  qed
  obtain t where t: "validate_tree_metadata budget
      (plan_mapping ?tokens plan (root_path ?ps ?leaf) (map (path_score L bias) ?paths)) = Inr t"
    "tree_tokens t = ?tokens" "tree_parent t = ?ps" "tree_mask t = plan_mask plan"
    "tree_primary t = map int (root_path ?ps ?leaf)"
    using plan_validates [OF plan, of budget ?tokens ?leaf "map (path_score L bias) ?paths"]
      n(2) nonneg leaf by auto
  have score: "tree_score t = map (path_score L bias) ?paths"
    using validated_tree_ok(2) [OF t(1)] by (simp add: as_dict_def plan_mapping_def)
  have again: "validate_tree_metadata budget (as_dict t) = Inr t"
    using t(1) validated_tree_ok(2) [OF t(1)] by simp
  have count: "node_count t = length ?paths" by (simp add: node_count_def t(2))
  have visible: "visible_nodes t (int i) = Inr (root_path ?ps i)" if "i < budget" for i
    using plan_visibility [OF plan, of i t] that n(2) count t(4) by simp
  have primary: "length (?paths ! ?leaf) \<le> DFLASH_DRAFT_DEPTH" "1 \<le> length (?paths ! ?leaf)"
    using best_first_closed(2) [OF best, of ?leaf] leaf by (auto simp: lattice_path_def Suc_le_eq)
  have "finish_tree budget candidates g
      = Inr \<lparr>dflash_metadata = t, candidate_ranks = ?paths, primary_ranks = ?paths ! ?leaf\<rparr>"
    using t(1) climb_path [OF ps leaf, of "[]"] count primary p(1)
    by (simp add: finish_tree_def Let_def parents scores mask depths plan_mapping_def)
  then show ?thesis
    using t(2,3,5) score validated_tree_ok(1) [OF t(1)] again visible root_path_prefixes [OF best] n(2)
    by simp
qed

subsection \<open>The real-valued instance\<close>

lemma log_probabilities_support:
  "length (log_probabilities temperature scores) = length scores"
  "i < length scores \<Longrightarrow> log_probabilities temperature scores ! i = None \<longleftrightarrow> scores ! i = None"
  by (simp_all add: log_probabilities_def Let_def)

lemma validated_lattice:
  assumes "validate_scores planes = Inr scores"
  shows "lattice_ok (\<lambda>depth predecessor. log_probabilities temperature (scores ! depth ! predecessor))"
  unfolding lattice_ok_def
proof (intro allI impI)
  fix depth r assume d: "depth < DFLASH_DRAFT_DEPTH" "r < DFLASH_TOP_K"
  have eq: "planes = scores" "length planes = DFLASH_DRAFT_DEPTH"
    and rows: "\<forall>plane \<in> set planes. length plane = DFLASH_TOP_K \<and> (\<forall>row \<in> set plane.
      length row = DFLASH_TOP_K \<and> \<not> list_all (\<lambda>s. s = None) row)"
    using assms by (auto simp: validate_scores_def result_simps check_all_Inr_iff split: if_splits)
  then have plane: "planes ! depth \<in> set planes" using d by simp
  then have "planes ! depth ! r \<in> set (planes ! depth)" using rows d by (metis nth_mem)
  then have row: "length (planes ! depth ! r) = DFLASH_TOP_K"
    "\<not> list_all (\<lambda>s. s = None) (planes ! depth ! r)" using rows plane by blast+
  then obtain rank where rank: "rank < DFLASH_TOP_K" "planes ! depth ! r ! rank \<noteq> None"
    by (auto simp: list_all_length)
  then have "log_probabilities temperature (planes ! depth ! r) ! rank \<noteq> None"
    using log_probabilities_support(2) [of rank "planes ! depth ! r" temperature] row(1) by simp
  then show "length (log_probabilities temperature (scores ! depth ! r)) = DFLASH_TOP_K
      \<and> (\<exists>rank < DFLASH_TOP_K. log_probabilities temperature (scores ! depth ! r) ! rank \<noteq> None)"
    using row(1) eq(1) rank(1) log_probabilities_support(1) [of temperature "planes ! depth ! r"] by metis
qed

text \<open>What the planner returns for an accepted lattice.\<close>

lemma planned_tree:
  fixes temperature depth_bonus index_bias :: real
  assumes c: "validate_candidates candidates = Inr rows" and s: "validate_scores edge_scores = Inr scores"
    and temperature: "0 < temperature"
  defines "L \<equiv> \<lambda>depth predecessor. log_probabilities temperature (scores ! depth ! predecessor)"
    and "bias \<equiv> \<lambda>rank. index_bias * ln (1 + real rank)" and "bonus \<equiv> \<lambda>n. depth_bonus * real n"
  shows "\<exists>t. build_best_first_dflash_tree candidates edge_scores B7_NODE_BUDGET temperature depth_bonus index_bias = Inr t
    \<and> length (candidate_ranks t) = B7_NODE_BUDGET \<and> best_first L bias bonus (candidate_ranks t)
    \<and> tree_ok B7_NODE_BUDGET (dflash_metadata t)
    \<and> validate_tree_metadata B7_NODE_BUDGET (as_dict (dflash_metadata t)) = Inr (dflash_metadata t)
    \<and> tree_tokens (dflash_metadata t) = map (\<lambda>path. candidates ! (length path - 1) ! last path) (candidate_ranks t)
    \<and> tree_score (dflash_metadata t) = map (path_score L bias) (candidate_ranks t)
    \<and> primary_ranks t \<in> set (candidate_ranks t)
    \<and> (\<forall>path \<in> set (candidate_ranks t). length path \<le> length (primary_ranks t))
    \<and> (\<forall>i < B7_NODE_BUDGET. \<exists>nodes. visible_nodes (dflash_metadata t) (int i) = Inr nodes
         \<and> map (\<lambda>j. candidate_ranks t ! j) nodes = path_prefixes (candidate_ranks t ! i))"
proof -
  have L: "lattice_ok L" unfolding L_def by (rule validated_lattice [OF s])
  obtain g where g: "grow L bias bonus B7_NODE_BUDGET (first_frontier L bias bonus) = Inr g"
    "growth_ok L bias bonus g" "length (chosen g) = B7_NODE_BUDGET"
    using grow_total [OF first_frontier_ok L, of B7_NODE_BUDGET bias bonus]
    by (auto simp: first_frontier_def DFLASH_DRAFT_DEPTH_def B7_NODE_BUDGET_def)
  then have ne: "chosen g \<noteq> []" by (auto simp: B7_NODE_BUDGET_def)
  obtain t where t: "finish_tree B7_NODE_BUDGET candidates g = Inr t" "candidate_ranks t = chosen g"
    "primary_ranks t = chosen g ! deepest (chosen g)"
    "tree_tokens (dflash_metadata t) = map (\<lambda>p. candidates ! (length p - 1) ! last p) (chosen g)"
    "tree_score (dflash_metadata t) = map (path_score L bias) (chosen g)"
    "tree_ok B7_NODE_BUDGET (dflash_metadata t)"
    "validate_tree_metadata B7_NODE_BUDGET (as_dict (dflash_metadata t)) = Inr (dflash_metadata t)"
    "\<forall>i < B7_NODE_BUDGET. map (\<lambda>j. chosen g ! j) (root_path (tree_parent (dflash_metadata t)) i)
         = path_prefixes (chosen g ! i)
       \<and> visible_nodes (dflash_metadata t) (int i) = Inr (root_path (tree_parent (dflash_metadata t)) i)"
    using finish_tree_total [OF g(2) L ne g(3) c] by blast
  have "rows = candidates" using c by (auto simp: validate_candidates_def result_simps split: if_splits)
  then have "build_best_first_dflash_tree candidates edge_scores B7_NODE_BUDGET temperature depth_bonus index_bias = Inr t"
    using c s temperature g(1) t(1)
    by (simp add: build_best_first_dflash_tree_def plan_best_first_def L_def bias_def bonus_def)
  moreover have "primary_ranks t \<in> set (chosen g)"
    "\<forall>path \<in> set (chosen g). length path \<le> length (primary_ranks t)"
    using deepest_longest [OF ne] t(3) by (auto simp: in_set_conv_nth)
  moreover have "best_first L bias bonus (chosen g)" using g(2) by (simp add: growth_ok_def)
  moreover have "\<forall>i < B7_NODE_BUDGET. \<exists>nodes. visible_nodes (dflash_metadata t) (int i) = Inr nodes
         \<and> map (\<lambda>j. chosen g ! j) nodes = path_prefixes (chosen g ! i)"
    using t(8) by blast
  ultimately show ?thesis
    using g(3) t(4-7) by (intro exI [of _ t]) (simp only: t(2) simp_thms)
qed

end
