(* ===== verification/Bole_Reference.thy ===== *)
theory Bole_Reference
  imports Tree_Contract
begin

section \<open>Verification of a proposal tree: the factorized form and its reference\<close>

text \<open>
  Model of \<open>src/qwen_r9700_lab/bole_reference.py\<close>: \<open>sequential_verify\<close>, \<open>bole_verify\<close> and
  \<open>commit_state\<close>.  Vectors and matrices are lists; the numbers are the elements of a field,
  so that rounding and the tests for infinities and NaN are outside of the model, and a
  division by zero raises, as it does in Python.
\<close>

type_synonym 'a vec = "'a list"
type_synonym 'a mat = "'a list list"

record 'a tree_inputs =
  in_q :: "'a vec list"
  in_k :: "'a vec list"
  in_v :: "'a vec list"
  in_beta :: "'a list"
  in_gamma :: "'a list"

record 'a tree_result =
  res_outputs :: "'a vec list"
  factors_p :: "'a list"
  factors_u :: "'a vec list"

definition plan_count :: "tree_plan \<Rightarrow> nat" where
  "plan_count plan = length (plan_parent plan)"

subsection \<open>Vectors and matrices\<close>

definition check_matrix :: "'a list list \<Rightarrow> nat \<Rightarrow> nat \<Rightarrow> tree_error + unit" where
  "check_matrix m rows cols =
     require (length m = rows \<and> list_all (\<lambda>r. length r = cols) m) BadShape"

definition dot :: "'a :: field vec \<Rightarrow> 'a vec \<Rightarrow> 'a" where
  "dot left right = sum_list (map2 (*) left right)"

definition mat_vec_transpose :: "'a :: field mat \<Rightarrow> 'a vec \<Rightarrow> 'a vec" where
  "mat_vec_transpose state vector =
     map (\<lambda>col. \<Sum>row\<leftarrow>[0..<length state]. state ! row ! col * vector ! row) [0..<length (state ! 0)]"

definition state_add_scaled_outer :: "'a :: field mat \<Rightarrow> 'a \<Rightarrow> 'a vec \<Rightarrow> 'a vec \<Rightarrow> 'a mat" where
  "state_add_scaled_outer state scale left right =
     map (\<lambda>row. map (\<lambda>col. state ! row ! col + scale * left ! row * right ! col)
                  [0..<length (state ! row)]) [0..<length state]"

definition vector_sub :: "'a :: field vec \<Rightarrow> 'a vec \<Rightarrow> 'a vec" where
  "vector_sub left right = map2 (-) left right"

definition scale_vector :: "'a :: field \<Rightarrow> 'a vec \<Rightarrow> 'a vec" where
  "scale_vector scale vector = map ((*) scale) vector"

definition quotient :: "'a :: field \<Rightarrow> 'a \<Rightarrow> tree_error + 'a" where
  "quotient a b = (if b = 0 then Inl DivisionByZero else Inr (a / b))"

definition validate_inputs ::
  "'a mat \<Rightarrow> tree_plan \<Rightarrow> 'a tree_inputs \<Rightarrow> tree_error + nat \<times> nat" where
  "validate_inputs state_pre plan inputs =
     (if state_pre = [] \<or> state_pre ! 0 = [] then Inl BadShape else
      let dk = length state_pre; dv = length (state_pre ! 0); n = plan_count plan
      in rbind (check_matrix state_pre dk dv) (\<lambda>_.
         if length (in_q inputs) \<noteq> n \<or> length (in_k inputs) \<noteq> n \<or> length (in_v inputs) \<noteq> n
         then Inl BadShape
         else if length (in_beta inputs) \<noteq> n \<or> length (in_gamma inputs) \<noteq> n then Inl BadShape else
         rbind (check_matrix (in_q inputs) n dk) (\<lambda>_.
         rbind (check_matrix (in_k inputs) n dk) (\<lambda>_.
         rbind (check_matrix (in_v inputs) n dv) (\<lambda>_. Inr (dk, dv))))))"

text \<open>A \<open>for\<close> loop whose body may raise, over an accumulator.\<close>

fun each :: "('x \<Rightarrow> 's \<Rightarrow> 'e + 's) \<Rightarrow> 'x list \<Rightarrow> 's \<Rightarrow> 'e + 's" where
  "each f [] acc = Inr acc"
| "each f (x # xs) acc = rbind (f x acc) (each f xs)"

subsection \<open>The reference: one state per node\<close>

type_synonym 'a seq_acc = "'a mat list \<times> 'a vec list \<times> 'a list \<times> 'a vec list"

definition seq_step ::
  "'a :: field mat \<Rightarrow> tree_plan \<Rightarrow> 'a tree_inputs \<Rightarrow> nat \<Rightarrow> 'a seq_acc \<Rightarrow> tree_error + 'a seq_acc" where
  "seq_step state_pre plan inputs index = (\<lambda>(states, outputs, ps, us).
     let parent = plan_parent plan ! index; g = in_gamma inputs ! index
     in if 0 \<le> parent \<and> length states \<le> nat parent then Inl NodeIndexError else
        let parent_state = (if parent < 0 then state_pre else states ! nat parent);
            p = (if parent < 0 then g else ps ! nat parent * g);
            tilde = map (map ((*) g)) parent_state;
            u = scale_vector (in_beta inputs ! index)
                  (vector_sub (in_v inputs ! index) (mat_vec_transpose tilde (in_k inputs ! index)));
            state = state_add_scaled_outer tilde 1 (in_k inputs ! index) u;
            out = mat_vec_transpose state (in_q inputs ! index)
        in Inr (states @ [state], outputs @ [out], ps @ [p], us @ [u]))"

definition seq_run ::
  "'a :: field mat \<Rightarrow> tree_plan \<Rightarrow> 'a tree_inputs \<Rightarrow> tree_error + 'a seq_acc" where
  "seq_run state_pre plan inputs =
     rbind (validate_inputs state_pre plan inputs) (\<lambda>_.
     each (seq_step state_pre plan inputs) [0..<plan_count plan] ([], [], [], []))"

definition sequential_verify ::
  "'a :: field mat \<Rightarrow> tree_plan \<Rightarrow> 'a tree_inputs \<Rightarrow> tree_error + 'a tree_result" where
  "sequential_verify state_pre plan inputs =
     rbind (seq_run state_pre plan inputs) (\<lambda>(states, outputs, ps, us).
     Inr \<lparr>res_outputs = outputs, factors_p = ps, factors_u = us\<rparr>)"

subsection \<open>The factorized form\<close>

definition gate_step :: "tree_plan \<Rightarrow> 'a :: field tree_inputs \<Rightarrow> nat \<Rightarrow> 'a list \<Rightarrow> tree_error + 'a list" where
  "gate_step plan inputs index ps =
     (let parent = plan_parent plan ! index; g = in_gamma inputs ! index
      in if 0 \<le> parent \<and> length ps \<le> nat parent then Inl NodeIndexError
         else Inr (ps[index := if parent < 0 then g else ps ! nat parent * g]))"

definition gate_products :: "tree_plan \<Rightarrow> 'a :: field tree_inputs \<Rightarrow> tree_error + 'a list" where
  "gate_products plan inputs =
     each (gate_step plan inputs) [0..<plan_count plan] (replicate (plan_count plan) 0)"

definition right_hand_side ::
  "'a :: field mat \<Rightarrow> 'a tree_inputs \<Rightarrow> nat \<Rightarrow> 'a list \<Rightarrow> nat \<Rightarrow> 'a vec" where
  "right_hand_side state_pre inputs dv ps index =
     (let projected = mat_vec_transpose state_pre (in_k inputs ! index)
      in map (\<lambda>col. in_beta inputs ! index * (in_v inputs ! index ! col - ps ! index * projected ! col))
           [0..<dv])"

text \<open>
  \<open>while ancestor: bit = ancestor & -ancestor; parent_index = bit.bit_length() - 1; ...;
  ancestor ^= bit\<close>: the loop visits the set bits of the mask, lowest first.
\<close>

function bit_length :: "int \<Rightarrow> nat" where
  "bit_length n = (if n \<le> 0 then 0 else Suc (bit_length (n div 2)))"
  by auto
termination by (relation "measure nat") auto

declare bit_length.simps [simp del]

partial_function (option) mask_bits :: "int \<Rightarrow> nat list \<Rightarrow> nat list option" where
  "mask_bits ancestor visited =
     (if ancestor = 0 then Some visited
      else let b = ancestor AND - ancestor
           in mask_bits (ancestor XOR b) (visited @ [bit_length b - 1]))"

definition gram_entry ::
  "'a :: field tree_inputs \<Rightarrow> 'a list \<Rightarrow> nat \<Rightarrow> nat \<Rightarrow> 'a list \<Rightarrow> tree_error + 'a list" where
  "gram_entry inputs ps index j row =
     rbind (quotient (ps ! index) (ps ! j)) (\<lambda>ratio.
     Inr (row[j := in_beta inputs ! index * ratio * dot (in_k inputs ! index) (in_k inputs ! j)]))"

text \<open>The loop over the mask does not end for a negative mask: then there is no row.\<close>

definition gram_row ::
  "tree_plan \<Rightarrow> 'a :: field tree_inputs \<Rightarrow> 'a list \<Rightarrow> nat \<Rightarrow> (tree_error + 'a list) option" where
  "gram_row plan inputs ps index =
     map_option (\<lambda>js. each (gram_entry inputs ps index) js (replicate (plan_count plan) 0))
       (mask_bits (plan_mask plan ! index) [])"

fun gram_rows ::
  "tree_plan \<Rightarrow> 'a :: field tree_inputs \<Rightarrow> 'a list \<Rightarrow> nat list \<Rightarrow> (tree_error + 'a list list) option" where
  "gram_rows plan inputs ps [] = Some (Inr [])"
| "gram_rows plan inputs ps (i # is) =
     (case gram_row plan inputs ps i of
        None \<Rightarrow> None
      | Some (Inl e) \<Rightarrow> Some (Inl e)
      | Some (Inr row) \<Rightarrow>
          map_option (\<lambda>r. rbind r (\<lambda>rows. Inr (row # rows))) (gram_rows plan inputs ps is))"

text \<open>One term of the series: \<open>next_z = -G z\<close>, skipping zero coefficients.\<close>

definition add_scaled :: "'a :: field \<Rightarrow> 'a vec \<Rightarrow> 'a vec \<Rightarrow> 'a vec" where
  "add_scaled coefficient z acc =
     map (\<lambda>col. acc ! col + coefficient * z ! col) [0..<length acc]"

definition next_term :: "nat \<Rightarrow> nat \<Rightarrow> 'a :: field list list \<Rightarrow> 'a vec list \<Rightarrow> 'a vec list" where
  "next_term n dv gram z =
     map (\<lambda>index. fold (\<lambda>j acc. let coefficient = - gram ! index ! j
                              in if coefficient = 0 then acc else add_scaled coefficient (z ! j) acc)
                    [0..<index] (replicate dv 0)) [0..<n]"

definition add_rows :: "nat \<Rightarrow> nat \<Rightarrow> 'a :: field vec list \<Rightarrow> 'a vec list \<Rightarrow> 'a vec list" where
  "add_rows n dv us zs = map (\<lambda>i. map (\<lambda>col. us ! i ! col + zs ! i ! col) [0..<dv]) [0..<n]"

fun neumann :: "nat \<Rightarrow> nat \<Rightarrow> 'a :: field list list \<Rightarrow> nat \<Rightarrow> 'a vec list \<Rightarrow> 'a vec list \<Rightarrow> 'a vec list" where
  "neumann n dv gram 0 us z = us"
| "neumann n dv gram (Suc rounds) us z =
     (let z' = next_term n dv gram z in neumann n dv gram rounds (add_rows n dv us z') z')"

definition output_step ::
  "tree_plan \<Rightarrow> 'a :: field tree_inputs \<Rightarrow> 'a list \<Rightarrow> 'a vec list \<Rightarrow> nat \<Rightarrow> nat \<Rightarrow> 'a vec
   \<Rightarrow> tree_error + 'a vec" where
  "output_step plan inputs ps us index j out =
     (if j \<noteq> index \<and> plan_mask plan ! index AND push_bit j 1 = 0 then Inr out
      else rbind (quotient (ps ! index) (ps ! j)) (\<lambda>ratio.
           Inr (add_scaled (ratio * dot (in_q inputs ! index) (in_k inputs ! j)) (us ! j) out)))"

definition node_output ::
  "'a :: field mat \<Rightarrow> tree_plan \<Rightarrow> 'a tree_inputs \<Rightarrow> 'a list \<Rightarrow> 'a vec list \<Rightarrow> nat \<Rightarrow> tree_error + 'a vec" where
  "node_output state_pre plan inputs ps us index =
     each (output_step plan inputs ps us index) [0..<index + 1]
       (map ((*) (ps ! index)) (mat_vec_transpose state_pre (in_q inputs ! index)))"

definition bole_verify ::
  "'a :: field mat \<Rightarrow> tree_plan \<Rightarrow> 'a tree_inputs \<Rightarrow> (tree_error + 'a tree_result) option" where
  "bole_verify state_pre plan inputs =
     (case rbind (validate_inputs state_pre plan inputs) (\<lambda>(dk, dv).
           rbind (gate_products plan inputs) (\<lambda>ps. Inr (dv, ps))) of
        Inl e \<Rightarrow> Some (Inl e)
      | Inr (dv, ps) \<Rightarrow>
          let n = plan_count plan; rhs = map (right_hand_side state_pre inputs dv ps) [0..<n]
          in map_option (\<lambda>r. rbind r (\<lambda>gram.
               let us = neumann n dv gram (nat (max_depth plan)) rhs rhs
               in rbind (map_result (node_output state_pre plan inputs ps us) [0..<n]) (\<lambda>outputs.
                  Inr \<lparr>res_outputs = outputs, factors_p = ps, factors_u = us\<rparr>)))
             (gram_rows plan inputs ps [0..<n]))"

subsection \<open>Committing an accepted node\<close>

definition commit_step ::
  "'a :: field tree_result \<Rightarrow> 'a tree_inputs \<Rightarrow> nat \<Rightarrow> nat \<Rightarrow> 'a mat \<Rightarrow> tree_error + 'a mat" where
  "commit_step result inputs accepted node committed =
     rbind (quotient (factors_p result ! accepted) (factors_p result ! node)) (\<lambda>coefficient.
     Inr (state_add_scaled_outer committed coefficient (in_k inputs ! node) (factors_u result ! node)))"

definition commit_state ::
  "'a :: field mat \<Rightarrow> tree_plan \<Rightarrow> 'a tree_result \<Rightarrow> 'a tree_inputs \<Rightarrow> int
   \<Rightarrow> (tree_error + 'a mat) option" where
  "commit_state state_pre plan result inputs accepted =
     (if accepted < 0 \<or> int (plan_count plan) \<le> accepted then Some (Inl NodeOutsideTree)
      else map_option (\<lambda>path.
             each (commit_step result inputs (nat accepted)) path
               (map (map ((*) (factors_p result ! nat accepted))) state_pre))
           (climb (plan_parent plan) accepted []))"

end
