(* ===== verification/Bole_Equivalence.thy ===== *)
theory Bole_Equivalence
  imports Bole_Reference
begin

section \<open>The factorized verification equals the reference\<close>

text \<open>
  The loop over the mask visits the ancestors, the reference computes the recurrence node by
  node, the series of the factorized form is finite because every term moves up the tree,
  and both satisfy the same triangular system, which has one solution.
\<close>

subsection \<open>The set bits of a mask\<close>

lemma lowest_bit:
  fixes m :: int
  assumes "0 < m"
  shows "\<exists>k. m AND - m = 2 ^ k \<and> bit m k"
  using assms
proof (induction "nat m" arbitrary: m rule: less_induct)
  case less
  define q where "q = m div 2"
  have q: "m = 2 * q \<or> m = 2 * q + 1"
    unfolding q_def by presburger
  show ?case
  proof (cases "m = 2 * q")
    case True
    then have "0 < q" "nat q < nat m" using less.prems by auto
    then obtain k where k: "q AND - q = 2 ^ k" "bit q k" using less.hyps by blast
    have "(- m) div 2 = - q" using True by presburger
    then have "m AND - m = 2 * (q AND - q)" using True by (subst and_rec) simp
    then show ?thesis using k True by (intro exI [of _ "Suc k"]) (simp add: bit_Suc)
  next
    case False
    then have m: "m = 2 * q + 1" using q by simp
    then have "(- m) div 2 = NOT q" by (simp add: not_eq_complement)
    then have "m AND - m = 1" using m by (subst and_rec) simp
    then show ?thesis using m by (intro exI [of _ 0]) (simp add: bit_0)
  qed
qed

lemma remove_bit:
  fixes m :: int
  assumes "bit m k" and "0 \<le> m"
  shows "bit (m XOR 2 ^ k) j \<longleftrightarrow> bit m j \<and> j \<noteq> k" "0 \<le> m XOR 2 ^ k" "m XOR 2 ^ k < m"
proof -
  show b: "bit (m XOR 2 ^ k) j \<longleftrightarrow> bit m j \<and> j \<noteq> k" for j
    using assms(1) by (auto simp: bit_xor_iff bit_exp_iff)
  show "0 \<le> m XOR 2 ^ k" using assms(2) by simp
  have "(m XOR 2 ^ k) + 2 ^ k = (m XOR 2 ^ k) OR 2 ^ k"
    by (rule disjunctive_add) (auto simp: b bit_exp_iff)
  also have "\<dots> = m" using assms(1) by (intro bit_eqI) (auto simp: bit_or_iff b bit_exp_iff)
  finally show "m XOR 2 ^ k < m" by (smt (verit) zero_less_power)
qed

lemma bit_length_power: "bit_length (2 ^ k) = Suc k"
proof (induction k)
  case 0
  then show ?case by (simp add: bit_length.simps)
next
  case (Suc k)
  then show ?case by (subst bit_length.simps) simp
qed

lemma mask_bits_total:
  assumes "0 \<le> m"
  shows "\<exists>js. mask_bits m visited = Some (visited @ js) \<and> distinct js \<and> (\<forall>j. j \<in> set js \<longleftrightarrow> bit m j)"
  using assms
proof (induction "nat m" arbitrary: m visited rule: less_induct)
  case less
  show ?case
  proof (cases "m = 0")
    case True
    then show ?thesis by (subst mask_bits.simps) simp
  next
    case False
    then obtain k where k: "m AND - m = 2 ^ k" "bit m k" using lowest_bit [of m] less.prems by auto
    note r = remove_bit [OF k(2) less.prems]
    have "nat (m XOR 2 ^ k) < nat m" using r(2,3) by linarith
    from less.hyps [OF this r(2), of "visited @ [k]"] obtain js where
      js: "mask_bits (m XOR 2 ^ k) (visited @ [k]) = Some (visited @ k # js)" "distinct js"
      "\<forall>j. j \<in> set js \<longleftrightarrow> bit (m XOR 2 ^ k) j" by auto
    have "mask_bits m visited = Some (visited @ k # js)"
      using False k(1) js(1) by (subst mask_bits.simps) (simp add: Let_def bit_length_power)
    moreover have "distinct (k # js)" "\<forall>j. j \<in> set (k # js) \<longleftrightarrow> bit m j"
      using js(2,3) r(1) k(2) by auto
    ultimately show ?thesis by blast
  qed
qed

subsection \<open>Loops and sums\<close>

lemma each_upt:
  assumes "\<And>i acc. i < n \<Longrightarrow> I i acc \<Longrightarrow> \<exists>acc'. f i acc = Inr acc' \<and> I (Suc i) acc'"
    and "I 0 acc"
  shows "\<exists>acc'. each f [0..<n] acc = Inr acc' \<and> I n acc'"
proof -
  have "\<exists>acc'. each f [m..<n] acc = Inr acc' \<and> I n acc'" if "I m acc" "m \<le> n" for m acc
    using that
  proof (induction "n - m" arbitrary: m acc)
    case (Suc d)
    then have "m < n" by simp
    from assms(1) [OF this Suc.prems(1)] obtain acc' where a: "f m acc = Inr acc'" "I (Suc m) acc'" by blast
    from Suc.hyps(1) [of "Suc m"] a(2) Suc.hyps(2) \<open>m < n\<close> obtain r where
      "each f [Suc m..<n] acc' = Inr r" "I n r" by fastforce
    then show ?case using a \<open>m < n\<close> by (simp add: upt_conv_Cons)
  qed simp
  then show ?thesis using assms(2) by blast
qed

lemma dot_sum: "length a = n \<Longrightarrow> length b = n \<Longrightarrow> dot a b = (\<Sum>r<n. a ! r * b ! r)"
  by (simp add: dot_def sum_list_sum_nth atLeast0LessThan)

lemma mat_vec_transpose_nth:
  "length S = dk \<Longrightarrow> length (S ! 0) = dv \<Longrightarrow> c < dv \<Longrightarrow>
     mat_vec_transpose S v ! c = (\<Sum>r<dk. S ! r ! c * v ! r)"
  by (simp add: mat_vec_transpose_def interv_sum_list_conv_sum_set_nat atLeast0LessThan)

lemma mat_vec_transpose_length: "length (mat_vec_transpose S v) = length (S ! 0)"
  by (simp add: mat_vec_transpose_def)

definition has_shape :: "'a mat \<Rightarrow> nat \<Rightarrow> nat \<Rightarrow> bool" where
  "has_shape m rows cols \<longleftrightarrow> length m = rows \<and> (\<forall>r < rows. length (m ! r) = cols)"

lemma state_add_nth:
  assumes "has_shape S dk dv"
  shows "has_shape (state_add_scaled_outer S x l r) dk dv"
    "i < dk \<Longrightarrow> c < dv \<Longrightarrow> state_add_scaled_outer S x l r ! i ! c = S ! i ! c + x * l ! i * r ! c"
  using assms by (simp_all add: has_shape_def state_add_scaled_outer_def)

lemma scaled_nth:
  assumes "has_shape S dk dv"
  shows "has_shape (map (map ((*) x)) S) dk dv"
    "i < dk \<Longrightarrow> c < dv \<Longrightarrow> map (map ((*) x)) S ! i ! c = x * S ! i ! c"
  using assms by (simp_all add: has_shape_def)

text \<open>The shapes the validation establishes, over a tree of \<open>n\<close> nodes.\<close>

definition shaped :: "'a mat \<Rightarrow> 'a tree_inputs \<Rightarrow> nat \<Rightarrow> nat \<Rightarrow> nat \<Rightarrow> bool" where
  "shaped S inputs n dk dv \<longleftrightarrow>
     0 < dk \<and> 0 < dv \<and> has_shape S dk dv \<and> has_shape (in_q inputs) n dk \<and> has_shape (in_k inputs) n dk
     \<and> has_shape (in_v inputs) n dv \<and> length (in_beta inputs) = n \<and> length (in_gamma inputs) = n"

lemma validate_inputs_Inr:
  "validate_inputs S plan inputs = Inr (dk, dv) \<longleftrightarrow> shaped S inputs (plan_count plan) dk dv"
proof -
  have m: "check_matrix m a b = Inr () \<longleftrightarrow> has_shape m a b" for m :: "'a list list" and a b
    by (auto simp: check_matrix_def require_Inr_iff has_shape_def list_all_length)
  show ?thesis
  proof
    assume "validate_inputs S plan inputs = Inr (dk, dv)"
    then show "shaped S inputs (plan_count plan) dk dv"
      by (auto simp: validate_inputs_def shaped_def Let_def result_simps m split: if_splits)
  next
    assume s: "shaped S inputs (plan_count plan) dk dv"
    then have S: "S \<noteq> []" "S ! 0 \<noteq> []" "length S = dk" "length (S ! 0) = dv"
      by (auto simp: shaped_def has_shape_def)
    have lens: "length (in_q inputs) = plan_count plan" "length (in_k inputs) = plan_count plan"
      "length (in_v inputs) = plan_count plan"
      using s by (simp_all add: shaped_def has_shape_def)
    have checks: "check_matrix S dk dv = Inr ()" "check_matrix (in_q inputs) (plan_count plan) dk = Inr ()"
      "check_matrix (in_k inputs) (plan_count plan) dk = Inr ()"
      "check_matrix (in_v inputs) (plan_count plan) dv = Inr ()"
      using s by (simp_all add: shaped_def m)
    show "validate_inputs S plan inputs = Inr (dk, dv)"
      using s S lens checks by (simp add: validate_inputs_def shaped_def Let_def)
  qed
qed

subsection \<open>The reference, node by node\<close>

text \<open>What the run of the reference has computed for the nodes before \<open>n\<close>.\<close>

definition gated :: "int list \<Rightarrow> 'a :: field list \<Rightarrow> 'a list \<Rightarrow> nat \<Rightarrow> bool" where
  "gated parents gammas ps i \<longleftrightarrow>
     ps ! i = (if parents ! i < 0 then gammas ! i else ps ! nat (parents ! i) * gammas ! i)"

definition parent_state :: "'a mat \<Rightarrow> int list \<Rightarrow> 'a mat list \<Rightarrow> nat \<Rightarrow> 'a mat" where
  "parent_state S parents states i = (if parents ! i < 0 then S else states ! nat (parents ! i))"

definition seq_node ::
  "'a :: field mat \<Rightarrow> int list \<Rightarrow> 'a tree_inputs \<Rightarrow> nat \<Rightarrow> nat \<Rightarrow> 'a seq_acc \<Rightarrow> nat \<Rightarrow> bool" where
  "seq_node S parents inputs dk dv = (\<lambda>(states, outputs, ps, us) i.
     gated parents (in_gamma inputs) ps i
     \<and> has_shape (states ! i) dk dv \<and> length (us ! i) = dv \<and> length (outputs ! i) = dv
     \<and> (\<forall>c < dv. us ! i ! c = in_beta inputs ! i * (in_v inputs ! i ! c
          - (\<Sum>r<dk. in_gamma inputs ! i * parent_state S parents states i ! r ! c * in_k inputs ! i ! r)))
     \<and> (\<forall>r < dk. \<forall>c < dv. states ! i ! r ! c
          = in_gamma inputs ! i * parent_state S parents states i ! r ! c + in_k inputs ! i ! r * us ! i ! c)
     \<and> (\<forall>c < dv. outputs ! i ! c = (\<Sum>r<dk. states ! i ! r ! c * in_q inputs ! i ! r)))"

definition seq_done ::
  "'a :: field mat \<Rightarrow> int list \<Rightarrow> 'a tree_inputs \<Rightarrow> nat \<Rightarrow> nat \<Rightarrow> nat \<Rightarrow> 'a seq_acc \<Rightarrow> bool" where
  "seq_done S parents inputs dk dv n acc \<longleftrightarrow>
     (case acc of (states, outputs, ps, us) \<Rightarrow>
        length states = n \<and> length outputs = n \<and> length ps = n \<and> length us = n)
     \<and> (\<forall>i < n. seq_node S parents inputs dk dv acc i)"

lemma seq_node_append:
  assumes ok: "seq_node S parents inputs dk dv (states, outputs, ps, us) i"
    and i: "i < length states" "i < length outputs" "i < length ps" "i < length us" "parents ! i < int i"
  shows "seq_node S parents inputs dk dv (states @ [a], outputs @ [b], ps @ [c], us @ [d]) i"
proof -
  have p: "nat (parents ! i) < length states \<and> nat (parents ! i) < length ps" if "\<not> parents ! i < 0"
    using that i by linarith
  have "parent_state S parents (states @ [a]) i = parent_state S parents states i"
    using p by (simp add: parent_state_def nth_append)
  moreover have "gated parents (in_gamma inputs) (ps @ [c]) i = gated parents (in_gamma inputs) ps i"
    using p i by (auto simp: gated_def nth_append)
  ultimately show ?thesis
    using ok i by (simp add: seq_node_def nth_append)
qed

lemma seq_step_node:
  assumes s: "shaped S inputs n dk dv" and i: "i < n" and parents: "plan_parent plan ! i < int i"
    and acc: "seq_done S (plan_parent plan) inputs dk dv i acc"
    and old: "\<forall>j < i. plan_parent plan ! j < int j"
  shows "\<exists>acc'. seq_step S plan inputs i acc = Inr acc'
    \<and> seq_done S (plan_parent plan) inputs dk dv (Suc i) acc'"
proof -
  obtain states outputs ps us where a: "acc = (states, outputs, ps, us)" by (rule prod_cases4)
  have len: "length states = i" "length outputs = i" "length ps = i" "length us = i"
    and past: "\<forall>j < i. seq_node S (plan_parent plan) inputs dk dv (states, outputs, ps, us) j"
    using acc by (simp_all add: a seq_done_def)
  let ?par = "plan_parent plan ! i" and ?g = "in_gamma inputs ! i"
  let ?P = "parent_state S (plan_parent plan) states i"
  let ?tilde = "map (map ((*) ?g)) ?P"
  let ?k = "in_k inputs ! i"
  let ?u = "scale_vector (in_beta inputs ! i) (vector_sub (in_v inputs ! i) (mat_vec_transpose ?tilde ?k))"
  let ?state = "state_add_scaled_outer ?tilde 1 ?k ?u"
  let ?out = "mat_vec_transpose ?state (in_q inputs ! i)"
  let ?p = "if ?par < 0 then ?g else ps ! nat ?par * ?g"
  have dims: "0 < dk" "0 < dv" "has_shape S dk dv" "length (in_v inputs ! i) = dv"
    using s i by (auto simp: shaped_def has_shape_def)
  have below: "nat ?par < i" if "\<not> ?par < 0" using that parents by linarith
  have P: "has_shape ?P dk dv"
    using dims past below by (auto simp: parent_state_def seq_node_def)
  note tilde = scaled_nth [OF P, where x = ?g]
  have td: "length ?tilde = dk" "length (?tilde ! 0) = dv"
    using tilde(1) dims(1) unfolding has_shape_def by blast+
  have u: "length ?u = dv" "c < dv \<Longrightarrow> ?u ! c = in_beta inputs ! i * (in_v inputs ! i ! c
      - (\<Sum>r<dk. ?g * ?P ! r ! c * ?k ! r))" for c
  proof -
    show "length ?u = dv"
      using dims(4) td(2) by (simp add: scale_vector_def vector_sub_def mat_vec_transpose_length)
    assume c: "c < dv"
    have "mat_vec_transpose ?tilde ?k ! c = (\<Sum>r<dk. ?tilde ! r ! c * ?k ! r)"
      by (rule mat_vec_transpose_nth [OF td c])
    also have "\<dots> = (\<Sum>r<dk. ?g * ?P ! r ! c * ?k ! r)"
      using tilde(2) c by (intro sum.cong) auto
    finally show "?u ! c = in_beta inputs ! i * (in_v inputs ! i ! c - (\<Sum>r<dk. ?g * ?P ! r ! c * ?k ! r))"
      using c dims(4) td(2) by (simp add: scale_vector_def vector_sub_def mat_vec_transpose_length)
  qed
  note st = state_add_nth [OF tilde(1), where x = 1 and l = ?k and r = ?u]
  have sd: "length ?state = dk" "length (?state ! 0) = dv"
    using st(1) dims(1) unfolding has_shape_def by blast+
  let ?acc = "(states @ [?state], outputs @ [?out], ps @ [?p], us @ [?u])"
  have "parent_state S (plan_parent plan) (states @ [?state]) i = ?P"
    using below len by (simp add: parent_state_def nth_append)
  moreover have "gated (plan_parent plan) (in_gamma inputs) (ps @ [?p]) i"
    using below len by (simp add: gated_def nth_append)
  ultimately have "seq_node S (plan_parent plan) inputs dk dv ?acc i"
    using u st sd len mat_vec_transpose_nth [OF sd] tilde(2)
    by (auto simp: seq_node_def nth_append mat_vec_transpose_length)
  moreover have "seq_node S (plan_parent plan) inputs dk dv ?acc j" if "j < i" for j
    using past old that len by (intro seq_node_append) auto
  ultimately have "seq_done S (plan_parent plan) inputs dk dv (Suc i) ?acc"
    using len by (auto simp: seq_done_def less_Suc_eq)
  moreover have "?par < 0 \<or> nat ?par < i" using below by blast
  then have "seq_step S plan inputs i acc = Inr ?acc"
    using len by (simp add: seq_step_def a Let_def parent_state_def not_le)
  ultimately show ?thesis by blast
qed

lemma seq_run_total:
  assumes s: "shaped S inputs (plan_count plan) dk dv" and ps: "parents_ok (plan_parent plan)"
  shows "\<exists>acc. seq_run S plan inputs = Inr acc \<and> seq_done S (plan_parent plan) inputs dk dv (plan_count plan) acc"
proof -
  let ?n = "plan_count plan"
  have par: "plan_parent plan ! i < int i" if "i < ?n" for i
    using parents_okD(2) [OF ps] that by (simp add: plan_count_def)
  have "\<exists>acc. each (seq_step S plan inputs) [0..<?n] ([], [], [], []) = Inr acc
      \<and> seq_done S (plan_parent plan) inputs dk dv ?n acc"
  proof (rule each_upt)
    fix i acc assume i: "i < ?n" and acc: "seq_done S (plan_parent plan) inputs dk dv i acc"
    have "\<forall>j < i. plan_parent plan ! j < int j" using par i by simp
    then show "\<exists>acc'. seq_step S plan inputs i acc = Inr acc'
        \<and> seq_done S (plan_parent plan) inputs dk dv (Suc i) acc'"
      by (rule seq_step_node [OF s i par [OF i] acc])
  qed (simp add: seq_done_def)
  then show ?thesis
    using validate_inputs_Inr [of S plan inputs dk dv] s by (auto simp: seq_run_def)
qed

subsection \<open>The states in closed form\<close>

lemma gated_nonzero:
  assumes ps: "parents_ok parents" "n \<le> length parents" and g: "\<forall>i < n. gated parents gammas P i"
    and i: "i < n" "P ! i \<noteq> 0"
  shows "gammas ! i \<noteq> 0" "\<not> parents ! i < 0 \<Longrightarrow> P ! nat (parents ! i) \<noteq> 0"
  using g i by (auto simp: gated_def split: if_splits)

lemma gates_nonzero_iff:
  assumes ps: "parents_ok parents" "n \<le> length parents" and g: "\<forall>i < n. gated parents gammas P i"
  shows "(\<forall>i < n. P ! i \<noteq> 0) \<longleftrightarrow> (\<forall>i < n. gammas ! i \<noteq> 0)"
proof
  show "\<forall>i < n. gammas ! i \<noteq> 0" if "\<forall>i < n. P ! i \<noteq> 0"
    using gated_nonzero(1) [OF ps g] that by blast
  assume nz: "\<forall>i < n. gammas ! i \<noteq> 0"
  have "P ! i \<noteq> 0" if "i < n" for i
    using that
  proof (induction i rule: less_induct)
    case (less i)
    have "nat (parents ! i) < i" if "\<not> parents ! i < 0"
      using parents_okD(3) [OF ps(1), of i] less.prems ps(2) that by simp
    then show ?case
      using g nz less by (auto simp: gated_def)
  qed
  then show "\<forall>i < n. P ! i \<noteq> 0" by blast
qed

lemma gated_unique:
  assumes ps: "parents_ok parents" "n \<le> length parents"
    and a: "\<forall>i < n. gated parents gammas A i" "length A = n"
    and b: "\<forall>i < n. gated parents gammas B i" "length B = n"
  shows "A = B"
proof (rule nth_equalityI)
  fix i assume "i < length A"
  then have "i < n" using a by simp
  then show "A ! i = B ! i"
  proof (induction i rule: less_induct)
    case (less i)
    have "nat (parents ! i) < i" if "\<not> parents ! i < 0"
      using parents_okD(3) [OF ps(1), of i] less.prems ps(2) that by simp
    then show ?case using a b less by (auto simp: gated_def)
  qed
qed (use a b in simp)

text \<open>A state carried along the path to a node, and the same before the node's own update.\<close>

definition carried ::
  "'a :: field mat \<Rightarrow> 'a tree_inputs \<Rightarrow> 'a list \<Rightarrow> 'a vec list \<Rightarrow> nat \<Rightarrow> nat set \<Rightarrow> nat \<Rightarrow> nat \<Rightarrow> 'a" where
  "carried S inputs P us i J r c =
     P ! i * S ! r ! c + (\<Sum>j\<in>J. (P ! i / P ! j) * in_k inputs ! j ! r * us ! j ! c)"

lemma ancestors_finite: "finite (ancestors parents i)"
  by (simp add: ancestors_def)

lemma carried_parent:
  assumes ps: "parents_ok parents" "i < length parents" "\<not> parents ! i < 0"
    and g: "P ! i = P ! nat (parents ! i) * x"
  shows "x * carried S inputs P us (nat (parents ! i)) (set (root_path parents (nat (parents ! i)))) r c
    = carried S inputs P us i (ancestors parents i) r c"
proof -
  have "set (root_path parents (nat (parents ! i))) = ancestors parents i"
    using ancestors_step [OF ps(1,2)] ps(3) by (simp add: root_path_set)
  then show ?thesis
    by (simp add: carried_def g algebra_simps sum_distrib_left)
qed

lemma carried_insert:
  assumes "parents_ok parents" "i < length parents" "P ! i \<noteq> 0"
  shows "carried S inputs P us i (set (root_path parents i)) r c
    = carried S inputs P us i (ancestors parents i) r c + in_k inputs ! i ! r * us ! i ! c"
proof -
  have "i \<notin> ancestors parents i" using ancestors_less [OF assms(1,2), of i] by blast
  then show ?thesis
    using assms(3) by (simp add: carried_def root_path_set ancestors_finite)
qed

lemma seq_closed_form:
  assumes ps: "parents_ok parents" "length parents = n"
    and acc: "seq_done S parents inputs dk dv n (states, outputs, P, us)"
    and nz: "\<forall>i < n. P ! i \<noteq> 0" and i: "i < n" and rc: "r < dk" "c < dv"
  shows "states ! i ! r ! c = carried S inputs P us i (set (root_path parents i)) r c
    \<and> in_gamma inputs ! i * parent_state S parents states i ! r ! c
        = carried S inputs P us i (ancestors parents i) r c"
  using i
proof (induction i rule: less_induct)
  case (less i)
  have node: "seq_node S parents inputs dk dv (states, outputs, P, us) i"
    using acc less.prems by (simp add: seq_done_def)
  have len: "i < length parents" using less.prems ps by simp
  have own: "states ! i ! r ! c
      = in_gamma inputs ! i * parent_state S parents states i ! r ! c + in_k inputs ! i ! r * us ! i ! c"
    using node rc by (simp add: seq_node_def)
  have before: "in_gamma inputs ! i * parent_state S parents states i ! r ! c
      = carried S inputs P us i (ancestors parents i) r c"
  proof (cases "parents ! i < 0")
    case True
    then show ?thesis
      using node ancestors_step [OF ps(1) len]
      by (simp add: parent_state_def carried_def seq_node_def gated_def)
  next
    case False
    let ?p = "nat (parents ! i)"
    have p: "?p < i" "?p < n" using parents_okD(3,4) [OF ps(1) len] False ps(2) by auto
    have "P ! i = P ! ?p * in_gamma inputs ! i"
      using node False by (simp add: seq_node_def gated_def)
    from carried_parent [OF ps(1) len False this] less.IH [OF p] show ?thesis
      using False by (simp add: parent_state_def)
  qed
  then show ?case
    using own carried_insert [OF ps(1) len, of P] nz less.prems by simp
qed

text \<open>The triangular system: the update of a node in terms of those of its ancestors.\<close>

definition rhs_at :: "'a :: field mat \<Rightarrow> 'a tree_inputs \<Rightarrow> 'a list \<Rightarrow> nat \<Rightarrow> nat \<Rightarrow> nat \<Rightarrow> 'a" where
  "rhs_at S inputs P dk i c =
     in_beta inputs ! i * (in_v inputs ! i ! c - P ! i * (\<Sum>r<dk. S ! r ! c * in_k inputs ! i ! r))"

definition gram_at :: "'a :: field tree_inputs \<Rightarrow> 'a list \<Rightarrow> nat \<Rightarrow> nat \<Rightarrow> 'a" where
  "gram_at inputs P i j = in_beta inputs ! i * (P ! i / P ! j) * dot (in_k inputs ! i) (in_k inputs ! j)"

lemma carried_product:
  assumes "length x = dk" "\<forall>j \<in> J. length (in_k inputs ! j) = dk"
  shows "(\<Sum>r<dk. carried S inputs P us i J r c * x ! r)
    = P ! i * (\<Sum>r<dk. S ! r ! c * x ! r)
      + (\<Sum>j\<in>J. (P ! i / P ! j) * dot x (in_k inputs ! j) * us ! j ! c)"
proof -
  have "(\<Sum>r<dk. carried S inputs P us i J r c * x ! r)
      = P ! i * (\<Sum>r<dk. S ! r ! c * x ! r)
        + (\<Sum>r<dk. \<Sum>j\<in>J. (P ! i / P ! j) * in_k inputs ! j ! r * us ! j ! c * x ! r)"
    by (simp add: carried_def distrib_right sum.distrib sum_distrib_left sum_distrib_right mult.assoc)
  also have "(\<Sum>r<dk. \<Sum>j\<in>J. (P ! i / P ! j) * in_k inputs ! j ! r * us ! j ! c * x ! r)
      = (\<Sum>j\<in>J. \<Sum>r<dk. (P ! i / P ! j) * in_k inputs ! j ! r * us ! j ! c * x ! r)"
    by (rule sum.swap)
  also have "\<dots> = (\<Sum>j\<in>J. (P ! i / P ! j) * dot x (in_k inputs ! j) * us ! j ! c)"
    using assms by (intro sum.cong HOL.refl) (simp add: dot_sum sum_distrib_left sum_distrib_right mult_ac)
  finally show ?thesis .
qed

lemma seq_system:
  assumes ps: "parents_ok parents" "length parents = n" and s: "shaped S inputs n dk dv"
    and acc: "seq_done S parents inputs dk dv n (states, outputs, P, us)"
    and nz: "\<forall>i < n. P ! i \<noteq> 0" and i: "i < n" and c: "c < dv"
  shows "us ! i ! c = rhs_at S inputs P dk i c - (\<Sum>j\<in>ancestors parents i. gram_at inputs P i j * us ! j ! c)"
    and "outputs ! i ! c = P ! i * (\<Sum>r<dk. S ! r ! c * in_q inputs ! i ! r)
      + (\<Sum>j\<in>set (root_path parents i). (P ! i / P ! j) * dot (in_q inputs ! i) (in_k inputs ! j) * us ! j ! c)"
proof -
  have node: "seq_node S parents inputs dk dv (states, outputs, P, us) i"
    using acc i by (simp add: seq_done_def)
  note form = seq_closed_form [OF ps acc nz i _ c]
  have k: "length (in_k inputs ! j) = dk" if "j < n" for j
    using s that by (simp add: shaped_def has_shape_def)
  have q: "length (in_q inputs ! i) = dk" using s i by (simp add: shaped_def has_shape_def)
  have anc: "\<forall>j \<in> ancestors parents i. length (in_k inputs ! j) = dk"
    using ancestors_less [OF ps(1), of i] i ps(2) k by (meson order.strict_trans)
  then have path: "\<forall>j \<in> set (root_path parents i). length (in_k inputs ! j) = dk"
    using k [OF i] by (simp add: root_path_set)
  have "us ! i ! c = in_beta inputs ! i * (in_v inputs ! i ! c
      - (\<Sum>r<dk. in_gamma inputs ! i * parent_state S parents states i ! r ! c * in_k inputs ! i ! r))"
    using node c by (simp add: seq_node_def)
  also have "(\<Sum>r<dk. in_gamma inputs ! i * parent_state S parents states i ! r ! c * in_k inputs ! i ! r)
      = (\<Sum>r<dk. carried S inputs P us i (ancestors parents i) r c * in_k inputs ! i ! r)"
    using form by (intro sum.cong) auto
  finally show "us ! i ! c = rhs_at S inputs P dk i c
      - (\<Sum>j\<in>ancestors parents i. gram_at inputs P i j * us ! j ! c)"
    unfolding carried_product [OF k [OF i] anc]
    by (simp add: rhs_at_def gram_at_def algebra_simps sum_distrib_left)
  have "outputs ! i ! c = (\<Sum>r<dk. states ! i ! r ! c * in_q inputs ! i ! r)"
    using node c by (simp add: seq_node_def)
  also have "\<dots> = (\<Sum>r<dk. carried S inputs P us i (set (root_path parents i)) r c * in_q inputs ! i ! r)"
    using form by (intro sum.cong) auto
  finally show "outputs ! i ! c = P ! i * (\<Sum>r<dk. S ! r ! c * in_q inputs ! i ! r)
      + (\<Sum>j\<in>set (root_path parents i). (P ! i / P ! j) * dot (in_q inputs ! i) (in_k inputs ! j) * us ! j ! c)"
    unfolding carried_product [OF q path] .
qed

subsection \<open>The factorized form, part by part\<close>

lemma gate_products_total:
  assumes ps: "parents_ok (plan_parent plan)"
  shows "\<exists>P. gate_products plan inputs = Inr P \<and> length P = plan_count plan
    \<and> (\<forall>i < plan_count plan. gated (plan_parent plan) (in_gamma inputs) P i)"
proof -
  let ?n = "plan_count plan" and ?par = "plan_parent plan"
  let ?I = "\<lambda>i P. length P = ?n \<and> (\<forall>j < i. gated ?par (in_gamma inputs) P j)"
  have below: "\<not> ?par ! i < 0 \<Longrightarrow> nat (?par ! i) < i" if "i < ?n" for i
    using parents_okD(3) [OF ps, of i] that by (simp add: plan_count_def)
  have "\<exists>P. each (gate_step plan inputs) [0..<?n] (replicate ?n 0) = Inr P \<and> ?I ?n P"
  proof (rule each_upt [where I = ?I])
    fix i P assume i: "i < ?n" and P: "?I i P"
    let ?v = "if ?par ! i < 0 then in_gamma inputs ! i else P ! nat (?par ! i) * in_gamma inputs ! i"
    have "gate_step plan inputs i P = Inr (P[i := ?v])"
      using below [OF i] i P by (auto simp: gate_step_def Let_def)
    moreover have "gated ?par (in_gamma inputs) (P[i := ?v]) j" if "j < Suc i" for j
    proof (cases "j = i")
      case True
      have "length P = ?n" "?par ! i < 0 \<or> nat (?par ! i) \<noteq> i"
        using P below [OF i] by fastforce+
      then show ?thesis using i unfolding gated_def True by (elim disjE) simp_all
    next
      case False
      then have j: "j < i" "j < ?n" using that i by simp_all
      then have "?par ! j < 0 \<or> nat (?par ! j) \<noteq> i" using below [OF j(2)] by fastforce
      then show ?thesis using j P unfolding gated_def by (elim disjE) simp_all
    qed
    ultimately show "\<exists>acc'. gate_step plan inputs i P = Inr acc' \<and> ?I (Suc i) acc'"
      using P by auto
  qed simp
  then show ?thesis by (auto simp: gate_products_def)
qed

lemma gram_entries:
  assumes "\<forall>j \<in> set js. P ! j \<noteq> 0" "distinct js" "\<forall>j \<in> set js. j < length row"
  shows "\<exists>row'. each (gram_entry inputs P i) js row = Inr row' \<and> length row' = length row
    \<and> (\<forall>j < length row. row' ! j = (if j \<in> set js then gram_at inputs P i j else row ! j))"
  using assms
proof (induction js arbitrary: row)
  case (Cons j js)
  let ?row = "row[j := gram_at inputs P i j]"
  have one: "gram_entry inputs P i j row = Inr ?row"
    using Cons.prems(1) by (simp add: gram_entry_def quotient_def gram_at_def)
  obtain row' where "each (gram_entry inputs P i) js ?row = Inr row'" "length row' = length ?row"
    "\<forall>k < length ?row. row' ! k = (if k \<in> set js then gram_at inputs P i k else ?row ! k)"
    using Cons.IH [of ?row] Cons.prems by auto
  then show ?case using one Cons.prems(2,3) by (auto simp: nth_list_update)
qed simp

lemma gram_entries_zero:
  assumes "j \<in> set js" "P ! j = 0"
  shows "\<exists>e. each (gram_entry inputs P i) js row = Inl e"
  using assms
proof (induction js arbitrary: row)
  case (Cons k js)
  show ?case
  proof (cases "P ! k = 0")
    case True
    then show ?thesis by (simp add: gram_entry_def quotient_def)
  next
    case False
    then show ?thesis using Cons by (auto simp: gram_entry_def quotient_def)
  qed
qed simp

definition gram_ok :: "tree_plan \<Rightarrow> 'a :: field tree_inputs \<Rightarrow> 'a list \<Rightarrow> nat \<Rightarrow> 'a list \<Rightarrow> bool" where
  "gram_ok plan inputs P i row \<longleftrightarrow> length row = plan_count plan
     \<and> (\<forall>j < plan_count plan. row ! j
          = (if j \<in> ancestors (plan_parent plan) i then gram_at inputs P i j else 0))"

lemma gram_row_total:
  assumes plan: "plan_ok (plan_parent plan) (plan_count plan) (plan_depth plan) (plan_mask plan)"
    and i: "i < plan_count plan" and nz: "\<forall>j \<in> ancestors (plan_parent plan) i. P ! j \<noteq> 0"
  shows "\<exists>row. gram_row plan inputs P i = Some (Inr row) \<and> gram_ok plan inputs P i row"
proof -
  let ?ps = "plan_parent plan"
  note ok = plan_okD [OF plan [unfolded plan_count_def]]
  have ps: "parents_ok ?ps" using plan by (auto simp: plan_ok_def plan_count_def parents_ok_def)
  have i': "i < length ?ps" using i by (simp add: plan_count_def)
  obtain js where js: "mask_bits (plan_mask plan ! i) [] = Some js" "distinct js"
    "\<forall>j. j \<in> set js \<longleftrightarrow> j \<in> ancestors ?ps i"
    using mask_bits_total [OF ok(4) [OF i'], of "[]"] ok(5) [OF i'] by auto
  have "\<forall>j \<in> set js. j < plan_count plan"
    using js(3) ancestors_less [OF ps i'] i by (meson order.strict_trans)
  then obtain row where "each (gram_entry inputs P i) js (replicate (plan_count plan) 0) = Inr row"
    "length row = plan_count plan"
    "\<forall>j < plan_count plan. row ! j = (if j \<in> set js then gram_at inputs P i j else 0)"
    using gram_entries [of js P "replicate (plan_count plan) 0" inputs i] js nz by auto
  then show ?thesis using js by (auto simp: gram_row_def gram_ok_def)
qed

lemma gram_rows_total:
  assumes "plan_ok (plan_parent plan) (plan_count plan) (plan_depth plan) (plan_mask plan)"
    and "\<forall>i \<in> set is. i < plan_count plan"
    and "\<forall>i \<in> set is. \<forall>j \<in> ancestors (plan_parent plan) i. P ! j \<noteq> 0"
  shows "\<exists>rows. gram_rows plan inputs P is = Some (Inr rows) \<and> length rows = length is
    \<and> (\<forall>k < length is. gram_ok plan inputs P (is ! k) (rows ! k))"
  using assms(2,3)
proof (induction "is")
  case (Cons i "is")
  obtain row where "gram_row plan inputs P i = Some (Inr row)" "gram_ok plan inputs P i row"
    using gram_row_total [OF assms(1), of i P inputs] Cons.prems by auto
  moreover obtain rows where "gram_rows plan inputs P is = Some (Inr rows)" "length rows = length is"
    "\<forall>k < length is. gram_ok plan inputs P (is ! k) (rows ! k)"
    using Cons by auto
  ultimately show ?case by (intro exI [of _ "row # rows"]) (auto simp: nth_Cons split: nat.splits)
qed simp

subsection \<open>The series\<close>

lemma add_scaled_nth:
  "length (add_scaled x z acc) = length acc" "c < length acc \<Longrightarrow> add_scaled x z acc ! c = acc ! c + x * z ! c"
  by (simp_all add: add_scaled_def)

lemma fold_scaled:
  "length (fold (\<lambda>j acc. let coefficient = f j in if coefficient = 0 then acc
       else add_scaled coefficient (z ! j) acc) js acc) = length acc
   \<and> (c < length acc \<longrightarrow> fold (\<lambda>j acc. let coefficient = f j in if coefficient = 0 then acc
       else add_scaled coefficient (z ! j) acc) js acc ! c = acc ! c + (\<Sum>j\<leftarrow>js. f j * z ! j ! c))"
  by (induction js arbitrary: acc) (auto simp: Let_def add_scaled_nth)

definition series_term :: "nat \<Rightarrow> nat \<Rightarrow> 'a :: field list list \<Rightarrow> 'a vec list \<Rightarrow> nat \<Rightarrow> 'a vec list" where
  "series_term n dv gram rhs m = (next_term n dv gram ^^ m) rhs"

lemma next_term_nth:
  assumes "i < n" "c < dv"
  shows "next_term n dv gram z ! i ! c = (\<Sum>j<i. - gram ! i ! j * z ! j ! c)"
proof -
  have "next_term n dv gram z ! i = fold (\<lambda>j acc. let coefficient = - gram ! i ! j in
      if coefficient = 0 then acc else add_scaled coefficient (z ! j) acc) [0..<i] (replicate dv 0)"
    unfolding next_term_def using assms(1) by (subst nth_map) simp_all
  then show ?thesis
    using assms(2) fold_scaled [of "\<lambda>j. - gram ! i ! j" z "[0..<i]" "replicate dv 0" c]
    by (simp add: interv_sum_list_conv_sum_set_nat atLeast0LessThan)
qed

lemma neumann_sum:
  assumes "i < n" "c < dv"
  shows "neumann n dv gram rounds us (series_term n dv gram rhs m) ! i ! c
    = us ! i ! c + (\<Sum>k\<in>{m<..m + rounds}. series_term n dv gram rhs k ! i ! c)"
  using assms
proof (induction rounds arbitrary: us m)
  case (Suc rounds)
  have "next_term n dv gram (series_term n dv gram rhs m) = series_term n dv gram rhs (Suc m)"
    by (simp add: series_term_def)
  then have "neumann n dv gram (Suc rounds) us (series_term n dv gram rhs m) ! i ! c
      = add_rows n dv us (series_term n dv gram rhs (Suc m)) ! i ! c
        + (\<Sum>k\<in>{Suc m<..Suc m + rounds}. series_term n dv gram rhs k ! i ! c)"
    using Suc.IH [OF Suc.prems] by (simp add: Let_def)
  moreover have "{m<..m + Suc rounds} = insert (Suc m) {Suc m<..Suc m + rounds}" by auto
  ultimately show ?case using Suc.prems by (simp add: add_rows_def)
qed simp

text \<open>A term of the series reaches only nodes at least as deep as its index.\<close>

lemma series_nilpotent:
  assumes plan: "plan_ok (plan_parent plan) (plan_count plan) (plan_depth plan) (plan_mask plan)"
    and gram: "\<forall>k < plan_count plan. gram_ok plan inputs P k (gram ! k)"
    and "i < plan_count plan" "c < dv" "plan_depth plan ! i < int m"
  shows "series_term (plan_count plan) dv gram rhs m ! i ! c = 0"
  using assms(3-5)
proof (induction m arbitrary: i)
  case 0
  let ?ps = "plan_parent plan"
  have "plan_depth plan ! i = int (length (root_path ?ps i)) - 1"
    using depth_path [OF plan [unfolded plan_count_def]] 0 by (simp add: plan_count_def)
  moreover have "root_path ?ps i \<noteq> []" by (subst root_path_last) simp
  ultimately show ?case using 0 by (cases "root_path ?ps i") auto
next
  case (Suc m)
  let ?n = "plan_count plan" and ?ps = "plan_parent plan"
  have ps: "parents_ok ?ps" using plan by (auto simp: plan_ok_def plan_count_def parents_ok_def)
  have i': "i < length ?ps" using Suc.prems by (simp add: plan_count_def)
  have "gram ! i ! j * series_term ?n dv gram rhs m ! j ! c = 0" if "j < i" for j
  proof (cases "j \<in> ancestors ?ps i")
    case True
    have j: "j < ?n" using that Suc.prems by simp
    have "plan_depth plan ! j < plan_depth plan ! i"
      by (rule ancestor_depth [OF plan [unfolded plan_count_def] i' True])
    then show ?thesis using Suc.IH [OF j Suc.prems(2)] Suc.prems(3) by simp
  next
    case False
    then show ?thesis using gram that Suc.prems(1) by (simp add: gram_ok_def)
  qed
  then have "(\<Sum>j<i. - gram ! i ! j * series_term ?n dv gram rhs m ! j ! c) = 0"
    by (intro sum.neutral) simp
  then show ?case
    using Suc.prems(1,2) by (simp add: series_term_def next_term_nth)
qed

subsection \<open>The equivalence\<close>

text \<open>The series solves the triangular system.\<close>

lemma max_depth_bound: "d \<in> set ds \<Longrightarrow> d \<le> foldr max ds (0 :: int)"
  by (induction ds) auto

lemma max_depth_nonneg: "0 \<le> foldr max ds (0 :: int)"
  by (induction ds) auto

lemma gram_sum:
  assumes g: "gram_ok plan inputs P i row" and anc: "ancestors (plan_parent plan) i \<subseteq> {..<i}" "i < plan_count plan"
  shows "(\<Sum>j<i. row ! j * f j) = (\<Sum>j\<in>ancestors (plan_parent plan) i. gram_at inputs P i j * f j)"
proof -
  have "(\<Sum>j<i. row ! j * f j) = (\<Sum>j<i. if j \<in> ancestors (plan_parent plan) i then gram_at inputs P i j * f j else 0)"
    using g anc(2) by (intro sum.cong) (auto simp: gram_ok_def)
  also have "\<dots> = (\<Sum>j\<in>{..<i} \<inter> ancestors (plan_parent plan) i. gram_at inputs P i j * f j)"
    by (simp add: sum.inter_restrict)
  finally show ?thesis using anc(1) by (simp add: Int_absorb1)
qed

lemma neumann_system:
  fixes rhs :: "'a :: field vec list"
  assumes plan: "plan_ok (plan_parent plan) (plan_count plan) (plan_depth plan) (plan_mask plan)"
    and gram: "\<forall>k < plan_count plan. gram_ok plan inputs P k (gram ! k)"
    and i: "i < plan_count plan" and c: "c < dv"
  defines "us \<equiv> neumann (plan_count plan) dv gram (nat (max_depth plan)) rhs rhs"
  shows "us ! i ! c = rhs ! i ! c - (\<Sum>j\<in>ancestors (plan_parent plan) i. gram_at inputs P i j * us ! j ! c)"
proof -
  let ?n = "plan_count plan" and ?ps = "plan_parent plan" and ?D = "nat (max_depth plan)"
  let ?t = "\<lambda>k j. series_term ?n dv gram rhs k ! j ! c"
  have ps: "parents_ok ?ps" using plan by (auto simp: plan_ok_def plan_count_def parents_ok_def)
  have anc: "ancestors ?ps i \<subseteq> {..<i}"
    using ancestors_less [OF ps, of i] i by (auto simp: plan_count_def)
  have t0: "?t 0 j = rhs ! j ! c" for j by (simp add: series_term_def)
  have u: "us ! j ! c = (\<Sum>k\<le>?D. ?t k j)" if "j < ?n" for j
  proof -
    have "us ! j ! c = rhs ! j ! c + (\<Sum>k\<in>{0<..0 + ?D}. ?t k j)"
      unfolding us_def using neumann_sum [OF that c, of gram ?D rhs rhs 0]
      by (simp add: series_term_def)
    also have "\<dots> = (\<Sum>k\<in>insert 0 {0<..0 + ?D}. ?t k j)" by (simp add: t0)
    also have "insert 0 {0<..0 + ?D} = {..?D}" by auto
    finally show ?thesis .
  qed
  have next_t: "?t (Suc k) i = - (\<Sum>j\<in>ancestors ?ps i. gram_at inputs P i j * ?t k j)" for k
  proof -
    have "?t (Suc k) i = (\<Sum>j<i. - gram ! i ! j * ?t k j)"
      using next_term_nth [OF i c] by (simp add: series_term_def)
    also have "\<dots> = - (\<Sum>j<i. gram ! i ! j * ?t k j)" by (simp add: sum_negf)
    finally show ?thesis using gram_sum [OF _ anc i, of inputs P "gram ! i"] gram i by simp
  qed
  have "plan_depth plan ! i \<le> max_depth plan"
    unfolding max_depth_def using plan i
    by (intro max_depth_bound nth_mem) (simp add: plan_ok_def)
  then have "plan_depth plan ! i < int (Suc ?D)" by simp
  then have last: "?t (Suc ?D) i = 0" by (rule series_nilpotent [OF plan gram i c])
  have "us ! i ! c + ?t (Suc ?D) i = (\<Sum>k\<le>Suc ?D. ?t k i)" by (simp add: u [OF i])
  also have "\<dots> = ?t 0 i + (\<Sum>k\<le>?D. ?t (Suc k) i)" by (rule sum.atMost_Suc_shift)
  also have "(\<Sum>k\<le>?D. ?t (Suc k) i) = - (\<Sum>k\<le>?D. \<Sum>j\<in>ancestors ?ps i. gram_at inputs P i j * ?t k j)"
    by (simp add: next_t sum_negf)
  also have "(\<Sum>k\<le>?D. \<Sum>j\<in>ancestors ?ps i. gram_at inputs P i j * ?t k j)
      = (\<Sum>j\<in>ancestors ?ps i. \<Sum>k\<le>?D. gram_at inputs P i j * ?t k j)"
    by (rule sum.swap)
  also have "\<dots> = (\<Sum>j\<in>ancestors ?ps i. gram_at inputs P i j * us ! j ! c)"
    using anc i u by (intro sum.cong) (auto simp: sum_distrib_left)
  finally show ?thesis using last by (simp add: t0)
qed

lemma system_unique:
  assumes ps: "parents_ok parents" "length parents = n"
    and a: "\<And>i. i < n \<Longrightarrow> A i = f i - (\<Sum>j\<in>ancestors parents i. g i j * A j)"
    and b: "\<And>i. i < n \<Longrightarrow> B i = f i - (\<Sum>j\<in>ancestors parents i. g i j * (B j :: 'a :: field))"
    and i: "i < n"
  shows "A i = B i"
  using i
proof (induction i rule: less_induct)
  case (less i)
  have "(\<Sum>j\<in>ancestors parents i. g i j * A j) = (\<Sum>j\<in>ancestors parents i. g i j * B j)"
    using less ancestors_less [OF ps(1), of i] ps(2) by (intro sum.cong) (auto intro: order.strict_trans)
  then show ?case using a b less.prems by metis
qed

lemma neumann_shape:
  "length us = n \<Longrightarrow> \<forall>i < n. length (us ! i) = dv \<Longrightarrow>
     length (neumann n dv gram rounds us z) = n \<and> (\<forall>i < n. length (neumann n dv gram rounds us z ! i) = dv)"
  by (induction rounds arbitrary: us z) (simp_all add: Let_def add_rows_def)

text \<open>The output of a node of the factorized form.\<close>

lemma output_steps:
  assumes "\<forall>j \<in> set js. j = index \<or> bit (plan_mask plan ! index) j \<longrightarrow> P ! j \<noteq> 0"
  shows "\<exists>out'. each (output_step plan inputs P us index) js out = Inr out' \<and> length out' = length out
    \<and> (\<forall>c < length out. out' ! c = out ! c
        + (\<Sum>j\<leftarrow>js. if j = index \<or> bit (plan_mask plan ! index) j
             then (P ! index / P ! j) * dot (in_q inputs ! index) (in_k inputs ! j) * us ! j ! c else 0))"
  using assms
proof (induction js arbitrary: out)
  case (Cons j js)
  show ?case
  proof (cases "j = index \<or> bit (plan_mask plan ! index) j")
    case True
    let ?out = "add_scaled (P ! index / P ! j * dot (in_q inputs ! index) (in_k inputs ! j)) (us ! j) out"
    have "output_step plan inputs P us index j out = Inr ?out"
      using True Cons.prems by (auto simp: output_step_def quotient_def and_shifted_one simp del: push_bit_of_1)
    then show ?thesis
      using Cons.IH [of ?out] Cons.prems True by (auto simp: add_scaled_nth add.assoc)
  next
    case False
    then have "output_step plan inputs P us index j out = Inr out"
      by (simp add: output_step_def and_shifted_one del: push_bit_of_1)
    then show ?thesis using Cons.IH [of out] Cons.prems False by auto
  qed
qed simp

lemma node_output_total:
  assumes plan: "plan_ok (plan_parent plan) (plan_count plan) (plan_depth plan) (plan_mask plan)"
    and i: "i < plan_count plan" and S: "has_shape S dk dv" "0 < dk"
    and nz: "\<forall>j < plan_count plan. P ! j \<noteq> 0"
  shows "\<exists>out. node_output S plan inputs P us i = Inr out \<and> length out = dv
    \<and> (\<forall>c < dv. out ! c = P ! i * (\<Sum>r<dk. S ! r ! c * in_q inputs ! i ! r)
        + (\<Sum>j\<in>set (root_path (plan_parent plan) i).
             (P ! i / P ! j) * dot (in_q inputs ! i) (in_k inputs ! j) * us ! j ! c))"
proof -
  let ?ps = "plan_parent plan"
  have i': "i < length ?ps" using i by (simp add: plan_count_def)
  have ps: "parents_ok ?ps" using plan by (auto simp: plan_ok_def plan_count_def parents_ok_def)
  note bits = plan_okD(5) [OF plan [unfolded plan_count_def] i']
  have path: "set (root_path ?ps i) = {j. j = i \<or> bit (plan_mask plan ! i) j} \<inter> {0..<i + 1}"
    using ancestors_less [OF ps i'] by (auto simp: root_path_set bits less_Suc_eq)
  have sd: "length S = dk" "length (S ! 0) = dv" using S by (simp_all add: has_shape_def)
  let ?out = "map ((*) (P ! i)) (mat_vec_transpose S (in_q inputs ! i))"
  have l: "length ?out = dv" by (simp add: mat_vec_transpose_length sd)
  obtain out where out: "each (output_step plan inputs P us i) [0..<i + 1] ?out = Inr out" "length out = dv"
    "\<forall>c < dv. out ! c = ?out ! c
        + (\<Sum>j\<leftarrow>[0..<i + 1]. if j = i \<or> bit (plan_mask plan ! i) j
             then (P ! i / P ! j) * dot (in_q inputs ! i) (in_k inputs ! j) * us ! j ! c else 0)"
    using output_steps [of "[0..<i + 1]" i plan P inputs us ?out] nz i l by auto
  have path_sum: "(\<Sum>j\<leftarrow>[0..<i + 1]. if j = i \<or> bit (plan_mask plan ! i) j then f j else 0)
      = (\<Sum>j\<in>set (root_path ?ps i). f j)" for f :: "nat \<Rightarrow> 'a"
    unfolding path interv_sum_list_conv_sum_set_nat
    by (subst Int_commute) (simp add: sum.inter_restrict)
  have start: "?out ! c = P ! i * (\<Sum>r<dk. S ! r ! c * in_q inputs ! i ! r)" if "c < dv" for c
    using that mat_vec_transpose_nth [OF sd that] by (simp add: mat_vec_transpose_length sd)
  have "\<forall>c < dv. out ! c = P ! i * (\<Sum>r<dk. S ! r ! c * in_q inputs ! i ! r)
        + (\<Sum>j\<in>set (root_path (plan_parent plan) i).
             (P ! i / P ! j) * dot (in_q inputs ! i) (in_k inputs ! j) * us ! j ! c)"
    using out(3) start unfolding path_sum by simp
  then show ?thesis using out(1,2) unfolding node_output_def by blast
qed

text \<open>
  The reference returns for every valid plan; the factorized form returns as well when no
  gate is zero, with the same result.
\<close>

lemma bole_verify_equals:
  assumes plan: "build_tree_plan parents = Inr plan" and s: "shaped S inputs (length parents) dk dv"
    and nz: "\<forall>g \<in> set (in_gamma inputs). g \<noteq> 0"
  shows "\<exists>states outputs P us. seq_run S plan inputs = Inr (states, outputs, P, us)
    \<and> seq_done S parents inputs dk dv (length parents) (states, outputs, P, us)
    \<and> (\<forall>i < length parents. P ! i \<noteq> 0)
    \<and> bole_verify S plan inputs
        = Some (Inr \<lparr>res_outputs = outputs, factors_p = P, factors_u = us\<rparr>)"
proof -
  note p = build_tree_plan_Inr [OF plan]
  have n: "plan_count plan = length parents" by (simp add: plan_count_def p(1))
  have ok: "plan_ok (plan_parent plan) (plan_count plan) (plan_depth plan) (plan_mask plan)"
    using p(4) by (simp add: plan_count_def p(1))
  let ?n = "length parents"
  have dims: "0 < dk" "0 < dv" "has_shape S dk dv" "length (in_gamma inputs) = ?n"
    using s by (simp_all add: shaped_def)
  obtain states outputs P us where run: "seq_run S plan inputs = Inr (states, outputs, P, us)"
    and fin: "seq_done S parents inputs dk dv ?n (states, outputs, P, us)"
    using seq_run_total [of S inputs plan dk dv] s p(1,3) n by (metis prod_cases4)
  have lens: "length states = ?n" "length outputs = ?n" "length P = ?n" "length us = ?n"
    and nodes: "\<And>i. i < ?n \<Longrightarrow> seq_node S parents inputs dk dv (states, outputs, P, us) i"
    using fin by (simp_all add: seq_done_def)
  have gates: "\<forall>i < ?n. gated parents (in_gamma inputs) P i"
    using nodes by (simp add: seq_node_def)
  have Pnz: "\<forall>i < ?n. P ! i \<noteq> 0"
    using gates_nonzero_iff [OF p(3) _ gates] nz dims(4) by (auto simp: all_set_conv_all_nth)
  obtain Q where Q: "gate_products plan inputs = Inr Q" "length Q = ?n"
    "\<forall>i < ?n. gated parents (in_gamma inputs) Q i"
    using gate_products_total [of plan inputs] p(1,3) n by auto
  have "Q = P" by (rule gated_unique [OF p(3) order_refl Q(3,2) gates lens(3)])
  note gate_P = Q(1) [unfolded this]
  have anc_nz: "\<forall>i \<in> set [0..<plan_count plan]. \<forall>j \<in> ancestors (plan_parent plan) i. P ! j \<noteq> 0"
  proof (intro ballI)
    fix i j assume ij: "i \<in> set [0..<plan_count plan]" "j \<in> ancestors (plan_parent plan) i"
    then have "i < ?n" "j < i" using ancestors_less [OF p(3)] by (auto simp: n p(1))
    then show "P ! j \<noteq> 0" using Pnz by simp
  qed
  obtain gram where gram: "gram_rows plan inputs P [0..<plan_count plan] = Some (Inr gram)"
    "length gram = length [0..<plan_count plan]"
    "\<forall>k < length [0..<plan_count plan]. gram_ok plan inputs P ([0..<plan_count plan] ! k) (gram ! k)"
    using gram_rows_total [OF ok _ anc_nz] by (auto simp del: upt_Suc)
  have gram_at: "\<forall>k < plan_count plan. gram_ok plan inputs P k (gram ! k)" using gram(3) by simp
  let ?rhs = "map (right_hand_side S inputs dv P) [0..<plan_count plan]"
  let ?U = "neumann (plan_count plan) dv gram (nat (max_depth plan)) ?rhs ?rhs"
  have rhs: "?rhs ! i ! c = rhs_at S inputs P dk i c" if "i < ?n" "c < dv" for i c
    using that dims mat_vec_transpose_nth [of S dk dv c "in_k inputs ! i"]
    by (simp add: right_hand_side_def rhs_at_def Let_def n has_shape_def)
  have shape: "length ?U = ?n \<and> (\<forall>i < ?n. length (?U ! i) = dv)"
    using neumann_shape [of ?rhs "plan_count plan" dv gram "nat (max_depth plan)" ?rhs]
    by (simp add: n right_hand_side_def Let_def)
  have same: "?U ! i ! c = us ! i ! c" if "i < ?n" "c < dv" for i c
  proof (rule system_unique [OF p(3) HOL.refl _ _ that(1), where f = "\<lambda>i. rhs_at S inputs P dk i c"
        and g = "gram_at inputs P"])
    fix j assume j: "j < ?n"
    show "?U ! j ! c = rhs_at S inputs P dk j c - (\<Sum>k\<in>ancestors parents j. gram_at inputs P j k * ?U ! k ! c)"
      using neumann_system [OF ok gram_at _ that(2), of j ?rhs] rhs [OF j that(2)] j by (simp only: n p(1))
    show "us ! j ! c = rhs_at S inputs P dk j c - (\<Sum>k\<in>ancestors parents j. gram_at inputs P j k * us ! k ! c)"
      by (rule seq_system(1) [OF p(3) HOL.refl s fin Pnz j that(2)])
  qed
  have U: "?U = us"
  proof (rule nth_equalityI)
    fix i assume "i < length ?U"
    then have i: "i < ?n" using shape by simp
    have "length (us ! i) = dv" using nodes [OF i] by (simp add: seq_node_def)
    then show "?U ! i = us ! i" using shape i same by (intro nth_equalityI) simp_all
  qed (use shape lens in simp)
  have out: "node_output S plan inputs P us i = Inr (outputs ! i)" if i: "i < ?n" for i
  proof -
    have nz': "\<forall>j < plan_count plan. P ! j \<noteq> 0" and i': "i < plan_count plan" using Pnz i n by simp_all
    obtain o' where o': "node_output S plan inputs P us i = Inr o'" "length o' = dv"
      "\<forall>c < dv. o' ! c = P ! i * (\<Sum>r<dk. S ! r ! c * in_q inputs ! i ! r)
        + (\<Sum>j\<in>set (root_path (plan_parent plan) i).
             (P ! i / P ! j) * dot (in_q inputs ! i) (in_k inputs ! j) * us ! j ! c)"
      using node_output_total [OF ok i' dims(3,1) nz', of inputs us] by blast
    have "length (outputs ! i) = dv" using nodes [OF i] by (simp add: seq_node_def)
    then have "o' = outputs ! i"
      using o'(2,3) seq_system(2) [OF p(3) HOL.refl s fin Pnz i] by (intro nth_equalityI) (simp_all add: p(1))
    then show ?thesis using o'(1) by simp
  qed
  have outs: "map_result (node_output S plan inputs P us) [0..<plan_count plan] = Inr outputs"
  proof -
    have "map ((!) outputs) [0..<?n] = outputs" using lens(2) by (metis map_nth)
    then show ?thesis
      using map_result_all [of "[0..<?n]" "node_output S plan inputs P us" "(!) outputs"] out
      by (simp add: n)
  qed
  have valid: "validate_inputs S plan inputs = Inr (dk, dv)"
    using s by (simp add: validate_inputs_Inr n)
  have "bole_verify S plan inputs = Some (Inr \<lparr>res_outputs = outputs, factors_p = P, factors_u = us\<rparr>)"
    using valid gate_P gram(1) outs U by (simp add: bole_verify_def Let_def)
  then show ?thesis using run fin Pnz by blast
qed

text \<open>Committing a node rebuilds the state the reference has materialized for it.\<close>

lemma commit_steps:
  assumes "\<forall>j \<in> set js. factors_p result ! j \<noteq> 0" "has_shape M dk dv"
  shows "\<exists>M'. each (commit_step result inputs a) js M = Inr M' \<and> has_shape M' dk dv
    \<and> (\<forall>r < dk. \<forall>c < dv. M' ! r ! c = M ! r ! c
        + (\<Sum>j\<leftarrow>js. (factors_p result ! a / factors_p result ! j) * in_k inputs ! j ! r * factors_u result ! j ! c))"
  using assms
proof (induction js arbitrary: M)
  case (Cons j js)
  let ?M = "state_add_scaled_outer M (factors_p result ! a / factors_p result ! j) (in_k inputs ! j) (factors_u result ! j)"
  have one: "commit_step result inputs a j M = Inr ?M"
    using Cons.prems(1) by (simp add: commit_step_def quotient_def)
  note st = state_add_nth [OF Cons.prems(2)]
  obtain M' where "each (commit_step result inputs a) js ?M = Inr M'" "has_shape M' dk dv"
    "\<forall>r < dk. \<forall>c < dv. M' ! r ! c = ?M ! r ! c
        + (\<Sum>j\<leftarrow>js. (factors_p result ! a / factors_p result ! j) * in_k inputs ! j ! r * factors_u result ! j ! c)"
    using Cons.IH [of ?M] Cons.prems(1) st(1) by auto
  then show ?case using one st(2) by (simp add: add.assoc)
qed simp

lemma commit_state_path:
  assumes ps: "plan_parent plan = parents" "parents_ok parents" and s: "shaped S inputs (length parents) dk dv"
    and fin: "seq_done S parents inputs dk dv (length parents) (states, outputs, P, us)"
    and nz: "\<forall>i < length parents. P ! i \<noteq> 0" and a: "a < length parents"
    and res: "factors_p result = P" "factors_u result = us"
  shows "commit_state S plan result inputs (int a) = Some (Inr (states ! a))"
proof -
  let ?path = "root_path parents a"
  have S: "has_shape S dk dv" using s by (simp add: shaped_def)
  have state: "has_shape (states ! a) dk dv" using fin a by (simp add: seq_done_def seq_node_def)
  have path: "\<forall>j \<in> set ?path. factors_p result ! j \<noteq> 0"
    using root_path_bounds(1) [OF ps(2) a] nz a res by (auto intro: order.strict_trans1)
  let ?M = "map (map ((*) (P ! a))) S"
  obtain M where M: "each (commit_step result inputs a) ?path ?M = Inr M" "has_shape M dk dv"
    "\<forall>r < dk. \<forall>c < dv. M ! r ! c = ?M ! r ! c
        + (\<Sum>j\<leftarrow>?path. (factors_p result ! a / factors_p result ! j) * in_k inputs ! j ! r * factors_u result ! j ! c)"
    using commit_steps [OF path scaled_nth(1) [OF S]] by blast
  have distinct: "distinct ?path" using root_path_sorted [OF ps(2) a] by (simp add: strict_sorted_iff)
  have entry: "M ! r ! c = states ! a ! r ! c" if rc: "r < dk" "c < dv" for r c
  proof -
    have "M ! r ! c = P ! a * S ! r ! c
        + (\<Sum>j\<leftarrow>?path. (P ! a / P ! j) * in_k inputs ! j ! r * us ! j ! c)"
      using M(3) rc scaled_nth(2) [OF S rc] res by simp
    also have "\<dots> = carried S inputs P us a (set ?path) r c"
      by (simp add: carried_def sum_list_distinct_conv_sum_set [OF distinct])
    finally show ?thesis using seq_closed_form [OF ps(2) HOL.refl fin nz a rc] by simp
  qed
  have "M = states ! a"
  proof (rule nth_equalityI)
    show "length M = length (states ! a)" using M(2) state by (simp add: has_shape_def)
    fix r assume "r < length M"
    then have r: "r < dk" using M(2) by (simp add: has_shape_def)
    show "M ! r = states ! a ! r"
      using M(2) state entry r by (intro nth_equalityI) (simp_all add: has_shape_def)
  qed
  moreover have "climb parents (int a) [] = Some ?path" using climb_path [OF ps(2) a, of "[]"] by simp
  ultimately show ?thesis
    using M(1) a res by (simp add: commit_state_def plan_count_def ps(1))
qed

text \<open>A zero gate stops the factorized form: its own output divides by its product.\<close>

lemma output_zero:
  assumes "index \<in> set js" "P ! index = 0"
  shows "\<exists>e. each (output_step plan inputs P us index) js out = Inl e"
  using assms
proof (induction js arbitrary: out)
  case (Cons j js)
  show ?case
  proof (cases "j = index")
    case True
    then show ?thesis using Cons.prems by (simp add: output_step_def quotient_def)
  next
    case False
    then show ?thesis
      using Cons by (cases "output_step plan inputs P us index j out") auto
  qed
qed simp

lemma gram_rows_return:
  assumes "plan_ok (plan_parent plan) (plan_count plan) (plan_depth plan) (plan_mask plan)"
    and "\<forall>i \<in> set is. i < plan_count plan"
  shows "\<exists>r. gram_rows plan inputs P is = Some r"
  using assms(2)
proof (induction "is")
  case (Cons i "is")
  have "0 \<le> plan_mask plan ! i" using assms(1) Cons.prems by (simp add: plan_ok_def)
  then obtain js where "mask_bits (plan_mask plan ! i) [] = Some js"
    using mask_bits_total [of "plan_mask plan ! i" "[]"] by auto
  then obtain r where "gram_row plan inputs P i = Some r" by (simp add: gram_row_def)
  moreover obtain rs where "gram_rows plan inputs P is = Some rs" using Cons by auto
  ultimately show ?case by (cases r) auto
qed simp

lemma bole_zero_gate:
  assumes plan: "build_tree_plan parents = Inr plan" and s: "shaped S inputs (length parents) dk dv"
    and i: "i < length parents" "in_gamma inputs ! i = 0"
  shows "\<exists>e. bole_verify S plan inputs = Some (Inl e)"
proof -
  note p = build_tree_plan_Inr [OF plan]
  have n: "plan_count plan = length parents" by (simp add: plan_count_def p(1))
  have ok: "plan_ok (plan_parent plan) (plan_count plan) (plan_depth plan) (plan_mask plan)"
    using p(4) by (simp add: plan_count_def p(1))
  have valid: "validate_inputs S plan inputs = Inr (dk, dv)"
    using s by (simp add: validate_inputs_Inr n)
  obtain P where P: "gate_products plan inputs = Inr P" "\<forall>i < length parents. gated parents (in_gamma inputs) P i"
    using gate_products_total [of plan inputs] p(1,3) n by auto
  have zero: "P ! i = 0" using P(2) i by (simp add: gated_def)
  obtain r where r: "gram_rows plan inputs P [0..<plan_count plan] = Some r"
    using gram_rows_return [OF ok, of "[0..<plan_count plan]" inputs P] by auto
  show ?thesis
  proof (cases r)
    case (Inl e)
    then show ?thesis using valid P(1) r by (simp add: bole_verify_def Let_def)
  next
    case (Inr gram)
    have "\<exists>e. node_output S plan inputs P us i = Inl e" for us
      unfolding node_output_def using output_zero [of i "[0..<i + 1]"] zero by auto
    then have "\<exists>e. map_result (node_output S plan inputs P us) [0..<plan_count plan] = Inl e" for us
      using map_result_fails [of i "[0..<plan_count plan]"] i(1) n by fastforce
    then obtain e where "map_result (node_output S plan inputs P (neumann (plan_count plan) dv gram
        (nat (max_depth plan)) (map (right_hand_side S inputs dv P) [0..<plan_count plan])
        (map (right_hand_side S inputs dv P) [0..<plan_count plan]))) [0..<plan_count plan] = Inl e"
      by blast
    then show ?thesis using valid P(1) r Inr by (simp add: bole_verify_def Let_def)
  qed
qed

end
