(* ===== verification/Tree_Properties.thy ===== *)
theory Tree_Properties
  imports Tree_Planner Bole_Equivalence
begin

section \<open>Properties of the proposal trees\<close>

text \<open>
  The properties of the tree contract, of the planner, of the greedy verification with its
  compaction and mailbox, and of the factorized verification, each with a witness.
\<close>

text \<open> C25:
  Validated metadata is what its consumers rely on: non-negative tokens, parents before
  their children, depths that count the ancestors, masks that lie inside the tree, contain
  the parent and not the node itself, and a primary path whose neighbours are parent and
  child inside the tree (a path of a single node is not looked up).  The mapping it is
  turned back into is the one that was validated, and validates again to the same metadata.
\<close>

theorem validated_metadata_is_a_tree:
  assumes "validate_tree_metadata max_nodes m = Inr t"
  shows "tree_ok max_nodes t \<and> as_dict t = m \<and> validate_tree_metadata max_nodes (as_dict t) = Inr t"
  using validated_tree_ok [OF assms] assms by simp

definition demo_parents :: "int list" where "demo_parents = [- 1, 0, 0, 2]"

definition demo_tree :: "int tree_metadata" where
  "demo_tree = \<lparr>tree_tokens = [7, 4, 5, 6], tree_parent = demo_parents, tree_depth = [0, 1, 1, 2],
     tree_mask = [0, 1, 1, 5], tree_primary = [0, 2, 3], tree_score = []\<rparr>"

lemma demo_tree_valid: "validate_tree_metadata 7 (as_dict demo_tree) = Inr demo_tree"
  by code_simp

theorem validated_metadata_is_a_tree_witness:
  "tree_ok 7 demo_tree"
  using validated_metadata_is_a_tree [OF demo_tree_valid] by blast

text \<open> A plan is built exactly from a non-empty list of parents that precede their children.
  With as many non-negative tokens and within the node bound, the metadata made from it
  with the path of any node as its primary path passes the contract, and a query of a node
  sees exactly the nodes on its path from the root.
\<close>

theorem plans_pass_the_contract:
  "((\<exists>plan. build_tree_plan parents = Inr plan) \<longleftrightarrow> parents \<noteq> [] \<and> parents_ok parents)
   \<and> (\<forall>plan. build_tree_plan parents = Inr plan \<and> length parents \<le> max_nodes
        \<and> length tokens = length parents \<and> (\<forall>token \<in> set tokens. 0 \<le> token) \<and> leaf < length parents
        \<and> (scores = [] \<or> length scores = length parents)
      \<longrightarrow> (\<exists>t. validate_tree_metadata max_nodes (plan_mapping tokens plan (root_path parents leaf) scores) = Inr t
            \<and> tree_primary t = map int (root_path parents leaf)
            \<and> (\<forall>i < length parents. visible_nodes t (int i) = Inr (root_path parents i))))"
proof (intro conjI allI impI)
  show "(\<exists>plan. build_tree_plan parents = Inr plan) \<longleftrightarrow> parents \<noteq> [] \<and> parents_ok parents"
    using build_tree_plan_Inr(2,3) build_tree_plan_total by blast
next
  fix plan
  assume "build_tree_plan parents = Inr plan \<and> length parents \<le> max_nodes
        \<and> length tokens = length parents \<and> (\<forall>token \<in> set tokens. 0 \<le> token) \<and> leaf < length parents
        \<and> (scores = [] \<or> length scores = length parents)"
  then have a: "build_tree_plan parents = Inr plan" "length parents \<le> max_nodes" "length tokens = length parents"
    "\<forall>token \<in> set tokens. 0 \<le> token" "leaf < length parents"
    "scores = [] \<or> length scores = length parents" by blast+
  obtain t where t: "validate_tree_metadata max_nodes (plan_mapping tokens plan (root_path parents leaf) scores) = Inr t"
    "tree_tokens t = tokens" "tree_mask t = plan_mask plan" "tree_primary t = map int (root_path parents leaf)"
    using plan_validates [OF a] by auto
  have "node_count t = length parents" using a(3) t(2) by (simp add: node_count_def)
  then have "visible_nodes t (int i) = Inr (root_path parents i)" if "i < length parents" for i
    using plan_visibility [OF a(1) that _ t(3)] by blast
  then show "\<exists>t. validate_tree_metadata max_nodes (plan_mapping tokens plan (root_path parents leaf) scores) = Inr t
       \<and> tree_primary t = map int (root_path parents leaf)
       \<and> (\<forall>i < length parents. visible_nodes t (int i) = Inr (root_path parents i))"
    using t by blast
qed

theorem plans_pass_the_contract_witness:
  "\<exists>t. validate_tree_metadata 7 (plan_mapping [7, 4, 5, 6]
         \<lparr>plan_parent = demo_parents, plan_depth = [0, 1, 1, 2], plan_mask = [0, 1, 1, 5]\<rparr>
         (root_path demo_parents 3) ([] :: int list)) = Inr t
     \<and> tree_primary t = map int (root_path demo_parents 3)
     \<and> (\<forall>i < length demo_parents. visible_nodes t (int i) = Inr (root_path demo_parents i))"
proof -
  have "build_tree_plan demo_parents
      = Inr \<lparr>plan_parent = demo_parents, plan_depth = [0, 1, 1, 2], plan_mask = [0, 1, 1, 5]\<rparr>"
    by code_simp
  then show ?thesis
    using plans_pass_the_contract [of demo_parents 7 "[7, 4, 5, 6]" 3 "[] :: int list"] by (simp add: demo_parents_def)
qed


text \<open> C23:
  The factorized verification is the reference.  For every plan and every input, of any
  shape, over any field: where the reference refuses its input the factorized form refuses
  it too; where the reference returns and no gate is zero, the factorized form returns
  the same outputs, gate products and correction vectors; and where a gate is zero it
  raises, since it divides by a product of gates, although the reference returns.
\<close>

theorem factorized_verification_is_the_reference:
  fixes S :: "'a :: field mat"
  assumes plan: "build_tree_plan parents = Inr plan"
  shows "case sequential_verify S plan inputs of
      Inl e \<Rightarrow> \<exists>e'. bole_verify S plan inputs = Some (Inl e')
    | Inr result \<Rightarrow>
        (if 0 \<in> set (in_gamma inputs) then \<exists>e'. bole_verify S plan inputs = Some (Inl e')
         else bole_verify S plan inputs = Some (Inr result))"
proof -
  note p = build_tree_plan_Inr [OF plan]
  have n: "plan_count plan = length parents" by (simp add: plan_count_def p(1))
  show ?thesis
  proof (cases "validate_inputs S plan inputs")
    case (Inl e)
    then show ?thesis by (simp add: sequential_verify_def seq_run_def bole_verify_def)
  next
    case (Inr dims)
    obtain dk dv where s: "shaped S inputs (length parents) dk dv"
      using Inr validate_inputs_Inr [of S plan inputs] n by (cases dims) auto
    obtain acc where acc: "seq_run S plan inputs = Inr acc"
      using seq_run_total [of S inputs plan dk dv] s p n by auto
    then obtain result where result: "sequential_verify S plan inputs = Inr result"
      by (cases acc) (simp add: sequential_verify_def)
    show ?thesis
    proof (cases "0 \<in> set (in_gamma inputs)")
      case True
      moreover have "length (in_gamma inputs) = length parents" using s by (simp add: shaped_def)
      ultimately have "\<exists>e'. bole_verify S plan inputs = Some (Inl e')"
        using bole_zero_gate [OF plan s] by (auto simp: in_set_conv_nth)
      then show ?thesis using True result by simp
    next
      case False
      then have "\<forall>g \<in> set (in_gamma inputs). g \<noteq> 0" by blast
      then have "bole_verify S plan inputs = Some (Inr result)"
        using bole_verify_equals [OF plan s] result by (auto simp: sequential_verify_def)
      then show ?thesis using False result by simp
    qed
  qed
qed

definition demo_plan :: tree_plan where
  "demo_plan = \<lparr>plan_parent = demo_parents, plan_depth = [0, 1, 1, 2], plan_mask = [0, 1, 1, 5]\<rparr>"

definition demo_inputs :: "rat tree_inputs" where
  "demo_inputs = \<lparr>in_q = [[1, 2], [0, 1], [1, 1], [2, 0]], in_k = [[1, 0], [1, 1], [0, 2], [1, 3]],
     in_v = [[1], [2], [3], [4]], in_beta = [1, 2, 1, 3], in_gamma = [1, 2, 3, 1]\<rparr>"

lemma demo_plan_built: "build_tree_plan demo_parents = Inr demo_plan"
  by code_simp

lemma demo_shaped: "shaped [[1], [2]] demo_inputs (plan_count demo_plan) 2 1"
proof -
  have "validate_inputs [[1], [2]] demo_plan demo_inputs = Inr (2, 1)"
    by (simp add: validate_inputs_def check_matrix_def plan_count_def demo_plan_def demo_parents_def
        demo_inputs_def require_def)
  then show ?thesis by (simp add: validate_inputs_Inr)
qed

theorem factorized_verification_is_the_reference_witness:
  "case sequential_verify [[1], [2]] demo_plan demo_inputs of
      Inl e \<Rightarrow> False
    | Inr result \<Rightarrow> bole_verify [[1], [2]] demo_plan demo_inputs = Some (Inr result)"
proof -
  note p = build_tree_plan_Inr [OF demo_plan_built]
  obtain acc where "seq_run [[1], [2]] demo_plan demo_inputs = Inr acc"
    using seq_run_total [OF demo_shaped] p by auto
  then obtain result where "sequential_verify [[1], [2]] demo_plan demo_inputs = Inr result"
    by (cases acc) (simp add: sequential_verify_def)
  then show ?thesis
    using factorized_verification_is_the_reference [OF demo_plan_built, of "[[1], [2]]" demo_inputs]
    by (simp add: demo_inputs_def)
qed

text \<open> Committing a node is running the reference to it.  After a verification that returned,
  \<open>commit_state\<close> of any accepted node returns the state the reference has at that node,
  and a node outside of the tree is refused.
\<close>

theorem committed_state_is_the_reference_state:
  fixes S :: "'a :: field mat"
  assumes plan: "build_tree_plan parents = Inr plan"
    and run: "bole_verify S plan inputs = Some (Inr result)"
  shows "\<exists>states outputs ps us. seq_run S plan inputs = Inr (states, outputs, ps, us)
    \<and> length states = length parents
    \<and> commit_state S plan result inputs accepted
        = (if 0 \<le> accepted \<and> accepted < int (length parents)
           then Some (Inr (states ! nat accepted)) else Some (Inl NodeOutsideTree))"
proof -
  note p = build_tree_plan_Inr [OF plan]
  have n: "plan_count plan = length parents" by (simp add: plan_count_def p(1))
  obtain dk dv where s: "shaped S inputs (length parents) dk dv"
    using run validate_inputs_Inr [of S plan inputs] n
    by (cases "validate_inputs S plan inputs") (auto simp: bole_verify_def)
  have "\<forall>g \<in> set (in_gamma inputs). g \<noteq> 0"
  proof (rule ccontr)
    assume "\<not> ?thesis"
    then obtain i where "i < length parents" "in_gamma inputs ! i = 0"
      using s by (auto simp: shaped_def in_set_conv_nth)
    then show False using bole_zero_gate [OF plan s] run by auto
  qed
  from bole_verify_equals [OF plan s this] obtain states outputs P us
    where eq: "seq_run S plan inputs = Inr (states, outputs, P, us)"
      "seq_done S parents inputs dk dv (length parents) (states, outputs, P, us)"
      "\<forall>i < length parents. P ! i \<noteq> 0"
      "result = \<lparr>res_outputs = outputs, factors_p = P, factors_u = us\<rparr>"
    using run by auto
  have "commit_state S plan result inputs (int a) = Some (Inr (states ! a))" if "a < length parents" for a
    using commit_state_path [OF p(1,3) s eq(2,3) that] eq(4) by simp
  from this [of "nat accepted"] have "commit_state S plan result inputs accepted
        = (if 0 \<le> accepted \<and> accepted < int (length parents)
           then Some (Inr (states ! nat accepted)) else Some (Inl NodeOutsideTree))"
    using n by (auto simp: commit_state_def)
  moreover have "length states = length parents" using eq(2) by (simp add: seq_done_def)
  ultimately show ?thesis using eq(1) by blast
qed

theorem committed_state_is_the_reference_state_witness:
  "\<exists>result states outputs ps us. bole_verify [[1], [2]] demo_plan demo_inputs = Some (Inr result)
     \<and> seq_run [[1], [2]] demo_plan demo_inputs = Inr (states, outputs, ps, us)
     \<and> commit_state [[1], [2]] demo_plan result demo_inputs 3 = Some (Inr (states ! 3))
     \<and> commit_state [[1], [2]] demo_plan result demo_inputs 4 = Some (Inl NodeOutsideTree)"
proof -
  have "shaped [[1], [2]] demo_inputs (length demo_parents) 2 1"
    using demo_shaped by (simp add: plan_count_def demo_plan_def)
  moreover have "\<forall>g \<in> set (in_gamma demo_inputs). g \<noteq> 0" by (simp add: demo_inputs_def)
  ultimately obtain result where r: "bole_verify [[1], [2]] demo_plan demo_inputs = Some (Inr result)"
    using bole_verify_equals [OF demo_plan_built] by blast
  have n: "int (length demo_parents) = 4" by (simp add: demo_parents_def)
  note c = committed_state_is_the_reference_state [OF demo_plan_built r]
  from c [of 3] c [of 4] r show ?thesis unfolding n by auto
qed

text \<open> C22:
  Greedy verification is lossless.  Over a validated tree, with the target's predictions
  after the context and after every branch, verification with fuel for the nodes returns;
  what it emits is the serial greedy continuation of the context, one token more than the
  nodes it accepts; these are a path from the root; and no path of the tree that agrees
  with the greedy continuation is longer.
\<close>

theorem verification_emits_the_greedy_continuation:
  assumes t: "tree_ok max_nodes t" and b: "branch_target next_token ctx t target"
    and nonneg: "\<forall>x \<in> set target. 0 \<le> x" and fuel: "node_count t < fuel"
  shows "\<exists>v. verify_greedy_tree fuel t target = Some (Inr v)
    \<and> output_tokens v = greedy next_token ctx (emitted_count v)
    \<and> emitted_count v = length (accepted_nodes v) + 1
    \<and> (accepted_nodes v = [] \<or> accepted_nodes v = root_path (tree_parent t) (last (accepted_nodes v)))
    \<and> (\<forall>i < node_count t. map ((!) (tree_tokens t)) (root_path (tree_parent t) i)
           = greedy next_token ctx (length (root_path (tree_parent t) i))
         \<longrightarrow> length (root_path (tree_parent t) i) \<le> length (accepted_nodes v))"
  by (rule verification_greedy [OF t b nonneg fuel])

definition demo_next :: "int list \<Rightarrow> int" where
  "demo_next tokens = (if tokens = [1] then 7 else if tokens = [1, 7] then 5 else 9)"

theorem verification_emits_the_greedy_continuation_witness:
  "\<exists>v. verify_greedy_tree 5 demo_tree [7, 5, 9, 9, 9] = Some (Inr v)
     \<and> output_tokens v = greedy demo_next [1] (emitted_count v)"
proof -
  have "branch_target demo_next [1] demo_tree [7, 5, 9, 9, 9]"
  proof -
    have "root_path demo_parents 0 = [0]" "root_path demo_parents 1 = [0, 1]"
      "root_path demo_parents 2 = [0, 2]" "root_path demo_parents 3 = [0, 2, 3]" by code_simp+
    then show ?thesis
      by (simp add: branch_target_def demo_tree_def node_count_def demo_next_def All_less_Suc
          numeral_eq_Suc)
  qed
  moreover have "tree_ok 7 demo_tree" using validated_tree_ok(1) [OF demo_tree_valid] .
  moreover have "node_count demo_tree < 5" by (simp add: demo_tree_def node_count_def)
  ultimately show ?thesis
    using verification_emits_the_greedy_continuation [of 7 demo_tree demo_next "[1]" "[7, 5, 9, 9, 9]" 5]
    by auto
qed


text \<open>
  Compaction keeps the rows of the accepted branch.  After the verification of a validated
  tree of seven nodes, the rows that survive are the anchor's and those of the accepted
  nodes, in this order and each one as it was written before the moves, as many as tokens
  are emitted; and the recurrent state that is committed is the one of the last kept row.
\<close>

theorem compaction_keeps_the_accepted_branch:
  assumes t: "tree_ok max_nodes t" "node_count t = B7_NODE_BUDGET"
    and v: "verify_greedy_tree fuel t target = Some (Inr v)" "node_count t < fuel"
    and rows: "length rows = B7_NODE_BUDGET + 1" "length states = B7_NODE_BUDGET + 1"
  shows "compact_accepted_kv_rows rows v = Inr (rows ! 0 # map (\<lambda>node. rows ! (node + 1)) (accepted_nodes v))
    \<and> length (accepted_nodes v) + 1 = emitted_count v
    \<and> committed_gdn_state states v
        = Inr (last (states ! 0 # map (\<lambda>node. states ! (node + 1)) (accepted_nodes v)))"
  by (rule verification_compaction [OF t v rows])

definition demo_tree7 :: "int tree_metadata" where
  "demo_tree7 = \<lparr>tree_tokens = [7, 4, 5, 6, 1, 2, 3], tree_parent = [- 1, 0, 0, 2, 3, 3, - 1],
     tree_depth = [0, 1, 1, 2, 3, 3, 0], tree_mask = [0, 1, 1, 5, 13, 13, 0],
     tree_primary = [0, 2, 3, 5], tree_score = []\<rparr>"

lemma demo_tree7_valid: "validate_tree_metadata 7 (as_dict demo_tree7) = Inr demo_tree7"
  by code_simp

lemma demo_verification:
  "verify_greedy_tree 8 demo_tree7 [7, 5, 9, 6, 2, 9, 8, 9]
     = Some (Inr \<lparr>output_tokens = [7, 5, 6, 2, 8], accepted_nodes = [0, 2, 3, 5]\<rparr>)"
  by code_simp

theorem compaction_keeps_the_accepted_branch_witness:
  "compact_accepted_kv_rows ''abcdefgh''
      \<lparr>output_tokens = [7, 5, 6, 2, 8], accepted_nodes = [0, 2, 3, 5]\<rparr> = Inr ''abdeg''"
proof -
  have "tree_ok 7 demo_tree7" using validated_tree_ok(1) [OF demo_tree7_valid] .
  moreover have "node_count demo_tree7 = B7_NODE_BUDGET" "node_count demo_tree7 < 8"
    by (simp_all add: demo_tree7_def node_count_def B7_NODE_BUDGET_def)
  ultimately show ?thesis
    using compaction_keeps_the_accepted_branch [OF _ _ demo_verification, of 7 "''abcdefgh''" "''abcdefgh''"]
    by (simp add: B7_NODE_BUDGET_def eval_nat_numeral)
qed

text \<open> C26:
  The mailbox hands every tree to one consumer, once, under the binding it was published
  with.  Over any sequence of publications, takes and discards, refused ones included, the
  generations taken increase strictly, and what is taken was published with that
  generation, request and payload, and is taken only after that.
\<close>

datatype 'p mailbox_call = Publish int string 'p | Take int string | Discard

fun mailbox_run ::
  "'p mailbox_call list \<Rightarrow> 'p mailbox \<Rightarrow> (int \<times> string \<times> 'p) list" where
  "mailbox_run [] s = []"
| "mailbox_run (Publish g r p # calls) s = mailbox_run calls (snd (mailbox_publish g r p s))"
| "mailbox_run (Discard # calls) s = mailbox_run calls (snd (mailbox_discard s))"
| "mailbox_run (Take g r # calls) s =
     (case mailbox_take g r s of
        (Inl e, s') \<Rightarrow> mailbox_run calls s'
      | (Inr p, s') \<Rightarrow> (g, r, p) # mailbox_run calls s')"

definition mailbox_ok :: "'p mailbox \<Rightarrow> bool" where
  "mailbox_ok s \<longleftrightarrow> (\<forall>g r p. pending_payload s = Some (g, r, p) \<longrightarrow> last_consumed s < g)"

lemma mailbox_publish_cases:
  "mailbox_publish g r p s =
     (if g < 0 then (Inl GenerationInvalid, s) else if r = [] then (Inl RequestInvalid, s)
      else if g \<le> last_consumed s then (Inl GenerationStale, s)
      else if pending_payload s \<noteq> None then (Inl MailboxFull, s)
      else (Inr (), s\<lparr>pending_payload := Some (g, r, p)\<rparr>))"
  by (auto simp: mailbox_publish_def action_simps sbind_def assert_that_def raise_def ret_def
      gets_def modify_def not_le not_less)

lemma mailbox_take_cases:
  "mailbox_take g r s =
     (case pending_payload s of
        None \<Rightarrow> (Inl PayloadAbsent, s)
      | Some (g', r', p) \<Rightarrow>
          if g = g' \<and> r = r' then (Inr p, s\<lparr>pending_payload := None, last_consumed := g\<rparr>)
          else (Inl BindingChanged, s))"
  by (auto simp: mailbox_take_def sbind_def assert_that_def raise_def ret_def gets_def modify_def
      split: option.splits)

lemma mailbox_run_taken:
  assumes "mailbox_ok s"
  shows "sorted_wrt (<) (last_consumed s # map fst (mailbox_run calls s))
    \<and> set (mailbox_run calls s) \<subseteq> {(g, r, p). Publish g r p \<in> set calls} \<union> set_option (pending_payload s)"
  using assms
proof (induction calls s rule: mailbox_run.induct)
  case (2 g r p calls s)
  let ?s = "snd (mailbox_publish g r p s)"
  have "mailbox_ok ?s" "last_consumed ?s = last_consumed s"
    "set_option (pending_payload ?s) \<subseteq> insert (g, r, p) (set_option (pending_payload s))"
    using "2.prems" by (auto simp: mailbox_publish_cases mailbox_ok_def)
  then show ?case using "2.IH" by fastforce
next
  case (3 calls s)
  let ?s = "snd (mailbox_discard s)"
  have "mailbox_ok ?s" "last_consumed ?s = last_consumed s" "pending_payload ?s = None"
    by (simp_all add: mailbox_discard_def modify_def mailbox_ok_def)
  then show ?case using "3.IH" by auto
next
  case (4 g r calls s)
  show ?case
  proof (cases "mailbox_take g r s")
    case (Pair result s')
    show ?thesis
    proof (cases result)
      case (Inl e)
      then have "s' = s" using Pair by (auto simp: mailbox_take_cases split: option.splits if_splits)
      then show ?thesis using "4.IH"(1) [OF Pair [symmetric] Inl] "4.prems" Pair Inl by auto
    next
      case (Inr p)
      then have s': "pending_payload s = Some (g, r, p)" "s' = s\<lparr>pending_payload := None, last_consumed := g\<rparr>"
        using Pair by (auto simp: mailbox_take_cases split: option.splits if_splits)
      then have "mailbox_ok s'" "last_consumed s < g" using "4.prems" by (auto simp: mailbox_ok_def)
      then show ?thesis using "4.IH"(2) [OF Pair [symmetric] Inr] s' Pair Inr by fastforce
    qed
  qed
qed simp

theorem mailbox_takes_once_under_its_binding:
  "sorted_wrt (<) (map fst (mailbox_run calls empty_mailbox))
   \<and> (\<forall>n. set (mailbox_run (take n calls) empty_mailbox)
         \<subseteq> {(g, r, p). 0 \<le> g \<and> Publish g r p \<in> set (take n calls)})"
proof -
  have ok: "mailbox_ok empty_mailbox" by (simp add: mailbox_ok_def empty_mailbox_def)
  have taken: "sorted_wrt (<) (- 1 # map fst (mailbox_run cs empty_mailbox))
      \<and> set (mailbox_run cs empty_mailbox) \<subseteq> {(g, r, p). Publish g r p \<in> set cs}" for cs :: "'a mailbox_call list"
    using mailbox_run_taken [OF ok, of cs] by (auto simp: empty_mailbox_def)
  have "0 \<le> fst x" if "x \<in> set (mailbox_run cs empty_mailbox)" for x and cs :: "'a mailbox_call list"
    using taken [of cs] that by force
  then show ?thesis using taken by fastforce
qed

text \<open> C24:
  The planner chooses the best nodes and never fails on an accepted lattice.  For seven
  rows of candidates and seven planes of scores that pass the checks, any positive
  temperature and any bonus and bias, it returns a tree of seven nodes that passes the
  contract.  Every node in turn has a finite score and is not beaten, in the order of
  priority and then of rank path, by any path that could have been chosen instead; its
  parent was chosen before it; its token and score are the lattice's; and a query sees
  exactly the prefixes of its own path.
\<close>

theorem planner_chooses_best_first:
  fixes temperature depth_bonus index_bias :: real
  assumes c: "validate_candidates candidates = Inr rows" and s: "validate_scores edge_scores = Inr scores"
    and temperature: "0 < temperature"
  defines "L \<equiv> \<lambda>depth predecessor. log_probabilities temperature (scores ! depth ! predecessor)"
    and "bias \<equiv> \<lambda>rank. index_bias * ln (1 + real rank)" and "bonus \<equiv> \<lambda>n. depth_bonus * real n"
  shows "\<exists>t. build_best_first_dflash_tree candidates edge_scores 7 temperature depth_bonus index_bias = Inr t
    \<and> length (candidate_ranks t) = 7 \<and> best_first L bias bonus (candidate_ranks t)
    \<and> tree_ok 7 (dflash_metadata t)
    \<and> tree_tokens (dflash_metadata t) = map (\<lambda>path. candidates ! (length path - 1) ! last path) (candidate_ranks t)
    \<and> tree_score (dflash_metadata t) = map (path_score L bias) (candidate_ranks t)
    \<and> primary_ranks t \<in> set (candidate_ranks t)
    \<and> (\<forall>path \<in> set (candidate_ranks t). length path \<le> length (primary_ranks t))
    \<and> (\<forall>i < 7. \<exists>nodes. visible_nodes (dflash_metadata t) (int i) = Inr nodes
         \<and> map (\<lambda>j. candidate_ranks t ! j) nodes = path_prefixes (candidate_ranks t ! i))"
  using planned_tree [OF c s temperature, of depth_bonus index_bias]
  unfolding L_def bias_def bonus_def B7_NODE_BUDGET_def by blast

theorem planner_chooses_best_first_witness:
  "\<exists>t. build_best_first_dflash_tree (replicate 7 (replicate 16 3))
         (replicate 7 (replicate 16 (None # replicate 15 (Some 1)))) 7 1 0 0 = Inr t
     \<and> tree_ok 7 (dflash_metadata t)"
proof -
  have c: "validate_candidates (replicate 7 (replicate 16 3)) = Inr (replicate 7 (replicate 16 3))"
    by (simp add: validate_candidates_def DFLASH_DRAFT_DEPTH_def DFLASH_TOP_K_def check_all_Inr_iff
        result_simps list_ex_iff require_def)
  have s: "validate_scores (replicate 7 (replicate 16 (None # replicate 15 (Some (1 :: real)))))
      = Inr (replicate 7 (replicate 16 (None # replicate 15 (Some 1))))"
    by (simp add: validate_scores_def DFLASH_DRAFT_DEPTH_def DFLASH_TOP_K_def check_all_Inr_iff
        result_simps list_all_iff require_def)
  show ?thesis
    using planner_chooses_best_first [OF c s zero_less_one, where depth_bonus = 0 and index_bias = 0] by blast
qed

end
