(* ===== verification/B7_Round.thy ===== *)
theory B7_Round
  imports Tree_Planner
begin

section \<open>A round of the seven-node tree runtime\<close>

text \<open>
  The rest of \<open>src/qwen_r9700_lab/dflash_b7_runtime.py\<close>: the consumer receipt with the
  activation flag, the draft payload and its construction by the planner.  Reading the
  receipt's file and the environment is not modelled; the receipt is a parameter.
\<close>

definition BEST_FIRST_B7_TEMPERATURE :: real where "BEST_FIRST_B7_TEMPERATURE = 14 / 10"
definition BEST_FIRST_B7_DEPTH_BONUS :: real where "BEST_FIRST_B7_DEPTH_BONUS = 1 / 2"
definition BEST_FIRST_B7_CANDIDATE_INDEX_BIAS :: real where "BEST_FIRST_B7_CANDIDATE_INDEX_BIAS = 1 / 4"

datatype consumer_field =
    Planner | Atomic_Transport | Logical_Positions | Quest_Ancestor_Attention
  | Gdn_Branch_Recurrence | Convolution_Branch_State | Greedy_Tree_Verifier
  | Kv_Accepted_Path_Compaction | Canonical_State_Commit

definition CONSUMER_FIELDS :: "consumer_field list" where
  "CONSUMER_FIELDS = [Planner, Atomic_Transport, Logical_Positions, Quest_Ancestor_Attention,
     Gdn_Branch_Recurrence, Convolution_Branch_State, Greedy_Tree_Verifier,
     Kv_Accepted_Path_Compaction, Canonical_State_Commit]"

type_synonym consumer_receipt = "consumer_field \<Rightarrow> bool"

datatype activation_error = FlagInvalid | ReceiptMissing | ReceiptIncomplete "consumer_field list"

definition missing_consumers :: "consumer_receipt \<Rightarrow> consumer_field list" where
  "missing_consumers receipt = filter (\<lambda>f. \<not> receipt f) CONSUMER_FIELDS"

definition require_complete :: "consumer_receipt \<Rightarrow> activation_error + unit" where
  "require_complete receipt =
     (if missing_consumers receipt \<noteq> [] then Inl (ReceiptIncomplete (missing_consumers receipt)) else Inr ())"

definition require_b7_activation :: "string option \<Rightarrow> consumer_receipt option \<Rightarrow> activation_error + bool" where
  "require_b7_activation flag receipt =
     (let value = (case flag of None \<Rightarrow> ''0'' | Some v \<Rightarrow> v)
      in if value \<noteq> ''0'' \<and> value \<noteq> ''1'' then Inl FlagInvalid
         else if value = ''0'' then Inr False
         else case receipt of None \<Rightarrow> Inl ReceiptMissing
           | Some r \<Rightarrow> rbind (require_complete r) (\<lambda>_. Inr True))"

lemma activation_needs_every_consumer:
  "require_b7_activation flag receipt = Inr True \<longleftrightarrow>
     flag = Some ''1'' \<and> (\<exists>r. receipt = Some r \<and> (\<forall>f. r f))"
proof -
  have "missing_consumers r = [] \<longleftrightarrow> (\<forall>f. r f)" for r
  proof
    assume none: "missing_consumers r = []"
    show "\<forall>f. r f"
    proof
      fix f
      have "f \<in> set CONSUMER_FIELDS" by (cases f) (simp_all add: CONSUMER_FIELDS_def)
      then show "r f" using none by (auto simp: missing_consumers_def filter_empty_conv)
    qed
  qed (simp add: missing_consumers_def)
  then show ?thesis
    by (auto simp: require_b7_activation_def require_complete_def Let_def result_simps
        split: option.splits if_splits)
qed

subsection \<open>The payload\<close>

record 'r b7_payload =
  draft_token_ids :: "int list list"
  payload_metadata :: "'r tree_mapping list"

datatype payload_error = PayloadRefused b7_error | PlannerRefused planner_error

definition draft_payload :: "int list list \<Rightarrow> 'r tree_mapping list \<Rightarrow> b7_error + 'r b7_payload" where
  "draft_payload tokens mappings =
     (if length tokens \<noteq> 1 \<or> length mappings \<noteq> 1 then Inl OneRequestOnly
      else rbind (validate_atomic_tree_payload tokens mappings) (\<lambda>_.
           Inr \<lparr>draft_token_ids = tokens, payload_metadata = mappings\<rparr>))"

definition build_best_first_b7_payload ::
  "int list list list \<Rightarrow> real option list list list list
   \<Rightarrow> payload_error + real option b7_payload \<times> real dflash_tree" where
  "build_best_first_b7_payload candidate_ids edge_scores =
     (if length candidate_ids \<noteq> 1 \<or> length edge_scores \<noteq> 1 then Inl (PayloadRefused OneRequestOnly)
      else case build_best_first_dflash_tree (candidate_ids ! 0) (edge_scores ! 0) B7_NODE_BUDGET
                  BEST_FIRST_B7_TEMPERATURE BEST_FIRST_B7_DEPTH_BONUS BEST_FIRST_B7_CANDIDATE_INDEX_BIAS of
             Inl e \<Rightarrow> Inl (PlannerRefused e)
           | Inr t \<Rightarrow>
               (case draft_payload [tree_tokens (dflash_metadata t)] [as_dict (dflash_metadata t)] of
                  Inl e \<Rightarrow> Inl (PayloadRefused e)
                | Inr payload \<Rightarrow> Inr (payload, t)))"

subsection \<open>The parts of a round over planned metadata\<close>

lemma planned_payload:
  assumes "validate_tree_metadata B7_NODE_BUDGET (as_dict t) = Inr t" "node_count t = B7_NODE_BUDGET"
  shows "validate_atomic_tree_payload [tree_tokens t] [as_dict t] = Inr [t]"
    "draft_payload [tree_tokens t] [as_dict t]
       = Inr \<lparr>draft_token_ids = [tree_tokens t], payload_metadata = [as_dict t]\<rparr>"
  using assms by (simp_all add: validate_atomic_tree_payload_def draft_payload_def node_count_def)

text \<open>The row mapping of a tree of seven nodes.\<close>

lemma target_round_rows:
  assumes ok: "tree_ok B7_NODE_BUDGET t" and n: "node_count t = B7_NODE_BUDGET" and i: "i < B7_NODE_BUDGET"
  shows "\<exists>plan. build_b7_target_round_plan t = Inr plan
    \<and> logical_position_offsets plan ! 0 = 0
    \<and> logical_position_offsets plan ! (i + 1) = int (length (root_path (tree_parent t) i))
    \<and> gdn_parent_rows plan ! i = (if tree_parent t ! i < 0 then 0 else nat (tree_parent t ! i) + 1)
    \<and> gdn_parent_rows plan ! i \<le> i"
proof -
  have l: "length (tree_parent t) = 7" "length (tree_depth t) = 7" "parents_ok (tree_parent t)"
    "tree_depth t ! i = int (length (root_path (tree_parent t) i)) - 1"
    using ok n i by (auto simp: tree_ok_def Let_def B7_NODE_BUDGET_def)
  have "row_of (tree_parent t ! i) \<le> i"
    using parents_okD(3) [OF l(3), of i] l(1) i by (auto simp: row_of_def B7_NODE_BUDGET_def)
  then show ?thesis
    using l n i by (simp add: build_b7_target_round_plan_def Let_def B7_NODE_BUDGET_def row_of_def)
qed

lemma branch_positions:
  assumes "tree_ok B7_NODE_BUDGET t" "node_count t = B7_NODE_BUDGET" "i < B7_NODE_BUDGET"
  shows "\<exists>positions. branch_logical_positions (map (\<lambda>k. base + int k) [0..<B7_NODE_BUDGET + 1]) t = Inr positions
    \<and> positions ! 0 = base \<and> positions ! (i + 1) = base + int (length (root_path (tree_parent t) i))"
proof -
  have l: "length (tree_depth t) = 7" "tree_depth t ! i = int (length (root_path (tree_parent t) i)) - 1"
    using assms by (auto simp: tree_ok_def Let_def B7_NODE_BUDGET_def)
  have "map (\<lambda>k. base + int k) [0..<8] ! 0 = base" by simp
  then show ?thesis
    using l assms(3)
    by (simp add: branch_logical_positions_def tree_position_offsets_def Let_def B7_NODE_BUDGET_def
        del: upt_Suc)
qed


subsection \<open>The mailbox\<close>

lemma publish_then_take:
  assumes "0 \<le> generation" "request \<noteq> []" "last_consumed box < generation" "pending_payload box = None"
  shows "mailbox_publish generation request payload box
      = (Inr (), box\<lparr>pending_payload := Some (generation, request, payload)\<rparr>)"
    "mailbox_take generation request (box\<lparr>pending_payload := Some (generation, request, payload)\<rparr>)
      = (Inr payload, box\<lparr>last_consumed := generation, pending_payload := None\<rparr>)"
  using assms
  by (simp_all add: mailbox_publish_def mailbox_take_def sbind_def assert_that_def modify_def gets_def ret_def)

subsection \<open>A whole round\<close>

text \<open> C21:
  A round of tree decoding runs to its end and is lossless.  From a lattice that passes the
  checks the payload is built; it passes through the mailbox under a fresh generation, once;
  the consumer's validation gives back the planned metadata; verification against what a
  greedy target predicts on the branches emits between one and eight tokens, which are the
  serial greedy continuation; and the compaction keeps exactly the rows of the anchor and
  of the accepted nodes, with a recurrent state for the last of them.
\<close>

theorem tree_round_is_lossless:
  assumes c: "validate_candidates candidates = Inr rows" and s: "validate_scores edge_scores = Inr scores"
    and box: "0 \<le> generation" "request \<noteq> []" "last_consumed box < generation" "pending_payload box = None"
    and target: "\<And>tokens. 0 \<le> next_token tokens"
    and cache: "length kv = B7_NODE_BUDGET + 1"
  shows "\<exists>payload t box1 box2 v.
      build_best_first_b7_payload [candidates] [edge_scores] = Inr (payload, t)
    \<and> mailbox_publish generation request payload box = (Inr (), box1)
    \<and> mailbox_take generation request box1 = (Inr payload, box2)
    \<and> fst (mailbox_take generation request box2) = Inl PayloadAbsent
    \<and> validate_atomic_tree_payload (draft_token_ids payload) (payload_metadata payload) = Inr [dflash_metadata t]
    \<and> verify_greedy_tree (B7_NODE_BUDGET + 1) (dflash_metadata t) (target_rows next_token ctx (dflash_metadata t))
        = Some (Inr v)
    \<and> output_tokens v = greedy next_token ctx (emitted_count v)
    \<and> 1 \<le> emitted_count v \<and> emitted_count v \<le> B7_NODE_BUDGET + 1
    \<and> compact_accepted_kv_rows kv v = Inr (kv ! 0 # map (\<lambda>node. kv ! (node + 1)) (accepted_nodes v))
    \<and> committed_gdn_state kv v = Inr (last (kv ! 0 # map (\<lambda>node. kv ! (node + 1)) (accepted_nodes v)))"
proof -
  obtain t where t: "build_best_first_dflash_tree candidates edge_scores B7_NODE_BUDGET
      BEST_FIRST_B7_TEMPERATURE BEST_FIRST_B7_DEPTH_BONUS BEST_FIRST_B7_CANDIDATE_INDEX_BIAS = Inr t"
    "length (candidate_ranks t) = B7_NODE_BUDGET" "tree_ok B7_NODE_BUDGET (dflash_metadata t)"
    "validate_tree_metadata B7_NODE_BUDGET (as_dict (dflash_metadata t)) = Inr (dflash_metadata t)"
    "tree_tokens (dflash_metadata t) = map (\<lambda>path. candidates ! (length path - 1) ! last path) (candidate_ranks t)"
    using planned_tree [OF c s, of BEST_FIRST_B7_TEMPERATURE BEST_FIRST_B7_DEPTH_BONUS
        BEST_FIRST_B7_CANDIDATE_INDEX_BIAS] by (auto simp: BEST_FIRST_B7_TEMPERATURE_def)
  let ?t = "dflash_metadata t"
  have n: "node_count ?t = B7_NODE_BUDGET" using t(2,5) by (simp add: node_count_def)
  let ?payload = "\<lparr>draft_token_ids = [tree_tokens ?t], payload_metadata = [as_dict ?t]\<rparr>"
  note payload = planned_payload [OF t(4) n]
  have build: "build_best_first_b7_payload [candidates] [edge_scores] = Inr (?payload, t)"
    using t(1) payload(2) by (simp add: build_best_first_b7_payload_def)
  have nonneg: "\<forall>x \<in> set (target_rows next_token ctx ?t). 0 \<le> x"
    using target by (auto simp: target_rows_def)
  obtain v where v: "verify_greedy_tree (B7_NODE_BUDGET + 1) ?t (target_rows next_token ctx ?t) = Some (Inr v)"
    "output_tokens v = greedy next_token ctx (emitted_count v)" "emitted_count v = length (accepted_nodes v) + 1"
    using verification_greedy [OF t(3) branch_target_rows nonneg, of "B7_NODE_BUDGET + 1"] n by auto
  have kept: "compact_accepted_kv_rows kv v = Inr (kv ! 0 # map (\<lambda>node. kv ! (node + 1)) (accepted_nodes v))"
    "committed_gdn_state kv v = Inr (last (kv ! 0 # map (\<lambda>node. kv ! (node + 1)) (accepted_nodes v)))"
    using verification_compaction [OF t(3) n v(1) _ cache cache] n by auto
  have "length (kv ! 0 # map (\<lambda>node. kv ! (node + 1)) (accepted_nodes v)) \<le> B7_NODE_BUDGET + 1"
    using kept(1) cache
    by (auto simp: compact_accepted_kv_rows_def apply_moves_length dest!: arg_cong [of _ _ length])
  then have "emitted_count v \<le> B7_NODE_BUDGET + 1" using v(3) by simp
  moreover have "fst (mailbox_take generation request (box\<lparr>last_consumed := generation, pending_payload := None\<rparr>))
      = Inl PayloadAbsent"
    by (simp add: mailbox_take_def sbind_def gets_def raise_def)
  ultimately show ?thesis
    using build publish_then_take [OF box, of ?payload] payload(1) v kept
    by (intro exI conjI) (assumption | simp)+
qed

lemma demo_lattice:
  "validate_candidates (replicate 7 (replicate 16 3)) = Inr (replicate 7 (replicate 16 3))"
  "validate_scores (replicate 7 (replicate 16 (None # replicate 15 (Some (1 :: real)))))
     = Inr (replicate 7 (replicate 16 (None # replicate 15 (Some 1))))"
  by (simp_all add: validate_candidates_def validate_scores_def DFLASH_DRAFT_DEPTH_def DFLASH_TOP_K_def
      check_all_Inr_iff result_simps list_ex_iff list_all_iff require_def)

theorem tree_round_is_lossless_witness:
  "\<exists>payload t v. build_best_first_b7_payload [replicate 7 (replicate 16 3)]
        [replicate 7 (replicate 16 (None # replicate 15 (Some 1)))] = Inr (payload, t)
     \<and> fst (mailbox_publish 5 ''r'' payload empty_mailbox) = Inr ()
     \<and> verify_greedy_tree 8 (dflash_metadata t) (target_rows (\<lambda>_. 3) [1] (dflash_metadata t)) = Some (Inr v)
     \<and> output_tokens v = greedy (\<lambda>_. 3) [1] (emitted_count v)"
proof -
  have box: "last_consumed empty_mailbox < 5" "pending_payload empty_mailbox = None"
    by (simp_all add: empty_mailbox_def)
  have eight: "B7_NODE_BUDGET + 1 = 8" by (simp add: B7_NODE_BUDGET_def)
  have given: "0 \<le> (5 :: int)" "''r'' \<noteq> []" "length (replicate 8 (0 :: nat)) = B7_NODE_BUDGET + 1"
    by (simp_all add: B7_NODE_BUDGET_def)
  have nonneg: "\<And>tokens :: int list. 0 \<le> (\<lambda>_. 3 :: int) tokens" by simp
  from tree_round_is_lossless [OF demo_lattice given(1,2) box nonneg given(3), where ctx = "[1]"]
  obtain payload t box1 v where
    "build_best_first_b7_payload [replicate 7 (replicate 16 3)]
        [replicate 7 (replicate 16 (None # replicate 15 (Some 1)))] = Inr (payload, t)"
    "mailbox_publish 5 ''r'' payload empty_mailbox = (Inr (), box1)"
    "verify_greedy_tree 8 (dflash_metadata t) (target_rows (\<lambda>_. 3) [1] (dflash_metadata t)) = Some (Inr v)"
    "output_tokens v = greedy (\<lambda>_. 3) [1] (emitted_count v)"
    unfolding eight by blast
  then show ?thesis by (intro exI [of _ payload] exI [of _ t] exI [of _ v]) simp
qed

end
