(* ===== verification/Repetition_Escape.thy ===== *)
theory Repetition_Escape
  imports Prelude
begin

section \<open>Escaping an exact repetition\<close>

text \<open>
  Model of \<open>src/qwen_r9700_lab/repetition_escape.py\<close>.  Integers are Python's; the
  predicates a caller may pass are functions, \<open>None\<close> being an omitted one.  The policy is
  a record that is only used after \<open>escape_policy_check\<close>, the constructor's validation.
\<close>

datatype escape_error =
    MaxPeriodNotPositive
  | TooFewCopies
  | MinimumNotPositive
  | MinimumBelowTwoPeriods
  | MaxEscapesNotPositive
  | NoAlternativeAllowed
  | PeriodicPolicyInvalid
  | EscapeCountNegative
  | AlternativesEmpty
  | ArgmaxNotPeriodic
  | NoAdmissibleAlternative

record escape_policy =
  max_period :: int
  min_copies :: int
  min_repeated_tokens :: int
  max_escapes :: int
  max_candidates :: int

definition DEFAULT_POLICY :: escape_policy where
  "DEFAULT_POLICY = \<lparr>max_period = 64, min_copies = 8, min_repeated_tokens = 256,
     max_escapes = 4, max_candidates = 16\<rparr>"

definition escape_policy_check :: "escape_policy \<Rightarrow> escape_error + unit" where
  "escape_policy_check p =
     (if max_period p < 1 then Inl MaxPeriodNotPositive
      else if min_copies p < 2 then Inl TooFewCopies
      else if min_repeated_tokens p < 1 then Inl MinimumNotPositive
      else if min_repeated_tokens p < 2 * max_period p then Inl MinimumBelowTwoPeriods
      else if max_escapes p < 1 then Inl MaxEscapesNotPositive
      else if max_candidates p < 2 then Inl NoAlternativeAllowed
      else Inr ())"

record periodic_evidence =
  evidence_copies :: nat
  evidence_period :: nat
  pattern_token_ids :: "int list"
  repeated_suffix_tokens :: nat

record escape_boundary =
  round_index :: nat
  looping_token_id :: int
  boundary_evidence :: periodic_evidence

datatype escape_action = Escape | Terminate | Blocked

datatype escape_reason =
    HighestRankedAlternative
  | BudgetExhausted
  | NoNonTerminalAlternative
  | BudgetExhaustedWithoutEos
  | NoAlternativeOrEos
  | CandidatesAbsent
  | ArgmaxDiffers

record escape_decision =
  decided_action :: escape_action
  decided_boundary :: escape_boundary
  replacement_token_id :: "int option"
  prior_escape_count :: int
  decided_reason :: escape_reason

definition retained_round_tokens :: "escape_decision \<Rightarrow> nat" where
  "retained_round_tokens d = round_index (decided_boundary d)"

subsection \<open>The periodic suffix\<close>

text \<open>
  The loop \<open>while cursor >= 0 and tokens[cursor:cursor + period] == pattern\<close>.  It moves
  back by a positive period in every caller; the guard makes the function total.
\<close>

function count_copies :: "int list \<Rightarrow> nat \<Rightarrow> int list \<Rightarrow> int \<Rightarrow> nat \<Rightarrow> nat" where
  "count_copies tokens period pattern cursor copies =
     (if 0 < period \<and> 0 \<le> cursor \<and> take period (drop (nat cursor) tokens) = pattern
      then count_copies tokens period pattern (cursor - int period) (copies + 1)
      else copies)"
  by auto
termination by (relation "measure (\<lambda>(_, _, _, cursor, _). nat (cursor + 1))") auto

declare count_copies.simps [simp del]

fun scan_periods :: "int list \<Rightarrow> int \<Rightarrow> int \<Rightarrow> nat list \<Rightarrow> periodic_evidence option" where
  "scan_periods tokens least_copies least_tokens [] = None"
| "scan_periods tokens least_copies least_tokens (period # periods) =
     (let required_copies = max least_copies ((least_tokens + int period - 1) div int period);
          required_span = required_copies * int period
      in if int (length tokens) < required_span
         then scan_periods tokens least_copies least_tokens periods
         else
           let pattern = drop (length tokens - period) tokens;
               copies = count_copies tokens period pattern (int (length tokens) - 2 * int period) 1
           in if required_copies \<le> int copies
              then Some \<lparr>evidence_copies = copies, evidence_period = period,
                     pattern_token_ids = pattern, repeated_suffix_tokens = copies * period\<rparr>
              else scan_periods tokens least_copies least_tokens periods)"

definition periodic_suffix ::
  "int list \<Rightarrow> int \<Rightarrow> int \<Rightarrow> int \<Rightarrow> escape_error + periodic_evidence option" where
  "periodic_suffix tokens longest_period least_copies least_tokens =
     (if longest_period < 1 \<or> least_copies < 2 \<or> least_tokens < 1 then Inl PeriodicPolicyInvalid
      else let limit = min longest_period (int (length tokens) div least_copies)
           in Inr (scan_periods tokens least_copies least_tokens [1..<nat limit + 1]))"

definition policy_suffix :: "escape_policy \<Rightarrow> int list \<Rightarrow> escape_error + periodic_evidence option" where
  "policy_suffix p tokens = periodic_suffix tokens (max_period p) (min_copies p) (min_repeated_tokens p)"

definition would_continue_period ::
  "int list \<Rightarrow> int \<Rightarrow> int \<Rightarrow> int \<Rightarrow> int \<Rightarrow> escape_error + periodic_evidence option" where
  "would_continue_period prior_tokens candidate longest_period least_copies least_tokens =
     rbind (periodic_suffix prior_tokens longest_period least_copies least_tokens) (\<lambda>earlier.
     rbind (periodic_suffix (prior_tokens @ [candidate]) longest_period least_copies least_tokens) (\<lambda>later.
     Inr (if earlier = None then later else None)))"

definition first_periodic_boundary ::
  "int list \<Rightarrow> int list \<Rightarrow> escape_policy \<Rightarrow> escape_error + escape_boundary option" where
  "first_periodic_boundary prior_tokens approved p =
     (if approved = [] then Inr None
      else rbind (policy_suffix p (prior_tokens @ approved)) (\<lambda>evidence.
           Inr (case evidence of None \<Rightarrow> None
              | Some e \<Rightarrow> let index = length approved - 1
                  in Some \<lparr>round_index = index, looping_token_id = approved ! index,
                       boundary_evidence = e\<rparr>)))"

subsection \<open>Choosing a replacement\<close>

definition admissible ::
  "int set \<Rightarrow> (int \<Rightarrow> bool) option \<Rightarrow> (int \<Rightarrow> bool) option \<Rightarrow> int \<Rightarrow> bool" where
  "admissible eos allowed immediately_repeats token \<longleftrightarrow>
     token \<notin> eos \<and> (case allowed of None \<Rightarrow> True | Some f \<Rightarrow> f token)
     \<and> \<not> (case immediately_repeats of None \<Rightarrow> False | Some f \<Rightarrow> f token)"

definition select_escape_token ::
  "int list \<Rightarrow> int list \<Rightarrow> int set \<Rightarrow> (int \<Rightarrow> bool) option \<Rightarrow> (int \<Rightarrow> bool) option \<Rightarrow> escape_policy
   \<Rightarrow> escape_error + int" where
  "select_escape_token prior_tokens ranked eos allowed immediately_repeats p =
     (if ranked = [] then Inl AlternativesEmpty
      else rbind (policy_suffix p (prior_tokens @ [ranked ! 0])) (\<lambda>evidence.
           if evidence = None then Inl ArgmaxNotPeriodic
           else case find (admissible eos allowed immediately_repeats)
                       (drop 1 (take (nat (max_candidates p)) ranked)) of
                  Some token \<Rightarrow> Inr token
                | None \<Rightarrow> Inl NoAdmissibleAlternative))"

definition plan_escape ::
  "int list \<Rightarrow> int list \<Rightarrow> int list \<Rightarrow> int \<Rightarrow> int set \<Rightarrow> (int \<Rightarrow> bool) option \<Rightarrow> (int \<Rightarrow> bool) option
   \<Rightarrow> escape_policy \<Rightarrow> escape_error + escape_decision option" where
  "plan_escape prior_tokens approved ranked escapes eos allowed immediately_repeats p =
     (if escapes < 0 then Inl EscapeCountNegative else
      rbind (first_periodic_boundary prior_tokens approved p) (\<lambda>found.
      case found of None \<Rightarrow> Inr None
      | Some boundary \<Rightarrow>
          let decision = (\<lambda>action token reason. Inr (Some \<lparr>decided_action = action,
                decided_boundary = boundary, replacement_token_id = token,
                prior_escape_count = escapes, decided_reason = reason\<rparr>));
              candidates = take (nat (max_candidates p)) ranked
          in if ranked = [] then decision Blocked None CandidatesAbsent
             else if ranked ! 0 \<noteq> looping_token_id boundary then decision Blocked None ArgmaxDiffers
             else case (if escapes < max_escapes p
                        then find (admissible eos allowed immediately_repeats) (drop 1 candidates)
                        else None) of
                    Some token \<Rightarrow> decision Escape (Some token) HighestRankedAlternative
                  | None \<Rightarrow>
                      (case find (\<lambda>token. token \<in> eos
                               \<and> (case allowed of None \<Rightarrow> True | Some f \<Rightarrow> f token)) candidates of
                         Some token \<Rightarrow> decision Terminate (Some token)
                           (if max_escapes p \<le> escapes then BudgetExhausted else NoNonTerminalAlternative)
                       | None \<Rightarrow> decision Blocked None
                           (if max_escapes p \<le> escapes then BudgetExhaustedWithoutEos else NoAlternativeOrEos))))"

subsection \<open>What a periodic suffix is\<close>

text \<open>The last \<open>n\<close> pieces of length \<open>p\<close> are all equal to the last one.\<close>

definition repeats :: "int list \<Rightarrow> nat \<Rightarrow> nat \<Rightarrow> bool" where
  "repeats tokens p n \<longleftrightarrow> n * p \<le> length tokens
     \<and> (\<forall>i < n. take p (drop (length tokens - (i + 1) * p) tokens) = drop (length tokens - p) tokens)"

lemma repeats_mono: "repeats tokens p n \<Longrightarrow> m \<le> n \<Longrightarrow> repeats tokens p m"
  by (auto simp: repeats_def intro: le_trans [OF mult_le_mono1])

lemma repeats_Suc:
  "repeats tokens p (Suc n) \<longleftrightarrow> repeats tokens p n \<and> Suc n * p \<le> length tokens
     \<and> take p (drop (length tokens - Suc n * p) tokens) = drop (length tokens - p) tokens"
  by (auto simp: repeats_def less_Suc_eq)

lemma count_copies_spec:
  assumes "0 < p" "repeats tokens p copies" "cursor = int (length tokens) - int (Suc copies * p)"
  shows "copies \<le> count_copies tokens p (drop (length tokens - p) tokens) cursor copies
    \<and> repeats tokens p (count_copies tokens p (drop (length tokens - p) tokens) cursor copies)
    \<and> \<not> repeats tokens p (Suc (count_copies tokens p (drop (length tokens - p) tokens) cursor copies))"
  using assms(2,3)
proof (induction "nat (cursor + 1)" arbitrary: cursor copies rule: less_induct)
  case less
  let ?pat = "drop (length tokens - p) tokens"
  have cursor: "0 \<le> cursor \<longleftrightarrow> Suc copies * p \<le> length tokens"
    "nat cursor = length tokens - Suc copies * p"
    using less.prems(2) by linarith+
  show ?case
  proof (cases "0 \<le> cursor \<and> take p (drop (nat cursor) tokens) = ?pat")
    case True
    then have r: "repeats tokens p (Suc copies)"
      using cursor less.prems(1) by (simp add: repeats_Suc)
    have "cursor - int p = int (length tokens) - int (Suc (Suc copies) * p)"
      using less.prems(2) by (simp add: algebra_simps)
    from less.hyps [OF _ r this] show ?thesis
      using True assms(1) by (subst (1 2 3) count_copies.simps) auto
  next
    case False
    then have "\<not> repeats tokens p (Suc copies)" using cursor by (auto simp: repeats_Suc)
    then show ?thesis
      using False less.prems(1) by (subst (1 2 3) count_copies.simps) auto
  qed
qed

lemma count_copies_max:
  assumes "0 < p" "p \<le> length tokens"
  shows "repeats tokens p n \<longleftrightarrow>
    n \<le> count_copies tokens p (drop (length tokens - p) tokens) (int (length tokens) - 2 * int p) 1"
proof -
  let ?c = "count_copies tokens p (drop (length tokens - p) tokens) (int (length tokens) - 2 * int p) 1"
  have "repeats tokens p 1" using assms(2) by (simp add: repeats_def)
  then have c: "repeats tokens p ?c" "\<not> repeats tokens p (Suc ?c)"
    using count_copies_spec [OF assms(1), of tokens 1 "int (length tokens) - 2 * int p"] by auto
  show ?thesis
    using c repeats_mono [of tokens p n "Suc ?c"] repeats_mono [of tokens p ?c n]
    by (meson not_less_eq_eq)
qed

text \<open>A loop is a suffix that meets both thresholds.\<close>

definition loops :: "int list \<Rightarrow> int \<Rightarrow> int \<Rightarrow> nat \<Rightarrow> nat \<Rightarrow> bool" where
  "loops tokens least_copies least_tokens p n \<longleftrightarrow>
     repeats tokens p n \<and> least_copies \<le> int n \<and> least_tokens \<le> int n * int p"

lemma scan_periods_spec:
  assumes "\<forall>p \<in> set ps. 0 < p" "1 \<le> least_copies"
  shows "(case scan_periods tokens least_copies least_tokens ps of
      None \<Rightarrow> \<forall>p \<in> set ps. \<forall>n. \<not> loops tokens least_copies least_tokens p n
    | Some e \<Rightarrow> (\<exists>earlier later. ps = earlier @ evidence_period e # later
          \<and> (\<forall>p \<in> set earlier. \<forall>n. \<not> loops tokens least_copies least_tokens p n))
        \<and> loops tokens least_copies least_tokens (evidence_period e) (evidence_copies e)
        \<and> \<not> repeats tokens (evidence_period e) (Suc (evidence_copies e))
        \<and> pattern_token_ids e = drop (length tokens - evidence_period e) tokens
        \<and> repeated_suffix_tokens e = evidence_copies e * evidence_period e)"
  using assms(1)
proof (induction ps)
  case (Cons p ps)
  let ?required = "max least_copies ((least_tokens + int p - 1) div int p)"
  let ?copies = "count_copies tokens p (drop (length tokens - p) tokens) (int (length tokens) - 2 * int p) 1"
  have p: "0 < p" using Cons.prems by simp
  have required: "?required \<le> int n \<longleftrightarrow> least_copies \<le> int n \<and> least_tokens \<le> int n * int p" for n
    using int_ceiling_le_iff [of "int p" least_tokens "int n"] p by simp
  let ?skip = "\<forall>n. \<not> loops tokens least_copies least_tokens p n"
  have skip: ?case
    if no: ?skip and eq: "scan_periods tokens least_copies least_tokens (p # ps)
        = scan_periods tokens least_copies least_tokens ps"
  proof (cases "scan_periods tokens least_copies least_tokens ps")
    case None
    then show ?thesis using Cons no eq by simp
  next
    case (Some e)
    then obtain earlier later where "ps = earlier @ evidence_period e # later"
      "\<forall>p \<in> set earlier. \<forall>n. \<not> loops tokens least_copies least_tokens p n"
      and rest: "loops tokens least_copies least_tokens (evidence_period e) (evidence_copies e)"
        "\<not> repeats tokens (evidence_period e) (Suc (evidence_copies e))"
        "pattern_token_ids e = drop (length tokens - evidence_period e) tokens"
        "repeated_suffix_tokens e = evidence_copies e * evidence_period e"
      using Cons by auto
    then have "p # ps = (p # earlier) @ evidence_period e # later
        \<and> (\<forall>p \<in> set (p # earlier). \<forall>n. \<not> loops tokens least_copies least_tokens p n)"
      using no by simp
    then show ?thesis unfolding eq Some option.case using rest by blast
  qed
  show ?case
  proof (cases "int (length tokens) < ?required * int p")
    case True
    have ?skip
    proof (intro allI notI)
      fix n assume "loops tokens least_copies least_tokens p n"
      then have "?required \<le> int n" and len: "int n * int p \<le> int (length tokens)"
        using required by (auto simp: loops_def repeats_def simp flip: of_nat_mult)
      then have "?required * int p \<le> int n * int p" by (simp add: mult_right_mono)
      then show False using True len by linarith
    qed
    then show ?thesis using True by (intro skip) (simp_all add: Let_def)
  next
    case False
    have "int p \<le> ?required * int p" using assms(2) p by (simp add: mult_le_cancel_right1)
    then have "p \<le> length tokens" using False by linarith
    note max = count_copies_max [OF p this]
    show ?thesis
    proof (cases "?required \<le> int ?copies")
      case True
      then have "loops tokens least_copies least_tokens p ?copies" "\<not> repeats tokens p (Suc ?copies)"
        using required max by (auto simp: loops_def)
      moreover have "\<exists>earlier later. p # ps = earlier @ p # later
          \<and> (\<forall>p \<in> set earlier. \<forall>n. \<not> loops tokens least_copies least_tokens p n)"
        by (rule exI [of _ "[]"]) auto
      ultimately show ?thesis using True False by (simp add: Let_def)
    next
      case few: False
      have ?skip
      proof (intro allI notI)
        fix n assume "loops tokens least_copies least_tokens p n"
        then have "?required \<le> int n" "n \<le> ?copies" using required max by (auto simp: loops_def)
        then show False using few by linarith
      qed
      then show ?thesis using few False by (intro skip) (auto simp: Let_def)
    qed
  qed
qed simp


lemma periodic_suffix_total:
  assumes "1 \<le> longest_period" "2 \<le> least_copies" "1 \<le> least_tokens"
  shows "\<exists>r. periodic_suffix tokens longest_period least_copies least_tokens = Inr r \<and> (case r of
      None \<Rightarrow> \<forall>p n. 1 \<le> p \<and> int p \<le> longest_period \<longrightarrow> \<not> loops tokens least_copies least_tokens p n
    | Some e \<Rightarrow> 1 \<le> evidence_period e \<and> int (evidence_period e) \<le> longest_period
        \<and> loops tokens least_copies least_tokens (evidence_period e) (evidence_copies e)
        \<and> \<not> repeats tokens (evidence_period e) (Suc (evidence_copies e))
        \<and> (\<forall>p n. 1 \<le> p \<and> p < evidence_period e \<longrightarrow> \<not> loops tokens least_copies least_tokens p n)
        \<and> pattern_token_ids e = drop (length tokens - evidence_period e) tokens
        \<and> repeated_suffix_tokens e = evidence_copies e * evidence_period e)"
proof -
  let ?limit = "min longest_period (int (length tokens) div least_copies)"
  let ?ps = "[1..<nat ?limit + 1]"
  let ?r = "scan_periods tokens least_copies least_tokens ?ps"
  have eq: "periodic_suffix tokens longest_period least_copies least_tokens = Inr ?r"
    using assms by (simp add: periodic_suffix_def Let_def)
  note spec = scan_periods_spec [of ?ps least_copies tokens least_tokens]
  have pos: "\<forall>p \<in> set ?ps. 0 < p" "1 \<le> least_copies" using assms by auto
  show ?thesis
  proof (cases ?r)
    case None
    have "\<not> loops tokens least_copies least_tokens p n" if p: "1 \<le> p" "int p \<le> longest_period" for p n
    proof
      assume l: "loops tokens least_copies least_tokens p n"
      have "least_copies * int p \<le> int n * int p" using l by (simp add: loops_def mult_right_mono)
      also have "\<dots> \<le> int (length tokens)" using l by (simp add: loops_def repeats_def flip: of_nat_mult)
      finally have "int p \<le> int (length tokens) div least_copies"
        using int_le_div_iff [of least_copies "int p" "int (length tokens)"] assms(2) by (simp add: mult.commute)
      then have "p \<in> set ?ps" using p by auto
      moreover have "\<forall>q \<in> set ?ps. \<forall>n. \<not> loops tokens least_copies least_tokens q n"
        using spec [OF pos] unfolding None option.case .
      ultimately show False using l by blast
    qed
    then show ?thesis using eq None by auto
  next
    case (Some e)
    then obtain earlier later where split: "?ps = earlier @ evidence_period e # later"
      and no: "\<forall>p \<in> set earlier. \<forall>n. \<not> loops tokens least_copies least_tokens p n"
      and rest: "loops tokens least_copies least_tokens (evidence_period e) (evidence_copies e)
        \<and> \<not> repeats tokens (evidence_period e) (Suc (evidence_copies e))
        \<and> pattern_token_ids e = drop (length tokens - evidence_period e) tokens
        \<and> repeated_suffix_tokens e = evidence_copies e * evidence_period e"
      using spec [OF pos] by auto
    have "evidence_period e \<in> set ?ps" by (subst split) simp
    then have range: "1 \<le> evidence_period e" "int (evidence_period e) \<le> longest_period"
      "evidence_period e < nat ?limit + 1" by auto
    have "p \<in> set earlier" if "1 \<le> p" "p < evidence_period e" for p
    proof -
      have "p \<in> set ?ps" using that range(3) by simp
      moreover have "sorted_wrt (<) (earlier @ evidence_period e # later)"
        by (subst split [symmetric]) (rule sorted_wrt_upt)
      ultimately show ?thesis using that unfolding split by (auto simp: sorted_wrt_append)
    qed
    then show ?thesis using eq Some no rest range(1,2) by auto
  qed
qed


subsection \<open>The plan\<close>

text \<open>The candidates an escape may choose from, and those that may terminate.\<close>

definition alternatives :: "escape_policy \<Rightarrow> int list \<Rightarrow> int list" where
  "alternatives p ranked = drop 1 (take (nat (max_candidates p)) ranked)"

definition loop_found :: "escape_policy \<Rightarrow> int list \<Rightarrow> bool" where
  "loop_found p tokens \<longleftrightarrow> (\<exists>period n. 1 \<le> period \<and> int period \<le> max_period p
     \<and> loops tokens (min_copies p) (min_repeated_tokens p) period n)"

lemma policy_suffix_found:
  assumes "escape_policy_check p = Inr ()"
  shows "\<exists>r. policy_suffix p tokens = Inr r \<and> (r \<noteq> None \<longleftrightarrow> loop_found p tokens)"
proof -
  have "1 \<le> max_period p" "2 \<le> min_copies p" "1 \<le> min_repeated_tokens p"
    using assms by (auto simp: escape_policy_check_def split: if_splits)
  from periodic_suffix_total [OF this, of tokens] obtain r where
    r: "periodic_suffix tokens (max_period p) (min_copies p) (min_repeated_tokens p) = Inr r"
    and none: "r = None \<Longrightarrow> \<not> loop_found p tokens"
    and some: "\<And>e. r = Some e \<Longrightarrow> 1 \<le> evidence_period e \<and> int (evidence_period e) \<le> max_period p
        \<and> loops tokens (min_copies p) (min_repeated_tokens p) (evidence_period e) (evidence_copies e)"
    unfolding loop_found_def by (elim exE conjE) (fastforce split: option.splits)
  then show ?thesis unfolding policy_suffix_def by (cases r) (auto simp: loop_found_def)
qed

lemma boundary_found:
  assumes "escape_policy_check p = Inr ()"
  shows "\<exists>r. first_periodic_boundary prior_tokens approved p = Inr r
    \<and> (r \<noteq> None \<longleftrightarrow> approved \<noteq> [] \<and> loop_found p (prior_tokens @ approved))
    \<and> (\<forall>b. r = Some b \<longrightarrow> round_index b = length approved - 1 \<and> looping_token_id b = last approved)"
proof -
  obtain r where r: "policy_suffix p (prior_tokens @ approved) = Inr r"
    "r \<noteq> None \<longleftrightarrow> loop_found p (prior_tokens @ approved)"
    using policy_suffix_found [OF assms] by blast
  then show ?thesis
    by (cases r) (auto simp: first_periodic_boundary_def Let_def last_conv_nth)
qed

lemma find_NoneD: "find f xs = None \<Longrightarrow> \<forall>x \<in> set xs. \<not> f x"
  by (auto simp: find_None_iff)

end
