(* ===== verification/Logical_Pages.thy ===== *)
theory Logical_Pages
  imports Prelude
begin

section \<open>Logical pages over physical cache blocks\<close>

text \<open>
  Model of \<open>src/qwen_r9700_lab/logical_page_contract.py\<close>.  All quantities are Python
  integers, with Python's floor division and modulus; \<open>ValueError\<close> and \<open>IndexError\<close> are
  kept apart.
\<close>

datatype page_error =
    BlockNotPageMultiple
  | LengthOrPageInvalid
  | SequenceLengthNegative
  | PageOutsidePrefix
  | PageWithoutBlock
  | NodeGeometryInvalid
  | NodeWithoutBlock

record logical_page_address =
  logical_page :: int
  physical_block_index :: int
  physical_block_id :: int
  token_offset :: int
  valid_tokens :: int

definition DEFAULT_PAGE_TOKENS :: int where "DEFAULT_PAGE_TOKENS = 64"

definition pages_per_block :: "int \<Rightarrow> int \<Rightarrow> page_error + int" where
  "pages_per_block block_size page_tokens =
     (if block_size \<le> 0 \<or> page_tokens \<le> 0 \<or> block_size mod page_tokens \<noteq> 0 then Inl BlockNotPageMultiple
      else Inr (block_size div page_tokens))"

definition logical_page_count :: "int \<Rightarrow> int \<Rightarrow> page_error + int" where
  "logical_page_count sequence_length page_tokens =
     (if sequence_length < 0 \<or> page_tokens \<le> 0 then Inl LengthOrPageInvalid
      else Inr ((sequence_length + page_tokens - 1) div page_tokens))"

definition map_logical_page ::
  "int \<Rightarrow> int \<Rightarrow> int list \<Rightarrow> int \<Rightarrow> int \<Rightarrow> page_error + logical_page_address" where
  "map_logical_page page sequence_length block_table block_size page_tokens =
     (if sequence_length < 0 then Inl SequenceLengthNegative else
      rbind (logical_page_count sequence_length page_tokens) (\<lambda>page_count.
      if page < 0 \<or> page_count \<le> page then Inl PageOutsidePrefix else
      rbind (pages_per_block block_size page_tokens) (\<lambda>per_block.
      let physical_index = page div per_block
      in if int (length block_table) \<le> physical_index then Inl PageWithoutBlock
         else let offset = (page mod per_block) * page_tokens;
                  remaining = sequence_length - page * page_tokens
              in Inr \<lparr>logical_page = page, physical_block_index = physical_index,
                   physical_block_id = block_table ! nat physical_index, token_offset = offset,
                   valid_tokens = min page_tokens (min (block_size - offset) (max 0 remaining))\<rparr>)))"

definition map_tree_node :: "int \<Rightarrow> int \<Rightarrow> int list \<Rightarrow> int \<Rightarrow> page_error + int \<times> int" where
  "map_tree_node node prefix_length block_table block_size =
     (if node < 0 \<or> prefix_length < 0 \<or> block_size \<le> 0 then Inl NodeGeometryInvalid
      else let position = prefix_length + node; physical_index = position div block_size
           in if int (length block_table) \<le> physical_index then Inl NodeWithoutBlock
              else Inr (block_table ! nat physical_index, position mod block_size))"

subsection \<open>Where a token is\<close>

text \<open>The block and the offset of a token of the sequence.\<close>

definition token_place :: "int list \<Rightarrow> int \<Rightarrow> int \<Rightarrow> int \<times> int" where
  "token_place block_table block_size position =
     (block_table ! nat (position div block_size), position mod block_size)"

lemma page_count_bounds: "0 < t \<Longrightarrow> p < (n + t - 1) div t \<longleftrightarrow> p * t < n" for n t :: int
  using int_ceiling_le_iff [of t n p] by linarith

lemma mapped_page:
  assumes "map_logical_page page sequence_length block_table block_size page_tokens = Inr a"
  shows "0 < page_tokens" "0 \<le> page" "page * page_tokens < sequence_length"
    "valid_tokens a = min page_tokens (sequence_length - page * page_tokens)"
    "token_offset a + valid_tokens a \<le> block_size" "0 \<le> token_offset a"
    "0 \<le> k \<Longrightarrow> k < valid_tokens a \<Longrightarrow>
       token_place block_table block_size (page * page_tokens + k) = (physical_block_id a, token_offset a + k)"
proof -
  let ?per = "block_size div page_tokens"
  from assms have t: "0 < page_tokens" "0 \<le> page" "page < (sequence_length + page_tokens - 1) div page_tokens"
    and b: "0 < block_size" "block_size mod page_tokens = 0"
    and a: "physical_block_id a = block_table ! nat (page div ?per)"
      "token_offset a = page mod ?per * page_tokens"
      "valid_tokens a = min page_tokens (min (block_size - page mod ?per * page_tokens)
         (max 0 (sequence_length - page * page_tokens)))"
    by (auto simp: map_logical_page_def logical_page_count_def pages_per_block_def Let_def result_simps
        split: if_splits)
  show "0 < page_tokens" "0 \<le> page" using t by simp_all
  show less: "page * page_tokens < sequence_length" using t page_count_bounds by blast
  have block: "block_size = ?per * page_tokens" using b(2) by auto
  have per: "0 < ?per" using b(1) block t(1) by (metis mult_le_0_iff not_less less_le_not_le)
  let ?o = "page mod ?per"
  have o: "0 \<le> ?o" "?o < ?per" using per by simp_all
  have "(?o + 1) * page_tokens \<le> ?per * page_tokens" using o t(1) by (simp add: mult_right_mono)
  then have room: "?o * page_tokens + page_tokens \<le> block_size" using block by (simp add: algebra_simps)
  show valid: "valid_tokens a = min page_tokens (sequence_length - page * page_tokens)"
    using a(3) room less by linarith
  show "token_offset a + valid_tokens a \<le> block_size" using a(2) valid room by linarith
  show off: "0 \<le> token_offset a" using a(2) o t(1) by simp
  assume k: "0 \<le> k" "k < valid_tokens a"
  have "page = page div ?per * ?per + ?o" by (rule div_mult_mod_eq [symmetric])
  then have "page * page_tokens = page div ?per * (?per * page_tokens) + ?o * page_tokens"
    by (metis distrib_right mult.assoc)
  then have "page * page_tokens = page div ?per * block_size + ?o * page_tokens"
    using block by metis
  then have pos: "page * page_tokens + k = (?o * page_tokens + k) + page div ?per * block_size"
    by linarith
  have "0 \<le> ?o * page_tokens + k" "?o * page_tokens + k < block_size"
    using k valid room off a(2) by linarith+
  then have "(page * page_tokens + k) div block_size = page div ?per"
    "(page * page_tokens + k) mod block_size = ?o * page_tokens + k"
    using b(1) unfolding pos by simp_all
  then show "token_place block_table block_size (page * page_tokens + k) = (physical_block_id a, token_offset a + k)"
    by (simp add: token_place_def a)
qed

lemma mapped_page_total:
  assumes "0 < page_tokens" "0 < block_size" "block_size mod page_tokens = 0"
    and "0 \<le> page" "page * page_tokens < sequence_length"
    and "sequence_length \<le> block_size * int (length block_table)"
  shows "\<exists>a. map_logical_page page sequence_length block_table block_size page_tokens = Inr a"
proof -
  let ?per = "block_size div page_tokens"
  have block: "block_size = ?per * page_tokens" using assms(3) by auto
  have per: "0 < ?per" using assms(1,2) block by (metis mult_le_0_iff not_less less_le_not_le)
  have "page * page_tokens < ?per * page_tokens * int (length block_table)" using assms(5,6) block by simp
  then have "page * page_tokens < int (length block_table) * ?per * page_tokens"
    by (metis mult.assoc mult.commute)
  then have "page < int (length block_table) * ?per" using assms(1) by (simp add: mult_less_cancel_right)
  then have "page div ?per < int (length block_table)" using per by (simp add: int_div_less_iff)
  moreover have "0 \<le> sequence_length" using assms(1,4,5) by (metis less_imp_le mult_nonneg_nonneg order_trans)
  ultimately show ?thesis
    using assms page_count_bounds [OF assms(1), of page sequence_length]
    by (simp add: map_logical_page_def logical_page_count_def pages_per_block_def Let_def not_le)
qed

text \<open>The page of a token, and the sum of the pages.\<close>

lemma token_page:
  fixes n t :: int
  assumes "0 < t" "0 \<le> i" "i < n"
  shows "i div t * t \<le> i" "i - i div t * t < min t (n - i div t * t)" "0 \<le> i div t"
proof -
  have "i = i div t * t + i mod t" "0 \<le> i mod t" "i mod t < t" using assms by simp_all
  then show "i div t * t \<le> i" "i - i div t * t < min t (n - i div t * t)" using assms(3) by linarith+
  show "0 \<le> i div t" using assms by (simp add: pos_imp_zdiv_nonneg_iff)
qed

lemma node_place:
  "map_tree_node node prefix_length block_table block_size = Inr place \<longleftrightarrow>
     0 \<le> node \<and> 0 \<le> prefix_length \<and> 0 < block_size
     \<and> prefix_length + node < block_size * int (length block_table)
     \<and> place = token_place block_table block_size (prefix_length + node)"
proof (cases "0 < block_size")
  case True
  then have "(prefix_length + node) div block_size < int (length block_table)
      \<longleftrightarrow> prefix_length + node < block_size * int (length block_table)"
    by (simp add: int_div_less_iff mult.commute)
  then show ?thesis using True by (auto simp: map_tree_node_def token_place_def Let_def not_le)
qed (auto simp: map_tree_node_def)

end
