(* ===== verification/Page_Reuse.thy ===== *)
theory Page_Reuse
  imports Prelude
begin

section \<open>Reuse of a ranking of historical pages\<close>

text \<open>
  Model of \<open>src/qwen_r9700_lab/quest_page_reuse.py\<close>.  A request token is compared by
  identity: it is a value of a type of its own, one for every object.  The page payload is
  opaque.  The policy's dictionary is a function from layers to entries.
\<close>

datatype reuse_error = RefreshNotPositive | AdvanceNotPositive | PageTokensNotPositive

record reuse_policy =
  refresh_interval :: int
  max_sequence_advance :: int
  logical_page_tokens :: int

definition reuse_policy_check :: "reuse_policy \<Rightarrow> reuse_error + unit" where
  "reuse_policy_check p =
     (if refresh_interval p < 1 then Inl RefreshNotPositive
      else if max_sequence_advance p < 1 then Inl AdvanceNotPositive
      else if logical_page_tokens p < 1 then Inl PageTokensNotPositive
      else Inr ())"

definition block_table_extends :: "int list \<Rightarrow> int list \<Rightarrow> bool" where
  "block_table_extends previous current \<longleftrightarrow>
     length previous \<le> length current \<and> take (length previous) current = previous"

record ('q, 'p) reuse_entry =
  entry_request :: 'q
  entry_table :: "int list"
  entry_length :: int
  entry_budget :: int
  entry_recent :: int
  entry_pages :: 'p
  entry_count :: int
  entry_reuses :: int

record 'p page_reuse_hit =
  hit_pages :: 'p
  recent_start :: int
  total_pages :: int

type_synonym ('l, 'q, 'p) reuse_state = "'l \<Rightarrow> ('q, 'p) reuse_entry option"

definition reuse_clear :: "('l, 'q, 'p) reuse_state \<Rightarrow> ('l, 'q, 'p) reuse_state" where
  "reuse_clear s = (\<lambda>_. None)"

definition reuse_contains :: "'l \<Rightarrow> ('l, 'q, 'p) reuse_state \<Rightarrow> bool" where
  "reuse_contains layer s \<longleftrightarrow> s layer \<noteq> None"

definition reuse_forget :: "'l \<Rightarrow> ('l, 'q, 'p) reuse_state \<Rightarrow> ('l, 'q, 'p) reuse_state" where
  "reuse_forget layer s = s(layer := None)"

text \<open>What the attention layer passes: its identity and the state of its request.\<close>

record ('l, 'q) reuse_query =
  query_layer :: 'l
  query_request :: "'q option"
  query_table :: "int list option"
  query_length :: int
  query_budget :: int
  query_recent :: int

definition reuse_remember ::
  "('l, 'q) reuse_query \<Rightarrow> 'p \<Rightarrow> int \<Rightarrow> ('l, 'q, 'p) reuse_state \<Rightarrow> bool \<times> ('l, 'q, 'p) reuse_state" where
  "reuse_remember q pages count s =
     (case (query_request q, query_table q) of
        (Some request, Some table) \<Rightarrow>
          if count \<le> 0 then (False, reuse_forget (query_layer q) s)
          else (True, s(query_layer q \<mapsto> \<lparr>entry_request = request, entry_table = table,
                 entry_length = query_length q, entry_budget = query_budget q,
                 entry_recent = query_recent q, entry_pages = pages, entry_count = count,
                 entry_reuses = 0\<rparr>))
      | _ \<Rightarrow> (False, reuse_forget (query_layer q) s))"

definition reuse_lookup ::
  "reuse_policy \<Rightarrow> ('l, 'q) reuse_query \<Rightarrow> ('l, 'q, 'p) reuse_state
   \<Rightarrow> 'p page_reuse_hit option \<times> ('l, 'q, 'p) reuse_state" where
  "reuse_lookup p q s =
     (if refresh_interval p \<le> 1 then (None, s)
      else case s (query_layer q) of
        None \<Rightarrow> (None, s)
      | Some entry \<Rightarrow>
          (case (query_request q, query_table q) of
             (Some request, Some table) \<Rightarrow>
               let advance = query_length q - entry_length entry;
                   continuous = (request = entry_request entry
                     \<and> 0 < advance \<and> advance \<le> max_sequence_advance p
                     \<and> block_table_extends (entry_table entry) table
                     \<and> query_budget q = entry_budget entry \<and> query_recent q = entry_recent entry)
               in if \<not> continuous \<or> refresh_interval p - 1 \<le> entry_reuses entry
                  then (None, reuse_forget (query_layer q) s)
                  else
                    let total = (query_length q + logical_page_tokens p - 1) div logical_page_tokens p;
                        selected_count = min (query_budget q) total;
                        recent_count = min (max 0 (query_recent q)) selected_count
                    in if entry_count entry \<noteq> selected_count - recent_count
                       then (None, reuse_forget (query_layer q) s)
                       else (Some \<lparr>hit_pages = entry_pages entry, recent_start = total - recent_count,
                               total_pages = total\<rparr>,
                             s(query_layer q \<mapsto> entry\<lparr>entry_length := query_length q,
                               entry_table := table, entry_reuses := entry_reuses entry + 1\<rparr>))
           | _ \<Rightarrow> (None, reuse_forget (query_layer q) s)))"

subsection \<open>Sequences of calls\<close>

datatype ('l, 'q, 'p) reuse_call =
    Remember "('l, 'q) reuse_query" 'p int
  | Reuse "('l, 'q) reuse_query"
  | Forget 'l
  | ClearAll

text \<open>The queries that hit, with what they returned.\<close>

fun reuse_run ::
  "reuse_policy \<Rightarrow> ('l, 'q, 'p) reuse_call list \<Rightarrow> ('l, 'q, 'p) reuse_state
   \<Rightarrow> (('l, 'q) reuse_query \<times> 'p page_reuse_hit) list" where
  "reuse_run p [] s = []"
| "reuse_run p (Remember q pages count # calls) s = reuse_run p calls (snd (reuse_remember q pages count s))"
| "reuse_run p (Forget layer # calls) s = reuse_run p calls (reuse_forget layer s)"
| "reuse_run p (ClearAll # calls) s = reuse_run p calls (reuse_clear s)"
| "reuse_run p (Reuse q # calls) s =
     (case reuse_lookup p q s of
        (None, s') \<Rightarrow> reuse_run p calls s'
      | (Some hit, s') \<Rightarrow> (q, hit) # reuse_run p calls s')"

fun remembers :: "'l \<Rightarrow> ('l, 'q, 'p) reuse_call \<Rightarrow> bool" where
  "remembers layer (Remember q pages count) \<longleftrightarrow> query_layer q = layer"
| "remembers layer _ \<longleftrightarrow> False"

lemma lookup_cases:
  assumes "reuse_lookup p q s = (r, s')"
  shows "\<forall>layer. layer \<noteq> query_layer q \<longrightarrow> s' layer = s layer"
    "r = None \<Longrightarrow> s' (query_layer q) = None \<or> s' = s"
    "r = Some hit \<Longrightarrow> \<exists>entry request table. s (query_layer q) = Some entry
       \<and> query_request q = Some request \<and> query_table q = Some table
       \<and> request = entry_request entry \<and> entry_length entry < query_length q
       \<and> query_length q \<le> entry_length entry + max_sequence_advance p
       \<and> block_table_extends (entry_table entry) table
       \<and> entry_reuses entry < refresh_interval p - 1
       \<and> hit_pages hit = entry_pages entry
       \<and> total_pages hit = (query_length q + logical_page_tokens p - 1) div logical_page_tokens p
       \<and> entry_count entry + (total_pages hit - recent_start hit) = min (query_budget q) (total_pages hit)
       \<and> s' (query_layer q) = Some (entry\<lparr>entry_length := query_length q,
            entry_table := table, entry_reuses := entry_reuses entry + 1\<rparr>)"
proof -
  show "\<forall>layer. layer \<noteq> query_layer q \<longrightarrow> s' layer = s layer"
    using assms by (auto simp: reuse_lookup_def reuse_forget_def Let_def split: if_splits option.splits)
  show "r = None \<Longrightarrow> s' (query_layer q) = None \<or> s' = s"
    using assms by (auto simp: reuse_lookup_def reuse_forget_def Let_def split: if_splits option.splits)
  assume "r = Some hit"
  then show "\<exists>entry request table. s (query_layer q) = Some entry
       \<and> query_request q = Some request \<and> query_table q = Some table
       \<and> request = entry_request entry \<and> entry_length entry < query_length q
       \<and> query_length q \<le> entry_length entry + max_sequence_advance p
       \<and> block_table_extends (entry_table entry) table
       \<and> entry_reuses entry < refresh_interval p - 1
       \<and> hit_pages hit = entry_pages entry
       \<and> total_pages hit = (query_length q + logical_page_tokens p - 1) div logical_page_tokens p
       \<and> entry_count entry + (total_pages hit - recent_start hit) = min (query_budget q) (total_pages hit)
       \<and> s' (query_layer q) = Some (entry\<lparr>entry_length := query_length q,
            entry_table := table, entry_reuses := entry_reuses entry + 1\<rparr>)"
    using assms by (auto simp: reuse_lookup_def Let_def not_le split: if_splits option.splits)
qed

lemma extends_trans:
  "block_table_extends a b \<Longrightarrow> block_table_extends b c \<Longrightarrow> block_table_extends a c"
  unfolding block_table_extends_def by (metis min.absorb1 le_trans take_take)

text \<open>What may still be reused from an entry.\<close>

definition within_reuse ::
  "reuse_policy \<Rightarrow> ('q, 'p) reuse_entry \<Rightarrow> ('l, 'q) reuse_query \<times> 'p page_reuse_hit \<Rightarrow> bool" where
  "within_reuse p e = (\<lambda>(q, hit).
     hit_pages hit = entry_pages e \<and> query_request q = Some (entry_request e)
     \<and> (\<exists>table. query_table q = Some table \<and> block_table_extends (entry_table e) table)
     \<and> entry_length e < query_length q
     \<and> query_length q \<le> entry_length e
         + (refresh_interval p - 1 - entry_reuses e) * max_sequence_advance p
     \<and> total_pages hit = (query_length q + logical_page_tokens p - 1) div logical_page_tokens p
     \<and> entry_count e + (total_pages hit - recent_start hit) = min (query_budget q) (total_pages hit))"

definition layer_hits ::
  "'l \<Rightarrow> (('l, 'q) reuse_query \<times> 'p page_reuse_hit) list \<Rightarrow> (('l, 'q) reuse_query \<times> 'p page_reuse_hit) list" where
  "layer_hits layer hits = filter (\<lambda>(q, hit). query_layer q = layer) hits"

definition reuse_bounded ::
  "reuse_policy \<Rightarrow> ('q, 'p) reuse_entry option \<Rightarrow> (('l, 'q) reuse_query \<times> 'p page_reuse_hit) list \<Rightarrow> bool" where
  "reuse_bounded p remembered hits \<longleftrightarrow>
     (case remembered of None \<Rightarrow> hits = []
      | Some e \<Rightarrow> int (length hits) \<le> max 0 (refresh_interval p - 1 - entry_reuses e)
          \<and> (\<forall>x \<in> set hits. within_reuse p e x))"

lemma reuse_bounded_None: "reuse_bounded p None hits \<Longrightarrow> reuse_bounded p remembered hits"
  by (auto simp: reuse_bounded_def split: option.splits)

lemma within_reuse_step:
  assumes x: "within_reuse p (e\<lparr>entry_length := n, entry_table := table, entry_reuses := entry_reuses e + 1\<rparr>) x"
    and e: "entry_length e < n" "n \<le> entry_length e + max_sequence_advance p"
      "block_table_extends (entry_table e) table"
  shows "within_reuse p e x"
proof -
  have "n + (refresh_interval p - 1 - (entry_reuses e + 1)) * max_sequence_advance p
      \<le> entry_length e + (refresh_interval p - 1 - entry_reuses e) * max_sequence_advance p"
    using e(2) by (simp add: algebra_simps)
  then show ?thesis
    using x e(1) extends_trans [OF e(3)] by (auto simp: within_reuse_def split: prod.splits)
qed

lemma reuse_run_bounded:
  assumes "\<forall>c \<in> set calls. \<not> remembers layer c" "0 \<le> max_sequence_advance p"
  shows "reuse_bounded p (s layer) (layer_hits layer (reuse_run p calls s))"
  using assms
proof (induction p calls s rule: reuse_run.induct)
  case (1 p s)
  then show ?case by (simp add: reuse_bounded_def layer_hits_def split: option.splits)
next
  case (2 p q pages count calls s)
  then have "snd (reuse_remember q pages count s) layer = s layer"
    by (auto simp: reuse_remember_def reuse_forget_def split: option.splits)
  then show ?case using 2 by simp
next
  case (3 p l calls s)
  then have "reuse_bounded p (reuse_forget l s layer) (layer_hits layer (reuse_run p calls (reuse_forget l s)))"
    by simp
  then show ?case
    using reuse_bounded_None by (cases "l = layer") (auto simp: reuse_forget_def)
next
  case (4 p calls s)
  then have "reuse_bounded p (reuse_clear s layer) (layer_hits layer (reuse_run p calls (reuse_clear s)))"
    by simp
  then show ?case using reuse_bounded_None by (auto simp: reuse_clear_def)
next
  case (5 p q calls s)
  obtain r s' where look: "reuse_lookup p q s = (r, s')" by (cases "reuse_lookup p q s")
  note facts = lookup_cases [OF look]
  have ih: "reuse_bounded p (s' layer) (layer_hits layer (reuse_run p calls s'))"
    using "5.IH" 5(3,4) look by (cases r) auto
  show ?case
  proof (cases "query_layer q = layer")
    case False
    then have "layer_hits layer (reuse_run p (Reuse q # calls) s) = layer_hits layer (reuse_run p calls s')"
      using look by (simp add: layer_hits_def split: option.splits)
    then show ?thesis using ih facts(1) False by metis
  next
    case True
    show ?thesis
    proof (cases r)
      case None
      then have "reuse_run p (Reuse q # calls) s = reuse_run p calls s'" using look by simp
      moreover have "s' layer = None \<or> s' = s" using facts(2) [OF None] True by simp
      ultimately show ?thesis using ih reuse_bounded_None by metis
    next
      case (Some hit)
      obtain e table where e: "s layer = Some e" "query_request q = Some (entry_request e)"
        "query_table q = Some table" "entry_length e < query_length q"
        "query_length q \<le> entry_length e + max_sequence_advance p"
        "block_table_extends (entry_table e) table" "entry_reuses e < refresh_interval p - 1"
        "hit_pages hit = entry_pages e"
        "total_pages hit = (query_length q + logical_page_tokens p - 1) div logical_page_tokens p"
        "entry_count e + (total_pages hit - recent_start hit) = min (query_budget q) (total_pages hit)"
        and s': "s' layer = Some (e\<lparr>entry_length := query_length q, entry_table := table,
          entry_reuses := entry_reuses e + 1\<rparr>)"
        using facts(3) [OF Some] True by auto
      have "1 * max_sequence_advance p \<le> (refresh_interval p - 1 - entry_reuses e) * max_sequence_advance p"
        using e(7) 5(4) by (intro mult_right_mono) auto
      then have "query_length q \<le> entry_length e
          + (refresh_interval p - 1 - entry_reuses e) * max_sequence_advance p"
        using e(5) by linarith
      then have "within_reuse p e (q, hit)" using e by (auto simp: within_reuse_def)
      moreover have "layer_hits layer (reuse_run p (Reuse q # calls) s)
          = (q, hit) # layer_hits layer (reuse_run p calls s')"
        using look Some True by (simp add: layer_hits_def)
      ultimately show ?thesis
        using ih e(1,7) within_reuse_step [OF _ e(4,5,6)] by (auto simp: reuse_bounded_def s')
    qed
  qed
qed

end
