(* ===== verification/Policy_Properties.thy ===== *)
theory Policy_Properties
  imports Repetition_Escape Logical_Pages Page_Reuse
begin

section \<open>Properties of the host-side policies\<close>

text \<open>
  The properties of the repetition policy, of the logical pages and of the reuse of page
  rankings, each with a witness.
\<close>

text \<open> C27:
  The detection is exact.  With valid thresholds \<open>periodic_suffix\<close> returns, and it finds
  a period exactly when some period up to the longest one repeats at the end of the tokens
  with enough copies and enough tokens.  The period it returns is the smallest one that
  does, and the copies, the pattern and the span are those of the whole repeated suffix.
\<close>

theorem periodic_suffix_is_the_smallest_loop:
  assumes "1 \<le> longest_period" "2 \<le> least_copies" "1 \<le> least_tokens"
  shows "\<exists>r. periodic_suffix tokens longest_period least_copies least_tokens = Inr r \<and> (case r of
      None \<Rightarrow> \<forall>p n. 1 \<le> p \<and> int p \<le> longest_period \<longrightarrow> \<not> loops tokens least_copies least_tokens p n
    | Some e \<Rightarrow> 1 \<le> evidence_period e \<and> int (evidence_period e) \<le> longest_period
        \<and> loops tokens least_copies least_tokens (evidence_period e) (evidence_copies e)
        \<and> \<not> repeats tokens (evidence_period e) (Suc (evidence_copies e))
        \<and> (\<forall>p n. 1 \<le> p \<and> p < evidence_period e \<longrightarrow> \<not> loops tokens least_copies least_tokens p n)
        \<and> pattern_token_ids e = drop (length tokens - evidence_period e) tokens
        \<and> repeated_suffix_tokens e = evidence_copies e * evidence_period e)"
  by (rule periodic_suffix_total [OF assms])

lemma demo_suffix:
  "periodic_suffix [9, 1, 2, 1, 2, 1, 2] 3 2 6
     = Inr (Some \<lparr>evidence_copies = 3, evidence_period = 2, pattern_token_ids = [1, 2],
         repeated_suffix_tokens = 6\<rparr>)"
  by code_simp

theorem periodic_suffix_is_the_smallest_loop_witness:
  "loops [9, 1, 2, 1, 2, 1, 2] 2 6 2 3 \<and> (\<forall>n. \<not> loops [9, 1, 2, 1, 2, 1, 2] 2 6 1 n)"
  using periodic_suffix_is_the_smallest_loop [of 3 2 6 "[9, 1, 2, 1, 2, 1, 2]"]
  unfolding demo_suffix by simp

text \<open>
  An escape is only planned for a proven loop and only changes the last token of the round.
  With a valid policy and a count that is not negative planning returns; it leaves the
  round alone exactly when the round is empty or the tokens do not end in a loop.
  Otherwise it keeps every token of the round but the last.  It escapes only while the
  budget lasts and only if the target's first choice is that token, then with the
  highest-ranked alternative that is not an end token, is allowed and does not repeat at
  once; it terminates only with an allowed end token, the budget being exhausted or no such
  alternative existing; and when it blocks, nothing is replaced.
\<close>

theorem escapes_only_leave_proven_loops:
  assumes policy: "escape_policy_check p = Inr ()" and count: "0 \<le> escapes"
  shows "\<exists>r. plan_escape prior_tokens approved ranked escapes eos allowed immediately_repeats p = Inr r
    \<and> (r = None \<longleftrightarrow> approved = [] \<or> \<not> loop_found p (prior_tokens @ approved))
    \<and> (\<forall>d. r = Some d \<longrightarrow> retained_round_tokens d = length approved - 1
        \<and> (case decided_action d of
             Escape \<Rightarrow> escapes < max_escapes p \<and> ranked ! 0 = last approved
               \<and> (\<exists>token worse better. replacement_token_id d = Some token
                    \<and> alternatives p ranked = better @ token # worse
                    \<and> admissible eos allowed immediately_repeats token
                    \<and> (\<forall>t \<in> set better. \<not> admissible eos allowed immediately_repeats t))
           | Terminate \<Rightarrow> (\<exists>token. replacement_token_id d = Some token \<and> token \<in> set ranked
                    \<and> token \<in> eos \<and> (\<forall>f. allowed = Some f \<longrightarrow> f token))
               \<and> (escapes < max_escapes p \<longrightarrow>
                    (\<forall>t \<in> set (alternatives p ranked). \<not> admissible eos allowed immediately_repeats t))
           | Blocked \<Rightarrow> replacement_token_id d = None))"
proof -
  obtain found where found: "first_periodic_boundary prior_tokens approved p = Inr found"
    "found \<noteq> None \<longleftrightarrow> approved \<noteq> [] \<and> loop_found p (prior_tokens @ approved)"
    "\<And>b. found = Some b \<Longrightarrow> round_index b = length approved - 1 \<and> looping_token_id b = last approved"
    using boundary_found [OF policy, of prior_tokens approved] by blast
  show ?thesis
  proof (cases found)
    case None
    then show ?thesis using found(1,2) count by (simp add: plan_escape_def)
  next
    case (Some b)
    note b = found(3) [OF Some]
    have loop: "approved \<noteq> []" "loop_found p (prior_tokens @ approved)" using found(2) Some by auto
    let ?alternative = "find (admissible eos allowed immediately_repeats) (alternatives p ranked)"
    let ?ending = "find (\<lambda>token. token \<in> eos \<and> (case allowed of None \<Rightarrow> True | Some f \<Rightarrow> f token))
      (take (nat (max_candidates p)) ranked)"
    have eq: "plan_escape prior_tokens approved ranked escapes eos allowed immediately_repeats p
      = Inr (Some (if ranked = [] then \<lparr>decided_action = Blocked, decided_boundary = b,
            replacement_token_id = None, prior_escape_count = escapes, decided_reason = CandidatesAbsent\<rparr>
          else if ranked ! 0 \<noteq> last approved then \<lparr>decided_action = Blocked, decided_boundary = b,
            replacement_token_id = None, prior_escape_count = escapes, decided_reason = ArgmaxDiffers\<rparr>
          else case (if escapes < max_escapes p then ?alternative else None) of
              Some token \<Rightarrow> \<lparr>decided_action = Escape, decided_boundary = b,
                replacement_token_id = Some token, prior_escape_count = escapes,
                decided_reason = HighestRankedAlternative\<rparr>
            | None \<Rightarrow> (case ?ending of
                Some token \<Rightarrow> \<lparr>decided_action = Terminate, decided_boundary = b,
                  replacement_token_id = Some token, prior_escape_count = escapes,
                  decided_reason = (if max_escapes p \<le> escapes then BudgetExhausted else NoNonTerminalAlternative)\<rparr>
              | None \<Rightarrow> \<lparr>decided_action = Blocked, decided_boundary = b,
                  replacement_token_id = None, prior_escape_count = escapes,
                  decided_reason = (if max_escapes p \<le> escapes then BudgetExhaustedWithoutEos
                    else NoAlternativeOrEos)\<rparr>)))"
      using count found(1) Some b by (simp add: plan_escape_def Let_def alternatives_def split: option.splits)
    show ?thesis
    proof (cases "ranked = [] \<or> ranked ! 0 \<noteq> last approved")
      case True
      then show ?thesis using eq loop b by (auto simp: retained_round_tokens_def)
    next
      case False
      show ?thesis
      proof (cases "if escapes < max_escapes p then ?alternative else None")
        case (Some token)
        then have e: "escapes < max_escapes p" "?alternative = Some token" by (auto split: if_splits)
        obtain better worse where "alternatives p ranked = better @ token # worse"
          "\<forall>t \<in> set better. \<not> admissible eos allowed immediately_repeats t"
          "admissible eos allowed immediately_repeats token"
          using find_SomeD [OF e(2)] by blast
        then show ?thesis using eq Some e(1) False loop b by (auto simp: retained_round_tokens_def)
      next
        case None
        then have none: "escapes < max_escapes p \<longrightarrow>
            (\<forall>t \<in> set (alternatives p ranked). \<not> admissible eos allowed immediately_repeats t)"
          using find_NoneD [of "admissible eos allowed immediately_repeats" "alternatives p ranked"]
          by (auto split: if_splits)
        show ?thesis
        proof (cases ?ending)
          case (Some token)
          have "token \<in> set ranked" "token \<in> eos" "\<forall>f. allowed = Some f \<longrightarrow> f token"
            using find_SomeD [OF Some] by (auto dest: in_set_takeD)
          then show ?thesis using eq None Some none False loop b by (auto simp: retained_round_tokens_def)
        next
          case no_ending: None
          then show ?thesis using eq None False loop b by (auto simp: retained_round_tokens_def)
        qed
      qed
    qed
  qed
qed

definition demo_policy :: escape_policy where
  "demo_policy = \<lparr>max_period = 3, min_copies = 2, min_repeated_tokens = 6, max_escapes = 4, max_candidates = 16\<rparr>"

lemma demo_policy_valid: "escape_policy_check demo_policy = Inr ()"
  by code_simp

theorem escapes_only_leave_proven_loops_witness:
  "\<exists>d. plan_escape [9, 1, 2, 1, 2] [1, 2] [2, 1, 5] 0 {5} None None demo_policy = Inr (Some d)
     \<and> retained_round_tokens d = 1"
proof -
  have "loop_found demo_policy ([9, 1, 2, 1, 2] @ [1, 2])"
    unfolding loop_found_def
    by (intro exI [of _ 2] exI [of _ 3]) (simp add: demo_policy_def loops_def repeats_def numeral_eq_Suc less_Suc_eq)
  then show ?thesis
    using escapes_only_leave_proven_loops [OF demo_policy_valid, of 0 "[9, 1, 2, 1, 2]" "[1, 2]" "[2, 1, 5]"
        "{5}" None None]
    by (cases "plan_escape [9, 1, 2, 1, 2] [1, 2] [2, 1, 5] 0 {5} None None demo_policy") auto
qed


text \<open> Logical pages tile the sequence.  With pages that divide the blocks and a block table
  that holds the sequence, exactly the pages that begin inside the sequence map.  The
  tokens of such a page are where the paged cache has them: the address is the block and
  the offset of each of its tokens, inside of one block, and the valid tokens are a full
  page or the rest of the sequence.  Every token lies in the valid part of its page.  A
  tree node appended to the sequence is placed where its token will be.
\<close>

theorem logical_pages_tile_the_sequence:
  assumes geometry: "0 < page_tokens" "0 < block_size" "block_size mod page_tokens = 0"
    and room: "0 \<le> n" "n \<le> block_size * int (length block_table)"
  shows "(\<forall>page. if 0 \<le> page \<and> page * page_tokens < n
      then \<exists>a. map_logical_page page n block_table block_size page_tokens = Inr a
        \<and> valid_tokens a = min page_tokens (n - page * page_tokens) \<and> 0 < valid_tokens a
        \<and> 0 \<le> token_offset a \<and> token_offset a + valid_tokens a \<le> block_size
        \<and> (\<forall>k. 0 \<le> k \<and> k < valid_tokens a \<longrightarrow>
             token_place block_table block_size (page * page_tokens + k) = (physical_block_id a, token_offset a + k))
      else map_logical_page page n block_table block_size page_tokens = Inl PageOutsidePrefix)
    \<and> (\<forall>i. 0 \<le> i \<and> i < n \<longrightarrow> 0 \<le> i div page_tokens \<and> i div page_tokens * page_tokens \<le> i
        \<and> i < i div page_tokens * page_tokens + min page_tokens (n - i div page_tokens * page_tokens))
    \<and> (\<forall>node. 0 \<le> node \<and> n + node < block_size * int (length block_table) \<longrightarrow>
        map_tree_node node n block_table block_size = Inr (token_place block_table block_size (n + node)))"
proof (intro conjI allI)
  fix page
  show "if 0 \<le> page \<and> page * page_tokens < n
      then \<exists>a. map_logical_page page n block_table block_size page_tokens = Inr a
        \<and> valid_tokens a = min page_tokens (n - page * page_tokens) \<and> 0 < valid_tokens a
        \<and> 0 \<le> token_offset a \<and> token_offset a + valid_tokens a \<le> block_size
        \<and> (\<forall>k. 0 \<le> k \<and> k < valid_tokens a \<longrightarrow>
             token_place block_table block_size (page * page_tokens + k) = (physical_block_id a, token_offset a + k))
      else map_logical_page page n block_table block_size page_tokens = Inl PageOutsidePrefix"
  proof (cases "0 \<le> page \<and> page * page_tokens < n")
    case True
    then obtain a where a: "map_logical_page page n block_table block_size page_tokens = Inr a"
      using mapped_page_total [OF geometry] room by blast
    have "0 < valid_tokens a" using mapped_page(4) [OF a] True geometry(1) by simp
    then show ?thesis using mapped_page [OF a] a True by auto
  next
    case False
    then show ?thesis
      using geometry(1) room(1) page_count_bounds [OF geometry(1), of page n]
      by (auto simp: map_logical_page_def logical_page_count_def)
  qed
next
  fix i
  show "0 \<le> i \<and> i < n \<longrightarrow> 0 \<le> i div page_tokens \<and> i div page_tokens * page_tokens \<le> i
        \<and> i < i div page_tokens * page_tokens + min page_tokens (n - i div page_tokens * page_tokens)"
    using token_page [OF geometry(1), of i n] by auto
next
  fix node
  show "0 \<le> node \<and> n + node < block_size * int (length block_table) \<longrightarrow>
        map_tree_node node n block_table block_size = Inr (token_place block_table block_size (n + node))"
    using geometry(2) room(1) by (auto simp: node_place)
qed

theorem logical_pages_tile_the_sequence_witness:
  "map_tree_node 3 1700 [8, 4] 1728 = Inr (8, 1703)
   \<and> map_logical_page 27 1730 [8, 4] 1728 64 = Inr \<lparr>logical_page = 27, physical_block_index = 1,
        physical_block_id = 4, token_offset = 0, valid_tokens = 2\<rparr>"
proof -
  have "\<exists>a. map_logical_page 27 1730 [8, 4] 1728 64 = Inr a \<and> valid_tokens a = min 64 (1730 - 27 * 64)"
    using logical_pages_tile_the_sequence [of 64 1728 1730 "[8, 4]"] by (fastforce dest: spec [of _ 27])
  moreover have "map_tree_node 3 1700 [8, 4] 1728 = Inr (token_place [8, 4] 1728 1703)"
    using logical_pages_tile_the_sequence [of 64 1728 1700 "[8, 4]"] by (auto dest: spec [of _ 3])
  ultimately show ?thesis
    by (simp add: token_place_def map_logical_page_def logical_page_count_def pages_per_block_def)
qed

text \<open> C28:
  A ranking is reused a bounded number of times, for its own request and never past its
  bound.  After a ranking was remembered for a layer, and until the next one is remembered
  for that layer, whatever else is called: fewer than \<open>refresh_interval\<close> queries hit; each
  hit returns the remembered pages, for the same request, over a block table that extends
  the remembered one and a sequence that grew by at most the bound of one advance for every
  reuse; and the tail it returns completes the remembered count to the page budget.
\<close>

theorem rankings_are_reused_within_bounds:
  assumes policy: "reuse_policy_check p = Inr ()"
    and remembered: "reuse_remember q pages count s = (True, s')"
    and calls: "\<forall>c \<in> set calls. \<not> remembers (query_layer q) c"
  shows "let hits = filter (\<lambda>(q', hit). query_layer q' = query_layer q) (reuse_run p calls s')
    in int (length hits) < refresh_interval p
     \<and> (\<forall>(q', hit) \<in> set hits. hit_pages hit = pages \<and> query_request q' = query_request q
          \<and> (\<exists>old new. query_table q = Some old \<and> query_table q' = Some new \<and> block_table_extends old new)
          \<and> query_length q < query_length q'
          \<and> query_length q' \<le> query_length q + (refresh_interval p - 1) * max_sequence_advance p
          \<and> total_pages hit = (query_length q' + logical_page_tokens p - 1) div logical_page_tokens p
          \<and> count + (total_pages hit - recent_start hit) = min (query_budget q') (total_pages hit))"
proof -
  have p: "1 \<le> refresh_interval p" "0 \<le> max_sequence_advance p"
    using policy by (auto simp: reuse_policy_check_def split: if_splits)
  obtain request table where e: "query_request q = Some request" "query_table q = Some table"
    "s' (query_layer q) = Some \<lparr>entry_request = request, entry_table = table,
       entry_length = query_length q, entry_budget = query_budget q, entry_recent = query_recent q,
       entry_pages = pages, entry_count = count, entry_reuses = 0\<rparr>"
    using remembered by (auto simp: reuse_remember_def split: option.splits if_splits)
  have "reuse_bounded p (s' (query_layer q)) (layer_hits (query_layer q) (reuse_run p calls s'))"
    by (rule reuse_run_bounded [OF calls p(2)])
  then have hits: "int (length (layer_hits (query_layer q) (reuse_run p calls s'))) < refresh_interval p"
    "(q', hit) \<in> set (layer_hits (query_layer q) (reuse_run p calls s')) \<Longrightarrow>
       within_reuse p \<lparr>entry_request = request, entry_table = table,
         entry_length = query_length q, entry_budget = query_budget q, entry_recent = query_recent q,
         entry_pages = pages, entry_count = count, entry_reuses = 0\<rparr> (q', hit)" for q' hit
    using p(1) by (auto simp: reuse_bounded_def e(3))
  show ?thesis
    unfolding Let_def layer_hits_def [symmetric]
    using hits by (auto simp: within_reuse_def e(1,2))
qed

definition demo_query :: "int \<Rightarrow> (nat, nat) reuse_query" where
  "demo_query n = \<lparr>query_layer = 0, query_request = Some 5, query_table = Some [3, 4],
     query_length = n, query_budget = 8, query_recent = 2\<rparr>"

definition demo_reuse :: reuse_policy where
  "demo_reuse = \<lparr>refresh_interval = 2, max_sequence_advance = 9, logical_page_tokens = 64\<rparr>"

definition demo_hits :: "((nat, nat) reuse_query \<times> string page_reuse_hit) list" where
  "demo_hits = reuse_run demo_reuse [Reuse (demo_query 1001), Reuse (demo_query 1002)]
     (snd (reuse_remember (demo_query 1000) ''ab'' 6 (\<lambda>_. None)))"

lemma demo_hits_value:
  "demo_hits = [(demo_query 1001, \<lparr>hit_pages = ''ab'', recent_start = 14, total_pages = 16\<rparr>)]"
  by (simp add: demo_hits_def reuse_lookup_def reuse_remember_def reuse_forget_def demo_query_def
      demo_reuse_def block_table_extends_def)

theorem rankings_are_reused_within_bounds_witness:
  "int (length (filter (\<lambda>(q', hit). query_layer q' = query_layer (demo_query 1000)) demo_hits)) < 2
   \<and> length demo_hits = 1"
proof -
  have a: "reuse_policy_check demo_reuse = Inr ()" by (simp add: reuse_policy_check_def demo_reuse_def)
  have b: "reuse_remember (demo_query 1000) ''ab'' 6 (\<lambda>_. None)
      = (True, snd (reuse_remember (demo_query 1000) ''ab'' 6 (\<lambda>_. None)))"
    by (simp add: reuse_remember_def demo_query_def)
  have c: "\<forall>c \<in> set [Reuse (demo_query 1001), Reuse (demo_query 1002)].
      \<not> remembers (query_layer (demo_query 1000)) c" by simp
  from rankings_are_reused_within_bounds [OF a b c] show ?thesis
    unfolding Let_def demo_hits_def [symmetric] by (simp add: demo_reuse_def demo_hits_value)
qed

end
