(* ===== verification/Loops.thy ===== *)
theory Loops
  imports Prelude
begin

section \<open>Loops of actions\<close>

text \<open>
  A \<open>for\<close> loop whose body mutates the state and may raise, and what is known of it from its
  body: a relation every step keeps, the steps of a run that returned, the step that alone
  touches a part of the state, and an invariant under which the loop returns.
\<close>

fun for_each :: "('x \<Rightarrow> ('s, 'e, unit) action) \<Rightarrow> 'x list \<Rightarrow> ('s, 'e, unit) action" where
  "for_each f [] = ret ()"
| "for_each f (x # xs) = sbind (f x) (\<lambda>_. for_each f xs)"

lemma gets_then [simp]: "sbind (gets f) g s = g (f s) s"
  by (simp add: sbind_def)

lemma for_each_Inr:
  assumes "for_each f xs s = (Inr u, s')" "x \<in> set xs"
  shows "\<exists>ys zs s1 s2. xs = ys @ x # zs \<and> for_each f ys s = (Inr (), s1) \<and> f x s1 = (Inr (), s2)
    \<and> for_each f zs s2 = (Inr (), s')"
  using assms
proof (induction xs arbitrary: s)
  case (Cons y ys)
  obtain t where t: "f y s = (Inr (), t)" "for_each f ys t = (Inr u, s')"
    using Cons.prems(1) by (auto simp: sbind_Inr_iff)
  show ?case
  proof (cases "x = y")
    case True
    then show ?thesis using t by (intro exI [of _ "[]"] exI [of _ ys] exI [of _ s] exI [of _ t]) simp
  next
    case False
    then obtain ws zs s1 s2 where "ys = ws @ x # zs" "for_each f ws t = (Inr (), s1)"
      "f x s1 = (Inr (), s2)" "for_each f zs s2 = (Inr (), s')"
      using Cons.IH [OF t(2)] Cons.prems(2) by auto
    then show ?thesis
      using t(1) by (intro exI [of _ "y # ws"] exI [of _ zs] exI [of _ s1] exI [of _ s2])
        (simp add: sbind_def)
  qed
qed simp

context history
begin

lemma keeps_for_each: "(\<And>x. x \<in> set xs \<Longrightarrow> keeps R (f x)) \<Longrightarrow> keeps R (for_each f xs)"
  by (induction xs) auto

end

lemma for_each_view:
  assumes run: "for_each step ks m = (Inr u, m')" and ks: "distinct ks" "k \<in> set ks"
    and other: "\<forall>i a r b. i \<in> set ks \<longrightarrow> step i a = (r, b) \<longrightarrow> i \<noteq> k \<longrightarrow> view b = view a"
  shows "\<exists>a b. step k a = (Inr (), b) \<and> view a = view m \<and> view m' = view b"
proof -
  have h: "history (\<lambda>a b. view b = view a)" by unfold_locales auto
  have quiet: "keeps (\<lambda>a b. view b = view a) (for_each step ls)" if "k \<notin> set ls" "set ls \<subseteq> set ks" for ls
  proof (rule history.keeps_for_each [OF h])
    fix i assume "i \<in> set ls"
    then have "i \<noteq> k" "i \<in> set ks" using that by auto
    then show "keeps (\<lambda>a b. view b = view a) (step i)"
      unfolding keeps_def by (metis other prod.collapse)
  qed
  obtain ys zs s1 s2 where parts: "ks = ys @ k # zs" "for_each step ys m = (Inr (), s1)"
    "step k s1 = (Inr (), s2)" "for_each step zs s2 = (Inr (), m')"
    using for_each_Inr [OF run ks(2)] by (elim exE conjE)
  have "k \<notin> set ys" "k \<notin> set zs" "set ys \<subseteq> set ks" "set zs \<subseteq> set ks" using ks(1) parts(1) by auto
  then have "view s1 = view m" "view m' = view s2"
    using keepsD [OF quiet parts(2)] keepsD [OF quiet parts(4)] by auto
  then show ?thesis using parts(3) by (intro exI [of _ s1] exI [of _ s2]) simp
qed

lemma for_each_total:
  assumes "\<And>x s. x \<in> set xs \<Longrightarrow> I s \<Longrightarrow> \<exists>s'. f x s = (Inr (), s') \<and> I s'" "I s"
  shows "\<exists>s'. for_each f xs s = (Inr (), s') \<and> I s'"
  using assms
proof (induction xs arbitrary: s)
  case (Cons x xs)
  obtain t where t: "f x s = (Inr (), t)" "I t" using Cons.prems by auto
  then obtain s' where "for_each f xs t = (Inr (), s')" "I s'" using Cons.IH [of t] Cons.prems(1) by auto
  then show ?case using t by (auto simp: sbind_def)
qed simp

end
