(* ===== verification/Physical_Roots.thy ===== *)
theory Physical_Roots
  imports Authority_Safety Loops
begin

section \<open>The physical roots of the worker\<close>

text \<open>
  Model of \<open>src/qwen_r9700_lab/live_commit_vllm_physical_roots.py\<close>: copying the canonical
  rows into the two private roots, comparing roots and capturing them.  The memory of the
  worker holds the caches of the modules the constructor resolved: for an attention layer
  its key and its value rows by block, for a recurrent layer its states and convolutions by
  slot.  A row is opaque; \<open>torch.equal\<close> is a parameter, as it is neither reflexive (NaN) nor
  bitwise (zeros), and so are the digests.  The callbacks for the auxiliary state work on
  their own part of the memory.
\<close>

datatype physical_error =
    TopologyDiffers
  | BlockCountDiffers
  | WritableMapDiffers
  | CacheLayoutDiffers
  | BlockOutsideStorage
  | SlotOutsideStorage
  | MutableBlockOutside
  | RowCountDiffers
  | RowDiffers
  | RecurrentStateDiffers
  | RowIndexError
  | AuxiliaryDiffers
  | PhysicalIdsAlias
  | CopyIncomplete
  | NotATensor
  | AuxiliaryNotCaptured

record 'v attention_cache =
  key_rows :: "'v list"
  value_rows :: "'v list"

record ('v, 'x) worker_memory =
  target_caches :: "'v attention_cache list"
  draft_caches :: "'v attention_cache list"
  gdn_caches :: "'v list list"
  convolution_caches :: "'v list list"
  auxiliary :: 'x

record ('v, 'x) worker_callbacks =
  copy_auxiliary :: "physical_root \<Rightarrow> physical_root \<Rightarrow> physical_root \<Rightarrow> 'x \<Rightarrow> bool \<times> 'x"
  compare_auxiliary :: "physical_root \<Rightarrow> physical_root \<Rightarrow> 'x \<Rightarrow> bool"
  capture_auxiliary :: "physical_root \<Rightarrow> 'x \<Rightarrow> string option"
  synchronize_device :: "('v, 'x) worker_memory \<Rightarrow> bool"
  tensor_equal :: "'v \<Rightarrow> 'v \<Rightarrow> bool"
  tensor_digest :: "'v list \<Rightarrow> string"
  capture_digest :: "string list \<Rightarrow> string list \<Rightarrow> string list \<Rightarrow> string list \<Rightarrow> string \<Rightarrow> string"

text \<open>What \<open>_resolve_modules\<close> found: sixteen, five and forty-eight modules.\<close>

definition resolve_modules :: "('v, 'x) worker_memory \<Rightarrow> physical_error + unit" where
  "resolve_modules m =
     require (length (target_caches m) = TARGET_KV_LAYER_COUNT
       \<and> length (draft_caches m) = DRAFT_LAYER_COUNT
       \<and> length (gdn_caches m) = GDN_LAYER_COUNT
       \<and> length (convolution_caches m) = GDN_LAYER_COUNT) TopologyDiffers"

subsection \<open>Copying\<close>

text \<open>\<open>_attention_cache\<close>: the key and value tensors have the same number of blocks.\<close>

definition cache_layout :: "'v attention_cache \<Rightarrow> bool" where
  "cache_layout c \<longleftrightarrow> length (key_rows c) = length (value_rows c)"

definition copy_row :: "nat \<Rightarrow> nat \<Rightarrow> 'v attention_cache \<Rightarrow> 'v attention_cache" where
  "copy_row source destination c =
     c\<lparr>key_rows := (key_rows c)[destination := key_rows c ! source],
       value_rows := (value_rows c)[destination := value_rows c ! source]\<rparr>"

definition copy_block :: "int \<times> int \<Rightarrow> ('v attention_cache, physical_error, unit) action" where
  "copy_block = (\<lambda>(source, destination).
     sbind (gets (\<lambda>c. int (length (key_rows c)))) (\<lambda>capacity.
     sbind (assert_that (0 \<le> source \<and> source < capacity \<and> 0 \<le> destination \<and> destination < capacity)
             BlockOutsideStorage) (\<lambda>_.
     modify (copy_row (nat source) (nat destination)))))"

definition copy_attention_group ::
  "int list \<Rightarrow> int list \<Rightarrow> int list \<Rightarrow> ('v attention_cache, physical_error, unit) action" where
  "copy_attention_group source destination writable =
     sbind (assert_that (length source = length destination) BlockCountDiffers) (\<lambda>_.
     let differing = filter (\<lambda>i. source ! i \<noteq> destination ! i) [0..<length destination];
         declared = filter (\<lambda>i. destination ! i \<in> set writable) [0..<length destination]
     in sbind (assert_that (differing = declared \<and> card (set writable) = length writable)
                WritableMapDiffers) (\<lambda>_.
        sbind (gets cache_layout) (\<lambda>layout.
        sbind (assert_that layout CacheLayoutDiffers) (\<lambda>_.
        for_each copy_block (map (\<lambda>i. (source ! i, destination ! i)) differing)))))"

text \<open>An action on one cache of the memory.\<close>

definition on_target ::
  "nat \<Rightarrow> ('v attention_cache, 'e, unit) action \<Rightarrow> (('v, 'x) worker_memory, 'e, unit) action" where
  "on_target i act m =
     (case act (target_caches m ! i) of (r, c) \<Rightarrow> (r, m\<lparr>target_caches := (target_caches m)[i := c]\<rparr>))"

definition on_draft ::
  "nat \<Rightarrow> ('v attention_cache, 'e, unit) action \<Rightarrow> (('v, 'x) worker_memory, 'e, unit) action" where
  "on_draft i act m =
     (case act (draft_caches m ! i) of (r, c) \<Rightarrow> (r, m\<lparr>draft_caches := (draft_caches m)[i := c]\<rparr>))"

definition copy_recurrent ::
  "physical_root \<Rightarrow> physical_root \<Rightarrow> nat \<Rightarrow> (('v, 'x) worker_memory, physical_error, unit) action" where
  "copy_recurrent source destination i =
     (let sg = gdn_slots source ! i; dg = gdn_slots destination ! i;
          sc = convolution_slots source ! i; dc = convolution_slots destination ! i
      in sbind (gets (\<lambda>m. (int (length (gdn_caches m ! i)), int (length (convolution_caches m ! i)))))
           (\<lambda>(gdn, convolution).
         sbind (assert_that (0 \<le> sg \<and> sg < gdn \<and> 0 \<le> dg \<and> dg < gdn
                 \<and> 0 \<le> sc \<and> sc < convolution \<and> 0 \<le> dc \<and> dc < convolution) SlotOutsideStorage) (\<lambda>_.
         modify (\<lambda>m. m\<lparr>
           gdn_caches := (gdn_caches m)[i := (gdn_caches m ! i)[nat dg := gdn_caches m ! i ! nat sg]],
           convolution_caches := (convolution_caches m)[i :=
             (convolution_caches m ! i)[nat dc := convolution_caches m ! i ! nat sc]]\<rparr>))))"

definition copy_root ::
  "physical_root \<Rightarrow> physical_root \<Rightarrow> (('v, 'x) worker_memory, physical_error, unit) action" where
  "copy_root source destination =
     sbind (gets (\<lambda>m. (length (target_caches m), length (draft_caches m), length (gdn_caches m))))
       (\<lambda>(targets, drafts, gdns).
     sbind (for_each (\<lambda>i. on_target i (copy_attention_group (target_blocks source ! i)
             (target_blocks destination ! i) (writable_target_blocks destination ! i))) [0..<targets]) (\<lambda>_.
     sbind (for_each (\<lambda>i. on_draft i (copy_attention_group (draft_blocks source ! i)
             (draft_blocks destination ! i) (writable_draft_blocks destination ! i))) [0..<drafts]) (\<lambda>_.
     for_each (copy_recurrent source destination) [0..<gdns])))"

subsection \<open>Comparing\<close>

text \<open>Indexing a tensor by its first dimension: a negative index counts from the end.\<close>

definition row_at :: "'v list \<Rightarrow> int \<Rightarrow> physical_error + 'v" where
  "row_at rows i =
     (if i < - int (length rows) \<or> int (length rows) \<le> i then Inl RowIndexError
      else Inr (rows ! nat (if i < 0 then i + int (length rows) else i)))"

definition mutable_rows :: "'v attention_cache \<Rightarrow> int list \<Rightarrow> physical_error + 'v list" where
  "mutable_rows c blocks =
     (if \<not> cache_layout c then Inl CacheLayoutDiffers
      else if list_ex (\<lambda>b. int (length (key_rows c)) \<le> b) blocks then Inl MutableBlockOutside
      else rbind (map_result (row_at (key_rows c)) blocks) (\<lambda>keys.
           rbind (map_result (row_at (value_rows c)) blocks) (\<lambda>vals.
           Inr (concat (map (\<lambda>(k, v). [k, v]) (zip keys vals))))))"

definition compare_attention ::
  "('v \<Rightarrow> 'v \<Rightarrow> bool) \<Rightarrow> 'v attention_cache \<Rightarrow> int list \<Rightarrow> int list \<Rightarrow> physical_error + unit" where
  "compare_attention same c left right =
     rbind (mutable_rows c left) (\<lambda>left_rows.
     rbind (mutable_rows c right) (\<lambda>right_rows.
     if length left_rows \<noteq> length right_rows then Inl RowCountDiffers
     else check_all (\<lambda>(l, r). require (same l r) RowDiffers) (zip left_rows right_rows)))"

definition compare_recurrent ::
  "('v \<Rightarrow> 'v \<Rightarrow> bool) \<Rightarrow> 'v list \<Rightarrow> int \<Rightarrow> int \<Rightarrow> physical_error + unit" where
  "compare_recurrent same rows left right =
     rbind (row_at rows left) (\<lambda>l. rbind (row_at rows right) (\<lambda>r.
     require (same l r) RecurrentStateDiffers))"

definition compare_roots ::
  "('v, 'x) worker_callbacks \<Rightarrow> physical_root \<Rightarrow> physical_root \<Rightarrow> ('v, 'x) worker_memory
   \<Rightarrow> physical_error + unit" where
  "compare_roots cb left right m =
     rbind (check_all (\<lambda>i. compare_attention (tensor_equal cb) (target_caches m ! i)
              (writable_target_blocks left ! i) (writable_target_blocks right ! i))
            [0..<length (target_caches m)]) (\<lambda>_.
     rbind (check_all (\<lambda>i. compare_attention (tensor_equal cb) (draft_caches m ! i)
              (writable_draft_blocks left ! i) (writable_draft_blocks right ! i))
            [0..<length (draft_caches m)]) (\<lambda>_.
     rbind (check_all (\<lambda>i.
              rbind (compare_recurrent (tensor_equal cb) (gdn_caches m ! i)
                       (gdn_slots left ! i) (gdn_slots right ! i)) (\<lambda>_.
              compare_recurrent (tensor_equal cb) (convolution_caches m ! i)
                (convolution_slots left ! i) (convolution_slots right ! i)))
            [0..<length (gdn_caches m)]) (\<lambda>_.
     require (compare_auxiliary cb left right (auxiliary m)) AuxiliaryDiffers)))"

subsection \<open>Preparing\<close>

definition prepare_worker_roots ::
  "('v, 'x) worker_callbacks \<Rightarrow> physical_root \<Rightarrow> physical_root \<Rightarrow> physical_root
   \<Rightarrow> (('v, 'x) worker_memory, physical_error, unit) action" where
  "prepare_worker_roots cb base candidate serial =
     sbind (assert_that (card {root_id base, root_id candidate, root_id serial} = 3) PhysicalIdsAlias) (\<lambda>_.
     sbind (copy_root base candidate) (\<lambda>_.
     sbind (copy_root base serial) (\<lambda>_.
     sbind (\<lambda>m. case copy_auxiliary cb base candidate serial (auxiliary m) of
                  (copied, x) \<Rightarrow> (Inr copied, m\<lparr>auxiliary := x\<rparr>)) (\<lambda>copied.
     sbind (gets (synchronize_device cb)) (\<lambda>synchronized.
     sbind (assert_that (copied \<and> synchronized) CopyIncomplete) (\<lambda>_.
     sbind (gets (compare_roots cb base candidate)) (\<lambda>first.
     sbind (lift_result first) (\<lambda>_.
     sbind (gets (compare_roots cb base serial)) (\<lambda>second.
     lift_result second)))))))))"

subsection \<open>Capturing\<close>

record mutable_root_capture =
  target_kv_digests :: "string list"
  draft_kv_digests :: "string list"
  gdn_state_digests :: "string list"
  convolution_state_digests :: "string list"
  auxiliary_digest :: string
  combined_digest :: string

definition tensor_bytes_sha256 :: "('v, 'x) worker_callbacks \<Rightarrow> 'v list \<Rightarrow> physical_error + string" where
  "tensor_bytes_sha256 cb rows = (if rows = [] then Inl NotATensor else Inr (tensor_digest cb rows))"

definition capture_mutable_state ::
  "('v, 'x) worker_callbacks \<Rightarrow> physical_root \<Rightarrow> ('v, 'x) worker_memory
   \<Rightarrow> physical_error + mutable_root_capture" where
  "capture_mutable_state cb root m =
     rbind (map_result (\<lambda>i. rbind (mutable_rows (target_caches m ! i) (writable_target_blocks root ! i))
              (tensor_bytes_sha256 cb)) [0..<length (target_caches m)]) (\<lambda>target.
     rbind (map_result (\<lambda>i. rbind (mutable_rows (draft_caches m ! i) (writable_draft_blocks root ! i))
              (tensor_bytes_sha256 cb)) [0..<length (draft_caches m)]) (\<lambda>draft.
     rbind (map_result (\<lambda>i.
              rbind (row_at (gdn_caches m ! i) (gdn_slots root ! i)) (\<lambda>g.
              rbind (tensor_bytes_sha256 cb [g]) (\<lambda>gdn.
              rbind (row_at (convolution_caches m ! i) (convolution_slots root ! i)) (\<lambda>c.
              rbind (tensor_bytes_sha256 cb [c]) (\<lambda>convolution. Inr (gdn, convolution))))))
            [0..<length (gdn_caches m)]) (\<lambda>recurrent.
     case capture_auxiliary cb root (auxiliary m) of
       None \<Rightarrow> Inl AuxiliaryNotCaptured
     | Some aux \<Rightarrow> Inr \<lparr>target_kv_digests = target, draft_kv_digests = draft,
         gdn_state_digests = map fst recurrent, convolution_state_digests = map snd recurrent,
         auxiliary_digest = aux,
         combined_digest = capture_digest cb target draft (map fst recurrent) (map snd recurrent) aux\<rparr>)))"

end
