(* ===== verification/Physical_Safety.thy ===== *)
theory Physical_Safety
  imports Physical_Roots Allocator_Safety
begin

section \<open>What preparing the private roots does to the memory\<close>

text \<open>
  The frame of the copy (which rows any outcome may change) and its effect (which rows hold
  what after a copy that returned), for one cache and then for the whole memory.
\<close>

subsection \<open>One attention cache\<close>

definition cache_row :: "'v attention_cache \<Rightarrow> nat \<Rightarrow> 'v \<times> 'v" where
  "cache_row c b = (key_rows c ! b, value_rows c ! b)"

text \<open>The blocks outside of \<open>B\<close> and the layout are as before.\<close>

definition cache_frame :: "int set \<Rightarrow> 'v attention_cache \<Rightarrow> 'v attention_cache \<Rightarrow> bool" where
  "cache_frame B c c' \<longleftrightarrow>
     length (key_rows c') = length (key_rows c) \<and> length (value_rows c') = length (value_rows c)
     \<and> (\<forall>b. int b \<notin> B \<longrightarrow> cache_row c' b = cache_row c b)"

interpretation cache_frames: history "cache_frame B"
  by unfold_locales (auto simp: cache_frame_def)

lemma copy_row_frame:
  assumes "0 \<le> d" "d \<in> B"
  shows "cache_frame B c (copy_row s (nat d) c)"
proof -
  have "nat d \<noteq> b" if "int b \<notin> B" for b using assms that by auto
  then show ?thesis by (auto simp: cache_frame_def copy_row_def cache_row_def)
qed

lemma copy_block_frame: "d \<in> B \<Longrightarrow> keeps (cache_frame B) (copy_block (s, d))"
  unfolding keeps_def copy_block_def
  by (auto simp: sbind_def assert_that_def modify_def raise_def ret_def intro: copy_row_frame)

lemma copy_blocks_frame: "snd ` set ps \<subseteq> B \<Longrightarrow> keeps (cache_frame B) (for_each copy_block ps)"
  by (rule cache_frames.keeps_for_each) (auto intro!: copy_block_frame)

lemma copy_block_Inr:
  "copy_block (s, d) c = (Inr u, c') \<longleftrightarrow>
     0 \<le> s \<and> nat s < length (key_rows c) \<and> 0 \<le> d \<and> nat d < length (key_rows c)
     \<and> c' = copy_row (nat s) (nat d) c"
  by (auto simp: copy_block_def action_simps modify_def)

lemma copy_blocks_effect:
  assumes "for_each copy_block ps c = (Inr u, c')" "cache_layout c"
    and "fst ` set ps \<inter> snd ` set ps = {}"
    and "\<forall>s'. (s', d) \<in> set ps \<longrightarrow> s' = s"
    and "(s, d) \<in> set ps"
  shows "cache_row c' (nat d) = cache_row c (nat s)"
  using assms
proof (induction ps arbitrary: c)
  case (Cons p ps)
  obtain a b where p: "p = (a, b)" by (cases p)
  obtain c1 where first: "copy_block (a, b) c = (Inr (), c1)" and rest: "for_each copy_block ps c1 = (Inr u, c')"
    using Cons.prems(1) by (auto simp: p sbind_Inr_iff)
  have ab: "0 \<le> a" "0 \<le> b" "nat b < length (key_rows c)" "c1 = copy_row (nat a) (nat b) c"
    using first by (auto simp: copy_block_Inr)
  have written: "cache_row c1 (nat b) = cache_row c (nat a)"
    using ab Cons.prems(2) by (simp add: copy_row_def cache_row_def cache_layout_def)
  have layout: "cache_layout c1" using ab(4) Cons.prems(2) by (simp add: copy_row_def cache_layout_def)
  show ?case
  proof (cases "(s, d) \<in> set ps")
    case True
    have "fst ` set ps \<inter> snd ` set ps = {}" "\<forall>s'. (s', d) \<in> set ps \<longrightarrow> s' = s"
      using Cons.prems(3,4) by auto
    then have "cache_row c' (nat d) = cache_row c1 (nat s)" using Cons.IH [OF rest layout] True by blast
    moreover have "s \<noteq> b" using Cons.prems(3,5) p by force
    moreover have "0 \<le> s"
    proof -
      obtain c2 c3 :: "'a attention_cache" where "copy_block (s, d) c2 = (Inr (), c3)"
        using for_each_Inr [OF rest True] by (elim exE conjE)
      then show ?thesis by (simp add: copy_block_Inr)
    qed
    ultimately show ?thesis
      using ab(2,4) by (simp add: copy_row_def cache_row_def nth_list_update nat_eq_iff)
  next
    case False
    then have sd: "s = a" "d = b" using Cons.prems(5) p by auto
    have "d \<notin> snd ` set ps"
    proof
      assume "d \<in> snd ` set ps"
      then obtain s' where "(s', d) \<in> set ps" by auto
      moreover from this have "s' = s" using Cons.prems(4) sd p by auto
      ultimately show False using False by blast
    qed
    then have "cache_frame (snd ` set ps) c1 c'"
      using keepsD [OF copy_blocks_frame [OF subset_refl] rest] by blast
    then have "cache_row c' (nat d) = cache_row c1 (nat d)"
      using \<open>d \<notin> snd ` set ps\<close> ab(2) sd by (simp add: cache_frame_def)
    then show ?thesis using written sd by simp
  qed
qed simp

text \<open>What the copy may write: the blocks of the table that are declared writable.\<close>

lemma copy_group_frame:
  "keeps (cache_frame (set writable)) (copy_attention_group source destination writable)"
  unfolding keeps_def
proof
  fix c :: "'v attention_cache"
  let ?differing = "filter (\<lambda>i. source ! i \<noteq> destination ! i) [0..<length destination]"
  let ?declared = "filter (\<lambda>i. destination ! i \<in> set writable) [0..<length destination]"
  let ?ps = "map (\<lambda>i. (source ! i, destination ! i)) ?differing"
  have "snd ` set ?ps \<subseteq> set writable" if "?differing = ?declared"
    unfolding that by auto
  then have "?differing = ?declared \<Longrightarrow> cache_frame (set writable) c (snd (for_each copy_block ?ps c))"
    using copy_blocks_frame [of ?ps "set writable"] unfolding keeps_def by blast
  then show "cache_frame (set writable) c (snd (copy_attention_group source destination writable c))"
    unfolding copy_attention_group_def Let_def
    by (auto simp: sbind_def assert_that_def raise_def ret_def gets_def)
qed

lemma distinct_nonzero_later:
  assumes "distinct (filter (\<lambda>b. b \<noteq> 0) xs)" "i < j" "j < length xs" "xs ! j \<noteq> (0 :: int)"
  shows "xs ! i \<noteq> xs ! j"
proof
  assume eq: "xs ! i = xs ! j"
  have "xs = take i xs @ xs ! i # drop (Suc i) xs" using assms(2,3) by (simp add: id_take_nth_drop)
  then have "distinct (filter (\<lambda>b. b \<noteq> 0) (take i xs @ xs ! i # drop (Suc i) xs))"
    using assms(1) by simp
  then have "xs ! i \<notin> set (drop (Suc i) xs)" using assms(4) eq by simp
  moreover have "drop (Suc i) xs ! (j - Suc i) = xs ! j" "j - Suc i < length (drop (Suc i) xs)"
    using assms(2,3) by auto
  ultimately show False using eq by (metis nth_mem)
qed

lemma distinct_nonzero_index:
  assumes "distinct (filter (\<lambda>b. b \<noteq> 0) xs)"
    and "i < length xs" "j < length xs" "xs ! i = xs ! j" "xs ! j \<noteq> (0 :: int)"
  shows "i = j"
  using distinct_nonzero_later [OF assms(1), of i j] distinct_nonzero_later [OF assms(1), of j i] assms(2-)
  by (metis nat_neq_iff)

lemma copy_group_effect:
  assumes ok: "copy_attention_group source destination writable c = (Inr u, c')"
    and blocks: "distinct (filter (\<lambda>b. b \<noteq> 0) destination)"
    and apart: "set writable \<inter> set source = {}"
    and j: "j < length destination" "\<not> (destination ! j = 0 \<and> 0 \<in> set writable)" "0 \<le> destination ! j"
  shows "cache_row c' (nat (destination ! j)) = cache_row c (nat (source ! j))"
proof -
  let ?differing = "filter (\<lambda>i. source ! i \<noteq> destination ! i) [0..<length destination]"
  let ?ps = "map (\<lambda>i. (source ! i, destination ! i)) ?differing"
  have len: "length source = length destination" and layout: "cache_layout c"
    and same: "?differing = filter (\<lambda>i. destination ! i \<in> set writable) [0..<length destination]"
    and run: "for_each copy_block ?ps c = (Inr u, c')"
    using ok by (auto simp: copy_attention_group_def Let_def action_simps gets_def)
  have declared: "source ! i \<noteq> destination ! i \<longleftrightarrow> destination ! i \<in> set writable" if "i < length destination" for i
    using arg_cong [OF same, of set] that by auto
  show ?thesis
  proof (cases "source ! j = destination ! j")
    case True
    then have "destination ! j \<notin> set writable" using declared j(1) by blast
    then have "cache_row c' (nat (destination ! j)) = cache_row c (nat (destination ! j))"
      using keepsD [OF copy_group_frame ok] j(3) by (simp add: cache_frame_def)
    then show ?thesis using True by simp
  next
    case False
    then have in_pairs: "(source ! j, destination ! j) \<in> set ?ps" using j(1) by auto
    have sources: "fst ` set ?ps \<subseteq> set source" using len by auto
    moreover have "snd ` set ?ps \<subseteq> set writable" using declared by auto
    ultimately have "fst ` set ?ps \<inter> snd ` set ?ps = {}" using apart by blast
    moreover have "\<forall>s'. (s', destination ! j) \<in> set ?ps \<longrightarrow> s' = source ! j"
    proof (intro allI impI)
      fix s' assume "(s', destination ! j) \<in> set ?ps"
      then obtain i where "i < length destination" "destination ! i = destination ! j" "s' = source ! i" by auto
      moreover have "destination ! j \<noteq> 0" using False declared j(1,2) by metis
      ultimately show "s' = source ! j" using distinct_nonzero_index [OF blocks] j(1) by metis
    qed
    ultimately show ?thesis using copy_blocks_effect [OF run layout _ _ in_pairs] by blast
  qed
qed

subsection \<open>One recurrent layer\<close>

definition slot_frame :: "int set \<Rightarrow> 'v list \<Rightarrow> 'v list \<Rightarrow> bool" where
  "slot_frame S xs ys \<longleftrightarrow> length ys = length xs \<and> (\<forall>s. int s \<notin> S \<longrightarrow> ys ! s = xs ! s)"

lemma slot_frame_update:
  assumes "0 \<le> d" "d \<in> S" shows "slot_frame S xs (xs[nat d := v])"
proof -
  have "nat d \<noteq> s" if "int s \<notin> S" for s using assms that by auto
  then show ?thesis by (auto simp: slot_frame_def)
qed

lemma slot_frame_refl [simp]: "slot_frame S xs xs"
  by (simp add: slot_frame_def)

subsection \<open>The memory\<close>

text \<open>Only the resources of \<open>W\<close> may have changed.\<close>

definition memory_frame ::
  "resource set \<Rightarrow> ('v, 'x) worker_memory \<Rightarrow> ('v, 'x) worker_memory \<Rightarrow> bool" where
  "memory_frame W m m' \<longleftrightarrow>
     length (target_caches m') = length (target_caches m)
     \<and> length (draft_caches m') = length (draft_caches m)
     \<and> length (gdn_caches m') = length (gdn_caches m)
     \<and> length (convolution_caches m') = length (convolution_caches m)
     \<and> (\<forall>i. cache_frame {b. TargetBlock i b \<in> W} (target_caches m ! i) (target_caches m' ! i))
     \<and> (\<forall>i. cache_frame {b. DraftBlock i b \<in> W} (draft_caches m ! i) (draft_caches m' ! i))
     \<and> (\<forall>i. slot_frame {s. GdnSlot s \<in> W} (gdn_caches m ! i) (gdn_caches m' ! i))
     \<and> (\<forall>i. slot_frame {s. ConvolutionSlot s \<in> W} (convolution_caches m ! i) (convolution_caches m' ! i))"

lemma slot_frame_trans: "slot_frame S a b \<Longrightarrow> slot_frame S b c \<Longrightarrow> slot_frame S a c"
  by (auto simp: slot_frame_def)

lemma memory_frame_trans:
  assumes ab: "memory_frame W a b" and bc: "memory_frame W b c" shows "memory_frame W a c"
proof -
  note ab = ab [unfolded memory_frame_def] and bc = bc [unfolded memory_frame_def]
  have "cache_frame {x. TargetBlock i x \<in> W} (target_caches a ! i) (target_caches c ! i)"
       "cache_frame {x. DraftBlock i x \<in> W} (draft_caches a ! i) (draft_caches c ! i)"
       "slot_frame {s. GdnSlot s \<in> W} (gdn_caches a ! i) (gdn_caches c ! i)"
       "slot_frame {s. ConvolutionSlot s \<in> W} (convolution_caches a ! i) (convolution_caches c ! i)" for i
    using ab bc by (blast intro: cache_frames.trans slot_frame_trans)+
  then show ?thesis unfolding memory_frame_def using ab bc by simp
qed

interpretation memory_frames: history "memory_frame W"
  by unfold_locales (simp add: memory_frame_def, rule memory_frame_trans)

lemma updated_each:
  assumes "R i (xs ! i) c" "\<And>j x. R j x x" shows "R j (xs ! j) (xs[i := c] ! j)"
  using assms by (cases "i = j"; cases "i < length xs") (auto simp: list_update_beyond)

lemma on_target_frame:
  assumes "keeps (cache_frame {b. TargetBlock i b \<in> W}) act"
  shows "keeps (memory_frame W) (on_target i act :: (('v, 'x) worker_memory, 'e, unit) action)"
  unfolding keeps_def
proof
  fix m :: "('v, 'x) worker_memory"
  obtain r c where act: "act (target_caches m ! i) = (r, c)" by (cases "act (target_caches m ! i)")
  show "memory_frame W m (snd (on_target i act m))"
    using updated_each [where R = "\<lambda>j. cache_frame {b. TargetBlock j b \<in> W}", OF keepsD [OF assms act] cache_frames.refl]
    by (simp add: on_target_def act memory_frame_def)
qed

lemma on_draft_frame:
  assumes "keeps (cache_frame {b. DraftBlock i b \<in> W}) act"
  shows "keeps (memory_frame W) (on_draft i act :: (('v, 'x) worker_memory, 'e, unit) action)"
  unfolding keeps_def
proof
  fix m :: "('v, 'x) worker_memory"
  obtain r c where act: "act (draft_caches m ! i) = (r, c)" by (cases "act (draft_caches m ! i)")
  show "memory_frame W m (snd (on_draft i act m))"
    using updated_each [where R = "\<lambda>j. cache_frame {b. DraftBlock j b \<in> W}", OF keepsD [OF assms act] cache_frames.refl]
    by (simp add: on_draft_def act memory_frame_def)
qed

lemma copy_recurrent_frame:
  assumes "GdnSlot (gdn_slots destination ! i) \<in> W" "ConvolutionSlot (convolution_slots destination ! i) \<in> W"
  shows "keeps (memory_frame W) (copy_recurrent source destination i)"
  unfolding keeps_def
proof
  fix m
  show "memory_frame W m (snd (copy_recurrent source destination i m))"
    using assms
    by (simp add: copy_recurrent_def Let_def sbind_def assert_that_def modify_def raise_def ret_def gets_def)
       (auto simp: memory_frame_def intro!: updated_each [where R = "\<lambda>j. slot_frame _"] slot_frame_update)
qed

subsection \<open>Copying a root\<close>

lemma resolve_modules_iff:
  "resolve_modules m = Inr () \<longleftrightarrow> length (target_caches m) = TARGET_KV_LAYER_COUNT
     \<and> length (draft_caches m) = DRAFT_LAYER_COUNT \<and> length (gdn_caches m) = GDN_LAYER_COUNT
     \<and> length (convolution_caches m) = GDN_LAYER_COUNT"
  by (simp add: resolve_modules_def require_def)

lemma memory_frame_modules:
  "memory_frame W m m' \<Longrightarrow> resolve_modules m = Inr () \<longleftrightarrow> resolve_modules m' = Inr ()"
  by (simp add: resolve_modules_iff memory_frame_def)

lemma block_groups_Inr: "block_groups v = Inr w \<Longrightarrow> w = v"
  by (auto simp: block_groups_def result_simps split: if_splits)

lemma root_check_lengths:
  assumes "physical_root_check r = Inr ()"
  shows "length (target_blocks r) = TARGET_KV_LAYER_COUNT" "length (draft_blocks r) = DRAFT_LAYER_COUNT"
    "length (writable_target_blocks r) = TARGET_KV_LAYER_COUNT"
    "length (writable_draft_blocks r) = DRAFT_LAYER_COUNT"
    "length (gdn_slots r) = GDN_LAYER_COUNT" "length (convolution_slots r) = GDN_LAYER_COUNT"
  using assms by (auto simp: physical_root_check_def result_simps dest!: block_groups_Inr split: if_splits)

lemma writable_members:
  "i < length (writable_target_blocks r) \<Longrightarrow> b \<in> set (writable_target_blocks r ! i)
     \<Longrightarrow> TargetBlock i b \<in> writable_resource_ids r"
  "i < length (writable_draft_blocks r) \<Longrightarrow> b \<in> set (writable_draft_blocks r ! i)
     \<Longrightarrow> DraftBlock i b \<in> writable_resource_ids r"
  "i < length (gdn_slots r) \<Longrightarrow> GdnSlot (gdn_slots r ! i) \<in> writable_resource_ids r"
  "i < length (convolution_slots r) \<Longrightarrow> ConvolutionSlot (convolution_slots r ! i) \<in> writable_resource_ids r"
  by (auto simp: writable_resource_ids_def block_resources_iff slot_resources_def)

lemma table_members:
  "i < length (target_blocks r) \<Longrightarrow> b \<in> set (target_blocks r ! i) \<Longrightarrow> TargetBlock i b \<in> all_resource_ids r"
  "i < length (draft_blocks r) \<Longrightarrow> b \<in> set (draft_blocks r ! i) \<Longrightarrow> DraftBlock i b \<in> all_resource_ids r"
  "i < length (gdn_slots r) \<Longrightarrow> GdnSlot (gdn_slots r ! i) \<in> all_resource_ids r"
  "i < length (convolution_slots r) \<Longrightarrow> ConvolutionSlot (convolution_slots r ! i) \<in> all_resource_ids r"
  by (auto simp: all_resource_ids_def block_resources_iff slot_resources_def)

lemma cache_frame_mono: "cache_frame A c c' \<Longrightarrow> A \<subseteq> B \<Longrightarrow> cache_frame B c c'"
  by (auto simp: cache_frame_def)

lemma copy_root_parts_frame:
  assumes "physical_root_check d = Inr ()"
  shows "i < TARGET_KV_LAYER_COUNT \<Longrightarrow> keeps (memory_frame (writable_resource_ids d))
      (on_target i (copy_attention_group s (target_blocks d ! i) (writable_target_blocks d ! i)))"
    and "i < DRAFT_LAYER_COUNT \<Longrightarrow> keeps (memory_frame (writable_resource_ids d))
      (on_draft i (copy_attention_group s (draft_blocks d ! i) (writable_draft_blocks d ! i)))"
    and "i < GDN_LAYER_COUNT \<Longrightarrow> keeps (memory_frame (writable_resource_ids d)) (copy_recurrent source d i)"
proof -
  note len = root_check_lengths [OF assms]
  show "keeps (memory_frame (writable_resource_ids d))
      (on_target i (copy_attention_group s (target_blocks d ! i) (writable_target_blocks d ! i)))"
    if "i < TARGET_KV_LAYER_COUNT"
    by (rule on_target_frame, rule keeps_mono [OF copy_group_frame], erule cache_frame_mono)
       (use that in \<open>auto simp: len intro: writable_members(1)\<close>)
  show "keeps (memory_frame (writable_resource_ids d))
      (on_draft i (copy_attention_group s (draft_blocks d ! i) (writable_draft_blocks d ! i)))"
    if "i < DRAFT_LAYER_COUNT"
    by (rule on_draft_frame, rule keeps_mono [OF copy_group_frame], erule cache_frame_mono)
       (use that in \<open>auto simp: len intro: writable_members(2)\<close>)
  show "keeps (memory_frame (writable_resource_ids d)) (copy_recurrent source d i)" if "i < GDN_LAYER_COUNT"
    by (rule copy_recurrent_frame) (use that in \<open>auto simp: len intro: writable_members(3,4)\<close>)
qed

lemma copy_root_frame:
  assumes check: "physical_root_check d = Inr ()" and modules: "resolve_modules m = Inr ()"
    and run: "copy_root s d m = (r, m')"
  shows "memory_frame (writable_resource_ids d) m m'"
proof -
  note parts = copy_root_parts_frame [OF check]
  have "keeps (memory_frame (writable_resource_ids d))
     (sbind (for_each (\<lambda>i. on_target i (copy_attention_group (target_blocks s ! i)
             (target_blocks d ! i) (writable_target_blocks d ! i))) [0..<TARGET_KV_LAYER_COUNT]) (\<lambda>_.
     sbind (for_each (\<lambda>i. on_draft i (copy_attention_group (draft_blocks s ! i)
             (draft_blocks d ! i) (writable_draft_blocks d ! i))) [0..<DRAFT_LAYER_COUNT]) (\<lambda>_.
     for_each (copy_recurrent s d) [0..<GDN_LAYER_COUNT])))"
    by (intro memory_frames.keeps_sbind memory_frames.keeps_for_each) (auto intro: parts)
  then show ?thesis
    using run modules by (auto simp: copy_root_def resolve_modules_iff dest: keepsD)
qed

subsection \<open>What a copy that returned has written\<close>

lemma on_cache_result:
  "on_target i act m = (r, m') \<longleftrightarrow> (\<exists>c. act (target_caches m ! i) = (r, c)
     \<and> m' = m\<lparr>target_caches := (target_caches m)[i := c]\<rparr>)"
  "on_draft i act m = (r, m') \<longleftrightarrow> (\<exists>c. act (draft_caches m ! i) = (r, c)
     \<and> m' = m\<lparr>draft_caches := (draft_caches m)[i := c]\<rparr>)"
  by (auto simp: on_target_def on_draft_def split: prod.splits)

lemma copy_recurrent_result:
  assumes "copy_recurrent s d i m = (r, m')"
  shows "m' = m\<lparr>gdn_caches := (gdn_caches m)[i := gdn_caches m' ! i],
                 convolution_caches := (convolution_caches m)[i := convolution_caches m' ! i]\<rparr>"
    and "r = Inr u \<Longrightarrow> i < length (gdn_caches m) \<Longrightarrow> i < length (convolution_caches m) \<Longrightarrow>
           gdn_caches m' ! i ! nat (gdn_slots d ! i) = gdn_caches m ! i ! nat (gdn_slots s ! i)
         \<and> convolution_caches m' ! i ! nat (convolution_slots d ! i)
             = convolution_caches m ! i ! nat (convolution_slots s ! i)"
proof -
  have beyond: "xs[i := xs[i := x] ! i] = xs[i := x]" for xs :: "'z list" and x
    by (cases "i < length xs") (auto simp: list_update_beyond)
  have cases: "m' = m \<or> m' = m\<lparr>
       gdn_caches := (gdn_caches m)[i := (gdn_caches m ! i)[nat (gdn_slots d ! i) := gdn_caches m ! i ! nat (gdn_slots s ! i)]],
       convolution_caches := (convolution_caches m)[i :=
         (convolution_caches m ! i)[nat (convolution_slots d ! i) := convolution_caches m ! i ! nat (convolution_slots s ! i)]]\<rparr>"
    using assms
    by (auto simp: copy_recurrent_def Let_def sbind_def assert_that_def modify_def raise_def ret_def gets_def
        split: if_splits)
  then show "m' = m\<lparr>gdn_caches := (gdn_caches m)[i := gdn_caches m' ! i],
                 convolution_caches := (convolution_caches m)[i := convolution_caches m' ! i]\<rparr>"
    by (elim disjE) (simp_all add: beyond)
  show "gdn_caches m' ! i ! nat (gdn_slots d ! i) = gdn_caches m ! i ! nat (gdn_slots s ! i)
         \<and> convolution_caches m' ! i ! nat (convolution_slots d ! i)
             = convolution_caches m ! i ! nat (convolution_slots s ! i)"
    if "r = Inr u" "i < length (gdn_caches m)" "i < length (convolution_caches m)"
    using assms that
    by (auto simp: copy_recurrent_def Let_def sbind_def assert_that_def modify_def raise_def ret_def gets_def
        nat_less_iff split: if_splits)
qed

text \<open>
  The root \<open>d\<close> reads in \<open>m'\<close> what the root \<open>s\<close> reads in \<open>m\<close>, position by position.  Left out are
  the positions that hold the null block (number 0) in a group whose writable blocks name the
  null block itself: the null block may stand at several positions, so that one row would
  have to hold several rows of \<open>s\<close>.
\<close>

definition null_writable :: "int \<Rightarrow> int list \<Rightarrow> bool" where
  "null_writable block writable \<longleftrightarrow> block = 0 \<and> 0 \<in> set writable"

definition mirrors ::
  "('v, 'x) worker_memory \<Rightarrow> ('v, 'x) worker_memory \<Rightarrow> physical_root \<Rightarrow> physical_root \<Rightarrow> bool" where
  "mirrors m m' s d \<longleftrightarrow>
     (\<forall>i < TARGET_KV_LAYER_COUNT. length (target_blocks d ! i) = length (target_blocks s ! i)
        \<and> (\<forall>j < length (target_blocks d ! i).
            \<not> null_writable (target_blocks d ! i ! j) (writable_target_blocks d ! i) \<longrightarrow>
        cache_row (target_caches m' ! i) (nat (target_blocks d ! i ! j))
          = cache_row (target_caches m ! i) (nat (target_blocks s ! i ! j))))
     \<and> (\<forall>i < DRAFT_LAYER_COUNT. length (draft_blocks d ! i) = length (draft_blocks s ! i)
        \<and> (\<forall>j < length (draft_blocks d ! i).
            \<not> null_writable (draft_blocks d ! i ! j) (writable_draft_blocks d ! i) \<longrightarrow>
        cache_row (draft_caches m' ! i) (nat (draft_blocks d ! i ! j))
          = cache_row (draft_caches m ! i) (nat (draft_blocks s ! i ! j))))
     \<and> (\<forall>i < GDN_LAYER_COUNT.
          gdn_caches m' ! i ! nat (gdn_slots d ! i) = gdn_caches m ! i ! nat (gdn_slots s ! i)
        \<and> convolution_caches m' ! i ! nat (convolution_slots d ! i)
            = convolution_caches m ! i ! nat (convolution_slots s ! i))"

lemma root_check_groups:
  assumes "physical_root_check r = Inr ()"
  shows "i < TARGET_KV_LAYER_COUNT \<Longrightarrow>
      distinct (filter (\<lambda>b. b \<noteq> 0) (target_blocks r ! i)) \<and> (\<forall>b \<in> set (target_blocks r ! i). 0 \<le> b)"
    and "i < DRAFT_LAYER_COUNT \<Longrightarrow>
      distinct (filter (\<lambda>b. b \<noteq> 0) (draft_blocks r ! i)) \<and> (\<forall>b \<in> set (draft_blocks r ! i). 0 \<le> b)"
proof -
  have group: "distinct (filter (\<lambda>b. b \<noteq> 0) g) \<and> (\<forall>b \<in> set g. 0 \<le> b)"
    if "block_groups v = Inr w" "g \<in> set v" for v w g
    using that by (force simp: block_groups_def result_simps list_ex_iff split: if_splits)
  have "\<exists>w. block_groups (target_blocks r) = Inr w" "\<exists>w. block_groups (draft_blocks r) = Inr w"
    using assms by (auto simp: physical_root_check_def result_simps split: if_splits)
  then show "i < TARGET_KV_LAYER_COUNT \<Longrightarrow>
      distinct (filter (\<lambda>b. b \<noteq> 0) (target_blocks r ! i)) \<and> (\<forall>b \<in> set (target_blocks r ! i). 0 \<le> b)"
    "i < DRAFT_LAYER_COUNT \<Longrightarrow>
      distinct (filter (\<lambda>b. b \<noteq> 0) (draft_blocks r ! i)) \<and> (\<forall>b \<in> set (draft_blocks r ! i). 0 \<le> b)"
    using group root_check_lengths [OF assms] by (metis nth_mem)+
qed

lemma target_layers_effect:
  assumes run: "for_each (\<lambda>i. on_target i (copy_attention_group (src ! i) (dst ! i) (w ! i))) [0..<n]
      (m :: ('v, 'x) worker_memory) = (Inr u, m')"
    and i: "i < n" "n = length (target_caches m)"
    and d: "distinct (filter (\<lambda>b. b \<noteq> 0) (dst ! i))" "\<forall>b \<in> set (dst ! i). 0 \<le> b"
    and apart: "set (w ! i) \<inter> set (src ! i) = {}"
  shows "length (dst ! i) = length (src ! i)"
    and "j < length (dst ! i) \<Longrightarrow> \<not> null_writable (dst ! i ! j) (w ! i) \<Longrightarrow>
      cache_row (target_caches m' ! i) (nat (dst ! i ! j)) = cache_row (target_caches m ! i) (nat (src ! i ! j))"
proof -
  let ?view = "\<lambda>m :: ('v, 'x) worker_memory. (length (target_caches m), target_caches m ! i)"
  have other: "\<forall>j a r b. j \<in> set [0..<n] \<longrightarrow> on_target j (copy_attention_group (src ! j) (dst ! j) (w ! j)) a = (r, b)
      \<longrightarrow> j \<noteq> i \<longrightarrow> ?view b = ?view a"
    by (auto simp: on_cache_result)
  obtain a b :: "('v, 'x) worker_memory" where ab: "on_target i (copy_attention_group (src ! i) (dst ! i) (w ! i)) a = (Inr (), b)"
    "?view a = ?view m" "?view m' = ?view b"
    using for_each_view [where view = ?view and k = i, OF run distinct_upt _ other] i(1) by auto
  then have copied: "copy_attention_group (src ! i) (dst ! i) (w ! i) (target_caches m ! i)
      = (Inr (), target_caches m' ! i)"
    using i by (auto simp: on_cache_result)
  show "length (dst ! i) = length (src ! i)"
    using copied by (simp add: copy_attention_group_def sbind_Inr_iff assert_that_def raise_def split: if_splits)
  show "j < length (dst ! i) \<Longrightarrow> \<not> null_writable (dst ! i ! j) (w ! i) \<Longrightarrow>
      cache_row (target_caches m' ! i) (nat (dst ! i ! j)) = cache_row (target_caches m ! i) (nat (src ! i ! j))"
    using copied d apart by (intro copy_group_effect) (auto simp: null_writable_def)
qed

lemma draft_layers_effect:
  assumes run: "for_each (\<lambda>i. on_draft i (copy_attention_group (src ! i) (dst ! i) (w ! i))) [0..<n]
      (m :: ('v, 'x) worker_memory) = (Inr u, m')"
    and i: "i < n" "n = length (draft_caches m)"
    and d: "distinct (filter (\<lambda>b. b \<noteq> 0) (dst ! i))" "\<forall>b \<in> set (dst ! i). 0 \<le> b"
    and apart: "set (w ! i) \<inter> set (src ! i) = {}"
  shows "length (dst ! i) = length (src ! i)"
    and "j < length (dst ! i) \<Longrightarrow> \<not> null_writable (dst ! i ! j) (w ! i) \<Longrightarrow>
      cache_row (draft_caches m' ! i) (nat (dst ! i ! j)) = cache_row (draft_caches m ! i) (nat (src ! i ! j))"
proof -
  let ?view = "\<lambda>m :: ('v, 'x) worker_memory. (length (draft_caches m), draft_caches m ! i)"
  have other: "\<forall>j a r b. j \<in> set [0..<n] \<longrightarrow> on_draft j (copy_attention_group (src ! j) (dst ! j) (w ! j)) a = (r, b)
      \<longrightarrow> j \<noteq> i \<longrightarrow> ?view b = ?view a"
    by (auto simp: on_cache_result)
  obtain a b :: "('v, 'x) worker_memory" where ab: "on_draft i (copy_attention_group (src ! i) (dst ! i) (w ! i)) a = (Inr (), b)"
    "?view a = ?view m" "?view m' = ?view b"
    using for_each_view [where view = ?view and k = i, OF run distinct_upt _ other] i(1) by auto
  then have copied: "copy_attention_group (src ! i) (dst ! i) (w ! i) (draft_caches m ! i)
      = (Inr (), draft_caches m' ! i)"
    using i by (auto simp: on_cache_result)
  show "length (dst ! i) = length (src ! i)"
    using copied by (simp add: copy_attention_group_def sbind_Inr_iff assert_that_def raise_def split: if_splits)
  show "j < length (dst ! i) \<Longrightarrow> \<not> null_writable (dst ! i ! j) (w ! i) \<Longrightarrow>
      cache_row (draft_caches m' ! i) (nat (dst ! i ! j)) = cache_row (draft_caches m ! i) (nat (src ! i ! j))"
    using copied d apart by (intro copy_group_effect) (auto simp: null_writable_def)
qed

lemma recurrent_layers_effect:
  assumes run: "for_each (copy_recurrent s d) [0..<n] (m :: ('v, 'x) worker_memory) = (Inr u, m')"
    and i: "i < n" "n = length (gdn_caches m)" "n = length (convolution_caches m)"
  shows "gdn_caches m' ! i ! nat (gdn_slots d ! i) = gdn_caches m ! i ! nat (gdn_slots s ! i)
         \<and> convolution_caches m' ! i ! nat (convolution_slots d ! i)
             = convolution_caches m ! i ! nat (convolution_slots s ! i)"
proof -
  let ?view = "\<lambda>m :: ('v, 'x) worker_memory. (length (gdn_caches m), length (convolution_caches m), gdn_caches m ! i, convolution_caches m ! i)"
  have other: "?view b = ?view a" if r: "copy_recurrent s d j a = (r, b)" and "j \<noteq> i"
    for j r and a b :: "('v, 'x) worker_memory"
  proof -
    note e = copy_recurrent_result(1) [OF r]
    show ?thesis using \<open>j \<noteq> i\<close> by (subst e, subst e, subst e, subst e) simp
  qed
  have others: "\<forall>j a r b. j \<in> set [0..<n] \<longrightarrow> copy_recurrent s d j a = (r, b) \<longrightarrow> j \<noteq> i
      \<longrightarrow> ?view b = ?view a" using other by blast
  obtain a b :: "('v, 'x) worker_memory" where ab: "copy_recurrent s d i a = (Inr (), b)" "?view a = ?view m" "?view m' = ?view b"
    using for_each_view [where view = ?view and k = i, OF run distinct_upt _ others] i(1) by auto
  then show ?thesis using copy_recurrent_result(2) [OF ab(1) refl] i by simp
qed

text \<open>Each part of the copy leaves the caches of the others.\<close>

lemma layers_quiet:
  "keeps (\<lambda>a b. (draft_caches b, gdn_caches b, convolution_caches b, auxiliary b)
      = (draft_caches a, gdn_caches a, convolution_caches a, auxiliary a)) (for_each (\<lambda>i. on_target i (f i)) ks)"
  "keeps (\<lambda>a b. (target_caches b, gdn_caches b, convolution_caches b, auxiliary b)
      = (target_caches a, gdn_caches a, convolution_caches a, auxiliary a)) (for_each (\<lambda>i. on_draft i (f i)) ks)"
  "keeps (\<lambda>a b. (target_caches b, draft_caches b, auxiliary b)
      = (target_caches a, draft_caches a, auxiliary a)) (for_each (copy_recurrent s d) ks)"
proof -
  show "keeps (\<lambda>a b. (draft_caches b, gdn_caches b, convolution_caches b, auxiliary b)
      = (draft_caches a, gdn_caches a, convolution_caches a, auxiliary a)) (for_each (\<lambda>i. on_target i (f i)) ks)"
    by (rule history.keeps_for_each) (unfold_locales, auto simp: keeps_def on_target_def split: prod.splits)
  show "keeps (\<lambda>a b. (target_caches b, gdn_caches b, convolution_caches b, auxiliary b)
      = (target_caches a, gdn_caches a, convolution_caches a, auxiliary a)) (for_each (\<lambda>i. on_draft i (f i)) ks)"
    by (rule history.keeps_for_each) (unfold_locales, auto simp: keeps_def on_draft_def split: prod.splits)
  have quiet: "(target_caches b, draft_caches b, auxiliary b) = (target_caches a, draft_caches a, auxiliary a)"
    if r: "copy_recurrent s d i a = (r, b)" for i a r b
    by (subst copy_recurrent_result(1) [OF r], subst copy_recurrent_result(1) [OF r],
        subst copy_recurrent_result(1) [OF r]) simp
  show "keeps (\<lambda>a b. (target_caches b, draft_caches b, auxiliary b)
      = (target_caches a, draft_caches a, auxiliary a)) (for_each (copy_recurrent s d) ks)"
  proof (rule history.keeps_for_each)
    show "keeps (\<lambda>a b. (target_caches b, draft_caches b, auxiliary b)
      = (target_caches a, draft_caches a, auxiliary a)) (copy_recurrent s d i)" for i
      unfolding keeps_def by (metis quiet prod.collapse)
  qed (unfold_locales, auto)
qed

lemma not_aliases_blocks:
  assumes "\<not> aliases s d" and "physical_root_check s = Inr ()" "physical_root_check d = Inr ()"
  shows "i < TARGET_KV_LAYER_COUNT \<Longrightarrow> set (writable_target_blocks d ! i) \<inter> set (target_blocks s ! i) = {}"
    and "i < DRAFT_LAYER_COUNT \<Longrightarrow> set (writable_draft_blocks d ! i) \<inter> set (draft_blocks s ! i) = {}"
proof -
  have apart: "writable_resource_ids d \<inter> all_resource_ids s = {}" using assms(1) by (auto simp: aliases_def)
  note len = root_check_lengths [OF assms(2)] root_check_lengths [OF assms(3)]
  show "set (writable_target_blocks d ! i) \<inter> set (target_blocks s ! i) = {}" if "i < TARGET_KV_LAYER_COUNT"
  proof -
    have "False" if "b \<in> set (writable_target_blocks d ! i)" "b \<in> set (target_blocks s ! i)" for b
      using writable_members(1) [of i d b] table_members(1) [of i s b] that \<open>i < TARGET_KV_LAYER_COUNT\<close>
        apart len by auto
    then show ?thesis by blast
  qed
  show "set (writable_draft_blocks d ! i) \<inter> set (draft_blocks s ! i) = {}" if "i < DRAFT_LAYER_COUNT"
  proof -
    have "False" if "b \<in> set (writable_draft_blocks d ! i)" "b \<in> set (draft_blocks s ! i)" for b
      using writable_members(2) [of i d b] table_members(2) [of i s b] that \<open>i < DRAFT_LAYER_COUNT\<close>
        apart len by auto
    then show ?thesis by blast
  qed
qed

lemma copy_root_effect:
  assumes checks: "physical_root_check s = Inr ()" "physical_root_check d = Inr ()"
    and modules: "resolve_modules m = Inr ()" and apart: "\<not> aliases s d"
    and run: "copy_root s d m = (Inr u, m')"
  shows "mirrors m m' s d"
proof -
  note len = resolve_modules_iff [THEN iffD1, OF modules]
  note groups = root_check_groups [OF checks(2)] and free = not_aliases_blocks [OF apart checks]
  obtain m1 m2 where
    t: "for_each (\<lambda>i. on_target i (copy_attention_group (target_blocks s ! i)
           (target_blocks d ! i) (writable_target_blocks d ! i))) [0..<TARGET_KV_LAYER_COUNT] m = (Inr (), m1)"
    and dr: "for_each (\<lambda>i. on_draft i (copy_attention_group (draft_blocks s ! i)
           (draft_blocks d ! i) (writable_draft_blocks d ! i))) [0..<DRAFT_LAYER_COUNT] m1 = (Inr (), m2)"
    and rec: "for_each (copy_recurrent s d) [0..<GDN_LAYER_COUNT] m2 = (Inr u, m')"
    using run len by (auto simp: copy_root_def sbind_Inr_iff gets_def ret_def)
  note q1 = keepsD [OF layers_quiet(1) t] and q2 = keepsD [OF layers_quiet(2) dr]
    and q3 = keepsD [OF layers_quiet(3) rec]
  have "cache_row (target_caches m' ! i) (nat (target_blocks d ! i ! j))
      = cache_row (target_caches m ! i) (nat (target_blocks s ! i ! j))"
    if "i < TARGET_KV_LAYER_COUNT" "j < length (target_blocks d ! i)"
      "\<not> null_writable (target_blocks d ! i ! j) (writable_target_blocks d ! i)" for i j
    using target_layers_effect(2) [OF t, of i j] that groups(1) free(1) len q2 q3 by simp
  moreover have "cache_row (draft_caches m' ! i) (nat (draft_blocks d ! i ! j))
      = cache_row (draft_caches m ! i) (nat (draft_blocks s ! i ! j))"
    if "i < DRAFT_LAYER_COUNT" "j < length (draft_blocks d ! i)"
      "\<not> null_writable (draft_blocks d ! i ! j) (writable_draft_blocks d ! i)" for i j
    using draft_layers_effect(2) [OF dr, of i j] that groups(2) free(2) len q1 q3 by simp
  moreover have "gdn_caches m' ! i ! nat (gdn_slots d ! i) = gdn_caches m ! i ! nat (gdn_slots s ! i)
        \<and> convolution_caches m' ! i ! nat (convolution_slots d ! i)
            = convolution_caches m ! i ! nat (convolution_slots s ! i)" if "i < GDN_LAYER_COUNT" for i
    using recurrent_layers_effect [OF rec, of i] that len q1 q2 by simp
  moreover have "length (target_blocks d ! i) = length (target_blocks s ! i)" if "i < TARGET_KV_LAYER_COUNT" for i
    using target_layers_effect(1) [OF t, of i] that groups(1) free(1) len by simp
  moreover have "length (draft_blocks d ! i) = length (draft_blocks s ! i)" if "i < DRAFT_LAYER_COUNT" for i
    using draft_layers_effect(1) [OF dr, of i] that groups(2) free(2) len q1 by simp
  ultimately show ?thesis unfolding mirrors_def by blast
qed

subsection \<open>Preparing both private roots\<close>

lemma frame_apart:
  assumes frame: "memory_frame W m m'" and checks: "physical_root_check r = Inr ()"
    and apart: "W \<inter> all_resource_ids r = {}"
  shows "\<lbrakk>i < TARGET_KV_LAYER_COUNT; b \<in> set (target_blocks r ! i)\<rbrakk> \<Longrightarrow>
      cache_row (target_caches m' ! i) (nat b) = cache_row (target_caches m ! i) (nat b)"
    and "\<lbrakk>i < DRAFT_LAYER_COUNT; b \<in> set (draft_blocks r ! i)\<rbrakk> \<Longrightarrow>
      cache_row (draft_caches m' ! i) (nat b) = cache_row (draft_caches m ! i) (nat b)"
    and "i < GDN_LAYER_COUNT \<Longrightarrow> 0 \<le> gdn_slots r ! i \<Longrightarrow>
      gdn_caches m' ! i ! nat (gdn_slots r ! i) = gdn_caches m ! i ! nat (gdn_slots r ! i)"
    and "i < GDN_LAYER_COUNT \<Longrightarrow> 0 \<le> convolution_slots r ! i \<Longrightarrow>
      convolution_caches m' ! i ! nat (convolution_slots r ! i) = convolution_caches m ! i ! nat (convolution_slots r ! i)"
proof -
  note len = root_check_lengths [OF checks] and groups = root_check_groups [OF checks]
  note f = frame [unfolded memory_frame_def cache_frame_def slot_frame_def]
  show "cache_row (target_caches m' ! i) (nat b) = cache_row (target_caches m ! i) (nat b)"
    if i: "i < TARGET_KV_LAYER_COUNT" "b \<in> set (target_blocks r ! i)"
  proof -
    have "TargetBlock i b \<in> all_resource_ids r"
      using i len by (simp add: table_members)
    then have "TargetBlock i b \<notin> W" using apart by blast
    then have "int (nat b) \<notin> {b. TargetBlock i b \<in> W}" using groups(1) i by auto
    then show ?thesis using f by blast
  qed
  show "cache_row (draft_caches m' ! i) (nat b) = cache_row (draft_caches m ! i) (nat b)"
    if i: "i < DRAFT_LAYER_COUNT" "b \<in> set (draft_blocks r ! i)"
  proof -
    have "DraftBlock i b \<in> all_resource_ids r"
      using i len by (simp add: table_members)
    then have "DraftBlock i b \<notin> W" using apart by blast
    then have "int (nat b) \<notin> {b. DraftBlock i b \<in> W}" using groups(2) i by auto
    then show ?thesis using f by blast
  qed
  show "gdn_caches m' ! i ! nat (gdn_slots r ! i) = gdn_caches m ! i ! nat (gdn_slots r ! i)"
    if i: "i < GDN_LAYER_COUNT" "0 \<le> gdn_slots r ! i"
  proof -
    have "GdnSlot (gdn_slots r ! i) \<notin> W"
      using table_members(3) [of i r] i len apart by auto
    then have "int (nat (gdn_slots r ! i)) \<notin> {s. GdnSlot s \<in> W}" using i by simp
    then show ?thesis using f by blast
  qed
  show "convolution_caches m' ! i ! nat (convolution_slots r ! i) = convolution_caches m ! i ! nat (convolution_slots r ! i)"
    if i: "i < GDN_LAYER_COUNT" "0 \<le> convolution_slots r ! i"
  proof -
    have "ConvolutionSlot (convolution_slots r ! i) \<notin> W"
      using table_members(4) [of i r] i len apart by auto
    then have "int (nat (convolution_slots r ! i)) \<notin> {s. ConvolutionSlot s \<in> W}" using i by simp
    then show ?thesis using f by blast
  qed
qed

lemma slots_nonneg:
  assumes "physical_root_check r = Inr ()" "i < GDN_LAYER_COUNT"
  shows "0 \<le> gdn_slots r ! i" "0 \<le> convolution_slots r ! i"
proof -
  have "\<forall>v \<in> set (gdn_slots r). 0 \<le> v" "\<forall>v \<in> set (convolution_slots r). 0 \<le> v"
    using assms(1) by (auto simp: physical_root_check_def result_simps slots_check_def split: if_splits)
  then show "0 \<le> gdn_slots r ! i" "0 \<le> convolution_slots r ! i"
    using root_check_lengths(5,6) [OF assms(1)] assms(2) by auto
qed

text \<open>Later writes elsewhere leave a mirror; earlier writes elsewhere do not change its source.\<close>

lemma mirrors_later:
  assumes "mirrors m m1 s d" "memory_frame W m1 m'" "W \<inter> all_resource_ids d = {}"
    and check: "physical_root_check d = Inr ()"
  shows "mirrors m m' s d"
  using assms(1) frame_apart [OF assms(2) check assms(3)] slots_nonneg [OF check]
  unfolding mirrors_def by simp

lemma mirrors_earlier:
  assumes mir: "mirrors m1 m' s d" and "memory_frame W m m1" "W \<inter> all_resource_ids s = {}"
    and check: "physical_root_check s = Inr ()"
  shows "mirrors m m' s d"
  using mir frame_apart [OF assms(2) check assms(3)] slots_nonneg [OF check]
  unfolding mirrors_def by simp

lemma mirrors_self: "mirrors m m r r"
  by (simp add: mirrors_def)

lemma memory_frame_mono:
  assumes f: "memory_frame W a b" and sub: "W \<subseteq> V" shows "memory_frame V a b"
proof -
  have slots: "slot_frame A xs ys \<Longrightarrow> A \<subseteq> B \<Longrightarrow> slot_frame B xs ys" for A B and xs ys :: "'z list"
    by (auto simp: slot_frame_def)
  note f = f [unfolded memory_frame_def]
  have "cache_frame {x. TargetBlock i x \<in> V} (target_caches a ! i) (target_caches b ! i)"
       "cache_frame {x. DraftBlock i x \<in> V} (draft_caches a ! i) (draft_caches b ! i)"
       "slot_frame {s. GdnSlot s \<in> V} (gdn_caches a ! i) (gdn_caches b ! i)"
       "slot_frame {s. ConvolutionSlot s \<in> V} (convolution_caches a ! i) (convolution_caches b ! i)" for i
    using f sub by (blast intro: cache_frame_mono slots)+
  then show ?thesis unfolding memory_frame_def using f by simp
qed

lemma auxiliary_aside:
  "memory_frame W a (b\<lparr>auxiliary := x\<rparr>) \<longleftrightarrow> memory_frame W a b"
  "mirrors a (b\<lparr>auxiliary := x\<rparr>) s d \<longleftrightarrow> mirrors a b s d"
  by (simp_all add: memory_frame_def mirrors_def)

text \<open>The memories a preparation may leave.\<close>

lemma prepare_memories:
  assumes run: "prepare_worker_roots cb base candidate serial m = (r, m')"
  obtains r1 m1 r2 m2 where "copy_root base candidate m = (r1, m1)" "copy_root base serial m1 = (r2, m2)"
    "m' = m \<or> m' = m1 \<or> m' = m2 \<or> (\<exists>x. m' = m2\<lparr>auxiliary := x\<rparr>)"
    "r = Inr () \<Longrightarrow> r1 = Inr () \<and> r2 = Inr () \<and> (\<exists>x. m' = m2\<lparr>auxiliary := x\<rparr>)"
proof -
  obtain r1 m1 where c1: "copy_root base candidate m = (r1, m1)" by (cases "copy_root base candidate m")
  obtain r2 m2 where c2: "copy_root base serial m1 = (r2, m2)" by (cases "copy_root base serial m1")
  show thesis
  proof (rule that [OF c1 c2])
    show "m' = m \<or> m' = m1 \<or> m' = m2 \<or> (\<exists>x. m' = m2\<lparr>auxiliary := x\<rparr>)"
      using run c1 c2
      by (auto simp: prepare_worker_roots_def sbind_def assert_that_def raise_def ret_def gets_def lift_result_def
          split: if_splits prod.splits sum.splits)
    show "r1 = Inr () \<and> r2 = Inr () \<and> (\<exists>x. m' = m2\<lparr>auxiliary := x\<rparr>)" if "r = Inr ()"
      using run that c1 c2
      by (auto simp: prepare_worker_roots_def sbind_def assert_that_def raise_def ret_def gets_def lift_result_def
          split: if_splits prod.splits sum.splits)
  qed
qed

lemma prepare_worker_roots_spec:
  assumes trio: "root_trio base candidate serial"
    and checks: "physical_root_check base = Inr ()" "physical_root_check candidate = Inr ()"
      "physical_root_check serial = Inr ()"
    and modules: "resolve_modules m = Inr ()"
    and run: "prepare_worker_roots cb base candidate serial m = (r, m')"
  shows "memory_frame (writable_resource_ids candidate \<union> writable_resource_ids serial) m m'"
    and "r = Inr () \<Longrightarrow> mirrors m m' base candidate \<and> mirrors m m' base serial"
proof -
  let ?c = "writable_resource_ids candidate" and ?k = "writable_resource_ids serial"
  obtain r1 m1 r2 m2 where c1: "copy_root base candidate m = (r1, m1)"
    and c2: "copy_root base serial m1 = (r2, m2)"
    and left: "m' = m \<or> m' = m1 \<or> m' = m2 \<or> (\<exists>x. m' = m2\<lparr>auxiliary := x\<rparr>)"
    and ok: "r = Inr () \<Longrightarrow> r1 = Inr () \<and> r2 = Inr () \<and> (\<exists>x. m' = m2\<lparr>auxiliary := x\<rparr>)"
    using prepare_memories [OF run] by metis
  have f1: "memory_frame ?c m m1" by (rule copy_root_frame [OF checks(2) modules c1])
  have modules1: "resolve_modules m1 = Inr ()" using memory_frame_modules [OF f1] modules by blast
  have f2: "memory_frame ?k m1 m2" by (rule copy_root_frame [OF checks(3) modules1 c2])
  have w1: "memory_frame (?c \<union> ?k) m m1" by (rule memory_frame_mono [OF f1]) blast
  have w2: "memory_frame (?c \<union> ?k) m m2"
    by (rule memory_frames.trans [OF w1 memory_frame_mono [OF f2]]) blast
  show "memory_frame (?c \<union> ?k) m m'" using left w1 w2 by (auto simp: auxiliary_aside)
  have apart: "?c \<inter> all_resource_ids base = {}" "?k \<inter> all_resource_ids candidate = {}"
    "\<not> aliases base candidate" "\<not> aliases base serial"
    using trio by (auto simp: root_trio_def aliases_def)
  show "mirrors m m' base candidate \<and> mirrors m m' base serial" if succeeded: "r = Inr ()"
  proof -
    obtain x where "r1 = Inr ()" "r2 = Inr ()" and m': "m' = m2\<lparr>auxiliary := x\<rparr>" using ok [OF succeeded] by blast
    then have "mirrors m m1 base candidate" "mirrors m1 m2 base serial"
      using copy_root_effect checks modules modules1 apart(3,4) c1 c2 by blast+
    then have "mirrors m m2 base candidate" "mirrors m m2 base serial"
      using mirrors_later [OF _ f2 apart(2) checks(2)] mirrors_earlier [OF _ f1 apart(1) checks(1)] by blast+
    then show ?thesis by (simp add: m' auxiliary_aside)
  qed
qed

end
