(* ===== verification/Physical_Liveness.thy ===== *)
theory Physical_Liveness
  imports Physical_Safety
begin

section \<open>Roots that the worker can prepare\<close>

text \<open>
  Conditions on three roots and the storage under which preparing the private roots returns
  normally, so that the guarantees of a preparation that returned are not empty.
\<close>

text \<open>One cache, one table: every block is in the storage and the writable map is exact.\<close>

definition group_fits :: "'v attention_cache \<Rightarrow> int list \<Rightarrow> int list \<Rightarrow> int list \<Rightarrow> bool" where
  "group_fits c source destination writable \<longleftrightarrow>
     cache_layout c \<and> length source = length destination
     \<and> (\<forall>b \<in> set source \<union> set destination. 0 \<le> b \<and> b < int (length (key_rows c)))
     \<and> (\<forall>i < length destination. source ! i \<noteq> destination ! i \<longleftrightarrow> destination ! i \<in> set writable)
     \<and> distinct writable"

lemma group_fits_frame: "cache_frame B c c' \<Longrightarrow> group_fits c s d w \<Longrightarrow> group_fits c' s d w"
  by (auto simp: group_fits_def cache_frame_def cache_layout_def)

lemma copy_group_total:
  fixes c :: "'v attention_cache"
  assumes fits: "group_fits c source destination writable"
  shows "\<exists>c'. copy_attention_group source destination writable c = (Inr (), c')"
proof -
  let ?ps = "map (\<lambda>i. (source ! i, destination ! i))
      (filter (\<lambda>i. source ! i \<noteq> destination ! i) [0..<length destination])"
  have maps: "filter (\<lambda>i. source ! i \<noteq> destination ! i) [0..<length destination]
      = filter (\<lambda>i. destination ! i \<in> set writable) [0..<length destination]"
    using fits by (intro filter_cong) (auto simp: group_fits_def)
  have "\<exists>c'. for_each copy_block ?ps c = (Inr (), c') \<and> length (key_rows c') = length (key_rows c)"
  proof (rule for_each_total)
    fix p and a :: "'v attention_cache" assume p: "p \<in> set ?ps" and a: "length (key_rows a) = length (key_rows c)"
    then obtain x y where xy: "p = (x, y)" "x \<in> set source" "y \<in> set destination"
      using fits by (auto simp: group_fits_def)
    then have "0 \<le> x" "nat x < length (key_rows a)" "0 \<le> y" "nat y < length (key_rows a)"
      using fits a by (auto simp: group_fits_def nat_less_iff)
    then show "\<exists>s'. copy_block p a = (Inr (), s') \<and> length (key_rows s') = length (key_rows c)"
      using a by (auto simp: xy(1) copy_block_Inr) (auto simp: copy_row_def)
  qed simp
  then show ?thesis
    using fits maps by (auto simp: copy_attention_group_def group_fits_def Let_def sbind_def assert_that_def
        distinct_card)
qed

definition slots_fit :: "'v list \<Rightarrow> int \<Rightarrow> int \<Rightarrow> bool" where
  "slots_fit rows s d \<longleftrightarrow> 0 \<le> s \<and> s < int (length rows) \<and> 0 \<le> d \<and> d < int (length rows)"

definition root_fits ::
  "('v, 'x) worker_memory \<Rightarrow> physical_root \<Rightarrow> physical_root \<Rightarrow> bool" where
  "root_fits m s d \<longleftrightarrow>
     (\<forall>i < TARGET_KV_LAYER_COUNT. group_fits (target_caches m ! i) (target_blocks s ! i) (target_blocks d ! i)
        (writable_target_blocks d ! i))
     \<and> (\<forall>i < DRAFT_LAYER_COUNT. group_fits (draft_caches m ! i) (draft_blocks s ! i) (draft_blocks d ! i)
        (writable_draft_blocks d ! i))
     \<and> (\<forall>i < GDN_LAYER_COUNT. slots_fit (gdn_caches m ! i) (gdn_slots s ! i) (gdn_slots d ! i)
        \<and> slots_fit (convolution_caches m ! i) (convolution_slots s ! i) (convolution_slots d ! i))"

lemma root_fits_frame: "memory_frame W m m' \<Longrightarrow> root_fits m s d \<Longrightarrow> root_fits m' s d"
  by (auto simp: root_fits_def memory_frame_def slot_frame_def slots_fit_def intro: group_fits_frame)

lemma copy_root_total:
  assumes check: "physical_root_check d = Inr ()" and modules: "resolve_modules m = Inr ()"
    and fits: "root_fits m s d"
  shows "\<exists>m'. copy_root s d m = (Inr (), m')"
proof -
  let ?W = "writable_resource_ids d"
  let ?I = "\<lambda>m'. memory_frame ?W m m'"
  note parts = copy_root_parts_frame [OF check]
  have step: "\<exists>s'. f a = (Inr (), s') \<and> ?I s'" if "keeps (memory_frame ?W) f" "?I a" "\<exists>s'. f a = (Inr (), s')"
    for f a
    using that keepsD [OF that(1)] memory_frames.trans by blast
  have fits': "root_fits a s d" if "?I a" for a by (rule root_fits_frame [OF that fits])
  have t: "\<exists>a'. for_each (\<lambda>i. on_target i (copy_attention_group (target_blocks s ! i)
           (target_blocks d ! i) (writable_target_blocks d ! i))) [0..<TARGET_KV_LAYER_COUNT] a = (Inr (), a') \<and> ?I a'"
    if "?I a" for a
  proof (rule for_each_total [OF step that])
    show "keeps (memory_frame ?W) (on_target i (copy_attention_group (target_blocks s ! i)
           (target_blocks d ! i) (writable_target_blocks d ! i)))" if "i \<in> set [0..<TARGET_KV_LAYER_COUNT]" for i
      using parts(1) that by simp
    show "\<exists>b'. on_target i (copy_attention_group (target_blocks s ! i)
           (target_blocks d ! i) (writable_target_blocks d ! i)) b = (Inr (), b')"
      if "i \<in> set [0..<TARGET_KV_LAYER_COUNT]" "?I b" for i b
      using copy_group_total [of "target_caches b ! i" "target_blocks s ! i" "target_blocks d ! i" "writable_target_blocks d ! i"]
          fits' [OF that(2)] that(1) by (auto simp: root_fits_def on_cache_result)
  qed
  have dr: "\<exists>a'. for_each (\<lambda>i. on_draft i (copy_attention_group (draft_blocks s ! i)
           (draft_blocks d ! i) (writable_draft_blocks d ! i))) [0..<DRAFT_LAYER_COUNT] a = (Inr (), a') \<and> ?I a'"
    if "?I a" for a
  proof (rule for_each_total [OF step that])
    show "keeps (memory_frame ?W) (on_draft i (copy_attention_group (draft_blocks s ! i)
           (draft_blocks d ! i) (writable_draft_blocks d ! i)))" if "i \<in> set [0..<DRAFT_LAYER_COUNT]" for i
      using parts(2) that by simp
    show "\<exists>b'. on_draft i (copy_attention_group (draft_blocks s ! i)
           (draft_blocks d ! i) (writable_draft_blocks d ! i)) b = (Inr (), b')"
      if "i \<in> set [0..<DRAFT_LAYER_COUNT]" "?I b" for i b
      using copy_group_total [of "draft_caches b ! i" "draft_blocks s ! i" "draft_blocks d ! i" "writable_draft_blocks d ! i"]
          fits' [OF that(2)] that(1) by (auto simp: root_fits_def on_cache_result)
  qed
  have rec: "\<exists>a'. for_each (copy_recurrent s d) [0..<GDN_LAYER_COUNT] a = (Inr (), a') \<and> ?I a'"
    if "?I a" for a
  proof (rule for_each_total [OF step that])
    show "keeps (memory_frame ?W) (copy_recurrent s d i)" if "i \<in> set [0..<GDN_LAYER_COUNT]" for i
      using parts(3) that by simp
    show "\<exists>b'. copy_recurrent s d i b = (Inr (), b')" if "i \<in> set [0..<GDN_LAYER_COUNT]" "?I b" for i b
      using fits' [OF that(2)] that(1)
      by (auto simp: root_fits_def slots_fit_def copy_recurrent_def Let_def sbind_def assert_that_def)
  qed
  obtain m1 where m1: "for_each (\<lambda>i. on_target i (copy_attention_group (target_blocks s ! i)
           (target_blocks d ! i) (writable_target_blocks d ! i))) [0..<TARGET_KV_LAYER_COUNT] m = (Inr (), m1)" "?I m1"
    using t [OF memory_frames.refl] by blast
  obtain m2 where m2: "for_each (\<lambda>i. on_draft i (copy_attention_group (draft_blocks s ! i)
           (draft_blocks d ! i) (writable_draft_blocks d ! i))) [0..<DRAFT_LAYER_COUNT] m1 = (Inr (), m2)" "?I m2"
    using dr [OF m1(2)] by blast
  obtain m3 where m3: "for_each (copy_recurrent s d) [0..<GDN_LAYER_COUNT] m2 = (Inr (), m3)" "?I m3"
    using rec [OF m2(2)] by blast
  show ?thesis
    using m1(1) m2(1) m3(1) modules by (simp add: copy_root_def resolve_modules_iff sbind_def)
qed

subsection \<open>Equal rows compare equal\<close>

lemma row_at_Inr: "0 \<le> b \<Longrightarrow> b < int (length rows) \<Longrightarrow> row_at rows b = Inr (rows ! nat b)"
  by (simp add: row_at_def)

lemma map_result_total: "(\<And>x. x \<in> set xs \<Longrightarrow> f x = Inr (g x)) \<Longrightarrow> map_result f xs = Inr (map g xs)"
  by (induction xs) auto

lemma mutable_rows_total:
  assumes "cache_layout c" "\<forall>b \<in> set blocks. 0 \<le> b \<and> b < int (length (key_rows c))"
  shows "mutable_rows c blocks = Inr (concat (map (\<lambda>b. [fst (cache_row c (nat b)), snd (cache_row c (nat b))]) blocks))"
proof -
  have "map_result (row_at (key_rows c)) blocks = Inr (map (\<lambda>b. key_rows c ! nat b) blocks)"
    "map_result (row_at (value_rows c)) blocks = Inr (map (\<lambda>b. value_rows c ! nat b) blocks)"
    using assms by (intro map_result_total; simp add: row_at_Inr cache_layout_def)+
  moreover have "concat (map (\<lambda>(k, v). [k, v]) (zip (map f blocks) (map g blocks)))
      = concat (map (\<lambda>b. [f b, g b]) blocks)" for f g :: "int \<Rightarrow> 'a"
    by (induction blocks) auto
  ultimately show ?thesis
    using assms by (auto simp: mutable_rows_def list_ex_iff cache_row_def)
qed

lemma compare_attention_equal:
  assumes layout: "cache_layout c" "\<forall>b \<in> set left \<union> set right. 0 \<le> b \<and> b < int (length (key_rows c))"
    and rows: "map (\<lambda>b. cache_row c (nat b)) left = map (\<lambda>b. cache_row c (nat b)) right"
    and same: "\<And>v. same v v"
  shows "compare_attention same c left right = Inr ()"
proof -
  have flat: "concat (map (\<lambda>b. [fst (cache_row c (nat b)), snd (cache_row c (nat b))]) xs)
      = concat (map (\<lambda>(k, v). [k, v]) (map (\<lambda>b. cache_row c (nat b)) xs))" for xs
    by (induction xs) (auto simp: case_prod_beta)
  have "mutable_rows c left = mutable_rows c right"
    using layout by (simp add: mutable_rows_total flat rows)
  moreover have "check_all (\<lambda>(l, r). require (same l r) RowDiffers) (zip xs xs) = Inr ()" for xs
    by (induction xs) (auto simp: same)
  moreover obtain rs where "mutable_rows c right = Inr rs" using layout by (simp add: mutable_rows_total)
  ultimately show ?thesis by (simp add: compare_attention_def)
qed

text \<open>The writable blocks of two roots stand at the same places of their tables.\<close>

definition writable_aligned :: "int list \<Rightarrow> int list \<Rightarrow> int list \<Rightarrow> int list \<Rightarrow> bool" where
  "writable_aligned source source_writable destination writable \<longleftrightarrow>
     length source_writable = length writable
     \<and> (\<forall>k < length writable. \<exists>j < length destination. destination ! j = writable ! k
          \<and> source ! j = source_writable ! k \<and> writable ! k \<noteq> 0)"

definition roots_aligned :: "physical_root \<Rightarrow> physical_root \<Rightarrow> bool" where
  "roots_aligned s d \<longleftrightarrow>
     (\<forall>i < TARGET_KV_LAYER_COUNT. writable_aligned (target_blocks s ! i) (writable_target_blocks s ! i)
        (target_blocks d ! i) (writable_target_blocks d ! i))
     \<and> (\<forall>i < DRAFT_LAYER_COUNT. writable_aligned (draft_blocks s ! i) (writable_draft_blocks s ! i)
        (draft_blocks d ! i) (writable_draft_blocks d ! i))"

lemma aligned_rows_equal:
  assumes fits: "group_fits c source destination writable"
    and aligned: "writable_aligned source source_writable destination writable"
    and rows: "\<forall>j < length destination. \<not> null_writable (destination ! j) writable \<longrightarrow>
       cache_row c (nat (destination ! j)) = cache_row c (nat (source ! j))"
    and same: "\<And>v. same v v"
  shows "compare_attention same c source_writable writable = Inr ()"
proof (rule compare_attention_equal)
  show "cache_layout c" using fits by (simp add: group_fits_def)
  have place: "\<exists>j < length destination. destination ! j = writable ! k \<and> source ! j = source_writable ! k
      \<and> writable ! k \<noteq> 0" if "k < length writable" for k
    using aligned that by (auto simp: writable_aligned_def)
  have len: "length source_writable = length writable" using aligned by (simp add: writable_aligned_def)
  have "b \<in> set source \<union> set destination" if "b \<in> set source_writable \<union> set writable" for b
    using that place len fits unfolding group_fits_def in_set_conv_nth Un_iff by metis
  then show "\<forall>b \<in> set source_writable \<union> set writable. 0 \<le> b \<and> b < int (length (key_rows c))"
    using fits by (auto simp: group_fits_def)
  show "map (\<lambda>b. cache_row c (nat b)) source_writable = map (\<lambda>b. cache_row c (nat b)) writable"
  proof (rule nth_equalityI)
    fix k assume "k < length (map (\<lambda>b. cache_row c (nat b)) source_writable)"
    then show "map (\<lambda>b. cache_row c (nat b)) source_writable ! k = map (\<lambda>b. cache_row c (nat b)) writable ! k"
      using place [of k] len rows by (auto simp: null_writable_def)
  qed (simp add: len)
qed (rule same)

lemma compare_roots_equal:
  assumes modules: "resolve_modules m = Inr ()" and fits: "root_fits m s d" and aligned: "roots_aligned s d"
    and mir: "mirrors m m s d"
    and callbacks: "\<And>v. tensor_equal cb v v" "compare_auxiliary cb s d (auxiliary m)"
  shows "compare_roots cb s d m = Inr ()"
proof -
  note len = resolve_modules_iff [THEN iffD1, OF modules]
  have "compare_attention (tensor_equal cb) (target_caches m ! i) (writable_target_blocks s ! i)
      (writable_target_blocks d ! i) = Inr ()" if "i < TARGET_KV_LAYER_COUNT" for i
    by (rule aligned_rows_equal [where source = "target_blocks s ! i" and destination = "target_blocks d ! i"])
       (use that fits aligned mir callbacks in \<open>auto simp: root_fits_def roots_aligned_def mirrors_def\<close>)
  moreover have "compare_attention (tensor_equal cb) (draft_caches m ! i) (writable_draft_blocks s ! i)
      (writable_draft_blocks d ! i) = Inr ()" if "i < DRAFT_LAYER_COUNT" for i
    by (rule aligned_rows_equal [where source = "draft_blocks s ! i" and destination = "draft_blocks d ! i"])
       (use that fits aligned mir callbacks in \<open>auto simp: root_fits_def roots_aligned_def mirrors_def\<close>)
  moreover have "compare_recurrent (tensor_equal cb) (gdn_caches m ! i) (gdn_slots s ! i) (gdn_slots d ! i) = Inr ()"
    "compare_recurrent (tensor_equal cb) (convolution_caches m ! i) (convolution_slots s ! i) (convolution_slots d ! i)
       = Inr ()" if "i < GDN_LAYER_COUNT" for i
    using that fits mir callbacks
    by (auto simp: compare_recurrent_def root_fits_def slots_fit_def mirrors_def row_at_Inr)
  ultimately show ?thesis
    using callbacks(2) by (auto simp: compare_roots_def len result_simps)
qed

lemma memory_frame_sym: "memory_frame W a b \<Longrightarrow> memory_frame W b a"
  by (simp add: memory_frame_def cache_frame_def slot_frame_def)

lemma auxiliary_aside_fits:
  "root_fits (m\<lparr>auxiliary := x\<rparr>) s d \<longleftrightarrow> root_fits m s d"
  "resolve_modules (m\<lparr>auxiliary := x\<rparr>) = resolve_modules m"
  by (simp_all add: root_fits_def resolve_modules_def)

definition roots_ready ::
  "('v, 'x) worker_callbacks \<Rightarrow> ('v, 'x) worker_memory \<Rightarrow> physical_root \<Rightarrow> physical_root \<Rightarrow> physical_root \<Rightarrow> bool" where
  "roots_ready cb m base candidate serial \<longleftrightarrow>
     root_fits m base candidate \<and> root_fits m base serial
     \<and> roots_aligned base candidate \<and> roots_aligned base serial
     \<and> (\<forall>v. tensor_equal cb v v) \<and> (\<forall>a. synchronize_device cb a)
     \<and> (\<forall>x. fst (copy_auxiliary cb base candidate serial x)
          \<and> compare_auxiliary cb base candidate (snd (copy_auxiliary cb base candidate serial x))
          \<and> compare_auxiliary cb base serial (snd (copy_auxiliary cb base candidate serial x)))"

lemma prepare_worker_roots_total:
  assumes trio: "root_trio base candidate serial"
    and checks: "physical_root_check base = Inr ()" "physical_root_check candidate = Inr ()"
      "physical_root_check serial = Inr ()"
    and modules: "resolve_modules m = Inr ()"
    and ready: "roots_ready cb m base candidate serial"
  shows "\<exists>m'. prepare_worker_roots cb base candidate serial m = (Inr (), m')"
proof -
  let ?c = "writable_resource_ids candidate" and ?k = "writable_resource_ids serial"
  have ids: "card {root_id base, root_id candidate, root_id serial} = 3"
    and apart: "?c \<inter> all_resource_ids base = {}" "?k \<inter> all_resource_ids base = {}"
      "?k \<inter> all_resource_ids candidate = {}" "\<not> aliases base candidate" "\<not> aliases base serial"
    using trio by (auto simp: root_trio_def aliases_def)
  have fits: "root_fits m base candidate" "root_fits m base serial"
    using ready by (simp_all add: roots_ready_def)
  obtain m1 where c1: "copy_root base candidate m = (Inr (), m1)"
    using copy_root_total [OF checks(2) modules fits(1)] by blast
  have f1: "memory_frame ?c m m1" by (rule copy_root_frame [OF checks(2) modules c1])
  have modules1: "resolve_modules m1 = Inr ()" using memory_frame_modules [OF f1] modules by blast
  obtain m2 where c2: "copy_root base serial m1 = (Inr (), m2)"
    using copy_root_total [OF checks(3) modules1 root_fits_frame [OF f1 fits(2)]] by blast
  have f2: "memory_frame ?k m1 m2" by (rule copy_root_frame [OF checks(3) modules1 c2])
  have modules2: "resolve_modules m2 = Inr ()" using memory_frame_modules [OF f2] modules1 by blast
  have "mirrors m m1 base candidate" "mirrors m1 m2 base serial"
    using copy_root_effect [OF checks(1,2) modules apart(4) c1]
      copy_root_effect [OF checks(1,3) modules1 apart(5) c2] by blast+
  then have "mirrors m1 m2 base candidate" "mirrors m1 m2 base serial"
    using mirrors_later [OF _ f2 apart(3) checks(2)]
      mirrors_earlier [OF _ memory_frame_sym [OF f1] apart(1) checks(1)] by blast+
  then have mir: "mirrors m2 m2 base candidate" "mirrors m2 m2 base serial"
    using mirrors_earlier [OF _ memory_frame_sym [OF f2] apart(2) checks(1)] by blast+
  obtain x where aux: "copy_auxiliary cb base candidate serial (auxiliary m2) = (True, x)"
    "compare_auxiliary cb base candidate x" "compare_auxiliary cb base serial x"
    using ready unfolding roots_ready_def by (metis prod.collapse)
  have same: "tensor_equal cb v v" for v using ready by (simp add: roots_ready_def)
  let ?m = "m2\<lparr>auxiliary := x\<rparr>"
  have mir': "mirrors ?m ?m base candidate" "mirrors ?m ?m base serial"
    using mir by (simp_all add: mirrors_def)
  have fits': "root_fits ?m base candidate" "root_fits ?m base serial"
    using root_fits_frame [OF f2] root_fits_frame [OF f1] fits by (simp_all add: auxiliary_aside_fits)
  have "compare_roots cb base candidate ?m = Inr ()" "compare_roots cb base serial ?m = Inr ()"
    using modules2 ready aux same mir' fits'
    by (intro compare_roots_equal; simp add: auxiliary_aside_fits roots_ready_def)+
  moreover have "synchronize_device cb ?m" using ready by (simp add: roots_ready_def)
  ultimately show ?thesis
    by (simp add: prepare_worker_roots_def sbind_def assert_that_def ids c1 c2 aux)
qed

end
