(* ===== verification/Physical_Properties.thy ===== *)
theory Physical_Properties
  imports Physical_Liveness Authority_Properties
begin

section \<open>Properties of the worker's physical roots\<close>

subsection \<open>A concrete worker\<close>

definition demo_worker :: "(int, unit) worker_memory" where
  "demo_worker = \<lparr>
     target_caches = replicate TARGET_KV_LAYER_COUNT \<lparr>key_rows = [0, 1, 2, 3], value_rows = [4, 5, 6, 7]\<rparr>,
     draft_caches = replicate DRAFT_LAYER_COUNT \<lparr>key_rows = [0, 1, 2, 3], value_rows = [4, 5, 6, 7]\<rparr>,
     gdn_caches = replicate GDN_LAYER_COUNT (map int [0..<400]),
     convolution_caches = replicate GDN_LAYER_COUNT (map int [0..<400]), auxiliary = ()\<rparr>"

definition demo_worker_callbacks :: "(int, unit) worker_callbacks" where
  "demo_worker_callbacks = \<lparr>copy_auxiliary = (\<lambda>_ _ _ x. (True, x)), compare_auxiliary = (\<lambda>_ _ _. True),
     capture_auxiliary = (\<lambda>_ _. Some []), synchronize_device = (\<lambda>_. True), tensor_equal = (=),
     tensor_digest = (\<lambda>_. []), capture_digest = (\<lambda>_ _ _ _ _. [])\<rparr>"

lemma demo_root_c_valid: "physical_root_check root_c = Inr ()"
  by (simp add: physical_root_check_def root_c_def demo_root_def
      authority_identifier_def block_groups_def writable_inside_def slots_check_def
      layer_counts result_simps list_all_iff distinct_map inj_on_def in_set_zip)

lemma demo_worker_ready:
  "resolve_modules demo_worker = Inr ()" "roots_ready demo_worker_callbacks demo_worker root_a root_b root_c"
proof -
  show "resolve_modules demo_worker = Inr ()" by (simp add: resolve_modules_iff demo_worker_def)
  have group: "group_fits \<lparr>key_rows = [0, 1, 2, 3 :: int], value_rows = [4, 5, 6, 7 :: int]\<rparr> [0, b] [0, c] [c]"
      "group_fits \<lparr>key_rows = [0, 1, 2, 3 :: int], value_rows = [4, 5, 6, 7 :: int]\<rparr> [b] [c] [c]"
    if "b \<in> {1, 2, 3}" "c \<in> {1, 2, 3}" "b \<noteq> c" for b c :: int
    using that by (auto simp: group_fits_def cache_layout_def All_less_Suc)
  have slot: "slots_fit (map int [0..<400]) (b * 100 + int i) (c * 100 + int i)"
    if "b \<in> {1, 2, 3}" "c \<in> {1, 2, 3}" "i < GDN_LAYER_COUNT" for b c :: int and i
    using that by (auto simp: slots_fit_def layer_counts)
  have fits: "root_fits demo_worker (demo_root r b) (demo_root r' c)"
    if "b \<in> {1, 2, 3}" "c \<in> {1, 2, 3}" "b \<noteq> c" for r r' b c
    unfolding root_fits_def demo_worker_def demo_root_def using group [OF that] slot [OF that(1,2)]
    by (simp del: upt_conv_Cons upt_Suc)
  have place: "writable_aligned [0, b] [b] [0, c] [c]" "writable_aligned [b] [b] [c] [c]" if "c \<noteq> 0" for b c
    using that by (auto simp: writable_aligned_def intro!: exI [of _ "Suc 0"])
  have aligned: "roots_aligned (demo_root r b) (demo_root r' c)" if "c \<noteq> 0" for r r' b c
    using place [OF that, of b] by (simp add: roots_aligned_def demo_root_def)
  show "roots_ready demo_worker_callbacks demo_worker root_a root_b root_c"
    unfolding roots_ready_def root_a_def root_b_def root_c_def
    by (simp add: fits aligned demo_worker_callbacks_def)
qed

subsection \<open>The property\<close>

text \<open>
  C30: For three valid roots that do not alias, and a worker whose modules were resolved, preparing the private roots never writes a
  cache row that the canonical root reads, whatever its outcome: only rows of the private
  roots' writable blocks and slots may differ afterwards and no cache changes its size.
  When it returns normally every slot and every block position of both private roots reads
  exactly what the canonical root reads there (\<open>mirrors\<close>).  The one exception are positions
  that hold the null block, number 0, in a group whose writable blocks name the null block
  itself, which the checks of a root do not forbid (\<open>null_writable\<close>).
\<close>

theorem private_roots_mirror_canonical:
  assumes "validate_root_set [base, candidate, serial] = Inr ()"
    and "physical_root_check base = Inr ()" "physical_root_check candidate = Inr ()"
      "physical_root_check serial = Inr ()"
    and "resolve_modules m = Inr ()"
    and "prepare_worker_roots cb base candidate serial m = (r, m')"
  shows "mirrors m m' base base
    \<and> memory_frame (writable_resource_ids candidate \<union> writable_resource_ids serial) m m'
    \<and> (r = Inr () \<longrightarrow> mirrors m m' base candidate \<and> mirrors m m' base serial)"
proof -
  have trio: "root_trio base candidate serial" using assms(1) by (simp add: validate_root_set_three)
  note spec = prepare_worker_roots_spec [OF trio assms(2-6)]
  have "(writable_resource_ids candidate \<union> writable_resource_ids serial) \<inter> all_resource_ids base = {}"
    using trio by (auto simp: root_trio_def aliases_def)
  then have "mirrors m m' base base" by (rule mirrors_later [OF mirrors_self spec(1) _ assms(2)])
  then show ?thesis using spec by blast
qed

theorem private_roots_mirror_canonical_witness:
  "\<exists>m'. prepare_worker_roots demo_worker_callbacks root_a root_b root_c demo_worker = (Inr (), m')
     \<and> mirrors demo_worker m' root_a root_a \<and> mirrors demo_worker m' root_a root_b
     \<and> mirrors demo_worker m' root_a root_c"
proof -
  obtain m' where run: "prepare_worker_roots demo_worker_callbacks root_a root_b root_c demo_worker = (Inr (), m')"
    using prepare_worker_roots_total [OF demo_trio demo_root_valid demo_root_c_valid demo_worker_ready] by blast
  show ?thesis
    using run private_roots_mirror_canonical [OF demo_root_set demo_root_valid demo_root_c_valid
        demo_worker_ready(1) run] by blast
qed

end
