(* ===== verification/Worker_Protocol.thy ===== *)
theory Worker_Protocol
  imports Live_Capability Authority_Safety
begin

section \<open>Private worker calls\<close>

text \<open>
  Model of \<open>src/qwen_r9700_lab/live_commit_vllm_worker_protocol.py\<close> and of the two executor
  proxies \<open>live_commit_vllm_candidate_executor.py\<close> and
  \<open>live_commit_vllm_serial_executor.py\<close>.  The worker is a parameter: a remote call takes the
  request and the worker's state and raises, answers something that is no list, or answers a
  list; an element of the list that is not a \<open>PrivateWorkerResult\<close> is \<open>None\<close>.  The payloads
  and the model output are opaque, their absence is \<open>None\<close>.
\<close>

definition PRIVATE_WORKER_PROTOCOL_SCHEMA :: string where
  "PRIVATE_WORKER_PROTOCOL_SCHEMA = ''urn:qwen-r9700:private-worker-round:v1''"

datatype wire_error =
    RequestSchemaDiffers
  | RequestRoleDiffers
  | WireIdentifierInvalid
  | WireIndexInvalid
  | WireDigestInvalid
  | WireCommitCountInvalid
  | WirePayloadAbsent
  | PreparedIdentityDiffers branch_role
  | BranchHandlesAlias
  | TransactionNoncesDiffer
  | PreparedSnapshotDiffers
  | ResultSchemaDiffers
  | ResultRoleDiffers
  | ResultIdentityDiffers
  | ResultFamilyDiffers
  | ResultTokensInvalid
  | ResultWidthDiffers
  | ResultOutputOmitted
  | ResultStateInvalid state_error

definition wire_identifier :: "string \<Rightarrow> wire_error + unit" where
  "wire_identifier s =
     require (1 \<le> length s \<and> length s \<le> 256 \<and>
              list_all (\<lambda>c. c \<in> set (''ABCDEFGHIJKLMNOPQRSTUVWXYZ'' @ ''abcdefghijklmnopqrstuvwxyz''
                                    @ ''0123456789._:/+-'')) s)
             WireIdentifierInvalid"

definition wire_index :: "int \<Rightarrow> wire_error + unit" where
  "wire_index n = require (0 \<le> n) WireIndexInvalid"

definition wire_commit_count :: "int option \<Rightarrow> wire_error + unit" where
  "wire_commit_count value =
     (case value of None \<Rightarrow> Inr () | Some n \<Rightarrow> require (n \<in> set COMMIT_COUNTS) WireCommitCountInvalid)"

definition wire_sha256 :: "string \<Rightarrow> wire_error + unit" where
  "wire_sha256 s = (case sha256_value s of Inl _ \<Rightarrow> Inl WireDigestInvalid | Inr _ \<Rightarrow> Inr ())"

definition wire_token_ids :: "int list \<Rightarrow> wire_error + int list" where
  "wire_token_ids tokens =
     (if list_ex (\<lambda>t. t < 0) tokens then Inl ResultTokensInvalid else Inr tokens)"

text \<open>The identity of a call: session, request, round, canonical handle and state.\<close>

record call_identity =
  call_session :: string
  call_request :: string
  call_round :: int
  call_canonical_handle :: string
  call_canonical_sha256 :: string

record 'p branch_request =
  request_schema :: string
  request_role :: branch_role
  request_identity :: call_identity
  request_branch_handle :: string
  request_payload_sha256 :: string
  request_nonce_sha256 :: string
  requested_commit_count :: "int option"
  worker_payload :: "'p option"

definition identity_check :: "call_identity \<Rightarrow> wire_error + unit" where
  "identity_check c =
     rbind (wire_identifier (call_session c)) (\<lambda>_.
     rbind (wire_identifier (call_request c)) (\<lambda>_.
     rbind (wire_index (call_round c)) (\<lambda>_.
     rbind (wire_identifier (call_canonical_handle c)) (\<lambda>_.
     wire_sha256 (call_canonical_sha256 c)))))"

definition branch_request_check :: "branch_role \<Rightarrow> 'p branch_request \<Rightarrow> wire_error + unit" where
  "branch_request_check expected r =
     (if request_schema r \<noteq> PRIVATE_WORKER_PROTOCOL_SCHEMA then Inl RequestSchemaDiffers
      else if request_role r \<noteq> expected then Inl RequestRoleDiffers
      else rbind (identity_check (request_identity r)) (\<lambda>_.
           rbind (wire_identifier (request_branch_handle r)) (\<lambda>_.
           rbind (wire_sha256 (request_payload_sha256 r)) (\<lambda>_.
           rbind (wire_sha256 (request_nonce_sha256 r)) (\<lambda>_.
           rbind (wire_commit_count (requested_commit_count r)) (\<lambda>_.
           require (worker_payload r \<noteq> None) WirePayloadAbsent))))))"

record 'p prepared_round =
  prepared_identity :: call_identity
  candidate_request :: "'p branch_request"
  serial_request :: "'p branch_request"

definition prepared_round_check ::
  "string \<Rightarrow> string \<Rightarrow> 'p prepared_round \<Rightarrow> wire_error + unit" where
  "prepared_round_check expected_handle expected_sha256 p =
     rbind (identity_check (prepared_identity p)) (\<lambda>_.
     rbind (branch_request_check CandidateRole (candidate_request p)) (\<lambda>_.
     rbind (branch_request_check SerialRole (serial_request p)) (\<lambda>_.
     rbind (check_all (\<lambda>branch. require (request_identity branch = prepared_identity p)
              (PreparedIdentityDiffers (request_role branch)))
            [candidate_request p, serial_request p]) (\<lambda>_.
     if request_branch_handle (candidate_request p) = request_branch_handle (serial_request p)
     then Inl BranchHandlesAlias
     else if request_nonce_sha256 (candidate_request p) \<noteq> request_nonce_sha256 (serial_request p)
     then Inl TransactionNoncesDiffer
     else require (call_canonical_handle (prepared_identity p) = expected_handle
            \<and> call_canonical_sha256 (prepared_identity p) = expected_sha256) PreparedSnapshotDiffers))))"

record 'm worker_result =
  result_schema :: string
  result_role :: branch_role
  result_identity :: call_identity
  result_branch_handle :: string
  result_payload_sha256 :: string
  result_nonce_sha256 :: string
  result_family :: string
  result_token_ids :: "int list"
  result_state :: live_state
  result_model_output :: "'m option"

definition worker_result_check ::
  "string \<Rightarrow> 'p branch_request \<Rightarrow> 'm worker_result \<Rightarrow> wire_error + unit" where
  "worker_result_check family request r =
     rbind (branch_request_check (request_role request) request) (\<lambda>_.
     if result_schema r \<noteq> PRIVATE_WORKER_PROTOCOL_SCHEMA then Inl ResultSchemaDiffers
     else if result_role r \<noteq> request_role request then Inl ResultRoleDiffers
     else if (result_identity r, result_branch_handle r, result_payload_sha256 r, result_nonce_sha256 r)
        \<noteq> (request_identity request, request_branch_handle request, request_payload_sha256 request,
           request_nonce_sha256 request) then Inl ResultIdentityDiffers else
     rbind (wire_identifier (result_family r)) (\<lambda>_.
     if result_family r \<noteq> family then Inl ResultFamilyDiffers else
     rbind (wire_token_ids (result_token_ids r)) (\<lambda>tokens.
     if (case requested_commit_count request of None \<Rightarrow> False | Some n \<Rightarrow> int (length tokens) \<noteq> n)
     then Inl ResultWidthDiffers
     else if tokens \<noteq> [] \<and> result_model_output r = None then Inl ResultOutputOmitted
     else case normalize_state (result_state r) of
            Inl e \<Rightarrow> Inl (ResultStateInvalid e)
          | Inr _ \<Rightarrow> Inr ())))"

subsection \<open>The executor proxies\<close>

datatype executor_error =
    ExecutorCapabilityInvalid capability_error
  | ExecutorPathUnauthenticated
  | ExecutorIdentityDiffers
  | BaseExecutorInvalid
  | SnapshotStateInvalid state_error
  | SerialWidthInvalid
  | PreparedRoundInvalid wire_error
  | RequestedWidthDiffers
  | WorkerRpcFailed
  | NotExactlyOneResult
  | WorkerResultTypeInvalid
  | WorkerResultInvalid wire_error

datatype 'm rpc_answer = RpcRaised | RpcNotAList | RpcList "'m worker_result option list"

type_synonym ('w, 'p, 'm) worker_rpc = "'p branch_request \<Rightarrow> 'w \<Rightarrow> 'm rpc_answer \<times> 'w"

record base_executor =
  base_is_proxy :: bool
  base_has_rpc :: bool

record executor_proxy =
  proxy_runtime_sha256 :: string
  proxy_family :: string

text \<open>
  The constructor: \<open>same_file\<close> is \<open>Path(__file__).samefile\<close> (\<open>None\<close> when it raises) and
  \<open>own_sha256\<close> the digest of this file's bytes.
\<close>

definition new_executor_proxy ::
  "(capability \<Rightarrow> artifact) \<Rightarrow> (capability \<Rightarrow> string)
   \<Rightarrow> ((string \<times> string) list \<Rightarrow> string) \<Rightarrow> (capability \<Rightarrow> string) \<Rightarrow> file_system
   \<Rightarrow> (string \<Rightarrow> bool option) \<Rightarrow> string \<Rightarrow> base_executor \<Rightarrow> capability sealed
   \<Rightarrow> executor_error + executor_proxy" where
  "new_executor_proxy runtime family tree_digest cap_digest fs same_file own_sha256 base value =
     (case verify_capability tree_digest cap_digest fs value of
        Inl e \<Rightarrow> Inl (ExecutorCapabilityInvalid e)
      | Inr verified \<Rightarrow>
          (let declared = runtime (body verified) in
           case same_file (artifact_path declared) of
             None \<Rightarrow> Inl ExecutorPathUnauthenticated
           | Some same \<Rightarrow>
               if \<not> same \<or> own_sha256 \<noteq> artifact_sha256 declared then Inl ExecutorIdentityDiffers
               else if base_is_proxy base \<or> \<not> base_has_rpc base then Inl BaseExecutorInvalid
               else Inr \<lparr>proxy_runtime_sha256 = artifact_sha256 declared,
                         proxy_family = family (body verified)\<rparr>))"

definition new_candidate_executor where
  "new_candidate_executor = new_executor_proxy release_runtime cap_candidate_family"

definition new_serial_executor where
  "new_serial_executor = new_executor_proxy serial_oracle_runtime cap_serial_family"

text \<open>\<open>_snapshot_sha256\<close>: \<open>validation.state_sha256\<close> normalizes before it hashes.\<close>

definition snapshot_sha256 ::
  "(live_state \<Rightarrow> string) \<Rightarrow> canonical_snapshot \<Rightarrow> executor_error + string" where
  "snapshot_sha256 digest snapshot =
     (case normalize_state (snapshot_state snapshot) of
        Inl e \<Rightarrow> Inl (SnapshotStateInvalid e)
      | Inr st \<Rightarrow> Inr (digest st))"

definition authenticate_round ::
  "(live_state \<Rightarrow> string) \<Rightarrow> canonical_snapshot \<Rightarrow> 'p prepared_round \<Rightarrow> executor_error + unit" where
  "authenticate_round digest snapshot p =
     rbind (snapshot_sha256 digest snapshot) (\<lambda>sha.
     case prepared_round_check (snapshot_handle snapshot) sha p of
       Inl e \<Rightarrow> Inl (PreparedRoundInvalid e)
     | Inr _ \<Rightarrow> Inr ())"

text \<open>The remote call and the validation of its answer, the same in both proxies.\<close>

definition call_private_worker ::
  "executor_proxy \<Rightarrow> ('w, 'p, 'm) worker_rpc \<Rightarrow> 'p branch_request
   \<Rightarrow> ('w, executor_error, 'm option private_transition) action" where
  "call_private_worker proxy rpc branch =
     sbind (\<lambda>w. case rpc branch w of (answer, w') \<Rightarrow> (Inr answer, w')) (\<lambda>answer.
     case answer of
       RpcRaised \<Rightarrow> raise WorkerRpcFailed
     | RpcNotAList \<Rightarrow> raise NotExactlyOneResult
     | RpcList results \<Rightarrow>
         (case results of
            [Some r] \<Rightarrow>
              (case worker_result_check (proxy_family proxy) branch r of
                 Inl e \<Rightarrow> raise (WorkerResultInvalid e)
               | Inr _ \<Rightarrow> ret \<lparr>transition_handle = result_branch_handle r,
                   implementation_family = result_family r,
                   transition_tokens = result_token_ids r,
                   transition_state = result_state r, model_output = result_model_output r\<rparr>)
          | [None] \<Rightarrow> raise WorkerResultTypeInvalid
          | _ \<Rightarrow> raise NotExactlyOneResult))"

definition execute_candidate_branch ::
  "executor_proxy \<Rightarrow> (live_state \<Rightarrow> string) \<Rightarrow> ('w, 'p, 'm) worker_rpc \<Rightarrow> canonical_snapshot
   \<Rightarrow> 'p prepared_round \<Rightarrow> int option \<Rightarrow> ('w, executor_error, 'm option private_transition) action" where
  "execute_candidate_branch proxy digest rpc snapshot p count =
     sbind (lift_result (authenticate_round digest snapshot p)) (\<lambda>_.
     let branch = candidate_request p in
     sbind (assert_that (\<not> (count \<noteq> None \<and> requested_commit_count branch \<noteq> count))
              RequestedWidthDiffers) (\<lambda>_.
     call_private_worker proxy rpc branch))"

definition execute_serial_branch ::
  "executor_proxy \<Rightarrow> (live_state \<Rightarrow> string) \<Rightarrow> ('w, 'p, 'm) worker_rpc \<Rightarrow> canonical_snapshot
   \<Rightarrow> 'p prepared_round \<Rightarrow> int \<Rightarrow> ('w, executor_error, 'm option private_transition) action" where
  "execute_serial_branch proxy digest rpc snapshot p count =
     sbind (assert_that (count \<in> set COMMIT_COUNTS) SerialWidthInvalid) (\<lambda>_.
     sbind (lift_result (authenticate_round digest snapshot p)) (\<lambda>_.
     let branch = serial_request p in
     sbind (assert_that (requested_commit_count branch \<in> {None, Some count}) RequestedWidthDiffers) (\<lambda>_.
     call_private_worker proxy rpc
       (if requested_commit_count branch = None
        then branch\<lparr>requested_commit_count := Some count\<rparr> else branch))))"

end
