(* ===== verification/Worker_Properties.thy ===== *)
theory Worker_Properties
  imports Worker_Protocol Demo_Driver
begin

section \<open>What a private worker call may return\<close>

text \<open>
  The facts behind the validation of the wire records, the binding of a returned transition
  to the round that was prepared and to the capability, and a concrete capability with its
  files on which they are evaluated.
\<close>

subsection \<open>A validated round and result\<close>

lemma prepared_round_Inr:
  assumes "prepared_round_check handle sha p = Inr u"
  shows "request_branch_handle (candidate_request p) \<noteq> request_branch_handle (serial_request p)"
    and "request_nonce_sha256 (candidate_request p) = request_nonce_sha256 (serial_request p)"
    and "request_identity (candidate_request p) = prepared_identity p"
      "request_identity (serial_request p) = prepared_identity p"
    and "call_canonical_handle (prepared_identity p) = handle"
      "call_canonical_sha256 (prepared_identity p) = sha"
    and "request_role (candidate_request p) = CandidateRole" "request_role (serial_request p) = SerialRole"
  using assms
  by (auto simp: prepared_round_check_def branch_request_check_def result_simps split: if_splits)

lemma worker_result_Inr:
  assumes "worker_result_check family request r = Inr u"
  shows "result_branch_handle r = request_branch_handle request" "result_family r = family"
    and "result_identity r = request_identity request"
    and "\<forall>t \<in> set (result_token_ids r). 0 \<le> t"
    and "requested_commit_count request = Some n \<Longrightarrow> int (length (result_token_ids r)) = n"
    and "result_token_ids r \<noteq> [] \<Longrightarrow> result_model_output r \<noteq> None"
    and "normal_state (result_state r)"
proof -
  show "normal_state (result_state r)"
    using assms
    by (auto simp: worker_result_check_def result_simps split: if_splits option.splits sum.splits)
  show "result_branch_handle r = request_branch_handle request" "result_family r = family"
    "result_identity r = request_identity request" "\<forall>t \<in> set (result_token_ids r). 0 \<le> t"
    "requested_commit_count request = Some n \<Longrightarrow> int (length (result_token_ids r)) = n"
    "result_token_ids r \<noteq> [] \<Longrightarrow> result_model_output r \<noteq> None"
    using assms
    by (auto simp: worker_result_check_def result_simps wire_token_ids_def list_ex_iff
        split: if_splits option.splits)
qed

text \<open>What the transition of a call that returned is bound to.\<close>

definition bound_transition ::
  "executor_proxy \<Rightarrow> 'p branch_request \<Rightarrow> 'm option private_transition \<Rightarrow> bool" where
  "bound_transition proxy branch t \<longleftrightarrow>
     transition_handle t = request_branch_handle branch \<and> implementation_family t = proxy_family proxy
     \<and> normal_state (transition_state t) \<and> (\<forall>x \<in> set (transition_tokens t). 0 \<le> x)
     \<and> (transition_tokens t \<noteq> [] \<longrightarrow> model_output t \<noteq> None)"

lemma call_private_worker_Inr:
  assumes "call_private_worker proxy rpc branch w = (Inr t, w')"
  shows "bound_transition proxy branch t" "w' = snd (rpc branch w)"
    and "requested_commit_count branch = Some n \<Longrightarrow> int (length (transition_tokens t)) = n"
proof -
  obtain r where rpc: "rpc branch w = (RpcList [Some r], w')"
    and ok: "worker_result_check (proxy_family proxy) branch r = Inr ()"
    and t: "t = \<lparr>transition_handle = result_branch_handle r, implementation_family = result_family r,
       transition_tokens = result_token_ids r, transition_state = result_state r,
       model_output = result_model_output r\<rparr>"
    using assms
    by (auto simp: call_private_worker_def sbind_def split: prod.splits rpc_answer.splits list.splits
        option.splits sum.splits)
  show "bound_transition proxy branch t"
    using worker_result_Inr(1,2,4,6,7) [OF ok] by (simp add: bound_transition_def t)
  show "w' = snd (rpc branch w)" by (simp add: rpc)
  show "requested_commit_count branch = Some n \<Longrightarrow> int (length (transition_tokens t)) = n"
    using worker_result_Inr(5) [OF ok] by (simp add: t)
qed

lemma authenticate_round_Inr:
  assumes "authenticate_round digest snapshot p = Inr u"
  shows "normal_state (snapshot_state snapshot)"
    and "prepared_round_check (snapshot_handle snapshot) (digest (snapshot_state snapshot)) p = Inr ()"
  using assms
  by (auto simp: authenticate_round_def snapshot_sha256_def result_simps
      split: sum.splits)

lemma execute_candidate_branch_Inr:
  assumes "execute_candidate_branch proxy digest rpc snapshot p count w = (Inr t, w')"
  shows "bound_transition proxy (candidate_request p) t" "w' = snd (rpc (candidate_request p) w)"
    and "count = Some n \<Longrightarrow> int (length (transition_tokens t)) = n"
    and "authenticate_round digest snapshot p = Inr ()"
proof -
  have auth: "authenticate_round digest snapshot p = Inr ()"
    and width: "count = None \<or> requested_commit_count (candidate_request p) = count"
    and call: "call_private_worker proxy rpc (candidate_request p) w = (Inr t, w')"
    using assms by (auto simp: execute_candidate_branch_def Let_def action_simps)
  show "authenticate_round digest snapshot p = Inr ()" by (rule auth)
  show "bound_transition proxy (candidate_request p) t" "w' = snd (rpc (candidate_request p) w)"
    using call_private_worker_Inr(1,2) [OF call] by blast+
  show "count = Some n \<Longrightarrow> int (length (transition_tokens t)) = n"
    using width call_private_worker_Inr(3) [OF call] by blast
qed

lemma execute_serial_branch_Inr:
  assumes "execute_serial_branch proxy digest rpc snapshot p count w = (Inr t, w')"
  shows "bound_transition proxy (serial_request p) t" "int (length (transition_tokens t)) = count"
    and "authenticate_round digest snapshot p = Inr ()" "count \<in> set COMMIT_COUNTS"
proof -
  let ?branch = "if requested_commit_count (serial_request p) = None
        then (serial_request p)\<lparr>requested_commit_count := Some count\<rparr> else serial_request p"
  have auth: "authenticate_round digest snapshot p = Inr ()" "count \<in> set COMMIT_COUNTS"
    and width: "requested_commit_count (serial_request p) \<in> {None, Some count}"
    and call: "call_private_worker proxy rpc ?branch w = (Inr t, w')"
    using assms by (auto simp: execute_serial_branch_def Let_def action_simps)
  show "authenticate_round digest snapshot p = Inr ()" "count \<in> set COMMIT_COUNTS" by (rule auth)+
  have "bound_transition proxy ?branch t" by (rule call_private_worker_Inr(1) [OF call])
  then show "bound_transition proxy (serial_request p) t" by (simp add: bound_transition_def split: if_splits)
  show "int (length (transition_tokens t)) = count"
    using call_private_worker_Inr(3) [OF call, of count] width by (auto split: if_splits)
qed

lemma new_executor_proxy_Inr:
  assumes "new_executor_proxy runtime family td cd fs same own base value = Inr proxy"
  obtains verified where "verify_capability td cd fs value = Inr verified"
    "proxy_family proxy = family (body verified)"
    "proxy_runtime_sha256 proxy = own" "own = artifact_sha256 (runtime (body verified))"
  using assms that
  by (auto simp: new_executor_proxy_def Let_def split: sum.splits option.splits if_splits)

lemma verified_families:
  assumes "verify_capability td cd fs value = Inr verified"
  shows "cap_candidate_family (body verified) \<noteq> cap_serial_family (body verified)"
    "artifact_sha256 (release_runtime (body verified)) \<noteq> artifact_sha256 (serial_oracle_runtime (body verified))"
proof -
  obtain s where "seal_capability td cd fs (body value) = Inr s" "s = verified"
    using assms by (auto simp: verify_capability_def result_simps split: if_splits)
  then have "capability_contract_check (body verified) = Inr ()" using seal_capability_body by metis
  then show "cap_candidate_family (body verified) \<noteq> cap_serial_family (body verified)"
    "artifact_sha256 (release_runtime (body verified)) \<noteq> artifact_sha256 (serial_oracle_runtime (body verified))"
    using contract_check_Inr(1,2) by blast+
qed

subsection \<open>A concrete capability\<close>

definition demo_sha :: "char \<Rightarrow> string" where "demo_sha c = replicate 63 CHR ''0'' @ [c]"

definition member :: "char \<Rightarrow> char \<Rightarrow> artifact" where
  "member name c = \<lparr>artifact_path = ''/r/files/'' @ [name], artifact_sha256 = demo_sha c\<rparr>"

definition demo_members :: "(char \<times> char) list" where
  "demo_members = zip ''abcdefgh'' ''12345678''"

definition demo_manifest :: release_manifest where
  "demo_manifest = \<lparr>manifest_schema = RELEASE_ARTIFACT_SCHEMA, artifact_id = ''id'', artifact_kind = ''release'',
     semantic_contract = ''contract'', semantic_source_sha256 = demo_sha CHR ''0'',
     source_manifest_sha256 = demo_sha CHR ''9'', tree_sha256 = demo_sha CHR ''0'',
     manifest_files = map (\<lambda>(n, c). \<lparr>hot_path = True, file_mode = ''0600'', file_path = [n],
        file_sha256 = demo_sha c\<rparr>) demo_members\<rparr>"

definition plain_file :: "char \<Rightarrow> stored_file" where
  "plain_file c = \<lparr>owner_controlled = True, stable_while_read = True, stored_sha256 = demo_sha c,
     stored_manifest = None\<rparr>"

definition demo_files :: file_system where
  "demo_files = map_of ((''/r/manifest'', (plain_file CHR ''a'')\<lparr>stored_manifest := Some demo_manifest\<rparr>)
     # (''/source'', plain_file CHR ''9'') # (''/model'', plain_file CHR ''b'')
     # map (\<lambda>(n, c). (''/r/files/'' @ [n], plain_file c)) demo_members)"

definition demo_capability :: capability where
  "demo_capability = \<lparr>cap_schema = CAPABILITY_SCHEMA,
     semantic_source = \<lparr>artifact_path = ''/source'', artifact_sha256 = demo_sha CHR ''9''\<rparr>,
     release_artifact_manifest = \<lparr>artifact_path = ''/r/manifest'', artifact_sha256 = demo_sha CHR ''a''\<rparr>,
     controller_runtime = member CHR ''a'' CHR ''1'', enforcement_runtime = member CHR ''b'' CHR ''2'',
     driver_runtime = member CHR ''c'' CHR ''3'',
     model_output_fingerprint_runtime = member CHR ''d'' CHR ''4'',
     coordinator_runtime = member CHR ''e'' CHR ''5'', scheduler_runtime = member CHR ''f'' CHR ''6'',
     release_runtime = member CHR ''g'' CHR ''7'', serial_oracle_runtime = member CHR ''h'' CHR ''8'',
     cap_model = \<lparr>artifact_path = ''/model'', artifact_sha256 = demo_sha CHR ''b''\<rparr>,
     hardware_runtime_contract_sha256 = demo_sha CHR ''0'', compiler_contract_sha256 = demo_sha CHR ''0'',
     cap_candidate_family = ''optimized'', cap_serial_family = ''serial'', commit_counts = COMMIT_COUNTS,
     runtime_invariants = RUNTIME_INVARIANTS, hook_boundaries = HOOK_BOUNDARIES,
     cap_classification = RUNTIME_CLASSIFICATION, cap_mechanism = SERIAL_MECHANISM\<rparr>"

definition demo_sealed :: "capability sealed" where
  "demo_sealed = \<lparr>body = demo_capability, self_sha256 = demo_sha CHR ''0''\<rparr>"

lemma demo_parts:
  "authenticate_artifacts (\<lambda>_. demo_sha CHR ''0'') demo_files demo_capability = Inr (demo_capability, demo_manifest)"
  by code_simp

lemma demo_rest:
  "check_all (\<lambda>runtime. require_release_member demo_files runtime
                          (release_artifact_manifest demo_capability) demo_manifest)
              (runtime_artifacts demo_capability) = Inr ()"
  "distinct (map artifact_path (runtime_artifacts demo_capability))"
  by code_simp+

lemma demo_sha_ok: "is_sha256 (demo_sha CHR ''0'')"
  by code_simp

lemma demo_verified:
  "verify_capability (\<lambda>_. demo_sha CHR ''0'') (\<lambda>_. demo_sha CHR ''0'') demo_files demo_sealed = Inr demo_sealed"
proof -
  have contract: "capability_contract_check demo_capability = Inr ()"
    by (simp add: capability_contract_check_def demo_capability_def member_def result_simps
        sha256_value_def demo_sha_ok identifier_value_def is_space_def) (simp add: demo_sha_def)
  show ?thesis
    by (simp add: verify_capability_def seal_capability_def demo_sealed_def sha256_value_def demo_sha_ok demo_parts demo_rest
        contract result_simps)
qed

definition demo_identity :: call_identity where
  "demo_identity = \<lparr>call_session = ''session'', call_request = ''request'', call_round = 0,
     call_canonical_handle = ''handle'', call_canonical_sha256 = demo_sha CHR ''0''\<rparr>"

definition demo_request :: "branch_role \<Rightarrow> string \<Rightarrow> int option \<Rightarrow> unit branch_request" where
  "demo_request role handle width = \<lparr>request_schema = PRIVATE_WORKER_PROTOCOL_SCHEMA, request_role = role,
     request_identity = demo_identity, request_branch_handle = handle,
     request_payload_sha256 = demo_sha CHR ''1'', request_nonce_sha256 = demo_sha CHR ''2'',
     requested_commit_count = width, worker_payload = Some ()\<rparr>"

definition demo_prepared :: "unit prepared_round" where
  "demo_prepared = \<lparr>prepared_identity = demo_identity,
     candidate_request = demo_request CandidateRole ''candidate'' None,
     serial_request = demo_request SerialRole ''serial'' None\<rparr>"

definition demo_rpc :: "(unit, unit, unit) worker_rpc" where
  "demo_rpc request w = (RpcList [Some \<lparr>result_schema = PRIVATE_WORKER_PROTOCOL_SCHEMA,
     result_role = request_role request, result_identity = request_identity request,
     result_branch_handle = request_branch_handle request,
     result_payload_sha256 = request_payload_sha256 request,
     result_nonce_sha256 = request_nonce_sha256 request,
     result_family = (if request_role request = CandidateRole then ''optimized'' else ''serial''),
     result_token_ids = [7], result_state = demo_after, result_model_output = Some ()\<rparr>], w)"

definition demo_taken :: canonical_snapshot where
  "demo_taken = \<lparr>snapshot_handle = ''handle'', snapshot_state = demo_before\<rparr>"

definition demo_branch_transition :: "string \<Rightarrow> string \<Rightarrow> unit option private_transition" where
  "demo_branch_transition handle family = \<lparr>transition_handle = handle, implementation_family = family,
     transition_tokens = [7], transition_state = demo_after, model_output = Some ()\<rparr>"

definition demo_base_executor :: base_executor where
  "demo_base_executor = \<lparr>base_is_proxy = False, base_has_rpc = True\<rparr>"

definition demo_proxy :: "char \<Rightarrow> string \<Rightarrow> executor_proxy" where
  "demo_proxy c family = \<lparr>proxy_runtime_sha256 = demo_sha c, proxy_family = family\<rparr>"

lemma demo_sealed_fields:
  "artifact_sha256 (release_runtime (body demo_sealed)) = demo_sha CHR ''7''"
  "artifact_sha256 (serial_oracle_runtime (body demo_sealed)) = demo_sha CHR ''8''"
  "cap_candidate_family (body demo_sealed) = ''optimized''" "cap_serial_family (body demo_sealed) = ''serial''"
  by (simp_all add: demo_sealed_def demo_capability_def member_def)

lemma demo_executors:
  "new_candidate_executor (\<lambda>_. demo_sha CHR ''0'') (\<lambda>_. demo_sha CHR ''0'') demo_files (\<lambda>_. Some True)
     (demo_sha CHR ''7'') demo_base_executor demo_sealed = Inr (demo_proxy CHR ''7'' ''optimized'')"
  "new_serial_executor (\<lambda>_. demo_sha CHR ''0'') (\<lambda>_. demo_sha CHR ''0'') demo_files (\<lambda>_. Some True)
     (demo_sha CHR ''8'') demo_base_executor demo_sealed = Inr (demo_proxy CHR ''8'' ''serial'')"
  by (simp_all add: new_candidate_executor_def new_serial_executor_def new_executor_proxy_def demo_verified
      demo_base_executor_def demo_proxy_def demo_sealed_fields Let_def)

lemma demo_wire:
  "wire_sha256 (demo_sha CHR ''0'') = Inr ()" "wire_sha256 (demo_sha CHR ''1'') = Inr ()"
  "wire_sha256 (demo_sha CHR ''2'') = Inr ()" "identity_check demo_identity = Inr ()"
  by code_simp+

lemma demo_requests:
  "set_option width \<subseteq> set COMMIT_COUNTS \<Longrightarrow> handle \<in> {''candidate'', ''serial''} \<Longrightarrow>
     branch_request_check role (demo_request role handle width) = Inr ()"
  by (auto simp: branch_request_check_def demo_request_def demo_wire wire_commit_count_def wire_identifier_def
      split: option.splits)

lemma demo_authentic: "authenticate_round (\<lambda>_. demo_sha CHR ''0'') demo_taken demo_prepared = Inr ()"
proof -
  have c: "branch_request_check CandidateRole (demo_request CandidateRole ''candidate'' None) = Inr ()"
    and s: "branch_request_check SerialRole (demo_request SerialRole ''serial'' None) = Inr ()"
    by (simp_all add: demo_requests)
  have "prepared_round_check ''handle'' (demo_sha CHR ''0'') demo_prepared = Inr ()"
    using c s by (simp add: prepared_round_check_def demo_prepared_def demo_wire)
      (simp add: demo_request_def demo_identity_def)
  then show ?thesis
    by (simp add: authenticate_round_def snapshot_sha256_def demo_taken_def)
qed

lemma demo_private_executions:
  "execute_candidate_branch (demo_proxy CHR ''7'' ''optimized'') (\<lambda>_. demo_sha CHR ''0'') demo_rpc demo_taken
     demo_prepared None () = (Inr (demo_branch_transition ''candidate'' ''optimized''), ())"
  "execute_serial_branch (demo_proxy CHR ''8'' ''serial'') (\<lambda>_. demo_sha CHR ''0'') demo_rpc demo_taken
     demo_prepared 1 () = (Inr (demo_branch_transition ''serial'' ''serial''), ())"
proof -
  have call: "call_private_worker (demo_proxy c family) demo_rpc (demo_request role handle width) ()
      = (Inr (demo_branch_transition handle family), ())"
    if "family = (if role = CandidateRole then ''optimized'' else ''serial'')" "width \<in> {None, Some 1}"
      "handle \<in> {''candidate'', ''serial''}" for c family role handle width
  proof -
    have "branch_request_check role (demo_request role handle width) = Inr ()"
      using that by (intro demo_requests) (auto simp: COMMIT_COUNTS_def)
    moreover have "wire_identifier family = Inr ()" using that(1) by (simp add: wire_identifier_def)
    moreover have "normalize_state demo_after = Inr demo_after" by simp
    ultimately show ?thesis
      using that by (auto simp: call_private_worker_def sbind_def demo_rpc_def worker_result_check_def
          demo_proxy_def demo_branch_transition_def demo_request_def wire_token_ids_def)
  qed
  show "execute_candidate_branch (demo_proxy CHR ''7'' ''optimized'') (\<lambda>_. demo_sha CHR ''0'') demo_rpc demo_taken
     demo_prepared None () = (Inr (demo_branch_transition ''candidate'' ''optimized''), ())"
    using call [of "''optimized''" CandidateRole None "''candidate''"]
    by (simp add: execute_candidate_branch_def Let_def sbind_def assert_that_def demo_authentic)
       (simp add: demo_prepared_def)
  have serial: "serial_request demo_prepared = demo_request SerialRole ''serial'' None"
    "requested_commit_count (demo_request SerialRole ''serial'' None) = None"
    "(demo_request SerialRole ''serial'' None)\<lparr>requested_commit_count := Some 1\<rparr>
       = demo_request SerialRole ''serial'' (Some 1)"
    by (simp_all add: demo_prepared_def demo_request_def)
  show "execute_serial_branch (demo_proxy CHR ''8'' ''serial'') (\<lambda>_. demo_sha CHR ''0'') demo_rpc demo_taken
     demo_prepared 1 () = (Inr (demo_branch_transition ''serial'' ''serial''), ())"
    using call [of "''serial''" SerialRole "Some 1" "''serial''"]
    by (simp add: execute_serial_branch_def Let_def sbind_def assert_that_def demo_authentic COMMIT_COUNTS_def serial)
qed

subsection \<open>Properties\<close>

text \<open>
  C29: Whatever the worker does, a candidate and a serial execution that return for the same
  prepared round, through proxies that one capability authenticated, are two different private
  branches of the same canonical snapshot: their handles differ, their implementation
  families differ and so do the two runtime files, both states are normal, and the
  serial one has exactly the width that was asked for (the candidate too when one was given).
\<close>

theorem private_executions_are_bound:
  assumes proxies: "new_candidate_executor td cd fs same own base value = Inr candidate_proxy"
      "new_serial_executor td cd fs same' own' base' value = Inr serial_proxy"
    and candidate: "execute_candidate_branch candidate_proxy digest rpc snapshot p k w = (Inr t, w1)"
    and serial: "execute_serial_branch serial_proxy digest rpc snapshot p n w1 = (Inr t', w2)"
  shows "transition_handle t \<noteq> transition_handle t'
    \<and> implementation_family t \<noteq> implementation_family t'
    \<and> proxy_runtime_sha256 candidate_proxy \<noteq> proxy_runtime_sha256 serial_proxy
    \<and> normal_state (transition_state t) \<and> normal_state (transition_state t')
    \<and> n \<in> set COMMIT_COUNTS \<and> int (length (transition_tokens t')) = n
    \<and> (k \<noteq> None \<longrightarrow> k = Some (int (length (transition_tokens t))))
    \<and> call_canonical_handle (prepared_identity p) = snapshot_handle snapshot
    \<and> call_canonical_sha256 (prepared_identity p) = digest (snapshot_state snapshot)"
proof -
  note c = execute_candidate_branch_Inr [OF candidate] and s = execute_serial_branch_Inr [OF serial]
  note round = prepared_round_Inr [OF authenticate_round_Inr(2) [OF c(4)]]
  obtain verified where v: "verify_capability td cd fs value = Inr verified"
    and cp: "proxy_family candidate_proxy = cap_candidate_family (body verified)"
      "proxy_runtime_sha256 candidate_proxy = artifact_sha256 (release_runtime (body verified))"
    using new_executor_proxy_Inr [OF proxies(1) [unfolded new_candidate_executor_def]] by metis
  obtain verified' where v': "verify_capability td cd fs value = Inr verified'"
    and sp: "proxy_family serial_proxy = cap_serial_family (body verified')"
      "proxy_runtime_sha256 serial_proxy = artifact_sha256 (serial_oracle_runtime (body verified'))"
    using new_executor_proxy_Inr [OF proxies(2) [unfolded new_serial_executor_def]] by metis
  have "verified' = verified" using v v' by simp
  then show ?thesis
    using c(1,3) s(1,2,4) round(1,5,6) verified_families [OF v] cp sp
    by (auto simp: bound_transition_def)
qed

theorem private_executions_are_bound_witness:
  "transition_handle (demo_branch_transition ''candidate'' ''optimized'')
     \<noteq> transition_handle (demo_branch_transition ''serial'' ''serial'')
   \<and> length (transition_tokens (demo_branch_transition ''serial'' ''serial'')) = 1"
  using private_executions_are_bound [OF demo_executors demo_private_executions] by simp

end
