(* ===== verification/Grammar_Roots.thy ===== *)
theory Grammar_Roots
  imports Prelude
begin

section \<open>Structured-output grammar roots\<close>

text \<open>
  Model of \<open>src/qwen_r9700_lab/live_commit_vllm_grammar_roots.py\<close>.  A matcher is a native
  object: it is known by its identity (a number), its content \<open>'g\<close> is opaque, and what its
  methods do is a parameter (\<open>matcher_methods\<close>), a method that raises answering \<open>None\<close>.
  The request's structured-output object (\<open>None\<close> when the request has none), the matchers,
  what \<open>canonical_root_id\<close> answers and the bank's checkpoints are the state.  The object's
  \<open>grammar\<close> is \<open>None\<close> when it lacks one of the matcher's methods.
\<close>

record grammar_checkpoint =
  accepted_token_ids :: "int list"
  reasoning_ended :: "bool option"
  reasoning_end_token_index :: "int option"
  terminated :: bool

datatype grammar_error =
    NoStructuredOutput
  | GrammarOmitsMethod
  | StructuredOutputMissing
  | ProcessedCountInvalid
  | NotTheActiveRoot
  | InvalidToken
  | ProcessedMoreThanOutput
  | TerminationInvalid
  | ReasoningEndInvalid
  | ReasoningEndOutside
  | ReplayRejected
  | ReplayCountDiffers
  | ReplayTerminationDiffers
  | GrammarRequestIdInvalid
  | GrammarRootIdsInvalid
  | GrammarRootIdsAlias
  | CanonicalLookupFailed
  | CanonicalUnknown
  | ConstructionFailed
  | GrammarRootsAlias
  | PrivateTopologyDiffers
  | PrivateRootInvalid
  | ComparisonRootAbsent
  | GrammarStateDiffers
  | CanonicalChanged
  | SelectedRootAbsent
  | MatcherRaised
  | GrammarKeyError
  | BodyRaised string

record 'g matcher_methods =
  matcher_reset :: "'g \<Rightarrow> bool \<times> 'g"
  accept_tokens :: "string \<Rightarrow> int list \<Rightarrow> 'g \<Rightarrow> bool option \<times> 'g"
  processed_tokens :: "'g \<Rightarrow> int"
  is_terminated :: "'g \<Rightarrow> bool option"

record structured_output_request =
  request_grammar :: "nat option"
  request_reasoning_ended :: "bool option"
  request_reasoning_end :: "int option"
  reasoner_cached :: bool

record 'g grammar_state =
  matchers :: "nat \<Rightarrow> 'g"
  structured_output :: "structured_output_request option"
  output_token_ids :: "int list"
  all_token_ids :: "int list"
  canonical_answer :: "string option"
  checkpoints :: "string \<Rightarrow> grammar_checkpoint option"

type_synonym ('g, 'a) grammar_op = "('g grammar_state, grammar_error, 'a) action"

definition token_ids_check :: "int list \<Rightarrow> grammar_error + int list" where
  "token_ids_check value = (if list_ex (\<lambda>t. t < 0) value then Inl InvalidToken else Inr value)"

definition active_grammar :: "'g matcher_methods \<Rightarrow> 'g grammar_state \<Rightarrow> grammar_error + nat" where
  "active_grammar ops m =
     (case structured_output m of
        None \<Rightarrow> Inl NoStructuredOutput
      | Some q \<Rightarrow>
          (case request_grammar q of
             None \<Rightarrow> Inl GrammarOmitsMethod
           | Some g \<Rightarrow>
               if processed_tokens ops (matchers m g) < 0 then Inl ProcessedCountInvalid else Inr g))"

definition capture_grammar ::
  "'g matcher_methods \<Rightarrow> nat \<Rightarrow> 'g grammar_state \<Rightarrow> grammar_error + grammar_checkpoint" where
  "capture_grammar ops g m =
     rbind (active_grammar ops m) (\<lambda>current.
     if current \<noteq> g then Inl NotTheActiveRoot else
     rbind (token_ids_check (output_token_ids m)) (\<lambda>output.
     let count = processed_tokens ops (matchers m g) in
     if int (length output) < count then Inl ProcessedMoreThanOutput else
     let accepted = (if count = 0 then [] else drop (length output - nat count) output) in
     case is_terminated ops (matchers m g) of
       None \<Rightarrow> Inl TerminationInvalid
     | Some ended \<Rightarrow>
         (case structured_output m of
            None \<Rightarrow> Inl StructuredOutputMissing
          | Some q \<Rightarrow>
              rbind (require (case request_reasoning_end q of None \<Rightarrow> True | Some e \<Rightarrow> 0 \<le> e)
                       ReasoningEndInvalid) (\<lambda>_.
              rbind (token_ids_check (all_token_ids m)) (\<lambda>all_ids.
              rbind (require (case request_reasoning_end q of None \<Rightarrow> True
                                | Some e \<Rightarrow> e < int (length all_ids)) ReasoningEndOutside) (\<lambda>_.
              Inr \<lparr>accepted_token_ids = accepted, reasoning_ended = request_reasoning_ended q,
                   reasoning_end_token_index = request_reasoning_end q, terminated = ended\<rparr>))))))"

text \<open>The methods as actions on the matcher \<open>g\<close>.\<close>

definition call_reset :: "'g matcher_methods \<Rightarrow> nat \<Rightarrow> ('g, unit) grammar_op" where
  "call_reset ops g m =
     (case matcher_reset ops (matchers m g) of
        (ok, x) \<Rightarrow> ((if ok then Inr () else Inl MatcherRaised), m\<lparr>matchers := (matchers m)(g := x)\<rparr>))"

definition call_accept :: "'g matcher_methods \<Rightarrow> string \<Rightarrow> int list \<Rightarrow> nat \<Rightarrow> ('g, bool) grammar_op" where
  "call_accept ops request tokens g m =
     (case accept_tokens ops request tokens (matchers m g) of
        (answer, x) \<Rightarrow> ((case answer of None \<Rightarrow> Inl MatcherRaised | Some b \<Rightarrow> Inr b),
                         m\<lparr>matchers := (matchers m)(g := x)\<rparr>))"

text \<open>
  \<open>_restore\<close>: the matcher is replayed first; binding it to a request without a
  structured-output object raises Python's \<open>AttributeError\<close>.
\<close>

definition restore_grammar ::
  "'g matcher_methods \<Rightarrow> string \<Rightarrow> nat \<Rightarrow> grammar_checkpoint \<Rightarrow> ('g, unit) grammar_op" where
  "restore_grammar ops request g cp =
     sbind (call_reset ops g) (\<lambda>_.
     sbind (if accepted_token_ids cp = [] then ret True
            else call_accept ops request (accepted_token_ids cp) g) (\<lambda>accepted.
     sbind (assert_that accepted ReplayRejected) (\<lambda>_.
     sbind (gets (\<lambda>m. matchers m g)) (\<lambda>x.
     sbind (assert_that (processed_tokens ops x = int (length (accepted_token_ids cp)))
              ReplayCountDiffers) (\<lambda>_.
     sbind (assert_that (is_terminated ops x = Some (terminated cp)) ReplayTerminationDiffers) (\<lambda>_.
     sbind (gets structured_output) (\<lambda>structured.
     case structured of
       None \<Rightarrow> raise StructuredOutputMissing
     | Some q \<Rightarrow>
         modify (\<lambda>m. m\<lparr>structured_output := Some (q\<lparr>request_grammar := Some g,
           request_reasoning_ended := reasoning_ended cp,
           request_reasoning_end := reasoning_end_token_index cp, reasoner_cached := False\<rparr>)\<rparr>))))))))"

subsection \<open>The bank\<close>

record grammar_bank =
  grammar_request_id :: string
  grammar_root_ids :: "string list"
  root_grammars :: "(string \<times> nat) list"

definition canonical_grammar :: "string list \<Rightarrow> 'g grammar_state \<Rightarrow> grammar_error + string" where
  "canonical_grammar ids m =
     (case canonical_answer m of
        None \<Rightarrow> Inl CanonicalLookupFailed
      | Some root \<Rightarrow> if root \<in> set ids then Inr root else Inl CanonicalUnknown)"

definition grammar_of :: "grammar_bank \<Rightarrow> string \<Rightarrow> ('g, nat) grammar_op" where
  "grammar_of bank root =
     (case map_of (root_grammars bank) root of None \<Rightarrow> raise GrammarKeyError | Some g \<Rightarrow> ret g)"

definition checkpoint_of :: "string \<Rightarrow> ('g, grammar_checkpoint) grammar_op" where
  "checkpoint_of root =
     sbind (gets (\<lambda>m. checkpoints m root)) (\<lambda>found.
     case found of None \<Rightarrow> raise GrammarKeyError | Some cp \<Rightarrow> ret cp)"

definition set_checkpoint :: "string \<Rightarrow> grammar_checkpoint \<Rightarrow> ('g, unit) grammar_op" where
  "set_checkpoint root cp = modify (\<lambda>m. m\<lparr>checkpoints := (checkpoints m)(root \<mapsto> cp)\<rparr>)"

text \<open>The loop over the root IDs in the constructor.\<close>

fun build_grammars ::
  "'g matcher_methods \<Rightarrow> (nat \<Rightarrow> 'g grammar_state \<Rightarrow> nat option \<times> 'g grammar_state) \<Rightarrow> string \<Rightarrow> grammar_checkpoint \<Rightarrow> string \<Rightarrow> nat
   \<Rightarrow> string list \<Rightarrow> (string \<times> nat) list \<Rightarrow> ('g, (string \<times> nat) list) grammar_op" where
  "build_grammars ops construct request cp canonical_id base [] known = ret known"
| "build_grammars ops construct request cp canonical_id base (root # roots) known =
     (if root = canonical_id then build_grammars ops construct request cp canonical_id base roots known
      else sbind (\<lambda>m. case construct base m of (made, m') \<Rightarrow> (Inr made, m')) (\<lambda>made.
           case made of
             None \<Rightarrow> raise ConstructionFailed
           | Some g \<Rightarrow>
               sbind (assert_that (g \<notin> snd ` set known) GrammarRootsAlias) (\<lambda>_.
               sbind (restore_grammar ops request g cp) (\<lambda>_.
               build_grammars ops construct request cp canonical_id base roots (known @ [(root, g)])))))"

definition new_grammar_bank ::
  "'g matcher_methods \<Rightarrow> (nat \<Rightarrow> 'g grammar_state \<Rightarrow> nat option \<times> 'g grammar_state) \<Rightarrow> string \<Rightarrow> string list
   \<Rightarrow> ('g, grammar_bank) grammar_op" where
  "new_grammar_bank ops construct request ids =
     sbind (assert_that (request \<noteq> []) GrammarRequestIdInvalid) (\<lambda>_.
     sbind (assert_that (length ids = 3 \<and> [] \<notin> set ids) GrammarRootIdsInvalid) (\<lambda>_.
     sbind (assert_that (card (set ids) = 3) GrammarRootIdsAlias) (\<lambda>_.
     sbind (gets (canonical_grammar ids)) (\<lambda>found.
     sbind (lift_result found) (\<lambda>canonical_id.
     sbind (gets (active_grammar ops)) (\<lambda>active.
     sbind (lift_result active) (\<lambda>base.
     sbind (gets (capture_grammar ops base)) (\<lambda>captured.
     sbind (lift_result captured) (\<lambda>cp.
     sbind (build_grammars ops construct request cp canonical_id base ids [(canonical_id, base)]) (\<lambda>grammars.
     sbind (restore_grammar ops request base cp) (\<lambda>_.
     sbind (modify (\<lambda>m. m\<lparr>checkpoints := (\<lambda>root. if root \<in> set ids then Some cp else None)\<rparr>)) (\<lambda>_.
     ret \<lparr>grammar_request_id = request, grammar_root_ids = ids, root_grammars = grammars\<rparr>))))))))))))"

definition restore_root ::
  "'g matcher_methods \<Rightarrow> grammar_bank \<Rightarrow> grammar_checkpoint \<Rightarrow> string \<Rightarrow> ('g, unit) grammar_op" where
  "restore_root ops bank cp root =
     sbind (grammar_of bank root) (\<lambda>g.
     sbind (restore_grammar ops (grammar_request_id bank) g cp) (\<lambda>_.
     set_checkpoint root cp))"

definition prepare_grammar_roots ::
  "'g matcher_methods \<Rightarrow> grammar_bank \<Rightarrow> string \<Rightarrow> string \<Rightarrow> string \<Rightarrow> ('g, unit) grammar_op" where
  "prepare_grammar_roots ops bank base candidate serial =
     sbind (gets (canonical_grammar (grammar_root_ids bank))) (\<lambda>found.
     sbind (lift_result found) (\<lambda>current.
     sbind (assert_that (\<not> (base \<noteq> current \<or> {candidate, serial} \<noteq> set (grammar_root_ids bank) - {base}
              \<or> candidate = serial)) PrivateTopologyDiffers) (\<lambda>_.
     sbind (grammar_of bank base) (\<lambda>g.
     sbind (gets (capture_grammar ops g)) (\<lambda>captured.
     sbind (lift_result captured) (\<lambda>cp.
     sbind (set_checkpoint base cp) (\<lambda>_.
     sbind (restore_root ops bank cp candidate) (\<lambda>_.
     sbind (restore_root ops bank cp serial) (\<lambda>_.
     restore_grammar ops (grammar_request_id bank) g cp)))))))))"

text \<open>\<open>activate_private\<close>: the body of the \<open>with\<close> statement is the action \<open>run\<close>.\<close>

definition activate_private ::
  "'g matcher_methods \<Rightarrow> grammar_bank \<Rightarrow> string \<Rightarrow> ('g, 'a) grammar_op \<Rightarrow> ('g, 'a) grammar_op" where
  "activate_private ops bank root run =
     sbind (gets (canonical_grammar (grammar_root_ids bank))) (\<lambda>found.
     sbind (lift_result found) (\<lambda>base.
     sbind (assert_that (\<not> (root = base \<or> root \<notin> fst ` set (root_grammars bank))) PrivateRootInvalid) (\<lambda>_.
     sbind (checkpoint_of base) (\<lambda>base_checkpoint.
     sbind (grammar_of bank root) (\<lambda>g.
     sbind (checkpoint_of root) (\<lambda>cp.
     sbind (restore_grammar ops (grammar_request_id bank) g cp) (\<lambda>_.
     sbind (attempt (sbind run (\<lambda>x.
              sbind (gets (capture_grammar ops g)) (\<lambda>captured.
              sbind (lift_result captured) (\<lambda>after.
              sbind (set_checkpoint root after) (\<lambda>_. ret x)))))) (\<lambda>outcome.
     sbind (grammar_of bank base) (\<lambda>base_grammar.
     sbind (restore_grammar ops (grammar_request_id bank) base_grammar base_checkpoint) (\<lambda>_.
     lift_result outcome))))))))))"

definition compare_grammars :: "string \<Rightarrow> string \<Rightarrow> 'g grammar_state \<Rightarrow> grammar_error + unit" where
  "compare_grammars left right m =
     (case (checkpoints m left, checkpoints m right) of
        (Some l, Some r) \<Rightarrow> require (l = r) GrammarStateDiffers
      | _ \<Rightarrow> Inl ComparisonRootAbsent)"

definition prepare_external_grammar ::
  "'g matcher_methods \<Rightarrow> grammar_bank \<Rightarrow> string \<Rightarrow> string \<Rightarrow> ('g, unit) grammar_op" where
  "prepare_external_grammar ops bank expected selected =
     sbind (gets (canonical_grammar (grammar_root_ids bank))) (\<lambda>found.
     sbind (lift_result found) (\<lambda>current.
     sbind (assert_that (current = expected) CanonicalChanged) (\<lambda>_.
     sbind (gets (\<lambda>m. (checkpoints m selected, map_of (root_grammars bank) selected))) (\<lambda>found.
     case found of
       (Some cp, Some g) \<Rightarrow> restore_grammar ops (grammar_request_id bank) g cp
     | _ \<Rightarrow> raise SelectedRootAbsent))))"

end
