(* ===== verification/Grammar_Safety.thy ===== *)
theory Grammar_Safety
  imports Grammar_Roots
begin

section \<open>Isolation and replay of the grammar roots\<close>

subsection \<open>Capture and restore\<close>

text \<open>What the request presents: the matcher it is bound to and its reasoning fields.\<close>

definition presented ::
  "'g grammar_state \<Rightarrow> (nat option \<times> bool option \<times> int option) option" where
  "presented m = map_option (\<lambda>q. (request_grammar q, request_reasoning_ended q,
     request_reasoning_end q)) (structured_output m)"

lemma presented_Some:
  "presented m = Some (h, r, e) \<longleftrightarrow> (\<exists>q. structured_output m = Some q \<and> request_grammar q = h
     \<and> request_reasoning_ended q = r \<and> request_reasoning_end q = e)"
  by (auto simp: presented_def)

lemma active_grammar_Inr:
  "active_grammar ops m = Inr g \<longleftrightarrow>
     (\<exists>q. structured_output m = Some q \<and> request_grammar q = Some g)
     \<and> 0 \<le> processed_tokens ops (matchers m g)"
  by (auto simp: active_grammar_def split: option.splits)

text \<open>What a capture that returned says of the request and of the matcher.\<close>

lemma capture_grammar_Inr:
  assumes "capture_grammar ops g m = Inr cp"
  shows "presented m = Some (Some g, reasoning_ended cp, reasoning_end_token_index cp)"
    "is_terminated ops (matchers m g) = Some (terminated cp)"
    "processed_tokens ops (matchers m g) = int (length (accepted_token_ids cp))"
    "accepted_token_ids cp
       = drop (length (output_token_ids m) - length (accepted_token_ids cp)) (output_token_ids m)"
    "length (accepted_token_ids cp) \<le> length (output_token_ids m)"
    "\<forall>t \<in> set (output_token_ids m) \<union> set (all_token_ids m). 0 \<le> t"
    "\<forall>e. reasoning_end_token_index cp = Some e \<longrightarrow> 0 \<le> e \<and> e < int (length (all_token_ids m))"
  using assms
  by (auto simp: capture_grammar_def active_grammar_Inr token_ids_check_def result_simps Let_def list_ex_iff not_less
      presented_Some split: if_splits option.splits)

lemma capture_grammar_intro:
  assumes "presented m = Some (Some g, reasoning_ended cp, reasoning_end_token_index cp)"
    "is_terminated ops (matchers m g) = Some (terminated cp)"
    "processed_tokens ops (matchers m g) = int (length (accepted_token_ids cp))"
    "accepted_token_ids cp
       = drop (length (output_token_ids m) - length (accepted_token_ids cp)) (output_token_ids m)"
    "length (accepted_token_ids cp) \<le> length (output_token_ids m)"
    "\<forall>t \<in> set (output_token_ids m) \<union> set (all_token_ids m). 0 \<le> t"
    "\<forall>e. reasoning_end_token_index cp = Some e \<longrightarrow> 0 \<le> e \<and> e < int (length (all_token_ids m))"
  shows "capture_grammar ops g m = Inr cp"
proof -
  have neg: "\<not> list_ex (\<lambda>t. t < 0) (output_token_ids m)" "\<not> list_ex (\<lambda>t. t < 0) (all_token_ids m)"
    using assms(6) unfolding list_ex_iff by (meson UnI1 UnI2 not_less)+
  have accepted: "(if int (length (accepted_token_ids cp)) = 0 then []
      else drop (length (output_token_ids m) - length (accepted_token_ids cp)) (output_token_ids m))
      = accepted_token_ids cp"
    using assms(4) by auto
  obtain q where q: "structured_output m = Some q" "request_grammar q = Some g"
    "request_reasoning_ended q = reasoning_ended cp" "request_reasoning_end q = reasoning_end_token_index cp"
    using assms(1) by (auto simp: presented_Some)
  show ?thesis
    using assms(2,3,5,7) neg accepted q
    by (cases cp) (auto simp: capture_grammar_def active_grammar_def token_ids_check_def Let_def
        split: option.splits)
qed

text \<open>The effect of a restore that returned, and what any restore leaves alone.\<close>

lemma restore_grammar_Inr:
  assumes "restore_grammar ops request g cp m = (Inr u, m')"
  shows "presented m' = Some (Some g, reasoning_ended cp, reasoning_end_token_index cp)"
    "map_option reasoner_cached (structured_output m') = Some False"
    "processed_tokens ops (matchers m' g) = int (length (accepted_token_ids cp))"
    "is_terminated ops (matchers m' g) = Some (terminated cp)"
  using assms
  by (auto simp: restore_grammar_def action_simps call_reset_def call_accept_def presented_Some
      split: prod.splits if_splits option.splits)

definition only_matcher :: "nat \<Rightarrow> 'g grammar_state \<Rightarrow> 'g grammar_state \<Rightarrow> bool" where
  "only_matcher g m m' \<longleftrightarrow>
     output_token_ids m' = output_token_ids m \<and> all_token_ids m' = all_token_ids m
     \<and> canonical_answer m' = canonical_answer m \<and> checkpoints m' = checkpoints m
     \<and> (\<forall>h. h \<noteq> g \<longrightarrow> matchers m' h = matchers m h)"

lemma restore_grammar_frame:
  "restore_grammar ops request g cp m = (r, m') \<Longrightarrow> only_matcher g m m'"
  by (auto simp: restore_grammar_def sbind_def call_reset_def call_accept_def assert_that_def only_matcher_def
      split: prod.splits if_splits option.splits sum.splits)

text \<open>The errors of a restore are its own: never the body's.\<close>

lemma restore_grammar_errors:
  "restore_grammar ops request g cp m = (Inl e, m') \<Longrightarrow>
     e \<in> {MatcherRaised, ReplayRejected, ReplayCountDiffers, ReplayTerminationDiffers,
        StructuredOutputMissing}"
  by (auto simp: restore_grammar_def sbind_def call_reset_def call_accept_def assert_that_def
      split: prod.splits if_splits option.splits sum.splits)

lemma capture_after_restore:
  assumes captured: "capture_grammar ops g m = Inr cp"
    and same: "output_token_ids a = output_token_ids m" "all_token_ids a = all_token_ids m"
    and restored: "restore_grammar ops request h cp a = (Inr (), m')"
  shows "capture_grammar ops h m' = Inr cp"
proof -
  note c = capture_grammar_Inr [OF captured] and r = restore_grammar_Inr [OF restored]
  have out: "output_token_ids m' = output_token_ids m" "all_token_ids m' = all_token_ids m"
    using restore_grammar_frame [OF restored] same by (simp_all add: only_matcher_def)
  show ?thesis
    by (rule capture_grammar_intro) (use c r out in simp_all)
qed

subsection \<open>Replay\<close>

text \<open>
  \<open>resets_to ops start\<close>: \<open>reset\<close> brings every matcher into the same state, as an automaton
  that has consumed nothing.  Then what a restore leaves in a matcher does not depend on what
  was done to it before.
\<close>

definition resets_to :: "'g matcher_methods \<Rightarrow> 'g \<Rightarrow> bool" where
  "resets_to ops start \<longleftrightarrow> (\<forall>x. matcher_reset ops x = (True, start))"

definition replayed :: "'g matcher_methods \<Rightarrow> string \<Rightarrow> 'g \<Rightarrow> grammar_checkpoint \<Rightarrow> 'g" where
  "replayed ops request start cp =
     (if accepted_token_ids cp = [] then start
      else snd (accept_tokens ops request (accepted_token_ids cp) start))"

lemma restore_grammar_replays:
  assumes "resets_to ops start" "restore_grammar ops request g cp m = (Inr u, m')"
  shows "matchers m' g = replayed ops request start cp"
  using assms
  by (auto simp: restore_grammar_def action_simps call_reset_def call_accept_def resets_to_def replayed_def
      split: prod.splits if_splits option.splits)

text \<open>The checkpoint can be replayed, and the request shows it through the matcher \<open>g\<close>.\<close>

definition replayable :: "'g matcher_methods \<Rightarrow> string \<Rightarrow> 'g \<Rightarrow> grammar_checkpoint \<Rightarrow> bool" where
  "replayable ops request start cp \<longleftrightarrow>
     (accepted_token_ids cp \<noteq> [] \<longrightarrow>
        fst (accept_tokens ops request (accepted_token_ids cp) start) = Some True)
     \<and> processed_tokens ops (replayed ops request start cp) = int (length (accepted_token_ids cp))
     \<and> is_terminated ops (replayed ops request start cp) = Some (terminated cp)"

definition shows_checkpoint ::
  "'g matcher_methods \<Rightarrow> string \<Rightarrow> 'g \<Rightarrow> nat \<Rightarrow> grammar_checkpoint \<Rightarrow> 'g grammar_state \<Rightarrow> bool" where
  "shows_checkpoint ops request start g cp m \<longleftrightarrow>
     presented m = Some (Some g, reasoning_ended cp, reasoning_end_token_index cp)
     \<and> matchers m g = replayed ops request start cp \<and> replayable ops request start cp"

lemma restore_shows_checkpoint:
  assumes law: "resets_to ops start" and ok: "restore_grammar ops request g cp m = (Inr u, m')"
  shows "shows_checkpoint ops request start g cp m'"
proof -
  have "accepted_token_ids cp \<noteq> [] \<longrightarrow>
      fst (accept_tokens ops request (accepted_token_ids cp) start) = Some True"
    using ok law
    by (auto simp: restore_grammar_def action_simps call_reset_def call_accept_def resets_to_def
        split: prod.splits if_splits option.splits)
  then show ?thesis
    using restore_grammar_Inr [OF ok] restore_grammar_replays [OF law ok]
    by (simp add: shows_checkpoint_def replayable_def)
qed

text \<open>
  A checkpoint that can be replayed is: the matcher is in the replayed state, and the only
  thing that can go wrong is that the request has no structured-output object.
\<close>

lemma restore_replayable:
  assumes law: "resets_to ops start" and cp: "replayable ops request start cp"
    and run: "restore_grammar ops request g cp m = (r, m')"
  shows "matchers m' g = replayed ops request start cp"
    and "r = (if structured_output m = None then Inl StructuredOutputMissing else Inr ())"
    and "structured_output m = None \<Longrightarrow> structured_output m' = None"
  using assms
  by (auto simp: restore_grammar_def sbind_def call_reset_def call_accept_def resets_to_def replayable_def
      replayed_def assert_that_def split: prod.splits if_splits option.splits)

lemma failed_restore_request:
  "restore_grammar ops request g cp m = (Inl e, m') \<Longrightarrow> structured_output m' = structured_output m"
  by (auto simp: restore_grammar_def sbind_def call_reset_def call_accept_def assert_that_def
      split: prod.splits if_splits option.splits sum.splits)

subsection \<open>The bank\<close>

definition grammar_bank_ok :: "grammar_bank \<Rightarrow> bool" where
  "grammar_bank_ok bank \<longleftrightarrow>
     distinct (map fst (root_grammars bank)) \<and> distinct (map snd (root_grammars bank))
     \<and> set (map fst (root_grammars bank)) = set (grammar_root_ids bank)
     \<and> card (set (grammar_root_ids bank)) = 3"

lemma distinct_grammars:
  assumes "grammar_bank_ok bank" "map_of (root_grammars bank) a = Some g" "map_of (root_grammars bank) b = Some g"
  shows "a = b"
proof -
  have "inj_on snd (set (root_grammars bank))" using assms(1) by (simp add: grammar_bank_ok_def distinct_map)
  moreover have "(a, g) \<in> set (root_grammars bank)" "(b, g) \<in> set (root_grammars bank)"
    using assms(2,3) by (auto dest: map_of_SomeD)
  ultimately show ?thesis unfolding inj_on_def by fastforce
qed

lemma build_grammars_Inr:
  assumes "build_grammars ops construct request cp cid base roots known m = (Inr grams, m')"
    and "distinct (map fst known)" "distinct (map snd known)" "distinct roots"
    and "cid \<in> fst ` set known" "set roots \<inter> fst ` set known \<subseteq> {cid}"
  shows "distinct (map fst grams) \<and> distinct (map snd grams)
    \<and> fst ` set grams = fst ` set known \<union> set roots"
  using assms
proof (induction roots arbitrary: known m)
  case (Cons root roots)
  show ?case
  proof (cases "root = cid")
    case True
    then show ?thesis using Cons.IH [of known m] Cons.prems by auto
  next
    case False
    then obtain g a where g: "g \<notin> snd ` set known"
      and rest: "build_grammars ops construct request cp cid base roots (known @ [(root, g)]) a = (Inr grams, m')"
      using Cons.prems(1) by (auto simp: sbind_Inr_iff assert_that_Inr_iff split: option.splits prod.splits)
    have "root \<notin> fst ` set known" using Cons.prems(5,6) False by auto
    then have "distinct (map fst grams) \<and> distinct (map snd grams)
        \<and> fst ` set grams = fst ` set (known @ [(root, g)]) \<union> set roots"
      using g Cons.prems by (intro Cons.IH [OF rest]) auto
    then show ?thesis by auto
  qed
qed simp

lemma new_grammar_bank_ok:
  assumes "new_grammar_bank ops construct request ids m = (Inr bank, m')"
  shows "grammar_bank_ok bank"
proof -
  obtain cid base cp grams a b where
    ids: "card (set ids) = 3" "length ids = 3" and cid: "cid \<in> set ids"
    and run: "build_grammars ops construct request cp cid base ids [(cid, base)] a = (Inr grams, b)"
    and bank: "bank = \<lparr>grammar_request_id = request, grammar_root_ids = ids, root_grammars = grams\<rparr>"
    using assms
    by (auto simp: new_grammar_bank_def action_simps canonical_grammar_def split: option.splits if_splits)
  have "distinct ids" using ids by (simp add: card_distinct)
  then have "distinct (map fst grams) \<and> distinct (map snd grams)
      \<and> fst ` set grams = fst ` set [(cid, base)] \<union> set ids"
    by (intro build_grammars_Inr [OF run]) auto
  then show ?thesis using cid ids by (auto simp: grammar_bank_ok_def bank)
qed

subsection \<open>Preparing and activating\<close>

lemma restore_root_Inr:
  assumes "restore_root ops bank cp root m = (Inr u, m')"
  obtains g a where "map_of (root_grammars bank) root = Some g"
    "restore_grammar ops (grammar_request_id bank) g cp m = (Inr (), a)"
    "m' = a\<lparr>checkpoints := (checkpoints a)(root \<mapsto> cp)\<rparr>"
  using assms
  by (auto simp: restore_root_def grammar_of_def set_checkpoint_def action_simps split: option.splits)

lemma prepare_grammar_roots_Inr:
  assumes run: "prepare_grammar_roots ops bank base candidate serial m = (Inr (), m')"
    and ok: "grammar_bank_ok bank" and law: "resets_to ops start"
  shows "\<exists>cp g gc gk. capture_grammar ops g m = Inr cp
    \<and> map_of (root_grammars bank) base = Some g \<and> map_of (root_grammars bank) candidate = Some gc
    \<and> map_of (root_grammars bank) serial = Some gk
    \<and> checkpoints m' base = Some cp \<and> checkpoints m' candidate = Some cp \<and> checkpoints m' serial = Some cp
    \<and> shows_checkpoint ops (grammar_request_id bank) start g cp m'
    \<and> matchers m' gc = matchers m' g \<and> matchers m' gk = matchers m' g
    \<and> capture_grammar ops g m' = Inr cp"
proof -
  let ?rid = "grammar_request_id bank"
  obtain g cp a b where top: "{candidate, serial} = set (grammar_root_ids bank) - {base}" "candidate \<noteq> serial"
    and g: "map_of (root_grammars bank) base = Some g" and cap: "capture_grammar ops g m = Inr cp"
    and c: "restore_root ops bank cp candidate (m\<lparr>checkpoints := (checkpoints m)(base \<mapsto> cp)\<rparr>) = (Inr (), a)"
    and k: "restore_root ops bank cp serial a = (Inr (), b)"
    and last: "restore_grammar ops ?rid g cp b = (Inr (), m')"
    using run
    by (auto simp: prepare_grammar_roots_def grammar_of_def set_checkpoint_def action_simps split: option.splits)
  obtain gc a' where gc: "map_of (root_grammars bank) candidate = Some gc"
    "restore_grammar ops ?rid gc cp (m\<lparr>checkpoints := (checkpoints m)(base \<mapsto> cp)\<rparr>) = (Inr (), a')"
    "a = a'\<lparr>checkpoints := (checkpoints a')(candidate \<mapsto> cp)\<rparr>" by (rule restore_root_Inr [OF c])
  obtain gk b' where gk: "map_of (root_grammars bank) serial = Some gk"
    "restore_grammar ops ?rid gk cp a = (Inr (), b')"
    "b = b'\<lparr>checkpoints := (checkpoints b')(serial \<mapsto> cp)\<rparr>" by (rule restore_root_Inr [OF k])
  have ne: "base \<noteq> candidate" "base \<noteq> serial" using top(1) by auto
  have apart: "gc \<noteq> g" "gk \<noteq> g" "gc \<noteq> gk"
    using distinct_grammars [OF ok] g gc(1) gk(1) ne top(2) by metis+
  note f = restore_grammar_frame [OF gc(2)] restore_grammar_frame [OF gk(2)] restore_grammar_frame [OF last]
  have "matchers m' g = replayed ops ?rid start cp" "matchers b' gk = replayed ops ?rid start cp"
    "matchers a' gc = replayed ops ?rid start cp"
    using restore_grammar_replays [OF law last] restore_grammar_replays [OF law gk(2)]
      restore_grammar_replays [OF law gc(2)] by simp_all
  then have "matchers m' gc = matchers m' g" "matchers m' gk = matchers m' g"
    using f apart gc(3) gk(3) by (simp_all add: only_matcher_def)
  moreover have "checkpoints m' base = Some cp" "checkpoints m' candidate = Some cp" "checkpoints m' serial = Some cp"
    using f ne top(2) gc(3) gk(3) by (simp_all add: only_matcher_def)
  moreover have "capture_grammar ops g m' = Inr cp"
    by (rule capture_after_restore [OF cap _ _ last]) (use f gc(3) gk(3) in \<open>simp_all add: only_matcher_def\<close>)
  ultimately show ?thesis
    using cap g gc(1) gk(1) restore_shows_checkpoint [OF law last] by blast
qed

text \<open>
  The three ways an activation ends: before it touched anything, with the private root's
  replay failing, or with the replay of the canonical root.
\<close>

lemma activate_private_cases:
  assumes run: "activate_private ops bank root action m = (r, m')"
    and base: "canonical_grammar (grammar_root_ids bank) m = Inr base" "map_of (root_grammars bank) base = Some g"
      "checkpoints m base = Some cp"
  obtains (untouched) "m' = m"
    | (refused) p cq e where "root \<noteq> base" "map_of (root_grammars bank) root = Some p"
        "restore_grammar ops (grammar_request_id bank) p cq m = (Inl e, m')"
    | (finished) outcome a d where
        "restore_grammar ops (grammar_request_id bank) g cp a = (d, m')"
        "r = (case d of Inl e \<Rightarrow> Inl e | Inr _ \<Rightarrow> outcome)"
  using run base
  by (auto simp: activate_private_def sbind_def assert_that_def checkpoint_of_def grammar_of_def attempt_def
      split: prod.splits sum.splits if_splits option.splits)

lemma activate_private_keeps_canonical:
  assumes run: "activate_private ops bank root action m = (r, m')"
    and ok: "grammar_bank_ok bank" and law: "resets_to ops start"
    and base: "canonical_grammar (grammar_root_ids bank) m = Inr base" "map_of (root_grammars bank) base = Some g"
      "checkpoints m base = Some cp"
    and shown: "shows_checkpoint ops (grammar_request_id bank) start g cp m"
  shows "matchers m' g = matchers m g
    \<and> (presented m' = presented m \<or> structured_output m' = None \<and> r = Inl StructuredOutputMissing)"
proof -
  let ?rid = "grammar_request_id bank"
  have replay: "replayable ops ?rid start cp" using shown by (simp add: shows_checkpoint_def)
  show ?thesis
  proof (rule activate_private_cases [OF run base], goal_cases)
    case (2 p cq e)
    have "p \<noteq> g" using distinct_grammars [OF ok] base(2) 2(1,2) by metis
    then show ?case
      using failed_restore_request [OF 2(3)] restore_grammar_frame [OF 2(3)]
      by (simp add: presented_def only_matcher_def)
  next
    case (3 outcome a d)
    note f = restore_replayable [OF law replay 3(1)]
    show ?case
    proof (cases "structured_output a = None")
      case True
      then show ?thesis using f 3(2) shown by (simp add: shows_checkpoint_def)
    next
      case False
      then have "presented m' = Some (Some g, reasoning_ended cp, reasoning_end_token_index cp)"
        using restore_grammar_Inr(1) [of ops ?rid g cp a "()" m'] 3(1) f(2) by simp
      then show ?thesis using f(1) shown by (simp add: shows_checkpoint_def)
    qed
  qed simp
qed

end
