(* ===== verification/Grammar_Properties.thy ===== *)
theory Grammar_Properties
  imports Grammar_Safety
begin

section \<open>Properties of the grammar roots\<close>

subsection \<open>A concrete automaton\<close>

text \<open>A matcher that accepts every token, remembers them and never terminates.\<close>

definition demo_methods :: "int list matcher_methods" where
  "demo_methods = \<lparr>matcher_reset = (\<lambda>_. (True, [])), accept_tokens = (\<lambda>_ ts x. (Some True, x @ ts)),
     processed_tokens = (\<lambda>x. int (length x)), is_terminated = (\<lambda>_. Some False)\<rparr>"

definition demo_request_state :: "int list grammar_state" where
  "demo_request_state = \<lparr>matchers = (\<lambda>g. if g = 0 then [5, 6] else []),
     structured_output = Some \<lparr>request_grammar = Some 0, request_reasoning_ended = Some True,
       request_reasoning_end = Some 3, reasoner_cached = True\<rparr>,
     output_token_ids = [4, 5, 6], all_token_ids = [1, 2, 4, 5, 6], canonical_answer = Some ''a'',
     checkpoints = (\<lambda>_. None)\<rparr>"

definition demo_bank :: grammar_bank where
  "demo_bank = \<lparr>grammar_request_id = ''request'', grammar_root_ids = [''a'', ''b'', ''c''],
     root_grammars = [(''a'', 0), (''b'', 1), (''c'', 2)]\<rparr>"

definition demo_checkpoint :: grammar_checkpoint where
  "demo_checkpoint = \<lparr>accepted_token_ids = [5, 6], reasoning_ended = Some True,
     reasoning_end_token_index = Some 3, terminated = False\<rparr>"

definition demo_prepared_state :: "int list grammar_state" where
  "demo_prepared_state = snd (prepare_grammar_roots demo_methods demo_bank ''a'' ''b'' ''c'' demo_request_state)"

lemma demo_bank_ok: "grammar_bank_ok demo_bank"
  by (simp add: grammar_bank_ok_def demo_bank_def)

lemma demo_law: "resets_to demo_methods []"
  by (simp add: resets_to_def demo_methods_def)

lemmas grammar_evaluation =
  restore_root_def restore_grammar_def call_reset_def call_accept_def set_checkpoint_def grammar_of_def
  checkpoint_of_def canonical_grammar_def capture_grammar_def active_grammar_def token_ids_check_def
  demo_methods_def demo_bank_def demo_request_state_def sbind_def assert_that_def Let_def

lemma demo_prepares:
  "prepare_grammar_roots demo_methods demo_bank ''a'' ''b'' ''c'' demo_request_state = (Inr (), demo_prepared_state)"
proof -
  have "fst (prepare_grammar_roots demo_methods demo_bank ''a'' ''b'' ''c'' demo_request_state) = Inr ()"
    by (auto simp: prepare_grammar_roots_def grammar_evaluation)
  then show ?thesis by (simp add: demo_prepared_state_def prod_eq_iff)
qed

text \<open>
  An execution that advances the matchers, unbinds the request and raises, and one that takes
  the structured-output object away.
\<close>

definition demo_intrusion :: "(int list, unit) grammar_op" where
  "demo_intrusion m = (Inl (BodyRaised ''error''), m\<lparr>matchers := (\<lambda>_. [9]), structured_output :=
     Some \<lparr>request_grammar = None, request_reasoning_ended = None, request_reasoning_end = Some 7,
           reasoner_cached = True\<rparr>\<rparr>)"

definition demo_removal :: "(int list, unit) grammar_op" where
  "demo_removal m = (Inl (BodyRaised ''error''), m\<lparr>matchers := (\<lambda>_. [9]), structured_output := None\<rparr>)"

subsection \<open>The properties\<close>

text \<open>
  C31: Take a bank of three roots with three different matchers, as the constructor makes it.
  Let resetting a matcher forget everything it consumed, and let the request show the
  canonical root's checkpoint (as it does after the roots were prepared): it is bound to the
  canonical matcher, has the checkpoint's reasoning fields, the matcher is in the state that
  replaying the checkpoint gives, and the checkpoint can be replayed.  Then running any code
  inside \<open>activate_private\<close>, whatever it does to the matchers and the request and whether it
  returns or raises, leaves the canonical matcher in the state it had, and either leaves the
  request bound to that matcher with the reasoning fields it had, or the code has taken the
  request's structured-output object away and the activation raises that it is missing.  The
  same is so when the private root cannot be replayed at all.
\<close>

theorem private_activation_keeps_the_canonical_grammar:
  assumes "activate_private ops bank root action m = (r, m')"
    and "grammar_bank_ok bank" "resets_to ops start"
    and "canonical_grammar (grammar_root_ids bank) m = Inr base" "map_of (root_grammars bank) base = Some g"
      "checkpoints m base = Some cp" "shows_checkpoint ops (grammar_request_id bank) start g cp m"
  shows "matchers m' g = matchers m g
    \<and> ((\<exists>q q'. structured_output m = Some q \<and> structured_output m' = Some q'
          \<and> request_grammar q = Some g \<and> request_grammar q' = Some g
          \<and> request_reasoning_ended q' = request_reasoning_ended q
          \<and> request_reasoning_end q' = request_reasoning_end q)
       \<or> structured_output m' = None \<and> r = Inl StructuredOutputMissing)"
proof -
  have "presented m = Some (Some g, reasoning_ended cp, reasoning_end_token_index cp)"
    using assms(7) by (simp add: shows_checkpoint_def)
  then show ?thesis
    using activate_private_keeps_canonical [OF assms] unfolding presented_def by auto
qed

text \<open>
  Preparing the private grammar roots gives all three roots one checkpoint, which is
  exactly what the canonical matcher had accepted; the two private matchers are replayed into
  the automaton state of the canonical one, the request is left on the canonical matcher and
  capturing it again yields the same checkpoint.
\<close>

theorem prepared_grammars_agree:
  assumes "prepare_grammar_roots ops bank base candidate serial m = (Inr (), m')"
    and "grammar_bank_ok bank" "resets_to ops start"
  shows "\<exists>cp g gc gk. capture_grammar ops g m = Inr cp \<and> capture_grammar ops g m' = Inr cp
    \<and> map_of (root_grammars bank) base = Some g \<and> map_of (root_grammars bank) candidate = Some gc
    \<and> map_of (root_grammars bank) serial = Some gk
    \<and> matchers m' gc = matchers m' g \<and> matchers m' gk = matchers m' g
    \<and> map_option request_grammar (structured_output m') = Some (Some g)
    \<and> compare_grammars base candidate m' = Inr () \<and> compare_grammars candidate serial m' = Inr ()"
  using prepare_grammar_roots_Inr [OF assms]
  by (elim exE conjE) (auto simp: compare_grammars_def shows_checkpoint_def presented_Some)

theorem prepared_grammars_agree_witness:
  "\<exists>cp g gc gk. capture_grammar demo_methods g demo_request_state = Inr cp
    \<and> capture_grammar demo_methods g demo_prepared_state = Inr cp
    \<and> map_of (root_grammars demo_bank) ''a'' = Some g \<and> map_of (root_grammars demo_bank) ''b'' = Some gc
    \<and> map_of (root_grammars demo_bank) ''c'' = Some gk
    \<and> matchers demo_prepared_state gc = matchers demo_prepared_state g
    \<and> matchers demo_prepared_state gk = matchers demo_prepared_state g
    \<and> map_option request_grammar (structured_output demo_prepared_state) = Some (Some g)
    \<and> compare_grammars ''a'' ''b'' demo_prepared_state = Inr ()
    \<and> compare_grammars ''b'' ''c'' demo_prepared_state = Inr ()"
  by (rule prepared_grammars_agree [OF demo_prepares demo_bank_ok demo_law])

lemma demo_shown:
  "canonical_grammar (grammar_root_ids demo_bank) demo_prepared_state = Inr ''a''"
  "checkpoints demo_prepared_state ''a'' = Some demo_checkpoint"
  "shows_checkpoint demo_methods (grammar_request_id demo_bank) [] 0 demo_checkpoint demo_prepared_state"
  by (auto simp: demo_prepared_state_def prepare_grammar_roots_def grammar_evaluation demo_checkpoint_def
      shows_checkpoint_def presented_def replayed_def replayable_def)

lemma demo_activations:
  "structured_output (snd (activate_private demo_methods demo_bank ''b'' demo_intrusion
     demo_prepared_state)) \<noteq> None"
  "structured_output (snd (activate_private demo_methods demo_bank ''b'' demo_removal
     demo_prepared_state)) = None"
  by (auto simp: activate_private_def demo_intrusion_def demo_removal_def attempt_def
      demo_prepared_state_def prepare_grammar_roots_def grammar_evaluation)

theorem private_activation_keeps_the_canonical_grammar_witness:
  "(let m' = snd (activate_private demo_methods demo_bank ''b'' demo_intrusion demo_prepared_state)
    in map_option request_grammar (structured_output m') = Some (Some 0) \<and> matchers m' 0 = [5, 6])
   \<and> (let m' = activate_private demo_methods demo_bank ''b'' demo_removal demo_prepared_state
    in fst m' = Inl StructuredOutputMissing \<and> matchers (snd m') 0 = [5, 6])"
proof -
  have base: "map_of (root_grammars demo_bank) ''a'' = Some 0" by (simp add: demo_bank_def)
  have before: "matchers demo_prepared_state 0 = [5, 6]"
    using demo_shown(3) by (simp add: shows_checkpoint_def replayed_def demo_checkpoint_def demo_methods_def)
  note keeps = private_activation_keeps_the_canonical_grammar
    [OF prod.collapse [symmetric] demo_bank_ok demo_law demo_shown(1) base demo_shown(2,3)]
  show ?thesis
    using keeps [of "''b''" demo_intrusion] keeps [of "''b''" demo_removal] before demo_activations
    by (auto simp: Let_def)
qed

end
