(* ===== verification/Auxiliary_Roots.thy ===== *)
theory Auxiliary_Roots
  imports Root_Tables Loops
begin

section \<open>The auxiliary state of the runner\<close>

text \<open>
  Model of \<open>src/qwen_r9700_lab/live_commit_vllm_auxiliary_roots.py\<close>.  The runner is scratch
  space: its fields are cells known by their binding label, a plain array or attribute, an
  array with a mirror on the device, or a staged tensor with its flag of pending writes; a
  value is opaque.  What vLLM's buffers do when they copy to their mirrors, the equality of
  values, and the device synchronization are parameters (\<open>buffer_methods\<close>).  The object
  \<open>object()\<close> that names the Quest continuity of a root is known by the root's identifier.
\<close>

definition AUXILIARY_ROOT_SCHEMA :: string where
  "AUXILIARY_ROOT_SCHEMA = ''urn:qwen-r9700:vllm-auxiliary-root:v1''"

datatype auxiliary_error =
    AuxRequestIdInvalid
  | TableBankRequestDiffers
  | AuxRootSetsDiffer
  | FixedAbiDiffers string
  | RequestSlotMapDiffers
  | LabelsNotUnique
  | AbiOmits string
  | WrongCellKind string
  | MirrorsDiffer string
  | PendingStagedWrites string
  | SnapshotSchemaDiffers
  | SnapshotBindingsDiffer
  | SnapshotRootUnknown
  | BlockGroupCountWrong
  | TableIndexOutside
  | TableCapacityExceeded
  | TableCannotEncode
  | BlocksPerDiffers
  | AuxCanonicalChanged
  | PublicationSnapshotAbsent
  | NotExternallyBound
  | PrivateNotPrepared
  | CanonicalSnapshotAbsent
  | DeviceFailed
  | RootSnapshotAbsent
  | RootFieldsDiffer
  | StateDiffersAt string
  | BankFailed table_error
  | ExecutionFailed string

datatype 'v cell = Plain 'v | Mirrored 'v 'v | Staged bool 'v

datatype binding_kind = StagedBinding | UvaBinding | PlainBinding

type_synonym binding = "string \<times> binding_kind"

record 'v root_snapshot =
  aux_schema :: string
  aux_root_id :: string
  aux_values :: "(string \<times> 'v) list"

record ('v, 'x) runner_state =
  cells :: "string \<Rightarrow> 'v cell option"
  recoverssm_step :: bool
  table_rows :: "int list list"
  blocks_per_kv_block :: "nat list"
  block_counts :: "nat list"
  block_counts_mirror :: "nat list"
  tables_encode :: bool
  quest_tokens :: "string \<Rightarrow> string option"
  quest_tables :: "string \<Rightarrow> int list list option"
  snapshots :: "(string \<times> 'v root_snapshot) list"
  table_bank_state :: "'x table_bank"
  authority_view :: 'x

type_synonym ('v, 'x, 'a) aux_op = "(('v, 'x) runner_state, auxiliary_error, 'a) action"

record ('v, 'x) buffer_methods =
  copy_value_to_mirror :: "'v \<Rightarrow> 'v \<Rightarrow> 'v"
  copy_counts_to_mirror :: "nat list \<Rightarrow> nat list \<Rightarrow> nat list"
  values_equal :: "'v \<Rightarrow> 'v \<Rightarrow> bool"
  device_synchronizes :: "('v, 'x) runner_state \<Rightarrow> bool"

record auxiliary_roots =
  aux_request :: string
  aux_roots :: "physical_root list"
  aux_bindings :: "binding list"

subsection \<open>Bindings\<close>

definition capture_cell ::
  "('v, 'x) buffer_methods \<Rightarrow> (string \<Rightarrow> 'v cell option) \<Rightarrow> binding \<Rightarrow> auxiliary_error + 'v" where
  "capture_cell ops m = (\<lambda>(label, kind).
     case (kind, m label) of
       (_, None) \<Rightarrow> Inl (AbiOmits label)
     | (PlainBinding, Some (Plain v)) \<Rightarrow> Inr v
     | (UvaBinding, Some (Mirrored source gpu)) \<Rightarrow>
         if values_equal ops source gpu then Inr source else Inl (MirrorsDiffer label)
     | (StagedBinding, Some (Staged pending v)) \<Rightarrow>
         if pending then Inl (PendingStagedWrites label) else Inr v
     | _ \<Rightarrow> Inl (WrongCellKind label))"

definition restore_cell ::
  "('v, 'x) buffer_methods \<Rightarrow> (string \<Rightarrow> 'v cell option) \<Rightarrow> binding \<Rightarrow> 'v \<Rightarrow> auxiliary_error + 'v cell" where
  "restore_cell ops m = (\<lambda>(label, kind) value.
     case (kind, m label) of
       (_, None) \<Rightarrow> Inl (AbiOmits label)
     | (PlainBinding, Some (Plain _)) \<Rightarrow> Inr (Plain value)
     | (UvaBinding, Some (Mirrored _ gpu)) \<Rightarrow> Inr (Mirrored value (copy_value_to_mirror ops value gpu))
     | (StagedBinding, Some (Staged pending _)) \<Rightarrow>
         if pending then Inl (PendingStagedWrites label) else Inr (Staged False value)
     | _ \<Rightarrow> Inl (WrongCellKind label))"

text \<open>\<open>_build_bindings\<close>: the labels in the order of the code, with the guards between them.\<close>

definition labelled :: "string \<Rightarrow> binding_kind \<Rightarrow> string list \<Rightarrow> binding list" where
  "labelled prefix kind names = map (\<lambda>name. (prefix @ name, kind)) names"

definition STATE_BINDINGS :: "binding list" where
  "STATE_BINDINGS =
     labelled ''request.'' StagedBinding [''all_token_ids'', ''total_len'', ''num_computed_tokens'']
   @ labelled ''request.'' UvaBinding [''prompt_len'', ''prefill_len'']
   @ labelled ''request.'' PlainBinding
       [''num_computed_prefill_tokens'', ''num_computed_tokens_np'', ''max_seq_len'',
        ''last_sampled_tokens'', ''draft_tokens'', ''next_prefill_tokens'']
   @ labelled ''model.'' PlainBinding [''num_accepted'']"

definition DRAFT_BINDINGS :: "binding list" where
  "DRAFT_BINDINGS = labelled ''draft_output.'' PlainBinding
       [''_draft_token_ids'', ''_draft_probs'', ''_draft_prob_req_ids'', ''_draft_token_req_ids'',
        ''prev_num_spec_tokens'', ''draft_token_ids_cpu'', ''sampled_token_ids_pinned_cpu'']"

definition SAMPLING_BINDINGS :: "binding list" where
  "SAMPLING_BINDINGS =
     labelled ''sampling.'' UvaBinding [''temperature'', ''top_k'', ''top_p'', ''min_p'', ''seeds'']
   @ labelled ''sampling.'' PlainBinding [''seeds_set'', ''num_logprobs'', ''needs_processing'']"

definition SAMPLER_BINDINGS :: "binding list" where
  "SAMPLER_BINDINGS =
     labelled ''penalty.'' UvaBinding [''repetition_penalty'', ''frequency_penalty'', ''presence_penalty'']
   @ labelled ''penalty.'' PlainBinding [''enabled'', ''prompt_bin_mask'', ''output_bin_counts'']
   @ labelled ''bias.'' UvaBinding
       [''num_allowed_token_ids'', ''num_logit_bias'', ''min_lens'', ''num_stop_token_ids'']
   @ labelled ''bias.'' StagedBinding
       [''allowed_token_ids'', ''logit_bias_token_ids'', ''logit_bias'', ''stop_token_ids'']
   @ labelled ''bias.'' PlainBinding [''enabled'']
   @ labelled ''bad_words.'' UvaBinding [''count'']
   @ labelled ''bad_words.'' StagedBinding [''bad_word_token_ids'', ''bad_word_offsets'']
   @ labelled ''logprobs.'' UvaBinding [''count'']
   @ labelled ''logprobs.'' StagedBinding [''token_ids'']"

definition THINKING_BINDINGS :: "binding list" where
  "THINKING_BINDINGS =
     labelled ''thinking.'' UvaBinding [''budget'']
   @ labelled ''thinking.'' PlainBinding
       [''enabled'', ''cached_last_start'', ''cached_last_end'', ''cached_scan_pos'']"

definition BINDINGS :: "binding list" where
  "BINDINGS = STATE_BINDINGS @ DRAFT_BINDINGS @ SAMPLING_BINDINGS @ SAMPLER_BINDINGS @ THINKING_BINDINGS"

text \<open>What the constructor reads of the runner besides the bound fields.\<close>

record runner_abi =
  max_num_reqs :: "int option"
  num_speculative_steps :: "int option"
  active_unsupported :: "string list"
  align_mode :: "bool option"
  rope_state_active :: bool
  prompt_embeds_active :: bool
  quest_tokens_known :: bool
  quest_tables_known :: bool
  worker_table_groups :: nat
  temperature_is_zero :: bool
  top_p_is_one :: bool
  sampling_top_k :: int
  request_slots :: "(string \<times> int) list"
  recoverssm_precopy_active :: bool
  recoverssm_quiescent :: bool
  active_asynchronous :: "string list"
  penalties_pending :: bool
  thinking_enabled :: "bool option"
  thinking_pending :: bool

definition validate_fixed_abi :: "runner_abi \<Rightarrow> auxiliary_error + unit" where
  "validate_fixed_abi a =
     (if max_num_reqs a \<noteq> Some 1 then Inl (FixedAbiDiffers ''max_num_reqs'')
      else if num_speculative_steps a \<noteq> Some 7 then Inl (FixedAbiDiffers ''num_speculative_steps'')
      else if active_unsupported a \<noteq> [] then Inl (FixedAbiDiffers (hd (active_unsupported a)))
      else if align_mode a \<noteq> Some False then Inl (FixedAbiDiffers ''align_mode'')
      else if rope_state_active a then Inl (FixedAbiDiffers ''rope_state'')
      else if prompt_embeds_active a then Inl (FixedAbiDiffers ''prompt_embeds_state'')
      else if \<not> quest_tokens_known a then Inl (FixedAbiDiffers ''quest_request_tokens'')
      else if \<not> quest_tables_known a then Inl (FixedAbiDiffers ''quest_block_tables'')
      else if worker_table_groups a \<noteq> TOTAL_GROUPS then Inl (FixedAbiDiffers ''block_tables'')
      else if \<not> temperature_is_zero a then Inl (FixedAbiDiffers ''temperature'')
      else require (top_p_is_one a \<and> sampling_top_k a = 1) (FixedAbiDiffers ''top_p or top_k''))"

text \<open>Each binding reads its field when it is made.\<close>

definition bind_fields ::
  "('v, 'x) buffer_methods \<Rightarrow> (string \<Rightarrow> 'v cell option) \<Rightarrow> binding list \<Rightarrow> auxiliary_error + unit" where
  "bind_fields ops m bindings = check_all (\<lambda>b. rbind (capture_cell ops m b) (\<lambda>_. Inr ())) bindings"

definition build_bindings ::
  "('v, 'x) buffer_methods \<Rightarrow> runner_abi \<Rightarrow> (string \<Rightarrow> 'v cell option) \<Rightarrow> auxiliary_error + binding list" where
  "build_bindings ops a m =
     rbind (bind_fields ops m STATE_BINDINGS) (\<lambda>_.
     rbind (require (\<not> recoverssm_precopy_active a) (FixedAbiDiffers ''recoverssm_precopy'')) (\<lambda>_.
     rbind (require (recoverssm_quiescent a) (FixedAbiDiffers ''recoverssm'')) (\<lambda>_.
     rbind (bind_fields ops m DRAFT_BINDINGS) (\<lambda>_.
     if active_asynchronous a \<noteq> [] then Inl (FixedAbiDiffers (hd (active_asynchronous a))) else
     rbind (bind_fields ops m SAMPLING_BINDINGS) (\<lambda>_.
     rbind (require (\<not> penalties_pending a) (FixedAbiDiffers ''penalties_state'')) (\<lambda>_.
     rbind (bind_fields ops m SAMPLER_BINDINGS) (\<lambda>_.
     rbind (require (thinking_enabled a = Some True) (FixedAbiDiffers ''thinking_budget_state'')) (\<lambda>_.
     rbind (require (\<not> thinking_pending a) (FixedAbiDiffers ''thinking_budget_state'')) (\<lambda>_.
     rbind (bind_fields ops m THINKING_BINDINGS) (\<lambda>_. Inr BINDINGS))))))))))"

definition new_auxiliary_roots ::
  "('v, 'x) buffer_methods \<Rightarrow> runner_abi \<Rightarrow> string \<Rightarrow> physical_root list
   \<Rightarrow> ('v, 'x, auxiliary_roots) aux_op" where
  "new_auxiliary_roots ops a request roots =
     sbind (assert_that (request \<noteq> []) AuxRequestIdInvalid) (\<lambda>_.
     sbind (gets table_bank_state) (\<lambda>bank.
     sbind (assert_that (bank_request bank = request) TableBankRequestDiffers) (\<lambda>_.
     sbind (assert_that (card (set (map root_id roots)) = 3
              \<and> set (map root_id roots) = set (map fst (root_tables bank))) AuxRootSetsDiffer) (\<lambda>_.
     sbind (lift_result (validate_fixed_abi a)) (\<lambda>_.
     sbind (assert_that (request_slots a = [(request, 0)]) RequestSlotMapDiffers) (\<lambda>_.
     sbind (gets (\<lambda>m. build_bindings ops a (cells m))) (\<lambda>found.
     sbind (lift_result found) (\<lambda>bindings.
     sbind (assert_that (distinct (map fst bindings)) LabelsNotUnique) (\<lambda>_.
     sbind (modify (\<lambda>m. m\<lparr>snapshots := []\<rparr>)) (\<lambda>_.
     ret \<lparr>aux_request = request, aux_roots = roots, aux_bindings = bindings\<rparr>))))))))))"

subsection \<open>Snapshots\<close>

definition capture_auxiliary ::
  "('v, 'x) buffer_methods \<Rightarrow> auxiliary_roots \<Rightarrow> string \<Rightarrow> ('v, 'x) runner_state
   \<Rightarrow> auxiliary_error + 'v root_snapshot" where
  "capture_auxiliary ops aux root m =
     rbind (map_result (\<lambda>b. rbind (capture_cell ops (cells m) b) (\<lambda>v. Inr (fst b, v))) (aux_bindings aux))
       (\<lambda>values. Inr \<lparr>aux_schema = AUXILIARY_ROOT_SCHEMA, aux_root_id = root, aux_values = values\<rparr>)"

definition root_groups :: "physical_root \<Rightarrow> int list list" where
  "root_groups root = map (\<lambda>slot. [slot]) (gdn_slots root) @ target_blocks root @ draft_blocks root"

definition expand_blocks :: "int list \<Rightarrow> nat \<Rightarrow> int list" where
  "expand_blocks ids multiplier =
     concat (map (\<lambda>block. map (\<lambda>k. block * int multiplier + int k) [0..<multiplier]) ids)"

definition write_worker_table :: "nat \<times> int list \<times> nat \<Rightarrow> ('v, 'x, unit) aux_op" where
  "write_worker_table = (\<lambda>(g, ids, multiplier).
     let expanded = expand_blocks ids multiplier in
     sbind (gets (\<lambda>m. (g < length (table_rows m), length (table_rows m ! g), tables_encode m)))
       (\<lambda>(known, capacity, encode).
     sbind (assert_that known TableIndexOutside) (\<lambda>_.
     sbind (assert_that (length expanded \<le> capacity) TableCapacityExceeded) (\<lambda>_.
     sbind (assert_that encode TableCannotEncode) (\<lambda>_.
     sbind (modify (\<lambda>m. m\<lparr>table_rows := (table_rows m)[g := expanded
              @ drop (length expanded) (table_rows m ! g)]\<rparr>)) (\<lambda>_.
     sbind (gets (\<lambda>m. g < length (block_counts m))) (\<lambda>counted.
     sbind (assert_that counted TableIndexOutside) (\<lambda>_.
     modify (\<lambda>m. m\<lparr>block_counts := (block_counts m)[g := length expanded]\<rparr>)))))))))"

definition activate_block_tables ::
  "('v, 'x) buffer_methods \<Rightarrow> auxiliary_roots \<Rightarrow> physical_root \<Rightarrow> ('v, 'x, unit) aux_op" where
  "activate_block_tables ops aux root =
     (let groups = root_groups root in
      sbind (assert_that (length groups = TOTAL_GROUPS) BlockGroupCountWrong) (\<lambda>_.
      sbind (gets blocks_per_kv_block) (\<lambda>multipliers.
      sbind (for_each write_worker_table (zip [0..<length groups] (zip groups multipliers))) (\<lambda>_.
      sbind (assert_that (length multipliers = length groups) BlocksPerDiffers) (\<lambda>_.
      sbind (modify (\<lambda>m. m\<lparr>block_counts_mirror :=
               copy_counts_to_mirror ops (block_counts m) (block_counts_mirror m)\<rparr>)) (\<lambda>_.
      modify (\<lambda>m. m\<lparr>quest_tokens := (quest_tokens m)(aux_request aux \<mapsto> root_id root),
        quest_tables := (quest_tables m)(aux_request aux \<mapsto>
          map (\<lambda>(ids, multiplier). expand_blocks ids multiplier) (zip groups multipliers))\<rparr>)))))))"

definition restore_binding ::
  "('v, 'x) buffer_methods \<Rightarrow> (string \<times> 'v) list \<Rightarrow> binding \<Rightarrow> ('v, 'x, unit) aux_op" where
  "restore_binding ops values b =
     (case map_of (rev values) (fst b) of
        None \<Rightarrow> raise SnapshotBindingsDiffer
      | Some v \<Rightarrow>
          sbind (gets (\<lambda>m. restore_cell ops (cells m) b v)) (\<lambda>restored.
          sbind (lift_result restored) (\<lambda>c.
          modify (\<lambda>m. m\<lparr>cells := (cells m)(fst b \<mapsto> c)\<rparr>))))"

definition restore_auxiliary ::
  "('v, 'x) buffer_methods \<Rightarrow> auxiliary_roots \<Rightarrow> 'v root_snapshot \<Rightarrow> ('v, 'x, unit) aux_op" where
  "restore_auxiliary ops aux snapshot =
     sbind (assert_that (aux_schema snapshot = AUXILIARY_ROOT_SCHEMA) SnapshotSchemaDiffers) (\<lambda>_.
     sbind (assert_that (fst ` set (aux_values snapshot) = fst ` set (aux_bindings aux))
              SnapshotBindingsDiffer) (\<lambda>_.
     sbind (for_each (restore_binding ops (aux_values snapshot)) (aux_bindings aux)) (\<lambda>_.
     sbind (modify (\<lambda>m. m\<lparr>recoverssm_step := False\<rparr>)) (\<lambda>_.
     case find (\<lambda>root. root_id root = aux_root_id snapshot) (rev (aux_roots aux)) of
       None \<Rightarrow> raise SnapshotRootUnknown
     | Some root \<Rightarrow> activate_block_tables ops aux root))))"

definition synchronize :: "('v, 'x) buffer_methods \<Rightarrow> ('v, 'x, unit) aux_op" where
  "synchronize ops = sbind (gets (device_synchronizes ops)) (\<lambda>done_ok. assert_that done_ok DeviceFailed)"

definition bank_canonical :: "('v, 'x, string) aux_op" where
  "bank_canonical =
     sbind (gets (\<lambda>m. canonical_root (authority_view m) (table_bank_state m))) (\<lambda>found.
     case found of Inl e \<Rightarrow> raise (BankFailed e) | Inr root \<Rightarrow> ret root)"

definition snapshot_of :: "string \<Rightarrow> auxiliary_error \<Rightarrow> ('v, 'x, 'v root_snapshot) aux_op" where
  "snapshot_of root absent =
     sbind (gets (\<lambda>m. map_of (snapshots m) root)) (\<lambda>found.
     case found of None \<Rightarrow> raise absent | Some snapshot \<Rightarrow> ret snapshot)"

subsection \<open>Preparation, publication and private execution\<close>

definition prepare_auxiliary_roots ::
  "('v, 'x) buffer_methods \<Rightarrow> auxiliary_roots \<Rightarrow> physical_root \<Rightarrow> physical_root \<Rightarrow> physical_root
   \<Rightarrow> ('v, 'x, unit) aux_op" where
  "prepare_auxiliary_roots ops aux base candidate serial =
     sbind bank_canonical (\<lambda>current.
     sbind (assert_that (current = root_id base) AuxCanonicalChanged) (\<lambda>_.
     sbind (gets (\<lambda>m. map_of (snapshots m) (root_id base))) (\<lambda>prior.
     sbind (case prior of None \<Rightarrow> ret () | Some snapshot \<Rightarrow> restore_auxiliary ops aux snapshot) (\<lambda>_.
     sbind (synchronize ops) (\<lambda>_.
     sbind (gets (capture_auxiliary ops aux (root_id base))) (\<lambda>captured.
     sbind (lift_result captured) (\<lambda>taken.
     modify (\<lambda>m. m\<lparr>snapshots := AList.update (root_id serial) (taken\<lparr>aux_root_id := root_id serial\<rparr>)
       (AList.update (root_id candidate) (taken\<lparr>aux_root_id := root_id candidate\<rparr>)
         [(root_id base, taken)])\<rparr>))))))))"

definition run_bank_publish :: "string \<Rightarrow> string \<Rightarrow> ('v, 'x, string) aux_op" where
  "run_bank_publish expected selected m =
     (case bank_publish (authority_view m) expected selected (table_bank_state m) of
        (r, b) \<Rightarrow> ((case r of Inl e \<Rightarrow> Inl (BankFailed e) | Inr root \<Rightarrow> Inr root), m\<lparr>table_bank_state := b\<rparr>))"

definition undo_publication ::
  "('v, 'x) buffer_methods \<Rightarrow> auxiliary_roots \<Rightarrow> 'v root_snapshot \<Rightarrow> auxiliary_error \<Rightarrow> ('v, 'x, 'a) aux_op" where
  "undo_publication ops aux old e =
     sbind (restore_auxiliary ops aux old) (\<lambda>_. sbind (synchronize ops) (\<lambda>_. raise e))"

definition publish_auxiliary ::
  "('v, 'x) buffer_methods \<Rightarrow> auxiliary_roots \<Rightarrow> string \<Rightarrow> string \<Rightarrow> ('v, 'x, string) aux_op" where
  "publish_auxiliary ops aux expected selected =
     sbind bank_canonical (\<lambda>current.
     sbind (assert_that (current = expected) AuxCanonicalChanged) (\<lambda>_.
     sbind (snapshot_of expected PublicationSnapshotAbsent) (\<lambda>old.
     sbind (snapshot_of selected PublicationSnapshotAbsent) (\<lambda>chosen.
     try_except
       (sbind (restore_auxiliary ops aux chosen) (\<lambda>_.
        sbind (synchronize ops) (\<lambda>_. run_bank_publish expected selected)))
       (undo_publication ops aux old)))))"

definition prepare_external_auxiliary ::
  "('v, 'x) buffer_methods \<Rightarrow> auxiliary_roots \<Rightarrow> string \<Rightarrow> string \<Rightarrow> ('v, 'x, unit) aux_op" where
  "prepare_external_auxiliary ops aux expected selected =
     sbind (gets table_bank_state) (\<lambda>bank.
     sbind (assert_that (external_getter bank \<noteq> None) NotExternallyBound) (\<lambda>_.
     sbind bank_canonical (\<lambda>current.
     sbind (assert_that (current = expected) AuxCanonicalChanged) (\<lambda>_.
     sbind (snapshot_of expected PublicationSnapshotAbsent) (\<lambda>old.
     sbind (snapshot_of selected PublicationSnapshotAbsent) (\<lambda>chosen.
     try_except
       (sbind (restore_auxiliary ops aux chosen) (\<lambda>_. synchronize ops))
       (undo_publication ops aux old)))))))"

text \<open>\<open>select_private\<close> of the table bank around a part of the execution.\<close>

definition selecting :: "string \<Rightarrow> ('v, 'x, 'a) aux_op \<Rightarrow> ('v, 'x, 'a) aux_op" where
  "selecting root run =
     sbind (gets table_bank_state) (\<lambda>bank.
     sbind (case table_root_id root of Inl e \<Rightarrow> raise (BankFailed e) | Inr _ \<Rightarrow> ret ()) (\<lambda>_.
     sbind bank_canonical (\<lambda>current.
     sbind (assert_that (\<not> (root = current \<or> root \<notin> fst ` set (root_tables bank)))
              (BankFailed PrivateSelectionInvalid)) (\<lambda>_.
     sbind (modify (\<lambda>m. m\<lparr>table_bank_state := (table_bank_state m)\<lparr>root_selection := Some root\<rparr>\<rparr>)) (\<lambda>_.
     sbind (attempt run) (\<lambda>outcome.
     sbind (modify (\<lambda>m. m\<lparr>table_bank_state := (table_bank_state m)\<lparr>root_selection := root_selection bank\<rparr>\<rparr>)) (\<lambda>_.
     lift_result outcome)))))))"

text \<open>\<open>execute_private\<close>: the body of the \<open>with\<close> statement is the action \<open>run\<close>.\<close>

definition execute_private ::
  "('v, 'x) buffer_methods \<Rightarrow> auxiliary_roots \<Rightarrow> string \<Rightarrow> ('v, 'x, 'a) aux_op \<Rightarrow> ('v, 'x, 'a) aux_op" where
  "execute_private ops aux root run =
     sbind bank_canonical (\<lambda>base.
     sbind (gets snapshots) (\<lambda>known.
     sbind (assert_that (\<not> (root = base \<or> root \<notin> fst ` set known)) PrivateNotPrepared) (\<lambda>_.
     sbind (snapshot_of root PrivateNotPrepared) (\<lambda>selected.
     sbind (snapshot_of base CanonicalSnapshotAbsent) (\<lambda>canonical_snapshot.
     selecting root
       (sbind (attempt
          (sbind (restore_auxiliary ops aux selected) (\<lambda>_.
           sbind (synchronize ops) (\<lambda>_.
           sbind run (\<lambda>x.
           sbind (synchronize ops) (\<lambda>_.
           sbind (gets (capture_auxiliary ops aux root)) (\<lambda>captured.
           sbind (lift_result captured) (\<lambda>taken.
           sbind (modify (\<lambda>m. m\<lparr>snapshots := AList.update root taken (snapshots m)\<rparr>)) (\<lambda>_.
           ret x))))))))) (\<lambda>outcome.
        sbind (restore_auxiliary ops aux canonical_snapshot) (\<lambda>_.
        sbind (synchronize ops) (\<lambda>_.
        lift_result outcome)))))))))"

subsection \<open>Comparison and capture\<close>

definition compare_auxiliary_roots ::
  "('v, 'x) buffer_methods \<Rightarrow> string \<Rightarrow> string \<Rightarrow> ('v, 'x) runner_state \<Rightarrow> auxiliary_error + unit" where
  "compare_auxiliary_roots ops left right m =
     (case (map_of (snapshots m) left, map_of (snapshots m) right) of
        (Some l, Some r) \<Rightarrow>
          if fst ` set (aux_values l) \<noteq> fst ` set (aux_values r) then Inl RootFieldsDiffer
          else check_all (\<lambda>label. case (map_of (rev (aux_values l)) label, map_of (rev (aux_values r)) label) of
                 (Some a, Some b) \<Rightarrow> require (values_equal ops a b) (StateDiffersAt label)
               | _ \<Rightarrow> Inl RootFieldsDiffer)
               (sorted_list_of_set (fst ` set (aux_values l)))
      | _ \<Rightarrow> Inl RootSnapshotAbsent)"

definition capture_auxiliary_state ::
  "('v \<Rightarrow> string) \<Rightarrow> string \<Rightarrow> ('v, 'x) runner_state \<Rightarrow> auxiliary_error + string \<times> (string \<times> string) list" where
  "capture_auxiliary_state digest root m =
     (case map_of (snapshots m) root of
        None \<Rightarrow> Inl RootSnapshotAbsent
      | Some snapshot \<Rightarrow> Inr (aux_schema snapshot, map (\<lambda>(label, v). (label, digest v)) (aux_values snapshot)))"

end
