(* ===== verification/Auxiliary_Safety.thy ===== *)
theory Auxiliary_Safety
  imports Auxiliary_Roots
begin

section \<open>Capture, restore and private execution of the auxiliary state\<close>

text \<open>The labels of the bindings are distinct, so that the check of the constructor passes.\<close>

lemma binding_labels_distinct: "distinct (map fst BINDINGS)"
  by code_simp

text \<open>Copying to a mirror makes it equal to the array, and mirrors the counts exactly.\<close>

definition mirrors_copy :: "('v, 'x) buffer_methods \<Rightarrow> bool" where
  "mirrors_copy ops \<longleftrightarrow> (\<forall>v g. values_equal ops v (copy_value_to_mirror ops v g))
     \<and> (\<forall>c d. copy_counts_to_mirror ops c d = c)"

subsection \<open>Restoring the bindings\<close>

lemma restore_cell_capture:
  "mirrors_copy ops \<Longrightarrow> restore_cell ops m b v = Inr c \<Longrightarrow> capture_cell ops (m(fst b \<mapsto> c)) b = Inr v"
  by (cases b) (auto simp: restore_cell_def capture_cell_def mirrors_copy_def
      split: binding_kind.splits option.splits cell.splits if_splits)

lemma capture_cell_other: "l \<noteq> fst b \<Longrightarrow> capture_cell ops (m(l \<mapsto> c)) b = capture_cell ops m b"
  by (cases b) (simp add: capture_cell_def)

lemma restore_binding_Inr:
  assumes "restore_binding ops values b m = (Inr u, m')"
  obtains v c where "map_of (rev values) (fst b) = Some v" "restore_cell ops (cells m) b v = Inr c"
    "m' = m\<lparr>cells := (cells m)(fst b \<mapsto> c)\<rparr>"
  using assms by (auto simp: restore_binding_def action_simps split: option.splits)

lemma restore_bindings_capture:
  assumes "for_each (restore_binding ops values) bs m = (Inr u, m')" "mirrors_copy ops" "distinct (map fst bs)"
    and "b \<in> set bs"
  shows "\<exists>v. map_of (rev values) (fst b) = Some v \<and> capture_cell ops (cells m') b = Inr v"
  using assms
proof (induction bs arbitrary: m)
  case (Cons a bs)
  obtain m1 where first: "restore_binding ops values a m = (Inr (), m1)"
    and rest: "for_each (restore_binding ops values) bs m1 = (Inr u, m')"
    using Cons.prems(1) by (auto simp: sbind_Inr_iff)
  have other: "capture_cell ops (cells n') a = capture_cell ops (cells n) a"
    if "for_each (restore_binding ops values) cs n = (Inr u, n')" "fst a \<notin> fst ` set cs" for cs n n'
    using that
  proof (induction cs arbitrary: n)
    case (Cons c cs)
    then show ?case
      by (auto simp: sbind_Inr_iff capture_cell_other elim!: restore_binding_Inr)
  qed simp
  show ?case
  proof (cases "b = a")
    case True
    obtain v c where v: "map_of (rev values) (fst a) = Some v" "restore_cell ops (cells m) a v = Inr c"
      "m1 = m\<lparr>cells := (cells m)(fst a \<mapsto> c)\<rparr>" using restore_binding_Inr [OF first] by metis
    have "capture_cell ops (cells m') a = capture_cell ops (cells m1) a"
      using other [OF rest] Cons.prems(3) by simp
    then show ?thesis using restore_cell_capture [OF Cons.prems(2) v(2)] v True by simp
  qed (use Cons.IH [OF rest] Cons.prems in auto)
qed simp

subsection \<open>Activating the block tables\<close>

text \<open>The worker's tables, counts and Quest identity show a root.\<close>

definition tables_show :: "auxiliary_roots \<Rightarrow> physical_root \<Rightarrow> ('v, 'x) runner_state \<Rightarrow> bool" where
  "tables_show aux root m \<longleftrightarrow>
     (let expanded = map (\<lambda>(ids, multiplier). expand_blocks ids multiplier)
                       (zip (root_groups root) (blocks_per_kv_block m))
      in length expanded = TOTAL_GROUPS
       \<and> (\<forall>g < TOTAL_GROUPS. take (length (expanded ! g)) (table_rows m ! g) = expanded ! g
            \<and> block_counts m ! g = length (expanded ! g))
       \<and> block_counts_mirror m = block_counts m
       \<and> quest_tokens m (aux_request aux) = Some (root_id root)
       \<and> quest_tables m (aux_request aux) = Some expanded)"

lemma write_worker_table_Inr:
  assumes "write_worker_table (g, ids, k) m = (Inr u, m')"
  shows "take (length (expand_blocks ids k)) (table_rows m' ! g) = expand_blocks ids k"
    "block_counts m' ! g = length (expand_blocks ids k)"
    "h \<noteq> g \<Longrightarrow> table_rows m' ! h = table_rows m ! h" "h \<noteq> g \<Longrightarrow> block_counts m' ! h = block_counts m ! h"
  using assms by (auto simp: write_worker_table_def Let_def action_simps)

lemma write_worker_table_other:
  assumes "write_worker_table (h, ids, k) m = (r, m')" "h \<noteq> g"
  shows "(table_rows m' ! g, block_counts m' ! g) = (table_rows m ! g, block_counts m ! g)"
  using assms
  by (auto simp: write_worker_table_def Let_def sbind_def assert_that_def split: if_splits)

text \<open>What neither restoring a binding nor writing a table touches.\<close>

definition same_roots :: "('v, 'x) runner_state \<Rightarrow> ('v, 'x) runner_state \<Rightarrow> bool" where
  "same_roots m m' \<longleftrightarrow> snapshots m' = snapshots m \<and> table_bank_state m' = table_bank_state m
     \<and> authority_view m' = authority_view m \<and> blocks_per_kv_block m' = blocks_per_kv_block m"

interpretation roots_kept: history same_roots
  by unfold_locales (auto simp: same_roots_def)

definition same_cells :: "('v, 'x) runner_state \<Rightarrow> ('v, 'x) runner_state \<Rightarrow> bool" where
  "same_cells m m' \<longleftrightarrow> cells m' = cells m \<and> recoverssm_step m' = recoverssm_step m \<and> same_roots m m'"

interpretation cells_kept: history same_cells
  by unfold_locales (auto simp: same_cells_def same_roots_def)

lemma activate_block_tables_frame: "keeps same_cells (activate_block_tables ops aux root)"
proof -
  have w: "keeps same_cells (write_worker_table x)" for x :: "nat \<times> int list \<times> nat"
    by (cases x) (auto simp: keeps_def write_worker_table_def Let_def sbind_def assert_that_def same_cells_def
        same_roots_def)
  show ?thesis
    unfolding activate_block_tables_def Let_def
    by (intro cells_kept.keeps_sbind cells_kept.keeps_pure cells_kept.keeps_for_each cells_kept.keeps_modify w)
       (auto simp: same_cells_def same_roots_def)
qed

lemma activate_block_tables_Inr:
  fixes m :: "('v, 'x) runner_state"
  assumes law: "mirrors_copy ops" and run: "activate_block_tables ops aux root m = (Inr u, m')"
  shows "tables_show aux root m'"
proof -
  let ?pairs = "zip (root_groups root) (blocks_per_kv_block m)"
  let ?jobs = "zip [0..<length (root_groups root)] ?pairs"
  obtain a where groups: "length (root_groups root) = TOTAL_GROUPS"
    and loop: "for_each write_worker_table ?jobs m = (Inr (), a)"
    and len: "length (blocks_per_kv_block m) = length (root_groups root)"
    and m': "block_counts_mirror m' = block_counts a" "block_counts m' = block_counts a"
      "table_rows m' = table_rows a" "quest_tokens m' (aux_request aux) = Some (root_id root)"
      "quest_tables m' (aux_request aux) = Some (map (\<lambda>(ids, k). expand_blocks ids k) ?pairs)"
    using run law by (auto simp: activate_block_tables_def Let_def action_simps mirrors_copy_def)
  have per: "blocks_per_kv_block m' = blocks_per_kv_block m"
    using keepsD [OF activate_block_tables_frame run] by (simp add: same_cells_def same_roots_def)
  have "take (length (expand_blocks (root_groups root ! g) (blocks_per_kv_block m ! g))) (table_rows m' ! g)
        = expand_blocks (root_groups root ! g) (blocks_per_kv_block m ! g)
      \<and> block_counts m' ! g = length (expand_blocks (root_groups root ! g) (blocks_per_kv_block m ! g))"
    if g: "g < TOTAL_GROUPS" for g
  proof -
    let ?job = "(g, root_groups root ! g, blocks_per_kv_block m ! g)"
    let ?view = "\<lambda>m :: ('v, 'x) runner_state. (table_rows m ! g, block_counts m ! g)"
    have jobs: "distinct ?jobs" by (simp add: distinct_zipI1)
    have "?jobs ! g = ?job" "g < length ?jobs" using g groups len by auto
    then have "?job \<in> set ?jobs" by (metis nth_mem)
    moreover have "\<forall>i b r c. i \<in> set ?jobs \<longrightarrow> write_worker_table i b = (r, c) \<longrightarrow> i \<noteq> ?job \<longrightarrow> ?view c = ?view b"
    proof (intro allI impI)
      fix i r and b c :: "('v, 'x) runner_state"
      assume i: "i \<in> set ?jobs" "write_worker_table i b = (r, c)" "i \<noteq> ?job"
      then obtain h where "i = (h, root_groups root ! h, blocks_per_kv_block m ! h)"
        by (auto simp: set_zip)
      moreover from this have "h \<noteq> g" using i(3) by auto
      ultimately show "?view c = ?view b" using write_worker_table_other i(2) by blast
    qed
    ultimately obtain b c :: "('v, 'x) runner_state" where
      "write_worker_table ?job b = (Inr (), c)" "?view a = ?view c"
      using for_each_view [where view = ?view, OF loop jobs] by blast
    then show ?thesis using write_worker_table_Inr(1,2) m' by fastforce
  qed
  then show ?thesis
    using groups len m' by (auto simp: tables_show_def Let_def per)
qed

subsection \<open>Restoring a snapshot\<close>

definition captured_snapshot :: "auxiliary_roots \<Rightarrow> 'v root_snapshot \<Rightarrow> bool" where
  "captured_snapshot aux snapshot \<longleftrightarrow>
     aux_schema snapshot = AUXILIARY_ROOT_SCHEMA \<and> map fst (aux_values snapshot) = map fst (aux_bindings aux)"

lemma map_result_fst:
  "map_result (\<lambda>b. rbind (f b) (\<lambda>v. Inr (fst b, v))) bs = Inr vs \<Longrightarrow> map fst vs = map fst bs"
  by (induction bs arbitrary: vs) (auto simp: result_simps)

lemma capture_auxiliary_Inr:
  assumes "capture_auxiliary ops aux root m = Inr snapshot"
  shows "captured_snapshot aux snapshot" "aux_root_id snapshot = root"
  using assms by (auto simp: capture_auxiliary_def captured_snapshot_def result_simps dest!: map_result_fst)

lemma map_result_fields:
  fixes bs :: "binding list" and vs :: "(string \<times> 'v) list"
  assumes "length bs = length vs" "map fst vs = map fst bs"
    and "\<And>k. k < length bs \<Longrightarrow> f (bs ! k) = Inr (snd (vs ! k))"
  shows "map_result (\<lambda>b. rbind (f b) (\<lambda>v. Inr (fst b, v))) bs = Inr vs"
  using assms
proof (induction bs vs rule: list_induct2)
  case (Cons b bs v vs)
  have "f b = Inr (snd v)" using Cons.prems(2) [of 0] by simp
  moreover have "map_result (\<lambda>b. rbind (f b) (\<lambda>v. Inr (fst b, v))) bs = Inr vs"
    using Cons.prems(1) Cons.prems(2) [of "Suc _"] by (intro Cons.IH) auto
  ultimately show ?case using Cons.prems(1) by (simp add: prod_eq_iff)
qed simp

definition aux_ok :: "auxiliary_roots \<Rightarrow> bool" where
  "aux_ok aux \<longleftrightarrow> distinct (map fst (aux_bindings aux)) \<and> distinct (map root_id (aux_roots aux))"

text \<open>The scratch state shows a snapshot: it would be captured again and its tables are active.\<close>

definition shows_snapshot ::
  "('v, 'x) buffer_methods \<Rightarrow> auxiliary_roots \<Rightarrow> 'v root_snapshot \<Rightarrow> ('v, 'x) runner_state \<Rightarrow> bool" where
  "shows_snapshot ops aux snapshot m \<longleftrightarrow>
     capture_auxiliary ops aux (aux_root_id snapshot) m = Inr snapshot \<and> \<not> recoverssm_step m
     \<and> (\<exists>root \<in> set (aux_roots aux). root_id root = aux_root_id snapshot \<and> tables_show aux root m)"

lemma capture_auxiliary_cells:
  "cells m' = cells m \<Longrightarrow> capture_auxiliary ops aux root m' = capture_auxiliary ops aux root m"
  by (simp add: capture_auxiliary_def)

lemma restore_auxiliary_frame: "keeps same_roots (restore_auxiliary ops aux snapshot)"
proof -
  have b: "keeps same_roots (restore_binding ops vs x)" for vs :: "(string \<times> 'a) list" and x
    by (auto simp: keeps_def restore_binding_def sbind_def same_roots_def split: option.splits sum.splits)
  have t: "keeps same_roots (activate_block_tables ops aux root)" for root
    by (rule keeps_mono [OF activate_block_tables_frame]) (simp add: same_cells_def)
  show ?thesis
    unfolding restore_auxiliary_def
    by (intro roots_kept.keeps_sbind roots_kept.keeps_pure roots_kept.keeps_for_each roots_kept.keeps_modify
        roots_kept.keeps_case_option b t) (simp add: same_roots_def)
qed

text \<open>Once every binding was restored, capturing again yields the snapshot's values.\<close>

lemma restored_bindings_capture:
  assumes law: "mirrors_copy ops" and ok: "aux_ok aux" and captured: "captured_snapshot aux snapshot"
    and loop: "for_each (restore_binding ops (aux_values snapshot)) (aux_bindings aux) m = (Inr (), a)"
  shows "capture_auxiliary ops aux (aux_root_id snapshot) a = Inr snapshot"
proof -
  have labels: "map fst (aux_values snapshot) = map fst (aux_bindings aux)"
    and distinct: "distinct (map fst (aux_bindings aux))"
    using captured ok by (simp_all add: captured_snapshot_def aux_ok_def)
  have fields: "capture_cell ops (cells a) (aux_bindings aux ! k) = Inr (snd (aux_values snapshot ! k))"
    if k: "k < length (aux_bindings aux)" for k
  proof -
    have len: "length (aux_values snapshot) = length (aux_bindings aux)" using labels by (metis length_map)
    have "fst (aux_values snapshot ! k) = fst (aux_bindings aux ! k)"
      using arg_cong [OF labels, of "\<lambda>xs. xs ! k"] k len by simp
    moreover have "(aux_values snapshot ! k) \<in> set (rev (aux_values snapshot))" using k len by simp
    moreover have "distinct (map fst (rev (aux_values snapshot)))" using distinct labels by (metis distinct_rev rev_map)
    ultimately have "map_of (rev (aux_values snapshot)) (fst (aux_bindings aux ! k)) = Some (snd (aux_values snapshot ! k))"
      by (metis map_of_is_SomeI prod.collapse)
    then show ?thesis
      using restore_bindings_capture [OF loop law distinct, of "aux_bindings aux ! k"] k by auto
  qed
  have "map_result (\<lambda>b. rbind (capture_cell ops (cells a) b) (\<lambda>v. Inr (fst b, v))) (aux_bindings aux)
      = Inr (aux_values snapshot)"
    using labels fields map_result_fields [OF arg_cong [OF labels, of length, simplified, symmetric]] by blast
  then show ?thesis using captured by (simp add: capture_auxiliary_def captured_snapshot_def)
qed

lemma restore_auxiliary_Inr:
  assumes law: "mirrors_copy ops" and ok: "aux_ok aux" and captured: "captured_snapshot aux snapshot"
    and run: "restore_auxiliary ops aux snapshot m = (Inr u, m')"
  shows "shows_snapshot ops aux snapshot m'"
proof -
  obtain a root where loop: "for_each (restore_binding ops (aux_values snapshot)) (aux_bindings aux) m = (Inr (), a)"
    and found: "find (\<lambda>root. root_id root = aux_root_id snapshot) (rev (aux_roots aux)) = Some root"
    and tables: "activate_block_tables ops aux root (a\<lparr>recoverssm_step := False\<rparr>) = (Inr u, m')"
    using run by (auto simp: restore_auxiliary_def action_simps split: option.splits)
  have cells: "cells m' = cells a" "\<not> recoverssm_step m'"
    using keepsD [OF activate_block_tables_frame tables] by (simp_all add: same_cells_def)
  moreover have "root \<in> set (aux_roots aux)" "root_id root = aux_root_id snapshot"
    using find_SomeD [OF found] by simp_all
  ultimately show ?thesis
    using activate_block_tables_Inr [OF law tables] restored_bindings_capture [OF law ok captured loop]
      capture_auxiliary_cells [OF cells(1)] by (auto simp: shows_snapshot_def)
qed

text \<open>
  What can keep a snapshot from being restored: a bound field that is missing, of another kind
  or has a staged write pending, or else, with all the fields restored, the block tables.
\<close>

definition blocks_restoration ::
  "('v, 'x) buffer_methods \<Rightarrow> auxiliary_roots \<Rightarrow> 'v root_snapshot \<Rightarrow> ('v, 'x) runner_state
   \<Rightarrow> auxiliary_error \<Rightarrow> bool" where
  "blocks_restoration ops aux snapshot m e \<longleftrightarrow>
     (\<exists>l kind. (l, kind) \<in> set (aux_bindings aux) \<and>
        (e = AbiOmits l \<and> cells m l = None
         \<or> e = WrongCellKind l \<and> cells m l \<noteq> None
           \<and> capture_cell ops (cells m) (l, kind) = Inl (WrongCellKind l)
         \<or> e = PendingStagedWrites l \<and> kind = StagedBinding
           \<and> (\<exists>v. cells m l = Some (Staged True v))))
     \<or> e \<in> {SnapshotRootUnknown, BlockGroupCountWrong, BlocksPerDiffers, TableIndexOutside,
            TableCapacityExceeded, TableCannotEncode}
       \<and> capture_auxiliary ops aux (aux_root_id snapshot) m = Inr snapshot"

lemma for_each_Inl:
  "for_each f xs s = (Inl e, s') \<Longrightarrow> \<exists>x \<in> set xs. \<exists>t. f x t = (Inl e, s')"
  by (induction xs arbitrary: s) (auto simp: sbind_Inl_iff)

lemma restore_binding_Inl:
  assumes "restore_binding ops values b m = (Inl e, m')" "map_of (rev values) (fst b) \<noteq> None"
    and "b \<in> set (aux_bindings aux)"
  shows "blocks_restoration ops aux snapshot m' e"
proof -
  obtain v where "m' = m" and blocked: "restore_cell ops (cells m') b v = Inl e"
    using assms(1,2) by (auto simp: restore_binding_def sbind_Inl_iff)
  obtain l kind where b: "b = (l, kind)" by (cases b)
  have "e = AbiOmits l \<and> cells m' l = None
      \<or> e = WrongCellKind l \<and> cells m' l \<noteq> None \<and> capture_cell ops (cells m') (l, kind) = Inl (WrongCellKind l)
      \<or> e = PendingStagedWrites l \<and> kind = StagedBinding \<and> (\<exists>v. cells m' l = Some (Staged True v))"
    using blocked by (auto simp: b restore_cell_def capture_cell_def
        split: binding_kind.splits option.splits cell.splits if_splits)
  then show ?thesis using assms(3) unfolding b blocks_restoration_def by blast
qed

lemma raises_only_for_each: "(\<And>x. raises_only P (f x)) \<Longrightarrow> raises_only P (for_each f xs)"
  by (induction xs) auto

lemma activate_block_tables_errors:
  "raises_only (\<lambda>e. e \<in> {SnapshotRootUnknown, BlockGroupCountWrong, BlocksPerDiffers, TableIndexOutside,
     TableCapacityExceeded, TableCannotEncode}) (activate_block_tables ops aux root)"
proof -
  have w: "raises_only (\<lambda>e. e \<in> {SnapshotRootUnknown, BlockGroupCountWrong, BlocksPerDiffers,
     TableIndexOutside, TableCapacityExceeded, TableCannotEncode}) (write_worker_table x)"
    for x :: "nat \<times> int list \<times> nat"
    by (cases x) (auto simp: raises_only_def write_worker_table_def Let_def sbind_def assert_that_def)
  show ?thesis
    unfolding activate_block_tables_def Let_def
    by (intro raises_only_sbind raises_only_pure raises_only_for_each w) auto
qed

lemma restore_auxiliary_Inl:
  assumes law: "mirrors_copy ops" and ok: "aux_ok aux" and captured: "captured_snapshot aux snapshot"
    and run: "restore_auxiliary ops aux snapshot m = (Inl e, m')"
  shows "blocks_restoration ops aux snapshot m' e"
proof -
  have labels: "map fst (aux_values snapshot) = map fst (aux_bindings aux)"
    and schema: "aux_schema snapshot = AUXILIARY_ROOT_SCHEMA"
    using captured by (simp_all add: captured_snapshot_def)
  from labels have sets: "fst ` set (aux_values snapshot) = fst ` set (aux_bindings aux)"
    by (metis list.set_map)
  have known: "map_of (rev (aux_values snapshot)) (fst b) \<noteq> None" if "b \<in> set (aux_bindings aux)" for b
    using that sets by (metis imageI map_of_eq_None_iff set_rev)
  obtain q a where loop: "for_each (restore_binding ops (aux_values snapshot)) (aux_bindings aux) m = (q, a)"
    by (cases "for_each (restore_binding ops (aux_values snapshot)) (aux_bindings aux) m")
  show ?thesis
  proof (cases q)
    case (Inl d)
    then have "d = e" "a = m'" using run loop sets schema by (simp_all add: restore_auxiliary_def sbind_def assert_that_def)
    then obtain b t where "b \<in> set (aux_bindings aux)"
      "restore_binding ops (aux_values snapshot) b t = (Inl e, m')"
      using for_each_Inl [OF loop [unfolded Inl]] by blast
    then show ?thesis using restore_binding_Inl known by blast
  next
    case (Inr u)
    have done_fields: "capture_auxiliary ops aux (aux_root_id snapshot) a = Inr snapshot"
      using restored_bindings_capture [OF law ok captured] loop Inr by simp
    have "cells m' = cells a \<and> e \<in> {SnapshotRootUnknown, BlockGroupCountWrong, BlocksPerDiffers,
        TableIndexOutside, TableCapacityExceeded, TableCannotEncode}"
    proof (cases "find (\<lambda>root. root_id root = aux_root_id snapshot) (rev (aux_roots aux))")
      case None
      then show ?thesis
        using run loop Inr sets schema by (auto simp: restore_auxiliary_def sbind_def assert_that_def)
    next
      case (Some root)
      then have "activate_block_tables ops aux root (a\<lparr>recoverssm_step := False\<rparr>) = (Inl e, m')"
        using run loop Inr sets schema by (simp add: restore_auxiliary_def sbind_def assert_that_def)
      then show ?thesis
        using keepsD [OF activate_block_tables_frame] raises_onlyD [OF activate_block_tables_errors]
        by (fastforce simp: same_cells_def)
    qed
    then show ?thesis
      using done_fields capture_auxiliary_cells [of m' a] by (auto simp: blocks_restoration_def)
  qed
qed

subsection \<open>Private execution\<close>

lemma synchronize_result: "synchronize ops m = (r, m') \<Longrightarrow> m' = m \<and> (r = Inr () \<or> r = Inl DeviceFailed)"
  by (auto simp: synchronize_def assert_that_def split: if_splits)

text \<open>The part between entering and leaving the \<open>try\<close> statement.\<close>

definition private_part ::
  "('v, 'x) buffer_methods \<Rightarrow> auxiliary_roots \<Rightarrow> string \<Rightarrow> 'v root_snapshot \<Rightarrow> ('v, 'x, 'a) aux_op
   \<Rightarrow> ('v, 'x, 'a) aux_op" where
  "private_part ops aux root selected run =
     sbind (restore_auxiliary ops aux selected) (\<lambda>_.
     sbind (synchronize ops) (\<lambda>_.
     sbind run (\<lambda>x.
     sbind (synchronize ops) (\<lambda>_.
     sbind (gets (capture_auxiliary ops aux root)) (\<lambda>captured.
     sbind (lift_result captured) (\<lambda>taken.
     sbind (modify (\<lambda>m. m\<lparr>snapshots := AList.update root taken (snapshots m)\<rparr>)) (\<lambda>_.
     ret x)))))))"

lemma private_part_snapshots:
  assumes run: "private_part ops aux root selected action m = (r, m')"
    and body_keeps: "keeps (\<lambda>a b. snapshots b = snapshots a) action"
  shows "(\<exists>x. r = Inr x) \<Longrightarrow> \<exists>taken. captured_snapshot aux taken \<and> aux_root_id taken = root
      \<and> snapshots m' = AList.update root taken (snapshots m)"
    and "(\<exists>e. r = Inl e) \<Longrightarrow> snapshots m' = snapshots m"
proof -
  have frame: "snapshots b = snapshots a" if "restore_auxiliary ops aux selected a = (q, b)" for a q b
    using keepsD [OF restore_auxiliary_frame that] by (simp add: same_roots_def)
  have kept: "snapshots b = snapshots a" if "action a = (q, b)" for a q b
    using keepsD [OF body_keeps that] .
  show "\<exists>taken. captured_snapshot aux taken \<and> aux_root_id taken = root
      \<and> snapshots m' = AList.update root taken (snapshots m)" if returned: "\<exists>x. r = Inr x"
  proof -
    obtain x where "private_part ops aux root selected action m = (Inr x, m')" using run returned by auto
    then obtain a b taken where "restore_auxiliary ops aux selected m = (Inr (), a)" "action a = (Inr x, b)"
      "capture_auxiliary ops aux root b = Inr taken"
      "m' = b\<lparr>snapshots := AList.update root taken (snapshots b)\<rparr>"
      by (auto simp: private_part_def sbind_Inr_iff dest!: synchronize_result)
    moreover from this have "snapshots b = snapshots m" using frame kept by metis
    ultimately show ?thesis
      using capture_auxiliary_Inr [of ops aux root b taken] by (intro exI [of _ taken]) simp
  qed
  show "snapshots m' = snapshots m" if raised: "\<exists>e. r = Inl e"
  proof -
    obtain e where "private_part ops aux root selected action m = (Inl e, m')" using run raised by auto
    then show ?thesis
      by (auto simp: private_part_def sbind_Inl_iff dest!: synchronize_result frame kept)
  qed
qed

lemma bank_canonical_iff:
  "bank_canonical m = (Inr b, m') \<longleftrightarrow> m' = m \<and> canonical_root (authority_view m) (table_bank_state m) = Inr b"
  "bank_canonical m = (Inl e, m') \<longleftrightarrow> m' = m
     \<and> (\<exists>t. canonical_root (authority_view m) (table_bank_state m) = Inl t \<and> e = BankFailed t)"
  by (auto simp: bank_canonical_def split: sum.splits)

lemma snapshot_of_iff:
  "snapshot_of root absent m = (Inr s, m') \<longleftrightarrow> m' = m \<and> map_of (snapshots m) root = Some s"
  "snapshot_of root absent m = (Inl e, m') \<longleftrightarrow> m' = m \<and> map_of (snapshots m) root = None \<and> e = absent"
  by (auto simp: snapshot_of_def split: option.splits)

lemma selecting_cases:
  assumes "selecting root run m = (r, m')"
  shows "(\<exists>t. r = Inl (BankFailed t)) \<and> m' = m
    \<or> (\<exists>a. run (m\<lparr>table_bank_state := (table_bank_state m)\<lparr>root_selection := Some root\<rparr>\<rparr>) = (r, a)
        \<and> m' = a\<lparr>table_bank_state := (table_bank_state a)\<lparr>root_selection := root_selection (table_bank_state m)\<rparr>\<rparr>)"
proof (cases "table_root_id root")
  case (Inl e)
  then show ?thesis using assms by (auto simp: selecting_def sbind_def)
next
  case (Inr u)
  show ?thesis
  proof (cases "canonical_root (authority_view m) (table_bank_state m)")
    case (Inl e)
    then show ?thesis using assms Inr by (auto simp: selecting_def sbind_def bank_canonical_def)
  next
    case (Inr base)
    obtain q a where "run (m\<lparr>table_bank_state := (table_bank_state m)\<lparr>root_selection := Some root\<rparr>\<rparr>) = (q, a)"
      by (cases "run (m\<lparr>table_bank_state := (table_bank_state m)\<lparr>root_selection := Some root\<rparr>\<rparr>)")
    then show ?thesis
      using assms \<open>table_root_id root = Inr u\<close> Inr
      by (auto simp: selecting_def sbind_def bank_canonical_def assert_that_def attempt_def split: if_splits)
  qed
qed

lemma shows_snapshot_bank:
  "shows_snapshot ops aux s (m\<lparr>table_bank_state := b\<rparr>) \<longleftrightarrow> shows_snapshot ops aux s m"
proof -
  have "capture_auxiliary ops aux root (m\<lparr>table_bank_state := b\<rparr>) = capture_auxiliary ops aux root m" for root
    by (rule capture_auxiliary_cells) simp
  moreover have "tables_show aux root (m\<lparr>table_bank_state := b\<rparr>) \<longleftrightarrow> tables_show aux root m" for root
    by (simp add: tables_show_def)
  ultimately show ?thesis by (simp add: shows_snapshot_def)
qed

lemma blocks_restoration_bank:
  "blocks_restoration ops aux s (m\<lparr>table_bank_state := b\<rparr>) e \<longleftrightarrow> blocks_restoration ops aux s m e"
  by (simp add: blocks_restoration_def capture_auxiliary_def)

text \<open>What a private execution did to the stored snapshots.\<close>

definition renewed_root ::
  "auxiliary_roots \<Rightarrow> string \<Rightarrow> ('v, 'x) runner_state \<Rightarrow> ('v, 'x) runner_state \<Rightarrow> bool" where
  "renewed_root aux root m m' \<longleftrightarrow>
     (\<exists>taken. captured_snapshot aux taken \<and> aux_root_id taken = root
        \<and> snapshots m' = AList.update root taken (snapshots m))"

text \<open>The \<open>finally\<close> clause: the part, and then restoring and synchronizing.\<close>

lemma finally_restores:
  assumes run: "sbind (attempt (private_part ops aux root selected action)) (\<lambda>outcome.
      sbind (restore_auxiliary ops aux saved) (\<lambda>_. sbind (synchronize ops) (\<lambda>_. lift_result outcome))) m
      = (r, m')"
    and law: "mirrors_copy ops" "aux_ok aux" "captured_snapshot aux saved"
    and body_keeps: "keeps (\<lambda>a b. snapshots b = snapshots a) action"
  shows "case r of
      Inr x \<Rightarrow> shows_snapshot ops aux saved m' \<and> renewed_root aux root m m'
    | Inl e \<Rightarrow> shows_snapshot ops aux saved m'
          \<and> (snapshots m' = snapshots m \<or> e = DeviceFailed \<and> renewed_root aux root m m')
        \<or> blocks_restoration ops aux saved m' e
          \<and> (snapshots m' = snapshots m \<or> renewed_root aux root m m')"
proof -
  obtain q a where part: "private_part ops aux root selected action m = (q, a)"
    by (cases "private_part ops aux root selected action m")
  obtain q2 b where restored: "restore_auxiliary ops aux saved a = (q2, b)"
    by (cases "restore_auxiliary ops aux saved a")
  obtain q3 c where synced: "synchronize ops b = (q3, c)" by (cases "synchronize ops b")
  have r: "r = (case q2 of Inl e \<Rightarrow> Inl e | Inr _ \<Rightarrow> (case q3 of Inl e \<Rightarrow> Inl e | Inr _ \<Rightarrow> q))" and m': "m' = b"
    using run synchronize_result [OF synced]
    by (auto simp: sbind_def attempt_def part restored synced split: sum.splits)
  have kept: "snapshots m' = snapshots a"
    using keepsD [OF restore_auxiliary_frame restored] by (simp add: m' same_roots_def)
  note snaps = private_part_snapshots [OF part body_keeps]
  have stored: "case q of Inr x \<Rightarrow> renewed_root aux root m m' | Inl e \<Rightarrow> snapshots m' = snapshots m"
    using snaps kept by (cases q) (auto simp: renewed_root_def)
  show ?thesis
  proof (cases q2)
    case (Inl e)
    then have "blocks_restoration ops aux saved m' e"
      using restore_auxiliary_Inl [OF law] restored m' by simp
    then show ?thesis using Inl r stored by (auto split: sum.splits)
  next
    case (Inr u)
    then have "shows_snapshot ops aux saved m'"
      using restore_auxiliary_Inr [OF law] restored m' by simp
    then show ?thesis
      using Inr r stored synchronize_result [OF synced] by (auto split: sum.splits)
  qed
qed

lemma execute_private_spec:
  assumes run: "execute_private ops aux root action m = (r, m')"
    and law: "mirrors_copy ops" "aux_ok aux"
    and body_keeps: "keeps (\<lambda>a b. snapshots b = snapshots a) action"
    and base: "canonical_root (authority_view m) (table_bank_state m) = Inr base"
      "map_of (snapshots m) base = Some saved" "captured_snapshot aux saved"
  shows "root_selection (table_bank_state m') = root_selection (table_bank_state m)"
    and "map_of (snapshots m') base = Some saved"
    and "case r of
        Inr x \<Rightarrow> shows_snapshot ops aux saved m' \<and> renewed_root aux root m m'
      | Inl e \<Rightarrow> m' = m \<and> (e = PrivateNotPrepared \<or> (\<exists>t. e = BankFailed t))
          \<or> shows_snapshot ops aux saved m'
            \<and> (snapshots m' = snapshots m \<or> e = DeviceFailed \<and> renewed_root aux root m m')
          \<or> blocks_restoration ops aux saved m' e
            \<and> (snapshots m' = snapshots m \<or> renewed_root aux root m m')"
proof -
  consider (refused) "m' = m" "r = Inl PrivateNotPrepared \<or> (\<exists>t. r = Inl (BankFailed t))"
    | (entered) selected where "root \<noteq> base"
      "selecting root (sbind (attempt (private_part ops aux root selected action))
        (\<lambda>outcome. sbind (restore_auxiliary ops aux saved) (\<lambda>_.
         sbind (synchronize ops) (\<lambda>_. lift_result outcome)))) m = (r, m')"
    using run base
    by (auto simp: execute_private_def private_part_def [symmetric] sbind_def bank_canonical_def snapshot_of_def
        assert_that_def split: option.splits if_splits)
  then have "root_selection (table_bank_state m') = root_selection (table_bank_state m)
    \<and> map_of (snapshots m') base = Some saved
    \<and> (case r of
        Inr x \<Rightarrow> shows_snapshot ops aux saved m' \<and> renewed_root aux root m m'
      | Inl e \<Rightarrow> m' = m \<and> (e = PrivateNotPrepared \<or> (\<exists>t. e = BankFailed t))
          \<or> shows_snapshot ops aux saved m'
            \<and> (snapshots m' = snapshots m \<or> e = DeviceFailed \<and> renewed_root aux root m m')
          \<or> blocks_restoration ops aux saved m' e
            \<and> (snapshots m' = snapshots m \<or> renewed_root aux root m m'))"
  proof cases
    case entered
    from selecting_cases [OF entered(2)] show ?thesis
    proof (elim disjE exE conjE)
      fix t
      assume "r = Inl (BankFailed t)" "m' = m"
      then show ?thesis using base(2) by simp
    next
      fix a
      assume inner: "sbind (attempt (private_part ops aux root selected action))
        (\<lambda>outcome. sbind (restore_auxiliary ops aux saved) (\<lambda>_.
         sbind (synchronize ops) (\<lambda>_. lift_result outcome)))
         (m\<lparr>table_bank_state := (table_bank_state m)\<lparr>root_selection := Some root\<rparr>\<rparr>) = (r, a)"
        and m': "m' = a\<lparr>table_bank_state := (table_bank_state a)\<lparr>root_selection := root_selection (table_bank_state m)\<rparr>\<rparr>"
      note f = finally_restores [OF inner law base(3) body_keeps]
      have "snapshots m' = snapshots m \<or> renewed_root aux root m m'"
        using f by (auto simp: m' renewed_root_def split: sum.splits)
      then have "map_of (snapshots m') base = Some saved"
        using base(2) entered(1) by (auto simp: renewed_root_def update_conv')
      then show ?thesis
        using f by (auto simp: m' renewed_root_def shows_snapshot_bank blocks_restoration_bank split: sum.splits)
    qed
  qed (use base(2) in auto)
  then show "root_selection (table_bank_state m') = root_selection (table_bank_state m)"
    and "map_of (snapshots m') base = Some saved"
    and "case r of
        Inr x \<Rightarrow> shows_snapshot ops aux saved m' \<and> renewed_root aux root m m'
      | Inl e \<Rightarrow> m' = m \<and> (e = PrivateNotPrepared \<or> (\<exists>t. e = BankFailed t))
          \<or> shows_snapshot ops aux saved m'
            \<and> (snapshots m' = snapshots m \<or> e = DeviceFailed \<and> renewed_root aux root m m')
          \<or> blocks_restoration ops aux saved m' e
            \<and> (snapshots m' = snapshots m \<or> renewed_root aux root m m')"
    by blast+
qed

subsection \<open>Publication\<close>

lemma bank_publish_result:
  assumes "bank_publish x expected selected b = (r, b')"
  shows "(\<exists>e. r = Inl e) \<Longrightarrow> b' = b"
    and "r = Inr c \<Longrightarrow> canonical_root x b = Inr expected \<and> own_canonical b' = selected"
proof -
  show "b' = b" if "\<exists>e. r = Inl e"
    using assms that by (auto simp: bank_publish_def action_simps)
  show "canonical_root x b = Inr expected \<and> own_canonical b' = selected" if "r = Inr c"
    using assms that by (auto simp: bank_publish_def action_simps)
qed

text \<open>The body of the \<open>try\<close> statement.\<close>

definition publication_part ::
  "('v, 'x) buffer_methods \<Rightarrow> auxiliary_roots \<Rightarrow> 'v root_snapshot \<Rightarrow> string \<Rightarrow> string \<Rightarrow> ('v, 'x, string) aux_op" where
  "publication_part ops aux chosen expected selected =
     sbind (restore_auxiliary ops aux chosen) (\<lambda>_.
     sbind (synchronize ops) (\<lambda>_. run_bank_publish expected selected))"

lemma run_bank_publish_result:
  assumes "run_bank_publish expected selected m = (r, m')"
  shows "(\<exists>e. r = Inl e) \<Longrightarrow> table_bank_state m' = table_bank_state m"
    and "r = Inr c \<Longrightarrow> own_canonical (table_bank_state m') = selected \<and> (\<exists>b. m' = m\<lparr>table_bank_state := b\<rparr>)"
proof -
  obtain q b where p: "bank_publish (authority_view m) expected selected (table_bank_state m) = (q, b)"
    by (cases "bank_publish (authority_view m) expected selected (table_bank_state m)")
  show "(\<exists>e. r = Inl e) \<Longrightarrow> table_bank_state m' = table_bank_state m"
    using assms bank_publish_result(1) [OF p] by (auto simp: run_bank_publish_def p split: sum.splits)
  show "r = Inr c \<Longrightarrow> own_canonical (table_bank_state m') = selected \<and> (\<exists>b. m' = m\<lparr>table_bank_state := b\<rparr>)"
    using assms bank_publish_result(2) [OF p] by (auto simp: run_bank_publish_def p split: sum.splits)
qed

lemma publication_part_result:
  assumes law: "mirrors_copy ops" "aux_ok aux" "captured_snapshot aux chosen"
    and run: "publication_part ops aux chosen expected selected m = (r, m')"
  shows "(\<exists>e. r = Inl e) \<Longrightarrow> table_bank_state m' = table_bank_state m"
    and "r = Inr c \<Longrightarrow> shows_snapshot ops aux chosen m' \<and> own_canonical (table_bank_state m') = selected"
proof -
  have kept: "table_bank_state a = table_bank_state m" if "restore_auxiliary ops aux chosen m = (q, a)" for q a
    using keepsD [OF restore_auxiliary_frame that] by (simp add: same_roots_def)
  show "table_bank_state m' = table_bank_state m" if raised: "\<exists>e. r = Inl e"
  proof -
    obtain e where "publication_part ops aux chosen expected selected m = (Inl e, m')" using run raised by auto
    then show ?thesis
      by (auto simp: publication_part_def sbind_Inl_iff
          dest!: synchronize_result kept dest: run_bank_publish_result(1))
  qed
  show "shows_snapshot ops aux chosen m' \<and> own_canonical (table_bank_state m') = selected" if returned: "r = Inr c"
  proof -
    obtain a where restored: "restore_auxiliary ops aux chosen m = (Inr (), a)"
      and published: "run_bank_publish expected selected a = (Inr c, m')"
      using run returned by (auto simp: publication_part_def sbind_Inr_iff dest!: synchronize_result)
    show ?thesis
      using restore_auxiliary_Inr [OF law restored] run_bank_publish_result(2) [OF published refl]
      by (auto simp: shows_snapshot_bank)
  qed
qed

lemma undo_publication_result:
  assumes "undo_publication ops aux old e m = (r, m')"
  shows "table_bank_state m' = table_bank_state m" "\<exists>d. r = Inl d"
proof -
  have kept: "table_bank_state a = table_bank_state m" if "restore_auxiliary ops aux old m = (q, a)" for q a
    using keepsD [OF restore_auxiliary_frame that] by (simp add: same_roots_def)
  show raised: "\<exists>d. r = Inl d" using assms by (cases r) (auto simp: undo_publication_def sbind_Inr_iff)
  then obtain d where "r = Inl d" by blast
  then show "table_bank_state m' = table_bank_state m"
    using assms by (auto simp: undo_publication_def sbind_Inl_iff dest!: synchronize_result kept)
qed

text \<open>Publication either moves the pointer to a root whose state the scratch shows, or not at all.\<close>

lemma publish_auxiliary_spec:
  assumes run: "publish_auxiliary ops aux expected selected m = (r, m')"
    and law: "mirrors_copy ops" "aux_ok aux"
    and captured: "\<forall>s \<in> snd ` set (snapshots m). captured_snapshot aux s"
  shows "(\<exists>e. r = Inl e) \<Longrightarrow> table_bank_state m' = table_bank_state m"
    and "r = Inr c \<Longrightarrow> \<exists>s. map_of (snapshots m) selected = Some s \<and> shows_snapshot ops aux s m'
      \<and> own_canonical (table_bank_state m') = selected"
proof -
  have ok: "captured_snapshot aux s" if "map_of (snapshots m) k = Some s" for k s
    using captured map_of_SomeD [OF that] by force
  show "table_bank_state m' = table_bank_state m" if raised: "\<exists>e. r = Inl e"
  proof -
    obtain e where "publish_auxiliary ops aux expected selected m = (Inl e, m')" using run raised by auto
    then consider "m' = m" | chosen old d a where "map_of (snapshots m) selected = Some chosen"
        "publication_part ops aux chosen expected selected m = (Inl d, a)"
        "undo_publication ops aux old d a = (Inl e :: auxiliary_error + string, m')"
      by (auto simp: publish_auxiliary_def publication_part_def [symmetric] action_simps bank_canonical_iff
          snapshot_of_iff)
    then show ?thesis
    proof cases
      case 2
      have "table_bank_state a = table_bank_state m"
        by (rule publication_part_result(1) [OF law ok [OF 2(1)] 2(2)]) blast
      then show ?thesis using undo_publication_result(1) [OF 2(3)] by simp
    qed simp
  qed
  show "\<exists>s. map_of (snapshots m) selected = Some s \<and> shows_snapshot ops aux s m'
      \<and> own_canonical (table_bank_state m') = selected" if returned: "r = Inr c"
  proof -
    have "publish_auxiliary ops aux expected selected m = (Inr c, m')" using run returned by simp
    then obtain chosen where chosen: "map_of (snapshots m) selected = Some chosen"
      and "publication_part ops aux chosen expected selected m = (Inr c, m')"
      using undo_publication_result(2)
      by (fastforce simp: publish_auxiliary_def publication_part_def [symmetric] action_simps bank_canonical_iff
          snapshot_of_iff)
    then show ?thesis using publication_part_result(2) [OF law ok] by blast
  qed
qed

end
