(* ===== verification/Auxiliary_Properties.thy ===== *)
theory Auxiliary_Properties
  imports Auxiliary_Safety Authority_Properties
begin

section \<open>Properties of the auxiliary roots\<close>

subsection \<open>A concrete runner\<close>

definition demo_aux :: auxiliary_roots where
  "demo_aux = \<lparr>aux_request = ''request'', aux_roots = [root_a, root_b, root_c],
     aux_bindings = [(''tokens'', StagedBinding), (''seed'', UvaBinding), (''draft'', PlainBinding)]\<rparr>"

definition demo_snapshot :: "string \<Rightarrow> nat \<Rightarrow> nat root_snapshot" where
  "demo_snapshot root n = \<lparr>aux_schema = AUXILIARY_ROOT_SCHEMA, aux_root_id = root,
     aux_values = [(''tokens'', n), (''seed'', n), (''draft'', n)]\<rparr>"

definition demo_runner :: "(nat, unit) runner_state" where
  "demo_runner = \<lparr>cells = [''tokens'' \<mapsto> Staged False 1, ''seed'' \<mapsto> Mirrored 1 1, ''draft'' \<mapsto> Plain 1],
     recoverssm_step = True, table_rows = replicate 69 [0, 0], blocks_per_kv_block = replicate 69 1,
     block_counts = replicate 69 0, block_counts_mirror = replicate 69 0, tables_encode = True,
     quest_tokens = Map.empty, quest_tables = Map.empty,
     snapshots = [(''a'', demo_snapshot ''a'' 1), (''b'', demo_snapshot ''b'' 1), (''c'', demo_snapshot ''c'' 1)],
     table_bank_state = \<lparr>bank_request = ''request'', root_tables = [(''a'', []), (''b'', []), (''c'', [])],
       own_canonical = ''a'', external_getter = None, root_selection = None\<rparr>, authority_view = ()\<rparr>"

definition demo_buffers :: "(nat, unit) buffer_methods" where
  "demo_buffers = \<lparr>copy_value_to_mirror = (\<lambda>v _. v), copy_counts_to_mirror = (\<lambda>c _. c), values_equal = (=),
     device_synchronizes = (\<lambda>_. True)\<rparr>"

text \<open>Code that overwrites what it runs on and raises.\<close>

definition demo_execution :: "(nat, unit, unit) aux_op" where
  "demo_execution m = (Inl (ExecutionFailed ''error''), m\<lparr>cells := [''tokens'' \<mapsto> Staged False 9,
     ''seed'' \<mapsto> Mirrored 9 8, ''draft'' \<mapsto> Plain 9], quest_tokens := Map.empty\<rparr>)"

text \<open>Code that leaves a staged write pending and raises.\<close>

definition demo_pending :: "(nat, unit, unit) aux_op" where
  "demo_pending m = (Inl (ExecutionFailed ''error''), m\<lparr>cells := [''tokens'' \<mapsto> Staged True 9,
     ''seed'' \<mapsto> Mirrored 9 9, ''draft'' \<mapsto> Plain 9]\<rparr>)"

lemma demo_aux_ok: "aux_ok demo_aux" "mirrors_copy demo_buffers"
  by (simp_all add: aux_ok_def demo_aux_def mirrors_copy_def demo_buffers_def)

lemma demo_execution_runs:
  "fst (execute_private demo_buffers demo_aux ''b'' demo_execution demo_runner) = Inl (ExecutionFailed ''error'')"
  by code_simp

lemma demo_pending_runs:
  "fst (execute_private demo_buffers demo_aux ''b'' demo_pending demo_runner)
     = Inl (PendingStagedWrites ''tokens'')"
  by code_simp

lemma demo_publication_runs:
  "fst (publish_auxiliary demo_buffers demo_aux ''a'' ''b'' demo_runner) = Inr ''a''"
  by code_simp

subsection \<open>The properties\<close>

text \<open>
  C32: Take a runner whose bank has a canonical root with a captured snapshot, distinct binding
  labels and root identifiers (the constructor checks both), buffers whose mirrors equal
  what was copied to them (\<open>mirrors_copy\<close>), and any code that does not itself replace the
  stored snapshots.  Running it under \<open>execute_private\<close> has one of
  these outcomes.  If the call returns, the runner shows the canonical snapshot (every bound
  field captures to exactly the values of that snapshot; the worker's block tables, their
  counts and the Quest identity are those of the canonical root), and the private root, and no
  other, has a new snapshot.  If it raises, then either the execution was refused before it
  changed anything, or the runner shows the canonical snapshot and the stored snapshots are
  as they were (the private root may have a new one if a device synchronization failed), or
  the restoration itself failed, with an error that names what blocks it: a bound field that
  is missing, of another kind or has a staged write pending, or, with all the fields
  restored, the block tables.  In every case the table bank has its former selection and the
  canonical root its snapshot.
\<close>

theorem private_execution_restores_the_runner:
  assumes "execute_private ops aux root action m = (r, m')"
    and "mirrors_copy ops" "aux_ok aux" "keeps (\<lambda>a b. snapshots b = snapshots a) action"
    and "canonical_root (authority_view m) (table_bank_state m) = Inr base"
      "map_of (snapshots m) base = Some saved" "captured_snapshot aux saved"
  shows "root_selection (table_bank_state m') = root_selection (table_bank_state m)
    \<and> map_of (snapshots m') base = Some saved
    \<and> (case r of
        Inr x \<Rightarrow> shows_snapshot ops aux saved m' \<and> renewed_root aux root m m'
      | Inl e \<Rightarrow> m' = m \<and> (e = PrivateNotPrepared \<or> (\<exists>t. e = BankFailed t))
          \<or> shows_snapshot ops aux saved m'
            \<and> (snapshots m' = snapshots m \<or> e = DeviceFailed \<and> renewed_root aux root m m')
          \<or> blocks_restoration ops aux saved m' e
            \<and> (snapshots m' = snapshots m \<or> renewed_root aux root m m'))"
  using execute_private_spec [OF assms] by blast

text \<open>
  C33: Publication through the table bank is atomic: if it returns, the pointer of the bank is
  the selected root and the runner shows that root's snapshot, tables and Quest identity;
  if it raises, at whatever point, the bank is exactly as it was.
\<close>

theorem auxiliary_publication_is_atomic:
  assumes "publish_auxiliary ops aux expected selected m = (r, m')"
    and "mirrors_copy ops" "aux_ok aux" "\<forall>s \<in> snd ` set (snapshots m). captured_snapshot aux s"
  shows "case r of
      Inl e \<Rightarrow> table_bank_state m' = table_bank_state m
    | Inr c \<Rightarrow> own_canonical (table_bank_state m') = selected
        \<and> (\<exists>s. map_of (snapshots m) selected = Some s \<and> shows_snapshot ops aux s m')"
  using publish_auxiliary_spec [OF assms] by (cases r) auto

lemma demo_snapshots_captured: "captured_snapshot demo_aux (demo_snapshot root n)"
  by (simp add: captured_snapshot_def demo_aux_def demo_snapshot_def)

lemma demo_pending_unrestored:
  "\<not> shows_snapshot demo_buffers demo_aux (demo_snapshot ''a'' 1)
     (snd (execute_private demo_buffers demo_aux ''b'' demo_pending demo_runner))"
proof -
  have "(case capture_auxiliary demo_buffers demo_aux ''a''
       (snd (execute_private demo_buffers demo_aux ''b'' demo_pending demo_runner)) of
     Inl e \<Rightarrow> True | Inr s \<Rightarrow> False)"
    by code_simp
  then show ?thesis
    by (auto simp: shows_snapshot_def demo_snapshot_def)
qed

theorem private_execution_restores_the_runner_witness:
  "let m' = snd (execute_private demo_buffers demo_aux ''b'' demo_execution demo_runner);
       m'' = snd (execute_private demo_buffers demo_aux ''b'' demo_pending demo_runner)
   in shows_snapshot demo_buffers demo_aux (demo_snapshot ''a'' 1) m'
      \<and> map_of (snapshots m') ''a'' = Some (demo_snapshot ''a'' 1)
      \<and> (\<exists>v. cells m'' ''tokens'' = Some (Staged True v)) \<and> root_selection (table_bank_state m'') = None"
proof -
  obtain r m' where run: "execute_private demo_buffers demo_aux ''b'' demo_execution demo_runner = (r, m')"
    and r: "r = Inl (ExecutionFailed ''error'')"
    using demo_execution_runs by (metis prod.collapse)
  obtain q m'' where pending: "execute_private demo_buffers demo_aux ''b'' demo_pending demo_runner = (q, m'')"
    and q: "q = Inl (PendingStagedWrites ''tokens'')"
    using demo_pending_runs by (metis prod.collapse)
  have keeps: "keeps (\<lambda>a b. snapshots b = snapshots a) demo_execution"
    "keeps (\<lambda>a b. snapshots b = snapshots a) demo_pending"
    by (simp_all add: keeps_def demo_execution_def demo_pending_def)
  have base: "canonical_root (authority_view demo_runner) (table_bank_state demo_runner) = Inr ''a''"
    "map_of (snapshots demo_runner) ''a'' = Some (demo_snapshot ''a'' 1)"
    "root_selection (table_bank_state demo_runner) = None"
    by (simp_all add: demo_runner_def canonical_root_def)
  have unrestored: "\<not> shows_snapshot demo_buffers demo_aux (demo_snapshot ''a'' 1) m''"
    using demo_pending_unrestored pending by (metis snd_conv)
  note spec = private_execution_restores_the_runner [OF _ demo_aux_ok(2,1) _ base(1,2) demo_snapshots_captured]
  show ?thesis
    using spec [OF run keeps(1)] spec [OF pending keeps(2)] run pending base(3) unrestored r q
    by (auto simp: blocks_restoration_def)
qed

theorem auxiliary_publication_is_atomic_witness:
  "own_canonical (table_bank_state (snd (publish_auxiliary demo_buffers demo_aux ''a'' ''b'' demo_runner))) = ''b''"
proof -
  have run: "publish_auxiliary demo_buffers demo_aux ''a'' ''b'' demo_runner
      = (Inr ''a'', snd (publish_auxiliary demo_buffers demo_aux ''a'' ''b'' demo_runner))"
    using demo_publication_runs by (simp add: prod_eq_iff)
  have "\<forall>s \<in> snd ` set (snapshots demo_runner). captured_snapshot demo_aux s"
    by (auto simp: demo_runner_def demo_snapshots_captured)
  then show ?thesis using auxiliary_publication_is_atomic [OF run demo_aux_ok(2,1)] by simp
qed

end
