(* ===== verification/M1_Plan.thy ===== *)
theory M1_Plan
  imports Root_Tables
begin

section \<open>Serial one-token plans\<close>

text \<open>
  Model of \<open>src/qwen_r9700_lab/live_commit_vllm_m1_plan.py\<close>: the scheduler output of one
  complete round is turned into as many worker inputs of one token each as the round
  commits.  A field that must be empty is \<open>None\<close> or a list; the metadata that a step drops is
  opaque.
\<close>

datatype plan_error =
    PlanRequestIdInvalid
  | CommitCountOutside
  | AdmitsRequests
  | NotTheProtectedRequest
  | ResumesRequests
  | NotOneCompleteRound
  | NotSevenDraftTokens
  | NotExactlyOneRequest
  | CounterInvalid
  | TokenOwnershipDiffers
  | BlockDeltaInvalid
  | SideEffects string
  | TotalTokensDiffer

record 'b cached_requests =
  cached_ids :: "string list"
  resumed_ids :: "string list"
  computed_tokens :: "int list"
  output_tokens :: "int list"
  new_token_ids :: "int list list"
  new_block_ids :: "'b option list"

record ('b, 'd) scheduler_output =
  new_requests :: "string list"
  cached_requests :: "'b cached_requests"
  scheduled_tokens :: "(string \<times> int) list"
  draft_tokens :: "(string \<times> int list) list"
  total_scheduled_tokens :: int
  encoder_inputs :: "'d list option"
  finished_ids :: "'d list option"
  freed_encoder_hashes :: "'d list option"
  preempted_ids :: "'d list option"
  cache_block_copies :: "'d list option"
  tail_offloads :: "'d list option"
  tree_metadata :: "'d list option"
  encoder_input_stats :: "'d option"
  invalid_spec_tokens :: "'d option"
  kv_connector_metadata :: "'d option"
  ec_connector_metadata :: "'d option"
  ec_manager_metadata :: "'d option"
  block_ids_to_zero :: "'d option"
  spec_tokens_to_schedule :: int

definition single :: "int list \<Rightarrow> plan_error + int" where
  "single xs = (case xs of [x] \<Rightarrow> Inr x | _ \<Rightarrow> Inl NotExactlyOneRequest)"

definition empty_or_none :: "'d list option \<Rightarrow> string \<Rightarrow> plan_error + unit" where
  "empty_or_none v label = require (v = None \<or> v = Some []) (SideEffects label)"

definition serial_m1_step :: "string \<Rightarrow> int \<Rightarrow> int \<Rightarrow> ('b, 'd) scheduler_output \<Rightarrow> nat \<Rightarrow> ('b, 'd) scheduler_output" where
  "serial_m1_step request base_computed base_output out i =
     out\<lparr>cached_requests := (cached_requests out)\<lparr>new_block_ids := [None],
           computed_tokens := [base_computed + int i], output_tokens := [base_output + int i]\<rparr>,
         scheduled_tokens := [(request, 1)], total_scheduled_tokens := 1, draft_tokens := [],
         encoder_inputs := Some [], encoder_input_stats := None, invalid_spec_tokens := None,
         kv_connector_metadata := None, ec_connector_metadata := None, ec_manager_metadata := None,
         block_ids_to_zero := None, cache_block_copies := None, tail_offloads := None,
         spec_tokens_to_schedule := 0, tree_metadata := Some []\<rparr>"

definition build_serial_m1_steps ::
  "('b, 'd) scheduler_output \<Rightarrow> string \<Rightarrow> int \<Rightarrow> plan_error + ('b, 'd) scheduler_output list" where
  "build_serial_m1_steps out request count =
     (let cached = cached_requests out in
      if request = [] then Inl PlanRequestIdInvalid
      else if count < 0 \<or> int MAX_COMMIT_WIDTH < count then Inl CommitCountOutside
      else if count = 0 then Inr []
      else if new_requests out \<noteq> [] then Inl AdmitsRequests
      else if cached_ids cached \<noteq> [request] then Inl NotTheProtectedRequest
      else if resumed_ids cached \<noteq> [] then Inl ResumesRequests
      else if scheduled_tokens out \<noteq> [(request, int MAX_COMMIT_WIDTH)] then Inl NotOneCompleteRound
      else if \<not> (case draft_tokens out of
                   [(owner, tokens)] \<Rightarrow> owner = request \<and> length tokens = MAX_COMMIT_WIDTH - 1
                 | _ \<Rightarrow> False) then Inl NotSevenDraftTokens
      else rbind (single (computed_tokens cached)) (\<lambda>base_computed.
           rbind (single (output_tokens cached)) (\<lambda>base_output.
           if base_computed < 0 \<or> base_output < 0 then Inl CounterInvalid
           else if new_token_ids cached \<noteq> [] then Inl TokenOwnershipDiffers
           else if length (new_block_ids cached) \<noteq> 1 then Inl BlockDeltaInvalid
           else rbind (empty_or_none (encoder_inputs out) ''scheduled_encoder_inputs'') (\<lambda>_.
                rbind (empty_or_none (finished_ids out) ''finished_req_ids'') (\<lambda>_.
                rbind (empty_or_none (freed_encoder_hashes out) ''free_encoder_mm_hashes'') (\<lambda>_.
                rbind (empty_or_none (preempted_ids out) ''preempted_req_ids'') (\<lambda>_.
                rbind (empty_or_none (cache_block_copies out) ''kv_cache_block_copies'') (\<lambda>_.
                rbind (empty_or_none (tail_offloads out) ''partial_tail_offloads'') (\<lambda>_.
                rbind (empty_or_none (tree_metadata out) ''draft_tree_metadata'') (\<lambda>_.
                if total_scheduled_tokens out \<noteq> int MAX_COMMIT_WIDTH then Inl TotalTokensDiffer
                else Inr (map (serial_m1_step request base_computed base_output out)
                              [0..<nat count])))))))))))"

text \<open>
  The plan is one step per committed token, each of one token, without drafts and with the
  counters advanced once per step before it; executed in order, the steps are a contiguous
  run of positions.
\<close>

lemma serial_plan_shape:
  assumes "build_serial_m1_steps out request count = Inr plan"
  shows "int (length plan) = count" "0 \<le> count" "count \<le> 8"
    and "\<forall>i < length plan. \<exists>c n. computed_tokens (cached_requests out) = [c]
      \<and> output_tokens (cached_requests out) = [n]
      \<and> computed_tokens (cached_requests (plan ! i)) = [c + int i]
      \<and> output_tokens (cached_requests (plan ! i)) = [n + int i]
      \<and> cached_ids (cached_requests (plan ! i)) = [request]
      \<and> scheduled_tokens (plan ! i) = [(request, 1)] \<and> total_scheduled_tokens (plan ! i) = 1
      \<and> draft_tokens (plan ! i) = [] \<and> new_requests (plan ! i) = []"
proof -
  have range: "0 \<le> count" "count \<le> 8" and len: "int (length plan) = count"
    using assms
    by (auto simp: build_serial_m1_steps_def Let_def result_simps group_counts split: if_splits)
  show "int (length plan) = count" "0 \<le> count" "count \<le> 8" by (rule len range)+
  show "\<forall>i < length plan. \<exists>c n. computed_tokens (cached_requests out) = [c]
      \<and> output_tokens (cached_requests out) = [n]
      \<and> computed_tokens (cached_requests (plan ! i)) = [c + int i]
      \<and> output_tokens (cached_requests (plan ! i)) = [n + int i]
      \<and> cached_ids (cached_requests (plan ! i)) = [request]
      \<and> scheduled_tokens (plan ! i) = [(request, 1)] \<and> total_scheduled_tokens (plan ! i) = 1
      \<and> draft_tokens (plan ! i) = [] \<and> new_requests (plan ! i) = []"
  proof (cases "count = 0")
    case True
    then show ?thesis using len by simp
  next
    case False
    then obtain c n where "computed_tokens (cached_requests out) = [c]" "output_tokens (cached_requests out) = [n]"
      "plan = map (serial_m1_step request c n out) [0..<nat count]"
      "cached_ids (cached_requests out) = [request]" "new_requests out = []"
      using assms
      by (auto simp: build_serial_m1_steps_def Let_def result_simps single_def split: if_splits list.splits)
    then show ?thesis by (auto simp: serial_m1_step_def)
  qed
qed

end
