(* ===== verification/Bank_Memory.thy ===== *)
theory Bank_Memory
  imports Loops
begin

section \<open>The memory a chat handover moves\<close>

text \<open>
  The tensors of \<open>WorkerBanks\<close> in \<open>experiments/radiance-public/radiance_fair_scheduler.py\<close>: the
  regions of GPU cache memory, the pinned RAM buffers of the inactive chats and the small
  stage, each a list of bytes.  A copy submitted with \<open>non_blocking=True\<close> joins the queue of
  the device's stream; the queue is performed in order, but when is not determined: before
  every access of the host some first part of it is performed, as the list \<open>progress\<close> says,
  and \<open>torch.cuda.synchronize()\<close> performs the rest.  A copy between host tensors is performed
  at once, whatever is still queued.  Sums of byte counts are accumulated by the loops.
\<close>

subsection \<open>Copies\<close>

datatype place = Gpu nat | Buffer nat | Stage

record transfer =
  dest :: place
  dest_from :: nat
  source :: place
  source_from :: nat
  bytes :: nat

type_synonym 'b tensors = "place \<Rightarrow> 'b list"

definition tensor_slice :: "nat \<Rightarrow> nat \<Rightarrow> 'b list \<Rightarrow> 'b list" where
  "tensor_slice i n xs = take n (drop i xs)"

definition put_slice :: "nat \<Rightarrow> 'b list \<Rightarrow> 'b list \<Rightarrow> 'b list" where
  "put_slice i ys xs = take i xs @ ys @ drop (i + length ys) xs"

text \<open>
  \<open>destination[i:i+n].copy_(source[j:j+n])\<close>: slices end where their tensor ends; the copy needs
  equal lengths or a source of one byte, which is repeated.
\<close>

definition copied :: "transfer \<Rightarrow> 'b tensors \<Rightarrow> 'b list option" where
  "copied t m = (let s = tensor_slice (source_from t) (bytes t) (m (source t));
       n = length (tensor_slice (dest_from t) (bytes t) (m (dest t)))
     in if length s = n then Some s else if length s = 1 then Some (replicate n (hd s)) else None)"

definition perform :: "transfer \<Rightarrow> 'b tensors \<Rightarrow> 'b tensors" where
  "perform t m = (case copied t m of None \<Rightarrow> m
     | Some s \<Rightarrow> m(dest t := put_slice (dest_from t) s (m (dest t))))"

subsection \<open>The stream of the device\<close>

record 'b device =
  memory :: "'b tensors"
  pending :: "transfer list"
  progress :: "nat list"

datatype bank_error =
    TransferExceedsRegion
  | CopyShapesDiffer
  | DiscardedBankNotRetired
  | SuccessorHasImage
  | CapacityExhausted
  | InsufficientRam
  | AllocationFailed string
  | NoBlockStorage
  | PartialBlocks
  | EmptyBlock

type_synonym ('b, 'x, 'a) device_op = "(('b, 'x) device_scheme, bank_error, 'a) action"

definition advance_stream :: "('b, 'x) device_scheme \<Rightarrow> ('b, 'x) device_scheme" where
  "advance_stream d = (case progress d of [] \<Rightarrow> d | n # ns \<Rightarrow>
     d\<lparr>memory := fold perform (take n (pending d)) (memory d), pending := drop n (pending d), progress := ns\<rparr>)"

definition submit_copy :: "transfer \<Rightarrow> ('b, 'x, unit) device_op" where
  "submit_copy t d = (if copied t (memory d) = None then (Inl CopyShapesDiffer, d)
     else (Inr (), advance_stream (d\<lparr>pending := pending d @ [t]\<rparr>)))"

definition cuda_synchronize :: "('b, 'x, unit) device_op" where
  "cuda_synchronize = modify (\<lambda>d. d\<lparr>memory := fold perform (pending d) (memory d), pending := []\<rparr>)"

definition host_copy :: "transfer \<Rightarrow> ('b, 'x, unit) device_op" where
  "host_copy t d0 = (let d = advance_stream d0 in
     if copied t (memory d) = None then (Inl CopyShapesDiffer, d)
     else (Inr (), d\<lparr>memory := perform t (memory d)\<rparr>))"

text \<open>The memory once everything that is queued has been performed.\<close>

definition settled_memory :: "('b, 'x) device_scheme \<Rightarrow> 'b tensors" where
  "settled_memory d = fold perform (pending d) (memory d)"

text \<open>What the copies and the stream leave of a record that extends the device.\<close>

definition same_but_device :: "('b, 'x) device_scheme \<Rightarrow> ('b, 'x) device_scheme \<Rightarrow> bool" where
  "same_but_device d d' \<longleftrightarrow> device.more d' = device.more d
     \<and> (\<forall>p. length (memory d' p) = length (memory d p))"

interpretation device_history: history same_but_device
  by unfold_locales (auto simp: same_but_device_def)

subsection \<open>Facts about single copies\<close>

definition fits :: "transfer \<Rightarrow> 'b tensors \<Rightarrow> bool" where
  "fits t m \<longleftrightarrow> dest_from t + bytes t \<le> length (m (dest t)) \<and> source_from t + bytes t \<le> length (m (source t))"

lemma length_tensor_slice [simp]: "length (tensor_slice i n xs) = min n (length xs - i)"
  by (simp add: tensor_slice_def)

lemma length_put_slice: "i + length ys \<le> length xs \<Longrightarrow> length (put_slice i ys xs) = length xs"
  by (simp add: put_slice_def)

lemma nth_put_slice:
  "i + length ys \<le> length xs \<Longrightarrow> k < length xs \<Longrightarrow>
   put_slice i ys xs ! k = (if i \<le> k \<and> k < i + length ys then ys ! (k - i) else xs ! k)"
  by (auto simp: put_slice_def nth_append min_def)

lemma length_copied:
  "copied t m = Some s \<Longrightarrow> length s = length (tensor_slice (dest_from t) (bytes t) (m (dest t)))"
  by (auto simp: copied_def Let_def split: if_splits)

lemma length_perform [simp]: "length (perform t m p) = length (m p)"
proof (cases "copied t m")
  case (Some s)
  show ?thesis
  proof (cases "dest_from t \<le> length (m (dest t))")
    case True
    then show ?thesis using Some length_copied [OF Some] by (simp add: perform_def length_put_slice)
  next
    case False
    then have "s = []" using length_copied [OF Some] by simp
    then show ?thesis using Some False by (simp add: perform_def put_slice_def)
  qed
qed (simp add: perform_def)

lemma length_fold_perform [simp]: "length (fold perform ts m p) = length (m p)"
  by (induction ts arbitrary: m) simp_all

lemma copied_lengths:
  "(\<forall>p. length (m' p) = length (m p)) \<Longrightarrow> copied t m' = None \<longleftrightarrow> copied t m = None"
  by (simp add: copied_def Let_def)

lemma fits_lengths: "(\<forall>p. length (m' p) = length (m p)) \<Longrightarrow> fits t m' \<longleftrightarrow> fits t m"
  by (simp add: fits_def)

lemma fits_perform [simp]: "fits t (perform t' m) \<longleftrightarrow> fits t m"
  by (rule fits_lengths) simp

lemma fits_fold_perform [simp]: "fits t (fold perform ts m) \<longleftrightarrow> fits t m"
  by (rule fits_lengths) simp

lemma fits_copied: "fits t m \<Longrightarrow> copied t m = Some (tensor_slice (source_from t) (bytes t) (m (source t)))"
  by (auto simp: fits_def copied_def Let_def)

lemma perform_nth:
  assumes "fits t m" "k < length (m p)"
  shows "perform t m p ! k =
    (if p = dest t \<and> dest_from t \<le> k \<and> k < dest_from t + bytes t
     then m (source t) ! (source_from t + (k - dest_from t)) else m p ! k)"
  using assms fits_copied [OF assms(1)]
  by (auto simp: perform_def fits_def nth_put_slice tensor_slice_def)

subsection \<open>Facts about the stream\<close>

lemma fold_take_drop: "fold f (drop n xs) (fold f (take n xs) s) = fold f xs s"
  by (metis append_take_drop_id comp_apply fold_append)

lemma advance_stream_settles [simp]: "settled_memory (advance_stream d) = settled_memory d"
  by (auto simp: advance_stream_def settled_memory_def fold_take_drop split: list.splits)

lemma advance_stream_keeps: "same_but_device d (advance_stream d)"
  by (auto simp: advance_stream_def same_but_device_def split: list.splits)

lemma advance_stream_idle: "pending d = [] \<Longrightarrow>
   memory (advance_stream d) = memory d \<and> pending (advance_stream d) = []"
  by (auto simp: advance_stream_def split: list.splits)

lemma settled_length [simp]: "length (settled_memory d p) = length (memory d p)"
  by (simp add: settled_memory_def)

lemma submit_copy_keeps: "keeps same_but_device (submit_copy t)"
proof -
  have "same_but_device d (advance_stream (d\<lparr>pending := pending d @ [t]\<rparr>))" for d :: "('a, 'b) device_scheme"
    using advance_stream_keeps [of "d\<lparr>pending := pending d @ [t]\<rparr>"] by (simp add: same_but_device_def)
  then show ?thesis by (simp add: keeps_def submit_copy_def)
qed

lemma cuda_synchronize_keeps: "keeps same_but_device cuda_synchronize"
  by (simp add: keeps_def cuda_synchronize_def same_but_device_def)

lemma host_copy_keeps: "keeps same_but_device (host_copy t)"
  using advance_stream_keeps by (auto simp: keeps_def host_copy_def Let_def same_but_device_def)

lemma submit_copy_fits:
  assumes "fits t (memory d)"
  shows "\<exists>d'. submit_copy t d = (Inr (), d') \<and> settled_memory d' = perform t (settled_memory d)
    \<and> same_but_device d d'"
proof -
  have "submit_copy t d = (Inr (), advance_stream (d\<lparr>pending := pending d @ [t]\<rparr>))"
    using fits_copied [OF assms] by (simp add: submit_copy_def)
  moreover have "settled_memory (advance_stream (d\<lparr>pending := pending d @ [t]\<rparr>)) = perform t (settled_memory d)"
    unfolding advance_stream_settles by (simp add: settled_memory_def)
  ultimately show ?thesis using keepsD [OF submit_copy_keeps] by blast
qed

lemma host_copy_idle:
  assumes "fits t (memory d)" "pending d = []"
  shows "\<exists>d'. host_copy t d = (Inr (), d') \<and> memory d' = perform t (memory d) \<and> pending d' = []
    \<and> same_but_device d d'"
proof -
  have idle: "memory (advance_stream d) = memory d" "pending (advance_stream d) = []"
    using advance_stream_idle [OF assms(2)] by auto
  then have "host_copy t d = (Inr (), (advance_stream d)\<lparr>memory := perform t (memory d)\<rparr>)"
    using fits_copied [OF assms(1)] by (simp add: host_copy_def Let_def)
  then show ?thesis using idle keepsD [OF host_copy_keeps]
    by (intro exI [of _ "(advance_stream d)\<lparr>memory := perform t (memory d)\<rparr>"]) simp
qed

lemma cuda_synchronize_run:
  "cuda_synchronize d = (Inr (), d\<lparr>memory := settled_memory d, pending := []\<rparr>)"
  by (simp add: cuda_synchronize_def settled_memory_def)

end
