(* ===== verification/Bank_Images.thy ===== *)
theory Bank_Images
  imports Bank_Memory "HOL-Library.AList" "HOL-Library.Multiset"
begin

section \<open>Parked chats in RAM\<close>

text \<open>
  Model of \<open>WorkerBanks\<close> in \<open>experiments/radiance-public/radiance_fair_scheduler.py\<close>: the GPU
  holds the cache of one chat, the resident bank, and a RAM buffer holds the blocks of each
  other chat that was saved (its image).  The regions of GPU memory lie one after the other in
  a buffer; block \<open>b\<close> of a region of stride \<open>s\<close> is its bytes from \<open>b * s\<close>.  Blocks are indices
  of the block pool, hence naturals.  The page size, the RAM that is free and the pinned
  allocator are parameters; \<open>free_buffers\<close> and the images name buffers by their index.  Status
  files, timings and telemetry spans are left out.
\<close>

subsection \<open>The layout of the regions\<close>

record bank_layout =
  region_rows :: "(nat \<times> nat) list"
  block_count :: nat
  bank_capacity :: nat
  stage_capacity :: nat
  bank_limit :: nat
  reserved_bytes :: nat

text \<open>\<open>backing_bytes\<close> of \<open>src/qwen_r9700_lab/radiance_pinned_memory.py\<close>.\<close>

definition backing_bytes :: "nat \<Rightarrow> nat \<Rightarrow> nat" where
  "backing_bytes page n = (n + page - 1) div page * page"

text \<open>The distinct storages behind the cache tensors, by address, and their sizes.\<close>

definition distinct_storages :: "(nat \<times> nat) list \<Rightarrow> nat list" where
  "distinct_storages tensors = map snd (fold (\<lambda>(address, n) d. AList.update address n d) tensors [])"

fun rows_from :: "nat \<Rightarrow> nat \<Rightarrow> nat list \<Rightarrow> bank_error + (nat \<times> nat) list \<times> nat" where
  "rows_from blocks offset [] = Inr ([], offset)"
| "rows_from blocks offset (n # ns) =
     rbind (require (n mod blocks = 0) PartialBlocks) (\<lambda>_.
     let stride = n div blocks in
     rbind (require (0 < stride) EmptyBlock) (\<lambda>_.
     rbind (rows_from blocks (offset + n) ns) (\<lambda>(rows, capacity). Inr ((offset, stride) # rows, capacity))))"

definition make_layout :: "nat \<Rightarrow> nat \<Rightarrow> (nat \<times> nat) list \<Rightarrow> nat \<Rightarrow> bank_error + bank_layout" where
  "make_layout page blocks tensors limit =
     (let storages = distinct_storages tensors in
      rbind (require (storages \<noteq> [] \<and> 0 < blocks) NoBlockStorage) (\<lambda>_.
      rbind (rows_from blocks 0 storages) (\<lambda>(rows, capacity).
      let stage = min capacity (max (256 * 1024 ^ 2) (Max (snd ` set rows))) in
      Inr \<lparr>region_rows = rows, block_count = blocks, bank_capacity = capacity, stage_capacity = stage,
        bank_limit = limit,
        reserved_bytes = backing_bytes page capacity * (limit - 1) + backing_bytes page stage\<rparr>)))"

subsection \<open>Ranges of blocks\<close>

definition add_block :: "(nat \<times> nat) list \<Rightarrow> nat \<Rightarrow> (nat \<times> nat) list" where
  "add_block rs block = (if rs \<noteq> [] \<and> snd (last rs) = block
     then butlast rs @ [(fst (last rs), block + 1)] else rs @ [(block, block + 1)])"

definition spans :: "nat list \<Rightarrow> (nat \<times> nat) list" where
  "spans blocks = foldl add_block [] (sort (remdups blocks))"

definition intersections :: "(nat \<times> nat) list \<Rightarrow> nat \<Rightarrow> nat \<Rightarrow> (nat \<times> nat) list" where
  "intersections rs lo hi = map (\<lambda>(start, stop). (max start lo, min stop hi))
     (filter (\<lambda>(start, stop). start < hi \<and> lo < stop) rs)"

text \<open>\<open>range(first, last, step)\<close>.\<close>

function steps_from :: "nat \<Rightarrow> nat \<Rightarrow> nat \<Rightarrow> nat list" where
  "steps_from first stop step =
     (if first < stop \<and> 0 < step then first # steps_from (first + step) stop step else [])"
  by pat_completeness auto
termination by (relation "measure (\<lambda>(first, stop, step). stop - first)") auto

declare steps_from.simps [simp del]

subsection \<open>The worker\<close>

record image =
  buffer :: nat
  ranges :: "(nat \<times> nat) list"

record 'b bank_worker = "'b device" +
  resident :: "string option"
  images :: "(string \<times> image) list"
  free_buffers :: "nat list"
  stage_ready :: bool
  transferred_bytes :: nat
  bank_switches :: nat
  generation_replacements :: nat
  allocation_events :: nat
  allocated_bytes :: nat

record handover =
  bank :: "string option"
  save_blocks :: "nat list"
  dropped_banks :: "string list"
  barrier :: bool
  discard_active :: bool

record 'b host =
  available_ram :: int
  allocate_pinned :: "nat \<Rightarrow> nat \<Rightarrow> string + 'b list"

type_synonym ('b, 'a) worker_op = "('b bank_worker, bank_error, 'a) action"

definition initial_worker :: "'b tensors \<Rightarrow> nat list \<Rightarrow> 'b bank_worker" where
  "initial_worker m schedule = \<lparr>memory = m, pending = [], progress = schedule, resident = None,
     images = [], free_buffers = [], stage_ready = False, transferred_bytes = 0, bank_switches = 0,
     generation_replacements = 0, allocation_events = 0, allocated_bytes = 0\<rparr>"

fun sum_each :: "('x \<Rightarrow> ('s, 'e, nat) action) \<Rightarrow> 'x list \<Rightarrow> ('s, 'e, nat) action" where
  "sum_each f [] = ret 0"
| "sum_each f (x # xs) = sbind (f x) (\<lambda>n. sbind (sum_each f xs) (\<lambda>k. ret (n + k)))"

subsection \<open>Copies between GPU and RAM\<close>

definition copy_range ::
  "nat \<Rightarrow> nat \<times> nat \<times> nat \<Rightarrow> nat \<times> nat \<Rightarrow> ('b, 'x, nat) device_op" where
  "copy_range buf = (\<lambda>(i, offset, stride) (lo, hi).
     let start = lo * stride; stop = hi * stride in
     sbind (gets memory) (\<lambda>m.
     sbind (assert_that (start \<le> stop \<and> stop \<le> length (m (Gpu i))) TransferExceedsRegion) (\<lambda>_.
     sbind (submit_copy \<lparr>dest = Buffer buf, dest_from = offset + start, source = Gpu i,
       source_from = start, bytes = stop - start\<rparr>) (\<lambda>_. ret (stop - start)))))"

definition copy_to_buffer ::
  "bank_layout \<Rightarrow> nat \<Rightarrow> (nat \<times> nat) list \<Rightarrow> ('b, 'x, nat) device_op" where
  "copy_to_buffer lay buf rs =
     sum_each (\<lambda>row. sum_each (copy_range buf row) rs) (enumerate 0 (region_rows lay))"

definition load_part :: "nat \<Rightarrow> nat \<times> nat \<times> nat \<Rightarrow> nat \<times> nat \<Rightarrow> ('b, 'x, nat) device_op" where
  "load_part buf = (\<lambda>(i, offset, stride) (lo, hi).
     let start = lo * stride; stop = hi * stride in
     sbind (submit_copy \<lparr>dest = Gpu i, dest_from = start, source = Buffer buf,
       source_from = offset + start, bytes = stop - start\<rparr>) (\<lambda>_. ret (stop - start)))"

definition swap_chunk ::
  "nat \<Rightarrow> (nat \<times> nat) list \<Rightarrow> nat \<times> nat \<times> nat \<Rightarrow> nat \<times> nat \<Rightarrow> ('b, 'x, nat) device_op" where
  "swap_chunk buf incoming = (\<lambda>(i, offset, stride) (lo, hi).
     let start = lo * stride; n = hi * stride - start in
     sbind (submit_copy \<lparr>dest = Stage, dest_from = 0, source = Gpu i, source_from = start, bytes = n\<rparr>) (\<lambda>_.
     sbind cuda_synchronize (\<lambda>_.
     sbind (sum_each (load_part buf (i, offset, stride)) (intersections incoming lo hi)) (\<lambda>loaded.
     sbind cuda_synchronize (\<lambda>_.
     sbind (host_copy \<lparr>dest = Buffer buf, dest_from = offset + start, source = Stage,
       source_from = 0, bytes = n\<rparr>) (\<lambda>_. ret (loaded + n)))))))"

definition swap_banks ::
  "bank_layout \<Rightarrow> nat \<Rightarrow> (nat \<times> nat) list \<Rightarrow> (nat \<times> nat) list \<Rightarrow> ('b, 'x, nat) device_op" where
  "swap_banks lay buf outgoing incoming =
     (let union = spans (concat (map (\<lambda>(lo, hi). [lo..<hi]) (outgoing @ incoming))) in
      sum_each (\<lambda>(i, offset, stride).
        let k = max 1 (stage_capacity lay div stride) in
        sum_each (\<lambda>(first, stop).
          sum_each (\<lambda>lo. swap_chunk buf incoming (i, offset, stride) (lo, min stop (lo + k)))
            (steps_from first stop k)) union)
        (enumerate 0 (region_rows lay)))"

subsection \<open>The RAM arena\<close>

text \<open>\<open>_ensure_buffers\<close>: nothing is published unless every allocation succeeded.\<close>

fun allocate_all :: "'b host \<Rightarrow> nat \<Rightarrow> nat list \<Rightarrow> bank_error + 'b list list" where
  "allocate_all h k [] = Inr []"
| "allocate_all h k (n # ns) = (case allocate_pinned h k n of Inl e \<Rightarrow> Inl (AllocationFailed e)
     | Inr b \<Rightarrow> rbind (allocate_all h (k + 1) ns) (\<lambda>bs. Inr (b # bs)))"

definition install_buffers :: "'b list list \<Rightarrow> 'b tensors \<Rightarrow> 'b tensors" where
  "install_buffers bs m = (\<lambda>p. case p of Stage \<Rightarrow> last bs
     | Buffer j \<Rightarrow> if j < length bs - 1 then bs ! j else m p | Gpu i \<Rightarrow> m p)"

definition ensure_buffers :: "'b host \<Rightarrow> bank_layout \<Rightarrow> ('b, nat) worker_op" where
  "ensure_buffers h lay = sbind (gets stage_ready) (\<lambda>ready. if ready then ret 0 else
     sbind (assert_that (int (reserved_bytes lay) + 8 * 1024 ^ 3 \<le> available_ram h) InsufficientRam) (\<lambda>_.
     sbind (lift_result (allocate_all h 0
       (replicate (bank_limit lay - 1) (bank_capacity lay) @ [stage_capacity lay]))) (\<lambda>bs.
     sbind (modify (\<lambda>w. w\<lparr>memory := install_buffers bs (memory w),
         free_buffers := [0..<bank_limit lay - 1], stage_ready := True,
         allocated_bytes := reserved_bytes lay, allocation_events := allocation_events w + 1\<rparr>)) (\<lambda>_.
     ret (reserved_bytes lay)))))"

subsection \<open>The handover\<close>

definition drop_image :: "string \<Rightarrow> ('b, unit) worker_op" where
  "drop_image key = modify (\<lambda>w. case map_of (images w) key of None \<Rightarrow> w
     | Some img \<Rightarrow> w\<lparr>images := AList.delete key (images w), free_buffers := free_buffers w @ [buffer img]\<rparr>)"

text \<open>The bytes go out, and those of the image of the target come in: the buffer that now holds
  the outgoing ones, and how many bytes were moved.\<close>

definition exchange ::
  "bank_layout \<Rightarrow> string \<Rightarrow> (nat \<times> nat) list \<Rightarrow> ('b, nat \<times> nat) worker_op" where
  "exchange lay target outgoing w = (case map_of (images w) target of
     None \<Rightarrow> if free_buffers w = [] then (Inl CapacityExhausted, w)
       else let buf = last (free_buffers w) in
         sbind (modify (\<lambda>w. w\<lparr>free_buffers := butlast (free_buffers w)\<rparr>)) (\<lambda>_.
         sbind (copy_to_buffer lay buf outgoing) (\<lambda>n.
         sbind cuda_synchronize (\<lambda>_. ret (buf, n)))) w
   | Some img \<Rightarrow>
         sbind (modify (\<lambda>w. w\<lparr>images := AList.delete target (images w)\<rparr>)) (\<lambda>_.
         sbind (swap_banks lay (buffer img) outgoing (ranges img)) (\<lambda>n. ret (buffer img, n))) w)"

definition hand_over ::
  "'b host \<Rightarrow> bank_layout \<Rightarrow> handover \<Rightarrow> string \<Rightarrow> string \<Rightarrow> ('b, unit) worker_op" where
  "hand_over h lay md active target =
     sbind (ensure_buffers h lay) (\<lambda>_.
     let outgoing = spans (save_blocks md) in
     sbind (exchange lay target outgoing) (\<lambda>(buf, n).
     modify (\<lambda>w.
       (if active \<notin> set (dropped_banks md)
        then w\<lparr>images := AList.update active \<lparr>buffer = buf, ranges = outgoing\<rparr> (images w)\<rparr>
        else w\<lparr>free_buffers := free_buffers w @ [buf]\<rparr>)
       \<lparr>resident := Some target, bank_switches := bank_switches w + 1,
        transferred_bytes := transferred_bytes w + n\<rparr>)))"

definition replace_generation :: "handover \<Rightarrow> string \<Rightarrow> string \<Rightarrow> ('b, unit) worker_op" where
  "replace_generation md active target =
     sbind (assert_that (active \<in> set (dropped_banks md)) DiscardedBankNotRetired) (\<lambda>_.
     sbind (gets images) (\<lambda>imgs.
     sbind (assert_that (target \<notin> fst ` set imgs) SuccessorHasImage) (\<lambda>_.
     modify (\<lambda>w. w\<lparr>resident := Some target, bank_switches := bank_switches w + 1,
       generation_replacements := generation_replacements w + 1\<rparr>))))"

definition change_bank :: "'b host \<Rightarrow> bank_layout \<Rightarrow> handover \<Rightarrow> string \<Rightarrow> ('b, unit) worker_op" where
  "change_bank h lay md target w = (case resident w of
       None \<Rightarrow> modify (\<lambda>w. w\<lparr>resident := Some target\<rparr>)
     | Some active \<Rightarrow> if discard_active md then replace_generation md active target
         else hand_over h lay md active target) w"

definition before_forward :: "'b host \<Rightarrow> bank_layout \<Rightarrow> handover \<Rightarrow> ('b, unit) worker_op" where
  "before_forward h lay md w = (case bank md of None \<Rightarrow> (Inr (), w) | Some target \<Rightarrow>
     let changed = resident w \<noteq> Some target in
     sbind (if changed \<or> barrier md then cuda_synchronize else ret ()) (\<lambda>_.
     sbind (for_each drop_image (dropped_banks md)) (\<lambda>_.
     if changed then change_bank h lay md target else ret ())) w)"

end
