(* ===== verification/Bank_Copies.thy ===== *)
theory Bank_Copies
  imports Bank_Images
begin

section \<open>What the copies of a handover do\<close>

text \<open>
  A cell is a byte of a region; a buffer has one byte for every cell.  \<open>runs P f Q g\<close> says
  that an action on the device returns from every state with \<open>P\<close>, leaves one with \<open>Q\<close>, and
  acts as \<open>g\<close> on the memory once the stream has settled, however far the stream has got in
  between.  Storing ranges copies their cells; swapping exchanges them, chunk by chunk.
\<close>

subsection \<open>Layouts and cells\<close>

definition layout_ok :: "bank_layout \<Rightarrow> bool" where
  "layout_ok lay \<longleftrightarrow> 0 < block_count lay
     \<and> (\<forall>i < length (region_rows lay). 0 < snd (region_rows lay ! i)
         \<and> snd (region_rows lay ! i) \<le> stage_capacity lay
         \<and> fst (region_rows lay ! i) + block_count lay * snd (region_rows lay ! i) \<le> bank_capacity lay)
     \<and> (\<forall>i j. i < j \<and> j < length (region_rows lay) \<longrightarrow>
          fst (region_rows lay ! i) + block_count lay * snd (region_rows lay ! i) \<le> fst (region_rows lay ! j))"

definition gpu_sized :: "bank_layout \<Rightarrow> 'b tensors \<Rightarrow> bool" where
  "gpu_sized lay m \<longleftrightarrow>
     (\<forall>i < length (region_rows lay). length (m (Gpu i)) = block_count lay * snd (region_rows lay ! i))"

definition sized :: "bank_layout \<Rightarrow> nat \<Rightarrow> 'b tensors \<Rightarrow> bool" where
  "sized lay j m \<longleftrightarrow> gpu_sized lay m \<and> length (m (Buffer j)) = bank_capacity lay
     \<and> length (m Stage) = stage_capacity lay"

definition within :: "bank_layout \<Rightarrow> (nat \<times> nat) list \<Rightarrow> bool" where
  "within lay rs \<longleftrightarrow> (\<forall>(lo, hi) \<in> set rs. lo \<le> hi \<and> hi \<le> block_count lay)"

definition valid_cells :: "bank_layout \<Rightarrow> (nat \<times> nat) set" where
  "valid_cells lay = {(i, x). i < length (region_rows lay) \<and> x < block_count lay * snd (region_rows lay ! i)}"

definition cells :: "bank_layout \<Rightarrow> (nat \<times> nat) list \<Rightarrow> (nat \<times> nat) set" where
  "cells lay rs = {(i, x). i < length (region_rows lay)
     \<and> (\<exists>(lo, hi) \<in> set rs. lo * snd (region_rows lay ! i) \<le> x \<and> x < hi * snd (region_rows lay ! i))}"

definition gpu_cell :: "'b tensors \<Rightarrow> nat \<times> nat \<Rightarrow> 'b" where
  "gpu_cell m = (\<lambda>(i, x). m (Gpu i) ! x)"

definition ram_cell :: "bank_layout \<Rightarrow> nat \<Rightarrow> 'b tensors \<Rightarrow> nat \<times> nat \<Rightarrow> 'b" where
  "ram_cell lay j m = (\<lambda>(i, x). m (Buffer j) ! (fst (region_rows lay ! i) + x))"

lemma cells_Nil [simp]: "cells lay [] = {}"
  by (simp add: cells_def)

lemma cells_append: "cells lay (rs @ qs) = cells lay rs \<union> cells lay qs"
  by (auto simp: cells_def)

lemma within_append [simp]: "within lay (rs @ qs) \<longleftrightarrow> within lay rs \<and> within lay qs"
  by (auto simp: within_def)

lemma range_bound: "hi \<le> n \<Longrightarrow> x < hi * (s :: nat) \<Longrightarrow> x < n * s"
  by (meson less_le_trans mult_le_mono1)

lemma cells_valid: "within lay rs \<Longrightarrow> cells lay rs \<subseteq> valid_cells lay"
  by (auto simp: cells_def valid_cells_def within_def intro: range_bound)

lemma sized_lengths:
  "(\<And>p. length (m' p) = length (m p)) \<Longrightarrow> sized lay j m' \<longleftrightarrow> sized lay j m"
  by (simp add: sized_def gpu_sized_def)

lemma sized_perform [simp]: "sized lay j (perform t m) \<longleftrightarrow> sized lay j m"
  by (rule sized_lengths) simp

lemma sized_fold_perform [simp]: "sized lay j (fold perform ts m) \<longleftrightarrow> sized lay j m"
  by (rule sized_lengths) simp

lemma sized_settled [simp]: "sized lay j (settled_memory d) \<longleftrightarrow> sized lay j (memory d)"
  by (rule sized_lengths) simp

lemma sized_same: "same_but_device d d' \<Longrightarrow> sized lay j (memory d') \<longleftrightarrow> sized lay j (memory d)"
  by (rule sized_lengths) (simp add: same_but_device_def)

lemma address_bound:
  assumes "layout_ok lay" "(i, x) \<in> valid_cells lay"
  shows "fst (region_rows lay ! i) + x < bank_capacity lay"
  using assms unfolding layout_ok_def valid_cells_def by fastforce

text \<open>Two cells at one address of a buffer are one cell.\<close>

lemma address_unique:
  assumes ok: "layout_ok lay" and c: "(i, x) \<in> valid_cells lay" "(k, y) \<in> valid_cells lay"
    and eq: "fst (region_rows lay ! i) + x = fst (region_rows lay ! k) + y"
  shows "i = k \<and> x = y"
proof (rule ccontr)
  assume ne: "\<not> (i = k \<and> x = y)"
  have apart: False if "a < b" "(a, u) \<in> valid_cells lay" "(b, v) \<in> valid_cells lay"
    "fst (region_rows lay ! a) + u = fst (region_rows lay ! b) + v" for a b u v
  proof -
    have "fst (region_rows lay ! a) + block_count lay * snd (region_rows lay ! a) \<le> fst (region_rows lay ! b)"
      using ok that unfolding layout_ok_def valid_cells_def by blast
    moreover have "u < block_count lay * snd (region_rows lay ! a)" using that by (simp add: valid_cells_def)
    ultimately show False using that(4) by simp
  qed
  from ne eq consider "i < k" | "k < i" | "i = k" "x \<noteq> y" by linarith
  then show False
    using apart [of i k x y] apart [of k i y x] c eq by cases auto
qed

subsection \<open>Actions on the device by their effect\<close>

definition runs ::
  "(('b, 'x) device_scheme \<Rightarrow> bool) \<Rightarrow> ('b, 'x, 'a) device_op \<Rightarrow> (('b, 'x) device_scheme \<Rightarrow> bool)
   \<Rightarrow> ('b tensors \<Rightarrow> 'b tensors) \<Rightarrow> bool" where
  "runs P f Q g \<longleftrightarrow> (\<forall>d. P d \<longrightarrow> (\<exists>n d'. f d = (Inr n, d') \<and> Q d' \<and> same_but_device d d'
     \<and> settled_memory d' = g (settled_memory d)))"

lemma runsD:
  "runs P f Q g \<Longrightarrow> P d \<Longrightarrow> \<exists>n d'. f d = (Inr n, d') \<and> Q d' \<and> same_but_device d d'
     \<and> settled_memory d' = g (settled_memory d)"
  by (simp add: runs_def)

lemma runs_ret: "runs P (ret n) P id"
  by (simp add: runs_def)

lemma runs_weaken: "runs P f Q g \<Longrightarrow> (\<And>d. P' d \<Longrightarrow> P d) \<Longrightarrow> (\<And>d. Q d \<Longrightarrow> Q' d) \<Longrightarrow> runs P' f Q' g"
  unfolding runs_def by meson

lemma runs_sbind:
  assumes f: "runs P f Q g" and h: "\<And>n. runs Q (h n) R k"
  shows "runs P (sbind f h) R (k \<circ> g)"
  unfolding runs_def
proof (intro allI impI)
  fix d assume "P d"
  then obtain n d1 where 1: "f d = (Inr n, d1)" "Q d1" "same_but_device d d1"
    "settled_memory d1 = g (settled_memory d)" using runsD [OF f] by blast
  then obtain n2 d2 where 2: "h n d1 = (Inr n2, d2)" "R d2" "same_but_device d1 d2"
    "settled_memory d2 = k (settled_memory d1)" using runsD [OF h] by blast
  show "\<exists>n d'. sbind f h d = (Inr n, d') \<and> R d' \<and> same_but_device d d'
      \<and> settled_memory d' = (k \<circ> g) (settled_memory d)"
    using 1 2 device_history.trans [OF 1(3) 2(3)]
    by (intro exI [of _ n2] exI [of _ d2]) (simp add: sbind_def)
qed

lemma runs_last: "runs P f Q g \<Longrightarrow> runs P (sbind f (\<lambda>n. ret (h n))) Q g"
  using runs_sbind [of P f Q g "\<lambda>n. ret (h n)" Q id] by (simp add: runs_def)

lemma runs_sum_each:
  assumes "\<And>x. x \<in> set xs \<Longrightarrow> runs P (f x) P (g x)"
  shows "runs P (sum_each f xs) P (fold g xs)"
  using assms
proof (induction xs)
  case (Cons x xs)
  have "runs P (sbind (sum_each f xs) (\<lambda>k. ret (n + k))) P (fold g xs)" for n
    using Cons by (intro runs_last) simp
  then have "runs P (sbind (f x) (\<lambda>n. sbind (sum_each f xs) (\<lambda>k. ret (n + k)))) P (fold g xs \<circ> g x)"
    using Cons.prems by (intro runs_sbind [of P "f x" P "g x"]) auto
  then show ?case by (simp add: comp_def)
qed (simp add: runs_def)

lemma runs_submit:
  assumes "\<And>d. P d \<Longrightarrow> fits t (memory d)" "\<And>d d'. P d \<Longrightarrow> same_but_device d d' \<Longrightarrow> P d'"
  shows "runs P (submit_copy t) P (perform t)"
  unfolding runs_def using submit_copy_fits assms by blast

abbreviation idle :: "bank_layout \<Rightarrow> nat \<Rightarrow> ('b, 'x) device_scheme \<Rightarrow> bool" where
  "idle lay j d \<equiv> sized lay j (memory d) \<and> pending d = []"

lemma runs_synchronize: "runs (\<lambda>d. sized lay j (memory d)) cuda_synchronize (idle lay j) id"
proof -
  have "same_but_device d (d\<lparr>memory := settled_memory d, pending := []\<rparr>)" for d :: "('a, 'b) device_scheme"
    by (simp add: same_but_device_def)
  then show ?thesis by (simp add: runs_def cuda_synchronize_run) (simp add: settled_memory_def)
qed

lemma runs_host_copy:
  assumes "\<And>m :: 'b tensors. sized lay j m \<Longrightarrow> fits t m"
  shows "runs (idle lay j) (host_copy t :: ('b, 'x, unit) device_op) (idle lay j) (perform t)"
  unfolding runs_def
proof (intro allI impI)
  fix d :: "('b, 'x) device_scheme" assume d: "idle lay j d"
  then obtain d' where d': "host_copy t d = (Inr (), d')" "memory d' = perform t (memory d)"
    "pending d' = []" "same_but_device d d'"
    using host_copy_idle assms by blast
  then show "\<exists>n d'. host_copy t d = (Inr n, d') \<and> idle lay j d' \<and> same_but_device d d'
      \<and> settled_memory d' = perform t (settled_memory d)"
    using d by (intro exI [of _ "()"] exI [of _ d']) (simp add: settled_memory_def)
qed

subsection \<open>Storing ranges\<close>

text \<open>The buffer takes the cells of \<open>K\<close> from the GPU and nothing else changes.\<close>

definition stores :: "bank_layout \<Rightarrow> nat \<Rightarrow> ('b tensors \<Rightarrow> 'b tensors) \<Rightarrow> (nat \<times> nat) set \<Rightarrow> bool" where
  "stores lay j e K \<longleftrightarrow> (\<forall>m. sized lay j m \<longrightarrow> sized lay j (e m) \<and> (\<forall>p. p \<noteq> Buffer j \<longrightarrow> e m p = m p)
     \<and> (\<forall>c \<in> valid_cells lay. ram_cell lay j (e m) c = (if c \<in> K then gpu_cell m c else ram_cell lay j m c)))"

lemma stores_fold:
  fixes e :: "'k \<Rightarrow> 'b tensors \<Rightarrow> 'b tensors"
  assumes "\<And>k. k \<in> set ks \<Longrightarrow> stores lay j (e k) (K k)"
  shows "stores lay j (fold e ks) (\<Union>k \<in> set ks. K k)"
  using assms
proof (induction ks)
  case (Cons k ks)
  have first: "stores lay j (e k) (K k)" and rest: "stores lay j (fold e ks) (\<Union>k \<in> set ks. K k)"
    using Cons by auto
  show ?case
    unfolding stores_def
  proof (intro allI impI)
    fix m :: "'b tensors" assume m: "sized lay j m"
    have 1: "sized lay j (e k m)" "\<And>p. p \<noteq> Buffer j \<Longrightarrow> e k m p = m p"
      "\<And>c. c \<in> valid_cells lay \<Longrightarrow> ram_cell lay j (e k m) c = (if c \<in> K k then gpu_cell m c else ram_cell lay j m c)"
      using first m unfolding stores_def by blast+
    have 2: "sized lay j (fold e ks (e k m))" "\<And>p. p \<noteq> Buffer j \<Longrightarrow> fold e ks (e k m) p = e k m p"
      "\<And>c. c \<in> valid_cells lay \<Longrightarrow> ram_cell lay j (fold e ks (e k m)) c
        = (if c \<in> (\<Union>k \<in> set ks. K k) then gpu_cell (e k m) c else ram_cell lay j (e k m) c)"
      using rest 1(1) unfolding stores_def by blast+
    have same: "gpu_cell (e k m) c = gpu_cell m c" for c
      using 1(2) by (simp add: gpu_cell_def split: prod.split)
    show "sized lay j (fold e (k # ks) m) \<and> (\<forall>p. p \<noteq> Buffer j \<longrightarrow> fold e (k # ks) m p = m p)
       \<and> (\<forall>c \<in> valid_cells lay. ram_cell lay j (fold e (k # ks) m) c
            = (if c \<in> (\<Union>k \<in> set (k # ks). K k) then gpu_cell m c else ram_cell lay j m c))"
      using 1 2 by (auto simp: same)
  qed
qed (simp add: stores_def)

abbreviation row_at :: "bank_layout \<Rightarrow> nat \<Rightarrow> nat \<times> nat \<times> nat" where
  "row_at lay i \<equiv> (i, region_rows lay ! i)"

definition span_cells :: "bank_layout \<Rightarrow> nat \<Rightarrow> nat \<times> nat \<Rightarrow> (nat \<times> nat) set" where
  "span_cells lay i = (\<lambda>(lo, hi). {(k, x). k = i \<and> lo * snd (region_rows lay ! i) \<le> x
     \<and> x < hi * snd (region_rows lay ! i)})"

lemma enumerate_rows: "r \<in> set (enumerate 0 (region_rows lay)) \<longleftrightarrow> (\<exists>i < length (region_rows lay). r = row_at lay i)"
  by (auto simp: in_set_enumerate_eq)

lemma set_enumerate_rows: "set (enumerate 0 (region_rows lay)) = row_at lay ` {..<length (region_rows lay)}"
  by (auto simp: enumerate_rows image_iff)

lemma cells_union: "cells lay rs = (\<Union>i \<in> {..<length (region_rows lay)}. \<Union>r \<in> set rs. span_cells lay i r)"
  by (auto simp: cells_def span_cells_def)

definition store_transfer :: "nat \<Rightarrow> nat \<times> nat \<times> nat \<Rightarrow> nat \<times> nat \<Rightarrow> transfer" where
  "store_transfer buf = (\<lambda>(i, offset, stride) (lo, hi). \<lparr>dest = Buffer buf, dest_from = offset + lo * stride,
     source = Gpu i, source_from = lo * stride, bytes = hi * stride - lo * stride\<rparr>)"

text \<open>A range of a region, with the bounds every copy needs.\<close>

lemma range_in_region:
  assumes "layout_ok lay" "i < length (region_rows lay)" "lo \<le> hi" "hi \<le> block_count lay"
  shows "lo * snd (region_rows lay ! i) \<le> hi * snd (region_rows lay ! i)"
    and "hi * snd (region_rows lay ! i) \<le> block_count lay * snd (region_rows lay ! i)"
    and "fst (region_rows lay ! i) + hi * snd (region_rows lay ! i) \<le> bank_capacity lay"
proof -
  show "lo * snd (region_rows lay ! i) \<le> hi * snd (region_rows lay ! i)" using assms by simp
  show le: "hi * snd (region_rows lay ! i) \<le> block_count lay * snd (region_rows lay ! i)" using assms by simp
  have "fst (region_rows lay ! i) + block_count lay * snd (region_rows lay ! i) \<le> bank_capacity lay"
    using assms(1,2) unfolding layout_ok_def by blast
  then show "fst (region_rows lay ! i) + hi * snd (region_rows lay ! i) \<le> bank_capacity lay"
    using le by (meson add_left_mono order_trans)
qed

text \<open>The cells of a range are those whose bytes lie in its part of a buffer.\<close>

lemma span_address:
  assumes ok: "layout_ok lay" and i: "i < length (region_rows lay)" and r: "lo \<le> hi" "hi \<le> block_count lay"
    and c: "(k, x) \<in> valid_cells lay"
  shows "fst (region_rows lay ! i) + lo * snd (region_rows lay ! i) \<le> fst (region_rows lay ! k) + x
      \<and> fst (region_rows lay ! k) + x < fst (region_rows lay ! i) + hi * snd (region_rows lay ! i)
    \<longleftrightarrow> (k, x) \<in> span_cells lay i (lo, hi)"
proof
  assume a: "fst (region_rows lay ! i) + lo * snd (region_rows lay ! i) \<le> fst (region_rows lay ! k) + x
      \<and> fst (region_rows lay ! k) + x < fst (region_rows lay ! i) + hi * snd (region_rows lay ! i)"
  let ?y = "fst (region_rows lay ! k) + x - fst (region_rows lay ! i)"
  have "?y < block_count lay * snd (region_rows lay ! i)"
    using a range_in_region(2) [OF ok i r] by linarith
  then have "(i, ?y) \<in> valid_cells lay" using i by (simp add: valid_cells_def)
  moreover have "fst (region_rows lay ! k) + x = fst (region_rows lay ! i) + ?y" using a by linarith
  ultimately have "k = i \<and> x = ?y" using address_unique [OF ok c] by blast
  then show "(k, x) \<in> span_cells lay i (lo, hi)" using a by (auto simp: span_cells_def)
qed (auto simp: span_cells_def)

lemma store_fits:
  assumes "layout_ok lay" "i < length (region_rows lay)" "lo \<le> hi" "hi \<le> block_count lay" "sized lay j m"
  shows "fits (store_transfer j (row_at lay i) (lo, hi)) m"
  using range_in_region [OF assms(1-4)] assms(2,5)
  by (auto simp: fits_def store_transfer_def sized_def gpu_sized_def split: prod.split)

lemma store_stores:
  assumes ok: "layout_ok lay" and i: "i < length (region_rows lay)" and r: "lo \<le> hi" "hi \<le> block_count lay"
  shows "stores lay j (perform (store_transfer j (row_at lay i) (lo, hi))) (span_cells lay i (lo, hi))"
  unfolding stores_def
proof (intro allI impI conjI ballI)
  fix m :: "'a tensors" and p c
  assume m: "sized lay j m"
  let ?t = "store_transfer j (row_at lay i) (lo, hi)"
  have fit: "fits ?t m" using store_fits [OF ok i r m] .
  obtain off s where row: "region_rows lay ! i = (off, s)" by (cases "region_rows lay ! i")
  have le: "lo * s \<le> hi * s" "hi * s \<le> block_count lay * s"
    using range_in_region [OF ok i r] row by auto
  show "sized lay j (perform ?t m)" using m by simp
  show "perform ?t m p = m p" if "p \<noteq> Buffer j"
    using that fits_copied [OF fit] by (simp add: perform_def store_transfer_def row)
  assume c: "c \<in> valid_cells lay"
  obtain k x where kx: "c = (k, x)" by (cases c)
  have bound: "fst (region_rows lay ! k) + x < length (m (Buffer j))"
    using address_bound [OF ok] c kx m by (simp add: sized_def)
  have iff: "off + lo * s \<le> fst (region_rows lay ! k) + x \<and> fst (region_rows lay ! k) + x < off + hi * s
    \<longleftrightarrow> k = i \<and> lo * s \<le> x \<and> x < hi * s"
    using span_address [OF ok i r c [unfolded kx]] row by (simp add: span_cells_def)
  show "ram_cell lay j (perform ?t m) c = (if c \<in> span_cells lay i (lo, hi) then gpu_cell m c else ram_cell lay j m c)"
    using perform_nth [OF fit bound] iff le
    by (auto simp: kx ram_cell_def gpu_cell_def span_cells_def store_transfer_def row)
qed

lemma copy_range_runs:
  assumes "layout_ok lay" "i < length (region_rows lay)" "lo \<le> hi" "hi \<le> block_count lay"
  shows "runs (\<lambda>d. sized lay j (memory d)) (copy_range j (row_at lay i) (lo, hi))
    (\<lambda>d. sized lay j (memory d)) (perform (store_transfer j (row_at lay i) (lo, hi)))"
proof -
  obtain off s where row: "region_rows lay ! i = (off, s)" by (cases "region_rows lay ! i")
  let ?t = "store_transfer j (row_at lay i) (lo, hi)"
  have sub: "runs (\<lambda>d. sized lay j (memory d)) (sbind (submit_copy ?t) (\<lambda>_. ret (hi * s - lo * s)))
    (\<lambda>d. sized lay j (memory d)) (perform ?t)"
    by (intro runs_last runs_submit store_fits [OF assms]) (simp_all add: sized_same)
  have run: "copy_range j (row_at lay i) (lo, hi) d = sbind (submit_copy ?t) (\<lambda>_. ret (hi * s - lo * s)) d"
    if "sized lay j (memory d)" for d :: "('a, 'b) device_scheme"
    using range_in_region [OF assms] that assms(2)
    by (simp add: copy_range_def row store_transfer_def sized_def gpu_sized_def Let_def assert_that_def sbind_def)
  show ?thesis using sub unfolding runs_def by (simp add: run)
qed

lemma copy_to_buffer_runs:
  assumes ok: "layout_ok lay" and rs: "within lay rs"
  shows "\<exists>e. runs (\<lambda>d. sized lay j (memory d)) (copy_to_buffer lay j rs) (\<lambda>d. sized lay j (memory d)) e
    \<and> stores lay j e (cells lay rs)"
proof -
  let ?P = "\<lambda>d. sized lay j (memory d)"
  let ?e = "\<lambda>row r. perform (store_transfer j row r)"
  have inner: "runs ?P (sum_each (copy_range j row) rs) ?P (fold (?e row) rs)"
    and store: "stores lay j (fold (?e row) rs) (\<Union>r \<in> set rs. span_cells lay (fst row) r)"
    if row: "row \<in> set (enumerate 0 (region_rows lay))" for row
  proof -
    obtain i where i: "i < length (region_rows lay)" "row = row_at lay i" using row enumerate_rows by blast
    have r: "fst r \<le> snd r \<and> snd r \<le> block_count lay" if "r \<in> set rs" for r
      using rs that by (auto simp: within_def)
    show "runs ?P (sum_each (copy_range j row) rs) ?P (fold (?e row) rs)"
    proof (rule runs_sum_each)
      fix q assume "q \<in> set rs"
      then show "runs ?P (copy_range j row q) ?P (?e row q)"
        using copy_range_runs [OF ok i(1), of "fst q" "snd q"] r i(2) by simp
    qed
    show "stores lay j (fold (?e row) rs) (\<Union>r \<in> set rs. span_cells lay (fst row) r)"
    proof (rule stores_fold)
      fix q assume "q \<in> set rs"
      then show "stores lay j (?e row q) (span_cells lay (fst row) q)"
        using store_stores [OF ok i(1), of "fst q" "snd q"] r i(2) by simp
    qed
  qed
  have "runs ?P (copy_to_buffer lay j rs) ?P (fold (\<lambda>row. fold (?e row) rs) (enumerate 0 (region_rows lay)))"
    unfolding copy_to_buffer_def by (intro runs_sum_each inner)
  moreover have "stores lay j (fold (\<lambda>row. fold (?e row) rs) (enumerate 0 (region_rows lay)))
      (\<Union>row \<in> set (enumerate 0 (region_rows lay)). \<Union>r \<in> set rs. span_cells lay (fst row) r)"
    by (intro stores_fold store)
  moreover have "(\<Union>row \<in> set (enumerate 0 (region_rows lay)). \<Union>r \<in> set rs. span_cells lay (fst row) r) = cells lay rs"
    by (simp add: cells_union set_enumerate_rows)
  ultimately show ?thesis by auto
qed

end
