(* ===== verification/Bank_Swaps.thy ===== *)
theory Bank_Swaps
  imports Bank_Copies
begin

section \<open>Swapping two chats\<close>

text \<open>
  \<open>spans\<close> covers its blocks with ordered ranges that do not touch; the chunks of a swap cut
  them at the size of the stage.  Every chunk exchanges its cells, those that the incoming
  image has go to the GPU, and disjoint exchanges compose, so that the whole swap is one
  exchange of the union of both sides.
\<close>

subsection \<open>Spans\<close>

definition ranges_ordered :: "(nat \<times> nat) list \<Rightarrow> bool" where
  "ranges_ordered rs \<longleftrightarrow> sorted_wrt (\<lambda>r q. snd r < fst q) rs \<and> (\<forall>r \<in> set rs. fst r < snd r)"

definition blocks_in :: "(nat \<times> nat) list \<Rightarrow> nat set" where
  "blocks_in rs = (\<Union>r \<in> set rs. {fst r..<snd r})"

lemma add_block_ordered:
  assumes "ranges_ordered rs" "\<forall>r \<in> set rs. snd r \<le> x"
  shows "ranges_ordered (add_block rs x)" "\<forall>r \<in> set (add_block rs x). snd r \<le> x + 1"
    "blocks_in (add_block rs x) = insert x (blocks_in rs)"
proof -
  have "ranges_ordered (add_block rs x) \<and> (\<forall>r \<in> set (add_block rs x). snd r \<le> x + 1)
      \<and> blocks_in (add_block rs x) = insert x (blocks_in rs)"
  proof (cases rs rule: rev_cases)
    case Nil
    then show ?thesis by (auto simp: add_block_def ranges_ordered_def blocks_in_def)
  next
    case (snoc qs q)
    have q: "fst q < snd q" "snd q \<le> x" "\<forall>r \<in> set qs. snd r < fst q" "ranges_ordered qs"
      using assms snoc by (auto simp: ranges_ordered_def sorted_wrt_append)
    show ?thesis
    proof (cases "snd q = x")
      case True
      then have "add_block rs x = qs @ [(fst q, x + 1)]" by (simp add: add_block_def snoc)
      moreover have "{fst q..<x + 1} = insert x {fst q..<x}" using q True by auto
      ultimately show ?thesis
        using q assms snoc True by (auto simp: ranges_ordered_def sorted_wrt_append blocks_in_def)
    next
      case False
      then have "add_block rs x = rs @ [(x, x + 1)]" by (simp add: add_block_def snoc)
      moreover have "\<forall>r \<in> set rs. snd r < x" using q False snoc by auto
      ultimately show ?thesis
        using assms by (auto simp: ranges_ordered_def sorted_wrt_append blocks_in_def)
    qed
  qed
  then show "ranges_ordered (add_block rs x)" "\<forall>r \<in> set (add_block rs x). snd r \<le> x + 1"
    "blocks_in (add_block rs x) = insert x (blocks_in rs)" by auto
qed

lemma add_blocks_ordered:
  assumes "ranges_ordered rs" "sorted_wrt (<) xs" "\<forall>r \<in> set rs. \<forall>x \<in> set xs. snd r \<le> x"
  shows "ranges_ordered (foldl add_block rs xs) \<and> blocks_in (foldl add_block rs xs) = set xs \<union> blocks_in rs"
  using assms
proof (induction xs arbitrary: rs)
  case (Cons x xs)
  have le: "\<forall>r \<in> set rs. snd r \<le> x" using Cons.prems(3) by simp
  note step = add_block_ordered [OF Cons.prems(1) le]
  have "\<forall>r \<in> set (add_block rs x). \<forall>y \<in> set xs. snd r \<le> y"
    using step(2) Cons.prems(2) by fastforce
  then show ?case using Cons.IH [OF step(1)] Cons.prems(2) step(3) by auto
qed simp

lemma spans_cover: "ranges_ordered (spans bs)" "blocks_in (spans bs) = set bs"
proof -
  have "sorted_wrt (<) (sort (remdups bs))" by (simp add: strict_sorted_iff)
  then have "ranges_ordered (spans bs) \<and> blocks_in (spans bs) = set (sort (remdups bs)) \<union> blocks_in []"
    unfolding spans_def by (intro add_blocks_ordered) (auto simp: ranges_ordered_def)
  then show "ranges_ordered (spans bs)" "blocks_in (spans bs) = set bs" by (auto simp: blocks_in_def)
qed

lemma spans_within:
  assumes "\<forall>b \<in> set bs. b < block_count lay"
  shows "within lay (spans bs)"
  unfolding within_def
proof (intro ballI, clarify)
  fix lo hi assume r: "(lo, hi) \<in> set (spans bs)"
  then have lt: "lo < hi" using spans_cover(1) [of bs] by (auto simp: ranges_ordered_def)
  then have "hi - 1 \<in> blocks_in (spans bs)" using r unfolding blocks_in_def by (force intro: bexI [of _ "(lo, hi)"])
  then show "lo \<le> hi \<and> hi \<le> block_count lay" using assms lt spans_cover(2) [of bs] by force
qed

lemma steps_from_props:
  assumes "0 < k"
  shows "sorted_wrt (\<lambda>a b. a + k \<le> b) (steps_from f l k)" "\<forall>a \<in> set (steps_from f l k). f \<le> a \<and> a < l"
    "(\<Union>a \<in> set (steps_from f l k). {a..<min l (a + k)}) = {f..<l}"
  using assms
proof (induction f l k rule: steps_from.induct)
  case (1 f l k)
  note eq = steps_from.simps [of f l k]
  {
    case 1
    then show ?case using "1.IH" by (cases "f < l") (auto simp: eq)
  next
    case 2
    then show ?case using "1.IH" by (cases "f < l") (fastforce simp: eq)+
  next
    case 3
    show ?case
    proof (cases "f < l")
      case True
      then have "(\<Union>a \<in> set (steps_from f l k). {a..<min l (a + k)}) = {f..<min l (f + k)} \<union> {f + k..<l}"
        using "1.IH"(3) 3 by (simp add: eq)
      then show ?thesis using True by auto
    qed (simp add: eq)
  }
qed

subsection \<open>One chunk\<close>

text \<open>\<open>e\<close> exchanges the cells of \<open>K\<close>; of these only the cells of \<open>I\<close> come in.\<close>

definition swaps ::
  "bank_layout \<Rightarrow> nat \<Rightarrow> (nat \<times> nat) set \<Rightarrow> ('b tensors \<Rightarrow> 'b tensors) \<Rightarrow> (nat \<times> nat) set \<Rightarrow> bool" where
  "swaps lay j I e K \<longleftrightarrow> (\<forall>m. sized lay j m \<longrightarrow> sized lay j (e m) \<and> (\<forall>k. k \<noteq> j \<longrightarrow> e m (Buffer k) = m (Buffer k))
     \<and> (\<forall>c \<in> valid_cells lay.
          gpu_cell (e m) c = (if c \<in> K \<inter> I then ram_cell lay j m c else gpu_cell m c)
        \<and> ram_cell lay j (e m) c = (if c \<in> K then gpu_cell m c else ram_cell lay j m c)))"

lemma swaps_fold:
  fixes e :: "'k \<Rightarrow> 'b tensors \<Rightarrow> 'b tensors"
  assumes "\<And>k. k \<in> set ks \<Longrightarrow> swaps lay j I (e k) (K k)" "sorted_wrt (\<lambda>a b. K a \<inter> K b = {}) ks"
  shows "swaps lay j I (fold e ks) (\<Union>k \<in> set ks. K k)"
  using assms
proof (induction ks)
  case (Cons k ks)
  have first: "swaps lay j I (e k) (K k)" and rest: "swaps lay j I (fold e ks) (\<Union>k \<in> set ks. K k)"
    using Cons by auto
  have apart: "K k \<inter> (\<Union>k \<in> set ks. K k) = {}" using Cons.prems(2) by auto
  show ?case
    unfolding swaps_def
  proof (intro allI impI)
    fix m :: "'b tensors" assume m: "sized lay j m"
    have 1: "sized lay j (e k m)" "\<And>i. i \<noteq> j \<Longrightarrow> e k m (Buffer i) = m (Buffer i)"
      "\<And>c. c \<in> valid_cells lay \<Longrightarrow> gpu_cell (e k m) c = (if c \<in> K k \<inter> I then ram_cell lay j m c else gpu_cell m c)"
      "\<And>c. c \<in> valid_cells lay \<Longrightarrow> ram_cell lay j (e k m) c = (if c \<in> K k then gpu_cell m c else ram_cell lay j m c)"
      using first m unfolding swaps_def by blast+
    have 2: "sized lay j (fold e ks (e k m))" "\<And>i. i \<noteq> j \<Longrightarrow> fold e ks (e k m) (Buffer i) = e k m (Buffer i)"
      "\<And>c. c \<in> valid_cells lay \<Longrightarrow> gpu_cell (fold e ks (e k m)) c
        = (if c \<in> (\<Union>k \<in> set ks. K k) \<inter> I then ram_cell lay j (e k m) c else gpu_cell (e k m) c)"
      "\<And>c. c \<in> valid_cells lay \<Longrightarrow> ram_cell lay j (fold e ks (e k m)) c
        = (if c \<in> (\<Union>k \<in> set ks. K k) then gpu_cell (e k m) c else ram_cell lay j (e k m) c)"
      using rest 1(1) unfolding swaps_def by blast+
    show "sized lay j (fold e (k # ks) m) \<and> (\<forall>i. i \<noteq> j \<longrightarrow> fold e (k # ks) m (Buffer i) = m (Buffer i))
      \<and> (\<forall>c \<in> valid_cells lay.
          gpu_cell (fold e (k # ks) m) c
            = (if c \<in> (\<Union>k \<in> set (k # ks). K k) \<inter> I then ram_cell lay j m c else gpu_cell m c)
        \<and> ram_cell lay j (fold e (k # ks) m) c
            = (if c \<in> (\<Union>k \<in> set (k # ks). K k) then gpu_cell m c else ram_cell lay j m c))"
    proof (intro conjI ballI)
      fix c assume c: "c \<in> valid_cells lay"
      show "gpu_cell (fold e (k # ks) m) c
            = (if c \<in> (\<Union>k \<in> set (k # ks). K k) \<inter> I then ram_cell lay j m c else gpu_cell m c)"
        using 1(3,4) [OF c] 2(3) [OF c] apart by auto
      show "ram_cell lay j (fold e (k # ks) m) c
            = (if c \<in> (\<Union>k \<in> set (k # ks). K k) then gpu_cell m c else ram_cell lay j m c)"
        using 1(3,4) [OF c] 2(4) [OF c] apart by auto
    qed (use 1 2 in auto)
  qed
qed (simp add: swaps_def)

definition load_transfer :: "nat \<Rightarrow> nat \<times> nat \<times> nat \<Rightarrow> nat \<times> nat \<Rightarrow> transfer" where
  "load_transfer buf = (\<lambda>(i, offset, stride) (lo, hi). \<lparr>dest = Gpu i, dest_from = lo * stride,
     source = Buffer buf, source_from = offset + lo * stride, bytes = hi * stride - lo * stride\<rparr>)"

definition stage_transfer :: "nat \<times> nat \<times> nat \<Rightarrow> nat \<times> nat \<Rightarrow> transfer" where
  "stage_transfer = (\<lambda>(i, offset, stride) (lo, hi). \<lparr>dest = Stage, dest_from = 0,
     source = Gpu i, source_from = lo * stride, bytes = hi * stride - lo * stride\<rparr>)"

definition unstage_transfer :: "nat \<Rightarrow> nat \<times> nat \<times> nat \<Rightarrow> nat \<times> nat \<Rightarrow> transfer" where
  "unstage_transfer buf = (\<lambda>(i, offset, stride) (lo, hi). \<lparr>dest = Buffer buf, dest_from = offset + lo * stride,
     source = Stage, source_from = 0, bytes = hi * stride - lo * stride\<rparr>)"

lemma load_fits:
  assumes "layout_ok lay" "i < length (region_rows lay)" "lo \<le> hi" "hi \<le> block_count lay" "sized lay j m"
  shows "fits (load_transfer j (row_at lay i) (lo, hi)) m"
  using range_in_region [OF assms(1-4)] assms(2,5)
  by (auto simp: fits_def load_transfer_def sized_def gpu_sized_def split: prod.split)

lemma stage_fits:
  assumes "layout_ok lay" "i < length (region_rows lay)" "lo \<le> hi" "hi \<le> block_count lay" "sized lay j m"
    and "(hi - lo) * snd (region_rows lay ! i) \<le> stage_capacity lay"
  shows "fits (stage_transfer (row_at lay i) (lo, hi)) m" "fits (unstage_transfer j (row_at lay i) (lo, hi)) m"
  using range_in_region [OF assms(1-4)] assms(2,5,6)
  by (auto simp: fits_def stage_transfer_def unstage_transfer_def sized_def gpu_sized_def diff_mult_distrib
      split: prod.split)

lemma loads_effect:
  assumes ok: "layout_ok lay" and i: "i < length (region_rows lay)"
    and ps: "\<forall>(lo, hi) \<in> set ps. lo \<le> hi \<and> hi \<le> block_count lay" and m: "sized lay j m"
  defines "m' \<equiv> fold (\<lambda>r. perform (load_transfer j (row_at lay i) r)) ps m"
  shows "p \<noteq> Gpu i \<Longrightarrow> m' p = m p"
    "x < block_count lay * snd (region_rows lay ! i) \<Longrightarrow> m' (Gpu i) ! x =
       (if \<exists>(lo, hi) \<in> set ps. lo * snd (region_rows lay ! i) \<le> x \<and> x < hi * snd (region_rows lay ! i)
        then ram_cell lay j m (i, x) else m (Gpu i) ! x)"
proof -
  obtain off s where row: "region_rows lay ! i = (off, s)" by (cases "region_rows lay ! i")
  have "(p \<noteq> Gpu i \<longrightarrow> m' p = m p) \<and> (x < block_count lay * s \<longrightarrow> m' (Gpu i) ! x =
       (if \<exists>(lo, hi) \<in> set ps. lo * s \<le> x \<and> x < hi * s then ram_cell lay j m (i, x) else m (Gpu i) ! x))"
    using ps m unfolding m'_def
  proof (induction ps arbitrary: m)
    case (Cons r ps)
    obtain lo hi where r: "r = (lo, hi)" "lo \<le> hi" "hi \<le> block_count lay" using Cons.prems(1) by (cases r) auto
    let ?t = "load_transfer j (row_at lay i) (lo, hi)"
    have fit: "fits ?t m" using load_fits [OF ok i r(2,3) Cons.prems(2)] .
    have other: "perform ?t m q = m q" if "q \<noteq> Gpu i" for q
      using that fits_copied [OF fit] by (simp add: perform_def load_transfer_def row)
    have here: "perform ?t m (Gpu i) ! x = (if lo * s \<le> x \<and> x < hi * s then ram_cell lay j m (i, x) else m (Gpu i) ! x)"
      if "x < block_count lay * s"
      using perform_nth [OF fit, of x "Gpu i"] that Cons.prems(2) i row range_in_region(1) [OF ok i r(2,3)]
      by (auto simp: load_transfer_def ram_cell_def sized_def gpu_sized_def)
    have "ram_cell lay j (perform ?t m) (i, x) = ram_cell lay j m (i, x)"
      using other [of "Buffer j"] by (simp add: ram_cell_def)
    then show ?case using Cons.IH [of "perform ?t m"] Cons.prems other here r(1) by auto
  qed simp
  then show "p \<noteq> Gpu i \<Longrightarrow> m' p = m p"
    "x < block_count lay * snd (region_rows lay ! i) \<Longrightarrow> m' (Gpu i) ! x =
       (if \<exists>(lo, hi) \<in> set ps. lo * snd (region_rows lay ! i) \<le> x \<and> x < hi * snd (region_rows lay ! i)
        then ram_cell lay j m (i, x) else m (Gpu i) ! x)" by (simp_all add: row)
qed

definition chunk_effect ::
  "nat \<Rightarrow> (nat \<times> nat) list \<Rightarrow> nat \<times> nat \<times> nat \<Rightarrow> nat \<times> nat \<Rightarrow> 'b tensors \<Rightarrow> 'b tensors" where
  "chunk_effect j incoming row r = perform (unstage_transfer j row r)
     \<circ> fold (\<lambda>q. perform (load_transfer j row q)) (intersections incoming (fst r) (snd r))
     \<circ> perform (stage_transfer row r)"

lemma length_fold_transfers [simp]: "length (fold (\<lambda>q. perform (f q)) qs m p) = length (m p)"
  by (induction qs arbitrary: m) simp_all

lemma intersections_within:
  assumes "within lay rs" "lo \<le> hi" "hi \<le> block_count lay"
  shows "\<forall>(a, b) \<in> set (intersections rs lo hi). a \<le> b \<and> b \<le> block_count lay"
    "\<forall>(a, b) \<in> set (intersections rs lo hi). lo \<le> a \<and> b \<le> hi"
  using assms unfolding intersections_def within_def by auto

lemma intersections_cover:
  assumes "lo * s \<le> x" "x < hi * (s :: nat)"
  shows "(\<exists>(a, b) \<in> set (intersections rs lo hi). a * s \<le> x \<and> x < b * s)
     \<longleftrightarrow> (\<exists>(a, b) \<in> set rs. a * s \<le> x \<and> x < b * s)"
proof
  assume "\<exists>(a, b) \<in> set (intersections rs lo hi). a * s \<le> x \<and> x < b * s"
  then obtain a b where r: "(a, b) \<in> set rs" "max a lo * s \<le> x" "x < min b hi * s"
    by (auto simp: intersections_def)
  have "a * s \<le> x" by (rule order_trans [OF _ r(2)]) simp
  moreover have "x < b * s" by (rule less_le_trans [OF r(3)]) simp
  ultimately show "\<exists>(a, b) \<in> set rs. a * s \<le> x \<and> x < b * s" using r(1) by auto
next
  assume "\<exists>(a, b) \<in> set rs. a * s \<le> x \<and> x < b * s"
  then obtain a b where r: "(a, b) \<in> set rs" "a * s \<le> x" "x < b * s" by auto
  have "a * s < hi * s" "lo * s < b * s" using assms r by linarith+
  then have "a < hi" "lo < b" by simp_all
  then have "(max a lo, min b hi) \<in> set (intersections rs lo hi)" using r by (force simp: intersections_def)
  moreover have "max a lo * s \<le> x" "x < min b hi * s" using assms r by (simp_all add: max_def min_def)
  ultimately show "\<exists>(a, b) \<in> set (intersections rs lo hi). a * s \<le> x \<and> x < b * s" by auto
qed

lemma chunk_swaps:
  assumes ok: "layout_ok lay" and i: "i < length (region_rows lay)" and r: "lo \<le> hi" "hi \<le> block_count lay"
    and stage: "(hi - lo) * snd (region_rows lay ! i) \<le> stage_capacity lay" and inc: "within lay incoming"
  shows "swaps lay j (cells lay incoming) (chunk_effect j incoming (row_at lay i) (lo, hi)) (span_cells lay i (lo, hi))"
  unfolding swaps_def
proof (intro allI impI)
  fix m :: "'a tensors" assume m: "sized lay j m"
  obtain off s where row: "region_rows lay ! i = (off, s)" by (cases "region_rows lay ! i")
  have le: "lo * s \<le> hi * s" "hi * s \<le> block_count lay * s" "(hi - lo) * s = hi * s - lo * s"
    using range_in_region [OF ok i r] row by (auto simp: diff_mult_distrib)
  let ?loads = "intersections incoming lo hi"
  define m1 where "m1 = perform (stage_transfer (row_at lay i) (lo, hi)) m"
  define m2 where "m2 = fold (\<lambda>q. perform (load_transfer j (row_at lay i) q)) ?loads m1"
  define m3 where "m3 = perform (unstage_transfer j (row_at lay i) (lo, hi)) m2"
  have e: "chunk_effect j incoming (row_at lay i) (lo, hi) m = m3"
    by (simp add: chunk_effect_def m1_def m2_def m3_def)
  have fit1: "fits (stage_transfer (row_at lay i) (lo, hi)) m" using stage_fits(1) [OF ok i r m stage] .
  have sized1: "sized lay j m1" using m by (simp add: m1_def)
  have "length (m2 p) = length (m1 p)" for p by (simp add: m2_def)
  then have sized2: "sized lay j m2" using sized1 sized_lengths by blast
  have fit3: "fits (unstage_transfer j (row_at lay i) (lo, hi)) m2" using stage_fits(2) [OF ok i r sized2 stage] .
  have m1_other: "m1 p = m p" if "p \<noteq> Stage" for p
    using that fits_copied [OF fit1] by (simp add: m1_def perform_def stage_transfer_def row)
  have m1_stage: "m1 Stage ! y = m (Gpu i) ! (lo * s + y)" if "y < hi * s - lo * s" for y
    using perform_nth [OF fit1, of y Stage] that m stage le(3)
    by (simp add: m1_def stage_transfer_def row sized_def)
  have m2_other: "m2 p = m1 p" if "p \<noteq> Gpu i" for p
    using loads_effect(1) [OF ok i intersections_within(1) [OF inc r] sized1] that by (simp add: m2_def)
  have m2_gpu: "m2 (Gpu i) ! x = (if \<exists>(a, b) \<in> set ?loads. a * s \<le> x \<and> x < b * s
      then ram_cell lay j m (i, x) else m (Gpu i) ! x)" if "x < block_count lay * s" for x
    using loads_effect(2) [OF ok i intersections_within(1) [OF inc r] sized1, of x] that
      m1_other [of "Gpu i"] m1_other [of "Buffer j"] by (simp add: m2_def row ram_cell_def)
  have m3_other: "m3 p = m2 p" if "p \<noteq> Buffer j" for p
    using that fits_copied [OF fit3] by (simp add: m3_def perform_def unstage_transfer_def row)
  have m3_ram: "m3 (Buffer j) ! y = (if off + lo * s \<le> y \<and> y < off + hi * s then m (Gpu i) ! (y - off) else m (Buffer j) ! y)"
    if "y < bank_capacity lay" for y
  proof -
    have "m3 (Buffer j) ! y = (if off + lo * s \<le> y \<and> y < off + hi * s
        then m2 Stage ! (y - (off + lo * s)) else m2 (Buffer j) ! y)"
      using perform_nth [OF fit3, of y "Buffer j"] that sized2 le(1)
      by (simp add: m3_def unstage_transfer_def row sized_def)
    then show ?thesis
      using m1_stage [of "y - (off + lo * s)"] m2_other [of Stage] m2_other [of "Buffer j"] m1_other [of "Buffer j"]
      by auto
  qed
  show "sized lay j (chunk_effect j incoming (row_at lay i) (lo, hi) m)
    \<and> (\<forall>k. k \<noteq> j \<longrightarrow> chunk_effect j incoming (row_at lay i) (lo, hi) m (Buffer k) = m (Buffer k))
    \<and> (\<forall>c \<in> valid_cells lay.
        gpu_cell (chunk_effect j incoming (row_at lay i) (lo, hi) m) c
          = (if c \<in> span_cells lay i (lo, hi) \<inter> cells lay incoming then ram_cell lay j m c else gpu_cell m c)
      \<and> ram_cell lay j (chunk_effect j incoming (row_at lay i) (lo, hi) m) c
          = (if c \<in> span_cells lay i (lo, hi) then gpu_cell m c else ram_cell lay j m c))"
    unfolding e
  proof (intro conjI ballI allI impI)
    show "sized lay j m3" using sized2 by (simp add: m3_def)
    show "m3 (Buffer k) = m (Buffer k)" if "k \<noteq> j" for k
      using that m3_other [of "Buffer k"] m2_other [of "Buffer k"] m1_other [of "Buffer k"] by simp
    fix c assume c: "c \<in> valid_cells lay"
    obtain k x where kx: "c = (k, x)" by (cases c)
    have covered: "(\<exists>(a, b) \<in> set ?loads. a * s \<le> x \<and> x < b * s)
      \<longleftrightarrow> c \<in> span_cells lay i (lo, hi) \<inter> cells lay incoming" if "k = i"
    proof (cases "lo * s \<le> x \<and> x < hi * s")
      case True
      then show ?thesis
        using intersections_cover [of lo s x hi incoming] that i by (auto simp: cells_def span_cells_def kx row)
    next
      case False
      have "\<not> (a * s \<le> x \<and> x < b * s)" if "(a, b) \<in> set ?loads" for a b
      proof -
        have "lo * s \<le> a * s" "b * s \<le> hi * s" using intersections_within(2) [OF inc r] that by auto
        then show ?thesis using False by linarith
      qed
      then show ?thesis using False that by (auto simp: span_cells_def kx row)
    qed
    have gpu3: "gpu_cell m3 c = gpu_cell m2 c" using m3_other by (simp add: gpu_cell_def kx)
    have gpu_else: "gpu_cell m2 c = gpu_cell m c" if "k \<noteq> i"
      using that m2_other [of "Gpu k"] m1_other [of "Gpu k"] by (simp add: gpu_cell_def kx)
    show "gpu_cell m3 c = (if c \<in> span_cells lay i (lo, hi) \<inter> cells lay incoming
        then ram_cell lay j m c else gpu_cell m c)"
    proof (cases "k = i")
      case True
      then have "x < block_count lay * s" using c kx row by (simp add: valid_cells_def)
      then show ?thesis using m2_gpu covered [OF True] gpu3 True by (simp add: gpu_cell_def kx)
    next
      case False
      then show ?thesis using gpu3 gpu_else by (simp add: span_cells_def kx)
    qed
    show "ram_cell lay j m3 c = (if c \<in> span_cells lay i (lo, hi) then gpu_cell m c else ram_cell lay j m c)"
      using m3_ram [OF address_bound [OF ok c [unfolded kx]]]
        span_address [OF ok i r c [unfolded kx]] by (auto simp: ram_cell_def gpu_cell_def kx row span_cells_def)
  qed
qed

lemma chunk_runs:
  assumes ok: "layout_ok lay" and i: "i < length (region_rows lay)" and r: "lo \<le> hi" "hi \<le> block_count lay"
    and stage: "(hi - lo) * snd (region_rows lay ! i) \<le> stage_capacity lay" and inc: "within lay incoming"
  shows "runs (idle lay j) (swap_chunk j incoming (row_at lay i) (lo, hi)) (idle lay j)
    (chunk_effect j incoming (row_at lay i) (lo, hi))"
proof -
  obtain off s where row: "region_rows lay ! i = (off, s)" by (cases "region_rows lay ! i")
  let ?S = "\<lambda>d. sized lay j (memory d)"
  let ?row = "row_at lay i"
  have "runs ?S (submit_copy (stage_transfer ?row (lo, hi))) ?S (perform (stage_transfer ?row (lo, hi)))"
    by (intro runs_submit stage_fits(1) [OF ok i r _ stage]) (auto simp: sized_same)
  then have submit: "runs (idle lay j) (submit_copy (stage_transfer ?row (lo, hi))) ?S (perform (stage_transfer ?row (lo, hi)))"
    by (rule runs_weaken) auto
  have load: "runs ?S (load_part j ?row q) ?S (perform (load_transfer j ?row q))"
    if mem: "q \<in> set (intersections incoming lo hi)" for q
  proof -
    obtain a b where q: "q = (a, b)" "a \<le> b" "b \<le> block_count lay"
      using bspec [OF intersections_within(1) [OF inc r] mem] by (cases q) simp
    have "runs ?S (submit_copy (load_transfer j ?row (a, b))) ?S (perform (load_transfer j ?row (a, b)))"
      by (intro runs_submit load_fits [OF ok i q(2,3)]) (auto simp: sized_same)
    then show ?thesis using runs_last by (simp add: q(1) load_part_def load_transfer_def row Let_def)
  qed
  have "runs ?S (sum_each (load_part j ?row) (intersections incoming lo hi)) ?S
      (fold (\<lambda>q. perform (load_transfer j ?row q)) (intersections incoming lo hi))"
    by (intro runs_sum_each load)
  then have loads: "runs (idle lay j) (sum_each (load_part j ?row) (intersections incoming lo hi)) ?S
      (fold (\<lambda>q. perform (load_transfer j ?row q)) (intersections incoming lo hi))"
    by (rule runs_weaken) auto
  have unstage: "runs (idle lay j) (sbind (host_copy (unstage_transfer j ?row (lo, hi))) (\<lambda>_. ret (n :: nat)))
      (idle lay j) (perform (unstage_transfer j ?row (lo, hi)))" for n
    by (intro runs_last runs_host_copy stage_fits(2) [OF ok i r _ stage])
  have tail: "runs (idle lay j) (sbind (sum_each (load_part j ?row) (intersections incoming lo hi)) (\<lambda>loaded.
        sbind cuda_synchronize (\<lambda>_. sbind (host_copy (unstage_transfer j ?row (lo, hi))) (\<lambda>_. ret (loaded + n)))))
      (idle lay j) ((perform (unstage_transfer j ?row (lo, hi)) \<circ> id)
        \<circ> fold (\<lambda>q. perform (load_transfer j ?row q)) (intersections incoming lo hi))" for n
    by (rule runs_sbind [OF loads]) (rule runs_sbind [OF runs_synchronize unstage])
  show ?thesis
    using runs_sbind [OF submit runs_sbind [OF runs_synchronize tail]]
    by (simp add: swap_chunk_def chunk_effect_def stage_transfer_def unstage_transfer_def row Let_def o_def)
qed

subsection \<open>The whole swap\<close>

definition swapped_union :: "(nat \<times> nat) list \<Rightarrow> (nat \<times> nat) list \<Rightarrow> (nat \<times> nat) list" where
  "swapped_union outgoing incoming = spans (concat (map (\<lambda>(lo, hi). [lo..<hi]) (outgoing @ incoming)))"

lemma blocks_in_swapped: "blocks_in (swapped_union outgoing incoming) = blocks_in outgoing \<union> blocks_in incoming"
  unfolding swapped_union_def spans_cover(2) by (auto simp: blocks_in_def split_beta)

lemma blocks_within: "within lay rs \<Longrightarrow> b \<in> blocks_in rs \<Longrightarrow> b < block_count lay"
  by (fastforce simp: within_def blocks_in_def)

text \<open>The cells of ranges, by the block a cell lies in.\<close>

lemma span_cells_block:
  assumes "layout_ok lay" "i < length (region_rows lay)"
  shows "span_cells lay i (lo, hi) = {(k, x). k = i \<and> x div snd (region_rows lay ! i) \<in> {lo..<hi}}"
proof -
  have "0 < snd (region_rows lay ! i)" using assms unfolding layout_ok_def by blast
  then show ?thesis
    by (auto simp: span_cells_def less_eq_div_iff_mult_less_eq div_less_iff_less_mult)
qed

lemma cells_blocks:
  assumes "layout_ok lay"
  shows "cells lay rs = {(i, x). i < length (region_rows lay) \<and> x div snd (region_rows lay ! i) \<in> blocks_in rs}"
  unfolding cells_union blocks_in_def using span_cells_block [OF assms, of _ "fst r" "snd r" for r] by auto

lemma swapped_union_ok:
  assumes "within lay outgoing" "within lay incoming"
  shows "ranges_ordered (swapped_union outgoing incoming)" "within lay (swapped_union outgoing incoming)"
proof -
  show "ranges_ordered (swapped_union outgoing incoming)" by (simp add: swapped_union_def spans_cover)
  show "within lay (swapped_union outgoing incoming)"
    unfolding swapped_union_def
  proof (rule spans_within, rule ballI)
    fix b assume "b \<in> set (concat (map (\<lambda>(lo, hi). [lo..<hi]) (outgoing @ incoming)))"
    then have "b \<in> blocks_in (swapped_union outgoing incoming)" by (simp add: swapped_union_def spans_cover)
    then show "b < block_count lay" using blocks_in_swapped blocks_within assms by blast
  qed
qed

text \<open>The loop over the chunks of one range, the one over the ranges, and the one over the regions.\<close>

abbreviation span_effect ::
  "nat \<Rightarrow> (nat \<times> nat) list \<Rightarrow> nat \<times> nat \<times> nat \<Rightarrow> nat \<Rightarrow> nat \<times> nat \<Rightarrow> 'b tensors \<Rightarrow> 'b tensors" where
  "span_effect j incoming row k r \<equiv>
     fold (\<lambda>lo. chunk_effect j incoming row (lo, min (snd r) (lo + k))) (steps_from (fst r) (snd r) k)"

lemma span_swaps:
  assumes ok: "layout_ok lay" and i: "i < length (region_rows lay)" and inc: "within lay incoming"
    and k: "0 < k" "k * snd (region_rows lay ! i) \<le> stage_capacity lay" and hi: "snd r \<le> block_count lay"
  shows "runs (idle lay j) (sum_each (\<lambda>lo. swap_chunk j incoming (row_at lay i) (lo, min (snd r) (lo + k)))
      (steps_from (fst r) (snd r) k)) (idle lay j) (span_effect j incoming (row_at lay i) k r)"
    and "swaps lay j (cells lay incoming) (span_effect j incoming (row_at lay i) k r) (span_cells lay i r)"
proof -
  note all_steps = steps_from_props [where f = "fst r" and l = "snd r", OF k(1)]
  have chunk: "lo \<le> min (snd r) (lo + k)" "min (snd r) (lo + k) \<le> block_count lay"
    "(min (snd r) (lo + k) - lo) * snd (region_rows lay ! i) \<le> stage_capacity lay"
    if "lo \<in> set (steps_from (fst r) (snd r) k)" for lo
  proof -
    show "lo \<le> min (snd r) (lo + k)" using all_steps(2) that by auto
    show "min (snd r) (lo + k) \<le> block_count lay" using hi by simp
    have "(min (snd r) (lo + k) - lo) * snd (region_rows lay ! i) \<le> k * snd (region_rows lay ! i)"
      by (intro mult_le_mono1) auto
    then show "(min (snd r) (lo + k) - lo) * snd (region_rows lay ! i) \<le> stage_capacity lay" using k(2) by linarith
  qed
  show "runs (idle lay j) (sum_each (\<lambda>lo. swap_chunk j incoming (row_at lay i) (lo, min (snd r) (lo + k)))
      (steps_from (fst r) (snd r) k)) (idle lay j) (span_effect j incoming (row_at lay i) k r)"
    by (intro runs_sum_each chunk_runs [OF ok i _ _ _ inc] chunk)
  have "swaps lay j (cells lay incoming) (span_effect j incoming (row_at lay i) k r)
      (\<Union>lo \<in> set (steps_from (fst r) (snd r) k). span_cells lay i (lo, min (snd r) (lo + k)))"
  proof (rule swaps_fold)
    show "sorted_wrt (\<lambda>a b. span_cells lay i (a, min (snd r) (a + k)) \<inter> span_cells lay i (b, min (snd r) (b + k)) = {})
        (steps_from (fst r) (snd r) k)"
      by (rule sorted_wrt_mono_rel [OF _ all_steps(1)]) (auto simp: span_cells_block [OF ok i])
  qed (intro chunk_swaps [OF ok i _ _ _ inc] chunk)
  moreover have "(\<Union>lo \<in> set (steps_from (fst r) (snd r) k). span_cells lay i (lo, min (snd r) (lo + k)))
      = {(n, x). n = i \<and> x div snd (region_rows lay ! i)
           \<in> (\<Union>lo \<in> set (steps_from (fst r) (snd r) k). {lo..<min (snd r) (lo + k)})}"
    unfolding span_cells_block [OF ok i] by auto
  moreover have "\<dots> = span_cells lay i (fst r, snd r)"
    unfolding all_steps(3) span_cells_block [OF ok i] ..
  ultimately show "swaps lay j (cells lay incoming) (span_effect j incoming (row_at lay i) k r) (span_cells lay i r)"
    by simp
qed

lemma region_swaps:
  assumes ok: "layout_ok lay" and i: "i < length (region_rows lay)" and inc: "within lay incoming"
    and k: "0 < k" "k * snd (region_rows lay ! i) \<le> stage_capacity lay"
    and U: "ranges_ordered U" "within lay U"
  shows "runs (idle lay j) (sum_each (\<lambda>(first, stop). sum_each (\<lambda>lo.
        swap_chunk j incoming (row_at lay i) (lo, min stop (lo + k))) (steps_from first stop k)) U)
      (idle lay j) (fold (span_effect j incoming (row_at lay i) k) U)"
    and "swaps lay j (cells lay incoming) (fold (span_effect j incoming (row_at lay i) k) U)
      (\<Union>r \<in> set U. span_cells lay i r)"
proof -
  have hi: "snd r \<le> block_count lay" if "r \<in> set U" for r using U(2) that by (auto simp: within_def)
  show "runs (idle lay j) (sum_each (\<lambda>(first, stop). sum_each (\<lambda>lo.
        swap_chunk j incoming (row_at lay i) (lo, min stop (lo + k))) (steps_from first stop k)) U)
      (idle lay j) (fold (span_effect j incoming (row_at lay i) k) U)"
  proof (rule runs_sum_each)
    fix r assume "r \<in> set U"
    then show "runs (idle lay j) (case r of (first, stop) \<Rightarrow> sum_each (\<lambda>lo.
        swap_chunk j incoming (row_at lay i) (lo, min stop (lo + k))) (steps_from first stop k))
      (idle lay j) (span_effect j incoming (row_at lay i) k r)"
      using span_swaps(1) [OF ok i inc k hi] by (simp add: split_beta)
  qed
  show "swaps lay j (cells lay incoming) (fold (span_effect j incoming (row_at lay i) k) U)
      (\<Union>r \<in> set U. span_cells lay i r)"
  proof (rule swaps_fold)
    have "sorted_wrt (\<lambda>r q. snd r < fst q) U" using U(1) by (simp add: ranges_ordered_def)
    then show "sorted_wrt (\<lambda>r q. span_cells lay i r \<inter> span_cells lay i q = {}) U"
      by (rule sorted_wrt_mono_rel [rotated]) (use span_cells_block [OF ok i, of "fst r" "snd r" for r] in auto)
  qed (rule span_swaps(2) [OF ok i inc k hi])
qed

lemma swap_banks_runs:
  fixes lay j
  assumes ok: "layout_ok lay" and w: "within lay outgoing" "within lay incoming"
  shows "\<exists>e. runs (idle lay j) (swap_banks lay j outgoing incoming :: ('b, 'x, nat) device_op) (idle lay j) e
    \<and> swaps lay j (cells lay incoming) e (cells lay outgoing \<union> cells lay incoming)"
proof -
  define U where "U = swapped_union outgoing incoming"
  define k where "k row = max 1 (stage_capacity lay div snd (snd row))" for row :: "nat \<times> nat \<times> nat"
  define e :: "nat \<times> nat \<times> nat \<Rightarrow> 'b tensors \<Rightarrow> 'b tensors"
    where "e row = fold (span_effect j incoming row (k row)) U" for row
  let ?rows = "enumerate 0 (region_rows lay)"
  note U = swapped_union_ok [OF w, folded U_def]
  have k: "0 < k (row_at lay i)" "k (row_at lay i) * snd (region_rows lay ! i) \<le> stage_capacity lay"
    if "i < length (region_rows lay)" for i
  proof -
    have "snd (region_rows lay ! i) \<le> stage_capacity lay" using ok that unfolding layout_ok_def by blast
    then show "k (row_at lay i) * snd (region_rows lay ! i) \<le> stage_capacity lay" by (simp add: k_def max_def)
  qed (simp add: k_def)
  have "runs (idle lay j) (swap_banks lay j outgoing incoming :: ('b, 'x, nat) device_op) (idle lay j) (fold e ?rows)"
    unfolding swap_banks_def Let_def swapped_union_def [symmetric] U_def [symmetric]
  proof (rule runs_sum_each)
    fix row assume "row \<in> set ?rows"
    then obtain i where i: "i < length (region_rows lay)" "row = row_at lay i" using enumerate_rows by blast
    show "runs (idle lay j) ((case row of (i, offset, stride) \<Rightarrow> sum_each (\<lambda>(first, stop). sum_each (\<lambda>lo.
          swap_chunk j incoming (i, offset, stride) (lo, min stop (lo + max 1 (stage_capacity lay div stride))))
          (steps_from first stop (max 1 (stage_capacity lay div stride)))) U) :: ('b, 'x, nat) device_op)
        (idle lay j) (e row)"
      using region_swaps(1) [OF ok i(1) w(2) k [OF i(1)] U] by (simp add: i(2) e_def k_def split_beta)
  qed
  moreover have "swaps lay j (cells lay incoming) (fold e ?rows) (\<Union>row \<in> set ?rows. \<Union>r \<in> set U. span_cells lay (fst row) r)"
  proof (rule swaps_fold)
    fix row assume "row \<in> set ?rows"
    then obtain i where i: "i < length (region_rows lay)" "row = row_at lay i" using enumerate_rows by blast
    show "swaps lay j (cells lay incoming) (e row) (\<Union>r \<in> set U. span_cells lay (fst row) r)"
      using region_swaps(2) [OF ok i(1) w(2) k [OF i(1)] U] by (simp add: i(2) e_def)
  next
    have "sorted_wrt (\<lambda>a b. fst a \<noteq> fst b) ?rows" by (simp add: sorted_wrt_iff_nth_less nth_enumerate_eq)
    then show "sorted_wrt (\<lambda>a b. (\<Union>r \<in> set U. span_cells lay (fst a) r) \<inter> (\<Union>r \<in> set U. span_cells lay (fst b) r) = {}) ?rows"
      by (rule sorted_wrt_mono_rel [rotated]) (auto simp: span_cells_def)
  qed
  moreover have "(\<Union>row \<in> set ?rows. \<Union>r \<in> set U. span_cells lay (fst row) r) = cells lay outgoing \<union> cells lay incoming"
  proof -
    have "(\<Union>row \<in> set ?rows. \<Union>r \<in> set U. span_cells lay (fst row) r) = cells lay U"
      by (simp add: cells_union set_enumerate_rows)
    then show ?thesis by (auto simp: cells_blocks [OF ok] U_def blocks_in_swapped)
  qed
  ultimately show ?thesis by auto
qed

end
