(* ===== verification/Bank_Safety.thy ===== *)
theory Bank_Safety
  imports Bank_Swaps
begin

section \<open>The worker refines a table of parked chats\<close>

text \<open>
  What a handover promises is stated on a table: the chat on the GPU with the bytes of its
  memory, and for every parked chat the bytes that were saved.  \<open>hand_chats\<close> saves the blocks
  of the chat that leaves, forgets what is dropped and lays the saved bytes of the chat that
  comes over the GPU memory.  The worker implements it, whatever the progress of the stream,
  while every RAM buffer is free or belongs to one image.
\<close>

record 'b chats =
  on_gpu :: "string option"
  gpu_bytes :: "nat \<times> nat \<Rightarrow> 'b option"
  parked_bytes :: "string \<Rightarrow> (nat \<times> nat \<Rightarrow> 'b option) option"

definition hand_chats :: "bank_layout \<Rightarrow> handover \<Rightarrow> 'b chats \<Rightarrow> 'b chats" where
  "hand_chats lay md s = (case bank md of None \<Rightarrow> s | Some t \<Rightarrow>
     let p = (parked_bytes s) |` (- set (dropped_banks md)) in
     if on_gpu s = Some t then s\<lparr>parked_bytes := p\<rparr>
     else case on_gpu s of
         None \<Rightarrow> s\<lparr>on_gpu := Some t, parked_bytes := p\<rparr>
       | Some a \<Rightarrow> if discard_active md then s\<lparr>on_gpu := Some t, parked_bytes := p\<rparr>
           else s\<lparr>on_gpu := Some t,
             gpu_bytes := gpu_bytes s ++ (case p t of None \<Rightarrow> Map.empty | Some saved \<Rightarrow> saved),
             parked_bytes := (p(t := None))(a := if a \<in> set (dropped_banks md) then None
               else Some (gpu_bytes s |` cells lay (spans (save_blocks md))))\<rparr>)"

definition saved_bytes :: "bank_layout \<Rightarrow> 'b tensors \<Rightarrow> image \<Rightarrow> nat \<times> nat \<Rightarrow> 'b option" where
  "saved_bytes lay m img = (\<lambda>c. Some (ram_cell lay (buffer img) m c)) |` cells lay (ranges img)"

definition chats_of :: "bank_layout \<Rightarrow> 'b bank_worker \<Rightarrow> 'b chats" where
  "chats_of lay w = \<lparr>on_gpu = resident w,
     gpu_bytes = (\<lambda>c. Some (gpu_cell (settled_memory w) c)) |` valid_cells lay,
     parked_bytes = (\<lambda>key. map_option (saved_bytes lay (settled_memory w)) (map_of (images w) key))\<rparr>"

definition all_buffers :: "bank_layout \<Rightarrow> nat multiset" where
  "all_buffers lay = mset [0..<bank_limit lay - 1]"

definition buffers_of :: "'b bank_worker \<Rightarrow> nat multiset" where
  "buffers_of w = mset (map (buffer \<circ> snd) (images w)) + mset (free_buffers w)"

definition arena_ok :: "bank_layout \<Rightarrow> 'b bank_worker \<Rightarrow> bool" where
  "arena_ok lay w \<longleftrightarrow> (if stage_ready w
     then (\<forall>j < bank_limit lay - 1. sized lay j (memory w))
       \<and> buffers_of w = all_buffers lay
     else images w = [] \<and> free_buffers w = [])"

definition worker_ok :: "bank_layout \<Rightarrow> 'b bank_worker \<Rightarrow> bool" where
  "worker_ok lay w \<longleftrightarrow> gpu_sized lay (memory w) \<and> arena_ok lay w \<and> distinct (map fst (images w))
     \<and> (\<forall>img \<in> snd ` set (images w). within lay (ranges img))
     \<and> (case resident w of None \<Rightarrow> images w = [] | Some a \<Rightarrow> a \<notin> fst ` set (images w))"

text \<open>The allocator hands out tensors of the size asked for.\<close>

definition allocates :: "'b host \<Rightarrow> bool" where
  "allocates h \<longleftrightarrow> (\<forall>k n b. allocate_pinned h k n = Inr b \<longrightarrow> length b = n)"

lemma same_but_device_fields:
  assumes "same_but_device w w'"
  shows "resident w' = resident w" "images w' = images w" "free_buffers w' = free_buffers w"
    "stage_ready w' = stage_ready w" "transferred_bytes w' = transferred_bytes w"
    "bank_switches w' = bank_switches w"
  using assms by (cases w; cases w'; simp add: same_but_device_def)+

lemma chats_of_idle: "pending w = [] \<Longrightarrow> settled_memory w = memory w"
  by (simp add: settled_memory_def)

subsection \<open>The steps before a handover\<close>

lemma synchronize_worker:
  "\<exists>w1. cuda_synchronize w = (Inr (), w1) \<and> pending w1 = [] \<and> memory w1 = settled_memory w
     \<and> same_but_device w w1"
  using keepsD [OF cuda_synchronize_keeps cuda_synchronize_run [of w]]
  by (intro exI [of _ "w\<lparr>memory := settled_memory w, pending := []\<rparr>"]) (simp add: cuda_synchronize_run)

lemma worker_ok_same:
  assumes "same_but_device w w'" "worker_ok lay w"
  shows "worker_ok lay w'"
proof -
  note fields = same_but_device_fields [OF assms(1)]
  have "gpu_sized lay (memory w') = gpu_sized lay (memory w)" "\<And>j. sized lay j (memory w') = sized lay j (memory w)"
    using assms(1) by (simp_all add: same_but_device_def gpu_sized_def sized_def)
  moreover have "buffers_of w' = buffers_of w" by (simp add: buffers_of_def fields)
  ultimately show ?thesis using assms(2) fields by (simp add: worker_ok_def arena_ok_def cong: option.case_cong)
qed

lemma images_of_worker: "worker_ok lay w \<Longrightarrow> \<not> stage_ready w \<Longrightarrow> images w = [] \<and> free_buffers w = []"
  by (simp add: worker_ok_def arena_ok_def)

lemma mset_delete_buffer:
  assumes "distinct (map fst xs)" "map_of xs k = Some v"
  shows "mset (map f xs) = add_mset (f (k, v)) (mset (map f (AList.delete k xs)))"
  using assms by (induction xs) (auto simp: image_iff split: if_splits)

lemma set_delete_subset: "set (AList.delete k xs) \<subseteq> set xs"
  by (auto simp: AList.delete_eq)

lemma update_fresh: "k \<notin> fst ` set xs \<Longrightarrow> AList.update k v xs = xs @ [(k, v)]"
  by (induction xs) auto

text \<open>A buffer that leaves the images of a good worker.\<close>

lemma worker_delete:
  assumes ok: "worker_ok lay w" and img: "map_of (images w) key = Some img"
  shows "stage_ready w" "within lay (ranges img)"
    "add_mset (buffer img) (mset (map (buffer \<circ> snd) (AList.delete key (images w))) + mset (free_buffers w)) = all_buffers lay"
    "distinct (map fst (AList.delete key (images w)))"
    "\<forall>img \<in> snd ` set (AList.delete key (images w)). within lay (ranges img)"
    "fst ` set (AList.delete key (images w)) = fst ` set (images w) - {key}"
proof -
  show ready: "stage_ready w"
    using images_of_worker [OF ok] img by (cases "stage_ready w") simp_all
  show "within lay (ranges img)" using ok map_of_SomeD [OF img] by (force simp: worker_ok_def)
  show "distinct (map fst (AList.delete key (images w)))" using ok by (simp add: worker_ok_def distinct_delete)
  show "\<forall>img \<in> snd ` set (AList.delete key (images w)). within lay (ranges img)"
    using ok set_delete_subset [of key "images w"] by (auto simp: worker_ok_def)
  show "fst ` set (AList.delete key (images w)) = fst ` set (images w) - {key}"
    using arg_cong [OF delete_keys [of key "images w"], of set] by simp
  have "buffers_of w = all_buffers lay" using ok ready by (simp add: worker_ok_def arena_ok_def)
  then show "add_mset (buffer img) (mset (map (buffer \<circ> snd) (AList.delete key (images w))) + mset (free_buffers w)) = all_buffers lay"
    using mset_delete_buffer [OF _ img, of "buffer \<circ> snd"] ok by (simp add: worker_ok_def buffers_of_def)
qed

lemma drop_image_spec:
  assumes ok: "worker_ok lay w"
  shows "\<exists>w1. drop_image key w = (Inr (), w1) \<and> worker_ok lay w1 \<and> memory w1 = memory w
    \<and> pending w1 = pending w \<and> resident w1 = resident w \<and> stage_ready w1 = stage_ready w
    \<and> map_of (images w1) = (map_of (images w)) |` (- {key})"
proof (cases "map_of (images w) key")
  case None
  then have "map_of (images w) = (map_of (images w)) |` (- {key})" by (auto simp: restrict_map_def)
  then show ?thesis using assms None by (intro exI [of _ w]) (simp add: drop_image_def)
next
  case (Some img)
  let ?w = "w\<lparr>images := AList.delete key (images w), free_buffers := free_buffers w @ [buffer img]\<rparr>"
  note del = worker_delete [OF ok Some]
  have "worker_ok lay ?w"
    using ok del by (auto simp: worker_ok_def arena_ok_def buffers_of_def split: option.splits)
  then show ?thesis using Some
    by (intro exI [of _ ?w]) (auto simp: drop_image_def delete_conv' restrict_map_def fun_eq_iff)
qed

lemma drop_images_spec:
  assumes "worker_ok lay w"
  shows "\<exists>w1. for_each drop_image keys w = (Inr (), w1) \<and> worker_ok lay w1 \<and> memory w1 = memory w
    \<and> pending w1 = pending w \<and> resident w1 = resident w \<and> stage_ready w1 = stage_ready w
    \<and> map_of (images w1) = (map_of (images w)) |` (- set keys)"
  using assms
proof (induction keys arbitrary: w)
  case (Cons key keys)
  obtain v where v: "drop_image key w = (Inr (), v)" "worker_ok lay v" "memory v = memory w"
    "pending v = pending w" "resident v = resident w" "stage_ready v = stage_ready w"
    "map_of (images v) = (map_of (images w)) |` (- {key})"
    using drop_image_spec [OF Cons.prems] by metis
  obtain w1 where "for_each drop_image keys v = (Inr (), w1)" "worker_ok lay w1" "memory w1 = memory v"
    "pending w1 = pending v" "resident w1 = resident v" "stage_ready w1 = stage_ready v"
    "map_of (images w1) = (map_of (images v)) |` (- set keys)"
    using Cons.IH [OF v(2)] by metis
  moreover have "(m |` (- {key})) |` (- set keys) = m |` (- set (key # keys))" for m :: "string \<Rightarrow> image option"
    by (auto simp: restrict_map_def)
  ultimately show ?case using v by (intro exI [of _ w1]) (simp add: sbind_def)
qed (simp add: restrict_map_def)

subsection \<open>The arena\<close>

lemma allocate_all_lengths:
  assumes "allocates h" "allocate_all h k ns = Inr bs"
  shows "map length bs = ns"
  using assms(2)
proof (induction ns arbitrary: k bs)
  case (Cons n ns)
  then obtain b cs where "allocate_pinned h k n = Inr b" "allocate_all h (k + 1) ns = Inr cs" "bs = b # cs"
    by (auto simp: result_simps split: sum.splits)
  then show ?case using Cons.IH assms(1) by (simp add: allocates_def)
qed simp

text \<open>What the kernels queue moves bytes within the GPU.\<close>

definition queue_ok :: "'b bank_worker \<Rightarrow> bool" where
  "queue_ok w \<longleftrightarrow> (\<forall>t \<in> set (pending w). \<exists>i k. dest t = Gpu i \<and> source t = Gpu k)"

lemma gpu_queue:
  assumes "\<forall>t \<in> set ts. \<exists>i k. dest t = Gpu i \<and> source t = Gpu k" "\<forall>i. m' (Gpu i) = m (Gpu i)"
  shows "fold perform ts m' (Gpu i) = fold perform ts m (Gpu i)"
  using assms
proof (induction ts arbitrary: m m')
  case (Cons t ts)
  obtain a b where t: "dest t = Gpu a" "source t = Gpu b" using Cons.prems(1) by auto
  have "copied t m' = copied t m" using Cons.prems(2) by (simp add: copied_def t)
  then have "\<forall>i. perform t m' (Gpu i) = perform t m (Gpu i)"
    using Cons.prems(2) by (simp add: perform_def t split: option.split)
  then show ?case using Cons.IH [of "perform t m'" "perform t m"] Cons.prems(1) by simp
qed simp

lemma ensure_buffers_spec:
  assumes alloc: "allocates h" and lay: "2 \<le> bank_limit lay" and ok: "worker_ok lay w" and queue: "queue_ok w"
    and run: "ensure_buffers h lay w = (Inr n, w1)"
  shows "worker_ok lay w1 \<and> stage_ready w1 \<and> pending w1 = pending w \<and> resident w1 = resident w \<and> images w1 = images w
    \<and> chats_of lay w1 = chats_of lay w
    \<and> (stage_ready w \<longrightarrow> w1 = w)"
proof (cases "stage_ready w")
  case True
  then show ?thesis using run ok by (simp add: ensure_buffers_def)
next
  case False
  obtain bs where bs: "allocate_all h 0 (replicate (bank_limit lay - 1) (bank_capacity lay) @ [stage_capacity lay]) = Inr bs"
    and w1: "w1 = w\<lparr>memory := install_buffers bs (memory w), free_buffers := [0..<bank_limit lay - 1], stage_ready := True,
         allocated_bytes := reserved_bytes lay, allocation_events := allocation_events w + 1\<rparr>"
    using run False by (auto simp: ensure_buffers_def action_simps)
  have lens: "map length bs = replicate (bank_limit lay - 1) (bank_capacity lay) @ [stage_capacity lay]"
    using allocate_all_lengths [OF alloc bs] .
  have n: "length bs = bank_limit lay" using lay length_map [of length bs] unfolding lens by simp
  have "length (bs ! j) = bank_capacity lay" if "j < bank_limit lay - 1" for j
    using arg_cong [OF lens, of "\<lambda>xs. xs ! j"] that n by (simp add: nth_append)
  moreover have "length (last bs) = stage_capacity lay"
    using arg_cong [OF lens, of last] n lay by (cases "bs = []") (auto simp: last_map)
  ultimately have "\<forall>j < bank_limit lay - 1. sized lay j (install_buffers bs (memory w))"
    using ok n by (simp add: sized_def gpu_sized_def install_buffers_def worker_ok_def)
  moreover have none: "images w = []" "free_buffers w = []" using images_of_worker [OF ok False] by auto
  moreover have "gpu_sized lay (install_buffers bs (memory w))"
    using ok by (simp add: worker_ok_def gpu_sized_def install_buffers_def)
  ultimately have "worker_ok lay w1"
    using ok by (simp add: w1 worker_ok_def arena_ok_def buffers_of_def all_buffers_def split: option.splits)
  moreover have "settled_memory w1 (Gpu i) = settled_memory w (Gpu i)" for i
    using queue gpu_queue [of "pending w" "install_buffers bs (memory w)" "memory w"]
    by (simp add: settled_memory_def w1 queue_ok_def install_buffers_def)
  then have "chats_of lay w1 = chats_of lay w"
    using none by (simp add: chats_of_def gpu_cell_def fun_eq_iff restrict_map_def) (simp add: w1 none)
  ultimately show ?thesis using False none by (simp add: w1)
qed

subsection \<open>The exchange\<close>

text \<open>
  What an exchange leaves in the worker: the buffer \<open>buf\<close> belongs to nobody and holds the
  outgoing cells, and the GPU shows the incoming ones.
\<close>

definition exchanged ::
  "bank_layout \<Rightarrow> string \<Rightarrow> (nat \<times> nat) list \<Rightarrow> 'b bank_worker \<Rightarrow> nat \<Rightarrow> 'b bank_worker \<Rightarrow> bool" where
  "exchanged lay target outgoing w buf w1 \<longleftrightarrow>
     pending w1 = [] \<and> (\<forall>p. length (memory w1 p) = length (memory w p))
     \<and> resident w1 = resident w \<and> stage_ready w1
     \<and> images w1 = AList.delete target (images w)
     \<and> add_mset buf (mset (map (buffer \<circ> snd) (images w1)) + mset (free_buffers w1)) = all_buffers lay
     \<and> (\<forall>k. k \<noteq> buf \<longrightarrow> memory w1 (Buffer k) = memory w (Buffer k))
     \<and> (\<forall>c \<in> cells lay outgoing. ram_cell lay buf (memory w1) c = gpu_cell (memory w) c)
     \<and> (\<forall>c \<in> valid_cells lay. gpu_cell (memory w1) c =
          (case map_of (images w) target of None \<Rightarrow> gpu_cell (memory w) c
           | Some img \<Rightarrow> (case saved_bytes lay (memory w) img c of None \<Rightarrow> gpu_cell (memory w) c | Some v \<Rightarrow> v)))"

lemma saved_bytes_apply:
  "saved_bytes lay m img c = (if c \<in> cells lay (ranges img) then Some (ram_cell lay (buffer img) m c) else None)"
  by (simp add: saved_bytes_def restrict_map_def)

lemma arena_member: "worker_ok lay w \<Longrightarrow> stage_ready w \<Longrightarrow> buf \<in># buffers_of w \<Longrightarrow> sized lay buf (memory w)"
  by (simp add: worker_ok_def arena_ok_def all_buffers_def)

lemma exchange_store:
  assumes lay: "layout_ok lay" and ok: "worker_ok lay w" and ready: "stage_ready w" "pending w = []"
    and out: "within lay outgoing" and none: "map_of (images w) target = None" and free: "free_buffers w \<noteq> []"
  shows "\<exists>n w1. exchange lay target outgoing w = (Inr (last (free_buffers w), n), w1)
    \<and> exchanged lay target outgoing w (last (free_buffers w)) w1"
proof -
  define buf where "buf = last (free_buffers w)"
  define w0 where "w0 = w\<lparr>free_buffers := butlast (free_buffers w)\<rparr>"
  have frees: "mset (free_buffers w) = add_mset buf (mset (butlast (free_buffers w)))"
    using free by (metis append_butlast_last_id buf_def mset_append mset_single_iff_right mset.simps(2) add_mset_add_single mset.simps(1))
  have size: "sized lay buf (memory w)"
    by (rule arena_member [OF ok ready(1)]) (simp add: buffers_of_def frees)
  obtain e :: "'a tensors \<Rightarrow> 'a tensors" where e:
    "runs (\<lambda>d. sized lay buf (memory d)) (copy_to_buffer lay buf outgoing :: ('a bank_worker, bank_error, nat) action) (\<lambda>d. sized lay buf (memory d)) e"
    "stores lay buf e (cells lay outgoing)"
    using copy_to_buffer_runs [OF lay out] by blast
  obtain n w1 where w1: "copy_to_buffer lay buf outgoing w0 = (Inr n, w1)" "same_but_device w0 w1"
    "settled_memory w1 = e (settled_memory w0)"
    using runsD [OF e(1), of w0] size by (auto simp: w0_def)
  obtain w2 where w2: "cuda_synchronize w1 = (Inr (), w2)" "pending w2 = []" "memory w2 = settled_memory w1"
    "same_but_device w1 w2"
    using synchronize_worker [of w1] by blast
  have same: "same_but_device w0 w2" using device_history.trans [OF w1(2) w2(4)] .
  have m: "memory w2 = e (memory w)" using w1(3) w2(3) ready(2) by (simp add: w0_def settled_memory_def)
  have run: "exchange lay target outgoing w = (Inr (buf, n), w2)"
    using none free w1(1) w2(1) by (simp add: exchange_def buf_def w0_def Let_def sbind_def)
  have others: "e (memory w) p = memory w p" if "p \<noteq> Buffer buf" for p
    using e(2) size that unfolding stores_def by blast
  have "exchanged lay target outgoing w buf w2"
    unfolding exchanged_def
  proof (intro conjI allI ballI impI)
    show "length (memory w2 p) = length (memory w p)" for p using same by (simp add: same_but_device_def w0_def)
    show "images w2 = AList.delete target (images w)"
      using same_but_device_fields [OF same] none by (simp add: w0_def map_of_eq_None_iff)
    show "add_mset buf (mset (map (buffer \<circ> snd) (images w2)) + mset (free_buffers w2)) = all_buffers lay"
      using same_but_device_fields [OF same] ok ready(1) frees
      by (simp add: w0_def worker_ok_def arena_ok_def buffers_of_def)
    show "memory w2 (Buffer k) = memory w (Buffer k)" if "k \<noteq> buf" for k using others that by (simp add: m)
    fix c
    show "ram_cell lay buf (memory w2) c = gpu_cell (memory w) c" if "c \<in> cells lay outgoing"
      using e(2) size that cells_valid [OF out] unfolding stores_def m by auto
    show "gpu_cell (memory w2) c = (case map_of (images w) target of None \<Rightarrow> gpu_cell (memory w) c
           | Some img \<Rightarrow> (case saved_bytes lay (memory w) img c of None \<Rightarrow> gpu_cell (memory w) c | Some v \<Rightarrow> v))"
      using others none by (simp add: m gpu_cell_def split: prod.split)
  qed (use w2(2) same_but_device_fields [OF same] ready(1) in \<open>simp_all add: w0_def\<close>)
  then show ?thesis using run unfolding buf_def by blast
qed

lemma exchange_swap:
  assumes lay: "layout_ok lay" and ok: "worker_ok lay w" and ready: "stage_ready w" "pending w = []"
    and out: "within lay outgoing" and img: "map_of (images w) target = Some img"
  shows "\<exists>n w1. exchange lay target outgoing w = (Inr (buffer img, n), w1)
    \<and> exchanged lay target outgoing w (buffer img) w1"
proof -
  define buf where "buf = buffer img"
  define w0 where "w0 = w\<lparr>images := AList.delete target (images w)\<rparr>"
  note del = worker_delete [OF ok img]
  have all: "add_mset buf (mset (map (buffer \<circ> snd) (AList.delete target (images w))) + mset (free_buffers w)) = buffers_of w"
    using del(3) ok ready(1) by (simp add: worker_ok_def arena_ok_def buf_def)
  have size: "sized lay buf (memory w)"
    by (rule arena_member [OF ok ready(1)]) (simp add: all [symmetric])
  obtain e :: "'a tensors \<Rightarrow> 'a tensors" where e:
    "runs (idle lay buf) (swap_banks lay buf outgoing (ranges img) :: ('a bank_worker, bank_error, nat) action) (idle lay buf) e"
    "swaps lay buf (cells lay (ranges img)) e (cells lay outgoing \<union> cells lay (ranges img))"
    using swap_banks_runs [OF lay out del(2)] by blast
  obtain n w1 where w1: "swap_banks lay buf outgoing (ranges img) w0 = (Inr n, w1)" "same_but_device w0 w1"
    "settled_memory w1 = e (settled_memory w0)" "pending w1 = []"
    using runsD [OF e(1), of w0] size ready(2) by (auto simp: w0_def)
  have m: "memory w1 = e (memory w)" using w1(3,4) ready(2) by (simp add: w0_def settled_memory_def)
  have run: "exchange lay target outgoing w = (Inr (buf, n), w1)"
    using img w1(1) by (simp add: exchange_def buf_def w0_def sbind_def)
  have swap: "\<forall>k. k \<noteq> buf \<longrightarrow> e (memory w) (Buffer k) = memory w (Buffer k)"
    "\<forall>c \<in> valid_cells lay. gpu_cell (e (memory w)) c =
       (if c \<in> (cells lay outgoing \<union> cells lay (ranges img)) \<inter> cells lay (ranges img)
        then ram_cell lay buf (memory w) c else gpu_cell (memory w) c)"
    "\<forall>c \<in> valid_cells lay. ram_cell lay buf (e (memory w)) c =
       (if c \<in> cells lay outgoing \<union> cells lay (ranges img) then gpu_cell (memory w) c else ram_cell lay buf (memory w) c)"
    using e(2) size unfolding swaps_def by blast+
  have "exchanged lay target outgoing w buf w1"
    unfolding exchanged_def
  proof (intro conjI allI ballI impI)
    show "length (memory w1 p) = length (memory w p)" for p using w1(2) by (simp add: same_but_device_def w0_def)
    show "add_mset buf (mset (map (buffer \<circ> snd) (images w1)) + mset (free_buffers w1)) = all_buffers lay"
      using same_but_device_fields [OF w1(2)] del(3) by (simp add: w0_def buf_def)
    show "memory w1 (Buffer k) = memory w (Buffer k)" if "k \<noteq> buf" for k using swap(1) that by (simp add: m)
    fix c
    show "ram_cell lay buf (memory w1) c = gpu_cell (memory w) c" if "c \<in> cells lay outgoing"
      using swap(3) that cells_valid [OF out] by (auto simp: m)
    show "gpu_cell (memory w1) c = (case map_of (images w) target of None \<Rightarrow> gpu_cell (memory w) c
           | Some img \<Rightarrow> (case saved_bytes lay (memory w) img c of None \<Rightarrow> gpu_cell (memory w) c | Some v \<Rightarrow> v))"
      if "c \<in> valid_cells lay"
      using swap(2) that img by (simp add: m saved_bytes_apply buf_def)
  qed (use w1(4) same_but_device_fields [OF w1(2)] ready(1) in \<open>simp_all add: w0_def\<close>)
  then show ?thesis using run unfolding buf_def by blast
qed

lemma exchange_returns:
  assumes "layout_ok lay" "worker_ok lay w" "stage_ready w" "pending w = []" "within lay outgoing"
    and run: "exchange lay target outgoing w = (Inr (buf, n), w1)"
  shows "exchanged lay target outgoing w buf w1"
proof (cases "map_of (images w) target")
  case None
  then have "free_buffers w \<noteq> []" using run by (auto simp: exchange_def)
  then show ?thesis using exchange_store [OF assms(1-5) None] run by auto
next
  case (Some img)
  then show ?thesis using exchange_swap [OF assms(1-5) Some] run by auto
qed

lemma saved_bytes_memory:
  "m' (Buffer (buffer img)) = m (Buffer (buffer img)) \<Longrightarrow> saved_bytes lay m' img = saved_bytes lay m img"
  by (rule ext) (simp add: saved_bytes_apply ram_cell_def split: prod.split)

text \<open>The images that an exchange does not touch keep their bytes.\<close>

lemma exchanged_others:
  assumes ex: "exchanged lay target outgoing w buf w1" and img: "map_of (images w1) key = Some img"
  shows "saved_bytes lay (memory w1) img = saved_bytes lay (memory w) img"
proof -
  define M where "M = mset (map (buffer \<circ> snd) (images w1))"
  have "add_mset buf (M + mset (free_buffers w1)) = all_buffers lay"
    using ex unfolding exchanged_def M_def by blast
  then have "count (all_buffers lay) buf = Suc (count M buf + count (mset (free_buffers w1)) buf)"
    by (metis count_add_mset count_union)
  moreover have "count (all_buffers lay) buf \<le> 1" by (simp add: all_buffers_def count_mset_set')
  ultimately have "count M buf = 0" by linarith
  then have "buf \<notin># mset (map (buffer \<circ> snd) (images w1))" unfolding M_def by (rule count_eq_zero_iff [THEN iffD1])
  moreover have "buffer img \<in># mset (map (buffer \<circ> snd) (images w1))"
    using map_of_SomeD [OF img] by (force simp: image_iff)
  ultimately have "buffer img \<noteq> buf" by metis
  then show ?thesis using ex by (intro saved_bytes_memory) (simp add: exchanged_def)
qed

subsection \<open>The handover refines the table\<close>

lemma gpu_bytes_exchanged:
  assumes ex: "exchanged lay target outgoing w buf w1" and ok: "worker_ok lay w" and idle: "pending w = []"
  shows "gpu_bytes (chats_of lay w1) = gpu_bytes (chats_of lay w)
    ++ (case parked_bytes (chats_of lay w) target of None \<Rightarrow> Map.empty | Some saved \<Rightarrow> saved)"
proof
  fix c
  have idle1: "settled_memory w1 = memory w1" "settled_memory w = memory w"
    using ex idle by (simp_all add: exchanged_def chats_of_idle)
  have outside: "saved_bytes lay (memory w) img c = None"
    if "map_of (images w) target = Some img" "c \<notin> valid_cells lay" for img
  proof -
    have "within lay (ranges img)" using ok map_of_SomeD [OF that(1)] by (force simp: worker_ok_def)
    then show ?thesis using cells_valid that(2) by (auto simp: saved_bytes_apply)
  qed
  show "gpu_bytes (chats_of lay w1) c = (gpu_bytes (chats_of lay w)
    ++ (case parked_bytes (chats_of lay w) target of None \<Rightarrow> Map.empty | Some saved \<Rightarrow> saved)) c"
  proof (cases "c \<in> valid_cells lay")
    case True
    then have "gpu_cell (memory w1) c = (case map_of (images w) target of None \<Rightarrow> gpu_cell (memory w) c
           | Some img \<Rightarrow> (case saved_bytes lay (memory w) img c of None \<Rightarrow> gpu_cell (memory w) c | Some v \<Rightarrow> v))"
      using ex by (simp add: exchanged_def)
    then show ?thesis using True
      by (simp add: chats_of_def idle1 map_add_def split: option.split)
  next
    case False
    then show ?thesis using outside
      by (simp add: chats_of_def idle1 map_add_def split: option.split)
  qed
qed

definition settle_exchange ::
  "handover \<Rightarrow> string \<Rightarrow> string \<Rightarrow> (nat \<times> nat) list \<Rightarrow> nat \<Rightarrow> nat \<Rightarrow> 'b bank_worker \<Rightarrow> 'b bank_worker" where
  "settle_exchange md active target outgoing buf n w =
     (if active \<notin> set (dropped_banks md)
      then w\<lparr>images := AList.update active \<lparr>buffer = buf, ranges = outgoing\<rparr> (images w)\<rparr>
      else w\<lparr>free_buffers := free_buffers w @ [buf]\<rparr>)
     \<lparr>resident := Some target, bank_switches := bank_switches w + 1, transferred_bytes := transferred_bytes w + n\<rparr>"

lemma settle_exchange_ok:
  assumes ex: "exchanged lay target outgoing w buf w1" and ok: "worker_ok lay w" and ready: "stage_ready w"
    and out: "within lay outgoing" and active: "resident w = Some active" "active \<noteq> target"
  shows "worker_ok lay (settle_exchange md active target outgoing buf n w1)"
proof -
  have sizes: "gpu_sized lay (memory w1)" "\<And>j. sized lay j (memory w1) = sized lay j (memory w)"
    using ex ok by (simp_all add: exchanged_def worker_ok_def gpu_sized_def sized_def)
  have imgs: "images w1 = AList.delete target (images w)" using ex by (simp add: exchanged_def)
  have keys: "active \<notin> fst ` set (images w1)" "target \<notin> fst ` set (images w1)" "distinct (map fst (images w1))"
    "\<forall>img \<in> snd ` set (images w1). within lay (ranges img)"
    using ok active set_delete_subset [of target "images w"] delete_notin_dom [of target "images w"]
    by (auto simp: imgs worker_ok_def distinct_delete)
  have arena: "stage_ready w1" "\<forall>j < bank_limit lay - 1. sized lay j (memory w1)"
    "add_mset buf (mset (map (buffer \<circ> snd) (images w1)) + mset (free_buffers w1)) = all_buffers lay"
    using ex ok ready sizes unfolding exchanged_def worker_ok_def arena_ok_def by auto
  show ?thesis
    using sizes keys arena active out
    by (auto simp: settle_exchange_def worker_ok_def arena_ok_def buffers_of_def update_fresh)
qed

lemma hand_over_spec:
  assumes lay: "layout_ok lay" "2 \<le> bank_limit lay" and alloc: "allocates h" and ok: "worker_ok lay w"
    and idle: "pending w = []" and active: "resident w = Some active" "active \<noteq> target"
    and blocks: "\<forall>b \<in> set (save_blocks md). b < block_count lay"
    and run: "hand_over h lay md active target w = (Inr u, w')"
  shows "worker_ok lay w' \<and> pending w' = [] \<and> chats_of lay w' = (chats_of lay w)\<lparr>on_gpu := Some target,
     gpu_bytes := gpu_bytes (chats_of lay w)
       ++ (case parked_bytes (chats_of lay w) target of None \<Rightarrow> Map.empty | Some saved \<Rightarrow> saved),
     parked_bytes := ((parked_bytes (chats_of lay w))(target := None))
       (active := if active \<in> set (dropped_banks md) then None
          else Some (gpu_bytes (chats_of lay w) |` cells lay (spans (save_blocks md))))\<rparr>"
proof -
  let ?out = "spans (save_blocks md)"
  have out: "within lay ?out" using spans_within [OF blocks] .
  obtain k w1 where w1: "ensure_buffers h lay w = (Inr k, w1)"
    and "sbind (exchange lay target ?out) (\<lambda>(buf, n). modify (settle_exchange md active target ?out buf n)) w1 = (Inr u, w')"
    using run by (auto simp: hand_over_def settle_exchange_def [abs_def] Let_def sbind_Inr_iff)
  then obtain buf n w2 where w2: "exchange lay target ?out w1 = (Inr (buf, n), w2)"
    and w': "w' = settle_exchange md active target ?out buf n w2"
    by (auto simp: sbind_Inr_iff)
  have e: "worker_ok lay w1" "stage_ready w1" "pending w1 = []" "resident w1 = Some active"
    "chats_of lay w1 = chats_of lay w"
    using ensure_buffers_spec [OF alloc lay(2) ok _ w1] active idle by (auto simp: queue_ok_def)
  have ex: "exchanged lay target ?out w1 buf w2" using exchange_returns [OF lay(1) e(1-3) out w2] .
  have good: "worker_ok lay w'" unfolding w' using settle_exchange_ok [OF ex e(1) e(2) out e(4) active(2)] .
  have idle2: "pending w2 = []" "memory w' = memory w2" "pending w' = []"
    using ex by (auto simp: exchanged_def w' settle_exchange_def)
  have gpu: "gpu_bytes (chats_of lay w') = gpu_bytes (chats_of lay w2)"
    using idle2 by (simp add: chats_of_def settled_memory_def)
  have imgs: "images w2 = AList.delete target (images w1)" using ex by (simp add: exchanged_def)
  have fresh: "active \<notin> fst ` set (images w2)"
    using e(1,4) set_delete_subset [of target "images w1"] by (auto simp: imgs worker_ok_def)
  have out_bytes: "saved_bytes lay (memory w2) \<lparr>buffer = buf, ranges = ?out\<rparr> = gpu_bytes (chats_of lay w1) |` cells lay ?out"
  proof
    fix c
    have "ram_cell lay buf (memory w2) c = gpu_cell (memory w1) c" if "c \<in> cells lay ?out"
      using ex that by (simp add: exchanged_def)
    then show "saved_bytes lay (memory w2) \<lparr>buffer = buf, ranges = ?out\<rparr> c = (gpu_bytes (chats_of lay w1) |` cells lay ?out) c"
      using cells_valid [OF out] e(3) by (auto simp: saved_bytes_apply chats_of_def restrict_map_def settled_memory_def)
  qed
  have kept: "map_option (saved_bytes lay (memory w2)) (map_of (images w2) key)
      = (if key = target then None else parked_bytes (chats_of lay w1) key)" for key
  proof (cases "map_of (images w2) key")
    case None
    then show ?thesis by (auto simp: chats_of_def imgs delete_conv' split: if_splits)
  next
    case (Some img)
    then have "key \<noteq> target" "map_of (images w1) key = Some img" by (auto simp: imgs delete_conv' split: if_splits)
    then show ?thesis
      using exchanged_others [OF ex Some] Some e(3) by (simp add: chats_of_def settled_memory_def)
  qed
  have "parked_bytes (chats_of lay w') key = (((parked_bytes (chats_of lay w1))(target := None))
       (active := if active \<in> set (dropped_banks md) then None else Some (gpu_bytes (chats_of lay w1) |` cells lay ?out))) key" for key
  proof -
    have parked: "parked_bytes (chats_of lay w') key = map_option (saved_bytes lay (memory w2)) (map_of (images w') key)"
      using idle2 by (simp add: chats_of_def settled_memory_def)
    have none: "map_of (images w2) active = None" using fresh by (simp add: map_of_eq_None_iff)
    have imgs': "map_of (images w') key = (if active \<notin> set (dropped_banks md) \<and> key = active
        then Some \<lparr>buffer = buf, ranges = ?out\<rparr> else map_of (images w2) key)"
      by (simp add: w' settle_exchange_def update_conv')
    show ?thesis
      unfolding parked imgs' using kept [of key] out_bytes active(2) none by auto
  qed
  then have "parked_bytes (chats_of lay w') = ((parked_bytes (chats_of lay w))(target := None))
       (active := if active \<in> set (dropped_banks md) then None else Some (gpu_bytes (chats_of lay w) |` cells lay ?out))"
    unfolding e(5) by blast
  moreover have "gpu_bytes (chats_of lay w') = gpu_bytes (chats_of lay w)
       ++ (case parked_bytes (chats_of lay w) target of None \<Rightarrow> Map.empty | Some saved \<Rightarrow> saved)"
    using gpu gpu_bytes_exchanged [OF ex e(1,3)] e(5) by simp
  moreover have "on_gpu (chats_of lay w') = Some target" by (simp add: chats_of_def w' settle_exchange_def)
  ultimately show ?thesis using good idle2(3) by simp
qed

lemma buffers_of_more [simp]:
  "buffers_of (w\<lparr>resident := r\<rparr>) = buffers_of w"
  "buffers_of (w\<lparr>bank_switches := n\<rparr>) = buffers_of w"
  "buffers_of (w\<lparr>generation_replacements := n\<rparr>) = buffers_of w"
  by (simp_all add: buffers_of_def)

lemma chats_of_simps [simp]:
  "on_gpu (chats_of lay w) = resident w"
  "chats_of lay (w\<lparr>resident := r\<rparr>) = (chats_of lay w)\<lparr>on_gpu := r\<rparr>"
  "chats_of lay (w\<lparr>bank_switches := n\<rparr>) = chats_of lay w"
  "chats_of lay (w\<lparr>generation_replacements := n\<rparr>) = chats_of lay w"
  by (simp_all add: chats_of_def settled_memory_def)

text \<open>The branches of \<open>before\<close> once what is dropped has been dropped.\<close>

lemma change_refines:
  assumes lay: "layout_ok lay" "2 \<le> bank_limit lay" and alloc: "allocates h" and ok: "worker_ok lay w"
    and blocks: "\<forall>b \<in> set (save_blocks md). b < block_count lay"
    and t: "bank md = Some t" "resident w \<noteq> Some t" and idle: "pending w = []"
    and dropped: "(parked_bytes (chats_of lay w)) |` (- set (dropped_banks md)) = parked_bytes (chats_of lay w)"
    and run: "change_bank h lay md t w = (Inr u, w')"
  shows "worker_ok lay w' \<and> pending w' = [] \<and> chats_of lay w' = hand_chats lay md (chats_of lay w)"
proof -
  note run = run [unfolded change_bank_def]
  consider (first) "resident w = None" | (replace) active where "resident w = Some active" "discard_active md"
    | (swap) active where "resident w = Some active" "\<not> discard_active md" by (cases "resident w") auto
  then show ?thesis
  proof cases
    case first
    then have w': "w' = w\<lparr>resident := Some t\<rparr>" using run by simp
    have "images w = []" using ok first by (simp add: worker_ok_def)
    then have "worker_ok lay w'" using ok by (simp add: w' worker_ok_def arena_ok_def)
    then show ?thesis using first t dropped idle by (simp add: hand_chats_def w')
  next
    case replace
    then have w': "w' = w\<lparr>resident := Some t, bank_switches := bank_switches w + 1,
           generation_replacements := generation_replacements w + 1\<rparr>" and fresh: "t \<notin> fst ` set (images w)"
      using run by (auto simp: replace_generation_def action_simps)
    have "worker_ok lay w'" using ok fresh by (simp add: w' worker_ok_def arena_ok_def)
    then show ?thesis using replace t dropped idle by (simp add: hand_chats_def w')
  next
    case swap
    then have r: "hand_over h lay md active t w = (Inr u, w')" and ne: "active \<noteq> t" using run t by auto
    note spec = hand_over_spec [OF lay alloc ok idle swap(1) ne blocks r]
    have "hand_chats lay md (chats_of lay w) = (chats_of lay w)\<lparr>on_gpu := Some t,
       gpu_bytes := gpu_bytes (chats_of lay w)
         ++ (case parked_bytes (chats_of lay w) t of None \<Rightarrow> Map.empty | Some saved \<Rightarrow> saved),
       parked_bytes := ((parked_bytes (chats_of lay w))(t := None))
         (active := if active \<in> set (dropped_banks md) then None
            else Some (gpu_bytes (chats_of lay w) |` cells lay (spans (save_blocks md))))\<rparr>"
      using swap t by (simp add: hand_chats_def Let_def dropped)
    then show ?thesis using spec by simp
  qed
qed

text \<open>The whole step of the worker before a forward pass: first the part every call runs.\<close>

lemma before_prefix:
  assumes ok: "worker_ok lay w" and t: "bank md = Some t"
  shows "\<exists>w2. before_forward h lay md w = (if resident w \<noteq> Some t then change_bank h lay md t else ret ()) w2
    \<and> worker_ok lay w2 \<and> resident w2 = resident w \<and> stage_ready w2 = stage_ready w
    \<and> (resident w \<noteq> Some t \<longrightarrow> pending w2 = []) \<and> set (pending w2) \<subseteq> set (pending w)
    \<and> chats_of lay w2 = (chats_of lay w)\<lparr>parked_bytes := (parked_bytes (chats_of lay w)) |` (- set (dropped_banks md))\<rparr>"
proof -
  let ?changed = "resident w \<noteq> Some t" and ?D = "set (dropped_banks md)"
  obtain w1 where w1: "(if ?changed \<or> barrier md then cuda_synchronize else ret ()) w = (Inr (), w1)"
    and same: "same_but_device w w1" "settled_memory w1 = settled_memory w" "?changed \<longrightarrow> pending w1 = []"
      "set (pending w1) \<subseteq> set (pending w)"
    using synchronize_worker [of w] by (cases "?changed \<or> barrier md") (auto simp: settled_memory_def)
  obtain w2 where w2: "for_each drop_image (dropped_banks md) w1 = (Inr (), w2)" "worker_ok lay w2" "memory w2 = memory w1"
    "pending w2 = pending w1" "resident w2 = resident w1" "stage_ready w2 = stage_ready w1"
    "map_of (images w2) = (map_of (images w1)) |` (- ?D)"
    using drop_images_spec [OF worker_ok_same [OF same(1) ok]] by metis
  have res: "resident w2 = resident w" "stage_ready w2 = stage_ready w"
    using w2(5,6) same_but_device_fields [OF same(1)] by simp_all
  have settled2: "settled_memory w2 = settled_memory w" using w2(3,4) same(2) by (simp add: settled_memory_def)
  have imgs: "map_of (images w2) = (map_of (images w)) |` (- ?D)"
    using w2(7) same_but_device_fields(2) [OF same(1)] by simp
  have "(\<lambda>key. map_option (saved_bytes lay m) ((p |` A) key)) = (\<lambda>key. map_option (saved_bytes lay m) (p key)) |` A"
    for m :: "'a tensors" and p :: "string \<Rightarrow> image option" and A
    by (rule ext) (simp add: restrict_map_def)
  then have "chats_of lay w2 = (chats_of lay w)\<lparr>parked_bytes := (parked_bytes (chats_of lay w)) |` (- ?D)\<rparr>"
    by (simp add: chats_of_def res settled2 imgs)
  moreover have "before_forward h lay md w = (if ?changed then change_bank h lay md t else ret ()) w2"
    by (simp only: before_forward_def t option.case Let_def sbind_def w1 w2(1) prod.case sum.case)
  ultimately show ?thesis using w2(2,4) res same(3,4) by auto
qed

lemma before_forward_refines:
  assumes lay: "layout_ok lay" "2 \<le> bank_limit lay" and alloc: "allocates h" and ok: "worker_ok lay w"
    and blocks: "\<forall>b \<in> set (save_blocks md). b < block_count lay"
    and run: "before_forward h lay md w = (Inr u, w')"
  shows "worker_ok lay w' \<and> set (pending w') \<subseteq> set (pending w) \<and> chats_of lay w' = hand_chats lay md (chats_of lay w)"
proof (cases "bank md")
  case None
  then show ?thesis using run ok by (simp add: before_forward_def hand_chats_def)
next
  case (Some t)
  let ?D = "set (dropped_banks md)"
  obtain w2 where w2: "before_forward h lay md w = (if resident w \<noteq> Some t then change_bank h lay md t else ret ()) w2"
    "worker_ok lay w2" "resident w2 = resident w" "resident w \<noteq> Some t \<longrightarrow> pending w2 = []"
    "set (pending w2) \<subseteq> set (pending w)"
    and s2: "chats_of lay w2 = (chats_of lay w)\<lparr>parked_bytes := (parked_bytes (chats_of lay w)) |` (- ?D)\<rparr>"
    using before_prefix [OF ok Some, of h] by metis
  have twice: "hand_chats lay md (chats_of lay w2) = hand_chats lay md (chats_of lay w)"
    unfolding s2 using Some by (simp add: hand_chats_def Let_def split: option.split)
  show ?thesis
  proof (cases "resident w = Some t")
    case True
    then have "w' = w2" using w2(1) run by simp
    then show ?thesis using w2(2,5) s2 True Some by (simp add: hand_chats_def)
  next
    case False
    have dropped: "(parked_bytes (chats_of lay w2)) |` (- ?D) = parked_bytes (chats_of lay w2)" unfolding s2 by simp
    have still: "resident w2 \<noteq> Some t" "pending w2 = []" using False w2(3,4) by auto
    have "change_bank h lay md t w2 = (Inr u, w')" using w2(1) run False by simp
    then show ?thesis
      using change_refines [OF lay alloc w2(2) blocks Some still dropped] unfolding twice by auto
  qed
qed

end
