(* ===== verification/Bank_Protocol.thy ===== *)
theory Bank_Protocol
  imports Bank_Safety
begin

section \<open>Handovers in sequence\<close>

text \<open>
  Between handovers the model of the resident chat computes: kernels write the GPU regions and
  queue copies within the GPU.  A handover returns whenever the table of parked chats allows
  it, and a chat that was parked comes back with the bytes of every block that was saved.
\<close>

subsection \<open>When a handover returns\<close>

definition handover_allowed :: "bank_layout \<Rightarrow> handover \<Rightarrow> 'b chats \<Rightarrow> bool" where
  "handover_allowed lay md s \<longleftrightarrow> (case bank md of None \<Rightarrow> True | Some t \<Rightarrow>
     let p = (parked_bytes s) |` (- set (dropped_banks md)) in
     case on_gpu s of None \<Rightarrow> True | Some a \<Rightarrow>
       if a = t then True
       else if discard_active md then a \<in> set (dropped_banks md) \<and> p t = None
       else p t \<noteq> None \<or> card (dom p) < bank_limit lay - 1)"

lemma card_images:
  assumes "distinct (map fst (images w))"
  shows "card (dom (parked_bytes (chats_of lay w))) = length (images w)"
proof -
  have "dom (parked_bytes (chats_of lay w)) = fst ` set (images w)"
    by (simp add: chats_of_def dom_def map_of_eq_None_iff)
  then show ?thesis using assms by (metis distinct_card length_map list.set_map)
qed

lemma free_buffers_left:
  assumes "worker_ok lay w" "stage_ready w"
  shows "length (free_buffers w) + card (dom (parked_bytes (chats_of lay w))) = bank_limit lay - 1"
proof -
  have "size (buffers_of w) = size (all_buffers lay)" using assms by (simp add: worker_ok_def arena_ok_def)
  moreover have "card (dom (parked_bytes (chats_of lay w))) = length (images w)"
    by (rule card_images) (use assms in \<open>simp add: worker_ok_def\<close>)
  ultimately show ?thesis by (simp add: buffers_of_def all_buffers_def)
qed

lemma exchange_total:
  assumes "layout_ok lay" "worker_ok lay w" "stage_ready w" "pending w = []" "within lay outgoing"
    and "map_of (images w) target \<noteq> None \<or> free_buffers w \<noteq> []"
  shows "\<exists>buf n w1. exchange lay target outgoing w = (Inr (buf, n), w1) \<and> stage_ready w1"
proof (cases "map_of (images w) target")
  case None
  then show ?thesis
    using exchange_store [OF assms(1-5) None] assms(6) unfolding exchanged_def by blast
next
  case (Some img)
  then show ?thesis using exchange_swap [OF assms(1-5) Some] unfolding exchanged_def by blast
qed

lemma parked_image: "parked_bytes (chats_of lay w) t = None \<longleftrightarrow> map_of (images w) t = None"
  by (simp add: chats_of_def)

lemma before_forward_returns:
  assumes lay: "layout_ok lay" and ok: "worker_ok lay w" and ready: "stage_ready w"
    and blocks: "\<forall>b \<in> set (save_blocks md). b < block_count lay"
    and allowed: "handover_allowed lay md (chats_of lay w)"
  shows "\<exists>w'. before_forward h lay md w = (Inr (), w') \<and> stage_ready w'"
proof (cases "bank md")
  case None
  then show ?thesis using ready by (simp add: before_forward_def)
next
  case (Some t)
  let ?D = "set (dropped_banks md)"
  obtain w2 where w2: "before_forward h lay md w = (if resident w \<noteq> Some t then change_bank h lay md t else ret ()) w2"
    "worker_ok lay w2" "resident w2 = resident w" "stage_ready w2" "resident w \<noteq> Some t \<longrightarrow> pending w2 = []"
    and s2: "chats_of lay w2 = (chats_of lay w)\<lparr>parked_bytes := (parked_bytes (chats_of lay w)) |` (- ?D)\<rparr>"
    using before_prefix [OF ok Some, of h] ready by metis
  have p: "parked_bytes (chats_of lay w2) = (parked_bytes (chats_of lay w)) |` (- ?D)" unfolding s2 by simp
  show ?thesis
  proof (cases "resident w = Some t \<or> resident w = None")
    case True
    then show ?thesis using w2 by (auto simp: change_bank_def)
  next
    case False
    then obtain a where a: "resident w = Some a" "a \<noteq> t" by auto
    show ?thesis
    proof (cases "discard_active md")
      case True
      then have "a \<in> ?D" "parked_bytes (chats_of lay w2) t = None"
        using allowed a Some by (auto simp: handover_allowed_def p Let_def)
      then show ?thesis
        using w2 a True by (auto simp: change_bank_def replace_generation_def parked_image map_of_eq_None_iff
            sbind_def assert_that_def)
    next
      case False
      have "parked_bytes (chats_of lay w2) t \<noteq> None \<or> card (dom (parked_bytes (chats_of lay w2))) < bank_limit lay - 1"
        using allowed a Some False by (simp add: handover_allowed_def p Let_def)
      then have "map_of (images w2) t \<noteq> None \<or> free_buffers w2 \<noteq> []"
        using free_buffers_left [OF w2(2,4)] by (auto simp: parked_image)
      moreover have "pending w2 = []" using w2(5) a by simp
      ultimately obtain buf n w3 where w3: "exchange lay t (spans (save_blocks md)) w2 = (Inr (buf, n), w3)" "stage_ready w3"
        using exchange_total [OF lay w2(2,4) _ spans_within [OF blocks]] by blast
      have "ensure_buffers h lay w2 = (Inr 0, w2)" using w2(4) by (simp add: ensure_buffers_def)
      then show ?thesis
        using w3 w2 a False by (simp add: change_bank_def hand_over_def sbind_def Let_def)
    qed
  qed
qed

lemma before_forward_refuses:
  assumes ok: "worker_ok lay w" and ready: "stage_ready w" and refused: "\<not> handover_allowed lay md (chats_of lay w)"
  shows "\<exists>e w'. before_forward h lay md w = (Inl e, w')"
proof -
  obtain t a where t: "bank md = Some t" and a: "resident w = Some a" "a \<noteq> t"
    using refused by (auto simp: handover_allowed_def Let_def split: option.splits if_splits)
  let ?D = "set (dropped_banks md)"
  obtain w2 where w2: "before_forward h lay md w = (if resident w \<noteq> Some t then change_bank h lay md t else ret ()) w2"
    "worker_ok lay w2" "resident w2 = resident w" "stage_ready w2"
    and s2: "chats_of lay w2 = (chats_of lay w)\<lparr>parked_bytes := (parked_bytes (chats_of lay w)) |` (- ?D)\<rparr>"
    using before_prefix [OF ok t, of h] ready by metis
  have p: "parked_bytes (chats_of lay w2) = (parked_bytes (chats_of lay w)) |` (- ?D)" unfolding s2 by simp
  show ?thesis
  proof (cases "discard_active md")
    case True
    then have "a \<notin> ?D \<or> parked_bytes (chats_of lay w2) t \<noteq> None"
      using refused a t by (auto simp: handover_allowed_def p Let_def)
    then show ?thesis
      using w2 a True
      by (auto simp: change_bank_def replace_generation_def parked_image map_of_eq_None_iff sbind_def assert_that_def)
  next
    case False
    then have none: "parked_bytes (chats_of lay w2) t = None" "\<not> card (dom (parked_bytes (chats_of lay w2))) < bank_limit lay - 1"
      using refused a t by (simp_all add: handover_allowed_def p Let_def)
    then have "map_of (images w2) t = None" by (simp add: parked_image)
    moreover have "length (free_buffers w2) = 0" using none(2) free_buffers_left [OF w2(2,4)] by linarith
    then have "free_buffers w2 = []" by simp
    moreover have "ensure_buffers h lay w2 = (Inr 0, w2)" using w2(4) by (simp add: ensure_buffers_def)
    ultimately show ?thesis using w2 a False by (simp add: change_bank_def hand_over_def exchange_def sbind_def Let_def)
  qed
qed

subsection \<open>Runs\<close>

text \<open>
  What can happen to the worker: the allocation of the arena at startup
  (\<open>prepare_handover_pool\<close>), a handover, or the kernels of the resident chat, which leave
  other bytes in the GPU regions and copies within them in the queue.
\<close>

datatype 'b bank_event = PreparePool | Prepare handover | Compute "nat \<Rightarrow> 'b list" "transfer list"

definition compute :: "(nat \<Rightarrow> 'b list) \<Rightarrow> transfer list \<Rightarrow> ('b, unit) worker_op" where
  "compute g ts = modify (\<lambda>w. w\<lparr>memory := (\<lambda>p. case p of Gpu i \<Rightarrow> g i | _ \<Rightarrow> memory w p), pending := pending w @ ts\<rparr>)"

fun bank_step :: "'b host \<Rightarrow> bank_layout \<Rightarrow> 'b bank_event \<Rightarrow> ('b, unit) worker_op" where
  "bank_step h lay PreparePool = sbind (ensure_buffers h lay) (\<lambda>_. ret ())"
| "bank_step h lay (Prepare md) = before_forward h lay md"
| "bank_step h lay (Compute g ts) = compute g ts"

text \<open>Block identifiers are those of the pool, and kernels write GPU memory only.\<close>

fun event_ok :: "bank_layout \<Rightarrow> 'b bank_event \<Rightarrow> bool" where
  "event_ok lay PreparePool \<longleftrightarrow> True"
| "event_ok lay (Prepare md) \<longleftrightarrow> (\<forall>b \<in> set (save_blocks md). b < block_count lay)"
| "event_ok lay (Compute g ts) \<longleftrightarrow>
     (\<forall>i < length (region_rows lay). length (g i) = block_count lay * snd (region_rows lay ! i))
     \<and> (\<forall>t \<in> set ts. \<exists>i k. dest t = Gpu i \<and> source t = Gpu k)"

fun leaves_parked :: "string \<Rightarrow> 'b bank_event \<Rightarrow> bool" where
  "leaves_parked key PreparePool \<longleftrightarrow> True"
| "leaves_parked key (Prepare md) \<longleftrightarrow> bank md \<noteq> Some key \<and> key \<notin> set (dropped_banks md)"
| "leaves_parked key (Compute g ts) \<longleftrightarrow> True"

lemma perform_elsewhere: "dest t \<noteq> p \<Longrightarrow> perform t m p = m p"
  by (simp add: perform_def split: option.split)

lemma fold_perform_elsewhere: "\<forall>t \<in> set ts. dest t \<noteq> p \<Longrightarrow> fold perform ts m p = m p"
  by (induction ts arbitrary: m) (simp_all add: perform_elsewhere)

lemma settled_buffers: "queue_ok w \<Longrightarrow> settled_memory w (Buffer j) = memory w (Buffer j)"
  unfolding settled_memory_def queue_ok_def by (rule fold_perform_elsewhere) auto

definition settled_ok :: "bank_layout \<Rightarrow> 'b bank_worker \<Rightarrow> bool" where
  "settled_ok lay w \<longleftrightarrow> worker_ok lay w \<and> queue_ok w"

lemma compute_keeps_parked:
  assumes "settled_ok lay w" "event_ok lay (Compute g ts)" "bank_step h lay (Compute g ts) w = (Inr u, w')"
  shows "settled_ok lay w' \<and> on_gpu (chats_of lay w') = on_gpu (chats_of lay w)
    \<and> parked_bytes (chats_of lay w') = parked_bytes (chats_of lay w)"
proof -
  let ?m = "\<lambda>p. case p of Gpu i \<Rightarrow> g i | _ \<Rightarrow> memory w p"
  have w': "w' = w\<lparr>memory := ?m, pending := pending w @ ts\<rparr>" using assms(3) by (simp add: compute_def)
  have queue: "queue_ok w'" using assms(1,2) by (auto simp: w' settled_ok_def queue_ok_def)
  have "gpu_sized lay ?m" using assms(2) by (simp add: gpu_sized_def)
  moreover have "sized lay j ?m" if "sized lay j (memory w)" for j
    using that \<open>gpu_sized lay ?m\<close> by (simp add: sized_def)
  moreover have "memory w' = ?m" "buffers_of w' = buffers_of w" "resident w' = resident w" "images w' = images w"
    "free_buffers w' = free_buffers w" "stage_ready w' = stage_ready w" by (simp_all add: w' buffers_of_def)
  ultimately have "worker_ok lay w'"
    using assms(1) by (simp add: settled_ok_def worker_ok_def arena_ok_def cong: option.case_cong)
  moreover have "settled_memory w' (Buffer j) = settled_memory w (Buffer j)" for j
    using settled_buffers [OF queue] settled_buffers [of w] assms(1) by (simp add: w' settled_ok_def)
  then have "saved_bytes lay (settled_memory w') = saved_bytes lay (settled_memory w)"
    by (intro ext saved_bytes_memory [THEN fun_cong])
  moreover have "images w' = images w" "resident w' = resident w" by (simp_all add: w')
  ultimately show ?thesis using queue by (simp add: settled_ok_def chats_of_def)
qed

lemma ensure_keeps_parked:
  assumes lay: "layout_ok lay" "2 \<le> bank_limit lay" "allocates h"
    and ok: "settled_ok lay w" and run: "bank_step h lay PreparePool w = (Inr u, w')"
  shows "settled_ok lay w' \<and> stage_ready w' \<and> chats_of lay w' = chats_of lay w"
proof -
  obtain n where n: "ensure_buffers h lay w = (Inr n, w')" using run by (auto simp: sbind_Inr_iff)
  show ?thesis
    using ensure_buffers_spec [OF lay(3,2) _ _ n] ok by (simp add: settled_ok_def queue_ok_def)
qed

lemma step_keeps_parked:
  assumes lay: "layout_ok lay" "2 \<le> bank_limit lay" "allocates h"
    and ok: "settled_ok lay w" and ev: "event_ok lay e" "leaves_parked key e" and away: "resident w \<noteq> Some key"
    and run: "bank_step h lay e w = (Inr u, w')"
  shows "settled_ok lay w' \<and> resident w' \<noteq> Some key
    \<and> parked_bytes (chats_of lay w') key = parked_bytes (chats_of lay w) key"
proof (cases e)
  case PreparePool
  then have "settled_ok lay w'" "chats_of lay w' = chats_of lay w"
    using ensure_keeps_parked [OF lay ok, of u w'] run by auto
  then show ?thesis using away chats_of_simps(1) by metis
next
  case (Prepare md)
  have r: "worker_ok lay w'" "set (pending w') \<subseteq> set (pending w)" "chats_of lay w' = hand_chats lay md (chats_of lay w)"
    using before_forward_refines [OF lay, of w md u w'] ok ev(1) run by (auto simp: Prepare settled_ok_def)
  have "on_gpu (hand_chats lay md (chats_of lay w)) \<noteq> Some key
      \<and> parked_bytes (hand_chats lay md (chats_of lay w)) key = parked_bytes (chats_of lay w) key"
    using ev(2) away by (auto simp: Prepare hand_chats_def Let_def split: option.splits)
  then show ?thesis using r ok unfolding r(3) [symmetric] by (auto simp: settled_ok_def queue_ok_def)
next
  case (Compute g ts)
  then show ?thesis using compute_keeps_parked [of lay w g ts h u w'] ok ev(1) run away by auto
qed

lemma run_keeps_parked:
  assumes lay: "layout_ok lay" "2 \<le> bank_limit lay" "allocates h"
    and "settled_ok lay w" "\<forall>e \<in> set evs. event_ok lay e \<and> leaves_parked key e" "resident w \<noteq> Some key"
    and "for_each (bank_step h lay) evs w = (Inr u, w')"
  shows "settled_ok lay w' \<and> resident w' \<noteq> Some key
    \<and> parked_bytes (chats_of lay w') key = parked_bytes (chats_of lay w) key"
  using assms(4-7)
proof (induction evs arbitrary: w)
  case (Cons e evs)
  obtain w1 where w1: "bank_step h lay e w = (Inr (), w1)" "for_each (bank_step h lay) evs w1 = (Inr u, w')"
    using Cons.prems(4) by (auto simp: sbind_Inr_iff)
  have one: "settled_ok lay w1 \<and> resident w1 \<noteq> Some key
      \<and> parked_bytes (chats_of lay w1) key = parked_bytes (chats_of lay w) key"
    using step_keeps_parked [OF lay Cons.prems(1) _ _ Cons.prems(3) w1(1)] Cons.prems(2) by simp
  then show ?case using Cons.IH [of w1] w1(2) Cons.prems(2) by simp
qed simp

lemma step_settled:
  assumes lay: "layout_ok lay" "2 \<le> bank_limit lay" "allocates h"
    and ok: "settled_ok lay w" and ev: "event_ok lay e" and run: "bank_step h lay e w = (Inr u, w')"
  shows "settled_ok lay w'"
proof (cases e)
  case PreparePool
  then show ?thesis using ensure_keeps_parked [OF lay ok, of u w'] run by auto
next
  case (Prepare md)
  then show ?thesis
    using before_forward_refines [OF lay, of w md u w'] ok ev run by (auto simp: settled_ok_def queue_ok_def)
next
  case (Compute g ts)
  then show ?thesis using compute_keeps_parked [of lay w g ts h u w'] ok ev run by auto
qed

lemma run_settled:
  assumes lay: "layout_ok lay" "2 \<le> bank_limit lay" "allocates h"
    and "settled_ok lay w" "\<forall>e \<in> set evs. event_ok lay e" "for_each (bank_step h lay) evs w = (Inr u, w')"
  shows "settled_ok lay w'"
  using assms(4-6)
proof (induction evs arbitrary: w)
  case (Cons e evs)
  then show ?case using step_settled [OF lay, of w e "()"] by (fastforce simp: sbind_Inr_iff)
qed simp

text \<open>What a chat finds when it comes back.\<close>

lemma for_each_append_Inr:
  "for_each f (xs @ ys) s = (Inr u, s') \<Longrightarrow> \<exists>t. for_each f xs s = (Inr (), t) \<and> for_each f ys t = (Inr u, s')"
  by (induction xs arbitrary: s) (auto simp: sbind_Inr_iff)

lemma parked_chat_returns:
  assumes lay: "layout_ok lay" "2 \<le> bank_limit lay" "allocates h" and ok: "settled_ok lay w"
    and leave: "resident w = Some key" "event_ok lay (Prepare out)" "bank out = Some t" "t \<noteq> key"
      "\<not> discard_active out" "key \<notin> set (dropped_banks out)"
    and between: "\<forall>e \<in> set evs. event_ok lay e \<and> leaves_parked key e"
    and home: "event_ok lay (Prepare inn)" "bank inn = Some key" "\<not> discard_active inn" "key \<notin> set (dropped_banks inn)"
    and run: "for_each (bank_step h lay) (Prepare out # evs @ [Prepare inn]) w = (Inr u, w')"
    and cell: "(i, x) \<in> valid_cells lay" "x div snd (region_rows lay ! i) \<in> set (save_blocks out)"
  shows "gpu_cell (settled_memory w') (i, x) = gpu_cell (settled_memory w) (i, x)"
proof -
  obtain w1 w2 where w1: "before_forward h lay out w = (Inr (), w1)" and w2: "for_each (bank_step h lay) evs w1 = (Inr (), w2)"
    and w': "before_forward h lay inn w2 = (Inr (), w')"
  proof -
    obtain w1 where w1: "before_forward h lay out w = (Inr (), w1)" "for_each (bank_step h lay) (evs @ [Prepare inn]) w1 = (Inr u, w')"
      using run by (auto simp: sbind_Inr_iff)
    obtain w2 where "for_each (bank_step h lay) evs w1 = (Inr (), w2)" "for_each (bank_step h lay) [Prepare inn] w2 = (Inr u, w')"
      using for_each_append_Inr [OF w1(2)] by blast
    then show thesis using w1(1) by (intro that [of w1 w2]) (auto simp: sbind_Inr_iff)
  qed
  have 1: "worker_ok lay w1" "set (pending w1) \<subseteq> set (pending w)" "chats_of lay w1 = hand_chats lay out (chats_of lay w)"
    using before_forward_refines [OF lay _ _ w1] ok leave(2) by (auto simp: settled_ok_def)
  let ?saved = "gpu_bytes (chats_of lay w) |` cells lay (spans (save_blocks out))"
  have parked1: "on_gpu (chats_of lay w1) = Some t" "parked_bytes (chats_of lay w1) key = Some ?saved"
    using leave unfolding 1(3) by (auto simp: hand_chats_def Let_def)
  have ok1: "settled_ok lay w1" using 1(1,2) ok by (auto simp: settled_ok_def queue_ok_def)
  have 2: "settled_ok lay w2" "resident w2 \<noteq> Some key" "parked_bytes (chats_of lay w2) key = Some ?saved"
    using run_keeps_parked [OF lay ok1 between _ w2] parked1 leave(4) by auto
  have 3: "chats_of lay w' = hand_chats lay inn (chats_of lay w2)"
    using before_forward_refines [OF lay _ _ w'] 2(1) home(1) by (auto simp: settled_ok_def)
  have "resident w2 \<noteq> None"
  proof
    assume "resident w2 = None"
    then have "images w2 = []" using 2(1) by (simp add: settled_ok_def worker_ok_def)
    then show False using 2(3) by (simp add: chats_of_def)
  qed
  then have gpu: "gpu_bytes (chats_of lay w') = gpu_bytes (chats_of lay w2) ++ ?saved"
    using 2 home unfolding 3 by (auto simp: hand_chats_def Let_def)
  have "(i, x) \<in> cells lay (spans (save_blocks out))"
    using cell by (simp add: cells_blocks [OF lay(1)] spans_cover valid_cells_def)
  then have "gpu_bytes (chats_of lay w') (i, x) = gpu_bytes (chats_of lay w) (i, x)"
    unfolding gpu using cell(1) by (simp add: map_add_def chats_of_def)
  then show ?thesis using cell(1) by (simp add: chats_of_def)
qed

subsection \<open>The layout and the first state\<close>

lemma rows_from_ok:
  assumes "rows_from blocks offset ns = Inr (rows, capacity)" "0 < blocks"
  shows "offset \<le> capacity \<and> length rows = length ns
    \<and> (\<forall>i < length rows. 0 < snd (rows ! i) \<and> ns ! i = blocks * snd (rows ! i) \<and> offset \<le> fst (rows ! i)
         \<and> fst (rows ! i) + blocks * snd (rows ! i) \<le> capacity)
    \<and> (\<forall>i j. i < j \<and> j < length rows \<longrightarrow> fst (rows ! i) + blocks * snd (rows ! i) \<le> fst (rows ! j))"
  using assms(1)
proof (induction ns arbitrary: offset rows)
  case (Cons n ns)
  obtain tail where n: "n mod blocks = 0" "0 < n div blocks" and tail: "rows_from blocks (offset + n) ns = Inr (tail, capacity)"
    and rows: "rows = (offset, n div blocks) # tail"
    using Cons.prems by (auto simp: result_simps Let_def)
  have "blocks * (n div blocks) = n" using n(1) by auto
  then show ?case using Cons.IH [OF tail] n(2) unfolding rows
    by (auto simp: nth_Cons less_Suc_eq_0_disj split: nat.splits)
qed simp

lemma make_layout_ok:
  assumes "make_layout page blocks tensors limit = Inr lay"
  shows "layout_ok lay" "bank_limit lay = limit"
    "\<forall>i < length (region_rows lay). distinct_storages tensors ! i = block_count lay * snd (region_rows lay ! i)"
    "length (region_rows lay) = length (distinct_storages tensors)"
proof -
  obtain rows capacity where blocks: "0 < blocks" and rows: "rows_from blocks 0 (distinct_storages tensors) = Inr (rows, capacity)"
    and lay: "region_rows lay = rows" "block_count lay = blocks" "bank_capacity lay = capacity" "bank_limit lay = limit"
      "stage_capacity lay = min capacity (max (256 * 1024 ^ 2) (Max (snd ` set rows)))"
    using assms by (auto simp: make_layout_def Let_def result_simps)
  note ok = rows_from_ok [OF rows blocks]
  have "snd (rows ! i) \<le> stage_capacity lay" if "i < length rows" for i
  proof -
    have "snd (rows ! i) \<le> Max (snd ` set rows)" using that by (intro Max_ge) auto
    moreover have "snd (rows ! i) \<le> blocks * snd (rows ! i)" using blocks by simp
    then have "snd (rows ! i) \<le> capacity" using ok that by (meson add_leE order_trans)
    ultimately show ?thesis by (simp add: lay)
  qed
  then show "layout_ok lay" using ok blocks unfolding layout_ok_def lay by auto
  show "bank_limit lay = limit" "length (region_rows lay) = length (distinct_storages tensors)"
    "\<forall>i < length (region_rows lay). distinct_storages tensors ! i = block_count lay * snd (region_rows lay ! i)"
    using ok by (simp_all add: lay)
qed

lemma initial_settled:
  assumes "make_layout page blocks tensors limit = Inr lay"
    and "\<forall>i < length (distinct_storages tensors). length (m (Gpu i)) = distinct_storages tensors ! i"
  shows "settled_ok lay (initial_worker m schedule)"
  using make_layout_ok(3,4) [OF assms(1)] assms(2)
  by (simp add: settled_ok_def worker_ok_def arena_ok_def queue_ok_def initial_worker_def gpu_sized_def)

end
