(* ===== verification/Bank_Properties.thy ===== *)
theory Bank_Properties
  imports Bank_Protocol
begin

section \<open>Properties of the parked chats\<close>

subsection \<open>Two chats and one RAM buffer\<close>

definition demo_tensors :: "(nat \<times> nat) list" where
  "demo_tensors = [(100, 6), (200, 3), (100, 6)]"

definition demo_layout :: bank_layout where
  "demo_layout = \<lparr>region_rows = [(0, 2), (6, 1)], block_count = 3, bank_capacity = 9, stage_capacity = 9,
     bank_limit = 2, reserved_bytes = 18\<rparr>"

definition demo_host :: "nat host" where
  "demo_host = \<lparr>available_ram = 8589934610, allocate_pinned = (\<lambda>k n. Inr (replicate n 0))\<rparr>"

definition demo_gpu :: "nat tensors" where
  "demo_gpu = (\<lambda>p. case p of Gpu i \<Rightarrow> if i = 0 then [0, 0, 0, 0, 0, 0] else [0, 0, 0] | _ \<Rightarrow> [])"

definition demo_handover :: "string \<Rightarrow> nat list \<Rightarrow> handover" where
  "demo_handover key blocks = \<lparr>bank = Some key, save_blocks = blocks, dropped_banks = [], barrier = False,
     discard_active = False\<rparr>"

definition demo_compute :: "nat \<Rightarrow> nat bank_event" where
  "demo_compute k = Compute (\<lambda>i. if i = 0 then [k + 1, k + 2, k + 3, k + 4, k + 5, k + 6] else [k + 7, k + 8, k + 9]) []"

definition demo_worker :: "nat bank_worker" where
  "demo_worker = initial_worker demo_gpu [0, 1, 0, 2]"

text \<open>Chat \<open>a\<close> leaves with its blocks 0 and 2, chat \<open>b\<close> computes, and \<open>a\<close> comes back.\<close>

definition demo_before :: "nat bank_event list" where
  "demo_before = [Prepare (demo_handover ''a'' []), demo_compute 10]"

definition demo_visit :: "nat bank_event list" where
  "demo_visit = [Prepare (demo_handover ''b'' [2, 0]), demo_compute 50, Prepare (demo_handover ''a'' [1, 0])]"

lemma demo_layout_made: "make_layout 1 3 demo_tensors 2 = Inr demo_layout"
  by (simp add: make_layout_def demo_tensors_def distinct_storages_def demo_layout_def backing_bytes_def Let_def)

lemma demo_allocates: "allocates demo_host"
  by (simp add: allocates_def demo_host_def)

text \<open>The worker once the arena is there.\<close>

definition demo_ready :: "nat bank_worker" where
  "demo_ready = demo_worker\<lparr>memory := install_buffers [replicate 9 0, replicate 9 0] demo_gpu,
     free_buffers := [0], stage_ready := True, allocated_bytes := 18, allocation_events := 1\<rparr>"

lemma demo_startup: "bank_step demo_host demo_layout PreparePool demo_worker = (Inr (), demo_ready)"
proof -
  have "allocate_all demo_host 0 (replicate (bank_limit demo_layout - 1) (bank_capacity demo_layout)
      @ [stage_capacity demo_layout]) = Inr [replicate 9 0, replicate 9 0]"
    by (simp add: demo_host_def demo_layout_def)
  then show ?thesis
    by (simp add: ensure_buffers_def sbind_def assert_that_def demo_ready_def demo_worker_def initial_worker_def)
      (simp add: demo_layout_def demo_host_def)
qed

lemma demo_first_run:
  "fst (for_each (bank_step demo_host demo_layout) demo_before demo_ready) = Inr ()"
  by code_simp

lemma demo_visit_run:
  "fst (for_each (bank_step demo_host demo_layout) demo_visit
     (snd (for_each (bank_step demo_host demo_layout) demo_before demo_ready))) = Inr ()"
  by code_simp

lemma demo_resident:
  "resident (snd (for_each (bank_step demo_host demo_layout) demo_before demo_ready)) = Some ''a''"
  "stage_ready (snd (for_each (bank_step demo_host demo_layout) demo_before demo_ready))"
  by code_simp+

lemma demo_step: "for_each (bank_step demo_host demo_layout) (PreparePool # evs) demo_worker
    = for_each (bank_step demo_host demo_layout) evs demo_ready"
  by (simp only: for_each.simps sbind_def demo_startup prod.case sum.case)

lemma demo_gpu_sizes:
  "\<forall>i < length (distinct_storages demo_tensors). length (demo_gpu (Gpu i)) = distinct_storages demo_tensors ! i"
  by (auto simp: distinct_storages_def demo_tensors_def demo_gpu_def less_Suc_eq)

lemma demo_events_ok: "\<forall>e \<in> set (demo_before @ demo_visit). event_ok demo_layout e"
  by (auto simp: demo_before_def demo_visit_def demo_handover_def demo_layout_def demo_compute_def nth_Cons
      split: nat.splits)

subsection \<open>The properties\<close>

text \<open>
  From the startup of a worker, through any handovers and any computation of the resident
  chats, with the stream of the device as far behind the host as it likes: a chat that is
  handed over and handed back later finds every byte of every block that was saved for it as
  it left it, whatever other chats were loaded, saved and dropped in between.
\<close>

theorem parked_chats_come_back:
  assumes "make_layout page blocks tensors limit = Inr lay" "2 \<le> limit" "allocates h"
    and "\<forall>i < length (distinct_storages tensors). length (m (Gpu i)) = distinct_storages tensors ! i"
    and "\<forall>e \<in> set (past @ Prepare out # visit @ [Prepare inn]). event_ok lay e"
    and "for_each (bank_step h lay) past (initial_worker m schedule) = (Inr (), w)"
    and "resident w = Some key" "bank out = Some other" "other \<noteq> key" "\<not> discard_active out" "key \<notin> set (dropped_banks out)"
    and "\<forall>e \<in> set visit. leaves_parked key e"
    and "bank inn = Some key" "\<not> discard_active inn" "key \<notin> set (dropped_banks inn)"
    and "for_each (bank_step h lay) (Prepare out # visit @ [Prepare inn]) w = (Inr (), w')"
    and "(i, x) \<in> valid_cells lay" "x div snd (region_rows lay ! i) \<in> set (save_blocks out)"
  shows "gpu_cell (settled_memory w') (i, x) = gpu_cell (settled_memory w) (i, x)"
proof -
  have lay: "layout_ok lay" "2 \<le> bank_limit lay" using make_layout_ok [OF assms(1)] assms(2) by auto
  have "settled_ok lay w"
    using run_settled [OF lay assms(3) initial_settled [OF assms(1,4)] _ assms(6)] assms(5) by auto
  then show ?thesis
    using parked_chat_returns [OF lay assms(3) _ assms(7) _ assms(8-11) _ _ assms(13-18)] assms(5,12) by auto
qed

text \<open>
  C34: A handover returns exactly when the table of parked chats allows it: a change of chat
  needs an image of the target or a free buffer, and the replacement of a generation needs the
  retired bank to be dropped and no image of its successor.  When it returns, the worker shows
  the table after the handover: the saved bytes of the target over the GPU memory, the saved
  blocks of the chat that left among the parked chats, and no other parked chat changed.
\<close>

theorem handovers_refine_the_table:
  assumes "make_layout page blocks tensors limit = Inr lay" "2 \<le> limit" "allocates h"
    and "\<forall>i < length (distinct_storages tensors). length (m (Gpu i)) = distinct_storages tensors ! i"
    and "\<forall>e \<in> set (past @ [Prepare md]). event_ok lay e"
    and "for_each (bank_step h lay) past (initial_worker m schedule) = (Inr (), w)" "stage_ready w"
    and "before_forward h lay md w = (r, w')"
  shows "(r = Inr () \<longleftrightarrow> handover_allowed lay md (chats_of lay w))
    \<and> (r = Inr () \<longrightarrow> chats_of lay w' = hand_chats lay md (chats_of lay w))"
proof -
  have lay: "layout_ok lay" "2 \<le> bank_limit lay" using make_layout_ok [OF assms(1)] assms(2) by auto
  have ok: "worker_ok lay w"
    using run_settled [OF lay assms(3) initial_settled [OF assms(1,4)] _ assms(6)] assms(5) by (simp add: settled_ok_def)
  have blocks: "\<forall>b \<in> set (save_blocks md). b < block_count lay" using assms(5) by simp
  have "r = Inr () \<longleftrightarrow> handover_allowed lay md (chats_of lay w)"
    using before_forward_returns [OF lay(1) ok assms(7) blocks, of h] before_forward_refuses [OF ok assms(7), of md h] assms(8)
    by auto
  moreover have "chats_of lay w' = hand_chats lay md (chats_of lay w)" if "r = Inr ()"
    using before_forward_refines [OF lay assms(3) ok blocks] assms(8) that by auto
  ultimately show ?thesis by blast
qed

theorem parked_chats_come_back_witness:
  "let w = snd (for_each (bank_step demo_host demo_layout) demo_before demo_ready);
       w' = snd (for_each (bank_step demo_host demo_layout) demo_visit w)
   in gpu_cell (settled_memory w') (0, 5) = gpu_cell (settled_memory w) (0, 5)"
proof -
  let ?run = "for_each (bank_step demo_host demo_layout)"
  obtain w where w: "?run demo_before demo_ready = (Inr (), w)"
    using demo_first_run by (metis prod.collapse)
  obtain w' where w': "?run demo_visit w = (Inr (), w')"
    using demo_visit_run w by (metis prod.collapse snd_conv)
  have past: "?run (PreparePool # demo_before) (initial_worker demo_gpu [0, 1, 0, 2]) = (Inr (), w)"
    using w demo_step [of demo_before] unfolding demo_worker_def by simp
  have "resident w = Some ''a''" using demo_resident w by simp
  moreover have "\<forall>e \<in> set ((PreparePool # demo_before) @ demo_visit). event_ok demo_layout e"
    using demo_events_ok by simp
  ultimately have "gpu_cell (settled_memory w') (0, 5) = gpu_cell (settled_memory w) (0, 5)"
    using parked_chats_come_back [OF demo_layout_made _ demo_allocates demo_gpu_sizes _ past, of
        "demo_handover ''b'' [2, 0]" "[demo_compute 50]" "demo_handover ''a'' [1, 0]" "''a''" "''b''" w' 0 5] w'
    by (simp add: demo_visit_def demo_handover_def demo_compute_def valid_cells_def demo_layout_def)
  then show ?thesis using w w' by simp
qed

theorem handovers_refine_the_table_witness:
  "chats_of demo_layout (snd (before_forward demo_host demo_layout (demo_handover ''b'' [2, 0])
       (snd (for_each (bank_step demo_host demo_layout) demo_before demo_ready))))
   = hand_chats demo_layout (demo_handover ''b'' [2, 0])
       (chats_of demo_layout (snd (for_each (bank_step demo_host demo_layout) demo_before demo_ready)))"
proof -
  let ?run = "for_each (bank_step demo_host demo_layout)"
  obtain w where w: "?run demo_before demo_ready = (Inr (), w)"
    using demo_first_run by (metis prod.collapse)
  have past: "?run (PreparePool # demo_before) (initial_worker demo_gpu [0, 1, 0, 2]) = (Inr (), w)"
    using w demo_step [of demo_before] unfolding demo_worker_def by simp
  obtain r w' where r: "before_forward demo_host demo_layout (demo_handover ''b'' [2, 0]) w = (r, w')"
    by (cases "before_forward demo_host demo_layout (demo_handover ''b'' [2, 0]) w")
  have "r = Inr ()" using demo_visit_run r w by (cases r) (auto simp: demo_visit_def sbind_def)
  moreover have "\<forall>e \<in> set ((PreparePool # demo_before) @ [Prepare (demo_handover ''b'' [2, 0])]). event_ok demo_layout e"
    using demo_events_ok by (simp add: demo_visit_def)
  moreover have "stage_ready w" using demo_resident w by simp
  ultimately show ?thesis
    using handovers_refine_the_table [OF demo_layout_made _ demo_allocates demo_gpu_sizes _ past _ r] r w by simp
qed

end
