(* ===== verification/Chat_Priorities.thy ===== *)
theory Chat_Priorities
  imports Prelude "HOL-Library.AList"
begin

section \<open>Chats, answer priorities and tool handovers\<close>

text \<open>
  Model of \<open>bank_key\<close>, \<open>bank_identity\<close>, \<open>supersedes\<close>, \<open>AnswerPriorities\<close> and \<open>ToolHandover\<close>
  of \<open>experiments/radiance-public/radiance_fair_scheduler.py\<close>.  Times are nanoseconds of the
  monotonic clock, as integers.  A request is an object known by its address; the fields the
  code reads of it are in the record \<open>request\<close>, where \<open>request_finished\<close> is what its method
  \<open>is_finished()\<close> answers.  The digest is a parameter.
\<close>

datatype chat_error =
    InvalidChatIdentity
  | InvalidBankIdentity
  | InvalidPriorityFields
  | InvalidPriorityChat
  | InvalidPriorityOwner
  | InvalidPrioritySequence
  | InvalidPriorityLevel
  | InvalidAnswerActivity
  | StalePriority
  | AnotherWindowActive
  | RegistryFull
  | InvalidGrace
  | UnqualifiedRuntime
  | UnsupportedPolicy
  | InvalidBankLimit
  | InvalidDeferral
  | SwitchWhileRunning
  | ReplaceLiveGeneration
  | OnlyHigherPriority
  | InvalidParkedOwnership
  | BankMissing
  | NoWaitingSuccessor
  | EngineFailed string

definition seconds :: "int \<Rightarrow> int" where
  "seconds n = n * 1000000000"

definition lower_hex :: "nat \<Rightarrow> string \<Rightarrow> bool" where
  "lower_hex n s \<longleftrightarrow> length s = n \<and> list_all (\<lambda>c. c \<in> set ''0123456789abcdef'') s"

subsection \<open>Banks\<close>

record request =
  request_id :: string
  qwen_chat :: "(string \<times> string) option"
  handover_token :: "string option"
  status_name :: string
  request_finished :: bool
  in_flight_tokens :: nat

definition bank_key :: "(string \<Rightarrow> string) \<Rightarrow> request \<Rightarrow> chat_error + string" where
  "bank_key sha256 r = (case qwen_chat r of
     Some (chat, generation) \<Rightarrow>
       if lower_hex 64 chat \<and> lower_hex 64 generation then Inr (chat @ '':'' @ generation)
       else Inl InvalidChatIdentity
   | None \<Rightarrow> Inr (sha256 (request_id r) @ '':'' @ replicate 64 (CHR ''0'')))"

text \<open>\<open>key.split(":", 1)[0]\<close>, and the part after the first colon where there is one.\<close>

definition chat_part :: "string \<Rightarrow> string" where
  "chat_part key = takeWhile (\<lambda>c. c \<noteq> CHR '':'') key"

definition generation_part :: "string \<Rightarrow> string option" where
  "generation_part key = (case dropWhile (\<lambda>c. c \<noteq> CHR '':'') key of [] \<Rightarrow> None | _ # rest \<Rightarrow> Some rest)"

definition bank_identity :: "string \<Rightarrow> chat_error + string \<times> string" where
  "bank_identity key = (case generation_part key of None \<Rightarrow> Inl InvalidBankIdentity
     | Some generation \<Rightarrow>
         if lower_hex 64 (chat_part key) \<and> lower_hex 64 generation then Inr (chat_part key, generation)
         else Inl InvalidBankIdentity)"

definition supersedes :: "string option \<Rightarrow> string option \<Rightarrow> bool" where
  "supersedes candidate existing = (case (candidate, existing) of
     (Some c, Some e) \<Rightarrow> c \<noteq> e \<and> chat_part c = chat_part e | _ \<Rightarrow> False)"

lemma supersedes_simps [simp]:
  "\<not> supersedes None k" "\<not> supersedes k None"
  "supersedes (Some a) (Some b) \<longleftrightarrow> a \<noteq> b \<and> chat_part a = chat_part b"
  by (auto simp: supersedes_def split: option.splits)

subsection \<open>Leased priorities of answers\<close>

datatype field = Text string | Number int | Flag bool | OtherField

type_synonym control = "(string \<times> field) list"

record priority_row =
  row_control :: control
  row_client :: string
  row_sequence :: int
  row_priority :: int
  row_active :: bool
  row_expires :: int

type_synonym priorities = "(string \<times> priority_row) list"

definition CONTROL_FIELDS :: "string list" where
  "CONTROL_FIELDS = [''chat_id'', ''client'', ''answer'', ''sequence'', ''priority'', ''active'']"

definition LEASE :: int where
  "LEASE = seconds 60"

text \<open>\<open>validate\<close>: the row that the control describes, with the lease still open.\<close>

definition is_text :: "(string \<Rightarrow> bool) \<Rightarrow> field option \<Rightarrow> bool" where
  "is_text p f = (case f of Some (Text s) \<Rightarrow> p s | _ \<Rightarrow> False)"

definition is_number :: "(int \<Rightarrow> bool) \<Rightarrow> field option \<Rightarrow> bool" where
  "is_number p f = (case f of Some (Number n) \<Rightarrow> p n | _ \<Rightarrow> False)"

definition is_flag :: "field option \<Rightarrow> bool" where
  "is_flag f = (case f of Some (Flag _) \<Rightarrow> True | _ \<Rightarrow> False)"

definition validate_control :: "control \<Rightarrow> chat_error + unit" where
  "validate_control v =
     rbind (require (set (map fst v) = set CONTROL_FIELDS) InvalidPriorityFields) (\<lambda>_.
     rbind (require (is_text (lower_hex 64) (map_of v ''chat_id'')) InvalidPriorityChat) (\<lambda>_.
     rbind (check_all (\<lambda>name. require (is_text (lower_hex 32) (map_of v name)) InvalidPriorityOwner)
       [''client'', ''answer'']) (\<lambda>_.
     rbind (require (is_number (\<lambda>n. 0 < n \<and> n < 2 ^ 53) (map_of v ''sequence'')) InvalidPrioritySequence) (\<lambda>_.
     rbind (require (is_number (\<lambda>n. n \<in> {0, 1, 2}) (map_of v ''priority'')) InvalidPriorityLevel) (\<lambda>_.
     require (is_flag (map_of v ''active'')) InvalidAnswerActivity)))))"

definition text_of :: "field option \<Rightarrow> string" where
  "text_of f = (case f of Some (Text s) \<Rightarrow> s | _ \<Rightarrow> [])"

definition number_of :: "field option \<Rightarrow> int" where
  "number_of f = (case f of Some (Number n) \<Rightarrow> n | _ \<Rightarrow> 0)"

definition flag_of :: "field option \<Rightarrow> bool" where
  "flag_of f = (case f of Some (Flag b) \<Rightarrow> b | _ \<Rightarrow> False)"

definition control_row :: "control \<Rightarrow> int \<Rightarrow> priority_row" where
  "control_row v expires = \<lparr>row_control = v, row_client = text_of (map_of v ''client''),
     row_sequence = number_of (map_of v ''sequence''), row_priority = number_of (map_of v ''priority''),
     row_active = flag_of (map_of v ''active''), row_expires = expires\<rparr>"

definition same_control :: "priority_row \<Rightarrow> control \<Rightarrow> bool" where
  "same_control old v = list_all (\<lambda>(name, f). map_of (row_control old) name = Some f) v"

definition store_control :: "int \<Rightarrow> string \<Rightarrow> control \<Rightarrow> priorities \<Rightarrow> chat_error + int \<times> priorities" where
  "store_control now chat v p =
     (let recent = filter (\<lambda>(_, row). now < row_expires row + seconds 3600) p in
      rbind (require (\<not> (chat \<notin> fst ` set recent \<and> 4096 \<le> length recent)) RegistryFull) (\<lambda>_.
      Inr (number_of (map_of v ''priority''), AList.update chat (control_row v (now + LEASE)) recent)))"

definition update_priority :: "int \<Rightarrow> control \<Rightarrow> priorities \<Rightarrow> chat_error + int \<times> priorities" where
  "update_priority now v p =
     rbind (validate_control v) (\<lambda>_.
     let chat = text_of (map_of v ''chat_id'') in
     case map_of p chat of
       None \<Rightarrow> store_control now chat v p
     | Some old \<Rightarrow>
         if row_client old = text_of (map_of v ''client'') then
           if number_of (map_of v ''sequence'') \<le> row_sequence old then
             if same_control old v then Inr (row_priority old, p) else Inl StalePriority
           else store_control now chat v p
         else if row_active old \<and> now < row_expires old then Inl AnotherWindowActive
         else store_control now chat v p)"

definition priority_level :: "int \<Rightarrow> priorities \<Rightarrow> string option \<Rightarrow> int" where
  "priority_level now p key = (case key of None \<Rightarrow> 0 | Some k \<Rightarrow>
     (case map_of p (chat_part k) of None \<Rightarrow> 0
      | Some row \<Rightarrow> if row_active row \<and> now < row_expires row then row_priority row else 0))"

subsection \<open>The outcome of a response\<close>

record tool_handover =
  grace :: int
  watched :: "nat option"
  watched_token :: "string option"
  watched_finished :: "int option"
  watched_tool :: "bool option"

definition OUTCOME_ACK :: int where
  "OUTCOME_ACK = 250000000"

definition new_handover :: "int \<Rightarrow> chat_error + tool_handover" where
  "new_handover grace_time = (if 0 \<le> grace_time \<and> grace_time \<le> seconds 5
     then Inr \<lparr>grace = grace_time, watched = None, watched_token = None, watched_finished = None, watched_tool = None\<rparr>
     else Inl InvalidGrace)"

definition select_response :: "(nat \<Rightarrow> request) \<Rightarrow> nat option \<Rightarrow> tool_handover \<Rightarrow> tool_handover" where
  "select_response objects r t = (if r = watched t then t else
     t\<lparr>watched := r,
       watched_token := (case r of None \<Rightarrow> None | Some obj \<Rightarrow>
         (case handover_token (objects obj) of Some token \<Rightarrow> if lower_hex 32 token then Some token else None
          | None \<Rightarrow> None)),
       watched_finished := None, watched_tool := None\<rparr>)"

definition note_finish :: "int \<Rightarrow> (nat \<Rightarrow> request) \<Rightarrow> tool_handover \<Rightarrow> tool_handover" where
  "note_finish now objects t = (case watched t of None \<Rightarrow> t | Some obj \<Rightarrow>
     if request_finished (objects obj) \<and> watched_finished t = None then t\<lparr>watched_finished := Some now\<rparr> else t)"

text \<open>The outcome arrives as a token and what should be a Boolean: \<open>None\<close> for anything else.\<close>

definition acknowledge ::
  "int \<Rightarrow> (nat \<Rightarrow> request) \<Rightarrow> string \<Rightarrow> bool option \<Rightarrow> tool_handover \<Rightarrow> bool \<times> tool_handover" where
  "acknowledge now objects token outcome t =
     (if watched_token t = None \<or> watched_token t \<noteq> Some token \<or> outcome = None then (False, t)
      else let u = note_finish now objects t in
        (True, if watched_tool u = None then u\<lparr>watched_tool := outcome\<rparr> else u))"

definition grace_remaining :: "int \<Rightarrow> int \<Rightarrow> (nat \<Rightarrow> request) \<Rightarrow> tool_handover \<Rightarrow> int \<times> tool_handover" where
  "grace_remaining now later objects t0 = (let t = note_finish now objects t0 in
     (case (watched t, watched_finished t) of
        (Some obj, Some finished) \<Rightarrow>
          if watched_token t = None \<or> status_name (objects obj) \<noteq> ''FINISHED_STOPPED''
             \<or> watched_tool t = Some False \<or> grace t = 0 then 0
          else max 0 (finished + (if watched_tool t = Some True then grace t else OUTCOME_ACK) - later)
      | _ \<Rightarrow> 0, t))"

end
