(* ===== verification/Chat_Scheduler.thy ===== *)
theory Chat_Scheduler
  imports Chat_Priorities Bank_Images
    "HOL-Library.List_Lexorder" "HOL-Library.Char_ord" "HOL-Library.Product_Lexorder"
begin

section \<open>Which chat has the GPU\<close>

text \<open>
  Model of \<open>CacheBanks\<close> and \<open>FairScheduler\<close> of
  \<open>experiments/radiance-public/radiance_fair_scheduler.py\<close>.  The fields of vLLM's scheduler that
  the code reads form the record \<open>core\<close>, which the parent class changes; its methods are the
  parameters of \<open>engine\<close>.  Queues are first-come first-served, sets are lists without
  duplicates, and the order in which Python iterates over a set of banks is the parameter
  \<open>set_order\<close>.  A method reads the clock once per statement that reads it: \<open>clk n\<close> is the
  reading of its \<open>n\<close>-th such statement.  Phase telemetry, status files and the reuse of
  response ends are left out.
\<close>

subsection \<open>State\<close>

record block =
  block_number :: nat
  ref_cnt :: nat
  block_hash :: "string option"

record block_pool =
  pool_blocks :: "block list"
  pool_aliases :: "nat list"

record core =
  objects :: "nat \<Rightarrow> request"
  live_requests :: "(string \<times> nat) list"
  waiting_queue :: "nat list"
  skipped_queue :: "nat list"
  running_requests :: "nat list"
  finished_ids :: "string list"
  pools :: "string \<Rightarrow> block_pool"

record fair = core +
  owners :: "(string \<times> string) list"
  managers :: "string list"
  unallocated :: "string list"
  active_bank :: "string option"
  parked_requests :: "(string \<times> nat) list"
  bankless :: "string list"
  last_served :: "(string \<times> int) list"
  response_request :: "nat option"
  handover_state :: tool_handover
  queued_at :: "(string \<times> int) list"
  grace_status :: "((string \<times> string) \<times> string \<times> int) option"
  answer_priorities :: priorities
  priority_hold :: "((string \<times> string) \<times> int) option"
  pending_switch :: "string option"
  pending_discard :: bool
  retiring :: "string list"
  max_banks :: nat
  state_slots :: nat
  max_deferral :: int
  switch_count :: nat

subsection \<open>Construction\<close>

text \<open>What \<open>__init__\<close> reads of the configuration of vLLM and of \<open>qwen_fair\<close>, with the code's defaults
  filled in; times are in nanoseconds.\<close>

record fair_config =
  running_limit :: nat
  async_scheduling :: bool
  v2_runner :: bool
  deferred_free :: bool
  workers :: nat
  policy_name :: string
  cached_chats :: int
  tool_grace :: int
  tool_deferral :: int

definition new_scheduler :: "fair_config \<Rightarrow> core \<Rightarrow> chat_error + fair" where
  "new_scheduler cfg c =
     rbind (require (running_limit cfg = 2 \<and> \<not> async_scheduling cfg \<and> v2_runner cfg \<and> \<not> deferred_free cfg
       \<and> workers cfg = 1) UnqualifiedRuntime) (\<lambda>_.
     rbind (require (policy_name cfg = ''response_boundary'') UnsupportedPolicy) (\<lambda>_.
     rbind (require (2 \<le> cached_chats cfg \<and> cached_chats cfg \<le> 4) InvalidBankLimit) (\<lambda>_.
     rbind (new_handover (tool_grace cfg)) (\<lambda>watch.
     rbind (require (seconds 1 \<le> tool_deferral cfg \<and> tool_deferral cfg \<le> seconds 300) InvalidDeferral) (\<lambda>_.
     Inr (core.extend c \<lparr>owners = [], managers = [], unallocated = [], active_bank = None, parked_requests = [],
       bankless = [], last_served = [], response_request = None, handover_state = watch, queued_at = [],
       grace_status = None, answer_priorities = [], priority_hold = None, pending_switch = None,
       pending_discard = False, retiring = [], max_banks = nat (cached_chats cfg), state_slots = running_limit cfg,
       max_deferral = tool_deferral cfg, switch_count = 0\<rparr>))))))"

type_synonym 'a fair_op = "(fair, chat_error, 'a) action"

record engine =
  sha256 :: "string \<Rightarrow> string"
  set_order :: "string list \<Rightarrow> string list"
  initial_pool :: block_pool
  fresh_pool :: block_pool
  parent_schedule :: "bool \<Rightarrow> bool \<Rightarrow> chat_error + string option \<Rightarrow> core \<Rightarrow> (string + string list) \<times> core"
  parent_add :: "nat \<Rightarrow> core \<Rightarrow> (string + unit) \<times> core"
  parent_finish :: "string list \<Rightarrow> core \<Rightarrow> (string + nat list) \<times> core"
  parent_update :: "core \<Rightarrow> (string + unit) \<times> core"

text \<open>A method of the parent class runs on its own fields only.\<close>

definition run_parent :: "(core \<Rightarrow> (string + 'a) \<times> core) \<Rightarrow> 'a fair_op" where
  "run_parent f s = (case f (core.truncate s) of
     (Inl e, c) \<Rightarrow> (Inl (EngineFailed e), core.extend c (core.more s))
   | (Inr x, c) \<Rightarrow> (Inr x, core.extend c (core.more s)))"

subsection \<open>The allocators of the banks\<close>

definition owner_of :: "fair \<Rightarrow> nat \<Rightarrow> string option" where
  "owner_of s obj = map_of (owners s) (request_id (objects s obj))"

definition register_owner :: "string \<Rightarrow> string \<Rightarrow> fair \<Rightarrow> fair" where
  "register_owner rid key s = s\<lparr>owners := AList.update rid key (owners s),
     unallocated := (if key \<notin> set (managers s) then List.insert rid (unallocated s) else unallocated s)\<rparr>"

definition activate :: "engine \<Rightarrow> string \<Rightarrow> fair \<Rightarrow> fair" where
  "activate e key s =
     (let t = (if key \<in> set (managers s) then s
        else s\<lparr>managers := managers s @ [key], pools := (pools s)(key :=
          if managers s = [] \<and> active_bank s = None then initial_pool e else fresh_pool e)\<rparr>)
      in t\<lparr>active_bank := Some key,
           unallocated := filter (\<lambda>rid. map_of (owners t) rid \<noteq> Some key) (unallocated t)\<rparr>)"

text \<open>The allocator that everything else is asked of: \<open>self.managers[self.active]\<close>.\<close>

definition active_manager :: "fair \<Rightarrow> chat_error + string option" where
  "active_manager s = (case active_bank s of None \<Rightarrow> Inr None
     | Some key \<Rightarrow> if key \<in> set (managers s) then Inr (Some key) else Inl BankMissing)"

text \<open>\<open>manager(request)\<close> and the routing of the methods of a request.\<close>

definition manager_of :: "string \<Rightarrow> fair \<Rightarrow> chat_error + string option" where
  "manager_of rid s = (case (case map_of (owners s) rid of None \<Rightarrow> active_bank s | Some key \<Rightarrow> Some key) of
     None \<Rightarrow> Inr None
   | Some key \<Rightarrow> if key \<in> set (managers s) then Inr (Some key) else Inl BankMissing)"

definition EMPTY_FOR_UNALLOCATED :: "string list" where
  "EMPTY_FOR_UNALLOCATED = [''free'', ''remove_skipped_blocks'', ''pop_blocks_for_free'', ''get_blocks'',
     ''get_block_ids'', ''get_block_ids_for_computed_tokens'']"

text \<open>The bank a request method reaches; \<open>Inr None\<close> when it is answered with an empty table.\<close>

definition routed_bank :: "string \<Rightarrow> string \<Rightarrow> fair \<Rightarrow> chat_error + string option" where
  "routed_bank name rid s = (if rid \<in> set (unallocated s) \<and> name \<in> set EMPTY_FOR_UNALLOCATED then Inr None
     else manager_of rid s)"

definition live_blocks :: "block_pool \<Rightarrow> nat list" where
  "live_blocks p = map block_number (filter (\<lambda>b. ref_cnt b \<noteq> 0 \<or> block_hash b \<noteq> None
     \<or> block_number b \<in> set (pool_aliases p)) (pool_blocks p))"

subsection \<open>Making room\<close>

definition busy_banks :: "fair \<Rightarrow> string list" where
  "busy_banks s = List.map_filter (\<lambda>k. k)
     (map (\<lambda>(_, obj). owner_of s obj) (live_requests s) @ map (map_of (owners s)) (finished_ids s))"

definition retire_bank :: "string \<Rightarrow> fair \<Rightarrow> fair" where
  "retire_bank key s = s\<lparr>managers := removeAll key (managers s),
     parked_requests := AList.delete key (parked_requests s),
     last_served := AList.delete key (last_served s),
     retiring := (if key \<in> set (retiring s) then retiring s else retiring s @ [key]),
     owners := filter (\<lambda>(rid, owner). owner \<noteq> key \<or> rid \<in> fst ` set (live_requests s) \<or> rid \<in> set (finished_ids s))
       (owners s)\<rparr>"

definition served_at :: "fair \<Rightarrow> string \<Rightarrow> int" where
  "served_at s key = (case map_of (last_served s) key of None \<Rightarrow> 0 | Some t \<Rightarrow> t)"

definition replaced_banks :: "string \<Rightarrow> fair \<Rightarrow> string list" where
  "replaced_banks target s = filter (\<lambda>key. supersedes (Some target) (Some key)) (managers s)"

definition make_room :: "engine \<Rightarrow> string \<Rightarrow> fair \<Rightarrow> bool \<times> fair" where
  "make_room e target s =
     (let busy = busy_banks s; replaced = replaced_banks target s in
      if \<exists>key \<in> set replaced. key \<in> set busy then (False, s)
      else let t = fold (\<lambda>key s. if active_bank s \<noteq> Some key then retire_bank key s else s) replaced s in
      if target \<in> set (managers t) \<or> length (managers t) < max_banks t then (True, t)
      else if \<exists>key \<in> set replaced. active_bank t = Some key then (length (managers t) - 1 < max_banks t, t)
      else let idle = set_order e (filter (\<lambda>key. key \<notin> set busy) (managers t)) in
      if idle = [] then (False, t)
      else (True, retire_bank (arg_min_list (served_at t) idle) t))"

subsection \<open>Choosing the next chat\<close>

definition waiting_requests :: "fair \<Rightarrow> nat list" where
  "waiting_requests s = waiting_queue s @ skipped_queue s"

definition waiting_of :: "fair \<Rightarrow> string option \<Rightarrow> nat option" where
  "waiting_of s key = find (\<lambda>r. owner_of s r = key) (waiting_requests s)"

definition known_keys :: "fair \<Rightarrow> nat list \<Rightarrow> string list" where
  "known_keys s rs = List.map_filter (owner_of s) rs"

definition contenders :: "fair \<Rightarrow> string list" where
  "contenders s = remdups (known_keys s (waiting_requests s) @ map fst (parked_requests s))"

definition other_contenders :: "fair \<Rightarrow> string list" where
  "other_contenders s = filter (\<lambda>k. Some k \<noteq> active_bank s \<and> \<not> supersedes (Some k) (active_bank s)) (contenders s)"

definition successors :: "fair \<Rightarrow> string list" where
  "successors s = sort (filter (\<lambda>k. supersedes (Some k) (active_bank s)) (contenders s))"

definition level_at :: "int \<Rightarrow> fair \<Rightarrow> string option \<Rightarrow> int" where
  "level_at now s key = priority_level now (answer_priorities s) key"

definition select :: "nat option \<Rightarrow> fair \<Rightarrow> fair" where
  "select r s = s\<lparr>handover_state := select_response (objects s) r (handover_state s)\<rparr>"

definition give_gpu :: "string \<Rightarrow> fair \<Rightarrow> fair" where
  "give_gpu key s = (let r = (case waiting_of s (Some key) of None \<Rightarrow> map_of (parked_requests s) key | Some r \<Rightarrow> Some r)
     in select r (s\<lparr>response_request := r\<rparr>))"

text \<open>The first bank of the list that there is room for; only some may be tried.\<close>

fun first_with_room ::
  "engine \<Rightarrow> (string \<Rightarrow> fair \<Rightarrow> bool) \<Rightarrow> string list \<Rightarrow> fair \<Rightarrow> string option \<times> fair" where
  "first_with_room e ok [] s = (None, s)"
| "first_with_room e ok (key # keys) s =
     (if ok key s then
        (case make_room e key s of
           (True, t) \<Rightarrow> (Some key, t)
         | (False, t) \<Rightarrow> first_with_room e ok keys t)
      else first_with_room e ok keys s)"

definition urgent_banks :: "int \<Rightarrow> int \<Rightarrow> fair \<Rightarrow> string list" where
  "urgent_banks level now s = filter (\<lambda>k. level_at now s (Some k) = 2 \<and> level < 2) (other_contenders s)"

definition safe_point :: "fair \<Rightarrow> bool" where
  "safe_point s \<longleftrightarrow> \<not> (\<exists>r \<in> set (running_requests s @ waiting_requests s). owner_of s r = active_bank s
     \<and> (in_flight_tokens (objects s r) \<noteq> 0 \<or> status_name (objects s r) = ''WAITING_FOR_REMOTE_KVS''))"

definition slot_left :: "bool \<Rightarrow> string \<Rightarrow> fair \<Rightarrow> bool" where
  "slot_left safe key s \<longleftrightarrow> safe \<and> (key \<in> fst ` set (parked_requests s)
     \<or> length (running_requests s) + length (parked_requests s) < state_slots s)"

definition by_service :: "fair \<Rightarrow> string list \<Rightarrow> string list" where
  "by_service s keys = sort_key (\<lambda>k. (served_at s k, k)) keys"

text \<open>When the requests of each bank that waits were queued, and which have waited too long.\<close>

definition queued_time :: "int \<Rightarrow> fair \<Rightarrow> nat \<Rightarrow> int" where
  "queued_time now s r = (case map_of (queued_at s) (request_id (objects s r)) of None \<Rightarrow> now | Some t \<Rightarrow> t)"

definition note_queued :: "int \<Rightarrow> fair \<Rightarrow> fair" where
  "note_queued now s = s\<lparr>queued_at := fold (\<lambda>r q. AList.update (request_id (objects s r)) (queued_time now s r) q)
     (waiting_requests s) []\<rparr>"

definition oldest_wait :: "int \<Rightarrow> fair \<Rightarrow> string option \<Rightarrow> int" where
  "oldest_wait now s key = fold (\<lambda>r t. min t (queued_time now s r))
     (filter (\<lambda>r. owner_of s r = key) (waiting_requests s)) now"

definition overdue_banks :: "int \<Rightarrow> fair \<Rightarrow> string option list" where
  "overdue_banks now s = filter (\<lambda>key. max_deferral s \<le> now - oldest_wait now s key)
     (remdups (map (owner_of s) (waiting_requests s)))"

definition boundary_rank :: "int \<Rightarrow> int \<Rightarrow> fair \<Rightarrow> string \<Rightarrow> int \<times> bool \<times> int \<times> bool \<times> string" where
  "boundary_rank now later s k =
     (- level_at later s (Some k), Some k \<notin> set (overdue_banks now s),
      if Some k \<in> set (overdue_banks now s) then oldest_wait now s (Some k) else served_at s k,
      active_bank s = Some k, k)"

definition boundary_order :: "int \<Rightarrow> int \<Rightarrow> fair \<Rightarrow> string list \<Rightarrow> string list" where
  "boundary_order now later s keys = sort_key (boundary_rank now later s) keys"

text \<open>\<open>bank_identity(active)\<close>, as it is put into a status.\<close>

definition identity_of :: "string option \<Rightarrow> chat_error + string \<times> string" where
  "identity_of key = (case key of None \<Rightarrow> Inl InvalidBankIdentity | Some k \<Rightarrow> bank_identity k)"

text \<open>A response boundary whose owner still holds the GPU by its priority.\<close>

definition hold_boundary :: "engine \<Rightarrow> string list \<Rightarrow> string option fair_op" where
  "hold_boundary e nexts s =
     (case first_with_room e (\<lambda>_ _. True) nexts s of
        (Some key, t) \<Rightarrow> (case waiting_of t (Some key) of
            None \<Rightarrow> (Inl NoWaitingSuccessor, t)
          | Some r \<Rightarrow> (Inr (Some key), (select (Some r) (t\<lparr>response_request := Some r\<rparr>))\<lparr>priority_hold := None\<rparr>))
      | (None, t) \<Rightarrow> let r = waiting_of t (active_bank t) in
          (Inr (active_bank t), select r (t\<lparr>response_request := r\<rparr>)))"

text \<open>A free response boundary: the order of the banks, unless the response still restores.\<close>

definition candidates :: "fair \<Rightarrow> string list" where
  "candidates s = remdups (contenders s @ List.map_filter (map_of (owners s)) (finished_ids s))"

definition pass_from :: "engine \<Rightarrow> int \<Rightarrow> int \<Rightarrow> string option fair_op" where
  "pass_from e now later s =
     (if \<exists>r \<in> set (waiting_requests s). owner_of s r = active_bank s
         \<and> status_name (objects s r) \<in> {''WAITING_FOR_REMOTE_KVS'', ''PREEMPTED''}
      then (Inr (active_bank s), s)
      else case first_with_room e (\<lambda>_ _. True) (boundary_order now later s (candidates s)) s of
           (Some key, t) \<Rightarrow> (Inr (Some key), give_gpu key t)
         | (None, t) \<Rightarrow> (Inr (active_bank t), t))"

definition pass_on :: "engine \<Rightarrow> int \<Rightarrow> int \<Rightarrow> string option fair_op" where
  "pass_on e now later s = pass_from e now later (select None (s\<lparr>response_request := None\<rparr>))"

text \<open>The owner waits for the client's report, or for the result of its tool.\<close>

definition watch_response :: "(nat \<Rightarrow> int) \<Rightarrow> fair \<Rightarrow> int \<times> fair" where
  "watch_response clk s = (case grace_remaining (clk 4) (clk 5) (objects s) (handover_state s) of
     (remaining, watch) \<Rightarrow> (remaining, s\<lparr>handover_state := watch\<rparr>))"

definition wait_in_grace :: "int \<Rightarrow> string option fair_op" where
  "wait_in_grace remaining s =
     (case (watched_tool (handover_state s), waiting_of s (active_bank s)) of
        (Some True, Some r) \<Rightarrow> (Inr (active_bank s), select (Some r) (s\<lparr>response_request := Some r\<rparr>))
      | _ \<Rightarrow> (case identity_of (active_bank s) of Inl err \<Rightarrow> (Inl err, s) | Inr ident \<Rightarrow>
          (Inr (active_bank s), s\<lparr>grace_status := Some (ident,
            if watched_tool (handover_state s) = Some True then ''tool_grace'' else ''response_outcome'', remaining)\<rparr>)))"

definition grace_or_pass ::
  "engine \<Rightarrow> (nat \<Rightarrow> int) \<Rightarrow> int \<Rightarrow> int \<Rightarrow> string list \<Rightarrow> int \<Rightarrow> string option fair_op" where
  "grace_or_pass e clk now level others remaining s =
     (if 0 < remaining \<and> \<not> (\<exists>k \<in> set others. level < level_at (clk 6) s (Some k))
         \<and> \<not> (\<exists>k \<in> set (overdue_banks now s). k \<noteq> active_bank s)
      then wait_in_grace remaining s else pass_on e now (clk 7) s)"

definition free_boundary :: "engine \<Rightarrow> (nat \<Rightarrow> int) \<Rightarrow> int \<Rightarrow> int \<Rightarrow> string list \<Rightarrow> string option fair_op" where
  "free_boundary e clk now level others s =
     (case watch_response clk (select (response_request s) s) of
        (remaining, t) \<Rightarrow> grace_or_pass e clk now level others remaining t)"

text \<open>The owner holds the GPU while its priority is above all others'.\<close>

definition claim_hold :: "(nat \<Rightarrow> int) \<Rightarrow> int \<Rightarrow> string list \<Rightarrow> unit fair_op" where
  "claim_hold clk level others s =
     (if level \<noteq> 0 \<and> (\<forall>k \<in> set others. level_at (clk 2) s (Some k) < level)
      then (case identity_of (active_bank s) of
          Inl err \<Rightarrow> (Inl err, s)
        | Inr ident \<Rightarrow> (Inr (), s\<lparr>priority_hold := Some (ident, level)\<rparr>))
      else (Inr (), s))"

definition open_boundary ::
  "engine \<Rightarrow> (nat \<Rightarrow> int) \<Rightarrow> int \<Rightarrow> string list \<Rightarrow> string list \<Rightarrow> string option fair_op" where
  "open_boundary e clk level others nexts s =
     (if priority_hold s \<noteq> None then hold_boundary e nexts s else free_boundary e clk (clk 3) level others s)"

definition at_boundary ::
  "engine \<Rightarrow> (nat \<Rightarrow> int) \<Rightarrow> int \<Rightarrow> string list \<Rightarrow> string list \<Rightarrow> string option fair_op" where
  "at_boundary e clk level others nexts s =
     (if running_requests s \<noteq> [] then (Inr (active_bank s), s)
      else if (case response_request s of None \<Rightarrow> False | Some r \<Rightarrow> \<not> request_finished (objects s r))
      then (Inr (active_bank s), s)
      else open_boundary e clk level others nexts (note_queued (clk 3) s))"

definition refresh :: "fair \<Rightarrow> fair" where
  "refresh s = s\<lparr>grace_status := None, priority_hold := None,
     parked_requests := filter (\<lambda>(_, r). \<not> request_finished (objects s r)) (parked_requests s)\<rparr>"

text \<open>A bank of priority 2 may take the GPU at any safe point; otherwise the response goes on.\<close>

definition take_urgent :: "engine \<Rightarrow> string list \<Rightarrow> fair \<Rightarrow> string option \<times> fair" where
  "take_urgent e urgent s = first_with_room e (slot_left (urgent \<noteq> [] \<and> safe_point s)) (by_service s urgent) s"

definition choose_next :: "engine \<Rightarrow> (nat \<Rightarrow> int) \<Rightarrow> int \<Rightarrow> string option fair_op" where
  "choose_next e clk level s =
     (case take_urgent e (urgent_banks level (clk 1) s) s of
        (Some key, t) \<Rightarrow> (Inr (Some key), give_gpu key t)
      | (None, t) \<Rightarrow> (case claim_hold clk level (other_contenders s) t of
          (Inl err, u) \<Rightarrow> (Inl err, u)
        | (Inr _, u) \<Rightarrow> at_boundary e clk level (other_contenders s) (successors s) u))"

definition choose_bank :: "engine \<Rightarrow> (nat \<Rightarrow> int) \<Rightarrow> string option fair_op" where
  "choose_bank e clk s = choose_next e clk (level_at (clk 0) s (active_bank s)) (refresh s)"

subsection \<open>A step of the scheduler\<close>

definition holds_zero_budget :: "bool \<Rightarrow> fair \<Rightarrow> bool" where
  "holds_zero_budget flush s \<longleftrightarrow> flush \<or> (case grace_status s of None \<Rightarrow> False
     | Some (_, phase, _) \<Rightarrow> phase = ''response_outcome'')"

text \<open>\<open>_parent_step\<close>: the parent schedules with the requests of the active bank only.\<close>

definition parent_step :: "engine \<Rightarrow> bool \<Rightarrow> bool \<Rightarrow> unit fair_op" where
  "parent_step e throttle flush s =
     (let foreign = (\<lambda>r. owner_of s r \<noteq> active_bank s);
          held_waiting = filter foreign (waiting_queue s);
          held_skipped = filter foreign (skipped_queue s);
          held_finished = filter (\<lambda>rid. map_of (owners s) rid \<noteq> active_bank s \<and> rid \<notin> set (bankless s)) (finished_ids s);
          visible = s\<lparr>waiting_queue := filter (\<lambda>r. \<not> foreign r) (waiting_queue s),
            skipped_queue := filter (\<lambda>r. \<not> foreign r) (skipped_queue s),
            finished_ids := filter (\<lambda>rid. rid \<notin> set held_finished) (finished_ids s)\<rparr>;
          (result, t) = run_parent (parent_schedule e throttle (holds_zero_budget flush s)
            (active_manager s)) visible;
          restored = t\<lparr>waiting_queue := waiting_queue t @ held_waiting, skipped_queue := skipped_queue t @ held_skipped,
            finished_ids := fold List.insert held_finished (finished_ids t)\<rparr>
      in case result of Inl err \<Rightarrow> (Inl err, restored)
       | Inr done_ids \<Rightarrow> (Inr (), restored\<lparr>bankless := filter (\<lambda>rid. rid \<notin> set done_ids) (bankless restored)\<rparr>))"

text \<open>\<open>_worker_metadata\<close>: what the worker is told; the list of retired banks is handed over.\<close>

definition worker_metadata :: "nat list \<Rightarrow> bool \<Rightarrow> bool \<Rightarrow> handover fair_op" where
  "worker_metadata blocks flush discard s =
     (Inr \<lparr>bank = active_bank s, save_blocks = blocks, dropped_banks = retiring s, barrier = flush,
        discard_active = discard\<rparr>, s\<lparr>retiring := []\<rparr>)"

definition resume_parked :: "string \<Rightarrow> fair \<Rightarrow> fair" where
  "resume_parked key s = (case map_of (parked_requests s) key of None \<Rightarrow> s
     | Some r \<Rightarrow> let t = s\<lparr>parked_requests := AList.delete key (parked_requests s)\<rparr> in
         if request_finished (objects s r) then t else t\<lparr>running_requests := running_requests t @ [r]\<rparr>)"

definition switch_banks :: "engine \<Rightarrow> bool \<Rightarrow> string \<Rightarrow> handover fair_op" where
  "switch_banks e throttle target =
     sbind (gets running_requests) (\<lambda>running.
     sbind (assert_that (running = []) SwitchWhileRunning) (\<lambda>_.
     sbind (modify (\<lambda>s. s\<lparr>pending_switch := None\<rparr>)) (\<lambda>_ s0.
     let previous = active_bank s0;
         discard = (pending_discard s0 \<or> supersedes (Some target) previous);
         s = s0\<lparr>pending_discard := False\<rparr> in
     sbind (assert_that (\<not> (discard \<and> (\<exists>key \<in> set (busy_banks s). previous = Some key))) ReplaceLiveGeneration) (\<lambda>_.
     let blocks = (case previous of None \<Rightarrow> [] | Some key \<Rightarrow>
           if \<not> discard \<and> key \<in> set (managers s) then live_blocks (pools s key) else []) in
     sbind (modify (\<lambda>s. case previous of None \<Rightarrow> s | Some key \<Rightarrow> if discard then retire_bank key s else s)) (\<lambda>_.
     sbind (modify (\<lambda>s. (resume_parked target (activate e target s))\<lparr>switch_count := switch_count s + 1\<rparr>)) (\<lambda>_.
     sbind (worker_metadata blocks False discard) (\<lambda>md.
     sbind (parent_step e throttle False) (\<lambda>_. ret md))))) s)))"

text \<open>A running response gives way to a higher priority only.\<close>

definition park_running :: "(nat \<Rightarrow> int) \<Rightarrow> string option \<Rightarrow> unit fair_op" where
  "park_running clk target s = (case running_requests s of [] \<Rightarrow> (Inr (), s)
     | r # rest \<Rightarrow>
         if level_at (clk 8) s target \<noteq> 2 \<or> level_at (clk 9) s target \<le> level_at (clk 10) s (active_bank s)
         then (Inl OnlyHigherPriority, s)
         else (case active_bank s of None \<Rightarrow> (Inl InvalidParkedOwnership, s) | Some key \<Rightarrow>
           if rest \<noteq> [] \<or> key \<in> fst ` set (parked_requests s) then (Inl InvalidParkedOwnership, s)
           else (Inr (), s\<lparr>parked_requests := AList.update key r (parked_requests s), running_requests := []\<rparr>)))"

definition begin_switch :: "engine \<Rightarrow> (nat \<Rightarrow> int) \<Rightarrow> bool \<Rightarrow> string option \<Rightarrow> handover fair_op" where
  "begin_switch e clk throttle target =
     sbind (park_running clk target) (\<lambda>_.
     sbind (modify (\<lambda>s. s\<lparr>pending_switch := target, pending_discard :=
       ((case active_bank s of None \<Rightarrow> False | Some key \<Rightarrow> key \<in> set (retiring s)) \<or> supersedes target (active_bank s))\<rparr>)) (\<lambda>_.
     sbind (worker_metadata [] True False) (\<lambda>md.
     sbind (parent_step e throttle True) (\<lambda>_. ret md))))"

definition continue_bank :: "engine \<Rightarrow> bool \<Rightarrow> handover fair_op" where
  "continue_bank e throttle =
     sbind (worker_metadata [] False False) (\<lambda>md. sbind (parent_step e throttle False) (\<lambda>_. ret md))"

definition note_service :: "int \<Rightarrow> fair \<Rightarrow> fair" where
  "note_service now s = (case running_requests s of [] \<Rightarrow> s | r # _ \<Rightarrow>
     let t = select (Some r) (s\<lparr>response_request := Some r\<rparr>) in
     (case active_bank t of None \<Rightarrow> t | Some key \<Rightarrow> t\<lparr>last_served := AList.update key now (last_served t)\<rparr>))"

definition schedule :: "engine \<Rightarrow> (nat \<Rightarrow> int) \<Rightarrow> bool \<Rightarrow> handover fair_op" where
  "schedule e clk throttle =
     sbind (gets pending_switch) (\<lambda>pending.
     sbind (case pending of
         Some target \<Rightarrow> switch_banks e throttle target
       | None \<Rightarrow>
           sbind (choose_bank e clk) (\<lambda>target.
           sbind (modify (\<lambda>s. case target of None \<Rightarrow> s
             | Some key \<Rightarrow> if active_bank s = None then activate e key s else s)) (\<lambda>_.
           sbind (gets active_bank) (\<lambda>active.
           if target \<noteq> active then begin_switch e clk throttle target else continue_bank e throttle)))) (\<lambda>md.
     sbind (modify (note_service (clk 11))) (\<lambda>_. ret md)))"

subsection \<open>Requests come and go\<close>

definition add_request :: "engine \<Rightarrow> int \<Rightarrow> nat \<Rightarrow> unit fair_op" where
  "add_request e now obj s0 =
     (case bank_key (sha256 e) (objects s0 obj) of Inl err \<Rightarrow> (Inl err, s0)
      | Inr key \<Rightarrow>
          let rid = request_id (objects s0 obj) in
          (case run_parent (parent_add e obj) (register_owner rid key s0) of
             (Inl err, s) \<Rightarrow> (Inl err, s\<lparr>
               owners := (if map_of (owners s) rid = Some key then AList.delete rid (owners s) else owners s),
               unallocated := removeAll rid (unallocated s)\<rparr>)
           | (Inr _, s) \<Rightarrow> (Inr (), s\<lparr>queued_at := AList.update rid now (queued_at s)\<rparr>)))"

definition forget_unallocated :: "nat \<Rightarrow> fair \<Rightarrow> fair" where
  "forget_unallocated obj s = (let rid = request_id (objects s obj) in
     if rid \<in> set (unallocated s)
     then s\<lparr>bankless := List.insert rid (bankless s), unallocated := removeAll rid (unallocated s),
       owners := AList.delete rid (owners s)\<rparr>
     else s)"

definition finish_requests :: "engine \<Rightarrow> string list \<Rightarrow> unit fair_op" where
  "finish_requests e rids =
     sbind (run_parent (parent_finish e rids)) (\<lambda>finished.
     modify (\<lambda>s. let t = fold forget_unallocated finished s in
       t\<lparr>parked_requests := filter (\<lambda>(_, r). \<not> request_finished (objects t r)) (parked_requests t)\<rparr>))"

definition update_from_output :: "engine \<Rightarrow> int \<Rightarrow> unit fair_op" where
  "update_from_output e now =
     sbind (run_parent (parent_update e)) (\<lambda>_.
     modify (\<lambda>s. s\<lparr>handover_state := note_finish now (objects s) (handover_state s)\<rparr>))"

definition response_outcome :: "int \<Rightarrow> string \<Rightarrow> bool option \<Rightarrow> bool fair_op" where
  "response_outcome now token outcome s =
     (case acknowledge now (objects s) token outcome (handover_state s) of
        (known, watch) \<Rightarrow> (Inr known, s\<lparr>handover_state := watch\<rparr>))"

definition answer_priority :: "int \<Rightarrow> control \<Rightarrow> int fair_op" where
  "answer_priority now v s = (case update_priority now v (answer_priorities s) of
     Inl err \<Rightarrow> (Inl err, s) | Inr (n, p) \<Rightarrow> (Inr n, s\<lparr>answer_priorities := p\<rparr>))"

definition unfinished_requests :: "nat \<Rightarrow> bool \<Rightarrow> fair \<Rightarrow> nat" where
  "unfinished_requests parent_count paused_all s =
     (if paused_all then parent_count else parent_count + length (parked_requests s))"

end
