(* ===== verification/Chat_Room.thy ===== *)
theory Chat_Room
  imports Chat_Scheduler
begin

section \<open>Retiring banks to make room\<close>

text \<open>
  What \<open>_make_room\<close> and the choice built on it do to the banks: they only take banks away,
  each of them idle, and record every one of them for the worker; and when they report room
  for a bank, the switch to it will keep within the limit and leave one generation per chat.
\<close>

text \<open>Sets of banks are enumerated completely.\<close>

definition orders :: "engine \<Rightarrow> bool" where
  "orders e \<longleftrightarrow> (\<forall>xs. set (set_order e xs) = set xs)"

definition books :: "fair \<Rightarrow> bool" where
  "books s \<longleftrightarrow> distinct (map fst (owners s))"

definition managers_ok :: "fair \<Rightarrow> bool" where
  "managers_ok s \<longleftrightarrow> 2 \<le> max_banks s \<and> distinct (managers s) \<and> length (managers s) \<le> max_banks s
     \<and> inj_on chat_part (set (managers s))"

definition keeps_active :: "fair \<Rightarrow> bool" where
  "keeps_active s \<longleftrightarrow> (\<forall>a. active_bank s = Some a \<longrightarrow> a \<in> set (managers s))"

text \<open>Fewer banks, all else of the bookkeeping of banks as it was.\<close>

definition same_switch :: "fair \<Rightarrow> fair \<Rightarrow> bool" where
  "same_switch s t \<longleftrightarrow> core.truncate t = core.truncate s \<and> active_bank t = active_bank s
     \<and> pending_switch t = pending_switch s \<and> pending_discard t = pending_discard s \<and> max_banks t = max_banks s
     \<and> state_slots t = state_slots s \<and> unallocated t = unallocated s \<and> answer_priorities t = answer_priorities s"

definition only_retires :: "fair \<Rightarrow> fair \<Rightarrow> bool" where
  "only_retires s t \<longleftrightarrow> same_switch s t \<and> (\<exists>P. managers t = filter P (managers s))
     \<and> set (retiring s) \<subseteq> set (retiring t) \<and> set (managers s) - set (managers t) \<subseteq> set (retiring t)
     \<and> set (retiring t) \<subseteq> set (retiring s) \<union> (set (managers s) - set (managers t))
     \<and> (books s \<longrightarrow> books t \<and> set (busy_banks t) = set (busy_banks s)
         \<and> (\<forall>k \<in> set (managers s) - set (managers t). k \<notin> set (busy_banks s)))"

lemma only_retires_managers: "only_retires s t \<Longrightarrow> set (managers t) \<subseteq> set (managers s)"
  unfolding only_retires_def by auto

interpretation retiring_history: history only_retires
proof
  show "only_retires s s" for s
    by (auto simp: only_retires_def same_switch_def intro: exI [of _ "\<lambda>_. True"])
  show "only_retires a c" if ab: "only_retires a b" and bc: "only_retires b c" for a b c
  proof -
    have sub: "set (managers b) \<subseteq> set (managers a)" "set (managers c) \<subseteq> set (managers b)"
      using ab bc by (simp_all add: only_retires_managers)
    obtain P Q where "managers b = filter P (managers a)" "managers c = filter Q (managers b)"
      using ab bc unfolding only_retires_def by metis
    then have "\<exists>P. managers c = filter P (managers a)" by (auto simp: filter_filter)
    moreover have inc: "set (retiring a) \<subseteq> set (retiring b)" "set (managers a) - set (managers b) \<subseteq> set (retiring b)"
      "set (retiring b) \<subseteq> set (retiring a) \<union> (set (managers a) - set (managers b))"
      "set (retiring b) \<subseteq> set (retiring c)" "set (managers b) - set (managers c) \<subseteq> set (retiring c)"
      "set (retiring c) \<subseteq> set (retiring b) \<union> (set (managers b) - set (managers c))"
      using ab bc unfolding only_retires_def by simp_all
    then have "set (retiring a) \<subseteq> set (retiring c)" "set (managers a) - set (managers c) \<subseteq> set (retiring c)"
      "set (retiring c) \<subseteq> set (retiring a) \<union> (set (managers a) - set (managers c))"
      using sub by blast+
    moreover have "books a \<longrightarrow> books c \<and> set (busy_banks c) = set (busy_banks a)
         \<and> (\<forall>k \<in> set (managers a) - set (managers c). k \<notin> set (busy_banks a))"
    proof (intro impI)
      assume a: "books a"
      have b: "books b" "set (busy_banks b) = set (busy_banks a)"
        "\<forall>k \<in> set (managers a) - set (managers b). k \<notin> set (busy_banks a)"
        using ab a by (simp_all add: only_retires_def)
      have c: "books c" "set (busy_banks c) = set (busy_banks b)"
        "\<forall>k \<in> set (managers b) - set (managers c). k \<notin> set (busy_banks b)"
        using bc b(1) by (simp_all add: only_retires_def)
      show "books c \<and> set (busy_banks c) = set (busy_banks a)
         \<and> (\<forall>k \<in> set (managers a) - set (managers c). k \<notin> set (busy_banks a))"
        using b(2,3) c by auto
    qed
    moreover have "same_switch a c" using ab bc by (simp add: only_retires_def same_switch_def)
    ultimately show ?thesis unfolding only_retires_def by blast
  qed
qed

lemma only_retires_ok:
  assumes "only_retires s t" "managers_ok s"
  shows "managers_ok t"
proof -
  obtain P where m: "managers t = filter P (managers s)" "max_banks t = max_banks s"
    using assms(1) unfolding only_retires_def same_switch_def by metis
  have "length (managers t) \<le> max_banks s"
    using assms(2) length_filter_le [of P "managers s"] unfolding m(1) managers_ok_def by linarith
  moreover have "inj_on chat_part (set (managers t))"
    using assms(2) by (auto simp: m managers_ok_def inj_on_def)
  ultimately show ?thesis using assms(2) m by (auto simp: managers_ok_def)
qed

lemma map_of_filter_value:
  assumes "distinct (map fst xs)"
  shows "map_of (filter (\<lambda>(k, v). P k v) xs) k
    = (case map_of xs k of None \<Rightarrow> None | Some v \<Rightarrow> if P k v then Some v else None)"
  using assms by (induction xs) (auto split: option.splits simp: map_of_eq_None_iff image_iff)

lemma in_map_filter: "k \<in> set (List.map_filter f xs) \<longleftrightarrow> (\<exists>x \<in> set xs. f x = Some k)"
  by (induction xs) (auto simp: List.map_filter_simps split: option.splits)

lemma busy_iff:
  "k \<in> set (busy_banks s) \<longleftrightarrow> (\<exists>r \<in> set (live_requests s). owner_of s (snd r) = Some k)
     \<or> (\<exists>rid \<in> set (finished_ids s). map_of (owners s) rid = Some k)"
  by (auto simp: busy_banks_def in_map_filter split_beta image_iff dest: sym)

lemma retire_idle:
  assumes "key \<in> set (managers s)" and idle: "key \<notin> set (busy_banks s)"
  shows "only_retires s (retire_bank key s)"
proof -
  let ?t = "retire_bank key s"
  have same: "core.truncate ?t = core.truncate s" by (simp add: retire_bank_def core.truncate_def)
  have fields: "live_requests ?t = live_requests s" "finished_ids ?t = finished_ids s"
    by (simp_all add: retire_bank_def)
  have books: "books ?t \<and> set (busy_banks ?t) = set (busy_banks s)" if b: "books s"
  proof
    show "books ?t" using b by (simp add: books_def retire_bank_def distinct_map_filter)
    have own: "map_of (owners ?t) rid = (case map_of (owners s) rid of None \<Rightarrow> None | Some o1 \<Rightarrow>
        if o1 \<noteq> key \<or> rid \<in> fst ` set (live_requests s) \<or> rid \<in> set (finished_ids s) then Some o1 else None)" for rid
      using map_of_filter_value [of "owners s"] b by (auto simp: books_def retire_bank_def split: option.splits)
    have "owner_of ?t obj = owner_of s obj" if "(rid, obj) \<in> set (live_requests s)" for rid obj
    proof -
      have "owner_of s obj \<noteq> Some key" using idle that by (force simp: busy_iff)
      then show ?thesis using own [of "request_id (objects s obj)"]
        by (auto simp: owner_of_def retire_bank_def split: option.splits)
    qed
    moreover have "map_of (owners ?t) rid = map_of (owners s) rid" if "rid \<in> set (finished_ids s)" for rid
      using own [of rid] that by (auto split: option.splits)
    ultimately have "k \<in> set (busy_banks ?t) \<longleftrightarrow> k \<in> set (busy_banks s)" for k
      unfolding busy_iff fields by fastforce
    then show "set (busy_banks ?t) = set (busy_banks s)" by blast
  qed
  have banks: "managers ?t = filter (\<lambda>k. k \<noteq> key) (managers s)" "set (retiring ?t) = insert key (set (retiring s))"
    by (auto simp: retire_bank_def removeAll_filter_not_eq eq_commute)
  have rest: "active_bank ?t = active_bank s" "pending_switch ?t = pending_switch s" "pending_discard ?t = pending_discard s"
    "max_banks ?t = max_banks s" "state_slots ?t = state_slots s" "unallocated ?t = unallocated s"
    "answer_priorities ?t = answer_priorities s" by (simp_all add: retire_bank_def)
  have gone: "set (managers s) - set (managers ?t) = {key}" using assms(1) by (auto simp: banks)
  show ?thesis
    unfolding only_retires_def same_switch_def gone using same books banks rest idle by blast
qed

subsection \<open>Room for a bank\<close>

text \<open>
  When there is room for \<open>target\<close>, no other bank but the active one has its chat, and the
  switch stays within the limit; an active bank that was retired left a free place.
\<close>

definition room_for :: "string \<Rightarrow> fair \<Rightarrow> bool" where
  "room_for target t \<longleftrightarrow>
     (\<forall>k \<in> set (managers t). k \<noteq> target \<and> active_bank t \<noteq> Some k \<longrightarrow> chat_part k \<noteq> chat_part target)
     \<and> (target \<in> set (managers t) \<or> length (managers t) < max_banks t
          \<or> (\<exists>a. active_bank t = Some a \<and> a \<in> set (managers t) \<and> a \<noteq> target \<and> chat_part a = chat_part target))
     \<and> (\<not> keeps_active t \<longrightarrow> target \<notin> set (managers t) \<and> length (managers t) < max_banks t)
     \<and> (active_bank t = Some target \<longrightarrow> keeps_active t)"

lemma retire_all:
  assumes "\<forall>key \<in> set ks. key \<in> set (managers s) \<and> key \<notin> set (busy_banks s)" "distinct ks" "books s"
  defines "t \<equiv> fold (\<lambda>key s. if active_bank s \<noteq> Some key then retire_bank key s else s) ks s"
  shows "only_retires s t \<and> set (managers t) = set (managers s) - {k \<in> set ks. active_bank s \<noteq> Some k}"
  using assms(1-3) unfolding t_def
proof (induction ks arbitrary: s)
  case (Cons key ks)
  let ?u = "if active_bank s \<noteq> Some key then retire_bank key s else s"
  have one: "only_retires s ?u" using retire_idle [of key s] Cons.prems(1) by auto
  have m: "set (managers ?u) = set (managers s) - (if active_bank s \<noteq> Some key then {key} else {})"
    by (simp add: retire_bank_def)
  have u: "books ?u" "set (busy_banks ?u) = set (busy_banks s)" "active_bank ?u = active_bank s"
    using one Cons.prems(3) unfolding only_retires_def same_switch_def by blast+
  have "\<forall>key \<in> set ks. key \<in> set (managers ?u) \<and> key \<notin> set (busy_banks ?u)"
    using Cons.prems(1,2) m u(2) by auto
  then have rest: "only_retires ?u (fold (\<lambda>key s. if active_bank s \<noteq> Some key then retire_bank key s else s) ks ?u)
    \<and> set (managers (fold (\<lambda>key s. if active_bank s \<noteq> Some key then retire_bank key s else s) ks ?u))
      = set (managers ?u) - {k \<in> set ks. active_bank ?u \<noteq> Some k}"
    using Cons.IH [of ?u] Cons.prems(2) u(1) by simp
  then show ?case using retiring_history.trans [OF one] m u(3) by auto
qed (simp add: retiring_history.refl)

lemma arg_min_member: "xs \<noteq> [] \<Longrightarrow> arg_min_list f xs \<in> set xs"
  by (induction f xs rule: arg_min_list.induct) (auto simp: Let_def)

lemma replaced_iff:
  "k \<in> set (replaced_banks target s) \<longleftrightarrow> k \<in> set (managers s) \<and> k \<noteq> target \<and> chat_part k = chat_part target"
  by (auto simp: replaced_banks_def)

lemma make_room_spec:
  assumes e: "orders e" and ok: "managers_ok s" "books s" "keeps_active s" and run: "make_room e target s = (b, t)"
  shows "only_retires s t \<and> (b \<longrightarrow> room_for target t) \<and> (\<not> b \<longrightarrow> keeps_active t)"
proof (cases "\<exists>key \<in> set (replaced_banks target s). key \<in> set (busy_banks s)")
  case True
  then show ?thesis using run ok(3) by (auto simp: make_room_def retiring_history.refl)
next
  case False
  define u where "u = fold (\<lambda>key s. if active_bank s \<noteq> Some key then retire_bank key s else s) (replaced_banks target s) s"
  have "distinct (replaced_banks target s)" using ok(1) by (simp add: replaced_banks_def managers_ok_def)
  then have u: "only_retires s u"
    and mu: "set (managers u) = set (managers s) - {k \<in> set (replaced_banks target s). active_bank s \<noteq> Some k}"
    using retire_all [of "replaced_banks target s" s] False ok(2) replaced_iff unfolding u_def by blast+
  have same: "active_bank u = active_bank s" "max_banks u = max_banks s" "books u" "set (busy_banks u) = set (busy_banks s)"
    using u ok(2) unfolding only_retires_def same_switch_def by blast+
  have uok: "managers_ok u" using only_retires_ok [OF u ok(1)] .
  have keep: "keeps_active u" using ok(3) mu same(1) unfolding keeps_active_def by auto
  have unique: "\<forall>k \<in> set (managers u). k \<noteq> target \<and> active_bank u \<noteq> Some k \<longrightarrow> chat_part k \<noteq> chat_part target"
    using mu same(1) replaced_iff by auto
  let ?idle = "set_order e (filter (\<lambda>key. key \<notin> set (busy_banks s)) (managers u))"
  consider (fits) "target \<in> set (managers u) \<or> length (managers u) < max_banks u"
    | (active) "\<not> (target \<in> set (managers u) \<or> length (managers u) < max_banks u)"
        "\<exists>key \<in> set (replaced_banks target s). active_bank u = Some key"
    | (none) "\<not> (target \<in> set (managers u) \<or> length (managers u) < max_banks u)"
        "\<not> (\<exists>key \<in> set (replaced_banks target s). active_bank u = Some key)" "?idle = []"
    | (victim) "\<not> (target \<in> set (managers u) \<or> length (managers u) < max_banks u)"
        "\<not> (\<exists>key \<in> set (replaced_banks target s). active_bank u = Some key)" "?idle \<noteq> []" by blast
  then show ?thesis
  proof cases
    case fits
    then have bt: "b \<and> t = u" using run False unfolding make_room_def u_def [symmetric] Let_def by auto
    then show ?thesis using u unique fits keep by (auto simp: room_for_def)
  next
    case active
    then have bt: "b = (length (managers u) - 1 < max_banks u) \<and> t = u"
      using run False unfolding make_room_def u_def [symmetric] Let_def by auto
    obtain a where a: "active_bank u = Some a" "a \<noteq> target" "chat_part a = chat_part target"
      using active(2) replaced_iff by auto
    then have "a \<in> set (managers u)" using keep by (simp add: keeps_active_def)
    then show ?thesis using bt u unique keep a by (auto simp: room_for_def)
  next
    case none
    then have "\<not> b \<and> t = u" using run False unfolding make_room_def u_def [symmetric] Let_def by auto
    then show ?thesis using u keep by blast
  next
    case victim
    let ?v = "arg_min_list (served_at u) ?idle"
    have bt: "b \<and> t = retire_bank ?v u"
      using victim run False unfolding make_room_def u_def [symmetric] Let_def by auto
    have "?v \<in> set ?idle" by (rule arg_min_member [OF victim(3)])
    then have v: "?v \<in> set (managers u)" "?v \<notin> set (busy_banks u)" using e same(4) by (auto simp: orders_def)
    have ut: "only_retires u t" using retire_idle [OF v] bt by simp
    have m: "managers t = removeAll ?v (managers u)" "active_bank t = active_bank u" "max_banks t = max_banks u"
      using bt by (simp_all add: retire_bank_def)
    have "length (managers t) < length (managers u)" using v(1) unfolding m(1) by (rule length_removeAll_less)
    then have room: "length (managers t) < max_banks t" using uok m(3) by (simp add: managers_ok_def)
    have absent: "target \<notin> set (managers t)" using victim(1) m(1) by simp
    have "active_bank t \<noteq> Some target"
      using keep victim(1) m(2) by (auto simp: keeps_active_def)
    then have "room_for target t"
      using unique room absent m by (auto simp: room_for_def)
    then show ?thesis using bt retiring_history.trans [OF u ut] by blast
  qed
qed

lemma first_with_room_spec:
  assumes e: "orders e" and "managers_ok s" "books s" "keeps_active s" and "first_with_room e ok keys s = (r, t)"
  shows "only_retires s t \<and> (case r of None \<Rightarrow> keeps_active t | Some key \<Rightarrow> room_for key t \<and> key \<in> set keys)"
  using assms(2-5)
proof (induction keys arbitrary: s)
  case Nil
  then show ?case by (auto simp: retiring_history.refl)
next
  case (Cons key keys)
  show ?case
  proof (cases "ok key s")
    case True
    obtain b u where u: "make_room e key s = (b, u)" by fastforce
    note room = make_room_spec [OF e Cons.prems(1-3) u]
    show ?thesis
    proof (cases b)
      case True
      then show ?thesis using room u \<open>ok key s\<close> Cons.prems(4) by auto
    next
      case False
      have next_ok: "managers_ok u" "books u" "keeps_active u"
        using room False Cons.prems only_retires_ok unfolding only_retires_def by blast+
      have "first_with_room e ok keys u = (r, t)" using Cons.prems(4) True u False by simp
      then have "only_retires u t \<and> (case r of None \<Rightarrow> keeps_active t | Some k \<Rightarrow> room_for k t \<and> k \<in> set keys)"
        using Cons.IH [OF next_ok] by blast
      then show ?thesis using retiring_history.trans [of s u t] room by (auto split: option.splits)
    qed
  next
    case False
    then show ?thesis using Cons.IH [OF Cons.prems(1-3)] Cons.prems(4) by (auto split: option.splits)
  qed
qed

end
