(* ===== verification/Chat_Choice.thy ===== *)
theory Chat_Choice
  imports Chat_Room
begin

section \<open>What the choice of a bank does to the banks\<close>

text \<open>
  Every path through \<open>_choose\<close>: it retires idle banks only, and the bank it names is the active
  one, which then still has its allocator, or one there is room for.
\<close>

text \<open>Nothing the bookkeeping of banks depends on has changed.\<close>

definition same_banks :: "fair \<Rightarrow> fair \<Rightarrow> bool" where
  "same_banks s t \<longleftrightarrow> same_switch s t \<and> managers t = managers s \<and> retiring t = retiring s \<and> owners t = owners s"

lemma truncate_fields:
  assumes "core.truncate t = core.truncate s"
  shows "objects t = objects s" "live_requests t = live_requests s" "waiting_queue t = waiting_queue s"
    "skipped_queue t = skipped_queue s" "running_requests t = running_requests s"
    "finished_ids t = finished_ids s" "pools t = pools s"
  using assms by (simp_all add: core.truncate_def)

lemma same_banks_only_retires: "same_banks s t \<Longrightarrow> only_retires s t"
  using truncate_fields [of t s]
  by (auto simp: same_banks_def only_retires_def same_switch_def books_def busy_banks_def owner_of_def
      intro: exI [of _ "\<lambda>_. True"])

lemma same_banks_room:
  assumes "same_banks s t"
  shows "room_for key t = room_for key s" "keeps_active t = keeps_active s"
  using assms by (simp_all add: same_banks_def same_switch_def room_for_def keeps_active_def)

lemma quiet_updates [simp]:
  "same_banks s s" "same_banks s (refresh s)" "same_banks s (select r s)" "same_banks s (give_gpu key s)"
  "same_banks s (note_queued now s)" "same_banks s (s\<lparr>priority_hold := p\<rparr>)" "same_banks s (s\<lparr>grace_status := g\<rparr>)"
  "same_banks s (s\<lparr>handover_state := w\<rparr>)" "same_banks s (select r (s\<lparr>response_request := r'\<rparr>))"
  "same_banks s ((select r (s\<lparr>response_request := r'\<rparr>))\<lparr>priority_hold := p\<rparr>)"
  "same_banks s ((select r s)\<lparr>handover_state := w\<rparr>)"
  by (simp_all add: same_banks_def same_switch_def refresh_def select_def give_gpu_def note_queued_def core.truncate_def Let_def)

definition fit :: "fair \<Rightarrow> bool" where
  "fit s \<longleftrightarrow> managers_ok s \<and> books s \<and> keeps_active s"

lemma fit_after: "only_retires s t \<Longrightarrow> fit s \<Longrightarrow> keeps_active t \<Longrightarrow> fit t"
  using only_retires_ok by (auto simp: fit_def only_retires_def)

lemma fit_same:
  assumes "same_banks s t" "fit s"
  shows "fit t"
proof (rule fit_after)
  show "only_retires s t" by (rule same_banks_only_retires [OF assms(1)])
  show "fit s" by (rule assms(2))
  have "keeps_active s" using assms(2) unfolding fit_def by blast
  then show "keeps_active t" by (simp only: same_banks_room(2) [OF assms(1)])
qed

text \<open>The choice: the active bank, with its allocator, or a bank there is room for.\<close>

definition good_choice :: "fair \<Rightarrow> (chat_error + string option) \<times> fair \<Rightarrow> bool" where
  "good_choice s p \<longleftrightarrow> only_retires s (snd p) \<and> (\<forall>target. fst p = Inr target \<longrightarrow>
     (target = active_bank (snd p) \<longrightarrow> keeps_active (snd p))
     \<and> (\<forall>key. target = Some key \<and> target \<noteq> active_bank (snd p) \<longrightarrow> room_for key (snd p))
     \<and> (target = None \<longrightarrow> active_bank (snd p) = None))"

lemma good_choice_after:
  assumes "only_retires s t" "good_choice t p"
  shows "good_choice s p"
  using assms(2) retiring_history.trans [OF assms(1), of "snd p"] unfolding good_choice_def by blast

lemma good_stay:
  assumes "fit s" "same_banks s t"
  shows "good_choice s (Inr (active_bank s), t)" "good_choice s (Inl err, t)"
  using assms same_banks_only_retires [OF assms(2)] same_banks_room [OF assms(2)]
  by (auto simp: good_choice_def fit_def same_banks_def same_switch_def)

lemma good_room:
  assumes "room_for key t" "same_banks t u"
  shows "good_choice t (Inr (Some key), u)"
proof -
  have "active_bank t = Some key \<longrightarrow> keeps_active t" using assms(1) by (simp add: room_for_def)
  then show ?thesis
    using assms same_banks_only_retires [OF assms(2)] same_banks_room [OF assms(2)]
    by (auto simp: good_choice_def same_banks_def same_switch_def)
qed

lemma first_with_room_good:
  assumes "orders e" "fit s" "first_with_room e ok keys s = (r, t)"
  shows "only_retires s t" "r = Some key \<Longrightarrow> room_for key t" "r = None \<Longrightarrow> fit t"
  using first_with_room_spec [OF assms(1) _ _ _ assms(3)] assms(2) fit_after [of s t]
  by (auto simp: fit_def split: option.splits)

lemma hold_boundary_good:
  assumes e: "orders e" and s: "fit s"
  shows "good_choice s (hold_boundary e nexts s)"
proof -
  obtain r t where run: "first_with_room e (\<lambda>_ _. True) nexts s = (r, t)" by fastforce
  note spec = first_with_room_good [OF e s run]
  show ?thesis
  proof (cases r)
    case None
    then show ?thesis using good_choice_after [OF spec(1) good_stay(1)] spec(3) run
      by (simp add: hold_boundary_def Let_def)
  next
    case (Some key)
    have "good_choice t (hold_boundary e nexts s)"
    proof (cases "waiting_of t (Some key)")
      case None
      then have "hold_boundary e nexts s = (Inl NoWaitingSuccessor, t)" using run Some by (simp add: hold_boundary_def)
      then show ?thesis by (simp add: good_choice_def retiring_history.refl)
    next
      case (Some r')
      then show ?thesis using good_room [OF spec(2)] \<open>r = Some key\<close> run by (simp add: hold_boundary_def)
    qed
    then show ?thesis by (rule good_choice_after [OF spec(1)])
  qed
qed

lemma pass_from_good:
  assumes e: "orders e" and s: "fit s"
  shows "good_choice s (pass_from e now later s)"
proof -
  obtain r t where run: "first_with_room e (\<lambda>_ _. True) (boundary_order now later s (candidates s)) s = (r, t)" by fastforce
  note spec = first_with_room_good [OF e s run]
  show ?thesis
  proof (cases r)
    case None
    then show ?thesis using good_stay(1) [OF s, of s] good_choice_after [OF spec(1) good_stay(1) [OF spec(3)]] run
      by (simp add: pass_from_def)
  next
    case (Some key)
    then show ?thesis using good_stay(1) [OF s, of s] good_choice_after [OF spec(1) good_room [OF spec(2)]] run
      by (simp add: pass_from_def)
  qed
qed

lemma good_choice_same: "same_banks s t \<Longrightarrow> good_choice t p \<Longrightarrow> good_choice s p"
  by (rule good_choice_after [OF same_banks_only_retires])

lemma pass_on_good: "orders e \<Longrightarrow> fit s \<Longrightarrow> good_choice s (pass_on e now later s)"
  unfolding pass_on_def by (rule good_choice_same [OF _ pass_from_good]) (auto intro: fit_same [rotated])

lemma wait_in_grace_good: "fit s \<Longrightarrow> good_choice s (wait_in_grace remaining s)"
  using good_stay [of s] by (auto simp: wait_in_grace_def split: option.splits sum.splits bool.splits)

lemma free_boundary_good:
  assumes e: "orders e" and s: "fit s"
  shows "good_choice s (free_boundary e clk now level others s)"
proof -
  obtain remaining t where t: "watch_response clk (select (response_request s) s) = (remaining, t)" by fastforce
  have same: "same_banks s t" using t by (auto simp: watch_response_def split: prod.splits)
  have "good_choice t (grace_or_pass e clk now level others remaining t)"
    using pass_on_good [OF e] wait_in_grace_good fit_same [OF same s] by (simp add: grace_or_pass_def)
  then show ?thesis using good_choice_same [OF same] t by (simp add: free_boundary_def)
qed

lemma at_boundary_good:
  assumes e: "orders e" and s: "fit s"
  shows "good_choice s (at_boundary e clk level others nexts s)"
proof -
  let ?t = "note_queued (clk 3) s"
  have same: "same_banks s ?t" by simp
  have "good_choice ?t (open_boundary e clk level others nexts ?t)"
    using hold_boundary_good [OF e fit_same [OF same s]] free_boundary_good [OF e fit_same [OF same s]]
    by (simp add: open_boundary_def)
  then show ?thesis using good_choice_same [OF same] good_stay(1) [OF s, of s] by (simp add: at_boundary_def)
qed

lemma choose_next_good:
  assumes e: "orders e" and s: "fit s"
  shows "good_choice s (choose_next e clk level s)"
proof -
  obtain r t where run: "take_urgent e (urgent_banks level (clk 1) s) s = (r, t)" by fastforce
  note spec = first_with_room_good [OF e s run [unfolded take_urgent_def]]
  show ?thesis
  proof (cases r)
    case (Some key)
    then show ?thesis using good_choice_after [OF spec(1) good_room [OF spec(2)]] run by (simp add: choose_next_def)
  next
    case None
    then have t: "fit t" by (rule spec(3))
    obtain x u where u: "claim_hold clk level (other_contenders s) t = (x, u)" by fastforce
    have same: "same_banks t u" using u by (auto simp: claim_hold_def split: if_splits sum.splits)
    have "choose_next e clk level s = (case x of Inl err \<Rightarrow> (Inl err, u)
        | Inr _ \<Rightarrow> at_boundary e clk level (other_contenders s) (successors s) u)"
      using run None u by (simp add: choose_next_def split: sum.splits)
    then have "good_choice t (choose_next e clk level s)"
      using good_stay(2) [OF t same] good_choice_same [OF same at_boundary_good [OF e fit_same [OF same t]]]
      by (simp split: sum.splits)
    then show ?thesis by (rule good_choice_after [OF spec(1)])
  qed
qed

lemma choose_bank_good:
  assumes e: "orders e" and s: "fit s"
  shows "good_choice s (choose_bank e clk s)"
  unfolding choose_bank_def
  by (rule good_choice_same [OF _ choose_next_good [OF e fit_same [OF _ s]]]) simp_all

end
