(* ===== verification/Chat_Switches.thy ===== *)
theory Chat_Switches
  imports Chat_Choice Bank_Protocol
begin

section \<open>The banks stay in order\<close>

text \<open>
  What every method of the scheduler keeps true of the banks between two calls, with and
  without a switch on its way.
\<close>

definition switch_ok :: "fair \<Rightarrow> bool" where
  "switch_ok s \<longleftrightarrow> (case pending_switch s of None \<Rightarrow> keeps_active s
     | Some t \<Rightarrow> (\<exists>a. active_bank s = Some a \<and> t \<noteq> a
         \<and> (\<forall>k \<in> set (managers s). k \<noteq> a \<and> k \<noteq> t \<longrightarrow> chat_part k \<noteq> chat_part t)
         \<and> (if pending_discard s
            then t \<notin> set (managers s) \<and> length (removeAll a (managers s)) < max_banks s
            else a \<in> set (managers s) \<and> chat_part t \<noteq> chat_part a
              \<and> (t \<in> set (managers s) \<or> length (managers s) < max_banks s))))"

definition banks_ok :: "fair \<Rightarrow> bool" where
  "banks_ok s \<longleftrightarrow> managers_ok s \<and> books s \<and> retiring s = [] \<and> (active_bank s = None \<longrightarrow> managers s = []) \<and> switch_ok s"

text \<open>The blocks of every allocator are numbered within the GPU pool.\<close>

definition pool_ok :: "nat \<Rightarrow> block_pool \<Rightarrow> bool" where
  "pool_ok n p \<longleftrightarrow> (\<forall>b \<in> set (pool_blocks p). block_number b < n)"

definition pools_ok :: "nat \<Rightarrow> 'a core_scheme \<Rightarrow> bool" where
  "pools_ok n c \<longleftrightarrow> (\<forall>key. pool_ok n (pools c key))"

definition engine_ok :: "nat \<Rightarrow> engine \<Rightarrow> bool" where
  "engine_ok n e \<longleftrightarrow> orders e \<and> pool_ok n (initial_pool e) \<and> pool_ok n (fresh_pool e)
     \<and> (\<forall>c. pools_ok n c \<longrightarrow> (\<forall>a b m. pools_ok n (snd (parent_schedule e a b m c))) \<and> (\<forall>obj. pools_ok n (snd (parent_add e obj c)))
         \<and> (\<forall>rids. pools_ok n (snd (parent_finish e rids c))) \<and> pools_ok n (snd (parent_update e c)))"

text \<open>The plan for the banks is the same; the rest may differ.\<close>

definition same_plan :: "fair \<Rightarrow> fair \<Rightarrow> bool" where
  "same_plan s t \<longleftrightarrow> managers t = managers s \<and> retiring t = retiring s \<and> active_bank t = active_bank s
     \<and> pending_switch t = pending_switch s \<and> pending_discard t = pending_discard s \<and> max_banks t = max_banks s"

interpretation plan_history: history same_plan
  by unfold_locales (simp_all add: same_plan_def)

lemma keeps_banks:
  assumes "banks_ok s" "same_plan s t" "books t"
  shows "banks_ok t"
proof -
  have same: "managers t = managers s" "retiring t = retiring s" "active_bank t = active_bank s"
    "pending_switch t = pending_switch s" "pending_discard t = pending_discard s" "max_banks t = max_banks s"
    using assms(2) by (simp_all add: same_plan_def)
  show ?thesis
    using assms(1,3) unfolding banks_ok_def managers_ok_def switch_ok_def keeps_active_def same by iprover
qed

lemma run_parent_spec:
  assumes "run_parent f s = (x, t)"
  shows "same_plan s t" "owners t = owners s"
    "(\<And>c. pools_ok n c \<Longrightarrow> pools_ok n (snd (f c))) \<Longrightarrow> pools_ok n s \<Longrightarrow> pools_ok n t"
proof -
  obtain y c where y: "f (core.truncate s) = (y, c)" by fastforce
  have t: "t = core.extend c (core.more s)" using assms by (auto simp: run_parent_def y split: sum.splits)
  show "same_plan s t" "owners t = owners s" by (cases s; simp add: t core.extend_def same_plan_def)+
  show "pools_ok n t" if "\<And>c. pools_ok n c \<Longrightarrow> pools_ok n (snd (f c))" "pools_ok n s"
  proof -
    have "pools_ok n (core.truncate s)" using that(2) by (simp add: pools_ok_def core.truncate_def)
    then have "pools_ok n c" using that(1) [of "core.truncate s"] y by simp
    then show ?thesis by (simp add: t core.extend_def pools_ok_def)
  qed
qed

lemma parent_step_spec:
  assumes "parent_step e throttle flush s = (x, t)"
  shows "same_plan s t" "owners t = owners s" "engine_ok n e \<Longrightarrow> pools_ok n s \<Longrightarrow> pools_ok n t"
proof -
  obtain v y u where run: "run_parent (parent_schedule e throttle (holds_zero_budget flush s) (active_manager s)) v = (y, u)"
    and v: "same_plan s v" "owners v = owners s" "pools v = pools s"
    and t: "same_plan u t" "owners t = owners u" "pools t = pools u"
    using assms by (auto simp: parent_step_def Let_def same_plan_def split: prod.splits sum.splits)
  note r = run_parent_spec [OF run]
  show "same_plan s t" by (rule plan_history.trans [OF plan_history.trans [OF v(1) r(1)] t(1)])
  show "owners t = owners s" using v r(2) t by simp
  show "pools_ok n t" if "engine_ok n e" "pools_ok n s"
    using r(3) [of n] that v(3) t(3) by (simp add: engine_ok_def pools_ok_def)
qed

subsection \<open>The worker's table of parked chats\<close>

text \<open>The worker keeps the active bank on the GPU and every other bank with an allocator in RAM.\<close>

definition mirrors :: "fair \<Rightarrow> 'b chats \<Rightarrow> bool" where
  "mirrors s c \<longleftrightarrow> on_gpu c = active_bank s
     \<and> dom (parked_bytes c) = set (managers s) - set_option (active_bank s)"

text \<open>A frame is sent to the worker: it is carried out, and the tables agree again.\<close>

definition handed :: "bank_layout \<Rightarrow> 'b chats \<Rightarrow> handover \<Rightarrow> fair \<Rightarrow> bool" where
  "handed lay c md t \<longleftrightarrow> handover_allowed lay md c \<and> mirrors t (hand_chats lay md c)
     \<and> (\<forall>b \<in> set (save_blocks md). b < block_count lay)"

lemma mirrors_plan: "same_plan s t \<Longrightarrow> mirrors t c = mirrors s c"
  by (simp add: mirrors_def same_plan_def)

lemma handed_plan: "same_plan s t \<Longrightarrow> handed lay c md t = handed lay c md s"
  by (simp add: handed_def mirrors_plan)

lemma stay_handed:
  assumes "mirrors s0 c" "active_bank s0 = Some a" "active_bank s = Some a" "bank md = Some a" "save_blocks md = []"
    and "set (managers s) = set (managers s0) - set (dropped_banks md)"
  shows "handed lay c md s"
  using assms by (auto simp: handed_def handover_allowed_def mirrors_def hand_chats_def Let_def)

lemma first_handed:
  assumes "mirrors s0 c" "active_bank s0 = None" "managers s0 = []" "bank md = active_bank s" "save_blocks md = []"
    and "set (managers s) = set_option (active_bank s)"
  shows "handed lay c md s"
  using assms by (cases "active_bank s") (auto simp: handed_def handover_allowed_def mirrors_def hand_chats_def Let_def)

lemma replace_handed:
  assumes "mirrors s0 c" "active_bank s0 = Some a" "t \<noteq> a" "t \<notin> set (managers s0)"
    and "bank md = Some t" "save_blocks md = []" "discard_active md" "dropped_banks md = [a]"
    and "active_bank s = Some t" "set (managers s) = insert t (set (managers s0) - {a})"
  shows "handed lay c md s"
proof -
  have p: "dom (parked_bytes c) = set (managers s0) - {a}" "on_gpu c = Some a" using assms(1,2) by (simp_all add: mirrors_def)
  then have "parked_bytes c t = None" using assms(4) by blast
  then have "handover_allowed lay md c" using assms(3,5,7,8) p(2)
    by (simp add: handover_allowed_def Let_def restrict_map_def)
  moreover have "mirrors s (hand_chats lay md c)" using assms(3-) p
    by (auto simp: mirrors_def hand_chats_def Let_def)
  ultimately show ?thesis using assms(6) by (simp add: handed_def)
qed

lemma swap_handed:
  assumes "mirrors s0 c" "active_bank s0 = Some a" "t \<noteq> a" "a \<in> set (managers s0)" "managers_ok s0"
    and "t \<in> set (managers s0) \<or> length (managers s0) < max_banks s0" "bank_limit lay = max_banks s0"
    and "bank md = Some t" "\<forall>b \<in> set (save_blocks md). b < block_count lay" "\<not> discard_active md" "dropped_banks md = []"
    and "active_bank s = Some t" "set (managers s) = insert t (set (managers s0))"
  shows "handed lay c md s"
proof -
  have p: "dom (parked_bytes c) = set (managers s0) - {a}" "on_gpu c = Some a"
    using assms(1,2) by (simp_all add: mirrors_def)
  have count: "card (set (managers s0)) = length (managers s0)" "length (managers s0) \<le> max_banks s0"
    using assms(5) distinct_card by (auto simp: managers_ok_def)
  have few: "card (dom (parked_bytes c)) < bank_limit lay - 1" if none: "parked_bytes c t = None"
  proof -
    have "t \<notin> set (managers s0)" using p(1) none assms(3) by blast
    then have "length (managers s0) < max_banks s0" using assms(6) by blast
    then show ?thesis using count assms(4,7) unfolding p(1) by (cases "length (managers s0)") auto
  qed
  have "handover_allowed lay md c" using assms(3,8,10,11) p(2) few
    by (auto simp: handover_allowed_def Let_def)
  moreover have "mirrors s (hand_chats lay md c)"
    using assms(3,4,8-13) p by (auto simp: mirrors_def hand_chats_def Let_def split: option.splits if_splits)
  ultimately show ?thesis using assms(9) by (simp add: handed_def)
qed

subsection \<open>A step of the scheduler\<close>

lemma live_blocks_within: "pool_ok n p \<Longrightarrow> \<forall>b \<in> set (live_blocks p). b < n"
  by (auto simp: live_blocks_def pool_ok_def)

lemma pools_ok_activate: "engine_ok n e \<Longrightarrow> pools_ok n s \<Longrightarrow> pools_ok n (activate e key s)"
  by (simp add: activate_def pools_ok_def engine_ok_def Let_def)

lemma activate_managers:
  "managers (activate e key s) = (if key \<in> set (managers s) then managers s else managers s @ [key])"
  "active_bank (activate e key s) = Some key" "retiring (activate e key s) = retiring s"
  "pending_switch (activate e key s) = pending_switch s" "pending_discard (activate e key s) = pending_discard s"
  "max_banks (activate e key s) = max_banks s" "books (activate e key s) = books s"
  "running_requests (activate e key s) = running_requests s"
  by (simp_all add: activate_def books_def Let_def)

lemma resume_parked_same:
  "same_plan s (resume_parked key s)" "books (resume_parked key s) = books s" "pools (resume_parked key s) = pools s"
  by (auto simp: resume_parked_def same_plan_def books_def Let_def split: option.splits)

lemma retire_bank_fields:
  "managers (retire_bank key s) = removeAll key (managers s)" "active_bank (retire_bank key s) = active_bank s"
  "pending_switch (retire_bank key s) = pending_switch s" "pending_discard (retire_bank key s) = pending_discard s"
  "max_banks (retire_bank key s) = max_banks s" "books s \<Longrightarrow> books (retire_bank key s)"
  "pools (retire_bank key s) = pools s"
  by (simp_all add: retire_bank_def books_def distinct_map_filter)

text \<open>The plan after the switch to \<open>target\<close> from \<open>s\<close>, where \<open>a\<close> was active.\<close>

definition switched :: "string \<Rightarrow> string \<Rightarrow> bool \<Rightarrow> fair \<Rightarrow> fair \<Rightarrow> bool" where
  "switched a target discard s t \<longleftrightarrow> (let left = (if discard then removeAll a (managers s) else managers s) in
     managers t = (if target \<in> set left then left else left @ [target]) \<and> active_bank t = Some target
     \<and> retiring t = [] \<and> pending_switch t = None \<and> max_banks t = max_banks s)"

lemma switched_ok:
  assumes ok: "managers_ok s" "switch_ok s" and p: "pending_switch s = Some target" "active_bank s = Some a"
    and sw: "switched a target (pending_discard s) s t" and t: "books t"
  shows "banks_ok t"
proof -
  let ?left = "if pending_discard s then removeAll a (managers s) else managers s"
  have m: "managers t = (if target \<in> set ?left then ?left else ?left @ [target])" "active_bank t = Some target"
    "retiring t = []" "pending_switch t = None" "max_banks t = max_banks s" using sw by (simp_all add: switched_def Let_def)
  have left: "distinct ?left" "inj_on chat_part (set ?left)" "set ?left \<subseteq> set (managers s)"
    using ok(1) by (auto simp: managers_ok_def distinct_removeAll inj_on_def)
  have sw': "target \<noteq> a" "\<forall>k \<in> set (managers s). k \<noteq> a \<and> k \<noteq> target \<longrightarrow> chat_part k \<noteq> chat_part target"
    "\<not> pending_discard s \<longrightarrow> chat_part target \<noteq> chat_part a"
    "target \<in> set ?left \<or> length ?left < max_banks s"
    using ok(2) p by (auto simp: switch_ok_def split: if_splits)
  have apart: "\<forall>k \<in> set ?left. k \<noteq> target \<longrightarrow> chat_part k \<noteq> chat_part target"
    using sw'(2,3) by auto
  have "length ?left \<le> length (managers s)" by (simp add: removeAll_filter_not_eq)
  then have "length ?left \<le> max_banks s" using ok(1) by (simp add: managers_ok_def)
  then have "length (managers t) \<le> max_banks t" using sw'(4) m(1,5) by auto
  moreover have "inj_on chat_part (set (managers t))"
    using left(2) apart m(1) by (auto simp: inj_on_def)
  moreover have "distinct (managers t)" using left(1) m(1) by auto
  ultimately show ?thesis using ok(1) m t by (auto simp: banks_ok_def managers_ok_def switch_ok_def keeps_active_def)
qed

text \<open>
  What a frame says of the banks: it names the active one, the banks it drops have no allocator
  and no live request, and a bank that leaves saves its live blocks.
\<close>

definition frame_ok :: "fair \<Rightarrow> handover \<Rightarrow> fair \<Rightarrow> bool" where
  "frame_ok s md t \<longleftrightarrow> bank md = active_bank t
     \<and> (\<forall>k \<in> set (dropped_banks md). k \<notin> set (managers t) \<and> k \<notin> set (busy_banks s)
          \<and> (active_bank t = Some k \<longrightarrow> active_bank s = Some k))
     \<and> (\<forall>a. active_bank s = Some a \<and> active_bank t \<noteq> Some a \<and> \<not> discard_active md
          \<longrightarrow> save_blocks md = live_blocks (pools s a))"

text \<open>What holds after a step whose frame has been sent.\<close>

definition advanced :: "bank_layout \<Rightarrow> 'b chats \<Rightarrow> fair \<Rightarrow> handover \<Rightarrow> fair \<Rightarrow> bool" where
  "advanced lay c s md t \<longleftrightarrow> banks_ok t \<and> pools_ok (block_count lay) t \<and> max_banks t = max_banks s \<and> handed lay c md t
     \<and> frame_ok s md t"

lemma advanced_plan:
  assumes "advanced lay c s md t" "same_plan t u" "books u" "pools_ok (block_count lay) u"
  shows "advanced lay c s md u"
  using assms(1,4) keeps_banks [OF _ assms(2,3)] handed_plan [OF assms(2), of lay c md] assms(2)
  by (simp add: advanced_def same_plan_def frame_ok_def)

lemma switch_ok_pending:
  assumes "switch_ok s" "pending_switch s = Some t" "active_bank s = Some a"
  shows "pending_discard s \<Longrightarrow> t \<notin> set (managers s)"
    "\<not> pending_discard s \<Longrightarrow> a \<in> set (managers s)" "\<not> pending_discard s \<Longrightarrow> chat_part t \<noteq> chat_part a"
    "\<not> pending_discard s \<Longrightarrow> t \<in> set (managers s) \<or> length (managers s) < max_banks s"
  using assms by (simp_all add: switch_ok_def split: if_splits)

lemma switch_banks_spec:
  assumes e: "engine_ok (block_count lay) e" and lim: "bank_limit lay = max_banks s"
    and ok: "banks_ok s" "pools_ok (block_count lay) s" "mirrors s c" and p: "pending_switch s = Some target"
    and run: "switch_banks e throttle target s = (Inr md, t)"
  shows "advanced lay c s md t"
proof -
  obtain a where a: "active_bank s = Some a" "target \<noteq> a" using ok(1) p by (auto simp: banks_ok_def switch_ok_def)
  have mok: "managers_ok s" "switch_ok s" "books s" "retiring s = []" using ok(1) by (simp_all add: banks_ok_def)
  let ?D = "pending_discard s"
  have D: "(?D \<or> supersedes (Some target) (active_bank s)) = ?D"
    using switch_ok_pending(3) [OF mok(2) p a(1)] a(1) by (cases ?D) simp_all
  let ?s1 = "s\<lparr>pending_switch := None, pending_discard := False\<rparr>"
  define s2 where "s2 = (if ?D then retire_bank a ?s1 else ?s1)"
  define s3 where "s3 = (resume_parked target (activate e target s2))\<lparr>switch_count := switch_count s2 + 1\<rparr>"
  let ?blocks = "if \<not> ?D \<and> a \<in> set (managers s) then live_blocks (pools s a) else []"
  let ?md = "\<lparr>bank = active_bank s3, save_blocks = ?blocks, dropped_banks = retiring s3, barrier = False, discard_active = ?D\<rparr>"
  have "md = ?md \<and> (?D \<longrightarrow> a \<notin> set (busy_banks ?s1)) \<and> (\<exists>x. parent_step e throttle False (s3\<lparr>retiring := []\<rparr>) = (x, t))"
    using run D a(1) unfolding switch_banks_def s3_def s2_def
    by (simp add: action_simps worker_metadata_def Let_def split: if_splits) blast+
  then obtain x where md: "md = ?md" and idle: "?D \<Longrightarrow> a \<notin> set (busy_banks s)"
    and step: "parent_step e throttle False (s3\<lparr>retiring := []\<rparr>) = (x, t)" by (auto simp: busy_banks_def owner_of_def)
  note r = parent_step_spec [OF step]
  have s2: "managers s2 = (if ?D then removeAll a (managers s) else managers s)" "max_banks s2 = max_banks s"
    "retiring s2 = (if ?D then [a] else [])" "books s2" "pools s2 = pools s" "pending_switch s2 = None"
    using mok(3,4) by (simp_all add: s2_def retire_bank_def books_def distinct_map_filter)
  have s3: "managers s3 = (if target \<in> set (managers s2) then managers s2 else managers s2 @ [target])"
    "active_bank s3 = Some target" "retiring s3 = retiring s2" "max_banks s3 = max_banks s"
    "pending_switch s3 = None" "books s3"
    using resume_parked_same [where s = "activate e target s2" and key = target] s2(2,4,6)
    by (simp_all add: s3_def same_plan_def activate_managers activate_managers(7) [unfolded books_def] books_def)
  have "pools_ok (block_count lay) s2" using ok(2) s2(5) by (simp add: pools_ok_def)
  then have "pools_ok (block_count lay) s3"
    using pools_ok_activate [OF e, of s2 target] resume_parked_same(3) [where s = "activate e target s2" and key = target] by (simp add: s3_def pools_ok_def)
  then have pools: "pools_ok (block_count lay) t" using r(3) [OF e] by (simp add: pools_ok_def)
  have books: "books t" using s3(6) r(2) by (simp add: books_def)
  have t: "managers t = managers s3" "active_bank t = Some target" "retiring t = []" "pending_switch t = None"
    "max_banks t = max_banks s" using r(1) s3 by (simp_all add: same_plan_def)
  have "switched a target ?D s t" using t s2(1) s3(1) by (simp add: switched_def Let_def)
  then have bok: "banks_ok t" by (rule switched_ok [OF mok(1,2) p a(1) _ books])
  have sw: "if ?D then target \<notin> set (managers s) else a \<in> set (managers s) \<and> (target \<in> set (managers s) \<or> length (managers s) < max_banks s)"
    using switch_ok_pending [OF mok(2) p a(1)] by simp
  have "handed lay c md t"
  proof (cases ?D)
    case True
    show ?thesis by (rule replace_handed [OF ok(3) a]) (use True sw md s2 s3 t in auto)
  next
    case False
    have blocks: "\<forall>b \<in> set ?blocks. b < block_count lay"
      using live_blocks_within [of "block_count lay" "pools s a"] ok(2) by (simp add: pools_ok_def)
    show ?thesis by (rule swap_handed [OF ok(3) a _ mok(1) _ lim]) (use False sw md s2 s3 t blocks in auto)
  qed
  moreover have "frame_ok s md t"
    using idle sw a t s3(1-3) s2(1,3) md by (auto simp: frame_ok_def split: if_splits)
  ultimately show ?thesis using bok pools t(5) by (simp add: advanced_def)
qed

lemma only_retires_gone:
  assumes "only_retires s t" "retiring s = []"
  shows "set (managers t) = set (managers s) - set (retiring t)" "set (retiring t) \<subseteq> set (managers s)"
    "set (managers s) - set (managers t) = set (retiring t)" "pools t = pools s"
proof -
  have sub: "set (managers t) \<subseteq> set (managers s)" by (rule only_retires_managers [OF assms(1)])
  have "set (managers s) - set (managers t) \<subseteq> set (retiring t)" "set (retiring t) \<subseteq> set (managers s) - set (managers t)"
    using assms by (simp_all add: only_retires_def)
  then show "set (managers t) = set (managers s) - set (retiring t)" "set (retiring t) \<subseteq> set (managers s)"
    "set (managers s) - set (managers t) = set (retiring t)" using sub by blast+
  show "pools t = pools s" using assms(1) truncate_fields(7) [of t s] by (simp add: only_retires_def same_switch_def)
qed

lemma park_running_same:
  assumes "park_running clk target s = (Inr u, t)"
  shows "same_plan s t" "books t = books s" "pools t = pools s" "retiring t = retiring s"
  using assms by (auto simp: park_running_def same_plan_def books_def split: list.splits option.splits if_splits)

lemma note_service_same:
  "same_plan s (note_service now s)" "books (note_service now s) = books s" "pools (note_service now s) = pools s"
  by (auto simp: note_service_def same_plan_def books_def select_def Let_def split: list.splits option.splits)

text \<open>A switch that there is room for may be on its way.\<close>

lemma room_switch_ok:
  assumes room: "room_for key s" and m: "managers_ok s" and a: "active_bank s = Some a" "a \<noteq> key"
    and kept: "a \<notin> set (retiring s) \<Longrightarrow> a \<in> set (managers s)" and gone: "a \<in> set (retiring s) \<Longrightarrow> a \<notin> set (managers s)"
  shows "switch_ok (s\<lparr>pending_switch := Some key,
    pending_discard := a \<in> set (retiring s) \<or> supersedes (Some key) (Some a), retiring := []\<rparr>)"
proof -
  have apart: "\<forall>k \<in> set (managers s). k \<noteq> key \<and> k \<noteq> a \<longrightarrow> chat_part k \<noteq> chat_part key"
    using room a by (auto simp: room_for_def)
  show ?thesis
  proof (cases "a \<in> set (retiring s) \<or> chat_part key = chat_part a")
    case True
    have "key \<notin> set (managers s) \<and> length (removeAll a (managers s)) < max_banks s"
    proof (cases "a \<in> set (managers s)")
      case True
      then have "chat_part key = chat_part a" using \<open>a \<in> set (retiring s) \<or> _\<close> gone by blast
      moreover have "length (removeAll a (managers s)) < length (managers s)" using True by (rule length_removeAll_less)
      ultimately show ?thesis using m True a(2) by (auto simp: managers_ok_def inj_on_def)
    next
      case False
      then have "\<not> keeps_active s" using a(1) by (simp add: keeps_active_def)
      then show ?thesis using room False by (simp add: room_for_def)
    qed
    then show ?thesis using True apart a by (auto simp: switch_ok_def)
  next
    case False
    then have "a \<in> set (managers s)" "key \<in> set (managers s) \<or> length (managers s) < max_banks s"
      using kept room a by (auto simp: room_for_def)
    then show ?thesis using False apart a by (auto simp: switch_ok_def)
  qed
qed

text \<open>A frame that leaves the active bank where it is, before the parent has run.\<close>

lemma frame_advanced:
  assumes "mirrors s0 c" "banks_ok s0" "pools_ok (block_count lay) s0" "only_retires s0 s" "active_bank s = Some a"
    and "same_plan (s\<lparr>pending_switch := p, pending_discard := d, retiring := []\<rparr>) t"
    and "books t" "pools t = pools s" "switch_ok (s\<lparr>pending_switch := p, pending_discard := d, retiring := []\<rparr>)"
  shows "advanced lay c s0 \<lparr>bank = active_bank s, save_blocks = [], dropped_banks = retiring s, barrier = b, discard_active = False\<rparr> t"
proof -
  let ?s = "s\<lparr>pending_switch := p, pending_discard := d, retiring := []\<rparr>"
  let ?md = "\<lparr>bank = active_bank s, save_blocks = [], dropped_banks = retiring s, barrier = b, discard_active = False\<rparr>"
  have s0: "retiring s0 = []" "managers_ok s0" "books s0" using assms(2) by (simp_all add: banks_ok_def)
  note gone = only_retires_gone [OF assms(4) s0(1)]
  have a: "active_bank s0 = Some a" "max_banks s = max_banks s0"
    using assms(4,5) by (simp_all add: only_retires_def same_switch_def)
  have "books s" using assms(4) s0(3) by (simp add: only_retires_def)
  moreover have "managers_ok s" by (rule only_retires_ok [OF assms(4) s0(2)])
  ultimately have "banks_ok ?s" using assms(5,9) by (simp add: banks_ok_def managers_ok_def books_def)
  moreover have "pools_ok (block_count lay) s" using assms(3) gone(4) by (simp add: pools_ok_def)
  moreover have "handed lay c ?md ?s"
    by (rule stay_handed [OF assms(1) a(1)]) (use assms(5) gone(1) in simp_all)
  moreover have "frame_ok s0 ?md ?s"
    using assms(4,5) a(1) s0(3) gone(1,3) by (auto simp: frame_ok_def only_retires_def)
  ultimately have "advanced lay c s0 ?md ?s" using a(2) by (simp add: advanced_def pools_ok_def)
  then show ?thesis
    using advanced_plan [OF _ assms(6,7)] assms(8) \<open>pools_ok (block_count lay) s\<close> by (simp add: pools_ok_def)
qed

lemma begin_switch_spec:
  assumes e: "engine_ok (block_count lay) e"
    and ok: "banks_ok s0" "pools_ok (block_count lay) s0" "mirrors s0 c" and s: "only_retires s0 s"
    and a: "active_bank s = Some a" "a \<noteq> key" "keeps_active s0" and room: "room_for key s"
    and run: "begin_switch e clk throttle (Some key) s = (Inr md, t)"
  shows "advanced lay c s0 md t"
proof -
  let ?d = "\<lambda>s. a \<in> set (retiring s) \<or> supersedes (Some key) (Some a)"
  obtain s1 x where park: "park_running clk (Some key) s = (Inr (), s1)"
    and md: "md = \<lparr>bank = active_bank s1, save_blocks = [], dropped_banks = retiring s1, barrier = True, discard_active = False\<rparr>"
    and step: "parent_step e throttle True (s1\<lparr>pending_switch := Some key, pending_discard :=
      (case active_bank s1 of None \<Rightarrow> False | Some k \<Rightarrow> k \<in> set (retiring s1)) \<or> supersedes (Some key) (active_bank s1), retiring := []\<rparr>) = (x, t)"
    using run by (auto simp: begin_switch_def action_simps worker_metadata_def)
  note p = park_running_same [OF park]
  have a1: "active_bank s1 = Some a" using p(1) a(1) by (simp add: same_plan_def)
  note r = parent_step_spec [OF step]
  have s0: "retiring s0 = []" "managers_ok s0" "books s0" using ok(1) by (simp_all add: banks_ok_def)
  note gone = only_retires_gone [OF s s0(1)]
  have sb: "books s" using s s0(3) by (simp add: only_retires_def)
  have "a \<in> set (managers s0)" using a s by (simp add: keeps_active_def only_retires_def same_switch_def)
  then have kept: "a \<notin> set (retiring s) \<Longrightarrow> a \<in> set (managers s)" "a \<in> set (retiring s) \<Longrightarrow> a \<notin> set (managers s)"
    using gone(1) by auto
  have sw: "switch_ok (s\<lparr>pending_switch := Some key, pending_discard := ?d s, retiring := []\<rparr>)"
    by (rule room_switch_ok [OF room only_retires_ok [OF s s0(2)] a(1,2) kept])
  let ?plan = "s\<lparr>pending_switch := Some key, pending_discard := ?d s, retiring := []\<rparr>"
  let ?mid = "s1\<lparr>pending_switch := Some key, pending_discard := ?d s1, retiring := []\<rparr>"
  have mid: "parent_step e throttle True ?mid = (x, t)" using step a1 by simp
  have "same_plan ?plan ?mid" "books ?mid" "pools ?mid = pools s"
    using p sb by (simp_all add: same_plan_def books_def)
  moreover have "md = \<lparr>bank = active_bank s, save_blocks = [], dropped_banks = retiring s, barrier = True, discard_active = False\<rparr>"
    using md p(4) a(1) a1 by simp
  ultimately have adv: "advanced lay c s0 md ?mid"
    using frame_advanced [OF ok(3,1,2) s a(1) _ _ _ sw] by simp
  note t = parent_step_spec [OF mid]
  show ?thesis
    by (rule advanced_plan [OF adv t(1)]) (use t(2) t(3) [OF e] adv in \<open>simp_all add: advanced_def banks_ok_def books_def\<close>)
qed

lemma continue_bank_spec:
  assumes e: "engine_ok (block_count lay) e" and s0: "banks_ok s0" and pools: "pools_ok (block_count lay) s"
    and adv: "advanced lay c s0 \<lparr>bank = active_bank s, save_blocks = [], dropped_banks = retiring s, barrier = False,
      discard_active = False\<rparr> (s\<lparr>retiring := []\<rparr>)"
    and run: "continue_bank e throttle s = (Inr md, t)"
  shows "advanced lay c s0 md t"
proof -
  obtain x where md: "md = \<lparr>bank = active_bank s, save_blocks = [], dropped_banks = retiring s, barrier = False, discard_active = False\<rparr>"
    and step: "parent_step e throttle False (s\<lparr>retiring := []\<rparr>) = (x, t)"
    using run by (auto simp: continue_bank_def action_simps worker_metadata_def)
  note t = parent_step_spec [OF step]
  have a: "advanced lay c s0 md (s\<lparr>retiring := []\<rparr>)" using adv md by simp
  show ?thesis
    by (rule advanced_plan [OF a t(1)]) (use t(2) t(3) [OF e] a in \<open>simp_all add: advanced_def banks_ok_def books_def\<close>)
qed

lemma first_bank_advanced:
  assumes "mirrors s0 c" "banks_ok s0" "pools_ok (block_count lay) s" "active_bank s0 = None" "only_retires s0 s"
    and "t = (case target of None \<Rightarrow> s | Some key \<Rightarrow> activate e key s)" "pools_ok (block_count lay) t"
  shows "active_bank t = target \<and> advanced lay c s0 \<lparr>bank = active_bank t, save_blocks = [], dropped_banks = retiring t,
    barrier = False, discard_active = False\<rparr> (t\<lparr>retiring := []\<rparr>)"
proof -
  have s0: "managers s0 = []" "retiring s0 = []" "managers_ok s0" "books s0" "switch_ok s0"
    using assms(2,4) by (simp_all add: banks_ok_def)
  have p: "pending_switch s0 = None" using s0(5) assms(4) by (auto simp: switch_ok_def split: option.splits)
  note gone = only_retires_gone [OF assms(5) s0(2)]
  have s: "managers s = []" "retiring s = []" "active_bank s = None" "books s" "max_banks s = max_banks s0" "pending_switch s = None"
    using gone s0 assms(4,5) p by (simp_all add: only_retires_def same_switch_def)
  have t: "managers t = (case target of None \<Rightarrow> [] | Some key \<Rightarrow> [key])" "active_bank t = target" "retiring t = []" "books t"
    "max_banks t = max_banks s0" "pending_switch t = None"
    using s unfolding assms(6) by (auto simp: activate_managers split: option.split)
  let ?md = "\<lparr>bank = active_bank t, save_blocks = [], dropped_banks = retiring t, barrier = False, discard_active = False\<rparr>"
  have "handed lay c ?md (t\<lparr>retiring := []\<rparr>)"
    by (rule first_handed [OF assms(1,4) s0(1)]) (use t in \<open>auto split: option.split\<close>)
  moreover have "banks_ok (t\<lparr>retiring := []\<rparr>)" using t s0(3)
    by (cases target) (auto simp: banks_ok_def managers_ok_def switch_ok_def keeps_active_def books_def)
  moreover have "frame_ok s0 ?md (t\<lparr>retiring := []\<rparr>)" using t assms(4) by (simp add: frame_ok_def)
  ultimately show ?thesis using t assms(7) by (simp add: advanced_def pools_ok_def)
qed

lemma schedule_spec:
  assumes e: "engine_ok (block_count lay) e" and lim: "bank_limit lay = max_banks s0"
    and ok: "banks_ok s0" "pools_ok (block_count lay) s0" "mirrors s0 c"
    and run: "schedule e clk throttle s0 = (Inr md, t)"
  shows "advanced lay c s0 md t"
proof -
  obtain t' where step: "(case pending_switch s0 of Some target \<Rightarrow> switch_banks e throttle target
       | None \<Rightarrow> sbind (choose_bank e clk) (\<lambda>target.
           sbind (modify (\<lambda>s. case target of None \<Rightarrow> s
             | Some key \<Rightarrow> if active_bank s = None then activate e key s else s)) (\<lambda>_.
           sbind (gets active_bank) (\<lambda>active.
           if target \<noteq> active then begin_switch e clk throttle target else continue_bank e throttle)))) s0 = (Inr md, t')"
    and t: "t = note_service (clk 11) t'"
    using run by (auto simp: schedule_def action_simps)
  have "advanced lay c s0 md t'"
  proof (cases "pending_switch s0")
    case (Some target)
    then show ?thesis using switch_banks_spec [OF e lim ok Some] step by simp
  next
    case None
    obtain target s s1 where choose: "choose_bank e clk s0 = (Inr target, s)"
      and s1: "s1 = (case target of None \<Rightarrow> s | Some key \<Rightarrow> if active_bank s = None then activate e key s else s)"
      and rest: "(if target \<noteq> active_bank s1 then begin_switch e clk throttle target else continue_bank e throttle) s1 = (Inr md, t')"
      using step None by (auto simp: action_simps)
    have s0: "managers_ok s0" "books s0" "retiring s0 = []" "switch_ok s0" "keeps_active s0" using ok(1) None
      by (simp_all add: banks_ok_def switch_ok_def)
    have "orders e" using e by (simp add: engine_ok_def)
    then have good: "good_choice s0 (Inr target, s)"
      using choose_bank_good [of e s0 clk] s0 choose by (simp add: fit_def)
    have ret: "only_retires s0 s" using good by (simp add: good_choice_def)
    have sp: "pools_ok (block_count lay) s" using only_retires_gone(4) [OF ret s0(3)] ok(2) by (simp add: pools_ok_def)
    have same: "active_bank s = active_bank s0" "pending_switch s = None"
      using ret None by (simp_all add: only_retires_def same_switch_def)
    show ?thesis
    proof (cases "active_bank s0")
      case none: None
      have s1': "s1 = (case target of None \<Rightarrow> s | Some key \<Rightarrow> activate e key s)"
        using s1 same none by (simp split: option.split)
      have p1: "pools_ok (block_count lay) s1" using sp pools_ok_activate [OF e sp] s1' by (simp split: option.splits)
      note first = first_bank_advanced [OF ok(3,1) sp none ret s1' p1]
      then have "continue_bank e throttle s1 = (Inr md, t')" using rest by simp
      then show ?thesis using continue_bank_spec [OF e ok(1) p1] first by blast
    next
      case (Some a)
      have s1': "s1 = s" using s1 same Some by (simp split: option.split)
      show ?thesis
      proof (cases "target = Some a")
        case True
        have keep: "keeps_active s" using good True Some same by (simp add: good_choice_def)
        have "continue_bank e throttle s = (Inr md, t')" using rest True Some same s1' by simp
        moreover have "advanced lay c s0 \<lparr>bank = active_bank s, save_blocks = [], dropped_banks = retiring s, barrier = False,
            discard_active = False\<rparr> (s\<lparr>retiring := []\<rparr>)"
        proof (rule frame_advanced [OF ok(3,1,2) ret, where a = a and p = None and d = "pending_discard s"])
          show "same_plan (s\<lparr>pending_switch := None, pending_discard := pending_discard s, retiring := []\<rparr>) (s\<lparr>retiring := []\<rparr>)"
            using same(2) by (simp add: same_plan_def)
          show "switch_ok (s\<lparr>pending_switch := None, pending_discard := pending_discard s, retiring := []\<rparr>)"
            using keep by (simp add: switch_ok_def keeps_active_def)
          show "books (s\<lparr>retiring := []\<rparr>)" using ret s0(2) by (simp add: only_retires_def books_def)
        qed (use same Some in simp_all)
        ultimately show ?thesis using continue_bank_spec [OF e ok(1) sp] by blast
      next
        case False
        obtain key where key: "target = Some key" using good False same Some by (cases target) (auto simp: good_choice_def)
        have "room_for key s" using good key False same Some by (simp add: good_choice_def)
        moreover have "begin_switch e clk throttle (Some key) s = (Inr md, t')" using rest False Some same s1' key by simp
        ultimately show ?thesis
          using begin_switch_spec [OF e ok ret _ _ s0(5), of a key] False key Some same by simp
      qed
    qed
  qed
  then show ?thesis
    using advanced_plan [OF _ note_service_same(1) , of lay c s0 md t'] note_service_same(2,3)
    by (simp add: t advanced_def banks_ok_def pools_ok_def)
qed

end
