(* ===== verification/Chat_Server.thy ===== *)
theory Chat_Server
  imports Chat_Switches
begin

section \<open>The scheduler and the worker together\<close>

text \<open>
  The engine runs the scheduler and hands every frame to the worker before the next step; in
  between requests arrive and end, clients report outcomes and priorities, and the kernels of
  the active chat compute.  A refused request, report or priority is answered with its error
  and the engine goes on; an error of a step, or of a worker, ends the engine.
\<close>

type_synonym 'b server = "fair \<times> 'b bank_worker"

datatype 'b server_event =
    Arrive int nat request
  | Finish "string list"
  | Output int
  | Outcome int string "bool option"
  | Priority int control
  | Round "nat \<Rightarrow> int" bool
  | Kernels "nat \<Rightarrow> 'b list" "transfer list"

datatype server_error = SchedulerError chat_error | WorkerError bank_error

type_synonym ('b, 'a) server_op = "('b server, server_error, 'a) action"

definition on_scheduler :: "'a fair_op \<Rightarrow> ('b, 'a) server_op" where
  "on_scheduler f p = (case f (fst p) of (Inl e, s) \<Rightarrow> (Inl (SchedulerError e), (s, snd p)) | (Inr x, s) \<Rightarrow> (Inr x, (s, snd p)))"

definition on_worker :: "('b, 'a) worker_op \<Rightarrow> ('b, 'a) server_op" where
  "on_worker f p = (case f (snd p) of (Inl e, w) \<Rightarrow> (Inl (WorkerError e), (fst p, w)) | (Inr x, w) \<Rightarrow> (Inr x, (fst p, w)))"

definition answered :: "'a fair_op \<Rightarrow> ('b, unit) server_op" where
  "answered f p = (Inr (), (snd (f (fst p)), snd p))"

fun server_step :: "engine \<Rightarrow> 'b host \<Rightarrow> bank_layout \<Rightarrow> 'b server_event \<Rightarrow> ('b, unit) server_op" where
  "server_step e h lay (Arrive now obj r) =
     answered (sbind (modify (\<lambda>s. s\<lparr>objects := (objects s)(obj := r)\<rparr>)) (\<lambda>_. add_request e now obj))"
| "server_step e h lay (Finish rids) = answered (finish_requests e rids)"
| "server_step e h lay (Output now) = on_scheduler (update_from_output e now)"
| "server_step e h lay (Outcome now token outcome) = answered (response_outcome now token outcome)"
| "server_step e h lay (Priority now v) = answered (answer_priority now v)"
| "server_step e h lay (Round clk throttle) =
     sbind (on_scheduler (schedule e clk throttle)) (\<lambda>md. on_worker (before_forward h lay md))"
| "server_step e h lay (Kernels g ts) = on_worker (compute g ts)"

fun server_event_ok :: "bank_layout \<Rightarrow> 'b server_event \<Rightarrow> bool" where
  "server_event_ok lay (Kernels g ts) \<longleftrightarrow> event_ok lay (Compute g ts)"
| "server_event_ok lay _ \<longleftrightarrow> True"

subsection \<open>The other calls leave the banks alone\<close>

definition undisturbed :: "nat \<Rightarrow> fair \<Rightarrow> fair \<Rightarrow> bool" where
  "undisturbed n s t \<longleftrightarrow> same_plan s t \<and> (books s \<longrightarrow> books t) \<and> (pools_ok n s \<longrightarrow> pools_ok n t)"

interpretation undisturbed_history: history "undisturbed n"
  by unfold_locales (auto simp: undisturbed_def same_plan_def)

lemma undisturbed_ok:
  assumes "undisturbed n s t" "banks_ok s" "pools_ok n s"
  shows "banks_ok t" "pools_ok n t" "max_banks t = max_banks s" "mirrors t c = mirrors s c"
proof -
  have t: "same_plan s t" "books t" "pools_ok n t" using assms by (simp_all add: undisturbed_def banks_ok_def)
  show "banks_ok t" by (rule keeps_banks [OF assms(2) t(1,2)])
  show "pools_ok n t" by (rule t(3))
  show "max_banks t = max_banks s" using t(1) by (simp add: same_plan_def)
  show "mirrors t c = mirrors s c" by (rule mirrors_plan [OF t(1)])
qed

lemma run_parent_undisturbed:
  assumes "run_parent f s = (x, t)" "\<And>c. pools_ok n c \<Longrightarrow> pools_ok n (snd (f c))"
  shows "undisturbed n s t"
  using run_parent_spec [OF assms(1)] assms(2) by (auto simp: undisturbed_def books_def)

lemma distinct_delete: "distinct (map fst xs) \<Longrightarrow> distinct (map fst (AList.delete k xs))"
  by (rule AList.distinct_delete)

lemma add_request_undisturbed:
  assumes "engine_ok n e"
  shows "undisturbed n s (snd (add_request e now obj s))"
proof (cases "bank_key (sha256 e) (objects s obj)")
  case (Inl err)
  then show ?thesis by (simp add: add_request_def undisturbed_history.refl)
next
  case (Inr key)
  let ?rid = "request_id (objects s obj)"
  obtain x t where t: "run_parent (parent_add e obj) (register_owner ?rid key s) = (x, t)" by fastforce
  have reg: "undisturbed n s (register_owner ?rid key s)"
    by (simp add: undisturbed_def same_plan_def register_owner_def books_def pools_ok_def distinct_update)
  have par: "undisturbed n (register_owner ?rid key s) t"
    by (rule run_parent_undisturbed [OF t]) (use assms in \<open>simp add: engine_ok_def\<close>)
  have last: "undisturbed n t (snd (add_request e now obj s))"
    using Inr t by (cases x) (auto simp: add_request_def undisturbed_def same_plan_def books_def pools_ok_def distinct_delete Let_def)
  show ?thesis by (rule undisturbed_history.trans [OF undisturbed_history.trans [OF reg par] last])
qed

lemma finish_requests_undisturbed:
  assumes "engine_ok n e"
  shows "undisturbed n s (snd (finish_requests e rids s))"
proof -
  obtain x t where t: "run_parent (parent_finish e rids) s = (x, t)" by fastforce
  have par: "undisturbed n s t"
    by (rule run_parent_undisturbed [OF t]) (use assms in \<open>simp add: engine_ok_def\<close>)
  have one: "undisturbed n u (forget_unallocated obj u)" for u obj
    by (simp add: forget_unallocated_def undisturbed_def same_plan_def books_def pools_ok_def distinct_delete Let_def)
  have all: "undisturbed n u (fold forget_unallocated fs u)" for u fs
  proof (induction fs arbitrary: u)
    case (Cons obj fs)
    show ?case using undisturbed_history.trans [OF one Cons.IH] by simp
  qed (simp add: undisturbed_history.refl)
  have parked: "undisturbed n u (u\<lparr>parked_requests := ps\<rparr>)" for u ps
    by (simp add: undisturbed_def same_plan_def books_def pools_ok_def)
  show ?thesis
  proof (cases x)
    case (Inl err)
    then show ?thesis using t par by (simp add: finish_requests_def sbind_def)
  next
    case (Inr fs)
    then show ?thesis using t undisturbed_history.trans [OF par undisturbed_history.trans [OF all parked]]
      by (simp add: finish_requests_def sbind_def modify_def Let_def)
  qed
qed

lemma update_undisturbed:
  assumes "engine_ok n e"
  shows "undisturbed n s (snd (update_from_output e now s))"
proof -
  obtain x t where t: "run_parent (parent_update e) s = (x, t)" by fastforce
  have par: "undisturbed n s t"
    by (rule run_parent_undisturbed [OF t]) (use assms in \<open>simp add: engine_ok_def\<close>)
  have "undisturbed n t (t\<lparr>handover_state := u\<rparr>)" for u
    by (simp add: undisturbed_def same_plan_def books_def pools_ok_def)
  then show ?thesis using t par undisturbed_history.trans [OF par]
    by (cases x) (simp_all add: update_from_output_def sbind_def modify_def)
qed

lemma reports_undisturbed:
  "undisturbed n s (snd (response_outcome now token outcome s))" "undisturbed n s (snd (answer_priority now v s))"
  by (auto simp: response_outcome_def answer_priority_def undisturbed_def same_plan_def books_def pools_ok_def
      split: prod.splits sum.splits)

lemma arrival_undisturbed:
  assumes "engine_ok n e"
  shows "undisturbed n s (snd (sbind (modify (\<lambda>s. s\<lparr>objects := (objects s)(obj := r)\<rparr>)) (\<lambda>_. add_request e now obj) s))"
proof -
  have "undisturbed n s (s\<lparr>objects := (objects s)(obj := r)\<rparr>)"
    by (simp add: undisturbed_def same_plan_def books_def pools_ok_def)
  then show ?thesis using undisturbed_history.trans [OF _ add_request_undisturbed [OF assms]]
    by (simp add: sbind_def modify_def)
qed

subsection \<open>Scheduler and worker agree\<close>

text \<open>What holds between two steps of the engine.\<close>

definition server_ok :: "bank_layout \<Rightarrow> 'b server \<Rightarrow> bool" where
  "server_ok lay p \<longleftrightarrow> banks_ok (fst p) \<and> pools_ok (block_count lay) (fst p) \<and> bank_limit lay = max_banks (fst p)
     \<and> settled_ok lay (snd p) \<and> stage_ready (snd p) \<and> mirrors (fst p) (chats_of lay (snd p))"

lemma undisturbed_server:
  assumes "server_ok lay p" "undisturbed (block_count lay) (fst p) s"
  shows "server_ok lay (s, snd p)"
proof -
  have "banks_ok (fst p)" "pools_ok (block_count lay) (fst p)" using assms(1) by (simp_all add: server_ok_def)
  note t = undisturbed_ok [OF assms(2) this]
  show ?thesis using assms(1) t(1-3) t(4) [of "chats_of lay (snd p)"] by (simp add: server_ok_def)
qed

lemma round_ok:
  assumes e: "engine_ok (block_count lay) e" and lay: "layout_ok lay" "2 \<le> bank_limit lay" "allocates h"
    and ok: "server_ok lay (s, w)" and run: "server_step e h lay (Round clk throttle) (s, w) = (r, p)"
  shows "(\<exists>err. r = Inl (SchedulerError err)) \<or> r = Inr () \<and> server_ok lay p
    \<and> (\<exists>md. schedule e clk throttle s = (Inr md, fst p) \<and> before_forward h lay md w = (Inr (), snd p)
         \<and> event_ok lay (Prepare md :: 'b bank_event) \<and> advanced lay (chats_of lay w) s md (fst p))"
proof (cases "schedule e clk throttle s")
  case (Pair x t)
  show ?thesis
  proof (cases x)
    case (Inl err)
    then show ?thesis using run Pair by (auto simp: sbind_def on_scheduler_def)
  next
    case (Inr md)
    have s: "banks_ok s" "pools_ok (block_count lay) s" "bank_limit lay = max_banks s" "mirrors s (chats_of lay w)"
      and w: "settled_ok lay w" "stage_ready w" "worker_ok lay w"
      using ok by (simp_all add: server_ok_def settled_ok_def)
    have adv: "advanced lay (chats_of lay w) s md t"
      by (rule schedule_spec [OF e s(3,1,2,4)]) (use Pair Inr in simp)
    have md: "handover_allowed lay md (chats_of lay w)" "mirrors t (hand_chats lay md (chats_of lay w))"
      "\<forall>b \<in> set (save_blocks md). b < block_count lay" using adv by (simp_all add: advanced_def handed_def)
    obtain w' where w': "before_forward h lay md w = (Inr (), w')" "stage_ready w'"
      using before_forward_returns [OF lay(1) w(3,2) md(3,1)] by blast
    have ref: "worker_ok lay w'" "set (pending w') \<subseteq> set (pending w)" "chats_of lay w' = hand_chats lay md (chats_of lay w)"
      using before_forward_refines [OF lay(1,2,3) w(3) md(3) w'(1)] by simp_all
    have "server_ok lay (t, w')"
      using adv s(3) w(1) w'(2) ref md(2) by (auto simp: server_ok_def advanced_def settled_ok_def queue_ok_def)
    moreover have "r = Inr ()" "p = (t, w')" using run Pair Inr w'(1) by (simp_all add: sbind_def on_scheduler_def on_worker_def)
    ultimately show ?thesis using Pair Inr w'(1) md(3) adv by simp
  qed
qed

lemma kernels_ok:
  assumes ok: "server_ok lay (s, w)" and ev: "event_ok lay (Compute g ts)"
  shows "\<exists>w'. server_step e h lay (Kernels g ts) (s, w) = (Inr (), (s, w')) \<and> server_ok lay (s, w')
    \<and> bank_step h lay (Compute g ts) w = (Inr (), w')"
proof -
  obtain w' where run: "bank_step h lay (Compute g ts) w = (Inr (), w')" and ready: "stage_ready w' = stage_ready w"
    by (simp add: compute_def modify_def)
  have "settled_ok lay w" using ok by (simp add: server_ok_def)
  then have "settled_ok lay w' \<and> on_gpu (chats_of lay w') = on_gpu (chats_of lay w)
      \<and> parked_bytes (chats_of lay w') = parked_bytes (chats_of lay w)"
    by (rule compute_keeps_parked [OF _ ev run])
  then have "server_ok lay (s, w')" using ok ready by (simp add: server_ok_def mirrors_def)
  then show ?thesis using run by (simp add: on_worker_def)
qed

lemma step_ok:
  assumes e: "engine_ok (block_count lay) e" and lay: "layout_ok lay" "2 \<le> bank_limit lay" "allocates h"
    and ok: "server_ok lay p" and ev: "server_event_ok lay v" and run: "server_step e h lay v p = (r, q)"
  shows "(\<exists>err. r = Inl (SchedulerError err)) \<or> r = Inr () \<and> server_ok lay q"
proof (cases v)
  case (Round clk throttle)
  then show ?thesis using round_ok [OF e lay, of "fst p" "snd p"] ok run by fastforce
next
  case (Kernels g ts)
  then show ?thesis using kernels_ok [of lay "fst p" "snd p" g ts e h] ok ev run by auto
next
  case (Output now)
  obtain x s where x: "update_from_output e now (fst p) = (x, s)" by fastforce
  have "server_ok lay (s, snd p)" using undisturbed_server [OF ok] update_undisturbed [OF e, of "fst p" now] x by simp
  then show ?thesis using run x Output by (auto simp: on_scheduler_def split: sum.splits)
qed (use undisturbed_server [OF ok] arrival_undisturbed [OF e] finish_requests_undisturbed [OF e] reports_undisturbed run
    in \<open>auto simp: answered_def\<close>)

lemma run_ok:
  assumes e: "engine_ok (block_count lay) e" and lay: "layout_ok lay" "2 \<le> bank_limit lay" "allocates h"
    and "server_ok lay p" "\<forall>v \<in> set evs. server_event_ok lay v" "for_each (server_step e h lay) evs p = (r, q)"
  shows "(\<exists>err. r = Inl (SchedulerError err)) \<or> r = Inr () \<and> server_ok lay q"
  using assms(5-7)
proof (induction evs arbitrary: p)
  case (Cons v evs)
  obtain x p1 where one: "server_step e h lay v p = (x, p1)" by (cases "server_step e h lay v p")
  have "server_event_ok lay v" using Cons.prems(2) by simp
  note s = step_ok [OF e lay Cons.prems(1) this one]
  show ?case
  proof (cases x)
    case (Inl err)
    then show ?thesis using s one Cons.prems(3) by (auto simp: sbind_def)
  next
    case (Inr u)
    then show ?thesis using s one Cons.prems(2,3) Cons.IH [of p1] by (auto simp: sbind_def)
  qed
qed simp

text \<open>The scheduler's part of a step: what it does without a worker.\<close>

fun scheduler_step :: "engine \<Rightarrow> 'b server_event \<Rightarrow> unit fair_op" where
  "scheduler_step e (Arrive now obj r) s = (Inr (),
     snd (sbind (modify (\<lambda>s. s\<lparr>objects := (objects s)(obj := r)\<rparr>)) (\<lambda>_. add_request e now obj) s))"
| "scheduler_step e (Finish rids) s = (Inr (), snd (finish_requests e rids s))"
| "scheduler_step e (Output now) s = update_from_output e now s"
| "scheduler_step e (Outcome now token outcome) s = (Inr (), snd (response_outcome now token outcome s))"
| "scheduler_step e (Priority now v) s = (Inr (), snd (answer_priority now v s))"
| "scheduler_step e (Round clk throttle) s = sbind (schedule e clk throttle) (\<lambda>_. ret ()) s"
| "scheduler_step e (Kernels g ts) s = (Inr (), s)"

lemma step_follows_scheduler:
  assumes e: "engine_ok (block_count lay) e" and lay: "layout_ok lay" "2 \<le> bank_limit lay" "allocates h"
    and ok: "server_ok lay (s, w)" and ev: "server_event_ok lay v" and run: "scheduler_step e v s = (Inr u, t)"
  shows "\<exists>w'. server_step e h lay v (s, w) = (Inr (), (t, w')) \<and> server_ok lay (t, w')"
proof -
  obtain r q where q: "server_step e h lay v (s, w) = (r, q)" by (cases "server_step e h lay v (s, w)")
  note ok' = step_ok [OF e lay ok ev q]
  have "r = Inr () \<and> fst q = t"
  proof (cases v)
    case (Round clk throttle)
    then obtain md where "schedule e clk throttle s = (Inr md, t)" using run by (auto simp: action_simps)
    then show ?thesis
      using round_ok [OF e lay ok q [unfolded Round]] q Round
      by (auto simp: sbind_def on_scheduler_def on_worker_def split: prod.splits sum.splits)
  next
    case (Kernels g ts)
    then show ?thesis using kernels_ok [OF ok, of g ts e h] ev run q by auto
  qed (use run q ok' in \<open>auto simp: on_scheduler_def answered_def split: sum.splits\<close>)
  then show ?thesis using q ok' by (cases q) auto
qed

lemma run_follows_scheduler:
  assumes e: "engine_ok (block_count lay) e" and lay: "layout_ok lay" "2 \<le> bank_limit lay" "allocates h"
    and "server_ok lay (s, w)" "\<forall>v \<in> set evs. server_event_ok lay v" "for_each (scheduler_step e) evs s = (Inr u, t)"
  shows "\<exists>w'. for_each (server_step e h lay) evs (s, w) = (Inr (), (t, w')) \<and> server_ok lay (t, w')"
  using assms(5-7)
proof (induction evs arbitrary: s w)
  case (Cons v evs)
  obtain s1 where s1: "scheduler_step e v s = (Inr (), s1)" "for_each (scheduler_step e) evs s1 = (Inr u, t)"
    using Cons.prems(3) by (auto simp: sbind_Inr_iff)
  obtain w1 where w1: "server_step e h lay v (s, w) = (Inr (), (s1, w1))" "server_ok lay (s1, w1)"
    using step_follows_scheduler [OF e lay Cons.prems(1) _ s1(1)] Cons.prems(2) by auto
  then obtain w' where "for_each (server_step e h lay) evs (s1, w1) = (Inr (), (t, w'))" "server_ok lay (t, w')"
    using Cons.IH [OF w1(2) _ s1(2)] Cons.prems(2) by auto
  then show ?case using w1(1) by (auto simp: sbind_def)
qed auto

subsection \<open>A bank that stays in RAM\<close>

fun stays_cached :: "engine \<Rightarrow> 'b host \<Rightarrow> bank_layout \<Rightarrow> string \<Rightarrow> 'b server_event list \<Rightarrow> 'b server \<Rightarrow> bool" where
  "stays_cached e h lay key [] p \<longleftrightarrow> key \<in> set (managers (fst p)) \<and> active_bank (fst p) \<noteq> Some key"
| "stays_cached e h lay key (v # evs) p \<longleftrightarrow> key \<in> set (managers (fst p)) \<and> active_bank (fst p) \<noteq> Some key
     \<and> stays_cached e h lay key evs (snd (server_step e h lay v p))"

lemma stays_cached_here: "stays_cached e h lay key evs p \<Longrightarrow> key \<in> set (managers (fst p)) \<and> active_bank (fst p) \<noteq> Some key"
  by (cases evs) simp_all

fun keeps_bank :: "engine \<Rightarrow> string \<Rightarrow> 'b server_event list \<Rightarrow> fair \<Rightarrow> bool" where
  "keeps_bank e key [] s \<longleftrightarrow> key \<in> set (managers s) \<and> active_bank s \<noteq> Some key"
| "keeps_bank e key (v # evs) s \<longleftrightarrow> key \<in> set (managers s) \<and> active_bank s \<noteq> Some key
     \<and> keeps_bank e key evs (snd (scheduler_step e v s))"

lemma keeps_bank_stays_cached:
  assumes e: "engine_ok (block_count lay) e" and lay: "layout_ok lay" "2 \<le> bank_limit lay" "allocates h"
    and "server_ok lay (s, w)" "\<forall>v \<in> set evs. server_event_ok lay v" "for_each (scheduler_step e) evs s = (Inr u, t)"
    and "keeps_bank e key evs s"
  shows "stays_cached e h lay key evs (s, w)"
  using assms(5-8)
proof (induction evs arbitrary: s w)
  case (Cons v evs)
  obtain s1 where s1: "scheduler_step e v s = (Inr (), s1)" "for_each (scheduler_step e) evs s1 = (Inr u, t)"
    using Cons.prems(3) by (auto simp: sbind_Inr_iff)
  obtain w1 where "server_step e h lay v (s, w) = (Inr (), (s1, w1))" "server_ok lay (s1, w1)"
    using step_follows_scheduler [OF e lay Cons.prems(1) _ s1(1)] Cons.prems(2) by auto
  then show ?case using Cons.IH [of s1 w1] Cons.prems s1 by simp
qed simp

text \<open>What the worker sees of a step, and of a run during which a bank stays in RAM.\<close>

lemma step_for_worker:
  assumes e: "engine_ok (block_count lay) e" and lay: "layout_ok lay" "2 \<le> bank_limit lay" "allocates h"
    and ok: "server_ok lay (s, w)" and ev: "server_event_ok lay v" and run: "server_step e h lay v (s, w) = (Inr u, (t, w'))"
    and away: "key \<in> set (managers t)" "active_bank t \<noteq> Some key"
  shows "\<exists>bs. for_each (bank_step h lay) bs w = (Inr (), w') \<and> (\<forall>b \<in> set bs. event_ok lay b \<and> leaves_parked key b)"
proof (cases v)
  case (Round clk throttle)
  obtain md where "before_forward h lay md w = (Inr (), w')" "event_ok lay (Prepare md :: 'b bank_event)" "frame_ok s md t"
    using round_ok [OF e lay ok run [unfolded Round]] by (auto simp: advanced_def)
  then show ?thesis using away by (intro exI [of _ "[Prepare md]"]) (auto simp: sbind_Inr_iff frame_ok_def)
next
  case (Kernels g ts)
  obtain w1 where "server_step e h lay v (s, w) = (Inr (), (s, w1))" "bank_step h lay (Compute g ts) w = (Inr (), w1)"
    using kernels_ok [OF ok, of g ts e h] ev Kernels by auto
  then show ?thesis using run ev Kernels by (intro exI [of _ "[Compute g ts]"]) (auto simp: sbind_Inr_iff)
qed (use run in \<open>auto intro!: exI [of _ "[]"] simp: answered_def on_scheduler_def split: prod.splits sum.splits\<close>)

lemma for_each_append: "for_each f (xs @ ys) s = sbind (for_each f xs) (\<lambda>_. for_each f ys) s"
  by (induction xs arbitrary: s) (auto simp: sbind_def ret_def split: prod.splits sum.splits)

lemma run_for_worker:
  assumes e: "engine_ok (block_count lay) e" and lay: "layout_ok lay" "2 \<le> bank_limit lay" "allocates h"
    and "server_ok lay (s, w)" "\<forall>v \<in> set evs. server_event_ok lay v" "stays_cached e h lay key evs (s, w)"
    and "for_each (server_step e h lay) evs (s, w) = (Inr u, (t, w'))"
  shows "\<exists>bs. for_each (bank_step h lay) bs w = (Inr (), w') \<and> (\<forall>b \<in> set bs. event_ok lay b \<and> leaves_parked key b)"
  using assms(5-8)
proof (induction evs arbitrary: s w)
  case Nil
  then show ?case by (intro exI [of _ "[]"]) simp
next
  case (Cons v evs)
  obtain s1 w1 where one: "server_step e h lay v (s, w) = (Inr (), (s1, w1))"
    and rest: "for_each (server_step e h lay) evs (s1, w1) = (Inr u, (t, w'))"
    using Cons.prems(4) by (auto simp: sbind_Inr_iff)
  have cached: "stays_cached e h lay key evs (s1, w1)" using Cons.prems(3) one by simp
  have ok1: "server_ok lay (s1, w1)" using step_ok [OF e lay Cons.prems(1) _ one] Cons.prems(2) by simp
  obtain bs where bs: "for_each (bank_step h lay) bs w = (Inr (), w1)" "\<forall>b \<in> set bs. event_ok lay b \<and> leaves_parked key b"
    using step_for_worker [where key = key, OF e lay Cons.prems(1) _ one] stays_cached_here [OF cached] Cons.prems(2) by auto
  obtain bs' where "for_each (bank_step h lay) bs' w1 = (Inr (), w')" "\<forall>b \<in> set bs'. event_ok lay b \<and> leaves_parked key b"
    using Cons.IH [OF ok1 _ cached rest] Cons.prems(2) by auto
  then show ?case using bs by (intro exI [of _ "bs @ bs'"]) (auto simp: for_each_append sbind_Inr_iff)
qed

text \<open>A bank that leaves the GPU, stays in RAM and comes back finds its live blocks.\<close>

lemma visit_keeps_blocks:
  assumes e: "engine_ok (block_count lay) e" and lay: "layout_ok lay" "2 \<le> bank_limit lay" "allocates h"
    and ok: "server_ok lay (s, w)" and ev: "\<forall>v \<in> set visit. server_event_ok lay v"
    and leave: "active_bank s = Some key" "server_step e h lay (Round clk throttle) (s, w) = (Inr u, (s1, w1))"
    and stay: "stays_cached e h lay key visit (s1, w1)" "for_each (server_step e h lay) visit (s1, w1) = (Inr u', (s2, w2))"
    and home: "server_step e h lay (Round clk' throttle') (s2, w2) = (Inr u'', (s3, w3))" "active_bank s3 = Some key"
      "key \<in> set (managers s2)" "active_bank s2 \<noteq> Some key"
    and cell: "(i, x) \<in> valid_cells lay" "x div snd (region_rows lay ! i) \<in> set (live_blocks (pools s key))"
  shows "gpu_cell (settled_memory w3) (i, x) = gpu_cell (settled_memory w) (i, x)"
proof -
  have away: "key \<in> set (managers s1)" "active_bank s1 \<noteq> Some key" using stays_cached_here [OF stay(1)] by auto
  obtain out where out: "before_forward h lay out w = (Inr (), w1)" "event_ok lay (Prepare out :: 'b bank_event)"
      "frame_ok s out s1" "handover_allowed lay out (chats_of lay w)" and ok1: "server_ok lay (s1, w1)"
    using round_ok [OF e lay ok leave(2)] by (auto simp: advanced_def handed_def)
  have on1: "on_gpu (chats_of lay w1) = active_bank s1" using ok1 by (simp add: server_ok_def mirrors_def)
  have res: "resident w = Some key" "resident w1 = active_bank s1"
    using ok ok1 leave(1) by (simp_all add: server_ok_def mirrors_def chats_of_def)
  have kept: "key \<notin> set (dropped_banks out)" using out(3) away(1) by (auto simp: frame_ok_def)
  have "active_bank s1 \<noteq> None"
  proof
    assume "active_bank s1 = None"
    then have "managers s1 = []" using ok1 by (simp add: server_ok_def banks_ok_def)
    then show False using away(1) by simp
  qed
  then obtain t where t: "bank out = Some t" "t \<noteq> key" using out(3) away(2) by (auto simp: frame_ok_def)
  have plain: "\<not> discard_active out"
    using out(4) res(1) kept t by (auto simp: handover_allowed_def chats_of_def Let_def)
  then have saved: "save_blocks out = live_blocks (pools s key)" using out(3) leave(1) away(2) by (simp add: frame_ok_def)
  obtain bs where bs: "for_each (bank_step h lay) bs w1 = (Inr (), w2)" "\<forall>b \<in> set bs. event_ok lay b \<and> leaves_parked key b"
    using run_for_worker [OF e lay ok1 ev stay] by blast
  have ok2: "server_ok lay (s2, w2)" using run_ok [OF e lay ok1 ev stay(2)] by auto
  obtain inn where inn: "before_forward h lay inn w2 = (Inr (), w3)" "event_ok lay (Prepare inn :: 'b bank_event)"
      "frame_ok s2 inn s3" "handover_allowed lay inn (chats_of lay w2)" and ok3: "server_ok lay (s3, w3)"
    using round_ok [OF e lay ok2 home(1)] by (auto simp: advanced_def handed_def)
  have kept': "key \<notin> set (dropped_banks inn)" using inn(3) home(2,4) by (auto simp: frame_ok_def)
  have "parked_bytes (chats_of lay w2) key \<noteq> None" using ok2 home(3,4) by (auto simp: server_ok_def mirrors_def)
  moreover have bank: "bank inn = Some key" using inn(3) home(2) by (simp add: frame_ok_def)
  moreover have "resident w2 = active_bank s2" using ok2 by (simp add: server_ok_def mirrors_def chats_of_def)
  moreover have "active_bank s2 \<noteq> None"
    using ok2 home(3) by (auto simp: server_ok_def banks_ok_def)
  ultimately have plain': "\<not> discard_active inn"
    using inn(4) kept' home(4) by (auto simp: handover_allowed_def chats_of_def Let_def restrict_map_def)
  have run: "for_each (bank_step h lay) (Prepare out # bs @ [Prepare inn]) w = (Inr (), w3)"
    using out(1) bs(1) inn(1) by (simp add: sbind_Inr_iff for_each_append)
  show ?thesis
    by (rule parked_chat_returns [OF lay _ res(1) out(2) t plain kept bs(2) inn(2) bank plain' kept' run cell(1)])
      (use ok cell(2) saved in \<open>simp_all add: server_ok_def\<close>)
qed

subsection \<open>Startup\<close>

text \<open>\<open>prepare_handover_pool\<close>: the worker's buffers, before the scheduler exists.\<close>

definition prepare_pool ::
  "'b host \<Rightarrow> nat \<Rightarrow> nat \<Rightarrow> (nat \<times> nat) list \<Rightarrow> fair_config \<Rightarrow> 'b tensors \<Rightarrow> nat list
    \<Rightarrow> server_error + bank_layout \<times> 'b bank_worker" where
  "prepare_pool h page blocks tensors cfg m lags =
     (if \<not> (2 \<le> cached_chats cfg \<and> cached_chats cfg \<le> 4) then Inl (SchedulerError InvalidBankLimit)
      else case make_layout page blocks tensors (nat (cached_chats cfg)) of
          Inl err \<Rightarrow> Inl (WorkerError err)
        | Inr lay \<Rightarrow> (case ensure_buffers h lay (initial_worker m lags) of
            (Inl err, _) \<Rightarrow> Inl (WorkerError err)
          | (Inr _, w) \<Rightarrow> Inr (lay, w)))"

definition start_server ::
  "'b host \<Rightarrow> nat \<Rightarrow> nat \<Rightarrow> (nat \<times> nat) list \<Rightarrow> fair_config \<Rightarrow> core \<Rightarrow> 'b tensors \<Rightarrow> nat list
    \<Rightarrow> server_error + bank_layout \<times> 'b server" where
  "start_server h page blocks tensors cfg c m lags =
     rbind (prepare_pool h page blocks tensors cfg m lags) (\<lambda>(lay, w).
     case new_scheduler cfg c of Inl err \<Rightarrow> Inl (SchedulerError err) | Inr s \<Rightarrow> Inr (lay, (s, w)))"

lemma new_scheduler_ok:
  assumes "new_scheduler cfg c = Inr s" "pools_ok n c"
  shows "banks_ok s" "pools_ok n s" "max_banks s = nat (cached_chats cfg)" "2 \<le> cached_chats cfg"
    "active_bank s = None" "managers s = []"
  using assms by (auto simp: new_scheduler_def result_simps core.extend_def banks_ok_def managers_ok_def books_def
      switch_ok_def keeps_active_def pools_ok_def)

lemma start_server_ok:
  assumes run: "start_server h page blocks tensors cfg c m lags = Inr (lay, p)" and "pools_ok blocks c" "allocates h"
    and "\<forall>i < length (distinct_storages tensors). length (m (Gpu i)) = distinct_storages tensors ! i"
  shows "layout_ok lay" "2 \<le> bank_limit lay" "block_count lay = blocks" "server_ok lay p"
    "int (bank_limit lay) = cached_chats cfg"
proof -
  obtain w s n where lay: "make_layout page blocks tensors (nat (cached_chats cfg)) = Inr lay"
    and w: "ensure_buffers h lay (initial_worker m lags) = (Inr n, w)"
    and s: "new_scheduler cfg c = Inr s" and p: "p = (s, w)"
  proof -
    obtain w where pool: "prepare_pool h page blocks tensors cfg m lags = Inr (lay, w)"
      and s: "(case new_scheduler cfg c of Inl err \<Rightarrow> Inl (SchedulerError err) | Inr s \<Rightarrow> Inr (lay, (s, w))) = Inr (lay, p)"
      using run by (cases "new_scheduler cfg c") (auto simp: start_server_def result_simps)
    then obtain s where "new_scheduler cfg c = Inr s" "p = (s, w)" by (cases "new_scheduler cfg c") auto
    moreover obtain n where "make_layout page blocks tensors (nat (cached_chats cfg)) = Inr lay"
      "ensure_buffers h lay (initial_worker m lags) = (Inr n, w)"
      using pool by (auto simp: prepare_pool_def split: if_splits sum.splits prod.splits)
    ultimately show thesis using that by blast
  qed
  note sok = new_scheduler_ok [OF s assms(2)]
  note lok = make_layout_ok [OF lay]
  show l: "layout_ok lay" "2 \<le> bank_limit lay" "int (bank_limit lay) = cached_chats cfg" using lok(1,2) sok(4) by auto
  show blocks: "block_count lay = blocks" using lay by (auto simp: make_layout_def result_simps Let_def)
  have "settled_ok lay (initial_worker m lags)" by (rule initial_settled [OF lay assms(4)])
  moreover have "bank_step h lay PreparePool (initial_worker m lags) = (Inr (), w)" using w by (simp add: sbind_def ret_def)
  ultimately have "settled_ok lay w \<and> stage_ready w \<and> chats_of lay w = chats_of lay (initial_worker m lags)"
    by (rule ensure_keeps_parked [OF l(1,2) assms(3)])
  then show "server_ok lay p" using sok blocks lok(2)
    by (simp add: p server_ok_def mirrors_def chats_of_def initial_worker_def dom_def)
qed

end
