(* ===== verification/Chat_Demo.thy ===== *)
theory Chat_Demo
  imports Chat_Server Bank_Properties
begin

section \<open>Two chats and a small engine\<close>

text \<open>
  An engine that admits the waiting request when it has a budget and finishes it at the next
  output, with the two banks of the worker of the bank properties.
\<close>

definition chat_request :: "string \<Rightarrow> request" where
  "chat_request rid = \<lparr>request_id = rid, qwen_chat = None, handover_token = None, status_name = ''WAITING'',
     request_finished = False, in_flight_tokens = 0\<rparr>"

definition demo_pool :: block_pool where
  "demo_pool = \<lparr>pool_blocks = [\<lparr>block_number = 0, ref_cnt = 0, block_hash = None\<rparr>,
     \<lparr>block_number = 2, ref_cnt = 1, block_hash = None\<rparr>], pool_aliases = []\<rparr>"

definition demo_engine :: engine where
  "demo_engine = \<lparr>sha256 = (\<lambda>rid. rid), set_order = (\<lambda>ks. ks), initial_pool = demo_pool, fresh_pool = demo_pool,
     parent_schedule = (\<lambda>throttle flush manager c. (Inr [], if flush then c
       else c\<lparr>running_requests := running_requests c @ waiting_queue c, waiting_queue := []\<rparr>)),
     parent_add = (\<lambda>obj c. (Inr (), c\<lparr>live_requests := AList.update (request_id (objects c obj)) obj (live_requests c),
       waiting_queue := waiting_queue c @ [obj]\<rparr>)),
     parent_finish = (\<lambda>rids c. (Inr [], c\<lparr>waiting_queue := filter (\<lambda>r. request_id (objects c r) \<notin> set rids) (waiting_queue c)\<rparr>)),
     parent_update = (\<lambda>c. (Inr (), c\<lparr>objects := fold (\<lambda>r f. f(r := (f r)\<lparr>request_finished := True,
         status_name := ''FINISHED_STOPPED''\<rparr>)) (running_requests c) (objects c),
       live_requests := filter (\<lambda>(_, r). r \<notin> set (running_requests c)) (live_requests c), running_requests := []\<rparr>))\<rparr>"

definition demo_config :: fair_config where
  "demo_config = \<lparr>running_limit = 2, async_scheduling = False, v2_runner = True, deferred_free = False, workers = 1,
     policy_name = ''response_boundary'', cached_chats = 2, tool_grace = 0, tool_deferral = 1000000000\<rparr>"

definition demo_core :: core where
  "demo_core = \<lparr>objects = (\<lambda>_. chat_request ''''), live_requests = [], waiting_queue = [], skipped_queue = [],
     running_requests = [], finished_ids = [], pools = (\<lambda>_. demo_pool)\<rparr>"

lemma demo_engine_ok: "engine_ok 3 demo_engine"
  by (auto simp: engine_ok_def demo_engine_def orders_def pool_ok_def demo_pool_def pools_ok_def)

lemma demo_core_ok: "pools_ok 3 demo_core"
  by (simp add: pools_ok_def demo_core_def demo_pool_def pool_ok_def)

text \<open>The first chat is served and computes, the second is served, and the first comes back.\<close>

definition demo_kernels :: "nat \<Rightarrow> nat server_event" where
  "demo_kernels k = Kernels (\<lambda>i. if i = 0 then [k + 1, k + 2, k + 3, k + 4, k + 5, k + 6] else [k + 7, k + 8, k + 9]) []"

definition demo_round :: "nat server_event" where
  "demo_round = Round (\<lambda>_. 0) False"

definition demo_first :: "nat server_event list" where
  "demo_first = [Arrive 0 1 (chat_request ''r''), demo_round, demo_kernels 10, Output 0, Arrive 0 2 (chat_request ''s''),
     demo_round]"

definition demo_second :: "nat server_event list" where
  "demo_second = [demo_round, demo_kernels 50, Output 0, Arrive 0 3 (chat_request ''r''), demo_round]"

definition demo_start :: "fair" where
  "demo_start = (case new_scheduler demo_config demo_core of Inr s \<Rightarrow> s)"

lemma demo_server:
  "start_server demo_host 1 3 demo_tensors demo_config demo_core demo_gpu [0, 1, 0, 2] = Inr (demo_layout, (demo_start, demo_ready))"
proof -
  have "new_scheduler demo_config demo_core = Inr demo_start"
    by (simp add: demo_start_def new_scheduler_def demo_config_def result_simps new_handover_def seconds_def)
  moreover obtain n where "ensure_buffers demo_host demo_layout demo_worker = (Inr n, demo_ready)"
    using demo_startup by (auto simp: sbind_Inr_iff ret_def)
  then have "prepare_pool demo_host 1 3 demo_tensors demo_config demo_gpu [0, 1, 0, 2] = Inr (demo_layout, demo_ready)"
    using demo_layout_made by (simp add: prepare_pool_def demo_config_def demo_worker_def)
  ultimately show ?thesis by (simp add: start_server_def result_simps)
qed

text \<open>What the evaluation of the scheduler unfolds.\<close>

lemmas scheduler_defs =
  seconds_def lower_hex_def bank_key_def chat_part_def generation_part_def bank_identity_def supersedes_def
  CONTROL_FIELDS_def LEASE_def is_text_def is_number_def is_flag_def text_of_def number_of_def flag_of_def
  control_row_def same_control_def store_control_def update_priority_def priority_level_def OUTCOME_ACK_def
  new_handover_def select_response_def note_finish_def acknowledge_def grace_remaining_def run_parent_def
  owner_of_def register_owner_def activate_def active_manager_def manager_of_def EMPTY_FOR_UNALLOCATED_def
  routed_bank_def live_blocks_def busy_banks_def retire_bank_def served_at_def replaced_banks_def
  make_room_def waiting_requests_def waiting_of_def known_keys_def contenders_def other_contenders_def
  successors_def level_at_def select_def give_gpu_def urgent_banks_def safe_point_def slot_left_def
  by_service_def queued_time_def note_queued_def oldest_wait_def overdue_banks_def boundary_rank_def boundary_order_def
  identity_of_def hold_boundary_def candidates_def pass_from_def pass_on_def watch_response_def
  wait_in_grace_def grace_or_pass_def free_boundary_def claim_hold_def open_boundary_def at_boundary_def
  refresh_def take_urgent_def choose_next_def choose_bank_def holds_zero_budget_def parent_step_def
  worker_metadata_def resume_parked_def switch_banks_def [THEN fun_cong] park_running_def begin_switch_def [THEN fun_cong] continue_bank_def [THEN fun_cong]
  note_service_def schedule_def [THEN fun_cong] add_request_def forget_unallocated_def finish_requests_def [THEN fun_cong]
  update_from_output_def [THEN fun_cong] response_outcome_def answer_priority_def unfinished_requests_def chat_request_def
  demo_pool_def demo_engine_def demo_config_def demo_core_def demo_kernels_def demo_round_def action_simps
  sbind_def ret_def modify_def gets_def assert_that_def core.truncate_def core.extend_def Let_def
  List.map_filter_simps

text \<open>Evaluation leaves a continuation alone until its argument is there.\<close>

lemma modify_argument: "s = s' \<Longrightarrow> modify f s = modify f s'"
  by simp

lemma sbind_argument: "s = s' \<Longrightarrow> sbind m f s = sbind m f s'"
  by simp

text \<open>The chats' banks, and the states on the way.\<close>

definition demo_bank :: "char \<Rightarrow> string" where
  "demo_bank c = [c, CHR '':''] @ replicate 64 (CHR ''0'')"

definition finished_request :: "string \<Rightarrow> request" where
  "finished_request rid = (chat_request rid)\<lparr>request_finished := True, status_name := ''FINISHED_STOPPED''\<rparr>"

definition demo_flushed :: fair where
  "demo_flushed = \<lparr>objects = (\<lambda>_. chat_request [])(1 := finished_request ''r'', 2 := chat_request ''s''),
     live_requests = [(''s'', 2)], waiting_queue = [2], skipped_queue = [], running_requests = [], finished_ids = [],
     pools = (\<lambda>_. demo_pool)(demo_bank CHR ''r'' := demo_pool),
     owners = [(''r'', demo_bank CHR ''r''), (''s'', demo_bank CHR ''s'')],
     managers = [demo_bank CHR ''r''], unallocated = [''s''], active_bank = Some (demo_bank CHR ''r''), parked_requests = [],
     bankless = [], last_served = [(demo_bank CHR ''r'', 0)], response_request = Some 2,
     handover_state = \<lparr>grace = 0, watched = Some 2, watched_token = None, watched_finished = None, watched_tool = None\<rparr>,
     queued_at = [(''s'', 0)], grace_status = None, answer_priorities = [], priority_hold = None,
     pending_switch = Some (demo_bank CHR ''s''), pending_discard = False, retiring = [], max_banks = 2, state_slots = 2,
     max_deferral = 1000000000, switch_count = 0\<rparr>"

lemma demo_to_flush:
  "for_each (scheduler_step demo_engine) demo_first demo_start = (Inr (), demo_flushed)"
  by (simp add: demo_start_def new_scheduler_def demo_first_def scheduler_defs result_simps demo_flushed_def demo_bank_def
      finished_request_def cong: sbind_argument modify_argument let_weak_cong)

definition demo_switched :: fair where
  "demo_switched = demo_flushed\<lparr>waiting_queue := [], running_requests := [2],
     pools := (\<lambda>_. demo_pool)(demo_bank CHR ''r'' := demo_pool, demo_bank CHR ''s'' := demo_pool),
     managers := [demo_bank CHR ''r'', demo_bank CHR ''s''], unallocated := [], active_bank := Some (demo_bank CHR ''s''),
     last_served := [(demo_bank CHR ''r'', 0), (demo_bank CHR ''s'', 0)], pending_switch := None, switch_count := 1\<rparr>"

definition demo_frame :: "char \<Rightarrow> handover" where
  "demo_frame c = \<lparr>bank = Some (demo_bank c), save_blocks = [2], dropped_banks = [], barrier = False, discard_active = False\<rparr>"

lemma demo_switches:
  "schedule demo_engine (\<lambda>_. 0) False demo_flushed = (Inr (demo_frame CHR ''s''), demo_switched)"
proof -
  have "switch_banks demo_engine False (demo_bank CHR ''s'') demo_flushed
      = (Inr (demo_frame CHR ''s''), demo_switched\<lparr>last_served := [(demo_bank CHR ''r'', 0)]\<rparr>)"
    apply (simp only: switch_banks_def)
    apply (simp add: sbind_def gets_def assert_that_def modify_def Let_def demo_flushed_def supersedes_def chat_part_def
      busy_banks_def owner_of_def chat_request_def List.map_filter_simps demo_bank_def cong: sbind_argument)
    apply (simp add: scheduler_defs demo_switched_def demo_frame_def demo_flushed_def demo_bank_def cong: sbind_argument)
    done
  moreover have "pending_switch demo_flushed = Some (demo_bank CHR ''s'')" by (simp add: demo_flushed_def)
  moreover have "note_service 0 (demo_switched\<lparr>last_served := [(demo_bank CHR ''r'', 0)]\<rparr>) = demo_switched"
    by (simp add: note_service_def demo_switched_def demo_flushed_def select_def select_response_def demo_bank_def)
  ultimately show ?thesis by (simp add: schedule_def sbind_def gets_def modify_def ret_def)
qed

definition demo_returning :: fair where
  "demo_returning = demo_switched\<lparr>objects := (\<lambda>_. chat_request [])(1 := finished_request ''r'', 2 := finished_request ''s'',
     3 := chat_request ''r''), live_requests := [(''r'', 3)], waiting_queue := [3], running_requests := [],
     response_request := Some 3, queued_at := [(''r'', 0)],
     handover_state := \<lparr>grace = 0, watched = Some 3, watched_token = None, watched_finished = None, watched_tool = None\<rparr>,
     pending_switch := Some (demo_bank CHR ''r'')\<rparr>"

lemma demo_to_return:
  "for_each (scheduler_step demo_engine) (tl demo_second) demo_switched = (Inr (), demo_returning)"
  by (simp add: demo_switched_def demo_flushed_def demo_second_def scheduler_defs result_simps demo_returning_def
      demo_bank_def finished_request_def cong: sbind_argument modify_argument let_weak_cong)

definition demo_back :: fair where
  "demo_back = demo_returning\<lparr>waiting_queue := [], running_requests := [3], active_bank := Some (demo_bank CHR ''r''),
     pending_switch := None, switch_count := 2\<rparr>"

lemma demo_returns:
  "schedule demo_engine (\<lambda>_. 0) False demo_returning = (Inr (demo_frame CHR ''r''), demo_back)"
proof -
  have "switch_banks demo_engine False (demo_bank CHR ''r'') demo_returning = (Inr (demo_frame CHR ''r''), demo_back)"
    apply (simp only: switch_banks_def)
    apply (simp add: sbind_def gets_def assert_that_def modify_def Let_def demo_returning_def demo_switched_def demo_flushed_def
      supersedes_def chat_part_def busy_banks_def owner_of_def chat_request_def List.map_filter_simps demo_bank_def cong: sbind_argument)
    apply (simp add: scheduler_defs demo_back_def demo_returning_def demo_switched_def demo_flushed_def demo_frame_def
      demo_bank_def cong: sbind_argument)
    done
  moreover have "pending_switch demo_returning = Some (demo_bank CHR ''r'')" by (simp add: demo_returning_def)
  moreover have "note_service 0 demo_back = demo_back"
    by (simp add: note_service_def demo_back_def demo_returning_def demo_switched_def demo_flushed_def select_def
        select_response_def demo_bank_def)
  ultimately show ?thesis by (simp add: schedule_def sbind_def gets_def modify_def ret_def)
qed

text \<open>The first chat stays in RAM while the second has the GPU.\<close>

lemma demo_stays: "keeps_bank demo_engine (demo_bank CHR ''r'') (tl demo_second) demo_switched"
  by (simp add: demo_switched_def demo_flushed_def demo_second_def scheduler_defs result_simps
      demo_bank_def finished_request_def cong: sbind_argument modify_argument let_weak_cong)

text \<open>The same with the worker.\<close>

lemma demo_server_ok: "server_ok demo_layout (demo_start, demo_ready)" "layout_ok demo_layout" "2 \<le> bank_limit demo_layout"
  "block_count demo_layout = 3"
  using start_server_ok [OF demo_server demo_core_ok demo_allocates demo_gpu_sizes] by (simp_all add: demo_layout_def)

lemmas demo_follows = run_follows_scheduler [of demo_layout demo_engine demo_host, unfolded demo_server_ok(4),
  OF demo_engine_ok demo_server_ok(2,3) demo_allocates]

lemma demo_events_fine: "\<forall>v \<in> set (demo_first @ demo_second @ [demo_round]). server_event_ok demo_layout v"
  by (auto simp: demo_first_def demo_second_def demo_round_def demo_kernels_def demo_layout_def nth_Cons split: nat.splits)

lemma demo_round_steps:
  "scheduler_step demo_engine demo_round demo_flushed = (Inr (), demo_switched)"
  "scheduler_step demo_engine demo_round demo_returning = (Inr (), demo_back)"
  using demo_switches demo_returns by (simp_all add: demo_round_def sbind_def ret_def)

lemma demo_second_start: "demo_second = demo_round # tl demo_second"
  by (simp add: demo_second_def)

lemma demo_whole_run:
  "for_each (scheduler_step demo_engine) (demo_first @ demo_second @ [demo_round]) demo_start = (Inr (), demo_back)"
proof -
  have "for_each (scheduler_step demo_engine) demo_second demo_flushed = (Inr (), demo_returning)"
    using demo_to_return demo_round_steps(1) by (subst demo_second_start) (simp add: sbind_def)
  then show ?thesis using demo_to_flush demo_round_steps(2) by (simp add: for_each_append sbind_def ret_def)
qed

text \<open>A third chat arrives when both banks are taken: the idle one is dropped.\<close>

definition demo_third_chat :: "nat server_event list" where
  "demo_third_chat = [Output 0, Arrive 0 4 (chat_request ''t'')]"

definition demo_third :: fair where
  "demo_third = demo_switched\<lparr>objects := (\<lambda>_. chat_request [])(1 := finished_request ''r'', 2 := finished_request ''s'',
     4 := chat_request ''t''), live_requests := [(''t'', 4)], waiting_queue := [4], running_requests := [],
     owners := [(''r'', demo_bank CHR ''r''), (''s'', demo_bank CHR ''s''), (''t'', demo_bank CHR ''t'')],
     unallocated := [''t''], queued_at := [(''s'', 0), (''t'', 0)],
     handover_state := \<lparr>grace = 0, watched = Some 2, watched_token = None, watched_finished = Some 0, watched_tool = None\<rparr>\<rparr>"

lemma demo_to_third:
  "for_each (scheduler_step demo_engine) (demo_first @ demo_round # demo_third_chat) demo_start = (Inr (), demo_third)"
proof -
  have "for_each (scheduler_step demo_engine) demo_third_chat demo_switched = (Inr (), demo_third)"
    by (simp add: demo_switched_def demo_flushed_def demo_third_chat_def scheduler_defs result_simps demo_third_def
        demo_bank_def finished_request_def cong: sbind_argument modify_argument let_weak_cong)
  then show ?thesis using demo_to_flush demo_round_steps(1) by (simp add: for_each_append sbind_def)
qed

definition demo_dropping :: handover where
  "demo_dropping = \<lparr>bank = Some (demo_bank CHR ''s''), save_blocks = [], dropped_banks = [demo_bank CHR ''r''], barrier = True,
     discard_active = False\<rparr>"

lemma demo_drops: "\<exists>t. schedule demo_engine (\<lambda>_. 0) False demo_third = (Inr demo_dropping, t)"
  by (simp add: demo_third_def demo_switched_def demo_flushed_def scheduler_defs demo_dropping_def
      demo_bank_def finished_request_def cong: sbind_argument modify_argument let_weak_cong)

end
