(* ===== verification/Chat_Properties.thy ===== *)
theory Chat_Properties
  imports Chat_Demo
begin

section \<open>Properties of the scheduler and the worker together\<close>

text \<open>
  C35: From startup, through any arrivals, ends, reports, priorities, steps and computations:
  the worker never refuses a frame of the scheduler, whatever the engine below and the clock
  do.  While no step of the scheduler has failed, the GPU holds the active bank, RAM holds
  exactly the other banks with an allocator, there are at most as many as configured, and no
  two of them are generations of one chat.
\<close>

theorem scheduler_and_worker_agree:
  assumes "engine_ok blocks e" "pools_ok blocks c" "allocates h"
    and "\<forall>i < length (distinct_storages tensors). length (m (Gpu i)) = distinct_storages tensors ! i"
    and "start_server h page blocks tensors cfg c m lags = Inr (lay, p)"
    and "\<forall>v \<in> set evs. server_event_ok lay v"
    and "for_each (server_step e h lay) evs p = (r, (s, w))"
  shows "r \<noteq> Inl (WorkerError err)
    \<and> (r = Inr () \<longrightarrow> resident w = active_bank s
        \<and> fst ` set (images w) = set (managers s) - set_option (active_bank s)
        \<and> int (length (managers s)) \<le> cached_chats cfg \<and> distinct (map chat_part (managers s)))"
proof -
  note start = start_server_ok [OF assms(5,2,3,4)]
  have e: "engine_ok (block_count lay) e" using assms(1) start(3) by simp
  note run = run_ok [OF e start(1,2) assms(3) start(4) assms(6,7)]
  show ?thesis
  proof (cases "r = Inr ()")
    case True
    then have ok: "server_ok lay (s, w)" using run by auto
    then have "banks_ok s" "bank_limit lay = max_banks s" "mirrors s (chats_of lay w)" by (simp_all add: server_ok_def)
    then show ?thesis using True start(5)
      by (auto simp: mirrors_def chats_of_def banks_ok_def managers_ok_def distinct_map dom_map_of_conv_image_fst [symmetric] dom_def)
  qed (use run in auto)
qed

text \<open>
  C36: A chat that leaves the GPU and keeps its allocator until it comes back finds every byte
  of every live block of its allocator as it was when it left, whatever the other chats
  computed, and were given, in between.
\<close>

theorem cached_chats_keep_their_blocks:
  assumes "engine_ok blocks e" "pools_ok blocks c" "allocates h"
    and "\<forall>i < length (distinct_storages tensors). length (m (Gpu i)) = distinct_storages tensors ! i"
    and "start_server h page blocks tensors cfg c m lags = Inr (lay, p)"
    and "\<forall>v \<in> set (past @ visit). server_event_ok lay v"
    and "for_each (server_step e h lay) past p = (Inr (), (s, w))" "active_bank s = Some key"
    and "server_step e h lay (Round clk throttle) (s, w) = (Inr (), q)"
    and "stays_cached e h lay key visit q" "for_each (server_step e h lay) visit q = (Inr (), (s2, w2))"
    and "key \<in> set (managers s2)" "active_bank s2 \<noteq> Some key"
    and "server_step e h lay (Round clk' throttle') (s2, w2) = (Inr (), (s3, w3))" "active_bank s3 = Some key"
    and "(i, x) \<in> valid_cells lay" "x div snd (region_rows lay ! i) \<in> set (live_blocks (pools s key))"
  shows "gpu_cell (settled_memory w3) (i, x) = gpu_cell (settled_memory w) (i, x)"
proof -
  note start = start_server_ok [OF assms(5,2,3,4)]
  have e: "engine_ok (block_count lay) e" using assms(1) start(3) by simp
  have ok: "server_ok lay (s, w)" using run_ok [OF e start(1,2) assms(3) start(4) _ assms(7)] assms(6) by simp
  obtain s1 w1 where q: "q = (s1, w1)" by fastforce
  have visit: "\<forall>v \<in> set visit. server_event_ok lay v" using assms(6) by simp
  show ?thesis
    by (rule visit_keeps_blocks [OF e start(1,2) assms(3) ok visit assms(8) assms(9-11) [unfolded q] assms(14,15,12,13,16,17)])
qed

text \<open>
  C37: A bank that a frame tells the worker to drop has no live request and no request whose
  clean-up the engine still owes, and the scheduler holds no allocator for it any more.
\<close>

theorem dropped_banks_are_idle:
  assumes "engine_ok blocks e" "pools_ok blocks c" "allocates h"
    and "\<forall>i < length (distinct_storages tensors). length (m (Gpu i)) = distinct_storages tensors ! i"
    and "start_server h page blocks tensors cfg c m lags = Inr (lay, p)"
    and "\<forall>v \<in> set evs. server_event_ok lay v" "for_each (server_step e h lay) evs p = (Inr (), (s, w))"
    and "schedule e clk throttle s = (Inr md, t)" "key \<in> set (dropped_banks md)"
  shows "key \<notin> set (busy_banks s) \<and> key \<notin> set (managers t)"
proof -
  note start = start_server_ok [OF assms(5,2,3,4)]
  have e: "engine_ok (block_count lay) e" using assms(1) start(3) by simp
  have "server_ok lay (s, w)" using run_ok [OF e start(1,2) assms(3) start(4) assms(6,7)] by simp
  then have "advanced lay (chats_of lay w) s md t"
    using schedule_spec [OF e _ _ _ _ assms(8), where c = "chats_of lay w"] by (simp add: server_ok_def)
  then show ?thesis using assms(9) by (auto simp: advanced_def frame_ok_def)
qed

subsection \<open>The properties at work\<close>

theorem scheduler_and_worker_agree_witness:
  "\<exists>w. for_each (server_step demo_engine demo_host demo_layout) (demo_first @ demo_second @ [demo_round])
      (demo_start, demo_ready) = (Inr (), (demo_back, w))
    \<and> resident w = Some (demo_bank CHR ''r'') \<and> fst ` set (images w) = {demo_bank CHR ''s''}"
proof -
  obtain w where w: "for_each (server_step demo_engine demo_host demo_layout) (demo_first @ demo_second @ [demo_round])
      (demo_start, demo_ready) = (Inr (), (demo_back, w))"
    using demo_follows [OF demo_server_ok(1) demo_events_fine demo_whole_run] by blast
  have "active_bank demo_back = Some (demo_bank CHR ''r'')" "set (managers demo_back) - {demo_bank CHR ''r''} = {demo_bank CHR ''s''}"
    by (auto simp: demo_back_def demo_returning_def demo_switched_def demo_bank_def)
  then show ?thesis
    using scheduler_and_worker_agree [OF demo_engine_ok demo_core_ok demo_allocates demo_gpu_sizes demo_server demo_events_fine w] w
    by simp
qed

theorem cached_chats_keep_their_blocks_witness:
  "\<exists>w w3. for_each (server_step demo_engine demo_host demo_layout) demo_first (demo_start, demo_ready) = (Inr (), (demo_flushed, w))
    \<and> for_each (server_step demo_engine demo_host demo_layout) (demo_second @ [demo_round]) (demo_flushed, w) = (Inr (), (demo_back, w3))
    \<and> gpu_cell (settled_memory w3) (0, 5) = gpu_cell (settled_memory w) (0, 5)"
proof -
  let ?run = "for_each (server_step demo_engine demo_host demo_layout)"
  have evs: "\<forall>v \<in> set demo_first. server_event_ok demo_layout v" "\<forall>v \<in> set (tl demo_second). server_event_ok demo_layout v"
    "\<forall>v \<in> set [demo_round]. server_event_ok demo_layout v" "\<forall>v \<in> set (demo_first @ tl demo_second). server_event_ok demo_layout v"
    using demo_events_fine by (simp_all add: demo_second_def)
  obtain w where w: "?run demo_first (demo_start, demo_ready) = (Inr (), (demo_flushed, w))" "server_ok demo_layout (demo_flushed, w)"
    using demo_follows [OF demo_server_ok(1) evs(1) demo_to_flush] by blast
  obtain w1 where w1: "?run [demo_round] (demo_flushed, w) = (Inr (), (demo_switched, w1))" "server_ok demo_layout (demo_switched, w1)"
    using demo_follows [OF w(2) evs(3)] demo_round_steps(1) by (auto simp: sbind_def ret_def)
  obtain w2 where w2: "?run (tl demo_second) (demo_switched, w1) = (Inr (), (demo_returning, w2))" "server_ok demo_layout (demo_returning, w2)"
    using demo_follows [OF w1(2) evs(2) demo_to_return] by blast
  obtain w3 where w3: "?run [demo_round] (demo_returning, w2) = (Inr (), (demo_back, w3))"
    using demo_follows [OF w2(2) evs(3)] demo_round_steps(2) by (auto simp: sbind_def ret_def)
  have one: "server_step demo_engine demo_host demo_layout (Round (\<lambda>_. 0) False) (demo_flushed, w) = (Inr (), (demo_switched, w1))"
    "server_step demo_engine demo_host demo_layout (Round (\<lambda>_. 0) False) (demo_returning, w2) = (Inr (), (demo_back, w3))"
    using w1(1) w3 by (auto simp: demo_round_def sbind_Inr_iff)
  have cached: "stays_cached demo_engine demo_host demo_layout (demo_bank CHR ''r'') (tl demo_second) (demo_switched, w1)"
    using keeps_bank_stays_cached [of demo_layout demo_engine demo_host, unfolded demo_server_ok(4),
        OF demo_engine_ok demo_server_ok(2,3) demo_allocates w1(2) evs(2) demo_to_return demo_stays] .
  have banks: "active_bank demo_flushed = Some (demo_bank CHR ''r'')" "demo_bank CHR ''r'' \<in> set (managers demo_returning)"
    "active_bank demo_returning \<noteq> Some (demo_bank CHR ''r'')" "active_bank demo_back = Some (demo_bank CHR ''r'')"
    "2 \<in> set (live_blocks (pools demo_flushed (demo_bank CHR ''r'')))"
    by (auto simp: demo_back_def demo_returning_def demo_switched_def demo_flushed_def demo_bank_def live_blocks_def demo_pool_def)
  have cell: "(0, 5) \<in> valid_cells demo_layout" "5 div snd (region_rows demo_layout ! 0) = 2"
    by (simp_all add: valid_cells_def demo_layout_def)
  have "gpu_cell (settled_memory w3) (0, 5) = gpu_cell (settled_memory w) (0, 5)"
    using cached_chats_keep_their_blocks [OF demo_engine_ok demo_core_ok demo_allocates demo_gpu_sizes demo_server evs(4)
        w(1) banks(1) one(1) cached w2(1) banks(2,3) one(2) banks(4) cell(1)] cell(2) banks(5) by simp
  moreover have "?run (demo_second @ [demo_round]) (demo_flushed, w) = (Inr (), (demo_back, w3))"
    using w1(1) w2(1) w3 by (subst demo_second_start) (auto simp: for_each_append sbind_Inr_iff)
  ultimately show ?thesis using w(1) by blast
qed

theorem dropped_banks_are_idle_witness:
  "\<exists>t. schedule demo_engine (\<lambda>_. 0) False demo_third = (Inr demo_dropping, t)
    \<and> demo_bank CHR ''r'' \<notin> set (busy_banks demo_third) \<and> demo_bank CHR ''r'' \<notin> set (managers t)"
proof -
  have evs: "\<forall>v \<in> set (demo_first @ demo_round # demo_third_chat). server_event_ok demo_layout v"
    using demo_events_fine by (simp add: demo_round_def demo_third_chat_def)
  obtain w where w: "for_each (server_step demo_engine demo_host demo_layout) (demo_first @ demo_round # demo_third_chat)
      (demo_start, demo_ready) = (Inr (), (demo_third, w))"
    using demo_follows [OF demo_server_ok(1) evs demo_to_third] by blast
  obtain t where t: "schedule demo_engine (\<lambda>_. 0) False demo_third = (Inr demo_dropping, t)" using demo_drops by blast
  have "demo_bank CHR ''r'' \<in> set (dropped_banks demo_dropping)" by (simp add: demo_dropping_def)
  then show ?thesis
    using dropped_banks_are_idle [OF demo_engine_ok demo_core_ok demo_allocates demo_gpu_sizes demo_server evs w t] t by blast
qed

end
