(* ===== verification/Chat_Order.thy ===== *)
theory Chat_Order
  imports Chat_Switches
begin

section \<open>Which chat is served next\<close>

text \<open>
  A bank is refused room for one of two reasons only, and being refused changes nothing; so
  the choice takes the first bank in its order that is not blocked.
\<close>

definition blocked :: "fair \<Rightarrow> string \<Rightarrow> bool" where
  "blocked s key \<longleftrightarrow> (\<exists>k \<in> set (managers s). k \<noteq> key \<and> chat_part k = chat_part key \<and> k \<in> set (busy_banks s))
     \<or> key \<notin> set (managers s) \<and> length (managers s) = max_banks s \<and> (\<forall>k \<in> set (managers s). k \<in> set (busy_banks s))"

lemma retire_none:
  "\<forall>key \<in> set ks. active_bank s = Some key \<Longrightarrow>
    fold (\<lambda>key s. if active_bank s \<noteq> Some key then retire_bank key s else s) ks s = s"
  by (induction ks) auto

lemma make_room_refuses:
  assumes e: "orders e" and ok: "managers_ok s" "books s" and run: "make_room e target s = (False, t)"
  shows "t = s \<and> blocked s target"
proof (cases "\<exists>key \<in> set (replaced_banks target s). key \<in> set (busy_banks s)")
  case True
  then show ?thesis using run replaced_iff by (auto simp: make_room_def blocked_def)
next
  case False
  define u where "u = fold (\<lambda>key s. if active_bank s \<noteq> Some key then retire_bank key s else s) (replaced_banks target s) s"
  let ?gone = "{k \<in> set (replaced_banks target s). active_bank s \<noteq> Some k}"
  have "distinct (replaced_banks target s)" using ok(1) by (simp add: replaced_banks_def managers_ok_def)
  then have u: "only_retires s u" and mu: "set (managers u) = set (managers s) - ?gone"
    using retire_all [of "replaced_banks target s" s] False ok(2) replaced_iff unfolding u_def by blast+
  have uok: "managers_ok u" "max_banks u = max_banks s" "active_bank u = active_bank s"
    using only_retires_ok [OF u ok(1)] u by (simp_all add: only_retires_def same_switch_def)
  have full: "target \<notin> set (managers u)" "max_banks u \<le> length (managers u)" and left: "t = u"
    and act: "\<not> (\<exists>key \<in> set (replaced_banks target s). active_bank u = Some key)"
    and idle: "set_order e (filter (\<lambda>key. key \<notin> set (busy_banks s)) (managers u)) = []"
  proof -
    have "\<not> (target \<in> set (managers u) \<or> length (managers u) < max_banks u)"
      using run False unfolding make_room_def u_def [symmetric] Let_def by (auto split: if_splits)
    moreover from this have "managers u \<noteq> []" using uok(1) by (auto simp: managers_ok_def)
    then have "length (managers u) - 1 < max_banks u" using uok(1)
      by (cases "managers u") (auto simp: managers_ok_def)
    ultimately show "target \<notin> set (managers u)" "max_banks u \<le> length (managers u)" "t = u"
      "\<not> (\<exists>key \<in> set (replaced_banks target s). active_bank u = Some key)"
      "set_order e (filter (\<lambda>key. key \<notin> set (busy_banks s)) (managers u)) = []"
      using run False unfolding make_room_def u_def [symmetric] Let_def by (auto split: if_splits)
  qed
  have "?gone = {}"
  proof (rule ccontr)
    assume "?gone \<noteq> {}"
    moreover have "?gone \<subseteq> set (managers s)" using replaced_iff by auto
    ultimately have "card (set (managers u)) < card (set (managers s))"
      unfolding mu by (intro psubset_card_mono) auto
    then have "length (managers u) < length (managers s)"
      using ok(1) uok(1) distinct_card by (metis managers_ok_def)
    then show False using full(2) ok(1) uok(2) by (simp add: managers_ok_def)
  qed
  then have same: "u = s" unfolding u_def by (intro retire_none) auto
  have "set (filter (\<lambda>key. key \<notin> set (busy_banks s)) (managers s)) = {}"
    using idle e unfolding same orders_def by (metis list.set(1))
  then have "\<forall>k \<in> set (managers s). k \<in> set (busy_banks s)" by auto
  moreover have "length (managers s) = max_banks s" using full(2) ok(1) same by (simp add: managers_ok_def)
  ultimately show ?thesis using full(1) left same by (simp add: blocked_def)
qed

text \<open>A bank that is given room was not blocked.\<close>

lemma make_room_takes:
  assumes e: "orders e" and ok: "managers_ok s" and run: "make_room e target s = (True, t)"
  shows "\<not> blocked s target"
proof
  assume blocked: "blocked s target"
  have free: "\<not> (\<exists>key \<in> set (replaced_banks target s). key \<in> set (busy_banks s))"
    using run by (auto simp: make_room_def Let_def split: if_splits)
  then have full: "target \<notin> set (managers s)" "length (managers s) = max_banks s"
    and busy: "\<forall>k \<in> set (managers s). k \<in> set (busy_banks s)"
    using blocked replaced_iff by (auto simp: blocked_def)
  have none: "replaced_banks target s = []"
    using free busy replaced_iff by (metis list.set_intros(1) neq_Nil_conv)
  have "filter (\<lambda>key. key \<notin> set (busy_banks s)) (managers s) = []" using busy by simp
  then have "set_order e (filter (\<lambda>key. key \<notin> set (busy_banks s)) (managers s)) = []"
    using e unfolding orders_def by (metis set_empty)
  then show False using run full by (simp add: make_room_def none)
qed

lemma first_with_room_first:
  assumes "orders e" "managers_ok s" "books s" "first_with_room e (\<lambda>_ _. True) keys s = (r, t)"
  shows "case r of None \<Rightarrow> t = s \<and> (\<forall>k \<in> set keys. blocked s k)
    | Some key \<Rightarrow> \<not> blocked s key \<and> (\<exists>pre post. keys = pre @ key # post \<and> (\<forall>k \<in> set pre. blocked s k))"
  using assms(4)
proof (induction keys)
  case (Cons key keys)
  obtain b u where u: "make_room e key s = (b, u)" by fastforce
  show ?case
  proof (cases b)
    case True
    then have r: "r = Some key" using Cons.prems u by simp
    have "key # keys = [] @ key # keys" "\<forall>k \<in> set []. blocked s k" "\<not> blocked s key"
      using make_room_takes [OF assms(1,2)] u True by simp_all
    then show ?thesis unfolding r option.case by blast
  next
    case False
    then have same: "u = s" "blocked s key" using make_room_refuses [OF assms(1-3)] u by auto
    then have rest: "first_with_room e (\<lambda>_ _. True) keys s = (r, t)" using Cons.prems u False by simp
    show ?thesis
    proof (cases r)
      case None
      then show ?thesis using Cons.IH [OF rest] same(2) by simp
    next
      case (Some k)
      then obtain pre post where "keys = pre @ k # post" "\<forall>k \<in> set pre. blocked s k" "\<not> blocked s k"
        using Cons.IH [OF rest] by auto
      then have "key # keys = (key # pre) @ k # post" "\<forall>k \<in> set (key # pre). blocked s k" "\<not> blocked s k"
        using same(2) by simp_all
      then show ?thesis using Some by (simp only: option.case) blast
    qed
  qed
qed simp

lemma sorted_prefix:
  assumes "sort_key f xs = pre @ x # post" "y \<in> set xs" "f y < f x"
  shows "y \<in> set pre"
proof (rule ccontr)
  assume "y \<notin> set pre"
  moreover have "y \<in> set (pre @ x # post)" using assms(1,2) by (metis set_sort)
  ultimately have "y \<in> set (x # post)" by auto
  moreover have "sorted (map f (pre @ x # post))" using assms(1) by (metis sorted_sort_key)
  ultimately have "f x \<le> f y" by (auto simp: sorted_append)
  then show False using assms(3) by simp
qed

text \<open>
  The order in which free banks take the GPU, said of the priorities and times themselves: the
  higher priority goes first; at equal priority a bank with a request that waited for the
  longest time a tool may defer it goes before one without; of two such banks the one whose
  oldest request waits longer, of two others the one that was served less recently; then
  another bank before the active one, and at last the names decide.
\<close>

definition waited_too_long :: "int \<Rightarrow> fair \<Rightarrow> string \<Rightarrow> bool" where
  "waited_too_long now s k \<longleftrightarrow> (\<exists>r \<in> set (waiting_requests s). owner_of s r = Some k)
     \<and> max_deferral s \<le> now - oldest_wait now s (Some k)"

definition goes_before :: "int \<Rightarrow> int \<Rightarrow> fair \<Rightarrow> string \<Rightarrow> string \<Rightarrow> bool" where
  "goes_before now later s a b \<longleftrightarrow>
     level_at later s (Some b) < level_at later s (Some a)
     \<or> level_at later s (Some b) = level_at later s (Some a)
       \<and> (waited_too_long now s a \<and> \<not> waited_too_long now s b
          \<or> waited_too_long now s a \<and> waited_too_long now s b
            \<and> oldest_wait now s (Some a) < oldest_wait now s (Some b)
          \<or> \<not> waited_too_long now s a \<and> \<not> waited_too_long now s b
            \<and> served_at s a < served_at s b
          \<or> (waited_too_long now s a \<and> waited_too_long now s b
               \<and> oldest_wait now s (Some a) = oldest_wait now s (Some b)
             \<or> \<not> waited_too_long now s a \<and> \<not> waited_too_long now s b
               \<and> served_at s a = served_at s b)
            \<and> (active_bank s = Some b \<and> a \<noteq> b \<or> active_bank s \<noteq> Some a \<and> a < b))"

lemma overdue_iff: "Some k \<in> set (overdue_banks now s) \<longleftrightarrow> waited_too_long now s k"
  by (force simp: overdue_banks_def waited_too_long_def)

lemma goes_before_rank:
  "goes_before now later s a b \<longleftrightarrow> boundary_rank now later s a < boundary_rank now later s b"
  by (cases "waited_too_long now s a"; cases "waited_too_long now s b";
      cases "active_bank s = Some a"; cases "active_bank s = Some b")
     (auto simp add: goes_before_def boundary_rank_def overdue_iff)

lemma goes_before_total: "a \<noteq> b \<Longrightarrow> goes_before now later s a b \<or> goes_before now later s b a"
  unfolding goes_before_rank by (auto simp: boundary_rank_def)

lemma pass_from_first:
  assumes "orders e" "managers_ok s" "books s" "pass_from e now later s = (r, t)"
    and "\<forall>req \<in> set (waiting_requests s). owner_of s req = active_bank s
      \<longrightarrow> status_name (objects s req) \<notin> {''WAITING_FOR_REMOTE_KVS'', ''PREEMPTED''}"
  shows "(\<exists>key. r = Inr (Some key) \<and> key \<in> set (candidates s) \<and> \<not> blocked s key
       \<and> (\<forall>k \<in> set (candidates s). k \<noteq> key \<longrightarrow> blocked s k \<or> goes_before now later s key k))
    \<or> r = Inr (active_bank s) \<and> t = s \<and> (\<forall>k \<in> set (candidates s). blocked s k)"
proof -
  let ?keys = "boundary_order now later s (candidates s)"
  obtain x u where x: "first_with_room e (\<lambda>_ _. True) ?keys s = (x, u)" by fastforce
  have p: "pass_from e now later s = (case x of Some key \<Rightarrow> (Inr (Some key), give_gpu key u) | None \<Rightarrow> (Inr (active_bank u), u))"
    using assms(5) x by (auto simp: pass_from_def split: option.split)
  note first = first_with_room_first [OF assms(1-3) x]
  show ?thesis
  proof (cases x)
    case None
    then show ?thesis using first p assms(4) by (auto simp: boundary_order_def)
  next
    case (Some key)
    then obtain pre post where keys: "?keys = pre @ key # post" and pre: "\<forall>k \<in> set pre. blocked s k"
      and free: "\<not> blocked s key" using first by auto
    have "set ?keys = set (candidates s)" by (simp add: boundary_order_def)
    then have key: "key \<in> set (candidates s)" using keys by (metis in_set_conv_decomp)
    have "blocked s k" if "k \<in> set (candidates s)" "goes_before now later s k key" for k
      using sorted_prefix [OF keys [unfolded boundary_order_def] that [unfolded goes_before_rank]] pre by blast
    then have "blocked s k \<or> goes_before now later s key k" if "k \<in> set (candidates s)" "k \<noteq> key" for k
      using goes_before_total [of k key] that by blast
    then show ?thesis using key free p assms(4) Some by auto
  qed
qed

subsection \<open>Interrupting a response\<close>

lemma first_with_room_ok:
  assumes "first_with_room e ok keys s = (Some key, t)"
  shows "key \<in> set keys \<and> (\<exists>u. ok key u)"
  using assms by (induction keys arbitrary: s) (auto split: if_splits prod.splits bool.splits)

lemma refresh_fields:
  "core.truncate (refresh s) = core.truncate s" "active_bank (refresh s) = active_bank s"
  "level_at now (refresh s) key = level_at now s key" "safe_point (refresh s) = safe_point s"
  by (simp_all add: refresh_def core.truncate_def level_at_def safe_point_def waiting_requests_def owner_of_def)

lemma choose_interrupts:
  assumes "orders e" "fit s" "choose_bank e clk s = (Inr (Some key), t)" "running_requests s \<noteq> []" "Some key \<noteq> active_bank s"
  shows "level_at (clk 1) s (Some key) = 2 \<and> level_at (clk 0) s (active_bank s) < 2 \<and> safe_point s"
proof -
  let ?s = "refresh s"
  let ?level = "level_at (clk 0) s (active_bank s)"
  obtain r u where run: "take_urgent e (urgent_banks ?level (clk 1) ?s) ?s = (r, u)" by fastforce
  show ?thesis
  proof (cases r)
    case (Some k)
    then have "k = key" using assms(3) run by (simp add: choose_bank_def choose_next_def)
    then have first: "first_with_room e (slot_left (urgent_banks ?level (clk 1) ?s \<noteq> [] \<and> safe_point ?s))
        (by_service ?s (urgent_banks ?level (clk 1) ?s)) ?s = (Some key, u)"
      using run Some by (simp add: take_urgent_def)
    have "key \<in> set (urgent_banks ?level (clk 1) ?s)" "safe_point ?s"
      using first_with_room_ok [OF first] by (auto simp: by_service_def slot_left_def)
    then show ?thesis by (simp add: urgent_banks_def refresh_fields)
  next
    case None
    obtain x v where v: "claim_hold clk ?level (other_contenders ?s) u = (x, v)" by fastforce
    have at: "(case x of Inl err \<Rightarrow> (Inl err, v) | Inr _ \<Rightarrow> at_boundary e clk ?level (other_contenders ?s) (successors ?s) v)
        = (Inr (Some key), t)"
      using assms(3) run None v by (simp add: choose_bank_def choose_next_def split: sum.splits)
    have fit: "fit ?s" by (rule fit_same [OF _ assms(2)]) simp
    have "only_retires ?s u" by (rule first_with_room_good(1) [OF assms(1) fit run [unfolded take_urgent_def]])
    moreover have "same_banks u v" using v by (auto simp: claim_hold_def split: if_splits sum.splits)
    then have "only_retires u v" by (rule same_banks_only_retires)
    moreover have "only_retires s ?s" by (simp add: same_banks_only_retires)
    ultimately have "only_retires s v" using retiring_history.trans by blast
    then have "core.truncate v = core.truncate s" "active_bank v = active_bank s" by (simp_all add: only_retires_def same_switch_def)
    then have "running_requests v \<noteq> []" "active_bank v = active_bank s" using truncate_fields(5) [of v s] assms(4) by simp_all
    then show ?thesis using at assms(5) by (auto simp: at_boundary_def split: sum.splits)
  qed
qed

text \<open>What becomes of the response that is interrupted.\<close>

lemma park_running_parks:
  assumes "park_running clk (Some key) s = (Inr u, t)" "running_requests s \<noteq> []"
  shows "\<exists>a r. active_bank s = Some a \<and> running_requests s = [r] \<and> map_of (parked_requests t) a = Some r
    \<and> level_at (clk 8) s (Some key) = 2 \<and> level_at (clk 10) s (Some a) < level_at (clk 9) s (Some key)"
  using assms by (auto simp: park_running_def update_Some_unfold split: list.splits option.splits if_splits)

lemma parent_step_parked:
  assumes "parent_step e throttle flush s = (x, t)"
  shows "parked_requests t = parked_requests s" "pending_switch t = pending_switch s"
proof -
  obtain v y u where run: "run_parent (parent_schedule e throttle (holds_zero_budget flush s) (active_manager s)) v = (y, u)"
    and v: "parked_requests v = parked_requests s" "pending_switch v = pending_switch s"
    and t: "parked_requests t = parked_requests u" "pending_switch t = pending_switch u"
    using assms by (auto simp: parent_step_def Let_def split: prod.splits sum.splits)
  obtain y' c where "parent_schedule e throttle (holds_zero_budget flush s) (active_manager s) (core.truncate v) = (y', c)" by fastforce
  then have "u = core.extend c (core.more v)" using run by (auto simp: run_parent_def split: sum.splits)
  then have "parked_requests u = parked_requests v" "pending_switch u = pending_switch v"
    by (cases v; simp add: core.extend_def)+
  then show "parked_requests t = parked_requests s" "pending_switch t = pending_switch s" using v t by simp_all
qed

lemma begin_switch_parks:
  assumes "begin_switch e clk throttle (Some key) s = (Inr md, t)" "running_requests s \<noteq> []"
  shows "\<exists>a r. active_bank s = Some a \<and> running_requests s = [r] \<and> map_of (parked_requests t) a = Some r
    \<and> level_at (clk 8) s (Some key) = 2 \<and> level_at (clk 10) s (Some a) < level_at (clk 9) s (Some key)
    \<and> pending_switch t = Some key"
proof -
  obtain s1 s2 x where "park_running clk (Some key) s = (Inr (), s1)" "parent_step e throttle True s2 = (x, t)"
    "parked_requests s2 = parked_requests s1" "pending_switch s2 = Some key"
    using assms(1) by (auto simp: begin_switch_def action_simps worker_metadata_def)
  then show ?thesis using park_running_parks [of clk key s "()" s1] parent_step_parked [of e throttle True s2 x t] assms(2) by auto
qed

lemma note_service_parked:
  "parked_requests (note_service now s) = parked_requests s" "pending_switch (note_service now s) = pending_switch s"
  by (auto simp: note_service_def select_def Let_def split: list.splits option.splits)

lemma schedule_interrupts:
  assumes e: "orders e" and ok: "banks_ok s" and now: "pending_switch s = None" "running_requests s \<noteq> []"
    and run: "schedule e clk throttle s = (Inr md, t)" and sw: "pending_switch t = Some key"
  shows "\<exists>a r. active_bank s = Some a \<and> key \<noteq> a \<and> running_requests s = [r] \<and> map_of (parked_requests t) a = Some r
    \<and> level_at (clk 1) s (Some key) = 2 \<and> level_at (clk 0) s (Some a) < 2 \<and> safe_point s"
proof -
  obtain target s' s1 t' where choose: "choose_bank e clk s = (Inr target, s')"
    and s1: "s1 = (case target of None \<Rightarrow> s' | Some k \<Rightarrow> if active_bank s' = None then activate e k s' else s')"
    and rest: "(if target \<noteq> active_bank s1 then begin_switch e clk throttle target else continue_bank e throttle) s1 = (Inr md, t')"
    and t: "t = note_service (clk 11) t'"
    using run now(1) by (auto simp: schedule_def action_simps)
  have fit: "fit s" using ok now(1) by (simp add: banks_ok_def switch_ok_def fit_def)
  have good: "good_choice s (Inr target, s')" using choose_bank_good [OF e fit, of clk] choose by simp
  then have ret: "only_retires s s'" by (simp add: good_choice_def)
  then have same: "core.truncate s' = core.truncate s" "active_bank s' = active_bank s" "pending_switch s' = None"
    "answer_priorities s' = answer_priorities s" using now(1) by (simp_all add: only_retires_def same_switch_def)
  have pend: "pending_switch t' = Some key" using sw t by (simp add: note_service_parked)
  have p1: "pending_switch s1 = None" using s1 same(3) by (simp add: activate_managers split: option.splits)
  have change: "target \<noteq> active_bank s1"
  proof
    assume "target = active_bank s1"
    then have "continue_bank e throttle s1 = (Inr md, t')" using rest by simp
    then obtain x where "parent_step e throttle False (s1\<lparr>retiring := []\<rparr>) = (x, t')"
      by (auto simp: continue_bank_def action_simps worker_metadata_def)
    then have "pending_switch t' = None" using parent_step_parked(2) [of e throttle False "s1\<lparr>retiring := []\<rparr>" x t'] p1 by simp
    then show False using pend by simp
  qed
  have act: "active_bank s' \<noteq> None"
  proof
    assume "active_bank s' = None"
    then have "active_bank s1 = target" using s1 by (cases target) (simp_all add: activate_managers)
    then show False using change by simp
  qed
  then have s1': "s1 = s'" using s1 by (cases target) auto
  obtain k where k: "target = Some k" using good act change s1' by (cases target) (auto simp: good_choice_def)
  have running: "running_requests s' = running_requests s" using truncate_fields(5) [of s' s] same(1) by simp
  have start: "begin_switch e clk throttle (Some k) s' = (Inr md, t')" using rest change s1' k by simp
  obtain a r where ar: "active_bank s' = Some a" "running_requests s' = [r]" "map_of (parked_requests t') a = Some r" "pending_switch t' = Some k"
    using begin_switch_parks [OF start] running now(2) by auto
  have "k = key" using ar(4) pend by simp
  moreover have "level_at (clk 1) s (Some k) = 2 \<and> level_at (clk 0) s (active_bank s) < 2 \<and> safe_point s"
    by (rule choose_interrupts [OF e fit _ now(2)]) (use choose k change s1' same(2) in simp_all)
  ultimately show ?thesis using ar same(2) running change k s1' t by (auto simp: note_service_parked)
qed

end
