(* ===== verification/Chat_Fairness.thy ===== *)
theory Chat_Fairness
  imports Chat_Order Chat_Demo
begin

section \<open>Properties of the choice between chats\<close>

subsection \<open>Priorities\<close>

text \<open>A sequence of updates at the given times; a refused one changes nothing.\<close>

fun apply_updates :: "(int \<times> control) list \<Rightarrow> priorities \<Rightarrow> priorities" where
  "apply_updates [] p = p"
| "apply_updates ((now, v) # rest) p =
     apply_updates rest (case update_priority now v p of Inl _ \<Rightarrow> p | Inr (_, q) \<Rightarrow> q)"

text \<open>An update the holder of a live answer would not accept: of another window, or out of date.\<close>

definition intrusive :: "priority_row \<Rightarrow> string \<Rightarrow> int \<times> control \<Rightarrow> bool" where
  "intrusive row chat u \<longleftrightarrow> fst u < row_expires row \<and> (text_of (map_of (snd u) ''chat_id'') = chat \<longrightarrow>
     text_of (map_of (snd u) ''client'') \<noteq> row_client row \<or> number_of (map_of (snd u) ''sequence'') \<le> row_sequence row)"

lemma map_of_filter_kept: "map_of xs k = Some v \<Longrightarrow> P (k, v) \<Longrightarrow> map_of (filter P xs) k = Some v"
  by (induction xs) (auto split: if_splits)

lemma store_control_others:
  assumes "store_control now chat v p = Inr (n, q)" "map_of p key = Some row" "key \<noteq> chat" "now < row_expires row"
  shows "map_of q key = Some row"
proof -
  have "map_of (filter (\<lambda>(_, row). now < row_expires row + seconds 3600) p) key = Some row"
    using map_of_filter_kept [OF assms(2)] assms(4) by (simp add: seconds_def)
  then show ?thesis using assms(1,3) by (auto simp: store_control_def Let_def result_simps update_conv')
qed

lemma update_keeps_live_row:
  assumes "map_of p chat = Some row" "row_active row" "intrusive row chat (now, v)" "update_priority now v p = Inr (n, q)"
  shows "map_of q chat = Some row"
proof (cases "text_of (map_of v ''chat_id'') = chat")
  case True
  then show ?thesis using assms
    by (auto simp: update_priority_def result_simps intrusive_def Let_def split: if_splits)
next
  case False
  then have "q = p \<or> store_control now (text_of (map_of v ''chat_id'')) v p = Inr (n, q)"
    using assms(4) by (auto simp: update_priority_def result_simps Let_def split: option.splits if_splits)
  then show ?thesis using store_control_others [OF _ assms(1)] assms(1,3) False by (auto simp: intrusive_def)
qed

text \<open>
  C38: While the lease of an answer runs, no other window and no out-of-date message of its own
  changes the priority of the chat, whatever else is recorded, refused or forgotten meanwhile.
\<close>

theorem live_answers_keep_their_priority:
  assumes "map_of p chat = Some row" "row_active row" "\<forall>u \<in> set updates. intrusive row chat u"
    and "chat_part key = chat" "now < row_expires row"
  shows "priority_level now (apply_updates updates p) (Some key) = row_priority row"
proof -
  have "map_of (apply_updates updates p) chat = Some row" using assms(1,3)
  proof (induction updates arbitrary: p)
    case (Cons u updates)
    obtain t v where u: "u = (t, v)" by fastforce
    show ?case
    proof (cases "update_priority t v p")
      case (Inl err)
      then show ?thesis using Cons u by simp
    next
      case (Inr r)
      then obtain n q where q: "update_priority t v p = Inr (n, q)" by (cases r) auto
      have "map_of q chat = Some row"
        by (rule update_keeps_live_row [OF Cons.prems(1) assms(2) _ q]) (use Cons.prems(2) u in simp)
      then show ?thesis using Cons u q by simp
    qed
  qed simp
  then show ?thesis using assms(2,4,5) by (simp add: priority_level_def)
qed

subsection \<open>The next chat\<close>

text \<open>
  C39: Let the scheduler satisfy the invariant of its banks (\<open>banks_ok\<close>, kept by every step), and
  let walking a set reach each of its elements.  At a free response boundary, when no request of the active bank waits for a restore or
  was preempted, one of two things happens.  Either the GPU goes to a candidate bank that is
  not blocked and that goes before every other candidate that is not blocked: its chat has
  the higher priority; at equal priority it has waited too long and the other has not; if
  both have, its oldest request waits longer; if neither has, it was served less recently;
  at a tie the other one is the active bank, or, where neither of them is active, its name
  comes first.  Or every candidate is blocked, the active bank stays
  and nothing changes.  A bank is blocked when another generation of its chat is busy, or
  when every allocator is taken by a busy bank and it has none.
\<close>

theorem free_gpu_goes_to_the_first_in_order:
  assumes "orders e" "banks_ok s"
    and "\<forall>req \<in> set (waiting_requests s). owner_of s req = active_bank s
      \<longrightarrow> status_name (objects s req) \<notin> {''WAITING_FOR_REMOTE_KVS'', ''PREEMPTED''}"
    and "pass_from e now later s = (r, t)"
  shows "(\<exists>key. r = Inr (Some key) \<and> key \<in> set (candidates s) \<and> \<not> blocked s key
       \<and> (\<forall>k \<in> set (candidates s). k \<noteq> key \<longrightarrow> blocked s k \<or> goes_before now later s key k))
    \<or> r = Inr (active_bank s) \<and> t = s \<and> (\<forall>k \<in> set (candidates s). blocked s k)"
  using pass_from_first [OF assms(1) _ _ assms(4,3)] assms(2) by (simp add: banks_ok_def)

text \<open>
  C40: A response that runs is interrupted only for a chat of priority 2, never when its own
  chat has that priority, and only when no step and no restore of the active bank is in flight; the
  interrupted request, the only one, is parked under its bank.
\<close>

theorem interrupted_responses_are_parked:
  assumes "orders e" "banks_ok s" "pending_switch s = None" "running_requests s \<noteq> []"
    and "schedule e clk throttle s = (Inr md, t)" "pending_switch t = Some key"
  shows "\<exists>a r. active_bank s = Some a \<and> key \<noteq> a \<and> running_requests s = [r] \<and> map_of (parked_requests t) a = Some r
    \<and> level_at (clk 1) s (Some key) = 2 \<and> level_at (clk 0) s (Some a) < 2 \<and> safe_point s"
  by (rule schedule_interrupts [OF assms])

subsection \<open>The properties at work\<close>

definition demo_chat :: string where
  "demo_chat = replicate 64 (CHR ''c'')"

definition demo_row :: priority_row where
  "demo_row = \<lparr>row_control = [], row_client = replicate 32 (CHR ''a''), row_sequence = 5, row_priority = 2, row_active = True,
     row_expires = 10\<rparr>"

definition demo_control :: "string \<Rightarrow> int \<Rightarrow> control" where
  "demo_control window n = [(''chat_id'', Text demo_chat), (''client'', Text window), (''answer'', Text (replicate 32 (CHR ''d''))),
     (''sequence'', Number n), (''priority'', Number 0), (''active'', Flag True)]"

theorem live_answers_keep_their_priority_witness:
  "priority_level 9 (apply_updates [(3, demo_control (replicate 32 (CHR ''b'')) 9), (4, demo_control (replicate 32 (CHR ''a'')) 5)]
     [(demo_chat, demo_row)]) (Some (demo_chat @ '':g'')) = 2"
proof -
  have "\<And>x. x \<in> set demo_chat \<Longrightarrow> x \<noteq> CHR '':''" by (auto simp: demo_chat_def)
  then have "takeWhile (\<lambda>c. c \<noteq> CHR '':'') (demo_chat @ '':g'') = demo_chat @ takeWhile (\<lambda>c. c \<noteq> CHR '':'') '':g''"
    by (rule takeWhile_append2)
  then have "chat_part (demo_chat @ '':g'') = demo_chat" by (simp add: chat_part_def)
  moreover have "replicate 32 (CHR ''b'') \<noteq> replicate 32 (CHR ''a'')"
    by (simp add: replicate_eq_replicate)
  then have "\<forall>u \<in> set [(3, demo_control (replicate 32 (CHR ''b'')) 9), (4, demo_control (replicate 32 (CHR ''a'')) 5)].
      intrusive demo_row demo_chat u"
    by (auto simp: intrusive_def demo_control_def demo_row_def text_of_def number_of_def)
  ultimately show ?thesis
    using live_answers_keep_their_priority [of "[(demo_chat, demo_row)]" demo_chat demo_row
        "[(3, demo_control (replicate 32 (CHR ''b'')) 9), (4, demo_control (replicate 32 (CHR ''a'')) 5)]" "demo_chat @ '':g''" 9]
    by (simp add: demo_row_def)
qed

lemma demo_engine_orders: "orders demo_engine"
  using demo_engine_ok by (simp add: engine_ok_def)

lemma demo_third_ok: "banks_ok demo_third"
proof -
  have "\<forall>v \<in> set (demo_first @ demo_round # demo_third_chat). server_event_ok demo_layout v"
    using demo_events_fine by (simp add: demo_round_def demo_third_chat_def)
  then show ?thesis using demo_follows [OF demo_server_ok(1) _ demo_to_third] by (auto simp: server_ok_def)
qed

text \<open>
  The first chat has a further request, the third one an answer of priority 2; both could have
  the GPU, the second chat is still the active one.
\<close>

definition demo_contest :: fair where
  "demo_contest = demo_third\<lparr>objects := (\<lambda>_. chat_request [])(2 := finished_request ''s'', 3 := chat_request ''r'',
     4 := chat_request ''t''), live_requests := [(''r'', 3), (''t'', 4)], waiting_queue := [3, 4],
     answer_priorities := [(''t'', demo_row)]\<rparr>"

lemma demo_contest_ok: "banks_ok demo_contest"
proof -
  have "pending_switch demo_third = None" by (simp add: demo_third_def demo_switched_def)
  then show ?thesis
    using demo_third_ok
    by (simp add: demo_contest_def banks_ok_def managers_ok_def books_def switch_ok_def keeps_active_def)
qed

lemma demo_contest_passes:
  "\<exists>t. pass_from demo_engine 0 0 demo_contest = (Inr (Some (demo_bank CHR ''t'')), t)"
  by (simp add: demo_contest_def demo_third_def demo_switched_def demo_flushed_def scheduler_defs demo_bank_def
      finished_request_def demo_row_def cong: sbind_argument modify_argument let_weak_cong)

lemma demo_contest_other:
  "demo_bank CHR ''r'' \<in> set (candidates demo_contest)" "demo_bank CHR ''r'' \<noteq> demo_bank CHR ''t''"
  "\<not> blocked demo_contest (demo_bank CHR ''r'')"
  "level_at 0 demo_contest (Some (demo_bank CHR ''r'')) = 0" "level_at 0 demo_contest (Some (demo_bank CHR ''t'')) = 2"
  by (simp_all add: demo_contest_def demo_third_def demo_switched_def demo_flushed_def scheduler_defs demo_bank_def
      finished_request_def demo_row_def blocked_def)

theorem free_gpu_goes_to_the_first_in_order_witness:
  "goes_before 0 0 demo_contest (demo_bank CHR ''t'') (demo_bank CHR ''r'')
    \<and> \<not> blocked demo_contest (demo_bank CHR ''t'') \<and> \<not> blocked demo_contest (demo_bank CHR ''r'')
    \<and> level_at 0 demo_contest (Some (demo_bank CHR ''r'')) < level_at 0 demo_contest (Some (demo_bank CHR ''t''))"
proof -
  obtain t where t: "pass_from demo_engine 0 0 demo_contest = (Inr (Some (demo_bank CHR ''t'')), t)"
    using demo_contest_passes by blast
  have "owner_of demo_contest req \<noteq> active_bank demo_contest" if "req \<in> set (waiting_requests demo_contest)" for req
    using that by (auto simp: demo_contest_def demo_third_def demo_switched_def demo_flushed_def waiting_requests_def
        owner_of_def chat_request_def demo_bank_def)
  moreover have "active_bank demo_contest \<noteq> Some (demo_bank CHR ''t'')"
    by (simp add: demo_contest_def demo_third_def demo_switched_def demo_bank_def)
  ultimately show ?thesis
    using free_gpu_goes_to_the_first_in_order [OF demo_engine_orders demo_contest_ok _ t] demo_contest_other by auto
qed

text \<open>A response runs, and a chat of priority 2 arrives.\<close>

definition demo_urgent :: fair where
  "demo_urgent = demo_flushed\<lparr>objects := (\<lambda>_. chat_request [])(1 := chat_request ''r'', 2 := chat_request ''s''),
     live_requests := [(''r'', 1), (''s'', 2)], running_requests := [1], response_request := Some 1, pending_switch := None,
     answer_priorities := [(''s'', demo_row)]\<rparr>"

lemma demo_urgent_ok: "banks_ok demo_urgent"
  by (simp add: banks_ok_def managers_ok_def books_def switch_ok_def keeps_active_def demo_urgent_def demo_flushed_def)

lemma demo_urgent_switches:
  "\<exists>md t. schedule demo_engine (\<lambda>_. 0) False demo_urgent = (Inr md, t) \<and> pending_switch t = Some (demo_bank CHR ''s'')"
  by (simp add: demo_urgent_def demo_flushed_def scheduler_defs demo_bank_def demo_row_def
      cong: sbind_argument modify_argument let_weak_cong)

theorem interrupted_responses_are_parked_witness:
  "\<exists>md t. schedule demo_engine (\<lambda>_. 0) False demo_urgent = (Inr md, t)
    \<and> map_of (parked_requests t) (demo_bank CHR ''r'') = Some 1 \<and> level_at 0 demo_urgent (Some (demo_bank CHR ''s'')) = 2"
proof -
  obtain md t where t: "schedule demo_engine (\<lambda>_. 0) False demo_urgent = (Inr md, t)" "pending_switch t = Some (demo_bank CHR ''s'')"
    using demo_urgent_switches by blast
  have "pending_switch demo_urgent = None" "running_requests demo_urgent = [1]" "active_bank demo_urgent = Some (demo_bank CHR ''r'')"
    by (simp_all add: demo_urgent_def demo_flushed_def)
  then show ?thesis
    using interrupted_responses_are_parked [OF demo_engine_orders demo_urgent_ok _ _ t] t(1) by auto
qed

end
