(* ===== verification/Spec2Isabelle.thy ===== *)
theory Spec2Isabelle
  imports Snapshot_Geometry Live_Capability Restart_Properties Authority_Properties Gate_Properties
    Allocator_Properties Tree_Properties B7_Round Policy_Properties Physical_Properties Worker_Properties
    Grammar_Properties Auxiliary_Properties M1_Plan Bank_Properties Chat_Properties Chat_Fairness
begin

text \<open>
  \<^bold>\<open>Verification library for the vLLM Coherence backend.\<close>

  The repository serves a large language model with vLLM on one GPU and proposes several
  tokens per round with a trained drafter.  What makes such a server correct is decided by a
  few thousand lines under \<open>src/src/qwen_r9700_lab\<close> and by the scheduler that shares the GPU
  between chats, which this library models: a round may only release tokens that the serial
  model would have produced, a faulty candidate path must be caught, recorded and switched off
  without disturbing the canonical state, and a chat that was moved to RAM must come back with
  its cache as it was.

  \<^bold>\<open>Parts and how they interact.\<close>  A round is opened by the runtime gate, which asks the
  controller to run it.  The controller takes a snapshot, lets the optimized candidate and the
  independent serial implementation run on private state, compares the two, writes a receipt
  into its journal and publishes the serial result.  What it calls is a driver; the vLLM driver
  forwards to the scheduler authority, which owns three physical roots (one canonical, two
  private) and hands every published advance out once.  The root tables and the allocator
  provide those roots from vLLM's block pool; on the worker, the physical, auxiliary and
  grammar roots copy, execute and restore the state the roots name, and the two executor
  proxies carry the calls to the worker and authenticate what comes back.  A proposal is a
  tree of seven tokens, planned from the drafter's lattice, verified against the target model
  and compacted; smaller policies decide when to leave a repetition and when to reuse a page
  ranking.  Beside this, the fair scheduler chooses which chat has the GPU: it wraps vLLM's
  scheduler, keeps one block allocator per chat, and sends every step a frame to the worker,
  which swaps the bytes of the outgoing and the incoming chat through pinned RAM.

  \<^bold>\<open>Vocabulary.\<close>  \<open>Prelude\<close> has the two styles all theories use: a validator is a sum
  \<open>error + value\<close>; a method is an action, a function of the state that returns an error or a
  value together with the state reached, so that an exception keeps the assignments made
  before it.  \<open>keeps\<close>, \<open>fails_keeping\<close> and \<open>raises_only\<close> are the relations and errors of
  actions; the locale \<open>history\<close> proves the rules for reflexive and transitive relations once,
  and each component interprets it on its own order.  \<open>Loops\<close> does the same for loops of
  actions, \<open>One_Shot\<close> is the locale of a hand-off that is consumed once, interpreted on the
  gate and on the authority.

  \<^bold>\<open>Theories and sources\<close> (paths are below \<open>src/src/qwen_r9700_lab\<close> unless they begin with
  \<open>experiments\<close>):
  \<^item> \<open>Live_State\<close>, \<open>Live_Receipt\<close>, \<open>Live_Ledger\<close>, \<open>Live_Capability\<close>:
    \<open>live_commit_validation.py\<close>, the normalized state of 64 layers, receipts, chained
    ledgers and the capability that authenticates the running files.
  \<^item> \<open>Live_Journal\<close>, \<open>Live_Journal_Load\<close>, \<open>Live_Controller\<close>, \<open>Live_Recovery\<close>:
    \<open>live_commit_controller.py\<close>, the durable evidence, \<open>run_round\<close> stage by stage,
    finalization and restart.  \<open>Controller_Safety\<close>, \<open>Controller_Restoration\<close>,
    \<open>Controller_Session\<close>, \<open>Publication_Gap\<close> hold the lemmas, \<open>Commit_Properties\<close> and
    \<open>Restart_Properties\<close> the claims: a round publishes the serial result under a durable
    receipt, a refused round restores the canonical state, the chain survives sessions and
    restarts, and the one publication that is not restored (its reported state does not
    normalize).
  \<^item> \<open>Runtime_Gate\<close>, \<open>Gate_Safety\<close>, \<open>Gate_Properties\<close>: \<open>live_commit_runtime_gate.py\<close>; the
    released tokens are those of the receipts, in order and once.
  \<^item> \<open>Vllm_Driver\<close>: the operations of \<open>live_commit_vllm_driver.py\<close>.
  \<^item> \<open>Scheduler_Authority\<close>, \<open>Authority_Safety\<close>, \<open>Authority_Properties\<close>:
    \<open>live_commit_scheduler_authority.py\<close>, with the step relation of its methods and
    invariants over every sequence of them.
  \<^item> \<open>Root_Tables\<close>, \<open>Root_Allocator\<close>, \<open>Allocator_Safety\<close>, \<open>Allocator_Ownership\<close>,
    \<open>Allocator_Liveness\<close>, \<open>Allocator_Properties\<close>: \<open>live_commit_vllm_root_tables.py\<close>;
    isolation of the roots and the exact balance of block references.
  \<^item> \<open>Physical_Roots\<close>, \<open>Physical_Safety\<close>, \<open>Physical_Liveness\<close>, \<open>Physical_Properties\<close>:
    \<open>live_commit_vllm_physical_roots.py\<close>; what a copy may write, what it has written (at every
    position but those of a null block that is itself declared writable), and when it
    succeeds.
  \<^item> \<open>Auxiliary_Roots\<close>, \<open>Auxiliary_Safety\<close>, \<open>Auxiliary_Properties\<close>:
    \<open>live_commit_vllm_auxiliary_roots.py\<close>; capture and restore are inverse, private
    execution restores the scratch state or names the field or table that blocks the
    restoration, publication is atomic.
  \<^item> \<open>Grammar_Roots\<close>, \<open>Grammar_Safety\<close>, \<open>Grammar_Properties\<close>:
    \<open>live_commit_vllm_grammar_roots.py\<close>; replay of the matchers and their isolation, also when
    the request loses its structured-output object.
  \<^item> \<open>Worker_Protocol\<close>, \<open>Worker_Properties\<close>: \<open>live_commit_vllm_worker_protocol.py\<close>,
    \<open>live_commit_vllm_candidate_executor.py\<close>, \<open>live_commit_vllm_serial_executor.py\<close>.
  \<^item> \<open>M1_Plan\<close>: \<open>live_commit_vllm_m1_plan.py\<close>.
  \<^item> \<open>Snapshot_Geometry\<close>: \<open>snapshot_geometry.py\<close>, the checkpoint arithmetic.
  \<^item> \<open>Tree_Contract\<close>: \<open>tree_attention_contract.py\<close> and \<open>tree_runtime.py\<close>;
    \<open>Bole_Reference\<close>, \<open>Bole_Equivalence\<close>: \<open>bole_reference.py\<close>, the factorized recurrent
    tree verification and its equality with the sequential reference; \<open>Tree_Planner\<close>,
    \<open>Tree_Verification\<close>: \<open>dflash_trained_tree.py\<close>; \<open>B7_Round\<close>: \<open>dflash_b7_runtime.py\<close>
    and the round as a whole; the claims are in \<open>Tree_Properties\<close> and \<open>B7_Round\<close>.
  \<^item> \<open>Repetition_Escape\<close>, \<open>Logical_Pages\<close>, \<open>Page_Reuse\<close>, \<open>Policy_Properties\<close>:
    \<open>repetition_escape.py\<close>, \<open>logical_page_contract.py\<close>, \<open>quest_page_reuse.py\<close>.
  \<^item> \<open>Bank_Memory\<close>, \<open>Bank_Images\<close>: \<open>WorkerBanks\<close> of
    \<open>experiments/radiance-public/radiance_fair_scheduler.py\<close> and the size computation of
    \<open>radiance_pinned_memory.py\<close>: the layout, the pinned arena, the copies in the queue of the
    device, the handover.  \<open>Bank_Copies\<close>, \<open>Bank_Swaps\<close>, \<open>Bank_Safety\<close>, \<open>Bank_Protocol\<close> hold
    the lemmas: what a copy and a swap leave in memory whatever the stream has done, and the
    refinement of the table of parked chats; \<open>Bank_Properties\<close> the claims.
  \<^item> \<open>Chat_Priorities\<close>, \<open>Chat_Scheduler\<close>: \<open>AnswerPriorities\<close>, \<open>ToolHandover\<close>, \<open>CacheBanks\<close> and
    \<open>FairScheduler\<close> of the same file.  \<open>Chat_Room\<close>, \<open>Chat_Choice\<close>, \<open>Chat_Order\<close> say what the
    choice of a chat may do to the banks and which chat it takes; \<open>Chat_Switches\<close> has the
    invariant of the banks with and without a switch on its way; \<open>Chat_Server\<close> runs the
    scheduler and the worker in lockstep, with any arrivals, reports and computations between
    the steps.  The claims are in \<open>Chat_Properties\<close> and \<open>Chat_Fairness\<close>.
  \<^item> \<open>Demo_Driver\<close>, \<open>Chat_Demo\<close> and the first parts of the property theories hold the concrete instances on
    which the claims are evaluated.

  \<^bold>\<open>State and operations.\<close>  A Python object is a record of its attributes, a method an action
  on it with the guards of the code in their order; a dictionary is a finite or partial map, or
  an association list where the code depends on its order; an exception class with its call
  site is a constructor of an error type.  Integers are unbounded, as in Python.  Code that is
  not in the repository is a parameter: the worker, the block pool, the matchers, the buffers
  of the runner, digests, the file system, vLLM's own scheduler (\<open>engine\<close>), how far the stream
  of the device has got (\<open>progress\<close>), the readings of the clock and the order in which Python
  walks a set.  What a claim needs of it is a named hypothesis
  (for example \<open>resets_to\<close> for a matcher, \<open>mirrors_copy\<close> for a buffer) which a witness
  instantiates.  A context manager is an operation that takes the body of the \<open>with\<close> statement
  as an action, about which nothing is assumed unless a hypothesis says so.

  \<^bold>\<open>Bounds and termination.\<close>  All definitions are total.  Greedy verification walks the tree
  with the number of nodes as fuel and every step goes to a later node, so that the fuel is
  never used up (\<open>Tree_Verification\<close>); the planner recurses on the number of nodes left.  The
  scan for periods is bounded by the longest admissible period.

  \<^bold>\<open>Abstractions.\<close>  A lock is the atomicity of the method that holds it.  Scores and
  recurrent states are reals or elements of a field, so rounding, infinities and not-a-number
  are outside of the model; the equality of tensors is a parameter because it is not
  reflexive on them.  A digest is a function; injectivity is a hypothesis where a claim needs
  it.  The metadata of a tree has integers where the code applies \<open>int\<close> to what it is given; the
  caches of the layers are separate tensors; the chats are put in order with one reading of the
  clock for all of them, where the code reads it for each.  Asynchronous exceptions, file-system failures in the journal and the process boundary are
  not modelled.

  \<^bold>\<open>Not modelled.\<close>  Of the modelled files: the command-line entry points, the checks that
  inspect Python types, classes or the module's own source, the look-up of modules in the runner
  and of environment variables.  Of \<open>dflash_trained_tree.py\<close>, the older planner
  \<open>build_trained_dflash_tree\<close>.  Of the fair scheduler: phase telemetry and status files, the
  reclaim of blocks under pressure, the caches of response ends and the policy that maps host
  memory.  Of the repository: the persistent and prefix caches
  (\<open>persistent_cache.py\<close>, \<open>radiance_*\<close>), which are file formats and process supervision around
  the engine; the conformance, assurance, qualification and benchmark tools (\<open>conformance_*\<close>,
  \<open>assurance_*\<close>, \<open>kernel_*\<close>, \<open>coding_turbo_*\<close>), which run the engine and compare recorded
  evidence; the overlays that patch vLLM at import time; the GPU kernels; the other experiments,
  scripts and integrations.
\<close>

end
